(* ===== verification/Rust_Prelude.thy ===== *)
theory Rust_Prelude
  imports Main "HOL-Library.Word" "HOL-Library.FSet" "HOL-Library.AList"
    "HOL-Library.Char_ord" "HOL-Library.List_Lexorder" "HOL-Library.Sublist"
begin

text \<open>
  The part of Rust and of its standard library that the modelled modules use:
  results and the \<^verbatim>\<open>?\<close> operator, \<^verbatim>\<open>String\<close>, byte order, \<^verbatim>\<open>HashMap\<close>, checked arithmetic.

  \<^item> \<^verbatim>\<open>Result<T, E>\<close> is the sum type \<open>'e + 'a\<close>, \<open>Inl\<close> the error. A chain of \<^verbatim>\<open>?\<close> is a chain of
    \<open>and_then\<close>; \<open>ensure P e\<close> is \<^verbatim>\<open>if !P { return Err(e) }\<close>.
  \<^item> \<^verbatim>\<open>String\<close> and \<^verbatim>\<open>&str\<close> are \<^typ>\<open>string\<close>, the sequence of their UTF-8 bytes: \<^verbatim>\<open>len()\<close> is
    \<^const>\<open>length\<close>, comparison is the bytewise lexicographic order (\<^verbatim>\<open>Ord for str\<close>), and the
    operations that look at code points (\<^verbatim>\<open>trim\<close>, \<^verbatim>\<open>char::is_control\<close>) decode the bytes.
  \<^item> \<^verbatim>\<open>u8\<close>, \<^verbatim>\<open>u16\<close>, \<^verbatim>\<open>u32\<close>, \<^verbatim>\<open>u64\<close> are words of that width; \<^verbatim>\<open>usize\<close> lengths and counters are
    \<^typ>\<open>nat\<close>; \<^verbatim>\<open>i64\<close> times, which the code compares and offsets by constants, are \<^typ>\<open>int\<close>.
  \<^item> \<^verbatim>\<open>HashMap\<close> is an association list with distinct keys, \<^verbatim>\<open>BTreeSet\<close> is \<^typ>\<open>'a fset\<close>.
\<close>

section \<open>Collections of rewrite rules\<close>

named_theorems res_simps \<open>inversion of results: when a checked computation returns a value\<close>
named_theorems hmap_simps \<open>lookup after an update of a hash map\<close>

section \<open>Results\<close>

definition and_then :: "'e + 'a \<Rightarrow> ('a \<Rightarrow> 'e + 'b) \<Rightarrow> 'e + 'b" where
  "and_then m f = (case m of Inl e \<Rightarrow> Inl e | Inr x \<Rightarrow> f x)"

definition ensure :: "bool \<Rightarrow> 'e \<Rightarrow> 'e + unit" where
  "ensure P e = (if P then Inr () else Inl e)"

definition ok_or :: "'a option \<Rightarrow> 'e \<Rightarrow> 'e + 'a" where
  "ok_or x e = (case x of None \<Rightarrow> Inl e | Some v \<Rightarrow> Inr v)"

definition is_ok :: "'e + 'a \<Rightarrow> bool" where
  "is_ok r = (case r of Inl _ \<Rightarrow> False | Inr _ \<Rightarrow> True)"

text \<open>\<^verbatim>\<open>for x in xs { f(x)?; }\<close>: the first error stops the loop.\<close>

fun try_all :: "('a \<Rightarrow> 'e + unit) \<Rightarrow> 'a list \<Rightarrow> 'e + unit" where
  "try_all f [] = Inr ()"
| "try_all f (x # xs) = (case f x of Inl e \<Rightarrow> Inl e | Inr _ \<Rightarrow> try_all f xs)"

lemma and_then_simps [simp]:
  "and_then (Inl e) f = Inl e" "and_then (Inr x) f = f x"
  by (simp_all add: and_then_def)

lemma and_then_Inr [res_simps]: "and_then m f = Inr y \<longleftrightarrow> (\<exists>x. m = Inr x \<and> f x = Inr y)"
  by (cases m) auto

lemma and_then_Inl [res_simps]:
  "and_then m f = Inl e \<longleftrightarrow> m = Inl e \<or> (\<exists>x. m = Inr x \<and> f x = Inl e)"
  by (cases m) auto

lemma ensure_Inr [simp]: "ensure P e = Inr u \<longleftrightarrow> P"
  by (simp add: ensure_def)

lemma ensure_Inl [simp]: "ensure P e = Inl e' \<longleftrightarrow> \<not> P \<and> e' = e"
  by (auto simp: ensure_def)

lemma ensure_True [simp]: "ensure True e = Inr ()"
  by (simp add: ensure_def)

lemma ensure_False [simp]: "ensure False e = Inl e"
  by (simp add: ensure_def)

lemma ok_or_simps [simp]: "ok_or None e = Inl e" "ok_or (Some x) e = Inr x"
  by (simp_all add: ok_or_def)

lemma ok_or_Inr [res_simps]: "ok_or x e = Inr y \<longleftrightarrow> x = Some y"
  by (cases x) auto

lemma ok_or_Inl [res_simps]: "ok_or x e = Inl e' \<longleftrightarrow> x = None \<and> e' = e"
  by (cases x) auto

lemma is_ok_simps [simp]: "is_ok (Inl e) = False" "is_ok (Inr x) = True"
  by (simp_all add: is_ok_def)

lemma is_ok_iff: "is_ok r \<longleftrightarrow> (\<exists>x. r = Inr x)"
  by (cases r) auto

lemma is_ok_unit: "is_ok r \<longleftrightarrow> r = Inr ()" for r :: "'e + unit"
  by (cases r) auto

lemma try_all_Inr [res_simps]: "try_all f xs = Inr u \<longleftrightarrow> (\<forall>x \<in> set xs. f x = Inr ())"
  by (induction xs) (auto split: sum.splits)

section \<open>Unsigned integers\<close>

type_synonym byte = "8 word"
type_synonym u16 = "16 word"
type_synonym u32 = "32 word"
type_synonym u64 = "64 word"

definition checked_add :: "'a::len word \<Rightarrow> 'a word \<Rightarrow> 'a word option" where
  "checked_add a b = (if unat a + unat b < 2 ^ LENGTH('a) then Some (a + b) else None)"

lemma checked_add_Some:
  "checked_add a b = Some c \<longleftrightarrow> c = a + b \<and> unat a + unat b < 2 ^ LENGTH('a)" for a :: "'a::len word"
  by (auto simp: checked_add_def)

lemma unat_checked_add: "checked_add a b = Some c \<Longrightarrow> unat c = unat a + unat b"
  for a :: "'a::len word"
  by (auto simp: checked_add_def unat_word_ariths split: if_splits)

lemma checked_add_ge: "checked_add a b = Some c \<Longrightarrow> a \<le> c \<and> b \<le> c" for a :: "'a::len word"
  by (auto dest!: unat_checked_add simp: word_le_nat_alt)

text \<open>\<^verbatim>\<open>to_be_bytes\<close> and \<^verbatim>\<open>from_be_bytes\<close>, most significant byte first.\<close>

fun be_bytes :: "nat \<Rightarrow> nat \<Rightarrow> byte list" where
  "be_bytes 0 k = []"
| "be_bytes (Suc n) k = be_bytes n (k div 256) @ [of_nat (k mod 256)]"

definition be_value :: "byte list \<Rightarrow> nat" where
  "be_value bs = foldl (\<lambda>acc b. acc * 256 + unat b) 0 bs"

definition to_be_bytes :: "'a::len word \<Rightarrow> byte list" where
  "to_be_bytes w = be_bytes (LENGTH('a) div 8) (unat w)"

definition from_be_bytes :: "byte list \<Rightarrow> 'a::len word" where
  "from_be_bytes bs = of_nat (be_value bs)"

text \<open>\<^verbatim>\<open>i64::to_le_bytes\<close>: two's complement, least significant byte first.\<close>

definition i64_to_le_bytes :: "int \<Rightarrow> byte list" where
  "i64_to_le_bytes x = rev (be_bytes 8 (nat (x mod 2 ^ 64)))"

lemma length_be_bytes [simp]: "length (be_bytes n k) = n"
  by (induction n arbitrary: k) auto

lemma be_value_snoc: "be_value (bs @ [b]) = be_value bs * 256 + unat b"
  by (simp add: be_value_def)

lemma unat_of_nat_mod_256 [simp]: "unat (of_nat (k mod 256) :: byte) = k mod 256"
  by (simp add: unat_of_nat)

lemma be_value_be_bytes: "be_value (be_bytes n k) = k mod 256 ^ n"
proof (induction n arbitrary: k)
  case 0
  then show ?case by (simp add: be_value_def)
next
  case (Suc n)
  have "k mod 256 ^ Suc n = (k div 256 mod 256 ^ n) * 256 + k mod 256"
    by (simp add: mod_mult2_eq mult.commute)
  with Suc show ?case by (simp add: be_value_snoc del: of_nat_mod)
qed

lemma be_value_less: "be_value bs < 256 ^ length bs"
proof (induction bs rule: rev_induct)
  case Nil
  then show ?case by (simp add: be_value_def)
next
  case (snoc b bs)
  have "unat b < 256" using unsigned_less [of b, where ?'a = nat] by simp
  with snoc have "be_value bs * 256 + unat b < 256 ^ length bs * 256"
    by linarith
  then show ?case by (simp add: be_value_snoc)
qed

lemma be_bytes_be_value: "be_bytes (length bs) (be_value bs) = bs"
proof (induction bs rule: rev_induct)
  case Nil
  then show ?case by simp
next
  case (snoc b bs)
  have b: "unat b < 256" using unsigned_less [of b, where ?'a = nat] by simp
  then have "(be_value bs * 256 + unat b) div 256 = be_value bs"
    and "(be_value bs * 256 + unat b) mod 256 = unat b" by auto
  with snoc show ?case by (simp add: be_value_snoc)
qed

definition in_i64 :: "int \<Rightarrow> bool" where
  "in_i64 x \<longleftrightarrow> - (2 ^ 63) \<le> x \<and> x < 2 ^ 63"

lemma i64_to_le_bytes_inj:
  assumes "in_i64 x" and "in_i64 y" and "i64_to_le_bytes x = i64_to_le_bytes y"
  shows "x = y"
proof -
  from assms(3) have "be_bytes 8 (nat (x mod 2 ^ 64)) = be_bytes 8 (nat (y mod 2 ^ 64))"
    unfolding i64_to_le_bytes_def by (simp only: rev_is_rev_conv)
  then have "nat (x mod 2 ^ 64) mod 256 ^ 8 = nat (y mod 2 ^ 64) mod 256 ^ 8"
    by (metis be_value_be_bytes)
  moreover have "nat (z mod 2 ^ 64) < 256 ^ 8" for z :: int
    by (simp add: nat_less_iff)
  ultimately have "nat (x mod 2 ^ 64) = nat (y mod 2 ^ 64)" by simp
  then have "x mod 2 ^ 64 = y mod 2 ^ 64" by (simp add: nat_eq_iff)
  then have "2 ^ 64 dvd x - y" by (simp only: mod_eq_dvd_iff)
  moreover have "\<bar>x - y\<bar> < 2 ^ 64" using assms(1,2) by (auto simp: in_i64_def abs_less_iff)
  ultimately have "x - y = 0" using dvd_imp_le_int [of "x - y" "2 ^ 64"] by fastforce
  then show ?thesis by simp
qed

lemma length_to_be_bytes [simp]: "length (to_be_bytes w) = LENGTH('a) div 8" for w :: "'a::len word"
  by (simp add: to_be_bytes_def)

lemma be_value_to_be_bytes:
  fixes w :: "'a::len word"
  assumes "8 dvd LENGTH('a)"
  shows "be_value (to_be_bytes w) = unat w"
proof -
  obtain m where m: "LENGTH('a) = 8 * m" using assms by (elim dvdE)
  have "256 ^ m = (2::nat) ^ LENGTH('a)" by (simp add: m power_mult)
  then have "unat w < 256 ^ m" using unsigned_less [of w, where ?'a = nat] by simp
  then show ?thesis by (simp add: to_be_bytes_def m be_value_be_bytes)
qed

lemma from_to_be_bytes:
  fixes w :: "'a::len word"
  assumes "8 dvd LENGTH('a)"
  shows "from_be_bytes (to_be_bytes w) = w"
  by (simp add: from_be_bytes_def be_value_to_be_bytes [OF assms])

lemma to_from_be_bytes:
  assumes "length bs = LENGTH('a) div 8" and "8 dvd LENGTH('a)"
  shows "to_be_bytes (from_be_bytes bs :: 'a::len word) = bs"
proof -
  obtain m where m: "LENGTH('a) = 8 * m" using assms(2) by (elim dvdE)
  have "256 ^ m = (2::nat) ^ LENGTH('a)" by (simp add: m power_mult)
  with be_value_less [of bs] assms(1) m have "be_value bs < 2 ^ LENGTH('a)" by simp
  then have "unat (of_nat (be_value bs) :: 'a word) = be_value bs"
    by (simp add: unat_of_nat)
  then show ?thesis
    using be_bytes_be_value [of bs] assms(1) by (simp add: to_be_bytes_def from_be_bytes_def)
qed

lemma from_to_be_bytes_u16 [simp]: "from_be_bytes (to_be_bytes w) = (w :: u16)"
  and from_to_be_bytes_u32 [simp]: "from_be_bytes (to_be_bytes v) = (v :: u32)"
  and from_to_be_bytes_u64 [simp]: "from_be_bytes (to_be_bytes x) = (x :: u64)"
  by (rule from_to_be_bytes; simp)+

section \<open>Strings\<close>

definition as_bytes :: "string \<Rightarrow> byte list" where
  "as_bytes s = map of_char s"

lemma length_as_bytes [simp]: "length (as_bytes s) = length s"
  by (simp add: as_bytes_def)

lemma as_bytes_append [simp]: "as_bytes (s @ t) = as_bytes s @ as_bytes t"
  by (simp add: as_bytes_def)

lemma unat_of_char [simp]: "unat (of_char c :: byte) = of_char c"
proof -
  have "(of_char c :: byte) = of_nat (of_char c)" by (simp only: of_nat_of_char)
  moreover have "of_char c mod 256 = (of_char c :: nat)" by simp
  ultimately show ?thesis by (simp only: unat_of_nat) simp
qed

lemma inj_byte_of_char: "inj (of_char :: char \<Rightarrow> byte)"
proof (rule injI)
  fix c d :: char
  assume "(of_char c :: byte) = of_char d"
  then have "unat (of_char c :: byte) = unat (of_char d :: byte)" by simp
  then show "c = d" by simp
qed

lemma inj_as_bytes: "inj as_bytes"
  unfolding as_bytes_def by (rule inj_mapI) (rule inj_byte_of_char)

lemma as_bytes_eq_iff [simp]: "as_bytes s = as_bytes t \<longleftrightarrow> s = t"
  using inj_as_bytes by (auto dest: injD)

text \<open>
  \<^verbatim>\<open>str::trim\<close>: the code points with the Unicode property \<open>White_Space\<close>, in UTF-8. One byte:
  U+0009 to U+000D and U+0020; two bytes: U+0085 and U+00A0; three bytes: U+1680, U+2000 to U+200A,
  U+2028, U+2029, U+202F, U+205F and U+3000.
\<close>

definition ws1 :: "char \<Rightarrow> bool" where
  "ws1 c \<longleftrightarrow> (let b = (of_char c :: nat) in 9 \<le> b \<and> b \<le> 13 \<or> b = 32)"

definition ws2 :: "char \<Rightarrow> char \<Rightarrow> bool" where
  "ws2 c d \<longleftrightarrow> (of_char c :: nat) = 194 \<and> of_char d \<in> {133, 160 :: nat}"

definition ws3 :: "char \<Rightarrow> char \<Rightarrow> char \<Rightarrow> bool" where
  "ws3 c d e \<longleftrightarrow>
     (let b = (of_char c :: nat); b' = (of_char d :: nat); b'' = (of_char e :: nat) in
      b = 225 \<and> b' = 154 \<and> b'' = 128
      \<or> b = 226 \<and> b' = 128 \<and> (128 \<le> b'' \<and> b'' \<le> 138 \<or> b'' \<in> {168, 169, 175})
      \<or> b = 226 \<and> b' = 129 \<and> b'' = 159
      \<or> b = 227 \<and> b' = 128 \<and> b'' = 128)"

fun trim_start :: "string \<Rightarrow> string" where
  "trim_start [] = []"
| "trim_start (c # s) =
     (if ws1 c then trim_start s
      else case s of
        [] \<Rightarrow> c # s
      | d # t \<Rightarrow>
          (if ws2 c d then trim_start t
           else case t of
             [] \<Rightarrow> c # s
           | e # u \<Rightarrow> (if ws3 c d e then trim_start u else c # s)))"

text \<open>The same from the end, on the reversed bytes.\<close>

fun trim_rev :: "string \<Rightarrow> string" where
  "trim_rev [] = []"
| "trim_rev (c # s) =
     (if ws1 c then trim_rev s
      else case s of
        [] \<Rightarrow> c # s
      | d # t \<Rightarrow>
          (if ws2 d c then trim_rev t
           else case t of
             [] \<Rightarrow> c # s
           | e # u \<Rightarrow> (if ws3 e d c then trim_rev u else c # s)))"

definition trim :: "string \<Rightarrow> string" where
  "trim s = rev (trim_rev (rev (trim_start s)))"

lemma trim_empty [simp]: "trim [] = []"
  by (simp add: trim_def)

text \<open>\<^verbatim>\<open>s.chars().any(char::is_control)\<close>: U+0000 to U+001F, U+007F, and U+0080 to U+009F, which UTF-8
  writes as the lead byte 194 followed by the code point.\<close>

fun has_control :: "string \<Rightarrow> bool" where
  "has_control [] = False"
| "has_control (c # s) =
     (of_char c < (32::nat) \<or> of_char c = (127::nat)
      \<or> (of_char c = (194::nat) \<and>
         (case s of [] \<Rightarrow> False | d # _ \<Rightarrow> 128 \<le> (of_char d :: nat) \<and> of_char d \<le> (159::nat)))
      \<or> has_control s)"

definition contains_char :: "char \<Rightarrow> string \<Rightarrow> bool" where
  "contains_char c s \<longleftrightarrow> c \<in> set s"

definition starts_with :: "string \<Rightarrow> string \<Rightarrow> bool" where
  "starts_with p s \<longleftrightarrow> prefix p s"

definition strip_prefix :: "string \<Rightarrow> string \<Rightarrow> string option" where
  "strip_prefix p s = (if prefix p s then Some (drop (length p) s) else None)"

definition ascii_lower :: "char \<Rightarrow> char" where
  "ascii_lower c = (let b = (of_char c :: nat) in if 65 \<le> b \<and> b \<le> 90 then char_of (b + 32) else c)"

definition to_ascii_lowercase :: "string \<Rightarrow> string" where
  "to_ascii_lowercase s = map ascii_lower s"

definition is_ascii_hexdigit :: "char \<Rightarrow> bool" where
  "is_ascii_hexdigit c \<longleftrightarrow>
     (let b = (of_char c :: nat) in
      48 \<le> b \<and> b \<le> 57 \<or> 65 \<le> b \<and> b \<le> 70 \<or> 97 \<le> b \<and> b \<le> 102)"

lemma strip_prefix_Some [res_simps]: "strip_prefix p s = Some r \<longleftrightarrow> s = p @ r"
  by (auto simp: strip_prefix_def prefix_def)

lemma starts_with_append [simp]: "starts_with p (p @ s)"
  by (simp add: starts_with_def)

text \<open>\<^verbatim>\<open>s.split(c)\<close>: the parts between the separators, at least one.\<close>

fun split_on :: "char \<Rightarrow> string \<Rightarrow> string list" where
  "split_on c [] = [[]]"
| "split_on c (x # s) =
     (if x = c then [] # split_on c s
      else case split_on c s of [] \<Rightarrow> [[x]] | p # ps \<Rightarrow> (x # p) # ps)"

lemma split_on_nonempty [simp]: "split_on c s \<noteq> []"
  by (cases s) (auto split: list.splits)

lemma split_on_append:
  "split_on c (s @ c # t) = split_on c s @ split_on c t"
  by (induction s) (auto split: list.splits simp: append_eq_Cons_conv)

lemma split_on_no_sep: "c \<notin> set s \<Longrightarrow> split_on c s = [s]"
  by (induction s) auto

section \<open>Hash maps\<close>

type_synonym ('k, 'v) hmap = "('k \<times> 'v) list"

abbreviation hm_wf :: "('k, 'v) hmap \<Rightarrow> bool" where
  "hm_wf m \<equiv> distinct (map fst m)"

definition hm_get :: "('k, 'v) hmap \<Rightarrow> 'k \<Rightarrow> 'v option" where
  "hm_get m k = map_of m k"

definition hm_contains :: "('k, 'v) hmap \<Rightarrow> 'k \<Rightarrow> bool" where
  "hm_contains m k = (map_of m k \<noteq> None)"

definition hm_insert :: "'k \<Rightarrow> 'v \<Rightarrow> ('k, 'v) hmap \<Rightarrow> ('k, 'v) hmap" where
  "hm_insert k v m = AList.update k v m"

definition hm_remove :: "'k \<Rightarrow> ('k, 'v) hmap \<Rightarrow> ('k, 'v) hmap" where
  "hm_remove k m = AList.delete k m"

text \<open>\<^verbatim>\<open>if let Some(v) = m.get_mut(k) { *v = f(v) }\<close>.\<close>

definition hm_modify :: "'k \<Rightarrow> ('v \<Rightarrow> 'v) \<Rightarrow> ('k, 'v) hmap \<Rightarrow> ('k, 'v) hmap" where
  "hm_modify k f m = map (\<lambda>(k', v). (k', if k' = k then f v else v)) m"

text \<open>\<^verbatim>\<open>for v in m.values_mut() { *v = f(v) }\<close>.\<close>

definition hm_map_values :: "('v \<Rightarrow> 'v) \<Rightarrow> ('k, 'v) hmap \<Rightarrow> ('k, 'v) hmap" where
  "hm_map_values f m = map (\<lambda>(k, v). (k, f v)) m"

definition hm_retain :: "('k \<Rightarrow> 'v \<Rightarrow> bool) \<Rightarrow> ('k, 'v) hmap \<Rightarrow> ('k, 'v) hmap" where
  "hm_retain P m = filter (\<lambda>(k, v). P k v) m"

definition hm_values :: "('k, 'v) hmap \<Rightarrow> 'v list" where
  "hm_values m = map snd m"

definition hm_keys :: "('k, 'v) hmap \<Rightarrow> 'k list" where
  "hm_keys m = map fst m"

lemma hm_get_empty [simp]: "hm_get [] k = None"
  by (simp add: hm_get_def)

lemma hm_contains_iff: "hm_contains m k \<longleftrightarrow> hm_get m k \<noteq> None"
  by (simp add: hm_contains_def hm_get_def)

lemma hm_get_insert [hmap_simps]: "hm_get (hm_insert k v m) = (hm_get m)(k \<mapsto> v)"
  by (simp add: hm_get_def hm_insert_def update_conv' fun_eq_iff)

lemma hm_get_remove [hmap_simps]: "hm_get (hm_remove k m) = (hm_get m)(k := None)"
  by (simp add: hm_get_def hm_remove_def delete_conv' fun_eq_iff)

lemma hm_get_map_values [hmap_simps]: "hm_get (hm_map_values f m) k = map_option f (hm_get m k)"
  by (simp add: hm_get_def hm_map_values_def map_of_map)

lemma hm_get_modify [hmap_simps]:
  "hm_get (hm_modify k f m) k' = (if k' = k then map_option f (hm_get m k) else hm_get m k')"
  by (induction m) (auto simp: hm_get_def hm_modify_def)

lemma hm_get_retain [hmap_simps]:
  assumes "hm_wf m"
  shows "hm_get (hm_retain P m) k =
    (case hm_get m k of None \<Rightarrow> None | Some v \<Rightarrow> if P k v then Some v else None)"
proof -
  have "map_of m' k = None" if "k \<notin> fst ` set m'" for m' :: "('a \<times> 'b) list"
    using that by (simp add: map_of_eq_None_iff)
  with assms show ?thesis
    by (induction m) (auto simp: hm_get_def hm_retain_def map_of_eq_None_iff split: option.splits)
qed

lemma hm_wf_insert [simp]: "hm_wf m \<Longrightarrow> hm_wf (hm_insert k v m)"
  by (simp add: hm_insert_def distinct_update)

lemma hm_wf_remove [simp]: "hm_wf m \<Longrightarrow> hm_wf (hm_remove k m)"
  by (simp add: hm_remove_def distinct_delete)

lemma hm_wf_modify [simp]: "hm_wf (hm_modify k f m) = hm_wf m"
  by (simp add: hm_modify_def case_prod_beta comp_def)

lemma hm_wf_map_values [simp]: "hm_wf (hm_map_values f m) = hm_wf m"
  by (simp add: hm_map_values_def case_prod_beta comp_def)

lemma hm_wf_retain [simp]: "hm_wf m \<Longrightarrow> hm_wf (hm_retain P m)"
  by (simp add: hm_retain_def distinct_map_filter)

lemma hm_get_in_values: "hm_get m k = Some v \<Longrightarrow> v \<in> set (hm_values m)"
  by (force simp: hm_get_def hm_values_def dest: map_of_SomeD)

lemma hm_get_pair: "hm_get m k = Some v \<Longrightarrow> (k, v) \<in> set m"
  by (simp add: hm_get_def map_of_SomeD)

lemma hm_pair_get: "hm_wf m \<Longrightarrow> (k, v) \<in> set m \<Longrightarrow> hm_get m k = Some v"
  by (simp add: hm_get_def)

lemma hm_keys_iff: "k \<in> set (hm_keys m) \<longleftrightarrow> hm_get m k \<noteq> None"
  by (auto simp: hm_keys_def hm_get_def map_of_eq_None_iff)

lemma hm_insert_fresh: "hm_get m k = None \<Longrightarrow> hm_insert k v m = m @ [(k, v)]"
  by (induction m) (auto simp: hm_get_def hm_insert_def split: if_splits)

section \<open>Ordered maps\<close>

text \<open>\<^verbatim>\<open>BTreeMap\<close>: an association list in the strict order of its keys. \<open>bt_collect\<close> is
  \<^verbatim>\<open>iter.collect::<BTreeMap<_, _>>()\<close>: a later pair replaces an earlier one with the same key.\<close>

fun bt_insert :: "'k::linorder \<Rightarrow> 'v \<Rightarrow> ('k \<times> 'v) list \<Rightarrow> ('k \<times> 'v) list" where
  "bt_insert k v [] = [(k, v)]"
| "bt_insert k v ((k', v') # m) =
     (if k < k' then (k, v) # (k', v') # m
      else if k = k' then (k, v) # m
      else (k', v') # bt_insert k v m)"

definition bt_collect :: "('k::linorder \<times> 'v) list \<Rightarrow> ('k \<times> 'v) list" where
  "bt_collect xs = foldl (\<lambda>m (k, v). bt_insert k v m) [] xs"

abbreviation bt_wf :: "('k::linorder \<times> 'v) list \<Rightarrow> bool" where
  "bt_wf m \<equiv> sorted_wrt (<) (map fst m)"

lemma bt_insert_keys: "set (map fst (bt_insert k v m)) = insert k (set (map fst m))"
  by (induction k v m rule: bt_insert.induct) auto

lemma bt_wf_insert: "bt_wf m \<Longrightarrow> bt_wf (bt_insert k v m)"
proof (induction k v m rule: bt_insert.induct)
  case (1 k v)
  then show ?case by simp
next
  case (2 k v k' v' m)
  then show ?case
    using bt_insert_keys [of k v m] by (auto simp del: set_map dest: less_trans)
qed

lemma bt_wf_map_of_None: "bt_wf m \<Longrightarrow> \<forall>x \<in> set (map fst m). k < x \<Longrightarrow> map_of m k = None"
  by (auto simp: map_of_eq_None_iff)

lemma map_of_bt_insert: "bt_wf m \<Longrightarrow> map_of (bt_insert k v m) = (map_of m)(k \<mapsto> v)"
  by (induction k v m rule: bt_insert.induct) (auto simp: fun_eq_iff)

lemma bt_collect_snoc: "bt_collect (xs @ [(k, v)]) = bt_insert k v (bt_collect xs)"
  by (simp add: bt_collect_def)

lemma bt_wf_collect: "bt_wf (bt_collect xs)"
proof (induction xs rule: rev_induct)
  case Nil
  then show ?case by (simp add: bt_collect_def)
next
  case (snoc x xs)
  then show ?case by (cases x) (simp only: bt_collect_snoc bt_wf_insert)
qed

lemma map_of_bt_collect: "map_of (bt_collect xs) = map_of (rev xs)"
proof (induction xs rule: rev_induct)
  case Nil
  then show ?case by (simp add: bt_collect_def)
next
  case (snoc x xs)
  then show ?case
    by (cases x) (simp add: bt_collect_snoc map_of_bt_insert bt_wf_collect)
qed

lemma bt_distinct: "bt_wf m \<Longrightarrow> distinct (map fst m)"
  by (induction m) (auto simp: less_le)

lemma map_of_rev: "distinct (map fst xs) \<Longrightarrow> map_of (rev xs) = map_of xs"
  by (rule map_of_eqI) (auto simp: distinct_rev simp flip: rev_map)

lemma bt_collect_pairs:
  assumes "distinct (map fst xs)"
  shows "(k, v) \<in> set (bt_collect xs) \<longleftrightarrow> (k, v) \<in> set xs"
proof -
  have "map_of (bt_collect xs) = map_of xs" by (simp add: map_of_bt_collect map_of_rev assms)
  with assms bt_distinct [OF bt_wf_collect, of xs] show ?thesis
    by (metis map_of_eq_Some_iff)
qed

end
