(* ===== verification/Chunk_Frame.thy ===== *)
theory Chunk_Frame
  imports Rust_Prelude "HOL-Library.Monad_Syntax"
begin

unbundle bit_operations_syntax

text \<open>
  The binary chunk frame of the encrypted transfer, \<^verbatim>\<open>src-tauri/src/chunk_frame.rs\<close>: the header
  layout, encoding, validation, decoding, and the associated data that binds a chunk to its place
  in a transfer.

  A Rust slice or index that is out of range panics; here \<open>slice\<close> and \<open>index\<close> return \<^const>\<open>None\<close>
  then, and the functions that read bytes have a result under \<^typ>\<open>'a option\<close> whose \<^const>\<open>None\<close> is
  the panic. \<open>decode_total\<close> shows that no input reaches it.
\<close>

section \<open>Constants and data\<close>

definition BINARY_CHUNK_MAGIC :: "byte list" where
  "BINARY_CHUNK_MAGIC = as_bytes ''PSTY''"

definition BINARY_CHUNK_VERSION :: byte where
  "BINARY_CHUNK_VERSION = 1"

definition BINARY_CHUNK_NONCE_LEN :: nat where
  "BINARY_CHUNK_NONCE_LEN = 12"

definition BINARY_CHUNK_HEADER_LEN :: nat where
  "BINARY_CHUNK_HEADER_LEN = 4 + 1 + 1 + 2 + 8 + 4 + 4 + BINARY_CHUNK_NONCE_LEN"

definition BINARY_CHUNK_MAX_FRAME_LEN :: nat where
  "BINARY_CHUNK_MAX_FRAME_LEN = 16 * 1024 * 1024"

definition FLAG_FINAL :: byte where
  "FLAG_FINAL = 1"

definition RESERVED :: "byte list" where
  "RESERVED = [0, 0]"

record BinaryChunkFrame =
  cf_chunk_index :: u64
  cf_nonce :: "byte list"
  cf_ciphertext :: "byte list"
  cf_plaintext_size :: u32
  cf_is_final :: bool

text \<open>The nonce field has the Rust type \<^verbatim>\<open>[u8; 12]\<close>.\<close>

definition frame_wf :: "BinaryChunkFrame \<Rightarrow> bool" where
  "frame_wf f \<longleftrightarrow> length (cf_nonce f) = BINARY_CHUNK_NONCE_LEN"

datatype BinaryChunkFrameError =
  InvalidMagic | UnsupportedVersion | InvalidFlags | InvalidHeader | InvalidCiphertextLength
  | FrameTooLarge

section \<open>Reading with panics\<close>

definition slice :: "nat \<Rightarrow> nat \<Rightarrow> 'a list \<Rightarrow> 'a list option" where
  "slice a b xs = (if a \<le> b \<and> b \<le> length xs then Some (take (b - a) (drop a xs)) else None)"

definition index :: "nat \<Rightarrow> 'a list \<Rightarrow> 'a option" where
  "index i xs = (if i < length xs then Some (xs ! i) else None)"

text \<open>\<^verbatim>\<open>usize::checked_add\<close> on a 64-bit target.\<close>

definition usize_checked_add :: "nat \<Rightarrow> nat \<Rightarrow> nat option" where
  "usize_checked_add a b = (if a + b < 2 ^ 64 then Some (a + b) else None)"

section \<open>Associated data\<close>

definition chunk_associated_data :: "string \<Rightarrow> u64 \<Rightarrow> u64 \<Rightarrow> u64 \<Rightarrow> bool \<Rightarrow> byte list" where
  "chunk_associated_data transfer_id chunk_index total_chunks plaintext_size is_final =
     as_bytes ''pastey-transfer-chunk-v2'' @ [0]
     @ to_be_bytes (of_nat (length transfer_id) :: u64)
     @ as_bytes transfer_id
     @ to_be_bytes chunk_index
     @ to_be_bytes total_chunks
     @ to_be_bytes plaintext_size
     @ [if is_final then 1 else 0]"

section \<open>Encoding\<close>

definition encode_binary_chunk_frame ::
  "BinaryChunkFrame \<Rightarrow> BinaryChunkFrameError + byte list" where
  "encode_binary_chunk_frame frame =
     and_then (ensure (length (cf_ciphertext frame) < 2 ^ 32) InvalidCiphertextLength) (\<lambda>_.
     let ciphertext_len = (of_nat (length (cf_ciphertext frame)) :: u32) in
     and_then (ok_or (usize_checked_add BINARY_CHUNK_HEADER_LEN (length (cf_ciphertext frame)))
       FrameTooLarge) (\<lambda>frame_len.
     and_then (ensure (frame_len \<le> BINARY_CHUNK_MAX_FRAME_LEN) FrameTooLarge) (\<lambda>_.
     Inr (BINARY_CHUNK_MAGIC
       @ [BINARY_CHUNK_VERSION]
       @ [if cf_is_final frame then FLAG_FINAL else 0]
       @ RESERVED
       @ to_be_bytes (cf_chunk_index frame)
       @ to_be_bytes (cf_plaintext_size frame)
       @ to_be_bytes ciphertext_len
       @ cf_nonce frame
       @ cf_ciphertext frame))))"

section \<open>Validation and decoding\<close>

definition validate_binary_chunk_frame ::
  "byte list \<Rightarrow> (BinaryChunkFrameError + unit) option" where
  "validate_binary_chunk_frame bytes =
    (if length bytes > BINARY_CHUNK_MAX_FRAME_LEN then Some (Inl FrameTooLarge)
     else if length bytes < BINARY_CHUNK_HEADER_LEN then Some (Inl InvalidHeader)
     else do {
       magic \<leftarrow> slice 0 4 bytes;
       if magic \<noteq> BINARY_CHUNK_MAGIC then Some (Inl InvalidMagic)
       else do {
         version \<leftarrow> index 4 bytes;
         if version \<noteq> BINARY_CHUNK_VERSION then Some (Inl UnsupportedVersion)
         else do {
           flags \<leftarrow> index 5 bytes;
           if flags AND NOT FLAG_FINAL \<noteq> 0 then Some (Inl InvalidFlags)
           else do {
             reserved \<leftarrow> slice 6 8 bytes;
             if reserved \<noteq> RESERVED then Some (Inl InvalidHeader)
             else do {
               len_bytes \<leftarrow> slice 20 24 bytes;
               let ciphertext_len = unat (from_be_bytes len_bytes :: u32);
               case usize_checked_add BINARY_CHUNK_HEADER_LEN ciphertext_len of
                 None \<Rightarrow> Some (Inl FrameTooLarge)
               | Some expected_len \<Rightarrow>
                   Some (ensure (expected_len = length bytes) InvalidCiphertextLength)
             }
           }
         }
       }
     })"

definition decode_binary_chunk_frame ::
  "byte list \<Rightarrow> (BinaryChunkFrameError + BinaryChunkFrame) option" where
  "decode_binary_chunk_frame bytes = do {
     checked \<leftarrow> validate_binary_chunk_frame bytes;
     case checked of
       Inl e \<Rightarrow> Some (Inl e)
     | Inr _ \<Rightarrow> do {
         flags \<leftarrow> index 5 bytes;
         index_bytes \<leftarrow> slice 8 16 bytes;
         size_bytes \<leftarrow> slice 16 20 bytes;
         len_bytes \<leftarrow> slice 20 24 bytes;
         let ciphertext_len = unat (from_be_bytes len_bytes :: u32);
         nonce_bytes \<leftarrow> slice 24 36 bytes;
         let ciphertext_start = BINARY_CHUNK_HEADER_LEN;
         body \<leftarrow> slice ciphertext_start (ciphertext_start + ciphertext_len) bytes;
         Some (Inr \<lparr>cf_chunk_index = from_be_bytes index_bytes,
                    cf_nonce = nonce_bytes,
                    cf_ciphertext = body,
                    cf_plaintext_size = from_be_bytes size_bytes,
                    cf_is_final = (flags AND FLAG_FINAL \<noteq> 0)\<rparr>)
       }
   }"

section \<open>The layout of a frame\<close>

lemmas chunk_consts = BINARY_CHUNK_VERSION_def BINARY_CHUNK_NONCE_LEN_def
  BINARY_CHUNK_HEADER_LEN_def BINARY_CHUNK_MAX_FRAME_LEN_def FLAG_FINAL_def RESERVED_def

lemma magic_length [simp]: "length BINARY_CHUNK_MAGIC = 4"
  by (simp add: BINARY_CHUNK_MAGIC_def)

text \<open>The header fields as lists of known length, so that every slice of the code is one field.\<close>

definition frame_layout ::
  "byte list \<Rightarrow> byte \<Rightarrow> byte \<Rightarrow> byte list \<Rightarrow> byte list \<Rightarrow> byte list \<Rightarrow> byte list \<Rightarrow> byte list
    \<Rightarrow> byte list \<Rightarrow> byte list" where
  "frame_layout magic version flags reserved idx psize len nonce body =
     magic @ [version] @ [flags] @ reserved @ idx @ psize @ len @ nonce @ body"

definition layout_lengths ::
  "byte list \<Rightarrow> byte list \<Rightarrow> byte list \<Rightarrow> byte list \<Rightarrow> byte list \<Rightarrow> byte list \<Rightarrow> bool" where
  "layout_lengths magic reserved idx psize len nonce \<longleftrightarrow>
     length magic = 4 \<and> length reserved = 2 \<and> length idx = 8 \<and> length psize = 4 \<and> length len = 4
     \<and> length nonce = 12"

lemma frame_layout_slices:
  fixes version flags body
  assumes "layout_lengths magic reserved idx psize len nonce"
  defines "bs \<equiv> frame_layout magic version flags reserved idx psize len nonce body"
  shows "slice 0 4 bs = Some magic" "index 4 bs = Some version" "index 5 bs = Some flags"
    "slice 6 8 bs = Some reserved" "slice 8 16 bs = Some idx" "slice 16 20 bs = Some psize"
    "slice 20 24 bs = Some len" "slice 24 36 bs = Some nonce"
    "slice 36 (36 + length body) bs = Some body" "length bs = 36 + length body"
  using assms(1)
  by (simp_all add: bs_def frame_layout_def layout_lengths_def slice_def index_def nth_append)

lemma frame_layout_exists:
  assumes "36 \<le> length bs"
  obtains magic version flags reserved idx psize len nonce body
  where "layout_lengths magic reserved idx psize len nonce"
    and "bs = frame_layout magic version flags reserved idx psize len nonce body"
proof -
  define a where "a = drop 6 bs"
  have head: "bs = take 4 bs @ [bs ! 4] @ [bs ! 5] @ a"
  proof -
    have "bs = take 4 bs @ drop 4 bs" by simp
    also have "drop 4 bs = bs ! 4 # drop 5 bs"
      using assms by (subst Cons_nth_drop_Suc [symmetric]) auto
    also have "drop 5 bs = bs ! 5 # drop 6 bs"
      using assms by (subst Cons_nth_drop_Suc [symmetric]) auto
    finally show ?thesis by (simp add: a_def)
  qed
  define b where "b = drop 2 a"
  define c where "c = drop 8 b"
  define d where "d = drop 4 c"
  define e where "e = drop 4 d"
  have la: "30 \<le> length a" using assms by (simp add: a_def)
  have "a = take 2 a @ take 8 b @ take 4 c @ take 4 d @ take 12 e @ drop 12 e"
    by (metis append_take_drop_id b_def c_def d_def e_def)
  with head have "bs = frame_layout (take 4 bs) (bs ! 4) (bs ! 5) (take 2 a) (take 8 b)
      (take 4 c) (take 4 d) (take 12 e) (drop 12 e)"
    by (simp add: frame_layout_def)
  moreover have "layout_lengths (take 4 bs) (take 2 a) (take 8 b) (take 4 c) (take 4 d) (take 12 e)"
    using assms la by (simp add: layout_lengths_def b_def c_def d_def e_def)
  ultimately show thesis by (rule that [rotated])
qed

lemma validate_layout:
  assumes "layout_lengths magic reserved idx psize len nonce"
  shows "validate_binary_chunk_frame
      (frame_layout magic version flags reserved idx psize len nonce body) =
    Some (if 36 + length body > BINARY_CHUNK_MAX_FRAME_LEN then Inl FrameTooLarge
          else if magic \<noteq> BINARY_CHUNK_MAGIC then Inl InvalidMagic
          else if version \<noteq> BINARY_CHUNK_VERSION then Inl UnsupportedVersion
          else if flags AND NOT FLAG_FINAL \<noteq> 0 then Inl InvalidFlags
          else if reserved \<noteq> RESERVED then Inl InvalidHeader
          else ensure (unat (from_be_bytes len :: u32) = length body) InvalidCiphertextLength)"
proof -
  have "unat (from_be_bytes len :: u32) < 2 ^ 32"
    using unsigned_less [of "from_be_bytes len :: u32", where ?'a = nat] by simp
  then show ?thesis
    unfolding validate_binary_chunk_frame_def frame_layout_slices [OF assms] Option.bind.simps Let_def
    by (simp add: usize_checked_add_def BINARY_CHUNK_HEADER_LEN_def BINARY_CHUNK_NONCE_LEN_def
        ensure_def)
qed

lemma decode_layout:
  assumes "layout_lengths magic reserved idx psize len nonce"
  shows "decode_binary_chunk_frame
      (frame_layout magic version flags reserved idx psize len nonce body) =
    (case the (validate_binary_chunk_frame
        (frame_layout magic version flags reserved idx psize len nonce body)) of
       Inl e \<Rightarrow> Some (Inl e)
     | Inr _ \<Rightarrow> Some (Inr \<lparr>cf_chunk_index = from_be_bytes idx, cf_nonce = nonce,
         cf_ciphertext = body, cf_plaintext_size = from_be_bytes psize,
         cf_is_final = (flags AND FLAG_FINAL \<noteq> 0)\<rparr>))"
proof -
  let ?bs = "frame_layout magic version flags reserved idx psize len nonce body"
  note sl = frame_layout_slices [OF assms, where version = version and flags = flags and body = body]
  obtain r where r: "validate_binary_chunk_frame ?bs = Some r"
    using validate_layout [OF assms] by blast
  show ?thesis
  proof (cases r)
    case (Inl e)
    with r show ?thesis by (simp add: decode_binary_chunk_frame_def)
  next
    case (Inr u)
    with r have "unat (from_be_bytes len :: u32) = length body"
      by (simp add: validate_layout [OF assms] ensure_def split: if_splits)
    with r Inr show ?thesis
      by (simp add: decode_binary_chunk_frame_def sl BINARY_CHUNK_HEADER_LEN_def
          BINARY_CHUNK_NONCE_LEN_def)
  qed
qed

lemma encode_Inr_iff:
  "encode_binary_chunk_frame f = Inr bs \<longleftrightarrow>
     36 + length (cf_ciphertext f) \<le> BINARY_CHUNK_MAX_FRAME_LEN
     \<and> bs = frame_layout BINARY_CHUNK_MAGIC BINARY_CHUNK_VERSION
         (if cf_is_final f then FLAG_FINAL else 0) RESERVED (to_be_bytes (cf_chunk_index f))
         (to_be_bytes (cf_plaintext_size f))
         (to_be_bytes (of_nat (length (cf_ciphertext f)) :: u32)) (cf_nonce f) (cf_ciphertext f)"
  by (auto simp: encode_binary_chunk_frame_def res_simps usize_checked_add_def frame_layout_def
      BINARY_CHUNK_HEADER_LEN_def BINARY_CHUNK_NONCE_LEN_def BINARY_CHUNK_MAX_FRAME_LEN_def
      split: if_splits)

lemma flag_byte: "flags AND NOT FLAG_FINAL = 0 \<Longrightarrow> flags = (if flags AND FLAG_FINAL \<noteq> 0 then FLAG_FINAL else 0)"
proof -
  assume "flags AND NOT FLAG_FINAL = 0"
  then have "flags = flags AND FLAG_FINAL"
    by (metis (no_types) bit.conj_disj_distrib bit.disj_cancel_right bit.conj_one_right or.right_neutral)
  moreover have "flags AND FLAG_FINAL = 0 \<or> flags AND FLAG_FINAL = FLAG_FINAL"
    by (auto simp: FLAG_FINAL_def and_one_eq mod2_eq_if)
  ultimately show ?thesis by auto
qed

lemma flag_bits:
  "(if b then FLAG_FINAL else 0) AND NOT FLAG_FINAL = 0"
  "(if b then FLAG_FINAL else 0) AND FLAG_FINAL \<noteq> 0 \<longleftrightarrow> b"
  by (simp_all add: FLAG_FINAL_def)

lemma frame_ciphertext_len:
  "36 + n \<le> BINARY_CHUNK_MAX_FRAME_LEN \<Longrightarrow> unat (of_nat n :: u32) = n"
  by (simp add: BINARY_CHUNK_MAX_FRAME_LEN_def unat_of_nat)

section \<open>Both directions of the round trip\<close>

lemma encode_decode:
  assumes "frame_wf f" and "encode_binary_chunk_frame f = Inr bs"
  shows "decode_binary_chunk_frame bs = Some (Inr f)"
proof -
  from assms(2) have size: "36 + length (cf_ciphertext f) \<le> BINARY_CHUNK_MAX_FRAME_LEN"
    and bs: "bs = frame_layout BINARY_CHUNK_MAGIC BINARY_CHUNK_VERSION
         (if cf_is_final f then FLAG_FINAL else 0) RESERVED (to_be_bytes (cf_chunk_index f))
         (to_be_bytes (cf_plaintext_size f))
         (to_be_bytes (of_nat (length (cf_ciphertext f)) :: u32)) (cf_nonce f) (cf_ciphertext f)"
    by (simp_all add: encode_Inr_iff)
  have "layout_lengths BINARY_CHUNK_MAGIC RESERVED (to_be_bytes (cf_chunk_index f))
         (to_be_bytes (cf_plaintext_size f))
         (to_be_bytes (of_nat (length (cf_ciphertext f)) :: u32)) (cf_nonce f)"
    using assms(1)
    by (simp add: layout_lengths_def frame_wf_def RESERVED_def BINARY_CHUNK_NONCE_LEN_def)
  then show ?thesis
    using size by (simp add: bs decode_layout validate_layout flag_bits frame_ciphertext_len)
qed

lemma decode_encode:
  assumes "decode_binary_chunk_frame bs = Some (Inr f)"
  shows "frame_wf f \<and> encode_binary_chunk_frame f = Inr bs"
proof -
  have "36 \<le> length bs"
  proof (rule ccontr)
    assume "\<not> 36 \<le> length bs"
    with assms show False
      by (auto simp: decode_binary_chunk_frame_def validate_binary_chunk_frame_def
          BINARY_CHUNK_HEADER_LEN_def BINARY_CHUNK_NONCE_LEN_def split: if_splits)
  qed
  then obtain magic version flags reserved idx psize len nonce body
    where lens: "layout_lengths magic reserved idx psize len nonce"
      and bs: "bs = frame_layout magic version flags reserved idx psize len nonce body"
    by (rule frame_layout_exists)
  from assms lens have acc: "36 + length body \<le> BINARY_CHUNK_MAX_FRAME_LEN"
      "magic = BINARY_CHUNK_MAGIC" "version = BINARY_CHUNK_VERSION"
      "flags AND NOT FLAG_FINAL = 0" "reserved = RESERVED"
      "unat (from_be_bytes len :: u32) = length body"
    and f: "f = \<lparr>cf_chunk_index = from_be_bytes idx, cf_nonce = nonce, cf_ciphertext = body,
        cf_plaintext_size = from_be_bytes psize, cf_is_final = (flags AND FLAG_FINAL \<noteq> 0)\<rparr>"
    by (auto simp: bs decode_layout validate_layout ensure_def split: if_splits)
  have "(of_nat (length body) :: u32) = from_be_bytes len"
    by (simp add: acc(6) [symmetric])
  then have "to_be_bytes (of_nat (length body) :: u32) = len"
    using lens by (simp add: to_from_be_bytes layout_lengths_def)
  moreover have "to_be_bytes (from_be_bytes idx :: u64) = idx"
    and "to_be_bytes (from_be_bytes psize :: u32) = psize"
    using lens by (simp_all add: to_from_be_bytes layout_lengths_def)
  ultimately show ?thesis
    using lens acc flag_byte [OF acc(4)]
    by (simp add: f bs encode_Inr_iff frame_wf_def layout_lengths_def BINARY_CHUNK_NONCE_LEN_def)
qed

section \<open>The associated data\<close>

lemma be64_inj: "to_be_bytes (a :: u64) = to_be_bytes b \<longleftrightarrow> a = b"
  by (metis from_to_be_bytes_u64)

lemma append_eq_lengths:
  "length a = length b \<Longrightarrow> a @ c = b @ d \<longleftrightarrow> a = b \<and> c = d"
  by (rule append_eq_append_conv) simp

lemma aad_tail_inj:
  "to_be_bytes (i :: u64) @ to_be_bytes (n :: u64) @ to_be_bytes (p :: u64) @ [if b then 1 else 0 :: byte]
     = to_be_bytes (i' :: u64) @ to_be_bytes (n' :: u64) @ to_be_bytes (p' :: u64) @ [if b' then 1 else 0]
   \<longleftrightarrow> i = i' \<and> n = n' \<and> p = p' \<and> b = b'"
  by (auto simp: append_eq_lengths be64_inj)

section \<open>Properties\<close>

text \<open>C35. The decoder accepts exactly the encoder's outputs and inverts them: a byte sequence
  decodes to a frame \<open>f\<close> if and only if \<open>f\<close> is well formed and the sequence is the encoding of
  \<open>f\<close>. So encoding and decoding round-trip in both directions, and no frame has two accepted
  spellings.\<close>

theorem decode_iff_encode:
  "decode_binary_chunk_frame bs = Some (Inr f) \<longleftrightarrow>
     frame_wf f \<and> encode_binary_chunk_frame f = Inr bs"
  using encode_decode decode_encode by blast

text \<open>Decoding is total: no input, of any length and content, makes the decoder index out of
  range (a panic); it returns a frame or one of the errors.\<close>

theorem decode_total: "decode_binary_chunk_frame bs \<noteq> None"
proof (cases "36 \<le> length bs")
  case True
  then obtain magic version flags reserved idx psize len nonce body
    where "layout_lengths magic reserved idx psize len nonce"
      and "bs = frame_layout magic version flags reserved idx psize len nonce body"
    by (rule frame_layout_exists)
  then show ?thesis by (simp add: decode_layout split: sum.splits)
next
  case False
  then show ?thesis
    by (auto simp: decode_binary_chunk_frame_def validate_binary_chunk_frame_def
        BINARY_CHUNK_HEADER_LEN_def BINARY_CHUNK_NONCE_LEN_def)
qed

text \<open>The encoder accepts a frame if and only if header and ciphertext fit in 16 MiB; a body of
  2^32 bytes or more is reported as a length error, any other oversized one as too large.\<close>

theorem encode_outcome:
  "encode_binary_chunk_frame f =
     (if 2 ^ 32 \<le> length (cf_ciphertext f) then Inl InvalidCiphertextLength
      else if BINARY_CHUNK_MAX_FRAME_LEN < 36 + length (cf_ciphertext f) then Inl FrameTooLarge
      else Inr (frame_layout BINARY_CHUNK_MAGIC BINARY_CHUNK_VERSION
         (if cf_is_final f then FLAG_FINAL else 0) RESERVED (to_be_bytes (cf_chunk_index f))
         (to_be_bytes (cf_plaintext_size f))
         (to_be_bytes (of_nat (length (cf_ciphertext f)) :: u32)) (cf_nonce f) (cf_ciphertext f)))"
  by (auto simp: encode_binary_chunk_frame_def usize_checked_add_def frame_layout_def
      BINARY_CHUNK_HEADER_LEN_def BINARY_CHUNK_NONCE_LEN_def ensure_def)

text \<open>The associated data determines the transfer, the chunk's index, the number of chunks, the
  plaintext size and the final flag: two chunks with equal associated data agree on all five, so a
  chunk body cannot be moved to another place. (A Rust string is shorter than 2^64 bytes.)\<close>

theorem chunk_associated_data_binds:
  assumes "length t < 2 ^ 64" and "length t' < 2 ^ 64"
  shows "chunk_associated_data t i n p b = chunk_associated_data t' i' n' p' b' \<longleftrightarrow>
    t = t' \<and> i = i' \<and> n = n' \<and> p = p' \<and> b = b'"
proof
  assume "chunk_associated_data t i n p b = chunk_associated_data t' i' n' p' b'"
  then have len: "to_be_bytes (of_nat (length t) :: u64) = to_be_bytes (of_nat (length t') :: u64)"
    and rest: "as_bytes t @ to_be_bytes i @ to_be_bytes n @ to_be_bytes p @ [if b then 1 else 0]
      = as_bytes t' @ to_be_bytes i' @ to_be_bytes n' @ to_be_bytes p' @ [if b' then 1 else 0]"
    by (simp_all add: chunk_associated_data_def append_eq_lengths)
  from len have "unat (of_nat (length t) :: u64) = unat (of_nat (length t') :: u64)"
    by (simp add: be64_inj)
  with assms have "length t = length t'" by (simp add: unat_of_nat)
  with rest have "as_bytes t = as_bytes t'"
    and "to_be_bytes i @ to_be_bytes n @ to_be_bytes p @ [if b then 1 else 0 :: byte]
      = to_be_bytes i' @ to_be_bytes n' @ to_be_bytes p' @ [if b' then 1 else 0]"
    by (simp_all only: append_eq_append_conv length_as_bytes simp_thms)
  then show "t = t' \<and> i = i' \<and> n = n' \<and> p = p' \<and> b = b'"
    by (simp only: as_bytes_eq_iff aad_tail_inj simp_thms)
qed simp

theorem chunk_associated_data_binds_witness:
  "length ''t-1'' < 2 ^ 64 \<and> length ''t-12'' < 2 ^ 64 \<and>
   chunk_associated_data ''t-1'' 0 2 5 False \<noteq> chunk_associated_data ''t-12'' 0 2 5 False"
proof -
  have len: "length ''t-1'' < 2 ^ 64" "length ''t-12'' < 2 ^ 64" by simp_all
  show ?thesis using len chunk_associated_data_binds [OF len, of 0 2 5 False 0 2 5 False] by simp
qed

end
