(* ===== verification/Interfaces.thy ===== *)
theory Interfaces
  imports Rust_Prelude
begin

text \<open>
  The contracts that several components share, each a locale whose lemmas are proved once and used
  by the components through an interpretation on their own definitions:

  \<^item> \<open>guarded_machine\<close>: a component with an initial state, steps, and an invariant every step keeps;
    the invariant then holds in every state a run can reach.
  \<^item> \<open>machine_refinement\<close>: a larger machine whose steps, seen through an abstraction, are runs of a guarded one; its
    runs are then runs of the guarded machine and keep its invariant.
  \<^item> \<open>narrowing\<close>: a partial order on authority with a meet; folding the meet over any number of
    ceilings never exceeds one of them and is the largest value that does not.
  \<^item> \<open>codec\<close>: a writer and a reader that hands back the remaining bytes; sequences of such fields
    compose, and encodings are self-delimiting.
  \<^item> \<open>freshness_contract\<close>: a captured value checked against the current one, valid only while both are equal
    and unexpired.
\<close>

section \<open>State machines with an invariant\<close>

locale guarded_machine =
  fixes init :: "'s \<Rightarrow> bool" and step :: "'s \<Rightarrow> 's \<Rightarrow> bool" and inv :: "'s \<Rightarrow> bool"
  assumes inv_init: "init s \<Longrightarrow> inv s"
    and inv_step: "inv s \<Longrightarrow> step s t \<Longrightarrow> inv t"
begin

lemma inv_steps: "rtranclp step s t \<Longrightarrow> inv s \<Longrightarrow> inv t"
  by (induction rule: rtranclp_induct) (auto intro: inv_step)

lemma inv_reachable: "init s \<Longrightarrow> rtranclp step s t \<Longrightarrow> inv t"
  by (blast intro: inv_steps inv_init)

end

locale machine_refinement = guarded_machine +
  fixes abs :: "'c \<Rightarrow> 'a" and cstep :: "'c \<Rightarrow> 'c \<Rightarrow> bool"
  assumes simulates: "cstep c c' \<Longrightarrow> rtranclp step (abs c) (abs c')"
begin

lemma simulates_steps: "rtranclp cstep c c' \<Longrightarrow> rtranclp step (abs c) (abs c')"
  by (induction rule: rtranclp_induct) (auto dest: simulates)

lemma refined_inv: "inv (abs c) \<Longrightarrow> rtranclp cstep c c' \<Longrightarrow> inv (abs c')"
  by (blast intro: inv_steps simulates_steps)

end

section \<open>Narrowing authority\<close>

locale narrowing =
  fixes le :: "'a \<Rightarrow> 'a \<Rightarrow> bool" and meet :: "'a \<Rightarrow> 'a \<Rightarrow> 'a"
  assumes le_refl: "le a a"
    and le_trans: "le a b \<Longrightarrow> le b c \<Longrightarrow> le a c"
    and meet_le1: "le (meet a b) a"
    and meet_le2: "le (meet a b) b"
    and meet_greatest: "le c a \<Longrightarrow> le c b \<Longrightarrow> le c (meet a b)"
begin

lemma fold_le_start: "le (foldl meet a bs) a"
proof (induction bs arbitrary: a)
  case Nil
  show ?case by (simp add: le_refl)
next
  case (Cons b bs)
  from Cons [of "meet a b"] meet_le1 [of a b] have "le (foldl meet (meet a b) bs) a"
    by (rule le_trans)
  then show ?case by simp
qed

lemma fold_le_member: "b \<in> set bs \<Longrightarrow> le (foldl meet a bs) b"
proof (induction bs arbitrary: a)
  case Nil
  then show ?case by simp
next
  case (Cons c bs)
  show ?case
  proof (cases "b = c")
    case True
    have "le (foldl meet (meet a c) bs) c"
      by (rule le_trans [OF fold_le_start meet_le2])
    with True show ?thesis by simp
  next
    case False
    with Cons show ?thesis by simp
  qed
qed

lemma fold_le_image: "x \<in> set xs \<Longrightarrow> le (foldl meet a (map f xs)) (f x)"
  by (rule fold_le_member) simp

lemma fold_greatest: "le c a \<Longrightarrow> (\<And>b. b \<in> set bs \<Longrightarrow> le c b) \<Longrightarrow> le c (foldl meet a bs)"
  by (induction bs arbitrary: a) (auto intro: meet_greatest)

end

section \<open>Self-delimiting codecs\<close>

locale codec =
  fixes valid :: "'a \<Rightarrow> bool" and put :: "'a \<Rightarrow> byte list"
    and get :: "byte list \<Rightarrow> 'e + 'a \<times> byte list"
  assumes get_put: "valid x \<Longrightarrow> get (put x @ rest) = Inr (x, rest)"
    and get_canonical: "get bs = Inr (x, rest) \<Longrightarrow> valid x \<and> bs = put x @ rest"
begin

lemma get_iff: "get bs = Inr (x, rest) \<longleftrightarrow> valid x \<and> bs = put x @ rest"
  using get_put get_canonical by blast

lemma put_prefix_free:
  assumes "valid x" and "valid y" and "put x @ r = put y @ r'"
  shows "x = y \<and> r = r'"
proof -
  have "get (put x @ r) = Inr (x, r)" by (rule get_put [OF assms(1)])
  moreover have "get (put x @ r) = Inr (y, r')"
    unfolding assms(3) by (rule get_put [OF assms(2)])
  ultimately show ?thesis by simp
qed

end

section \<open>Freshness of a captured value\<close>

locale freshness_contract =
  fixes validate :: "'a \<Rightarrow> 'a \<Rightarrow> int \<Rightarrow> 'e + unit" and expiry :: "'a \<Rightarrow> int"
  assumes validate_iff: "validate captured current now = Inr () \<longleftrightarrow>
    captured = current \<and> now < expiry current"
begin

lemma stale_rejected: "captured \<noteq> current \<Longrightarrow> validate captured current now \<noteq> Inr ()"
  by (simp add: validate_iff)

lemma expired_rejected: "expiry current \<le> now \<Longrightarrow> validate captured current now \<noteq> Inr ()"
  by (simp add: validate_iff)

lemma valid_until: "validate a b now = Inr () \<Longrightarrow> now' \<le> now \<Longrightarrow> validate a b now' = Inr ()"
  by (simp add: validate_iff)

end

end
