(* ===== verification/Transfer_Capacity.thy ===== *)
theory Transfer_Capacity
  imports Interfaces
begin

text \<open>
  Transport capacity: the window size a transfer may use (\<^verbatim>\<open>src-tauri/src/transfer_tuning.rs\<close>) and
  the coordinator that hands out the shared window budget
  (\<^verbatim>\<open>src-tauri/src/transfer_orchestration.rs\<close>).

  The coordinator's state is its map from transfer id to reserved window; the mutex makes each
  operation one atomic step. A lease is the pair of transfer id and window it was given; dropping
  it is a step of its own, taken whenever the holder lets it go.
\<close>

section \<open>Window tuning\<close>

definition DEFAULT_BINARY_V1_WINDOW :: nat where "DEFAULT_BINARY_V1_WINDOW = 8"
definition MIN_TRANSFER_WINDOW :: nat where "MIN_TRANSFER_WINDOW = 1"
definition MAX_TRANSFER_WINDOW :: nat where "MAX_TRANSFER_WINDOW = 16"

datatype TransferWindowOverrideSource = Env | DevSettings | PlannerRequest | Default

record TransferTuning =
  effective_window_size :: nat
  override_source :: TransferWindowOverrideSource

definition TransferTuning_default :: TransferTuning where
  "TransferTuning_default =
     \<lparr>effective_window_size = DEFAULT_BINARY_V1_WINDOW, override_source = Default\<rparr>"

text \<open>\<^verbatim>\<open>Ord::clamp\<close> for a non-empty range.\<close>

definition clamp :: "nat \<Rightarrow> nat \<Rightarrow> nat \<Rightarrow> nat" where
  "clamp v lo hi = (if v < lo then lo else if hi < v then hi else v)"

definition clamp_transfer_window :: "nat \<Rightarrow> nat" where
  "clamp_transfer_window v = clamp v MIN_TRANSFER_WINDOW MAX_TRANSFER_WINDOW"

definition normalize_transfer_window_override :: "nat option \<Rightarrow> nat option" where
  "normalize_transfer_window_override v = map_option clamp_transfer_window v"

text \<open>\<^verbatim>\<open>str::parse::<usize>\<close>: an optional plus sign, then at least one decimal digit, and a value
  below 2^64.\<close>

fun parse_digits :: "nat \<Rightarrow> string \<Rightarrow> nat option" where
  "parse_digits acc [] = Some acc"
| "parse_digits acc (c # s) =
     (let b = (of_char c :: nat) in
      if 48 \<le> b \<and> b \<le> 57 \<and> acc * 10 + (b - 48) < 2 ^ 64
      then parse_digits (acc * 10 + (b - 48)) s else None)"

definition parse_usize :: "string \<Rightarrow> nat option" where
  "parse_usize s =
     (let digits = (case s of c # t \<Rightarrow> if c = CHR ''+'' then t else s | [] \<Rightarrow> s) in
      if digits = [] then None else parse_digits 0 digits)"

definition effective_transfer_tuning ::
  "nat option \<Rightarrow> bool \<Rightarrow> nat option \<Rightarrow> string option \<Rightarrow> TransferTuning" where
  "effective_transfer_tuning dev_window_override dev_tools_enabled requested_window
     env_window_override =
    (case Option.bind env_window_override (\<lambda>value. parse_usize (trim value)) of
       Some window_size \<Rightarrow>
         \<lparr>effective_window_size = clamp_transfer_window window_size, override_source = Env\<rparr>
     | None \<Rightarrow>
         (case (if dev_tools_enabled then dev_window_override else None) of
            Some window_size \<Rightarrow>
              \<lparr>effective_window_size = clamp_transfer_window window_size,
               override_source = DevSettings\<rparr>
          | None \<Rightarrow>
              (case requested_window of
                 Some window_size \<Rightarrow>
                   \<lparr>effective_window_size = clamp_transfer_window window_size,
                    override_source = PlannerRequest\<rparr>
               | None \<Rightarrow> TransferTuning_default)))"

section \<open>The capacity coordinator\<close>

definition GLOBAL_TRANSFER_WINDOW_BUDGET :: nat where "GLOBAL_TRANSFER_WINDOW_BUDGET = 8"
definition ACTIVE_TRANSFER_SAFETY_CAP :: nat where "ACTIVE_TRANSFER_SAFETY_CAP = 4"

datatype TransferCapacityOrigin = Ordinary | Managed

record TransferCapacityRequest =
  cr_transfer_id :: string
  cr_room_id :: string
  cr_size_bytes :: u64
  cr_requested_window :: nat
  cr_origin :: TransferCapacityOrigin
  cr_diagnostic_override :: bool

record TransferCapacityLease =
  lease_transfer_id :: string
  lease_effective_window :: nat

type_synonym TransferCapacityCoordinator = "(string, nat) hmap"

datatype capacity_error =
  RequestInvalid            \<comment> \<open>Transfer capacity request is invalid.\<close>
| AlreadyReserved           \<comment> \<open>Transfer already has transport capacity.\<close>
| TemporarilyUnavailable    \<comment> \<open>Transfer capacity is temporarily unavailable.\<close>

definition used_windows :: "TransferCapacityCoordinator \<Rightarrow> nat" where
  "used_windows reservations = sum_list (hm_values reservations)"

definition admit ::
  "TransferCapacityCoordinator \<Rightarrow> TransferCapacityRequest
    \<Rightarrow> (capacity_error + TransferCapacityLease) \<times> TransferCapacityCoordinator" where
  "admit reservations request =
    (if cr_transfer_id request = [] \<or> length (cr_transfer_id request) > 256
        \<or> cr_room_id request = [] \<or> length (cr_room_id request) > 128
     then (Inl RequestInvalid, reservations)
     else
       let requested =
             (if cr_diagnostic_override request
              then clamp_transfer_window (cr_requested_window request)
              else clamp (cr_requested_window request) 1 GLOBAL_TRANSFER_WINDOW_BUDGET) in
       if hm_contains reservations (cr_transfer_id request)
       then (Inl AlreadyReserved, reservations)
       else if length reservations \<ge> ACTIVE_TRANSFER_SAFETY_CAP
       then (Inl TemporarilyUnavailable, reservations)
       else
         let used = used_windows reservations;
             available = GLOBAL_TRANSFER_WINDOW_BUDGET - used in
         if available = 0 then (Inl TemporarilyUnavailable, reservations)
         else
           let effective_window =
                 (if cr_diagnostic_override request then requested else min requested available) in
           (Inr \<lparr>lease_transfer_id = cr_transfer_id request,
                 lease_effective_window = effective_window\<rparr>,
            hm_insert (cr_transfer_id request) effective_window reservations))"

definition resize ::
  "TransferCapacityCoordinator \<Rightarrow> string \<Rightarrow> nat \<Rightarrow> nat option \<times> TransferCapacityCoordinator" where
  "resize reservations transfer_id requested_window =
    (case hm_get reservations transfer_id of
       None \<Rightarrow> (None, reservations)
     | Some current \<Rightarrow>
         let used_without_current = used_windows reservations - current;
             available = GLOBAL_TRANSFER_WINDOW_BUDGET - used_without_current;
             effective =
               min (clamp requested_window 1 GLOBAL_TRANSFER_WINDOW_BUDGET) (max available 1) in
         (Some effective, hm_insert transfer_id effective reservations))"

definition drop_lease ::
  "TransferCapacityCoordinator \<Rightarrow> TransferCapacityLease \<Rightarrow> TransferCapacityCoordinator" where
  "drop_lease reservations lease = hm_remove (lease_transfer_id lease) reservations"

text \<open>The steps of the coordinator. \<open>diag\<close> says whether requests with the diagnostic override are
  among them.\<close>

inductive capacity_step ::
  "bool \<Rightarrow> TransferCapacityCoordinator \<Rightarrow> TransferCapacityCoordinator \<Rightarrow> bool" for diag where
  admit: "cr_diagnostic_override request \<longrightarrow> diag \<Longrightarrow> capacity_step diag s (snd (admit s request))"
| resize: "capacity_step diag s (snd (resize s transfer_id window))"
| drop: "capacity_step diag s (drop_lease s lease)"

section \<open>Lemmas\<close>

lemmas capacity_consts = GLOBAL_TRANSFER_WINDOW_BUDGET_def ACTIVE_TRANSFER_SAFETY_CAP_def
  DEFAULT_BINARY_V1_WINDOW_def MIN_TRANSFER_WINDOW_def MAX_TRANSFER_WINDOW_def

lemma clamp_bounds: "lo \<le> hi \<Longrightarrow> lo \<le> clamp v lo hi \<and> clamp v lo hi \<le> hi"
  by (auto simp: clamp_def)

lemma used_windows_insert_fresh:
  "hm_get m k = None \<Longrightarrow> used_windows (m @ [(k, v)]) = used_windows m + v"
  by (simp add: used_windows_def hm_values_def hm_insert_fresh)

lemma used_windows_update:
  "hm_get m k = Some c \<Longrightarrow> used_windows (hm_insert k v m) + c = used_windows m + v"
  by (induction m) (auto simp: used_windows_def hm_values_def hm_get_def hm_insert_def split: if_splits)

lemma length_update: "hm_get m k = Some c \<Longrightarrow> length (hm_insert k v m) = length m"
  by (induction m) (auto simp: hm_get_def hm_insert_def split: if_splits)

lemma used_windows_remove: "used_windows (hm_remove k m) \<le> used_windows m"
  by (induction m) (auto simp: used_windows_def hm_values_def hm_remove_def AList.delete_eq)

lemma length_remove: "length (hm_remove k m) \<le> length m"
  by (simp add: hm_remove_def AList.delete_eq)

lemma values_insert: "set (hm_values (hm_insert k v m)) \<subseteq> insert v (set (hm_values m))"
  by (induction m) (auto simp: hm_values_def hm_insert_def)

lemma values_remove: "set (hm_values (hm_remove k m)) \<subseteq> set (hm_values m)"
  by (auto simp: hm_values_def hm_remove_def AList.delete_eq)

lemma member_le_used: "hm_get m k = Some c \<Longrightarrow> c \<le> used_windows m"
  unfolding used_windows_def by (rule member_le_sum_list) (auto dest: hm_get_in_values)

text \<open>What every state keeps: distinct ids, at most four reservations, windows of 1 to 16, and a
  total of at most \<open>budget\<close>.\<close>

definition capacity_inv :: "nat \<Rightarrow> TransferCapacityCoordinator \<Rightarrow> bool" where
  "capacity_inv budget s \<longleftrightarrow>
     hm_wf s \<and> length s \<le> ACTIVE_TRANSFER_SAFETY_CAP
     \<and> (\<forall>w \<in> set (hm_values s). 1 \<le> w \<and> w \<le> MAX_TRANSFER_WINDOW)
     \<and> used_windows s \<le> budget"

lemma capacity_inv_insert:
  assumes "capacity_inv budget s" and "1 \<le> v" and "v \<le> MAX_TRANSFER_WINDOW"
    and "length (hm_insert k v s) \<le> ACTIVE_TRANSFER_SAFETY_CAP"
    and "used_windows (hm_insert k v s) \<le> budget'"
  shows "capacity_inv budget' (hm_insert k v s)"
  using assms values_insert [of k v s] by (auto simp: capacity_inv_def)

lemma admit_keeps:
  assumes inv: "capacity_inv budget s"
    and budget: "if cr_diagnostic_override request then 23 \<le> budget else 8 \<le> budget"
  shows "capacity_inv budget (snd (admit s request))"
proof (cases "fst (admit s request)")
  case (Inl e)
  then have "snd (admit s request) = s"
    by (auto simp: admit_def Let_def split: if_splits)
  with inv show ?thesis by simp
next
  case (Inr lease)
  define k where "k = cr_transfer_id request"
  from Inr obtain v where
    s': "snd (admit s request) = hm_insert k v s" and fresh: "hm_get s k = None"
    and len: "length s < ACTIVE_TRANSFER_SAFETY_CAP" and used: "used_windows s < 8"
    and v: "v = (if cr_diagnostic_override request
        then clamp_transfer_window (cr_requested_window request)
        else min (clamp (cr_requested_window request) 1 8) (8 - used_windows s))"
    by (auto simp: admit_def Let_def hm_contains_iff k_def capacity_consts split: if_splits)
  have bounds: "1 \<le> v \<and> v \<le> 16"
    using used by (auto simp: v clamp_transfer_window_def capacity_consts clamp_def)
  have "used_windows s + v \<le> budget"
    using used budget bounds by (auto simp: v split: if_splits)
  then show ?thesis
    unfolding s' using bounds fresh len
    by (intro capacity_inv_insert [OF inv])
      (simp_all add: hm_insert_fresh used_windows_insert_fresh MAX_TRANSFER_WINDOW_def)
qed

lemma resize_keeps:
  assumes inv: "capacity_inv budget s" and budget: "8 \<le> budget"
  shows "capacity_inv budget (snd (resize s k w))"
proof (cases "hm_get s k")
  case None
  with inv show ?thesis by (simp add: resize_def)
next
  case (Some c)
  define v where "v = min (clamp w 1 8) (max (8 - (used_windows s - c)) 1)"
  from Some have s': "snd (resize s k w) = hm_insert k v s"
    by (simp add: resize_def Let_def v_def GLOBAL_TRANSFER_WINDOW_BUDGET_def)
  have v: "1 \<le> v" "v \<le> 8" by (auto simp: v_def clamp_def)
  from inv Some have "1 \<le> c" by (auto simp: capacity_inv_def dest!: hm_get_in_values)
  moreover from Some have "c \<le> used_windows s" by (rule member_le_used)
  moreover have "used_windows (hm_insert k v s) + c = used_windows s + v"
    using Some by (rule used_windows_update)
  moreover have "v \<le> max (8 - (used_windows s - c)) 1" by (simp add: v_def)
  ultimately have "used_windows (hm_insert k v s) \<le> max 8 (used_windows s)" by linarith
  with inv budget have "used_windows (hm_insert k v s) \<le> budget" by (auto simp: capacity_inv_def)
  then show ?thesis
    unfolding s' using v inv Some
    by (intro capacity_inv_insert [OF inv])
      (simp_all add: length_update capacity_inv_def MAX_TRANSFER_WINDOW_def)
qed

lemma drop_keeps: "capacity_inv budget s \<Longrightarrow> capacity_inv budget (drop_lease s lease)"
  using used_windows_remove [of "lease_transfer_id lease" s]
    length_remove [of "lease_transfer_id lease" s] values_remove [of "lease_transfer_id lease" s]
  by (auto simp: capacity_inv_def drop_lease_def)

lemma capacity_inv_step:
  "capacity_inv (if diag then 23 else 8) s \<Longrightarrow> capacity_step diag s t \<Longrightarrow>
   capacity_inv (if diag then 23 else 8) t"
  by (erule capacity_step.cases) (auto intro!: admit_keeps resize_keeps drop_keeps split: if_splits)

interpretation coordinator: guarded_machine
  "\<lambda>s. s = []" "capacity_step diag" "capacity_inv (if diag then 23 else 8)" for diag
proof unfold_locales
  show "capacity_inv (if diag then 23 else 8) s" if "s = []" for s
    using that by (simp add: capacity_inv_def used_windows_def hm_values_def)
qed (rule capacity_inv_step)

section \<open>Properties\<close>

text \<open>C34. In every state the coordinator can reach from empty, at most four transfers hold
  capacity, each holds a window of 1 to 16, no transfer holds two reservations, and the windows
  sum to at most 8. When requests with the diagnostic override are among the steps, the sum is at
  most 23: one override of 16 on top of the 7 that may be in use.\<close>

theorem capacity_bounded:
  assumes "rtranclp (capacity_step diag) [] s"
  shows "length s \<le> 4 \<and> distinct (hm_keys s)
    \<and> (\<forall>w \<in> set (hm_values s). 1 \<le> w \<and> w \<le> 16)
    \<and> used_windows s \<le> (if diag then 23 else 8)"
  using coordinator.inv_reachable [OF refl assms]
  by (simp add: capacity_inv_def capacity_consts hm_keys_def)

theorem capacity_bounded_witness:
  "rtranclp (capacity_step True) []
     [(''a'', 16)]
   \<and> used_windows [(''a'', 16)] \<le> 23"
proof -
  define request where "request = \<lparr>cr_transfer_id = ''a'', cr_room_id = ''r'', cr_size_bytes = 0,
    cr_requested_window = 99, cr_origin = Ordinary, cr_diagnostic_override = True\<rparr>"
  have "snd (admit [] request) = [(''a'', 16)]"
    by (simp add: request_def admit_def Let_def hm_contains_def used_windows_def hm_values_def
        hm_insert_def clamp_transfer_window_def clamp_def capacity_consts)
  then have run: "rtranclp (capacity_step True) [] [(''a'', 16)]"
    using capacity_step.admit [of request True "[]"] by simp
  from capacity_bounded [OF this] run show ?thesis by simp
qed

text \<open>Admission is exact: a request gets capacity if and only if it is well formed, its
  transfer holds none yet, fewer than four transfers are active and the budget of 8 is not used
  up. An ordinary lease never exceeds what is left of the budget, and the reservation recorded is
  the window the lease carries. A refused request changes nothing.\<close>

theorem admit_outcome:
  "(case admit s request of
     (Inr lease, s') \<Rightarrow>
       cr_transfer_id request \<noteq> [] \<and> length (cr_transfer_id request) \<le> 256
       \<and> cr_room_id request \<noteq> [] \<and> length (cr_room_id request) \<le> 128
       \<and> hm_get s (cr_transfer_id request) = None \<and> length s < 4 \<and> used_windows s < 8
       \<and> lease_transfer_id lease = cr_transfer_id request
       \<and> hm_get s' = (hm_get s)(cr_transfer_id request \<mapsto> lease_effective_window lease)
       \<and> 1 \<le> lease_effective_window lease
       \<and> (if cr_diagnostic_override request then lease_effective_window lease \<le> 16
          else lease_effective_window lease \<le> 8 - used_windows s)
   | (Inl RequestInvalid, s') \<Rightarrow> s' = s \<and>
       (cr_transfer_id request = [] \<or> 256 < length (cr_transfer_id request)
        \<or> cr_room_id request = [] \<or> 128 < length (cr_room_id request))
   | (Inl AlreadyReserved, s') \<Rightarrow> s' = s \<and> hm_get s (cr_transfer_id request) \<noteq> None
   | (Inl TemporarilyUnavailable, s') \<Rightarrow> s' = s \<and> (4 \<le> length s \<or> 8 \<le> used_windows s))"
  by (auto simp: admit_def Let_def hm_contains_iff hm_get_insert capacity_consts
      clamp_transfer_window_def clamp_def)

text \<open>A resize answers only for a transfer that holds capacity, gives it a window of at least 1
  and at most the requested one, leaves every other reservation alone, and never pushes the total
  beyond the budget unless it already was beyond it.\<close>

theorem resize_safe:
  assumes "capacity_inv budget s"
  shows "case resize s k w of
     (None, s') \<Rightarrow> hm_get s k = None \<and> s' = s
   | (Some v, s') \<Rightarrow> hm_get s k \<noteq> None \<and> hm_get s' = (hm_get s)(k \<mapsto> v)
       \<and> 1 \<le> v \<and> v \<le> max w 1 \<and> v \<le> 8 \<and> used_windows s' \<le> max 8 (used_windows s)"
proof (cases "hm_get s k")
  case None
  then show ?thesis by (simp add: resize_def)
next
  case (Some c)
  have "capacity_inv (max 8 (used_windows s)) (snd (resize s k w))"
    using assms by (intro resize_keeps) (auto simp: capacity_inv_def)
  then have used: "used_windows (snd (resize s k w)) \<le> max 8 (used_windows s)"
    by (simp add: capacity_inv_def)
  define v where "v = min (clamp w 1 8) (max (8 - (used_windows s - c)) 1)"
  have "1 \<le> v" "v \<le> max w 1" "v \<le> 8" by (auto simp: v_def clamp_def)
  moreover have "resize s k w = (Some v, hm_insert k v s)"
    using Some by (simp add: resize_def Let_def v_def GLOBAL_TRANSFER_WINDOW_BUDGET_def)
  ultimately show ?thesis using used Some by (simp add: hm_get_insert)
qed

theorem resize_safe_witness:
  "resize [(''a'', 3), (''b'', 5)] ''a'' 6 = (Some 3, [(''a'', 3), (''b'', 5)])
   \<and> used_windows (snd (resize [(''a'', 3), (''b'', 5)] ''a'' 6)) \<le> 8"
proof -
  have inv: "capacity_inv 8 [(''a'', 3), (''b'', 5)]"
    by (simp add: capacity_inv_def used_windows_def hm_values_def capacity_consts)
  have "resize [(''a'', 3), (''b'', 5)] ''a'' 6 = (Some 3, [(''a'', 3), (''b'', 5)])"
    by (simp add: resize_def Let_def hm_get_def used_windows_def hm_values_def hm_insert_def
        clamp_def capacity_consts)
  with resize_safe [OF inv, of "''a''" 6] show ?thesis
    by (simp add: used_windows_def hm_values_def)
qed

text \<open>The window a transfer runs with is always 1 to 16, and its source follows the fixed
  precedence: an environment value that parses, then the developer setting while developer tools
  are on, then the planner's request, then the default of 8.\<close>

theorem effective_transfer_tuning_precedence:
  "(let t = effective_transfer_tuning dev tools requested env;
        parsed = Option.bind env (\<lambda>v. parse_usize (trim v)) in
    1 \<le> effective_window_size t \<and> effective_window_size t \<le> 16
    \<and> (override_source t = Env \<longleftrightarrow> parsed \<noteq> None)
    \<and> (override_source t = DevSettings \<longleftrightarrow> parsed = None \<and> tools \<and> dev \<noteq> None)
    \<and> (override_source t = PlannerRequest \<longleftrightarrow>
         parsed = None \<and> \<not> (tools \<and> dev \<noteq> None) \<and> requested \<noteq> None)
    \<and> (override_source t = Default \<longleftrightarrow> t = TransferTuning_default))"
proof -
  have w: "1 \<le> clamp_transfer_window v \<and> clamp_transfer_window v \<le> 16" for v
    by (simp add: clamp_transfer_window_def clamp_def capacity_consts)
  show ?thesis
  proof (cases "Option.bind env (\<lambda>v. parse_usize (trim v))")
    case (Some n)
    with w [of n] show ?thesis
      by (simp add: effective_transfer_tuning_def TransferTuning_default_def)
  next
    case None
    note env = this
    show ?thesis
    proof (cases "if tools then dev else None")
      case (Some n)
      with env w [of n] show ?thesis
        by (simp add: effective_transfer_tuning_def TransferTuning_default_def split: if_splits)
    next
      case None
      with env w show ?thesis
        by (cases requested) (auto simp: effective_transfer_tuning_def TransferTuning_default_def
            capacity_consts split: if_splits)
    qed
  qed
qed

end
