(* ===== verification/Third_Party.thy ===== *)
theory Third_Party
  imports Rust_Prelude
begin

text \<open>
  The third-party code the modelled modules call, as parameters. \<open>lib\<close> collects the functions; every
  definition that calls one takes the \<open>lib\<close> as its first argument \<open>L\<close>. What a property needs of them
  is one of the named hypotheses below, each the documented behaviour of the crate:

  \<^item> \<^verbatim>\<open>blake3\<close>: \<open>blake3_hex\<close> is \<^verbatim>\<open>hash(..).to_hex()\<close> (an incremental hasher is a hash of the
    concatenated updates), \<open>blake3_keyed_hex\<close> the keyed hash. \<open>hex_digests\<close> says the text is 64
    hexadecimal digits. A property that needs a hash to tell two messages apart says so of exactly
    the messages it compares, as injectivity on that finite set.
  \<^item> \<^verbatim>\<open>serde_json\<close>: the derived serializers are modelled from the source's types and attributes as
    functions into \<open>json\<close>; \<open>json_vec\<close> is \<^verbatim>\<open>to_vec\<close> and \<open>json_str\<close> is \<^verbatim>\<open>to_string\<close> of a string.
    \<open>json_faithful\<close> says that \<^verbatim>\<open>to_vec\<close> loses nothing, \<open>json_str_delimited\<close> that a printed string
    says where it ends and starts with a quote.
  \<^item> \<^verbatim>\<open>uuid\<close>: \<open>uuid_parses\<close> is \<^verbatim>\<open>Uuid::parse_str(..).is_ok()\<close>; a fresh \<^verbatim>\<open>Uuid::new_v4()\<close> is an
    argument of the operation that draws it.
\<close>

datatype json =
  JNull | JBool bool | JInt int | JStr string | JArr "json list" | JObj "(string \<times> json) list"

record lib =
  blake3_hex :: "byte list \<Rightarrow> string"
  blake3_keyed_hex :: "byte list \<Rightarrow> byte list \<Rightarrow> string"
  json_vec :: "json \<Rightarrow> byte list"
  json_str :: "string \<Rightarrow> string"
  uuid_parses :: "string \<Rightarrow> bool"

definition hex64 :: "string \<Rightarrow> bool" where
  "hex64 s \<longleftrightarrow> length s = 64 \<and> list_all is_ascii_hexdigit s"

definition hex_digests :: "lib \<Rightarrow> bool" where
  "hex_digests L \<longleftrightarrow> (\<forall>m. hex64 (blake3_hex L m)) \<and> (\<forall>k m. hex64 (blake3_keyed_hex L k m))"

definition json_faithful :: "lib \<Rightarrow> bool" where
  "json_faithful L \<longleftrightarrow> inj (json_vec L)"

definition json_str_delimited :: "lib \<Rightarrow> bool" where
  "json_str_delimited L \<longleftrightarrow>
     (\<forall>s. \<exists>t. json_str L s = CHR 0x22 # t)
     \<and> (\<forall>s t r r'. json_str L s @ r = json_str L t @ r' \<longrightarrow> s = t \<and> r = r')"

definition collision_free :: "lib \<Rightarrow> byte list set \<Rightarrow> bool" where
  "collision_free L M \<longleftrightarrow> inj_on (blake3_hex L) M"

lemma collision_freeD:
  "collision_free L M \<Longrightarrow> x \<in> M \<Longrightarrow> y \<in> M \<Longrightarrow> blake3_hex L x = blake3_hex L y \<Longrightarrow> x = y"
  by (auto simp: collision_free_def dest: inj_onD)

lemma json_faithfulD: "json_faithful L \<Longrightarrow> json_vec L x = json_vec L y \<Longrightarrow> x = y"
  by (auto simp: json_faithful_def dest: injD)

section \<open>Building blocks of derived serializers\<close>

named_theorems json_inj \<open>serializers are injective\<close>

definition ju64 :: "u64 \<Rightarrow> json" where
  "ju64 w = JInt (uint w)"

definition jopt :: "('a \<Rightarrow> json) \<Rightarrow> 'a option \<Rightarrow> json" where
  "jopt f x = (case x of None \<Rightarrow> JNull | Some v \<Rightarrow> f v)"

definition jlist :: "('a \<Rightarrow> json) \<Rightarrow> 'a list \<Rightarrow> json" where
  "jlist f xs = JArr (map f xs)"

definition jset :: "('a::linorder \<Rightarrow> json) \<Rightarrow> 'a fset \<Rightarrow> json" where
  "jset f s = JArr (map f (sorted_list_of_fset s))"

lemma ju64_inj [json_inj]: "ju64 a = ju64 b \<longleftrightarrow> a = b"
  by (simp add: ju64_def word_uint_eq_iff)

lemma jopt_str_inj [json_inj]: "jopt JStr a = jopt JStr b \<longleftrightarrow> a = b"
  by (auto simp: jopt_def split: option.splits)

lemma jopt_int_inj [json_inj]: "jopt JInt a = jopt JInt b \<longleftrightarrow> a = b"
  by (auto simp: jopt_def split: option.splits)

lemma jlist_inj: "(\<And>x y. f x = f y \<longleftrightarrow> x = y) \<Longrightarrow> jlist f xs = jlist f ys \<longleftrightarrow> xs = ys"
  by (simp add: jlist_def inj_def inj_map_eq_map)

lemma sorted_list_of_fset_inj: "sorted_list_of_fset s = sorted_list_of_fset t \<longleftrightarrow> s = t"
  by (metis fset_inverse sorted_list_of_fset.rep_eq set_sorted_list_of_set finite_fset)

lemma jset_inj: "(\<And>x y. f x = f y \<longleftrightarrow> x = y) \<Longrightarrow> jset f s = jset f t \<longleftrightarrow> s = t"
  by (simp add: jset_def inj_def inj_map_eq_map sorted_list_of_fset_inj)

section \<open>Messages made of fields that end in a zero byte\<close>

text \<open>Several hash inputs are texts separated by \<^verbatim>\<open>\0\<close>: such a concatenation is unambiguous as long as
  no text holds a zero byte itself.\<close>

definition no_nul :: "string \<Rightarrow> bool" where
  "no_nul s \<longleftrightarrow> CHR 0x00 \<notin> set s"

definition nul_terminated :: "string list \<Rightarrow> byte list" where
  "nul_terminated xs = concat (map (\<lambda>s. as_bytes s @ [0]) xs)"

lemma zero_byte_char: "(of_char c :: byte) = 0 \<longleftrightarrow> c = CHR 0x00"
proof
  assume "(of_char c :: byte) = 0"
  then have "(of_char c :: byte) = of_char (CHR 0x00)" by simp
  then show "c = CHR 0x00" by (rule injD [OF inj_byte_of_char])
qed simp

lemma no_nul_bytes: "no_nul s \<Longrightarrow> 0 \<notin> set (as_bytes s)"
  by (auto simp: no_nul_def as_bytes_def zero_byte_char dest!: sym [of 0])

lemma split_at_nul:
  assumes "0 \<notin> set a" and "0 \<notin> set b" and "a @ 0 # r = b @ 0 # (r' :: byte list)"
  shows "a = b \<and> r = r'"
  using assms
proof (induction a arbitrary: b)
  case Nil
  then show ?case by (cases b) auto
next
  case (Cons x a)
  then show ?case by (cases b) auto
qed

lemma nul_terminated_inj:
  assumes "length xs = length ys" and "list_all no_nul xs" and "list_all no_nul ys"
    and "nul_terminated xs @ r = nul_terminated ys @ r'"
  shows "xs = ys \<and> r = r'"
  using assms
proof (induction xs ys rule: list_induct2)
  case Nil
  then show ?case by (simp add: nul_terminated_def)
next
  case (Cons x xs y ys)
  from Cons.prems(3) have "as_bytes x @ 0 # (nul_terminated xs @ r) = as_bytes y @ 0 # (nul_terminated ys @ r')"
    by (simp add: nul_terminated_def)
  then have "as_bytes x = as_bytes y \<and> nul_terminated xs @ r = nul_terminated ys @ r'"
    using Cons.prems(1,2) by (intro split_at_nul) (auto dest: no_nul_bytes)
  with Cons show ?case by auto
qed

section \<open>Instances\<close>

text \<open>
  Two instances of \<open>lib\<close> that satisfy the hypotheses, for closed examples: in \<open>zero_digest_lib\<close>
  every digest is 64 zeros; in \<open>plain_lib\<close> the digest is the message itself, JSON values are written
  in a tagged self-delimiting form, and a printed string is quoted with every character escaped.
\<close>

definition tag_str :: "string \<Rightarrow> byte list" where
  "tag_str s = concat (map (\<lambda>c. [1, of_char c]) s) @ [0]"

fun tag_json :: "json \<Rightarrow> byte list" where
  "tag_json JNull = [0]"
| "tag_json (JBool b) = [1, if b then 1 else 0]"
| "tag_json (JInt i) = [2, if i < 0 then 1 else 0] @ replicate (nat \<bar>i\<bar>) 1 @ [0]"
| "tag_json (JStr s) = 3 # tag_str s"
| "tag_json (JArr xs) = 4 # concat (map (\<lambda>x. 1 # tag_json x) xs) @ [0]"
| "tag_json (JObj kvs) = 5 # concat (map (\<lambda>(k, v). 1 # tag_str k @ tag_json v) kvs) @ [0]"

definition quote_str :: "string \<Rightarrow> string" where
  "quote_str s = CHR 0x22 # concat (map (\<lambda>c. [CHR 0x5C, c]) s) @ [CHR 0x22]"

definition plain_lib :: lib where
  "plain_lib = \<lparr>blake3_hex = map (\<lambda>b. char_of (unat b)),
     blake3_keyed_hex = (\<lambda>k m. map (\<lambda>b. char_of (unat b)) m),
     json_vec = tag_json, json_str = quote_str, uuid_parses = (\<lambda>s. length s = 36)\<rparr>"

definition zero_digest_lib :: lib where
  "zero_digest_lib = plain_lib\<lparr>blake3_hex := (\<lambda>_. replicate 64 CHR ''0''),
     blake3_keyed_hex := (\<lambda>_ _. replicate 64 CHR ''0'')\<rparr>"

lemma hex_digests_zero_digest_lib: "hex_digests zero_digest_lib"
  by (simp add: hex_digests_def zero_digest_lib_def hex64_def is_ascii_hexdigit_def list_all_iff)

lemma inj_char_of_byte: "inj (\<lambda>b :: byte. char_of (unat b))"
proof (rule injI)
  fix x y :: byte
  assume "char_of (unat x) = (char_of (unat y) :: char)"
  then have "unat x mod 256 = unat y mod 256"
    by (metis of_char_of)
  moreover have "unat z < 256" for z :: byte
    using unsigned_less [of z, where ?'a = nat] by simp
  ultimately have "unat x = unat y" by (metis mod_less)
  then show "x = y" by (simp only: word_unat_eq_iff)
qed

lemma collision_free_plain_lib: "collision_free plain_lib M"
  unfolding collision_free_def plain_lib_def
  by (simp add: inj_on_subset [OF inj_mapI [OF inj_char_of_byte]])

lemma tag_str_delimited: "tag_str s @ r = tag_str t @ r' \<Longrightarrow> s = t \<and> r = r'"
proof (induction s arbitrary: t)
  case Nil
  then show ?case by (cases t) (auto simp: tag_str_def)
next
  case (Cons c s)
  from Cons.prems obtain d t' where t: "t = d # t'" by (cases t) (auto simp: tag_str_def)
  with Cons.prems have "(of_char c :: byte) = of_char d" and "tag_str s @ r = tag_str t' @ r'"
    by (simp_all add: tag_str_def)
  with Cons.IH t injD [OF inj_byte_of_char] show ?case by auto
qed

lemma replicate_delimited:
  "replicate m 1 @ (0 :: byte) # r = replicate n 1 @ 0 # r' \<Longrightarrow> m = n \<and> r = r'"
proof (induction m arbitrary: n)
  case 0
  then show ?case by (cases n) auto
next
  case (Suc m)
  then show ?case by (cases n) auto
qed

lemma tagged_list_delimited:
  assumes "\<And>x y r r'. x \<in> set xs \<Longrightarrow> f x @ r = f y @ r' \<Longrightarrow> x = y \<and> r = (r' :: byte list)"
    and "concat (map (\<lambda>x. 1 # f x) xs) @ 0 # r = concat (map (\<lambda>x. 1 # f x) ys) @ 0 # r'"
  shows "xs = ys \<and> r = r'"
  using assms
proof (induction xs arbitrary: ys)
  case Nil
  then show ?case by (cases ys) auto
next
  case (Cons x xs)
  from Cons.prems(2) obtain y ys' where ys: "ys = y # ys'" by (cases ys) auto
  with Cons.prems(2) have "f x @ concat (map (\<lambda>x. 1 # f x) xs) @ 0 # r =
      f y @ concat (map (\<lambda>x. 1 # f x) ys') @ 0 # r'" by simp
  with Cons.prems(1) [of x] have "x = y" and
    rest: "concat (map (\<lambda>x. 1 # f x) xs) @ 0 # r = concat (map (\<lambda>x. 1 # f x) ys') @ 0 # r'" by auto
  have "xs = ys' \<and> r = r'"
    by (rule Cons.IH [OF _ rest]) (rule Cons.prems(1), simp_all)
  with \<open>x = y\<close> ys show ?case by simp
qed

lemma tag_json_delimited: "tag_json x @ r = tag_json y @ r' \<Longrightarrow> x = y \<and> r = r'"
proof (induction x arbitrary: y r r')
  case (JInt i)
  then obtain j where y: "y = JInt j" by (cases y) auto
  with JInt have sg: "(i < 0) = (j < 0)"
    and "replicate (nat \<bar>i\<bar>) 1 @ (0 :: byte) # r = replicate (nat \<bar>j\<bar>) 1 @ 0 # r'"
    by (auto split: if_splits)
  from replicate_delimited [OF this(2)] sg have "i = j \<and> r = r'" by (cases "i < 0") auto
  with y show ?case by simp
next
  case (JStr s)
  then show ?case by (cases y) (auto dest: tag_str_delimited)
next
  case (JArr xs)
  then obtain ys where y: "y = JArr ys" by (cases y) auto
  with JArr.prems have "concat (map (\<lambda>x. 1 # tag_json x) xs) @ 0 # r =
      concat (map (\<lambda>x. 1 # tag_json x) ys) @ 0 # r'" by simp
  from tagged_list_delimited [OF _ this] JArr.IH y show ?case by auto
next
  case (JObj kvs)
  then obtain kvs' where y: "y = JObj kvs'" by (cases y) auto
  define f where "f = (\<lambda>(k, v). tag_str k @ tag_json v)"
  from y JObj.prems have "concat (map (\<lambda>x. 1 # f x) kvs) @ 0 # r =
      concat (map (\<lambda>x. 1 # f x) kvs') @ 0 # r'"
    by (simp add: f_def case_prod_unfold)
  moreover have "x = z \<and> u = u'" if x: "x \<in> set kvs" and eq: "f x @ u = f z @ u'" for x z u u'
  proof -
    from eq have "tag_str (fst x) @ tag_json (snd x) @ u = tag_str (fst z) @ tag_json (snd z) @ u'"
      by (simp add: f_def case_prod_beta)
    from tag_str_delimited [OF this] have "fst x = fst z" "tag_json (snd x) @ u = tag_json (snd z) @ u'"
      by auto
    with JObj.IH [of x "snd x"] x show ?thesis by (auto simp: prod_eq_iff snds.simps)
  qed
  ultimately have "kvs = kvs' \<and> r = r'" by (rule tagged_list_delimited [rotated])
  with y show ?case by simp
qed (case_tac y; auto split: if_splits)+

lemma json_faithful_plain_lib: "json_faithful plain_lib"
proof -
  have "x = y" if "tag_json x = tag_json y" for x y
    using tag_json_delimited [of x "[]" y "[]"] that by simp
  then show ?thesis by (simp add: json_faithful_def plain_lib_def inj_def)
qed

lemma quote_str_delimited:
  "quote_str s @ r = quote_str t @ r' \<Longrightarrow> s = t \<and> r = r'"
proof (induction s arbitrary: t)
  case Nil
  then show ?case by (cases t) (auto simp: quote_str_def)
next
  case (Cons c s)
  then show ?case by (cases t) (auto simp: quote_str_def)
qed

lemma json_str_delimited_plain_lib: "json_str_delimited plain_lib"
proof -
  have "json_str plain_lib = quote_str" by (simp add: plain_lib_def)
  moreover have "\<exists>t. quote_str s = CHR 0x22 # t" for s by (simp add: quote_str_def)
  ultimately show ?thesis unfolding json_str_delimited_def using quote_str_delimited by metis
qed

end
