(* ===== verification/Host_Identity.thy ===== *)
theory Host_Identity
  imports Third_Party Interfaces "HOL-Library.Product_Lexorder"
begin

text \<open>
  Host identity, \<^verbatim>\<open>src-tauri/src/host_identity.rs\<close>: the logical Host reference, a Host's reference
  inside one Plan, the participants of a Plan, and the two kinds of execution freshness (the local
  runtime generation, and the exact Bridge session binding of a remote Host).

  The newtypes around \<^verbatim>\<open>String\<close> are type synonyms for \<^typ>\<open>string\<close>; their derived order is the
  bytewise one. Record fields carry a short prefix of their struct.
\<close>

type_synonym HostRef = string
type_synonym PlanParticipantRef = string

datatype identity_error =
  HostIdentityUnavailable | InvalidHostRefVersion | InvalidHostRefEncoding | PeerIsLocal
| PlanIdentityUnavailable | DuplicateHost | NoParticipant
| RuntimeStale | LocalFreshnessIncomplete | LocalFreshnessExpired | LocalFreshnessStale
| FreshnessKindMismatch | BindingIncomplete | BindingIdentitiesEqual | BindingExpired | BindingStale

definition HOST_REF_PREFIX :: string where "HOST_REF_PREFIX = ''host:v1:''"
definition PARTICIPANT_REF_PREFIX :: string where "PARTICIPANT_REF_PREFIX = ''plan-participant:v1:''"

section \<open>Host references\<close>

definition HostRef_from_device_id :: "lib \<Rightarrow> string \<Rightarrow> identity_error + HostRef" where
  "HostRef_from_device_id L device_id =
     (let device_id = trim device_id in
      and_then (ensure (device_id \<noteq> []) HostIdentityUnavailable) (\<lambda>_.
      Inr (HOST_REF_PREFIX @
        blake3_hex L (as_bytes ''pastey-host-ref-v1'' @ [0] @ as_bytes device_id))))"

definition HostRef_parse :: "string \<Rightarrow> identity_error + HostRef" where
  "HostRef_parse value =
     and_then (ok_or (strip_prefix HOST_REF_PREFIX value) InvalidHostRefVersion) (\<lambda>digest.
     and_then (ensure (length digest = 64 \<and> list_all is_ascii_hexdigit digest)
       InvalidHostRefEncoding) (\<lambda>_.
     Inr value))"

definition HostRef_parse_peer :: "string \<Rightarrow> HostRef \<Rightarrow> identity_error + HostRef" where
  "HostRef_parse_peer value local_host_ref =
     and_then (HostRef_parse value) (\<lambda>peer.
     and_then (ensure (peer \<noteq> local_host_ref) PeerIsLocal) (\<lambda>_. Inr peer))"

section \<open>Plan participants\<close>

definition participant_ref_message :: "string \<Rightarrow> HostRef \<Rightarrow> byte list" where
  "participant_ref_message plan_id host_ref =
     as_bytes ''pastey-plan-participant-ref-v1'' @ [0] @ as_bytes plan_id @ [0] @ as_bytes host_ref"

definition PlanParticipantRef_for_host ::
  "lib \<Rightarrow> string \<Rightarrow> HostRef \<Rightarrow> identity_error + PlanParticipantRef" where
  "PlanParticipantRef_for_host L plan_id host_ref =
     (let plan_id = trim plan_id in
      and_then (ensure (plan_id \<noteq> []) PlanIdentityUnavailable) (\<lambda>_.
      Inr (PARTICIPANT_REF_PREFIX @ blake3_hex L (participant_ref_message plan_id host_ref))))"

record PlanParticipant =
  pp_participant_ref :: PlanParticipantRef
  pp_host_ref :: HostRef

type_synonym PlanParticipants = "PlanParticipant list"

fun participants_by_host ::
  "lib \<Rightarrow> string \<Rightarrow> (HostRef, PlanParticipant) hmap \<Rightarrow> HostRef list
    \<Rightarrow> identity_error + (HostRef, PlanParticipant) hmap" where
  "participants_by_host L plan_id by_host [] = Inr by_host"
| "participants_by_host L plan_id by_host (host_ref # hosts) =
     and_then (PlanParticipantRef_for_host L plan_id host_ref) (\<lambda>participant_ref.
     if hm_contains by_host host_ref then Inl DuplicateHost
     else participants_by_host L plan_id
       (hm_insert host_ref \<lparr>pp_participant_ref = participant_ref, pp_host_ref = host_ref\<rparr> by_host)
       hosts)"

text \<open>\<^verbatim>\<open>by_host.into_values()\<close> of the ordered map: sorted by Host.\<close>

definition PlanParticipants_new ::
  "lib \<Rightarrow> string \<Rightarrow> HostRef list \<Rightarrow> identity_error + PlanParticipants" where
  "PlanParticipants_new L plan_id hosts =
     and_then (participants_by_host L plan_id [] hosts) (\<lambda>by_host.
     and_then (ensure (by_host \<noteq> []) NoParticipant) (\<lambda>_.
     Inr (map snd (sort_key fst by_host))))"

section \<open>Freshness of the local runtime\<close>

record LocalRuntimeRef =
  lr_host_ref :: HostRef
  lr_generation_ref :: string

definition LocalRuntimeRef_fresh :: "string \<Rightarrow> HostRef \<Rightarrow> LocalRuntimeRef" where
  "LocalRuntimeRef_fresh uuid host_ref =
     \<lparr>lr_host_ref = host_ref, lr_generation_ref = ''local-runtime:v1:'' @ uuid\<rparr>"

definition LocalRuntimeRef_validate_current ::
  "LocalRuntimeRef \<Rightarrow> LocalRuntimeRef \<Rightarrow> identity_error + unit" where
  "LocalRuntimeRef_validate_current self current = ensure (self = current) RuntimeStale"

record LocalExecutionFreshness =
  lf_bridge_id :: string
  lf_local_runtime_ref :: LocalRuntimeRef
  lf_expires_at :: int

definition LocalExecutionFreshness_new ::
  "string \<Rightarrow> LocalRuntimeRef \<Rightarrow> int \<Rightarrow> identity_error + LocalExecutionFreshness" where
  "LocalExecutionFreshness_new bridge_id local_runtime_ref expires_at =
     and_then (ensure (trim bridge_id \<noteq> [] \<and> 0 < expires_at) LocalFreshnessIncomplete) (\<lambda>_.
     Inr \<lparr>lf_bridge_id = bridge_id, lf_local_runtime_ref = local_runtime_ref,
          lf_expires_at = expires_at\<rparr>)"

definition LocalExecutionFreshness_validate_current ::
  "LocalExecutionFreshness \<Rightarrow> LocalExecutionFreshness \<Rightarrow> int \<Rightarrow> identity_error + unit" where
  "LocalExecutionFreshness_validate_current self current now =
     and_then (ensure (now < lf_expires_at self \<and> now < lf_expires_at current)
       LocalFreshnessExpired) (\<lambda>_.
     and_then (LocalRuntimeRef_validate_current (lf_local_runtime_ref self)
       (lf_local_runtime_ref current)) (\<lambda>_.
     ensure (self = current) LocalFreshnessStale))"

section \<open>Session bindings\<close>

record HostSessionBinding =
  sb_bridge_id :: string
  sb_local_host_ref :: HostRef
  sb_peer_host_ref :: HostRef
  sb_local_session_ref :: string
  sb_peer_session_ref :: string
  sb_peer_route_ref :: string
  sb_expires_at :: int
  sb_binding_ref :: string
  sb_session_pair_ref :: string

definition session_pair_message ::
  "string \<Rightarrow> HostRef \<Rightarrow> string \<Rightarrow> HostRef \<Rightarrow> string \<Rightarrow> byte list" where
  "session_pair_message bridge_id first_host_ref first_session_ref second_host_ref
     second_session_ref =
    as_bytes ''pastey-host-session-pair-ref-v1'' @ [0] @ as_bytes bridge_id @ [0]
    @ concat (map (\<lambda>(host_ref, session_ref). as_bytes host_ref @ [0] @ as_bytes session_ref @ [0])
        (sort [(first_host_ref, first_session_ref), (second_host_ref, second_session_ref)]))"

definition session_pair_ref ::
  "lib \<Rightarrow> string \<Rightarrow> HostRef \<Rightarrow> string \<Rightarrow> HostRef \<Rightarrow> string \<Rightarrow> string" where
  "session_pair_ref L bridge_id first_host_ref first_session_ref second_host_ref
     second_session_ref =
    ''host-session-pair:v1:'' @ blake3_hex L (session_pair_message bridge_id first_host_ref
      first_session_ref second_host_ref second_session_ref)"

definition session_binding_message ::
  "string \<Rightarrow> HostRef \<Rightarrow> HostRef \<Rightarrow> string \<Rightarrow> string \<Rightarrow> string \<Rightarrow> int \<Rightarrow> byte list" where
  "session_binding_message bridge_id local_host_ref peer_host_ref local_session_ref
     peer_session_ref peer_route_ref expires_at =
    as_bytes ''pastey-host-session-binding-v1'' @ [0]
    @ concat (map (\<lambda>value. as_bytes value @ [0])
        [bridge_id, local_host_ref, peer_host_ref, local_session_ref, peer_session_ref,
         peer_route_ref])
    @ i64_to_le_bytes expires_at"

definition HostSessionBinding_new ::
  "lib \<Rightarrow> string \<Rightarrow> HostRef \<Rightarrow> HostRef \<Rightarrow> string \<Rightarrow> string \<Rightarrow> string \<Rightarrow> int
    \<Rightarrow> identity_error + HostSessionBinding" where
  "HostSessionBinding_new L bridge_id local_host_ref peer_host_ref local_session_ref
     peer_session_ref peer_route_ref expires_at =
    and_then (ensure (trim bridge_id \<noteq> [] \<and> trim local_session_ref \<noteq> []
        \<and> trim peer_session_ref \<noteq> [] \<and> trim peer_route_ref \<noteq> [] \<and> 0 < expires_at)
      BindingIncomplete) (\<lambda>_.
    and_then (ensure (local_host_ref \<noteq> peer_host_ref) BindingIdentitiesEqual) (\<lambda>_.
    Inr \<lparr>sb_bridge_id = bridge_id,
         sb_local_host_ref = local_host_ref,
         sb_peer_host_ref = peer_host_ref,
         sb_local_session_ref = local_session_ref,
         sb_peer_session_ref = peer_session_ref,
         sb_peer_route_ref = peer_route_ref,
         sb_expires_at = expires_at,
         sb_binding_ref = ''host-session-binding:v1:'' @ blake3_hex L
           (session_binding_message bridge_id local_host_ref peer_host_ref local_session_ref
             peer_session_ref peer_route_ref expires_at),
         sb_session_pair_ref = session_pair_ref L bridge_id local_host_ref local_session_ref
           peer_host_ref peer_session_ref\<rparr>))"

definition HostSessionBinding_validate_current ::
  "HostSessionBinding \<Rightarrow> HostSessionBinding \<Rightarrow> int \<Rightarrow> identity_error + unit" where
  "HostSessionBinding_validate_current self current now =
     and_then (ensure (now < sb_expires_at self \<and> now < sb_expires_at current) BindingExpired) (\<lambda>_.
     ensure (self = current) BindingStale)"

section \<open>Execution freshness\<close>

datatype HostExecutionFreshness =
  LocalFreshness LocalExecutionFreshness | RemoteFreshness HostSessionBinding

fun freshness_bridge_id :: "HostExecutionFreshness \<Rightarrow> string" where
  "freshness_bridge_id (LocalFreshness freshness) = lf_bridge_id freshness"
| "freshness_bridge_id (RemoteFreshness binding) = sb_bridge_id binding"

fun freshness_local_host_ref :: "HostExecutionFreshness \<Rightarrow> HostRef" where
  "freshness_local_host_ref (LocalFreshness freshness) = lr_host_ref (lf_local_runtime_ref freshness)"
| "freshness_local_host_ref (RemoteFreshness binding) = sb_local_host_ref binding"

fun freshness_expires_at :: "HostExecutionFreshness \<Rightarrow> int" where
  "freshness_expires_at (LocalFreshness freshness) = lf_expires_at freshness"
| "freshness_expires_at (RemoteFreshness binding) = sb_expires_at binding"

fun freshness_authority_ref :: "HostExecutionFreshness \<Rightarrow> string" where
  "freshness_authority_ref (LocalFreshness freshness) =
     lr_generation_ref (lf_local_runtime_ref freshness)"
| "freshness_authority_ref (RemoteFreshness binding) = sb_binding_ref binding"

fun freshness_as_remote :: "HostExecutionFreshness \<Rightarrow> HostSessionBinding option" where
  "freshness_as_remote (LocalFreshness _) = None"
| "freshness_as_remote (RemoteFreshness binding) = Some binding"

fun freshness_validate_current ::
  "HostExecutionFreshness \<Rightarrow> HostExecutionFreshness \<Rightarrow> int \<Rightarrow> identity_error + unit" where
  "freshness_validate_current (LocalFreshness captured) (LocalFreshness current) now =
     LocalExecutionFreshness_validate_current captured current now"
| "freshness_validate_current (RemoteFreshness captured) (RemoteFreshness current) now =
     HostSessionBinding_validate_current captured current now"
| "freshness_validate_current _ _ now = Inl FreshnessKindMismatch"

section \<open>The freshness contract, for all three kinds\<close>

interpretation local_freshness: freshness_contract LocalExecutionFreshness_validate_current lf_expires_at
  by unfold_locales
    (auto simp: LocalExecutionFreshness_validate_current_def LocalRuntimeRef_validate_current_def
      res_simps)

interpretation session_binding: freshness_contract HostSessionBinding_validate_current sb_expires_at
  by unfold_locales (auto simp: HostSessionBinding_validate_current_def res_simps)

interpretation execution_freshness: freshness_contract freshness_validate_current freshness_expires_at
proof unfold_locales
  fix captured current now
  show "freshness_validate_current captured current now = Inr () \<longleftrightarrow>
    captured = current \<and> now < freshness_expires_at current"
    by (cases captured; cases current)
      (auto simp: local_freshness.validate_iff session_binding.validate_iff)
qed

section \<open>Lemmas\<close>

lemma session_pair_message_sym:
  "session_pair_message b h s h' s' = session_pair_message b h' s' h s"
  by (auto simp: session_pair_message_def)

lemma session_binding_message_inj:
  assumes "session_binding_message b h p ls ps r e = session_binding_message b' h' p' ls' ps' r' e'"
    and "list_all no_nul [b, h, p, ls, ps, r]" and "list_all no_nul [b', h', p', ls', ps', r']"
    and "in_i64 e" and "in_i64 e'"
  shows "b = b' \<and> h = h' \<and> p = p' \<and> ls = ls' \<and> ps = ps' \<and> r = r' \<and> e = e'"
proof -
  have "[b, h, p, ls, ps, r] = [b', h', p', ls', ps', r'] \<and> i64_to_le_bytes e = i64_to_le_bytes e'"
    using assms(1-3)
    by (intro nul_terminated_inj)
      (simp_all only: session_binding_message_def nul_terminated_def append_assoc same_append_eq
        list.size append_Cons append_Nil list.inject simp_thms)
  then show ?thesis using i64_to_le_bytes_inj [OF assms(4,5)] by simp
qed

lemma HostSessionBinding_new_Inr:
  "HostSessionBinding_new L b h p ls ps r e = Inr x \<longleftrightarrow>
     trim b \<noteq> [] \<and> trim ls \<noteq> [] \<and> trim ps \<noteq> [] \<and> trim r \<noteq> [] \<and> 0 < e \<and> h \<noteq> p
     \<and> x = \<lparr>sb_bridge_id = b, sb_local_host_ref = h, sb_peer_host_ref = p,
         sb_local_session_ref = ls, sb_peer_session_ref = ps, sb_peer_route_ref = r,
         sb_expires_at = e,
         sb_binding_ref = ''host-session-binding:v1:'' @
           blake3_hex L (session_binding_message b h p ls ps r e),
         sb_session_pair_ref = session_pair_ref L b h ls p ps\<rparr>"
  by (auto simp: HostSessionBinding_new_def res_simps)

lemma participants_by_host_Inr:
  "participants_by_host L plan_id acc hosts = Inr m \<Longrightarrow> hm_wf acc \<Longrightarrow>
   (\<forall>(h, x) \<in> set acc. pp_host_ref x = h \<and> PlanParticipantRef_for_host L plan_id h = Inr (pp_participant_ref x)) \<Longrightarrow>
   map fst m = map fst acc @ hosts
   \<and> (\<forall>(h, x) \<in> set m. pp_host_ref x = h \<and> PlanParticipantRef_for_host L plan_id h = Inr (pp_participant_ref x))"
proof (induction hosts arbitrary: acc)
  case Nil
  then show ?case by simp
next
  case (Cons h hosts)
  from Cons.prems(1) obtain r where r: "PlanParticipantRef_for_host L plan_id h = Inr r"
    and fresh: "hm_get acc h = None"
    and rec: "participants_by_host L plan_id
      (hm_insert h \<lparr>pp_participant_ref = r, pp_host_ref = h\<rparr> acc) hosts = Inr m"
    by (auto simp: res_simps hm_contains_iff split: if_splits)
  note ins = hm_insert_fresh [OF fresh, of "\<lparr>pp_participant_ref = r, pp_host_ref = h\<rparr>"]
  have "hm_wf (hm_insert h \<lparr>pp_participant_ref = r, pp_host_ref = h\<rparr> acc)"
    using Cons.prems(2) by simp
  with Cons.IH [OF rec] Cons.prems(3) r show ?case by (simp add: ins)
qed

lemma participants_by_host_distinct:
  "participants_by_host L plan_id acc hosts = Inr m \<Longrightarrow> hm_wf acc \<Longrightarrow> hm_wf m"
  by (induction hosts arbitrary: acc) (auto simp: res_simps split: if_splits)

section \<open>Properties\<close>

text \<open>A Host reference derived from a device id is accepted by the parser, and nothing but the
  prefix and 64 hexadecimal digits is.\<close>

theorem host_ref_parse_iff:
  assumes "hex_digests L"
  shows "(HostRef_parse v = Inr r \<longleftrightarrow> r = v \<and> (\<exists>d. v = HOST_REF_PREFIX @ d \<and> hex64 d))
    \<and> (\<forall>id. trim id \<noteq> [] \<longrightarrow>
        (\<exists>h. HostRef_from_device_id L id = Inr h \<and> HostRef_parse h = Inr h))"
proof -
  have parse: "HostRef_parse v = Inr r \<longleftrightarrow> r = v \<and> (\<exists>d. v = HOST_REF_PREFIX @ d \<and> hex64 d)" for v r
    by (auto simp: HostRef_parse_def res_simps hex64_def)
  have "HostRef_parse (HOST_REF_PREFIX @ blake3_hex L m) = Inr (HOST_REF_PREFIX @ blake3_hex L m)" for m
    using assms by (simp add: parse hex_digests_def)
  then show ?thesis using parse by (simp add: HostRef_from_device_id_def)
qed

theorem host_ref_parse_iff_witness:
  "HostRef_parse (HOST_REF_PREFIX @ replicate 64 CHR ''a'') = Inr (HOST_REF_PREFIX @ replicate 64 CHR ''a'')
   \<and> (\<exists>h. HostRef_from_device_id zero_digest_lib ''device'' = Inr h \<and> HostRef_parse h = Inr h)"
proof -
  have "hex64 (replicate 64 CHR ''a'')" by (simp add: hex64_def is_ascii_hexdigit_def list_all_iff)
  moreover have "trim ''device'' \<noteq> []" by code_simp
  ultimately show ?thesis
    using host_ref_parse_iff [OF hex_digests_zero_digest_lib] by blast
qed

text \<open>Both ends of a Bridge session compute the same session pair reference, although each
  names itself as local and their routes and expiries may differ.\<close>

theorem session_pair_ref_symmetric:
  assumes "HostSessionBinding_new L b h p ls ps r e = Inr x"
    and "HostSessionBinding_new L b p h ps ls r' e' = Inr y"
  shows "sb_session_pair_ref x = sb_session_pair_ref y"
  using assms by (simp add: HostSessionBinding_new_Inr session_pair_ref_def session_pair_message_sym [of b h])

theorem session_pair_ref_symmetric_witness:
  "\<exists>x y. HostSessionBinding_new plain_lib ''bridge'' ''host-a'' ''host-b'' ''sa'' ''sb'' ''route-1'' 10 = Inr x
     \<and> HostSessionBinding_new plain_lib ''bridge'' ''host-b'' ''host-a'' ''sb'' ''sa'' ''route-2'' 20 = Inr y
     \<and> sb_session_pair_ref x = sb_session_pair_ref y"
proof -
  have ok: "trim ''bridge'' \<noteq> []" "trim ''sa'' \<noteq> []" "trim ''sb'' \<noteq> []" "trim ''route-1'' \<noteq> []"
    "trim ''route-2'' \<noteq> []" by code_simp+
  then obtain x y where xy:
    "HostSessionBinding_new plain_lib ''bridge'' ''host-a'' ''host-b'' ''sa'' ''sb'' ''route-1'' 10 = Inr x"
    "HostSessionBinding_new plain_lib ''bridge'' ''host-b'' ''host-a'' ''sb'' ''sa'' ''route-2'' 20 = Inr y"
    by (simp add: HostSessionBinding_new_Inr)
  from session_pair_ref_symmetric [OF this] xy show ?thesis by blast
qed

text \<open>A binding reference identifies one exact binding: if two bindings have the same reference
  and the hash tells their two messages apart, they agree in every field. (The texts hold no zero
  byte, which separates them in the message, and the expiries are 64-bit.)\<close>

theorem binding_ref_binds:
  assumes "HostSessionBinding_new L b h p ls ps r e = Inr x"
    and "HostSessionBinding_new L b' h' p' ls' ps' r' e' = Inr y"
    and "list_all no_nul [b, h, p, ls, ps, r]" and "list_all no_nul [b', h', p', ls', ps', r']"
    and "in_i64 e" and "in_i64 e'"
    and "collision_free L {session_binding_message b h p ls ps r e,
        session_binding_message b' h' p' ls' ps' r' e'}"
    and "sb_binding_ref x = sb_binding_ref y"
  shows "x = y"
proof -
  from assms(1,2,8) have "blake3_hex L (session_binding_message b h p ls ps r e) =
      blake3_hex L (session_binding_message b' h' p' ls' ps' r' e')"
    by (simp add: HostSessionBinding_new_Inr)
  then have "session_binding_message b h p ls ps r e = session_binding_message b' h' p' ls' ps' r' e'"
    by (rule collision_freeD [OF assms(7), rotated 2]) simp_all
  from session_binding_message_inj [OF this assms(3-6)] assms(1,2) show ?thesis
    by (simp add: HostSessionBinding_new_Inr)
qed

theorem binding_ref_binds_witness:
  "\<exists>x. HostSessionBinding_new plain_lib ''b'' ''ha'' ''hb'' ''sa'' ''sb'' ''r'' 10 = Inr x
     \<and> (\<forall>y. HostSessionBinding_new plain_lib ''b'' ''ha'' ''hb'' ''sa'' ''sb'' ''r'' 11 = Inr y
          \<longrightarrow> sb_binding_ref x \<noteq> sb_binding_ref y)
     \<and> (\<exists>y. HostSessionBinding_new plain_lib ''b'' ''ha'' ''hb'' ''sa'' ''sb'' ''r'' 11 = Inr y)"
proof -
  have ok: "trim ''b'' \<noteq> []" "trim ''sa'' \<noteq> []" "trim ''sb'' \<noteq> []" "trim ''r'' \<noteq> []" by code_simp+
  then obtain x y where x: "HostSessionBinding_new plain_lib ''b'' ''ha'' ''hb'' ''sa'' ''sb'' ''r'' 10 = Inr x"
    and y: "HostSessionBinding_new plain_lib ''b'' ''ha'' ''hb'' ''sa'' ''sb'' ''r'' 11 = Inr y"
    by (simp add: HostSessionBinding_new_Inr)
  have nn: "list_all no_nul [''b'', ''ha'', ''hb'', ''sa'', ''sb'', ''r'']" by (simp add: no_nul_def)
  have e: "in_i64 10" "in_i64 11" by (simp_all add: in_i64_def)
  have "x \<noteq> y" using x y by (auto simp: HostSessionBinding_new_Inr)
  with binding_ref_binds [OF x y nn nn e collision_free_plain_lib]
  have "sb_binding_ref x \<noteq> sb_binding_ref y" by blast
  with x y show ?thesis by auto
qed

text \<open>Captured execution freshness is accepted if and only if it equals the current one in every
  field, is of the same kind, and has not expired; a reconnect, restart, route change or expiry all
  fail closed.\<close>

theorem freshness_exact:
  "freshness_validate_current captured current now = Inr () \<longleftrightarrow>
     captured = current \<and> now < freshness_expires_at captured"
  by (auto simp: execution_freshness.validate_iff)

text \<open>The participants of a Plan are its Hosts, each exactly once and sorted, each with the
  reference derived from the Plan and the Host; a repeated Host or an empty list is refused.\<close>

theorem plan_participants_new:
  assumes "PlanParticipants_new L plan_id hosts = Inr ps"
  shows "hosts \<noteq> [] \<and> distinct hosts \<and> sorted (map pp_host_ref ps) \<and> distinct (map pp_host_ref ps)
     \<and> set (map pp_host_ref ps) = set hosts
     \<and> (\<forall>x \<in> set ps. PlanParticipantRef_for_host L plan_id (pp_host_ref x) = Inr (pp_participant_ref x))"
proof -
  from assms obtain m where m: "participants_by_host L plan_id [] hosts = Inr m" and ne: "m \<noteq> []"
    and ps: "ps = map snd (sort_key fst m)"
    by (auto simp: PlanParticipants_new_def res_simps)
  have wf: "hm_wf m" using participants_by_host_distinct [OF m] by simp
  from participants_by_host_Inr [OF m] have keys: "map fst m = hosts"
    and each: "\<And>h x. (h, x) \<in> set m \<Longrightarrow> pp_host_ref x = h
      \<and> PlanParticipantRef_for_host L plan_id h = Inr (pp_participant_ref x)"
    by auto
  have refs: "map pp_host_ref ps = map fst (sort_key fst m)"
    using each by (auto simp: ps)
  have "distinct (map fst (sort_key fst m))"
    using wf by (simp add: distinct_map inj_on_def)
  moreover have "set (map fst (sort_key fst m)) = set hosts" by (simp flip: keys)
  ultimately show ?thesis
    using ne keys wf each unfolding refs by (auto simp: ps)
qed

theorem plan_participants_new_witness:
  "\<exists>ps. PlanParticipants_new plain_lib ''plan'' [''host-b'', ''host-a''] = Inr ps
     \<and> sorted (map pp_host_ref ps) \<and> set (map pp_host_ref ps) = {''host-a'', ''host-b''}"
proof -
  have "trim ''plan'' \<noteq> []" by code_simp
  then have "\<exists>r r'. participants_by_host plain_lib ''plan'' [] [''host-b'', ''host-a''] =
      Inr [(''host-b'', r), (''host-a'', r')]"
    by (simp add: PlanParticipantRef_for_host_def Let_def hm_contains_def hm_insert_def)
  then obtain r r' where "participants_by_host plain_lib ''plan'' [] [''host-b'', ''host-a''] =
      Inr [(''host-b'', r), (''host-a'', r')]" by blast
  then obtain ps where ps: "PlanParticipants_new plain_lib ''plan'' [''host-b'', ''host-a''] = Inr ps"
    unfolding PlanParticipants_new_def
    by (simp only: and_then_simps ensure_def list.distinct simp_thms if_True)
  from plan_participants_new [OF this] have "sorted (map pp_host_ref ps)"
    "set (map pp_host_ref ps) = {''host-a'', ''host-b''}" by auto
  with ps show ?thesis by blast
qed

end
