(* ===== verification/Effect_Types.thy ===== *)
theory Effect_Types
  imports Host_Identity
begin

text \<open>
  The data of the generic effect authority, \<^verbatim>\<open>src-tauri/src/effect_authority.rs\<close>: contexts, budgets,
  grants, ceilings, envelopes, effect requests, runs, evidence, and the authority state. The opaque
  references (\<^verbatim>\<open>opaque_ref!\<close>) are strings. The small enums whose derived order the code uses
  (ordered sets and maps are keyed by them) are instances of \<open>linorder\<close> with that order.
\<close>

section \<open>References, errors, identifiers\<close>

type_synonym AuthorityContextRefV1 = string
type_synonym EffectEnvelopeRefV1 = string
type_synonym ManagedRunRefV1 = string
type_synonym ResourceHandleRefV1 = string
type_synonym ExecutionWorldRefV1 = string
type_synonym NetworkScopeRefV1 = string
type_synonym EffectRequestIdV1 = string
type_synonym EffectEvidenceIdV1 = string

definition EFFECT_AUTHORITY_VERSION :: string where
  "EFFECT_AUTHORITY_VERSION = ''pastey-effect-authority-v1''"

definition COMPILER_VERSION :: string where
  "COMPILER_VERSION = ''pastey-effect-envelope-compiler-v1''"

definition EFFECT_MAX_ID_LEN :: nat where
  "EFFECT_MAX_ID_LEN = 256"

text \<open>The errors of the module are \<^verbatim>\<open>AppError::InvalidInput(message)\<close>; an error of
  \<^verbatim>\<open>host_identity.rs\<close> passes through.\<close>

datatype effect_error = InvalidInput string | Identity identity_error

abbreviation invalid :: "string \<Rightarrow> effect_error + 'a" where
  "invalid message \<equiv> Inl (InvalidInput message)"

definition map_err :: "('e \<Rightarrow> 'f) \<Rightarrow> 'e + 'a \<Rightarrow> 'f + 'a" where
  "map_err f r = (case r of Inl e \<Rightarrow> Inl (f e) | Inr x \<Rightarrow> Inr x)"

lemma map_err_Inr [res_simps]: "map_err f r = Inr x \<longleftrightarrow> r = Inr x"
  by (cases r) (auto simp: map_err_def)

definition validate_id :: "string \<Rightarrow> string \<Rightarrow> effect_error + unit" where
  "validate_id value label =
     (let value = trim value in
      ensure (\<not> (value = [] \<or> length value > EFFECT_MAX_ID_LEN \<or> has_control value))
        (InvalidInput (''Phase 5 '' @ label @ '' is invalid.'')))"

definition ref_from_stored :: "string \<Rightarrow> effect_error + string" where
  "ref_from_stored value =
     and_then (ensure (\<not> (trim value = [] \<or> length value > EFFECT_MAX_ID_LEN \<or> has_control value))
       (InvalidInput ''Stored effect authority reference is invalid.'')) (\<lambda>_. Inr value)"

definition validate_relative_selector :: "string \<Rightarrow> effect_error + unit" where
  "validate_relative_selector value =
     (if value = ''.'' then Inr ()
      else ensure (\<not> (value = [] \<or> starts_with ''/'' value \<or> starts_with [CHR 0x5C] value
          \<or> contains_char (CHR 0x5C) value \<or> contains_char (CHR '':'') value
          \<or> (\<exists>part \<in> set (split_on (CHR ''/'') value). part = [] \<or> part = ''.'' \<or> part = ''..'')))
        (InvalidInput ''Resource selector must be normalized and handle-relative.''))"

definition validate_selector_prefix :: "string \<Rightarrow> effect_error + unit" where
  "validate_selector_prefix value =
     and_then (ensure (value \<noteq> []) (InvalidInput ''Resource selector prefix is empty.'')) (\<lambda>_. validate_relative_selector value)"

definition selector_within_prefix :: "string \<Rightarrow> string \<Rightarrow> bool" where
  "selector_within_prefix selector pre \<longleftrightarrow>
     pre = ''.'' \<or> selector = pre \<or> starts_with (pre @ ''/'') selector"

section \<open>Context\<close>

datatype ManagedSemanticOperationV1 = SemTransform | SemExecute

record ManagedInputRevisionV1 =
  ir_logical_object_id :: string
  ir_revision :: u64
  ir_host_ref :: HostRef

record AuthorityContextV1 =
  ctx_contract_version :: string
  ctx_bridge_id :: string
  ctx_plan_id :: string
  ctx_revision_id :: string
  ctx_revision_hash :: string
  ctx_approval_id :: string
  ctx_attempt_id :: string
  ctx_step_id :: string
  ctx_semantic_operation :: ManagedSemanticOperationV1
  ctx_participant_ref :: PlanParticipantRef
  ctx_host_ref :: HostRef
  ctx_admission_ref :: string
  ctx_session_binding_ref :: string
  ctx_input_revisions :: "ManagedInputRevisionV1 list"
  ctx_issued_at :: int
  ctx_expires_at :: int

section \<open>Budgets\<close>

record EffectBudgetsV1 =
  bg_requests :: u64
  bg_read_bytes :: u64
  bg_write_bytes :: u64
  bg_process_spawns :: u64
  bg_process_signals :: u64
  bg_cpu_millis :: u64
  bg_memory_byte_millis :: u64
  bg_wall_millis :: u64
  bg_network_resolutions :: u64
  bg_network_connections :: u64
  bg_network_binds :: u64
  bg_network_requests :: u64
  bg_network_bytes :: u64
  bg_network_time_millis :: u64

definition budgets_default :: EffectBudgetsV1 where
  "budgets_default = \<lparr>bg_requests = 0, bg_read_bytes = 0, bg_write_bytes = 0, bg_process_spawns = 0,
     bg_process_signals = 0, bg_cpu_millis = 0, bg_memory_byte_millis = 0, bg_wall_millis = 0,
     bg_network_resolutions = 0, bg_network_connections = 0, bg_network_binds = 0,
     bg_network_requests = 0, bg_network_bytes = 0, bg_network_time_millis = 0\<rparr>"

definition component_min :: "EffectBudgetsV1 \<Rightarrow> EffectBudgetsV1 \<Rightarrow> EffectBudgetsV1" where
  "component_min self other =
     \<lparr>bg_requests = min (bg_requests self) (bg_requests other),
      bg_read_bytes = min (bg_read_bytes self) (bg_read_bytes other),
      bg_write_bytes = min (bg_write_bytes self) (bg_write_bytes other),
      bg_process_spawns = min (bg_process_spawns self) (bg_process_spawns other),
      bg_process_signals = min (bg_process_signals self) (bg_process_signals other),
      bg_cpu_millis = min (bg_cpu_millis self) (bg_cpu_millis other),
      bg_memory_byte_millis = min (bg_memory_byte_millis self) (bg_memory_byte_millis other),
      bg_wall_millis = min (bg_wall_millis self) (bg_wall_millis other),
      bg_network_resolutions = min (bg_network_resolutions self) (bg_network_resolutions other),
      bg_network_connections = min (bg_network_connections self) (bg_network_connections other),
      bg_network_binds = min (bg_network_binds self) (bg_network_binds other),
      bg_network_requests = min (bg_network_requests self) (bg_network_requests other),
      bg_network_bytes = min (bg_network_bytes self) (bg_network_bytes other),
      bg_network_time_millis = min (bg_network_time_millis self) (bg_network_time_millis other)\<rparr>"

definition budgets_checked_add :: "EffectBudgetsV1 \<Rightarrow> EffectBudgetsV1 \<Rightarrow> EffectBudgetsV1 option" where
  "budgets_checked_add self other =
     Option.bind (checked_add (bg_requests self) (bg_requests other)) (\<lambda>requests.
     Option.bind (checked_add (bg_read_bytes self) (bg_read_bytes other)) (\<lambda>read_bytes.
     Option.bind (checked_add (bg_write_bytes self) (bg_write_bytes other)) (\<lambda>write_bytes.
     Option.bind (checked_add (bg_process_spawns self) (bg_process_spawns other)) (\<lambda>process_spawns.
     Option.bind (checked_add (bg_process_signals self) (bg_process_signals other)) (\<lambda>process_signals.
     Option.bind (checked_add (bg_cpu_millis self) (bg_cpu_millis other)) (\<lambda>cpu_millis.
     Option.bind (checked_add (bg_memory_byte_millis self) (bg_memory_byte_millis other))
       (\<lambda>memory_byte_millis.
     Option.bind (checked_add (bg_wall_millis self) (bg_wall_millis other)) (\<lambda>wall_millis.
     Option.bind (checked_add (bg_network_resolutions self) (bg_network_resolutions other))
       (\<lambda>network_resolutions.
     Option.bind (checked_add (bg_network_connections self) (bg_network_connections other))
       (\<lambda>network_connections.
     Option.bind (checked_add (bg_network_binds self) (bg_network_binds other)) (\<lambda>network_binds.
     Option.bind (checked_add (bg_network_requests self) (bg_network_requests other))
       (\<lambda>network_requests.
     Option.bind (checked_add (bg_network_bytes self) (bg_network_bytes other)) (\<lambda>network_bytes.
     Option.bind (checked_add (bg_network_time_millis self) (bg_network_time_millis other))
       (\<lambda>network_time_millis.
     Some \<lparr>bg_requests = requests, bg_read_bytes = read_bytes, bg_write_bytes = write_bytes,
       bg_process_spawns = process_spawns, bg_process_signals = process_signals,
       bg_cpu_millis = cpu_millis, bg_memory_byte_millis = memory_byte_millis,
       bg_wall_millis = wall_millis, bg_network_resolutions = network_resolutions,
       bg_network_connections = network_connections, bg_network_binds = network_binds,
       bg_network_requests = network_requests, bg_network_bytes = network_bytes,
       bg_network_time_millis = network_time_millis\<rparr>))))))))))))))"

definition budgets_is_subset_of :: "EffectBudgetsV1 \<Rightarrow> EffectBudgetsV1 \<Rightarrow> bool" where
  "budgets_is_subset_of self limit \<longleftrightarrow>
     bg_requests self \<le> bg_requests limit
     \<and> bg_read_bytes self \<le> bg_read_bytes limit
     \<and> bg_write_bytes self \<le> bg_write_bytes limit
     \<and> bg_process_spawns self \<le> bg_process_spawns limit
     \<and> bg_process_signals self \<le> bg_process_signals limit
     \<and> bg_cpu_millis self \<le> bg_cpu_millis limit
     \<and> bg_memory_byte_millis self \<le> bg_memory_byte_millis limit
     \<and> bg_wall_millis self \<le> bg_wall_millis limit
     \<and> bg_network_resolutions self \<le> bg_network_resolutions limit
     \<and> bg_network_connections self \<le> bg_network_connections limit
     \<and> bg_network_binds self \<le> bg_network_binds limit
     \<and> bg_network_requests self \<le> bg_network_requests limit
     \<and> bg_network_bytes self \<le> bg_network_bytes limit
     \<and> bg_network_time_millis self \<le> bg_network_time_millis limit"

interpretation budgets: narrowing budgets_is_subset_of component_min
  by unfold_locales (auto simp: budgets_is_subset_of_def component_min_def)

lemma budgets_checked_add_Some:
  "budgets_checked_add a b = Some c \<longleftrightarrow>
     checked_add (bg_requests a) (bg_requests b) = Some (bg_requests c)
     \<and> checked_add (bg_read_bytes a) (bg_read_bytes b) = Some (bg_read_bytes c)
     \<and> checked_add (bg_write_bytes a) (bg_write_bytes b) = Some (bg_write_bytes c)
     \<and> checked_add (bg_process_spawns a) (bg_process_spawns b) = Some (bg_process_spawns c)
     \<and> checked_add (bg_process_signals a) (bg_process_signals b) = Some (bg_process_signals c)
     \<and> checked_add (bg_cpu_millis a) (bg_cpu_millis b) = Some (bg_cpu_millis c)
     \<and> checked_add (bg_memory_byte_millis a) (bg_memory_byte_millis b) = Some (bg_memory_byte_millis c)
     \<and> checked_add (bg_wall_millis a) (bg_wall_millis b) = Some (bg_wall_millis c)
     \<and> checked_add (bg_network_resolutions a) (bg_network_resolutions b) = Some (bg_network_resolutions c)
     \<and> checked_add (bg_network_connections a) (bg_network_connections b) = Some (bg_network_connections c)
     \<and> checked_add (bg_network_binds a) (bg_network_binds b) = Some (bg_network_binds c)
     \<and> checked_add (bg_network_requests a) (bg_network_requests b) = Some (bg_network_requests c)
     \<and> checked_add (bg_network_bytes a) (bg_network_bytes b) = Some (bg_network_bytes c)
     \<and> checked_add (bg_network_time_millis a) (bg_network_time_millis b) = Some (bg_network_time_millis c)"
  by (cases c) (auto simp: budgets_checked_add_def bind_eq_Some_conv)

lemma budgets_checked_add_ge:
  "budgets_checked_add a b = Some c \<Longrightarrow> budgets_is_subset_of a c \<and> budgets_is_subset_of b c"
  unfolding budgets_checked_add_Some budgets_is_subset_of_def
  by (blast dest: checked_add_ge)

section \<open>Grants\<close>

datatype ResourceKindV1 =
  ManagedRevision | Workspace | OutputSlot | Scratch | Data | Secret | Executable

datatype ResourceVerbV1 = Inspect | Read | Create | Replace | Delete | SetMetadata

datatype ProcessVerbV1 = VSpawn | VSignal

datatype NetworkVerbV1 = Resolve | Connect | Bind

datatype ConfinementPropertyV1 =
  AuthorizedResourceProjection | AuthorityNeutralEnvironment | ExplicitProcessIo
| PlatformSandboxedProcess | CancellableProcessSession | NoRawNetwork

datatype EffectCapabilityV1 =
  CapResource ResourceVerbV1 | CapProcess ProcessVerbV1 | CapNetwork NetworkVerbV1

text \<open>The derived \<^verbatim>\<open>Ord\<close> of these enums: the order of declaration.\<close>

primrec resource_verb_rank :: "ResourceVerbV1 \<Rightarrow> nat" where
  "resource_verb_rank Inspect = 0" | "resource_verb_rank Read = 1" | "resource_verb_rank Create = 2"
| "resource_verb_rank Replace = 3" | "resource_verb_rank Delete = 4" | "resource_verb_rank SetMetadata = 5"

primrec process_verb_rank :: "ProcessVerbV1 \<Rightarrow> nat" where
  "process_verb_rank VSpawn = 0" | "process_verb_rank VSignal = 1"

primrec network_verb_rank :: "NetworkVerbV1 \<Rightarrow> nat" where
  "network_verb_rank Resolve = 0" | "network_verb_rank Connect = 1" | "network_verb_rank Bind = 2"

primrec confinement_rank :: "ConfinementPropertyV1 \<Rightarrow> nat" where
  "confinement_rank AuthorizedResourceProjection = 0" | "confinement_rank AuthorityNeutralEnvironment = 1"
| "confinement_rank ExplicitProcessIo = 2" | "confinement_rank PlatformSandboxedProcess = 3"
| "confinement_rank CancellableProcessSession = 4" | "confinement_rank NoRawNetwork = 5"

primrec capability_rank :: "EffectCapabilityV1 \<Rightarrow> nat" where
  "capability_rank (CapResource v) = resource_verb_rank v"
| "capability_rank (CapProcess v) = 6 + process_verb_rank v"
| "capability_rank (CapNetwork v) = 8 + network_verb_rank v"

lemma resource_verb_rank_inj [simp]: "resource_verb_rank a = resource_verb_rank b \<longleftrightarrow> a = b"
  by (cases a; cases b) auto

lemma process_verb_rank_inj [simp]: "process_verb_rank a = process_verb_rank b \<longleftrightarrow> a = b"
  by (cases a; cases b) auto

lemma network_verb_rank_inj [simp]: "network_verb_rank a = network_verb_rank b \<longleftrightarrow> a = b"
  by (cases a; cases b) auto

lemma confinement_rank_inj [simp]: "confinement_rank a = confinement_rank b \<longleftrightarrow> a = b"
  by (cases a; cases b) auto

lemma resource_verb_rank_less [simp]: "resource_verb_rank a < 6"
  by (cases a) simp_all

lemma process_verb_rank_less [simp]: "process_verb_rank a < 2"
  by (cases a) simp_all

lemma capability_rank_inj [simp]: "capability_rank a = capability_rank b \<longleftrightarrow> a = b"
proof -
  have "resource_verb_rank v \<noteq> 6 + n" "resource_verb_rank v \<noteq> 8 + n" for v n
    using resource_verb_rank_less [of v] by linarith+
  moreover have "process_verb_rank v \<noteq> 2 + n" for v n
    using process_verb_rank_less [of v] by linarith
  ultimately show ?thesis
    by (cases a; cases b) (auto simp: eq_commute [of "_ + _" "resource_verb_rank _"] dest: sym)
qed

instantiation ResourceVerbV1 :: linorder
begin
definition less_eq_ResourceVerbV1 :: "ResourceVerbV1 \<Rightarrow> ResourceVerbV1 \<Rightarrow> bool" where
  "less_eq_ResourceVerbV1 a b \<longleftrightarrow> resource_verb_rank a \<le> resource_verb_rank b"
definition less_ResourceVerbV1 :: "ResourceVerbV1 \<Rightarrow> ResourceVerbV1 \<Rightarrow> bool" where
  "less_ResourceVerbV1 a b \<longleftrightarrow> resource_verb_rank a < resource_verb_rank b"
instance
  by standard
    (auto simp: less_eq_ResourceVerbV1_def less_ResourceVerbV1_def
      simp flip: resource_verb_rank_inj)
end

instantiation NetworkVerbV1 :: linorder
begin
definition less_eq_NetworkVerbV1 :: "NetworkVerbV1 \<Rightarrow> NetworkVerbV1 \<Rightarrow> bool" where
  "less_eq_NetworkVerbV1 a b \<longleftrightarrow> network_verb_rank a \<le> network_verb_rank b"
definition less_NetworkVerbV1 :: "NetworkVerbV1 \<Rightarrow> NetworkVerbV1 \<Rightarrow> bool" where
  "less_NetworkVerbV1 a b \<longleftrightarrow> network_verb_rank a < network_verb_rank b"
instance
  by standard
    (auto simp: less_eq_NetworkVerbV1_def less_NetworkVerbV1_def simp flip: network_verb_rank_inj)
end

instantiation ConfinementPropertyV1 :: linorder
begin
definition less_eq_ConfinementPropertyV1 :: "ConfinementPropertyV1 \<Rightarrow> ConfinementPropertyV1 \<Rightarrow> bool" where
  "less_eq_ConfinementPropertyV1 a b \<longleftrightarrow> confinement_rank a \<le> confinement_rank b"
definition less_ConfinementPropertyV1 :: "ConfinementPropertyV1 \<Rightarrow> ConfinementPropertyV1 \<Rightarrow> bool" where
  "less_ConfinementPropertyV1 a b \<longleftrightarrow> confinement_rank a < confinement_rank b"
instance
  by standard
    (auto simp: less_eq_ConfinementPropertyV1_def less_ConfinementPropertyV1_def
      simp flip: confinement_rank_inj)
end

instantiation EffectCapabilityV1 :: linorder
begin
definition less_eq_EffectCapabilityV1 :: "EffectCapabilityV1 \<Rightarrow> EffectCapabilityV1 \<Rightarrow> bool" where
  "less_eq_EffectCapabilityV1 a b \<longleftrightarrow> capability_rank a \<le> capability_rank b"
definition less_EffectCapabilityV1 :: "EffectCapabilityV1 \<Rightarrow> EffectCapabilityV1 \<Rightarrow> bool" where
  "less_EffectCapabilityV1 a b \<longleftrightarrow> capability_rank a < capability_rank b"
instance
  by standard
    (auto simp: less_eq_EffectCapabilityV1_def less_EffectCapabilityV1_def
      simp flip: capability_rank_inj)
end

record ResourceGrantV1 =
  rg_handle_ref :: ResourceHandleRefV1
  rg_context_ref :: AuthorityContextRefV1
  rg_run_control_ref :: ManagedRunRefV1
  rg_host_ref :: HostRef
  rg_kind :: ResourceKindV1
  rg_safe_identity_ref :: string
  rg_selector_prefix :: string
  rg_allowed_verbs :: "ResourceVerbV1 fset"
  rg_budgets :: EffectBudgetsV1
  rg_expires_at :: int

record ExecutionWorldGrantV1 =
  wg_world_ref :: ExecutionWorldRefV1
  wg_context_ref :: AuthorityContextRefV1
  wg_run_control_ref :: ManagedRunRefV1
  wg_world_identity_digest :: string
  wg_mounted_resources :: "ResourceHandleRefV1 fset"
  wg_executable_resources :: "ResourceHandleRefV1 fset"
  wg_required_properties :: "ConfinementPropertyV1 fset"
  wg_budgets :: EffectBudgetsV1
  wg_expires_at :: int

record NetworkGrantV1 =
  ng_context_ref :: AuthorityContextRefV1
  ng_run_control_ref :: ManagedRunRefV1
  ng_host_ref :: HostRef
  ng_scope_refs :: "NetworkScopeRefV1 fset"
  ng_allowed_verbs :: "NetworkVerbV1 fset"
  ng_destination_refs :: "string fset"
  ng_budgets :: EffectBudgetsV1
  ng_expires_at :: int

datatype NetworkAuthorityV1 = NetDenied | NetScoped NetworkGrantV1

record EffectBoundV1 =
  eb_capability :: EffectCapabilityV1
  eb_max_per_request :: EffectBudgetsV1

datatype ResultContractV1 =
  ResTransform ManagedInputRevisionV1 u64 ResourceHandleRefV1
| ResExecute "ManagedInputRevisionV1 list" string

record AuthorityCeilingV1 =
  ac_context_ref :: AuthorityContextRefV1
  ac_source_snapshot_ref :: string
  ac_resources :: "ResourceGrantV1 list"
  ac_world :: ExecutionWorldGrantV1
  ac_effect_bounds :: "EffectBoundV1 list"
  ac_budgets :: EffectBudgetsV1
  ac_network :: NetworkAuthorityV1
  ac_expires_at :: int

record EffectEnvelopeV1 =
  ev_contract_version :: string
  ev_envelope_ref :: EffectEnvelopeRefV1
  ev_compiler_version :: string
  ev_host_policy_snapshot_ref :: string
  ev_context :: AuthorityContextV1
  ev_context_ref :: AuthorityContextRefV1
  ev_run_control_ref :: ManagedRunRefV1
  ev_resources :: "ResourceGrantV1 list"
  ev_world :: ExecutionWorldGrantV1
  ev_effect_bounds :: "EffectBoundV1 list"
  ev_budgets :: EffectBudgetsV1
  ev_network :: NetworkAuthorityV1
  ev_result_contract :: ResultContractV1
  ev_expires_at :: int

record EffectEnvelopeCompileRequestV1 =
  cq_context :: AuthorityContextV1
  cq_run_control_ref :: ManagedRunRefV1
  cq_semantic_ceiling :: AuthorityCeilingV1
  cq_admission_ceiling :: AuthorityCeilingV1
  cq_host_policy_ceiling :: AuthorityCeilingV1
  cq_confinement_ceiling :: AuthorityCeilingV1
  cq_host_policy_snapshot_ref :: string
  cq_result_contract :: ResultContractV1

record ResourceGrantSpecV1 =
  gs_host_ref :: HostRef
  gs_kind :: ResourceKindV1
  gs_safe_identity_ref :: string
  gs_selector_prefix :: string
  gs_allowed_verbs :: "ResourceVerbV1 fset"
  gs_budgets :: EffectBudgetsV1
  gs_expires_at :: int

section \<open>Effect requests\<close>

record ResourceEffectV1 =
  re_verb :: ResourceVerbV1
  re_handle_ref :: ResourceHandleRefV1
  re_relative_selector :: string
  re_value_digest :: "string option"

text \<open>\<open>Spawn world executable argv_digest working_directory working_directory_selector
  environment_digest stdin_digest\<close> and \<open>Signal world process signal\<close>.\<close>

datatype ProcessEffectV1 =
  Spawn ExecutionWorldRefV1 ResourceHandleRefV1 string "ResourceHandleRefV1 option" "string option"
    string "string option"
| Signal ExecutionWorldRefV1 string string

definition process_verb :: "ProcessEffectV1 \<Rightarrow> ProcessVerbV1" where
  "process_verb e = (case e of Spawn _ _ _ _ _ _ _ \<Rightarrow> VSpawn | Signal _ _ _ \<Rightarrow> VSignal)"

definition process_world_ref :: "ProcessEffectV1 \<Rightarrow> ExecutionWorldRefV1" where
  "process_world_ref e = (case e of Spawn w _ _ _ _ _ _ \<Rightarrow> w | Signal w _ _ \<Rightarrow> w)"

record NetworkEffectV1 =
  ne_verb :: NetworkVerbV1
  ne_scope_ref :: NetworkScopeRefV1
  ne_destination_ref :: string
  ne_transport_ref :: string
  ne_resolution_generation_ref :: "string option"
  ne_request_digest :: "string option"

datatype EffectRequestKindV1 =
  EffResource ResourceEffectV1 | EffProcess ProcessEffectV1 | EffNetwork NetworkEffectV1

definition effect_capability :: "EffectRequestKindV1 \<Rightarrow> EffectCapabilityV1" where
  "effect_capability e = (case e of
     EffResource r \<Rightarrow> CapResource (re_verb r)
   | EffProcess p \<Rightarrow> CapProcess (process_verb p)
   | EffNetwork n \<Rightarrow> CapNetwork (ne_verb n))"

datatype EffectPreconditionV1 =
  PreResourceGeneration ResourceHandleRefV1 u64 string
| PreProcessState string string
| PreDestinationGeneration NetworkScopeRefV1 string

record EffectRequestV1 =
  rq_contract_version :: string
  rq_request_id :: EffectRequestIdV1
  rq_envelope_ref :: EffectEnvelopeRefV1
  rq_run_control_ref :: ManagedRunRefV1
  rq_context :: AuthorityContextV1
  rq_sequence :: u64
  rq_adapter_version_ref :: string
  rq_effect :: EffectRequestKindV1
  rq_requested_budget_slice :: EffectBudgetsV1
  rq_preconditions :: "EffectPreconditionV1 list"

record StepWorkDescriptorV1 =
  sd_contract_version :: string
  sd_context :: AuthorityContextV1
  sd_envelope_ref :: EffectEnvelopeRefV1
  sd_run_control_ref :: ManagedRunRefV1
  sd_first_sequence :: u64

record ToolEffectIntentV1 =
  ti_effect :: EffectRequestKindV1
  ti_requested_budget_slice :: EffectBudgetsV1
  ti_preconditions :: "EffectPreconditionV1 list"

record ToolRequestV1 =
  tr_tool_name :: string
  tr_adapter_version_ref :: string
  tr_intents :: "ToolEffectIntentV1 list"

section \<open>Runs, evidence and the authority state\<close>

datatype ManagedRunStateV1 = Created | Active | Cancelling | Finished | Revoked | Interrupted

definition run_terminal :: "ManagedRunStateV1 \<Rightarrow> bool" where
  "run_terminal s \<longleftrightarrow> s = Finished \<or> s = Revoked \<or> s = Interrupted"

record ManagedRunControlV1 =
  mr_contract_version :: string
  mr_run_control_ref :: ManagedRunRefV1
  mr_context_ref :: AuthorityContextRefV1
  mr_envelope_ref :: EffectEnvelopeRefV1
  mr_state :: ManagedRunStateV1
  mr_next_request_sequence :: u64
  mr_cumulative_budget_debits :: EffectBudgetsV1
  mr_expires_at :: int

record ManagedRunDraftV1 =
  dr_context :: AuthorityContextV1
  dr_context_ref :: AuthorityContextRefV1
  dr_run_control_ref :: ManagedRunRefV1

record ResourceAuthorityRecordV1 =
  rr_grant :: ResourceGrantV1
  rr_envelope_ref :: EffectEnvelopeRefV1
  rr_revoked :: bool

record EffectIntentV1 =
  in_request_id :: EffectRequestIdV1
  in_envelope_ref :: EffectEnvelopeRefV1
  in_run_control_ref :: ManagedRunRefV1
  in_sequence :: u64
  in_request_digest :: string
  in_claimed_at :: int
  in_terminal_evidence_id :: "EffectEvidenceIdV1 option"
  in_indeterminate :: bool

datatype EffectDecisionV1 = Allowed | Denied | Unavailable

text \<open>The fields of each variant in the order of the source.\<close>

datatype EffectFactsV1 =
  FactResource ResourceHandleRefV1 u64 string u64
| FactProcess ExecutionWorldRefV1 string string
| FactContainedProcess ExecutionWorldRefV1 string string string string string string "int option"
    string u64 string u64 bool bool string
| FactNetwork NetworkScopeRefV1 string string
| FactBrokeredNetwork NetworkScopeRefV1 string string string string string "string list"
    "string option" "string option" u64 u64 u64 bool "string option" u64 bool
| FactNone

record EffectEvidenceV1 =
  ee_contract_version :: string
  ee_evidence_id :: EffectEvidenceIdV1
  ee_evidence_digest :: string
  ee_prior_evidence_digest :: "string option"
  ee_request_id :: EffectRequestIdV1
  ee_envelope_ref :: EffectEnvelopeRefV1
  ee_run_control_ref :: ManagedRunRefV1
  ee_context_ref :: AuthorityContextRefV1
  ee_sequence :: u64
  ee_decision :: EffectDecisionV1
  ee_observed_preconditions :: "EffectPreconditionV1 list"
  ee_actual_effect_summary :: string
  ee_budget_debit :: EffectBudgetsV1
  ee_facts :: EffectFactsV1
  ee_host_authenticator :: string

record CompletionEvidenceV1 =
  ce_envelope :: EffectEnvelopeV1
  ce_run :: ManagedRunControlV1
  ce_evidence :: "EffectEvidenceV1 list"
  ce_evidence_head :: string

record BackendEffectOutcomeV1 =
  bo_decision :: EffectDecisionV1
  bo_actual_effect_summary :: string
  bo_facts :: EffectFactsV1

datatype BackendApplyV1 = Completed BackendEffectOutcomeV1 | LostAfterIntent

text \<open>A backend is a state with its \<^verbatim>\<open>apply\<close>; \<open>UnavailableProductionEffectBackendV1\<close> has no state.\<close>

type_synonym 'b HostEffectBackendV1 = "EffectRequestV1 \<Rightarrow> 'b \<Rightarrow> BackendApplyV1 \<times> 'b"

definition UnavailableProductionEffectBackendV1_apply :: "unit HostEffectBackendV1" where
  "UnavailableProductionEffectBackendV1_apply request b =
     (Completed \<lparr>bo_decision = Unavailable,
        bo_actual_effect_summary = ''production_effect_backend_unavailable'', bo_facts = FactNone\<rparr>, b)"

record CurrentHostAuthorityV1 =
  ch_execution_freshness :: HostExecutionFreshness
  ch_bridge_active :: bool
  ch_burned :: bool
  ch_disconnected :: bool
  ch_restarted :: bool
  ch_now :: int

record EffectAuthorityStateV1 =
  st_envelopes :: "(EffectEnvelopeRefV1, EffectEnvelopeV1) hmap"
  st_runs :: "(ManagedRunRefV1, ManagedRunControlV1) hmap"
  st_resources :: "(ResourceHandleRefV1, ResourceAuthorityRecordV1) hmap"
  st_intents :: "(EffectRequestIdV1, EffectIntentV1) hmap"
  st_evidence :: "(ManagedRunRefV1, EffectEvidenceV1 list) hmap"
  st_next_run_nonce :: u64
  st_next_handle_nonce :: u64
  st_evidence_key :: "byte list"

end
