(* ===== verification/Effect_Json.thy ===== *)
theory Effect_Json
  imports Effect_Types
begin

text \<open>
  What the derived \<^verbatim>\<open>Serialize\<close> implementations of \<^verbatim>\<open>effect_authority.rs\<close> write: struct fields in
  declaration order under their \<^verbatim>\<open>camelCase\<close> names, enum variants under their \<^verbatim>\<open>snake_case\<close> names with
  the \<^verbatim>\<open>tag\<close> and \<^verbatim>\<open>content\<close> keys of the attributes, \<^verbatim>\<open>None\<close> as \<^verbatim>\<open>null\<close>, ordered sets as arrays in
  their order, tuples as arrays. On top of it the content-addressed identities of the module:
  \<open>domain_hash\<close> and the hash materials of envelopes, requests and evidence. Writing these values to a
  vector cannot fail, so \<^verbatim>\<open>domain_hash\<close> is total here.

  Each serializer is shown injective; under \<open>json_faithful\<close> and \<open>collision_free\<close> equal identities then
  mean equal contents.
\<close>

section \<open>Serializers\<close>

definition semantic_operation_json :: "ManagedSemanticOperationV1 \<Rightarrow> json" where
  "semantic_operation_json x = (case x of SemTransform \<Rightarrow> JStr ''transform'' | SemExecute \<Rightarrow> JStr ''execute'')"

definition input_revision_json :: "ManagedInputRevisionV1 \<Rightarrow> json" where
  "input_revision_json x = JObj [(''logicalObjectId'', JStr (ir_logical_object_id x)),
     (''revision'', ju64 (ir_revision x)), (''hostRef'', JStr (ir_host_ref x))]"

definition context_json :: "AuthorityContextV1 \<Rightarrow> json" where
  "context_json x = JObj [
     (''contractVersion'', JStr (ctx_contract_version x)), (''bridgeId'', JStr (ctx_bridge_id x)),
     (''planId'', JStr (ctx_plan_id x)), (''revisionId'', JStr (ctx_revision_id x)),
     (''revisionHash'', JStr (ctx_revision_hash x)), (''approvalId'', JStr (ctx_approval_id x)),
     (''attemptId'', JStr (ctx_attempt_id x)), (''stepId'', JStr (ctx_step_id x)),
     (''semanticOperation'', semantic_operation_json (ctx_semantic_operation x)),
     (''participantRef'', JStr (ctx_participant_ref x)), (''hostRef'', JStr (ctx_host_ref x)),
     (''admissionRef'', JStr (ctx_admission_ref x)),
     (''sessionBindingRef'', JStr (ctx_session_binding_ref x)),
     (''inputRevisions'', jlist input_revision_json (ctx_input_revisions x)),
     (''issuedAt'', JInt (ctx_issued_at x)), (''expiresAt'', JInt (ctx_expires_at x))]"

definition budgets_json :: "EffectBudgetsV1 \<Rightarrow> json" where
  "budgets_json x = JObj [
     (''requests'', ju64 (bg_requests x)), (''readBytes'', ju64 (bg_read_bytes x)),
     (''writeBytes'', ju64 (bg_write_bytes x)), (''processSpawns'', ju64 (bg_process_spawns x)),
     (''processSignals'', ju64 (bg_process_signals x)), (''cpuMillis'', ju64 (bg_cpu_millis x)),
     (''memoryByteMillis'', ju64 (bg_memory_byte_millis x)), (''wallMillis'', ju64 (bg_wall_millis x)),
     (''networkResolutions'', ju64 (bg_network_resolutions x)),
     (''networkConnections'', ju64 (bg_network_connections x)),
     (''networkBinds'', ju64 (bg_network_binds x)),
     (''networkRequests'', ju64 (bg_network_requests x)),
     (''networkBytes'', ju64 (bg_network_bytes x)),
     (''networkTimeMillis'', ju64 (bg_network_time_millis x))]"

definition resource_kind_json :: "ResourceKindV1 \<Rightarrow> json" where
  "resource_kind_json x = (case x of
     ManagedRevision \<Rightarrow> JStr ''managed_revision'' | Workspace \<Rightarrow> JStr ''workspace''
   | OutputSlot \<Rightarrow> JStr ''output_slot'' | Scratch \<Rightarrow> JStr ''scratch'' | Data \<Rightarrow> JStr ''data''
   | Secret \<Rightarrow> JStr ''secret'' | Executable \<Rightarrow> JStr ''executable'')"

definition resource_verb_json :: "ResourceVerbV1 \<Rightarrow> json" where
  "resource_verb_json x = (case x of
     Inspect \<Rightarrow> JStr ''inspect'' | Read \<Rightarrow> JStr ''read'' | Create \<Rightarrow> JStr ''create''
   | Replace \<Rightarrow> JStr ''replace'' | Delete \<Rightarrow> JStr ''delete'' | SetMetadata \<Rightarrow> JStr ''set_metadata'')"

definition process_verb_json :: "ProcessVerbV1 \<Rightarrow> json" where
  "process_verb_json x = (case x of VSpawn \<Rightarrow> JStr ''spawn'' | VSignal \<Rightarrow> JStr ''signal'')"

definition network_verb_json :: "NetworkVerbV1 \<Rightarrow> json" where
  "network_verb_json x = (case x of
     Resolve \<Rightarrow> JStr ''resolve'' | Connect \<Rightarrow> JStr ''connect'' | Bind \<Rightarrow> JStr ''bind'')"

definition confinement_json :: "ConfinementPropertyV1 \<Rightarrow> json" where
  "confinement_json x = (case x of
     AuthorizedResourceProjection \<Rightarrow> JStr ''authorized_resource_projection''
   | AuthorityNeutralEnvironment \<Rightarrow> JStr ''authority_neutral_environment''
   | ExplicitProcessIo \<Rightarrow> JStr ''explicit_process_io''
   | PlatformSandboxedProcess \<Rightarrow> JStr ''platform_sandboxed_process''
   | CancellableProcessSession \<Rightarrow> JStr ''cancellable_process_session''
   | NoRawNetwork \<Rightarrow> JStr ''no_raw_network'')"

definition resource_grant_json :: "ResourceGrantV1 \<Rightarrow> json" where
  "resource_grant_json x = JObj [
     (''handleRef'', JStr (rg_handle_ref x)), (''contextRef'', JStr (rg_context_ref x)),
     (''runControlRef'', JStr (rg_run_control_ref x)), (''hostRef'', JStr (rg_host_ref x)),
     (''kind'', resource_kind_json (rg_kind x)),
     (''safeIdentityRef'', JStr (rg_safe_identity_ref x)),
     (''selectorPrefix'', JStr (rg_selector_prefix x)),
     (''allowedVerbs'', jset resource_verb_json (rg_allowed_verbs x)),
     (''budgets'', budgets_json (rg_budgets x)), (''expiresAt'', JInt (rg_expires_at x))]"

definition world_grant_json :: "ExecutionWorldGrantV1 \<Rightarrow> json" where
  "world_grant_json x = JObj [
     (''worldRef'', JStr (wg_world_ref x)), (''contextRef'', JStr (wg_context_ref x)),
     (''runControlRef'', JStr (wg_run_control_ref x)),
     (''worldIdentityDigest'', JStr (wg_world_identity_digest x)),
     (''mountedResources'', jset JStr (wg_mounted_resources x)),
     (''executableResources'', jset JStr (wg_executable_resources x)),
     (''requiredProperties'', jset confinement_json (wg_required_properties x)),
     (''budgets'', budgets_json (wg_budgets x)), (''expiresAt'', JInt (wg_expires_at x))]"

definition network_grant_json :: "NetworkGrantV1 \<Rightarrow> json" where
  "network_grant_json x = JObj [
     (''contextRef'', JStr (ng_context_ref x)), (''runControlRef'', JStr (ng_run_control_ref x)),
     (''hostRef'', JStr (ng_host_ref x)), (''scopeRefs'', jset JStr (ng_scope_refs x)),
     (''allowedVerbs'', jset network_verb_json (ng_allowed_verbs x)),
     (''destinationRefs'', jset JStr (ng_destination_refs x)),
     (''budgets'', budgets_json (ng_budgets x)), (''expiresAt'', JInt (ng_expires_at x))]"

definition network_authority_json :: "NetworkAuthorityV1 \<Rightarrow> json" where
  "network_authority_json x = (case x of
     NetDenied \<Rightarrow> JObj [(''authority'', JStr ''denied'')]
   | NetScoped g \<Rightarrow> JObj [(''authority'', JStr ''scoped''), (''grant'', network_grant_json g)])"

definition capability_json :: "EffectCapabilityV1 \<Rightarrow> json" where
  "capability_json x = (case x of
     CapResource v \<Rightarrow> JObj [(''family'', JStr ''resource''), (''verb'', resource_verb_json v)]
   | CapProcess v \<Rightarrow> JObj [(''family'', JStr ''process''), (''verb'', process_verb_json v)]
   | CapNetwork v \<Rightarrow> JObj [(''family'', JStr ''network''), (''verb'', network_verb_json v)])"

definition effect_bound_json :: "EffectBoundV1 \<Rightarrow> json" where
  "effect_bound_json x = JObj [(''capability'', capability_json (eb_capability x)),
     (''maxPerRequest'', budgets_json (eb_max_per_request x))]"

definition result_contract_json :: "ResultContractV1 \<Rightarrow> json" where
  "result_contract_json x = (case x of
     ResTransform i r s \<Rightarrow> JObj [(''resultKind'', JStr ''transform''), (''input'', input_revision_json i),
       (''outputRevision'', ju64 r), (''outputSlot'', JStr s)]
   | ResExecute is s \<Rightarrow> JObj [(''resultKind'', JStr ''execute''),
       (''inputs'', jlist input_revision_json is), (''resultSchemaRef'', JStr s)])"

definition resource_effect_json :: "ResourceEffectV1 \<Rightarrow> json" where
  "resource_effect_json x = JObj [(''verb'', resource_verb_json (re_verb x)),
     (''handleRef'', JStr (re_handle_ref x)), (''relativeSelector'', JStr (re_relative_selector x)),
     (''valueDigest'', jopt JStr (re_value_digest x))]"

definition process_effect_json :: "ProcessEffectV1 \<Rightarrow> json" where
  "process_effect_json x = (case x of
     Spawn w e a d s v i \<Rightarrow> JObj [(''verb'', JStr ''spawn''), (''worldRef'', JStr w),
       (''executableHandle'', JStr e), (''argvDigest'', JStr a),
       (''workingDirectoryHandle'', jopt JStr d), (''workingDirectorySelector'', jopt JStr s),
       (''environmentDigest'', JStr v), (''stdinDigest'', jopt JStr i)]
   | Signal w p s \<Rightarrow> JObj [(''verb'', JStr ''signal''), (''worldRef'', JStr w),
       (''processRef'', JStr p), (''signalRef'', JStr s)])"

definition network_effect_json :: "NetworkEffectV1 \<Rightarrow> json" where
  "network_effect_json x = JObj [(''verb'', network_verb_json (ne_verb x)),
     (''scopeRef'', JStr (ne_scope_ref x)), (''destinationRef'', JStr (ne_destination_ref x)),
     (''transportRef'', JStr (ne_transport_ref x)),
     (''resolutionGenerationRef'', jopt JStr (ne_resolution_generation_ref x)),
     (''requestDigest'', jopt JStr (ne_request_digest x))]"

definition request_kind_json :: "EffectRequestKindV1 \<Rightarrow> json" where
  "request_kind_json x = (case x of
     EffResource e \<Rightarrow> JObj [(''family'', JStr ''resource''), (''effect'', resource_effect_json e)]
   | EffProcess e \<Rightarrow> JObj [(''family'', JStr ''process''), (''effect'', process_effect_json e)]
   | EffNetwork e \<Rightarrow> JObj [(''family'', JStr ''network''), (''effect'', network_effect_json e)])"

definition precondition_json :: "EffectPreconditionV1 \<Rightarrow> json" where
  "precondition_json x = (case x of
     PreResourceGeneration h g d \<Rightarrow> JObj [(''precondition'', JStr ''resource_generation''),
       (''handleRef'', JStr h), (''generation'', ju64 g), (''digest'', JStr d)]
   | PreProcessState p e \<Rightarrow> JObj [(''precondition'', JStr ''process_state''), (''processRef'', JStr p),
       (''expectedState'', JStr e)]
   | PreDestinationGeneration s g \<Rightarrow> JObj [(''precondition'', JStr ''destination_generation''),
       (''scopeRef'', JStr s), (''generationRef'', JStr g)])"

definition request_json :: "EffectRequestV1 \<Rightarrow> json" where
  "request_json x = JObj [
     (''contractVersion'', JStr (rq_contract_version x)), (''requestId'', JStr (rq_request_id x)),
     (''envelopeRef'', JStr (rq_envelope_ref x)), (''runControlRef'', JStr (rq_run_control_ref x)),
     (''context'', context_json (rq_context x)), (''sequence'', ju64 (rq_sequence x)),
     (''adapterVersionRef'', JStr (rq_adapter_version_ref x)),
     (''effect'', request_kind_json (rq_effect x)),
     (''requestedBudgetSlice'', budgets_json (rq_requested_budget_slice x)),
     (''preconditions'', jlist precondition_json (rq_preconditions x))]"

definition decision_json :: "EffectDecisionV1 \<Rightarrow> json" where
  "decision_json x = (case x of
     Allowed \<Rightarrow> JStr ''allowed'' | Denied \<Rightarrow> JStr ''denied'' | Unavailable \<Rightarrow> JStr ''unavailable'')"

definition facts_json :: "EffectFactsV1 \<Rightarrow> json" where
  "facts_json x = (case x of
     FactResource h g d b \<Rightarrow> JObj [(''factFamily'', JStr ''resource''), (''handleRef'', JStr h),
       (''generation'', ju64 g), (''contentDigest'', JStr d), (''bytes'', ju64 b)]
   | FactProcess w p s \<Rightarrow> JObj [(''factFamily'', JStr ''process''), (''worldRef'', JStr w),
       (''processRef'', JStr p), (''state'', JStr s)]
   | FactContainedProcess w p wd ei ad ed s ec od ob rd rb t n re \<Rightarrow> JObj [
       (''factFamily'', JStr ''contained_process''), (''worldRef'', JStr w), (''processRef'', JStr p),
       (''worldIdentityDigest'', JStr wd), (''executableIdentityRef'', JStr ei),
       (''argvDigest'', JStr ad), (''environmentDigest'', JStr ed), (''state'', JStr s),
       (''exitCode'', jopt JInt ec), (''stdoutDigest'', JStr od), (''stdoutBytes'', ju64 ob),
       (''stderrDigest'', JStr rd), (''stderrBytes'', ju64 rb), (''terminationRequested'', JBool t),
       (''networkDenied'', JBool n), (''resourceEffectDigest'', JStr re)]
   | FactNetwork s c st \<Rightarrow> JObj [(''factFamily'', JStr ''network''), (''scopeRef'', JStr s),
       (''connectionRef'', JStr c), (''state'', JStr st)]
   | FactBrokeredNetwork s d a st k t es g l bs br el dv px rf cl \<Rightarrow> JObj [
       (''factFamily'', JStr ''brokered_network''), (''scopeRef'', JStr s), (''destinationRef'', JStr d),
       (''actionRef'', JStr a), (''state'', JStr st), (''scopeKind'', JStr k),
       (''transportRef'', JStr t), (''resolvedEndpointRefs'', jlist JStr es),
       (''resolutionGenerationRef'', jopt JStr g), (''localEndpointRef'', jopt JStr l),
       (''bytesSent'', ju64 bs), (''bytesReceived'', ju64 br), (''elapsedMillis'', ju64 el),
       (''dnsRevalidated'', JBool dv), (''proxyRef'', jopt JStr px),
       (''redirectsFollowed'', ju64 rf), (''closed'', JBool cl)]
   | FactNone \<Rightarrow> JObj [(''factFamily'', JStr ''none'')])"

section \<open>Hash materials and identities\<close>

definition envelope_hash_material :: "EffectEnvelopeV1 \<Rightarrow> json" where
  "envelope_hash_material e = JObj [
     (''contractVersion'', JStr (ev_contract_version e)),
     (''compilerVersion'', JStr (ev_compiler_version e)),
     (''hostPolicySnapshotRef'', JStr (ev_host_policy_snapshot_ref e)),
     (''context'', context_json (ev_context e)), (''contextRef'', JStr (ev_context_ref e)),
     (''runControlRef'', JStr (ev_run_control_ref e)),
     (''resources'', jlist resource_grant_json (ev_resources e)),
     (''world'', world_grant_json (ev_world e)),
     (''effectBounds'', jlist effect_bound_json (ev_effect_bounds e)),
     (''budgets'', budgets_json (ev_budgets e)), (''network'', network_authority_json (ev_network e)),
     (''resultContract'', result_contract_json (ev_result_contract e)),
     (''expiresAt'', JInt (ev_expires_at e))]"

definition request_hash_material :: "EffectRequestV1 \<Rightarrow> json" where
  "request_hash_material x = JObj [
     (''contractVersion'', JStr (rq_contract_version x)),
     (''envelopeRef'', JStr (rq_envelope_ref x)), (''runControlRef'', JStr (rq_run_control_ref x)),
     (''context'', context_json (rq_context x)), (''sequence'', ju64 (rq_sequence x)),
     (''adapterVersionRef'', JStr (rq_adapter_version_ref x)),
     (''effect'', request_kind_json (rq_effect x)),
     (''requestedBudgetSlice'', budgets_json (rq_requested_budget_slice x)),
     (''preconditions'', jlist precondition_json (rq_preconditions x))]"

definition evidence_hash_material :: "EffectEvidenceV1 \<Rightarrow> json" where
  "evidence_hash_material e = JObj [
     (''contractVersion'', JStr (ee_contract_version e)),
     (''priorEvidenceDigest'', jopt JStr (ee_prior_evidence_digest e)),
     (''requestId'', JStr (ee_request_id e)), (''envelopeRef'', JStr (ee_envelope_ref e)),
     (''runControlRef'', JStr (ee_run_control_ref e)), (''contextRef'', JStr (ee_context_ref e)),
     (''sequence'', ju64 (ee_sequence e)), (''decision'', decision_json (ee_decision e)),
     (''observedPreconditions'', jlist precondition_json (ee_observed_preconditions e)),
     (''actualEffectSummary'', JStr (ee_actual_effect_summary e)),
     (''budgetDebit'', budgets_json (ee_budget_debit e)), (''facts'', facts_json (ee_facts e))]"

definition domain_hash_input :: "lib \<Rightarrow> string \<Rightarrow> json \<Rightarrow> byte list" where
  "domain_hash_input L domain value = as_bytes domain @ [0] @ json_vec L value"

definition domain_hash :: "lib \<Rightarrow> string \<Rightarrow> json \<Rightarrow> string" where
  "domain_hash L domain value = domain @ '':'' @ blake3_hex L (domain_hash_input L domain value)"

definition compute_envelope_ref :: "lib \<Rightarrow> EffectEnvelopeV1 \<Rightarrow> EffectEnvelopeRefV1" where
  "compute_envelope_ref L envelope =
     domain_hash L ''pastey-effect-envelope-v1'' (envelope_hash_material envelope)"

definition compute_request_id :: "lib \<Rightarrow> EffectRequestV1 \<Rightarrow> EffectRequestIdV1" where
  "compute_request_id L request =
     domain_hash L ''pastey-effect-request-v1'' (request_hash_material request)"

definition compute_evidence_id :: "lib \<Rightarrow> EffectEvidenceV1 \<Rightarrow> EffectEvidenceIdV1" where
  "compute_evidence_id L evidence =
     domain_hash L ''pastey-effect-evidence-id-v1'' (evidence_hash_material evidence)"

definition compute_evidence_digest :: "lib \<Rightarrow> EffectEvidenceV1 \<Rightarrow> string" where
  "compute_evidence_digest L evidence =
     domain_hash L ''pastey-effect-evidence-digest-v1'' (evidence_hash_material evidence)"

definition host_authenticator :: "lib \<Rightarrow> byte list \<Rightarrow> EffectEvidenceV1 \<Rightarrow> string" where
  "host_authenticator L key evidence =
     ''host-effect-authenticator:v1:'' @ blake3_keyed_hex L key
       (as_bytes ''pastey-host-effect-evidence-authenticator-v1'' @ [0]
        @ json_vec L (evidence_hash_material evidence))"

section \<open>Injectivity\<close>

lemma semantic_operation_json_inj [json_inj]:
  "semantic_operation_json a = semantic_operation_json b \<longleftrightarrow> a = b"
  by (simp add: semantic_operation_json_def split: ManagedSemanticOperationV1.splits)

lemma input_revision_json_inj [json_inj]: "input_revision_json a = input_revision_json b \<longleftrightarrow> a = b"
  by (cases a; cases b) (simp add: input_revision_json_def json_inj)

lemmas [json_inj] = jlist_inj [OF input_revision_json_inj]

lemma context_json_inj [json_inj]: "context_json a = context_json b \<longleftrightarrow> a = b"
  by (cases a; cases b) (simp add: context_json_def json_inj)

lemma budgets_json_inj [json_inj]: "budgets_json a = budgets_json b \<longleftrightarrow> a = b"
  by (cases a; cases b) (simp add: budgets_json_def json_inj)

lemma resource_kind_json_inj [json_inj]: "resource_kind_json a = resource_kind_json b \<longleftrightarrow> a = b"
  by (cases a; cases b) (simp_all add: resource_kind_json_def)

lemma resource_verb_json_inj [json_inj]: "resource_verb_json a = resource_verb_json b \<longleftrightarrow> a = b"
  by (cases a; cases b) (simp_all add: resource_verb_json_def)

lemma process_verb_json_inj [json_inj]: "process_verb_json a = process_verb_json b \<longleftrightarrow> a = b"
  by (cases a; cases b) (simp_all add: process_verb_json_def)

lemma network_verb_json_inj [json_inj]: "network_verb_json a = network_verb_json b \<longleftrightarrow> a = b"
  by (cases a; cases b) (simp_all add: network_verb_json_def)

lemma confinement_json_inj [json_inj]: "confinement_json a = confinement_json b \<longleftrightarrow> a = b"
  by (cases a; cases b) (simp_all add: confinement_json_def)

lemmas [json_inj] = jset_inj [OF resource_verb_json_inj] jset_inj [OF network_verb_json_inj]
  jset_inj [OF confinement_json_inj] jset_inj [OF json.inject(3)] jlist_inj [OF json.inject(3)]

lemma resource_grant_json_inj [json_inj]: "resource_grant_json a = resource_grant_json b \<longleftrightarrow> a = b"
  by (cases a; cases b) (simp add: resource_grant_json_def json_inj)

lemma world_grant_json_inj [json_inj]: "world_grant_json a = world_grant_json b \<longleftrightarrow> a = b"
  by (cases a; cases b) (simp add: world_grant_json_def json_inj)

lemma network_grant_json_inj [json_inj]: "network_grant_json a = network_grant_json b \<longleftrightarrow> a = b"
  by (cases a; cases b) (simp add: network_grant_json_def json_inj)

lemma network_authority_json_inj [json_inj]:
  "network_authority_json a = network_authority_json b \<longleftrightarrow> a = b"
  by (cases a; cases b) (simp_all add: network_authority_json_def json_inj)

lemma capability_json_inj [json_inj]: "capability_json a = capability_json b \<longleftrightarrow> a = b"
  by (cases a; cases b) (simp_all add: capability_json_def json_inj)

lemma effect_bound_json_inj [json_inj]: "effect_bound_json a = effect_bound_json b \<longleftrightarrow> a = b"
  by (cases a; cases b) (simp add: effect_bound_json_def json_inj)

lemma result_contract_json_inj [json_inj]: "result_contract_json a = result_contract_json b \<longleftrightarrow> a = b"
  by (cases a; cases b) (simp_all add: result_contract_json_def json_inj)

lemma resource_effect_json_inj [json_inj]: "resource_effect_json a = resource_effect_json b \<longleftrightarrow> a = b"
  by (cases a; cases b) (simp add: resource_effect_json_def json_inj)

lemma process_effect_json_inj [json_inj]: "process_effect_json a = process_effect_json b \<longleftrightarrow> a = b"
  by (cases a; cases b) (simp_all add: process_effect_json_def json_inj)

lemma network_effect_json_inj [json_inj]: "network_effect_json a = network_effect_json b \<longleftrightarrow> a = b"
  by (cases a; cases b) (simp add: network_effect_json_def json_inj)

lemma request_kind_json_inj [json_inj]: "request_kind_json a = request_kind_json b \<longleftrightarrow> a = b"
  by (cases a; cases b) (simp_all add: request_kind_json_def json_inj)

lemma precondition_json_inj [json_inj]: "precondition_json a = precondition_json b \<longleftrightarrow> a = b"
  by (cases a; cases b) (simp_all add: precondition_json_def json_inj)

lemma decision_json_inj [json_inj]: "decision_json a = decision_json b \<longleftrightarrow> a = b"
  by (cases a; cases b) (simp_all add: decision_json_def)

lemma facts_json_inj [json_inj]: "facts_json a = facts_json b \<longleftrightarrow> a = b"
  by (cases a; cases b) (simp_all add: facts_json_def json_inj)

lemmas [json_inj] = jlist_inj [OF resource_grant_json_inj] jlist_inj [OF effect_bound_json_inj]
  jlist_inj [OF precondition_json_inj]

lemma envelope_hash_material_inj:
  "envelope_hash_material a = envelope_hash_material b \<longleftrightarrow>
     a\<lparr>ev_envelope_ref := []\<rparr> = b\<lparr>ev_envelope_ref := []\<rparr>"
  by (cases a; cases b) (simp add: envelope_hash_material_def json_inj)

lemma request_hash_material_inj:
  "request_hash_material a = request_hash_material b \<longleftrightarrow>
     a\<lparr>rq_request_id := []\<rparr> = b\<lparr>rq_request_id := []\<rparr>"
  by (cases a; cases b) (simp add: request_hash_material_def json_inj)

lemma evidence_hash_material_inj:
  "evidence_hash_material a = evidence_hash_material b \<longleftrightarrow>
     a\<lparr>ee_evidence_id := [], ee_evidence_digest := [], ee_host_authenticator := []\<rparr>
     = b\<lparr>ee_evidence_id := [], ee_evidence_digest := [], ee_host_authenticator := []\<rparr>"
  by (cases a; cases b) (simp add: evidence_hash_material_def json_inj)

lemma domain_hash_inj:
  assumes "json_faithful L"
    and "collision_free L {domain_hash_input L domain v, domain_hash_input L domain w}"
  shows "domain_hash L domain v = domain_hash L domain w \<longleftrightarrow> v = w"
proof
  assume "domain_hash L domain v = domain_hash L domain w"
  then have "blake3_hex L (domain_hash_input L domain v) = blake3_hex L (domain_hash_input L domain w)"
    by (simp add: domain_hash_def)
  with assms(2) have "domain_hash_input L domain v = domain_hash_input L domain w"
    by (auto dest: collision_freeD)
  with assms(1) show "v = w" by (auto simp: domain_hash_input_def dest: json_faithfulD)
qed simp

end
