(* ===== verification/Effect_Envelope.thy ===== *)
theory Effect_Envelope
  imports Effect_Json
begin

text \<open>
  The envelope compiler of \<^verbatim>\<open>effect_authority.rs\<close>: validation of an authority context and of the four
  authority ceilings (semantic, admission, Host policy, confinement), their intersection, the result
  contract, and \<open>compile_effect_envelope\<close>. The array of the four ceilings is passed as its first
  element and the list of the others.

  The theorems say that the compiled envelope grants exactly what all four ceilings grant, and that
  the final subset check of the compiler never rejects what the intersections built.
\<close>

section \<open>Contexts\<close>

fun validate_input_revisions ::
  "HostRef \<Rightarrow> ManagedInputRevisionV1 list \<Rightarrow> ManagedInputRevisionV1 list \<Rightarrow> effect_error + unit" where
  "validate_input_revisions host_ref inputs [] = Inr ()"
| "validate_input_revisions host_ref inputs (input # rest) =
     and_then (validate_id (ir_logical_object_id input) ''logical object id'') (\<lambda>_.
     if ir_revision input = 0 \<or> ir_host_ref input \<noteq> host_ref
     then invalid ''Phase 5 input revision has the wrong revision or Host location.''
     else if input \<in> set inputs then invalid ''Phase 5 input revision is duplicated.''
     else validate_input_revisions host_ref (input # inputs) rest)"

definition AuthorityContextV1_validate :: "lib \<Rightarrow> AuthorityContextV1 \<Rightarrow> effect_error + unit" where
  "AuthorityContextV1_validate L self =
     and_then (ensure (ctx_contract_version self = EFFECT_AUTHORITY_VERSION)
       (InvalidInput ''Unknown Phase 5 authority context version.'')) (\<lambda>_.
     and_then (try_all (\<lambda>(value, label). validate_id value label)
       [(ctx_bridge_id self, ''Bridge id''),
        (ctx_plan_id self, ''Plan id''),
        (ctx_revision_id self, ''revision id''),
        (ctx_revision_hash self, ''revision hash''),
        (ctx_approval_id self, ''approval id''),
        (ctx_attempt_id self, ''attempt id''),
        (ctx_step_id self, ''step id''),
        (ctx_admission_ref self, ''admission ref''),
        (ctx_session_binding_ref self, ''session binding ref'')]) (\<lambda>_.
     and_then (ensure (\<not> (ctx_issued_at self \<le> 0 \<or> ctx_expires_at self \<le> ctx_issued_at self))
       (InvalidInput ''Phase 5 authority context expiry is invalid.'')) (\<lambda>_.
     and_then (map_err Identity (PlanParticipantRef_for_host L (ctx_plan_id self) (ctx_host_ref self)))
       (\<lambda>participant_ref.
     and_then (ensure (participant_ref = ctx_participant_ref self)
       (InvalidInput ''Phase 5 participant does not match the exact Plan and HostRef.'')) (\<lambda>_.
     and_then (ensure (ctx_input_revisions self \<noteq> [])
       (InvalidInput ''Phase 5 authority requires exact input revisions.'')) (\<lambda>_.
     validate_input_revisions (ctx_host_ref self) [] (ctx_input_revisions self)))))))"

definition AuthorityContextV1_context_ref ::
  "lib \<Rightarrow> AuthorityContextV1 \<Rightarrow> effect_error + AuthorityContextRefV1" where
  "AuthorityContextV1_context_ref L self =
     and_then (AuthorityContextV1_validate L self) (\<lambda>_.
     Inr (domain_hash L ''pastey-authority-context-v1'' (context_json self)))"

section \<open>Ceilings\<close>

fun validate_ceiling_resources ::
  "AuthorityContextRefV1 \<Rightarrow> ManagedRunRefV1 \<Rightarrow> ResourceHandleRefV1 list \<Rightarrow> ResourceGrantV1 list
    \<Rightarrow> effect_error + unit" where
  "validate_ceiling_resources context_ref run_ref handles [] = Inr ()"
| "validate_ceiling_resources context_ref run_ref handles (grant # rest) =
     (if rg_context_ref grant \<noteq> context_ref \<or> rg_run_control_ref grant \<noteq> run_ref
         \<or> rg_expires_at grant \<le> 0 \<or> rg_handle_ref grant \<in> set handles
      then invalid ''Authority ceiling contains an invalid resource grant.''
      else
        and_then (validate_id (rg_safe_identity_ref grant) ''safe identity ref'') (\<lambda>_.
        and_then (validate_selector_prefix (rg_selector_prefix grant)) (\<lambda>_.
        if rg_kind grant = ManagedRevision \<and> \<not> rg_allowed_verbs grant |\<subseteq>| {|Inspect, Read|}
        then invalid ''Managed revision grants cannot contain mutation authority.''
        else validate_ceiling_resources context_ref run_ref (rg_handle_ref grant # handles) rest)))"

fun validate_ceiling_bounds :: "EffectCapabilityV1 list \<Rightarrow> EffectBoundV1 list \<Rightarrow> effect_error + unit" where
  "validate_ceiling_bounds capabilities [] = Inr ()"
| "validate_ceiling_bounds capabilities (bound # rest) =
     (if eb_capability bound \<in> set capabilities
      then invalid ''Authority ceiling repeats an effect capability.''
      else validate_ceiling_bounds (eb_capability bound # capabilities) rest)"

definition validate_ceiling_network ::
  "AuthorityContextRefV1 \<Rightarrow> ManagedRunRefV1 \<Rightarrow> HostRef \<Rightarrow> NetworkAuthorityV1 \<Rightarrow> effect_error + unit" where
  "validate_ceiling_network context_ref run_ref host_ref network =
     (case network of
        NetDenied \<Rightarrow> Inr ()
      | NetScoped grant \<Rightarrow>
          if ng_context_ref grant \<noteq> context_ref
            \<or> ng_run_control_ref grant \<noteq> run_ref
            \<or> ng_host_ref grant \<noteq> host_ref
            \<or> ng_expires_at grant \<le> 0
            \<or> ng_scope_refs grant = {||}
            \<or> ng_allowed_verbs grant = {||}
            \<or> ng_destination_refs grant = {||}
          then invalid ''Authority ceiling network grant is invalid.''
          else try_all (\<lambda>destination. validate_id destination ''network destination ref'')
            (sorted_list_of_fset (ng_destination_refs grant)))"

definition validate_ceiling ::
  "AuthorityCeilingV1 \<Rightarrow> AuthorityContextRefV1 \<Rightarrow> ManagedRunRefV1 \<Rightarrow> HostRef \<Rightarrow> effect_error + unit" where
  "validate_ceiling ceil context_ref run_ref host_ref =
     and_then (ensure (\<not> (ac_context_ref ceil \<noteq> context_ref \<or> ac_expires_at ceil \<le> 0))
       (InvalidInput ''Authority ceiling context or expiry is invalid.'')) (\<lambda>_.
     and_then (validate_id (ac_source_snapshot_ref ceil) ''authority ceiling snapshot'') (\<lambda>_.
     and_then (validate_ceiling_resources context_ref run_ref [] (ac_resources ceil)) (\<lambda>_.
     and_then (ensure (\<not> (wg_context_ref (ac_world ceil) \<noteq> context_ref
         \<or> wg_run_control_ref (ac_world ceil) \<noteq> run_ref \<or> wg_expires_at (ac_world ceil) \<le> 0))
       (InvalidInput ''Authority ceiling execution world is invalid.'')) (\<lambda>_.
     and_then (validate_id (wg_world_identity_digest (ac_world ceil)) ''execution world identity'') (\<lambda>_.
     and_then (validate_ceiling_bounds [] (ac_effect_bounds ceil)) (\<lambda>_.
     validate_ceiling_network context_ref run_ref host_ref (ac_network ceil)))))))"

section \<open>Intersections\<close>

definition resource_map :: "AuthorityCeilingV1 \<Rightarrow> (ResourceHandleRefV1 \<times> ResourceGrantV1) list" where
  "resource_map ceil = bt_collect (map (\<lambda>grant. (rg_handle_ref grant, grant)) (ac_resources ceil))"

definition resource_identity_differs :: "ResourceGrantV1 \<Rightarrow> ResourceGrantV1 \<Rightarrow> bool" where
  "resource_identity_differs first grant \<longleftrightarrow>
     rg_context_ref grant \<noteq> rg_context_ref first
     \<or> rg_run_control_ref grant \<noteq> rg_run_control_ref first
     \<or> rg_host_ref grant \<noteq> rg_host_ref first
     \<or> rg_kind grant \<noteq> rg_kind first
     \<or> rg_safe_identity_ref grant \<noteq> rg_safe_identity_ref first
     \<or> rg_selector_prefix grant \<noteq> rg_selector_prefix first"

definition meet_resource :: "ResourceHandleRefV1 \<Rightarrow> ResourceGrantV1 \<Rightarrow> ResourceGrantV1 list \<Rightarrow> ResourceGrantV1" where
  "meet_resource handle_ref first grants =
     \<lparr>rg_handle_ref = handle_ref,
      rg_context_ref = rg_context_ref first,
      rg_run_control_ref = rg_run_control_ref first,
      rg_host_ref = rg_host_ref first,
      rg_kind = rg_kind first,
      rg_safe_identity_ref = rg_safe_identity_ref first,
      rg_selector_prefix = rg_selector_prefix first,
      rg_allowed_verbs = foldl (|\<inter>|) (rg_allowed_verbs first) (map rg_allowed_verbs grants),
      rg_budgets = foldl component_min (rg_budgets first) (map rg_budgets grants),
      rg_expires_at = foldl min (rg_expires_at first) (map rg_expires_at (first # grants))\<rparr>"

fun intersect_resource_entries ::
  "(ResourceHandleRefV1 \<times> ResourceGrantV1) list list \<Rightarrow> (ResourceHandleRefV1 \<times> ResourceGrantV1) list
    \<Rightarrow> effect_error + ResourceGrantV1 list" where
  "intersect_resource_entries maps [] = Inr []"
| "intersect_resource_entries maps ((handle_ref, first) # rest) =
     (case those (map (\<lambda>m. hm_get m handle_ref) maps) of
        None \<Rightarrow> intersect_resource_entries maps rest
      | Some grants \<Rightarrow>
          if list_ex (resource_identity_differs first) (first # grants)
          then invalid ''Conflicting resource identity appeared across authority ceilings.''
          else if rg_allowed_verbs (meet_resource handle_ref first grants) = {||}
          then intersect_resource_entries maps rest
          else and_then (intersect_resource_entries maps rest) (\<lambda>resources.
            Inr (meet_resource handle_ref first grants # resources)))"

definition intersect_resources ::
  "AuthorityCeilingV1 \<Rightarrow> AuthorityCeilingV1 list \<Rightarrow> effect_error + ResourceGrantV1 list" where
  "intersect_resources c cs =
     and_then (intersect_resource_entries (map resource_map cs) (resource_map c)) (\<lambda>resources.
     Inr (sort_key rg_handle_ref resources))"

definition intersect_worlds ::
  "AuthorityCeilingV1 \<Rightarrow> AuthorityCeilingV1 list \<Rightarrow> effect_error + ExecutionWorldGrantV1" where
  "intersect_worlds c cs =
     (let first = ac_world c; worlds = map ac_world cs in
      if list_ex (\<lambda>world. wg_world_ref world \<noteq> wg_world_ref first
          \<or> wg_context_ref world \<noteq> wg_context_ref first
          \<or> wg_run_control_ref world \<noteq> wg_run_control_ref first
          \<or> wg_world_identity_digest world \<noteq> wg_world_identity_digest first) worlds
      then invalid ''Execution world identity conflicts across authority ceilings.''
      else Inr \<lparr>wg_world_ref = wg_world_ref first,
        wg_context_ref = wg_context_ref first,
        wg_run_control_ref = wg_run_control_ref first,
        wg_world_identity_digest = wg_world_identity_digest first,
        wg_mounted_resources = foldl (|\<inter>|) (wg_mounted_resources first) (map wg_mounted_resources worlds),
        wg_executable_resources =
          foldl (|\<inter>|) (wg_executable_resources first) (map wg_executable_resources worlds),
        wg_required_properties =
          foldl (|\<union>|) (wg_required_properties first) (map wg_required_properties worlds),
        wg_budgets = foldl component_min (wg_budgets first) (map wg_budgets worlds),
        wg_expires_at = foldl min (wg_expires_at first) (map wg_expires_at worlds)\<rparr>)"

definition bound_map :: "AuthorityCeilingV1 \<Rightarrow> (EffectCapabilityV1 \<times> EffectBudgetsV1) list" where
  "bound_map ceil =
     bt_collect (map (\<lambda>bound. (eb_capability bound, eb_max_per_request bound)) (ac_effect_bounds ceil))"

definition intersect_effect_bounds :: "AuthorityCeilingV1 \<Rightarrow> AuthorityCeilingV1 list \<Rightarrow> EffectBoundV1 list" where
  "intersect_effect_bounds c cs =
     List.map_filter (\<lambda>(capability, budget).
       map_option (\<lambda>others. \<lparr>eb_capability = capability,
           eb_max_per_request = foldl component_min budget others\<rparr>)
         (those (map (\<lambda>m. hm_get m capability) (map bound_map cs))))
       (bound_map c)"

definition network_grant :: "NetworkAuthorityV1 \<Rightarrow> NetworkGrantV1 option" where
  "network_grant network = (case network of NetDenied \<Rightarrow> None | NetScoped grant \<Rightarrow> Some grant)"

definition meet_network :: "NetworkGrantV1 \<Rightarrow> NetworkGrantV1 list \<Rightarrow> NetworkGrantV1" where
  "meet_network first grants =
     \<lparr>ng_context_ref = ng_context_ref first,
      ng_run_control_ref = ng_run_control_ref first,
      ng_host_ref = ng_host_ref first,
      ng_scope_refs = foldl (|\<inter>|) (ng_scope_refs first) (map ng_scope_refs grants),
      ng_allowed_verbs = foldl (|\<inter>|) (ng_allowed_verbs first) (map ng_allowed_verbs grants),
      ng_destination_refs = foldl (|\<inter>|) (ng_destination_refs first) (map ng_destination_refs grants),
      ng_budgets = foldl component_min (ng_budgets first) (map ng_budgets grants),
      ng_expires_at = foldl min (ng_expires_at first) (map ng_expires_at grants)\<rparr>"

definition intersect_network ::
  "AuthorityCeilingV1 \<Rightarrow> AuthorityCeilingV1 list \<Rightarrow> effect_error + NetworkAuthorityV1" where
  "intersect_network c cs =
     (case (network_grant (ac_network c), those (map (\<lambda>ceil. network_grant (ac_network ceil)) cs)) of
        (Some first, Some grants) \<Rightarrow>
          if list_ex (\<lambda>grant. ng_context_ref grant \<noteq> ng_context_ref first
              \<or> ng_run_control_ref grant \<noteq> ng_run_control_ref first
              \<or> ng_host_ref grant \<noteq> ng_host_ref first) (first # grants)
          then invalid ''Network authority context conflicts across ceilings.''
          else (let meet = meet_network first grants in
            if ng_scope_refs meet = {||} \<or> ng_allowed_verbs meet = {||} \<or> ng_destination_refs meet = {||}
            then Inr NetDenied
            else Inr (NetScoped meet))
      | _ \<Rightarrow> Inr NetDenied)"

section \<open>The subset check and the result contract\<close>

definition network_is_subset :: "NetworkAuthorityV1 \<Rightarrow> NetworkAuthorityV1 \<Rightarrow> bool" where
  "network_is_subset value ceil =
     (case (value, ceil) of
        (NetDenied, _) \<Rightarrow> True
      | (NetScoped _, NetDenied) \<Rightarrow> False
      | (NetScoped v, NetScoped c) \<Rightarrow>
          ng_context_ref v = ng_context_ref c
          \<and> ng_run_control_ref v = ng_run_control_ref c
          \<and> ng_host_ref v = ng_host_ref c
          \<and> ng_scope_refs v |\<subseteq>| ng_scope_refs c
          \<and> ng_allowed_verbs v |\<subseteq>| ng_allowed_verbs c
          \<and> ng_destination_refs v |\<subseteq>| ng_destination_refs c
          \<and> budgets_is_subset_of (ng_budgets v) (ng_budgets c)
          \<and> ng_expires_at v \<le> ng_expires_at c)"

text \<open>\<^verbatim>\<open>iter.collect::<HashMap<_, _>>()\<close>: the last pair of a key wins.\<close>

definition check_resource_subset ::
  "(ResourceHandleRefV1 \<Rightarrow> ResourceGrantV1 option) \<Rightarrow> ResourceGrantV1 \<Rightarrow> effect_error + unit" where
  "check_resource_subset resources grant =
     (case resources (rg_handle_ref grant) of
        None \<Rightarrow> invalid ''Effect envelope adds a resource outside its ceiling.''
      | Some limit \<Rightarrow>
          ensure (\<not> (rg_context_ref grant \<noteq> rg_context_ref limit
            \<or> rg_run_control_ref grant \<noteq> rg_run_control_ref limit
            \<or> rg_host_ref grant \<noteq> rg_host_ref limit
            \<or> rg_kind grant \<noteq> rg_kind limit
            \<or> rg_safe_identity_ref grant \<noteq> rg_safe_identity_ref limit
            \<or> rg_selector_prefix grant \<noteq> rg_selector_prefix limit
            \<or> \<not> rg_allowed_verbs grant |\<subseteq>| rg_allowed_verbs limit
            \<or> \<not> budgets_is_subset_of (rg_budgets grant) (rg_budgets limit)
            \<or> rg_expires_at grant > rg_expires_at limit))
            (InvalidInput ''Effect envelope widens a resource grant.''))"

definition check_bound_subset ::
  "(EffectCapabilityV1 \<Rightarrow> EffectBudgetsV1 option) \<Rightarrow> EffectBoundV1 \<Rightarrow> effect_error + unit" where
  "check_bound_subset bounds bound =
     ensure (case bounds (eb_capability bound) of None \<Rightarrow> False
        | Some limit \<Rightarrow> budgets_is_subset_of (eb_max_per_request bound) limit)
       (InvalidInput ''Effect envelope adds or widens an effect capability.'')"

definition validate_envelope_subset ::
  "EffectEnvelopeV1 \<Rightarrow> AuthorityCeilingV1 \<Rightarrow> effect_error + unit" where
  "validate_envelope_subset envelope ceil =
     and_then (ensure (\<not> (ev_context_ref envelope \<noteq> ac_context_ref ceil
         \<or> ev_expires_at envelope > ac_expires_at ceil
         \<or> \<not> budgets_is_subset_of (ev_budgets envelope) (ac_budgets ceil)))
       (InvalidInput ''Effect envelope widens its authority ceiling.'')) (\<lambda>_.
     and_then (try_all (check_resource_subset
         (map_of (rev (map (\<lambda>grant. (rg_handle_ref grant, grant)) (ac_resources ceil)))))
       (ev_resources envelope)) (\<lambda>_.
     and_then (ensure (\<not> (wg_world_ref (ev_world envelope) \<noteq> wg_world_ref (ac_world ceil)
         \<or> wg_world_identity_digest (ev_world envelope) \<noteq> wg_world_identity_digest (ac_world ceil)
         \<or> \<not> wg_mounted_resources (ev_world envelope) |\<subseteq>| wg_mounted_resources (ac_world ceil)
         \<or> \<not> wg_executable_resources (ev_world envelope) |\<subseteq>| wg_executable_resources (ac_world ceil)
         \<or> \<not> wg_required_properties (ac_world ceil) |\<subseteq>| wg_required_properties (ev_world envelope)
         \<or> \<not> budgets_is_subset_of (wg_budgets (ev_world envelope)) (wg_budgets (ac_world ceil))
         \<or> wg_expires_at (ev_world envelope) > wg_expires_at (ac_world ceil)))
       (InvalidInput ''Effect envelope widens its execution world.'')) (\<lambda>_.
     and_then (try_all (check_bound_subset
         (map_of (rev (map (\<lambda>bound. (eb_capability bound, eb_max_per_request bound))
           (ac_effect_bounds ceil)))))
       (ev_effect_bounds envelope)) (\<lambda>_.
     ensure (network_is_subset (ev_network envelope) (ac_network ceil))
       (InvalidInput ''Effect envelope widens independent network authority.'')))))"

definition validate_result_contract ::
  "AuthorityContextV1 \<Rightarrow> ResultContractV1 \<Rightarrow> ResourceGrantV1 list \<Rightarrow> effect_error + unit" where
  "validate_result_contract context result resources =
     (case (ctx_semantic_operation context, result) of
        (SemTransform, ResTransform input output_revision output_slot) \<Rightarrow>
          ensure (\<not> (input \<notin> set (ctx_input_revisions context)
              \<or> output_revision \<noteq> (case checked_add (ir_revision input) 1 of None \<Rightarrow> 0 | Some r \<Rightarrow> r)
              \<or> \<not> list_ex (\<lambda>grant. rg_handle_ref grant = output_slot \<and> rg_kind grant = OutputSlot
                    \<and> (Create |\<in>| rg_allowed_verbs grant \<or> Replace |\<in>| rg_allowed_verbs grant)) resources))
            (InvalidInput ''Transform result contract widens or mismatches exact lineage.'')
      | (SemExecute, ResExecute inputs result_schema_ref) \<Rightarrow>
          and_then (validate_id result_schema_ref ''Execute result schema ref'') (\<lambda>_.
          ensure (inputs = ctx_input_revisions context)
            (InvalidInput ''Execute result contract does not match exact inputs.''))
      | _ \<Rightarrow> invalid ''Result contract does not match the semantic operation.'')"

section \<open>The compiler\<close>

text \<open>The four ceilings of a compile request.\<close>

definition ceilings_of :: "EffectEnvelopeCompileRequestV1 \<Rightarrow> AuthorityCeilingV1 list" where
  "ceilings_of q = [cq_semantic_ceiling q, cq_admission_ceiling q, cq_host_policy_ceiling q,
     cq_confinement_ceiling q]"

definition compile_effect_envelope ::
  "lib \<Rightarrow> EffectEnvelopeCompileRequestV1 \<Rightarrow> effect_error + EffectEnvelopeV1" where
  "compile_effect_envelope L request =
     and_then (AuthorityContextV1_validate L (cq_context request)) (\<lambda>_.
     and_then (validate_id (cq_host_policy_snapshot_ref request) ''Host policy snapshot ref'') (\<lambda>_.
     and_then (AuthorityContextV1_context_ref L (cq_context request)) (\<lambda>context_ref.
     let ceilings = ceilings_of request; first = hd ceilings; others = tl ceilings in
     and_then (try_all (\<lambda>ceil. validate_ceiling ceil context_ref (cq_run_control_ref request)
         (ctx_host_ref (cq_context request))) ceilings) (\<lambda>_.
     and_then (intersect_resources first others) (\<lambda>resources.
     and_then (intersect_worlds first others) (\<lambda>world.
     let effect_bounds = intersect_effect_bounds first others;
         budgets = foldl component_min (ac_budgets first) (map ac_budgets others) in
     and_then (intersect_network first others) (\<lambda>network.
     let expires_at = foldl min (ctx_expires_at (cq_context request)) (map ac_expires_at ceilings) in
     and_then (validate_result_contract (cq_context request) (cq_result_contract request) resources) (\<lambda>_.
     let envelope = \<lparr>ev_contract_version = EFFECT_AUTHORITY_VERSION,
           ev_envelope_ref = [],
           ev_compiler_version = COMPILER_VERSION,
           ev_host_policy_snapshot_ref = cq_host_policy_snapshot_ref request,
           ev_context = cq_context request,
           ev_context_ref = context_ref,
           ev_run_control_ref = cq_run_control_ref request,
           ev_resources = resources,
           ev_world = world,
           ev_effect_bounds = effect_bounds,
           ev_budgets = budgets,
           ev_network = network,
           ev_result_contract = cq_result_contract request,
           ev_expires_at = expires_at\<rparr>;
         envelope = envelope\<lparr>ev_envelope_ref := compute_envelope_ref L envelope\<rparr> in
     and_then (try_all (validate_envelope_subset envelope) ceilings) (\<lambda>_.
     Inr envelope)))))))))"

section \<open>Narrowing\<close>

interpretation mins: narrowing "(\<le>)" "min :: int \<Rightarrow> int \<Rightarrow> int"
  by unfold_locales auto

interpretation inters: narrowing "(|\<subseteq>|)" "(|\<inter>|)"
  by unfold_locales auto

text \<open>More required confinement properties are less authority.\<close>

interpretation unions: narrowing "\<lambda>a b. b |\<subseteq>| a" "(|\<union>|)"
  by unfold_locales auto

lemma foldl_inter_member: "x |\<in>| foldl (|\<inter>|) a bs \<longleftrightarrow> x |\<in>| a \<and> (\<forall>b \<in> set bs. x |\<in>| b)"
  by (induction bs arbitrary: a) auto

lemma foldl_union_member: "x |\<in>| foldl (|\<union>|) a bs \<longleftrightarrow> x |\<in>| a \<or> (\<exists>b \<in> set bs. x |\<in>| b)"
  by (induction bs arbitrary: a) auto

lemma budgets_fold_iff:
  "budgets_is_subset_of b (foldl component_min x xs) \<longleftrightarrow>
     budgets_is_subset_of b x \<and> (\<forall>y \<in> set xs. budgets_is_subset_of b y)"
  by (meson budgets.fold_greatest budgets.fold_le_member budgets.fold_le_start budgets.le_trans)

lemma min_fold_iff: "t \<le> foldl min x xs \<longleftrightarrow> t \<le> x \<and> (\<forall>y \<in> set xs. t \<le> y)" for t :: int
  by (meson mins.fold_greatest mins.fold_le_member mins.fold_le_start order_trans)

lemma those_iff: "those xs = Some ys \<longleftrightarrow> xs = map Some ys"
  by (induction xs arbitrary: ys) (auto split: option.splits)

lemma those_map_SomeD:
  "those (map f xs) = Some ys \<Longrightarrow> x \<in> set xs \<Longrightarrow> \<exists>y \<in> set ys. f x = Some y"
  by (auto simp: those_iff) (metis imageE image_eqI list.set_map)

lemma those_map_Some_ex: "(\<exists>ys. those (map f xs) = Some ys) \<longleftrightarrow> (\<forall>x \<in> set xs. f x \<noteq> None)"
  by (induction xs) (auto split: option.splits)

lemma those_map_set: "those (map f xs) = Some ys \<Longrightarrow> set ys = {y. \<exists>x \<in> set xs. f x = Some y}"
  by (auto simp: those_iff) (metis (mono_tags, lifting) imageE image_eqI list.set_map option.inject)+

section \<open>What a valid ceiling satisfies\<close>

lemma validate_ceiling_resources_distinct:
  "validate_ceiling_resources c r hs gs = Inr () \<Longrightarrow>
     distinct (map rg_handle_ref gs) \<and> set (map rg_handle_ref gs) \<inter> set hs = {}"
proof (induction gs arbitrary: hs)
  case (Cons g gs)
  then have "validate_ceiling_resources c r (rg_handle_ref g # hs) gs = Inr ()"
    and "rg_handle_ref g \<notin> set hs" by (auto simp: res_simps split: if_splits)
  with Cons.IH [of "rg_handle_ref g # hs"] show ?case by auto
qed simp

lemma validate_ceiling_bounds_distinct:
  "validate_ceiling_bounds cs bs = Inr () \<Longrightarrow>
     distinct (map eb_capability bs) \<and> set (map eb_capability bs) \<inter> set cs = {}"
proof (induction bs arbitrary: cs)
  case (Cons b bs)
  then have "validate_ceiling_bounds (eb_capability b # cs) bs = Inr ()"
    and "eb_capability b \<notin> set cs" by (auto split: if_splits)
  with Cons.IH [of "eb_capability b # cs"] show ?case by auto
qed simp

lemma validate_ceiling_distinct:
  assumes "validate_ceiling ceil c r h = Inr ()"
  shows "distinct (map rg_handle_ref (ac_resources ceil))"
    and "distinct (map eb_capability (ac_effect_bounds ceil))"
    and "ac_context_ref ceil = c"
  using assms validate_ceiling_resources_distinct validate_ceiling_bounds_distinct
  by (auto simp: validate_ceiling_def res_simps)

lemma map_of_keyed: "distinct (map f xs) \<Longrightarrow> map_of (map (\<lambda>x. (f x, g x)) xs) k = Some y \<longleftrightarrow>
    (\<exists>x \<in> set xs. f x = k \<and> g x = y)"
  by (subst map_of_eq_Some_iff) (auto simp: comp_def)

lemma map_of_rev_keyed: "distinct (map f xs) \<Longrightarrow> map_of (rev (map (\<lambda>x. (f x, g x)) xs)) k = Some y \<longleftrightarrow>
    (\<exists>x \<in> set xs. f x = k \<and> g x = y)"
  by (subst map_of_rev) (auto simp: comp_def map_of_keyed)

lemma resource_map_get:
  "distinct (map rg_handle_ref (ac_resources ceil)) \<Longrightarrow>
     hm_get (resource_map ceil) h = Some g \<longleftrightarrow> g \<in> set (ac_resources ceil) \<and> rg_handle_ref g = h"
  by (auto simp: hm_get_def resource_map_def map_of_bt_collect map_of_rev_keyed)

lemma bound_map_get:
  "distinct (map eb_capability (ac_effect_bounds ceil)) \<Longrightarrow>
     hm_get (bound_map ceil) k = Some b \<longleftrightarrow>
       (\<exists>x \<in> set (ac_effect_bounds ceil). eb_capability x = k \<and> eb_max_per_request x = b)"
  by (simp add: hm_get_def bound_map_def map_of_bt_collect map_of_rev_keyed)

lemma pairs_hm_get: "(k, v) \<in> set (bt_collect xs) \<longleftrightarrow> hm_get (bt_collect xs) k = Some v"
  by (simp add: hm_get_def bt_distinct bt_wf_collect)

section \<open>What the intersections contain\<close>

definition meet_entry ::
  "(ResourceHandleRefV1 \<times> ResourceGrantV1) list list \<Rightarrow> ResourceHandleRefV1 \<Rightarrow> ResourceGrantV1
    \<Rightarrow> ResourceGrantV1 \<Rightarrow> bool" where
  "meet_entry maps h first g \<longleftrightarrow>
     (\<exists>gs. those (map (\<lambda>m. hm_get m h) maps) = Some gs
       \<and> (\<forall>x \<in> set gs. \<not> resource_identity_differs first x)
       \<and> g = meet_resource h first gs \<and> rg_allowed_verbs g \<noteq> {||})"

lemma intersect_resource_entries_mem:
  "intersect_resource_entries maps es = Inr rs \<Longrightarrow>
     g \<in> set rs \<longleftrightarrow> (\<exists>h first. (h, first) \<in> set es \<and> meet_entry maps h first g)"
proof (induction maps es arbitrary: rs rule: intersect_resource_entries.induct)
  case (1 maps)
  then show ?case by simp
next
  case (2 maps h first es)
  show ?case
  proof (cases "those (map (\<lambda>m. hm_get m h) maps)")
    case None
    with 2 have "\<not> meet_entry maps h first g" by (simp add: meet_entry_def)
    with 2 None show ?thesis by auto
  next
    case (Some gs)
    with 2(4) have same: "\<forall>x \<in> set gs. \<not> resource_identity_differs first x"
      by (auto simp: list_ex_iff split: if_splits)
    show ?thesis
    proof (cases "rg_allowed_verbs (meet_resource h first gs) = {||}")
      case True
      with Some have "\<not> meet_entry maps h first g" by (auto simp: meet_entry_def)
      with 2 Some True show ?thesis by (auto split: if_splits)
    next
      case False
      with Some same have head: "meet_entry maps h first x \<longleftrightarrow> x = meet_resource h first gs" for x
        by (auto simp: meet_entry_def)
      from 2(4) Some False obtain rs' where "intersect_resource_entries maps es = Inr rs'"
        and "rs = meet_resource h first gs # rs'" by (auto simp: res_simps split: if_splits)
      with 2(3) [OF Some _ False] 2(4) Some head show ?thesis by (auto split: if_splits)
    qed
  qed
qed

lemma intersect_resources_mem:
  assumes "intersect_resources c cs = Inr rs"
  shows "g \<in> set rs \<longleftrightarrow>
    (\<exists>h first. hm_get (resource_map c) h = Some first \<and> meet_entry (map resource_map cs) h first g)"
proof -
  from assms obtain rs' where "intersect_resource_entries (map resource_map cs) (resource_map c) = Inr rs'"
    and "set rs = set rs'" by (auto simp: intersect_resources_def res_simps)
  then show ?thesis
    using intersect_resource_entries_mem [of "map resource_map cs" "resource_map c" rs' g]
    by (simp add: resource_map_def pairs_hm_get)
qed

lemma map_filter_mem: "y \<in> set (List.map_filter f xs) \<longleftrightarrow> (\<exists>x \<in> set xs. f x = Some y)"
  by (force simp: map_filter_def image_iff)

lemma intersect_effect_bounds_mem:
  "b \<in> set (intersect_effect_bounds c cs) \<longleftrightarrow>
     (\<exists>budget others. hm_get (bound_map c) (eb_capability b) = Some budget
        \<and> those (map (\<lambda>ceil. hm_get (bound_map ceil) (eb_capability b)) cs) = Some others
        \<and> eb_max_per_request b = foldl component_min budget others)"
proof -
  have "(k, v) \<in> set (bound_map c) \<longleftrightarrow> hm_get (bound_map c) k = Some v" for k v
    by (simp add: bound_map_def pairs_hm_get)
  then show ?thesis
    by (cases b) (auto simp: intersect_effect_bounds_def map_filter_mem comp_def Bex_def)
qed

section \<open>The intersections are exact\<close>

definition grants_verb :: "ResourceGrantV1 list \<Rightarrow> ResourceHandleRefV1 \<Rightarrow> ResourceVerbV1 \<Rightarrow> bool" where
  "grants_verb gs h v \<longleftrightarrow> (\<exists>g \<in> set gs. rg_handle_ref g = h \<and> v |\<in>| rg_allowed_verbs g)"

definition grants_capability :: "EffectBoundV1 list \<Rightarrow> EffectCapabilityV1 \<Rightarrow> EffectBudgetsV1 \<Rightarrow> bool" where
  "grants_capability bs k b \<longleftrightarrow>
     (\<exists>x \<in> set bs. eb_capability x = k \<and> budgets_is_subset_of b (eb_max_per_request x))"

definition grants_network :: "NetworkAuthorityV1 \<Rightarrow> NetworkScopeRefV1 \<Rightarrow> NetworkVerbV1 \<Rightarrow> string \<Rightarrow> bool" where
  "grants_network n s v d \<longleftrightarrow>
     (\<exists>g. n = NetScoped g \<and> s |\<in>| ng_scope_refs g \<and> v |\<in>| ng_allowed_verbs g \<and> d |\<in>| ng_destination_refs g)"

lemma grants_verb_map:
  "distinct (map rg_handle_ref (ac_resources c)) \<Longrightarrow>
     grants_verb (ac_resources c) h v \<longleftrightarrow>
       (\<exists>g. hm_get (resource_map c) h = Some g \<and> v |\<in>| rg_allowed_verbs g)"
  by (auto simp: grants_verb_def resource_map_get)

lemma meet_entry_handle: "meet_entry maps h first g \<Longrightarrow> rg_handle_ref g = h"
  by (auto simp: meet_entry_def meet_resource_def)

lemma intersect_resource_entries_same:
  "intersect_resource_entries maps es = Inr rs \<Longrightarrow> (h, first) \<in> set es \<Longrightarrow>
   those (map (\<lambda>m. hm_get m h) maps) = Some gs \<Longrightarrow> x \<in> set gs \<Longrightarrow>
   \<not> resource_identity_differs first x"
proof (induction es arbitrary: rs)
  case (Cons e es)
  obtain h' first' where e: "e = (h', first')" by (cases e)
  with Cons.prems(1) obtain rs' where "intersect_resource_entries maps es = Inr rs'"
    by (auto simp: res_simps split: if_splits option.splits)
  with Cons.IH [of rs'] Cons.prems e show ?case
    by (auto simp: list_ex_iff split: if_splits)
qed simp

lemma intersect_resources_same:
  assumes "intersect_resources c cs = Inr rs" and "hm_get (resource_map c) h = Some first"
    and "those (map (\<lambda>m. hm_get m h) (map resource_map cs)) = Some gs" and "x \<in> set gs"
  shows "\<not> resource_identity_differs first x"
proof -
  from assms(1) obtain rs' where "intersect_resource_entries (map resource_map cs) (resource_map c) = Inr rs'"
    by (auto simp: intersect_resources_def res_simps)
  moreover from assms(2) have "(h, first) \<in> set (resource_map c)"
    by (simp add: hm_get_pair)
  ultimately show ?thesis using assms(3,4) by (rule intersect_resource_entries_same)
qed

lemma intersect_resources_exact:
  assumes ok: "intersect_resources c cs = Inr rs"
    and dist: "\<And>x. x \<in> set (c # cs) \<Longrightarrow> distinct (map rg_handle_ref (ac_resources x))"
  shows "grants_verb rs h v \<longleftrightarrow> (\<forall>x \<in> set (c # cs). grants_verb (ac_resources x) h v)"
proof
  assume "grants_verb rs h v"
  then obtain g where g: "g \<in> set rs" "rg_handle_ref g = h" "v |\<in>| rg_allowed_verbs g"
    by (auto simp: grants_verb_def)
  then obtain first where f: "hm_get (resource_map c) h = Some first"
    and m: "meet_entry (map resource_map cs) h first g"
    using intersect_resources_mem [OF ok, of g] meet_entry_handle by metis
  then obtain gs where gs: "those (map (\<lambda>x. hm_get (resource_map x) h) cs) = Some gs"
    and "g = meet_resource h first gs" by (auto simp: meet_entry_def comp_def)
  with g(3) have "v |\<in>| rg_allowed_verbs first" "\<forall>y \<in> set gs. v |\<in>| rg_allowed_verbs y"
    by (auto simp: meet_resource_def foldl_inter_member)
  with f gs show "\<forall>x \<in> set (c # cs). grants_verb (ac_resources x) h v"
    using dist those_map_SomeD [OF gs] by (fastforce simp: grants_verb_map)
next
  assume all: "\<forall>x \<in> set (c # cs). grants_verb (ac_resources x) h v"
  then obtain first where f: "hm_get (resource_map c) h = Some first" "v |\<in>| rg_allowed_verbs first"
    using dist by (auto simp: grants_verb_map)
  from all dist have "\<forall>x \<in> set cs. \<exists>y. hm_get (resource_map x) h = Some y \<and> v |\<in>| rg_allowed_verbs y"
    by (simp add: grants_verb_map)
  moreover from this obtain gs where gs: "those (map (\<lambda>x. hm_get (resource_map x) h) cs) = Some gs"
    using those_map_Some_ex [of "\<lambda>x. hm_get (resource_map x) h" cs] by auto
  ultimately have "\<forall>y \<in> set gs. v |\<in>| rg_allowed_verbs y"
    using those_map_set [OF gs] by fastforce
  with f(2) have v: "v |\<in>| rg_allowed_verbs (meet_resource h first gs)"
    by (auto simp: meet_resource_def foldl_inter_member)
  have "meet_entry (map resource_map cs) h first (meet_resource h first gs)"
    using intersect_resources_same [OF ok f(1)] gs v by (auto simp: meet_entry_def comp_def)
  with f(1) v show "grants_verb rs h v"
    unfolding grants_verb_def using intersect_resources_mem [OF ok, of "meet_resource h first gs"]
    by (auto simp: meet_resource_def intro!: bexI [of _ "meet_resource h first gs"])
qed

lemma intersect_effect_bounds_exact:
  assumes dist: "\<And>x. x \<in> set (c # cs) \<Longrightarrow> distinct (map eb_capability (ac_effect_bounds x))"
  shows "grants_capability (intersect_effect_bounds c cs) k b \<longleftrightarrow>
    (\<forall>x \<in> set (c # cs). grants_capability (ac_effect_bounds x) k b)"
proof -
  have map_iff: "grants_capability (ac_effect_bounds x) k b \<longleftrightarrow>
      (\<exists>m. hm_get (bound_map x) k = Some m \<and> budgets_is_subset_of b m)" if "x \<in> set (c # cs)" for x
    using dist [OF that] by (auto simp: grants_capability_def bound_map_get)
  have "grants_capability (intersect_effect_bounds c cs) k b \<longleftrightarrow>
      (\<exists>budget others. hm_get (bound_map c) k = Some budget
        \<and> those (map (\<lambda>x. hm_get (bound_map x) k) cs) = Some others
        \<and> budgets_is_subset_of b (foldl component_min budget others))" (is "?lhs \<longleftrightarrow> ?rhs")
  proof
    assume ?lhs
    then show ?rhs
      by (auto simp: grants_capability_def intersect_effect_bounds_mem)
  next
    assume ?rhs
    then obtain budget others where *: "hm_get (bound_map c) k = Some budget"
      "those (map (\<lambda>x. hm_get (bound_map x) k) cs) = Some others"
      "budgets_is_subset_of b (foldl component_min budget others)" by blast
    then show ?lhs
      by (auto simp: grants_capability_def intersect_effect_bounds_mem
        intro!: bexI [of _ "\<lparr>eb_capability = k, eb_max_per_request = foldl component_min budget others\<rparr>"])
  qed
  also have "\<dots> \<longleftrightarrow> (\<forall>x \<in> set (c # cs). \<exists>m. hm_get (bound_map x) k = Some m \<and> budgets_is_subset_of b m)"
    (is "?rhs \<longleftrightarrow> ?all")
  proof
    assume ?rhs
    then obtain budget others where *: "hm_get (bound_map c) k = Some budget"
      and gs: "those (map (\<lambda>x. hm_get (bound_map x) k) cs) = Some others"
      and "budgets_is_subset_of b (foldl component_min budget others)" by blast
    then show ?all using those_map_SomeD [OF gs] by (fastforce simp: budgets_fold_iff)
  next
    assume all: ?all
    then obtain others where gs: "those (map (\<lambda>x. hm_get (bound_map x) k) cs) = Some others"
      using those_map_Some_ex [of "\<lambda>x. hm_get (bound_map x) k" cs] by fastforce
    with all those_map_set [OF gs] have "\<forall>y \<in> set others. budgets_is_subset_of b y" by fastforce
    with all gs show ?rhs by (auto simp: budgets_fold_iff)
  qed
  finally show ?thesis by (simp add: map_iff)
qed

lemma intersect_network_exact:
  assumes "intersect_network c cs = Inr n"
  shows "grants_network n s v d \<longleftrightarrow> (\<forall>x \<in> set (c # cs). grants_network (ac_network x) s v d)"
proof -
  define ok where "ok g \<longleftrightarrow> s |\<in>| ng_scope_refs g \<and> v |\<in>| ng_allowed_verbs g \<and> d |\<in>| ng_destination_refs g"
    for g :: NetworkGrantV1
  have each: "grants_network (ac_network x) s v d \<longleftrightarrow> (\<exists>g. network_grant (ac_network x) = Some g \<and> ok g)" for x
    by (auto simp: grants_network_def network_grant_def ok_def split: NetworkAuthorityV1.splits)
  show ?thesis
  proof (cases "network_grant (ac_network c)")
    case None
    with assms have "n = NetDenied" by (simp add: intersect_network_def)
    with None show ?thesis by (auto simp: each) (simp add: grants_network_def)
  next
    case (Some first)
    show ?thesis
    proof (cases "those (map (\<lambda>x. network_grant (ac_network x)) cs)")
      case None
      with Some assms have "n = NetDenied" by (simp add: intersect_network_def)
      with None those_map_Some_ex [of "\<lambda>x. network_grant (ac_network x)" cs] show ?thesis
        by (fastforce simp: each simp: grants_network_def [of NetDenied])
    next
      case gs: (Some gs)
      let ?m = "meet_network first gs"
      have "n = NetScoped ?m \<or> n = NetDenied \<and> \<not> ok ?m"
        using assms Some gs by (auto simp: intersect_network_def Let_def ok_def split: if_splits)
      then have "grants_network n s v d \<longleftrightarrow> ok ?m"
        by (auto simp: grants_network_def ok_def)
      also have "\<dots> \<longleftrightarrow> ok first \<and> (\<forall>g \<in> set gs. ok g)"
        by (auto simp: ok_def meet_network_def foldl_inter_member)
      also have "\<dots> \<longleftrightarrow> (\<forall>x \<in> set (c # cs). grants_network (ac_network x) s v d)"
        using Some those_map_SomeD [OF gs] those_map_set [OF gs] by (fastforce simp: each)
      finally show ?thesis .
    qed
  qed
qed

section \<open>The subset check never fails\<close>

lemma check_resource_subset_meet:
  assumes ok: "intersect_resources c cs = Inr rs" and g: "g \<in> set rs" and x: "x \<in> set (c # cs)"
  shows "check_resource_subset
    (map_of (rev (map (\<lambda>grant. (rg_handle_ref grant, grant)) (ac_resources x)))) g = Inr ()"
proof -
  from intersect_resources_mem [OF ok, of g] g obtain h first
    where f: "hm_get (resource_map c) h = Some first"
      and m: "meet_entry (map resource_map cs) h first g" by blast
  then obtain gs where gs: "those (map (\<lambda>x. hm_get (resource_map x) h) cs) = Some gs"
    and geq: "g = meet_resource h first gs"
    and same: "\<forall>y \<in> set gs. \<not> resource_identity_differs first y"
    by (auto simp: meet_entry_def comp_def)
  obtain l where l: "hm_get (resource_map x) h = Some l" and "l = first \<or> l \<in> set gs"
    using x f those_map_SomeD [OF gs] by auto
  with same have id: "\<not> resource_identity_differs first l" by (auto simp: resource_identity_differs_def)
  have le: "rg_allowed_verbs (meet_resource h first gs) |\<subseteq>| rg_allowed_verbs l
      \<and> budgets_is_subset_of (rg_budgets (meet_resource h first gs)) (rg_budgets l)
      \<and> rg_expires_at (meet_resource h first gs) \<le> rg_expires_at l"
    using \<open>l = first \<or> l \<in> set gs\<close>
    by (auto simp: meet_resource_def foldl_inter_member
      intro!: inters.fold_le_start inters.fold_le_member budgets.fold_le_start budgets.fold_le_member
        mins.fold_le_start mins.fold_le_member)
  have "map_of (rev (map (\<lambda>grant. (rg_handle_ref grant, grant)) (ac_resources x))) h = Some l"
    using l by (simp add: resource_map_def hm_get_def map_of_bt_collect)
  with id le show ?thesis
    unfolding geq by (simp add: check_resource_subset_def resource_identity_differs_def meet_resource_def)
qed

lemma check_bound_subset_meet:
  assumes b: "b \<in> set (intersect_effect_bounds c cs)" and x: "x \<in> set (c # cs)"
  shows "check_bound_subset (map_of (rev (map (\<lambda>bound. (eb_capability bound, eb_max_per_request bound))
    (ac_effect_bounds x)))) b = Inr ()"
proof -
  from b obtain budget others where f: "hm_get (bound_map c) (eb_capability b) = Some budget"
    and gs: "those (map (\<lambda>x. hm_get (bound_map x) (eb_capability b)) cs) = Some others"
    and m: "eb_max_per_request b = foldl component_min budget others"
    by (auto simp: intersect_effect_bounds_mem)
  obtain l where "hm_get (bound_map x) (eb_capability b) = Some l" and "l = budget \<or> l \<in> set others"
    using x f those_map_SomeD [OF gs] by auto
  then show ?thesis
    by (auto simp: check_bound_subset_def m bound_map_def hm_get_def map_of_bt_collect
      intro: budgets.fold_le_start budgets.fold_le_member)
qed

lemma network_is_subset_meet:
  assumes "intersect_network c cs = Inr n" and "x \<in> set (c # cs)"
  shows "network_is_subset n (ac_network x)"
proof (cases n)
  case NetDenied
  then show ?thesis by (simp add: network_is_subset_def)
next
  case (NetScoped m)
  with assms(1) obtain first gs where f: "network_grant (ac_network c) = Some first"
    and gs: "those (map (\<lambda>x. network_grant (ac_network x)) cs) = Some gs"
    and m: "m = meet_network first gs"
    and same: "\<forall>g \<in> set gs. ng_context_ref g = ng_context_ref first
      \<and> ng_run_control_ref g = ng_run_control_ref first \<and> ng_host_ref g = ng_host_ref first"
    by (auto simp: intersect_network_def Let_def list_ex_iff split: option.splits if_splits)
  obtain l where l: "network_grant (ac_network x) = Some l" and in_l: "l = first \<or> l \<in> set gs"
    using assms(2) f those_map_SomeD [OF gs] by auto
  from l have "ac_network x = NetScoped l" by (auto simp: network_grant_def split: NetworkAuthorityV1.splits)
  with in_l same NetScoped m show ?thesis
    by (auto simp: network_is_subset_def meet_network_def foldl_inter_member
      intro: budgets.fold_le_start budgets.fold_le_member mins.fold_le_start mins.fold_le_member)
qed

lemma intersect_worlds_subset:
  assumes "intersect_worlds c cs = Inr w" and "x \<in> set (c # cs)"
  shows "wg_world_ref w = wg_world_ref (ac_world x)"
    and "wg_world_identity_digest w = wg_world_identity_digest (ac_world x)"
    and "wg_mounted_resources w |\<subseteq>| wg_mounted_resources (ac_world x)"
    and "wg_executable_resources w |\<subseteq>| wg_executable_resources (ac_world x)"
    and "wg_required_properties (ac_world x) |\<subseteq>| wg_required_properties w"
    and "budgets_is_subset_of (wg_budgets w) (wg_budgets (ac_world x))"
    and "wg_expires_at w \<le> wg_expires_at (ac_world x)"
  using assms
  by (auto simp: intersect_worlds_def Let_def list_ex_iff foldl_inter_member foldl_union_member comp_def
    split: if_splits
    intro: budgets.fold_le_start budgets.fold_le_image mins.fold_le_start mins.fold_le_image)

lemma intersect_worlds_exact:
  assumes "intersect_worlds c cs = Inr w"
  shows "x |\<in>| wg_mounted_resources w \<longleftrightarrow> list_all (\<lambda>c. x |\<in>| wg_mounted_resources (ac_world c)) (c # cs)"
    and "x |\<in>| wg_executable_resources w \<longleftrightarrow> list_all (\<lambda>c. x |\<in>| wg_executable_resources (ac_world c)) (c # cs)"
    and "p |\<in>| wg_required_properties w \<longleftrightarrow> list_ex (\<lambda>c. p |\<in>| wg_required_properties (ac_world c)) (c # cs)"
  using assms
  by (auto simp: intersect_worlds_def Let_def foldl_inter_member foldl_union_member comp_def
    list_all_iff list_ex_iff split: if_splits)

text \<open>The envelope the compiler builds from the intersections, before and with its reference.\<close>

definition built_envelope ::
  "lib \<Rightarrow> EffectEnvelopeCompileRequestV1 \<Rightarrow> AuthorityContextRefV1 \<Rightarrow> ResourceGrantV1 list
    \<Rightarrow> ExecutionWorldGrantV1 \<Rightarrow> NetworkAuthorityV1 \<Rightarrow> EffectEnvelopeV1" where
  "built_envelope L q context_ref resources world network =
     (let envelope = \<lparr>ev_contract_version = EFFECT_AUTHORITY_VERSION, ev_envelope_ref = [],
        ev_compiler_version = COMPILER_VERSION,
        ev_host_policy_snapshot_ref = cq_host_policy_snapshot_ref q, ev_context = cq_context q,
        ev_context_ref = context_ref, ev_run_control_ref = cq_run_control_ref q,
        ev_resources = resources, ev_world = world,
        ev_effect_bounds = intersect_effect_bounds (hd (ceilings_of q)) (tl (ceilings_of q)),
        ev_budgets = foldl component_min (ac_budgets (hd (ceilings_of q)))
          (map ac_budgets (tl (ceilings_of q))),
        ev_network = network, ev_result_contract = cq_result_contract q,
        ev_expires_at = foldl min (ctx_expires_at (cq_context q)) (map ac_expires_at (ceilings_of q))\<rparr>
      in envelope\<lparr>ev_envelope_ref := compute_envelope_ref L envelope\<rparr>)"

lemma built_envelope_subset:
  assumes res: "intersect_resources (hd (ceilings_of q)) (tl (ceilings_of q)) = Inr resources"
    and world: "intersect_worlds (hd (ceilings_of q)) (tl (ceilings_of q)) = Inr world"
    and net: "intersect_network (hd (ceilings_of q)) (tl (ceilings_of q)) = Inr network"
    and valid: "\<And>x. x \<in> set (ceilings_of q) \<Longrightarrow> validate_ceiling x r run host = Inr ()"
    and x: "x \<in> set (ceilings_of q)"
  shows "validate_envelope_subset (built_envelope L q r resources world network) x = Inr ()"
proof -
  have x': "x \<in> set (hd (ceilings_of q) # tl (ceilings_of q))"
    using x by (simp add: ceilings_of_def)
  have "budgets_is_subset_of (foldl component_min (ac_budgets (hd (ceilings_of q)))
      (map ac_budgets (tl (ceilings_of q)))) (ac_budgets x)"
    using x' by (auto intro: budgets.fold_le_start budgets.fold_le_member)
  moreover have "foldl min (ctx_expires_at (cq_context q)) (map ac_expires_at (ceilings_of q)) \<le> ac_expires_at x"
    using x by (auto intro: mins.fold_le_member)
  moreover have "check_resource_subset (map_of (rev (map (\<lambda>grant. (rg_handle_ref grant, grant))
      (ac_resources x)))) g = Inr ()" if "g \<in> set resources" for g
    by (rule check_resource_subset_meet [OF res that x'])
  ultimately show ?thesis
    using check_bound_subset_meet [OF _ x'] network_is_subset_meet [OF net x']
      intersect_worlds_subset [OF world x'] validate_ceiling_distinct(3) [OF valid [OF x]]
    unfolding validate_envelope_subset_def built_envelope_def Let_def
    by (simp add: res_simps not_less)
qed

lemma compile_effect_envelope_iff:
  "compile_effect_envelope L q = Inr envelope \<longleftrightarrow>
     (\<exists>r resources world network.
        AuthorityContextV1_context_ref L (cq_context q) = Inr r
        \<and> validate_id (cq_host_policy_snapshot_ref q) ''Host policy snapshot ref'' = Inr ()
        \<and> list_all (\<lambda>c. validate_ceiling c r (cq_run_control_ref q) (ctx_host_ref (cq_context q)) = Inr ())
            (ceilings_of q)
        \<and> intersect_resources (hd (ceilings_of q)) (tl (ceilings_of q)) = Inr resources
        \<and> intersect_worlds (hd (ceilings_of q)) (tl (ceilings_of q)) = Inr world
        \<and> intersect_network (hd (ceilings_of q)) (tl (ceilings_of q)) = Inr network
        \<and> validate_result_contract (cq_context q) (cq_result_contract q) resources = Inr ()
        \<and> envelope = built_envelope L q r resources world network)" (is "?lhs \<longleftrightarrow> ?rhs")
proof
  assume ?lhs
  then show ?rhs
    unfolding compile_effect_envelope_def built_envelope_def Let_def
    by (auto simp: res_simps list_all_iff)
next
  assume ?rhs
  then obtain r resources world network where
    ctx: "AuthorityContextV1_context_ref L (cq_context q) = Inr r"
    and sn: "validate_id (cq_host_policy_snapshot_ref q) ''Host policy snapshot ref'' = Inr ()"
    and ceil: "list_all (\<lambda>c. validate_ceiling c r (cq_run_control_ref q) (ctx_host_ref (cq_context q)) = Inr ())
      (ceilings_of q)"
    and res: "intersect_resources (hd (ceilings_of q)) (tl (ceilings_of q)) = Inr resources"
    and world: "intersect_worlds (hd (ceilings_of q)) (tl (ceilings_of q)) = Inr world"
    and net: "intersect_network (hd (ceilings_of q)) (tl (ceilings_of q)) = Inr network"
    and contract: "validate_result_contract (cq_context q) (cq_result_contract q) resources = Inr ()"
    and env: "envelope = built_envelope L q r resources world network" by blast
  from ctx have ctx': "AuthorityContextV1_validate L (cq_context q) = Inr ()"
    by (simp add: AuthorityContextV1_context_ref_def res_simps)
  have "try_all (validate_envelope_subset envelope) (ceilings_of q) = Inr ()"
    unfolding env try_all_Inr
    by (intro ballI built_envelope_subset [OF res world net, where run = "cq_run_control_ref q"
        and host = "ctx_host_ref (cq_context q)"]) (use ceil in \<open>auto simp: list_all_iff\<close>)
  moreover have "try_all (\<lambda>c. validate_ceiling c r (cq_run_control_ref q) (ctx_host_ref (cq_context q)))
      (ceilings_of q) = Inr ()" using ceil by (simp add: try_all_Inr list_all_iff)
  ultimately show ?lhs
    using ctx ctx' sn res world net contract env
    unfolding compile_effect_envelope_def built_envelope_def Let_def by simp
qed

section \<open>An example request\<close>

definition ex_context :: AuthorityContextV1 where
  "ex_context = \<lparr>ctx_contract_version = EFFECT_AUTHORITY_VERSION, ctx_bridge_id = ''x'',
     ctx_plan_id = ''x'', ctx_revision_id = ''x'', ctx_revision_hash = ''x'', ctx_approval_id = ''x'',
     ctx_attempt_id = ''x'', ctx_step_id = ''x'', ctx_semantic_operation = SemExecute,
     ctx_participant_ref = PARTICIPANT_REF_PREFIX @ blake3_hex plain_lib (participant_ref_message ''x'' ''host''),
     ctx_host_ref = ''host'', ctx_admission_ref = ''x'', ctx_session_binding_ref = ''x'',
     ctx_input_revisions = [\<lparr>ir_logical_object_id = ''x'', ir_revision = 1, ir_host_ref = ''host''\<rparr>],
     ctx_issued_at = 1, ctx_expires_at = 100\<rparr>"

definition ex_context_ref :: AuthorityContextRefV1 where
  "ex_context_ref = domain_hash plain_lib ''pastey-authority-context-v1'' (context_json ex_context)"

definition ex_budgets :: "u64 \<Rightarrow> EffectBudgetsV1" where
  "ex_budgets n = budgets_default\<lparr>bg_requests := n, bg_read_bytes := 10\<rparr>"

definition ex_grant :: "ResourceVerbV1 fset \<Rightarrow> ResourceGrantV1" where
  "ex_grant vs = \<lparr>rg_handle_ref = ''handle'', rg_context_ref = ex_context_ref, rg_run_control_ref = ''run'',
     rg_host_ref = ''host'', rg_kind = Workspace, rg_safe_identity_ref = ''x'', rg_selector_prefix = ''.'',
     rg_allowed_verbs = vs, rg_budgets = ex_budgets 1, rg_expires_at = 90\<rparr>"

definition ex_world :: ExecutionWorldGrantV1 where
  "ex_world = \<lparr>wg_world_ref = ''world'', wg_context_ref = ex_context_ref, wg_run_control_ref = ''run'',
     wg_world_identity_digest = ''x'', wg_mounted_resources = {||}, wg_executable_resources = {||},
     wg_required_properties = {|NoRawNetwork|}, wg_budgets = budgets_default, wg_expires_at = 90\<rparr>"

definition ex_ceiling :: "ResourceVerbV1 fset \<Rightarrow> AuthorityCeilingV1" where
  "ex_ceiling vs = \<lparr>ac_context_ref = ex_context_ref, ac_source_snapshot_ref = ''x'',
     ac_resources = [ex_grant vs], ac_world = ex_world,
     ac_effect_bounds = [\<lparr>eb_capability = CapResource Read, eb_max_per_request = ex_budgets 1\<rparr>],
     ac_budgets = ex_budgets 2, ac_network = NetDenied, ac_expires_at = 80\<rparr>"

definition ex_compile_request :: EffectEnvelopeCompileRequestV1 where
  "ex_compile_request = \<lparr>cq_context = ex_context, cq_run_control_ref = ''run'',
     cq_semantic_ceiling = ex_ceiling {|Inspect, Read|}, cq_admission_ceiling = ex_ceiling {|Read|},
     cq_host_policy_ceiling = ex_ceiling {|Read, Delete|}, cq_confinement_ceiling = ex_ceiling {|Read|},
     cq_host_policy_snapshot_ref = ''x'', cq_result_contract =
       ResExecute [\<lparr>ir_logical_object_id = ''x'', ir_revision = 1, ir_host_ref = ''host''\<rparr>] ''x''\<rparr>"

definition ex_envelope :: EffectEnvelopeV1 where
  "ex_envelope = built_envelope plain_lib ex_compile_request ex_context_ref [ex_grant {|Read|}] ex_world NetDenied"

lemma validate_id_x [simp]: "validate_id ''x'' l = Inr ()"
proof -
  have "trim ''x'' = ''x''" by code_simp
  then show ?thesis by (simp add: validate_id_def EFFECT_MAX_ID_LEN_def)
qed

lemma ex_context_valid [simp]: "AuthorityContextV1_validate plain_lib ex_context = Inr ()"
proof -
  have "trim ''x'' = ''x''" by code_simp
  then show ?thesis
    by (simp add: AuthorityContextV1_validate_def ex_context_def PlanParticipantRef_for_host_def map_err_def)
qed

lemma ex_context_ref [simp]: "AuthorityContextV1_context_ref plain_lib ex_context = Inr ex_context_ref"
  by (simp add: AuthorityContextV1_context_ref_def ex_context_ref_def)

lemma ex_ceiling_valid [simp]: "validate_ceiling (ex_ceiling vs) ex_context_ref ''run'' ''host'' = Inr ()"
  by (simp add: validate_ceiling_def ex_ceiling_def ex_grant_def ex_world_def validate_ceiling_network_def
    validate_selector_prefix_def validate_relative_selector_def)

lemma component_min_self [simp]: "component_min b b = b"
  by (simp add: component_min_def)

lemma ex_compile: "compile_effect_envelope plain_lib ex_compile_request = Inr ex_envelope"
proof -
  have map: "resource_map (ex_ceiling vs) = [(''handle'', ex_grant vs)]" for vs
    by (simp add: resource_map_def ex_ceiling_def ex_grant_def bt_collect_def)
  have same: "\<not> resource_identity_differs (ex_grant vs) (ex_grant ws)" for vs ws
    by (simp add: resource_identity_differs_def ex_grant_def)
  have meet: "meet_resource ''handle'' (ex_grant {|Inspect, Read|}) [ex_grant {|Read|}, ex_grant {|Read, Delete|},
      ex_grant {|Read|}] = ex_grant {|Read|}"
    by (simp add: meet_resource_def ex_grant_def)
  have verbs: "rg_allowed_verbs (ex_grant {|Read|}) = {|Read|}" by (simp add: ex_grant_def)
  have "intersect_resources (ex_ceiling {|Inspect, Read|}) [ex_ceiling {|Read|}, ex_ceiling {|Read, Delete|},
      ex_ceiling {|Read|}] = Inr [ex_grant {|Read|}]"
    by (simp add: intersect_resources_def map hm_get_def same meet verbs)
  moreover have "intersect_worlds (ex_ceiling {|Inspect, Read|}) [ex_ceiling {|Read|}, ex_ceiling {|Read, Delete|},
      ex_ceiling {|Read|}] = Inr ex_world"
    by (simp add: intersect_worlds_def ex_ceiling_def ex_world_def)
  moreover have "intersect_network (ex_ceiling {|Inspect, Read|}) [ex_ceiling {|Read|}, ex_ceiling {|Read, Delete|},
      ex_ceiling {|Read|}] = Inr NetDenied"
    by (simp add: intersect_network_def ex_ceiling_def network_grant_def)
  moreover have "validate_result_contract ex_context (cq_result_contract ex_compile_request) rs = Inr ()" for rs
    by (simp add: validate_result_contract_def ex_compile_request_def ex_context_def)
  moreover have "ctx_host_ref ex_context = ''host''" by (simp add: ex_context_def)
  ultimately show ?thesis
    unfolding compile_effect_envelope_iff ex_envelope_def
    by (simp add: ceilings_of_def ex_compile_request_def)
qed

section \<open>Properties\<close>

text \<open>C14. The compiler refuses for a reason of its inputs only: it returns an envelope exactly when the
  context and the snapshot reference are valid, each of the four ceilings is valid, the identities of
  the resources, worlds and networks they share agree, and the result contract fits. The final check
  that the envelope widens no ceiling never fires, and the envelope is the one built from the
  intersections, with its own hash as its reference.\<close>

theorem compile_effect_envelope_outcome:
  "is_ok (compile_effect_envelope L q) \<longleftrightarrow>
     (\<exists>r resources.
        AuthorityContextV1_context_ref L (cq_context q) = Inr r
        \<and> is_ok (validate_id (cq_host_policy_snapshot_ref q) ''Host policy snapshot ref'')
        \<and> list_all (\<lambda>c. is_ok (validate_ceiling c r (cq_run_control_ref q) (ctx_host_ref (cq_context q))))
            (ceilings_of q)
        \<and> intersect_resources (hd (ceilings_of q)) (tl (ceilings_of q)) = Inr resources
        \<and> is_ok (intersect_worlds (hd (ceilings_of q)) (tl (ceilings_of q)))
        \<and> is_ok (intersect_network (hd (ceilings_of q)) (tl (ceilings_of q)))
        \<and> is_ok (validate_result_contract (cq_context q) (cq_result_contract q) resources))"
  unfolding is_ok_iff [of "compile_effect_envelope L q"] compile_effect_envelope_iff
  by (auto simp: is_ok_iff)

text \<open>C2. A compiled envelope grants exactly what all four ceilings grant: a verb on a resource handle,
  a capability at a per-request budget, a network verb on a destination in a scope, a mounted or
  executable resource, a total budget, a time of expiry; and it requires every confinement property
  that some ceiling requires.\<close>

theorem envelope_is_exact_intersection:
  assumes "compile_effect_envelope L q = Inr envelope"
  shows "(grants_verb (ev_resources envelope) h v \<longleftrightarrow>
        list_all (\<lambda>c. grants_verb (ac_resources c) h v) (ceilings_of q))
    \<and> (grants_capability (ev_effect_bounds envelope) k b \<longleftrightarrow>
        list_all (\<lambda>c. grants_capability (ac_effect_bounds c) k b) (ceilings_of q))
    \<and> (grants_network (ev_network envelope) s nv d \<longleftrightarrow>
        list_all (\<lambda>c. grants_network (ac_network c) s nv d) (ceilings_of q))
    \<and> (x |\<in>| wg_mounted_resources (ev_world envelope) \<longleftrightarrow>
        list_all (\<lambda>c. x |\<in>| wg_mounted_resources (ac_world c)) (ceilings_of q))
    \<and> (x |\<in>| wg_executable_resources (ev_world envelope) \<longleftrightarrow>
        list_all (\<lambda>c. x |\<in>| wg_executable_resources (ac_world c)) (ceilings_of q))
    \<and> (p |\<in>| wg_required_properties (ev_world envelope) \<longleftrightarrow>
        list_ex (\<lambda>c. p |\<in>| wg_required_properties (ac_world c)) (ceilings_of q))
    \<and> (budgets_is_subset_of b (ev_budgets envelope) \<longleftrightarrow>
        list_all (\<lambda>c. budgets_is_subset_of b (ac_budgets c)) (ceilings_of q))
    \<and> (t \<le> ev_expires_at envelope \<longleftrightarrow>
        t \<le> ctx_expires_at (cq_context q) \<and> list_all (\<lambda>c. t \<le> ac_expires_at c) (ceilings_of q))"
proof -
  from assms obtain r resources world network where
    ceil: "list_all (\<lambda>c. validate_ceiling c r (cq_run_control_ref q) (ctx_host_ref (cq_context q)) = Inr ())
      (ceilings_of q)"
    and res: "intersect_resources (hd (ceilings_of q)) (tl (ceilings_of q)) = Inr resources"
    and world: "intersect_worlds (hd (ceilings_of q)) (tl (ceilings_of q)) = Inr world"
    and net: "intersect_network (hd (ceilings_of q)) (tl (ceilings_of q)) = Inr network"
    and env: "envelope = built_envelope L q r resources world network"
    unfolding compile_effect_envelope_iff by blast
  have cons: "hd (ceilings_of q) # tl (ceilings_of q) = ceilings_of q" by (simp add: ceilings_of_def)
  have dist: "distinct (map rg_handle_ref (ac_resources x))"
    "distinct (map eb_capability (ac_effect_bounds x))" if "x \<in> set (ceilings_of q)" for x
    using that ceil validate_ceiling_distinct by (auto simp: list_all_iff)
  have "grants_verb resources h v \<longleftrightarrow> list_all (\<lambda>c. grants_verb (ac_resources c) h v) (ceilings_of q)"
    using intersect_resources_exact [OF res, unfolded cons] dist(1) by (simp add: list_all_iff)
  moreover have "grants_capability (ev_effect_bounds envelope) k b \<longleftrightarrow>
      list_all (\<lambda>c. grants_capability (ac_effect_bounds c) k b) (ceilings_of q)"
    using intersect_effect_bounds_exact [of "hd (ceilings_of q)" "tl (ceilings_of q)", unfolded cons] dist(2)
    by (simp add: env built_envelope_def list_all_iff)
  moreover have "grants_network network s nv d \<longleftrightarrow>
      list_all (\<lambda>c. grants_network (ac_network c) s nv d) (ceilings_of q)"
    using intersect_network_exact [OF net, unfolded cons] by (simp add: list_all_iff)
  moreover have "budgets_is_subset_of b (ev_budgets envelope) \<longleftrightarrow>
      list_all (\<lambda>c. budgets_is_subset_of b (ac_budgets c)) (hd (ceilings_of q) # tl (ceilings_of q))"
    by (simp add: env built_envelope_def budgets_fold_iff list_all_iff)
  moreover have "t \<le> ev_expires_at envelope \<longleftrightarrow>
      t \<le> ctx_expires_at (cq_context q) \<and> list_all (\<lambda>c. t \<le> ac_expires_at c) (ceilings_of q)"
    by (simp add: env built_envelope_def min_fold_iff list_all_iff)
  moreover have "ev_resources envelope = resources" "ev_world envelope = world" "ev_network envelope = network"
    by (simp_all add: env built_envelope_def Let_def)
  ultimately show ?thesis
    using intersect_worlds_exact [OF world] by (simp only: cons)
qed

theorem envelope_is_exact_intersection_witness:
  "\<exists>envelope. compile_effect_envelope plain_lib ex_compile_request = Inr envelope
     \<and> grants_verb (ev_resources envelope) ''handle'' Read
     \<and> \<not> grants_verb (ev_resources envelope) ''handle'' Delete
     \<and> grants_capability (ev_effect_bounds envelope) (CapResource Read) (ex_budgets 1)
     \<and> NoRawNetwork |\<in>| wg_required_properties (ev_world envelope)
     \<and> \<not> 81 \<le> ev_expires_at envelope"
proof -
  have req: "ceilings_of ex_compile_request = [ex_ceiling {|Inspect, Read|}, ex_ceiling {|Read|},
      ex_ceiling {|Read, Delete|}, ex_ceiling {|Read|}]"
    by (simp add: ceilings_of_def ex_compile_request_def)
  have verb: "grants_verb (ac_resources (ex_ceiling vs)) ''handle'' v \<longleftrightarrow> v |\<in>| vs" for vs v
    by (simp add: grants_verb_def ex_ceiling_def ex_grant_def)
  have cap: "grants_capability (ac_effect_bounds (ex_ceiling vs)) (CapResource Read) (ex_budgets 1)" for vs
    by (simp add: grants_capability_def ex_ceiling_def budgets.le_refl)
  have ceil: "NoRawNetwork |\<in>| wg_required_properties (ac_world (ex_ceiling vs))" "ac_expires_at (ex_ceiling vs) = 80" for vs
    by (simp_all add: ex_ceiling_def ex_world_def)
  show ?thesis
    using envelope_is_exact_intersection [OF ex_compile, unfolded req] ex_compile
    by (auto simp: verb cap ceil)
qed

text \<open>An envelope reference names one envelope: under faithful JSON and no hash collision between the
  two hashed materials, two envelopes have the same computed reference exactly when all their fields
  other than the reference itself are equal.\<close>

theorem envelope_ref_binds:
  assumes "json_faithful L"
    and "collision_free L {domain_hash_input L ''pastey-effect-envelope-v1'' (envelope_hash_material a),
      domain_hash_input L ''pastey-effect-envelope-v1'' (envelope_hash_material b)}"
  shows "compute_envelope_ref L a = compute_envelope_ref L b \<longleftrightarrow>
    a\<lparr>ev_envelope_ref := []\<rparr> = b\<lparr>ev_envelope_ref := []\<rparr>"
  unfolding compute_envelope_ref_def
  by (simp add: domain_hash_inj [OF assms] envelope_hash_material_inj)

theorem envelope_ref_binds_witness:
  "compute_envelope_ref plain_lib ex_envelope \<noteq>
   compute_envelope_ref plain_lib (ex_envelope\<lparr>ev_expires_at := ev_expires_at ex_envelope + 1\<rparr>)"
proof -
  let ?b = "ex_envelope\<lparr>ev_expires_at := ev_expires_at ex_envelope + 1\<rparr>"
  have "ev_expires_at (ex_envelope\<lparr>ev_envelope_ref := []\<rparr>) \<noteq> ev_expires_at (?b\<lparr>ev_envelope_ref := []\<rparr>)"
    by simp
  then have "ex_envelope\<lparr>ev_envelope_ref := []\<rparr> \<noteq> ?b\<lparr>ev_envelope_ref := []\<rparr>" by metis
  then show ?thesis
    using envelope_ref_binds [OF json_faithful_plain_lib collision_free_plain_lib, of ex_envelope ?b] by blast
qed

end
