(* ===== verification/Effect_Authority.thy ===== *)
theory Effect_Authority
  imports Effect_Envelope
begin

text \<open>
  The process-local authority of \<^verbatim>\<open>effect_authority.rs\<close>: lowering of tool requests, the operations of
  \<open>EffectAuthorityStateV1\<close>, and \<open>enforce\<close>, the only operation that calls a Host backend.

  An operation that takes \<^verbatim>\<open>&mut self\<close> returns its result with the next state, which is also
  defined when the result is an error: \<open>enforce\<close> fails after it claimed an intent, for instance. A
  backend is a function on a state of its own. The counter \<^verbatim>\<open>next_request_sequence += 1\<close> wraps as in a
  release build. The theorems about these operations are in \<open>Effect_Safety\<close>.
\<close>

section \<open>Lowering of tool requests\<close>

fun lower_intents ::
  "lib \<Rightarrow> StepWorkDescriptorV1 \<Rightarrow> ToolRequestV1 \<Rightarrow> nat \<Rightarrow> ToolEffectIntentV1 list
    \<Rightarrow> effect_error + EffectRequestV1 list" where
  "lower_intents L descriptor tool_request offset [] = Inr []"
| "lower_intents L descriptor tool_request offset (intent # rest) =
     and_then (ok_or (checked_add (sd_first_sequence descriptor) (of_nat offset))
       (InvalidInput ''Effect request sequence overflowed.'')) (\<lambda>sequence.
     let request = \<lparr>rq_contract_version = EFFECT_AUTHORITY_VERSION,
           rq_request_id = [],
           rq_envelope_ref = sd_envelope_ref descriptor,
           rq_run_control_ref = sd_run_control_ref descriptor,
           rq_context = sd_context descriptor,
           rq_sequence = sequence,
           rq_adapter_version_ref = tr_adapter_version_ref tool_request,
           rq_effect = ti_effect intent,
           rq_requested_budget_slice = ti_requested_budget_slice intent,
           rq_preconditions = ti_preconditions intent\<rparr>;
         request = request\<lparr>rq_request_id := compute_request_id L request\<rparr> in
     and_then (lower_intents L descriptor tool_request (Suc offset) rest) (\<lambda>lowered.
     Inr (request # lowered)))"

definition lower_tool_request ::
  "lib \<Rightarrow> StepWorkDescriptorV1 \<Rightarrow> ToolRequestV1 \<Rightarrow> effect_error + EffectRequestV1 list" where
  "lower_tool_request L descriptor tool_request =
     and_then (ensure (\<not> (sd_contract_version descriptor \<noteq> EFFECT_AUTHORITY_VERSION
         \<or> tr_intents tool_request = []))
       (InvalidInput ''Tool lowering contract is unavailable or empty.'')) (\<lambda>_.
     and_then (AuthorityContextV1_validate L (sd_context descriptor)) (\<lambda>_.
     and_then (validate_id (tr_tool_name tool_request) ''tool diagnostic name'') (\<lambda>_.
     and_then (validate_id (tr_adapter_version_ref tool_request) ''tool adapter version'') (\<lambda>_.
     lower_intents L descriptor tool_request 0 (tr_intents tool_request)))))"

section \<open>Derived references\<close>

definition execution_world_ref_for ::
  "lib \<Rightarrow> ManagedRunDraftV1 \<Rightarrow> string \<Rightarrow> effect_error + ExecutionWorldRefV1" where
  "execution_world_ref_for L draft world_identity_digest =
     and_then (validate_id world_identity_digest ''execution world identity'') (\<lambda>_.
     Inr (domain_hash L ''pastey-execution-world-v1''
       (JArr [JStr (dr_context_ref draft), JStr (dr_run_control_ref draft), JStr world_identity_digest])))"

definition network_scope_ref_for_context ::
  "lib \<Rightarrow> AuthorityContextRefV1 \<Rightarrow> ManagedRunRefV1 \<Rightarrow> HostRef \<Rightarrow> string \<Rightarrow> effect_error + NetworkScopeRefV1" where
  "network_scope_ref_for_context L context_ref run_control_ref host_ref canonical_scope_digest =
     and_then (validate_id canonical_scope_digest ''network scope descriptor'') (\<lambda>_.
     Inr (domain_hash L ''pastey-network-scope-v1''
       (JArr [JStr context_ref, JStr run_control_ref, JStr host_ref, JStr canonical_scope_digest])))"

definition network_scope_ref_for ::
  "lib \<Rightarrow> ManagedRunDraftV1 \<Rightarrow> string \<Rightarrow> effect_error + NetworkScopeRefV1" where
  "network_scope_ref_for L draft canonical_scope_digest =
     network_scope_ref_for_context L (dr_context_ref draft) (dr_run_control_ref draft)
       (ctx_host_ref (dr_context draft)) canonical_scope_digest"

definition network_destination_ref_for_context ::
  "lib \<Rightarrow> AuthorityContextRefV1 \<Rightarrow> ManagedRunRefV1 \<Rightarrow> HostRef \<Rightarrow> string \<Rightarrow> effect_error + string" where
  "network_destination_ref_for_context L context_ref run_control_ref host_ref canonical_destination_digest =
     and_then (validate_id canonical_destination_digest ''network destination descriptor'') (\<lambda>_.
     Inr (domain_hash L ''pastey-network-destination-v1''
       (JArr [JStr context_ref, JStr run_control_ref, JStr host_ref, JStr canonical_destination_digest])))"

definition network_destination_ref_for ::
  "lib \<Rightarrow> ManagedRunDraftV1 \<Rightarrow> string \<Rightarrow> effect_error + string" where
  "network_destination_ref_for L draft canonical_destination_digest =
     network_destination_ref_for_context L (dr_context_ref draft) (dr_run_control_ref draft)
       (ctx_host_ref (dr_context draft)) canonical_destination_digest"

section \<open>Runs\<close>

definition with_evidence_key :: "byte list \<Rightarrow> EffectAuthorityStateV1" where
  "with_evidence_key evidence_key =
     \<lparr>st_envelopes = [], st_runs = [], st_resources = [], st_intents = [], st_evidence = [],
      st_next_run_nonce = 0, st_next_handle_nonce = 0, st_evidence_key = evidence_key\<rparr>"

definition begin_run ::
  "lib \<Rightarrow> AuthorityContextV1 \<Rightarrow> EffectAuthorityStateV1
    \<Rightarrow> (effect_error + ManagedRunDraftV1) \<times> EffectAuthorityStateV1" where
  "begin_run L context st =
     (case AuthorityContextV1_context_ref L context of
        Inl e \<Rightarrow> (Inl e, st)
      | Inr context_ref \<Rightarrow>
          (case checked_add (st_next_run_nonce st) 1 of
             None \<Rightarrow> (invalid ''Managed run identity overflowed.'', st)
           | Some nonce \<Rightarrow>
               (Inr \<lparr>dr_context = context, dr_context_ref = context_ref,
                  dr_run_control_ref = domain_hash L ''pastey-managed-run-v1''
                    (JArr [JStr context_ref, ju64 nonce])\<rparr>,
                st\<lparr>st_next_run_nonce := nonce\<rparr>)))"

definition validate_grant_spec :: "ManagedRunDraftV1 \<Rightarrow> ResourceGrantSpecV1 \<Rightarrow> effect_error + unit" where
  "validate_grant_spec draft spec =
     and_then (validate_id (gs_safe_identity_ref spec) ''safe identity ref'') (\<lambda>_.
     and_then (validate_selector_prefix (gs_selector_prefix spec)) (\<lambda>_.
     and_then (ensure (\<not> (gs_host_ref spec \<noteq> ctx_host_ref (dr_context draft)
         \<or> gs_expires_at spec > ctx_expires_at (dr_context draft)
         \<or> gs_expires_at spec \<le> ctx_issued_at (dr_context draft)
         \<or> gs_allowed_verbs spec = {||}))
       (InvalidInput ''Resource grant specification widens its run context.'')) (\<lambda>_.
     ensure (\<not> (gs_kind spec = ManagedRevision \<and> \<not> gs_allowed_verbs spec |\<subseteq>| {|Inspect, Read|}))
       (InvalidInput ''Managed revision handles are immutable authority roots.''))))"

definition mint_resource_grant ::
  "lib \<Rightarrow> ManagedRunDraftV1 \<Rightarrow> ResourceGrantSpecV1 \<Rightarrow> EffectAuthorityStateV1
    \<Rightarrow> (effect_error + ResourceGrantV1) \<times> EffectAuthorityStateV1" where
  "mint_resource_grant L draft spec st =
     (case validate_grant_spec draft spec of
        Inl e \<Rightarrow> (Inl e, st)
      | Inr _ \<Rightarrow>
          (case checked_add (st_next_handle_nonce st) 1 of
             None \<Rightarrow> (invalid ''Resource handle identity overflowed.'', st)
           | Some nonce \<Rightarrow>
               (Inr \<lparr>rg_handle_ref = domain_hash L ''pastey-resource-handle-v1''
                    (JArr [JStr (dr_context_ref draft), JStr (dr_run_control_ref draft), ju64 nonce,
                      resource_kind_json (gs_kind spec), JStr (gs_safe_identity_ref spec)]),
                  rg_context_ref = dr_context_ref draft,
                  rg_run_control_ref = dr_run_control_ref draft,
                  rg_host_ref = gs_host_ref spec,
                  rg_kind = gs_kind spec,
                  rg_safe_identity_ref = gs_safe_identity_ref spec,
                  rg_selector_prefix = gs_selector_prefix spec,
                  rg_allowed_verbs = gs_allowed_verbs spec,
                  rg_budgets = gs_budgets spec,
                  rg_expires_at = gs_expires_at spec\<rparr>,
                st\<lparr>st_next_handle_nonce := nonce\<rparr>)))"

definition install_envelope ::
  "lib \<Rightarrow> ManagedRunDraftV1 \<Rightarrow> EffectEnvelopeV1 \<Rightarrow> EffectAuthorityStateV1
    \<Rightarrow> (effect_error + unit) \<times> EffectAuthorityStateV1" where
  "install_envelope L draft envelope st =
     (if ev_contract_version envelope \<noteq> EFFECT_AUTHORITY_VERSION
        \<or> ev_context envelope \<noteq> dr_context draft
        \<or> ev_context_ref envelope \<noteq> dr_context_ref draft
        \<or> ev_run_control_ref envelope \<noteq> dr_run_control_ref draft
        \<or> compute_envelope_ref L envelope \<noteq> ev_envelope_ref envelope
        \<or> hm_contains (st_envelopes st) (ev_envelope_ref envelope)
        \<or> hm_contains (st_runs st) (ev_run_control_ref envelope)
      then (invalid ''Effect envelope installation is stale, forged, or duplicated.'', st)
      else if list_ex (\<lambda>grant. hm_contains (st_resources st) (rg_handle_ref grant)) (ev_resources envelope)
      then (invalid ''Resource handle is already owned by another envelope.'', st)
      else (Inr (), st\<lparr>
        st_resources := foldl (\<lambda>m grant. hm_insert (rg_handle_ref grant)
            \<lparr>rr_grant = grant, rr_envelope_ref = ev_envelope_ref envelope, rr_revoked = False\<rparr> m)
          (st_resources st) (ev_resources envelope),
        st_runs := hm_insert (ev_run_control_ref envelope)
          \<lparr>mr_contract_version = EFFECT_AUTHORITY_VERSION,
           mr_run_control_ref = ev_run_control_ref envelope,
           mr_context_ref = ev_context_ref envelope,
           mr_envelope_ref = ev_envelope_ref envelope,
           mr_state = Created,
           mr_next_request_sequence = 0,
           mr_cumulative_budget_debits = budgets_default,
           mr_expires_at = ev_expires_at envelope\<rparr> (st_runs st),
        st_envelopes := hm_insert (ev_envelope_ref envelope) envelope (st_envelopes st)\<rparr>))"

definition revoke_run_resources :: "ManagedRunRefV1 \<Rightarrow> EffectAuthorityStateV1 \<Rightarrow> EffectAuthorityStateV1" where
  "revoke_run_resources run_ref st =
     st\<lparr>st_resources := hm_map_values (\<lambda>record.
       if rg_run_control_ref (rr_grant record) = run_ref then record\<lparr>rr_revoked := True\<rparr> else record)
       (st_resources st)\<rparr>"

text \<open>\<^verbatim>\<open>let run = self.run_mut(run_ref)?; ...; run.state = s;\<close>\<close>

definition set_run_state ::
  "ManagedRunRefV1 \<Rightarrow> ManagedRunStateV1 \<Rightarrow> EffectAuthorityStateV1 \<Rightarrow> EffectAuthorityStateV1" where
  "set_run_state run_ref s st =
     st\<lparr>st_runs := hm_modify run_ref (\<lambda>run. run\<lparr>mr_state := s\<rparr>) (st_runs st)\<rparr>"

definition run_mut :: "ManagedRunRefV1 \<Rightarrow> EffectAuthorityStateV1 \<Rightarrow> effect_error + ManagedRunControlV1" where
  "run_mut run_ref st =
     ok_or (hm_get (st_runs st) run_ref) (InvalidInput ''Managed run authority is unavailable.'')"

definition activate_run ::
  "ManagedRunRefV1 \<Rightarrow> int \<Rightarrow> EffectAuthorityStateV1 \<Rightarrow> (effect_error + unit) \<times> EffectAuthorityStateV1" where
  "activate_run run_ref now st =
     (case run_mut run_ref st of
        Inl e \<Rightarrow> (Inl e, st)
      | Inr run \<Rightarrow>
          if mr_state run \<noteq> Created \<or> now \<ge> mr_expires_at run
          then (invalid ''Only an unexpired created managed run may activate.'', st)
          else (Inr (), set_run_state run_ref Active st))"

definition cancel_run ::
  "ManagedRunRefV1 \<Rightarrow> EffectAuthorityStateV1 \<Rightarrow> (effect_error + unit) \<times> EffectAuthorityStateV1" where
  "cancel_run run_ref st =
     (case run_mut run_ref st of
        Inl e \<Rightarrow> (Inl e, st)
      | Inr run \<Rightarrow>
          if mr_state run \<noteq> Active
          then (invalid ''Only an active managed run may begin cancellation.'', st)
          else (Inr (), revoke_run_resources run_ref (set_run_state run_ref Cancelling st)))"

definition cancel_run_or_confirm_terminal ::
  "ManagedRunRefV1 \<Rightarrow> EffectAuthorityStateV1 \<Rightarrow> (effect_error + unit) \<times> EffectAuthorityStateV1" where
  "cancel_run_or_confirm_terminal run_ref st =
     (case hm_get (st_runs st) run_ref of
        None \<Rightarrow> (invalid ''Managed run is unavailable.'', st)
      | Some run \<Rightarrow>
          (case mr_state run of
             Active \<Rightarrow> cancel_run run_ref st
           | Created \<Rightarrow> (invalid ''Only an activated managed run may settle cancellation.'', st)
           | _ \<Rightarrow> (Inr (), st)))"

definition finish_run ::
  "ManagedRunRefV1 \<Rightarrow> EffectAuthorityStateV1 \<Rightarrow> (effect_error + unit) \<times> EffectAuthorityStateV1" where
  "finish_run run_ref st =
     (case run_mut run_ref st of
        Inl e \<Rightarrow> (Inl e, st)
      | Inr run \<Rightarrow>
          if \<not> (mr_state run = Active \<or> mr_state run = Cancelling)
          then (invalid ''Only an active or cancelling managed run may finish.'', st)
          else (Inr (), revoke_run_resources run_ref (set_run_state run_ref Finished st)))"

definition complete_run_authoritatively ::
  "ManagedRunRefV1 \<Rightarrow> EffectAuthorityStateV1 \<Rightarrow> (effect_error + unit) \<times> EffectAuthorityStateV1" where
  "complete_run_authoritatively run_ref st =
     (case run_mut run_ref st of
        Inl e \<Rightarrow> (Inl e, st)
      | Inr run \<Rightarrow>
          if mr_state run \<noteq> Active
          then (invalid ''Only an active managed run may complete authoritatively.'', st)
          else (Inr (), revoke_run_resources run_ref (set_run_state run_ref Finished st)))"

definition revoke_run ::
  "ManagedRunRefV1 \<Rightarrow> EffectAuthorityStateV1 \<Rightarrow> (effect_error + unit) \<times> EffectAuthorityStateV1" where
  "revoke_run run_ref st =
     (case run_mut run_ref st of
        Inl e \<Rightarrow> (Inl e, st)
      | Inr run \<Rightarrow>
          if run_terminal (mr_state run)
          then (invalid ''Terminal managed runs cannot be reopened or transitioned.'', st)
          else (Inr (), revoke_run_resources run_ref (set_run_state run_ref Revoked st)))"

definition interrupt_run ::
  "ManagedRunRefV1 \<Rightarrow> EffectAuthorityStateV1 \<Rightarrow> (effect_error + unit) \<times> EffectAuthorityStateV1" where
  "interrupt_run run_ref st =
     (case run_mut run_ref st of
        Inl e \<Rightarrow> (Inl e, st)
      | Inr run \<Rightarrow>
          if run_terminal (mr_state run)
          then (invalid ''Terminal managed runs cannot be interrupted again.'', st)
          else (Inr (), revoke_run_resources run_ref (set_run_state run_ref Interrupted st)))"

definition run_refs_for_session :: "string \<Rightarrow> EffectAuthorityStateV1 \<Rightarrow> ManagedRunRefV1 fset" where
  "run_refs_for_session session_binding_ref st =
     fset_of_list (map ev_run_control_ref
       (filter (\<lambda>envelope. ctx_session_binding_ref (ev_context envelope) = session_binding_ref)
         (hm_values (st_envelopes st))))"

definition revoke_one :: "EffectAuthorityStateV1 \<Rightarrow> ManagedRunRefV1 \<Rightarrow> EffectAuthorityStateV1" where
  "revoke_one st run_ref =
     revoke_run_resources run_ref
       (st\<lparr>st_runs := hm_modify run_ref (\<lambda>run.
          if run_terminal (mr_state run) then run else run\<lparr>mr_state := Revoked\<rparr>) (st_runs st)\<rparr>)"

definition revoke_many :: "ManagedRunRefV1 list \<Rightarrow> EffectAuthorityStateV1 \<Rightarrow> EffectAuthorityStateV1" where
  "revoke_many run_refs st = foldl revoke_one st run_refs"

definition revoke_bridge :: "string \<Rightarrow> EffectAuthorityStateV1 \<Rightarrow> EffectAuthorityStateV1" where
  "revoke_bridge bridge_id st =
     revoke_many (map ev_run_control_ref
       (filter (\<lambda>envelope. ctx_bridge_id (ev_context envelope) = bridge_id) (hm_values (st_envelopes st)))) st"

definition revoke_session :: "string \<Rightarrow> EffectAuthorityStateV1 \<Rightarrow> EffectAuthorityStateV1" where
  "revoke_session session_binding_ref st =
     revoke_many (map ev_run_control_ref
       (filter (\<lambda>envelope. ctx_session_binding_ref (ev_context envelope) = session_binding_ref)
         (hm_values (st_envelopes st)))) st"

definition revoke_all :: "EffectAuthorityStateV1 \<Rightarrow> EffectAuthorityStateV1" where
  "revoke_all st = revoke_many (hm_keys (st_runs st)) st"

section \<open>Checks of a request and of attachments\<close>

text \<open>The lifecycle conditions every check repeats: the Bridge is active and not burned, disconnected
  or restarted, and the execution freshness is the one of the context and unexpired.\<close>

definition lifecycle_mismatch :: "AuthorityContextV1 \<Rightarrow> CurrentHostAuthorityV1 \<Rightarrow> bool" where
  "lifecycle_mismatch context current \<longleftrightarrow>
     \<not> ch_bridge_active current
     \<or> ch_burned current
     \<or> ch_disconnected current
     \<or> ch_restarted current
     \<or> ch_now current \<ge> ctx_expires_at context
     \<or> freshness_authority_ref (ch_execution_freshness current) \<noteq> ctx_session_binding_ref context
     \<or> freshness_bridge_id (ch_execution_freshness current) \<noteq> ctx_bridge_id context
     \<or> freshness_local_host_ref (ch_execution_freshness current) \<noteq> ctx_host_ref context
     \<or> freshness_expires_at (ch_execution_freshness current) \<le> ch_now current"

definition validate_exact_request_context ::
  "lib \<Rightarrow> EffectRequestV1 \<Rightarrow> CurrentHostAuthorityV1 \<Rightarrow> EffectAuthorityStateV1 \<Rightarrow> effect_error + unit" where
  "validate_exact_request_context L request current st =
     and_then (ensure (\<not> (rq_contract_version request \<noteq> EFFECT_AUTHORITY_VERSION
         \<or> \<not> is_ok (AuthorityContextV1_validate L (rq_context request))
         \<or> compute_request_id L request \<noteq> rq_request_id request))
       (InvalidInput ''Effect request version, context, or identity is invalid.'')) (\<lambda>_.
     and_then (ok_or (hm_get (st_envelopes st) (rq_envelope_ref request))
       (InvalidInput ''Effect envelope is unavailable.'')) (\<lambda>envelope.
     and_then (ok_or (hm_get (st_runs st) (rq_run_control_ref request))
       (InvalidInput ''Managed run is unavailable.'')) (\<lambda>run.
     ensure (\<not> (rq_context request \<noteq> ev_context envelope
         \<or> rq_run_control_ref request \<noteq> ev_run_control_ref envelope
         \<or> mr_envelope_ref run \<noteq> rq_envelope_ref request
         \<or> mr_context_ref run \<noteq> ev_context_ref envelope
         \<or> lifecycle_mismatch (rq_context request) current))
       (InvalidInput ''Effect request context, Host, session, or lifecycle is mismatched.''))))"

definition validate_resource_attachment ::
  "lib \<Rightarrow> ResourceHandleRefV1 \<Rightarrow> ResourceKindV1 \<Rightarrow> EffectEnvelopeRefV1 \<Rightarrow> ManagedRunRefV1
    \<Rightarrow> AuthorityContextV1 \<Rightarrow> CurrentHostAuthorityV1 \<Rightarrow> EffectAuthorityStateV1
    \<Rightarrow> effect_error + ResourceGrantV1" where
  "validate_resource_attachment L handle_ref expected_kind envelope_ref run_control_ref context current st =
     and_then (ok_or (hm_get (st_envelopes st) envelope_ref)
       (InvalidInput ''Effect envelope is unavailable.'')) (\<lambda>envelope.
     and_then (ok_or (hm_get (st_runs st) run_control_ref)
       (InvalidInput ''Managed run is unavailable.'')) (\<lambda>run.
     and_then (ok_or (hm_get (st_resources st) handle_ref)
       (InvalidInput ''Resource handle is unavailable.'')) (\<lambda>record.
     and_then (ensure (\<not> (\<not> is_ok (AuthorityContextV1_validate L context)
         \<or> context \<noteq> ev_context envelope
         \<or> ev_run_control_ref envelope \<noteq> run_control_ref
         \<or> mr_envelope_ref run \<noteq> envelope_ref
         \<or> mr_context_ref run \<noteq> ev_context_ref envelope
         \<or> mr_state run \<noteq> Active
         \<or> rr_revoked record
         \<or> rr_envelope_ref record \<noteq> envelope_ref
         \<or> rg_context_ref (rr_grant record) \<noteq> ev_context_ref envelope
         \<or> rg_run_control_ref (rr_grant record) \<noteq> run_control_ref
         \<or> rg_host_ref (rr_grant record) \<noteq> ctx_host_ref context
         \<or> rg_kind (rr_grant record) \<noteq> expected_kind
         \<or> rg_expires_at (rr_grant record) \<le> ch_now current
         \<or> ch_now current \<ge> mr_expires_at run
         \<or> lifecycle_mismatch context current))
       (InvalidInput ''Resource attachment context, Host, session, run, or lifecycle is mismatched.''))
       (\<lambda>_. Inr (rr_grant record)))))"

definition bounded_resource_verbs :: "EffectEnvelopeV1 \<Rightarrow> ResourceVerbV1 fset" where
  "bounded_resource_verbs envelope =
     fset_of_list (List.map_filter (\<lambda>bound. case eb_capability bound of CapResource v \<Rightarrow> Some v | _ \<Rightarrow> None)
       (ev_effect_bounds envelope))"

definition validate_resource_projection_attachment ::
  "lib \<Rightarrow> ResourceHandleRefV1 \<Rightarrow> ResourceKindV1 \<Rightarrow> EffectEnvelopeRefV1 \<Rightarrow> ManagedRunRefV1
    \<Rightarrow> AuthorityContextV1 \<Rightarrow> CurrentHostAuthorityV1 \<Rightarrow> EffectAuthorityStateV1
    \<Rightarrow> effect_error + ResourceGrantV1 \<times> ResourceVerbV1 fset" where
  "validate_resource_projection_attachment L handle_ref expected_kind envelope_ref run_control_ref context
     current st =
     and_then (validate_resource_attachment L handle_ref expected_kind envelope_ref run_control_ref
       context current st) (\<lambda>grant.
     and_then (ok_or (hm_get (st_envelopes st) envelope_ref)
       (InvalidInput ''Effect envelope is unavailable.'')) (\<lambda>envelope.
     Inr (grant, rg_allowed_verbs grant |\<inter>| bounded_resource_verbs envelope)))"

fun collect_world_grants ::
  "EffectEnvelopeRefV1 \<Rightarrow> AuthorityContextRefV1 \<Rightarrow> ManagedRunRefV1 \<Rightarrow> HostRef \<Rightarrow> int
    \<Rightarrow> (ResourceHandleRefV1, ResourceAuthorityRecordV1) hmap \<Rightarrow> ResourceHandleRefV1 list
    \<Rightarrow> effect_error + ResourceGrantV1 list" where
  "collect_world_grants envelope_ref context_ref run_control_ref host_ref now resources [] = Inr []"
| "collect_world_grants envelope_ref context_ref run_control_ref host_ref now resources (handle # rest) =
     and_then (ok_or (hm_get resources handle)
       (InvalidInput ''Execution world resource is unavailable.'')) (\<lambda>record.
     and_then (ensure (\<not> (rr_revoked record
         \<or> rr_envelope_ref record \<noteq> envelope_ref
         \<or> rg_context_ref (rr_grant record) \<noteq> context_ref
         \<or> rg_run_control_ref (rr_grant record) \<noteq> run_control_ref
         \<or> rg_host_ref (rr_grant record) \<noteq> host_ref
         \<or> rg_expires_at (rr_grant record) \<le> now))
       (InvalidInput ''Execution world resource attachment is stale or mismatched.'')) (\<lambda>_.
     and_then (collect_world_grants envelope_ref context_ref run_control_ref host_ref now resources rest)
       (\<lambda>grants. Inr (rr_grant record # grants))))"

definition validate_execution_world_attachment ::
  "lib \<Rightarrow> ExecutionWorldRefV1 \<Rightarrow> EffectEnvelopeRefV1 \<Rightarrow> ManagedRunRefV1 \<Rightarrow> AuthorityContextV1
    \<Rightarrow> CurrentHostAuthorityV1 \<Rightarrow> EffectAuthorityStateV1
    \<Rightarrow> effect_error + ExecutionWorldGrantV1 \<times> ResourceGrantV1 list" where
  "validate_execution_world_attachment L world_ref envelope_ref run_control_ref context current st =
     and_then (ok_or (hm_get (st_envelopes st) envelope_ref)
       (InvalidInput ''Effect envelope is unavailable.'')) (\<lambda>envelope.
     and_then (ok_or (hm_get (st_runs st) run_control_ref)
       (InvalidInput ''Managed run is unavailable.'')) (\<lambda>run.
     and_then (ensure (\<not> (\<not> is_ok (AuthorityContextV1_validate L context)
         \<or> context \<noteq> ev_context envelope
         \<or> ev_run_control_ref envelope \<noteq> run_control_ref
         \<or> mr_envelope_ref run \<noteq> envelope_ref
         \<or> mr_context_ref run \<noteq> ev_context_ref envelope
         \<or> mr_state run \<noteq> Active
         \<or> wg_world_ref (ev_world envelope) \<noteq> world_ref
         \<or> wg_context_ref (ev_world envelope) \<noteq> ev_context_ref envelope
         \<or> wg_run_control_ref (ev_world envelope) \<noteq> run_control_ref
         \<or> wg_expires_at (ev_world envelope) \<le> ch_now current
         \<or> NoRawNetwork |\<notin>| wg_required_properties (ev_world envelope)
         \<or> ch_now current \<ge> mr_expires_at run
         \<or> lifecycle_mismatch context current))
       (InvalidInput ''Execution world context, Host, session, network, run, or lifecycle is mismatched.''))
       (\<lambda>_.
     and_then (collect_world_grants envelope_ref (ev_context_ref envelope) run_control_ref
         (ctx_host_ref context) (ch_now current) (st_resources st)
         (sorted_list_of_fset (wg_mounted_resources (ev_world envelope)
           |\<union>| wg_executable_resources (ev_world envelope)))) (\<lambda>grants.
     Inr (ev_world envelope, grants)))))"

definition validate_network_attachment ::
  "lib \<Rightarrow> NetworkScopeRefV1 \<Rightarrow> string \<Rightarrow> EffectEnvelopeRefV1 \<Rightarrow> ManagedRunRefV1 \<Rightarrow> AuthorityContextV1
    \<Rightarrow> CurrentHostAuthorityV1 \<Rightarrow> EffectAuthorityStateV1 \<Rightarrow> effect_error + NetworkGrantV1" where
  "validate_network_attachment L scope_ref destination_ref envelope_ref run_control_ref context current st =
     and_then (ok_or (hm_get (st_envelopes st) envelope_ref)
       (InvalidInput ''Effect envelope is unavailable.'')) (\<lambda>envelope.
     and_then (ok_or (hm_get (st_runs st) run_control_ref)
       (InvalidInput ''Managed run is unavailable.'')) (\<lambda>run.
     and_then (ok_or (network_grant (ev_network envelope))
       (InvalidInput ''Network authority is default-denied.'')) (\<lambda>grant.
     and_then (ensure (\<not> (\<not> is_ok (AuthorityContextV1_validate L context)
         \<or> context \<noteq> ev_context envelope
         \<or> ev_run_control_ref envelope \<noteq> run_control_ref
         \<or> mr_envelope_ref run \<noteq> envelope_ref
         \<or> mr_context_ref run \<noteq> ev_context_ref envelope
         \<or> mr_state run \<noteq> Active
         \<or> ng_context_ref grant \<noteq> ev_context_ref envelope
         \<or> ng_run_control_ref grant \<noteq> run_control_ref
         \<or> ng_host_ref grant \<noteq> ctx_host_ref context
         \<or> scope_ref |\<notin>| ng_scope_refs grant
         \<or> destination_ref |\<notin>| ng_destination_refs grant
         \<or> ng_expires_at grant \<le> ch_now current
         \<or> ch_now current \<ge> mr_expires_at run
         \<or> lifecycle_mismatch context current))
       (InvalidInput ''Network attachment context, Host, session, run, destination, or lifecycle is mismatched.''))
       (\<lambda>_. Inr grant))))"

definition validate_network_request_attachment ::
  "lib \<Rightarrow> EffectRequestV1 \<Rightarrow> CurrentHostAuthorityV1 \<Rightarrow> EffectAuthorityStateV1 \<Rightarrow> effect_error + NetworkGrantV1" where
  "validate_network_request_attachment L request current st =
     and_then (validate_exact_request_context L request current st) (\<lambda>_.
     and_then (ok_or (hm_get (st_runs st) (rq_run_control_ref request))
       (InvalidInput ''Managed run is unavailable.'')) (\<lambda>run.
     and_then (ensure (\<not> (rq_sequence request \<noteq> mr_next_request_sequence run
         \<or> hm_contains (st_intents st) (rq_request_id request)))
       (InvalidInput ''Network request is replayed, skipped, or out of order.'')) (\<lambda>_.
     case rq_effect request of
       EffNetwork e \<Rightarrow> validate_network_attachment L (ne_scope_ref e) (ne_destination_ref e)
         (rq_envelope_ref request) (rq_run_control_ref request) (rq_context request) current st
     | _ \<Rightarrow> invalid ''Expected a brokered network request.'')))"

definition next_request_sequence :: "ManagedRunRefV1 \<Rightarrow> EffectAuthorityStateV1 \<Rightarrow> effect_error + u64" where
  "next_request_sequence run_ref st =
     and_then (ok_or (hm_get (st_runs st) run_ref) (InvalidInput ''Managed run is unavailable.'')) (\<lambda>run.
     and_then (ensure (mr_state run = Active)
       (InvalidInput ''Managed run is not active for the next effect.'')) (\<lambda>_.
     Inr (mr_next_request_sequence run)))"

section \<open>Authorization of one effect\<close>

definition handle_belongs_to_envelope ::
  "ResourceHandleRefV1 \<Rightarrow> EffectEnvelopeV1 \<Rightarrow> EffectAuthorityStateV1 \<Rightarrow> bool" where
  "handle_belongs_to_envelope handle envelope st =
     (case hm_get (st_resources st) handle of
        None \<Rightarrow> False
      | Some record \<Rightarrow> \<not> rr_revoked record
          \<and> rr_envelope_ref record = ev_envelope_ref envelope
          \<and> rg_run_control_ref (rr_grant record) = ev_run_control_ref envelope
          \<and> rg_context_ref (rr_grant record) = ev_context_ref envelope)"

definition authorize_resource ::
  "EffectEnvelopeV1 \<Rightarrow> EffectRequestV1 \<Rightarrow> int \<Rightarrow> EffectAuthorityStateV1 \<Rightarrow> ResourceEffectV1 \<Rightarrow> string + unit" where
  "authorize_resource envelope request now st effect =
     and_then (map_err (\<lambda>_. ''resource_selector_denied'')
       (validate_relative_selector (re_relative_selector effect))) (\<lambda>_.
     and_then (ok_or (hm_get (st_resources st) (re_handle_ref effect)) ''resource_handle_unavailable'')
       (\<lambda>record.
     ensure (\<not> (rr_revoked record
         \<or> rr_envelope_ref record \<noteq> ev_envelope_ref envelope
         \<or> rg_run_control_ref (rr_grant record) \<noteq> rq_run_control_ref request
         \<or> rg_context_ref (rr_grant record) \<noteq> ev_context_ref envelope
         \<or> rg_host_ref (rr_grant record) \<noteq> ctx_host_ref (ev_context envelope)
         \<or> rg_expires_at (rr_grant record) \<le> now
         \<or> re_verb effect |\<notin>| rg_allowed_verbs (rr_grant record)
         \<or> \<not> budgets_is_subset_of (rq_requested_budget_slice request) (rg_budgets (rr_grant record))
         \<or> \<not> selector_within_prefix (re_relative_selector effect) (rg_selector_prefix (rr_grant record))))
       ''resource_grant_denied''))"

definition authorize_process ::
  "EffectEnvelopeV1 \<Rightarrow> EffectRequestV1 \<Rightarrow> int \<Rightarrow> EffectAuthorityStateV1 \<Rightarrow> ProcessEffectV1 \<Rightarrow> string + unit" where
  "authorize_process envelope request now st effect =
     and_then (ensure (\<not> (process_world_ref effect \<noteq> wg_world_ref (ev_world envelope)
         \<or> wg_context_ref (ev_world envelope) \<noteq> ev_context_ref envelope
         \<or> wg_run_control_ref (ev_world envelope) \<noteq> rq_run_control_ref request
         \<or> wg_expires_at (ev_world envelope) \<le> now
         \<or> \<not> budgets_is_subset_of (rq_requested_budget_slice request) (wg_budgets (ev_world envelope))))
       ''execution_world_denied'') (\<lambda>_.
     case effect of
       Signal _ _ _ \<Rightarrow> Inr ()
     | Spawn _ executable_handle _ working_directory_handle working_directory_selector _ _ \<Rightarrow>
         and_then (ensure (executable_handle |\<in>| wg_executable_resources (ev_world envelope)
             \<and> handle_belongs_to_envelope executable_handle envelope st) ''executable_handle_denied'') (\<lambda>_.
         and_then (case working_directory_handle of
             None \<Rightarrow> Inr ()
           | Some handle \<Rightarrow> ensure (handle |\<in>| wg_mounted_resources (ev_world envelope)
               \<and> handle_belongs_to_envelope handle envelope st) ''working_directory_handle_denied'') (\<lambda>_.
         case working_directory_selector of
           None \<Rightarrow> Inr ()
         | Some selector \<Rightarrow> map_err (\<lambda>_. ''working_directory_selector_denied'')
             (validate_relative_selector selector))))"

definition authorize_network ::
  "EffectEnvelopeV1 \<Rightarrow> EffectRequestV1 \<Rightarrow> int \<Rightarrow> NetworkEffectV1 \<Rightarrow> string + unit" where
  "authorize_network envelope request now effect =
     and_then (ok_or (network_grant (ev_network envelope)) ''network_default_denied'') (\<lambda>grant.
     and_then (ensure (\<not> (\<not> is_ok (validate_id (ne_destination_ref effect) ''network destination ref'')
         \<or> \<not> is_ok (validate_id (ne_transport_ref effect) ''network transport ref'')
         \<or> (case ne_resolution_generation_ref effect of None \<Rightarrow> False
             | Some value \<Rightarrow> \<not> is_ok (validate_id value ''network resolution generation''))
         \<or> (case ne_request_digest effect of None \<Rightarrow> False
             | Some value \<Rightarrow> \<not> is_ok (validate_id value ''network request digest''))))
       ''network_request_malformed'') (\<lambda>_.
     ensure (\<not> (ng_context_ref grant \<noteq> ev_context_ref envelope
         \<or> ng_run_control_ref grant \<noteq> rq_run_control_ref request
         \<or> ng_host_ref grant \<noteq> ctx_host_ref (ev_context envelope)
         \<or> ng_expires_at grant \<le> now
         \<or> ne_scope_ref effect |\<notin>| ng_scope_refs grant
         \<or> ne_verb effect |\<notin>| ng_allowed_verbs grant
         \<or> ne_destination_ref effect |\<notin>| ng_destination_refs grant
         \<or> \<not> budgets_is_subset_of (rq_requested_budget_slice request) (ng_budgets grant)))
       ''network_scope_denied''))"

definition authorize_effect ::
  "EffectEnvelopeV1 \<Rightarrow> EffectRequestV1 \<Rightarrow> int \<Rightarrow> EffectAuthorityStateV1 \<Rightarrow> string + unit" where
  "authorize_effect envelope request now st =
     and_then (ok_or (find (\<lambda>bound. eb_capability bound = effect_capability (rq_effect request))
       (ev_effect_bounds envelope)) ''effect_capability_denied'') (\<lambda>bound.
     and_then (ensure (\<not> (\<not> budgets_is_subset_of (rq_requested_budget_slice request) (eb_max_per_request bound)
         \<or> bg_requests (rq_requested_budget_slice request) \<noteq> 1))
       ''per_request_budget_denied'') (\<lambda>_.
     case rq_effect request of
       EffResource effect \<Rightarrow> authorize_resource envelope request now st effect
     | EffProcess effect \<Rightarrow> authorize_process envelope request now st effect
     | EffNetwork effect \<Rightarrow> authorize_network envelope request now effect))"

section \<open>Evidence\<close>

definition append_evidence ::
  "lib \<Rightarrow> EffectEnvelopeV1 \<Rightarrow> EffectRequestV1 \<Rightarrow> EffectDecisionV1 \<Rightarrow> string \<Rightarrow> EffectFactsV1
    \<Rightarrow> EffectBudgetsV1 \<Rightarrow> EffectAuthorityStateV1
    \<Rightarrow> (effect_error + EffectEvidenceV1) \<times> EffectAuthorityStateV1" where
  "append_evidence L envelope request decision summary facts budget_debit st =
     (case validate_id summary ''effect evidence summary'' of
        Inl e \<Rightarrow> (Inl e, st)
      | Inr _ \<Rightarrow>
          let items = (case hm_get (st_evidence st) (rq_run_control_ref request) of None \<Rightarrow> [] | Some xs \<Rightarrow> xs);
              evidence = \<lparr>ee_contract_version = EFFECT_AUTHORITY_VERSION,
                ee_evidence_id = [],
                ee_evidence_digest = [],
                ee_prior_evidence_digest = (if items = [] then None else Some (ee_evidence_digest (last items))),
                ee_request_id = rq_request_id request,
                ee_envelope_ref = rq_envelope_ref request,
                ee_run_control_ref = rq_run_control_ref request,
                ee_context_ref = ev_context_ref envelope,
                ee_sequence = rq_sequence request,
                ee_decision = decision,
                ee_observed_preconditions = rq_preconditions request,
                ee_actual_effect_summary = summary,
                ee_budget_debit = budget_debit,
                ee_facts = facts,
                ee_host_authenticator = []\<rparr>;
              evidence = evidence\<lparr>ee_evidence_id := compute_evidence_id L evidence\<rparr>;
              evidence = evidence\<lparr>ee_evidence_digest := compute_evidence_digest L evidence\<rparr>;
              evidence = evidence\<lparr>ee_host_authenticator := host_authenticator L (st_evidence_key st) evidence\<rparr>
          in (Inr evidence, st\<lparr>
            st_intents := hm_modify (rq_request_id request)
              (\<lambda>intent. intent\<lparr>in_terminal_evidence_id := Some (ee_evidence_id evidence)\<rparr>) (st_intents st),
            st_evidence := hm_insert (rq_run_control_ref request) (items @ [evidence]) (st_evidence st)\<rparr>))"

definition append_denial_evidence ::
  "lib \<Rightarrow> EffectEnvelopeV1 \<Rightarrow> EffectRequestV1 \<Rightarrow> string \<Rightarrow> EffectAuthorityStateV1
    \<Rightarrow> (effect_error + EffectEvidenceV1) \<times> EffectAuthorityStateV1" where
  "append_denial_evidence L envelope request summary st =
     append_evidence L envelope request Denied summary FactNone budgets_default st"

text \<open>An evidence item is authentic for a key: its identity, digest and authenticator recompute.\<close>

definition evidence_authentic :: "lib \<Rightarrow> byte list \<Rightarrow> EffectEvidenceV1 \<Rightarrow> bool" where
  "evidence_authentic L key evidence \<longleftrightarrow>
     compute_evidence_id L evidence = ee_evidence_id evidence
     \<and> compute_evidence_digest L evidence = ee_evidence_digest evidence
     \<and> host_authenticator L key evidence = ee_host_authenticator evidence"

definition validate_terminal_resource_evidence ::
  "lib \<Rightarrow> EffectEvidenceV1 \<Rightarrow> ResourceHandleRefV1 \<Rightarrow> EffectEnvelopeRefV1 \<Rightarrow> ManagedRunRefV1
    \<Rightarrow> AuthorityContextRefV1 \<Rightarrow> EffectAuthorityStateV1 \<Rightarrow> effect_error + unit" where
  "validate_terminal_resource_evidence L evidence handle_ref envelope_ref run_control_ref context_ref st =
     and_then (ok_or (hm_get (st_evidence st) run_control_ref)
       (InvalidInput ''Managed resource evidence is unavailable.'')) (\<lambda>chain.
     let facts_match = (case ee_facts evidence of FactResource observed _ _ _ \<Rightarrow> observed = handle_ref
           | _ \<Rightarrow> False) in
     ensure (\<not> (ee_decision evidence \<noteq> Allowed
         \<or> ee_envelope_ref evidence \<noteq> envelope_ref
         \<or> ee_run_control_ref evidence \<noteq> run_control_ref
         \<or> ee_context_ref evidence \<noteq> context_ref
         \<or> \<not> facts_match
         \<or> \<not> list_ex (\<lambda>stored. stored = evidence) chain
         \<or> \<not> evidence_authentic L (st_evidence_key st) evidence))
       (InvalidInput ''Managed resource evidence is stale, forged, or mismatched.''))"

fun validate_chain_from ::
  "lib \<Rightarrow> byte list \<Rightarrow> ManagedRunRefV1 \<Rightarrow> nat \<Rightarrow> string option \<Rightarrow> EffectEvidenceV1 list
    \<Rightarrow> effect_error + unit" where
  "validate_chain_from L key run_ref sequence prior [] = Inr ()"
| "validate_chain_from L key run_ref sequence prior (evidence # rest) =
     (if ee_contract_version evidence \<noteq> EFFECT_AUTHORITY_VERSION
        \<or> ee_run_control_ref evidence \<noteq> run_ref
        \<or> ee_sequence evidence \<noteq> of_nat sequence
        \<or> ee_prior_evidence_digest evidence \<noteq> prior
        \<or> \<not> evidence_authentic L key evidence
      then invalid ''Host effect evidence chain is forged or out of order.''
      else validate_chain_from L key run_ref (Suc sequence) (Some (ee_evidence_digest evidence)) rest)"

definition run_evidence :: "ManagedRunRefV1 \<Rightarrow> EffectAuthorityStateV1 \<Rightarrow> EffectEvidenceV1 list" where
  "run_evidence run_ref st = (case hm_get (st_evidence st) run_ref of None \<Rightarrow> [] | Some xs \<Rightarrow> xs)"

definition validate_evidence_chain ::
  "lib \<Rightarrow> ManagedRunRefV1 \<Rightarrow> EffectAuthorityStateV1 \<Rightarrow> effect_error + unit" where
  "validate_evidence_chain L run_ref st =
     validate_chain_from L (st_evidence_key st) run_ref 0 None (run_evidence run_ref st)"

definition run_intents :: "ManagedRunRefV1 \<Rightarrow> EffectAuthorityStateV1 \<Rightarrow> EffectIntentV1 list" where
  "run_intents run_ref st = filter (\<lambda>intent. in_run_control_ref intent = run_ref) (hm_values (st_intents st))"

definition completion_evidence ::
  "lib \<Rightarrow> ManagedRunRefV1 \<Rightarrow> EffectEnvelopeRefV1 \<Rightarrow> CurrentHostAuthorityV1 \<Rightarrow> EffectAuthorityStateV1
    \<Rightarrow> effect_error + CompletionEvidenceV1" where
  "completion_evidence L run_ref expected_envelope current st =
     and_then (ok_or (hm_get (st_runs st) run_ref) (InvalidInput ''Managed run is unavailable.'')) (\<lambda>run.
     and_then (ok_or (hm_get (st_envelopes st) expected_envelope)
       (InvalidInput ''Effect envelope is unavailable.'')) (\<lambda>envelope.
     and_then (ensure (\<not> (mr_state run \<noteq> Active
         \<or> mr_envelope_ref run \<noteq> expected_envelope
         \<or> ev_run_control_ref envelope \<noteq> run_ref
         \<or> ch_now current \<ge> mr_expires_at run
         \<or> ch_burned current
         \<or> ch_disconnected current
         \<or> ch_restarted current
         \<or> \<not> ch_bridge_active current
         \<or> freshness_expires_at (ch_execution_freshness current) \<le> ch_now current
         \<or> freshness_authority_ref (ch_execution_freshness current)
             \<noteq> ctx_session_binding_ref (ev_context envelope)
         \<or> freshness_local_host_ref (ch_execution_freshness current) \<noteq> ctx_host_ref (ev_context envelope)))
       (InvalidInput ''Managed run is not currently eligible for Core completion.'')) (\<lambda>_.
     and_then (validate_evidence_chain L run_ref st) (\<lambda>_.
     let evidence = run_evidence run_ref st in
     and_then (ensure (\<not> (evidence = [] \<or> of_nat (length evidence) \<noteq> mr_next_request_sequence run))
       (InvalidInput ''Managed run evidence is incomplete.'')) (\<lambda>_.
     let intents = run_intents run_ref st in
     and_then (ensure (\<not> (length intents \<noteq> length evidence
         \<or> list_ex (\<lambda>intent. in_indeterminate intent \<or> in_terminal_evidence_id intent = None) intents
         \<or> list_ex (\<lambda>item. ee_decision item \<noteq> Allowed) evidence))
       (InvalidInput ''Managed run has failed, unavailable, or indeterminate evidence.'')) (\<lambda>_.
     Inr \<lparr>ce_envelope = envelope, ce_run = run, ce_evidence = evidence,
          ce_evidence_head = ee_evidence_digest (last evidence)\<rparr>))))))"

section \<open>Enforcement\<close>

definition claim_intent :: "lib \<Rightarrow> EffectRequestV1 \<Rightarrow> int \<Rightarrow> EffectAuthorityStateV1 \<Rightarrow> EffectAuthorityStateV1" where
  "claim_intent L request now st =
     st\<lparr>st_intents := hm_insert (rq_request_id request)
          \<lparr>in_request_id = rq_request_id request,
           in_envelope_ref = rq_envelope_ref request,
           in_run_control_ref = rq_run_control_ref request,
           in_sequence = rq_sequence request,
           in_request_digest = domain_hash L ''pastey-effect-request-intent-v1'' (request_json request),
           in_claimed_at = now,
           in_terminal_evidence_id = None,
           in_indeterminate = False\<rparr> (st_intents st),
        st_runs := hm_modify (rq_run_control_ref request)
          (\<lambda>run. run\<lparr>mr_next_request_sequence := mr_next_request_sequence run + 1\<rparr>) (st_runs st)\<rparr>"

definition reserve_budget :: "ManagedRunRefV1 \<Rightarrow> EffectBudgetsV1 \<Rightarrow> EffectAuthorityStateV1 \<Rightarrow> EffectAuthorityStateV1" where
  "reserve_budget run_ref next st =
     st\<lparr>st_runs := hm_modify run_ref (\<lambda>run. run\<lparr>mr_cumulative_budget_debits := next\<rparr>) (st_runs st)\<rparr>"

definition next_debits :: "EffectEnvelopeV1 \<Rightarrow> ManagedRunControlV1 \<Rightarrow> EffectRequestV1 \<Rightarrow> EffectBudgetsV1 option" where
  "next_debits envelope run request =
     (case budgets_checked_add (mr_cumulative_budget_debits run) (rq_requested_budget_slice request) of
        None \<Rightarrow> None
      | Some value \<Rightarrow> if budgets_is_subset_of value (ev_budgets envelope) then Some value else None)"

definition mark_indeterminate :: "EffectRequestIdV1 \<Rightarrow> EffectAuthorityStateV1 \<Rightarrow> EffectAuthorityStateV1" where
  "mark_indeterminate request_id st =
     st\<lparr>st_intents := hm_modify request_id (\<lambda>intent. intent\<lparr>in_indeterminate := True\<rparr>) (st_intents st)\<rparr>"

definition enforce ::
  "lib \<Rightarrow> 'b HostEffectBackendV1 \<Rightarrow> EffectRequestV1 \<Rightarrow> CurrentHostAuthorityV1 \<Rightarrow> 'b \<Rightarrow> EffectAuthorityStateV1
    \<Rightarrow> (effect_error + EffectEvidenceV1) \<times> 'b \<times> EffectAuthorityStateV1" where
  "enforce L apply_backend request current backend st =
     (case validate_exact_request_context L request current st of
        Inl e \<Rightarrow> (Inl e, backend, st)
      | Inr _ \<Rightarrow>
     (case hm_get (st_envelopes st) (rq_envelope_ref request) of
        None \<Rightarrow> (invalid ''Effect envelope is unavailable.'', backend, st)
      | Some envelope \<Rightarrow>
     (case hm_get (st_runs st) (rq_run_control_ref request) of
        None \<Rightarrow> (invalid ''Managed run is unavailable.'', backend, st)
      | Some run \<Rightarrow>
     if mr_state run \<noteq> Active \<or> ch_now current \<ge> mr_expires_at run
     then (invalid ''Managed run is not active and unexpired.'', backend,
           if ch_now current \<ge> mr_expires_at run \<and> \<not> run_terminal (mr_state run)
           then snd (revoke_run (rq_run_control_ref request) st) else st)
     else if rq_sequence request \<noteq> mr_next_request_sequence run
       \<or> hm_contains (st_intents st) (rq_request_id request)
     then (invalid ''Effect request sequence is replayed, skipped, or out of order.'', backend, st)
     else
       let st1 = claim_intent L request (ch_now current) st in
       (case authorize_effect envelope request (ch_now current) st1 of
          Inl reason \<Rightarrow>
            (let (result, st') = append_evidence L envelope request Denied reason FactNone budgets_default st1
             in (result, backend, st'))
        | Inr _ \<Rightarrow>
            (case next_debits envelope run request of
               None \<Rightarrow>
                 (let (result, st') = append_denial_evidence L envelope request
                        ''cumulative_budget_exhausted'' st1
                  in (result, backend, st'))
             | Some next \<Rightarrow>
                 let st2 = reserve_budget (rq_run_control_ref request) next st1 in
                 (case apply_backend request backend of
                    (Completed outcome, backend') \<Rightarrow>
                      (let (result, st') = append_evidence L envelope request (bo_decision outcome)
                             (bo_actual_effect_summary outcome) (bo_facts outcome)
                             (rq_requested_budget_slice request) st2
                       in (result, backend', st'))
                  | (LostAfterIntent, backend') \<Rightarrow>
                      (let (result, st') = interrupt_run (rq_run_control_ref request)
                             (mark_indeterminate (rq_request_id request) st2)
                       in (and_then result (\<lambda>_.
                             invalid ''Effect intent has no terminal evidence; run is indeterminate.''),
                           backend', st'))))))))"

end
