(* ===== verification/Effect_Safety.thy ===== *)
theory Effect_Safety
  imports Effect_Authority
begin

text \<open>
  The effect authority as a state machine, and what holds in every state it can reach. A machine state
  is the authority state with the log of the requests handed to a Host backend; every public operation
  that changes the state is a step, in any order, with any arguments and any backend answer.
\<close>

section \<open>Budgets component by component\<close>

definition budget_fields :: "(EffectBudgetsV1 \<Rightarrow> u64) list" where
  "budget_fields = [bg_requests, bg_read_bytes, bg_write_bytes, bg_process_spawns, bg_process_signals,
     bg_cpu_millis, bg_memory_byte_millis, bg_wall_millis, bg_network_resolutions,
     bg_network_connections, bg_network_binds, bg_network_requests, bg_network_bytes,
     bg_network_time_millis]"

lemma budgets_is_subset_of_fields:
  "budgets_is_subset_of a b \<longleftrightarrow> (\<forall>f \<in> set budget_fields. f a \<le> f b)"
  by (simp add: budgets_is_subset_of_def budget_fields_def)

lemma budgets_checked_add_fields:
  "budgets_checked_add a b = Some c \<Longrightarrow> f \<in> set budget_fields \<Longrightarrow> unat (f c) = unat (f a) + unat (f b)"
  unfolding budgets_checked_add_Some budget_fields_def
  by (elim conjE) (auto dest: unat_checked_add)

lemma budgets_default_fields: "f \<in> set budget_fields \<Longrightarrow> f budgets_default = 0"
  by (auto simp: budget_fields_def budgets_default_def)

section \<open>The machine\<close>

type_synonym authority_machine = "EffectAuthorityStateV1 \<times> EffectRequestV1 list"

text \<open>A backend that answers with \<open>answer\<close> and records what it was asked to do.\<close>

definition recording :: "(EffectRequestV1 \<Rightarrow> BackendApplyV1) \<Rightarrow> EffectRequestV1 list HostEffectBackendV1" where
  "recording answer request log = (answer request, log @ [request])"

inductive authority_step :: "lib \<Rightarrow> authority_machine \<Rightarrow> authority_machine \<Rightarrow> bool" for L where
  step_begin: "authority_step L (st, log) (snd (begin_run L context st), log)"
| step_mint: "authority_step L (st, log) (snd (mint_resource_grant L draft spec st), log)"
| step_install: "authority_step L (st, log) (snd (install_envelope L draft envelope st), log)"
| step_activate: "authority_step L (st, log) (snd (activate_run r now st), log)"
| step_cancel: "authority_step L (st, log) (snd (cancel_run r st), log)"
| step_settle: "authority_step L (st, log) (snd (cancel_run_or_confirm_terminal r st), log)"
| step_finish: "authority_step L (st, log) (snd (finish_run r st), log)"
| step_complete: "authority_step L (st, log) (snd (complete_run_authoritatively r st), log)"
| step_revoke: "authority_step L (st, log) (snd (revoke_run r st), log)"
| step_bridge: "authority_step L (st, log) (revoke_bridge b st, log)"
| step_session: "authority_step L (st, log) (revoke_session s st, log)"
| step_all: "authority_step L (st, log) (revoke_all st, log)"
| step_enforce: "enforce L (recording answer) request current log st = (result, log', st') \<Longrightarrow>
    authority_step L (st, log) (st', log')"

definition authority_init :: "authority_machine \<Rightarrow> bool" where
  "authority_init m \<longleftrightarrow> (\<exists>key. m = (with_evidence_key key, []))"

section \<open>When enforcement reaches the backend\<close>

text \<open>The conditions of \<open>enforce\<close> as one predicate on the state before it.\<close>

definition claimable ::
  "lib \<Rightarrow> EffectRequestV1 \<Rightarrow> CurrentHostAuthorityV1 \<Rightarrow> EffectAuthorityStateV1 \<Rightarrow> bool" where
  "claimable L request current st \<longleftrightarrow>
     validate_exact_request_context L request current st = Inr ()
     \<and> (\<exists>run. hm_get (st_runs st) (rq_run_control_ref request) = Some run
          \<and> mr_state run = Active \<and> ch_now current < mr_expires_at run
          \<and> rq_sequence request = mr_next_request_sequence run)
     \<and> hm_get (st_intents st) (rq_request_id request) = None"

definition affordable :: "EffectRequestV1 \<Rightarrow> int \<Rightarrow> EffectAuthorityStateV1 \<Rightarrow> bool" where
  "affordable request now st \<longleftrightarrow>
     (\<exists>envelope run next. hm_get (st_envelopes st) (rq_envelope_ref request) = Some envelope
        \<and> hm_get (st_runs st) (rq_run_control_ref request) = Some run
        \<and> authorize_effect envelope request now st = Inr ()
        \<and> next_debits envelope run request = Some next)"

lemma authorize_effect_resources:
  assumes "st_resources st = st_resources st'"
  shows "authorize_effect e r now st = authorize_effect e r now st'"
proof -
  have "handle_belongs_to_envelope h e st = handle_belongs_to_envelope h e st'" for h
    by (simp add: handle_belongs_to_envelope_def assms)
  then show ?thesis
    by (simp only: authorize_effect_def authorize_resource_def authorize_process_def assms)
qed

lemma authorize_effect_claim [simp]:
  "authorize_effect e r now (claim_intent L request t st) = authorize_effect e r now st"
  by (rule authorize_effect_resources) (simp add: claim_intent_def)

lemma validate_exact_request_context_Inr:
  "validate_exact_request_context L request current st = Inr () \<longleftrightarrow>
     rq_contract_version request = EFFECT_AUTHORITY_VERSION
     \<and> AuthorityContextV1_validate L (rq_context request) = Inr ()
     \<and> compute_request_id L request = rq_request_id request
     \<and> (\<exists>envelope run. hm_get (st_envelopes st) (rq_envelope_ref request) = Some envelope
        \<and> hm_get (st_runs st) (rq_run_control_ref request) = Some run
        \<and> rq_context request = ev_context envelope
        \<and> rq_run_control_ref request = ev_run_control_ref envelope
        \<and> mr_envelope_ref run = rq_envelope_ref request
        \<and> mr_context_ref run = ev_context_ref envelope
        \<and> \<not> lifecycle_mismatch (rq_context request) current)"
  by (auto simp: validate_exact_request_context_def res_simps is_ok_unit)

text \<open>The four ways \<open>enforce\<close> can go.\<close>

lemma enforce_cases [consumes 1, case_names rejected denied completed lost]:
  assumes "enforce L apply_backend request current b st = (result, b', st')"
  obtains
    (rejected) e where "\<not> claimable L request current st" and "result = Inl e" and "b' = b"
      and "st' = st \<or> st' = snd (revoke_run (rq_run_control_ref request) st)"
  | (denied) envelope run reason where "claimable L request current st"
      and "\<not> affordable request (ch_now current) st" and "b' = b"
      and "hm_get (st_envelopes st) (rq_envelope_ref request) = Some envelope"
      and "hm_get (st_runs st) (rq_run_control_ref request) = Some run"
      and "append_evidence L envelope request Denied reason FactNone budgets_default
        (claim_intent L request (ch_now current) st) = (result, st')"
  | (completed) envelope run nxt outcome where "claimable L request current st"
      and "affordable request (ch_now current) st" and "apply_backend request b = (Completed outcome, b')"
      and "hm_get (st_envelopes st) (rq_envelope_ref request) = Some envelope"
      and "hm_get (st_runs st) (rq_run_control_ref request) = Some run"
      and "next_debits envelope run request = Some nxt"
      and "append_evidence L envelope request (bo_decision outcome)
        (bo_actual_effect_summary outcome) (bo_facts outcome) (rq_requested_budget_slice request)
        (reserve_budget (rq_run_control_ref request) nxt (claim_intent L request (ch_now current) st))
        = (result, st')"
  | (lost) envelope run nxt e where "claimable L request current st"
      and "affordable request (ch_now current) st" and "apply_backend request b = (LostAfterIntent, b')"
      and "hm_get (st_envelopes st) (rq_envelope_ref request) = Some envelope"
      and "hm_get (st_runs st) (rq_run_control_ref request) = Some run"
      and "next_debits envelope run request = Some nxt" and "result = Inl e"
      and "st' = snd (interrupt_run (rq_run_control_ref request) (mark_indeterminate (rq_request_id request)
        (reserve_budget (rq_run_control_ref request) nxt (claim_intent L request (ch_now current) st))))"
proof (cases "claimable L request current st")
  case False
  have "(\<exists>e. result = Inl e) \<and> b' = b \<and>
      (st' = st \<or> st' = snd (revoke_run (rq_run_control_ref request) st))"
    using assms False
    by (auto simp: enforce_def claimable_def hm_contains_iff split: sum.splits option.splits if_splits)
  with False rejected show thesis by blast
next
  case True
  then obtain envelope run where env: "hm_get (st_envelopes st) (rq_envelope_ref request) = Some envelope"
    and run: "hm_get (st_runs st) (rq_run_control_ref request) = Some run"
    by (auto simp: claimable_def validate_exact_request_context_Inr)
  let ?st1 = "claim_intent L request (ch_now current) st"
  have enf: "enforce L apply_backend request current b st =
     (case authorize_effect envelope request (ch_now current) st of
        Inl reason \<Rightarrow>
          (let (result, st') = append_evidence L envelope request Denied reason FactNone budgets_default ?st1
           in (result, b, st'))
      | Inr _ \<Rightarrow>
          (case next_debits envelope run request of
             None \<Rightarrow>
               (let (result, st') = append_denial_evidence L envelope request
                      ''cumulative_budget_exhausted'' ?st1
                in (result, b, st'))
           | Some nxt \<Rightarrow>
               let st2 = reserve_budget (rq_run_control_ref request) nxt ?st1 in
               (case apply_backend request b of
                  (Completed outcome, backend') \<Rightarrow>
                    (let (result, st') = append_evidence L envelope request (bo_decision outcome)
                           (bo_actual_effect_summary outcome) (bo_facts outcome)
                           (rq_requested_budget_slice request) st2
                     in (result, backend', st'))
                | (LostAfterIntent, backend') \<Rightarrow>
                    (let (result, st') = interrupt_run (rq_run_control_ref request)
                           (mark_indeterminate (rq_request_id request) st2)
                     in (and_then result (\<lambda>_.
                           invalid ''Effect intent has no terminal evidence; run is indeterminate.''),
                         backend', st')))))"
    using True env run unfolding enforce_def
    by (simp add: claimable_def hm_contains_iff Let_def not_le)
  have aff: "affordable request (ch_now current) st \<longleftrightarrow>
      authorize_effect envelope request (ch_now current) st = Inr () \<and> next_debits envelope run request \<noteq> None"
    by (auto simp: affordable_def env run)
  show thesis
  proof (cases "affordable request (ch_now current) st")
    case False
    with aff enf assms have "b' = b \<and> (\<exists>reason. append_evidence L envelope request
        Denied reason FactNone budgets_default ?st1 = (result, st'))"
      by (auto simp: append_denial_evidence_def split: sum.splits option.splits prod.splits)
    with True False env run denied show thesis by blast
  next
    case aff_ok: True
    with aff obtain nxt where auth: "authorize_effect envelope request (ch_now current) st = Inr ()"
      and nxt: "next_debits envelope run request = Some nxt" by auto
    obtain out b2 where app: "apply_backend request b = (out, b2)" by (cases "apply_backend request b")
    show thesis
    proof (cases out)
      case (Completed outcome)
      with assms enf auth nxt app show thesis
        by (intro completed [OF True aff_ok _ env run nxt, of outcome])
          (auto simp: Let_def split: prod.splits)
    next
      case LostAfterIntent
      let ?st3 = "mark_indeterminate (rq_request_id request)
        (reserve_budget (rq_run_control_ref request) nxt ?st1)"
      from LostAfterIntent assms enf auth nxt app
      have eq: "result = and_then (fst (interrupt_run (rq_run_control_ref request) ?st3)) (\<lambda>_.
          invalid ''Effect intent has no terminal evidence; run is indeterminate.'')"
        and "b' = b2" and "st' = snd (interrupt_run (rq_run_control_ref request) ?st3)"
        by (auto simp: Let_def split: prod.splits)
      moreover from eq have "\<exists>e. result = Inl e"
        by (cases "fst (interrupt_run (rq_run_control_ref request) ?st3)") auto
      ultimately show thesis using LostAfterIntent app lost [OF True aff_ok _ env run nxt] by blast
    qed
  qed
qed

section \<open>Transitions that only retire authority\<close>

primrec run_rank :: "ManagedRunStateV1 \<Rightarrow> nat" where
  "run_rank Created = 0" | "run_rank Active = 1" | "run_rank Cancelling = 2"
| "run_rank Finished = 3" | "run_rank Revoked = 3" | "run_rank Interrupted = 3"

definition run_advances :: "ManagedRunStateV1 \<Rightarrow> ManagedRunStateV1 \<Rightarrow> bool" where
  "run_advances a b \<longleftrightarrow> a = b \<or> run_rank a < run_rank b"

definition run_live :: "ManagedRunStateV1 \<Rightarrow> bool" where
  "run_live s \<longleftrightarrow> run_rank s < 2"

lemma run_advances_refl [simp]: "run_advances a a"
  by (simp add: run_advances_def)

lemma run_advances_trans: "run_advances a b \<Longrightarrow> run_advances b c \<Longrightarrow> run_advances a c"
  by (auto simp: run_advances_def)

lemma run_terminal_rank: "run_terminal s \<longleftrightarrow> run_rank s = 3"
  by (cases s) (simp_all add: run_terminal_def)

lemma run_rank_bound: "run_rank s \<le> 3"
  by (cases s) simp_all

lemma run_terminal_absorbing: "run_terminal a \<Longrightarrow> run_advances a b \<Longrightarrow> b = a"
  using run_rank_bound [of b] by (auto simp: run_advances_def run_terminal_rank)

lemma run_retired_advances: "\<not> run_live a \<Longrightarrow> run_advances a b \<Longrightarrow> \<not> run_live b"
  by (auto simp: run_advances_def run_live_def)

text \<open>\<open>quiet st st'\<close>: nothing is added; runs advance, resources may become revoked, and a run that stops
  being live takes its resources with it.\<close>

definition quiet :: "EffectAuthorityStateV1 \<Rightarrow> EffectAuthorityStateV1 \<Rightarrow> bool" where
  "quiet st st' \<longleftrightarrow>
     st_envelopes st' = st_envelopes st \<and> st_intents st' = st_intents st \<and> st_evidence st' = st_evidence st
     \<and> st_evidence_key st' = st_evidence_key st
     \<and> map fst (st_runs st') = map fst (st_runs st) \<and> map fst (st_resources st') = map fst (st_resources st)
     \<and> (\<forall>r run'. hm_get (st_runs st') r = Some run' \<longrightarrow>
          (\<exists>run. hm_get (st_runs st) r = Some run \<and> run_advances (mr_state run) (mr_state run')
             \<and> run' = run\<lparr>mr_state := mr_state run'\<rparr>))
     \<and> (\<forall>h rec'. hm_get (st_resources st') h = Some rec' \<longrightarrow>
          (\<exists>rec. hm_get (st_resources st) h = Some rec \<and> (rr_revoked rec \<longrightarrow> rr_revoked rec')
             \<and> rec' = rec\<lparr>rr_revoked := rr_revoked rec'\<rparr>))
     \<and> (\<forall>r run' h rec'. hm_get (st_runs st') r = Some run' \<longrightarrow> hm_get (st_runs st) r \<noteq> Some run'
          \<longrightarrow> \<not> run_live (mr_state run') \<longrightarrow> hm_get (st_resources st') h = Some rec'
          \<longrightarrow> rg_run_control_ref (rr_grant rec') = r \<longrightarrow> rr_revoked rec')"

lemma quiet_refl: "quiet st st"
  by (simp add: quiet_def)

lemma quiet_run:
  "quiet st st' \<Longrightarrow> hm_get (st_runs st') r = Some run' \<Longrightarrow>
     \<exists>run. hm_get (st_runs st) r = Some run \<and> run_advances (mr_state run) (mr_state run')
       \<and> run' = run\<lparr>mr_state := mr_state run'\<rparr>"
  by (simp add: quiet_def)

lemma quiet_resource:
  "quiet st st' \<Longrightarrow> hm_get (st_resources st') h = Some rec' \<Longrightarrow>
     \<exists>rec. hm_get (st_resources st) h = Some rec \<and> (rr_revoked rec \<longrightarrow> rr_revoked rec')
       \<and> rec' = rec\<lparr>rr_revoked := rr_revoked rec'\<rparr>"
  by (simp add: quiet_def)

lemma quiet_retired:
  "quiet st st' \<Longrightarrow> hm_get (st_runs st') r = Some run' \<Longrightarrow> hm_get (st_runs st) r \<noteq> Some run' \<Longrightarrow>
     \<not> run_live (mr_state run') \<Longrightarrow> hm_get (st_resources st') h = Some rec' \<Longrightarrow>
     rg_run_control_ref (rr_grant rec') = r \<Longrightarrow> rr_revoked rec'"
  by (simp add: quiet_def)

lemma quiet_trans:
  assumes "quiet a b" and "quiet b c"
  shows "quiet a c"
proof -
  have run: "\<exists>run. hm_get (st_runs a) r = Some run \<and> run_advances (mr_state run) (mr_state run')
      \<and> run' = run\<lparr>mr_state := mr_state run'\<rparr>" if "hm_get (st_runs c) r = Some run'" for r run'
  proof -
    from quiet_run [OF assms(2) that] obtain m where m: "hm_get (st_runs b) r = Some m"
      "run_advances (mr_state m) (mr_state run')" "run' = m\<lparr>mr_state := mr_state run'\<rparr>" by blast
    from quiet_run [OF assms(1) m(1)] obtain l where l: "hm_get (st_runs a) r = Some l"
      "run_advances (mr_state l) (mr_state m)" "m = l\<lparr>mr_state := mr_state m\<rparr>" by blast
    have "run' = l\<lparr>mr_state := mr_state run'\<rparr>" by (metis m(3) l(3) ManagedRunControlV1.surjective
      ManagedRunControlV1.update_convs(5))
    with l m run_advances_trans show ?thesis by blast
  qed
  have res: "\<exists>rec. hm_get (st_resources a) h = Some rec \<and> (rr_revoked rec \<longrightarrow> rr_revoked rec')
      \<and> rec' = rec\<lparr>rr_revoked := rr_revoked rec'\<rparr>" if "hm_get (st_resources c) h = Some rec'" for h rec'
  proof -
    from quiet_resource [OF assms(2) that] obtain m where m: "hm_get (st_resources b) h = Some m"
      "rr_revoked m \<longrightarrow> rr_revoked rec'" "rec' = m\<lparr>rr_revoked := rr_revoked rec'\<rparr>" by blast
    from quiet_resource [OF assms(1) m(1)] obtain l where l: "hm_get (st_resources a) h = Some l"
      "rr_revoked l \<longrightarrow> rr_revoked m" "m = l\<lparr>rr_revoked := rr_revoked m\<rparr>" by blast
    have "rec' = l\<lparr>rr_revoked := rr_revoked rec'\<rparr>" by (metis m(3) l(3) ResourceAuthorityRecordV1.surjective
      ResourceAuthorityRecordV1.update_convs(3))
    with l m show ?thesis by blast
  qed
  have ret: "rr_revoked rec'" if r: "hm_get (st_runs c) r = Some run'" "hm_get (st_runs a) r \<noteq> Some run'"
      "\<not> run_live (mr_state run')" and h: "hm_get (st_resources c) h = Some rec'"
      "rg_run_control_ref (rr_grant rec') = r" for r run' h rec'
  proof (cases "hm_get (st_runs b) r = Some run'")
    case True
    from quiet_resource [OF assms(2) h(1)] obtain m where "hm_get (st_resources b) h = Some m"
      "rr_revoked m \<longrightarrow> rr_revoked rec'" "rec' = m\<lparr>rr_revoked := rr_revoked rec'\<rparr>" by blast
    moreover from this h(2) have "rg_run_control_ref (rr_grant m) = r"
      by (metis ResourceAuthorityRecordV1.select_convs(1) ResourceAuthorityRecordV1.surjective
        ResourceAuthorityRecordV1.update_convs(3))
    ultimately show ?thesis using quiet_retired [OF assms(1) True r(2,3)] by blast
  next
    case False
    with quiet_retired [OF assms(2) r(1) _ r(3) h] show ?thesis by blast
  qed
  from assms show ?thesis
    unfolding quiet_def [of a c] using run res ret by (auto simp: quiet_def [of a b] quiet_def [of b c])
qed

lemma map_fst_modify [simp]: "map fst (hm_modify k f m) = map fst m"
  by (simp add: hm_modify_def case_prod_beta comp_def)

lemma map_fst_map_values [simp]: "map fst (hm_map_values f m) = map fst m"
  by (simp add: hm_map_values_def case_prod_beta comp_def)

text \<open>Moving one run forward and revoking its resources; the resources stay when it becomes active.\<close>

lemma quietI:
  assumes "st_envelopes st' = st_envelopes st" "st_intents st' = st_intents st"
    "st_evidence st' = st_evidence st" "st_evidence_key st' = st_evidence_key st"
    "map fst (st_runs st') = map fst (st_runs st)" "map fst (st_resources st') = map fst (st_resources st)"
    and "\<And>r. hm_get (st_runs st') r = map_option (\<lambda>run. run\<lparr>mr_state := adv r run\<rparr>) (hm_get (st_runs st) r)"
    and "\<And>r run. hm_get (st_runs st) r = Some run \<Longrightarrow> run_advances (mr_state run) (adv r run)"
    and "\<And>h. hm_get (st_resources st') h =
      map_option (\<lambda>rec. rec\<lparr>rr_revoked := rr_revoked rec \<or> gone (rg_run_control_ref (rr_grant rec))\<rparr>)
        (hm_get (st_resources st) h)"
    and "\<And>r run. hm_get (st_runs st) r = Some run \<Longrightarrow> adv r run \<noteq> mr_state run \<Longrightarrow> \<not> run_live (adv r run) \<Longrightarrow> gone r"
  shows "quiet st st'"
proof -
  have "rr_revoked rec'" if "hm_get (st_runs st') r = Some run'" "hm_get (st_runs st) r \<noteq> Some run'"
    "\<not> run_live (mr_state run')" "hm_get (st_resources st') h = Some rec'"
    "rg_run_control_ref (rr_grant rec') = r" for r run' h rec'
  proof -
    from that(1) assms(7) obtain run where run: "hm_get (st_runs st) r = Some run" "run' = run\<lparr>mr_state := adv r run\<rparr>"
      by auto
    with that(2) have "adv r run \<noteq> mr_state run" by (cases run) auto
    with run that(3) assms(10) have "gone r" by auto
    with that(4,5) assms(9) show ?thesis by auto
  qed
  moreover have "\<exists>run. hm_get (st_runs st) r = Some run \<and> run_advances (mr_state run) (mr_state run')
      \<and> run' = run\<lparr>mr_state := mr_state run'\<rparr>" if "hm_get (st_runs st') r = Some run'" for r run'
  proof -
    from that obtain run where "hm_get (st_runs st) r = Some run" "run' = run\<lparr>mr_state := adv r run\<rparr>"
      unfolding assms(7) by auto
    with assms(8) show ?thesis by auto
  qed
  moreover have "\<exists>rec. hm_get (st_resources st) h = Some rec \<and> (rr_revoked rec \<longrightarrow> rr_revoked rec')
      \<and> rec' = rec\<lparr>rr_revoked := rr_revoked rec'\<rparr>" if "hm_get (st_resources st') h = Some rec'" for h rec'
    using that unfolding assms(9) by auto
  ultimately show ?thesis unfolding quiet_def using assms(1-6) by blast
qed

lemma quiet_retire:
  assumes "\<And>run. hm_get (st_runs st) r = Some run \<Longrightarrow> run_advances (mr_state run) (g run)"
  shows "quiet st (revoke_run_resources r (st\<lparr>st_runs := hm_modify r (\<lambda>run. run\<lparr>mr_state := g run\<rparr>) (st_runs st)\<rparr>))"
proof (rule quietI [where adv = "\<lambda>r' run. if r' = r then g run else mr_state run" and gone = "\<lambda>r'. r' = r"])
  fix h
  show "hm_get (st_resources (revoke_run_resources r (st\<lparr>st_runs := hm_modify r (\<lambda>run. run\<lparr>mr_state := g run\<rparr>)
      (st_runs st)\<rparr>))) h = map_option (\<lambda>rec. rec\<lparr>rr_revoked := rr_revoked rec
        \<or> rg_run_control_ref (rr_grant rec) = r\<rparr>) (hm_get (st_resources st) h)"
    by (cases "hm_get (st_resources st) h") (auto simp: revoke_run_resources_def hmap_simps)
next
  fix r'
  show "hm_get (st_runs (revoke_run_resources r (st\<lparr>st_runs := hm_modify r (\<lambda>run. run\<lparr>mr_state := g run\<rparr>)
      (st_runs st)\<rparr>))) r' = map_option (\<lambda>run. run\<lparr>mr_state := if r' = r then g run else mr_state run\<rparr>)
        (hm_get (st_runs st) r')"
    by (cases "hm_get (st_runs st) r'") (auto simp: revoke_run_resources_def hmap_simps)
qed (use assms in \<open>auto simp: revoke_run_resources_def split: if_splits\<close>)

lemma quiet_activate:
  assumes "\<And>run. hm_get (st_runs st) r = Some run \<Longrightarrow> mr_state run = Created"
  shows "quiet st (set_run_state r Active st)"
proof (rule quietI [where adv = "\<lambda>r' run. if r' = r then Active else mr_state run" and gone = "\<lambda>_. False"])
  fix r'
  show "hm_get (st_runs (set_run_state r Active st)) r' =
      map_option (\<lambda>run. run\<lparr>mr_state := if r' = r then Active else mr_state run\<rparr>) (hm_get (st_runs st) r')"
    by (cases "hm_get (st_runs st) r'") (auto simp: set_run_state_def hmap_simps)
next
  fix h
  show "hm_get (st_resources (set_run_state r Active st)) h =
      map_option (\<lambda>rec. rec\<lparr>rr_revoked := rr_revoked rec \<or> False\<rparr>) (hm_get (st_resources st) h)"
    by (cases "hm_get (st_resources st) h") (auto simp: set_run_state_def)
qed (use assms in \<open>auto simp: set_run_state_def run_advances_def run_live_def split: if_splits\<close>)

lemma quiet_retire_to:
  assumes "hm_get (st_runs st) r = Some run" and "run_advances (mr_state run) s"
  shows "quiet st (revoke_run_resources r (set_run_state r s st))"
  using quiet_retire [of st r "\<lambda>_. s"] assms by (simp add: set_run_state_def)

lemma quiet_revoke_one: "quiet st (revoke_one st r)"
proof -
  have "revoke_one st r = revoke_run_resources r (st\<lparr>st_runs := hm_modify r
      (\<lambda>run. run\<lparr>mr_state := if run_terminal (mr_state run) then mr_state run else Revoked\<rparr>) (st_runs st)\<rparr>)"
    unfolding revoke_one_def
    by (rule arg_cong [where f = "\<lambda>f. revoke_run_resources r (st\<lparr>st_runs := hm_modify r f (st_runs st)\<rparr>)"])
      (simp add: fun_eq_iff)
  moreover have "run_advances s (if run_terminal s then s else Revoked)" for s
    by (cases s) (simp_all add: run_advances_def run_terminal_def)
  ultimately show ?thesis using quiet_retire by simp
qed

lemma quiet_revoke_many: "quiet st (revoke_many rs st)"
  unfolding revoke_many_def
  by (induction rs arbitrary: st) (auto intro: quiet_refl quiet_trans [OF quiet_revoke_one])

lemmas run_change_defs = activate_run_def cancel_run_def cancel_run_or_confirm_terminal_def finish_run_def
  complete_run_authoritatively_def revoke_run_def interrupt_run_def run_mut_def

lemma quiet_run_changes:
  "quiet st (snd (activate_run r now st))" "quiet st (snd (cancel_run r st))"
  "quiet st (snd (cancel_run_or_confirm_terminal r st))" "quiet st (snd (finish_run r st))"
  "quiet st (snd (complete_run_authoritatively r st))" "quiet st (snd (revoke_run r st))"
  "quiet st (snd (interrupt_run r st))"
  by (auto simp: run_change_defs ok_or_def run_advances_def run_terminal_rank
      nat_less_le [of "run_rank _" 3] run_rank_bound
    split: option.splits sum.splits if_splits ManagedRunStateV1.splits
    intro!: quiet_refl quiet_activate quiet_retire_to)

end
