(* ===== verification/Effect_Invariants.thy ===== *)
theory Effect_Invariants
  imports Effect_Safety
begin

text \<open>
  Invariants of the effect authority: the maps agree with each other (\<open>core_inv\<close>), a run's counters are
  the count of its intents and the sum of what was handed to the backend (\<open>spend_inv\<close>), a run that is no
  longer live has no unrevoked resource (\<open>retire_inv\<close>), and the evidence of a run is the ordered,
  authentic, linked record of its settled intents (\<open>evidence_inv\<close>).
\<close>

section \<open>The invariants\<close>

definition core_inv :: "EffectAuthorityStateV1 \<Rightarrow> bool" where
  "core_inv st \<longleftrightarrow>
     hm_wf (st_envelopes st) \<and> hm_wf (st_runs st) \<and> hm_wf (st_resources st) \<and> hm_wf (st_intents st)
     \<and> hm_wf (st_evidence st)
     \<and> (\<forall>r run. hm_get (st_runs st) r = Some run \<longrightarrow> mr_run_control_ref run = r
          \<and> (\<exists>e. hm_get (st_envelopes st) (mr_envelope_ref run) = Some e \<and> ev_run_control_ref e = r
               \<and> mr_context_ref run = ev_context_ref e \<and> mr_expires_at run = ev_expires_at e))
     \<and> (\<forall>k e. hm_get (st_envelopes st) k = Some e \<longrightarrow> ev_envelope_ref e = k
          \<and> (\<exists>run. hm_get (st_runs st) (ev_run_control_ref e) = Some run \<and> mr_envelope_ref run = k))
     \<and> (\<forall>k i. hm_get (st_intents st) k = Some i \<longrightarrow> in_request_id i = k
          \<and> hm_get (st_runs st) (in_run_control_ref i) \<noteq> None)
     \<and> (\<forall>h rec. hm_get (st_resources st) h = Some rec \<longrightarrow>
          (\<exists>e. hm_get (st_envelopes st) (rr_envelope_ref rec) = Some e \<and> rr_grant rec \<in> set (ev_resources e)))"

definition spent :: "(EffectBudgetsV1 \<Rightarrow> u64) \<Rightarrow> ManagedRunRefV1 \<Rightarrow> EffectRequestV1 list \<Rightarrow> nat" where
  "spent f r log = sum_list (map (\<lambda>q. unat (f (rq_requested_budget_slice q)))
     (filter (\<lambda>q. rq_run_control_ref q = r) log))"

definition run_spend_ok :: "EffectAuthorityStateV1 \<Rightarrow> EffectRequestV1 list \<Rightarrow> ManagedRunRefV1 \<Rightarrow> ManagedRunControlV1 \<Rightarrow> bool" where
  "run_spend_ok st log r run \<longleftrightarrow>
     mr_next_request_sequence run = of_nat (length (run_intents r st))
     \<and> (\<forall>f \<in> set budget_fields. unat (f (mr_cumulative_budget_debits run)) = spent f r log)
     \<and> (\<forall>e. hm_get (st_envelopes st) (mr_envelope_ref run) = Some e \<longrightarrow>
          budgets_is_subset_of (mr_cumulative_budget_debits run) (ev_budgets e))"

definition spend_inv :: "EffectAuthorityStateV1 \<Rightarrow> EffectRequestV1 list \<Rightarrow> bool" where
  "spend_inv st log \<longleftrightarrow>
     (\<forall>r run. hm_get (st_runs st) r = Some run \<longrightarrow> run_spend_ok st log r run)
     \<and> (\<forall>r. map in_sequence (run_intents r st) = map of_nat [0..<length (run_intents r st)])
     \<and> distinct (map rq_request_id log)
     \<and> (\<forall>q \<in> set log. \<exists>i. hm_get (st_intents st) (rq_request_id q) = Some i
          \<and> in_run_control_ref i = rq_run_control_ref q \<and> in_sequence i = rq_sequence q)"

definition retire_inv :: "EffectAuthorityStateV1 \<Rightarrow> bool" where
  "retire_inv st \<longleftrightarrow>
     (\<forall>r run h rec. hm_get (st_runs st) r = Some run \<longrightarrow> \<not> run_live (mr_state run)
        \<longrightarrow> hm_get (st_resources st) h = Some rec \<longrightarrow> rr_envelope_ref rec = mr_envelope_ref run
        \<longrightarrow> rg_run_control_ref (rr_grant rec) = r \<longrightarrow> rr_revoked rec)"

fun linked :: "string option \<Rightarrow> EffectEvidenceV1 list \<Rightarrow> bool" where
  "linked prior [] = True"
| "linked prior (e # es) \<longleftrightarrow>
     ee_prior_evidence_digest e = prior \<and> linked (Some (ee_evidence_digest e)) es"

definition settled :: "EffectIntentV1 \<Rightarrow> bool" where
  "settled i \<longleftrightarrow> in_terminal_evidence_id i \<noteq> None"

definition evidence_inv :: "lib \<Rightarrow> EffectAuthorityStateV1 \<Rightarrow> bool" where
  "evidence_inv L st \<longleftrightarrow> (\<forall>r.
     map (\<lambda>e. (ee_request_id e, ee_sequence e)) (run_evidence r st)
       = map (\<lambda>i. (in_request_id i, in_sequence i)) (filter settled (run_intents r st))
     \<and> linked None (run_evidence r st)
     \<and> (\<forall>e \<in> set (run_evidence r st). evidence_authentic L (st_evidence_key st) e
          \<and> ee_contract_version e = EFFECT_AUTHORITY_VERSION \<and> ee_run_control_ref e = r))"

section \<open>Quiet steps\<close>

lemma core_inv_run:
  "core_inv st \<Longrightarrow> hm_get (st_runs st) r = Some run \<Longrightarrow> mr_run_control_ref run = r
    \<and> (\<exists>e. hm_get (st_envelopes st) (mr_envelope_ref run) = Some e \<and> ev_run_control_ref e = r
         \<and> mr_context_ref run = ev_context_ref e \<and> mr_expires_at run = ev_expires_at e)"
  by (simp add: core_inv_def)

lemma core_inv_intent:
  "core_inv st \<Longrightarrow> hm_get (st_intents st) k = Some i \<Longrightarrow> in_request_id i = k
    \<and> hm_get (st_runs st) (in_run_control_ref i) \<noteq> None"
  by (simp add: core_inv_def)

lemma core_inv_envelope:
  "core_inv st \<Longrightarrow> hm_get (st_envelopes st) k = Some e \<Longrightarrow> ev_envelope_ref e = k
    \<and> (\<exists>run. hm_get (st_runs st) (ev_run_control_ref e) = Some run \<and> mr_envelope_ref run = k)"
  by (simp add: core_inv_def)

lemma core_inv_resource:
  "core_inv st \<Longrightarrow> hm_get (st_resources st) h = Some rec \<Longrightarrow>
     \<exists>e. hm_get (st_envelopes st) (rr_envelope_ref rec) = Some e \<and> rr_grant rec \<in> set (ev_resources e)"
  by (simp add: core_inv_def)

lemma core_inv_wf:
  "core_inv st \<Longrightarrow> hm_wf (st_intents st)" "core_inv st \<Longrightarrow> hm_wf (st_runs st)"
  "core_inv st \<Longrightarrow> hm_wf (st_resources st)"
  by (simp_all add: core_inv_def)

lemma same_keys_get: "map fst m = map fst m' \<Longrightarrow> hm_get m k = None \<longleftrightarrow> hm_get m' k = None"
  by (metis hm_keys_iff hm_keys_def)

lemma quiet_run_forward:
  assumes "quiet st st'" and "hm_get (st_runs st) r = Some run"
  shows "\<exists>s. hm_get (st_runs st') r = Some (run\<lparr>mr_state := s\<rparr>) \<and> run_advances (mr_state run) s"
proof -
  have "hm_get (st_runs st') r \<noteq> None"
    using assms same_keys_get [of "st_runs st'" "st_runs st" r] by (simp add: quiet_def)
  then obtain run' where "hm_get (st_runs st') r = Some run'" by blast
  with quiet_run [OF assms(1) this] assms(2) show ?thesis by (metis option.inject)
qed

lemma quiet_run_intents: "quiet st st' \<Longrightarrow> run_intents r st' = run_intents r st"
  by (simp add: quiet_def run_intents_def)

lemma quiet_run_evidence: "quiet st st' \<Longrightarrow> run_evidence r st' = run_evidence r st"
  by (simp add: quiet_def run_evidence_def)

lemma core_inv_quiet:
  assumes q: "quiet st st'" and inv: "core_inv st"
  shows "core_inv st'"
proof -
  have same: "st_envelopes st' = st_envelopes st" "st_intents st' = st_intents st"
    "st_evidence st' = st_evidence st" "map fst (st_runs st') = map fst (st_runs st)"
    "map fst (st_resources st') = map fst (st_resources st)" using q by (simp_all add: quiet_def)
  have runs: "hm_get (st_runs st') r \<noteq> None \<longleftrightarrow> hm_get (st_runs st) r \<noteq> None" for r
    using same_keys_get [OF same(4)] by simp
  have "mr_run_control_ref run' = r
      \<and> (\<exists>e. hm_get (st_envelopes st) (mr_envelope_ref run') = Some e \<and> ev_run_control_ref e = r
         \<and> mr_context_ref run' = ev_context_ref e \<and> mr_expires_at run' = ev_expires_at e)"
    if "hm_get (st_runs st') r = Some run'" for r run'
  proof -
    from quiet_run [OF q that] obtain run s where "hm_get (st_runs st) r = Some run" "run' = run\<lparr>mr_state := s\<rparr>"
      by blast
    with core_inv_run [OF inv] show ?thesis by auto
  qed
  moreover have "\<exists>run. hm_get (st_runs st') (ev_run_control_ref e) = Some run \<and> mr_envelope_ref run = k"
    if "hm_get (st_envelopes st) k = Some e" for k e
  proof -
    from inv that obtain run where run: "hm_get (st_runs st) (ev_run_control_ref e) = Some run"
      "mr_envelope_ref run = k" using core_inv_envelope by blast
    from quiet_run_forward [OF q run(1)] run(2) show ?thesis by auto
  qed
  moreover have "\<exists>e. hm_get (st_envelopes st) (rr_envelope_ref rec') = Some e \<and> rr_grant rec' \<in> set (ev_resources e)"
    if "hm_get (st_resources st') h = Some rec'" for h rec'
  proof -
    from quiet_resource [OF q that] obtain rec b where "hm_get (st_resources st) h = Some rec"
      "rec' = rec\<lparr>rr_revoked := b\<rparr>" by blast
    with core_inv_resource [OF inv] show ?thesis by fastforce
  qed
  ultimately show ?thesis
    using inv runs unfolding core_inv_def same by auto
qed

lemma spend_inv_quiet:
  assumes q: "quiet st st'" and inv: "spend_inv st log"
  shows "spend_inv st' log"
proof -
  have "run_spend_ok st' log r run'" if "hm_get (st_runs st') r = Some run'" for r run'
  proof -
    from quiet_run [OF q that] obtain run s where "hm_get (st_runs st) r = Some run" "run' = run\<lparr>mr_state := s\<rparr>"
      by blast
    with inv q quiet_run_intents [OF q] show ?thesis
      by (auto simp: spend_inv_def run_spend_ok_def quiet_def [of st st'])
  qed
  with inv q quiet_run_intents [OF q] show ?thesis
    by (auto simp: spend_inv_def quiet_def [of st st'])
qed

lemma retire_inv_quiet:
  assumes q: "quiet st st'" and inv: "retire_inv st"
  shows "retire_inv st'"
  unfolding retire_inv_def
proof (intro allI impI)
  fix r run' h rec'
  assume r: "hm_get (st_runs st') r = Some run'" "\<not> run_live (mr_state run')"
    and h: "hm_get (st_resources st') h = Some rec'" "rr_envelope_ref rec' = mr_envelope_ref run'"
      "rg_run_control_ref (rr_grant rec') = r"
  show "rr_revoked rec'"
  proof (cases "hm_get (st_runs st) r = Some run'")
    case True
    from quiet_resource [OF q h(1)] obtain rec b where rec: "hm_get (st_resources st) h = Some rec"
      "rr_revoked rec \<longrightarrow> rr_revoked rec'" "rec' = rec\<lparr>rr_revoked := b\<rparr>" by blast
    with inv True r h show ?thesis by (auto simp: retire_inv_def)
  next
    case False
    with quiet_retired [OF q r(1) _ r(2) h(1,3)] show ?thesis by blast
  qed
qed

lemma evidence_inv_quiet:
  "quiet st st' \<Longrightarrow> evidence_inv L st \<Longrightarrow> evidence_inv L st'"
  unfolding evidence_inv_def by (simp add: quiet_run_intents quiet_run_evidence) (simp add: quiet_def)

section \<open>Installing an envelope\<close>

definition add_grants ::
  "EffectEnvelopeRefV1 \<Rightarrow> (ResourceHandleRefV1, ResourceAuthorityRecordV1) hmap \<Rightarrow> ResourceGrantV1 list
    \<Rightarrow> (ResourceHandleRefV1, ResourceAuthorityRecordV1) hmap" where
  "add_grants k m gs = foldl (\<lambda>m grant. hm_insert (rg_handle_ref grant)
     \<lparr>rr_grant = grant, rr_envelope_ref = k, rr_revoked = False\<rparr> m) m gs"

lemma add_grants_wf: "hm_wf m \<Longrightarrow> hm_wf (add_grants k m gs)"
  unfolding add_grants_def by (induction gs arbitrary: m) auto

lemma add_grants_get:
  "hm_get (add_grants k m gs) h = Some rec \<Longrightarrow>
     hm_get m h = Some rec \<or> (\<exists>g \<in> set gs. rec = \<lparr>rr_grant = g, rr_envelope_ref = k, rr_revoked = False\<rparr>)"
proof (induction gs arbitrary: m)
  case (Cons g gs)
  then have "hm_get (add_grants k (hm_insert (rg_handle_ref g)
      \<lparr>rr_grant = g, rr_envelope_ref = k, rr_revoked = False\<rparr> m) gs) h = Some rec"
    by (simp add: add_grants_def)
  from Cons.IH [OF this] show ?case by (auto simp: hmap_simps split: if_splits)
qed (simp add: add_grants_def)

lemma add_grants_old:
  "h \<notin> rg_handle_ref ` set gs \<Longrightarrow> hm_get (add_grants k m gs) h = hm_get m h"
  unfolding add_grants_def by (induction gs arbitrary: m) (auto simp: hmap_simps)

text \<open>An installation either refuses and changes nothing, or adds one run, one envelope, and the
  envelope's grants, all new.\<close>

lemma install_envelope_cases [consumes 1, case_names refused installed]:
  assumes "st' = snd (install_envelope L draft envelope st)"
  obtains (refused) "st' = st"
  | (installed) run where "hm_get (st_envelopes st) (ev_envelope_ref envelope) = None"
      and "hm_get (st_runs st) (ev_run_control_ref envelope) = None"
      and "\<forall>g \<in> set (ev_resources envelope). hm_get (st_resources st) (rg_handle_ref g) = None"
      and "run = \<lparr>mr_contract_version = EFFECT_AUTHORITY_VERSION,
           mr_run_control_ref = ev_run_control_ref envelope, mr_context_ref = ev_context_ref envelope,
           mr_envelope_ref = ev_envelope_ref envelope, mr_state = Created, mr_next_request_sequence = 0,
           mr_cumulative_budget_debits = budgets_default, mr_expires_at = ev_expires_at envelope\<rparr>"
      and "st' = st\<lparr>st_resources := add_grants (ev_envelope_ref envelope) (st_resources st) (ev_resources envelope),
        st_runs := hm_insert (ev_run_control_ref envelope) run (st_runs st),
        st_envelopes := hm_insert (ev_envelope_ref envelope) envelope (st_envelopes st)\<rparr>"
  using assms
  by (auto simp: install_envelope_def add_grants_def hm_contains_iff list_ex_iff split: if_splits)

lemma core_inv_install:
  assumes inv: "core_inv st" and "st' = snd (install_envelope L draft envelope st)"
  shows "core_inv st'"
  using assms(2)
proof (cases rule: install_envelope_cases)
  case (installed run)
  have env: "hm_get (st_envelopes st') k = (if k = ev_envelope_ref envelope then Some envelope
      else hm_get (st_envelopes st) k)" for k by (simp add: installed(5) hmap_simps)
  have runs: "hm_get (st_runs st') r = (if r = ev_run_control_ref envelope then Some run
      else hm_get (st_runs st) r)" for r by (simp add: installed(5) hmap_simps)
  have ints: "st_intents st' = st_intents st" by (simp add: installed(5))
  have "mr_run_control_ref x = r \<and> (\<exists>e. hm_get (st_envelopes st') (mr_envelope_ref x) = Some e
      \<and> ev_run_control_ref e = r \<and> mr_context_ref x = ev_context_ref e \<and> mr_expires_at x = ev_expires_at e)"
    if "hm_get (st_runs st') r = Some x" for r x
  proof (cases "r = ev_run_control_ref envelope")
    case True
    with that show ?thesis by (auto simp: runs env installed(4))
  next
    case False
    with that have x: "hm_get (st_runs st) r = Some x" by (simp add: runs)
    with core_inv_run [OF inv] installed(1) show ?thesis by (fastforce simp: env)
  qed
  moreover have "ev_envelope_ref e = k \<and> (\<exists>x. hm_get (st_runs st') (ev_run_control_ref e) = Some x
      \<and> mr_envelope_ref x = k)" if "hm_get (st_envelopes st') k = Some e" for k e
  proof (cases "k = ev_envelope_ref envelope")
    case True
    with that show ?thesis by (auto simp: runs env installed(4))
  next
    case False
    with that have "hm_get (st_envelopes st) k = Some e" by (simp add: env)
    with core_inv_envelope [OF inv] installed(2) show ?thesis by (fastforce simp: runs)
  qed
  moreover have "in_request_id i = k \<and> hm_get (st_runs st') (in_run_control_ref i) \<noteq> None"
    if "hm_get (st_intents st') k = Some i" for k i
    using that core_inv_intent [OF inv] by (auto simp: runs ints)
  moreover have "\<exists>e. hm_get (st_envelopes st') (rr_envelope_ref rec) = Some e \<and> rr_grant rec \<in> set (ev_resources e)"
    if "hm_get (st_resources st') h = Some rec" for h rec
  proof -
    from that have "hm_get (st_resources st) h = Some rec \<or> (\<exists>g \<in> set (ev_resources envelope).
        rec = \<lparr>rr_grant = g, rr_envelope_ref = ev_envelope_ref envelope, rr_revoked = False\<rparr>)"
      unfolding installed(5) by (auto dest: add_grants_get)
    with core_inv_resource [OF inv] installed(1) show ?thesis by (fastforce simp: env)
  qed
  moreover have "hm_wf (st_envelopes st')" "hm_wf (st_runs st')" "hm_wf (st_resources st')"
    "hm_wf (st_intents st')" "hm_wf (st_evidence st')"
    using inv by (simp_all add: core_inv_def installed(5) add_grants_wf)
  ultimately show ?thesis unfolding core_inv_def by blast
qed (simp add: inv)

lemma run_intents_fresh:
  assumes "core_inv st" and "hm_get (st_runs st) r = None"
  shows "run_intents r st = []"
proof -
  have "in_run_control_ref i \<noteq> r" if i: "i \<in> set (hm_values (st_intents st))" for i
  proof -
    from i obtain k where "(k, i) \<in> set (st_intents st)" by (auto simp: hm_values_def)
    with core_inv_wf(1) [OF assms(1)] have "hm_get (st_intents st) k = Some i" by (simp add: hm_pair_get)
    from core_inv_intent [OF assms(1) this] assms(2) show ?thesis by auto
  qed
  then show ?thesis by (simp add: run_intents_def filter_empty_conv)
qed

lemma spent_fresh:
  assumes "core_inv st" and "spend_inv st log" and "hm_get (st_runs st) r = None"
  shows "spent f r log = 0"
proof -
  have "rq_run_control_ref q \<noteq> r" if "q \<in> set log" for q
    using assms(2,3) that core_inv_intent [OF assms(1)] by (fastforce simp: spend_inv_def)
  then have none: "filter (\<lambda>q. rq_run_control_ref q = r) log = []" by (simp add: filter_empty_conv)
  show ?thesis unfolding spent_def none by simp
qed

lemma spend_inv_install:
  assumes core: "core_inv st" and inv: "spend_inv st log" and "st' = snd (install_envelope L draft envelope st)"
  shows "spend_inv st' log"
  using assms(3)
proof (cases rule: install_envelope_cases)
  case (installed run)
  have ints: "run_intents r st' = run_intents r st" for r by (simp add: installed(5) run_intents_def)
  have "run_spend_ok st' log r x" if "hm_get (st_runs st') r = Some x" for r x
  proof (cases "r = ev_run_control_ref envelope")
    case True
    have "run_intents r st = []" using run_intents_fresh [OF core] installed(2) True by simp
    moreover have "spent f r log = 0" for f using spent_fresh [OF core inv] installed(2) True by simp
    moreover have "x = run" using that True by (simp add: installed(5) hmap_simps)
    ultimately show ?thesis
      by (auto simp: run_spend_ok_def ints installed(4) budgets_default_fields
        budgets_is_subset_of_fields)
  next
    case False
    with that have x: "hm_get (st_runs st) r = Some x" by (simp add: installed(5) hmap_simps)
    with inv have "run_spend_ok st log r x" by (simp add: spend_inv_def)
    moreover from core_inv_run [OF core x] installed(1) have
      "hm_get (st_envelopes st') (mr_envelope_ref x) = hm_get (st_envelopes st) (mr_envelope_ref x)"
      by (auto simp: installed(5) hmap_simps)
    ultimately show ?thesis by (simp add: run_spend_ok_def ints)
  qed
  moreover have "st_intents st' = st_intents st" by (simp add: installed(5))
  ultimately show ?thesis using inv by (auto simp: spend_inv_def ints)
qed (simp add: inv)

lemma retire_inv_install:
  assumes core: "core_inv st" and inv: "retire_inv st" and "st' = snd (install_envelope L draft envelope st)"
  shows "retire_inv st'"
  using assms(3)
proof (cases rule: install_envelope_cases)
  case (installed run)
  show ?thesis
    unfolding retire_inv_def
  proof (intro allI impI)
    fix r x h rec
    assume r: "hm_get (st_runs st') r = Some x" "\<not> run_live (mr_state x)"
      and h: "hm_get (st_resources st') h = Some rec" "rr_envelope_ref rec = mr_envelope_ref x"
        "rg_run_control_ref (rr_grant rec) = r"
    from r have x: "hm_get (st_runs st) r = Some x"
      by (auto simp: installed(4,5) hmap_simps run_live_def split: if_splits)
    with core_inv_run [OF core] installed(1) have "mr_envelope_ref x \<noteq> ev_envelope_ref envelope" by force
    with h(1,2) have "hm_get (st_resources st) h = Some rec"
      unfolding installed(5) by (auto dest: add_grants_get)
    with inv x r(2) h show "rr_revoked rec" by (auto simp: retire_inv_def)
  qed
qed (simp add: inv)

lemma evidence_inv_install:
  assumes inv: "evidence_inv L st" and "st' = snd (install_envelope L draft envelope st)"
  shows "evidence_inv L st'"
  using assms(2)
proof (cases rule: install_envelope_cases)
  case (installed run)
  with inv show ?thesis by (simp add: evidence_inv_def run_evidence_def run_intents_def)
qed (simp add: inv)

section \<open>The stages of enforcement\<close>

definition new_intent :: "lib \<Rightarrow> EffectRequestV1 \<Rightarrow> int \<Rightarrow> EffectIntentV1" where
  "new_intent L request now = \<lparr>in_request_id = rq_request_id request, in_envelope_ref = rq_envelope_ref request,
     in_run_control_ref = rq_run_control_ref request, in_sequence = rq_sequence request,
     in_request_digest = domain_hash L ''pastey-effect-request-intent-v1'' (request_json request),
     in_claimed_at = now, in_terminal_evidence_id = None, in_indeterminate = False\<rparr>"

text \<open>Between the claim of an intent and its settlement: the intent is the last one of its run.\<close>

definition pending :: "EffectRequestV1 \<Rightarrow> EffectAuthorityStateV1 \<Rightarrow> bool" where
  "pending q st \<longleftrightarrow> (\<exists>is i. run_intents (rq_run_control_ref q) st = is @ [i] \<and> in_request_id i = rq_request_id q
     \<and> in_sequence i = rq_sequence q \<and> \<not> settled i)"

lemma claim_intents:
  assumes "hm_get (st_intents st) (rq_request_id q) = None"
  shows "st_intents (claim_intent L q now st) = st_intents st @ [(rq_request_id q, new_intent L q now)]"
  using hm_insert_fresh [OF assms] by (simp add: claim_intent_def new_intent_def)

lemma claim_run_intents:
  assumes "hm_get (st_intents st) (rq_request_id q) = None"
  shows "run_intents r (claim_intent L q now st) =
    run_intents r st @ (if rq_run_control_ref q = r then [new_intent L q now] else [])"
  by (simp add: run_intents_def claim_intents [OF assms] hm_values_def new_intent_def)

lemma claim_runs:
  "hm_get (st_runs (claim_intent L q now st)) r = (if r = rq_run_control_ref q
     then map_option (\<lambda>run. run\<lparr>mr_next_request_sequence := mr_next_request_sequence run + 1\<rparr>) (hm_get (st_runs st) r)
     else hm_get (st_runs st) r)"
  by (simp add: claim_intent_def hmap_simps)

text \<open>The fields of a run that only its installation sets, and its state.\<close>

definition same_run :: "ManagedRunControlV1 \<Rightarrow> ManagedRunControlV1 \<Rightarrow> bool" where
  "same_run x y \<longleftrightarrow> mr_run_control_ref x = mr_run_control_ref y \<and> mr_context_ref x = mr_context_ref y
     \<and> mr_envelope_ref x = mr_envelope_ref y \<and> mr_expires_at x = mr_expires_at y \<and> mr_state x = mr_state y"

lemma claim_runs_back:
  "hm_get (st_runs (claim_intent L q now st)) r = Some x \<Longrightarrow> \<exists>y. hm_get (st_runs st) r = Some y \<and> same_run x y"
  by (auto simp: claim_runs same_run_def split: if_splits)

lemma claim_same [simp]:
  "st_envelopes (claim_intent L q now st) = st_envelopes st"
  "st_resources (claim_intent L q now st) = st_resources st"
  "st_evidence (claim_intent L q now st) = st_evidence st"
  "st_evidence_key (claim_intent L q now st) = st_evidence_key st"
  by (simp_all add: claim_intent_def)

lemma core_inv_claim:
  assumes inv: "core_inv st" and fresh: "hm_get (st_intents st) (rq_request_id q) = None"
    and run: "hm_get (st_runs st) (rq_run_control_ref q) \<noteq> None"
  shows "core_inv (claim_intent L q now st)"
proof -
  let ?st = "claim_intent L q now st"
  have runs: "hm_get (st_runs ?st) r \<noteq> None \<longleftrightarrow> hm_get (st_runs st) r \<noteq> None" for r
    by (auto simp: claim_runs)
  have ints: "hm_get (st_intents ?st) k = (if k = rq_request_id q then Some (new_intent L q now)
      else hm_get (st_intents st) k)" for k
    by (simp add: claim_intent_def hmap_simps new_intent_def)
  have "mr_run_control_ref x = r \<and> (\<exists>e. hm_get (st_envelopes st) (mr_envelope_ref x) = Some e
      \<and> ev_run_control_ref e = r \<and> mr_context_ref x = ev_context_ref e \<and> mr_expires_at x = ev_expires_at e)"
    if "hm_get (st_runs ?st) r = Some x" for r x
    using claim_runs_back [OF that] core_inv_run [OF inv] by (auto simp: same_run_def)
  moreover have "\<exists>x. hm_get (st_runs ?st) (ev_run_control_ref e) = Some x \<and> mr_envelope_ref x = k"
    if "hm_get (st_envelopes st) k = Some e" for k e
    using core_inv_envelope [OF inv that] by (auto simp: claim_runs)
  moreover have "in_request_id i = k \<and> hm_get (st_runs ?st) (in_run_control_ref i) \<noteq> None"
    if "hm_get (st_intents ?st) k = Some i" for k i
  proof (cases "k = rq_request_id q")
    case True
    with that have "i = new_intent L q now" by (simp add: ints)
    with True run runs show ?thesis by (simp add: new_intent_def)
  next
    case False
    with that have "hm_get (st_intents st) k = Some i" by (simp add: ints)
    from core_inv_intent [OF inv this] runs show ?thesis by simp
  qed
  moreover have "hm_wf (st_intents ?st)" "hm_wf (st_runs ?st)"
    using core_inv_wf [OF inv] by (simp_all add: claim_intent_def)
  ultimately show ?thesis using inv unfolding core_inv_def by simp
qed

lemma spend_inv_claim:
  assumes inv: "spend_inv st log" and fresh: "hm_get (st_intents st) (rq_request_id q) = None"
    and run: "hm_get (st_runs st) (rq_run_control_ref q) = Some run"
    and seq: "rq_sequence q = mr_next_request_sequence run"
  shows "spend_inv (claim_intent L q now st) log"
proof -
  let ?st = "claim_intent L q now st"
  have len: "mr_next_request_sequence run = of_nat (length (run_intents (rq_run_control_ref q) st))"
    using inv run by (simp add: spend_inv_def run_spend_ok_def)
  have "run_spend_ok ?st log r x" if "hm_get (st_runs ?st) r = Some x" for r x
  proof (cases "r = rq_run_control_ref q")
    case True
    with that run have "x = run\<lparr>mr_next_request_sequence := mr_next_request_sequence run + 1\<rparr>"
      by (simp add: claim_runs)
    moreover have "run_spend_ok st log r run" using inv run True by (simp add: spend_inv_def)
    ultimately show ?thesis using True by (simp add: run_spend_ok_def claim_run_intents [OF fresh])
  next
    case False
    with that have "hm_get (st_runs st) r = Some x" by (simp add: claim_runs)
    with inv have "run_spend_ok st log r x" by (simp add: spend_inv_def)
    with False show ?thesis by (simp add: run_spend_ok_def claim_run_intents [OF fresh])
  qed
  moreover have "map in_sequence (run_intents r ?st) = map of_nat [0..<length (run_intents r ?st)]" for r
  proof -
    have "map in_sequence (run_intents r st) = map of_nat [0..<length (run_intents r st)]"
      using inv by (simp add: spend_inv_def)
    then show ?thesis
      using seq len by (auto simp: claim_run_intents [OF fresh] new_intent_def)
  qed
  moreover have "hm_get (st_intents ?st) k = Some i" if "hm_get (st_intents st) k = Some i" for k i
    using that fresh by (auto simp: claim_intent_def hmap_simps)
  ultimately show ?thesis using inv unfolding spend_inv_def by blast
qed

lemma retire_inv_claim:
  assumes "retire_inv st"
  shows "retire_inv (claim_intent L q now st)"
  unfolding retire_inv_def
proof (intro allI impI)
  fix r x h rec
  assume a: "hm_get (st_runs (claim_intent L q now st)) r = Some x" "\<not> run_live (mr_state x)"
    "hm_get (st_resources (claim_intent L q now st)) h = Some rec" "rr_envelope_ref rec = mr_envelope_ref x"
    "rg_run_control_ref (rr_grant rec) = r"
  from claim_runs_back [OF a(1)] obtain y where "hm_get (st_runs st) r = Some y" "same_run x y" by blast
  with a assms show "rr_revoked rec" by (auto simp: retire_inv_def same_run_def)
qed

lemma run_evidence_same: "st_evidence st' = st_evidence st \<Longrightarrow> run_evidence r st' = run_evidence r st"
  by (simp add: run_evidence_def)

lemma evidence_inv_claim:
  assumes "evidence_inv L st" and "hm_get (st_intents st) (rq_request_id q) = None"
  shows "evidence_inv L (claim_intent L q now st)"
proof -
  have "filter settled (run_intents r (claim_intent L q now st)) = filter settled (run_intents r st)" for r
    by (simp add: claim_run_intents [OF assms(2)] settled_def new_intent_def)
  then show ?thesis
    using assms(1) unfolding evidence_inv_def by (simp add: run_evidence_def)
qed

lemma pending_claim:
  "hm_get (st_intents st) (rq_request_id q) = None \<Longrightarrow> pending q (claim_intent L q now st)"
  unfolding pending_def claim_run_intents by (simp add: settled_def new_intent_def)

text \<open>The reservation of the budget, with the request entering the log.\<close>

lemma reserve_same [simp]:
  "st_envelopes (reserve_budget r b st) = st_envelopes st" "st_resources (reserve_budget r b st) = st_resources st"
  "st_evidence (reserve_budget r b st) = st_evidence st" "st_intents (reserve_budget r b st) = st_intents st"
  "st_evidence_key (reserve_budget r b st) = st_evidence_key st"
  "run_intents r' (reserve_budget r b st) = run_intents r' st"
  by (simp_all add: reserve_budget_def run_intents_def)

lemma reserve_runs:
  "hm_get (st_runs (reserve_budget r b st)) r' = (if r' = r
     then map_option (\<lambda>run. run\<lparr>mr_cumulative_budget_debits := b\<rparr>) (hm_get (st_runs st) r')
     else hm_get (st_runs st) r')"
  by (simp add: reserve_budget_def hmap_simps)

lemma reserve_runs_back:
  "hm_get (st_runs (reserve_budget r b st)) r' = Some x \<Longrightarrow> \<exists>y. hm_get (st_runs st) r' = Some y \<and> same_run x y"
  by (auto simp: reserve_runs same_run_def split: if_splits)

lemma core_inv_reserve:
  assumes inv: "core_inv st"
  shows "core_inv (reserve_budget r b st)"
proof -
  have "mr_run_control_ref x = r' \<and> (\<exists>e. hm_get (st_envelopes st) (mr_envelope_ref x) = Some e
      \<and> ev_run_control_ref e = r' \<and> mr_context_ref x = ev_context_ref e \<and> mr_expires_at x = ev_expires_at e)"
    if "hm_get (st_runs (reserve_budget r b st)) r' = Some x" for r' x
    using reserve_runs_back [OF that] core_inv_run [OF inv] by (auto simp: same_run_def)
  moreover have "\<exists>x. hm_get (st_runs (reserve_budget r b st)) (ev_run_control_ref e) = Some x \<and> mr_envelope_ref x = k"
    if "hm_get (st_envelopes st) k = Some e" for k e
    using core_inv_envelope [OF inv that] by (auto simp: reserve_runs)
  moreover have "in_request_id i = k \<and> hm_get (st_runs (reserve_budget r b st)) (in_run_control_ref i) \<noteq> None"
    if "hm_get (st_intents st) k = Some i" for k i
    using core_inv_intent [OF inv that] by (auto simp: reserve_runs)
  moreover have "hm_wf (st_runs (reserve_budget r b st))"
    using core_inv_wf [OF inv] by (simp add: reserve_budget_def)
  ultimately show ?thesis using inv unfolding core_inv_def by simp
qed

lemma spent_snoc: "spent f r (log @ [q]) = spent f r log +
    (if rq_run_control_ref q = r then unat (f (rq_requested_budget_slice q)) else 0)"
  by (simp add: spent_def)

lemma next_debits_Some:
  "next_debits e run q = Some b \<longleftrightarrow>
     budgets_checked_add (mr_cumulative_budget_debits run) (rq_requested_budget_slice q) = Some b
     \<and> budgets_is_subset_of b (ev_budgets e)"
  by (auto simp: next_debits_def split: option.splits if_splits)

lemma spend_inv_reserve:
  assumes inv: "spend_inv st log"
    and run: "hm_get (st_runs st) (rq_run_control_ref q) = Some run"
    and env: "hm_get (st_envelopes st) (mr_envelope_ref run) = Some e"
    and nxt: "next_debits e run q = Some b"
    and int: "hm_get (st_intents st) (rq_request_id q) = Some i" "in_run_control_ref i = rq_run_control_ref q"
      "in_sequence i = rq_sequence q"
    and new: "rq_request_id q \<notin> rq_request_id ` set log"
  shows "spend_inv (reserve_budget (rq_run_control_ref q) b st) (log @ [q])"
proof -
  let ?st = "reserve_budget (rq_run_control_ref q) b st"
  have "run_spend_ok ?st (log @ [q]) r x" if x: "hm_get (st_runs ?st) r = Some x" for r x
  proof (cases "r = rq_run_control_ref q")
    case True
    have "run_spend_ok st log r run" using inv run True by (simp add: spend_inv_def)
    moreover have "x = run\<lparr>mr_cumulative_budget_debits := b\<rparr>" using x run True by (simp add: reserve_runs)
    ultimately show ?thesis
      using True nxt env
      by (auto simp: run_spend_ok_def spent_snoc next_debits_Some dest: budgets_checked_add_fields)
  next
    case False
    with x have "hm_get (st_runs st) r = Some x" by (simp add: reserve_runs)
    with inv have "run_spend_ok st log r x" by (simp add: spend_inv_def)
    with False show ?thesis by (simp add: run_spend_ok_def spent_snoc)
  qed
  with inv int new show ?thesis unfolding spend_inv_def by simp
qed

lemma retire_inv_reserve:
  assumes "retire_inv st"
  shows "retire_inv (reserve_budget r b st)"
  unfolding retire_inv_def
proof (intro allI impI)
  fix r' x h rec
  assume a: "hm_get (st_runs (reserve_budget r b st)) r' = Some x" "\<not> run_live (mr_state x)"
    "hm_get (st_resources (reserve_budget r b st)) h = Some rec" "rr_envelope_ref rec = mr_envelope_ref x"
    "rg_run_control_ref (rr_grant rec) = r'"
  from reserve_runs_back [OF a(1)] obtain y where "hm_get (st_runs st) r' = Some y" "same_run x y" by blast
  with a assms show "rr_revoked rec" by (auto simp: retire_inv_def same_run_def)
qed

lemma evidence_inv_reserve: "evidence_inv L st \<Longrightarrow> evidence_inv L (reserve_budget r b st)"
  unfolding evidence_inv_def by (simp add: run_evidence_def)

lemma pending_reserve: "pending q st \<Longrightarrow> pending q (reserve_budget r b st)"
  by (simp add: pending_def)

text \<open>Changing one intent in place, keeping what identifies it.\<close>

definition keeps_identity :: "(EffectIntentV1 \<Rightarrow> EffectIntentV1) \<Rightarrow> bool" where
  "keeps_identity f \<longleftrightarrow> (\<forall>i. in_request_id (f i) = in_request_id i \<and> in_run_control_ref (f i) = in_run_control_ref i
     \<and> in_sequence (f i) = in_sequence i)"

definition modify_intent :: "EffectRequestIdV1 \<Rightarrow> (EffectIntentV1 \<Rightarrow> EffectIntentV1) \<Rightarrow> EffectAuthorityStateV1
    \<Rightarrow> EffectAuthorityStateV1" where
  "modify_intent k f st = st\<lparr>st_intents := hm_modify k f (st_intents st)\<rparr>"

lemma modify_same [simp]:
  "st_envelopes (modify_intent k f st) = st_envelopes st" "st_resources (modify_intent k f st) = st_resources st"
  "st_evidence (modify_intent k f st) = st_evidence st" "st_runs (modify_intent k f st) = st_runs st"
  "st_evidence_key (modify_intent k f st) = st_evidence_key st"
  by (simp_all add: modify_intent_def)

lemma modify_run_intents:
  assumes "core_inv st" and "keeps_identity f"
  shows "run_intents r (modify_intent k f st) =
    map (\<lambda>i. if in_request_id i = k then f i else i) (run_intents r st)"
proof -
  have key: "in_request_id i = k'" if "(k', i) \<in> set (st_intents st)" for k' i
    using core_inv_intent [OF assms(1) hm_pair_get [OF core_inv_wf(1) [OF assms(1)] that]] by simp
  then have "hm_values (hm_modify k f (st_intents st)) =
      map (\<lambda>i. if in_request_id i = k then f i else i) (hm_values (st_intents st))"
    by (auto simp: hm_values_def hm_modify_def)
  then show ?thesis
    using assms(2) by (simp add: run_intents_def modify_intent_def filter_map comp_def keeps_identity_def if_distrib
      cong: if_cong filter_cong)
qed

lemma core_inv_modify:
  assumes inv: "core_inv st" and f: "keeps_identity f"
  shows "core_inv (modify_intent k f st)"
proof -
  have "in_request_id i = k' \<and> hm_get (st_runs st) (in_run_control_ref i) \<noteq> None"
    if "hm_get (st_intents (modify_intent k f st)) k' = Some i" for k' i
  proof -
    from that obtain j where "hm_get (st_intents st) k' = Some j" "i = j \<or> i = f j"
      by (auto simp: modify_intent_def hmap_simps split: if_splits)
    with core_inv_intent [OF inv] f show ?thesis by (auto simp: keeps_identity_def)
  qed
  moreover have "hm_wf (st_intents (modify_intent k f st))"
    using core_inv_wf [OF inv] by (simp add: modify_intent_def)
  ultimately show ?thesis using inv unfolding core_inv_def by simp
qed

lemma spend_inv_modify:
  assumes core: "core_inv st" and f: "keeps_identity f" and inv: "spend_inv st log"
  shows "spend_inv (modify_intent k f st) log"
proof -
  have seqs: "map in_sequence (run_intents r (modify_intent k f st)) = map in_sequence (run_intents r st)" for r
    using f by (simp add: modify_run_intents [OF core f] keeps_identity_def)
  have len: "length (run_intents r (modify_intent k f st)) = length (run_intents r st)" for r
    by (simp add: modify_run_intents [OF core f])
  have "\<exists>i. hm_get (st_intents (modify_intent k f st)) (rq_request_id q) = Some i
      \<and> in_run_control_ref i = rq_run_control_ref q \<and> in_sequence i = rq_sequence q" if "q \<in> set log" for q
  proof -
    from inv that obtain i where "hm_get (st_intents st) (rq_request_id q) = Some i"
      "in_run_control_ref i = rq_run_control_ref q" "in_sequence i = rq_sequence q"
      by (auto simp: spend_inv_def)
    with f show ?thesis by (auto simp: modify_intent_def hmap_simps keeps_identity_def)
  qed
  then show ?thesis
    using inv unfolding spend_inv_def run_spend_ok_def by (simp add: seqs len)
qed

lemma retire_inv_modify: "retire_inv st \<Longrightarrow> retire_inv (modify_intent k f st)"
  by (simp add: retire_inv_def)

lemma filter_modified:
  "(\<And>i. P (f i) = P i) \<Longrightarrow> filter P (map (\<lambda>i. if c i then f i else i) xs) =
     map (\<lambda>i. if c i then f i else i) (filter P xs)"
  by (induction xs) auto

lemma evidence_inv_modify:
  assumes core: "core_inv st" and f: "keeps_identity f" and inv: "evidence_inv L st"
    and settled: "\<And>i. settled (f i) = settled i"
  shows "evidence_inv L (modify_intent k f st)"
proof -
  have "map (\<lambda>i. (in_request_id i, in_sequence i)) (filter settled (run_intents r (modify_intent k f st)))
      = map (\<lambda>i. (in_request_id i, in_sequence i)) (filter settled (run_intents r st))" for r
    using f by (simp add: modify_run_intents [OF core f] filter_modified [of settled f, OF settled] keeps_identity_def)
  then show ?thesis using inv unfolding evidence_inv_def by (simp add: run_evidence_def)
qed

lemma mark_is_modify:
  "mark_indeterminate k st = modify_intent k (\<lambda>i. i\<lparr>in_indeterminate := True\<rparr>) st"
  by (simp add: mark_indeterminate_def modify_intent_def)

text \<open>Settling the pending intent.\<close>

lemma append_evidence_cases [consumes 1, case_names refused settled]:
  assumes "append_evidence L envelope q decision summary facts debit st = (result, st')"
  obtains (refused) e where "result = Inl e" and "st' = st"
  | (settled) evidence where "result = Inr evidence" and "evidence_authentic L (st_evidence_key st) evidence"
      and "ee_contract_version evidence = EFFECT_AUTHORITY_VERSION"
      and "ee_run_control_ref evidence = rq_run_control_ref q" and "ee_request_id evidence = rq_request_id q"
      and "ee_sequence evidence = rq_sequence q" and "ee_decision evidence = decision"
      and "ee_budget_debit evidence = debit" and "ee_facts evidence = facts"
      and "ee_prior_evidence_digest evidence = (if run_evidence (rq_run_control_ref q) st = [] then None
        else Some (ee_evidence_digest (last (run_evidence (rq_run_control_ref q) st))))"
      and "st' = modify_intent (rq_request_id q)
          (\<lambda>i. i\<lparr>in_terminal_evidence_id := Some (ee_evidence_id evidence)\<rparr>)
          (st\<lparr>st_evidence := hm_insert (rq_run_control_ref q)
            (run_evidence (rq_run_control_ref q) st @ [evidence]) (st_evidence st)\<rparr>)"
proof (cases "validate_id summary ''effect evidence summary''")
  case (Inl e)
  with assms have "result = Inl e" "st' = st" by (simp_all add: append_evidence_def)
  then show thesis by (rule refused)
next
  case (Inr u)
  have material: "evidence_hash_material (x\<lparr>ee_evidence_id := a\<rparr>) = evidence_hash_material x"
    "evidence_hash_material (x\<lparr>ee_evidence_digest := a\<rparr>) = evidence_hash_material x"
    "evidence_hash_material (x\<lparr>ee_host_authenticator := a\<rparr>) = evidence_hash_material x" for x a
    by (simp_all add: evidence_hash_material_def)
  obtain evidence where "result = Inr evidence" using assms Inr by (auto simp: append_evidence_def Let_def)
  moreover from this assms Inr have "evidence_authentic L (st_evidence_key st) evidence"
    by (auto simp: append_evidence_def Let_def evidence_authentic_def compute_evidence_id_def
      compute_evidence_digest_def host_authenticator_def material evidence_hash_material_def)
  ultimately show thesis
    using assms Inr by (intro settled [of evidence])
      (auto simp: append_evidence_def Let_def modify_intent_def run_evidence_def)
qed

lemma linked_snoc:
  "linked p (es @ [e]) \<longleftrightarrow> linked p es
     \<and> ee_prior_evidence_digest e = (if es = [] then p else Some (ee_evidence_digest (last es)))"
  by (induction es arbitrary: p) auto

lemma core_inv_evidence_update: "core_inv st \<Longrightarrow> core_inv (st\<lparr>st_evidence := hm_insert r es (st_evidence st)\<rparr>)"
  by (simp add: core_inv_def)

lemma spend_inv_evidence_update: "spend_inv (st\<lparr>st_evidence := x\<rparr>) log \<longleftrightarrow> spend_inv st log"
  by (simp add: spend_inv_def run_spend_ok_def run_intents_def)

lemma retire_inv_evidence_update: "retire_inv (st\<lparr>st_evidence := x\<rparr>) \<longleftrightarrow> retire_inv st"
  by (simp add: retire_inv_def)

lemma keeps_identity_settle [simp]: "keeps_identity (\<lambda>i. i\<lparr>in_terminal_evidence_id := x\<rparr>)"
  by (simp add: keeps_identity_def)

lemma keeps_identity_mark [simp]: "keeps_identity (\<lambda>i. i\<lparr>in_indeterminate := x\<rparr>)"
  by (simp add: keeps_identity_def)

lemma distinct_run_intents:
  assumes "core_inv st"
  shows "distinct (map in_request_id (run_intents r st))"
proof -
  have "map in_request_id (hm_values (st_intents st)) = map fst (st_intents st)"
    using core_inv_intent [OF assms hm_pair_get [OF core_inv_wf(1) [OF assms]]]
    by (auto simp: hm_values_def)
  with core_inv_wf(1) [OF assms] show ?thesis
    by (simp add: run_intents_def distinct_map_filter)
qed

lemma run_intents_mem:
  assumes "core_inv st" and "i \<in> set (run_intents r st)"
  shows "hm_get (st_intents st) (in_request_id i) = Some i \<and> in_run_control_ref i = r"
proof -
  from assms(2) obtain k where "(k, i) \<in> set (st_intents st)" and r: "in_run_control_ref i = r"
    by (auto simp: run_intents_def hm_values_def)
  then have "hm_get (st_intents st) k = Some i" using core_inv_wf(1) [OF assms(1)] by (simp add: hm_pair_get)
  with core_inv_intent [OF assms(1) this] r show ?thesis by simp
qed

lemma run_intents_other:
  assumes "core_inv st" and "pending q st" and "r \<noteq> rq_run_control_ref q" and "i \<in> set (run_intents r st)"
  shows "in_request_id i \<noteq> rq_request_id q"
proof -
  from assms(2) obtain j where "j \<in> set (run_intents (rq_run_control_ref q) st)" "in_request_id j = rq_request_id q"
    by (fastforce simp: pending_def)
  with run_intents_mem [OF assms(1)] assms(3,4) show ?thesis by (metis option.inject)
qed

lemma evidence_inv_settle:
  assumes core: "core_inv st" and inv: "evidence_inv L st" and pend: "pending q st"
    and app: "append_evidence L envelope q decision summary facts debit st = (result, st')"
  shows "evidence_inv L st'"
  using app
proof (cases rule: append_evidence_cases)
  case refused
  with inv show ?thesis by simp
next
  case (settled evidence)
  let ?q = "rq_run_control_ref q"
  let ?s = "\<lambda>i. i\<lparr>in_terminal_evidence_id := Some (ee_evidence_id evidence)\<rparr>"
  let ?g = "\<lambda>i. if in_request_id i = rq_request_id q then ?s i else i"
  let ?view = "\<lambda>i. (in_request_id i, in_sequence i)"
  from pend obtain pre i where ints: "run_intents ?q st = pre @ [i]" and i: "in_request_id i = rq_request_id q"
    "in_sequence i = rq_sequence q" "\<not> settled i" by (auto simp: pending_def)
  have core': "core_inv (st\<lparr>st_evidence := hm_insert ?q (run_evidence ?q st @ [evidence]) (st_evidence st)\<rparr>)"
    by (rule core_inv_evidence_update [OF core])
  have run': "run_intents r st' = map ?g (run_intents r st)" for r
    unfolding settled(11) modify_run_intents [OF core' keeps_identity_settle] by (simp add: run_intents_def)
  have ev': "run_evidence r st' = (if r = ?q then run_evidence r st @ [evidence] else run_evidence r st)" for r
    unfolding settled(11) by (simp add: run_evidence_def modify_intent_def hmap_simps)
  have key: "st_evidence_key st' = st_evidence_key st" unfolding settled(11) by simp
  have old: "in_request_id j \<noteq> rq_request_id q" if "j \<in> set pre" for j
    using distinct_run_intents [OF core, of ?q] that i(1) unfolding ints by force
  have "map ?view (filter settled (run_intents ?q st')) =
      map ?view (filter settled (run_intents ?q st)) @ [?view i]"
  proof -
    have "map ?g pre = pre" using old by (simp add: map_idI)
    with i show ?thesis unfolding run' ints by (simp add: settled_def)
  qed
  moreover have "run_intents r st' = run_intents r st" if "r \<noteq> ?q" for r
    unfolding run' using run_intents_other [OF core pend that] by (simp add: map_idI)
  ultimately show ?thesis
    using inv i unfolding evidence_inv_def key
    by (auto simp: ev' linked_snoc settled(2-6,10))
qed

section \<open>Every step keeps the invariants\<close>

definition authority_inv :: "lib \<Rightarrow> authority_machine \<Rightarrow> bool" where
  "authority_inv L m \<longleftrightarrow> core_inv (fst m) \<and> spend_inv (fst m) (snd m) \<and> retire_inv (fst m)
     \<and> evidence_inv L (fst m)"

lemma authority_inv_quiet: "quiet st st' \<Longrightarrow> authority_inv L (st, log) \<Longrightarrow> authority_inv L (st', log)"
  by (auto simp: authority_inv_def intro: core_inv_quiet spend_inv_quiet retire_inv_quiet evidence_inv_quiet)

lemma quiet_nonces: "quiet st (st\<lparr>st_next_run_nonce := n\<rparr>)" "quiet st (st\<lparr>st_next_handle_nonce := n\<rparr>)"
  by (simp_all add: quiet_def)

lemma quiet_begin: "quiet st (snd (begin_run L context st))"
  by (auto simp: begin_run_def quiet_refl quiet_nonces split: sum.splits option.splits)

lemma quiet_mint: "quiet st (snd (mint_resource_grant L draft spec st))"
  by (auto simp: mint_resource_grant_def quiet_refl quiet_nonces split: sum.splits option.splits)

lemma authority_inv_settle:
  assumes inv: "authority_inv L (st, log)" and pend: "pending q st"
    and app: "append_evidence L envelope q decision summary facts debit st = (result, st')"
  shows "authority_inv L (st', log)"
proof -
  have "core_inv st' \<and> spend_inv st' log \<and> retire_inv st'"
    using app
  proof (cases rule: append_evidence_cases)
    case refused
    with inv show ?thesis by (simp add: authority_inv_def)
  next
    case (settled evidence)
    with inv show ?thesis
      unfolding settled(11)
      by (auto simp: authority_inv_def spend_inv_evidence_update retire_inv_evidence_update
        intro!: core_inv_modify spend_inv_modify retire_inv_modify core_inv_evidence_update)
  qed
  with inv evidence_inv_settle [OF _ _ pend app] show ?thesis by (simp add: authority_inv_def)
qed

lemma authority_inv_claim:
  assumes inv: "authority_inv L (st, log)" and claim: "claimable L q current st"
  shows "authority_inv L (claim_intent L q now st, log)" and "pending q (claim_intent L q now st)"
    and "rq_request_id q \<notin> rq_request_id ` set log"
proof -
  from claim obtain run where fresh: "hm_get (st_intents st) (rq_request_id q) = None"
    and run: "hm_get (st_runs st) (rq_run_control_ref q) = Some run"
    and seq: "rq_sequence q = mr_next_request_sequence run" by (auto simp: claimable_def)
  with inv show "authority_inv L (claim_intent L q now st, log)"
    by (auto simp: authority_inv_def
      intro!: core_inv_claim spend_inv_claim retire_inv_claim evidence_inv_claim)
  show "pending q (claim_intent L q now st)" by (rule pending_claim [OF fresh])
  show "rq_request_id q \<notin> rq_request_id ` set log"
    using inv fresh by (force simp: authority_inv_def spend_inv_def)
qed

lemma claimable_envelope:
  assumes "claimable L q current st" and "hm_get (st_runs st) (rq_run_control_ref q) = Some run"
  shows "mr_envelope_ref run = rq_envelope_ref q"
  using assms by (auto simp: claimable_def validate_exact_request_context_Inr)

lemma authority_inv_reserve:
  assumes inv: "authority_inv L (st, log)" and claim: "claimable L q current st"
    and env: "hm_get (st_envelopes st) (rq_envelope_ref q) = Some e"
    and run: "hm_get (st_runs st) (rq_run_control_ref q) = Some run"
    and nxt: "next_debits e run q = Some b"
  shows "authority_inv L (reserve_budget (rq_run_control_ref q) b (claim_intent L q now st), log @ [q])"
    and "pending q (reserve_budget (rq_run_control_ref q) b (claim_intent L q now st))"
proof -
  let ?st = "claim_intent L q now st"
  note step = authority_inv_claim [OF inv claim]
  have "hm_get (st_runs ?st) (rq_run_control_ref q) =
      Some (run\<lparr>mr_next_request_sequence := mr_next_request_sequence run + 1\<rparr>)"
    by (simp add: claim_runs run)
  moreover have "hm_get (st_intents ?st) (rq_request_id q) = Some (new_intent L q now)"
    by (simp add: claim_intent_def hmap_simps new_intent_def)
  moreover have "next_debits e (run\<lparr>mr_next_request_sequence := mr_next_request_sequence run + 1\<rparr>) q = Some b"
    using nxt by (simp add: next_debits_def)
  moreover have "mr_envelope_ref run = rq_envelope_ref q" by (rule claimable_envelope [OF claim run])
  ultimately have "spend_inv (reserve_budget (rq_run_control_ref q) b ?st) (log @ [q])"
    using step env by (intro spend_inv_reserve) (auto simp: authority_inv_def new_intent_def)
  with step(1) show "authority_inv L (reserve_budget (rq_run_control_ref q) b ?st, log @ [q])"
    by (simp add: authority_inv_def core_inv_reserve retire_inv_reserve evidence_inv_reserve)
  show "pending q (reserve_budget (rq_run_control_ref q) b ?st)" by (rule pending_reserve [OF step(2)])
qed

lemma authority_inv_mark: "authority_inv L (st, log) \<Longrightarrow> authority_inv L (mark_indeterminate k st, log)"
  by (auto simp: authority_inv_def mark_is_modify settled_def
    intro!: core_inv_modify spend_inv_modify retire_inv_modify evidence_inv_modify)

lemma authority_inv_enforce:
  assumes inv: "authority_inv L (st, log)"
    and enf: "enforce L (recording answer) q current log st = (result, log', st')"
  shows "authority_inv L (st', log')"
  using enf
proof (cases rule: enforce_cases)
  case rejected
  with inv quiet_run_changes(6) show ?thesis by (auto intro: authority_inv_quiet)
next
  case (denied envelope run reason)
  with authority_inv_settle [OF authority_inv_claim(1,2) [OF inv denied(1)] denied(6)] show ?thesis by simp
next
  case (completed envelope run nxt outcome)
  then have log: "log' = log @ [q]" by (simp add: recording_def)
  note r = authority_inv_reserve [OF inv completed(1,4,5,6)]
  show ?thesis unfolding log by (rule authority_inv_settle [OF r completed(7)])
next
  case (lost envelope run nxt e)
  then have log: "log' = log @ [q]" by (simp add: recording_def)
  note r = authority_inv_reserve(1) [OF inv lost(1,4,5,6)]
  show ?thesis unfolding log lost(8)
    by (rule authority_inv_quiet [OF quiet_run_changes(7) authority_inv_mark [OF r]])
qed

interpretation authority: guarded_machine authority_init "authority_step L" "authority_inv L" for L
proof
  fix m
  assume "authority_init m"
  then show "authority_inv L m"
    by (auto simp: authority_init_def authority_inv_def core_inv_def spend_inv_def retire_inv_def evidence_inv_def
      with_evidence_key_def run_intents_def run_evidence_def hm_values_def)
next
  fix m m'
  assume inv: "authority_inv L m" and step: "authority_step L m m'"
  from step inv show "authority_inv L m'"
  proof (cases rule: authority_step.cases)
    case (step_install st log draft envelope)
    with inv show ?thesis
      by (auto simp: authority_inv_def
        intro: core_inv_install spend_inv_install retire_inv_install evidence_inv_install)
  next
    case (step_enforce answer request current log st result log' st')
    with inv show ?thesis by (auto intro: authority_inv_enforce)
  qed (auto simp: revoke_bridge_def revoke_session_def revoke_all_def
    intro: authority_inv_quiet [OF quiet_begin] authority_inv_quiet [OF quiet_mint]
      authority_inv_quiet [OF quiet_revoke_many] quiet_run_changes [THEN authority_inv_quiet])
qed

end
