(* ===== verification/Effect_Properties.thy ===== *)
theory Effect_Properties
  imports Effect_Invariants
begin

text \<open>
  The properties of the effect authority that its clients rely on: budgets, replay, revocation, what
  reaches a backend, ambiguous outcomes, completion, lowering, and installation. Each is stated on the
  operations of \<open>Effect_Authority\<close>; the invariants of \<open>Effect_Invariants\<close> carry the proofs.
\<close>

section \<open>Lemmas on steps\<close>

lemma enforce_log:
  assumes "enforce L (recording answer) q current log st = (result, log', st')"
  shows "log' = log \<and> \<not> (claimable L q current st \<and> affordable q (ch_now current) st)
    \<or> log' = log @ [q] \<and> claimable L q current st \<and> affordable q (ch_now current) st"
  using assms by (cases rule: enforce_cases) (auto simp: recording_def)

lemma append_evidence_runs:
  "append_evidence L envelope q decision summary facts debit st = (result, st') \<Longrightarrow>
     st_runs st' = st_runs st \<and> st_resources st' = st_resources st \<and> st_envelopes st' = st_envelopes st"
  by (cases rule: append_evidence_cases) auto

lemma enforce_run_advances:
  assumes "enforce L ap q current b st = (result, b', st')" and "hm_get (st_runs st) r = Some run"
  shows "\<exists>run'. hm_get (st_runs st') r = Some run' \<and> run_advances (mr_state run) (mr_state run')
    \<and> mr_envelope_ref run' = mr_envelope_ref run"
  using assms(1)
proof (cases rule: enforce_cases)
  case rejected
  with assms(2) quiet_run_forward [OF quiet_run_changes(6)] show ?thesis by fastforce
next
  case (denied envelope run reason)
  with append_evidence_runs [OF denied(6)] assms(2) show ?thesis by (auto simp: claim_runs)
next
  case (completed envelope run nxt outcome)
  with append_evidence_runs [OF completed(7)] assms(2) show ?thesis by (auto simp: claim_runs reserve_runs)
next
  case (lost envelope x nxt e)
  let ?st = "mark_indeterminate (rq_request_id q)
    (reserve_budget (rq_run_control_ref q) nxt (claim_intent L q (ch_now current) st))"
  obtain y where y: "hm_get (st_runs ?st) r = Some y" "mr_state y = mr_state run"
    "mr_envelope_ref y = mr_envelope_ref run"
    using assms(2) by (cases "r = rq_run_control_ref q") (auto simp: mark_is_modify reserve_runs claim_runs)
  from quiet_run_forward [OF quiet_run_changes(7) [where r = "rq_run_control_ref q"] y(1)] y(2,3) show ?thesis
    unfolding lost(8) by auto
qed

lemma step_run_advances:
  assumes "authority_step L (st, log) (st', log')" and "hm_get (st_runs st) r = Some run"
  shows "\<exists>run'. hm_get (st_runs st') r = Some run' \<and> run_advances (mr_state run) (mr_state run')
    \<and> mr_envelope_ref run' = mr_envelope_ref run"
proof -
  have q: "\<exists>run'. hm_get (st_runs st') r = Some run' \<and> run_advances (mr_state run) (mr_state run')
    \<and> mr_envelope_ref run' = mr_envelope_ref run" if "quiet st st'"
    using quiet_run_forward [OF that assms(2)] by auto
  from assms(1) show ?thesis
  proof (cases rule: authority_step.cases)
    case (step_install draft envelope)
    then show ?thesis
    proof (cases rule: install_envelope_cases [OF step_install(1)])
      case 2
      with assms(2) show ?thesis by (auto simp: hmap_simps)
    qed (use assms(2) in auto)
  next
    case (step_enforce answer request current result)
    show ?thesis by (rule enforce_run_advances [OF step_enforce(1) assms(2)])
  qed (use q in \<open>auto simp: revoke_bridge_def revoke_session_def revoke_all_def
    intro: quiet_begin quiet_mint quiet_revoke_many quiet_run_changes\<close>)
qed

lemma step_log:
  assumes "authority_step L (st, log) (st', log')" and "hm_get (st_runs st) r = Some run"
    and "mr_state run \<noteq> Active"
  shows "filter (\<lambda>q. rq_run_control_ref q = r) log' = filter (\<lambda>q. rq_run_control_ref q = r) log"
  using assms(1)
proof (cases rule: authority_step.cases)
  case (step_enforce answer request current result)
  from enforce_log [OF step_enforce(1)] assms(2,3) show ?thesis by (auto simp: claimable_def)
qed auto

lemma steps_run_retired:
  assumes "rtranclp (authority_step L) (st, log) m" and "hm_get (st_runs st) r = Some run"
    and "\<not> run_live (mr_state run)"
  shows "\<exists>run'. hm_get (st_runs (fst m)) r = Some run' \<and> run_advances (mr_state run) (mr_state run')
      \<and> filter (\<lambda>q. rq_run_control_ref q = r) (snd m) = filter (\<lambda>q. rq_run_control_ref q = r) log"
  using assms(1)
proof (induction rule: rtranclp_induct)
  case base
  with assms(2) show ?case by simp
next
  case (step y z)
  obtain st1 log1 st2 log2 where yz: "y = (st1, log1)" "z = (st2, log2)" by (cases y; cases z)
  from step.IH obtain x where x: "hm_get (st_runs st1) r = Some x" "run_advances (mr_state run) (mr_state x)"
    "filter (\<lambda>q. rq_run_control_ref q = r) log1 = filter (\<lambda>q. rq_run_control_ref q = r) log"
    by (auto simp: yz)
  have "\<not> run_live (mr_state x)" by (rule run_retired_advances [OF assms(3) x(2)])
  then have "mr_state x \<noteq> Active" by (auto simp: run_live_def)
  with step_log [OF step.hyps(2) [unfolded yz] x(1)] step_run_advances [OF step.hyps(2) [unfolded yz] x(1)] x(2,3)
  show ?case using run_advances_trans by (fastforce simp: yz)
qed

section \<open>An example run\<close>

definition ex_draft :: ManagedRunDraftV1 where
  "ex_draft = \<lparr>dr_context = ex_context, dr_context_ref = ex_context_ref, dr_run_control_ref = ''run''\<rparr>"

definition ex_current :: CurrentHostAuthorityV1 where
  "ex_current = \<lparr>ch_execution_freshness = LocalFreshness \<lparr>lf_bridge_id = ''x'',
       lf_local_runtime_ref = \<lparr>lr_host_ref = ''host'', lr_generation_ref = ''x''\<rparr>, lf_expires_at = 70\<rparr>,
     ch_bridge_active = True, ch_burned = False, ch_disconnected = False, ch_restarted = False, ch_now = 10\<rparr>"

definition ex_request_body :: "u64 \<Rightarrow> EffectRequestV1" where
  "ex_request_body n = \<lparr>rq_contract_version = EFFECT_AUTHORITY_VERSION, rq_request_id = [],
     rq_envelope_ref = ev_envelope_ref ex_envelope, rq_run_control_ref = ''run'', rq_context = ex_context,
     rq_sequence = n, rq_adapter_version_ref = ''x'',
     rq_effect = EffResource \<lparr>re_verb = Read, re_handle_ref = ''handle'', re_relative_selector = ''f'',
       re_value_digest = None\<rparr>,
     rq_requested_budget_slice = ex_budgets 1, rq_preconditions = []\<rparr>"

definition ex_request :: "u64 \<Rightarrow> EffectRequestV1" where
  "ex_request n = (ex_request_body n)\<lparr>rq_request_id := compute_request_id plain_lib (ex_request_body n)\<rparr>"

definition ex_allow :: "EffectRequestV1 \<Rightarrow> BackendApplyV1" where
  "ex_allow q = Completed \<lparr>bo_decision = Allowed, bo_actual_effect_summary = ''x'', bo_facts = FactNone\<rparr>"

definition ex_start :: EffectAuthorityStateV1 where "ex_start = with_evidence_key []"

definition ex_installed :: EffectAuthorityStateV1 where
  "ex_installed = snd (install_envelope plain_lib ex_draft ex_envelope ex_start)"

definition ex_active :: EffectAuthorityStateV1 where
  "ex_active = snd (activate_run ''run'' 10 ex_installed)"

definition ex_run :: "ManagedRunStateV1 \<Rightarrow> ManagedRunControlV1" where
  "ex_run s = \<lparr>mr_contract_version = EFFECT_AUTHORITY_VERSION, mr_run_control_ref = ''run'',
     mr_context_ref = ex_context_ref, mr_envelope_ref = ev_envelope_ref ex_envelope, mr_state = s,
     mr_next_request_sequence = 0, mr_cumulative_budget_debits = budgets_default, mr_expires_at = 80\<rparr>"

lemma ex_envelope_fields:
  "ev_contract_version ex_envelope = EFFECT_AUTHORITY_VERSION" "ev_context ex_envelope = ex_context"
  "ev_context_ref ex_envelope = ex_context_ref" "ev_run_control_ref ex_envelope = ''run''"
  "compute_envelope_ref plain_lib ex_envelope = ev_envelope_ref ex_envelope"
  "ev_resources ex_envelope = [ex_grant {|Read|}]" "ev_expires_at ex_envelope = 80"
  "ev_budgets ex_envelope = ex_budgets 2"
  "ev_effect_bounds ex_envelope = [\<lparr>eb_capability = CapResource Read, eb_max_per_request = ex_budgets 1\<rparr>]"
  by (simp_all add: ex_envelope_def built_envelope_def Let_def ex_compile_request_def compute_envelope_ref_def
    envelope_hash_material_def ceilings_of_def ex_ceiling_def ex_context_def
    intersect_effect_bounds_def bound_map_def bt_collect_def hm_get_def map_filter_def)

lemma ex_install: "install_envelope plain_lib ex_draft ex_envelope ex_start =
   (Inr (), ex_start\<lparr>st_resources := [(''handle'', \<lparr>rr_grant = ex_grant {|Read|},
        rr_envelope_ref = ev_envelope_ref ex_envelope, rr_revoked = False\<rparr>)],
      st_runs := [(''run'', ex_run Created)], st_envelopes := [(ev_envelope_ref ex_envelope, ex_envelope)]\<rparr>)"
  by (simp add: install_envelope_def ex_envelope_fields ex_draft_def ex_start_def with_evidence_key_def
    hm_contains_def hm_insert_def ex_run_def ex_grant_def)

lemma ex_active_eq: "ex_active = ex_start\<lparr>st_resources := [(''handle'', \<lparr>rr_grant = ex_grant {|Read|},
        rr_envelope_ref = ev_envelope_ref ex_envelope, rr_revoked = False\<rparr>)],
      st_runs := [(''run'', ex_run Active)], st_envelopes := [(ev_envelope_ref ex_envelope, ex_envelope)]\<rparr>"
  by (simp add: ex_active_def ex_installed_def ex_install activate_run_def run_mut_def hm_get_def
    set_run_state_def hm_modify_def ex_run_def)

lemma ex_reaches_active: "authority_init (ex_start, []) \<and> rtranclp (authority_step plain_lib) (ex_start, []) (ex_active, [])"
proof -
  have "authority_step plain_lib (ex_start, []) (ex_installed, [])"
    unfolding ex_installed_def by (rule step_install)
  moreover have "authority_step plain_lib (ex_installed, []) (ex_active, [])"
    unfolding ex_active_def by (rule step_activate)
  ultimately show ?thesis by (auto simp: authority_init_def ex_start_def)
qed

lemma ex_claimable: "claimable plain_lib (ex_request 0) ex_current ex_active"
  unfolding claimable_def validate_exact_request_context_Inr
  by (simp add: ex_active_eq ex_start_def with_evidence_key_def hm_get_def ex_request_def ex_request_body_def
    ex_envelope_fields ex_run_def ex_current_def lifecycle_mismatch_def compute_request_id_def
    request_hash_material_def ex_context_valid)
    (simp add: ex_context_def)

lemma ex_affordable: "affordable (ex_request 0) 10 ex_active"
proof -
  have "validate_relative_selector ''f'' = Inr ()"
    by (simp add: validate_relative_selector_def starts_with_def contains_char_def)
  then have "authorize_effect ex_envelope (ex_request 0) 10 ex_active = Inr ()"
    by (simp add: authorize_effect_def ex_envelope_fields ex_request_def ex_request_body_def
      effect_capability_def budgets.le_refl authorize_resource_def ex_active_eq hm_get_def ex_grant_def map_err_def
      selector_within_prefix_def)
      (simp add: ex_budgets_def ex_context_def)
  moreover have "next_debits ex_envelope (ex_run Active) (ex_request 0) = Some (ex_budgets 1)"
    by (simp add: next_debits_def ex_run_def ex_request_def ex_request_body_def ex_envelope_fields
      ex_budgets_def budgets_default_def budgets_checked_add_def checked_add_def budgets_is_subset_of_def)
  ultimately show ?thesis
    by (simp add: affordable_def ex_active_eq ex_request_def ex_request_body_def hm_get_def)
qed

definition ex_done :: EffectAuthorityStateV1 where
  "ex_done = snd (snd (enforce plain_lib (recording ex_allow) (ex_request 0) ex_current [] ex_active))"

lemma ex_enforce:
  "\<exists>evidence. enforce plain_lib (recording ex_allow) (ex_request 0) ex_current [] ex_active =
     (Inr evidence, [ex_request 0], ex_done)"
proof -
  obtain result log st where e: "enforce plain_lib (recording ex_allow) (ex_request 0) ex_current [] ex_active
      = (result, log, st)" by (metis prod_cases3)
  have aff: "affordable (ex_request 0) (ch_now ex_current) ex_active"
    using ex_affordable by (simp add: ex_current_def)
  from e have "log = [ex_request 0] \<and> (\<exists>evidence. result = Inr evidence)"
  proof (cases rule: enforce_cases)
    case (completed envelope run nxt outcome)
    then have "bo_actual_effect_summary outcome = ''x''" "log = [ex_request 0]"
      by (auto simp: recording_def ex_allow_def)
    with completed(7) show ?thesis by (auto simp: append_evidence_def Let_def)
  qed (use ex_claimable aff in \<open>auto simp: recording_def ex_allow_def\<close>)
  with e show ?thesis by (auto simp: ex_done_def)
qed

lemma ex_reaches_done: "rtranclp (authority_step plain_lib) (ex_start, []) (ex_done, [ex_request 0])"
proof -
  from ex_enforce obtain evidence where "enforce plain_lib (recording ex_allow) (ex_request 0) ex_current [] ex_active =
     (Inr evidence, [ex_request 0], ex_done)" by blast
  then have "authority_step plain_lib (ex_active, []) (ex_done, [ex_request 0])" by (rule step_enforce)
  with ex_reaches_active show ?thesis by (meson rtranclp.rtrancl_into_rtrancl)
qed

lemma ex_done_facts:
  "st_envelopes ex_done = st_envelopes ex_active" "length (st_intents ex_done) = 1"
  "\<exists>evidence. run_evidence ''run'' ex_done = [evidence] \<and> ee_decision evidence = Allowed"
  "\<exists>run. hm_get (st_runs ex_done) ''run'' = Some run \<and> mr_state run = Active \<and> mr_expires_at run = 80
     \<and> mr_envelope_ref run = ev_envelope_ref ex_envelope"
proof -
  from ex_enforce obtain ev where e: "enforce plain_lib (recording ex_allow) (ex_request 0) ex_current []
      ex_active = (Inr ev, [ex_request 0], ex_done)" by blast
  have q: "rq_run_control_ref (ex_request 0) = ''run''" by (simp add: ex_request_def ex_request_body_def)
  have st: "st_intents ex_active = []" "st_evidence ex_active = []" "st_runs ex_active = [(''run'', ex_run Active)]"
    by (simp_all add: ex_active_eq ex_start_def with_evidence_key_def)
  from e have "st_envelopes ex_done = st_envelopes ex_active \<and> length (st_intents ex_done) = 1
    \<and> (\<exists>evidence. run_evidence ''run'' ex_done = [evidence] \<and> ee_decision evidence = Allowed)
    \<and> (\<exists>run. hm_get (st_runs ex_done) ''run'' = Some run \<and> mr_state run = Active \<and> mr_expires_at run = 80
     \<and> mr_envelope_ref run = ev_envelope_ref ex_envelope)"
  proof (cases rule: enforce_cases)
    case (completed envelope run nxt outcome)
    from completed(7) show ?thesis
    proof (cases rule: append_evidence_cases)
      case (settled evidence)
      have "bo_decision outcome = Allowed" using completed(3) by (auto simp: recording_def ex_allow_def)
      then show ?thesis
        unfolding settled(11) using settled(7) st q
        by (simp add: modify_intent_def hm_modify_def run_evidence_def hm_get_def hm_insert_def claim_intent_def
          reserve_budget_def ex_run_def)
    qed simp
  qed auto
  then show "st_envelopes ex_done = st_envelopes ex_active" "length (st_intents ex_done) = 1"
    "\<exists>evidence. run_evidence ''run'' ex_done = [evidence] \<and> ee_decision evidence = Allowed"
    "\<exists>run. hm_get (st_runs ex_done) ''run'' = Some run \<and> mr_state run = Active \<and> mr_expires_at run = 80
      \<and> mr_envelope_ref run = ev_envelope_ref ex_envelope" by blast+
qed

lemma ex_done_determinate: "\<forall>i \<in> set (hm_values (st_intents ex_done)). \<not> in_indeterminate i"
proof -
  from ex_enforce obtain ev where e: "enforce plain_lib (recording ex_allow) (ex_request 0) ex_current []
      ex_active = (Inr ev, [ex_request 0], ex_done)" by blast
  have st: "st_intents ex_active = []" by (simp add: ex_active_eq ex_start_def with_evidence_key_def)
  from e show ?thesis
  proof (cases rule: enforce_cases)
    case (completed envelope run nxt outcome)
    from completed(7) show ?thesis
    proof (cases rule: append_evidence_cases)
      case (settled evidence)
      show ?thesis
        unfolding settled(11) using st
        by (simp add: modify_intent_def hm_modify_def hm_insert_def claim_intent_def hm_values_def)
    qed simp
  qed auto
qed

lemma ex_init: "authority_init (ex_start, [])"
  using ex_reaches_active by blast

section \<open>Properties\<close>

text \<open>C1. What a run makes the backend do never exceeds its envelope: in every reachable state, for each
  of the fourteen budget components, the sum over all requests of a run that were handed to a backend
  equals the run's cumulative debit and is at most the budget of the run's envelope. The sums are
  natural numbers: no wrap-around hides an excess.\<close>

theorem effect_budget_respected:
  assumes "authority_init m" and "rtranclp (authority_step L) m (st, log)"
    and "hm_get (st_runs st) r = Some run"
    and "hm_get (st_envelopes st) (mr_envelope_ref run) = Some envelope"
    and "f \<in> set budget_fields"
  shows "spent f r log = unat (f (mr_cumulative_budget_debits run))
    \<and> spent f r log \<le> unat (f (ev_budgets envelope))"
proof -
  have "authority_inv L (st, log)" by (rule authority.inv_reachable [OF assms(1,2)])
  with assms(3) have "run_spend_ok st log r run" by (simp add: authority_inv_def spend_inv_def)
  with assms(4,5) show ?thesis
    by (auto simp: run_spend_ok_def budgets_is_subset_of_fields word_le_nat_alt)
qed

theorem effect_budget_respected_witness:
  "\<exists>run. hm_get (st_runs ex_done) ''run'' = Some run
     \<and> spent bg_requests ''run'' [ex_request 0] = unat (bg_requests (mr_cumulative_budget_debits run))
     \<and> spent bg_requests ''run'' [ex_request 0] \<le> unat (bg_requests (ex_budgets 2))"
proof -
  from ex_done_facts(4) obtain run where run: "hm_get (st_runs ex_done) ''run'' = Some run"
    "mr_envelope_ref run = ev_envelope_ref ex_envelope" by blast
  then have "hm_get (st_envelopes ex_done) (mr_envelope_ref run) = Some ex_envelope"
    by (simp add: ex_done_facts(1) ex_active_eq hm_get_def)
  moreover have "bg_requests \<in> set budget_fields" by (simp add: budget_fields_def)
  ultimately have "spent bg_requests ''run'' [ex_request 0] = unat (bg_requests (mr_cumulative_budget_debits run))
    \<and> spent bg_requests ''run'' [ex_request 0] \<le> unat (bg_requests (ev_budgets ex_envelope))"
    by (rule effect_budget_respected [OF ex_init ex_reaches_done run(1)])
  then show ?thesis unfolding ex_envelope_fields using run(1) by blast
qed

text \<open>C4. No request reaches a backend twice: in every reachable state the identities of the requests
  handed to a backend are distinct, each has a write-ahead intent with its run and sequence, and, as
  long as a run has claimed at most 2 to the 64 intents, the sequence numbers it used are distinct.\<close>

theorem effect_no_replay:
  assumes "authority_init m" and "rtranclp (authority_step L) m (st, log)"
    and "length (run_intents r st) \<le> 2 ^ 64"
  shows "distinct (map rq_request_id log)
    \<and> list_all (\<lambda>q. \<exists>i. hm_get (st_intents st) (rq_request_id q) = Some i
         \<and> in_run_control_ref i = rq_run_control_ref q \<and> in_sequence i = rq_sequence q) log
    \<and> distinct (map rq_sequence (filter (\<lambda>q. rq_run_control_ref q = r) log))"
proof -
  have inv: "authority_inv L (st, log)" by (rule authority.inv_reachable [OF assms(1,2)])
  then have core: "core_inv st" and spend: "spend_inv st log" by (simp_all add: authority_inv_def)
  let ?is = "run_intents r st"
  have "map in_sequence ?is = map of_nat [0..<length ?is]" using spend by (simp add: spend_inv_def)
  moreover have "inj_on (of_nat :: nat \<Rightarrow> u64) {0..<length ?is}"
    using assms(3) by (intro inj_onI) (auto simp: word_of_nat_eq_iff take_bit_nat_eq_self)
  ultimately have dist: "distinct (map in_sequence ?is)" by (simp add: distinct_map)
  have intent: "\<exists>i. hm_get (st_intents st) (rq_request_id q) = Some i
      \<and> in_run_control_ref i = rq_run_control_ref q \<and> in_sequence i = rq_sequence q" if "q \<in> set log" for q
    using spend that by (simp add: spend_inv_def)
  have ids: "distinct (map rq_request_id log)" using spend by (simp add: spend_inv_def)
  have "rq_sequence a \<noteq> rq_sequence b" if ab: "a \<in> set log" "b \<in> set log" "rq_run_control_ref a = r"
    "rq_run_control_ref b = r" "rq_request_id a \<noteq> rq_request_id b" for a b
  proof -
    from intent [OF ab(1)] intent [OF ab(2)] obtain i j where
      i: "hm_get (st_intents st) (rq_request_id a) = Some i" "in_run_control_ref i = r" "in_sequence i = rq_sequence a"
      and j: "hm_get (st_intents st) (rq_request_id b) = Some j" "in_run_control_ref j = r" "in_sequence j = rq_sequence b"
      using ab(3,4) by auto
    then have "i \<in> set ?is" "j \<in> set ?is" by (auto simp: run_intents_def dest: hm_get_in_values)
    moreover have "i \<noteq> j" using core_inv_intent [OF core i(1)] core_inv_intent [OF core j(1)] ab(5) by auto
    ultimately show ?thesis using dist i(3) j(3) by (metis distinct_map inj_onD)
  qed
  with ids have "distinct (map rq_sequence (filter (\<lambda>q. rq_run_control_ref q = r) log))"
    by (auto simp: distinct_map intro!: inj_onI dest: inj_onD)
  with ids intent show ?thesis by (simp add: list_all_iff)
qed

theorem effect_no_replay_witness:
  "distinct (map rq_request_id [ex_request 0])
   \<and> (\<exists>i. hm_get (st_intents ex_done) (rq_request_id (ex_request 0)) = Some i
        \<and> in_run_control_ref i = ''run'' \<and> in_sequence i = 0)"
proof -
  have "length (run_intents ''run'' ex_done) \<le> length (st_intents ex_done)"
    unfolding run_intents_def hm_values_def using length_filter_le le_trans by fastforce
  then have "length (run_intents ''run'' ex_done) \<le> 2 ^ 64" by (simp add: ex_done_facts(2))
  from effect_no_replay [OF ex_init ex_reaches_done this] show ?thesis
    by (auto simp: ex_request_def ex_request_body_def)
qed

text \<open>A run only moves forward, and a run that is no longer live does nothing more: once it is
  cancelling, finished, revoked or interrupted, no later request of it reaches a backend, whatever
  operations follow, and a terminal state is final.\<close>

theorem retired_run_is_inert:
  assumes "hm_get (st_runs st) r = Some run" and "\<not> run_live (mr_state run)"
    and "rtranclp (authority_step L) (st, log) (st', log')"
  shows "filter (\<lambda>q. rq_run_control_ref q = r) log' = filter (\<lambda>q. rq_run_control_ref q = r) log
    \<and> (\<exists>run'. hm_get (st_runs st') r = Some run' \<and> \<not> run_live (mr_state run')
         \<and> (if run_terminal (mr_state run) then mr_state run' = mr_state run else True))"
  using steps_run_retired [OF assms(3,1,2)] assms(2)
  by (auto dest: run_retired_advances run_terminal_absorbing)

theorem retired_run_is_inert_witness:
  "\<exists>run'. hm_get (st_runs (snd (revoke_run ''run'' (snd (finish_run ''run'' ex_done))))) ''run'' = Some run'
     \<and> mr_state run' = Finished"
proof -
  obtain run where run: "hm_get (st_runs ex_done) ''run'' = Some run" "mr_state run = Active"
    using ex_done_facts(4) by blast
  let ?st = "snd (finish_run ''run'' ex_done)"
  have "hm_get (st_runs ?st) ''run'' = Some (run\<lparr>mr_state := Finished\<rparr>)"
    using run by (simp add: finish_run_def run_mut_def revoke_run_resources_def set_run_state_def hmap_simps)
  moreover have "\<not> run_live (mr_state (run\<lparr>mr_state := Finished\<rparr>))" by (simp add: run_live_def)
  moreover have "rtranclp (authority_step plain_lib) (?st, []) (snd (revoke_run ''run'' ?st), [])"
    by (rule r_into_rtranclp) (rule step_revoke)
  ultimately have "\<exists>run'. hm_get (st_runs (snd (revoke_run ''run'' ?st))) ''run'' = Some run' \<and> \<not> run_live (mr_state run')
      \<and> (if run_terminal (mr_state (run\<lparr>mr_state := Finished\<rparr>))
         then mr_state run' = mr_state (run\<lparr>mr_state := Finished\<rparr>) else True)"
    by (rule retired_run_is_inert [THEN conjunct2])
  then show ?thesis by (auto simp: run_terminal_def)
qed

lemma revoke_many_retires:
  "r \<in> set rs \<Longrightarrow> hm_get (st_runs st) r = Some run \<Longrightarrow>
     \<exists>run'. hm_get (st_runs (revoke_many rs st)) r = Some run' \<and> run_terminal (mr_state run')"
proof (induction rs arbitrary: st run)
  case (Cons x rs)
  have split: "revoke_many (x # rs) st = revoke_many rs (revoke_one st x)" by (simp add: revoke_many_def)
  show ?case
  proof (cases "r = x")
    case True
    have "\<exists>run'. hm_get (st_runs (revoke_one st x)) r = Some run' \<and> run_terminal (mr_state run')"
      using Cons.prems(2) True by (auto simp: revoke_one_def revoke_run_resources_def hmap_simps run_terminal_def)
    then obtain run' where run': "hm_get (st_runs (revoke_one st x)) r = Some run'" "run_terminal (mr_state run')"
      by blast
    from quiet_run_forward [OF quiet_revoke_many [of _ rs] run'(1)] run'(2) show ?thesis
      unfolding split by (auto dest: run_terminal_absorbing)
  next
    case False
    then have "hm_get (st_runs (revoke_one st x)) r = Some run"
      using Cons.prems(2) by (simp add: revoke_one_def revoke_run_resources_def hmap_simps)
    with Cons.IH Cons.prems(1) False show ?thesis unfolding split by auto
  qed
qed simp

text \<open>C5. Revoking a Bridge stops its runs for good: after \<open>revoke_bridge\<close>, no request of any run whose
  envelope names that Bridge and is installed at the time reaches a backend again, whatever operations follow. (An
  envelope that is installed afterwards is not covered, also when its run was begun before: \<open>revoke_bridge\<close> goes through the
  installed envelopes only.)\<close>

theorem revoked_bridge_is_inert:
  assumes "authority_init m" and "rtranclp (authority_step L) m (st, log)"
    and "hm_get (st_envelopes st) k = Some envelope" and "ctx_bridge_id (ev_context envelope) = bridge"
    and "rtranclp (authority_step L) (revoke_bridge bridge st, log) (st', log')"
  shows "filter (\<lambda>q. rq_run_control_ref q = ev_run_control_ref envelope) log'
    = filter (\<lambda>q. rq_run_control_ref q = ev_run_control_ref envelope) log"
proof -
  have "core_inv st" using authority.inv_reachable [OF assms(1,2)] by (simp add: authority_inv_def)
  from core_inv_envelope [OF this assms(3)] obtain run
    where run: "hm_get (st_runs st) (ev_run_control_ref envelope) = Some run" by blast
  have "ev_run_control_ref envelope \<in> set (map ev_run_control_ref (filter (\<lambda>e. ctx_bridge_id (ev_context e) = bridge)
      (hm_values (st_envelopes st))))"
    using hm_get_in_values [OF assms(3)] assms(4) by auto
  from revoke_many_retires [OF this run] obtain run' where
    "hm_get (st_runs (revoke_bridge bridge st)) (ev_run_control_ref envelope) = Some run'"
    "run_terminal (mr_state run')" by (auto simp: revoke_bridge_def)
  with steps_run_retired [OF assms(5)] show ?thesis
    by (fastforce simp: run_live_def run_terminal_rank)
qed

theorem revoked_bridge_is_inert_witness:
  "filter (\<lambda>q. rq_run_control_ref q = ''run'')
     (fst (snd (enforce plain_lib (recording ex_allow) (ex_request 0) ex_current [] (revoke_bridge ''x'' ex_active)))) = []"
proof -
  obtain result log' st' where e: "enforce plain_lib (recording ex_allow) (ex_request 0) ex_current []
      (revoke_bridge ''x'' ex_active) = (result, log', st')" by (metis prod_cases3)
  have "rtranclp (authority_step plain_lib) (revoke_bridge ''x'' ex_active, []) (st', log')"
    by (rule r_into_rtranclp) (rule step_enforce [OF e])
  moreover have "hm_get (st_envelopes ex_active) (ev_envelope_ref ex_envelope) = Some ex_envelope"
    by (simp add: ex_active_eq hm_get_def)
  moreover have "ctx_bridge_id (ev_context ex_envelope) = ''x''" by (simp add: ex_envelope_fields) (simp add: ex_context_def)
  moreover have "rtranclp (authority_step plain_lib) (ex_start, []) (ex_active, [])" using ex_reaches_active by blast
  ultimately have "filter (\<lambda>q. rq_run_control_ref q = ev_run_control_ref ex_envelope) log'
    = filter (\<lambda>q. rq_run_control_ref q = ev_run_control_ref ex_envelope) []"
    using revoked_bridge_is_inert [OF ex_init] by blast
  then show ?thesis by (simp add: e ex_envelope_fields)
qed

text \<open>C3. \<open>enforce\<close> calls the backend exactly when every check passes: the request is authentic and its
  context, run, envelope and Host lifecycle match, the run is active and unexpired, the sequence is the
  next one and the identity is new, the effect is authorized, and the cumulative budget still covers
  the requested slice. It calls it at most once, with the request itself.\<close>

theorem enforce_backend_use:
  "fst (snd (enforce L apply_backend request current b st)) =
     (if claimable L request current st \<and> affordable request (ch_now current) st
      then snd (apply_backend request b) else b)"
proof -
  obtain result b' st' where e: "enforce L apply_backend request current b st = (result, b', st')"
    by (metis prod_cases3)
  from e have "b' = (if claimable L request current st \<and> affordable request (ch_now current) st
      then snd (apply_backend request b) else b)"
    by (cases rule: enforce_cases) auto
  with e show ?thesis by simp
qed

definition normal_path :: "string \<Rightarrow> bool" where
  "normal_path s \<longleftrightarrow> s = ''.'' \<or> list_all (\<lambda>p. p \<noteq> [] \<and> p \<noteq> ''.'' \<and> p \<noteq> ''..'') (split_on (CHR ''/'') s)"

lemma split_on_prefix:
  assumes "starts_with (p @ ''/'') s"
  shows "prefix (split_on (CHR ''/'') p) (split_on (CHR ''/'') s)"
proof -
  from assms obtain t where "s = p @ CHR ''/'' # t" by (auto simp: starts_with_def prefix_def)
  then show ?thesis by (simp add: split_on_append)
qed

lemma selector_confined:
  assumes "selector_within_prefix s p"
  shows "p = ''.'' \<or> prefix (split_on (CHR ''/'') p) (split_on (CHR ''/'') s)"
  using assms split_on_prefix by (auto simp: selector_within_prefix_def)

text \<open>C8. A resource effect that reaches the backend stays inside its grant: the handle is a grant of the
  run's own envelope and is not revoked or expired, the verb is granted, and the selector is a
  normalized relative path, without an empty, \<open>.\<close> or \<open>..\<close> component unless it is \<open>.\<close> itself, whose
  components extend those of the grant's prefix unless that is \<open>.\<close>.\<close>

theorem resource_effect_confined:
  assumes "authority_init m" and "rtranclp (authority_step L) m (st, log)"
    and "enforce L (recording answer) q current log st = (result, log @ [q], st')"
    and "rq_effect q = EffResource effect"
  shows "\<exists>record envelope. hm_get (st_resources st) (re_handle_ref effect) = Some record
    \<and> hm_get (st_envelopes st) (rq_envelope_ref q) = Some envelope
    \<and> rr_grant record \<in> set (ev_resources envelope) \<and> \<not> rr_revoked record
    \<and> ch_now current < rg_expires_at (rr_grant record)
    \<and> re_verb effect |\<in>| rg_allowed_verbs (rr_grant record)
    \<and> normal_path (re_relative_selector effect)
    \<and> (rg_selector_prefix (rr_grant record) = ''.''
       \<or> prefix (split_on (CHR ''/'') (rg_selector_prefix (rr_grant record)))
            (split_on (CHR ''/'') (re_relative_selector effect)))"
proof -
  have core: "core_inv st" using authority.inv_reachable [OF assms(1,2)] by (simp add: authority_inv_def)
  from enforce_log [OF assms(3)] have aff: "affordable q (ch_now current) st" by auto
  then obtain envelope where env: "hm_get (st_envelopes st) (rq_envelope_ref q) = Some envelope"
    and auth: "authorize_effect envelope q (ch_now current) st = Inr ()" by (auto simp: affordable_def)
  from auth have res: "authorize_resource envelope q (ch_now current) st effect = Inr ()"
    by (auto simp: authorize_effect_def assms(4) res_simps)
  then obtain x where look: "hm_get (st_resources st) (re_handle_ref effect) = Some x"
    and sel: "validate_relative_selector (re_relative_selector effect) = Inr ()"
    and grant: "\<not> rr_revoked x" "rr_envelope_ref x = ev_envelope_ref envelope"
      "ch_now current < rg_expires_at (rr_grant x)" "re_verb effect |\<in>| rg_allowed_verbs (rr_grant x)"
      "selector_within_prefix (re_relative_selector effect) (rg_selector_prefix (rr_grant x))"
    by (auto simp: authorize_resource_def res_simps)
  have "ev_envelope_ref envelope = rq_envelope_ref q" using core_inv_envelope [OF core env] by simp
  with core_inv_resource [OF core look] grant(2) env have "rr_grant x \<in> set (ev_resources envelope)" by auto
  moreover from sel have "normal_path (re_relative_selector effect)"
    by (auto simp: validate_relative_selector_def normal_path_def list_all_iff split: if_splits)
  ultimately show ?thesis using look env grant selector_confined by blast
qed

theorem resource_effect_confined_witness:
  "\<exists>record. hm_get (st_resources ex_active) ''handle'' = Some record \<and> \<not> rr_revoked record
     \<and> Read |\<in>| rg_allowed_verbs (rr_grant record) \<and> normal_path ''f''"
proof -
  from ex_enforce obtain evidence where e: "enforce plain_lib (recording ex_allow) (ex_request 0) ex_current []
      ex_active = (Inr evidence, [] @ [ex_request 0], ex_done)" by auto
  have "rq_effect (ex_request 0) = EffResource \<lparr>re_verb = Read, re_handle_ref = ''handle'',
      re_relative_selector = ''f'', re_value_digest = None\<rparr>" by (simp add: ex_request_def ex_request_body_def)
  from resource_effect_confined [OF ex_init _ e this] ex_reaches_active show ?thesis by auto
qed

lemma lost_interrupts:
  assumes "claimable L q current st" and "affordable q (ch_now current) st" and "answer q = LostAfterIntent"
    and "enforce L (recording answer) q current log st = (result, log', st')"
  shows "(\<exists>e. result = Inl e) \<and> (\<exists>run. hm_get (st_runs st') (rq_run_control_ref q) = Some run
    \<and> mr_state run = Interrupted)"
  using assms(4)
proof (cases rule: enforce_cases)
  case (lost envelope run nxt e)
  from assms(1) lost(5) have "mr_state run = Active" by (auto simp: claimable_def)
  with lost(5) have "\<exists>x. hm_get (st_runs st') (rq_run_control_ref q) = Some x \<and> mr_state x = Interrupted"
    unfolding lost(8) by (auto simp: interrupt_run_def run_mut_def mark_is_modify reserve_runs claim_runs
      run_terminal_def revoke_run_resources_def set_run_state_def hmap_simps)
  with lost(7) show ?thesis by blast
qed (use assms in \<open>auto simp: recording_def\<close>)

text \<open>C7. An ambiguous outcome is never taken for success: when the backend loses the outcome of a claimed
  request, \<open>enforce\<close> fails, the run is interrupted, and in every later state the run is still interrupted
  and \<open>completion_evidence\<close> refuses it.\<close>

theorem lost_outcome_never_completes:
  assumes "claimable L q current st" and "affordable q (ch_now current) st" and "answer q = LostAfterIntent"
    and "enforce L (recording answer) q current log st = (result, log', st')"
    and "rtranclp (authority_step L) (st', log') (st'', log'')"
  shows "\<not> is_ok result
    \<and> (\<exists>run. hm_get (st_runs st'') (rq_run_control_ref q) = Some run \<and> mr_state run = Interrupted)
    \<and> \<not> is_ok (completion_evidence L (rq_run_control_ref q) k current' st'')"
proof -
  from lost_interrupts [OF assms(1-4)] obtain run where res: "\<not> is_ok result"
    and run: "hm_get (st_runs st') (rq_run_control_ref q) = Some run" "mr_state run = Interrupted" by auto
  have "\<not> run_live (mr_state run)" by (simp add: run(2) run_live_def)
  from steps_run_retired [OF assms(5) run(1) this] obtain run' where
    run': "hm_get (st_runs st'') (rq_run_control_ref q) = Some run'" "run_advances (mr_state run) (mr_state run')"
    by auto
  then have "mr_state run' = Interrupted"
    using run_terminal_absorbing [of "mr_state run"] by (simp add: run(2) run_terminal_def)
  with res run'(1) show ?thesis
    by (auto simp: is_ok_iff completion_evidence_def res_simps)
qed

definition ex_lose :: "EffectRequestV1 \<Rightarrow> BackendApplyV1" where
  "ex_lose q = LostAfterIntent"

theorem lost_outcome_never_completes_witness:
  "\<not> is_ok (completion_evidence plain_lib ''run'' (ev_envelope_ref ex_envelope) ex_current
     (snd (snd (enforce plain_lib (recording ex_lose) (ex_request 0) ex_current [] ex_active))))"
proof -
  obtain result log' st' where e: "enforce plain_lib (recording ex_lose) (ex_request 0) ex_current [] ex_active
      = (result, log', st')" by (metis prod_cases3)
  have aff: "affordable (ex_request 0) (ch_now ex_current) ex_active"
    using ex_affordable by (simp add: ex_current_def)
  from lost_outcome_never_completes [OF ex_claimable aff _ e rtranclp.rtrancl_refl]
  have "\<not> is_ok (completion_evidence plain_lib (rq_run_control_ref (ex_request 0)) (ev_envelope_ref ex_envelope)
      ex_current st')" by (simp add: ex_lose_def)
  moreover have "rq_run_control_ref (ex_request 0) = ''run''" by (simp add: ex_request_def ex_request_body_def)
  ultimately show ?thesis by (simp only: e snd_conv simp_thms)
qed

lemma validate_chain_iff:
  "validate_chain_from L key r n prior es = Inr () \<longleftrightarrow>
     linked prior es \<and> map ee_sequence es = map of_nat [n..<n + length es]
     \<and> (\<forall>e \<in> set es. evidence_authentic L key e \<and> ee_contract_version e = EFFECT_AUTHORITY_VERSION
          \<and> ee_run_control_ref e = r)"
proof (induction es arbitrary: n prior)
  case (Cons e es)
  have "[n..<n + length (e # es)] = n # [Suc n..<Suc n + length es]" by (simp add: upt_rec)
  with Cons show ?case by auto
qed simp

text \<open>The conditions on the run and the Host under which a completion may be considered.\<close>

definition completion_eligible ::
  "ManagedRunRefV1 \<Rightarrow> EffectEnvelopeRefV1 \<Rightarrow> CurrentHostAuthorityV1 \<Rightarrow> EffectAuthorityStateV1 \<Rightarrow> bool" where
  "completion_eligible r k current st \<longleftrightarrow>
     (\<exists>run envelope. hm_get (st_runs st) r = Some run \<and> hm_get (st_envelopes st) k = Some envelope
        \<and> mr_state run = Active \<and> mr_envelope_ref run = k \<and> ev_run_control_ref envelope = r
        \<and> ch_now current < mr_expires_at run
        \<and> \<not> ch_burned current \<and> \<not> ch_disconnected current \<and> \<not> ch_restarted current \<and> ch_bridge_active current
        \<and> ch_now current < freshness_expires_at (ch_execution_freshness current)
        \<and> freshness_authority_ref (ch_execution_freshness current) = ctx_session_binding_ref (ev_context envelope)
        \<and> freshness_local_host_ref (ch_execution_freshness current) = ctx_host_ref (ev_context envelope))"

lemma completion_evidence_iff:
  "is_ok (completion_evidence L r k current st) \<longleftrightarrow>
     completion_eligible r k current st \<and> is_ok (validate_evidence_chain L r st)
     \<and> run_evidence r st \<noteq> []
     \<and> (\<exists>run. hm_get (st_runs st) r = Some run
          \<and> of_nat (length (run_evidence r st)) = mr_next_request_sequence run)
     \<and> length (run_intents r st) = length (run_evidence r st)
     \<and> list_all (\<lambda>i. \<not> in_indeterminate i \<and> settled i) (run_intents r st)
     \<and> list_all (\<lambda>e. ee_decision e = Allowed) (run_evidence r st)"
  unfolding is_ok_iff completion_evidence_def completion_eligible_def settled_def
  by (auto simp: res_simps Let_def list_all_iff list_ex_iff not_le not_less)

text \<open>C6. A run completes exactly on a complete record: in every reachable state, \<open>completion_evidence\<close>
  succeeds if and only if the run and the Host are eligible, the run claimed at least one intent, every
  one of its intents is settled and determinate, and every evidence item is an \<open>Allowed\<close> decision. The
  recomputation of the evidence chain never fails on a complete record.\<close>

theorem completion_exactly_on_complete_record:
  assumes "authority_init m" and "rtranclp (authority_step L) m (st, log)"
  shows "is_ok (completion_evidence L r k current st) \<longleftrightarrow>
    completion_eligible r k current st
    \<and> run_intents r st \<noteq> []
    \<and> list_all (\<lambda>i. settled i \<and> \<not> in_indeterminate i) (run_intents r st)
    \<and> list_all (\<lambda>e. ee_decision e = Allowed) (run_evidence r st)" (is "?lhs \<longleftrightarrow> ?rhs")
proof -
  have inv: "core_inv st" "spend_inv st log" "evidence_inv L st"
    using authority.inv_reachable [OF assms] by (simp_all add: authority_inv_def)
  let ?view = "\<lambda>i. (in_request_id i, in_sequence i)"
  have view: "map (\<lambda>e. (ee_request_id e, ee_sequence e)) (run_evidence r st)
      = map ?view (filter settled (run_intents r st))" and link: "linked None (run_evidence r st)"
    and auth: "\<forall>e \<in> set (run_evidence r st). evidence_authentic L (st_evidence_key st) e
      \<and> ee_contract_version e = EFFECT_AUTHORITY_VERSION \<and> ee_run_control_ref e = r"
    using inv(3) by (simp_all add: evidence_inv_def)
  have len: "length (run_evidence r st) = length (filter settled (run_intents r st))"
    using arg_cong [OF view, of length] by simp
  show ?thesis
  proof
    assume ?lhs
    then show ?rhs unfolding completion_evidence_iff by (auto simp: list_all_iff)
  next
    assume rhs: ?rhs
    then have all: "filter settled (run_intents r st) = run_intents r st"
      by (auto simp: list_all_iff intro!: filter_True)
    have "map ee_sequence (run_evidence r st) = map in_sequence (run_intents r st)"
      using arg_cong [OF view [unfolded all], of "map snd"] by (simp add: comp_def)
    also have "\<dots> = map of_nat [0..<length (run_intents r st)]" using inv(2) by (simp add: spend_inv_def)
    finally have "is_ok (validate_evidence_chain L r st)"
      unfolding validate_evidence_chain_def is_ok_unit validate_chain_iff
      using link auth len all by simp
    moreover from rhs obtain run where "hm_get (st_runs st) r = Some run" by (auto simp: completion_eligible_def)
    moreover from this inv(2) have "mr_next_request_sequence run = of_nat (length (run_intents r st))"
      by (simp add: spend_inv_def run_spend_ok_def)
    ultimately show ?lhs
      unfolding completion_evidence_iff using rhs len all by (auto simp: list_all_iff)
  qed
qed

theorem completion_exactly_on_complete_record_witness:
  "is_ok (completion_evidence plain_lib ''run'' (ev_envelope_ref ex_envelope) ex_current ex_done)"
proof -
  have inv: "authority_inv plain_lib (ex_done, [ex_request 0])"
    by (rule authority.inv_reachable [OF ex_init ex_reaches_done])
  then have core: "core_inv ex_done" and ev: "evidence_inv plain_lib ex_done" by (simp_all add: authority_inv_def)
  obtain evidence where one: "run_evidence ''run'' ex_done = [evidence]" "ee_decision evidence = Allowed"
    using ex_done_facts(3) by blast
  have "length (filter settled (run_intents ''run'' ex_done)) = 1"
  proof -
    have "map (\<lambda>e. (ee_request_id e, ee_sequence e)) (run_evidence ''run'' ex_done)
        = map (\<lambda>i. (in_request_id i, in_sequence i)) (filter settled (run_intents ''run'' ex_done))"
      using ev by (simp add: evidence_inv_def)
    from arg_cong [OF this, of length] show ?thesis by (simp add: one(1))
  qed
  moreover have "length (run_intents ''run'' ex_done) \<le> 1"
    using ex_done_facts(2) unfolding run_intents_def hm_values_def by (metis length_filter_le length_map)
  ultimately obtain i where i: "run_intents ''run'' ex_done = [i]" "settled i"
    by (cases "run_intents ''run'' ex_done") (auto split: if_splits)
  have "\<not> in_indeterminate i"
  proof -
    have "i \<in> set (hm_values (st_intents ex_done))" using i(1) by (metis filter_is_subset list.set_intros(1) run_intents_def subsetD)
    moreover have "\<forall>j \<in> set (hm_values (st_intents ex_done)). \<not> in_indeterminate j"
      by (rule ex_done_determinate)
    ultimately show ?thesis by blast
  qed
  moreover have "completion_eligible ''run'' (ev_envelope_ref ex_envelope) ex_current ex_done"
  proof -
    have "hm_get (st_envelopes ex_done) (ev_envelope_ref ex_envelope) = Some ex_envelope"
      by (simp add: ex_done_facts(1) ex_active_eq hm_get_def)
    with ex_done_facts(4) show ?thesis
      by (auto simp: completion_eligible_def ex_envelope_fields ex_current_def) (auto simp: ex_context_def)
  qed
  ultimately show ?thesis
    using completion_exactly_on_complete_record [OF ex_init ex_reaches_done] i one by simp
qed

lemma lower_intents_nth:
  "lower_intents L d t n is = Inr qs \<Longrightarrow> length qs = length is
     \<and> (\<forall>i < length is. unat (rq_sequence (qs ! i)) = unat (sd_first_sequence d) + unat (of_nat (n + i) :: u64)
          \<and> rq_effect (qs ! i) = ti_effect (is ! i)
          \<and> rq_requested_budget_slice (qs ! i) = ti_requested_budget_slice (is ! i)
          \<and> rq_preconditions (qs ! i) = ti_preconditions (is ! i)
          \<and> rq_context (qs ! i) = sd_context d \<and> rq_run_control_ref (qs ! i) = sd_run_control_ref d
          \<and> rq_envelope_ref (qs ! i) = sd_envelope_ref d
          \<and> rq_request_id (qs ! i) = compute_request_id L (qs ! i))"
proof (induction "is" arbitrary: n qs)
  case (Cons x xs)
  then obtain s rest where s: "checked_add (sd_first_sequence d) (of_nat n) = Some s"
    and rest: "lower_intents L d t (Suc n) xs = Inr rest"
    and qs: "qs = (let q = \<lparr>rq_contract_version = EFFECT_AUTHORITY_VERSION, rq_request_id = [],
        rq_envelope_ref = sd_envelope_ref d, rq_run_control_ref = sd_run_control_ref d,
        rq_context = sd_context d, rq_sequence = s, rq_adapter_version_ref = tr_adapter_version_ref t,
        rq_effect = ti_effect x, rq_requested_budget_slice = ti_requested_budget_slice x,
        rq_preconditions = ti_preconditions x\<rparr> in q\<lparr>rq_request_id := compute_request_id L q\<rparr>) # rest"
    by (auto simp: res_simps Let_def)
  from Cons.IH [OF rest] show ?case
    using unat_checked_add [OF s] unfolding qs Let_def
    by (auto simp: nth_Cons compute_request_id_def request_hash_material_def add.left_commute split: nat.splits)
qed simp

text \<open>Lowering a tool request is deterministic and complete: it fails on an unknown contract version,
  an empty request, an invalid context, name or adapter version, or a sequence overflow; otherwise it
  yields one request per intent, in order, numbered from the descriptor's first sequence without
  wrap-around, each carrying the intent's effect, budget and preconditions under its own content hash.
  The diagnostic tool name has no influence beyond its own validation.\<close>

theorem lower_tool_request_exact:
  assumes "lower_tool_request L d t = Inr qs" and "length (tr_intents t) \<le> 2 ^ 64" and "i < length (tr_intents t)"
  shows "length qs = length (tr_intents t)
    \<and> unat (rq_sequence (qs ! i)) = unat (sd_first_sequence d) + i
    \<and> rq_effect (qs ! i) = ti_effect (tr_intents t ! i)
    \<and> rq_requested_budget_slice (qs ! i) = ti_requested_budget_slice (tr_intents t ! i)
    \<and> rq_preconditions (qs ! i) = ti_preconditions (tr_intents t ! i)
    \<and> rq_context (qs ! i) = sd_context d \<and> rq_run_control_ref (qs ! i) = sd_run_control_ref d
    \<and> rq_envelope_ref (qs ! i) = sd_envelope_ref d
    \<and> rq_request_id (qs ! i) = compute_request_id L (qs ! i)
    \<and> lower_tool_request L d (t\<lparr>tr_tool_name := ''x''\<rparr>) = Inr qs"
proof -
  have low: "lower_intents L d t 0 (tr_intents t) = Inr qs"
    using assms(1) by (auto simp: lower_tool_request_def res_simps)
  have "i < 2 ^ 64" using assms(2,3) by linarith
  then have "unat (of_nat i :: u64) = i" by (simp add: unat_of_nat)
  moreover have "lower_intents L d (t\<lparr>tr_tool_name := ''x''\<rparr>) n xs = lower_intents L d t n xs" for n xs
    by (induction xs arbitrary: n) simp_all
  ultimately show ?thesis
    using lower_intents_nth [OF low] assms(1,3)
    by (auto simp: lower_tool_request_def res_simps)
qed

theorem lower_tool_request_exact_witness:
  "\<exists>qs. lower_tool_request plain_lib \<lparr>sd_contract_version = EFFECT_AUTHORITY_VERSION, sd_context = ex_context,
        sd_envelope_ref = ''e'', sd_run_control_ref = ''run'', sd_first_sequence = 7\<rparr>
      \<lparr>tr_tool_name = ''x'', tr_adapter_version_ref = ''x'', tr_intents = [\<lparr>ti_effect =
        EffProcess (Signal ''w'' ''p'' ''s''), ti_requested_budget_slice = ex_budgets 1, ti_preconditions = []\<rparr>]\<rparr>
      = Inr qs \<and> unat (rq_sequence (qs ! 0)) = 7"
proof -
  let ?d = "\<lparr>sd_contract_version = EFFECT_AUTHORITY_VERSION, sd_context = ex_context,
        sd_envelope_ref = ''e'', sd_run_control_ref = ''run'', sd_first_sequence = (7 :: u64)\<rparr>"
  let ?t = "\<lparr>tr_tool_name = ''x'', tr_adapter_version_ref = ''x'', tr_intents = [\<lparr>ti_effect =
        EffProcess (Signal ''w'' ''p'' ''s''), ti_requested_budget_slice = ex_budgets 1, ti_preconditions = []\<rparr>]\<rparr>"
  obtain qs where qs: "lower_tool_request plain_lib ?d ?t = Inr qs"
    by (simp add: lower_tool_request_def ex_context_valid checked_add_def Let_def)
  from lower_tool_request_exact [OF qs, of 0] qs show ?thesis by auto
qed

lemma add_grants_member:
  "g \<in> set gs \<Longrightarrow> \<exists>x. hm_get (add_grants k m gs) (rg_handle_ref g) = Some x \<and> \<not> rr_revoked x"
proof (induction gs rule: rev_induct)
  case (snoc a gs)
  have "add_grants k m (gs @ [a]) = hm_insert (rg_handle_ref a)
      \<lparr>rr_grant = a, rr_envelope_ref = k, rr_revoked = False\<rparr> (add_grants k m gs)"
    by (simp add: add_grants_def)
  with snoc show ?case by (auto simp: hmap_simps)
qed simp

text \<open>A compiled envelope can be put to work: if the run, the envelope and the handles are new to the
  state, installing the envelope that \<open>compile_effect_envelope\<close> returned for a draft succeeds, and before
  its expiry the run activates with nothing spent, sequence zero, and every grant unrevoked.\<close>

theorem compiled_envelope_installs:
  assumes "compile_effect_envelope L q = Inr envelope"
    and "AuthorityContextV1_context_ref L (cq_context q) = Inr r"
    and "hm_get (st_envelopes st) (ev_envelope_ref envelope) = None"
    and "hm_get (st_runs st) (cq_run_control_ref q) = None"
    and "list_all (\<lambda>g. hm_get (st_resources st) (rg_handle_ref g) = None) (ev_resources envelope)"
    and "now < ev_expires_at envelope"
  shows "\<exists>st1 st2 run. install_envelope L \<lparr>dr_context = cq_context q, dr_context_ref = r,
        dr_run_control_ref = cq_run_control_ref q\<rparr> envelope st = (Inr (), st1)
    \<and> activate_run (cq_run_control_ref q) now st1 = (Inr (), st2)
    \<and> hm_get (st_runs st2) (cq_run_control_ref q) = Some run \<and> mr_state run = Active
    \<and> mr_envelope_ref run = ev_envelope_ref envelope
    \<and> mr_next_request_sequence run = 0 \<and> mr_cumulative_budget_debits run = budgets_default
    \<and> list_all (\<lambda>g. \<exists>record. hm_get (st_resources st2) (rg_handle_ref g) = Some record \<and> \<not> rr_revoked record)
         (ev_resources envelope)"
proof -
  from assms(1,2) have fields: "ev_contract_version envelope = EFFECT_AUTHORITY_VERSION"
    "ev_context envelope = cq_context q" "ev_context_ref envelope = r" "ev_run_control_ref envelope = cq_run_control_ref q"
    "compute_envelope_ref L envelope = ev_envelope_ref envelope"
    unfolding compile_effect_envelope_iff
    by (auto simp: built_envelope_def Let_def compute_envelope_ref_def envelope_hash_material_def)
  let ?k = "cq_run_control_ref q" and ?e = "ev_envelope_ref envelope"
  define run where "run = \<lparr>mr_contract_version = EFFECT_AUTHORITY_VERSION, mr_run_control_ref = ?k,
    mr_context_ref = r, mr_envelope_ref = ?e, mr_state = Created, mr_next_request_sequence = 0,
    mr_cumulative_budget_debits = budgets_default, mr_expires_at = ev_expires_at envelope\<rparr>"
  define st1 where "st1 = st\<lparr>st_resources := add_grants ?e (st_resources st) (ev_resources envelope),
    st_runs := hm_insert ?k run (st_runs st), st_envelopes := hm_insert ?e envelope (st_envelopes st)\<rparr>"
  have "install_envelope L \<lparr>dr_context = cq_context q, dr_context_ref = r, dr_run_control_ref = ?k\<rparr> envelope st
      = (Inr (), st1)"
    using assms(3-5) by (auto simp: install_envelope_def fields hm_contains_iff list_ex_iff list_all_iff
      st1_def run_def add_grants_def)
  moreover have look: "hm_get (st_runs st1) ?k = Some run" by (simp add: st1_def hmap_simps)
  moreover from look have "activate_run ?k now st1 = (Inr (), set_run_state ?k Active st1)"
    using assms(6) by (simp add: activate_run_def run_mut_def) (simp add: run_def)
  moreover have "hm_get (st_runs (set_run_state ?k Active st1)) ?k = Some (run\<lparr>mr_state := Active\<rparr>)"
    using look by (simp add: set_run_state_def hmap_simps)
  moreover have "list_all (\<lambda>g. \<exists>x. hm_get (st_resources (set_run_state ?k Active st1)) (rg_handle_ref g) = Some x
      \<and> \<not> rr_revoked x) (ev_resources envelope)"
    by (simp add: list_all_iff st1_def set_run_state_def add_grants_member)
  ultimately show ?thesis by (auto simp: run_def)
qed

theorem compiled_envelope_installs_witness:
  "\<exists>st1 st2. install_envelope plain_lib ex_draft ex_envelope ex_start = (Inr (), st1)
     \<and> activate_run ''run'' 10 st1 = (Inr (), st2)"
proof -
  have "list_all (\<lambda>g. hm_get (st_resources ex_start) (rg_handle_ref g) = None) (ev_resources ex_envelope)"
    by (simp add: ex_start_def with_evidence_key_def list_all_iff)
  from compiled_envelope_installs [OF ex_compile _ _ _ this, of ex_context_ref 10]
  show ?thesis
    by (auto simp: ex_compile_request_def ex_context_ref ex_start_def with_evidence_key_def ex_envelope_fields ex_draft_def)
qed

end
