(* ===== verification/Safe_Files.thy ===== *)
theory Safe_Files
  imports Third_Party Interfaces
begin

text \<open>
  Identities of Host-local files, \<^verbatim>\<open>src-tauri/src/safe_file_identity.rs\<close> on Unix: managed selectors, the
  identity of one regular file, the bounded scan of a tree of regular files, and its digest.

  The file system is what the operating system shows the program: a tree of nodes. A file node carries
  what one open descriptor yields: the fingerprint before the read, what the successive calls of \<^verbatim>\<open>read\<close>
  return, and the fingerprint after them, so a file that changes under the reader is a node whose
  fingerprints differ. A path is the list of its components; the names of a directory come in any order.
\<close>

section \<open>Paths\<close>

text \<open>\<^verbatim>\<open>Path::components\<close> on Unix: empty parts and \<open>.\<close> parts disappear, except a leading \<open>.\<close>.\<close>

datatype path_component = RootDir | CurDir | ParentDir | Normal string

definition part_component :: "string \<Rightarrow> path_component option" where
  "part_component p =
     (if p = [] \<or> p = ''.'' then None else if p = ''..'' then Some ParentDir else Some (Normal p))"

definition path_components :: "string \<Rightarrow> path_component list" where
  "path_components s =
     (if starts_with ''/'' s then [RootDir]
      else if hd (split_on (CHR ''/'') s) = ''.'' then [CurDir] else [])
     @ List.map_filter part_component (split_on (CHR ''/'') s)"

definition is_absolute :: "string \<Rightarrow> bool" where
  "is_absolute s \<longleftrightarrow> starts_with ''/'' s"

primrec is_normal :: "path_component \<Rightarrow> bool" where
  "is_normal RootDir = False" | "is_normal CurDir = False" | "is_normal ParentDir = False"
| "is_normal (Normal _) = True"

text \<open>\<^verbatim>\<open>Vec<&str>::join("/")\<close>.\<close>

fun join_slash :: "string list \<Rightarrow> string" where
  "join_slash [] = []"
| "join_slash [p] = p"
| "join_slash (p # q # ps) = p @ CHR ''/'' # join_slash (q # ps)"

text \<open>\<^verbatim>\<open>String::from_utf8\<close> and \<^verbatim>\<open>OsStr::to_str\<close> accept exactly well-formed UTF-8.\<close>

definition cont_byte :: "char \<Rightarrow> bool" where
  "cont_byte c \<longleftrightarrow> 128 \<le> (of_char c :: nat) \<and> of_char c \<le> (191 :: nat)"

definition utf8_two :: "nat \<Rightarrow> char \<Rightarrow> bool" where
  "utf8_two a c \<longleftrightarrow> 194 \<le> a \<and> a \<le> 223 \<and> cont_byte c"

definition utf8_three :: "nat \<Rightarrow> char \<Rightarrow> char \<Rightarrow> bool" where
  "utf8_three a c d \<longleftrightarrow> 224 \<le> a \<and> a \<le> 239 \<and> cont_byte c \<and> cont_byte d
     \<and> (a = 224 \<longrightarrow> 160 \<le> (of_char c :: nat)) \<and> (a = 237 \<longrightarrow> of_char c \<le> (159 :: nat))"

definition utf8_four :: "nat \<Rightarrow> char \<Rightarrow> char \<Rightarrow> char \<Rightarrow> bool" where
  "utf8_four a c d e \<longleftrightarrow> 240 \<le> a \<and> a \<le> 244 \<and> cont_byte c \<and> cont_byte d \<and> cont_byte e
     \<and> (a = 240 \<longrightarrow> 144 \<le> (of_char c :: nat)) \<and> (a = 244 \<longrightarrow> of_char c \<le> (143 :: nat))"

fun utf8_valid :: "string \<Rightarrow> bool" where
  "utf8_valid [] = True"
| "utf8_valid (b # s) =
     (let a = (of_char b :: nat) in
      if a < 128 then utf8_valid s
      else case s of
        [] \<Rightarrow> False
      | c # t \<Rightarrow>
          if utf8_two a c then utf8_valid t
          else (case t of
            [] \<Rightarrow> False
          | d # u \<Rightarrow>
              if utf8_three a c d then utf8_valid u
              else (case u of [] \<Rightarrow> False | e # v \<Rightarrow> utf8_four a c d e \<and> utf8_valid v)))"

section \<open>Selectors\<close>

datatype file_error = FileError string | IoError

abbreviation file_invalid :: "string \<Rightarrow> file_error + 'a" where
  "file_invalid message \<equiv> Inl (FileError message)"

definition validate_managed_selector :: "string \<Rightarrow> file_error + unit" where
  "validate_managed_selector selector =
     (if selector = [] \<or> length selector > 512 \<or> contains_char (CHR 0x00) selector
        \<or> contains_char (CHR 0x5C) selector \<or> starts_with ''file:'' (to_ascii_lowercase selector)
      then file_invalid ''Managed resource selector is invalid.''
      else if selector = ''.'' then Inr ()
      else if is_absolute selector \<or> list_ex (\<lambda>c. \<not> is_normal c) (path_components selector)
      then file_invalid ''Managed resource selector must be normalized and relative.''
      else Inr ())"

section \<open>The identity of one file\<close>

record SourceFingerprint =
  fp_device :: u64
  fp_inode :: u64
  fp_byte_count :: u64
  fp_modified_seconds :: int
  fp_modified_nanoseconds :: int
  fp_changed_seconds :: int
  fp_changed_nanoseconds :: int
  fp_link_count :: u64

record SourceIdentity =
  si_digest :: string
  si_byte_count :: u64
  si_fingerprint :: SourceFingerprint

record open_file =
  of_before :: SourceFingerprint
  of_reads :: "byte list list"
  of_after :: SourceFingerprint

datatype fs_node = FileNode open_file | DirNode "(string \<times> fs_node) list" | SymlinkNode | SpecialNode

type_synonym path = "path_component list"

definition strip_path :: "path \<Rightarrow> path \<Rightarrow> path option" where
  "strip_path scope_path p = (if prefix scope_path p then Some (drop (length scope_path) p) else None)"

primrec normal_name :: "path_component \<Rightarrow> string" where
  "normal_name (Normal n) = n" | "normal_name RootDir = []" | "normal_name CurDir = []" | "normal_name ParentDir = []"

text \<open>\<^verbatim>\<open>source_fingerprint\<close> of what an open descriptor refers to, then the walk of \<^verbatim>\<open>open_regular_source\<close>:
  directories from the scope root on, no link followed, and the leaf a regular file with one link.\<close>

definition source_fingerprint :: "fs_node \<Rightarrow> file_error + SourceFingerprint" where
  "source_fingerprint node =
     (case node of
        FileNode source \<Rightarrow> Inr (of_before source)
      | _ \<Rightarrow> file_invalid ''Safe file source must be a regular file.'')"

fun open_source_at :: "fs_node \<Rightarrow> string list \<Rightarrow> file_error + fs_node" where
  "open_source_at directory [] = file_invalid ''Safe file source path is invalid.''"
| "open_source_at directory [name] =
     (case directory of
        DirNode entries \<Rightarrow>
          (case map_of entries name of
             None \<Rightarrow> file_invalid ''Safe file source is unavailable or unsafe.''
           | Some SymlinkNode \<Rightarrow> file_invalid ''Safe file source is unavailable or unsafe.''
           | Some child \<Rightarrow> Inr child)
      | _ \<Rightarrow> file_invalid ''Safe file source is unavailable or unsafe.'')"
| "open_source_at directory (name # rest) =
     (case directory of
        DirNode entries \<Rightarrow>
          (case map_of entries name of
             Some (DirNode es) \<Rightarrow> open_source_at (DirNode es) rest
           | _ \<Rightarrow> file_invalid ''Safe file source directory changed.'')
      | _ \<Rightarrow> file_invalid ''Safe file source directory changed.'')"

definition open_regular_source :: "path \<Rightarrow> fs_node \<Rightarrow> path \<Rightarrow> file_error + open_file" where
  "open_regular_source scope_path scope_node source_path =
     (case strip_path scope_path source_path of
        None \<Rightarrow> file_invalid ''Safe file source escaped its approved scope.''
      | Some relative \<Rightarrow>
          and_then (ensure (relative \<noteq> [] \<and> list_all is_normal relative)
            (FileError ''Safe file source path is invalid.'')) (\<lambda>_.
          and_then (case scope_node of DirNode _ \<Rightarrow> Inr () | _ \<Rightarrow> Inl IoError) (\<lambda>_.
          and_then (open_source_at scope_node (map normal_name relative)) (\<lambda>file.
          and_then (source_fingerprint file) (\<lambda>fingerprint.
          if fp_link_count fingerprint \<noteq> 1
          then file_invalid ''Safe file source has unsupported hard links.''
          else (case file of FileNode source \<Rightarrow> Inr source | _ \<Rightarrow> Inl IoError))))))"

text \<open>The read loop that hashing, reading and streaming share: \<open>acc\<close> is what was handed to the hasher. An
  empty read is the end of the file. A read is at most a buffer, so adding its length as a \<^verbatim>\<open>u64\<close> is
  exact.\<close>

fun read_loop :: "u64 \<Rightarrow> u64 \<Rightarrow> byte list \<Rightarrow> byte list list \<Rightarrow> file_error + byte list \<times> u64" where
  "read_loop maximum_bytes bytes acc [] = Inr (acc, bytes)"
| "read_loop maximum_bytes bytes acc (buffer # reads) =
     (if buffer = [] then Inr (acc, bytes)
      else if unat bytes + length buffer \<ge> 2 ^ 64 then file_invalid ''Safe file source is too large.''
      else let bytes = bytes + of_nat (length buffer) in
        if bytes > maximum_bytes then file_invalid ''Safe file source exceeds the identity limit.''
        else read_loop maximum_bytes bytes (acc @ buffer) reads)"

definition digest_open_source :: "lib \<Rightarrow> open_file \<Rightarrow> u64 \<Rightarrow> file_error + string \<times> u64" where
  "digest_open_source L source maximum_bytes =
     and_then (read_loop maximum_bytes 0 [] (of_reads source)) (\<lambda>(content, bytes).
     Inr (blake3_hex L content, bytes))"

definition capture_source_fingerprint :: "path \<Rightarrow> fs_node \<Rightarrow> path \<Rightarrow> file_error + SourceFingerprint" where
  "capture_source_fingerprint scope_path scope_node source_path =
     and_then (open_regular_source scope_path scope_node source_path) (\<lambda>source. Inr (of_before source))"

definition capture_source_identity ::
  "lib \<Rightarrow> path \<Rightarrow> fs_node \<Rightarrow> path \<Rightarrow> u64 \<Rightarrow> file_error + SourceIdentity" where
  "capture_source_identity L scope_path scope_node source_path maximum_bytes =
     and_then (open_regular_source scope_path scope_node source_path) (\<lambda>source.
     and_then (digest_open_source L source maximum_bytes) (\<lambda>(digest, byte_count).
     if of_before source \<noteq> of_after source \<or> byte_count \<noteq> fp_byte_count (of_before source)
     then file_invalid ''Safe file candidate changed while its identity was captured.''
     else Inr \<lparr>si_digest = digest, si_byte_count = byte_count, si_fingerprint = of_before source\<rparr>))"

text \<open>Reading and streaming an already captured file differ only in where the bytes go and in the last
  message.\<close>

definition exchange_source :: "string \<Rightarrow> lib \<Rightarrow> open_file \<Rightarrow> SourceIdentity \<Rightarrow> u64 \<Rightarrow> file_error + byte list" where
  "exchange_source message L source expected maximum_bytes =
     (if of_before source \<noteq> si_fingerprint expected \<or> si_byte_count expected > maximum_bytes
      then file_invalid ''Safe file source identity is stale or mismatched.''
      else and_then (read_loop maximum_bytes 0 [] (of_reads source)) (\<lambda>(content, bytes).
        if of_before source \<noteq> of_after source \<or> of_after source \<noteq> si_fingerprint expected
          \<or> bytes \<noteq> si_byte_count expected \<or> blake3_hex L content \<noteq> si_digest expected
        then file_invalid message
        else Inr content))"

definition read_source_if_identity_matches ::
  "lib \<Rightarrow> path \<Rightarrow> fs_node \<Rightarrow> path \<Rightarrow> SourceIdentity \<Rightarrow> u64 \<Rightarrow> file_error + byte list" where
  "read_source_if_identity_matches L scope_path scope_node source_path expected maximum_bytes =
     and_then (open_regular_source scope_path scope_node source_path) (\<lambda>source.
     exchange_source ''Safe file source changed while it was read.'' L source expected maximum_bytes)"

definition stream_source_if_identity_matches ::
  "lib \<Rightarrow> path \<Rightarrow> fs_node \<Rightarrow> path \<Rightarrow> SourceIdentity \<Rightarrow> u64 \<Rightarrow> file_error + byte list" where
  "stream_source_if_identity_matches L scope_path scope_node source_path expected maximum_bytes =
     and_then (open_regular_source scope_path scope_node source_path) (\<lambda>source.
     exchange_source ''Safe file source changed while it was streamed.'' L source expected maximum_bytes)"

definition open_source_if_identity_matches ::
  "path \<Rightarrow> fs_node \<Rightarrow> path \<Rightarrow> SourceIdentity \<Rightarrow> file_error + open_file" where
  "open_source_if_identity_matches scope_path scope_node source_path expected =
     and_then (open_regular_source scope_path scope_node source_path) (\<lambda>source.
     if of_before source \<noteq> si_fingerprint expected
     then file_invalid ''Safe file source identity is stale or mismatched.''
     else Inr source)"

text \<open>Asked after the last read.\<close>

definition source_still_matches :: "open_file \<Rightarrow> SourceIdentity \<Rightarrow> bool" where
  "source_still_matches source expected \<longleftrightarrow> of_after source = si_fingerprint expected"

section \<open>Trees of regular files\<close>

definition MAX_REGULAR_FILE_SET_ENTRIES :: nat where
  "MAX_REGULAR_FILE_SET_ENTRIES = 1024"

definition MAX_FILE_SIZE_BYTES :: u64 where
  "MAX_FILE_SIZE_BYTES = 10 * 1024 * 1024 * 1024"

record RegularFileSetIdentity =
  fi_files :: "(string \<times> SourceIdentity) list"
  fi_digest :: string
  fi_byte_count :: u64

type_synonym pending_dirs = "(string list \<times> (string \<times> fs_node) list) list"

type_synonym scan_state = "pending_dirs \<times> (string \<times> SourceIdentity) list \<times> u64"

definition saturating_sub :: "u64 \<Rightarrow> u64 \<Rightarrow> u64" where
  "saturating_sub a b = (if b \<le> a then a - b else 0)"

text \<open>One regular file of the scan, at \<open>path\<close> below the canonical root; its identity is captured through
  the root again.\<close>

definition scan_file ::
  "lib \<Rightarrow> path \<Rightarrow> fs_node \<Rightarrow> u64 \<Rightarrow> string list \<Rightarrow> scan_state \<Rightarrow> file_error + scan_state" where
  "scan_file L canonical_root root maximum_bytes relative = (\<lambda>(pending, files, total).
     if length files \<ge> MAX_REGULAR_FILE_SET_ENTRIES
     then file_invalid ''Managed regular-file-set exceeds its entry-count limit.''
     else if \<not> list_all utf8_valid relative
     then file_invalid ''Managed regular-file-set selector is not portable UTF-8.''
     else let selector = join_slash relative in
       and_then (validate_managed_selector selector) (\<lambda>_.
       and_then (capture_source_identity L canonical_root root (canonical_root @ map Normal relative)
         (saturating_sub maximum_bytes total)) (\<lambda>identity.
       and_then (ok_or (checked_add total (si_byte_count identity))
         (FileError ''Managed regular-file-set quota overflowed.'')) (\<lambda>total.
       if total > maximum_bytes \<or> hm_contains files selector
       then file_invalid ''Managed regular-file-set exceeds its quota or aliases a selector.''
       else Inr (pending, bt_insert selector identity files, total)))))"

fun scan_entries ::
  "lib \<Rightarrow> path \<Rightarrow> fs_node \<Rightarrow> u64 \<Rightarrow> string list \<Rightarrow> (string \<times> fs_node) list \<Rightarrow> scan_state
   \<Rightarrow> file_error + scan_state" where
  "scan_entries L canonical_root root maximum_bytes directory [] s = Inr s"
| "scan_entries L canonical_root root maximum_bytes directory ((name, node) # rest) s =
     (case node of
        SymlinkNode \<Rightarrow> file_invalid ''Managed regular-file-set contains a symlink or reparse point.''
      | SpecialNode \<Rightarrow> file_invalid ''Managed regular-file-set contains a special file.''
      | DirNode entries \<Rightarrow>
          scan_entries L canonical_root root maximum_bytes directory rest
            ((directory @ [name], entries) # fst s, snd s)
      | FileNode _ \<Rightarrow>
          and_then (scan_file L canonical_root root maximum_bytes (directory @ [name]) s) (\<lambda>s.
          scan_entries L canonical_root root maximum_bytes directory rest s))"

definition entries_size :: "(string \<times> fs_node) list \<Rightarrow> nat" where
  "entries_size es = sum_list (map (\<lambda>e. Suc (size (snd e))) es)"

definition pending_size :: "pending_dirs \<Rightarrow> nat" where
  "pending_size ps = sum_list (map (\<lambda>p. Suc (entries_size (snd p))) ps)"

lemma size_dir_entries: "Suc (entries_size es) \<le> Suc (size (DirNode es))"
proof -
  have "entries_size es \<le> size_list (size_prod (\<lambda>_. 0) size) es"
    by (induction es) (auto simp: entries_size_def)
  then show ?thesis by simp
qed

lemma scan_file_pending:
  "scan_file L c r m path s = Inr s' \<Longrightarrow> fst s' = fst s"
  by (cases s) (auto simp: scan_file_def res_simps Let_def split: if_splits)

lemma scan_entries_size:
  "scan_entries L c r m d es s = Inr s' \<Longrightarrow> pending_size (fst s') \<le> pending_size (fst s) + entries_size es"
proof (induction L c r m d es s arbitrary: s' rule: scan_entries.induct)
  case (2 L c r m d name node rest s)
  show ?case
  proof (cases node)
    case (FileNode f)
    with 2(3) obtain s1 where s1: "scan_file L c r m (d @ [name]) s = Inr s1"
      and rest: "scan_entries L c r m d rest s1 = Inr s'"
      by (auto simp: res_simps)
    from 2(1) [OF FileNode rest] scan_file_pending [OF s1] show ?thesis
      by (simp add: entries_size_def)
  next
    case (DirNode es)
    with 2(3) have rest: "scan_entries L c r m d rest ((d @ [name], es) # fst s, snd s) = Inr s'" by simp
    from 2(2) [OF DirNode rest] size_dir_entries [of es] show ?thesis
      by (simp add: DirNode entries_size_def pending_size_def)
  qed (use 2(3) in auto)
qed (simp add: entries_size_def)

text \<open>The loop of the scan: the directory pushed last is read first.\<close>

function scan_pending ::
  "lib \<Rightarrow> path \<Rightarrow> fs_node \<Rightarrow> u64 \<Rightarrow> scan_state \<Rightarrow> file_error + (string \<times> SourceIdentity) list \<times> u64" where
  "scan_pending L canonical_root root maximum_bytes ([], files, bytes) = Inr (files, bytes)"
| "scan_pending L canonical_root root maximum_bytes ((directory, entries) # pending, files, bytes) =
     (case scan_entries L canonical_root root maximum_bytes directory entries (pending, files, bytes) of
        Inl e \<Rightarrow> Inl e
      | Inr s \<Rightarrow> scan_pending L canonical_root root maximum_bytes s)"
  by pat_completeness auto
termination
proof (relation "measure (\<lambda>(L, c, r, m, s). pending_size (fst s))")
  fix L c r m d es p f t s
  assume "scan_entries L c r m d es (p, f, t) = Inr s"
  from scan_entries_size [OF this]
  show "((L, c, r, m, s), (L, c, r, m, (d, es) # p, f, t)) \<in> measure (\<lambda>(L, c, r, m, s). pending_size (fst s))"
    by (simp add: pending_size_def)
qed simp

definition scan_regular_file_set ::
  "lib \<Rightarrow> path \<Rightarrow> fs_node \<Rightarrow> u64 \<Rightarrow> file_error + (string \<times> SourceIdentity) list \<times> u64" where
  "scan_regular_file_set L canonical_root root maximum_bytes =
     (case root of
        DirNode entries \<Rightarrow> scan_pending L canonical_root root maximum_bytes ([([], entries)], [], 0)
      | _ \<Rightarrow> file_invalid ''Managed regular-file-set root must be a safe directory.'')"

definition file_set_entry_bytes :: "string \<times> string \<times> u64 \<Rightarrow> byte list" where
  "file_set_entry_bytes = (\<lambda>(selector, digest, byte_count).
     to_be_bytes (of_nat (length selector) :: u64) @ as_bytes selector
     @ to_be_bytes (of_nat (length digest) :: u64) @ as_bytes digest
     @ to_be_bytes byte_count)"

fun file_set_digest_loop ::
  "string option \<Rightarrow> (string \<times> string \<times> u64) list \<Rightarrow> file_error + byte list" where
  "file_set_digest_loop previous [] = Inr []"
| "file_set_digest_loop previous ((selector, digest, byte_count) # rest) =
     and_then (validate_managed_selector selector) (\<lambda>_.
     and_then (ensure (\<not> (case previous of None \<Rightarrow> False | Some value \<Rightarrow> selector \<le> value))
       (FileError ''Managed regular-file-set selectors must be canonical and unique.'')) (\<lambda>_.
     and_then (file_set_digest_loop (Some selector) rest) (\<lambda>bytes.
     Inr (file_set_entry_bytes (selector, digest, byte_count) @ bytes))))"

definition regular_file_set_digest_from_entries ::
  "lib \<Rightarrow> (string \<times> string \<times> u64) list \<Rightarrow> file_error + string" where
  "regular_file_set_digest_from_entries L entries =
     and_then (ensure (entries \<noteq> [])
       (FileError ''Managed regular-file-set must contain a regular file.'')) (\<lambda>_.
     and_then (file_set_digest_loop None entries) (\<lambda>bytes.
     Inr (blake3_hex L (as_bytes ''pastey-managed-regular-file-set-v1'' @ [0] @ bytes))))"

definition regular_file_set_digest :: "lib \<Rightarrow> (string \<times> SourceIdentity) list \<Rightarrow> file_error + string" where
  "regular_file_set_digest L files =
     regular_file_set_digest_from_entries L
       (map (\<lambda>(selector, identity). (selector, si_digest identity, si_byte_count identity)) files)"

definition capture_regular_file_set_identity ::
  "lib \<Rightarrow> path \<Rightarrow> fs_node \<Rightarrow> u64 \<Rightarrow> file_error + RegularFileSetIdentity" where
  "capture_regular_file_set_identity L canonical_root root maximum_bytes =
     and_then (scan_regular_file_set L canonical_root root maximum_bytes) (\<lambda>(files, total).
     and_then (ensure (files \<noteq> [])
       (FileError ''Managed regular-file-set must contain a regular file.'')) (\<lambda>_.
     and_then (regular_file_set_digest L files) (\<lambda>digest.
     Inr \<lparr>fi_files = files, fi_digest = digest, fi_byte_count = total\<rparr>)))"

section \<open>What a captured identity says\<close>

text \<open>The contents of a file: what the reads return up to the empty one.\<close>

definition of_bytes :: "open_file \<Rightarrow> byte list" where
  "of_bytes source = concat (takeWhile (\<lambda>buffer. buffer \<noteq> []) (of_reads source))"

text \<open>A file that does not change under its reader: one link, the same fingerprint before and after, and as
  many bytes as the fingerprint says.\<close>

definition stable_file :: "open_file \<Rightarrow> bool" where
  "stable_file f \<longleftrightarrow> fp_link_count (of_before f) = 1 \<and> of_after f = of_before f
     \<and> fp_byte_count (of_before f) = of_nat (length (of_bytes f))"

definition file_identity :: "lib \<Rightarrow> open_file \<Rightarrow> SourceIdentity" where
  "file_identity L f = \<lparr>si_digest = blake3_hex L (of_bytes f),
     si_byte_count = of_nat (length (of_bytes f)), si_fingerprint = of_before f\<rparr>"

lemma unat_add_of_nat: "unat a + n < 2 ^ 64 \<Longrightarrow> unat (a + of_nat n) = unat a + n" for a :: u64
  by (simp add: unat_word_ariths unat_of_nat)

lemma unat_add_le: "unat a + n \<le> unat m \<Longrightarrow> unat (a + of_nat n) = unat a + n" for a m :: u64
  by (rule unat_add_of_nat) (use unsigned_less [of m, where ?'a = nat] in simp)

lemma read_loop_Inr:
  "b \<le> m \<Longrightarrow> read_loop m b acc reads = Inr (content, n) \<longleftrightarrow>
     (let d = concat (takeWhile (\<lambda>buffer. buffer \<noteq> []) reads) in
      unat b + length d \<le> unat m \<and> content = acc @ d \<and> n = b + of_nat (length d))"
proof (induction reads arbitrary: b acc)
  case Nil
  then show ?case by (auto simp: word_le_nat_alt)
next
  case (Cons r reads)
  have m: "unat m < 2 ^ 64" using unsigned_less [of m, where ?'a = nat] by simp
  show ?case
  proof (cases "r \<noteq> [] \<and> unat b + length r \<le> unat m")
    case True
    then have u: "unat (b + of_nat (length r)) = unat b + length r" using unat_add_le by blast
    with True have le: "b + of_nat (length r) \<le> m" by (simp add: word_le_nat_alt)
    with True m have "read_loop m b acc (r # reads) = read_loop m (b + of_nat (length r)) (acc @ r) reads"
      by (auto simp: Let_def not_less)
    with Cons.IH [OF le, of "acc @ r"] u True show ?thesis by (simp add: Let_def add.assoc)
  next
    case False
    with Cons.prems m show ?thesis
      using unat_add_of_nat [of b "length r"] by (auto simp: Let_def word_le_nat_alt word_less_nat_alt)
  qed
qed

lemma capture_source_identity_Inr:
  "capture_source_identity L c r p m = Inr i \<longleftrightarrow>
     (\<exists>f. open_regular_source c r p = Inr f \<and> stable_file f \<and> length (of_bytes f) \<le> unat m
       \<and> i = file_identity L f)" (is "_ \<longleftrightarrow> ?rhs")
proof -
  have link: "fp_link_count (of_before f) = 1" if "open_regular_source c r p = Inr f" for f
    using that by (auto simp: open_regular_source_def source_fingerprint_def res_simps
      split: option.splits if_splits fs_node.splits)
  have "capture_source_identity L c r p m = Inr i \<longleftrightarrow>
    (\<exists>f. open_regular_source c r p = Inr f \<and> (\<exists>d n. read_loop m 0 [] (of_reads f) = Inr (d, n)
       \<and> of_before f = of_after f \<and> n = fp_byte_count (of_before f)
       \<and> i = \<lparr>si_digest = blake3_hex L d, si_byte_count = n, si_fingerprint = of_before f\<rparr>))"
    by (auto simp: capture_source_identity_def digest_open_source_def res_simps split: if_splits)
  also have "\<dots> \<longleftrightarrow> ?rhs"
    using link by (auto simp: read_loop_Inr Let_def of_bytes_def stable_file_def file_identity_def)
  finally show ?thesis .
qed

lemma exchange_source_Inr:
  "exchange_source message L f e m = Inr content \<longleftrightarrow>
     of_before f = si_fingerprint e \<and> of_after f = si_fingerprint e \<and> si_byte_count e \<le> m
     \<and> length (of_bytes f) \<le> unat m \<and> si_byte_count e = of_nat (length (of_bytes f))
     \<and> si_digest e = blake3_hex L (of_bytes f) \<and> content = of_bytes f"
proof -
  have "read_loop m 0 [] (of_reads f) = Inr (c, n) \<longleftrightarrow>
     length (of_bytes f) \<le> unat m \<and> c = of_bytes f \<and> n = of_nat (length (of_bytes f))" for c n
    by (auto simp: read_loop_Inr Let_def of_bytes_def)
  then show ?thesis
    by (auto simp: exchange_source_def res_simps not_less split: if_splits)
qed

section \<open>Selectors of paths\<close>

text \<open>What a file system allows as the name of a directory entry.\<close>

definition valid_name :: "string \<Rightarrow> bool" where
  "valid_name n \<longleftrightarrow> n \<noteq> [] \<and> CHR ''/'' \<notin> set n \<and> CHR 0x00 \<notin> set n \<and> n \<noteq> ''.'' \<and> n \<noteq> ''..''"

lemma split_join_slash:
  "ps \<noteq> [] \<Longrightarrow> \<forall>p \<in> set ps. CHR ''/'' \<notin> set p \<Longrightarrow> split_on (CHR ''/'') (join_slash ps) = ps"
  by (induction ps rule: join_slash.induct) (auto simp: split_on_no_sep split_on_append)

lemma part_component_valid: "valid_name n \<Longrightarrow> part_component n = Some (Normal n)"
  by (simp add: part_component_def valid_name_def)

lemma map_filter_valid: "list_all valid_name ps \<Longrightarrow> List.map_filter part_component ps = map Normal ps"
  by (induction ps) (simp_all add: part_component_valid List.map_filter_simps)

lemma join_slash_hd:
  assumes "list_all valid_name ps" and "ps \<noteq> []"
  shows "join_slash ps \<noteq> [] \<and> hd (join_slash ps) \<noteq> CHR ''/'' \<and> join_slash ps \<noteq> ''.''"
proof -
  obtain p qs where ps: "ps = p # qs" using assms(2) by (cases ps) auto
  then have p: "p \<noteq> []" "hd p \<noteq> CHR ''/''" "p \<noteq> ''.''"
    using assms(1) by (auto simp: valid_name_def) (metis hd_in_set)
  then show ?thesis using ps by (cases qs) (auto simp: append_eq_Cons_conv)
qed

lemma path_components_join:
  assumes "list_all valid_name ps" and "ps \<noteq> []"
  shows "path_components (join_slash ps) = map Normal ps"
proof -
  have split: "split_on (CHR ''/'') (join_slash ps) = ps"
    using assms by (intro split_join_slash) (auto simp: list_all_iff valid_name_def)
  moreover have "hd ps \<noteq> ''.''" using assms by (cases ps) (auto simp: valid_name_def)
  moreover have "\<not> starts_with ''/'' (join_slash ps)"
    using join_slash_hd [OF assms] by (cases "join_slash ps") (auto simp: starts_with_def)
  ultimately show ?thesis using map_filter_valid [OF assms(1)] by (simp add: path_components_def)
qed

lemma join_slash_inj:
  assumes "list_all valid_name ps" "ps \<noteq> []" "list_all valid_name qs" "qs \<noteq> []"
    and "join_slash ps = join_slash qs"
  shows "ps = qs"
  using path_components_join [OF assms(1,2)] path_components_join [OF assms(3,4)] assms(5)
  by (metis list.inj_map_strong path_component.inject)

text \<open>Which paths have a managed selector.\<close>

definition portable :: "string list \<Rightarrow> bool" where
  "portable ps \<longleftrightarrow> list_all utf8_valid ps \<and> length (join_slash ps) \<le> 512
     \<and> CHR 0x5C \<notin> set (join_slash ps) \<and> \<not> starts_with ''file:'' (to_ascii_lowercase (join_slash ps))"

lemma join_slash_chars: "set (join_slash ps) \<subseteq> insert (CHR ''/'') (\<Union> (set ` set ps))"
  by (induction ps rule: join_slash.induct) auto

lemma is_normal_Normals: "\<not> list_ex (\<lambda>c. \<not> is_normal c) (map Normal ps)"
  by (simp add: list_ex_iff)

lemma validate_join_slash:
  assumes "list_all valid_name ps" and "ps \<noteq> []"
  shows "validate_managed_selector (join_slash ps) = Inr () \<longleftrightarrow>
    length (join_slash ps) \<le> 512 \<and> CHR 0x5C \<notin> set (join_slash ps)
    \<and> \<not> starts_with ''file:'' (to_ascii_lowercase (join_slash ps))"
proof -
  have nul: "CHR 0x00 \<notin> set (join_slash ps)"
    using join_slash_chars [of ps] assms(1) by (auto simp: list_all_iff valid_name_def)
  have abs: "\<not> is_absolute (join_slash ps)"
    using join_slash_hd [OF assms] by (cases "join_slash ps") (auto simp: is_absolute_def starts_with_def)
  show ?thesis
    unfolding validate_managed_selector_def path_components_join [OF assms]
    using join_slash_hd [OF assms] nul abs is_normal_Normals by (auto simp: contains_char_def not_le)
qed

lemma split_on_parts: "p \<in> set (split_on c s) \<Longrightarrow> c \<notin> set p \<and> set p \<subseteq> set s"
proof (induction s arbitrary: p)
  case (Cons x s)
  obtain q qs where s: "split_on c s = q # qs" by (cases "split_on c s") auto
  from Cons.prems show ?case
  proof (cases "x = c")
    case True
    with Cons show ?thesis by auto
  next
    case False
    with Cons.prems s consider "p = x # q" | "p \<in> set qs" by auto
    then show ?thesis
    proof cases
      case 1
      with Cons.IH [of q] s False show ?thesis by auto
    next
      case 2
      with Cons.IH [of p] s show ?thesis by auto
    qed
  qed
qed simp

lemma normal_components:
  assumes "list_all is_normal cs"
  shows "cs = map Normal (map normal_name cs)"
  using assms
proof (induction cs)
  case (Cons c cs)
  then show ?case by (cases c) auto
qed simp

lemma normal_part:
  assumes "Normal n \<in> set (List.map_filter part_component ps)"
  shows "n \<in> set ps \<and> n \<noteq> [] \<and> n \<noteq> ''.'' \<and> n \<noteq> ''..''"
  using assms by (auto simp: List.map_filter_def part_component_def split: if_splits)

lemma selector_names:
  assumes "validate_managed_selector selector = Inr ()" and "selector \<noteq> ''.''"
  shows "\<exists>names. names \<noteq> [] \<and> list_all valid_name names \<and> path_components selector = map Normal names"
proof -
  let ?parts = "split_on (CHR ''/'') selector"
  have sel: "selector \<noteq> []" "CHR 0x00 \<notin> set selector" "\<not> starts_with ''/'' selector"
    and normal: "list_all is_normal (path_components selector)"
    using assms by (auto simp: validate_managed_selector_def contains_char_def is_absolute_def
      list_ex_iff list_all_iff split: if_splits)
  from normal sel(3) have hd: "hd ?parts \<noteq> ''.''"
    and comps: "path_components selector = List.map_filter part_component ?parts"
    by (auto simp: path_components_def split: if_splits)
  let ?names = "map normal_name (path_components selector)"
  have names: "path_components selector = map Normal ?names" by (rule normal_components [OF normal])
  have "valid_name n" if "n \<in> set ?names" for n
  proof -
    from that names have "Normal n \<in> set (List.map_filter part_component ?parts)"
      unfolding comps [symmetric] by (metis imageI list.set_map)
    from normal_part [OF this] split_on_parts [of n "CHR ''/''" selector] sel(2) show ?thesis
      by (auto simp: valid_name_def)
  qed
  moreover obtain q qs where parts: "?parts = q # qs" by (cases ?parts) auto
  moreover have "q \<noteq> []"
  proof
    assume "q = []"
    with parts sel(1,3) show False
      by (cases selector) (auto simp: starts_with_def split: if_splits list.splits)
  qed
  ultimately show ?thesis using names hd comps
    by (intro exI [of _ ?names]) (auto simp: list_all_iff part_component_def List.map_filter_simps)
qed

text \<open>A selector that the check accepts names a place at or below the root: it is \<open>.\<close>, or its path
  components are one or more ordinary names, each with neither a separator nor a NUL byte and none of them
  \<open>.\<close> or \<open>..\<close>, so following them never leaves the root.\<close>

theorem selector_stays_below_root:
  assumes "validate_managed_selector selector = Inr ()" and "selector \<noteq> ''.''"
  shows "\<exists>names. names \<noteq> [] \<and> list_all valid_name names \<and> path_components selector = map Normal names"
  using assms by (rule selector_names)

theorem selector_stays_below_root_witness:
  "\<exists>names. names \<noteq> [] \<and> list_all valid_name names \<and> path_components ''src/main.rs'' = map Normal names"
proof (rule selector_stays_below_root)
  show "validate_managed_selector ''src/main.rs'' = Inr ()"
    by (simp add: validate_managed_selector_def contains_char_def starts_with_def to_ascii_lowercase_def
      ascii_lower_def is_absolute_def path_components_def List.map_filter_simps part_component_def)
qed simp

text \<open>The check does not make selectors canonical, although its message and its documentation speak of
  normalized ones: \<open>a//b\<close>, \<open>a/./b\<close> and \<open>a/b/\<close> are accepted beside \<open>a/b\<close> and denote the same path.\<close>

theorem selector_not_normalized:
  "validate_managed_selector ''a/b'' = Inr () \<and> validate_managed_selector ''a//b'' = Inr ()
   \<and> validate_managed_selector ''a/./b'' = Inr () \<and> validate_managed_selector ''a/b/'' = Inr ()
   \<and> path_components ''a//b'' = path_components ''a/b'' \<and> path_components ''a/./b'' = path_components ''a/b''
   \<and> path_components ''a/b/'' = path_components ''a/b''"
  by (simp add: validate_managed_selector_def contains_char_def starts_with_def to_ascii_lowercase_def
      ascii_lower_def is_absolute_def path_components_def List.map_filter_simps part_component_def)

section \<open>What the scan collects\<close>

text \<open>All regular files of a tree with their paths, and whether the tree holds nothing else but
  directories.\<close>

fun node_files :: "string list \<Rightarrow> fs_node \<Rightarrow> (string list \<times> open_file) list" where
  "node_files path (FileNode f) = [(path, f)]"
| "node_files path (DirNode es) = concat (map (\<lambda>(name, node). node_files (path @ [name]) node) es)"
| "node_files path SymlinkNode = []"
| "node_files path SpecialNode = []"

fun plain_tree :: "fs_node \<Rightarrow> bool" where
  "plain_tree (FileNode f) = True"
| "plain_tree (DirNode es) = (\<forall>(name, node) \<in> set es. plain_tree node)"
| "plain_tree SymlinkNode = False"
| "plain_tree SpecialNode = False"

text \<open>A tree as a file system has it: proper names, no name twice in a directory.\<close>

fun fs_wf :: "fs_node \<Rightarrow> bool" where
  "fs_wf (DirNode es) = (distinct (map fst es) \<and> (\<forall>(name, node) \<in> set es. valid_name name \<and> fs_wf node))"
| "fs_wf _ = True"

abbreviation tree_files :: "fs_node \<Rightarrow> (string list \<times> open_file) list" where
  "tree_files \<equiv> node_files []"

lemma node_files_prefix: "node_files path node = map (\<lambda>(p, f). (path @ p, f)) (node_files [] node)"
proof (induction node arbitrary: path)
  case (DirNode es)
  have "node_files (path @ [n]) c = map (\<lambda>(p, f). (path @ p, f)) (node_files [n] c)" if "(n, c) \<in> set es" for n c
  proof -
    have "node_files q c = map (\<lambda>(p, f). (q @ p, f)) (tree_files c)" for q
      by (rule DirNode [OF that]) (simp add: snds.simps)
    from this [of "path @ [n]"] this [of "[n]"] show ?thesis by (simp add: case_prod_beta comp_def)
  qed
  then show ?case by (auto simp: map_concat comp_def intro!: arg_cong [of _ _ concat] map_cong)
qed auto

lemma tree_files_entry:
  "(p, f) \<in> set (tree_files (DirNode es)) \<longleftrightarrow> (\<exists>n q c. (n, c) \<in> set es \<and> p = n # q \<and> (q, f) \<in> set (tree_files c))"
  (is "?l \<longleftrightarrow> ?r")
proof -
  have "?l \<longleftrightarrow> (\<exists>n c. (n, c) \<in> set es \<and> (p, f) \<in> set (node_files [n] c))" by auto
  also have "\<dots> \<longleftrightarrow> ?r" by (subst node_files_prefix) force
  finally show ?thesis .
qed

declare node_files.simps(2) [simp del]

lemma tree_files_names: "fs_wf node \<Longrightarrow> (p, f) \<in> set (tree_files node) \<Longrightarrow> list_all valid_name p"
proof (induction node arbitrary: p)
  case (DirNode es)
  then obtain n q c where c: "(n, c) \<in> set es" "p = n # q" "(q, f) \<in> set (tree_files c)"
    by (auto simp: tree_files_entry)
  with DirNode.prems(1) have "valid_name n" "fs_wf c" by auto
  with DirNode.IH [of "(n, c)" c] c show ?case by (simp add: snds.simps)
qed auto

lemma open_source_at_file:
  "fs_wf (DirNode es) \<Longrightarrow> (p, f) \<in> set (tree_files (DirNode es)) \<Longrightarrow> open_source_at (DirNode es) p = Inr (FileNode f)"
proof (induction p arbitrary: es)
  case Nil
  then show ?case by (auto simp: tree_files_entry)
next
  case (Cons n p)
  from Cons.prems(2) obtain c where c: "(n, c) \<in> set es" "(p, f) \<in> set (tree_files c)"
    by (auto simp: tree_files_entry)
  with Cons.prems(1) have look: "map_of es n = Some c" and wf: "fs_wf c" by auto
  show ?case
  proof (cases c)
    case (FileNode g)
    with c(2) look show ?thesis by simp
  next
    case (DirNode ds)
    with c(2) have "p \<noteq> []" by (auto simp: tree_files_entry)
    with look DirNode Cons.IH [of ds] wf c(2) show ?thesis by (cases p) auto
  qed (use c(2) in auto)
qed

lemma open_regular_source_file:
  assumes "fs_wf (DirNode es)" and "(p, f) \<in> set (tree_files (DirNode es))"
    and "fp_link_count (of_before f) = 1"
  shows "open_regular_source c (DirNode es) (c @ map Normal p) = Inr f"
proof -
  have "p \<noteq> []" using assms(2) by (auto simp: tree_files_entry)
  moreover have "map normal_name (map Normal p) = p" by (simp add: comp_def)
  moreover have "list_all is_normal (map Normal p)" by (simp add: list_all_iff)
  moreover have "strip_path c (c @ map Normal p) = Some (map Normal p)" by (simp add: strip_path_def)
  ultimately show ?thesis using open_source_at_file [OF assms(1,2)] assms(3)
    by (simp add: open_regular_source_def source_fingerprint_def del: map_map)
qed

lemma open_regular_source_only:
  assumes "fs_wf (DirNode es)" and "(p, f) \<in> set (tree_files (DirNode es))"
    and "open_regular_source c (DirNode es) (c @ map Normal p) = Inr g"
  shows "g = f"
proof -
  have "map normal_name (map Normal p) = p" by (simp add: comp_def)
  then show ?thesis using open_source_at_file [OF assms(1,2)] assms(3)
    by (auto simp: open_regular_source_def strip_path_def source_fingerprint_def res_simps
      simp del: map_map split: if_splits)
qed

end
