(* ===== verification/File_Set_Identity.thy ===== *)
theory File_Set_Identity
  imports Safe_Files "HOL-Library.Multiset"
begin

text \<open>
  What the bounded scan of a tree collects, and what the digest of a set of regular files says
  (\<^verbatim>\<open>scan_regular_file_set\<close>, \<^verbatim>\<open>capture_regular_file_set_identity\<close>, \<^verbatim>\<open>regular_file_set_digest\<close>).
\<close>

section \<open>The scan as one pass over the files\<close>

text \<open>The scan visits the files in some order; \<open>collect\<close> is what it does with the files of a list.\<close>

fun collect :: "lib \<Rightarrow> u64 \<Rightarrow> (string list \<times> open_file) list \<Rightarrow> (string \<times> SourceIdentity) list \<times> u64
    \<Rightarrow> ((string \<times> SourceIdentity) list \<times> u64) option" where
  "collect L m [] s = Some s"
| "collect L m ((p, f) # xs) (files, t) =
     (if length files < 1024 \<and> portable p \<and> stable_file f \<and> unat t + length (of_bytes f) \<le> unat m
        \<and> join_slash p \<notin> fst ` set files
      then collect L m xs (bt_insert (join_slash p) (file_identity L f) files, t + of_nat (length (of_bytes f)))
      else None)"

lemma collect_append:
  "collect L m (xs @ ys) s = (case collect L m xs s of None \<Rightarrow> None | Some s' \<Rightarrow> collect L m ys s')"
  by (induction L m xs s rule: collect.induct) auto

lemma collect_le: "collect L m xs s = Some s' \<Longrightarrow> snd s \<le> m \<Longrightarrow> snd s' \<le> m"
proof (induction L m xs s rule: collect.induct)
  case (2 L m p f xs files t)
  then have "t + of_nat (length (of_bytes f)) \<le> m"
    by (auto simp: word_le_nat_alt unat_add_le split: if_splits)
  with 2 show ?case by (simp split: if_splits)
qed simp

lemma scan_file_Inr:
  assumes wf: "fs_wf (DirNode es)" and pf: "(p, f) \<in> set (tree_files (DirNode es))" and t: "t \<le> m"
  shows "scan_file L c (DirNode es) m p (pending, files, t) = Inr s' \<longleftrightarrow>
    (\<exists>r. collect L m [(p, f)] (files, t) = Some r \<and> s' = (pending, r))"
proof -
  have p: "list_all valid_name p" "p \<noteq> []"
    using tree_files_names [OF wf pf] pf by (auto simp: tree_files_entry)
  have sub: "unat (saturating_sub m t) = unat m - unat t"
    using t by (simp add: saturating_sub_def word_le_nat_alt unat_sub)
  have cap: "capture_source_identity L c (DirNode es) (c @ map Normal p) (saturating_sub m t) = Inr i \<longleftrightarrow>
      stable_file f \<and> unat t + length (of_bytes f) \<le> unat m \<and> i = file_identity L f" for i
    unfolding capture_source_identity_Inr sub
    using open_regular_source_file [OF wf pf] open_regular_source_only [OF wf pf] t
    by (auto simp: stable_file_def word_le_nat_alt)
  have add: "checked_add t (si_byte_count (file_identity L f)) = Some u \<longleftrightarrow> u = t + of_nat (length (of_bytes f))"
    "\<not> m < t + of_nat (length (of_bytes f))"
    if "unat t + length (of_bytes f) \<le> unat m" for u
    using that unsigned_less [of m, where ?'a = nat]
    by (auto simp: checked_add_Some file_identity_def unat_of_nat word_less_nat_alt unat_add_le)
  show ?thesis
    unfolding scan_file_def MAX_REGULAR_FILE_SET_ENTRIES_def
    using add validate_join_slash [OF p]
    by (auto simp: res_simps Let_def cap portable_def hm_contains_def map_of_eq_None_iff split: if_splits)
qed

definition direct_files :: "string list \<Rightarrow> (string \<times> fs_node) list \<Rightarrow> (string list \<times> open_file) list" where
  "direct_files d es = List.map_filter
     (\<lambda>(n, c). case c of FileNode f \<Rightarrow> Some (d @ [n], f) | _ \<Rightarrow> None) es"

definition direct_dirs :: "string list \<Rightarrow> (string \<times> fs_node) list \<Rightarrow> pending_dirs" where
  "direct_dirs d es = List.map_filter
     (\<lambda>(n, c). case c of DirNode ds \<Rightarrow> Some (d @ [n], ds) | _ \<Rightarrow> None) es"

lemma direct_simps [simp]:
  "direct_files d [] = []" "direct_dirs d [] = []"
  "direct_files d ((n, FileNode f) # es) = (d @ [n], f) # direct_files d es"
  "direct_files d ((n, DirNode ds) # es) = direct_files d es"
  "direct_dirs d ((n, FileNode f) # es) = direct_dirs d es"
  "direct_dirs d ((n, DirNode ds) # es) = (d @ [n], ds) # direct_dirs d es"
  by (simp_all add: direct_files_def direct_dirs_def List.map_filter_simps)

lemma scan_entries_Inr:
  assumes "fs_wf (DirNode root)" and "set (direct_files d es) \<subseteq> set (tree_files (DirNode root))" and "t \<le> m"
  shows "scan_entries L c (DirNode root) m d es (pending, files, t) = Inr s' \<longleftrightarrow>
    (\<forall>(n, node) \<in> set es. node \<noteq> SymlinkNode \<and> node \<noteq> SpecialNode)
    \<and> (\<exists>r. collect L m (direct_files d es) (files, t) = Some r \<and> s' = (rev (direct_dirs d es) @ pending, r))"
  using assms(2,3)
proof (induction es arbitrary: pending files t)
  case (Cons e es)
  obtain n node where e: "e = (n, node)" by (cases e)
  show ?case
  proof (cases node)
    case (FileNode f)
    with Cons.prems e have f: "(d @ [n], f) \<in> set (tree_files (DirNode root))"
      and sub: "set (direct_files d es) \<subseteq> set (tree_files (DirNode root))" by auto
    have IH: "scan_entries L c (DirNode root) m d es (pending, r) = Inr s' \<longleftrightarrow>
      (\<forall>(n, node) \<in> set es. node \<noteq> SymlinkNode \<and> node \<noteq> SpecialNode)
      \<and> (\<exists>r'. collect L m (direct_files d es) r = Some r' \<and> s' = (rev (direct_dirs d es) @ pending, r'))"
      if "collect L m [(d @ [n], f)] (files, t) = Some r" for r
      using Cons.IH [OF sub, of "snd r" pending "fst r"] collect_le [OF that] Cons.prems(2) by simp
    have "collect L m (direct_files d (e # es)) (files, t) =
      (case collect L m [(d @ [n], f)] (files, t) of None \<Rightarrow> None | Some r \<Rightarrow> collect L m (direct_files d es) r)"
      using collect_append [of L m "[(d @ [n], f)]"] by (simp add: e FileNode)
    moreover have "scan_entries L c (DirNode root) m d (e # es) (pending, files, t) = Inr s' \<longleftrightarrow>
      (\<exists>r. collect L m [(d @ [n], f)] (files, t) = Some r
        \<and> scan_entries L c (DirNode root) m d es (pending, r) = Inr s')"
      using scan_file_Inr [OF assms(1) f Cons.prems(2)] by (auto simp: e FileNode res_simps simp del: collect.simps)
    ultimately show ?thesis using IH by (auto simp: e FileNode simp del: collect.simps split: option.splits)
  next
    case (DirNode ds)
    with Cons e show ?thesis by simp
  qed (auto simp: e)
qed auto

section \<open>The order of the visit does not matter\<close>

lemma bt_insert_fresh:
  assumes "k \<notin> fst ` set m"
  shows "set (bt_insert k v m) = insert (k, v) (set m)" and "length (bt_insert k v m) = Suc (length m)"
  using assms by (induction k v m rule: bt_insert.induct) auto

lemma bt_unique:
  assumes "bt_wf a" and "bt_wf b" and "set a = set b"
  shows "a = b"
proof -
  have keys: "map fst a = map fst b"
    using assms by (intro strict_sorted_equal) auto
  moreover have "map_of a = map_of b"
    using assms bt_distinct by (metis map_of_eq_Some_iff option.exhaust ext)
  moreover have "x = map (\<lambda>k. (k, the (map_of x k))) (map fst x)" if "bt_wf x" for x :: "('a \<times> 'b) list"
    using bt_distinct [OF that] by (auto simp: comp_def intro!: map_idI [symmetric])
  ultimately show ?thesis using assms(1,2) by metis
qed

lemma collect_wf:
  "collect L m xs (files, t) = Some (files', t') \<Longrightarrow> bt_wf files \<Longrightarrow> length files \<le> 1024 \<Longrightarrow>
     bt_wf files' \<and> length files' \<le> 1024"
proof (induction L m xs "(files, t)" arbitrary: files t rule: collect.induct)
  case (2 L m p f xs files t)
  then show ?case by (simp add: bt_insert_fresh bt_wf_insert split: if_splits)
qed simp

definition entry_of :: "lib \<Rightarrow> string list \<times> open_file \<Rightarrow> string \<times> SourceIdentity" where
  "entry_of L = (\<lambda>(p, f). (join_slash p, file_identity L f))"

definition total_length :: "(string list \<times> open_file) list \<Rightarrow> nat" where
  "total_length xs = sum_list (map (\<lambda>x. length (of_bytes (snd x))) xs)"

definition selectors :: "(string list \<times> open_file) list \<Rightarrow> string list" where
  "selectors xs = map (\<lambda>x. join_slash (fst x)) xs"

definition acceptable :: "(string list \<times> open_file) list \<Rightarrow> bool" where
  "acceptable xs \<longleftrightarrow> (\<forall>(p, f) \<in> set xs. portable p \<and> stable_file f)"

lemma list_simps [simp]:
  "total_length [] = 0" "total_length (x # xs) = length (of_bytes (snd x)) + total_length xs"
  "selectors [] = []" "selectors (x # xs) = join_slash (fst x) # selectors xs"
  "acceptable []" "acceptable (x # xs) \<longleftrightarrow> portable (fst x) \<and> stable_file (snd x) \<and> acceptable xs"
  by (auto simp: total_length_def selectors_def acceptable_def)

lemma collect_Some:
  assumes "bt_wf files" and "length files \<le> 1024" and "t \<le> m"
  shows "collect L m xs (files, t) = Some (files', t') \<longleftrightarrow>
    acceptable xs \<and> distinct (selectors xs) \<and> set (selectors xs) \<inter> fst ` set files = {}
    \<and> length files + length xs \<le> 1024 \<and> unat t + total_length xs \<le> unat m
    \<and> bt_wf files' \<and> set files' = set files \<union> entry_of L ` set xs \<and> t' = t + of_nat (total_length xs)"
  using assms
proof (induction xs arbitrary: files t)
  case Nil
  then show ?case by (auto simp: word_le_nat_alt intro: bt_unique)
next
  case (Cons x xs)
  obtain p f where x: "x = (p, f)" by (cases x)
  let ?k = "join_slash p" and ?n = "length (of_bytes f)"
  let ?files = "bt_insert ?k (file_identity L f) files"
  show ?case
  proof (cases "length files < 1024 \<and> portable p \<and> stable_file f \<and> unat t + ?n \<le> unat m \<and> ?k \<notin> fst ` set files")
    case True
    have wf: "bt_wf ?files" by (rule bt_wf_insert [OF Cons.prems(1)])
    have u: "unat (t + of_nat ?n) = unat t + ?n" by (rule unat_add_le) (use True in blast)
    with True have le: "t + of_nat ?n \<le> m" by (simp add: word_le_nat_alt)
    from True have set: "set ?files = insert (?k, file_identity L f) (set files)"
      and len: "length ?files = Suc (length files)" by (simp_all add: bt_insert_fresh)
    have "collect L m (x # xs) (files, t) = collect L m xs (?files, t + of_nat ?n)"
      using True by (simp add: x)
    moreover have "collect L m xs (?files, t + of_nat ?n) = Some (files', t') \<longleftrightarrow>
      acceptable xs \<and> distinct (selectors xs) \<and> set (selectors xs) \<inter> fst ` set ?files = {}
      \<and> length ?files + length xs \<le> 1024 \<and> unat (t + of_nat ?n) + total_length xs \<le> unat m
      \<and> bt_wf files' \<and> set files' = set ?files \<union> entry_of L ` set xs
      \<and> t' = t + of_nat ?n + of_nat (total_length xs)"
      using Cons.IH [OF wf _ le] True len by simp
    ultimately show ?thesis
      unfolding set u len using True by (auto simp: x entry_of_def add.assoc)
  next
    case False
    then show ?thesis by (auto simp: x)
  qed
qed

lemma collect_perm:
  assumes "mset xs = mset ys" and "bt_wf files" and "length files \<le> 1024" and "t \<le> m"
  shows "collect L m xs (files, t) = collect L m ys (files, t)"
proof -
  have sel: "mset (selectors xs) = mset (selectors ys)"
    using assms(1) by (simp add: selectors_def)
  have "total_length zs = (\<Sum>x \<in># mset zs. length (of_bytes (snd x)))" for zs
    by (induction zs) simp_all
  then have "total_length xs = total_length ys" using assms(1) by simp
  moreover have "set xs = set ys" and "length xs = length ys"
    by (rule mset_eq_setD [OF assms(1)], rule mset_eq_length [OF assms(1)])
  moreover have "distinct (selectors xs) = distinct (selectors ys)" and "set (selectors xs) = set (selectors ys)"
    by (rule mset_eq_imp_distinct_iff [OF sel], rule mset_eq_setD [OF sel])
  ultimately have "collect L m xs (files, t) = Some (a, b) \<longleftrightarrow> collect L m ys (files, t) = Some (a, b)" for a b
    unfolding collect_Some [OF assms(2-4)] acceptable_def by simp
  then have "collect L m xs (files, t) = Some r \<longleftrightarrow> collect L m ys (files, t) = Some r" for r
    by (cases r) simp
  then show ?thesis by (metis option.exhaust)
qed

section \<open>The scan of a tree\<close>

definition pending_files :: "pending_dirs \<Rightarrow> (string list \<times> open_file) list" where
  "pending_files ps = concat (map (\<lambda>(d, es). node_files d (DirNode es)) ps)"

definition pending_plain :: "pending_dirs \<Rightarrow> bool" where
  "pending_plain ps \<longleftrightarrow> (\<forall>(d, es) \<in> set ps. plain_tree (DirNode es))"

lemma pending_simps [simp]:
  "pending_files [] = []" "pending_files ((d, es) # ps) = node_files d (DirNode es) @ pending_files ps"
  "pending_files (ps @ qs) = pending_files ps @ pending_files qs"
  "pending_plain []" "pending_plain (ps @ qs) \<longleftrightarrow> pending_plain ps \<and> pending_plain qs"
  "pending_plain ((d, es) # ps) \<longleftrightarrow> plain_tree (DirNode es) \<and> pending_plain ps" "pending_plain (rev ps) = pending_plain ps"
  by (auto simp: pending_files_def pending_plain_def ball_Un simp del: plain_tree.simps)

lemma mset_pending_rev [simp]: "mset (pending_files (rev ps)) = mset (pending_files ps)"
  by (induction ps) auto

lemma node_files_Cons:
  "node_files d (DirNode ((n, c) # es)) = node_files (d @ [n]) c @ node_files d (DirNode es)"
  by (simp add: node_files.simps)

lemma direct_skip [simp]:
  "direct_files d ((n, SymlinkNode) # es) = direct_files d es" "direct_dirs d ((n, SymlinkNode) # es) = direct_dirs d es"
  "direct_files d ((n, SpecialNode) # es) = direct_files d es" "direct_dirs d ((n, SpecialNode) # es) = direct_dirs d es"
  by (simp_all add: direct_files_def direct_dirs_def List.map_filter_simps)

lemma node_files_direct:
  "mset (node_files d (DirNode es)) = mset (direct_files d es) + mset (pending_files (direct_dirs d es))"
proof (induction es)
  case (Cons e es)
  obtain n c where "e = (n, c)" by (cases e)
  with Cons show ?case by (cases c) (simp_all add: node_files_Cons)
qed (simp add: node_files.simps)

lemma plain_direct:
  "plain_tree (DirNode es) \<longleftrightarrow>
     (\<forall>(n, c) \<in> set es. c \<noteq> SymlinkNode \<and> c \<noteq> SpecialNode) \<and> pending_plain (direct_dirs d es)"
proof (induction es)
  case (Cons e es)
  obtain n c where "e = (n, c)" by (cases e)
  with Cons show ?case by (cases c) auto
qed simp

lemma scan_pending_Inr:
  assumes "fs_wf (DirNode root)" and "set (pending_files ps) \<subseteq> set (tree_files (DirNode root))"
    and "bt_wf files" and "length files \<le> 1024" and "t \<le> m"
  shows "scan_pending L c (DirNode root) m (ps, files, t) = Inr r \<longleftrightarrow>
    pending_plain ps \<and> collect L m (pending_files ps) (files, t) = Some r"
  using assms(2-)
proof (induction "pending_size ps" arbitrary: ps files t rule: less_induct)
  case less
  show ?case
  proof (cases ps)
    case Nil
    then show ?thesis by auto
  next
    case (Cons de qs)
    obtain d es where ps: "ps = (d, es) # qs" using Cons by (cases de) auto
    define ps' where "ps' = rev (direct_dirs d es) @ qs"
    have perm: "mset (pending_files ps) = mset (direct_files d es @ pending_files ps')"
      by (simp add: ps ps'_def node_files_direct)
    from mset_eq_setD [OF this] less.prems(1)
    have sub: "set (direct_files d es) \<subseteq> set (tree_files (DirNode root))"
        "set (pending_files ps') \<subseteq> set (tree_files (DirNode root))"
      by simp_all
    note entries = scan_entries_Inr [OF assms(1) sub(1) less.prems(4), of L c qs files]
    have step: "scan_pending L c (DirNode root) m (ps', files', t') = Inr r \<longleftrightarrow>
        pending_plain ps' \<and> collect L m (pending_files ps') (files', t') = Some r"
      if r': "collect L m (direct_files d es) (files, t) = Some (files', t')"
        and plain: "\<forall>(n, node) \<in> set es. node \<noteq> SymlinkNode \<and> node \<noteq> SpecialNode" for files' t'
    proof (rule less.hyps [OF _ sub(2)])
      from r' plain entries have "scan_entries L c (DirNode root) m d es (qs, files, t) = Inr (ps', files', t')"
        by (simp add: ps'_def)
      from scan_entries_size [OF this] show "pending_size ps' < pending_size ps"
        by (simp add: ps pending_size_def)
      from collect_wf [OF r' less.prems(2,3)] show "bt_wf files'" and "length files' \<le> 1024" by simp_all
      show "t' \<le> m" using collect_le [OF r'] less.prems(4) by simp
    qed
    have "scan_pending L c (DirNode root) m (ps, files, t) = Inr r \<longleftrightarrow>
        (\<exists>s. scan_entries L c (DirNode root) m d es (qs, files, t) = Inr s
        \<and> scan_pending L c (DirNode root) m s = Inr r)"
      by (simp add: ps split: sum.splits)
    also have "\<dots> \<longleftrightarrow> pending_plain ps \<and> collect L m (direct_files d es @ pending_files ps') (files, t) = Some r"
    proof (cases "collect L m (direct_files d es) (files, t)")
      case None
      then show ?thesis by (simp add: entries collect_append)
    next
      case (Some r')
      have plain: "pending_plain ps \<longleftrightarrow>
        (\<forall>(n, c) \<in> set es. c \<noteq> SymlinkNode \<and> c \<noteq> SpecialNode) \<and> pending_plain ps'"
        using plain_direct [of es d] by (simp add: ps ps'_def del: plain_tree.simps)
      obtain files' t' where r': "r' = (files', t')" by (cases r')
      from Some step show ?thesis
        unfolding entries collect_append plain r' ps'_def [symmetric] by auto
    qed
    finally show ?thesis unfolding collect_perm [OF perm less.prems(2-4)] .
  qed
qed

lemma tree_files_distinct: "fs_wf node \<Longrightarrow> distinct (map fst (tree_files node))"
proof (induction node)
  case (DirNode es)
  have sub: "distinct (map fst (node_files [n] c))" if "(n, c) \<in> set es" for n c
  proof -
    have "distinct (map fst (tree_files c))"
      using DirNode.IH [OF that, of c] DirNode.prems that by (auto simp: snds.simps)
    then have "distinct (map ((#) n) (map fst (tree_files c)))" by (simp only: distinct_map) auto
    moreover have "map fst (node_files [n] c) = map ((#) n) (map fst (tree_files c))"
      by (subst node_files_prefix) (simp add: comp_def case_prod_beta)
    ultimately show ?thesis by simp
  qed
  have hd: "\<exists>q. p = n # q" if "(p, f) \<in> set (node_files [n] c)" for p f n c
    using that by (subst (asm) node_files_prefix) auto
  have "distinct (map fst (node_files [] (DirNode es)))"
    if "distinct (map fst es)" and "\<And>n c. (n, c) \<in> set es \<Longrightarrow> distinct (map fst (node_files [n] c))"
    using that
  proof (induction es)
    case (Cons e es)
    obtain n c where e: "e = (n, c)" by (cases e)
    have "fst ` set (node_files [n] c) \<inter> fst ` set (tree_files (DirNode es)) = {}"
      using Cons.prems(1) hd [of _ _ n c] by (force simp: e tree_files_entry)
    with Cons e show ?case by (auto simp: node_files_Cons)
  qed (simp add: node_files.simps)
  with sub DirNode.prems show ?case by simp
qed auto

lemma selectors_distinct:
  assumes "fs_wf (DirNode es)"
  shows "distinct (selectors (tree_files (DirNode es)))"
proof -
  have ok: "list_all valid_name p \<and> p \<noteq> []" if "p \<in> set (map fst (tree_files (DirNode es)))" for p
  proof -
    from that obtain f where "(p, f) \<in> set (tree_files (DirNode es))" by auto
    with tree_files_names [OF assms this] show ?thesis by (auto simp: tree_files_entry)
  qed
  have "inj_on join_slash (set (map fst (tree_files (DirNode es))))"
    by (rule inj_onI) (use ok join_slash_inj in blast)
  with tree_files_distinct [OF assms] have "distinct (map join_slash (map fst (tree_files (DirNode es))))"
    by (simp only: distinct_map)
  then show ?thesis by (simp add: selectors_def comp_def)
qed

lemma entry_of_keys: "map fst (map (entry_of L) xs) = selectors xs"
  by (simp add: entry_of_def selectors_def comp_def case_prod_beta)

lemma scan_regular_file_set_Inr:
  assumes "fs_wf root"
  shows "scan_regular_file_set L c root m = Inr (files, n) \<longleftrightarrow>
    (\<exists>es. root = DirNode es) \<and> plain_tree root
    \<and> (\<forall>(p, f) \<in> set (tree_files root). portable p \<and> stable_file f)
    \<and> length (tree_files root) \<le> 1024 \<and> total_length (tree_files root) \<le> unat m
    \<and> files = bt_collect (map (entry_of L) (tree_files root))
    \<and> n = of_nat (total_length (tree_files root))"
proof (cases root)
  case (DirNode es)
  let ?xs = "tree_files (DirNode es)"
  have keys: "distinct (map fst (map (entry_of L) ?xs))"
    unfolding entry_of_keys using assms by (intro selectors_distinct) (simp add: DirNode)
  have "set (bt_collect (map (entry_of L) ?xs)) = entry_of L ` set ?xs"
    using bt_collect_pairs [OF keys] by (auto simp del: map_map)
  then have files: "bt_wf files \<and> set files = entry_of L ` set ?xs \<longleftrightarrow> files = bt_collect (map (entry_of L) ?xs)"
    using bt_unique [OF _ bt_wf_collect] bt_wf_collect by metis
  have "scan_regular_file_set L c root m = Inr (files, n) \<longleftrightarrow>
    plain_tree root \<and> collect L m ?xs ([], 0) = Some (files, n)"
    using assms scan_pending_Inr [of es "[([], es)]" "[]" 0 m L c "(files, n)"]
    by (simp add: scan_regular_file_set_def DirNode del: plain_tree.simps fs_wf.simps)
  also have "\<dots> \<longleftrightarrow> plain_tree root \<and> acceptable ?xs \<and> length ?xs \<le> 1024 \<and> total_length ?xs \<le> unat m
      \<and> files = bt_collect (map (entry_of L) ?xs) \<and> n = of_nat (total_length ?xs)"
    unfolding files [symmetric] using selectors_distinct [of es] assms
    by (subst collect_Some) (auto simp: DirNode simp del: plain_tree.simps fs_wf.simps)
  finally show ?thesis by (simp add: DirNode acceptable_def del: plain_tree.simps)
qed (simp_all add: scan_regular_file_set_def)

text \<open>C38. The scan of a tree succeeds exactly when the tree is a directory that holds nothing but directories
  and regular files (no link, no special file), every file has a managed selector, one link and a
  fingerprint that did not change while it was read, there are at most 1024 files, and their bytes fit the
  limit. It then returns every file of the tree, and only those, under its selector in selector order with
  the identity of its contents, and the sum of the lengths; in particular neither the entry-count check nor
  the quota arithmetic lets a larger set through, the alias error never fires for distinct paths, and the
  order in which the file system lists a directory does not show in the result.\<close>

theorem scan_regular_file_set_exact:
  assumes "fs_wf root"
  shows "scan_regular_file_set L c root m = Inr (files, n) \<longleftrightarrow>
    (\<exists>es. root = DirNode es) \<and> plain_tree root
    \<and> (\<forall>(p, f) \<in> set (tree_files root). portable p \<and> stable_file f)
    \<and> length (tree_files root) \<le> 1024 \<and> total_length (tree_files root) \<le> unat m
    \<and> files = bt_collect (map (entry_of L) (tree_files root))
    \<and> n = of_nat (total_length (tree_files root))"
  by (rule scan_regular_file_set_Inr [OF assms])

section \<open>The digest of a set\<close>

text \<open>The message a set of files is hashed from.\<close>

definition file_set_message :: "(string \<times> string \<times> u64) list \<Rightarrow> byte list" where
  "file_set_message entries = as_bytes ''pastey-managed-regular-file-set-v1'' @ [0] @ concat (map file_set_entry_bytes entries)"

lemma file_set_digest_loop_Inr:
  "file_set_digest_loop previous entries = Inr bytes \<longleftrightarrow>
     (\<forall>e \<in> set entries. validate_managed_selector (fst e) = Inr ())
     \<and> sorted_wrt (<) ((case previous of None \<Rightarrow> [] | Some p \<Rightarrow> [p]) @ map fst entries)
     \<and> bytes = concat (map file_set_entry_bytes entries)"
proof (induction previous entries arbitrary: bytes rule: file_set_digest_loop.induct)
  case (2 previous selector digest byte_count rest)
  show ?case by (auto simp: res_simps 2 not_le split: option.splits dest: less_trans)
qed (auto split: option.splits)

lemma regular_file_set_digest_from_entries_Inr:
  "regular_file_set_digest_from_entries L entries = Inr digest \<longleftrightarrow>
     entries \<noteq> [] \<and> (\<forall>e \<in> set entries. validate_managed_selector (fst e) = Inr ())
     \<and> sorted_wrt (<) (map fst entries) \<and> digest = blake3_hex L (file_set_message entries)"
  by (auto simp: regular_file_set_digest_from_entries_def res_simps file_set_digest_loop_Inr file_set_message_def)

definition logical_entry :: "string \<times> SourceIdentity \<Rightarrow> string \<times> string \<times> u64" where
  "logical_entry = (\<lambda>(selector, identity). (selector, si_digest identity, si_byte_count identity))"

lemma to_be_bytes_append_eq:
  "to_be_bytes a @ r = to_be_bytes b @ r' \<longleftrightarrow> a = b \<and> r = r'" for a b :: u64
proof
  assume eq: "to_be_bytes a @ r = to_be_bytes b @ r'"
  then have "to_be_bytes a = to_be_bytes b \<and> r = r'" by (simp add: append_eq_append_conv)
  then show "a = b \<and> r = r'" by (metis from_to_be_bytes_u64)
qed simp

lemma length_prefixed_eq:
  assumes "to_be_bytes (of_nat (length s) :: u64) @ as_bytes s @ r = to_be_bytes (of_nat (length t) :: u64) @ as_bytes t @ r'"
    and "length s < 2 ^ 64" and "length t < 2 ^ 64"
  shows "s = t \<and> r = r'"
proof -
  from assms(1) have n: "(of_nat (length s) :: u64) = of_nat (length t)"
    and rest: "as_bytes s @ r = as_bytes t @ r'" by (simp_all only: to_be_bytes_append_eq)
  from arg_cong [OF n, of unat] assms(2,3) have "length s = length t" by (simp add: unat_of_nat)
  with rest show ?thesis by (simp add: append_eq_append_conv)
qed

lemma file_set_entry_bytes_prefix_free:
  assumes "file_set_entry_bytes x @ r = file_set_entry_bytes y @ r'"
    and "length (fst x) < 2 ^ 64" "length (fst (snd x)) < 2 ^ 64"
    and "length (fst y) < 2 ^ 64" "length (fst (snd y)) < 2 ^ 64"
  shows "x = y \<and> r = r'"
proof -
  obtain s d n where x: "x = (s, d, n)" by (cases x) auto
  obtain s' d' n' where y: "y = (s', d', n')" by (cases y) auto
  from assms(1) x y have "s = s' \<and> to_be_bytes (of_nat (length d) :: u64) @ as_bytes d @ to_be_bytes n @ r =
      to_be_bytes (of_nat (length d') :: u64) @ as_bytes d' @ to_be_bytes n' @ r'"
    using assms(2,4) by (intro length_prefixed_eq) (simp_all add: file_set_entry_bytes_def)
  moreover from this have "d = d' \<and> to_be_bytes n @ r = to_be_bytes n' @ r'"
    using assms(3,5) x y by (intro length_prefixed_eq) simp_all
  ultimately show ?thesis by (simp add: x y to_be_bytes_append_eq)
qed

definition short_entry :: "string \<times> string \<times> u64 \<Rightarrow> bool" where
  "short_entry e \<longleftrightarrow> length (fst e) < 2 ^ 64 \<and> length (fst (snd e)) < 2 ^ 64"

lemma file_set_message_inj:
  assumes "list_all short_entry xs" and "list_all short_entry ys" and "file_set_message xs = file_set_message ys"
  shows "xs = ys"
proof -
  have "concat (map file_set_entry_bytes xs) = concat (map file_set_entry_bytes ys)"
    using assms(3) by (simp add: file_set_message_def)
  moreover have ne: "file_set_entry_bytes e \<noteq> []" for e
  proof
    assume "file_set_entry_bytes e = []"
    then have "length (file_set_entry_bytes e) = 0" by simp
    then show False by (simp add: file_set_entry_bytes_def case_prod_beta)
  qed
  ultimately show ?thesis using assms(1,2)
  proof (induction xs arbitrary: ys)
    case Nil
    then show ?case by (cases ys) auto
  next
    case (Cons x xs)
    from Cons.prems(1) ne [of x] obtain y zs where ys: "ys = y # zs" by (cases ys) auto
    with Cons.prems have "x = y \<and> concat (map file_set_entry_bytes xs) = concat (map file_set_entry_bytes zs)"
      by (intro file_set_entry_bytes_prefix_free) (simp_all add: short_entry_def)
    with Cons ys show ?case by auto
  qed
qed

section \<open>What a set identity says\<close>

definition tree_entries :: "lib \<Rightarrow> fs_node \<Rightarrow> (string \<times> SourceIdentity) list" where
  "tree_entries L root = bt_collect (map (entry_of L) (tree_files root))"

lemma set_tree_entries:
  assumes "fs_wf (DirNode es)"
  shows "set (tree_entries L (DirNode es)) = entry_of L ` set (tree_files (DirNode es))"
proof -
  have "distinct (map fst (map (entry_of L) (tree_files (DirNode es))))"
    unfolding entry_of_keys by (rule selectors_distinct [OF assms])
  from bt_collect_pairs [OF this] show ?thesis by (auto simp: tree_entries_def simp del: map_map)
qed

lemma validate_portable:
  assumes "fs_wf (DirNode es)" and "(p, f) \<in> set (tree_files (DirNode es))" and "portable p"
  shows "validate_managed_selector (join_slash p) = Inr ()"
proof -
  have "list_all valid_name p" and "p \<noteq> []"
    using tree_files_names [OF assms(1,2)] assms(2) by (auto simp: tree_files_entry)
  from validate_join_slash [OF this] assms(3) show ?thesis by (simp add: portable_def)
qed

lemma capture_regular_file_set_identity_Inr:
  assumes "fs_wf root"
  shows "capture_regular_file_set_identity L c root m = Inr i \<longleftrightarrow>
    (\<exists>es. root = DirNode es) \<and> plain_tree root \<and> acceptable (tree_files root) \<and> tree_files root \<noteq> []
    \<and> length (tree_files root) \<le> 1024 \<and> total_length (tree_files root) \<le> unat m
    \<and> i = \<lparr>fi_files = tree_entries L root,
        fi_digest = blake3_hex L (file_set_message (map logical_entry (tree_entries L root))),
        fi_byte_count = of_nat (total_length (tree_files root))\<rparr>"
proof -
  have valid: "validate_managed_selector (fst e) = Inr ()"
    if "root = DirNode es" "acceptable (tree_files root)" "e \<in> set (tree_entries L root)" for es e
    using that validate_portable [of es] set_tree_entries [of es L] assms
    by (auto simp: entry_of_def acceptable_def simp del: fs_wf.simps)
  have empty: "tree_entries L root = [] \<longleftrightarrow> tree_files root = []" if "root = DirNode es" for es
    using set_tree_entries [of es L] assms that by (metis image_is_empty set_empty)
  have keys: "sorted_wrt (<) (map fst (map logical_entry (tree_entries L root)))"
    using bt_wf_collect by (simp add: tree_entries_def logical_entry_def comp_def case_prod_beta)
  have digest: "regular_file_set_digest L (tree_entries L root) = Inr d \<longleftrightarrow>
      d = blake3_hex L (file_set_message (map logical_entry (tree_entries L root)))"
    if "root = DirNode es" "acceptable (tree_files root)" "tree_entries L root \<noteq> []" for es d
    using keys valid [OF that(1,2)] that(3)
    by (auto simp: regular_file_set_digest_def logical_entry_def regular_file_set_digest_from_entries_Inr
      case_prod_beta comp_def)
  have "capture_regular_file_set_identity L c root m = Inr i \<longleftrightarrow>
    (\<exists>files n d. scan_regular_file_set L c root m = Inr (files, n) \<and> files \<noteq> []
       \<and> regular_file_set_digest L files = Inr d
       \<and> i = \<lparr>fi_files = files, fi_digest = d, fi_byte_count = n\<rparr>)"
    by (auto simp: capture_regular_file_set_identity_def res_simps)
  also have "\<dots> \<longleftrightarrow> (\<exists>es. root = DirNode es) \<and> plain_tree root \<and> acceptable (tree_files root)
    \<and> length (tree_files root) \<le> 1024 \<and> total_length (tree_files root) \<le> unat m
    \<and> tree_entries L root \<noteq> [] \<and> (\<exists>d. regular_file_set_digest L (tree_entries L root) = Inr d
      \<and> i = \<lparr>fi_files = tree_entries L root, fi_digest = d,
          fi_byte_count = of_nat (total_length (tree_files root))\<rparr>)"
    by (auto simp: scan_regular_file_set_Inr [OF assms] acceptable_def tree_entries_def)
  finally show ?thesis using digest empty by (auto simp del: plain_tree.simps)
qed

text \<open>The logical contents of a tree: each file's path and bytes.\<close>

definition logical_tree :: "fs_node \<Rightarrow> (string list \<times> byte list) set" where
  "logical_tree root = (\<lambda>(p, f). (p, of_bytes f)) ` set (tree_files root)"

definition tree_messages :: "lib \<Rightarrow> fs_node \<Rightarrow> byte list set" where
  "tree_messages L root = insert (file_set_message (map logical_entry (tree_entries L root))) (snd ` logical_tree root)"

lemma short_tree_entries:
  assumes "hex_digests L" and "fs_wf (DirNode es)" and "acceptable (tree_files (DirNode es))"
  shows "list_all short_entry (map logical_entry (tree_entries L (DirNode es)))"
proof -
  have "length (blake3_hex L x) = 64" for x using assms(1) by (simp add: hex_digests_def hex64_def)
  with assms(3) set_tree_entries [OF assms(2), of L] show ?thesis
    by (auto simp: list_all_iff short_entry_def logical_entry_def entry_of_def file_identity_def
      acceptable_def portable_def)
qed

lemma logical_tree_sub:
  assumes "fs_wf (DirNode es)" and "fs_wf (DirNode es')"
    and "map logical_entry (tree_entries L (DirNode es)) = map logical_entry (tree_entries L (DirNode es'))"
    and "collision_free L (tree_messages L (DirNode es) \<union> tree_messages L (DirNode es'))"
  shows "logical_tree (DirNode es) \<subseteq> logical_tree (DirNode es')"
proof
  fix x assume "x \<in> logical_tree (DirNode es)"
  then obtain p f where pf: "(p, f) \<in> set (tree_files (DirNode es))" and x: "x = (p, of_bytes f)"
    by (auto simp: logical_tree_def)
  have "logical_entry (entry_of L (p, f)) \<in> set (map logical_entry (tree_entries L (DirNode es)))"
    using set_tree_entries [OF assms(1), of L] pf by simp
  then obtain q g where qg: "(q, g) \<in> set (tree_files (DirNode es'))"
    and eq: "logical_entry (entry_of L (p, f)) = logical_entry (entry_of L (q, g))"
    unfolding assms(3) using set_tree_entries [OF assms(2), of L] by auto
  from eq have sel: "join_slash p = join_slash q" and dig: "blake3_hex L (of_bytes f) = blake3_hex L (of_bytes g)"
    by (simp_all add: logical_entry_def entry_of_def file_identity_def)
  have "list_all valid_name p" "p \<noteq> []" "list_all valid_name q" "q \<noteq> []"
    using tree_files_names [OF assms(1) pf] tree_files_names [OF assms(2) qg] pf qg
    by (auto simp: tree_files_entry)
  then have "p = q" using sel by (rule join_slash_inj)
  have "of_bytes f \<in> snd ` logical_tree (DirNode es)" "of_bytes g \<in> snd ` logical_tree (DirNode es')"
    using pf qg by (force simp: logical_tree_def)+
  then have "of_bytes f = of_bytes g"
    by (intro collision_freeD [OF assms(4) _ _ dig]) (simp_all add: tree_messages_def)
  with qg \<open>p = q\<close> x show "x \<in> logical_tree (DirNode es')" by (force simp: logical_tree_def)
qed

lemma digest_binds_tree:
  assumes "hex_digests L" and "fs_wf r" and "fs_wf r'"
    and "capture_regular_file_set_identity L c r m = Inr i"
    and "capture_regular_file_set_identity L c' r' m' = Inr i'"
    and "fi_digest i = fi_digest i'"
    and "collision_free L (tree_messages L r \<union> tree_messages L r')"
  shows "logical_tree r = logical_tree r'"
proof -
  from assms(4) obtain es where r: "r = DirNode es" and ok: "acceptable (tree_files r)"
    and i: "fi_digest i = blake3_hex L (file_set_message (map logical_entry (tree_entries L r)))"
    by (auto simp: capture_regular_file_set_identity_Inr [OF assms(2)])
  from assms(5) obtain es' where r': "r' = DirNode es'" and ok': "acceptable (tree_files r')"
    and i': "fi_digest i' = blake3_hex L (file_set_message (map logical_entry (tree_entries L r')))"
    by (auto simp: capture_regular_file_set_identity_Inr [OF assms(3)])
  have "file_set_message (map logical_entry (tree_entries L r)) = file_set_message (map logical_entry (tree_entries L r'))"
    by (rule collision_freeD [OF assms(7)]) (use assms(6) i i' in \<open>simp_all add: tree_messages_def\<close>)
  then have eq: "map logical_entry (tree_entries L r) = map logical_entry (tree_entries L r')"
    using assms(1-3) r r' ok ok' by (intro file_set_message_inj) (simp_all only: short_tree_entries)
  show ?thesis
  proof (rule equalityI)
    show "logical_tree r \<subseteq> logical_tree r'"
      using assms(2,3) eq assms(7) unfolding r r' by (rule logical_tree_sub)
    show "logical_tree r' \<subseteq> logical_tree r"
      using assms(3,2) eq [symmetric] assms(7) [unfolded Un_commute [of "tree_messages L r"]]
      unfolding r r' by (rule logical_tree_sub)
  qed
qed

text \<open>Two captured trees with the same digest have the same logical contents: the same paths with the same
  bytes, provided the hash tells apart the contents and the two set messages at hand. Selectors cannot be
  confused with digests or with each other, because every field is length-prefixed and paths are recovered
  from selectors.\<close>

theorem file_set_digest_binds:
  assumes "hex_digests L" and "fs_wf r" and "fs_wf r'"
    and "capture_regular_file_set_identity L c r m = Inr i"
    and "capture_regular_file_set_identity L c' r' m' = Inr i'"
    and "fi_digest i = fi_digest i'"
    and "collision_free L (tree_messages L r \<union> tree_messages L r')"
  shows "logical_tree r = logical_tree r'"
  using assms by (rule digest_binds_tree)

section \<open>Examples\<close>

definition ex_fingerprint :: "nat \<Rightarrow> u64 \<Rightarrow> SourceFingerprint" where
  "ex_fingerprint n inode = \<lparr>fp_device = 1, fp_inode = inode, fp_byte_count = of_nat n,
     fp_modified_seconds = 0, fp_modified_nanoseconds = 0, fp_changed_seconds = 0,
     fp_changed_nanoseconds = 0, fp_link_count = 1\<rparr>"

definition ex_file :: "u64 \<Rightarrow> byte list list \<Rightarrow> open_file" where
  "ex_file inode reads = \<lparr>of_before = ex_fingerprint (length (concat reads)) inode, of_reads = reads,
     of_after = ex_fingerprint (length (concat reads)) inode\<rparr>"

text \<open>A hash with 64 hexadecimal digits that separates messages of 1, of 2 to 31, and of more bytes.\<close>

definition ex_lib :: lib where
  "ex_lib = plain_lib\<lparr>blake3_hex := (\<lambda>m. replicate 64
       (if length m < 2 then CHR ''0'' else if length m < 32 then CHR ''1'' else CHR ''2'')),
     blake3_keyed_hex := (\<lambda>_ _. replicate 64 CHR ''0'')\<rparr>"

definition ex_tree :: fs_node where
  "ex_tree = DirNode [(''a.txt'', FileNode (ex_file 7 [[1]])),
     (''src'', DirNode [(''b.txt'', FileNode (ex_file 8 [[1, 2], [3]]))])]"

definition ex_tree_listed :: fs_node where
  "ex_tree_listed = DirNode [(''src'', DirNode [(''b.txt'', FileNode (ex_file 18 [[1], [2, 3]]))]),
     (''a.txt'', FileNode (ex_file 17 [[1]]))]"

lemma hex_digests_ex_lib: "hex_digests ex_lib"
  by (simp add: hex_digests_def ex_lib_def hex64_def is_ascii_hexdigit_def list_all_iff)

lemma ex_tree_wf: "fs_wf ex_tree" "fs_wf ex_tree_listed"
  by (simp_all add: ex_tree_def ex_tree_listed_def valid_name_def)

lemma ex_tree_files:
  "tree_files ex_tree = [([''a.txt''], ex_file 7 [[1]]), ([''src'', ''b.txt''], ex_file 8 [[1, 2], [3]])]"
  "tree_files ex_tree_listed = [([''src'', ''b.txt''], ex_file 18 [[1], [2, 3]]), ([''a.txt''], ex_file 17 [[1]])]"
  by (simp_all add: ex_tree_def ex_tree_listed_def node_files.simps)

lemma ex_of_bytes: "[] \<notin> set reads \<Longrightarrow> of_bytes (ex_file inode reads) = concat reads"
  by (simp add: of_bytes_def ex_file_def) (rule arg_cong [of _ _ concat], auto simp: takeWhile_eq_all_conv)

lemma ex_stable: "[] \<notin> set reads \<Longrightarrow> stable_file (ex_file inode reads)"
  by (simp add: stable_file_def ex_of_bytes) (simp add: ex_file_def ex_fingerprint_def)

lemma ex_portable: "portable [''a.txt'']" "portable [''src'', ''b.txt'']"
  by (simp_all add: portable_def starts_with_def to_ascii_lowercase_def ascii_lower_def)

lemma ex_tree_ok:
  "acceptable (tree_files ex_tree)" "acceptable (tree_files ex_tree_listed)"
  "plain_tree ex_tree" "plain_tree ex_tree_listed"
  "total_length (tree_files ex_tree) = 4" "total_length (tree_files ex_tree_listed) = 4"
  "length (tree_files ex_tree) = 2" "length (tree_files ex_tree_listed) = 2"
  by (simp_all add: ex_tree_files ex_portable ex_stable ex_of_bytes)
    (simp_all add: ex_tree_def ex_tree_listed_def)

lemma ex_tree_dir: "\<exists>es. ex_tree = DirNode es" "\<exists>es. ex_tree_listed = DirNode es"
  by (simp_all add: ex_tree_def ex_tree_listed_def)

text \<open>The scan of the example tree, with a limit of exactly its four bytes; three bytes are refused.\<close>

theorem scan_regular_file_set_exact_witness:
  "scan_regular_file_set ex_lib [RootDir] ex_tree 4 =
     Inr ([(''a.txt'', \<lparr>si_digest = replicate 64 CHR ''0'', si_byte_count = 1, si_fingerprint = ex_fingerprint 1 7\<rparr>),
           (''src/b.txt'', \<lparr>si_digest = replicate 64 CHR ''1'', si_byte_count = 3, si_fingerprint = ex_fingerprint 3 8\<rparr>)], 4)
   \<and> (\<forall>r. scan_regular_file_set ex_lib [RootDir] ex_tree 3 \<noteq> Inr r)"
proof -
  have "bt_collect (map (entry_of ex_lib) (tree_files ex_tree)) =
     [(''a.txt'', \<lparr>si_digest = replicate 64 CHR ''0'', si_byte_count = 1, si_fingerprint = ex_fingerprint 1 7\<rparr>),
      (''src/b.txt'', \<lparr>si_digest = replicate 64 CHR ''1'', si_byte_count = 3, si_fingerprint = ex_fingerprint 3 8\<rparr>)]"
    by (simp add: ex_tree_files bt_collect_def entry_of_def file_identity_def ex_of_bytes)
      (simp add: ex_lib_def ex_file_def less_char_def eval_nat_numeral)
  then show ?thesis
    using scan_regular_file_set_exact [OF ex_tree_wf(1), of ex_lib "[RootDir]" 4]
      scan_regular_file_set_exact [OF ex_tree_wf(1), of ex_lib "[RootDir]" 3] ex_tree_ok ex_tree_dir(1)
    by (simp add: acceptable_def del: split_paired_Ex)
qed

lemma ex_capture:
  "\<exists>i. capture_regular_file_set_identity ex_lib [RootDir] ex_tree 4 = Inr i \<and> fi_digest i = replicate 64 CHR ''2''"
  "\<exists>i. capture_regular_file_set_identity ex_lib [RootDir] ex_tree_listed 4 = Inr i \<and> fi_digest i = replicate 64 CHR ''2''"
proof -
  have "blake3_hex ex_lib (file_set_message es) = replicate 64 CHR ''2''" for es
    by (simp add: ex_lib_def file_set_message_def)
  then show
    "\<exists>i. capture_regular_file_set_identity ex_lib [RootDir] ex_tree 4 = Inr i \<and> fi_digest i = replicate 64 CHR ''2''"
    "\<exists>i. capture_regular_file_set_identity ex_lib [RootDir] ex_tree_listed 4 = Inr i \<and> fi_digest i = replicate 64 CHR ''2''"
    using ex_tree_ok ex_tree_dir
    by (auto simp: capture_regular_file_set_identity_Inr ex_tree_wf)
qed

lemma ex_entries:
  "map logical_entry (tree_entries ex_lib ex_tree) =
     [(''a.txt'', replicate 64 CHR ''0'', 1), (''src/b.txt'', replicate 64 CHR ''1'', 3)]"
  "map logical_entry (tree_entries ex_lib ex_tree_listed) =
     [(''a.txt'', replicate 64 CHR ''0'', 1), (''src/b.txt'', replicate 64 CHR ''1'', 3)]"
  by (simp_all add: tree_entries_def ex_tree_files bt_collect_def entry_of_def file_identity_def ex_of_bytes)
    (simp_all add: logical_entry_def ex_lib_def less_char_def)

text \<open>The example trees list their directories in different orders and have different inodes; their
  digests agree, so their logical contents do.\<close>

theorem file_set_digest_binds_witness: "logical_tree ex_tree = logical_tree ex_tree_listed"
proof -
  obtain i where i: "capture_regular_file_set_identity ex_lib [RootDir] ex_tree 4 = Inr i"
    "fi_digest i = replicate 64 CHR ''2''" using ex_capture(1) by blast
  obtain i' where i': "capture_regular_file_set_identity ex_lib [RootDir] ex_tree_listed 4 = Inr i'"
    "fi_digest i' = replicate 64 CHR ''2''" using ex_capture(2) by blast
  have "collision_free ex_lib (tree_messages ex_lib ex_tree \<union> tree_messages ex_lib ex_tree_listed)"
    unfolding tree_messages_def logical_tree_def ex_entries ex_tree_files collision_free_def
    by (auto simp: inj_on_def ex_of_bytes) (auto simp: ex_lib_def file_set_message_def)
  with i i' show ?thesis
    by (intro file_set_digest_binds [OF hex_digests_ex_lib ex_tree_wf i(1) i'(1)]) simp_all
qed

end
