(* ===== verification/File_Set_Package.thy ===== *)
theory File_Set_Package
  imports File_Set_Identity
begin

text \<open>
  The transfer package of a set of regular files, \<^verbatim>\<open>src-tauri/src/regular_file_set_transfer.rs\<close>, and the
  creation of the private tree it is unpacked into (\<^verbatim>\<open>safe_file_identity.rs\<close>).

  A package is the list of its bytes. A private tree is the \<open>fs_node\<close> below its root; creating a file
  returns the tree as a function of the file that is then written. What the operating system reports of a
  file written with some bytes is the parameter \<open>written\<close>; \<open>faithful_writes\<close> says that it is a stable
  file with exactly these bytes. The temporary directories around packages and trees, their removal, and
  failures of the disk are not modelled.
\<close>

section \<open>Private trees\<close>

definition validate_private_component :: "string \<Rightarrow> file_error + unit" where
  "validate_private_component value =
     (if value = [] \<or> length value > 128 \<or> contains_char (CHR ''/'') value \<or> contains_char (CHR 0x5C) value
        \<or> value = ''.'' \<or> value = ''..''
      then file_invalid ''Private tree component is invalid.'' else Inr ())"

text \<open>A fresh root: the unique component is a new UUID, so the directory is created here.\<close>

definition create_private_tree_root :: "string \<Rightarrow> string \<Rightarrow> file_error + fs_node" where
  "create_private_tree_root namespace unique =
     and_then (validate_private_component namespace) (\<lambda>_.
     and_then (validate_private_component unique) (\<lambda>_. Inr (DirNode [])))"

text \<open>\<^verbatim>\<open>open_or_create_private_directory\<close> along the parents, then \<^verbatim>\<open>openat\<close> with \<^verbatim>\<open>O_CREAT | O_EXCL\<close>.\<close>

fun create_at :: "fs_node \<Rightarrow> string list \<Rightarrow> file_error + (fs_node \<Rightarrow> fs_node)" where
  "create_at (DirNode entries) [name] =
     (if map_of entries name \<noteq> None then file_invalid ''Private tree output is unavailable or unsafe.''
      else Inr (\<lambda>leaf. DirNode (entries @ [(name, leaf)])))"
| "create_at (DirNode entries) (name # rest) =
     and_then (validate_private_component name) (\<lambda>_.
     case map_of entries name of
       None \<Rightarrow> and_then (create_at (DirNode []) rest) (\<lambda>put. Inr (\<lambda>leaf. DirNode (entries @ [(name, put leaf)])))
     | Some (DirNode ds) \<Rightarrow>
         and_then (create_at (DirNode ds) rest) (\<lambda>put. Inr (\<lambda>leaf. DirNode (hm_insert name (put leaf) entries)))
     | Some _ \<Rightarrow> file_invalid ''Private tree directory is unavailable or unsafe.'')"
| "create_at _ _ = file_invalid ''Private tree directory is unsafe.''"

definition create_private_regular_file :: "fs_node \<Rightarrow> string \<Rightarrow> file_error + (fs_node \<Rightarrow> fs_node)" where
  "create_private_regular_file root selector =
     and_then (validate_managed_selector selector) (\<lambda>_.
     and_then (ensure (selector \<noteq> ''.'')
       (FileError ''Private tree file selector must name a file.'')) (\<lambda>_.
     let components = path_components selector in
     and_then (ensure (components \<noteq> [] \<and> list_all is_normal components)
       (FileError ''Private tree file selector is invalid.'')) (\<lambda>_.
     create_at root (map normal_name components))))"

section \<open>The package format\<close>

definition PACKAGE_MAGIC :: "byte list" where
  "PACKAGE_MAGIC = as_bytes ''pastey-rfs-transfer-v1'' @ [0]"

definition PACKAGE_VERSION :: u16 where "PACKAGE_VERSION = 1"

definition REPRESENTATION_REGULAR_FILE_SET :: byte where "REPRESENTATION_REGULAR_FILE_SET = 1"

definition MAX_SELECTOR_BYTES :: nat where "MAX_SELECTOR_BYTES = 512"

definition MAX_DIGEST_BYTES :: nat where "MAX_DIGEST_BYTES = 128"

definition STREAM_BUFFER_BYTES :: nat where "STREAM_BUFFER_BYTES = 64 * 1024"

record PackageHeader =
  ph_entry_count :: nat
  ph_aggregate_digest :: string
  ph_logical_byte_count :: u64

record EntryHeader =
  eh_selector :: string
  eh_byte_count :: u64
  eh_content_digest :: string

definition write_string :: "string \<Rightarrow> nat \<Rightarrow> file_error + byte list" where
  "write_string value maximum =
     (if length value > maximum
      then file_invalid ''Regular-file-set package text field exceeds its limit.''
      else if length value \<ge> 2 ^ 16 then file_invalid ''Regular-file-set package text field overflowed.''
      else Inr (to_be_bytes (of_nat (length value) :: u16) @ as_bytes value))"

definition write_header :: "RegularFileSetIdentity \<Rightarrow> file_error + byte list" where
  "write_header identity =
     and_then (ensure (length (fi_files identity) < 2 ^ 32)
       (FileError ''Regular-file-set entry count overflowed.'')) (\<lambda>_.
     and_then (write_string (fi_digest identity) MAX_DIGEST_BYTES) (\<lambda>digest.
     Inr (PACKAGE_MAGIC @ to_be_bytes PACKAGE_VERSION @ [REPRESENTATION_REGULAR_FILE_SET]
       @ to_be_bytes (of_nat (length (fi_files identity)) :: u32) @ digest
       @ to_be_bytes (fi_byte_count identity))))"

definition write_entry_header :: "string \<Rightarrow> u64 \<Rightarrow> string \<Rightarrow> file_error + byte list" where
  "write_entry_header selector byte_count digest =
     and_then (write_string selector MAX_SELECTOR_BYTES) (\<lambda>s.
     and_then (write_string digest MAX_DIGEST_BYTES) (\<lambda>d.
     Inr (s @ to_be_bytes byte_count @ d)))"

text \<open>The loop of \<^verbatim>\<open>prepare_package\<close>: for each file its header and its streamed bytes. \<open>root_path\<close> is the root
  of the set, which lies in the scope the sources are opened through.\<close>

fun package_entries :: "lib \<Rightarrow> path \<Rightarrow> path \<Rightarrow> fs_node \<Rightarrow> (string \<times> SourceIdentity) list \<Rightarrow> file_error + byte list" where
  "package_entries L root_path scope_path scope_node [] = Inr []"
| "package_entries L root_path scope_path scope_node ((selector, identity) # rest) =
     and_then (validate_managed_selector selector) (\<lambda>_.
     and_then (write_entry_header selector (si_byte_count identity) (si_digest identity)) (\<lambda>header.
     and_then (stream_source_if_identity_matches L scope_path scope_node
         (root_path @ path_components selector) identity MAX_FILE_SIZE_BYTES) (\<lambda>payload.
     and_then (package_entries L root_path scope_path scope_node rest) (\<lambda>bytes.
     Inr (header @ payload @ bytes)))))"

definition prepare_package ::
  "lib \<Rightarrow> path \<Rightarrow> path \<Rightarrow> fs_node \<Rightarrow> path \<Rightarrow> fs_node \<Rightarrow> RegularFileSetIdentity \<Rightarrow> file_error + byte list" where
  "prepare_package L canonical_root root_path root scope_path scope_node expected =
     and_then (capture_regular_file_set_identity L canonical_root root MAX_FILE_SIZE_BYTES) (\<lambda>observed.
     and_then (ensure (observed = expected)
       (FileError ''Managed regular-file-set changed before Transfer packaging.'')) (\<lambda>_.
     and_then (write_header expected) (\<lambda>header.
     and_then (package_entries L root_path scope_path scope_node (fi_files expected)) (\<lambda>entries.
     let package = header @ entries in
     if length package > unat MAX_FILE_SIZE_BYTES
     then file_invalid ''Regular-file-set transport package exceeds the transfer file limit.''
     else Inr package))))"

section \<open>Reading a package\<close>

text \<open>\<^verbatim>\<open>Read::read_exact\<close>: an early end of the input is an I/O error.\<close>

definition read_exact :: "nat \<Rightarrow> byte list \<Rightarrow> file_error + byte list \<times> byte list" where
  "read_exact n input = (if length input < n then Inl IoError else Inr (take n input, drop n input))"

definition read_u8 :: "byte list \<Rightarrow> file_error + byte \<times> byte list" where
  "read_u8 input = and_then (read_exact 1 input) (\<lambda>(value, input). Inr (hd value, input))"

definition read_u16 :: "byte list \<Rightarrow> file_error + u16 \<times> byte list" where
  "read_u16 input = and_then (read_exact 2 input) (\<lambda>(value, input). Inr (from_be_bytes value, input))"

definition read_u32 :: "byte list \<Rightarrow> file_error + u32 \<times> byte list" where
  "read_u32 input = and_then (read_exact 4 input) (\<lambda>(value, input). Inr (from_be_bytes value, input))"

definition read_u64 :: "byte list \<Rightarrow> file_error + u64 \<times> byte list" where
  "read_u64 input = and_then (read_exact 8 input) (\<lambda>(value, input). Inr (from_be_bytes value, input))"

definition bytes_text :: "byte list \<Rightarrow> string" where
  "bytes_text bs = map (\<lambda>b. char_of (unat b)) bs"

definition read_string :: "nat \<Rightarrow> byte list \<Rightarrow> file_error + string \<times> byte list" where
  "read_string maximum input =
     and_then (read_u16 input) (\<lambda>(len, input).
     if unat len > maximum then file_invalid ''Regular-file-set package text field exceeds its limit.''
     else and_then (read_exact (unat len) input) (\<lambda>(bytes, input).
       if utf8_valid (bytes_text bytes) then Inr (bytes_text bytes, input)
       else file_invalid ''Regular-file-set package text is not UTF-8.''))"

definition read_header :: "byte list \<Rightarrow> file_error + PackageHeader \<times> byte list" where
  "read_header input =
     and_then (read_exact (length PACKAGE_MAGIC) input) (\<lambda>(magic, input).
     and_then (ensure (magic = PACKAGE_MAGIC)
       (FileError ''Regular-file-set package schema is unknown.'')) (\<lambda>_.
     and_then (read_u16 input) (\<lambda>(version, input).
     and_then (ensure (version = PACKAGE_VERSION)
       (FileError ''Regular-file-set package version or representation is unknown.'')) (\<lambda>_.
     and_then (read_u8 input) (\<lambda>(representation, input).
     and_then (ensure (representation = REPRESENTATION_REGULAR_FILE_SET)
       (FileError ''Regular-file-set package version or representation is unknown.'')) (\<lambda>_.
     and_then (read_u32 input) (\<lambda>(entry_count, input).
     and_then (ensure (entry_count \<noteq> 0 \<and> unat entry_count \<le> MAX_REGULAR_FILE_SET_ENTRIES)
       (FileError ''Regular-file-set package entry count is invalid.'')) (\<lambda>_.
     and_then (read_string MAX_DIGEST_BYTES input) (\<lambda>(aggregate_digest, input).
     and_then (ensure (hex64 aggregate_digest)
       (FileError ''Regular-file-set package aggregate digest is invalid.'')) (\<lambda>_.
     and_then (read_u64 input) (\<lambda>(logical_byte_count, input).
     Inr (\<lparr>ph_entry_count = unat entry_count, ph_aggregate_digest = aggregate_digest,
       ph_logical_byte_count = logical_byte_count\<rparr>, input))))))))))))"

definition read_entry_header :: "byte list \<Rightarrow> file_error + EntryHeader \<times> byte list" where
  "read_entry_header input =
     and_then (read_string MAX_SELECTOR_BYTES input) (\<lambda>(selector, input).
     and_then (read_u64 input) (\<lambda>(byte_count, input).
     and_then (read_string MAX_DIGEST_BYTES input) (\<lambda>(content_digest, input).
     and_then (ensure (hex64 content_digest)
       (FileError ''Regular-file-set package entry digest is invalid.'')) (\<lambda>_.
     Inr (\<lparr>eh_selector = selector, eh_byte_count = byte_count, eh_content_digest = content_digest\<rparr>, input)))))"

text \<open>The payload loop takes at most a buffer at a time; \<open>written\<close> is what went to the output.\<close>

function payload_loop :: "nat \<Rightarrow> byte list \<Rightarrow> byte list \<Rightarrow> file_error + byte list \<times> byte list" where
  "payload_loop remaining written input =
     (if remaining = 0 then Inr (written, input)
      else let buffer = take (min remaining STREAM_BUFFER_BYTES) input in
        if buffer = [] then file_invalid ''Regular-file-set package payload is truncated.''
        else payload_loop (remaining - length buffer) (written @ buffer) (drop (length buffer) input))"
  by pat_completeness auto
termination
proof (relation "measure (\<lambda>(n, _, _). n)")
  fix remaining :: nat and written input buffer :: "byte list"
  assume "remaining \<noteq> 0" and "buffer = take (min remaining STREAM_BUFFER_BYTES) input" and "buffer \<noteq> []"
  then show "((remaining - length buffer, written @ buffer, drop (length buffer) input), remaining, written, input)
      \<in> measure (\<lambda>(n, _, _). n)"
    by (auto simp: length_greater_0_conv [symmetric] simp del: length_greater_0_conv)
qed simp

declare payload_loop.simps [simp del]

definition stream_entry_payload :: "lib \<Rightarrow> byte list \<Rightarrow> EntryHeader \<Rightarrow> file_error + byte list \<times> byte list" where
  "stream_entry_payload L input entry =
     and_then (payload_loop (unat (eh_byte_count entry)) [] input) (\<lambda>(payload, input).
     if blake3_hex L payload \<noteq> eh_content_digest entry
     then file_invalid ''Regular-file-set package entry payload digest is invalid.''
     else Inr (payload, input))"

section \<open>Materializing a package\<close>

record unpack_state =
  us_entries :: "EntryHeader list"
  us_total :: u64
  us_tree :: fs_node
  us_input :: "byte list"

definition unpack_entry ::
  "lib \<Rightarrow> (string \<Rightarrow> byte list \<Rightarrow> open_file) \<Rightarrow> PackageHeader \<Rightarrow> unpack_state \<Rightarrow> file_error + unpack_state" where
  "unpack_entry L written header s =
     and_then (read_entry_header (us_input s)) (\<lambda>(entry, input).
     and_then (validate_managed_selector (eh_selector entry)) (\<lambda>_.
     and_then (ensure (\<not> (eh_selector entry = ''.''
         \<or> us_entries s \<noteq> [] \<and> eh_selector entry \<le> eh_selector (last (us_entries s))))
       (FileError ''Regular-file-set package selectors are duplicated or unordered.'')) (\<lambda>_.
     and_then (ok_or (checked_add (us_total s) (eh_byte_count entry))
       (FileError ''Regular-file-set package byte quota overflowed.'')) (\<lambda>total.
     and_then (ensure (\<not> (total > MAX_FILE_SIZE_BYTES \<or> total > ph_logical_byte_count header))
       (FileError ''Regular-file-set package logical bytes exceed their limit.'')) (\<lambda>_.
     and_then (create_private_regular_file (us_tree s) (eh_selector entry)) (\<lambda>put.
     and_then (stream_entry_payload L input entry) (\<lambda>(payload, input).
     Inr \<lparr>us_entries = us_entries s @ [entry], us_total = total,
       us_tree = put (FileNode (written (eh_selector entry) payload)), us_input = input\<rparr>)))))))"

fun unpack_entries ::
  "lib \<Rightarrow> (string \<Rightarrow> byte list \<Rightarrow> open_file) \<Rightarrow> PackageHeader \<Rightarrow> nat \<Rightarrow> unpack_state \<Rightarrow> file_error + unpack_state" where
  "unpack_entries L written header 0 s = Inr s"
| "unpack_entries L written header (Suc n) s =
     and_then (unpack_entry L written header s) (unpack_entries L written header n)"

definition materialize_package ::
  "lib \<Rightarrow> (string \<Rightarrow> byte list \<Rightarrow> open_file) \<Rightarrow> path \<Rightarrow> string \<Rightarrow> byte list \<Rightarrow> string \<Rightarrow> u64 \<Rightarrow> file_error + fs_node" where
  "materialize_package L written canonical_root unique package expected_digest expected_bytes =
     and_then (ensure (\<not> length package > unat MAX_FILE_SIZE_BYTES)
       (FileError ''Regular-file-set package is unavailable or exceeds its limit.'')) (\<lambda>_.
     and_then (read_header package) (\<lambda>(header, input).
     and_then (ensure (ph_aggregate_digest header = expected_digest \<and> ph_logical_byte_count header = expected_bytes)
       (FileError ''Regular-file-set package does not match the authored logical identity.'')) (\<lambda>_.
     and_then (create_private_tree_root ''native-v2-file-sets'' unique) (\<lambda>root.
     and_then (unpack_entries L written header (ph_entry_count header)
       \<lparr>us_entries = [], us_total = 0, us_tree = root, us_input = input\<rparr>) (\<lambda>s.
     and_then (ensure (us_total s = ph_logical_byte_count header \<and> us_input s = [])
       (FileError ''Regular-file-set package contains trailing or inconsistent data.'')) (\<lambda>_.
     and_then (regular_file_set_digest_from_entries L
       (map (\<lambda>e. (eh_selector e, eh_content_digest e, eh_byte_count e)) (us_entries s))) (\<lambda>digest.
     and_then (ensure (digest = ph_aggregate_digest header)
       (FileError ''Regular-file-set package aggregate digest is invalid.'')) (\<lambda>_.
     and_then (capture_regular_file_set_identity L canonical_root (us_tree s) MAX_FILE_SIZE_BYTES) (\<lambda>observed.
     and_then (ensure (fi_digest observed = expected_digest \<and> fi_byte_count observed = expected_bytes
         \<and> length (fi_files observed) = length (us_entries s)
         \<and> list_all (\<lambda>(a, b). a = b) (zip (map fst (fi_files observed)) (map eh_selector (us_entries s))))
       (FileError ''Materialized regular-file-set does not match its package identity.'')) (\<lambda>_.
     Inr (us_tree s)))))))))))"

section \<open>The fields are self-delimiting\<close>

lemma read_exact_Inr: "read_exact n input = Inr (bs, rest) \<longleftrightarrow> length bs = n \<and> input = bs @ rest"
  by (auto simp: read_exact_def)

lemma from_be_bytes_eq:
  assumes "length bs = LENGTH('a) div 8" and "8 dvd LENGTH('a)"
  shows "from_be_bytes bs = (w :: 'a::len word) \<longleftrightarrow> bs = to_be_bytes w"
  using to_from_be_bytes [OF assms] from_to_be_bytes [OF assms(2)] by metis

lemma read_u16_Inr: "read_u16 input = Inr (w, rest) \<longleftrightarrow> input = to_be_bytes w @ rest"
  using from_be_bytes_eq [where ?'a = 16]
  by (auto simp: read_u16_def res_simps read_exact_Inr)

lemma read_u32_Inr: "read_u32 input = Inr (w, rest) \<longleftrightarrow> input = to_be_bytes w @ rest"
  using from_be_bytes_eq [where ?'a = 32]
  by (auto simp: read_u32_def res_simps read_exact_Inr)

lemma read_u64_Inr: "read_u64 input = Inr (w, rest) \<longleftrightarrow> input = to_be_bytes w @ rest"
  using from_be_bytes_eq [where ?'a = 64]
  by (auto simp: read_u64_def res_simps read_exact_Inr)

lemma read_u8_Inr: "read_u8 input = Inr (w, rest) \<longleftrightarrow> input = [w] @ rest"
  by (auto simp: read_u8_def res_simps read_exact_Inr length_Suc_conv)

lemma read_put_simps [simp]:
  "read_u8 (b # rest) = Inr (b, rest)" "read_u16 (to_be_bytes h @ rest) = Inr (h, rest)"
  "read_u32 (to_be_bytes w @ rest) = Inr (w, rest)" "read_u64 (to_be_bytes x @ rest) = Inr (x, rest)"
  by (simp_all add: read_u8_Inr read_u16_Inr read_u32_Inr read_u64_Inr)

lemma read_exact_put [simp]: "length bs = n \<Longrightarrow> read_exact n (bs @ rest) = Inr (bs, rest)"
  by (simp add: read_exact_Inr)

lemma bytes_text_as_bytes [simp]: "bytes_text (as_bytes s) = s"
  by (simp add: bytes_text_def as_bytes_def comp_def)

lemma as_bytes_bytes_text [simp]: "as_bytes (bytes_text bs) = bs"
proof -
  have "(of_char (char_of (unat b)) :: byte) = b" for b :: byte
  proof -
    have "unat b < 256" using unsigned_less [of b, where ?'a = nat] by simp
    then have "unat (of_char (char_of (unat b) :: char) :: byte) = unat b" by simp
    then show ?thesis by (simp only: word_unat_eq_iff)
  qed
  then show ?thesis by (simp add: bytes_text_def as_bytes_def comp_def)
qed

definition valid_text :: "nat \<Rightarrow> string \<Rightarrow> bool" where
  "valid_text maximum s \<longleftrightarrow> length s \<le> maximum \<and> utf8_valid s"

definition put_text :: "string \<Rightarrow> byte list" where
  "put_text s = to_be_bytes (of_nat (length s) :: u16) @ as_bytes s"

lemma read_string_Inr:
  assumes "maximum < 2 ^ 16"
  shows "read_string maximum input = Inr (s, rest) \<longleftrightarrow> valid_text maximum s \<and> input = put_text s @ rest"
proof
  assume "read_string maximum input = Inr (s, rest)"
  then obtain w bs where "input = to_be_bytes (w :: u16) @ bs @ rest" and "unat w \<le> maximum"
    and "length bs = unat w" and "utf8_valid (bytes_text bs)" and "s = bytes_text bs"
    by (auto simp: read_string_def res_simps read_u16_Inr read_exact_Inr split: if_splits)
  moreover have "length (bytes_text bs) = length bs" by (simp add: bytes_text_def)
  ultimately show "valid_text maximum s \<and> input = put_text s @ rest"
    by (simp add: valid_text_def put_text_def)
next
  assume "valid_text maximum s \<and> input = put_text s @ rest"
  with assms show "read_string maximum input = Inr (s, rest)"
    by (auto simp: read_string_def valid_text_def put_text_def unat_of_nat)
qed

interpretation text_field: codec "valid_text MAX_SELECTOR_BYTES" put_text "read_string MAX_SELECTOR_BYTES"
  by unfold_locales (auto simp: read_string_Inr MAX_SELECTOR_BYTES_def)

interpretation digest_field: codec "valid_text MAX_DIGEST_BYTES" put_text "read_string MAX_DIGEST_BYTES"
  by unfold_locales (auto simp: read_string_Inr MAX_DIGEST_BYTES_def)

definition valid_header :: "PackageHeader \<Rightarrow> bool" where
  "valid_header h \<longleftrightarrow> 0 < ph_entry_count h \<and> ph_entry_count h \<le> 1024 \<and> hex64 (ph_aggregate_digest h)"

definition put_header :: "PackageHeader \<Rightarrow> byte list" where
  "put_header h = PACKAGE_MAGIC @ to_be_bytes PACKAGE_VERSION @ [REPRESENTATION_REGULAR_FILE_SET]
     @ to_be_bytes (of_nat (ph_entry_count h) :: u32) @ put_text (ph_aggregate_digest h)
     @ to_be_bytes (ph_logical_byte_count h)"

lemma utf8_valid_ascii: "\<forall>c \<in> set s. of_char c < (128 :: nat) \<Longrightarrow> utf8_valid s"
  by (induction s) (auto simp: Let_def)

lemma hex64_text: "hex64 s \<Longrightarrow> valid_text MAX_DIGEST_BYTES s"
  by (auto simp: hex64_def valid_text_def MAX_DIGEST_BYTES_def list_all_iff is_ascii_hexdigit_def Let_def
    intro!: utf8_valid_ascii)

lemma count_word:
  assumes "n \<le> 1024" and "0 < n"
  shows "unat (of_nat n :: u32) = n" and "(of_nat n :: u32) \<noteq> 0"
proof -
  show *: "unat (of_nat n :: u32) = n" using assms(1) by (simp add: unat_of_nat)
  then show "(of_nat n :: u32) \<noteq> 0" using assms(2) by auto
qed

lemma read_header_Inr:
  "read_header input = Inr (h, rest) \<longleftrightarrow> valid_header h \<and> input = put_header h @ rest"
proof
  assume "read_header input = Inr (h, rest)"
  then obtain n digest count where n: "(n :: u32) \<noteq> 0" "unat n \<le> 1024" and hex: "hex64 digest"
    and input: "input = PACKAGE_MAGIC @ to_be_bytes PACKAGE_VERSION @ [REPRESENTATION_REGULAR_FILE_SET]
      @ to_be_bytes n @ put_text digest @ to_be_bytes count @ rest"
    and h: "h = \<lparr>ph_entry_count = unat n, ph_aggregate_digest = digest, ph_logical_byte_count = count\<rparr>"
    by (auto simp: read_header_def res_simps read_exact_Inr read_u16_Inr read_u8_Inr read_u32_Inr read_u64_Inr
      digest_field.get_iff MAX_REGULAR_FILE_SET_ENTRIES_def)
  from n(1) have "0 < unat n" by (simp add: unat_gt_0)
  with n hex input h show "valid_header h \<and> input = put_header h @ rest"
    by (simp add: valid_header_def put_header_def)
next
  assume h: "valid_header h \<and> input = put_header h @ rest"
  then have "unat (of_nat (ph_entry_count h) :: u32) = ph_entry_count h" "(of_nat (ph_entry_count h) :: u32) \<noteq> 0"
    using count_word by (auto simp: valid_header_def)
  with h hex64_text show "read_header input = Inr (h, rest)"
    by (simp add: read_header_def digest_field.get_put MAX_REGULAR_FILE_SET_ENTRIES_def valid_header_def put_header_def)
qed

interpretation package_header: codec valid_header put_header read_header
  by unfold_locales (simp_all add: read_header_Inr)

definition valid_entry :: "EntryHeader \<Rightarrow> bool" where
  "valid_entry e \<longleftrightarrow> valid_text MAX_SELECTOR_BYTES (eh_selector e) \<and> hex64 (eh_content_digest e)"

definition put_entry :: "EntryHeader \<Rightarrow> byte list" where
  "put_entry e = put_text (eh_selector e) @ to_be_bytes (eh_byte_count e) @ put_text (eh_content_digest e)"

lemma read_entry_header_Inr:
  "read_entry_header input = Inr (e, rest) \<longleftrightarrow> valid_entry e \<and> input = put_entry e @ rest"
  using hex64_text [of "eh_content_digest e"]
  by (cases e) (auto simp: read_entry_header_def res_simps text_field.get_iff digest_field.get_iff read_u64_Inr
    valid_entry_def put_entry_def)

interpretation package_entry: codec valid_entry put_entry read_entry_header
  by unfold_locales (simp_all add: read_entry_header_Inr)

lemma payload_loop_Inr:
  "payload_loop n acc input = Inr (payload, rest) \<longleftrightarrow> (\<exists>d. length d = n \<and> input = d @ rest \<and> payload = acc @ d)"
proof (induction n acc input arbitrary: payload rule: payload_loop.induct)
  case (1 n acc input)
  show ?case
  proof (cases "n = 0 \<or> input = []")
    case True
    then show ?thesis by (subst payload_loop.simps) (auto simp: Let_def STREAM_BUFFER_BYTES_def)
  next
    case False
    define b where "b = take (min n STREAM_BUFFER_BYTES) input"
    from False have b: "b \<noteq> []" "length b \<le> n" by (auto simp: b_def STREAM_BUFFER_BYTES_def)
    have input: "input = b @ drop (length b) input"
      by (metis b_def append_take_drop_id length_take min.absorb2 nat_le_linear take_all take_take)
    have "payload_loop n acc input = payload_loop (n - length b) (acc @ b) (drop (length b) input)"
      using False b(1) by (subst payload_loop.simps) (auto simp: Let_def b_def STREAM_BUFFER_BYTES_def)
    also have "\<dots> = Inr (payload, rest) \<longleftrightarrow>
      (\<exists>d. length d = n - length b \<and> drop (length b) input = d @ rest \<and> payload = acc @ b @ d)"
      using 1 [OF _ b_def b(1)] False by simp
    also have "\<dots> \<longleftrightarrow> (\<exists>d. length d = n \<and> input = d @ rest \<and> payload = acc @ d)" (is "?l \<longleftrightarrow> ?r")
    proof
      assume ?l
      then obtain d where "length d = n - length b" "drop (length b) input = d @ rest" "payload = acc @ b @ d" by blast
      with input b(2) show ?r by (intro exI [of _ "b @ d"]) (metis append.assoc length_append le_add_diff_inverse)
    next
      assume ?r
      then obtain d where d: "length d = n" "input = d @ rest" "payload = acc @ d" by blast
      with b(2) have "b = take (length b) d" by (simp add: b_def STREAM_BUFFER_BYTES_def)
      with d b(2) show ?l by (intro exI [of _ "drop (length b) d"]) (auto, metis append_take_drop_id)
    qed
    finally show ?thesis .
  qed
qed

lemma stream_entry_payload_Inr:
  "stream_entry_payload L input e = Inr (payload, rest) \<longleftrightarrow>
     length payload = unat (eh_byte_count e) \<and> input = payload @ rest \<and> blake3_hex L payload = eh_content_digest e"
  by (auto simp: stream_entry_payload_def res_simps payload_loop_Inr split: if_splits)

section \<open>Growing a private tree\<close>

lemma set_hm_insert:
  assumes "hm_wf m"
  shows "(k, v) \<in> set (hm_insert n c m) \<longleftrightarrow> (if k = n then v = c else (k, v) \<in> set m)"
proof -
  have "(k, v) \<in> set (hm_insert n c m) \<longleftrightarrow> hm_get (hm_insert n c m) k = Some v"
    using assms hm_pair_get [OF hm_wf_insert] hm_get_pair by metis
  also have "\<dots> \<longleftrightarrow> (if k = n then v = c else hm_get m k = Some v)" by (auto simp: hmap_simps)
  finally show ?thesis using assms hm_pair_get hm_get_pair by metis
qed

lemma tree_files_insert:
  assumes "hm_wf es"
  shows "(m # q, f) \<in> set (tree_files (DirNode (hm_insert n c es))) \<longleftrightarrow>
    (if m = n then (q, f) \<in> set (tree_files c) else (m # q, f) \<in> set (tree_files (DirNode es)))"
  by (cases "m = n") (auto simp: tree_files_entry set_hm_insert [OF assms])

lemma no_file_at_root: "([], f) \<notin> set (tree_files (DirNode es))"
  by (simp add: tree_files_entry)

text \<open>No directory below the root without a file: so a new file conflicts with a directory only where some
  file lies below it.\<close>

fun full_tree :: "fs_node \<Rightarrow> bool" where
  "full_tree (DirNode es) = (\<forall>(n, c) \<in> set es. full_tree c \<and> tree_files c \<noteq> [])"
| "full_tree _ = True"

definition good_tree :: "fs_node \<Rightarrow> bool" where
  "good_tree t \<longleftrightarrow> (\<exists>es. t = DirNode es) \<and> fs_wf t \<and> plain_tree t \<and> full_tree t"

lemma good_tree_empty [simp]: "good_tree (DirNode [])"
  by (simp add: good_tree_def)

lemma good_tree_child:
  assumes "good_tree (DirNode es)" and "map_of es n = Some (DirNode ds)"
  shows "good_tree (DirNode ds)"
  using assms map_of_SomeD [OF assms(2)] unfolding good_tree_def by fastforce

lemma good_tree_insert:
  assumes "good_tree (DirNode es)" and "valid_name n" and "c = FileNode f \<or> good_tree c \<and> tree_files c \<noteq> []"
  shows "good_tree (DirNode (hm_insert n c es))"
proof -
  from assms(1) have es: "hm_wf es" "\<And>k v. (k, v) \<in> set es \<Longrightarrow> valid_name k \<and> fs_wf v \<and> plain_tree v
      \<and> full_tree v \<and> tree_files v \<noteq> []"
    by (auto simp: good_tree_def)
  have "fs_wf c \<and> plain_tree c \<and> full_tree c \<and> tree_files c \<noteq> []"
    using assms(3) by (auto simp: good_tree_def)
  with es assms(2) have "\<And>k v. (k, v) \<in> set (hm_insert n c es) \<Longrightarrow>
      valid_name k \<and> fs_wf v \<and> plain_tree v \<and> full_tree v \<and> tree_files v \<noteq> []"
    by (auto simp: set_hm_insert split: if_splits)
  moreover have "hm_wf (hm_insert n c es)" using es(1) by simp
  ultimately show ?thesis unfolding good_tree_def by auto
qed

lemma tree_files_lookup:
  assumes "fs_wf (DirNode es)" and "map_of es n = Some c"
  shows "(n # q, f) \<in> set (tree_files (DirNode es)) \<longleftrightarrow> (q, f) \<in> set (tree_files c)"
  using assms by (auto simp: tree_files_entry map_of_eq_Some_iff dest: eq_key_imp_eq_value)

lemma tree_files_replace:
  assumes "hm_wf es"
    and "\<And>q g. (q, g) \<in> set (tree_files c) \<longleftrightarrow> (q, g) = (p, f) \<or> (n # q, g) \<in> set (tree_files (DirNode es))"
  shows "set (tree_files (DirNode (hm_insert n c es))) = insert (n # p, f) (set (tree_files (DirNode es)))"
    (is "?A = ?B")
proof -
  have "(q, g) \<in> ?A \<longleftrightarrow> (q, g) \<in> ?B" for q g
    using no_file_at_root by (cases q) (auto simp: tree_files_insert [OF assms(1)] assms(2))
  then show ?thesis by auto
qed

lemma no_file_below: "map_of es n = None \<Longrightarrow> (n # q, g) \<notin> set (tree_files (DirNode es))"
  by (force simp: tree_files_entry map_of_eq_None_iff)

lemma create_at_enters:
  assumes "create_at (DirNode es) (n # p) = Inr put" and "p \<noteq> []" and "good_tree (DirNode es)"
  shows "\<exists>put' ds. create_at (DirNode ds) p = Inr put' \<and> good_tree (DirNode ds)
    \<and> put = (\<lambda>leaf. DirNode (hm_insert n (put' leaf) es))
    \<and> (\<forall>q g. (q, g) \<in> set (tree_files (DirNode ds)) \<longleftrightarrow> (n # q, g) \<in> set (tree_files (DirNode es)))"
proof (cases "map_of es n")
  case None
  with assms(1,2) obtain put' where "create_at (DirNode []) p = Inr put'"
    and "put = (\<lambda>leaf. DirNode (es @ [(n, put' leaf)]))" by (cases p) (auto simp: res_simps)
  with None no_file_below [OF None] show ?thesis
    by (intro exI [of _ put'] exI [of _ "[]"]) (simp add: hm_insert_fresh hm_get_def node_files.simps)
next
  case (Some c)
  with assms(1,2) obtain put' ds where c: "c = DirNode ds" and put: "create_at (DirNode ds) p = Inr put'"
      "put = (\<lambda>leaf. DirNode (hm_insert n (put' leaf) es))"
    by (cases p) (auto simp: res_simps split: fs_node.splits)
  have "fs_wf (DirNode es)" using assms(3) by (simp only: good_tree_def)
  note files = tree_files_lookup [OF this Some [unfolded c]]
  have "good_tree (DirNode ds)" using good_tree_child [OF assms(3)] Some c by blast
  with put files show ?thesis by blast
qed

lemma create_at_grows:
  assumes "create_at (DirNode es) p = Inr put" and "good_tree (DirNode es)" and "list_all valid_name p"
  shows "\<exists>es'. put (FileNode f) = DirNode es' \<and> good_tree (DirNode es')
    \<and> set (tree_files (DirNode es')) = insert (p, f) (set (tree_files (DirNode es)))"
  using assms
proof (induction p arbitrary: es put)
  case (Cons n p)
  have wf: "hm_wf es" and n: "valid_name n" using Cons.prems by (simp_all add: good_tree_def)
  show ?case
  proof (cases "p = []")
    case True
    with Cons.prems(1) have new: "map_of es n = None" and "put = (\<lambda>leaf. DirNode (es @ [(n, leaf)]))"
      by (auto split: if_splits)
    then have "put (FileNode f) = DirNode (hm_insert n (FileNode f) es)"
      by (simp add: hm_insert_fresh hm_get_def)
    moreover have "good_tree (DirNode (hm_insert n (FileNode f) es))"
      by (rule good_tree_insert [OF Cons.prems(2) n, where f = f]) simp
    moreover have "set (tree_files (DirNode (hm_insert n (FileNode f) es))) = insert (n # p, f) (set (tree_files (DirNode es)))"
      by (rule tree_files_replace [OF wf]) (auto simp: True no_file_below [OF new])
    ultimately show ?thesis by blast
  next
    case False
    from create_at_enters [OF Cons.prems(1) False Cons.prems(2)] obtain put' ds
      where put': "create_at (DirNode ds) p = Inr put'" "good_tree (DirNode ds)"
        and put: "put = (\<lambda>leaf. DirNode (hm_insert n (put' leaf) es))"
        and ds: "\<And>q g. (q, g) \<in> set (tree_files (DirNode ds)) \<longleftrightarrow> (n # q, g) \<in> set (tree_files (DirNode es))"
      by blast
    from Cons.IH [OF put'] Cons.prems(3) obtain es' where es': "put' (FileNode f) = DirNode es'"
      "good_tree (DirNode es')" "set (tree_files (DirNode es')) = insert (p, f) (set (tree_files (DirNode ds)))"
      by auto
    have "good_tree (DirNode (hm_insert n (DirNode es') es))"
      by (rule good_tree_insert [OF Cons.prems(2) n]) (use es' in auto)
    moreover have "set (tree_files (DirNode (hm_insert n (DirNode es') es))) = insert (n # p, f) (set (tree_files (DirNode es)))"
      by (rule tree_files_replace [OF wf]) (simp only: es'(3) insert_iff ds)
    ultimately show ?thesis using put es'(1) by auto
  qed
qed simp

lemma create_private_regular_file_grows:
  assumes "create_private_regular_file t selector = Inr put" and "good_tree t"
  shows "good_tree (put (FileNode f)) \<and> (\<exists>p. list_all valid_name p \<and> path_components selector = map Normal p
    \<and> set (tree_files (put (FileNode f))) = insert (p, f) (set (tree_files t)))"
proof -
  from assms(1) have sel: "validate_managed_selector selector = Inr ()" "selector \<noteq> ''.''"
    and put: "create_at t (map normal_name (path_components selector)) = Inr put"
    by (auto simp: create_private_regular_file_def res_simps Let_def)
  from selector_names [OF sel] obtain p where p: "p \<noteq> []" "list_all valid_name p" "path_components selector = map Normal p"
    by blast
  obtain es where t: "t = DirNode es" using assms(2) by (auto simp: good_tree_def)
  have "create_at (DirNode es) p = Inr put" using put by (simp add: p(3) t comp_def)
  from create_at_grows [OF this assms(2) [unfolded t] p(2), of f] p(2,3) show ?thesis by (auto simp: t)
qed

section \<open>What a materialized tree is\<close>

lemma unpack_entry_tree: "unpack_entry L w h s = Inr s' \<Longrightarrow> good_tree (us_tree s) \<Longrightarrow> good_tree (us_tree s')"
  by (auto simp: unpack_entry_def res_simps dest!: create_private_regular_file_grows)

lemma unpack_entries_tree: "unpack_entries L w h n s = Inr s' \<Longrightarrow> good_tree (us_tree s) \<Longrightarrow> good_tree (us_tree s')"
  by (induction n arbitrary: s) (auto simp: res_simps intro: unpack_entry_tree)

lemma materialize_package_identity:
  assumes "materialize_package L w c unique package d n = Inr t"
  shows "good_tree t \<and> (\<exists>i. capture_regular_file_set_identity L c t MAX_FILE_SIZE_BYTES = Inr i
    \<and> fi_digest i = d \<and> fi_byte_count i = n)"
proof -
  from assms obtain h input s i where
      "unpack_entries L w h (ph_entry_count h)
        \<lparr>us_entries = [], us_total = 0, us_tree = DirNode [], us_input = input\<rparr> = Inr s"
    and "t = us_tree s" and "capture_regular_file_set_identity L c t MAX_FILE_SIZE_BYTES = Inr i"
    and "fi_digest i = d \<and> fi_byte_count i = n"
    by (auto simp: materialize_package_def res_simps create_private_tree_root_def)
  with unpack_entries_tree [of L w h "ph_entry_count h" _ s] show ?thesis by auto
qed

end
