(* ===== verification/File_Set_Round_Trip.thy ===== *)
theory File_Set_Round_Trip
  imports File_Set_Package
begin

text \<open>
  A package that the sender prepares is one the receiver materializes: \<^verbatim>\<open>prepare_package\<close> followed by
  \<^verbatim>\<open>materialize_package\<close> rebuilds the sender's logical tree.
\<close>

section \<open>What the sender writes\<close>

definition header_of :: "lib \<Rightarrow> string list \<times> open_file \<Rightarrow> EntryHeader" where
  "header_of L = (\<lambda>(p, f). \<lparr>eh_selector = join_slash p, eh_byte_count = of_nat (length (of_bytes f)),
     eh_content_digest = blake3_hex L (of_bytes f)\<rparr>)"

definition chunk_of :: "lib \<Rightarrow> string list \<times> open_file \<Rightarrow> byte list" where
  "chunk_of L x = put_entry (header_of L x) @ of_bytes (snd x)"

text \<open>The files of a tree in the order of their selectors.\<close>

definition sorted_files :: "fs_node \<Rightarrow> (string list \<times> open_file) list" where
  "sorted_files root = sort_key (\<lambda>x. join_slash (fst x)) (tree_files root)"

lemma mset_sorted_files [simp]: "mset (sorted_files root) = mset (tree_files root)"
  by (simp add: sorted_files_def)

lemma set_sorted_files [simp]: "set (sorted_files root) = set (tree_files root)"
  by (simp add: sorted_files_def)

lemma length_sorted_files [simp]: "length (sorted_files root) = length (tree_files root)"
  by (simp add: sorted_files_def)

lemma total_length_mset: "mset xs = mset ys \<Longrightarrow> total_length xs = total_length ys"
proof -
  assume "mset xs = mset ys"
  moreover have "total_length zs = (\<Sum>x \<in># mset zs. length (of_bytes (snd x)))" for zs
    by (induction zs) simp_all
  ultimately show ?thesis by simp
qed

lemma total_length_sorted [simp]: "total_length (sorted_files root) = total_length (tree_files root)"
  by (rule total_length_mset) simp

lemma selectors_sorted:
  assumes "fs_wf (DirNode es)"
  shows "sorted_wrt (<) (selectors (sorted_files (DirNode es)))"
proof -
  have "sorted (selectors (sorted_files (DirNode es)))"
    by (simp add: selectors_def sorted_files_def)
  moreover have "mset (selectors (sorted_files (DirNode es))) = mset (selectors (tree_files (DirNode es)))"
    by (simp add: selectors_def)
  then have "distinct (selectors (sorted_files (DirNode es)))"
    using selectors_distinct [OF assms] mset_eq_imp_distinct_iff by blast
  ultimately show ?thesis by (simp add: strict_sorted_iff)
qed

lemma tree_entries_sorted:
  assumes "fs_wf (DirNode es)"
  shows "tree_entries L (DirNode es) = map (entry_of L) (sorted_files (DirNode es))"
proof (rule bt_unique)
  show "bt_wf (tree_entries L (DirNode es))" by (simp add: tree_entries_def bt_wf_collect)
  show "bt_wf (map (entry_of L) (sorted_files (DirNode es)))"
    unfolding entry_of_keys by (rule selectors_sorted [OF assms])
  show "set (tree_entries L (DirNode es)) = set (map (entry_of L) (sorted_files (DirNode es)))"
    by (simp add: set_tree_entries [OF assms])
qed

text \<open>The scope a set is packaged through holds the set at \<open>below\<close>.\<close>

fun subtree :: "fs_node \<Rightarrow> string list \<Rightarrow> fs_node option" where
  "subtree node [] = Some node"
| "subtree (DirNode es) (n # p) = (case map_of es n of None \<Rightarrow> None | Some c \<Rightarrow> subtree c p)"
| "subtree _ (n # p) = None"

lemma open_source_at_subtree:
  "subtree scope below = Some (DirNode es) \<Longrightarrow> p \<noteq> [] \<Longrightarrow> open_source_at scope (below @ p) = open_source_at (DirNode es) p"
proof (induction below arbitrary: scope)
  case (Cons n below)
  then obtain ds c where "scope = DirNode ds" "map_of ds n = Some c" and c: "subtree c below = Some (DirNode es)"
    by (cases scope) (auto split: option.splits)
  moreover from c obtain cs where "c = DirNode cs" by (cases below; cases c) auto
  moreover obtain m q where "below @ p = m # q" using Cons.prems(2) by (cases "below @ p") auto
  ultimately show ?case using Cons.IH [OF c Cons.prems(2)] by simp
qed simp

lemma subtree_dir: "subtree scope below = Some (DirNode es) \<Longrightarrow> \<exists>ds. scope = DirNode ds"
  by (cases below; cases scope) auto

lemma open_through_scope:
  assumes "subtree scope below = Some (DirNode es)" and "fs_wf (DirNode es)"
    and "(p, f) \<in> set (tree_files (DirNode es))"
    and "open_regular_source scope_path scope (scope_path @ map Normal below @ map Normal p) = Inr g"
  shows "g = f"
proof -
  have p: "p \<noteq> []" using assms(3) no_file_at_root by (cases p) auto
  have names: "map normal_name (map Normal below @ map Normal p) = below @ p" by (simp add: comp_def)
  have "open_source_at scope (below @ p) = Inr (FileNode f)"
    using open_source_at_subtree [OF assms(1) p] open_source_at_file [OF assms(2,3)] by simp
  with assms(4) names show ?thesis
    by (auto simp: open_regular_source_def strip_path_def source_fingerprint_def res_simps
      simp del: map_map map_append split: if_splits)
qed

lemma put_text_write: "write_string s maximum = Inr bytes \<Longrightarrow> bytes = put_text s"
  by (auto simp: write_string_def put_text_def split: if_splits)

lemma package_entries_Inr:
  assumes "subtree scope below = Some (DirNode es)" and wf: "fs_wf (DirNode es)"
  shows "set xs \<subseteq> set (tree_files (DirNode es)) \<Longrightarrow>
    package_entries L (scope_path @ map Normal below) scope_path scope (map (entry_of L) xs) = Inr bytes \<Longrightarrow>
    bytes = concat (map (chunk_of L) xs)"
proof (induction xs arbitrary: bytes)
  case (Cons x xs)
  obtain p f where x: "x = (p, f)" by (cases x)
  from Cons.prems(1) x have pf: "(p, f) \<in> set (tree_files (DirNode es))" by simp
  then have "list_all valid_name p" "p \<noteq> []"
    using tree_files_names [OF wf pf] no_file_at_root by auto
  then have comps: "path_components (join_slash p) = map Normal p" by (rule path_components_join)
  from Cons.prems(2) obtain h payload rest where
      h: "write_entry_header (join_slash p) (si_byte_count (file_identity L f)) (si_digest (file_identity L f)) = Inr h"
    and payload: "stream_source_if_identity_matches L scope_path scope (scope_path @ map Normal below @ map Normal p)
      (file_identity L f) MAX_FILE_SIZE_BYTES = Inr payload"
    and rest: "package_entries L (scope_path @ map Normal below) scope_path scope (map (entry_of L) xs) = Inr rest"
    and bytes: "bytes = h @ payload @ rest"
    by (auto simp: x entry_of_def res_simps comps)
  from h have "h = put_entry (header_of L x)"
    by (auto simp: write_entry_header_def res_simps put_entry_def header_of_def file_identity_def x dest!: put_text_write)
  moreover from payload open_through_scope [OF assms pf] have "payload = of_bytes f"
    by (auto simp: stream_source_if_identity_matches_def res_simps exchange_source_Inr)
  ultimately show ?case using Cons.IH [OF _ rest] Cons.prems(1) bytes by (simp add: chunk_of_def x)
qed simp

lemma put_text_writes: "length s \<le> maximum \<Longrightarrow> maximum < 2 ^ 16 \<Longrightarrow> write_string s maximum = Inr (put_text s)"
  by (simp add: write_string_def put_text_def)

lemma stream_through_scope:
  assumes "subtree scope below = Some (DirNode es)" and "fs_wf (DirNode es)"
    and "(p, f) \<in> set (tree_files (DirNode es))" and "stable_file f" and "length (of_bytes f) \<le> unat m"
  shows "stream_source_if_identity_matches L scope_path scope (scope_path @ map Normal below @ map Normal p)
    (file_identity L f) m = Inr (of_bytes f)"
proof -
  have p: "p \<noteq> []" using assms(3) no_file_at_root by (cases p) auto
  have names: "map normal_name (map Normal below @ map Normal p) = below @ p" by (simp add: comp_def)
  have normal: "list_all is_normal (map Normal below @ map Normal p)" by (auto simp: list_all_iff)
  have "open_source_at scope (below @ p) = Inr (FileNode f)"
    using open_source_at_subtree [OF assms(1) p] open_source_at_file [OF assms(2,3)] by simp
  moreover obtain ds where "scope = DirNode ds" using subtree_dir [OF assms(1)] by blast
  ultimately have "open_regular_source scope_path scope (scope_path @ map Normal below @ map Normal p) = Inr f"
    using names normal p assms(4)
    by (simp add: open_regular_source_def strip_path_def source_fingerprint_def stable_file_def
      del: map_map map_append list_all_append)
  moreover have "(of_nat (length (of_bytes f)) :: u64) \<le> m"
    using assms(5) unsigned_less [of m, where ?'a = nat] by (simp add: word_le_nat_alt unat_of_nat)
  ultimately show ?thesis
    using assms(4,5) by (simp add: stream_source_if_identity_matches_def exchange_source_Inr stable_file_def file_identity_def)
qed

lemma package_entries_succeeds:
  assumes "subtree scope below = Some (DirNode es)" and wf: "fs_wf (DirNode es)" and hex: "hex_digests L"
    and acc: "acceptable (tree_files (DirNode es))"
    and max: "\<And>p f. (p, f) \<in> set (tree_files (DirNode es)) \<Longrightarrow> length (of_bytes f) \<le> unat MAX_FILE_SIZE_BYTES"
  shows "set xs \<subseteq> set (tree_files (DirNode es)) \<Longrightarrow>
    package_entries L (scope_path @ map Normal below) scope_path scope (map (entry_of L) xs)
      = Inr (concat (map (chunk_of L) xs))"
proof (induction xs)
  case (Cons x xs)
  obtain p f where x: "x = (p, f)" by (cases x)
  from Cons.prems x have pf: "(p, f) \<in> set (tree_files (DirNode es))" by simp
  then have names: "list_all valid_name p" "p \<noteq> []"
    using tree_files_names [OF wf pf] no_file_at_root by auto
  have ok: "portable p" "stable_file f" using acc pf by (auto simp: acceptable_def)
  have "length (blake3_hex L m) = 64" for m using hex by (simp add: hex_digests_def hex64_def)
  then have "write_entry_header (join_slash p) (si_byte_count (file_identity L f)) (si_digest (file_identity L f))
      = Inr (put_entry (header_of L (p, f)))"
    using ok(1) by (simp add: write_entry_header_def put_text_writes MAX_SELECTOR_BYTES_def MAX_DIGEST_BYTES_def
      portable_def put_entry_def header_of_def file_identity_def)
  with stream_through_scope [OF assms(1,2) pf ok(2) max [OF pf], of L scope_path]
    validate_portable [OF wf pf ok(1)] path_components_join [OF names] Cons
  show ?case by (simp add: x entry_of_def chunk_of_def)
qed simp

definition package_header_of :: "RegularFileSetIdentity \<Rightarrow> PackageHeader" where
  "package_header_of e = \<lparr>ph_entry_count = length (fi_files e), ph_aggregate_digest = fi_digest e,
     ph_logical_byte_count = fi_byte_count e\<rparr>"

lemma prepare_package_Inr:
  assumes "subtree scope below = Some root" and "fs_wf root"
    and "prepare_package L c (scope_path @ map Normal below) root scope_path scope e = Inr package"
  shows "capture_regular_file_set_identity L c root MAX_FILE_SIZE_BYTES = Inr e
    \<and> package = put_header (package_header_of e) @ concat (map (chunk_of L) (sorted_files root))
    \<and> length package \<le> unat MAX_FILE_SIZE_BYTES"
proof -
  from assms(3) obtain h bytes where e: "capture_regular_file_set_identity L c root MAX_FILE_SIZE_BYTES = Inr e"
    and h: "write_header e = Inr h"
    and bytes: "package_entries L (scope_path @ map Normal below) scope_path scope (fi_files e) = Inr bytes"
    and package: "package = h @ bytes" and len: "length package \<le> unat MAX_FILE_SIZE_BYTES"
    by (auto simp: prepare_package_def res_simps Let_def split: if_splits)
  from e obtain es where root: "root = DirNode es" and files: "fi_files e = tree_entries L root"
    by (auto simp: capture_regular_file_set_identity_Inr [OF assms(2)])
  from h have "h = put_header (package_header_of e)"
    by (auto simp: write_header_def res_simps put_header_def package_header_of_def dest!: put_text_write)
  moreover have "bytes = concat (map (chunk_of L) (sorted_files root))"
    using bytes unfolding files root tree_entries_sorted [OF assms(2) [unfolded root]]
    by (rule package_entries_Inr [OF assms(1,2) [unfolded root] equalityD1 [OF set_sorted_files]])
  ultimately show ?thesis using e package len by simp
qed

lemma total_length_member: "(p, f) \<in> set xs \<Longrightarrow> length (of_bytes f) \<le> total_length xs"
  by (induction xs) auto

lemma prepare_package_succeeds:
  assumes "subtree scope below = Some root" and "fs_wf root" and "hex_digests L"
    and e: "capture_regular_file_set_identity L c root MAX_FILE_SIZE_BYTES = Inr e"
    and size: "length (put_header (package_header_of e) @ concat (map (chunk_of L) (sorted_files root))) \<le> unat MAX_FILE_SIZE_BYTES"
  shows "prepare_package L c (scope_path @ map Normal below) root scope_path scope e =
    Inr (put_header (package_header_of e) @ concat (map (chunk_of L) (sorted_files root)))"
proof -
  from e obtain es where root: "root = DirNode es" and files: "fi_files e = tree_entries L root"
    and ok: "acceptable (tree_files root)" "length (tree_files root) \<le> 1024"
      "total_length (tree_files root) \<le> unat MAX_FILE_SIZE_BYTES"
    and d: "fi_digest e = blake3_hex L (file_set_message (map logical_entry (tree_entries L root)))"
    by (auto simp: capture_regular_file_set_identity_Inr [OF assms(2)])
  have entries: "tree_entries L root = map (entry_of L) (sorted_files root)"
    unfolding root by (rule tree_entries_sorted [OF assms(2) [unfolded root]])
  have "length (fi_digest e) = 64" using assms(3) d by (simp add: hex_digests_def hex64_def)
  then have "write_header e = Inr (put_header (package_header_of e))"
    using ok(2) by (simp add: write_header_def put_text_writes MAX_DIGEST_BYTES_def put_header_def
      package_header_of_def files entries)
  moreover have "package_entries L (scope_path @ map Normal below) scope_path scope (fi_files e)
      = Inr (concat (map (chunk_of L) (sorted_files root)))"
    unfolding files entries
  proof (rule package_entries_succeeds [OF assms(1,2) [unfolded root] assms(3) ok(1) [unfolded root]])
    fix p f assume "(p, f) \<in> set (tree_files (DirNode es))"
    from total_length_member [OF this] ok(3) root show "length (of_bytes f) \<le> unat MAX_FILE_SIZE_BYTES" by simp
  qed (simp add: root)
  ultimately show ?thesis using e size by (simp add: prepare_package_def Let_def)
qed

section \<open>The receiver can build every tree\<close>

text \<open>The directories on the way to a file have names the private tree accepts.\<close>

definition short_dirs :: "string list \<Rightarrow> bool" where
  "short_dirs p \<longleftrightarrow> list_all (\<lambda>n. validate_private_component n = Inr ()) (butlast p)"

lemma create_at_succeeds:
  assumes "good_tree (DirNode es)" and "p \<noteq> []" and "short_dirs p"
    and "\<And>q g. (q, g) \<in> set (tree_files (DirNode es)) \<Longrightarrow> \<not> prefix q p \<and> \<not> prefix p q"
  shows "\<exists>put. create_at (DirNode es) p = Inr put"
  using assms
proof (induction p arbitrary: es)
  case (Cons n p)
  from Cons.prems(1) have wf: "fs_wf (DirNode es)" by (simp only: good_tree_def)
  have child: "\<exists>q g. (n # q, g) \<in> set (tree_files (DirNode es))" if "map_of es n = Some c" for c
  proof -
    from that Cons.prems(1) have "tree_files c \<noteq> []" by (auto simp: good_tree_def dest: map_of_SomeD)
    with tree_files_lookup [OF wf that] show ?thesis by (metis last_in_set surj_pair)
  qed
  show ?case
  proof (cases p)
    case Nil
    with child Cons.prems(4) have "map_of es n = None" by (cases "map_of es n") force+
    with Nil show ?thesis by simp
  next
    case (Cons m p')
    with Cons.prems(3) have n: "validate_private_component n = Inr ()" and dirs: "short_dirs p"
      by (simp_all add: short_dirs_def)
    show ?thesis
    proof (cases "map_of es n")
      case None
      have "\<exists>put. create_at (DirNode []) p = Inr put"
        using Cons dirs by (intro Cons.IH) (simp_all add: node_files.simps)
      with None n Cons show ?thesis by auto
    next
      case (Some c)
      note files = tree_files_lookup [OF wf Some]
      have "([], f) \<notin> set (tree_files c)" for f using files [of "[]" f] Cons.prems(4) by force
      moreover have "plain_tree c" using Some Cons.prems(1) by (auto simp: good_tree_def dest: map_of_SomeD)
      ultimately obtain ds where c: "c = DirNode ds" by (cases c) auto
      have "\<exists>put. create_at (DirNode ds) p = Inr put"
      proof (rule Cons.IH)
        show "good_tree (DirNode ds)" using good_tree_child [OF Cons.prems(1)] Some c by blast
        show "\<not> prefix q p \<and> \<not> prefix p q" if "(q, g) \<in> set (tree_files (DirNode ds))" for q g
          using Cons.prems(4) [of "n # q" g] files [of q g] that c by simp
      qed (use Cons dirs in simp_all)
      with Some c n Cons show ?thesis by auto
    qed
  qed
qed simp

lemma tree_paths_incomparable:
  "fs_wf (DirNode es) \<Longrightarrow> (p, f) \<in> set (tree_files (DirNode es)) \<Longrightarrow> (p @ q, g) \<in> set (tree_files (DirNode es)) \<Longrightarrow> q = []"
proof (induction p arbitrary: es)
  case (Cons n p)
  from Cons.prems(2) obtain c where c: "(n, c) \<in> set es" "(p, f) \<in> set (tree_files c)" by (auto simp: tree_files_entry)
  from Cons.prems(1) c(1) have look: "map_of es n = Some c" and wf: "fs_wf c" by auto
  from tree_files_lookup [OF Cons.prems(1) look, of "p @ q" g] Cons.prems(3)
  have g: "(p @ q, g) \<in> set (tree_files c)" by simp
  show ?case using Cons.IH wf c(2) g by (cases c) auto
qed (simp add: tree_files_entry)

section \<open>Unpacking what was packed\<close>

text \<open>What the operating system makes of the bytes the receiver writes.\<close>

definition faithful_writes :: "(string \<Rightarrow> byte list \<Rightarrow> open_file) \<Rightarrow> bool" where
  "faithful_writes w \<longleftrightarrow> (\<forall>s bytes. of_bytes (w s bytes) = bytes \<and> stable_file (w s bytes))"

definition rewritten :: "(string \<Rightarrow> byte list \<Rightarrow> open_file) \<Rightarrow> string list \<times> open_file \<Rightarrow> string list \<times> open_file" where
  "rewritten w = (\<lambda>(p, f). (p, w (join_slash p) (of_bytes f)))"

definition unpacked :: "lib \<Rightarrow> (string \<Rightarrow> byte list \<Rightarrow> open_file) \<Rightarrow> (string list \<times> open_file) list \<Rightarrow> byte list \<Rightarrow> unpack_state \<Rightarrow> bool" where
  "unpacked L w xs rest s \<longleftrightarrow> us_entries s = map (header_of L) xs \<and> us_total s = of_nat (total_length xs)
     \<and> good_tree (us_tree s) \<and> set (tree_files (us_tree s)) = rewritten w ` set xs \<and> us_input s = rest"

definition packable :: "(string list \<times> open_file) list \<Rightarrow> bool" where
  "packable xs \<longleftrightarrow> sorted_wrt (<) (selectors xs) \<and> acceptable xs
     \<and> (\<forall>(p, f) \<in> set xs. p \<noteq> [] \<and> list_all valid_name p \<and> short_dirs p)
     \<and> sorted_wrt (\<lambda>x y. \<not> prefix (fst x) (fst y) \<and> \<not> prefix (fst y) (fst x)) xs"

lemma utf8_valid_Cons:
  "utf8_valid (b # s) \<longleftrightarrow>
     of_char b < (128 :: nat) \<and> utf8_valid s
     \<or> (\<exists>c t. s = c # t \<and> utf8_two (of_char b) c \<and> utf8_valid t)
     \<or> (\<exists>c d u. s = c # d # u \<and> utf8_three (of_char b) c d \<and> utf8_valid u)
     \<or> (\<exists>c d e v. s = c # d # e # v \<and> utf8_four (of_char b) c d e \<and> utf8_valid v)" (is "_ \<longleftrightarrow> ?r")
proof -
  define a where "a = (of_char b :: nat)"
  have low: "\<not> utf8_two a c" "\<not> utf8_three a c d" "\<not> utf8_four a c d e" if "a < 128" for c d e
    using that by (auto simp: utf8_two_def utf8_three_def utf8_four_def)
  have two: "\<not> utf8_three a c d" "\<not> utf8_four a c d e" if "utf8_two a c'" for c c' d e
    using that by (auto simp: utf8_two_def utf8_three_def utf8_four_def)
  have three: "\<not> utf8_four a c d e" if "utf8_three a c' d'" for c c' d d' e
    using that by (auto simp: utf8_three_def utf8_four_def)
  show ?thesis
    unfolding utf8_valid.simps(2) [of b s] a_def [symmetric] Let_def
    by (cases "a < 128") (use low two three in \<open>auto simp del: utf8_valid.simps(2) split: list.split if_split\<close>)
qed

lemma utf8_valid_append: "utf8_valid s \<Longrightarrow> utf8_valid t \<Longrightarrow> utf8_valid (s @ t)"
proof (induction "length s" arbitrary: s rule: less_induct)
  case less
  show ?case
  proof (cases s)
    case (Cons b s')
    from less.prems(1) show ?thesis
      unfolding Cons append_Cons utf8_valid_Cons [of b s'] utf8_valid_Cons [of b "s' @ t"]
      using less.hyps less.prems(2) Cons by (elim disjE exE conjE) (simp_all del: utf8_valid.simps(2))
  qed (use less.prems in simp)
qed

lemma utf8_valid_slash: "utf8_valid s \<Longrightarrow> utf8_valid (CHR ''/'' # s)"
  by simp

lemma utf8_valid_join: "list_all utf8_valid ps \<Longrightarrow> utf8_valid (join_slash ps)"
  by (induction ps rule: join_slash.induct) (auto intro!: utf8_valid_append simp del: utf8_valid.simps(2) intro: utf8_valid_slash)

lemma header_of_valid:
  assumes "hex_digests L" and "portable p"
  shows "valid_entry (header_of L (p, f))"
  using assms utf8_valid_join [of p]
  by (simp add: valid_entry_def header_of_def valid_text_def MAX_SELECTOR_BYTES_def portable_def hex_digests_def)

lemma portable_selector:
  assumes "portable p" and "list_all valid_name p" and "p \<noteq> []"
  shows "validate_managed_selector (join_slash p) = Inr ()" and "join_slash p \<noteq> ''.''"
  using assms validate_join_slash [OF assms(2,3)] join_slash_hd [OF assms(2,3)] by (simp_all add: portable_def)

lemma total_length_append [simp]: "total_length (xs @ ys) = total_length xs + total_length ys"
  by (simp add: total_length_def)

lemma packable_last:
  assumes "packable (xs @ (p, f) # ys)"
  shows "p \<noteq> []" "list_all valid_name p" "short_dirs p" "portable p" "stable_file f"
    and "\<And>q g. (q, g) \<in> set xs \<Longrightarrow> \<not> prefix q p \<and> \<not> prefix p q"
    and "xs \<noteq> [] \<Longrightarrow> join_slash (fst (last xs)) < join_slash p"
  using assms by (auto simp: packable_def acceptable_def selectors_def sorted_wrt_append)

lemma create_private_regular_file_succeeds:
  assumes "good_tree t" and "list_all valid_name p" and "p \<noteq> []" and "short_dirs p" and "portable p"
    and "\<And>q g. (q, g) \<in> set (tree_files t) \<Longrightarrow> \<not> prefix q p \<and> \<not> prefix p q"
  shows "\<exists>put. create_private_regular_file t (join_slash p) = Inr put
    \<and> (\<forall>f. good_tree (put (FileNode f)) \<and> set (tree_files (put (FileNode f))) = insert (p, f) (set (tree_files t)))"
proof -
  obtain es where t: "t = DirNode es" using assms(1) by (auto simp: good_tree_def)
  note comps = path_components_join [OF assms(2,3)]
  have names: "map normal_name (map Normal p) = p" by (simp add: comp_def)
  from create_at_succeeds [OF assms(1) [unfolded t] assms(3,4)] assms(6) t
  obtain put where put: "create_at t p = Inr put" by blast
  have created: "create_private_regular_file t (join_slash p) = Inr put"
    unfolding create_private_regular_file_def comps Let_def names
    using portable_selector [OF assms(5,2,3)] put assms(3) by (simp add: list_all_iff)
  have "good_tree (put (FileNode f)) \<and> set (tree_files (put (FileNode f))) = insert (p, f) (set (tree_files t))" for f
    using create_at_grows [OF put [unfolded t] assms(1) [unfolded t] assms(2), of f] t by auto
  with created show ?thesis by blast
qed

lemma unpack_entry_packed:
  assumes "hex_digests L" and "faithful_writes w" and pk: "packable (xs @ x # ys)"
    and max: "total_length (xs @ x # ys) \<le> unat MAX_FILE_SIZE_BYTES"
    and h: "ph_logical_byte_count h = of_nat (total_length (xs @ x # ys))"
    and s: "unpacked L w xs (chunk_of L x @ rest) s"
  shows "\<exists>s'. unpack_entry L w h s = Inr s' \<and> unpacked L w (xs @ [x]) rest s'"
proof -
  obtain p f where x: "x = (p, f)" by (cases x)
  note ok = packable_last [OF pk [unfolded x]]
  let ?e = "header_of L x" and ?b = "of_bytes f" and ?tot = "of_nat (total_length xs) + of_nat (length (of_bytes f)) :: u64"
  have lim: "unat MAX_FILE_SIZE_BYTES < 2 ^ 64" using unsigned_less [of MAX_FILE_SIZE_BYTES, where ?'a = nat] by simp
  have sizes: "total_length xs + length ?b < 2 ^ 64" "total_length xs + length ?b \<le> total_length (xs @ x # ys)"
    using max lim by (simp_all add: x)
  then have nums: "unat (of_nat (total_length xs) :: u64) = total_length xs" "unat (of_nat (length ?b) :: u64) = length ?b"
      "unat ?tot = total_length xs + length ?b" "unat (ph_logical_byte_count h) = total_length (xs @ x # ys)"
    using h max lim by (simp_all add: unat_of_nat unat_word_ariths)
  have read: "read_entry_header (us_input s) = Inr (?e, ?b @ rest)"
    using s package_entry.get_put [OF header_of_valid [OF assms(1) ok(4)], of f "?b @ rest"]
    by (simp add: unpacked_def chunk_of_def x)
  have sel: "eh_selector ?e = join_slash p" "eh_byte_count ?e = of_nat (length ?b)" "eh_content_digest ?e = blake3_hex L ?b"
    by (simp_all add: header_of_def x)
  have tree: "\<not> prefix q p \<and> \<not> prefix p q" if "(q, g) \<in> set (tree_files (us_tree s))" for q g
    using that ok(6) s by (auto simp: unpacked_def rewritten_def)
  have good: "good_tree (us_tree s)" using s by (simp add: unpacked_def)
  obtain put where put: "create_private_regular_file (us_tree s) (join_slash p) = Inr put"
    "\<And>f. good_tree (put (FileNode f)) \<and> set (tree_files (put (FileNode f))) = insert (p, f) (set (tree_files (us_tree s)))"
    using create_private_regular_file_succeeds [OF good ok(2,1,3,4)] tree by metis
  have payload: "stream_entry_payload L (?b @ rest) ?e = Inr (?b, rest)"
    using sizes by (simp add: stream_entry_payload_Inr sel nums)
  have order: "\<not> (us_entries s \<noteq> [] \<and> join_slash p \<le> eh_selector (last (us_entries s)))"
    using ok(7) s by (auto simp: unpacked_def last_map header_of_def case_prod_beta)
  have total: "checked_add (us_total s) (of_nat (length ?b)) = Some ?tot"
    using s sizes(1) nums by (simp add: unpacked_def checked_add_Some)
  have quota: "\<not> (?tot > MAX_FILE_SIZE_BYTES \<or> ?tot > ph_logical_byte_count h)"
    using sizes(2) max nums by (simp add: word_less_nat_alt)
  have "unpack_entry L w h s = Inr \<lparr>us_entries = us_entries s @ [?e], us_total = ?tot,
      us_tree = put (FileNode (w (join_slash p) ?b)), us_input = rest\<rparr>"
    unfolding unpack_entry_def read
    using portable_selector [OF ok(4,2,1)] order total quota put(1) payload by (simp add: sel)
  moreover have "unpacked L w (xs @ [x]) rest \<lparr>us_entries = us_entries s @ [?e], us_total = ?tot,
      us_tree = put (FileNode (w (join_slash p) ?b)), us_input = rest\<rparr>"
    using s put(2) by (simp add: unpacked_def x rewritten_def)
  ultimately show ?thesis by blast
qed

lemma unpack_entries_packed:
  assumes "hex_digests L" and "faithful_writes w"
  shows "packable (xs @ ys) \<Longrightarrow> total_length (xs @ ys) \<le> unat MAX_FILE_SIZE_BYTES \<Longrightarrow>
    ph_logical_byte_count h = of_nat (total_length (xs @ ys)) \<Longrightarrow>
    unpacked L w xs (concat (map (chunk_of L) ys)) s \<Longrightarrow>
    \<exists>s'. unpack_entries L w h (length ys) s = Inr s' \<and> unpacked L w (xs @ ys) [] s'"
proof (induction ys arbitrary: xs s)
  case (Cons y ys)
  have s: "unpacked L w xs (chunk_of L y @ concat (map (chunk_of L) ys)) s" using Cons.prems(4) by simp
  from unpack_entry_packed [OF assms Cons.prems(1-3) s] obtain s' where s': "unpack_entry L w h s = Inr s'"
    "unpacked L w (xs @ [y]) (concat (map (chunk_of L) ys)) s'" by blast
  from Cons.IH [of "xs @ [y]" s'] s'(2) Cons.prems(1-3) s'(1) show ?case by simp
qed simp

section \<open>The rebuilt tree\<close>

lemma packable_sorted_files:
  assumes "fs_wf (DirNode es)" and "acceptable (tree_files (DirNode es))"
    and "\<And>p f. (p, f) \<in> set (tree_files (DirNode es)) \<Longrightarrow> short_dirs p"
  shows "packable (sorted_files (DirNode es))"
proof -
  let ?xs = "sorted_files (DirNode es)"
  have "acceptable ?xs" using assms(2) by (simp add: acceptable_def)
  moreover have "\<forall>(p, f) \<in> set ?xs. p \<noteq> [] \<and> list_all valid_name p \<and> short_dirs p"
    using assms(3) tree_files_names [OF assms(1)] no_file_at_root by fastforce
  moreover have "distinct (map fst ?xs)"
  proof -
    have "mset (map fst ?xs) = mset (map fst (tree_files (DirNode es)))" by simp
    with tree_files_distinct [OF assms(1)] mset_eq_imp_distinct_iff show ?thesis by blast
  qed
  then have "sorted_wrt (\<lambda>x y. fst x \<noteq> fst y) ?xs"
    by (simp add: distinct_conv_nth sorted_wrt_iff_nth_less)
  then have "sorted_wrt (\<lambda>x y. \<not> prefix (fst x) (fst y) \<and> \<not> prefix (fst y) (fst x)) ?xs"
  proof (rule sorted_wrt_mono_rel [rotated])
    fix x y :: "string list \<times> open_file"
    assume x: "x \<in> set ?xs" and y: "y \<in> set ?xs" and ne: "fst x \<noteq> fst y"
    then have "(fst x, snd x) \<in> set (tree_files (DirNode es))" "(fst y, snd y) \<in> set (tree_files (DirNode es))" by simp_all
    with ne tree_paths_incomparable [OF assms(1)] show "\<not> prefix (fst x) (fst y) \<and> \<not> prefix (fst y) (fst x)"
      by (metis append_Nil2 prefixE)
  qed
  ultimately show ?thesis using selectors_sorted [OF assms(1)] by (simp add: packable_def)
qed

lemma rewritten_tree:
  assumes "faithful_writes w" and "good_tree t" and "distinct (map fst xs)" and "set (tree_files t) = rewritten w ` set xs"
    and "acceptable xs"
  shows "mset (tree_files t) = mset (map (rewritten w) xs)" and "acceptable (tree_files t)"
    and "length (tree_files t) = length xs" and "total_length (tree_files t) = total_length xs"
proof -
  have "map fst (map (rewritten w) xs) = map fst xs" by (simp add: rewritten_def comp_def case_prod_beta)
  with assms(3) have "distinct (map (rewritten w) xs)" by (metis distinct_map)
  moreover have "distinct (tree_files t)"
    using tree_files_distinct [of t] assms(2) by (simp add: good_tree_def distinct_map)
  ultimately show *: "mset (tree_files t) = mset (map (rewritten w) xs)"
    using assms(4) by (subst set_eq_iff_mset_eq_distinct [symmetric]) auto
  show "acceptable (tree_files t)"
    using assms(1,4,5) by (auto simp: acceptable_def faithful_writes_def rewritten_def)
  show "length (tree_files t) = length xs" using mset_eq_length [OF *] by simp
  show "total_length (tree_files t) = total_length xs"
    using total_length_mset [OF *] assms(1)
    by (simp add: total_length_def rewritten_def faithful_writes_def comp_def case_prod_beta)
qed

lemma rewritten_entries:
  assumes "faithful_writes w" and "fs_wf (DirNode ds)" and "sorted_wrt (<) (selectors xs)"
    and "set (tree_files (DirNode ds)) = rewritten w ` set xs"
  shows "map logical_entry (tree_entries L (DirNode ds)) = map logical_entry (map (entry_of L) xs)"
proof (rule bt_unique)
  have keys: "map fst (map logical_entry es) = map fst es" for es :: "(string \<times> SourceIdentity) list"
    by (simp add: logical_entry_def comp_def case_prod_beta)
  show "bt_wf (map logical_entry (tree_entries L (DirNode ds)))"
    unfolding keys by (simp add: tree_entries_def bt_wf_collect)
  show "bt_wf (map logical_entry (map (entry_of L) xs))"
    unfolding keys entry_of_keys by (rule assms(3))
  have "logical_entry (entry_of L (rewritten w x)) = logical_entry (entry_of L x)" for x
    using assms(1) by (simp add: logical_entry_def entry_of_def file_identity_def rewritten_def
      faithful_writes_def case_prod_beta)
  then show "set (map logical_entry (tree_entries L (DirNode ds))) = set (map logical_entry (map (entry_of L) xs))"
    by (simp add: set_tree_entries [OF assms(2)] assms(4) image_image)
qed

lemma logical_rewritten:
  assumes "faithful_writes w" and "set (tree_files t) = rewritten w ` set (tree_files root)"
  shows "logical_tree t = logical_tree root"
proof -
  have "(\<lambda>(p, f). (p, of_bytes f)) (rewritten w x) = (\<lambda>(p, f). (p, of_bytes f)) x" for x
    using assms(1) by (simp add: rewritten_def faithful_writes_def case_prod_beta)
  then show ?thesis unfolding logical_tree_def assms(2) image_image by simp
qed

lemma header_triple:
  "(\<lambda>e. (eh_selector e, eh_content_digest e, eh_byte_count e)) (header_of L x) = logical_entry (entry_of L x)"
  by (simp add: header_of_def logical_entry_def entry_of_def file_identity_def case_prod_beta)

lemma rebuilt_identity:
  assumes "faithful_writes w" and "good_tree t" and "sorted_wrt (<) (selectors xs)" and "acceptable xs"
    and "set (tree_files t) = rewritten w ` set xs" and "distinct (map fst xs)"
    and "xs \<noteq> []" and "length xs \<le> 1024" and "total_length xs \<le> unat m"
  shows "\<exists>i. capture_regular_file_set_identity L c t m = Inr i
    \<and> fi_digest i = blake3_hex L (file_set_message (map logical_entry (map (entry_of L) xs)))
    \<and> fi_byte_count i = of_nat (total_length xs) \<and> map fst (fi_files i) = selectors xs"
proof -
  obtain ds where t: "t = DirNode ds" and wf: "fs_wf t" and plain: "plain_tree t"
    using assms(2) by (auto simp: good_tree_def)
  note same = rewritten_tree [OF assms(1,2,6,5,4)]
  note entries = rewritten_entries [OF assms(1) wf [unfolded t] assms(3) assms(5) [unfolded t], of L]
  have "tree_files t \<noteq> []" using same(3) assms(7) by auto
  moreover have keys: "map fst es = map fst (map logical_entry es)" for es :: "(string \<times> SourceIdentity) list"
    by (simp add: logical_entry_def comp_def case_prod_beta)
  have "map fst (tree_entries L t) = selectors xs"
    using keys [of "tree_entries L t"] keys [of "map (entry_of L) xs"] entries entry_of_keys [of L xs] t by metis
  ultimately show ?thesis
    unfolding capture_regular_file_set_identity_Inr [OF wf] entries [folded t]
    using plain same assms(8,9) t by auto
qed

lemma materialize_packed:
  assumes "hex_digests L" and "faithful_writes w" and pk: "packable xs" and dist: "distinct (map fst xs)"
    and size: "xs \<noteq> []" "length xs \<le> 1024" "total_length xs \<le> unat MAX_FILE_SIZE_BYTES"
    and d: "d = blake3_hex L (file_set_message (map logical_entry (map (entry_of L) xs)))"
    and n: "n = of_nat (total_length xs)"
    and package: "package = put_header \<lparr>ph_entry_count = length xs, ph_aggregate_digest = d, ph_logical_byte_count = n\<rparr>
      @ concat (map (chunk_of L) xs)"
    and len: "length package \<le> unat MAX_FILE_SIZE_BYTES" and unique: "validate_private_component unique = Inr ()"
  shows "\<exists>t. materialize_package L w c unique package d n = Inr t \<and> set (tree_files t) = rewritten w ` set xs
    \<and> map logical_entry (tree_entries L t) = map logical_entry (map (entry_of L) xs)"
proof -
  let ?h = "\<lparr>ph_entry_count = length xs, ph_aggregate_digest = d, ph_logical_byte_count = n\<rparr>"
  let ?s = "\<lparr>us_entries = [], us_total = 0, us_tree = DirNode [], us_input = concat (map (chunk_of L) xs)\<rparr>"
  have sel: "sorted_wrt (<) (selectors xs)" and acc: "acceptable xs" using pk by (simp_all add: packable_def)
  have "valid_header ?h" using size assms(1) d by (simp add: valid_header_def hex_digests_def)
  then have read: "read_header package = Inr (?h, concat (map (chunk_of L) xs))"
    unfolding package by (rule package_header.get_put)
  have "unpacked L w [] (concat (map (chunk_of L) xs)) ?s" by (simp add: unpacked_def node_files.simps)
  from unpack_entries_packed [OF assms(1,2) _ _ _ this, of ?h] pk size(3) n obtain s where
    s: "unpack_entries L w ?h (length xs) ?s = Inr s" and up: "unpacked L w xs [] s" by auto
  from up have s': "us_entries s = map (header_of L) xs" "us_total s = n" "us_input s = []"
    "good_tree (us_tree s)" "set (tree_files (us_tree s)) = rewritten w ` set xs"
    by (simp_all add: unpacked_def n)
  obtain i where i: "capture_regular_file_set_identity L c (us_tree s) MAX_FILE_SIZE_BYTES = Inr i"
    "fi_digest i = d" "fi_byte_count i = n" "map fst (fi_files i) = selectors xs"
    using rebuilt_identity [OF assms(2) s'(4) sel acc s'(5) dist size, of L c] d n by auto
  have keys: "map fst (map logical_entry (map (entry_of L) xs)) = selectors xs"
    by (simp add: logical_entry_def entry_of_def selectors_def case_prod_beta)
  have valid: "validate_managed_selector (fst (logical_entry (entry_of L x))) = Inr ()" if "x \<in> set xs" for x
    using pk that portable_selector(1) by (fastforce simp: packable_def acceptable_def logical_entry_def entry_of_def)
  have digest: "regular_file_set_digest_from_entries L
      (map (\<lambda>e. (eh_selector e, eh_content_digest e, eh_byte_count e)) (us_entries s)) = Inr d"
    unfolding s'(1) map_map comp_def header_triple
    using size(1) sel keys d valid by (simp add: regular_file_set_digest_from_entries_Inr comp_def)
  have names: "map eh_selector (us_entries s) = selectors xs"
    by (simp add: s'(1) header_of_def selectors_def case_prod_beta)
  have "length (fi_files i) = length (us_entries s)" using i(4) by (metis length_map names)
  then have "materialize_package L w c unique package d n = Inr (us_tree s)"
    unfolding materialize_package_def read
    using len unique s s'(2,3) digest i by (simp add: create_private_tree_root_def validate_private_component_def
      contains_char_def names zip_same_conv_map list_all_iff)
  moreover have "map logical_entry (tree_entries L (us_tree s)) = map logical_entry (map (entry_of L) xs)"
    using s'(4,5) rewritten_entries [OF assms(2) _ sel] unfolding good_tree_def by metis
  ultimately show ?thesis using s'(5) by blast
qed

lemma package_rebuilt:
  assumes "hex_digests L" and "faithful_writes w" and "fs_wf root" and "subtree scope below = Some root"
    and "prepare_package L c (scope_path @ map Normal below) root scope_path scope e = Inr package"
    and "\<forall>(p, f) \<in> set (tree_files root). short_dirs p"
    and "validate_private_component unique = Inr ()"
  shows "\<exists>t. materialize_package L w c' unique package (fi_digest e) (fi_byte_count e) = Inr t
    \<and> logical_tree t = logical_tree root
    \<and> map logical_entry (tree_entries L t) = map logical_entry (tree_entries L root)"
proof -
  let ?xs = "sorted_files root"
  from prepare_package_Inr [OF assms(4,3,5)]
  have e: "capture_regular_file_set_identity L c root MAX_FILE_SIZE_BYTES = Inr e"
    and package: "package = put_header (package_header_of e) @ concat (map (chunk_of L) ?xs)"
    and len: "length package \<le> unat MAX_FILE_SIZE_BYTES" by blast+
  from e obtain es where root: "root = DirNode es" and ok: "acceptable (tree_files root)" "tree_files root \<noteq> []"
      "length (tree_files root) \<le> 1024" "total_length (tree_files root) \<le> unat MAX_FILE_SIZE_BYTES"
    and e': "fi_files e = tree_entries L root" "fi_byte_count e = of_nat (total_length (tree_files root))"
      "fi_digest e = blake3_hex L (file_set_message (map logical_entry (tree_entries L root)))"
    by (auto simp: capture_regular_file_set_identity_Inr [OF assms(3)])
  have entries: "tree_entries L root = map (entry_of L) ?xs"
    unfolding root by (rule tree_entries_sorted [OF assms(3) [unfolded root]])
  have pk: "packable ?xs" unfolding root using assms(3,6) ok(1) root by (intro packable_sorted_files) auto
  have "mset (map fst ?xs) = mset (map fst (tree_files root))" by simp
  then have dist: "distinct (map fst ?xs)" using tree_files_distinct [OF assms(3)] mset_eq_imp_distinct_iff by blast
  have "\<exists>t. materialize_package L w c' unique package (fi_digest e) (fi_byte_count e) = Inr t
      \<and> set (tree_files t) = rewritten w ` set ?xs
      \<and> map logical_entry (tree_entries L t) = map logical_entry (map (entry_of L) ?xs)"
  proof (rule materialize_packed [OF assms(1,2) pk dist _ _ _ _ _ _ len assms(7)])
    show "?xs \<noteq> []" using ok(2) by (metis length_0_conv length_sorted_files)
  qed (use ok e' entries package in \<open>simp_all add: package_header_of_def\<close>)
  with logical_rewritten [OF assms(2)] entries show ?thesis by auto
qed

text \<open>C36. A package that the sender prepares for a tree is materialized by the receiver: for the digest and
  byte count of the captured identity it yields a private tree with exactly the sender's paths and bytes.
  This needs the written files to read back unchanged, digests of 64 hexadecimal digits, the set to lie at
  its place below the scope, and directory names that the private tree accepts.\<close>

theorem package_round_trip:
  assumes "hex_digests L" and "faithful_writes w" and "fs_wf root" and "subtree scope below = Some root"
    and "prepare_package L c (scope_path @ map Normal below) root scope_path scope e = Inr package"
    and "\<forall>(p, f) \<in> set (tree_files root). short_dirs p"
    and "validate_private_component unique = Inr ()"
  shows "\<exists>t. materialize_package L w c' unique package (fi_digest e) (fi_byte_count e) = Inr t
    \<and> logical_tree t = logical_tree root"
  using package_rebuilt [OF assms] by blast

text \<open>C37. Whatever bytes arrive as a package: when materializing succeeds for the digest and byte count of a
  tree that the sender captured, the private tree holds exactly the sender's files, the same paths with the
  same bytes and nothing else, provided the hash tells apart the messages at hand. A corrupted, reordered,
  truncated or extended package is never materialized as something else.\<close>

theorem materialized_tree_is_the_captured_one:
  assumes "hex_digests L" and "fs_wf root"
    and "capture_regular_file_set_identity L c root m = Inr e"
    and "materialize_package L w c' unique package (fi_digest e) (fi_byte_count e) = Inr t"
    and "collision_free L (tree_messages L t \<union> tree_messages L root)"
  shows "logical_tree t = logical_tree root"
proof -
  from materialize_package_identity [OF assms(4)] obtain i where "good_tree t"
    and i: "capture_regular_file_set_identity L c' t MAX_FILE_SIZE_BYTES = Inr i" and d: "fi_digest i = fi_digest e"
    by blast
  then have "fs_wf t" by (simp add: good_tree_def)
  from digest_binds_tree [OF assms(1) this assms(2) i assms(3) d assms(5)] show ?thesis .
qed

section \<open>Examples\<close>

definition ex_written :: "string \<Rightarrow> byte list \<Rightarrow> open_file" where
  "ex_written s bytes = ex_file 9 (if bytes = [] then [] else [bytes])"

lemma faithful_ex_written: "faithful_writes ex_written"
  by (simp add: faithful_writes_def ex_written_def ex_of_bytes ex_stable)

definition ex_scope :: fs_node where
  "ex_scope = DirNode [(''work'', ex_tree), (''other'', SymlinkNode)]"

definition ex_identity :: RegularFileSetIdentity where
  "ex_identity = \<lparr>fi_files = tree_entries ex_lib ex_tree, fi_digest = replicate 64 CHR ''2'', fi_byte_count = 4\<rparr>"

lemma ex_identity: "capture_regular_file_set_identity ex_lib [RootDir] ex_tree MAX_FILE_SIZE_BYTES = Inr ex_identity"
proof -
  have "blake3_hex ex_lib (file_set_message es) = replicate 64 CHR ''2''" for es
    by (simp add: ex_lib_def file_set_message_def)
  then show ?thesis using ex_tree_ok ex_tree_dir
    by (auto simp: capture_regular_file_set_identity_Inr ex_tree_wf ex_identity_def MAX_FILE_SIZE_BYTES_def)
qed

definition ex_package :: "byte list" where
  "ex_package = put_header (package_header_of ex_identity) @ concat (map (chunk_of ex_lib) (sorted_files ex_tree))"

lemma ex_prepare: "prepare_package ex_lib [RootDir] ([RootDir] @ map Normal [''work'']) ex_tree [RootDir] ex_scope ex_identity
    = Inr ex_package"
  unfolding ex_package_def
proof (rule prepare_package_succeeds [OF _ ex_tree_wf(1) hex_digests_ex_lib ex_identity])
  have "length (concat (map (chunk_of ex_lib) xs)) = sum_list (map (\<lambda>x. length (chunk_of ex_lib x)) xs)" for xs
    by (simp add: length_concat comp_def)
  moreover have "sum_list (map f (sorted_files ex_tree)) = sum_list (map f (tree_files ex_tree))" for f :: "_ \<Rightarrow> nat"
    by (metis mset_map mset_sorted_files sum_mset_sum_list)
  ultimately show "length (put_header (package_header_of ex_identity) @ concat (map (chunk_of ex_lib) (sorted_files ex_tree)))
      \<le> unat MAX_FILE_SIZE_BYTES"
    by (simp add: ex_tree_files chunk_of_def put_entry_def put_text_def header_of_def ex_of_bytes)
      (simp add: ex_lib_def put_header_def package_header_of_def ex_identity_def put_text_def PACKAGE_MAGIC_def
        MAX_FILE_SIZE_BYTES_def)
qed (simp add: ex_scope_def)

lemma ex_short_dirs: "\<forall>(p, f) \<in> set (tree_files ex_tree). short_dirs p"
  by (simp add: ex_tree_files short_dirs_def validate_private_component_def contains_char_def)

text \<open>The example tree is packaged through its scope and rebuilt.\<close>

theorem package_round_trip_witness:
  "\<exists>t. materialize_package ex_lib ex_written [RootDir] ''unique'' ex_package (replicate 64 CHR ''2'') 4 = Inr t
     \<and> logical_tree t = logical_tree ex_tree"
proof -
  have "subtree ex_scope [''work''] = Some ex_tree" by (simp add: ex_scope_def)
  moreover have "validate_private_component ''unique'' = Inr ()"
    by (simp add: validate_private_component_def contains_char_def)
  ultimately show ?thesis
    using package_round_trip [OF hex_digests_ex_lib faithful_ex_written ex_tree_wf(1) _ ex_prepare ex_short_dirs,
      of "''unique''" "[RootDir]"]
    by (simp add: ex_identity_def)
qed

lemma ex_collision_free: "collision_free ex_lib (tree_messages ex_lib ex_tree)"
  unfolding tree_messages_def logical_tree_def ex_entries ex_tree_files collision_free_def
  by (auto simp: inj_on_def ex_of_bytes) (auto simp: ex_lib_def file_set_message_def)

lemma ex_rebuilt:
  "\<exists>t. materialize_package ex_lib ex_written [RootDir] ''unique'' ex_package (fi_digest ex_identity) (fi_byte_count ex_identity) = Inr t
     \<and> logical_tree t = logical_tree ex_tree
     \<and> map logical_entry (tree_entries ex_lib t) = map logical_entry (tree_entries ex_lib ex_tree)"
proof (rule package_rebuilt [OF hex_digests_ex_lib faithful_ex_written ex_tree_wf(1) _ ex_prepare ex_short_dirs])
  show "subtree ex_scope [''work''] = Some ex_tree" by (simp add: ex_scope_def)
  show "validate_private_component ''unique'' = Inr ()"
    by (simp add: validate_private_component_def contains_char_def)
qed

theorem materialized_tree_is_the_captured_one_witness:
  "\<exists>t. materialize_package ex_lib ex_written [RootDir] ''unique'' ex_package (replicate 64 CHR ''2'') 4 = Inr t
     \<and> logical_tree t = logical_tree ex_tree"
proof -
  obtain t where t: "materialize_package ex_lib ex_written [RootDir] ''unique'' ex_package
      (fi_digest ex_identity) (fi_byte_count ex_identity) = Inr t"
    and same: "logical_tree t = logical_tree ex_tree"
      "map logical_entry (tree_entries ex_lib t) = map logical_entry (tree_entries ex_lib ex_tree)"
    using ex_rebuilt by blast
  have "collision_free ex_lib (tree_messages ex_lib t \<union> tree_messages ex_lib ex_tree)"
    unfolding tree_messages_def [of _ t] same tree_messages_def [symmetric] by (simp add: ex_collision_free)
  from materialized_tree_is_the_captured_one [OF hex_digests_ex_lib ex_tree_wf(1) ex_identity t this] t
  show ?thesis by (auto simp: ex_identity_def)
qed

section \<open>A limit only the receiver has\<close>

lemma create_at_short: "create_at t p = Inr put \<Longrightarrow> short_dirs p"
proof (induction p arbitrary: t put)
  case (Cons n p)
  show ?case
  proof (cases p)
    case Nil
    then show ?thesis by (simp add: short_dirs_def)
  next
    case p: (Cons m q)
    from Cons.prems p obtain t' put' where "validate_private_component n = Inr ()" and "create_at t' p = Inr put'"
      by (cases t) (auto simp: res_simps split: option.splits fs_node.splits)
    with Cons.IH p show ?thesis by (auto simp: short_dirs_def)
  qed
qed (simp add: short_dirs_def)

lemma unpack_entry_short:
  assumes "unpack_entry L w h s = Inr s'" and "good_tree (us_tree s)"
    and "\<forall>(p, f) \<in> set (tree_files (us_tree s)). short_dirs p"
  shows "\<forall>(p, f) \<in> set (tree_files (us_tree s')). short_dirs p"
proof -
  from assms(1) have "\<exists>(e :: EntryHeader) put payload. create_private_regular_file (us_tree s) (eh_selector e) = Inr put
      \<and> us_tree s' = put (FileNode (w (eh_selector e) payload))"
    by (clarsimp simp: unpack_entry_def res_simps) (rule exI, rule exI, rule conjI, assumption, rule exI, rule refl)
  then obtain e :: EntryHeader and put payload where put: "create_private_regular_file (us_tree s) (eh_selector e) = Inr put"
    and s': "us_tree s' = put (FileNode (w (eh_selector e) payload))" by blast
  from put have short: "short_dirs (map normal_name (path_components (eh_selector e)))"
    by (auto simp: create_private_regular_file_def res_simps Let_def dest: create_at_short)
  from create_private_regular_file_grows [OF put assms(2), of "w (eh_selector e) payload"] obtain p
    where p: "path_components (eh_selector e) = map Normal p"
      "set (tree_files (us_tree s')) = insert (p, w (eh_selector e) payload) (set (tree_files (us_tree s)))"
    unfolding s' by blast
  have "map normal_name (path_components (eh_selector e)) = p" by (simp add: p(1) comp_def)
  with short p(2) assms(3) show ?thesis by auto
qed

lemma unpack_entries_short:
  "unpack_entries L w h n s = Inr s' \<Longrightarrow> good_tree (us_tree s) \<Longrightarrow>
    \<forall>(p, f) \<in> set (tree_files (us_tree s)). short_dirs p \<Longrightarrow> \<forall>(p, f) \<in> set (tree_files (us_tree s')). short_dirs p"
proof (induction n arbitrary: s)
  case (Suc n)
  from Suc.prems(1) obtain s1 where "unpack_entry L w h s = Inr s1" and "unpack_entries L w h n s1 = Inr s'"
    by (auto simp: res_simps)
  with Suc.IH [OF this(2)] unpack_entry_tree unpack_entry_short Suc.prems(2,3) show ?case by blast
qed simp

lemma materialized_short:
  assumes "materialize_package L w c unique package d n = Inr t" and "(p, bytes) \<in> logical_tree t"
  shows "short_dirs p"
proof -
  from assms(1) obtain h input s where s: "unpack_entries L w h (ph_entry_count h)
      \<lparr>us_entries = [], us_total = 0, us_tree = DirNode [], us_input = input\<rparr> = Inr s" and t: "t = us_tree s"
    by (auto simp: materialize_package_def res_simps create_private_tree_root_def)
  have "\<forall>(p, f) \<in> set (tree_files t). short_dirs p"
    unfolding t by (rule unpack_entries_short [OF s]) (simp_all add: node_files.simps)
  with assms(2) show ?thesis by (auto simp: logical_tree_def)
qed

definition long_tree :: fs_node where
  "long_tree = DirNode [(replicate 129 CHR ''d'', DirNode [(''f'', FileNode (ex_file 7 [[1]]))])]"

lemma utf8_valid_replicate: "utf8_valid (replicate n CHR ''d'')"
  by (rule utf8_valid_ascii) simp

text \<open>The two sides do not agree on directory names: a tree with a directory name of 129 bytes is captured,
  so it can be selected and packaged for a transfer, but no package whatsoever is materialized as that
  tree, because the private tree takes directory names of at most 128 bytes.\<close>

theorem long_directory_captured_never_rebuilt:
  "(\<exists>i. capture_regular_file_set_identity ex_lib [RootDir] long_tree MAX_FILE_SIZE_BYTES = Inr i)
   \<and> \<not> (\<exists>w c unique package d n t. materialize_package ex_lib w c unique package d n = Inr t
       \<and> logical_tree t = logical_tree long_tree)"
proof -
  have files: "tree_files long_tree = [([replicate 129 CHR ''d'', ''f''], ex_file 7 [[1]])]"
    by (simp add: long_tree_def node_files.simps)
  have valid: "valid_name (replicate 129 CHR ''d'')"
    by (simp add: valid_name_def) (auto simp: eval_nat_numeral)
  have wf: "fs_wf long_tree" using valid by (simp add: long_tree_def valid_name_def [of "''f''"])
  have "portable [replicate 129 CHR ''d'', ''f'']"
    using utf8_valid_replicate [of 129] by (simp add: portable_def starts_with_def to_ascii_lowercase_def
      ascii_lower_def) (simp add: eval_nat_numeral)
  then have "acceptable (tree_files long_tree)" by (simp add: files ex_stable)
  moreover have "plain_tree long_tree" "\<exists>es. long_tree = DirNode es" by (simp_all add: long_tree_def)
  ultimately have "\<exists>i. capture_regular_file_set_identity ex_lib [RootDir] long_tree MAX_FILE_SIZE_BYTES = Inr i"
    unfolding capture_regular_file_set_identity_Inr [OF wf] by (simp add: files ex_of_bytes MAX_FILE_SIZE_BYTES_def)
  moreover have "([replicate 129 CHR ''d'', ''f''], [1]) \<in> logical_tree long_tree"
    by (simp add: logical_tree_def files ex_of_bytes)
  moreover have "\<not> short_dirs [replicate 129 CHR ''d'', ''f'']"
    by (simp add: short_dirs_def validate_private_component_def)
  ultimately show ?thesis using materialized_short by metis
qed

end
