(* ===== verification/Managed_Objects.thy ===== *)
theory Managed_Objects
  imports Host_Identity File_Set_Identity
begin

text \<open>
  Managed objects, \<^verbatim>\<open>src-tauri/src/managed_objects.rs\<close>: a Host-local artifact (a regular file or a set of
  regular files) is bound to a revision of an opaque logical object, for a limited time, and resolved again
  only while it is unchanged.

  The state is \<open>ManagedObjectBindingService\<close>. The file system at the time of a call is the argument \<open>F\<close>:
  what a path canonicalizes to and what lies at a canonical path. A fresh UUID is an argument of the
  operation that draws it.
\<close>

section \<open>Data\<close>

datatype ManagedObjectAcquisitionKind =
  SearchResult | InboxItem | DragDrop | LocalSelection | GeneratedArtifact | TransferReceipt

datatype ManagedArtifactRepresentationV1 = RegularFile | RegularFileSet

datatype ManagedArtifactIdentityV1 =
  FileIdentity SourceIdentity | FileSetIdentity RegularFileSetIdentity

primrec representation :: "ManagedArtifactIdentityV1 \<Rightarrow> ManagedArtifactRepresentationV1" where
  "representation (FileIdentity _) = RegularFile"
| "representation (FileSetIdentity _) = RegularFileSet"

primrec artifact_digest :: "ManagedArtifactIdentityV1 \<Rightarrow> string" where
  "artifact_digest (FileIdentity i) = si_digest i"
| "artifact_digest (FileSetIdentity i) = fi_digest i"

primrec artifact_byte_count :: "ManagedArtifactIdentityV1 \<Rightarrow> u64" where
  "artifact_byte_count (FileIdentity i) = si_byte_count i"
| "artifact_byte_count (FileSetIdentity i) = fi_byte_count i"

primrec artifact_regular_file :: "ManagedArtifactIdentityV1 \<Rightarrow> file_error + SourceIdentity" where
  "artifact_regular_file (FileIdentity i) = Inr i"
| "artifact_regular_file (FileSetIdentity _) =
     file_invalid ''This operation does not support a regular-file-set managed revision.''"

primrec artifact_regular_file_set :: "ManagedArtifactIdentityV1 \<Rightarrow> RegularFileSetIdentity option" where
  "artifact_regular_file_set (FileIdentity _) = None"
| "artifact_regular_file_set (FileSetIdentity i) = Some i"

record HostArtifactAcquisition =
  ha_kind :: ManagedObjectAcquisitionKind
  ha_source_ref :: string
  ha_bridge_id :: "string option"
  ha_path :: path
  ha_scope_root :: path
  ha_display_name :: string
  ha_media_type :: string
  ha_expires_at :: int
  ha_app_owned_temporary :: bool

record ManagedLogicalObjectRevision =
  mo_logical_object_id :: string
  mo_revision :: u64
  mo_host_ref :: HostRef
  mo_media_type :: string
  mo_size_bytes :: u64
  mo_display_name :: string
  mo_acquired_from :: ManagedObjectAcquisitionKind
  mo_representation :: ManagedArtifactRepresentationV1

record ManagedObjectSessionBinding =
  sb_binding_ref :: string
  sb_logical_object_id :: string
  sb_revision :: u64
  sb_host_ref :: HostRef
  sb_expires_at :: int

record ManagedObjectAcquisition =
  ma_object :: ManagedLogicalObjectRevision
  ma_binding :: ManagedObjectSessionBinding

record ResolvedManagedArtifact =
  ra_path :: path
  ra_scope_root :: path
  ra_display_name :: string
  ra_media_type :: string
  ra_size_bytes :: u64
  ra_identity :: ManagedArtifactIdentityV1
  ra_app_owned_temporary :: bool

record RevisionClaim =
  rc_host_ref :: HostRef
  rc_content_digest :: string
  rc_size_bytes :: u64
  rc_representation :: ManagedArtifactRepresentationV1

record StoredBinding =
  bd_acquisition :: ManagedObjectAcquisition
  bd_bridge_id :: "string option"
  bd_artifact :: ResolvedManagedArtifact

record ManagedObjectBindingService =
  os_local_host_ref :: HostRef
  os_bindings :: "(string, StoredBinding) hmap"
  os_revisions :: "(string \<times> u64, RevisionClaim) hmap"

record host_fs =
  hf_canonical :: "path \<Rightarrow> path option"
  hf_node :: "path \<Rightarrow> fs_node option"

definition MANAGED_OBJECT_PREFIX :: string where "MANAGED_OBJECT_PREFIX = ''managed-object:v1:''"
definition MANAGED_BINDING_PREFIX :: string where "MANAGED_BINDING_PREFIX = ''managed-object-binding:v1:''"
definition MAX_TEXT :: nat where "MAX_TEXT = 256"
definition MAX_BINDING_LIFETIME_SECONDS :: int where "MAX_BINDING_LIFETIME_SECONDS = 60 * 60"

section \<open>Validation\<close>

definition validate_token :: "string \<Rightarrow> string \<Rightarrow> file_error + unit" where
  "validate_token value field =
     (if trim value = [] \<or> length value > MAX_TEXT \<or> contains_char (CHR ''/'') value
        \<or> contains_char (CHR 0x5C) value \<or> starts_with ''file:'' (to_ascii_lowercase value)
      then file_invalid (field @ '' identity is invalid.'') else Inr ())"

definition validate_input :: "HostArtifactAcquisition \<Rightarrow> int \<Rightarrow> file_error + unit" where
  "validate_input input now =
     and_then (validate_token (ha_source_ref input) ''Acquisition source'') (\<lambda>_.
     and_then (case ha_bridge_id input of None \<Rightarrow> Inr () | Some b \<Rightarrow> validate_token b ''Bridge'') (\<lambda>_.
     and_then (ensure (\<not> (ha_display_name input = [] \<or> length (ha_display_name input) > MAX_TEXT
         \<or> contains_char (CHR ''/'') (ha_display_name input) \<or> contains_char (CHR 0x5C) (ha_display_name input)
         \<or> ha_media_type input = [] \<or> length (ha_media_type input) > 128
         \<or> \<not> contains_char (CHR ''/'') (ha_media_type input)))
       (FileError ''Managed object display metadata is invalid.'')) (\<lambda>_.
     ensure (\<not> (ha_expires_at input \<le> now \<or> ha_expires_at input > now + MAX_BINDING_LIFETIME_SECONDS))
       (FileError ''Managed object binding lifetime is invalid.''))))"

definition validate_managed_object_id :: "lib \<Rightarrow> string \<Rightarrow> file_error + unit" where
  "validate_managed_object_id L value =
     and_then (ok_or (strip_prefix MANAGED_OBJECT_PREFIX value)
       (FileError ''Invalid managed logical object contract version.'')) (\<lambda>encoded.
     ensure (uuid_parses L encoded \<or> hex64 encoded)
       (FileError ''Invalid managed logical object identity.''))"

definition validate_binding_ref :: "lib \<Rightarrow> string \<Rightarrow> file_error + unit" where
  "validate_binding_ref L value =
     and_then (ok_or (strip_prefix MANAGED_BINDING_PREFIX value)
       (FileError ''Invalid managed object binding contract version.'')) (\<lambda>encoded.
     ensure (uuid_parses L encoded) (FileError ''Invalid managed object binding identity.''))"

definition map_ok :: "('a \<Rightarrow> 'b) \<Rightarrow> 'e + 'a \<Rightarrow> 'e + 'b" where
  "map_ok f r = and_then r (\<lambda>x. Inr (f x))"

definition capture_artifact_identity :: "lib \<Rightarrow> host_fs \<Rightarrow> path \<Rightarrow> path \<Rightarrow> file_error + ManagedArtifactIdentityV1" where
  "capture_artifact_identity L F p scope_root =
     (case hf_node F p of
        None \<Rightarrow> Inl IoError
      | Some SymlinkNode \<Rightarrow> file_invalid ''Managed object artifact may not be a symlink or reparse point.''
      | Some (FileNode _) \<Rightarrow>
          (case hf_node F scope_root of
             None \<Rightarrow> file_invalid ''Safe file source scope is unavailable.''
           | Some scope_node \<Rightarrow>
               map_ok FileIdentity (capture_source_identity L scope_root scope_node p MAX_FILE_SIZE_BYTES))
      | Some (DirNode es) \<Rightarrow>
          map_ok FileSetIdentity (capture_regular_file_set_identity L p (DirNode es) MAX_FILE_SIZE_BYTES)
      | Some SpecialNode \<Rightarrow>
          file_invalid ''Managed object artifact must be a regular file or regular-file-set root.'')"

section \<open>The service\<close>

definition ManagedObjectBindingService_new :: "HostRef \<Rightarrow> ManagedObjectBindingService" where
  "ManagedObjectBindingService_new local_host_ref =
     \<lparr>os_local_host_ref = local_host_ref, os_bindings = [], os_revisions = []\<rparr>"

definition revision_key :: "StoredBinding \<Rightarrow> string \<times> u64" where
  "revision_key b = (mo_logical_object_id (ma_object (bd_acquisition b)), mo_revision (ma_object (bd_acquisition b)))"

definition retain_claimed_revisions :: "ManagedObjectBindingService \<Rightarrow> ManagedObjectBindingService" where
  "retain_claimed_revisions st =
     st\<lparr>os_revisions := hm_retain (\<lambda>key _. key \<in> revision_key ` set (hm_values (os_bindings st))) (os_revisions st)\<rparr>"

definition prune_expired :: "int \<Rightarrow> ManagedObjectBindingService \<Rightarrow> ManagedObjectBindingService" where
  "prune_expired now st = retain_claimed_revisions
     (st\<lparr>os_bindings := hm_retain (\<lambda>_ b. sb_expires_at (ma_binding (bd_acquisition b)) > now) (os_bindings st)\<rparr>)"

text \<open>The artifact of an acquisition: the canonical paths and the identity found there.\<close>

definition locate_artifact ::
  "lib \<Rightarrow> host_fs \<Rightarrow> HostArtifactAcquisition \<Rightarrow> file_error + path \<times> path \<times> ManagedArtifactIdentityV1" where
  "locate_artifact L F input =
     and_then (ok_or (hf_canonical F (ha_scope_root input))
       (FileError ''Managed object scope is unavailable.'')) (\<lambda>scope_root.
     and_then (ok_or (hf_canonical F (ha_path input))
       (FileError ''Managed object artifact is unavailable.'')) (\<lambda>p.
     and_then (ensure (prefix scope_root p)
       (FileError ''Managed object artifact escaped its Host-local scope.'')) (\<lambda>_.
     and_then (capture_artifact_identity L F p scope_root) (\<lambda>identity.
     Inr (p, scope_root, identity)))))"

definition RevisionClaim_of :: "HostRef \<Rightarrow> ManagedArtifactIdentityV1 \<Rightarrow> RevisionClaim" where
  "RevisionClaim_of host identity = \<lparr>rc_host_ref = host, rc_content_digest = artifact_digest identity,
     rc_size_bytes = artifact_byte_count identity, rc_representation = representation identity\<rparr>"

definition StoredBinding_of ::
  "HostRef \<Rightarrow> HostArtifactAcquisition \<Rightarrow> string \<Rightarrow> u64 \<Rightarrow> string \<Rightarrow> path \<Rightarrow> path \<Rightarrow> ManagedArtifactIdentityV1 \<Rightarrow> StoredBinding" where
  "StoredBinding_of host input logical_object_id revision uuid p scope_root identity =
     \<lparr>bd_acquisition = \<lparr>
        ma_object = \<lparr>mo_logical_object_id = logical_object_id, mo_revision = revision, mo_host_ref = host,
          mo_media_type = ha_media_type input, mo_size_bytes = artifact_byte_count identity,
          mo_display_name = ha_display_name input, mo_acquired_from = ha_kind input,
          mo_representation = representation identity\<rparr>,
        ma_binding = \<lparr>sb_binding_ref = MANAGED_BINDING_PREFIX @ uuid, sb_logical_object_id = logical_object_id,
          sb_revision = revision, sb_host_ref = host, sb_expires_at = ha_expires_at input\<rparr>\<rparr>,
      bd_bridge_id = ha_bridge_id input,
      bd_artifact = \<lparr>ra_path = p, ra_scope_root = scope_root, ra_display_name = ha_display_name input,
        ra_media_type = ha_media_type input, ra_size_bytes = artifact_byte_count identity,
        ra_identity = identity, ra_app_owned_temporary = ha_app_owned_temporary input\<rparr>\<rparr>"

text \<open>\<^verbatim>\<open>acquire\<close>: the checks, on the pruned state, and then the two inserts.\<close>

definition acquire_checks ::
  "lib \<Rightarrow> host_fs \<Rightarrow> HostArtifactAcquisition \<Rightarrow> string \<Rightarrow> u64 \<Rightarrow> string option \<Rightarrow> int \<Rightarrow> ManagedObjectBindingService
   \<Rightarrow> file_error + path \<times> path \<times> ManagedArtifactIdentityV1" where
  "acquire_checks L F input logical_object_id revision expected_content_digest now st =
     and_then (validate_input input now) (\<lambda>_.
     and_then (validate_managed_object_id L logical_object_id) (\<lambda>_.
     and_then (ensure (revision \<noteq> 0) (FileError ''Managed logical revision must be positive.'')) (\<lambda>_.
     and_then (locate_artifact L F input) (\<lambda>(p, scope_root, identity).
     and_then (ensure (case expected_content_digest of None \<Rightarrow> True | Some expected \<Rightarrow> artifact_digest identity = expected)
       (FileError ''Transferred artifact does not match the logical revision.'')) (\<lambda>_.
     and_then (ensure (case hm_get (os_revisions st) (logical_object_id, revision) of
           None \<Rightarrow> True | Some existing \<Rightarrow> existing = RevisionClaim_of (os_local_host_ref st) identity)
       (FileError ''Managed logical revision has a conflicting Host artifact.'')) (\<lambda>_.
     Inr (p, scope_root, identity)))))))"

definition acquire ::
  "lib \<Rightarrow> host_fs \<Rightarrow> string \<Rightarrow> HostArtifactAcquisition \<Rightarrow> string \<Rightarrow> u64 \<Rightarrow> string option \<Rightarrow> int
   \<Rightarrow> ManagedObjectBindingService \<Rightarrow> (file_error + ManagedObjectAcquisition) \<times> ManagedObjectBindingService" where
  "acquire L F uuid input logical_object_id revision expected_content_digest now st =
     (let st = prune_expired now st in
      case acquire_checks L F input logical_object_id revision expected_content_digest now st of
        Inl e \<Rightarrow> (Inl e, st)
      | Inr (p, scope_root, identity) \<Rightarrow>
          let stored = StoredBinding_of (os_local_host_ref st) input logical_object_id revision uuid p scope_root identity in
          (Inr (bd_acquisition stored),
           st\<lparr>os_revisions := hm_insert (logical_object_id, revision)
                (RevisionClaim_of (os_local_host_ref st) identity) (os_revisions st),
              os_bindings := hm_insert (sb_binding_ref (ma_binding (bd_acquisition stored))) stored (os_bindings st)\<rparr>))"

definition acquire_new ::
  "lib \<Rightarrow> host_fs \<Rightarrow> string \<Rightarrow> string \<Rightarrow> HostArtifactAcquisition \<Rightarrow> int
   \<Rightarrow> ManagedObjectBindingService \<Rightarrow> (file_error + ManagedObjectAcquisition) \<times> ManagedObjectBindingService" where
  "acquire_new L F object_uuid uuid input now st =
     (if ha_kind input = TransferReceipt
      then (file_invalid ''A Transfer receipt must bind an existing logical revision.'', st)
      else acquire L F uuid input (MANAGED_OBJECT_PREFIX @ object_uuid) 1 None now st)"

definition bind_authored_search_revision ::
  "lib \<Rightarrow> host_fs \<Rightarrow> string \<Rightarrow> HostArtifactAcquisition \<Rightarrow> string \<Rightarrow> u64 \<Rightarrow> int
   \<Rightarrow> ManagedObjectBindingService \<Rightarrow> (file_error + ManagedObjectAcquisition) \<times> ManagedObjectBindingService" where
  "bind_authored_search_revision L F uuid input logical_object_id revision now st =
     (if ha_kind input \<noteq> SearchResult \<or> revision \<noteq> 1
      then (file_invalid ''Only an authored Search result may establish revision 1.'', st)
      else case validate_managed_object_id L logical_object_id of
        Inl e \<Rightarrow> (Inl e, st)
      | Inr _ \<Rightarrow> acquire L F uuid input logical_object_id revision None now st)"

definition bind_transferred_revision ::
  "lib \<Rightarrow> host_fs \<Rightarrow> string \<Rightarrow> HostArtifactAcquisition \<Rightarrow> string \<Rightarrow> u64 \<Rightarrow> string \<Rightarrow> int
   \<Rightarrow> ManagedObjectBindingService \<Rightarrow> (file_error + ManagedObjectAcquisition) \<times> ManagedObjectBindingService" where
  "bind_transferred_revision L F uuid input logical_object_id revision expected_content_digest now st =
     (if ha_kind input \<noteq> TransferReceipt
      then (file_invalid ''Only an explicit Transfer receipt can relocate a logical revision.'', st)
      else case validate_managed_object_id L logical_object_id of
        Inl e \<Rightarrow> (Inl e, st)
      | Inr _ \<Rightarrow>
          if revision = 0 \<or> expected_content_digest = []
          then (file_invalid ''Transferred logical revision identity is incomplete.'', st)
          else acquire L F uuid input logical_object_id revision (Some expected_content_digest) now st)"

definition register_core_transform_revision ::
  "lib \<Rightarrow> host_fs \<Rightarrow> string \<Rightarrow> HostArtifactAcquisition \<Rightarrow> string \<Rightarrow> u64 \<Rightarrow> string \<Rightarrow> int
   \<Rightarrow> ManagedObjectBindingService \<Rightarrow> (file_error + ManagedObjectAcquisition) \<times> ManagedObjectBindingService" where
  "register_core_transform_revision L F uuid input logical_object_id revision expected_content_digest now st =
     (if ha_kind input \<noteq> GeneratedArtifact \<or> revision < 2
      then (file_invalid ''Core Transform lineage input is invalid.'', st)
      else case validate_managed_object_id L logical_object_id of
        Inl e \<Rightarrow> (Inl e, st)
      | Inr _ \<Rightarrow>
          if \<not> hm_contains (os_revisions st) (logical_object_id, revision - 1)
          then (file_invalid ''Core Transform lineage has no exact prior revision on this Host.'', st)
          else if hm_contains (os_revisions st) (logical_object_id, revision)
          then (file_invalid ''Core Transform lineage revision is already registered.'', st)
          else acquire L F uuid input logical_object_id revision (Some expected_content_digest) now st)"

definition legacy_root_id :: "lib \<Rightarrow> string \<Rightarrow> string" where
  "legacy_root_id L plan_revision_id = MANAGED_OBJECT_PREFIX
     @ blake3_hex L (as_bytes ''pastey-managed-object-v1-compatibility-root'' @ [0] @ as_bytes plan_revision_id)"

definition acquire_legacy_v1_root ::
  "lib \<Rightarrow> host_fs \<Rightarrow> string \<Rightarrow> HostArtifactAcquisition \<Rightarrow> string \<Rightarrow> int
   \<Rightarrow> ManagedObjectBindingService \<Rightarrow> (file_error + ManagedObjectAcquisition) \<times> ManagedObjectBindingService" where
  "acquire_legacy_v1_root L F uuid input plan_revision_id now st =
     (case validate_token plan_revision_id ''Plan revision'' of
        Inl e \<Rightarrow> (Inl e, st)
      | Inr _ \<Rightarrow>
          if ha_kind input = TransferReceipt
          then (file_invalid ''A v1 root acquisition cannot imply Transfer lineage.'', st)
          else acquire L F uuid input (legacy_root_id L plan_revision_id) 1 None now st)"

text \<open>The checks of \<^verbatim>\<open>resolve\<close> on the pruned state.\<close>

definition resolve_stored ::
  "lib \<Rightarrow> host_fs \<Rightarrow> ManagedObjectAcquisition \<Rightarrow> int \<Rightarrow> ManagedObjectBindingService \<Rightarrow> file_error + ResolvedManagedArtifact" where
  "resolve_stored L F acquisition now st =
     and_then (validate_binding_ref L (sb_binding_ref (ma_binding acquisition))) (\<lambda>_.
     and_then (ok_or (hm_get (os_bindings st) (sb_binding_ref (ma_binding acquisition)))
       (FileError ''Managed object binding is unavailable.'')) (\<lambda>stored.
     and_then (ensure (\<not> (bd_acquisition stored \<noteq> acquisition
         \<or> mo_host_ref (ma_object acquisition) \<noteq> os_local_host_ref st
         \<or> sb_host_ref (ma_binding acquisition) \<noteq> os_local_host_ref st
         \<or> sb_expires_at (ma_binding acquisition) \<le> now))
       (FileError ''Managed object binding is stale or mismatched.'')) (\<lambda>_.
     and_then (capture_artifact_identity L F (ra_path (bd_artifact stored)) (ra_scope_root (bd_artifact stored))) (\<lambda>observed.
     and_then (ensure (\<not> (observed \<noteq> ra_identity (bd_artifact stored)
         \<or> artifact_byte_count observed \<noteq> ra_size_bytes (bd_artifact stored)))
       (FileError ''Managed object artifact changed after binding.'')) (\<lambda>_.
     Inr (bd_artifact stored))))))"

definition resolve ::
  "lib \<Rightarrow> host_fs \<Rightarrow> ManagedObjectAcquisition \<Rightarrow> int \<Rightarrow> ManagedObjectBindingService
   \<Rightarrow> (file_error + ResolvedManagedArtifact) \<times> ManagedObjectBindingService" where
  "resolve L F acquisition now st =
     (let st = prune_expired now st in (resolve_stored L F acquisition now st, st))"

definition revision_matches :: "string \<Rightarrow> string \<Rightarrow> u64 \<Rightarrow> int \<Rightarrow> ManagedObjectBindingService \<Rightarrow> ManagedObjectAcquisition list" where
  "revision_matches bridge_id logical_object_id revision now st =
     map bd_acquisition (filter (\<lambda>stored. bd_bridge_id stored = Some bridge_id
       \<and> mo_logical_object_id (ma_object (bd_acquisition stored)) = logical_object_id
       \<and> mo_revision (ma_object (bd_acquisition stored)) = revision
       \<and> sb_expires_at (ma_binding (bd_acquisition stored)) > now) (hm_values (os_bindings st)))"

definition acquisition_for_revision ::
  "lib \<Rightarrow> host_fs \<Rightarrow> string \<Rightarrow> string \<Rightarrow> u64 \<Rightarrow> int \<Rightarrow> ManagedObjectBindingService
   \<Rightarrow> (file_error + ManagedObjectAcquisition) \<times> ManagedObjectBindingService" where
  "acquisition_for_revision L F bridge_id logical_object_id revision now st =
     (let st = prune_expired now st in
      case revision_matches bridge_id logical_object_id revision now st of
        [acquisition] \<Rightarrow>
          (case resolve L F acquisition now st of
             (Inl e, st) \<Rightarrow> (Inl e, st)
           | (Inr _, st) \<Rightarrow> (Inr acquisition, st))
      | _ \<Rightarrow> (file_invalid ''Exact managed object revision binding is unavailable or ambiguous.'', st))"

definition purge_bridge :: "string \<Rightarrow> ManagedObjectBindingService \<Rightarrow> nat \<times> ManagedObjectBindingService" where
  "purge_bridge bridge_id st =
     (let st' = retain_claimed_revisions
            (st\<lparr>os_bindings := hm_retain (\<lambda>_ b. bd_bridge_id b \<noteq> Some bridge_id) (os_bindings st)\<rparr>)
      in (length (os_bindings st) - length (os_bindings st'), st'))"

definition purge_all :: "ManagedObjectBindingService \<Rightarrow> nat \<times> ManagedObjectBindingService" where
  "purge_all st = (length (os_bindings st), st\<lparr>os_bindings := [], os_revisions := []\<rparr>)"

definition discard_binding :: "ManagedObjectAcquisition \<Rightarrow> ManagedObjectBindingService \<Rightarrow> ManagedObjectBindingService" where
  "discard_binding acquisition st = retain_claimed_revisions
     (st\<lparr>os_bindings := hm_remove (sb_binding_ref (ma_binding acquisition)) (os_bindings st)\<rparr>)"

section \<open>The invariant\<close>

text \<open>What a stored binding says about itself, and what the service keeps of all bindings: the claims are
  those of the bindings, one per logical revision.\<close>

definition binding_ok :: "HostRef \<Rightarrow> string \<Rightarrow> StoredBinding \<Rightarrow> bool" where
  "binding_ok host ref b \<longleftrightarrow>
     sb_binding_ref (ma_binding (bd_acquisition b)) = ref
     \<and> sb_host_ref (ma_binding (bd_acquisition b)) = host \<and> mo_host_ref (ma_object (bd_acquisition b)) = host
     \<and> (sb_logical_object_id (ma_binding (bd_acquisition b)), sb_revision (ma_binding (bd_acquisition b))) = revision_key b
     \<and> snd (revision_key b) \<noteq> 0
     \<and> mo_size_bytes (ma_object (bd_acquisition b)) = artifact_byte_count (ra_identity (bd_artifact b))
     \<and> ra_size_bytes (bd_artifact b) = artifact_byte_count (ra_identity (bd_artifact b))
     \<and> mo_representation (ma_object (bd_acquisition b)) = representation (ra_identity (bd_artifact b))
     \<and> prefix (ra_scope_root (bd_artifact b)) (ra_path (bd_artifact b))"

definition object_inv :: "ManagedObjectBindingService \<Rightarrow> bool" where
  "object_inv st \<longleftrightarrow> hm_wf (os_bindings st) \<and> hm_wf (os_revisions st)
     \<and> (\<forall>ref b. hm_get (os_bindings st) ref = Some b \<longrightarrow> binding_ok (os_local_host_ref st) ref b
          \<and> hm_get (os_revisions st) (revision_key b) =
              Some (RevisionClaim_of (os_local_host_ref st) (ra_identity (bd_artifact b))))
     \<and> (\<forall>key. hm_get (os_revisions st) key \<noteq> None \<longrightarrow>
          (\<exists>ref b. hm_get (os_bindings st) ref = Some b \<and> revision_key b = key))"

lemma object_invD:
  assumes "object_inv st"
  shows "hm_wf (os_bindings st)" and "hm_wf (os_revisions st)"
    and "hm_get (os_bindings st) ref = Some b \<Longrightarrow> binding_ok (os_local_host_ref st) ref b"
    and "hm_get (os_bindings st) ref = Some b \<Longrightarrow> hm_get (os_revisions st) (revision_key b) =
      Some (RevisionClaim_of (os_local_host_ref st) (ra_identity (bd_artifact b)))"
    and "hm_get (os_revisions st) key \<noteq> None \<Longrightarrow> \<exists>ref b. hm_get (os_bindings st) ref = Some b \<and> revision_key b = key"
  using assms unfolding object_inv_def by blast+

lemma live_keys:
  assumes "hm_wf m"
  shows "key \<in> revision_key ` set (hm_values m) \<longleftrightarrow> (\<exists>ref b. hm_get m ref = Some b \<and> revision_key b = key)"
proof -
  have "b \<in> set (hm_values m) \<longleftrightarrow> (\<exists>ref. hm_get m ref = Some b)" for b
    using hm_get_in_values [of m] hm_pair_get [OF assms] by (fastforce simp: hm_values_def)
  then show ?thesis by blast
qed

lemma get_retained:
  assumes "hm_wf (os_revisions st)" and "hm_wf (os_bindings st)"
  shows "hm_get (os_revisions (retain_claimed_revisions st)) key =
    (if \<exists>ref b. hm_get (os_bindings st) ref = Some b \<and> revision_key b = key then hm_get (os_revisions st) key else None)"
  unfolding retain_claimed_revisions_def
  by (simp add: hm_get_retain [OF assms(1)] live_keys [OF assms(2)] split: option.splits)

lemma retain_fields [simp]:
  "os_bindings (retain_claimed_revisions st) = os_bindings st"
  "os_local_host_ref (retain_claimed_revisions st) = os_local_host_ref st"
  by (simp_all add: retain_claimed_revisions_def)

text \<open>Dropping bindings and then the claims without a binding keeps the invariant.\<close>

lemma object_inv_restrict:
  assumes inv: "object_inv st" and wf: "hm_wf bs"
    and sub: "\<And>ref b. hm_get bs ref = Some b \<Longrightarrow> hm_get (os_bindings st) ref = Some b"
  shows "object_inv (retain_claimed_revisions (st\<lparr>os_bindings := bs\<rparr>))"
proof -
  let ?st = "st\<lparr>os_bindings := bs\<rparr>"
  have wfs: "hm_wf (os_revisions ?st)" "hm_wf (os_bindings ?st)" using object_invD(2) [OF inv] wf by simp_all
  note get = get_retained [OF wfs]
  have rev: "hm_wf (os_revisions (retain_claimed_revisions ?st))"
    using wfs(1) by (simp add: retain_claimed_revisions_def)
  show ?thesis
    unfolding object_inv_def retain_fields
  proof (intro conjI allI impI)
    fix ref b
    assume b: "hm_get (os_bindings ?st) ref = Some b"
    with sub have old: "hm_get (os_bindings st) ref = Some b" by simp
    show "binding_ok (os_local_host_ref ?st) ref b" using object_invD(3) [OF inv old] by simp
    show "hm_get (os_revisions (retain_claimed_revisions ?st)) (revision_key b) =
        Some (RevisionClaim_of (os_local_host_ref ?st) (ra_identity (bd_artifact b)))"
      unfolding get using b object_invD(4) [OF inv old] by auto
  next
    fix key
    assume "hm_get (os_revisions (retain_claimed_revisions ?st)) key \<noteq> None"
    then show "\<exists>ref b. hm_get (os_bindings ?st) ref = Some b \<and> revision_key b = key"
      unfolding get by (meson option.distinct(1))
  qed (use wf rev in simp_all)
qed

lemma get_retain_sub: "hm_wf m \<Longrightarrow> hm_get (hm_retain P m) k = Some v \<Longrightarrow> hm_get m k = Some v"
  by (auto simp: hm_get_retain split: option.splits if_splits)

lemma object_inv_prune: "object_inv st \<Longrightarrow> object_inv (prune_expired now st)"
  unfolding prune_expired_def
  by (rule object_inv_restrict) (auto dest: object_invD(1) intro: get_retain_sub)

lemma object_inv_purge: "object_inv st \<Longrightarrow> object_inv (snd (purge_bridge b st))"
  unfolding purge_bridge_def Let_def snd_conv
  by (rule object_inv_restrict) (auto dest: object_invD(1) intro: get_retain_sub)

lemma object_inv_discard: "object_inv st \<Longrightarrow> object_inv (discard_binding a st)"
  unfolding discard_binding_def
  by (rule object_inv_restrict) (auto dest: object_invD(1) simp: hmap_simps split: if_splits)

lemma object_inv_purge_all: "object_inv (snd (purge_all st))"
  by (simp add: purge_all_def object_inv_def)

lemma object_inv_new: "object_inv (ManagedObjectBindingService_new host)"
  by (simp add: ManagedObjectBindingService_new_def object_inv_def)

lemma acquire_checks_Inr:
  assumes "acquire_checks L F input object_id revision expected now st = Inr (p, scope, identity)"
  shows "revision \<noteq> 0" and "prefix scope p" and "capture_artifact_identity L F p scope = Inr identity"
    and "now < ha_expires_at input" and "ha_expires_at input \<le> now + MAX_BINDING_LIFETIME_SECONDS"
    and "\<And>d. expected = Some d \<Longrightarrow> artifact_digest identity = d"
    and "\<And>existing. hm_get (os_revisions st) (object_id, revision) = Some existing \<Longrightarrow>
      existing = RevisionClaim_of (os_local_host_ref st) identity"
  using assms by (auto simp: acquire_checks_def locate_artifact_def validate_input_def res_simps)

lemma acquire_cases:
  obtains (refused) e where "acquire L F uuid input object_id revision expected now st = (Inl e, prune_expired now st)"
    "acquire_checks L F input object_id revision expected now (prune_expired now st) = Inl e"
  | (bound) p scope identity where
    "acquire_checks L F input object_id revision expected now (prune_expired now st) = Inr (p, scope, identity)"
    "acquire L F uuid input object_id revision expected now st =
      (Inr (bd_acquisition (StoredBinding_of (os_local_host_ref st) input object_id revision uuid p scope identity)),
       (prune_expired now st)\<lparr>os_revisions := hm_insert (object_id, revision)
            (RevisionClaim_of (os_local_host_ref st) identity) (os_revisions (prune_expired now st)),
          os_bindings := hm_insert (MANAGED_BINDING_PREFIX @ uuid)
            (StoredBinding_of (os_local_host_ref st) input object_id revision uuid p scope identity)
            (os_bindings (prune_expired now st))\<rparr>)"
proof (cases "acquire_checks L F input object_id revision expected now (prune_expired now st)")
  case (Inl e)
  then show ?thesis by (intro refused) (simp_all add: acquire_def Let_def)
next
  case (Inr r)
  obtain p scope identity where r: "r = (p, scope, identity)" by (cases r)
  have host: "os_local_host_ref (prune_expired now st) = os_local_host_ref st" by (simp add: prune_expired_def)
  have ref: "sb_binding_ref (ma_binding (bd_acquisition
      (StoredBinding_of h input object_id revision uuid p scope identity))) = MANAGED_BINDING_PREFIX @ uuid" for h
    by (simp add: StoredBinding_of_def)
  show ?thesis
    by (rule bound [of p scope identity]) (use Inr r in \<open>simp_all add: acquire_def Let_def host ref\<close>)
qed

lemma object_inv_bind:
  assumes inv: "object_inv st" and new: "hm_get (os_bindings st) ref = None"
    and ok: "binding_ok (os_local_host_ref st) ref b"
    and claim: "\<And>existing. hm_get (os_revisions st) (revision_key b) = Some existing \<Longrightarrow>
      existing = RevisionClaim_of (os_local_host_ref st) (ra_identity (bd_artifact b))"
  shows "object_inv (st\<lparr>os_revisions := hm_insert (revision_key b)
      (RevisionClaim_of (os_local_host_ref st) (ra_identity (bd_artifact b))) (os_revisions st),
    os_bindings := hm_insert ref b (os_bindings st)\<rparr>)" (is "object_inv ?st")
  unfolding object_inv_def
proof (intro conjI allI impI)
  fix ref' b'
  assume b': "hm_get (os_bindings ?st) ref' = Some b'"
  show "binding_ok (os_local_host_ref ?st) ref' b'"
    using b' ok object_invD(3) [OF inv] by (auto simp: hmap_simps split: if_splits)
  have old: "hm_get (os_revisions st) (revision_key b') =
      Some (RevisionClaim_of (os_local_host_ref st) (ra_identity (bd_artifact b')))" if "ref' \<noteq> ref"
    using b' that object_invD(4) [OF inv] by (simp add: hmap_simps)
  show "hm_get (os_revisions ?st) (revision_key b') =
      Some (RevisionClaim_of (os_local_host_ref ?st) (ra_identity (bd_artifact b')))"
  proof (cases "ref' = ref")
    case True
    with b' show ?thesis by (simp add: hmap_simps)
  next
    case False
    from old [OF False] claim show ?thesis by (cases "revision_key b' = revision_key b") (auto simp: hmap_simps)
  qed
next
  fix key
  assume key: "hm_get (os_revisions ?st) key \<noteq> None"
  show "\<exists>ref' b'. hm_get (os_bindings ?st) ref' = Some b' \<and> revision_key b' = key"
  proof (cases "key = revision_key b")
    case True
    then show ?thesis by (intro exI [of _ ref] exI [of _ b]) (simp add: hmap_simps)
  next
    case False
    with key have "hm_get (os_revisions st) key \<noteq> None" by (simp add: hmap_simps)
    from object_invD(5) [OF inv this] obtain ref' b'
      where "hm_get (os_bindings st) ref' = Some b'" "revision_key b' = key" by blast
    with new show ?thesis by (intro exI [of _ ref'] exI [of _ b']) (auto simp: hmap_simps)
  qed
qed (use object_invD(1,2) [OF inv] in simp_all)

lemma prune_get: "hm_wf (os_bindings st) \<Longrightarrow> hm_get (os_bindings (prune_expired now st)) ref =
    (case hm_get (os_bindings st) ref of None \<Rightarrow> None
     | Some b \<Rightarrow> if sb_expires_at (ma_binding (bd_acquisition b)) > now then Some b else None)"
  by (simp add: prune_expired_def hm_get_retain)

lemma object_inv_acquire:
  assumes inv: "object_inv st" and new: "hm_get (os_bindings st) (MANAGED_BINDING_PREFIX @ uuid) = None"
  shows "object_inv (snd (acquire L F uuid input object_id revision expected now st))"
proof (cases rule: acquire_cases [of L F uuid input object_id revision expected now st])
  case (refused e)
  then show ?thesis by (simp add: object_inv_prune [OF inv])
next
  case (bound p scope identity)
  let ?st = "prune_expired now st"
  let ?b = "StoredBinding_of (os_local_host_ref st) input object_id revision uuid p scope identity"
  note checks = acquire_checks_Inr [OF bound(1)]
  have host: "os_local_host_ref ?st = os_local_host_ref st" by (simp add: prune_expired_def)
  have key: "revision_key ?b = (object_id, revision)" "ra_identity (bd_artifact ?b) = identity"
    by (simp_all add: StoredBinding_of_def revision_key_def)
  have "binding_ok (os_local_host_ref ?st) (MANAGED_BINDING_PREFIX @ uuid) ?b"
    using checks(1,2) by (simp add: binding_ok_def StoredBinding_of_def revision_key_def host)
  moreover have "hm_get (os_bindings ?st) (MANAGED_BINDING_PREFIX @ uuid) = None"
    using new object_invD(1) [OF inv] by (simp add: prune_get)
  ultimately show ?thesis
    using object_inv_bind [OF object_inv_prune [OF inv, of now], of _ ?b] checks(7) unfolding bound(2) key host by simp
qed

section \<open>Runs of the service\<close>

text \<open>One call of the service, with any file system, time and input; a drawn UUID is one that no live binding
  has.\<close>

inductive object_step :: "lib \<Rightarrow> ManagedObjectBindingService \<Rightarrow> ManagedObjectBindingService \<Rightarrow> bool" for L where
  step_new: "hm_get (os_bindings st) (MANAGED_BINDING_PREFIX @ uuid) = None \<Longrightarrow>
    object_step L st (snd (acquire_new L F object_uuid uuid input now st))"
| step_search: "hm_get (os_bindings st) (MANAGED_BINDING_PREFIX @ uuid) = None \<Longrightarrow>
    object_step L st (snd (bind_authored_search_revision L F uuid input object_id revision now st))"
| step_transferred: "hm_get (os_bindings st) (MANAGED_BINDING_PREFIX @ uuid) = None \<Longrightarrow>
    object_step L st (snd (bind_transferred_revision L F uuid input object_id revision digest now st))"
| step_transform: "hm_get (os_bindings st) (MANAGED_BINDING_PREFIX @ uuid) = None \<Longrightarrow>
    object_step L st (snd (register_core_transform_revision L F uuid input object_id revision digest now st))"
| step_legacy: "hm_get (os_bindings st) (MANAGED_BINDING_PREFIX @ uuid) = None \<Longrightarrow>
    object_step L st (snd (acquire_legacy_v1_root L F uuid input plan_revision_id now st))"
| step_resolve: "object_step L st (snd (resolve L F acquisition now st))"
| step_lookup: "object_step L st (snd (acquisition_for_revision L F bridge_id object_id revision now st))"
| step_purge: "object_step L st (snd (purge_bridge bridge_id st))"
| step_purge_all: "object_step L st (snd (purge_all st))"
| step_discard: "object_step L st (discard_binding acquisition st)"

definition object_init :: "ManagedObjectBindingService \<Rightarrow> bool" where
  "object_init st \<longleftrightarrow> (\<exists>host. st = ManagedObjectBindingService_new host)"

lemma object_inv_lookup: "object_inv st \<Longrightarrow> object_inv (snd (acquisition_for_revision L F b o_id r now st))"
  by (auto simp: acquisition_for_revision_def resolve_def Let_def object_inv_prune split: list.split sum.split)

lemma object_inv_step: "object_inv st \<Longrightarrow> object_step L st st' \<Longrightarrow> object_inv st'"
  by (erule object_step.cases)
    (auto simp: acquire_new_def bind_authored_search_revision_def bind_transferred_revision_def
      register_core_transform_revision_def acquire_legacy_v1_root_def resolve_def Let_def
      object_inv_acquire object_inv_prune object_inv_purge object_inv_purge_all object_inv_discard
      object_inv_lookup split: sum.split)

interpretation managed: guarded_machine object_init "object_step L" object_inv for L
  by unfold_locales (auto simp: object_init_def object_inv_new intro: object_inv_step)

text \<open>C39. In every state the service can reach, the claims are exactly the logical revisions of the live
  bindings, every binding is one of this Host with consistent identity fields and a positive revision, and
  two live bindings of the same logical revision always have the same content digest, size and
  representation: a revision never denotes two different contents.\<close>

theorem managed_revision_unambiguous:
  assumes "rtranclp (object_step L) (ManagedObjectBindingService_new host) st"
  shows "(\<forall>key. hm_contains (os_revisions st) key \<longleftrightarrow>
      (\<exists>ref b. hm_get (os_bindings st) ref = Some b \<and> revision_key b = key))
    \<and> (\<forall>ref b. hm_get (os_bindings st) ref = Some b \<longrightarrow> binding_ok (os_local_host_ref st) ref b)
    \<and> (\<forall>ref a ref' b. hm_get (os_bindings st) ref = Some a \<and> hm_get (os_bindings st) ref' = Some b
        \<and> revision_key a = revision_key b \<longrightarrow>
        artifact_digest (ra_identity (bd_artifact a)) = artifact_digest (ra_identity (bd_artifact b))
        \<and> artifact_byte_count (ra_identity (bd_artifact a)) = artifact_byte_count (ra_identity (bd_artifact b))
        \<and> representation (ra_identity (bd_artifact a)) = representation (ra_identity (bd_artifact b)))"
proof -
  have "object_init (ManagedObjectBindingService_new host)" by (auto simp: object_init_def)
  from managed.inv_reachable [OF this assms] have inv: "object_inv st" .
  note facts = object_invD [OF inv]
  show ?thesis
  proof (intro conjI allI impI)
    show "hm_contains (os_revisions st) key \<longleftrightarrow> (\<exists>ref b. hm_get (os_bindings st) ref = Some b \<and> revision_key b = key)" for key
      unfolding hm_contains_iff using facts(4,5) by (metis option.distinct(1))
  next
    fix ref a ref' b
    assume "hm_get (os_bindings st) ref = Some a \<and> hm_get (os_bindings st) ref' = Some b \<and> revision_key a = revision_key b"
    then have "RevisionClaim_of (os_local_host_ref st) (ra_identity (bd_artifact a)) =
        RevisionClaim_of (os_local_host_ref st) (ra_identity (bd_artifact b))"
      using facts(4) by (metis option.inject)
    then show "artifact_digest (ra_identity (bd_artifact a)) = artifact_digest (ra_identity (bd_artifact b))"
      and "artifact_byte_count (ra_identity (bd_artifact a)) = artifact_byte_count (ra_identity (bd_artifact b))"
      and "representation (ra_identity (bd_artifact a)) = representation (ra_identity (bd_artifact b))"
      by (simp_all add: RevisionClaim_of_def)
  qed (use facts(3) in blast)
qed

lemma reachable_inv:
  assumes "rtranclp (object_step L) (ManagedObjectBindingService_new host) st"
  shows "object_inv st"
  by (rule managed.inv_reachable [OF _ assms]) (auto simp: object_init_def)

lemma resolve_Inr:
  assumes "object_inv st"
  shows "fst (resolve L F acquisition now st) = Inr artifact \<longleftrightarrow>
    validate_binding_ref L (sb_binding_ref (ma_binding acquisition)) = Inr ()
    \<and> (\<exists>stored. hm_get (os_bindings st) (sb_binding_ref (ma_binding acquisition)) = Some stored
        \<and> bd_acquisition stored = acquisition \<and> bd_artifact stored = artifact)
    \<and> now < sb_expires_at (ma_binding acquisition)
    \<and> capture_artifact_identity L F (ra_path artifact) (ra_scope_root artifact) = Inr (ra_identity artifact)"
proof -
  have host: "os_local_host_ref (prune_expired now st) = os_local_host_ref st" by (simp add: prune_expired_def)
  have get: "hm_get (os_bindings (prune_expired now st)) ref = Some b \<longleftrightarrow>
      hm_get (os_bindings st) ref = Some b \<and> now < sb_expires_at (ma_binding (bd_acquisition b))" for ref b
    using object_invD(1) [OF assms] by (auto simp: prune_get split: option.splits if_splits)
  have ok: "mo_host_ref (ma_object (bd_acquisition b)) = os_local_host_ref st"
      "sb_host_ref (ma_binding (bd_acquisition b)) = os_local_host_ref st"
      "ra_size_bytes (bd_artifact b) = artifact_byte_count (ra_identity (bd_artifact b))"
    if "hm_get (os_bindings st) ref = Some b" for ref b
    using object_invD(3) [OF assms that] by (simp_all add: binding_ok_def)
  show ?thesis
    unfolding resolve_def Let_def fst_conv resolve_stored_def
    using ok by (auto simp: res_simps get host)
qed

text \<open>Resolving an acquisition succeeds exactly when its binding is stored unchanged, has not expired, and
  the artifact at its place still has the identity it was bound with, fingerprint, length and digest; what is
  returned is the artifact of that binding. A forged, expired or substituted acquisition and a changed file
  are all refused.\<close>

theorem resolve_exact:
  assumes "rtranclp (object_step L) (ManagedObjectBindingService_new host) st"
  shows "fst (resolve L F acquisition now st) = Inr artifact \<longleftrightarrow>
    validate_binding_ref L (sb_binding_ref (ma_binding acquisition)) = Inr ()
    \<and> (\<exists>stored. hm_get (os_bindings st) (sb_binding_ref (ma_binding acquisition)) = Some stored
        \<and> bd_acquisition stored = acquisition \<and> bd_artifact stored = artifact)
    \<and> now < sb_expires_at (ma_binding acquisition)
    \<and> capture_artifact_identity L F (ra_path artifact) (ra_scope_root artifact) = Inr (ra_identity artifact)"
  by (rule resolve_Inr [OF reachable_inv [OF assms]])

lemma prune_claims:
  assumes "object_inv st" and "hm_get (os_revisions (prune_expired now st)) key = Some c"
  shows "hm_get (os_revisions st) key = Some c"
proof -
  let ?bs = "hm_retain (\<lambda>_ b. sb_expires_at (ma_binding (bd_acquisition b)) > now) (os_bindings st)"
  have "hm_wf (os_revisions (st\<lparr>os_bindings := ?bs\<rparr>))" "hm_wf (os_bindings (st\<lparr>os_bindings := ?bs\<rparr>))"
    using object_invD(1,2) [OF assms(1)] by simp_all
  from assms(2) [unfolded prune_expired_def get_retained [OF this]] show ?thesis by (simp split: if_splits)
qed

lemma acquire_claims:
  assumes "object_inv st" and "hm_get (os_revisions (snd (acquire L F uuid input o_id r expected now st))) key = Some c"
  shows "hm_get (os_revisions st) key = Some c \<or> key = (o_id, r) \<and> (\<forall>d. expected = Some d \<longrightarrow> rc_content_digest c = d)"
proof (cases rule: acquire_cases [of L F uuid input o_id r expected now st])
  case (refused e)
  with assms(2) prune_claims [OF assms(1)] show ?thesis by simp
next
  case (bound p scope identity)
  note checks = acquire_checks_Inr [OF bound(1)]
  from assms(2) bound(2) prune_claims [OF assms(1)] checks(6) show ?thesis
    by (auto simp: hmap_simps RevisionClaim_of_def split: if_splits)
qed

lemma restricted_claims:
  assumes "object_inv st" and "hm_wf bs" and "hm_get (os_revisions (retain_claimed_revisions (st\<lparr>os_bindings := bs\<rparr>))) key = Some c"
  shows "hm_get (os_revisions st) key = Some c"
proof -
  have "hm_wf (os_revisions (st\<lparr>os_bindings := bs\<rparr>))" "hm_wf (os_bindings (st\<lparr>os_bindings := bs\<rparr>))"
    using object_invD(2) [OF assms(1)] assms(2) by simp_all
  from assms(3) [unfolded get_retained [OF this]] show ?thesis by (simp split: if_splits)
qed

text \<open>The calls that only look up or remove add no claim.\<close>

lemma removal_claims:
  assumes "object_inv st"
  shows "hm_get (os_revisions (snd (purge_bridge b st))) key = Some c \<Longrightarrow> hm_get (os_revisions st) key = Some c"
    and "hm_get (os_revisions (discard_binding a st)) key = Some c \<Longrightarrow> hm_get (os_revisions st) key = Some c"
    and "hm_get (os_revisions (snd (purge_all st))) key = Some c \<Longrightarrow> hm_get (os_revisions st) key = Some c"
    and "hm_get (os_revisions (snd (resolve L F acq now st))) key = Some c \<Longrightarrow> hm_get (os_revisions st) key = Some c"
    and "hm_get (os_revisions (snd (acquisition_for_revision L F b o_id r now st))) key = Some c \<Longrightarrow> hm_get (os_revisions st) key = Some c"
proof -
  note wf = object_invD(1) [OF assms]
  show "hm_get (os_revisions (snd (purge_bridge b st))) key = Some c \<Longrightarrow> hm_get (os_revisions st) key = Some c"
    unfolding purge_bridge_def Let_def snd_conv by (rule restricted_claims [OF assms]) (simp_all add: wf)
  show "hm_get (os_revisions (discard_binding a st)) key = Some c \<Longrightarrow> hm_get (os_revisions st) key = Some c"
    unfolding discard_binding_def by (rule restricted_claims [OF assms]) (simp_all add: wf)
  show "hm_get (os_revisions (snd (resolve L F acq now st))) key = Some c \<Longrightarrow> hm_get (os_revisions st) key = Some c"
    by (simp add: resolve_def Let_def prune_claims [OF assms])
  show "hm_get (os_revisions (snd (acquisition_for_revision L F b o_id r now st))) key = Some c \<Longrightarrow> hm_get (os_revisions st) key = Some c"
    by (auto simp: acquisition_for_revision_def resolve_def Let_def split: list.splits sum.splits
      dest!: prune_claims [OF object_inv_prune [OF assms]] intro: prune_claims [OF assms])
qed (simp add: purge_all_def)

text \<open>C40. Where revisions come from: a call that adds the claim of a revision above 1 is either a Core Transform
  registration, for which the preceding revision was claimed on this Host, or the binding of a Transfer
  receipt; both only with the content digest that Core expected. No other call adds such a revision.\<close>

theorem later_revision_origin:
  assumes "rtranclp (object_step L) (ManagedObjectBindingService_new host) st" and "object_step L st st'"
    and "hm_get (os_revisions st) (o_id, n) = None" and "hm_get (os_revisions st') (o_id, n) = Some claim" and "n \<noteq> 1"
  shows "(\<exists>F uuid input now. st' = snd (register_core_transform_revision L F uuid input o_id n (rc_content_digest claim) now st)
      \<and> ha_kind input = GeneratedArtifact \<and> hm_contains (os_revisions st) (o_id, n - 1))
    \<or> (\<exists>F uuid input now. st' = snd (bind_transferred_revision L F uuid input o_id n (rc_content_digest claim) now st)
      \<and> ha_kind input = TransferReceipt)"
proof -
  note inv = reachable_inv [OF assms(1)]
  note claims = acquire_claims [OF inv] removal_claims [OF inv]
  from assms(2) show ?thesis
  proof cases
    case (step_new uuid F object_uuid input now)
    with assms(3-5) claims(1) show ?thesis by (fastforce simp: acquire_new_def split: if_splits)
  next
    case (step_search uuid F input object_id revision now)
    with assms(3-5) claims(1) show ?thesis
      by (fastforce simp: bind_authored_search_revision_def split: if_splits sum.splits)
  next
    case (step_transferred uuid F input object_id revision digest now)
    with assms(3,4) claims(1) [of L F uuid input object_id revision "Some digest" now "(o_id, n)" claim]
    have "object_id = o_id \<and> revision = n \<and> digest = rc_content_digest claim \<and> ha_kind input = TransferReceipt"
      by (auto simp: bind_transferred_revision_def split: if_splits sum.splits)
    with step_transferred(1) show ?thesis by blast
  next
    case (step_transform uuid F input object_id revision digest now)
    with assms(3,4) claims(1) [of L F uuid input object_id revision "Some digest" now "(o_id, n)" claim]
    have "object_id = o_id \<and> revision = n \<and> digest = rc_content_digest claim \<and> ha_kind input = GeneratedArtifact
        \<and> hm_contains (os_revisions st) (o_id, n - 1)"
      by (auto simp: register_core_transform_revision_def split: if_splits sum.splits)
    with step_transform(1) show ?thesis by blast
  next
    case (step_legacy uuid F input plan_revision_id now)
    with assms(3-5) claims(1) show ?thesis
      by (fastforce simp: acquire_legacy_v1_root_def split: if_splits sum.splits)
  qed (use assms(3,4) claims in \<open>auto\<close>)
qed

lemma retain_split: "length (hm_retain P m) + length (hm_retain (\<lambda>k v. \<not> P k v) m) = length m"
  by (induction m) (auto simp: hm_retain_def)

text \<open>Purging a Bridge removes exactly the bindings of that Bridge, reports how many they were, leaves every
  other binding as it is, keeps exactly the claims that still have a binding, and afterwards no revision can
  be looked up for that Bridge, whatever the file system and the time.\<close>

theorem purge_bridge_exact:
  assumes "rtranclp (object_step L) (ManagedObjectBindingService_new host) st" and "purge_bridge bridge st = (removed, st')"
  shows "hm_get (os_bindings st') ref = (case hm_get (os_bindings st) ref of None \<Rightarrow> None
      | Some b \<Rightarrow> if bd_bridge_id b = Some bridge then None else Some b)
    \<and> removed = length (filter (\<lambda>b. bd_bridge_id b = Some bridge) (hm_values (os_bindings st)))
    \<and> (hm_contains (os_revisions st') key \<longleftrightarrow> (\<exists>ref b. hm_get (os_bindings st') ref = Some b \<and> revision_key b = key))
    \<and> (\<exists>e. fst (acquisition_for_revision L F bridge o_id r now st') = Inl e)"
proof -
  note inv = reachable_inv [OF assms(1)]
  let ?P = "\<lambda>_ b. bd_bridge_id b \<noteq> Some bridge"
  have st': "os_bindings st' = hm_retain ?P (os_bindings st)"
    and removed: "removed = length (os_bindings st) - length (os_bindings st')"
    using assms(2) by (auto simp: purge_bridge_def Let_def)
  have inv': "object_inv st'" using object_inv_purge [OF inv, of bridge] assms(2) by simp
  have "length (hm_retain (\<lambda>k b. \<not> ?P k b) (os_bindings st)) = length (filter (\<lambda>b. bd_bridge_id b = Some bridge) (hm_values (os_bindings st)))"
    by (simp add: hm_retain_def hm_values_def filter_map comp_def case_prod_unfold)
  with removed retain_split [of ?P "os_bindings st"]
  have "removed = length (filter (\<lambda>b. bd_bridge_id b = Some bridge) (hm_values (os_bindings st)))"
    unfolding st' by linarith
  moreover have "hm_get (os_bindings st') ref = (case hm_get (os_bindings st) ref of None \<Rightarrow> None
      | Some b \<Rightarrow> if bd_bridge_id b = Some bridge then None else Some b)"
    unfolding st' using object_invD(1) [OF inv] by (auto simp: hm_get_retain split: option.split)
  moreover have "hm_contains (os_revisions st') key \<longleftrightarrow> (\<exists>ref b. hm_get (os_bindings st') ref = Some b \<and> revision_key b = key)"
    unfolding hm_contains_iff using object_invD(4,5) [OF inv'] by (metis option.distinct(1))
  moreover have "revision_matches bridge o_id r now (prune_expired now st') = []"
    by (auto simp: revision_matches_def prune_expired_def st' hm_values_def hm_retain_def)
  then have "\<exists>e. fst (acquisition_for_revision L F bridge o_id r now st') = Inl e"
    by (simp add: acquisition_for_revision_def Let_def)
  ultimately show ?thesis by blast
qed

section \<open>Examples\<close>

definition ex_scope_path :: path where "ex_scope_path = [RootDir, Normal ''s'']"
definition ex_path :: path where "ex_path = [RootDir, Normal ''s'', Normal ''f'']"

definition ex_fs :: host_fs where
  "ex_fs = \<lparr>hf_canonical = Some, hf_node = (\<lambda>p.
     if p = ex_scope_path then Some (DirNode [(''f'', FileNode (ex_file 7 [[1]]))])
     else if p = ex_path then Some (FileNode (ex_file 7 [[1]])) else None)\<rparr>"

definition ex_input :: "ManagedObjectAcquisitionKind \<Rightarrow> int \<Rightarrow> HostArtifactAcquisition" where
  "ex_input kind expires = \<lparr>ha_kind = kind, ha_source_ref = ''source'', ha_bridge_id = Some ''bridge'',
     ha_path = ex_path, ha_scope_root = ex_scope_path, ha_display_name = ''f'', ha_media_type = ''text/plain'',
     ha_expires_at = expires, ha_app_owned_temporary = False\<rparr>"

definition ex_uuid :: "char \<Rightarrow> string" where "ex_uuid c = replicate 36 c"

definition ex_object :: string where "ex_object = MANAGED_OBJECT_PREFIX @ ex_uuid CHR ''a''"

definition ex_content :: ManagedArtifactIdentityV1 where
  "ex_content = FileIdentity (file_identity ex_lib (ex_file 7 [[1]]))"

definition ex_stored :: "ManagedObjectAcquisitionKind \<Rightarrow> int \<Rightarrow> u64 \<Rightarrow> char \<Rightarrow> StoredBinding" where
  "ex_stored kind expires revision c =
     StoredBinding_of ''host'' (ex_input kind expires) ex_object revision (ex_uuid c) ex_path ex_scope_path ex_content"

definition ex_bound :: ManagedObjectBindingService where
  "ex_bound = \<lparr>os_local_host_ref = ''host'',
     os_bindings = [(MANAGED_BINDING_PREFIX @ ex_uuid CHR ''b'', ex_stored LocalSelection 10 1 CHR ''b'')],
     os_revisions = [((ex_object, 1), RevisionClaim_of ''host'' ex_content)]\<rparr>"

lemma ex_capture_artifact: "capture_artifact_identity ex_lib ex_fs ex_path ex_scope_path = Inr ex_content"
proof -
  have "open_regular_source ex_scope_path (DirNode [(''f'', FileNode (ex_file 7 [[1]]))]) ex_path = Inr (ex_file 7 [[1]])"
    by (simp add: open_regular_source_def strip_path_def ex_scope_path_def ex_path_def source_fingerprint_def)
      (simp add: ex_file_def ex_fingerprint_def)
  moreover have "length (of_bytes (ex_file 7 [[1]])) \<le> unat MAX_FILE_SIZE_BYTES"
    by (simp add: ex_of_bytes MAX_FILE_SIZE_BYTES_def)
  ultimately have "capture_source_identity ex_lib ex_scope_path (DirNode [(''f'', FileNode (ex_file 7 [[1]]))]) ex_path
      MAX_FILE_SIZE_BYTES = Inr (file_identity ex_lib (ex_file 7 [[1]]))"
    using ex_stable [of "[[1]]" 7] by (subst capture_source_identity_Inr) auto
  moreover have "ex_path \<noteq> ex_scope_path" by (simp add: ex_path_def ex_scope_path_def)
  ultimately show ?thesis
    by (simp add: capture_artifact_identity_def ex_fs_def map_ok_def ex_content_def)
qed

lemma ex_checks:
  assumes "now < expires" and "expires \<le> now + 3600" and "revision \<noteq> 0"
    and "\<forall>d. expected = Some d \<longrightarrow> d = artifact_digest ex_content"
    and "\<forall>c. hm_get (os_revisions st) (ex_object, revision) = Some c \<longrightarrow> c = RevisionClaim_of (os_local_host_ref st) ex_content"
  shows "acquire_checks ex_lib ex_fs (ex_input kind expires) ex_object revision expected now st
    = Inr (ex_path, ex_scope_path, ex_content)"
proof -
  have "validate_input (ex_input kind expires) now = Inr ()"
    using assms(1,2) by (simp add: validate_input_def validate_token_def ex_input_def contains_char_def
      MAX_TEXT_def MAX_BINDING_LIFETIME_SECONDS_def starts_with_def to_ascii_lowercase_def ascii_lower_def
      trim_def ws1_def ws2_def ws3_def)
  moreover have "validate_managed_object_id ex_lib ex_object = Inr ()"
    by (simp add: validate_managed_object_id_def ex_object_def strip_prefix_def ex_lib_def plain_lib_def ex_uuid_def)
  moreover have "locate_artifact ex_lib ex_fs (ex_input kind expires) = Inr (ex_path, ex_scope_path, ex_content)"
    using ex_capture_artifact
    by (simp add: locate_artifact_def ex_input_def ex_fs_def) (simp add: ex_path_def ex_scope_path_def)
  ultimately show ?thesis
    using assms(3-5) by (auto simp: acquire_checks_def split: option.splits)
qed

lemma ex_acquire_new:
  "acquire_new ex_lib ex_fs (ex_uuid CHR ''a'') (ex_uuid CHR ''b'') (ex_input LocalSelection 10) 0
     (ManagedObjectBindingService_new ''host'') = (Inr (bd_acquisition (ex_stored LocalSelection 10 1 CHR ''b'')), ex_bound)"
proof -
  let ?new = "ManagedObjectBindingService_new ''host''"
  have new: "prune_expired 0 ?new = ?new"
    by (simp add: prune_expired_def ManagedObjectBindingService_new_def retain_claimed_revisions_def hm_retain_def)
  have checks: "acquire_checks ex_lib ex_fs (ex_input LocalSelection 10) ex_object 1 None 0 ?new
      = Inr (ex_path, ex_scope_path, ex_content)"
    by (rule ex_checks) (simp_all add: ManagedObjectBindingService_new_def)
  have obj: "MANAGED_OBJECT_PREFIX @ ex_uuid CHR ''a'' = ex_object" by (simp add: ex_object_def)
  have kind: "ha_kind (ex_input LocalSelection 10) \<noteq> TransferReceipt" by (simp add: ex_input_def)
  show ?thesis
    unfolding acquire_new_def obj acquire_def Let_def new checks
    using kind by (simp add: ex_bound_def ex_stored_def ManagedObjectBindingService_new_def hm_insert_def)
      (simp add: StoredBinding_of_def)
qed

lemma ex_bound_reached: "rtranclp (object_step ex_lib) (ManagedObjectBindingService_new ''host'') ex_bound"
proof -
  have "object_step ex_lib (ManagedObjectBindingService_new ''host'')
      (snd (acquire_new ex_lib ex_fs (ex_uuid CHR ''a'') (ex_uuid CHR ''b'') (ex_input LocalSelection 10) 0
        (ManagedObjectBindingService_new ''host'')))"
    by (rule object_step.step_new) (simp add: ManagedObjectBindingService_new_def)
  then show ?thesis unfolding ex_acquire_new by simp
qed

lemma ex_bound_get [simp]:
  "hm_get (os_bindings ex_bound) (MANAGED_BINDING_PREFIX @ ex_uuid CHR ''b'') = Some (ex_stored LocalSelection 10 1 CHR ''b'')"
  "os_local_host_ref ex_bound = ''host''"
  by (simp_all add: ex_bound_def hm_get_def)

lemma ex_stored_fields [simp]:
  "sb_binding_ref (ma_binding (bd_acquisition (ex_stored k e r c))) = MANAGED_BINDING_PREFIX @ ex_uuid c"
  "sb_expires_at (ma_binding (bd_acquisition (ex_stored k e r c))) = e"
  "revision_key (ex_stored k e r c) = (ex_object, r)"
  "bd_bridge_id (ex_stored k e r c) = Some ''bridge''"
  "ra_path (bd_artifact (ex_stored k e r c)) = ex_path" "ra_scope_root (bd_artifact (ex_stored k e r c)) = ex_scope_path"
  "ra_identity (bd_artifact (ex_stored k e r c)) = ex_content"
  by (simp_all add: ex_stored_def StoredBinding_of_def revision_key_def ex_input_def)

theorem managed_revision_unambiguous_witness:
  "hm_contains (os_revisions ex_bound) (ex_object, 1)
   \<and> binding_ok ''host'' (MANAGED_BINDING_PREFIX @ ex_uuid CHR ''b'') (ex_stored LocalSelection 10 1 CHR ''b'')"
proof -
  note facts = managed_revision_unambiguous [OF ex_bound_reached]
  have "\<exists>ref b. hm_get (os_bindings ex_bound) ref = Some b \<and> revision_key b = (ex_object, 1)"
    by (intro exI [of _ "MANAGED_BINDING_PREFIX @ ex_uuid CHR ''b''"]) simp
  with facts have "hm_contains (os_revisions ex_bound) (ex_object, 1)" by blast
  moreover from facts have "binding_ok (os_local_host_ref ex_bound) (MANAGED_BINDING_PREFIX @ ex_uuid CHR ''b'')
      (ex_stored LocalSelection 10 1 CHR ''b'')"
    using ex_bound_get(1) by blast
  ultimately show ?thesis by simp
qed

text \<open>The bound file resolves until it expires.\<close>

theorem resolve_exact_witness:
  "fst (resolve ex_lib ex_fs (bd_acquisition (ex_stored LocalSelection 10 1 CHR ''b'')) 9 ex_bound)
     = Inr (bd_artifact (ex_stored LocalSelection 10 1 CHR ''b''))
   \<and> fst (resolve ex_lib ex_fs (bd_acquisition (ex_stored LocalSelection 10 1 CHR ''b'')) 10 ex_bound)
     \<noteq> Inr (bd_artifact (ex_stored LocalSelection 10 1 CHR ''b''))"
proof -
  have "validate_binding_ref ex_lib (MANAGED_BINDING_PREFIX @ ex_uuid CHR ''b'') = Inr ()"
    by (simp add: validate_binding_ref_def strip_prefix_def ex_lib_def plain_lib_def ex_uuid_def)
  then show ?thesis
    unfolding resolve_exact [OF ex_bound_reached] by (simp add: ex_capture_artifact)
qed

theorem purge_bridge_exact_witness:
  "hm_get (os_bindings (snd (purge_bridge ''bridge'' ex_bound))) (MANAGED_BINDING_PREFIX @ ex_uuid CHR ''b'') = None
   \<and> fst (purge_bridge ''bridge'' ex_bound) = 1"
proof -
  have split: "purge_bridge ''bridge'' ex_bound = (fst (purge_bridge ''bridge'' ex_bound), snd (purge_bridge ''bridge'' ex_bound))"
    by simp
  have "hm_values (os_bindings ex_bound) = [ex_stored LocalSelection 10 1 CHR ''b'']"
    by (simp add: ex_bound_def hm_values_def)
  then show ?thesis
    using purge_bridge_exact [OF ex_bound_reached split, of "MANAGED_BINDING_PREFIX @ ex_uuid CHR ''b''"] by simp
qed

definition ex_digest :: string where "ex_digest = artifact_digest ex_content"

lemma ex_register:
  assumes "now < 30" and "30 \<le> now + 3600"
  shows "\<exists>acquisition st'. register_core_transform_revision ex_lib ex_fs (ex_uuid CHR ''c'') (ex_input GeneratedArtifact 30)
      ex_object 2 ex_digest now ex_bound = (Inr acquisition, st')
    \<and> hm_get (os_revisions st') (ex_object, 2) = Some (RevisionClaim_of ''host'' ex_content)"
proof -
  have revs: "hm_contains (os_revisions ex_bound) (ex_object, 1)" "\<not> hm_contains (os_revisions ex_bound) (ex_object, 2)"
      "hm_get (os_revisions (prune_expired now ex_bound)) (ex_object, 2) = None"
    by (simp_all add: ex_bound_def hm_contains_def hm_get_def prune_expired_def retain_claimed_revisions_def hm_retain_def)
  have host: "os_local_host_ref (prune_expired now ex_bound) = ''host''" by (simp add: prune_expired_def)
  have checks: "acquire_checks ex_lib ex_fs (ex_input GeneratedArtifact 30) ex_object 2 (Some ex_digest) now
      (prune_expired now ex_bound) = Inr (ex_path, ex_scope_path, ex_content)"
    by (rule ex_checks) (simp_all add: assms ex_digest_def revs(3))
  have "validate_managed_object_id ex_lib ex_object = Inr ()"
    by (simp add: validate_managed_object_id_def ex_object_def strip_prefix_def ex_lib_def plain_lib_def ex_uuid_def)
  moreover have "ha_kind (ex_input GeneratedArtifact 30) = GeneratedArtifact" by (simp add: ex_input_def)
  ultimately show ?thesis
    using revs(1,2) by (simp add: register_core_transform_revision_def acquire_def Let_def checks host hmap_simps)
qed

theorem later_revision_origin_witness:
  "\<exists>st'. hm_get (os_revisions st') (ex_object, 2) = Some (RevisionClaim_of ''host'' ex_content)
   \<and> ((\<exists>F uuid input now. st' = snd (register_core_transform_revision ex_lib F uuid input ex_object 2 ex_digest now ex_bound)
        \<and> ha_kind input = GeneratedArtifact \<and> hm_contains (os_revisions ex_bound) (ex_object, 2 - 1))
      \<or> (\<exists>F uuid input now. st' = snd (bind_transferred_revision ex_lib F uuid input ex_object 2 ex_digest now ex_bound)
        \<and> ha_kind input = TransferReceipt))"
proof -
  obtain acquisition st' where reg: "register_core_transform_revision ex_lib ex_fs (ex_uuid CHR ''c'')
      (ex_input GeneratedArtifact 30) ex_object 2 ex_digest 5 ex_bound = (Inr acquisition, st')"
    and claim: "hm_get (os_revisions st') (ex_object, 2) = Some (RevisionClaim_of ''host'' ex_content)"
    using ex_register [of 5] by auto
  have "object_step ex_lib ex_bound (snd (register_core_transform_revision ex_lib ex_fs (ex_uuid CHR ''c'')
      (ex_input GeneratedArtifact 30) ex_object 2 ex_digest 5 ex_bound))"
    by (rule object_step.step_transform) (simp add: ex_bound_def hm_get_def ex_uuid_def)
  then have step: "object_step ex_lib ex_bound st'" by (simp add: reg)
  have none: "hm_get (os_revisions ex_bound) (ex_object, 2) = None" by (simp add: ex_bound_def hm_get_def)
  have digest: "rc_content_digest (RevisionClaim_of ''host'' ex_content) = ex_digest"
    by (simp add: RevisionClaim_of_def ex_digest_def)
  have "(2 :: u64) \<noteq> 1" by simp
  from conjI [OF claim later_revision_origin [OF ex_bound_reached step none claim this, unfolded digest]]
  show ?thesis by (rule exI)
qed

text \<open>The lineage check of a Core Transform runs before expired bindings are pruned: in a reachable state
  whose only binding of revision 1 expired at time 10, revision 2 is registered at time 20, although the same
  call is refused for want of a prior revision as soon as any other call has pruned the state at that time.\<close>

theorem transform_lineage_sees_expired_revision:
  "rtranclp (object_step ex_lib) (ManagedObjectBindingService_new ''host'') ex_bound
   \<and> is_ok (fst (register_core_transform_revision ex_lib ex_fs (ex_uuid CHR ''c'') (ex_input GeneratedArtifact 30)
       ex_object 2 ex_digest 20 ex_bound))
   \<and> fst (register_core_transform_revision ex_lib ex_fs (ex_uuid CHR ''c'') (ex_input GeneratedArtifact 30)
       ex_object 2 ex_digest 20 (prune_expired 20 ex_bound))
     = file_invalid ''Core Transform lineage has no exact prior revision on this Host.''"
proof (intro conjI)
  show "is_ok (fst (register_core_transform_revision ex_lib ex_fs (ex_uuid CHR ''c'') (ex_input GeneratedArtifact 30)
       ex_object 2 ex_digest 20 ex_bound))"
    using ex_register [of 20] by (auto simp: is_ok_iff)
  have "validate_managed_object_id ex_lib ex_object = Inr ()"
    by (simp add: validate_managed_object_id_def ex_object_def strip_prefix_def ex_lib_def plain_lib_def ex_uuid_def)
  moreover have "\<not> hm_contains (os_revisions (prune_expired 20 ex_bound)) (ex_object, 1)"
    by (simp add: ex_bound_def hm_contains_def hm_get_def prune_expired_def retain_claimed_revisions_def hm_retain_def hm_values_def)
  ultimately show "fst (register_core_transform_revision ex_lib ex_fs (ex_uuid CHR ''c'') (ex_input GeneratedArtifact 30)
       ex_object 2 ex_digest 20 (prune_expired 20 ex_bound))
     = file_invalid ''Core Transform lineage has no exact prior revision on this Host.''"
    by (simp add: register_core_transform_revision_def ex_input_def)
qed (rule ex_bound_reached)

end
