(* ===== verification/Canonical_Json.thy ===== *)
theory Canonical_Json
  imports Third_Party
begin

text \<open>
  The canonical JSON text that Plan revisions are hashed over, \<^verbatim>\<open>canonical_json\<close> of
  \<^verbatim>\<open>src-tauri/src/bridge_plan_v2.rs\<close>: no white space, object keys in ascending order, strings as
  \<^verbatim>\<open>serde_json\<close> prints them, integers in decimal.

  The text does not depend on the order in which an object lists its keys, and two values have the same
  text exactly when they are equal up to that order.
\<close>

section \<open>Decimal integers\<close>

definition digit :: "nat \<Rightarrow> char" where
  "digit n = char_of (48 + n)"

fun dec :: "nat \<Rightarrow> string" where
  "dec n = (if n < 10 then [digit n] else dec (n div 10) @ [digit (n mod 10)])"

declare dec.simps [simp del]

definition show_int :: "int \<Rightarrow> string" where
  "show_int i = (if i < 0 then CHR ''-'' # dec (nat (- i)) else dec (nat i))"

definition is_digit :: "char \<Rightarrow> bool" where
  "is_digit c \<longleftrightarrow> 48 \<le> (of_char c :: nat) \<and> of_char c \<le> (57 :: nat)"

definition dec_value :: "string \<Rightarrow> nat" where
  "dec_value s = foldl (\<lambda>acc c. acc * 10 + (of_char c - 48)) 0 s"

lemma of_char_digit: "n < 10 \<Longrightarrow> of_char (digit n) = 48 + (n :: nat)"
  by (simp add: digit_def)

lemma dec_value_dec: "dec_value (dec n) = n"
proof (induction n rule: dec.induct)
  case (1 n)
  show ?case
  proof (cases "n < 10")
    case True
    then show ?thesis by (subst dec.simps) (simp add: dec_value_def of_char_digit)
  next
    case False
    with 1 have "dec_value (dec (n div 10)) = n div 10" by blast
    with False show ?thesis
      by (subst dec.simps) (simp add: dec_value_def of_char_digit)
  qed
qed

lemma dec_digits: "list_all is_digit (dec n)"
proof (induction n rule: dec.induct)
  case (1 n)
  have "is_digit (digit m)" if "m < 10" for m
    using that by (simp add: is_digit_def of_char_digit)
  with 1 show ?case by (subst dec.simps) auto
qed

lemma dec_nonempty: "dec n \<noteq> []"
  by (subst dec.simps) simp

text \<open>A decimal text ends where the digits end.\<close>

lemma digits_delimited:
  assumes "list_all is_digit s" and "list_all is_digit t"
    and "r = [] \<or> \<not> is_digit (hd r)" and "r' = [] \<or> \<not> is_digit (hd r')" and "s @ r = t @ r'"
  shows "s = t \<and> r = r'"
  using assms
proof (induction s arbitrary: t)
  case Nil
  then show ?case by (cases t) auto
next
  case (Cons c s)
  then show ?case by (cases t) auto
qed

lemma show_int_first: "\<exists>c s. show_int i = c # s \<and> (c = CHR ''-'' \<or> is_digit c)"
proof -
  have "\<exists>c s. dec n = c # s \<and> is_digit c" for n
    using dec_nonempty [of n] dec_digits [of n] by (cases "dec n") auto
  then show ?thesis by (cases "i < 0") (simp add: show_int_def, force simp: show_int_def)
qed

lemma show_int_delimited:
  assumes "r = [] \<or> \<not> is_digit (hd r)" and "r' = [] \<or> \<not> is_digit (hd r')"
    and "show_int i @ r = show_int j @ r'"
  shows "i = j \<and> r = r'"
proof -
  have minus: "\<not> is_digit CHR ''-''" by (simp add: is_digit_def)
  have dec_minus: "dec n @ u \<noteq> CHR ''-'' # v" for n u v
    using dec_nonempty [of n] dec_digits [of n] minus by (cases "dec n") auto
  have dec_eq: "m = n \<and> r = r'" if "dec m @ r = dec n @ r'" for m n
    using digits_delimited [OF dec_digits dec_digits assms(1,2) that] dec_value_dec by metis
  have "(i < 0) = (j < 0)"
    using assms(3) dec_minus dec_minus [symmetric] by (auto simp: show_int_def split: if_splits)
  with assms(3) show ?thesis
    by (auto simp: show_int_def split: if_splits dest!: dec_eq)
qed

section \<open>The canonical text\<close>

fun join :: "string \<Rightarrow> string list \<Rightarrow> string" where
  "join sep [] = []"
| "join sep [x] = x"
| "join sep (x # y # xs) = x @ sep @ join sep (y # xs)"

text \<open>The object case prints the members first and then orders them by key: \<open>bt_collect\<close> leaves the
  values alone, so it does not matter which happens first.\<close>

fun canonical_json :: "lib \<Rightarrow> json \<Rightarrow> string" where
  "canonical_json L JNull = ''null''"
| "canonical_json L (JBool b) = (if b then ''true'' else ''false'')"
| "canonical_json L (JInt i) = show_int i"
| "canonical_json L (JStr s) = json_str L s"
| "canonical_json L (JArr xs) = ''['' @ join '','' (map (canonical_json L) xs) @ '']''"
| "canonical_json L (JObj kvs) = ''{'' @ join '',''
     (map (\<lambda>(k, v). json_str L k @ '':'' @ v) (bt_collect (map (\<lambda>(k, v). (k, canonical_json L v)) kvs))) @ ''}''"

text \<open>The same value with every object ordered by key.\<close>

fun normal_json :: "json \<Rightarrow> json" where
  "normal_json (JArr xs) = JArr (map normal_json xs)"
| "normal_json (JObj kvs) = JObj (bt_collect (map (\<lambda>(k, v). (k, normal_json v)) kvs))"
| "normal_json x = x"

lemma bt_insert_map: "bt_insert k (f v) (map (\<lambda>(k, v). (k, f v)) m) = map (\<lambda>(k, v). (k, f v)) (bt_insert k v m)"
  by (induction k v m rule: bt_insert.induct) auto

lemma bt_collect_map: "bt_collect (map (\<lambda>(k, v). (k, f v)) xs) = map (\<lambda>(k, v). (k, f v)) (bt_collect xs)"
proof (induction xs rule: rev_induct)
  case Nil
  then show ?case by (simp add: bt_collect_def)
next
  case (snoc x xs)
  then show ?case by (cases x) (simp add: bt_collect_snoc bt_insert_map)
qed

lemma bt_insert_subset: "set (bt_insert k v m) \<subseteq> insert (k, v) (set m)"
  by (induction k v m rule: bt_insert.induct) auto

lemma bt_collect_subset: "set (bt_collect xs) \<subseteq> set xs"
proof (induction xs rule: rev_induct)
  case Nil
  then show ?case by (simp add: bt_collect_def)
next
  case (snoc x xs)
  then show ?case using bt_insert_subset by (cases x) (fastforce simp: bt_collect_snoc)
qed

section \<open>Two values with the same text\<close>

text \<open>The characters that may follow a value inside a larger text.\<close>

definition stops :: "string \<Rightarrow> bool" where
  "stops r \<longleftrightarrow> r = [] \<or> hd r \<in> {CHR '','', CHR '']'', CHR ''}''}"

lemma stops_simps [simp]:
  "stops []" "stops (CHR '','' # r)" "stops (CHR '']'' # r)" "stops (CHR ''}'' # r)"
  by (simp_all add: stops_def)

lemma stops_no_digit: "stops r \<Longrightarrow> r = [] \<or> \<not> is_digit (hd r)"
  by (auto simp: stops_def is_digit_def)

text \<open>The first character of a text tells the kind of its value.\<close>

fun starts_value :: "json \<Rightarrow> char \<Rightarrow> bool" where
  "starts_value JNull c \<longleftrightarrow> c = CHR ''n''"
| "starts_value (JBool b) c \<longleftrightarrow> c = (if b then CHR ''t'' else CHR ''f'')"
| "starts_value (JInt _) c \<longleftrightarrow> c = CHR ''-'' \<or> is_digit c"
| "starts_value (JStr _) c \<longleftrightarrow> c = CHR 0x22"
| "starts_value (JArr _) c \<longleftrightarrow> c = CHR ''[''"
| "starts_value (JObj _) c \<longleftrightarrow> c = CHR ''{''"

lemma canonical_json_first:
  assumes "json_str_delimited L"
  obtains c t where "canonical_json L x = c # t" and "starts_value x c"
proof (cases x)
  case (JBool b)
  then show ?thesis using that by (cases b) auto
next
  case (JInt i)
  then show ?thesis using that show_int_first [of i] by auto
next
  case (JStr s)
  obtain t where "json_str L s = CHR 0x22 # t" using assms unfolding json_str_delimited_def by blast
  with JStr show ?thesis using that by simp
qed (use that in auto)

lemma starts_value_no_close: "\<not> starts_value x CHR '']''" "\<not> starts_value x CHR ''}''"
  by (cases x; simp add: is_digit_def)+

lemma canonical_json_no_close:
  assumes "json_str_delimited L"
  shows "canonical_json L x @ r \<noteq> CHR '']'' # r'" "canonical_json L x @ r \<noteq> CHR ''}'' # r'"
  using starts_value_no_close by (metis append_Cons canonical_json_first [OF assms] list.inject)+

lemma same_kind:
  assumes "json_str_delimited L" and "canonical_json L x @ r = canonical_json L y @ r'"
  shows "case x of JNull \<Rightarrow> y = JNull | JBool b \<Rightarrow> y = JBool b | JInt _ \<Rightarrow> \<exists>j. y = JInt j
    | JStr _ \<Rightarrow> \<exists>t. y = JStr t | JArr _ \<Rightarrow> \<exists>ys. y = JArr ys | JObj _ \<Rightarrow> \<exists>m. y = JObj m"
proof -
  obtain c t where x: "canonical_json L x = c # t" "starts_value x c" by (rule canonical_json_first [OF assms(1)])
  obtain d u where y: "canonical_json L y = d # u" "starts_value y d" by (rule canonical_json_first [OF assms(1)])
  from assms(2) x y have "starts_value y c" by simp
  with x(2) show ?thesis
    by (cases x; cases y) (auto simp: is_digit_def split: if_splits)
qed

text \<open>A comma-separated list of self-delimiting parts, closed by a bracket that no part starts with.\<close>

lemma join_delimited:
  assumes parts: "\<And>x y r r'. x \<in> set xs \<Longrightarrow> stops r \<Longrightarrow> stops r' \<Longrightarrow> f x @ r = g y @ r' \<Longrightarrow> P x y \<and> r = r'"
    and close: "stops (c # [])" "c \<noteq> CHR '',''" "\<And>x r r'. f x @ r \<noteq> c # r'" "\<And>y r r'. g y @ r \<noteq> c # r'"
    and eq: "join '','' (map f xs) @ c # r = join '','' (map g ys) @ c # r'"
  shows "list_all2 P xs ys \<and> r = r'"
  using parts eq
proof (induction xs arbitrary: ys)
  case Nil
  show ?case
  proof (cases ys)
    case Nil
    with Nil.prems(2) show ?thesis by simp
  next
    case (Cons y ys')
    then have "\<exists>u. join '','' (map g ys) = g y @ u" by (cases ys') auto
    then obtain u where "join '','' (map g ys) = g y @ u" by blast
    with Nil.prems(2) have "g y @ (u @ c # r') = c # r" by simp
    with close(4) show ?thesis by blast
  qed
next
  case (Cons x xs)
  have stop: "stops (c # u)" for u using close(1) by (simp add: stops_def)
  have split: "\<exists>u. join '','' (map h (z # zs)) = h z @ u \<and> (zs = [] \<longrightarrow> u = []) \<and>
      (zs \<noteq> [] \<longrightarrow> u = CHR '','' # join '','' (map h zs))" for h :: "'z \<Rightarrow> string" and z zs
    by (cases zs) auto
  obtain u where u: "join '','' (map f (x # xs)) = f x @ u" "xs = [] \<longrightarrow> u = []"
    "xs \<noteq> [] \<longrightarrow> u = CHR '','' # join '','' (map f xs)"
    using split [of f x xs] by blast
  obtain y ys' where ys: "ys = y # ys'"
  proof (cases ys)
    case Nil
    with Cons.prems(2) u(1) have "f x @ (u @ c # r) = c # r'" by simp
    with close(3) show ?thesis by blast
  qed blast
  obtain v where v: "join '','' (map g (y # ys')) = g y @ v" "ys' = [] \<longrightarrow> v = []"
    "ys' \<noteq> [] \<longrightarrow> v = CHR '','' # join '','' (map g ys')"
    using split [of g y ys'] by blast
  from Cons.prems(2) ys u(1) v(1) have "f x @ (u @ c # r) = g y @ (v @ c # r')" by simp
  moreover have "stops (u @ c # r)" "stops (v @ c # r')"
    using u(2,3) v(2,3) stop by (cases "xs = []"; auto)+
  ultimately have P: "P x y" and rest: "u @ c # r = v @ c # r'"
    using Cons.prems(1) [of x] by auto
  show ?case
  proof (cases "xs = []")
    case True
    with u v rest close(2) have "ys' = []" by (cases "ys' = []") auto
    with True P rest u(2) v(2) ys show ?thesis by simp
  next
    case False
    with u v rest close(2) have ne: "ys' \<noteq> []" by (cases "ys' = []") auto
    with False u(3) v(3) rest have "join '','' (map f xs) @ c # r = join '','' (map g ys') @ c # r'" by simp
    from Cons.IH [OF _ this] Cons.prems(1) P ys show ?thesis by auto
  qed
qed

definition member_json :: "lib \<Rightarrow> string \<times> json \<Rightarrow> string" where
  "member_json L kv = json_str L (fst kv) @ '':'' @ canonical_json L (snd kv)"

lemma canonical_json_object:
  "canonical_json L (JObj kvs) = CHR ''{'' # join '','' (map (member_json L) (bt_collect kvs)) @ ''}''"
  by (simp add: bt_collect_map comp_def case_prod_beta member_json_def [abs_def])

lemma member_json_no_close:
  assumes "json_str_delimited L"
  shows "member_json L kv @ r \<noteq> CHR ''}'' # r'"
proof -
  obtain t where "json_str L (fst kv) = CHR 0x22 # t" using assms unfolding json_str_delimited_def by blast
  then show ?thesis by (simp add: member_json_def)
qed

lemma canonical_json_delimited:
  assumes "json_str_delimited L"
  shows "stops r \<Longrightarrow> stops r' \<Longrightarrow> canonical_json L x @ r = canonical_json L y @ r'
    \<Longrightarrow> normal_json x = normal_json y \<and> r = r'"
proof (induction x arbitrary: y r r')
  case JNull
  from same_kind [OF assms JNull.prems(3)] have "y = JNull" by simp
  with JNull.prems show ?case by simp
next
  case (JBool b)
  from same_kind [OF assms JBool.prems(3)] have "y = JBool b" by simp
  with JBool.prems show ?case by (cases b) simp_all
next
  case (JInt i)
  from same_kind [OF assms JInt.prems(3)] obtain j where y: "y = JInt j" by auto
  with JInt.prems show_int_delimited [OF stops_no_digit stops_no_digit] show ?case by simp
next
  case (JStr s)
  from same_kind [OF assms JStr.prems(3)] obtain t where y: "y = JStr t" by auto
  with JStr.prems(3) have "json_str L s @ r = json_str L t @ r'" by simp
  then have "s = t \<and> r = r'" using assms unfolding json_str_delimited_def by blast
  with y show ?case by simp
next
  case (JArr xs)
  from same_kind [OF assms JArr.prems(3)] obtain ys where y: "y = JArr ys" by auto
  with JArr.prems(3) have eq: "join '','' (map (canonical_json L) xs) @ CHR '']'' # r =
      join '','' (map (canonical_json L) ys) @ CHR '']'' # r'" by simp
  have part: "normal_json a = normal_json b \<and> u = u'"
    if "a \<in> set xs" "stops u" "stops u'" "canonical_json L a @ u = canonical_json L b @ u'" for a b u u'
    using that by (rule JArr.IH)
  have "list_all2 (\<lambda>a b. normal_json a = normal_json b) xs ys \<and> r = r'"
    by (rule join_delimited [OF part _ _ _ _ eq]) (use canonical_json_no_close [OF assms] in auto)
  with y show ?case by (simp add: list_all2_conv_all_nth list_eq_iff_nth_eq)
next
  case (JObj kvs)
  from same_kind [OF assms JObj.prems(3)] obtain kvs' where y: "y = JObj kvs'" by auto
  with JObj.prems(3) have eq: "join '','' (map (member_json L) (bt_collect kvs)) @ CHR ''}'' # r =
      join '','' (map (member_json L) (bt_collect kvs')) @ CHR ''}'' # r'"
    unfolding y canonical_json_object by simp
  let ?P = "\<lambda>a b. fst a = fst b \<and> normal_json (snd a) = normal_json (snd b)"
  have part: "?P a b \<and> u = u'"
    if a: "a \<in> set (bt_collect kvs)" and stop: "stops u" "stops u'" and same: "member_json L a @ u = member_json L b @ u'" for a b u u'
  proof -
    from same have "json_str L (fst a) @ (CHR '':'' # canonical_json L (snd a) @ u)
        = json_str L (fst b) @ (CHR '':'' # canonical_json L (snd b) @ u')" by (simp add: member_json_def)
    then have key: "fst a = fst b" and val: "canonical_json L (snd a) @ u = canonical_json L (snd b) @ u'"
      using assms unfolding json_str_delimited_def by (metis list.inject)+
    from a bt_collect_subset have "a \<in> set kvs" by blast
    from JObj.IH [OF this _ stop val] key show ?thesis by (cases a) (simp add: snds.simps)
  qed
  have "list_all2 ?P (bt_collect kvs) (bt_collect kvs') \<and> r = r'"
    by (rule join_delimited [OF part _ _ _ _ eq]) (use member_json_no_close [OF assms] in auto)
  with y show ?case
    by (simp add: bt_collect_map list_all2_conv_all_nth list_eq_iff_nth_eq case_prod_beta)
qed

lemma bt_insert_last: "\<forall>x \<in> set (map fst m). x < k \<Longrightarrow> bt_insert k v m = m @ [(k, v)]"
  by (induction k v m rule: bt_insert.induct) auto

lemma bt_collect_sorted: "bt_wf m \<Longrightarrow> bt_collect m = m"
proof (induction m rule: rev_induct)
  case Nil
  then show ?case by (simp add: bt_collect_def)
next
  case (snoc x m)
  then show ?case
    by (cases x) (auto simp: bt_collect_snoc sorted_wrt_append intro!: bt_insert_last)
qed

lemma canonical_json_normal: "canonical_json L (normal_json x) = canonical_json L x"
proof (induction x)
  case (JArr xs)
  then have "map (canonical_json L \<circ> normal_json) xs = map (canonical_json L) xs" by simp
  then show ?case by (simp only: normal_json.simps canonical_json.simps map_map)
next
  case (JObj kvs)
  have "canonical_json L (normal_json v) = canonical_json L v" if "(k, v) \<in> set (bt_collect kvs)" for k v
    using that bt_collect_subset by (intro JObj.IH [of "(k, v)"]) (auto simp: snds.simps)
  then have same: "map (member_json L) (map (\<lambda>(k, v). (k, normal_json v)) (bt_collect kvs)) = map (member_json L) (bt_collect kvs)"
    by (auto simp: member_json_def)
  have "bt_wf (map (\<lambda>(k, v). (k, normal_json v)) (bt_collect kvs))"
    using bt_wf_collect [of kvs] by (simp add: comp_def case_prod_beta)
  then have "bt_collect (map (\<lambda>(k, v). (k, normal_json v)) (bt_collect kvs)) = map (\<lambda>(k, v). (k, normal_json v)) (bt_collect kvs)"
    by (rule bt_collect_sorted)
  then show ?case by (simp only: normal_json.simps canonical_json_object bt_collect_map same)
qed simp_all

lemma canonical_json_eq_iff:
  assumes "json_str_delimited L"
  shows "canonical_json L x = canonical_json L y \<longleftrightarrow> normal_json x = normal_json y"
proof
  assume "canonical_json L x = canonical_json L y"
  with canonical_json_delimited [OF assms, of "[]" "[]" x y] show "normal_json x = normal_json y" by simp
next
  assume "normal_json x = normal_json y"
  then show "canonical_json L x = canonical_json L y" by (metis canonical_json_normal)
qed

text \<open>Reading the members of an object off its normal form.\<close>

lemma normal_json_member:
  assumes "normal_json (JObj kvs) = normal_json (JObj kvs')" and "distinct (map fst kvs)" and "distinct (map fst kvs')"
  shows "map_option normal_json (map_of kvs k) = map_option normal_json (map_of kvs' k)"
proof -
  let ?n = "map (\<lambda>(k, v). (k, normal_json v))"
  have "map_of (bt_collect (?n m)) = map_of (?n m)" if "distinct (map fst m)" for m
    using that by (simp add: map_of_bt_collect map_of_rev comp_def case_prod_beta)
  from this [OF assms(2)] this [OF assms(3)] assms(1) have "map_of (?n kvs) = map_of (?n kvs')" by simp
  then have "map_of (?n kvs) k = map_of (?n kvs') k" by (rule fun_cong)
  then show ?thesis by (simp add: map_of_map)
qed

end
