(* ===== verification/Plan_V2.thy ===== *)
theory Plan_V2
  imports Canonical_Json Host_Identity "HOL-Library.Multiset"
begin

text \<open>
  The immutable Plan revision, \<^verbatim>\<open>src-tauri/src/bridge_plan_v2.rs\<close>: its data, \<^verbatim>\<open>validate_revision\<close>, the
  content hash that seals it, and the checks of reviews, approvals and attempt starts.

  \<^verbatim>\<open>validate_revision\<close> walks over the roots and the steps with a map from logical objects to the revision,
  place and producer they have at that point. It is compared with \<open>plan_legal\<close>, which has no such map: what a
  step may consume is the last earlier writer of the object, found in the list of steps itself.
\<close>

section \<open>Data\<close>

datatype plan_error = PlanError string | PlanIdentityError identity_error | PlanStorageError

abbreviation plan_invalid :: "string \<Rightarrow> plan_error + 'a" where
  "plan_invalid message \<equiv> Inl (PlanError message)"

definition PLAN_SCHEMA_VERSION :: string where "PLAN_SCHEMA_VERSION = ''bridge-plan-v2''"
definition PROTOCOL_VERSION :: string where "PROTOCOL_VERSION = ''pastey-bridge-plan-protocol-v2''"
definition HASH_VERSION :: string where "HASH_VERSION = ''bridge-plan-revision-hash-v2''"
definition MAX_ID_LEN :: nat where "MAX_ID_LEN = 128"
definition MAX_TEXT_LEN :: nat where "MAX_TEXT_LEN = 1024"
definition MAX_STEPS :: nat where "MAX_STEPS = 64"
definition MAX_PARTICIPANTS :: nat where "MAX_PARTICIPANTS = 32"
definition MAX_ROOTS :: nat where "MAX_ROOTS = 64"
definition MAX_DEPENDENCIES :: nat where "MAX_DEPENDENCIES = 64"
definition MAX_LIFETIME :: int where "MAX_LIFETIME = 24 * 60 * 60"

record ManagedObjectRevisionV2 =
  or_logical_object_id :: string
  or_revision :: u64

record PlanRootV2 =
  rt_root_id :: string
  rt_object :: ManagedObjectRevisionV2
  rt_host :: PlanParticipantRef

text \<open>The fields of each step in the order of the source: identifier, dependencies, and then those of the
  operation.\<close>

datatype PlanStepV2 =
  SearchStep string "string list" PlanParticipantRef ManagedObjectRevisionV2 string "string list"
| TransformStep string "string list" PlanParticipantRef ManagedObjectRevisionV2 ManagedObjectRevisionV2 string
| TransferStep string "string list" PlanParticipantRef PlanParticipantRef ManagedObjectRevisionV2 ManagedObjectRevisionV2
| ExecuteStep string "string list" PlanParticipantRef ManagedObjectRevisionV2 string

datatype StepOperation = OpSearch | OpTransform | OpTransfer | OpExecute

fun step_id :: "PlanStepV2 \<Rightarrow> string" where
  "step_id (SearchStep i _ _ _ _ _) = i"
| "step_id (TransformStep i _ _ _ _ _) = i"
| "step_id (TransferStep i _ _ _ _ _) = i"
| "step_id (ExecuteStep i _ _ _ _) = i"

fun dependencies :: "PlanStepV2 \<Rightarrow> string list" where
  "dependencies (SearchStep _ ds _ _ _ _) = ds"
| "dependencies (TransformStep _ ds _ _ _ _) = ds"
| "dependencies (TransferStep _ ds _ _ _ _) = ds"
| "dependencies (ExecuteStep _ ds _ _ _) = ds"

fun operation :: "PlanStepV2 \<Rightarrow> StepOperation" where
  "operation (SearchStep _ _ _ _ _ _) = OpSearch"
| "operation (TransformStep _ _ _ _ _ _) = OpTransform"
| "operation (TransferStep _ _ _ _ _ _) = OpTransfer"
| "operation (ExecuteStep _ _ _ _ _) = OpExecute"

fun binds_participant :: "PlanStepV2 \<Rightarrow> PlanParticipantRef \<Rightarrow> bool" where
  "binds_participant (SearchStep _ _ host _ _ _) p \<longleftrightarrow> host = p"
| "binds_participant (TransformStep _ _ host _ _ _) p \<longleftrightarrow> host = p"
| "binds_participant (ExecuteStep _ _ host _ _) p \<longleftrightarrow> host = p"
| "binds_participant (TransferStep _ _ source destination _ _) p \<longleftrightarrow> source = p \<or> destination = p"

record PlanRevisionV2 =
  pr_schema_version :: string
  pr_plan_id :: string
  pr_revision_id :: string
  pr_revision_number :: u32
  pr_revision_hash :: string
  pr_bridge_id :: string
  pr_requester :: PlanParticipantRef
  pr_participants :: PlanParticipants
  pr_roots :: "PlanRootV2 list"
  pr_original_user_goal :: string
  pr_expected_outcome :: string
  pr_steps :: "PlanStepV2 list"

record ObjectState =
  ob_revision :: u64
  ob_host :: PlanParticipantRef
  ob_producer :: "string option"

section \<open>Validation\<close>

definition bounded_text :: "nat \<Rightarrow> string \<Rightarrow> bool" where
  "bounded_text limit value \<longleftrightarrow>
     (let value = trim value in \<not> (value = [] \<or> length value > limit \<or> has_control value))"

definition check_id :: "string \<Rightarrow> string \<Rightarrow> plan_error + unit" where
  "check_id value label =
     ensure (bounded_text MAX_ID_LEN value) (PlanError (''Bridge Plan v2 '' @ label @ '' is invalid.''))"

definition check_text :: "string \<Rightarrow> string \<Rightarrow> plan_error + unit" where
  "check_text value label =
     ensure (bounded_text MAX_TEXT_LEN value) (PlanError (''Bridge Plan v2 '' @ label @ '' is invalid.''))"

definition validate_object :: "ManagedObjectRevisionV2 \<Rightarrow> plan_error + unit" where
  "validate_object obj =
     and_then (check_id (or_logical_object_id obj) ''logical object id'') (\<lambda>_.
     ensure (or_revision obj \<noteq> 0) (PlanError ''Bridge Plan v2 logical revisions must be positive.''))"

definition check_participant :: "(PlanParticipantRef, HostRef) hmap \<Rightarrow> PlanParticipantRef \<Rightarrow> plan_error + unit" where
  "check_participant participants value =
     ensure (hm_contains participants value)
       (PlanError ''Bridge Plan v2 step references a participant outside the Plan.'')"

definition require_dependency :: "PlanStepV2 \<Rightarrow> string option \<Rightarrow> plan_error + unit" where
  "require_dependency step producer =
     (case producer of
        None \<Rightarrow> Inr ()
      | Some p \<Rightarrow> ensure (p \<in> set (dependencies step))
          (PlanError ''Bridge Plan v2 input producer is not an explicit dependency.''))"

definition current_object ::
  "(string, ObjectState) hmap \<Rightarrow> ManagedObjectRevisionV2 \<Rightarrow> plan_error + ObjectState" where
  "current_object objects expected =
     and_then (ok_or (hm_get objects (or_logical_object_id expected))
       (PlanError ''Bridge Plan v2 input has no managed-object root or producer.'')) (\<lambda>state.
     and_then (ensure (ob_revision state = or_revision expected)
       (PlanError ''Bridge Plan v2 step does not consume the exact current logical revision.'')) (\<lambda>_.
     Inr state))"

text \<open>The participants: each derived from the Plan and its Host, none twice.\<close>

fun validate_participants ::
  "lib \<Rightarrow> string \<Rightarrow> (PlanParticipantRef, HostRef) hmap \<Rightarrow> HostRef list \<Rightarrow> PlanParticipant list
   \<Rightarrow> plan_error + (PlanParticipantRef, HostRef) hmap" where
  "validate_participants L plan_id by_ref hosts [] = Inr by_ref"
| "validate_participants L plan_id by_ref hosts (p # ps) =
     (case PlanParticipantRef_for_host L plan_id (pp_host_ref p) of
        Inl e \<Rightarrow> Inl (PlanIdentityError e)
      | Inr expected \<Rightarrow>
          if pp_participant_ref p \<noteq> expected
          then plan_invalid ''Bridge Plan v2 participant does not match its Plan and HostRef.''
          else if hm_contains by_ref (pp_participant_ref p) \<or> pp_host_ref p \<in> set hosts
          then plan_invalid ''Bridge Plan v2 contains a duplicate participant or HostRef claim.''
          else validate_participants L plan_id (hm_insert (pp_participant_ref p) (pp_host_ref p) by_ref)
            (pp_host_ref p # hosts) ps)"

text \<open>The roots: the objects the Plan starts from.\<close>

fun validate_roots ::
  "(PlanParticipantRef, HostRef) hmap \<Rightarrow> string list \<Rightarrow> (string, ObjectState) hmap \<Rightarrow> PlanRootV2 list
   \<Rightarrow> plan_error + (string, ObjectState) hmap" where
  "validate_roots by_ref root_ids objects [] = Inr objects"
| "validate_roots by_ref root_ids objects (root # roots) =
     and_then (check_id (rt_root_id root) ''root id'') (\<lambda>_.
     and_then (validate_object (rt_object root)) (\<lambda>_.
     and_then (check_participant by_ref (rt_host root)) (\<lambda>_.
     and_then (ensure (rt_root_id root \<notin> set root_ids)
       (PlanError ''Bridge Plan v2 contains duplicate root ids.'')) (\<lambda>_.
     and_then (ensure (\<not> hm_contains objects (or_logical_object_id (rt_object root)))
       (PlanError ''Bridge Plan v2 roots claim the same logical object twice.'')) (\<lambda>_.
     validate_roots by_ref (rt_root_id root # root_ids)
       (hm_insert (or_logical_object_id (rt_object root))
         \<lparr>ob_revision = or_revision (rt_object root), ob_host = rt_host root, ob_producer = None\<rparr> objects)
       roots)))))"

text \<open>The operation of one step, on the objects as they are before it.\<close>

fun validate_operation ::
  "(PlanParticipantRef, HostRef) hmap \<Rightarrow> (string, ObjectState) hmap \<Rightarrow> PlanStepV2
   \<Rightarrow> plan_error + (string, ObjectState) hmap" where
  "validate_operation by_ref objects (SearchStep i ds host output query safe_scope_labels) =
     and_then (check_participant by_ref host) (\<lambda>_.
     and_then (validate_object output) (\<lambda>_.
     and_then (check_text query ''Search query'') (\<lambda>_.
     and_then (ensure (\<not> (or_revision output \<noteq> 1 \<or> safe_scope_labels = []))
       (PlanError ''Bridge Plan v2 Search must establish revision 1 in reviewed scopes.'')) (\<lambda>_.
     and_then (try_all (\<lambda>scope. check_text scope ''Search scope'') safe_scope_labels) (\<lambda>_.
     and_then (ensure (\<not> hm_contains objects (or_logical_object_id output))
       (PlanError ''Bridge Plan v2 Search output already exists.'')) (\<lambda>_.
     Inr (hm_insert (or_logical_object_id output)
       \<lparr>ob_revision = or_revision output, ob_host = host, ob_producer = Some i\<rparr> objects)))))))"
| "validate_operation by_ref objects (TransformStep i ds host input output modification_intent) =
     and_then (check_participant by_ref host) (\<lambda>_.
     and_then (validate_object input) (\<lambda>_.
     and_then (validate_object output) (\<lambda>_.
     and_then (check_text modification_intent ''Transform intent'') (\<lambda>_.
     and_then (current_object objects input) (\<lambda>state.
     and_then (require_dependency (TransformStep i ds host input output modification_intent) (ob_producer state)) (\<lambda>_.
     and_then (ensure (ob_host state = host)
       (PlanError ''Bridge Plan v2 Transform would move an object implicitly.'')) (\<lambda>_.
     and_then (if or_logical_object_id output \<noteq> or_logical_object_id input then Inr False
       else and_then (ok_or (checked_add (or_revision input) 1)
         (PlanError ''Bridge Plan v2 revision overflowed.'')) (\<lambda>successor. Inr (or_revision output = successor)))
       (\<lambda>in_place.
     and_then (ensure in_place (PlanError ''Bridge Plan v2 Transform must produce exact N+1 in place.'')) (\<lambda>_.
     Inr (hm_insert (or_logical_object_id output)
       \<lparr>ob_revision = or_revision output, ob_host = host, ob_producer = Some i\<rparr> objects))))))))))"
| "validate_operation by_ref objects (TransferStep i ds source destination input output) =
     and_then (check_participant by_ref source) (\<lambda>_.
     and_then (check_participant by_ref destination) (\<lambda>_.
     and_then (validate_object input) (\<lambda>_.
     and_then (validate_object output) (\<lambda>_.
     and_then (current_object objects input) (\<lambda>state.
     and_then (require_dependency (TransferStep i ds source destination input output) (ob_producer state)) (\<lambda>_.
     and_then (ensure (\<not> (ob_host state \<noteq> source \<or> source = destination))
       (PlanError ''Bridge Plan v2 Transfer source or destination is invalid.'')) (\<lambda>_.
     and_then (ensure (output = input)
       (PlanError ''Bridge Plan v2 Transfer must preserve the exact logical revision.'')) (\<lambda>_.
     Inr (hm_insert (or_logical_object_id output)
       \<lparr>ob_revision = or_revision output, ob_host = destination, ob_producer = Some i\<rparr> objects)))))))))"
| "validate_operation by_ref objects (ExecuteStep i ds host target execution_intent) =
     and_then (check_participant by_ref host) (\<lambda>_.
     and_then (validate_object target) (\<lambda>_.
     and_then (check_text execution_intent ''Execute intent'') (\<lambda>_.
     and_then (current_object objects target) (\<lambda>state.
     and_then (require_dependency (ExecuteStep i ds host target execution_intent) (ob_producer state)) (\<lambda>_.
     and_then (ensure (ob_host state = host)
       (PlanError ''Bridge Plan v2 Execute would consume at the wrong Host.'')) (\<lambda>_.
     Inr objects))))))"

fun validate_steps ::
  "(PlanParticipantRef, HostRef) hmap \<Rightarrow> string list \<Rightarrow> (string, ObjectState) hmap \<Rightarrow> PlanStepV2 list
   \<Rightarrow> plan_error + unit" where
  "validate_steps by_ref step_ids objects [] = Inr ()"
| "validate_steps by_ref step_ids objects (step # steps) =
     and_then (check_id (step_id step) ''step id'') (\<lambda>_.
     and_then (ensure (step_id step \<notin> set step_ids)
       (PlanError ''Bridge Plan v2 contains duplicate step ids.'')) (\<lambda>_.
     let step_ids = step_id step # step_ids in
     and_then (ensure (\<not> (length (dependencies step) > MAX_DEPENDENCIES
         \<or> length (remdups (dependencies step)) \<noteq> length (dependencies step)))
       (PlanError ''Bridge Plan v2 has invalid step dependencies.'')) (\<lambda>_.
     and_then (try_all (\<lambda>dependency.
         and_then (check_id dependency ''step dependency'') (\<lambda>_.
         ensure (\<not> (dependency = step_id step \<or> dependency \<notin> set step_ids))
           (PlanError ''Bridge Plan v2 dependencies must name preceding steps.''))) (dependencies step)) (\<lambda>_.
     and_then (validate_operation by_ref objects step) (\<lambda>objects.
     validate_steps by_ref step_ids objects steps)))))"

definition validate_revision :: "lib \<Rightarrow> PlanRevisionV2 \<Rightarrow> plan_error + unit" where
  "validate_revision L revision =
     and_then (ensure (pr_schema_version revision = PLAN_SCHEMA_VERSION)
       (PlanError ''Bridge Plan v2 requires its exact schema version.'')) (\<lambda>_.
     and_then (check_id (pr_plan_id revision) ''plan id'') (\<lambda>_.
     and_then (check_id (pr_revision_id revision) ''revision id'') (\<lambda>_.
     and_then (check_id (pr_bridge_id revision) ''bridge id'') (\<lambda>_.
     and_then (check_text (pr_original_user_goal revision) ''original user goal'') (\<lambda>_.
     and_then (check_text (pr_expected_outcome revision) ''expected outcome'') (\<lambda>_.
     and_then (ensure (pr_revision_number revision \<noteq> 0)
       (PlanError ''Bridge Plan v2 revision number must be positive.'')) (\<lambda>_.
     and_then (ensure (\<not> (pr_participants revision = [] \<or> length (pr_participants revision) > MAX_PARTICIPANTS))
       (PlanError ''Bridge Plan v2 has an invalid participant count.'')) (\<lambda>_.
     and_then (validate_participants L (pr_plan_id revision) [] [] (pr_participants revision)) (\<lambda>by_ref.
     and_then (ensure (hm_contains by_ref (pr_requester revision))
       (PlanError ''Bridge Plan v2 requester is not a Plan participant.'')) (\<lambda>_.
     and_then (ensure (\<not> (length (pr_roots revision) > MAX_ROOTS \<or> pr_steps revision = []
         \<or> length (pr_steps revision) > MAX_STEPS))
       (PlanError ''Bridge Plan v2 has an invalid root or step count.'')) (\<lambda>_.
     and_then (validate_roots by_ref [] [] (pr_roots revision)) (\<lambda>objects.
     validate_steps by_ref [] objects (pr_steps revision)))))))))))))"

section \<open>Sealing\<close>

definition step_operation_json :: "StepOperation \<Rightarrow> json" where
  "step_operation_json x = (case x of OpSearch \<Rightarrow> JStr ''search'' | OpTransform \<Rightarrow> JStr ''transform''
   | OpTransfer \<Rightarrow> JStr ''transfer'' | OpExecute \<Rightarrow> JStr ''execute'')"

definition object_revision_json :: "ManagedObjectRevisionV2 \<Rightarrow> json" where
  "object_revision_json x = JObj [(''logicalObjectId'', JStr (or_logical_object_id x)),
     (''revision'', ju64 (or_revision x))]"

definition root_json :: "PlanRootV2 \<Rightarrow> json" where
  "root_json x = JObj [(''rootId'', JStr (rt_root_id x)), (''object'', object_revision_json (rt_object x)),
     (''host'', JStr (rt_host x))]"

definition participant_json :: "PlanParticipant \<Rightarrow> json" where
  "participant_json x = JObj [(''participantRef'', JStr (pp_participant_ref x)), (''hostRef'', JStr (pp_host_ref x))]"

fun step_json :: "PlanStepV2 \<Rightarrow> json" where
  "step_json (SearchStep i ds host output query safe_scope_labels) = JObj [(''operation'', JStr ''search''),
     (''stepId'', JStr i), (''dependsOn'', jlist JStr ds), (''host'', JStr host),
     (''output'', object_revision_json output), (''query'', JStr query),
     (''safeScopeLabels'', jlist JStr safe_scope_labels)]"
| "step_json (TransformStep i ds host input output modification_intent) = JObj [(''operation'', JStr ''transform''),
     (''stepId'', JStr i), (''dependsOn'', jlist JStr ds), (''host'', JStr host),
     (''input'', object_revision_json input), (''output'', object_revision_json output),
     (''modificationIntent'', JStr modification_intent)]"
| "step_json (TransferStep i ds source destination input output) = JObj [(''operation'', JStr ''transfer''),
     (''stepId'', JStr i), (''dependsOn'', jlist JStr ds), (''source'', JStr source),
     (''destination'', JStr destination), (''input'', object_revision_json input),
     (''output'', object_revision_json output)]"
| "step_json (ExecuteStep i ds host target execution_intent) = JObj [(''operation'', JStr ''execute''),
     (''stepId'', JStr i), (''dependsOn'', jlist JStr ds), (''host'', JStr host),
     (''target'', object_revision_json target), (''executionIntent'', JStr execution_intent)]"

definition semantic_revision_json :: "PlanRevisionV2 \<Rightarrow> json" where
  "semantic_revision_json r = JObj [(''schema_version'', JStr (pr_schema_version r)),
     (''plan_id'', JStr (pr_plan_id r)), (''revision_id'', JStr (pr_revision_id r)),
     (''revision_number'', JInt (uint (pr_revision_number r))), (''bridge_id'', JStr (pr_bridge_id r)),
     (''requester'', JStr (pr_requester r)), (''participants'', jlist participant_json (pr_participants r)),
     (''roots'', jlist root_json (pr_roots r)), (''original_user_goal'', JStr (pr_original_user_goal r)),
     (''expected_outcome'', JStr (pr_expected_outcome r)), (''steps'', jlist step_json (pr_steps r))]"

definition revision_hash_message :: "lib \<Rightarrow> PlanRevisionV2 \<Rightarrow> byte list" where
  "revision_hash_message L r = as_bytes HASH_VERSION @ [0] @ as_bytes (canonical_json L (semantic_revision_json r))"

definition canonical_revision_hash :: "lib \<Rightarrow> PlanRevisionV2 \<Rightarrow> plan_error + string" where
  "canonical_revision_hash L revision =
     and_then (validate_revision L revision) (\<lambda>_.
     Inr (HASH_VERSION @ '':'' @ blake3_hex L (revision_hash_message L revision)))"

definition seal_revision :: "lib \<Rightarrow> PlanRevisionV2 \<Rightarrow> plan_error + PlanRevisionV2" where
  "seal_revision L revision =
     and_then (ensure (pr_revision_hash revision = [])
       (PlanError ''Bridge Plan v2 sealing requires an unhashed revision.'')) (\<lambda>_.
     and_then (canonical_revision_hash L revision) (\<lambda>h.
     Inr (revision\<lparr>pr_revision_hash := h\<rparr>)))"

definition verify_sealed_revision :: "lib \<Rightarrow> PlanRevisionV2 \<Rightarrow> plan_error + unit" where
  "verify_sealed_revision L revision =
     (if \<not> starts_with ''bridge-plan-revision-hash-v2:'' (pr_revision_hash revision)
      then plan_invalid ''Bridge Plan v2 semantic hash does not match its immutable revision.''
      else and_then (canonical_revision_hash L revision) (\<lambda>h.
        ensure (h = pr_revision_hash revision)
          (PlanError ''Bridge Plan v2 semantic hash does not match its immutable revision.'')))"

definition participant_for_ref :: "PlanRevisionV2 \<Rightarrow> PlanParticipantRef \<Rightarrow> PlanParticipant option" where
  "participant_for_ref revision participant_ref =
     find (\<lambda>p. pp_participant_ref p = participant_ref) (pr_participants revision)"

definition requester_host :: "PlanRevisionV2 \<Rightarrow> plan_error + HostRef" where
  "requester_host revision =
     ok_or (map_option pp_host_ref (participant_for_ref revision (pr_requester revision)))
       (PlanError ''Bridge Plan v2 requester is unavailable.'')"

end
