(* ===== verification/Plan_Order.thy ===== *)
theory Plan_Order
  imports Plan_V2
begin

text \<open>
  What a valid Plan revision guarantees. \<open>plan_legal\<close> restates \<^verbatim>\<open>validate_revision\<close> without its map of objects:
  a step may consume an object revision exactly where the last earlier writer of the object left it, and must
  name that writer as a dependency. From this follows what a scheduler may rely on that knows only the
  dependencies: whatever order it picks, every object goes through the same revisions and places.
\<close>

section \<open>A reference without state\<close>

text \<open>What a step consumes, and where; what it writes, as the state the object has after it.\<close>

fun consumed :: "PlanStepV2 \<Rightarrow> (ManagedObjectRevisionV2 \<times> PlanParticipantRef) option" where
  "consumed (SearchStep _ _ _ _ _ _) = None"
| "consumed (TransformStep _ _ host input _ _) = Some (input, host)"
| "consumed (TransferStep _ _ source _ input _) = Some (input, source)"
| "consumed (ExecuteStep _ _ host target _) = Some (target, host)"

fun written :: "PlanStepV2 \<Rightarrow> (ManagedObjectRevisionV2 \<times> PlanParticipantRef) option" where
  "written (SearchStep _ _ host output _ _) = Some (output, host)"
| "written (TransformStep _ _ host _ output _) = Some (output, host)"
| "written (TransferStep _ _ _ destination _ output) = Some (output, destination)"
| "written (ExecuteStep _ _ _ _ _) = None"

definition state_of :: "ManagedObjectRevisionV2 \<Rightarrow> PlanParticipantRef \<Rightarrow> string option \<Rightarrow> ObjectState" where
  "state_of obj host producer = \<lparr>ob_revision = or_revision obj, ob_host = host, ob_producer = producer\<rparr>"

definition written_state :: "string \<Rightarrow> PlanStepV2 \<Rightarrow> ObjectState option" where
  "written_state oid s = (case written s of None \<Rightarrow> None
     | Some (obj, host) \<Rightarrow> if or_logical_object_id obj = oid then Some (state_of obj host (Some (step_id s))) else None)"

definition writes :: "string \<Rightarrow> PlanStepV2 \<Rightarrow> bool" where
  "writes oid s \<longleftrightarrow> written_state oid s \<noteq> None"

definition root_state :: "string \<Rightarrow> PlanRootV2 list \<Rightarrow> ObjectState option" where
  "root_state oid roots = (case find (\<lambda>r. or_logical_object_id (rt_object r) = oid) roots of
     None \<Rightarrow> None | Some r \<Rightarrow> Some (state_of (rt_object r) (rt_host r) None))"

definition last_writer :: "PlanRootV2 list \<Rightarrow> PlanStepV2 list \<Rightarrow> string \<Rightarrow> ObjectState option" where
  "last_writer roots steps oid = (case find (writes oid) (rev steps) of
     None \<Rightarrow> root_state oid roots | Some s \<Rightarrow> written_state oid s)"

definition object_ok :: "ManagedObjectRevisionV2 \<Rightarrow> bool" where
  "object_ok obj \<longleftrightarrow> bounded_text MAX_ID_LEN (or_logical_object_id obj) \<and> or_revision obj \<noteq> 0"

text \<open>The operation itself: participants of the Plan, well-formed fields, the revision it consumes current at
  the place it names and produced by a dependency, and the revision it writes the right one.\<close>

definition consumes_ok :: "(string \<Rightarrow> ObjectState option) \<Rightarrow> string list \<Rightarrow> ManagedObjectRevisionV2 \<Rightarrow> PlanParticipantRef \<Rightarrow> bool" where
  "consumes_ok look deps obj host \<longleftrightarrow> (\<exists>producer. look (or_logical_object_id obj) = Some (state_of obj host producer)
     \<and> (\<forall>p. producer = Some p \<longrightarrow> p \<in> set deps))"

fun operation_legal :: "PlanParticipantRef set \<Rightarrow> (string \<Rightarrow> ObjectState option) \<Rightarrow> PlanStepV2 \<Rightarrow> bool" where
  "operation_legal refs look (SearchStep i ds host output query labels) \<longleftrightarrow>
     host \<in> refs \<and> object_ok output \<and> bounded_text MAX_TEXT_LEN query \<and> or_revision output = 1 \<and> labels \<noteq> []
     \<and> (\<forall>l \<in> set labels. bounded_text MAX_TEXT_LEN l) \<and> look (or_logical_object_id output) = None"
| "operation_legal refs look (TransformStep i ds host input output intent) \<longleftrightarrow>
     host \<in> refs \<and> object_ok input \<and> object_ok output \<and> bounded_text MAX_TEXT_LEN intent
     \<and> consumes_ok look ds input host
     \<and> or_logical_object_id output = or_logical_object_id input \<and> unat (or_revision output) = unat (or_revision input) + 1"
| "operation_legal refs look (TransferStep i ds source destination input output) \<longleftrightarrow>
     source \<in> refs \<and> destination \<in> refs \<and> object_ok input \<and> consumes_ok look ds input source
     \<and> source \<noteq> destination \<and> output = input"
| "operation_legal refs look (ExecuteStep i ds host target intent) \<longleftrightarrow>
     host \<in> refs \<and> object_ok target \<and> bounded_text MAX_TEXT_LEN intent \<and> consumes_ok look ds target host"

definition step_legal :: "PlanParticipantRef set \<Rightarrow> PlanRootV2 list \<Rightarrow> PlanStepV2 list \<Rightarrow> PlanStepV2 \<Rightarrow> bool" where
  "step_legal refs roots earlier s \<longleftrightarrow>
     bounded_text MAX_ID_LEN (step_id s) \<and> step_id s \<notin> step_id ` set earlier
     \<and> length (dependencies s) \<le> MAX_DEPENDENCIES \<and> distinct (dependencies s)
     \<and> (\<forall>d \<in> set (dependencies s). bounded_text MAX_ID_LEN d \<and> d \<in> step_id ` set earlier)
     \<and> operation_legal refs (last_writer roots earlier) s"

definition roots_legal :: "PlanParticipantRef set \<Rightarrow> PlanRootV2 list \<Rightarrow> bool" where
  "roots_legal refs roots \<longleftrightarrow> distinct (map rt_root_id roots) \<and> distinct (map (or_logical_object_id \<circ> rt_object) roots)
     \<and> (\<forall>r \<in> set roots. bounded_text MAX_ID_LEN (rt_root_id r) \<and> object_ok (rt_object r) \<and> rt_host r \<in> refs)"

definition steps_legal :: "PlanParticipantRef set \<Rightarrow> PlanRootV2 list \<Rightarrow> PlanStepV2 list \<Rightarrow> bool" where
  "steps_legal refs roots steps \<longleftrightarrow> (\<forall>i < length steps. step_legal refs roots (take i steps) (steps ! i))"

definition participants_legal :: "lib \<Rightarrow> string \<Rightarrow> PlanParticipant list \<Rightarrow> bool" where
  "participants_legal L plan_id ps \<longleftrightarrow> distinct (map pp_participant_ref ps) \<and> distinct (map pp_host_ref ps)
     \<and> (\<forall>p \<in> set ps. PlanParticipantRef_for_host L plan_id (pp_host_ref p) = Inr (pp_participant_ref p))"

definition plan_legal :: "lib \<Rightarrow> PlanRevisionV2 \<Rightarrow> bool" where
  "plan_legal L r \<longleftrightarrow>
     pr_schema_version r = PLAN_SCHEMA_VERSION
     \<and> bounded_text MAX_ID_LEN (pr_plan_id r) \<and> bounded_text MAX_ID_LEN (pr_revision_id r)
     \<and> bounded_text MAX_ID_LEN (pr_bridge_id r)
     \<and> bounded_text MAX_TEXT_LEN (pr_original_user_goal r) \<and> bounded_text MAX_TEXT_LEN (pr_expected_outcome r)
     \<and> pr_revision_number r \<noteq> 0
     \<and> pr_participants r \<noteq> [] \<and> length (pr_participants r) \<le> MAX_PARTICIPANTS
     \<and> participants_legal L (pr_plan_id r) (pr_participants r)
     \<and> pr_requester r \<in> pp_participant_ref ` set (pr_participants r)
     \<and> length (pr_roots r) \<le> MAX_ROOTS \<and> pr_steps r \<noteq> [] \<and> length (pr_steps r) \<le> MAX_STEPS
     \<and> roots_legal (pp_participant_ref ` set (pr_participants r)) (pr_roots r)
     \<and> steps_legal (pp_participant_ref ` set (pr_participants r)) (pr_roots r) (pr_steps r)"

section \<open>The validator agrees with the reference\<close>

lemma check_id_Inr [res_simps]: "check_id v l = Inr u \<longleftrightarrow> bounded_text MAX_ID_LEN v"
  by (simp add: check_id_def)

lemma check_text_Inr [res_simps]: "check_text v l = Inr u \<longleftrightarrow> bounded_text MAX_TEXT_LEN v"
  by (simp add: check_text_def)

lemma validate_object_Inr [res_simps]: "validate_object obj = Inr u \<longleftrightarrow> object_ok obj"
  by (auto simp: validate_object_def object_ok_def res_simps)

lemma consumes_ok_iff:
  "(\<exists>state. current_object objects obj = Inr state \<and> require_dependency s (ob_producer state) = Inr () \<and> ob_host state = host)
   \<longleftrightarrow> consumes_ok (hm_get objects) (dependencies s) obj host"
proof
  assume "\<exists>state. current_object objects obj = Inr state \<and> require_dependency s (ob_producer state) = Inr () \<and> ob_host state = host"
  then obtain state where state: "hm_get objects (or_logical_object_id obj) = Some state" "ob_revision state = or_revision obj"
      "ob_host state = host" "require_dependency s (ob_producer state) = Inr ()"
    by (auto simp: current_object_def res_simps)
  then have "state = state_of obj host (ob_producer state)" by (simp add: state_of_def)
  moreover from state(4) have "\<forall>p. ob_producer state = Some p \<longrightarrow> p \<in> set (dependencies s)"
    by (auto simp: require_dependency_def)
  ultimately show "consumes_ok (hm_get objects) (dependencies s) obj host"
    unfolding consumes_ok_def using state(1) by metis
next
  assume "consumes_ok (hm_get objects) (dependencies s) obj host"
  then show "\<exists>state. current_object objects obj = Inr state \<and> require_dependency s (ob_producer state) = Inr () \<and> ob_host state = host"
    by (auto simp: consumes_ok_def current_object_def require_dependency_def state_of_def split: option.split)
qed

lemma checked_successor: "checked_add a 1 = Some b \<longleftrightarrow> unat b = unat a + 1" for a b :: u64
proof
  assume "unat b = unat a + 1"
  moreover have "unat b < 2 ^ 64" using unsigned_less [of b, where ?'a = nat] by simp
  ultimately have "unat a + 1 < 2 ^ 64" by simp
  then have "unat (a + 1) = unat a + 1" by (simp add: unat_word_ariths)
  with \<open>unat b = unat a + 1\<close> have "b = a + 1" by (simp add: word_unat_eq_iff)
  with \<open>unat a + 1 < 2 ^ 64\<close> show "checked_add a 1 = Some b" by (simp add: checked_add_def)
qed (auto dest: unat_checked_add)

lemma validate_operation_Inr:
  assumes "\<And>x. hm_contains by_ref x \<longleftrightarrow> x \<in> refs"
  shows "(\<exists>objects'. validate_operation by_ref objects s = Inr objects') \<longleftrightarrow> operation_legal refs (hm_get objects) s"
proof (cases s)
  case (SearchStep i ds host outp query labels)
  then show ?thesis
    using hm_contains_iff [of objects "or_logical_object_id outp"]
    by (auto simp: res_simps check_participant_def assms)
next
  case (TransformStep i ds host input outp intent)
  have "(\<exists>objects'. validate_operation by_ref objects s = Inr objects') \<longleftrightarrow>
      host \<in> refs \<and> object_ok input \<and> object_ok outp \<and> bounded_text MAX_TEXT_LEN intent
      \<and> (\<exists>state. current_object objects input = Inr state \<and> require_dependency s (ob_producer state) = Inr () \<and> ob_host state = host)
      \<and> or_logical_object_id outp = or_logical_object_id input \<and> checked_add (or_revision input) 1 = Some (or_revision outp)"
    unfolding TransformStep by (auto simp: res_simps check_participant_def assms split: if_splits)
  then show ?thesis unfolding consumes_ok_iff checked_successor by (simp add: TransformStep)
next
  case (TransferStep i ds source destination input outp)
  have "(\<exists>objects'. validate_operation by_ref objects s = Inr objects') \<longleftrightarrow>
      source \<in> refs \<and> destination \<in> refs \<and> object_ok input
      \<and> (\<exists>state. current_object objects input = Inr state \<and> require_dependency s (ob_producer state) = Inr () \<and> ob_host state = source)
      \<and> source \<noteq> destination \<and> outp = input"
    unfolding TransferStep by (auto simp: res_simps check_participant_def assms)
  then show ?thesis unfolding consumes_ok_iff by (simp add: TransferStep)
next
  case (ExecuteStep i ds host target intent)
  have "(\<exists>objects'. validate_operation by_ref objects s = Inr objects') \<longleftrightarrow>
      host \<in> refs \<and> object_ok target \<and> bounded_text MAX_TEXT_LEN intent
      \<and> (\<exists>state. current_object objects target = Inr state \<and> require_dependency s (ob_producer state) = Inr () \<and> ob_host state = host)"
    unfolding ExecuteStep by (auto simp: res_simps check_participant_def assms)
  then show ?thesis unfolding consumes_ok_iff by (simp add: ExecuteStep)
qed

lemma validate_operation_objects:
  assumes "validate_operation by_ref objects s = Inr objects'"
  shows "hm_get objects' oid = (case written_state oid s of None \<Rightarrow> hm_get objects oid | Some st \<Rightarrow> Some st)"
  using assms by (cases s) (auto simp: res_simps written_state_def state_of_def hmap_simps)

lemma last_writer_snoc:
  "last_writer roots (earlier @ [s]) oid = (case written_state oid s of None \<Rightarrow> last_writer roots earlier oid | Some st \<Rightarrow> Some st)"
  by (auto simp: last_writer_def writes_def split: option.split)

lemma last_writer_Nil: "last_writer roots [] oid = root_state oid roots"
  by (simp add: last_writer_def)

lemma steps_legal_Cons:
  "(\<forall>i < length (s # steps). step_legal refs roots (earlier @ take i (s # steps)) ((s # steps) ! i)) \<longleftrightarrow>
    step_legal refs roots earlier s
    \<and> (\<forall>i < length steps. step_legal refs roots ((earlier @ [s]) @ take i steps) (steps ! i))"
  by (auto simp: less_Suc_eq_0_disj)

lemma length_remdups_distinct: "length (remdups xs) = length xs \<longleftrightarrow> distinct xs"
  by (simp only: length_remdups_eq remdups_id_iff_distinct)

lemma validate_steps_Inr:
  assumes "\<And>x. hm_contains by_ref x \<longleftrightarrow> x \<in> refs"
  shows "set ids = step_id ` set earlier \<Longrightarrow> hm_get objects = last_writer roots earlier \<Longrightarrow>
    validate_steps by_ref ids objects steps = Inr () \<longleftrightarrow>
    (\<forall>i < length steps. step_legal refs roots (earlier @ take i steps) (steps ! i))"
proof (induction steps arbitrary: ids objects earlier)
  case Nil
  then show ?case by simp
next
  case (Cons s steps)
  let ?rest = "\<forall>i < length steps. step_legal refs roots ((earlier @ [s]) @ take i steps) (steps ! i)"
  have ids: "set (step_id s # ids) = step_id ` set (earlier @ [s])" using Cons.prems(1) by simp
  have rec: "validate_steps by_ref (step_id s # ids) objects' steps = Inr () \<longleftrightarrow> ?rest"
    if "validate_operation by_ref objects s = Inr objects'" for objects'
    by (rule Cons.IH [OF ids])
      (simp add: fun_eq_iff last_writer_snoc validate_operation_objects [OF that] fun_cong [OF Cons.prems(2)] split: option.split)
  have tail: "(\<exists>objects'. validate_operation by_ref objects s = Inr objects'
          \<and> validate_steps by_ref (step_id s # ids) objects' steps = Inr ())
      \<longleftrightarrow> operation_legal refs (last_writer roots earlier) s \<and> ?rest"
    using rec validate_operation_Inr [OF assms, of objects s] unfolding Cons.prems(2) by blast
  have "validate_steps by_ref ids objects (s # steps) = Inr () \<longleftrightarrow>
      bounded_text MAX_ID_LEN (step_id s) \<and> step_id s \<notin> set ids
      \<and> length (dependencies s) \<le> MAX_DEPENDENCIES \<and> distinct (dependencies s)
      \<and> (\<forall>d \<in> set (dependencies s). bounded_text MAX_ID_LEN d \<and> d \<noteq> step_id s \<and> d \<in> set (step_id s # ids))
      \<and> (\<exists>objects'. validate_operation by_ref objects s = Inr objects'
          \<and> validate_steps by_ref (step_id s # ids) objects' steps = Inr ())"
    by (auto simp: res_simps Let_def length_remdups_distinct not_less)
  also have "\<dots> \<longleftrightarrow> step_legal refs roots earlier s \<and> ?rest"
    unfolding step_legal_def tail by (auto simp: Cons.prems(1))
  finally show ?case unfolding steps_legal_Cons .
qed

lemma validate_participants_Inr:
  "hm_wf acc \<Longrightarrow> set hosts = set (map snd acc) \<Longrightarrow>
   validate_participants L plan_id acc hosts ps = Inr m \<longleftrightarrow>
     m = acc @ map (\<lambda>p. (pp_participant_ref p, pp_host_ref p)) ps
     \<and> distinct (map fst acc @ map pp_participant_ref ps) \<and> distinct (map pp_host_ref ps)
     \<and> set (map snd acc) \<inter> pp_host_ref ` set ps = {}
     \<and> (\<forall>p \<in> set ps. PlanParticipantRef_for_host L plan_id (pp_host_ref p) = Inr (pp_participant_ref p))"
proof (induction ps arbitrary: acc hosts)
  case Nil
  then show ?case by auto
next
  case (Cons p ps)
  show ?case
  proof (cases "PlanParticipantRef_for_host L plan_id (pp_host_ref p) = Inr (pp_participant_ref p)
      \<and> hm_get acc (pp_participant_ref p) = None \<and> pp_host_ref p \<notin> set hosts")
    case True
    let ?acc = "acc @ [(pp_participant_ref p, pp_host_ref p)]"
    from True have fresh: "pp_participant_ref p \<notin> set (map fst acc)" by (simp add: hm_get_def map_of_eq_None_iff)
    then have wf: "hm_wf ?acc" using Cons.prems(1) by simp
    from True have step: "validate_participants L plan_id acc hosts (p # ps) = Inr m \<longleftrightarrow>
        validate_participants L plan_id ?acc (pp_host_ref p # hosts) ps = Inr m"
      by (simp add: hm_contains_iff hm_insert_fresh)
    have hosts: "set (pp_host_ref p # hosts) = set (map snd ?acc)" using Cons.prems(2) by simp
    show ?thesis unfolding step Cons.IH [OF wf hosts] using True Cons.prems(2) by auto
  next
    case False
    then have "validate_participants L plan_id acc hosts (p # ps) \<noteq> Inr m"
      by (auto simp: hm_contains_iff split: sum.splits)
    moreover from False Cons.prems have "\<not> (distinct (map fst acc @ map pp_participant_ref (p # ps))
        \<and> set (map snd acc) \<inter> pp_host_ref ` set (p # ps) = {}
        \<and> PlanParticipantRef_for_host L plan_id (pp_host_ref p) = Inr (pp_participant_ref p))"
      by (auto simp: hm_get_def map_of_eq_None_iff)
    ultimately show ?thesis by auto
  qed
qed

lemma root_state_snoc:
  "root_state oid roots = None \<Longrightarrow> root_state oid (roots @ [r]) =
    (if or_logical_object_id (rt_object r) = oid then Some (state_of (rt_object r) (rt_host r) None) else None)"
  by (induction roots) (auto simp: root_state_def split: if_splits)

lemma root_state_append: "root_state oid roots = Some st \<Longrightarrow> root_state oid (roots @ roots') = Some st"
  by (induction roots) (auto simp: root_state_def split: if_splits)

lemma root_state_None: "root_state oid roots = None \<longleftrightarrow> oid \<notin> set (map (or_logical_object_id \<circ> rt_object) roots)"
  by (induction roots) (auto simp: root_state_def split: if_splits)

lemma validate_roots_Inr:
  assumes "\<And>x. hm_contains by_ref x \<longleftrightarrow> x \<in> refs"
  shows "set ids = rt_root_id ` set earlier \<Longrightarrow> hm_get objects = (\<lambda>oid. root_state oid earlier) \<Longrightarrow>
    roots_legal refs earlier \<Longrightarrow>
    (\<forall>objects'. validate_roots by_ref ids objects roots = Inr objects' \<longrightarrow>
        roots_legal refs (earlier @ roots) \<and> hm_get objects' = (\<lambda>oid. root_state oid (earlier @ roots)))
    \<and> (roots_legal refs (earlier @ roots) \<longrightarrow> (\<exists>objects'. validate_roots by_ref ids objects roots = Inr objects'))"
proof (induction roots arbitrary: ids objects earlier)
  case Nil
  then show ?case by simp
next
  case (Cons r roots)
  let ?oid = "or_logical_object_id (rt_object r)"
  let ?objects = "hm_insert ?oid \<lparr>ob_revision = or_revision (rt_object r), ob_host = rt_host r, ob_producer = None\<rparr> objects"
  let ?ok = "bounded_text MAX_ID_LEN (rt_root_id r) \<and> object_ok (rt_object r) \<and> rt_host r \<in> refs
    \<and> rt_root_id r \<notin> set ids \<and> hm_get objects ?oid = None"
  have step: "validate_roots by_ref ids objects (r # roots) = Inr objects' \<longleftrightarrow>
      ?ok \<and> validate_roots by_ref (rt_root_id r # ids) ?objects roots = Inr objects'" for objects'
    by (auto simp: res_simps check_participant_def assms hm_contains_iff [of objects])
  have ok_iff: "?ok \<longleftrightarrow> roots_legal refs (earlier @ [r])"
    using Cons.prems by (auto simp: roots_legal_def root_state_None)
  show ?case
  proof (cases ?ok)
    case True
    with ok_iff have legal: "roots_legal refs (earlier @ [r])" by simp
    have look: "hm_get ?objects = (\<lambda>oid. root_state oid (earlier @ [r]))"
    proof
      fix oid
      show "hm_get ?objects oid = root_state oid (earlier @ [r])"
      proof (cases "root_state oid earlier")
        case None
        then show ?thesis using fun_cong [OF Cons.prems(2), of oid]
          by (simp add: hmap_simps root_state_snoc state_of_def)
      next
        case (Some st)
        then have "oid \<noteq> ?oid" using True fun_cong [OF Cons.prems(2), of ?oid] by auto
        with Some show ?thesis using fun_cong [OF Cons.prems(2), of oid]
          by (simp add: hmap_simps root_state_append)
      qed
    qed
    have ids: "set (rt_root_id r # ids) = rt_root_id ` set (earlier @ [r])" using Cons.prems(1) by simp
    from Cons.IH [OF ids look legal] True show ?thesis unfolding step by simp
  next
    case False
    have "\<not> roots_legal refs (earlier @ r # roots)"
      using False ok_iff by (auto simp: roots_legal_def)
    with False show ?thesis unfolding step by blast
  qed
qed

lemma validate_revision_legal: "validate_revision L r = Inr () \<longleftrightarrow> plan_legal L r"
proof -
  let ?refs = "pp_participant_ref ` set (pr_participants r)"
  let ?m = "map (\<lambda>p. (pp_participant_ref p, pp_host_ref p)) (pr_participants r)"
  have parts: "validate_participants L (pr_plan_id r) [] [] (pr_participants r) = Inr m \<longleftrightarrow>
      m = ?m \<and> participants_legal L (pr_plan_id r) (pr_participants r)" for m
    using validate_participants_Inr [of "[]" "[]"] by (auto simp: participants_legal_def)
  have refs: "hm_contains ?m x \<longleftrightarrow> x \<in> ?refs" for x
    by (simp add: hm_contains_def map_of_eq_None_iff image_image)
  have roots: "validate_roots ?m [] [] (pr_roots r) = Inr objects \<Longrightarrow>
      roots_legal ?refs (pr_roots r) \<and> hm_get objects = (\<lambda>oid. root_state oid (pr_roots r))"
    and roots': "roots_legal ?refs (pr_roots r) \<Longrightarrow> \<exists>objects. validate_roots ?m [] [] (pr_roots r) = Inr objects" for objects
    using validate_roots_Inr [OF refs, of "[]" "[]" "[]" "pr_roots r"]
    by (auto simp: roots_legal_def root_state_def fun_eq_iff)
  have steps: "validate_steps ?m [] objects (pr_steps r) = Inr () \<longleftrightarrow> steps_legal ?refs (pr_roots r) (pr_steps r)"
    if "hm_get objects = (\<lambda>oid. root_state oid (pr_roots r))" for objects
    using validate_steps_Inr [OF refs, of "[]" "[]" objects "pr_roots r" "pr_steps r"] that
    by (simp add: steps_legal_def fun_eq_iff last_writer_Nil)
  have body: "(\<exists>objects. validate_roots ?m [] [] (pr_roots r) = Inr objects \<and> validate_steps ?m [] objects (pr_steps r) = Inr ())
      \<longleftrightarrow> roots_legal ?refs (pr_roots r) \<and> steps_legal ?refs (pr_roots r) (pr_steps r)"
    using roots roots' steps by blast
  show ?thesis
    unfolding validate_revision_def and_then_Inr ensure_Inr check_id_Inr check_text_Inr parts plan_legal_def
    using refs body by (auto simp: not_less)
qed

text \<open>C15. The validator accepts a revision exactly when it is legal: its header, participants and roots are
  well formed, and every step consumes an object revision exactly where the last earlier writer of that object
  left it, names that writer among its dependencies, and writes exactly what its operation may write (a Search
  a new object at revision 1, a Transform the next revision in the same place, a Transfer the same revision at
  another participant).\<close>

theorem validate_revision_exact: "validate_revision L r = Inr () \<longleftrightarrow> plan_legal L r"
  by (rule validate_revision_legal)

section \<open>Every order that respects the dependencies\<close>

definition dependencies_precede :: "PlanStepV2 list \<Rightarrow> bool" where
  "dependencies_precede steps \<longleftrightarrow>
     (\<forall>i < length steps. \<forall>d \<in> set (dependencies (steps ! i)). \<exists>j < i. step_id (steps ! j) = d)"

definition position :: "PlanStepV2 list \<Rightarrow> PlanStepV2 \<Rightarrow> nat" where
  "position steps s = length (takeWhile (\<lambda>t. t \<noteq> s) steps)"

lemma position_nth: "distinct steps \<Longrightarrow> i < length steps \<Longrightarrow> position steps (steps ! i) = i"
  unfolding position_def
proof (induction steps arbitrary: i)
  case Nil
  then show ?case by simp
next
  case (Cons t steps)
  then show ?case by (cases i) auto
qed

lemma position_sorted: "distinct steps \<Longrightarrow> sorted_wrt (\<lambda>s t. position steps s < position steps t) (filter P steps)"
  by (rule sorted_wrt_filter) (simp add: sorted_wrt_iff_nth_less position_nth)

lemma steps_legal_snoc: "steps_legal refs roots (steps @ [s]) \<longleftrightarrow> steps_legal refs roots steps \<and> step_legal refs roots steps s"
  by (auto simp: steps_legal_def less_Suc_eq nth_append)

lemma steps_legal_ids: "steps_legal refs roots steps \<Longrightarrow> distinct (map step_id steps)"
  by (induction steps rule: rev_induct) (auto simp: steps_legal_snoc step_legal_def)

lemma distinct_ids_inj: "distinct (map step_id steps) \<Longrightarrow> s \<in> set steps \<Longrightarrow> t \<in> set steps \<Longrightarrow> step_id s = step_id t \<Longrightarrow> s = t"
  by (simp add: distinct_map inj_on_def)

text \<open>A writer of an object that has been written before names the last writer among its dependencies.\<close>

lemma writer_depends:
  assumes "step_legal refs roots earlier s" and "writes oid s" and "find (writes oid) (rev earlier) = Some w"
  shows "step_id w \<in> set (dependencies s)"
proof -
  have w: "writes oid w" using assms(3) by (auto simp: find_Some_iff)
  then obtain obj host where "written w = Some (obj, host)" "or_logical_object_id obj = oid"
    and st: "written_state oid w = Some (state_of obj host (Some (step_id w)))"
    by (auto simp: writes_def written_state_def split: option.splits if_splits)
  then have last: "last_writer roots earlier oid = Some (state_of obj host (Some (step_id w)))"
    using assms(3) by (simp add: last_writer_def)
  from assms(1) have "operation_legal refs (last_writer roots earlier) s" by (simp add: step_legal_def)
  with assms(2) last show ?thesis
    by (cases s) (auto simp: writes_def written_state_def consumes_ok_def state_of_def split: if_splits)
qed

lemma find_filter: "find P xs = (case filter P xs of [] \<Rightarrow> None | x # _ \<Rightarrow> Some x)"
  by (induction xs) auto

lemma find_in_set: "find P xs = Some x \<Longrightarrow> x \<in> set xs"
  by (induction xs) (auto split: if_splits)

lemma writers_sorted:
  assumes legal: "steps_legal refs roots steps" and order: "dependencies_precede sched"
    and sub: "set steps \<subseteq> set sched" and ids: "distinct (map step_id sched)"
  shows "sorted_wrt (\<lambda>s t. position sched s < position sched t) (filter (writes oid) steps)"
  using legal sub
proof (induction steps rule: rev_induct)
  case Nil
  then show ?case by simp
next
  case (snoc s steps)
  from snoc.prems have legal: "steps_legal refs roots steps" "step_legal refs roots steps s"
    and sub: "set steps \<subseteq> set sched" "s \<in> set sched" by (simp_all add: steps_legal_snoc)
  note IH = snoc.IH [OF legal(1) sub(1)]
  have dist: "distinct sched" using ids by (simp add: distinct_map)
  have "position sched t < position sched s" if t: "t \<in> set (filter (writes oid) steps)" and s: "writes oid s" for t
  proof -
    obtain ws w where ws: "filter (writes oid) steps = ws @ [w]"
      using t by (cases "filter (writes oid) steps" rule: rev_cases) auto
    then have "filter (writes oid) (rev steps) = w # rev ws" by (simp flip: rev_filter)
    then have find: "find (writes oid) (rev steps) = Some w" by (simp add: find_filter)
    from writer_depends [OF legal(2) s find] have dep: "step_id w \<in> set (dependencies s)" .
    obtain i where i: "i < length sched" "sched ! i = s" using sub(2) by (auto simp: in_set_conv_nth)
    with order dep obtain j where j: "j < i" "step_id (sched ! j) = step_id w" unfolding dependencies_precede_def by metis
    have "w \<in> set (filter (writes oid) steps)" by (simp add: ws)
    then have "w \<in> set sched" using sub(1) by auto
    with j i ids have "sched ! j = w" by (intro distinct_ids_inj [OF ids]) auto
    with i j dist have "position sched w < position sched s" by (metis position_nth order.strict_trans)
    moreover have "position sched t \<le> position sched w"
      using IH t ws by (auto simp: sorted_wrt_append)
    ultimately show ?thesis by simp
  qed
  with IH show ?case by (auto simp: sorted_wrt_append)
qed

lemma position_inj: "distinct sched \<Longrightarrow> inj_on (position sched) (set sched)"
  by (rule inj_onI) (metis in_set_conv_nth position_nth)

lemma writers_in_order:
  assumes legal: "steps_legal refs roots steps" and order: "dependencies_precede sched" and perm: "mset sched = mset steps"
  shows "filter (writes oid) sched = filter (writes oid) steps"
proof -
  have sets: "set sched = set steps" using perm by (rule mset_eq_setD)
  have "mset (map step_id sched) = mset (map step_id steps)" using perm by simp
  then have ids: "distinct (map step_id sched)" using steps_legal_ids [OF legal] by (metis mset_eq_imp_distinct_iff)
  then have dist: "distinct sched" by (simp add: distinct_map)
  let ?xs = "filter (writes oid) sched" and ?ys = "filter (writes oid) steps"
  have sorted: "sorted_wrt (<) (map (position sched) ?xs)" "sorted_wrt (<) (map (position sched) ?ys)"
    using position_sorted [OF dist] writers_sorted [OF legal order _ ids] sets by (simp_all add: sorted_wrt_map)
  have "map (position sched) ?xs = map (position sched) ?ys"
    using sorted sets by (intro sorted_distinct_set_unique) (auto simp: strict_sorted_iff)
  then show ?thesis
    using position_inj [OF dist] sets by (auto simp: inj_on_map_eq_map inj_on_subset)
qed

lemma last_writer_filter:
  "filter (writes oid) steps = filter (writes oid) steps' \<Longrightarrow> last_writer roots steps oid = last_writer roots steps' oid"
  by (simp add: last_writer_def find_filter flip: rev_filter)

lemma root_state_Some:
  "root_state oid roots = Some st \<Longrightarrow> \<exists>r \<in> set roots. or_logical_object_id (rt_object r) = oid \<and> st = state_of (rt_object r) (rt_host r) None"
  by (induction roots) (auto simp: root_state_def split: if_splits)

lemma last_writer_producer:
  assumes "last_writer roots earlier oid = Some st"
  shows "case ob_producer st of
      None \<Rightarrow> \<exists>r \<in> set roots. or_logical_object_id (rt_object r) = oid \<and> or_revision (rt_object r) = ob_revision st \<and> rt_host r = ob_host st
    | Some p \<Rightarrow> \<exists>w \<in> set earlier. step_id w = p \<and> written_state oid w = Some st"
proof (cases "find (writes oid) (rev earlier)")
  case None
  with assms have "root_state oid roots = Some st" by (simp add: last_writer_def)
  from root_state_Some [OF this] show ?thesis by (auto simp: state_of_def)
next
  case (Some w)
  with assms have st: "written_state oid w = Some st" by (simp add: last_writer_def)
  moreover from find_in_set [OF Some] have "w \<in> set earlier" by simp
  moreover from st have "ob_producer st = Some (step_id w)"
    by (auto simp: written_state_def state_of_def split: option.splits if_splits)
  ultimately show ?thesis by auto
qed

text \<open>Every step finds the revision it consumes where it expects it: written by an earlier step of the order,
  or a root.\<close>

lemma consumed_available:
  assumes legal: "steps_legal refs roots steps" and order: "dependencies_precede sched" and perm: "mset sched = mset steps"
    and i: "i < length sched" "consumed (sched ! i) = Some (obj, host)"
  shows "(\<exists>r \<in> set roots. rt_object r = obj \<and> rt_host r = host)
    \<or> (\<exists>j < i. written (sched ! j) = Some (obj, host))"
proof -
  have sets: "set sched = set steps" using perm by (rule mset_eq_setD)
  have "mset (map step_id sched) = mset (map step_id steps)" using perm by simp
  then have ids: "distinct (map step_id sched)" using steps_legal_ids [OF legal] by (metis mset_eq_imp_distinct_iff)
  obtain k where k: "k < length steps" "steps ! k = sched ! i" using i(1) sets by (metis in_set_conv_nth nth_mem)
  let ?s = "sched ! i" and ?earlier = "take k steps"
  from legal k have "step_legal refs roots ?earlier ?s" by (auto simp: steps_legal_def)
  then have "operation_legal refs (last_writer roots ?earlier) ?s" by (simp add: step_legal_def)
  with i(2) have "consumes_ok (last_writer roots ?earlier) (dependencies ?s) obj host" by (cases ?s) auto
  then obtain producer where last: "last_writer roots ?earlier (or_logical_object_id obj) = Some (state_of obj host producer)"
    and dep: "\<forall>p. producer = Some p \<longrightarrow> p \<in> set (dependencies ?s)" by (auto simp: consumes_ok_def)
  note from_where = last_writer_producer [OF last]
  show ?thesis
  proof (cases producer)
    case None
    with from_where obtain root where root: "root \<in> set roots" "rt_host root = host"
        "or_logical_object_id (rt_object root) = or_logical_object_id obj" "or_revision (rt_object root) = or_revision obj"
      by (auto simp: state_of_def)
    then have "rt_object root = obj" by (intro ManagedObjectRevisionV2.equality) simp_all
    with root show ?thesis by blast
  next
    case (Some p)
    with from_where obtain w where w: "w \<in> set ?earlier" "step_id w = p"
      "written_state (or_logical_object_id obj) w = Some (state_of obj host producer)" by (auto simp: state_of_def)
    from dep Some order i(1) obtain j where j: "j < i" "step_id (sched ! j) = p" unfolding dependencies_precede_def by metis
    have "w \<in> set sched" using w(1) sets by (auto dest: in_set_takeD)
    with j i(1) w(2) have "sched ! j = w" by (intro distinct_ids_inj [OF ids]) auto
    moreover from w(3) have "written w = Some (obj, host)"
      by (auto simp: written_state_def state_of_def split: option.splits if_splits)
    ultimately show ?thesis using j(1) by blast
  qed
qed

text \<open>C16. The dependencies of a valid Plan fix its data flow. In whatever order its steps are carried out, as long
  as each step follows the steps it depends on, the writers of every object come in the same order, so every
  object ends in the revision and place the Plan says; and every step finds the exact object revision it
  consumes, at the participant where it consumes it, as a root or written by an earlier step of that order.\<close>

theorem dependencies_fix_data_flow:
  assumes "validate_revision L r = Inr ()" and "mset sched = mset (pr_steps r)" and "dependencies_precede sched"
  shows "filter (writes oid) sched = filter (writes oid) (pr_steps r)
    \<and> last_writer (pr_roots r) sched oid = last_writer (pr_roots r) (pr_steps r) oid
    \<and> (\<forall>i obj host. i < length sched \<and> consumed (sched ! i) = Some (obj, host) \<longrightarrow>
        (\<exists>root \<in> set (pr_roots r). rt_object root = obj \<and> rt_host root = host)
        \<or> (\<exists>j < i. written (sched ! j) = Some (obj, host)))"
proof -
  from assms(1) have legal: "steps_legal (pp_participant_ref ` set (pr_participants r)) (pr_roots r) (pr_steps r)"
    by (simp add: validate_revision_legal plan_legal_def)
  note same = writers_in_order [OF legal assms(3,2), of oid]
  show ?thesis
    using same last_writer_filter [OF same] consumed_available [OF legal assms(3,2)] by blast
qed

text \<open>A step is ready when everything it depends on has been carried out.\<close>

definition ready :: "PlanStepV2 list \<Rightarrow> PlanStepV2 \<Rightarrow> bool" where
  "ready sched s \<longleftrightarrow> set (dependencies s) \<subseteq> step_id ` set sched"

lemma first_missing:
  assumes "\<not> set steps \<subseteq> A"
  obtains i where "i < length steps" and "steps ! i \<notin> A" and "set (take i steps) \<subseteq> A"
proof -
  from assms have "\<exists>i. i < length steps \<and> steps ! i \<notin> A" by (auto simp: in_set_conv_nth)
  then obtain i where i: "i < length steps" "steps ! i \<notin> A" and least: "\<And>j. j < i \<Longrightarrow> \<not> (j < length steps \<and> steps ! j \<notin> A)"
    using exists_least_iff [of "\<lambda>i. i < length steps \<and> steps ! i \<notin> A"] by blast
  have "set (take i steps) \<subseteq> A"
    using i(1) least by (auto simp: in_set_conv_nth)
  with i that show ?thesis by blast
qed

lemma ready_step_exists:
  assumes "steps_legal refs roots steps" and "\<not> set steps \<subseteq> set sched"
  shows "\<exists>s \<in> set steps - set sched. ready sched s"
proof -
  obtain i where i: "i < length steps" "steps ! i \<notin> set sched" "set (take i steps) \<subseteq> set sched"
    by (rule first_missing [OF assms(2)])
  from assms(1) i(1) have "step_legal refs roots (take i steps) (steps ! i)" by (simp add: steps_legal_def)
  then have "set (dependencies (steps ! i)) \<subseteq> step_id ` set (take i steps)" by (auto simp: step_legal_def)
  also have "\<dots> \<subseteq> step_id ` set sched" using i(3) by (rule image_mono)
  finally show ?thesis using i(1,2) by (auto simp: ready_def)
qed

text \<open>C17. Running ready steps finishes a valid Plan. Whichever ready step is taken each time, the run never gets
  stuck: as long as a step is missing, some missing step is ready; so a run that can take no further step has
  carried out every step exactly once, after as many steps as the Plan has.\<close>

theorem ready_steps_complete:
  assumes "validate_revision L r = Inr ()" and "distinct sched" and "set sched \<subseteq> set (pr_steps r)"
    and "\<forall>s \<in> set (pr_steps r) - set sched. \<not> ready sched s"
  shows "mset sched = mset (pr_steps r) \<and> length sched = length (pr_steps r)"
proof -
  from assms(1) have legal: "steps_legal (pp_participant_ref ` set (pr_participants r)) (pr_roots r) (pr_steps r)"
    by (simp add: validate_revision_legal plan_legal_def)
  from ready_step_exists [OF legal] assms(4) have "set (pr_steps r) \<subseteq> set sched" by blast
  with assms(3) have "set sched = set (pr_steps r)" by blast
  moreover have "distinct (pr_steps r)" using steps_legal_ids [OF legal] by (simp add: distinct_map)
  ultimately have "mset sched = mset (pr_steps r)" using assms(2) by (simp add: set_eq_iff_mset_eq_distinct)
  then show ?thesis by (metis size_mset)
qed

section \<open>Examples\<close>

text \<open>A Plan over two Hosts: an object is found at the first, changed there, moved to the second and executed
  there; a second object is found at the second Host meanwhile.\<close>

definition ex_obj :: "string \<Rightarrow> u64 \<Rightarrow> ManagedObjectRevisionV2" where
  "ex_obj oid n = \<lparr>or_logical_object_id = oid, or_revision = n\<rparr>"

definition ex_ref :: "string \<Rightarrow> PlanParticipantRef" where
  "ex_ref h = PARTICIPANT_REF_PREFIX @ blake3_hex plain_lib (participant_ref_message ''p'' h)"

definition ex_search :: PlanStepV2 where "ex_search = SearchStep ''s1'' [] (ex_ref ''A'') (ex_obj ''o'' 1) ''find'' [''scope'']"
definition ex_transform :: PlanStepV2 where
  "ex_transform = TransformStep ''s2'' [''s1''] (ex_ref ''A'') (ex_obj ''o'' 1) (ex_obj ''o'' 2) ''edit''"
definition ex_transfer :: PlanStepV2 where
  "ex_transfer = TransferStep ''s3'' [''s2''] (ex_ref ''A'') (ex_ref ''B'') (ex_obj ''o'' 2) (ex_obj ''o'' 2)"
definition ex_execute :: PlanStepV2 where
  "ex_execute = ExecuteStep ''s4'' [''s3''] (ex_ref ''B'') (ex_obj ''o'' 2) ''run''"
definition ex_other :: PlanStepV2 where
  "ex_other = SearchStep ''s5'' [] (ex_ref ''B'') (ex_obj ''q'' 1) ''find'' [''scope'']"

definition ex_plan :: PlanRevisionV2 where
  "ex_plan = \<lparr>pr_schema_version = PLAN_SCHEMA_VERSION, pr_plan_id = ''p'', pr_revision_id = ''r'', pr_revision_number = 1,
     pr_revision_hash = [], pr_bridge_id = ''b'', pr_requester = ex_ref ''A'',
     pr_participants = [\<lparr>pp_participant_ref = ex_ref ''A'', pp_host_ref = ''A''\<rparr>, \<lparr>pp_participant_ref = ex_ref ''B'', pp_host_ref = ''B''\<rparr>],
     pr_roots = [], pr_original_user_goal = ''goal'', pr_expected_outcome = ''outcome'',
     pr_steps = [ex_search, ex_transform, ex_transfer, ex_execute, ex_other]\<rparr>"

lemmas ex_steps = ex_search_def ex_transform_def ex_transfer_def ex_execute_def ex_other_def ex_obj_def

lemma bounded_text_examples:
  "bounded_text n s" if "s \<in> {''p'', ''r'', ''b'', ''o'', ''q'', ''s1'', ''s2'', ''s3'', ''s4'', ''s5''}" "2 \<le> n"
  using that by (auto simp: bounded_text_def trim_def ws1_def ws2_def ws3_def)

lemma bounded_text_words:
  "bounded_text MAX_TEXT_LEN s" if "s \<in> {''goal'', ''outcome'', ''find'', ''scope'', ''edit'', ''run''}"
  using that by (auto simp: bounded_text_def trim_def ws1_def ws2_def ws3_def MAX_TEXT_LEN_def)

lemma ex_ref_neq [simp]: "ex_ref ''A'' \<noteq> ex_ref ''B''" "ex_ref ''B'' \<noteq> ex_ref ''A''"
  by (simp_all add: ex_ref_def plain_lib_def participant_ref_message_def as_bytes_def)

lemma ex_participants: "participants_legal plain_lib ''p'' (pr_participants ex_plan)"
  by (simp add: participants_legal_def ex_plan_def PlanParticipantRef_for_host_def ex_ref_def trim_def ws1_def)
    (simp add: plain_lib_def participant_ref_message_def as_bytes_def)

lemma ex_plan_valid: "validate_revision plain_lib ex_plan = Inr ()"
proof -
  let ?refs = "{ex_ref ''A'', ex_ref ''B''}"
  have ids: "2 \<le> MAX_ID_LEN" by (simp add: MAX_ID_LEN_def)
  have parts: "participants_legal plain_lib (pr_plan_id ex_plan) (pr_participants ex_plan)"
    using ex_participants by (simp add: ex_plan_def)
  have refs: "pp_participant_ref ` set (pr_participants ex_plan) = ?refs" by (simp add: ex_plan_def)
  have "steps_legal ?refs [] ([] @ [ex_search] @ [ex_transform] @ [ex_transfer] @ [ex_execute] @ [ex_other])"
    unfolding append_assoc [symmetric] steps_legal_snoc
    by (simp add: steps_legal_def step_legal_def ex_steps last_writer_def writes_def written_state_def root_state_def
      consumes_ok_def state_of_def object_ok_def MAX_DEPENDENCIES_def bounded_text_words bounded_text_examples [OF _ ids])
  then show ?thesis
    unfolding validate_revision_legal plan_legal_def refs
    using parts bounded_text_examples [OF _ ids] bounded_text_words
    by (simp add: ex_plan_def MAX_PARTICIPANTS_def MAX_ROOTS_def MAX_STEPS_def roots_legal_def)
qed

theorem dependencies_fix_data_flow_witness:
  "last_writer (pr_roots ex_plan) [ex_other, ex_search, ex_transform, ex_transfer, ex_execute] ''o''
     = Some (state_of (ex_obj ''o'' 2) (ex_ref ''B'') (Some ''s3''))
   \<and> (\<exists>j < 4. written ([ex_other, ex_search, ex_transform, ex_transfer, ex_execute] ! j) = Some (ex_obj ''o'' 2, ex_ref ''B''))"
proof -
  let ?sched = "[ex_other, ex_search, ex_transform, ex_transfer, ex_execute]"
  have perm: "mset ?sched = mset (pr_steps ex_plan)" by (simp add: ex_plan_def)
  have order: "dependencies_precede ?sched"
    unfolding dependencies_precede_def
    by (simp add: All_less_Suc Ex_less_Suc ex_steps numeral_nat)
  note flow = dependencies_fix_data_flow [OF ex_plan_valid perm order, of "''o''"]
  have "last_writer (pr_roots ex_plan) (pr_steps ex_plan) ''o'' = Some (state_of (ex_obj ''o'' 2) (ex_ref ''B'') (Some ''s3''))"
    by (simp add: ex_plan_def last_writer_def writes_def written_state_def ex_steps)
  moreover have "4 < length ?sched \<and> consumed (?sched ! 4) = Some (ex_obj ''o'' 2, ex_ref ''B'')" by (simp add: ex_steps)
  moreover have "pr_roots ex_plan = []" by (simp add: ex_plan_def)
  ultimately show ?thesis using flow by (metis empty_iff list.set(1))
qed

theorem ready_steps_complete_witness:
  "length [ex_other, ex_search, ex_transform, ex_transfer, ex_execute] = length (pr_steps ex_plan)
   \<and> (\<exists>s \<in> set (pr_steps ex_plan) - set [ex_other, ex_search]. ready [ex_other, ex_search] s)"
proof
  let ?sched = "[ex_other, ex_search, ex_transform, ex_transfer, ex_execute]"
  have "distinct ?sched" "set ?sched \<subseteq> set (pr_steps ex_plan)" "\<forall>s \<in> set (pr_steps ex_plan) - set ?sched. \<not> ready ?sched s"
    by (simp_all add: ex_plan_def) (simp add: ex_steps)
  from ready_steps_complete [OF ex_plan_valid this] show "length ?sched = length (pr_steps ex_plan)" by simp
  have "length [ex_other, ex_search] \<noteq> length (pr_steps ex_plan)" "distinct [ex_other, ex_search]"
      "set [ex_other, ex_search] \<subseteq> set (pr_steps ex_plan)"
    by (simp_all add: ex_plan_def) (simp add: ex_steps)
  with ready_steps_complete [OF ex_plan_valid, of "[ex_other, ex_search]"]
  show "\<exists>s \<in> set (pr_steps ex_plan) - set [ex_other, ex_search]. ready [ex_other, ex_search] s" by blast
qed

end
