(* ===== verification/Plan_Seal.thy ===== *)
theory Plan_Seal
  imports Plan_Order
begin

text \<open>
  The seal of a Plan revision: \<^verbatim>\<open>canonical_revision_hash\<close>, \<^verbatim>\<open>seal_revision\<close> and \<^verbatim>\<open>verify_sealed_revision\<close> of
  \<^verbatim>\<open>src-tauri/src/bridge_plan_v2.rs\<close>. The serializers are injective even after the canonical printer has
  reordered the keys, so the hash determines every field of a revision.
\<close>

section \<open>The serializers under the canonical order of keys\<close>

definition key_injective :: "('a \<Rightarrow> json) \<Rightarrow> bool" where
  "key_injective f \<longleftrightarrow> (\<forall>x y. normal_json (f x) = normal_json (f y) \<longrightarrow> x = y)"

lemma key_injectiveD: "key_injective f \<Longrightarrow> normal_json (f x) = normal_json (f y) \<Longrightarrow> x = y"
  by (simp add: key_injective_def)

lemma key_injective_jlist:
  assumes "key_injective f"
  shows "key_injective (jlist f)"
  unfolding key_injective_def
proof (intro allI impI)
  fix xs ys
  assume "normal_json (jlist f xs) = normal_json (jlist f ys)"
  then have "map (normal_json \<circ> f) xs = map (normal_json \<circ> f) ys" by (simp add: jlist_def)
  moreover have "inj (normal_json \<circ> f)" using key_injectiveD [OF assms] by (auto intro: injI)
  ultimately show "xs = ys" by (simp add: inj_map_eq_map)
qed

lemma key_injective_str: "key_injective JStr"
  by (simp add: key_injective_def)

lemma object_revision_key_injective: "key_injective object_revision_json"
  unfolding key_injective_def
proof (intro allI impI)
  fix x y
  assume "normal_json (object_revision_json x) = normal_json (object_revision_json y)"
  note member = normal_json_member [OF this [unfolded object_revision_json_def]]
  from member [of "''logicalObjectId''"] member [of "''revision''"] show "x = y"
    by (intro ManagedObjectRevisionV2.equality) (simp_all add: ju64_def word_uint_eq_iff)
qed

lemma root_key_injective: "key_injective root_json"
  unfolding key_injective_def
proof (intro allI impI)
  fix x y
  assume "normal_json (root_json x) = normal_json (root_json y)"
  note member = normal_json_member [OF this [unfolded root_json_def]]
  from member [of "''rootId''"] member [of "''object''"] member [of "''host''"]
    object_revision_key_injective [THEN key_injectiveD] show "x = y"
    by (intro PlanRootV2.equality) simp_all
qed

lemma participant_key_injective: "key_injective participant_json"
  unfolding key_injective_def
proof (intro allI impI)
  fix x y
  assume "normal_json (participant_json x) = normal_json (participant_json y)"
  note member = normal_json_member [OF this [unfolded participant_json_def]]
  from member [of "''participantRef''"] member [of "''hostRef''"] show "x = y"
    by (intro PlanParticipant.equality) simp_all
qed

lemmas step_fields = object_revision_key_injective [THEN key_injectiveD]
  key_injective_jlist [OF key_injective_str, THEN key_injectiveD]

lemma step_operation_tag:
  assumes "normal_json (step_json x) = normal_json (step_json y)"
  shows "operation x = operation y"
proof -
  obtain kvs where x: "step_json x = JObj kvs" "distinct (map fst kvs)"
      "map_of kvs ''operation'' = Some (step_operation_json (operation x))"
    by (cases x) (simp_all add: step_operation_json_def)
  obtain kvs' where y: "step_json y = JObj kvs'" "distinct (map fst kvs')"
      "map_of kvs' ''operation'' = Some (step_operation_json (operation y))"
    by (cases y) (simp_all add: step_operation_json_def)
  from normal_json_member [OF assms [unfolded x(1) y(1)] x(2) y(2), of "''operation''"] x(3) y(3)
  show ?thesis by (simp add: step_operation_json_def split: StepOperation.splits)
qed

lemma step_key_injective: "key_injective step_json"
  unfolding key_injective_def
proof (intro allI impI)
  fix x y
  assume eq: "normal_json (step_json x) = normal_json (step_json y)"
  note op = step_operation_tag [OF eq]
  show "x = y"
  proof (cases x)
    case (SearchStep i ds h out q ls)
    with op obtain i' ds' h' out' q' ls' where y: "y = SearchStep i' ds' h' out' q' ls'" by (cases y) auto
    note member = normal_json_member [OF eq [unfolded SearchStep y step_json.simps]]
    from member [of "''stepId''"] member [of "''dependsOn''"] member [of "''host''"] member [of "''output''"]
      member [of "''query''"] member [of "''safeScopeLabels''"]
    show ?thesis unfolding SearchStep y by (simp add: step_fields)
  next
    case (TransformStep i ds h inp out m)
    with op obtain i' ds' h' inp' out' m' where y: "y = TransformStep i' ds' h' inp' out' m'" by (cases y) auto
    note member = normal_json_member [OF eq [unfolded TransformStep y step_json.simps]]
    from member [of "''stepId''"] member [of "''dependsOn''"] member [of "''host''"] member [of "''input''"]
      member [of "''output''"] member [of "''modificationIntent''"]
    show ?thesis unfolding TransformStep y by (simp add: step_fields)
  next
    case (TransferStep i ds s d inp out)
    with op obtain i' ds' s' d' inp' out' where y: "y = TransferStep i' ds' s' d' inp' out'" by (cases y) auto
    note member = normal_json_member [OF eq [unfolded TransferStep y step_json.simps]]
    from member [of "''stepId''"] member [of "''dependsOn''"] member [of "''source''"] member [of "''destination''"]
      member [of "''input''"] member [of "''output''"]
    show ?thesis unfolding TransferStep y by (simp add: step_fields)
  next
    case (ExecuteStep i ds h t e)
    with op obtain i' ds' h' t' e' where y: "y = ExecuteStep i' ds' h' t' e'" by (cases y) auto
    note member = normal_json_member [OF eq [unfolded ExecuteStep y step_json.simps]]
    from member [of "''stepId''"] member [of "''dependsOn''"] member [of "''host''"] member [of "''target''"]
      member [of "''executionIntent''"]
    show ?thesis unfolding ExecuteStep y by (simp add: step_fields)
  qed
qed

lemma semantic_revision_injective:
  assumes "normal_json (semantic_revision_json a) = normal_json (semantic_revision_json b)"
  shows "a\<lparr>pr_revision_hash := []\<rparr> = b\<lparr>pr_revision_hash := []\<rparr>"
proof -
  note member = normal_json_member [OF assms [unfolded semantic_revision_json_def]]
  note lists = key_injective_jlist [OF participant_key_injective, THEN key_injectiveD]
    key_injective_jlist [OF root_key_injective, THEN key_injectiveD]
    key_injective_jlist [OF step_key_injective, THEN key_injectiveD]
  from member [of "''schema_version''"] have 1: "pr_schema_version a = pr_schema_version b" by simp
  from member [of "''plan_id''"] have 2: "pr_plan_id a = pr_plan_id b" by simp
  from member [of "''revision_id''"] have 3: "pr_revision_id a = pr_revision_id b" by simp
  from member [of "''revision_number''"] have 4: "pr_revision_number a = pr_revision_number b" by (simp add: word_uint_eq_iff)
  from member [of "''bridge_id''"] have 5: "pr_bridge_id a = pr_bridge_id b" by simp
  from member [of "''requester''"] have 6: "pr_requester a = pr_requester b" by simp
  from member [of "''participants''"] have 7: "pr_participants a = pr_participants b" by (simp add: lists(1))
  from member [of "''roots''"] have 8: "pr_roots a = pr_roots b" by (simp add: lists(2))
  from member [of "''original_user_goal''"] have 9: "pr_original_user_goal a = pr_original_user_goal b" by simp
  from member [of "''expected_outcome''"] have 10: "pr_expected_outcome a = pr_expected_outcome b" by simp
  from member [of "''steps''"] have 11: "pr_steps a = pr_steps b" by (simp add: lists(3))
  show ?thesis by (intro PlanRevisionV2.equality) (simp_all add: 1 2 3 4 5 6 7 8 9 10 11)
qed

section \<open>What the seal says\<close>

lemma verify_sealed_Inr:
  "verify_sealed_revision L r = Inr () \<longleftrightarrow>
     plan_legal L r \<and> pr_revision_hash r = HASH_VERSION @ '':'' @ blake3_hex L (revision_hash_message L r)"
  by (auto simp: verify_sealed_revision_def canonical_revision_hash_def validate_revision_legal [symmetric] res_simps
      HASH_VERSION_def starts_with_def)

lemma revision_hash_message_inj:
  assumes "json_str_delimited L" and "revision_hash_message L a = revision_hash_message L b"
  shows "a\<lparr>pr_revision_hash := []\<rparr> = b\<lparr>pr_revision_hash := []\<rparr>"
proof -
  from assms(2) have "canonical_json L (semantic_revision_json a) = canonical_json L (semantic_revision_json b)"
    by (simp add: revision_hash_message_def)
  then show ?thesis
    by (intro semantic_revision_injective) (simp add: canonical_json_eq_iff [OF assms(1)])
qed

lemma sealed_hash_determines:
  assumes "json_str_delimited L" and "collision_free L {revision_hash_message L a, revision_hash_message L b}"
    and "verify_sealed_revision L a = Inr ()" and "verify_sealed_revision L b = Inr ()"
    and "pr_revision_hash a = pr_revision_hash b"
  shows "a = b"
proof -
  from assms(3-5) have "blake3_hex L (revision_hash_message L a) = blake3_hex L (revision_hash_message L b)"
    by (simp add: verify_sealed_Inr)
  then have "revision_hash_message L a = revision_hash_message L b"
    by (rule collision_freeD [OF assms(2) insertI1 insertI2 [OF singletonI]])
  from revision_hash_message_inj [OF assms(1) this] have "a\<lparr>pr_revision_hash := []\<rparr> = b\<lparr>pr_revision_hash := []\<rparr>" .
  with assms(5) show ?thesis by (cases a; cases b) simp
qed

lemma semantic_revision_ignores_hash: "semantic_revision_json (r\<lparr>pr_revision_hash := h\<rparr>) = semantic_revision_json r"
  by (simp add: semantic_revision_json_def)

lemma plan_legal_ignores_hash: "plan_legal L (r\<lparr>pr_revision_hash := h\<rparr>) \<longleftrightarrow> plan_legal L r"
  by (simp add: plan_legal_def)

lemma seal_revision_Inr:
  "seal_revision L r = Inr r' \<longleftrightarrow> pr_revision_hash r = [] \<and> plan_legal L r
     \<and> r' = r\<lparr>pr_revision_hash := HASH_VERSION @ '':'' @ blake3_hex L (revision_hash_message L r)\<rparr>"
  by (auto simp: seal_revision_def canonical_revision_hash_def validate_revision_legal res_simps)

text \<open>C18. Sealing succeeds exactly on a valid revision that has no hash yet, changes nothing but the hash, and its
  result verifies. A sealed revision is then named by its hash: a revision with the same hash that verifies is
  equal to it in every field, unless the hash function collides on the two canonical texts. Whoever reviews a
  Plan by its hash has reviewed its participants, roots, texts, steps and dependencies.\<close>

theorem seal_then_verify:
  assumes "json_str_delimited L"
  shows "(is_ok (seal_revision L r) \<longleftrightarrow> pr_revision_hash r = [] \<and> is_ok (validate_revision L r))
    \<and> (\<forall>r'. seal_revision L r = Inr r' \<longrightarrow>
        r'\<lparr>pr_revision_hash := []\<rparr> = r \<and> verify_sealed_revision L r' = Inr ()
        \<and> (\<forall>r''. pr_revision_hash r'' = pr_revision_hash r' \<and> verify_sealed_revision L r'' = Inr ()
            \<and> collision_free L {revision_hash_message L r', revision_hash_message L r''} \<longrightarrow> r'' = r'))"
proof (intro conjI allI impI)
  show "is_ok (seal_revision L r) \<longleftrightarrow> pr_revision_hash r = [] \<and> is_ok (validate_revision L r)"
    by (auto simp: is_ok_unit is_ok_iff [of "seal_revision L r"] seal_revision_Inr validate_revision_legal)
next
  fix r' assume seal: "seal_revision L r = Inr r'"
  then show "r'\<lparr>pr_revision_hash := []\<rparr> = r" by (auto simp: seal_revision_Inr)
  show ok: "verify_sealed_revision L r' = Inr ()"
    using seal by (auto simp: seal_revision_Inr verify_sealed_Inr plan_legal_ignores_hash revision_hash_message_def
        semantic_revision_ignores_hash)
  fix r'' assume "pr_revision_hash r'' = pr_revision_hash r' \<and> verify_sealed_revision L r'' = Inr ()
      \<and> collision_free L {revision_hash_message L r', revision_hash_message L r''}"
  with ok sealed_hash_determines [OF assms, of r' r''] show "r'' = r'" by simp
qed

definition ex_sealed :: PlanRevisionV2 where
  "ex_sealed = ex_plan\<lparr>pr_revision_hash := HASH_VERSION @ '':'' @ blake3_hex plain_lib (revision_hash_message plain_lib ex_plan)\<rparr>"

lemma ex_seal: "seal_revision plain_lib ex_plan = Inr ex_sealed"
proof -
  have "pr_revision_hash ex_plan = []" by (simp add: ex_plan_def)
  with ex_plan_valid show ?thesis by (simp add: seal_revision_Inr ex_sealed_def validate_revision_legal)
qed

lemma ex_sealed_verifies: "verify_sealed_revision plain_lib ex_sealed = Inr ()"
proof -
  have "plan_legal plain_lib ex_plan" using ex_plan_valid by (simp add: validate_revision_legal)
  then show ?thesis
    by (simp add: verify_sealed_Inr ex_sealed_def plan_legal_ignores_hash revision_hash_message_def semantic_revision_ignores_hash)
qed

text \<open>Another Bridge under the same hash does not verify.\<close>

theorem seal_then_verify_witness:
  "verify_sealed_revision plain_lib ex_sealed = Inr () \<and> ex_sealed\<lparr>pr_revision_hash := []\<rparr> = ex_plan
   \<and> verify_sealed_revision plain_lib (ex_sealed\<lparr>pr_bridge_id := ''c''\<rparr>) \<noteq> Inr ()"
proof -
  note seal = seal_then_verify [OF json_str_delimited_plain_lib, of ex_plan, THEN conjunct2, rule_format, OF ex_seal]
  have "pr_bridge_id (ex_sealed\<lparr>pr_bridge_id := ''c''\<rparr>) \<noteq> pr_bridge_id ex_sealed"
    by (simp add: ex_sealed_def ex_plan_def)
  then have "ex_sealed\<lparr>pr_bridge_id := ''c''\<rparr> \<noteq> ex_sealed" by metis
  moreover have "pr_revision_hash (ex_sealed\<lparr>pr_bridge_id := ''c''\<rparr>) = pr_revision_hash ex_sealed" by simp
  ultimately show ?thesis using seal collision_free_plain_lib by blast
qed

end
