(* ===== verification/Host_Admission.thy ===== *)
theory Host_Admission
  imports Plan_Seal "HOL-Library.FSet"
begin

text \<open>
  Host-local admission, \<^verbatim>\<open>src-tauri/src/host_admission.rs\<close>: whether this Host takes on the part of an approved
  Plan that is bound to it, and under which constraints. The service holds only the reference of its Host, which
  is the argument \<open>local_host_ref\<close>. Its decision is computed from the sealed revision, the requester's approval,
  the request, the freshness resolved now, and what the runtime can provide.
\<close>

section \<open>Data\<close>

record HostAdmissionRequestV2 =
  ar_attempt_id :: string
  ar_approval_id :: string
  ar_plan_id :: string
  ar_revision_id :: string
  ar_revision_hash :: string
  ar_host_ref :: HostRef
  ar_participant_ref :: PlanParticipantRef
  ar_protocol_correlation_id :: string
  ar_execution_freshness :: HostExecutionFreshness

record AdmittedHostWork =
  aw_step_id :: string
  aw_operation :: StepOperation
  aw_semantic_digest :: string

record HostAdmissionConstraints =
  ac_allowed_step_ids :: "string list"
  ac_allowed_operations :: "StepOperation list"
  ac_expires_at :: int
  ac_requires_current_session :: bool
  ac_modification_authority :: bool

record HostAdmission =
  ad_admission_ref :: string
  ad_approval_id :: string
  ad_plan_id :: string
  ad_revision_id :: string
  ad_revision_hash :: string
  ad_host_ref :: HostRef
  ad_participant_ref :: PlanParticipantRef
  ad_session_binding_ref :: string
  ad_work :: "AdmittedHostWork list"
  ad_constraints :: HostAdmissionConstraints

datatype HostAdmissionDenialCode =
  ApprovalMismatch | PlanMismatch | HostMismatch | SessionMismatch | NoHostBoundWork | UnsupportedOperation | Expired

datatype HostAdmissionDecision = Admit HostAdmission | Deny HostAdmissionDenialCode string

primrec admitted :: "HostAdmissionDecision \<Rightarrow> HostAdmission option" where
  "admitted (Admit a) = Some a"
| "admitted (Deny _ _) = None"

record PlanApprovalV2 =
  ap_approval_id :: string
  ap_plan_id :: string
  ap_revision_id :: string
  ap_revision_hash :: string
  ap_bridge_id :: string
  ap_requester :: PlanParticipantRef
  ap_expires_at :: int

record ManagedPrimitiveAvailabilityV1 =
  av_transform_hosts :: "HostRef fset"
  av_execute_hosts :: "HostRef fset"

definition availability_unavailable :: ManagedPrimitiveAvailabilityV1 where
  "availability_unavailable = \<lparr>av_transform_hosts = {||}, av_execute_hosts = {||}\<rparr>"

definition verified_attachment :: "HostRef \<Rightarrow> bool \<Rightarrow> bool \<Rightarrow> ManagedPrimitiveAvailabilityV1" where
  "verified_attachment host_ref transform execute =
     \<lparr>av_transform_hosts = (if transform then {|host_ref|} else {||}),
      av_execute_hosts = (if execute then {|host_ref|} else {||})\<rparr>"

fun supports :: "ManagedPrimitiveAvailabilityV1 \<Rightarrow> PlanRevisionV2 \<Rightarrow> PlanStepV2 \<Rightarrow> bool" where
  "supports availability revision (TransformStep _ _ host _ _ _) =
     (case participant_for_ref revision host of None \<Rightarrow> False
      | Some p \<Rightarrow> pp_host_ref p |\<in>| av_transform_hosts availability)"
| "supports availability revision (ExecuteStep _ _ host _ _) =
     (case participant_for_ref revision host of None \<Rightarrow> False
      | Some p \<Rightarrow> pp_host_ref p |\<in>| av_execute_hosts availability)"
| "supports availability revision (SearchStep _ _ _ _ _ _) = True"
| "supports availability revision (TransferStep _ _ _ _ _ _) = True"

section \<open>Work and reference\<close>

definition admitted_work_v2 :: "lib \<Rightarrow> PlanStepV2 \<Rightarrow> AdmittedHostWork" where
  "admitted_work_v2 L step = \<lparr>aw_step_id = step_id step, aw_operation = operation step,
     aw_semantic_digest = ''host-work:v2:'' @ blake3_hex L (json_vec L (step_json step))\<rparr>"

definition work_json :: "AdmittedHostWork \<Rightarrow> json" where
  "work_json w = JObj [(''stepId'', JStr (aw_step_id w)), (''operation'', step_operation_json (aw_operation w)),
     (''semanticDigest'', JStr (aw_semantic_digest w))]"

definition constraints_json :: "HostAdmissionConstraints \<Rightarrow> json" where
  "constraints_json c = JObj [(''allowedStepIds'', jlist JStr (ac_allowed_step_ids c)),
     (''allowedOperations'', jlist step_operation_json (ac_allowed_operations c)),
     (''expiresAt'', JInt (ac_expires_at c)), (''requiresCurrentSession'', JBool (ac_requires_current_session c)),
     (''modificationAuthority'', JBool (ac_modification_authority c))]"

definition admission_identity :: "HostAdmissionRequestV2 \<Rightarrow> string list" where
  "admission_identity request = [ar_attempt_id request, ar_approval_id request, ar_plan_id request,
     ar_revision_id request, ar_revision_hash request, ar_host_ref request, ar_participant_ref request,
     ar_protocol_correlation_id request, freshness_authority_ref (ar_execution_freshness request)]"

definition admission_message ::
  "lib \<Rightarrow> HostAdmissionRequestV2 \<Rightarrow> AdmittedHostWork list \<Rightarrow> HostAdmissionConstraints \<Rightarrow> byte list" where
  "admission_message L request work constraints =
     as_bytes ''pastey-host-admission-v2-attempt-bound-v1'' @ [0] @ nul_terminated (admission_identity request)
     @ json_vec L (jlist work_json work) @ json_vec L (constraints_json constraints)"

definition admission_ref_v2 ::
  "lib \<Rightarrow> HostAdmissionRequestV2 \<Rightarrow> AdmittedHostWork list \<Rightarrow> HostAdmissionConstraints \<Rightarrow> string" where
  "admission_ref_v2 L request work constraints =
     ''host-admission:v2-attempt-bound:'' @ blake3_hex L (admission_message L request work constraints)"

section \<open>The decision\<close>

definition constraints_for :: "AdmittedHostWork list \<Rightarrow> int \<Rightarrow> HostAdmissionConstraints" where
  "constraints_for work expires_at = \<lparr>ac_allowed_step_ids = map aw_step_id work,
     ac_allowed_operations = map aw_operation work, ac_expires_at = expires_at, ac_requires_current_session = True,
     ac_modification_authority = list_ex (\<lambda>w. aw_operation w = OpTransform) work\<rparr>"

definition admission_for ::
  "lib \<Rightarrow> HostRef \<Rightarrow> HostAdmissionRequestV2 \<Rightarrow> AdmittedHostWork list \<Rightarrow> HostAdmissionConstraints \<Rightarrow> HostAdmission" where
  "admission_for L local_host_ref request work constraints =
     \<lparr>ad_admission_ref = admission_ref_v2 L request work constraints, ad_approval_id = ar_approval_id request,
      ad_plan_id = ar_plan_id request, ad_revision_id = ar_revision_id request,
      ad_revision_hash = ar_revision_hash request, ad_host_ref = local_host_ref,
      ad_participant_ref = ar_participant_ref request,
      ad_session_binding_ref = freshness_authority_ref (ar_execution_freshness request),
      ad_work = work, ad_constraints = constraints\<rparr>"

text \<open>The match on the kind of freshness: local work only for the requester itself, remote work only for the
  peer of the session as requester.\<close>

definition requester_mismatch ::
  "HostRef \<Rightarrow> PlanRevisionV2 \<Rightarrow> HostAdmissionRequestV2 \<Rightarrow> HostRef \<Rightarrow> string option" where
  "requester_mismatch local_host_ref revision request requester_host_ref =
     (case ar_execution_freshness request of
        LocalFreshness _ \<Rightarrow>
          if ar_participant_ref request \<noteq> pr_requester revision \<or> requester_host_ref \<noteq> local_host_ref
          then Some ''Local admission is not bound to the exact requester participant.'' else None
      | RemoteFreshness binding \<Rightarrow>
          if requester_host_ref \<noteq> sb_peer_host_ref binding \<or> ar_participant_ref request = pr_requester revision
          then Some ''The current Layer 4 peer is not the approved v2 requester Host.'' else None)"

definition local_steps :: "PlanRevisionV2 \<Rightarrow> PlanParticipantRef \<Rightarrow> PlanStepV2 list" where
  "local_steps revision p = filter (\<lambda>step. binds_participant step p) (pr_steps revision)"

text \<open>From the local steps on.\<close>

definition admit_work ::
  "lib \<Rightarrow> HostRef \<Rightarrow> PlanRevisionV2 \<Rightarrow> PlanApprovalV2 \<Rightarrow> HostAdmissionRequestV2 \<Rightarrow> ManagedPrimitiveAvailabilityV1 \<Rightarrow> int
   \<Rightarrow> HostAdmissionDecision" where
  "admit_work L local_host_ref revision approval request availability now =
     (let steps = local_steps revision (ar_participant_ref request) in
      if steps = [] then Deny NoHostBoundWork ''The v2 Plan contains no work bound to this Host.''
      else if list_ex (\<lambda>step. \<not> supports availability revision step) steps
      then Deny UnsupportedOperation
        ''This HostRuntime cannot safely provide a primitive required by its v2 Plan fragment.''
      else
        let work = map (admitted_work_v2 L) steps;
            expires_at = min (ap_expires_at approval) (freshness_expires_at (ar_execution_freshness request)) in
        if expires_at \<le> now then Deny Expired ''The v2 Host admission window has expired.''
        else Admit (admission_for L local_host_ref request work (constraints_for work expires_at)))"

definition evaluate_v2_with_availability ::
  "lib \<Rightarrow> HostRef \<Rightarrow> PlanRevisionV2 \<Rightarrow> PlanApprovalV2 \<Rightarrow> HostAdmissionRequestV2 \<Rightarrow> HostExecutionFreshness
   \<Rightarrow> ManagedPrimitiveAvailabilityV1 \<Rightarrow> int \<Rightarrow> plan_error + HostAdmissionDecision" where
  "evaluate_v2_with_availability L local_host_ref revision approval request current_freshness availability now =
     (if ar_host_ref request \<noteq> local_host_ref
        \<or> freshness_local_host_ref (ar_execution_freshness request) \<noteq> local_host_ref
        \<or> freshness_local_host_ref current_freshness \<noteq> local_host_ref
      then Inr (Deny HostMismatch ''The v2 work is not bound to this Host.'')
      else if \<not> is_ok (freshness_validate_current (ar_execution_freshness request) current_freshness now)
      then Inr (Deny SessionMismatch ''The v2 Host session binding is stale or mismatched.'')
      else if \<not> is_ok (verify_sealed_revision L revision)
        \<or> pr_plan_id revision \<noteq> ar_plan_id request \<or> pr_revision_id revision \<noteq> ar_revision_id request
        \<or> pr_revision_hash revision \<noteq> ar_revision_hash request
        \<or> pr_bridge_id revision \<noteq> freshness_bridge_id (ar_execution_freshness request)
      then Inr (Deny PlanMismatch ''The v2 admission request does not match the immutable Plan.'')
      else if ap_approval_id approval \<noteq> ar_approval_id request \<or> ap_plan_id approval \<noteq> ar_plan_id request
        \<or> ap_revision_id approval \<noteq> ar_revision_id request \<or> ap_revision_hash approval \<noteq> ar_revision_hash request
        \<or> ap_bridge_id approval \<noteq> pr_bridge_id revision \<or> ap_requester approval \<noteq> pr_requester revision
      then Inr (Deny ApprovalMismatch ''The v2 admission request does not match requester approval.'')
      else if ap_expires_at approval \<le> now
      then Inr (Deny Expired ''The v2 requester approval has expired.'')
      else if map_option pp_host_ref (participant_for_ref revision (ar_participant_ref request)) \<noteq> Some local_host_ref
      then Inr (Deny HostMismatch ''The v2 Plan participant does not identify this Host.'')
      else
        and_then (requester_host revision) (\<lambda>requester_host_ref.
        Inr (case requester_mismatch local_host_ref revision request requester_host_ref of
            Some summary \<Rightarrow> Deny SessionMismatch summary
          | None \<Rightarrow>
              if trim (ar_attempt_id request) = [] \<or> trim (ar_protocol_correlation_id request) = []
              then Deny ApprovalMismatch ''The v2 attempt or protocol correlation is unavailable.''
              else admit_work L local_host_ref revision approval request availability now)))"

section \<open>What is admitted\<close>

lemma participants_find:
  assumes "participants_legal L plan_id ps"
  shows "find (\<lambda>p. pp_participant_ref p = x) ps = Some q \<longleftrightarrow> q \<in> set ps \<and> pp_participant_ref q = x"
proof
  assume "q \<in> set ps \<and> pp_participant_ref q = x"
  moreover from assms have "distinct (map pp_participant_ref ps)" by (simp add: participants_legal_def)
  ultimately show "find (\<lambda>p. pp_participant_ref p = x) ps = Some q" by (induction ps) auto
next
  assume "find (\<lambda>p. pp_participant_ref p = x) ps = Some q"
  then show "q \<in> set ps \<and> pp_participant_ref q = x" by (induction ps) (auto split: if_splits)
qed

lemma participant_for_ref_Some:
  assumes "plan_legal L r"
  shows "participant_for_ref r x = Some q \<longleftrightarrow> q \<in> set (pr_participants r) \<and> pp_participant_ref q = x"
  using assms participants_find unfolding participant_for_ref_def plan_legal_def by blast

text \<open>In a valid Plan the requester has a Host, so the decision never fails with an error.\<close>

lemma requester_host_Inr:
  assumes "plan_legal L r"
  shows "\<exists>q \<in> set (pr_participants r). pp_participant_ref q = pr_requester r \<and> requester_host r = Inr (pp_host_ref q)"
proof -
  from assms obtain q where q: "q \<in> set (pr_participants r)" "pp_participant_ref q = pr_requester r"
    by (auto simp: plan_legal_def)
  with participant_for_ref_Some [OF assms] have "participant_for_ref r (pr_requester r) = Some q" by blast
  with q show ?thesis by (auto simp: requester_host_def)
qed

lemma evaluate_no_error: "\<exists>decision. evaluate_v2_with_availability L h r ap rq cur av now = Inr decision"
proof (cases "is_ok (verify_sealed_revision L r)")
  case True
  then have "plan_legal L r" by (simp add: is_ok_unit verify_sealed_Inr)
  from requester_host_Inr [OF this] show ?thesis by (auto simp: evaluate_v2_with_availability_def)
qed (simp add: evaluate_v2_with_availability_def)

definition admission_conditions ::
  "lib \<Rightarrow> HostRef \<Rightarrow> PlanRevisionV2 \<Rightarrow> PlanApprovalV2 \<Rightarrow> HostAdmissionRequestV2 \<Rightarrow> HostExecutionFreshness
   \<Rightarrow> ManagedPrimitiveAvailabilityV1 \<Rightarrow> int \<Rightarrow> bool" where
  "admission_conditions L h r ap rq cur av now \<longleftrightarrow>
     \<comment> \<open>the request is for this Host, on freshness that is still current\<close>
     ar_host_ref rq = h \<and> freshness_local_host_ref cur = h \<and> ar_execution_freshness rq = cur \<and> now < freshness_expires_at cur
     \<comment> \<open>request, approval and sealed revision name the same Plan, Bridge and requester\<close>
     \<and> verify_sealed_revision L r = Inr ()
     \<and> (pr_plan_id r, pr_revision_id r, pr_revision_hash r) = (ar_plan_id rq, ar_revision_id rq, ar_revision_hash rq)
     \<and> (ap_plan_id ap, ap_revision_id ap, ap_revision_hash ap) = (ar_plan_id rq, ar_revision_id rq, ar_revision_hash rq)
     \<and> ap_approval_id ap = ar_approval_id rq \<and> ap_requester ap = pr_requester r
     \<and> ap_bridge_id ap = pr_bridge_id r \<and> freshness_bridge_id cur = pr_bridge_id r \<and> now < ap_expires_at ap
     \<comment> \<open>the participant is this Host, and the requester is this Host or the peer of the session\<close>
     \<and> \<lparr>pp_participant_ref = ar_participant_ref rq, pp_host_ref = h\<rparr> \<in> set (pr_participants r)
     \<and> (case cur of
          LocalFreshness _ \<Rightarrow> ar_participant_ref rq = pr_requester r
        | RemoteFreshness b \<Rightarrow> ar_participant_ref rq \<noteq> pr_requester r
            \<and> \<lparr>pp_participant_ref = pr_requester r, pp_host_ref = sb_peer_host_ref b\<rparr> \<in> set (pr_participants r))
     \<and> trim (ar_attempt_id rq) \<noteq> [] \<and> trim (ar_protocol_correlation_id rq) \<noteq> []
     \<comment> \<open>there is work for this Host and the runtime provides all of it\<close>
     \<and> local_steps r (ar_participant_ref rq) \<noteq> []
     \<and> (\<forall>s \<in> set (local_steps r (ar_participant_ref rq)). case operation s of
          OpTransform \<Rightarrow> h |\<in>| av_transform_hosts av | OpExecute \<Rightarrow> h |\<in>| av_execute_hosts av | _ \<Rightarrow> True)"

lemma participant_record:
  "q \<in> set ps \<and> pp_participant_ref q = x \<and> pp_host_ref q = h \<Longrightarrow> \<lparr>pp_participant_ref = x, pp_host_ref = h\<rparr> \<in> set ps"
  for q :: PlanParticipant
  by (cases q) simp

lemma local_participant_iff:
  assumes "plan_legal L r"
  shows "map_option pp_host_ref (participant_for_ref r x) = Some h \<longleftrightarrow>
    \<lparr>pp_participant_ref = x, pp_host_ref = h\<rparr> \<in> set (pr_participants r)"
proof
  assume "map_option pp_host_ref (participant_for_ref r x) = Some h"
  then show "\<lparr>pp_participant_ref = x, pp_host_ref = h\<rparr> \<in> set (pr_participants r)"
    using participant_for_ref_Some [OF assms] participant_record by fastforce
next
  assume "\<lparr>pp_participant_ref = x, pp_host_ref = h\<rparr> \<in> set (pr_participants r)"
  then have "participant_for_ref r x = Some \<lparr>pp_participant_ref = x, pp_host_ref = h\<rparr>"
    using participant_for_ref_Some [OF assms] by fastforce
  then show "map_option pp_host_ref (participant_for_ref r x) = Some h" by simp
qed

lemma requester_host_iff:
  assumes "plan_legal L r"
  shows "requester_host r = Inr h \<longleftrightarrow> \<lparr>pp_participant_ref = pr_requester r, pp_host_ref = h\<rparr> \<in> set (pr_participants r)"
  unfolding requester_host_def ok_or_Inr by (rule local_participant_iff [OF assms])

lemma supports_local:
  assumes "plan_legal L r" and "\<lparr>pp_participant_ref = p, pp_host_ref = h\<rparr> \<in> set (pr_participants r)" and "binds_participant s p"
  shows "supports av r s \<longleftrightarrow> (case operation s of
      OpTransform \<Rightarrow> h |\<in>| av_transform_hosts av | OpExecute \<Rightarrow> h |\<in>| av_execute_hosts av | _ \<Rightarrow> True)"
proof -
  have "participant_for_ref r p = Some \<lparr>pp_participant_ref = p, pp_host_ref = h\<rparr>"
    using participant_for_ref_Some [OF assms(1)] assms(2) by fastforce
  with assms(3) show ?thesis by (cases s) auto
qed

definition admitted_window :: "PlanApprovalV2 \<Rightarrow> HostExecutionFreshness \<Rightarrow> int" where
  "admitted_window ap cur = min (ap_expires_at ap) (freshness_expires_at cur)"

definition the_admission ::
  "lib \<Rightarrow> HostRef \<Rightarrow> PlanRevisionV2 \<Rightarrow> PlanApprovalV2 \<Rightarrow> HostAdmissionRequestV2 \<Rightarrow> HostExecutionFreshness \<Rightarrow> HostAdmission" where
  "the_admission L h r ap rq cur =
     (let work = map (admitted_work_v2 L) (local_steps r (ar_participant_ref rq)) in
      admission_for L h rq work (constraints_for work (admitted_window ap cur)))"

lemma admit_work_Admit:
  assumes "plan_legal L r" and "\<lparr>pp_participant_ref = ar_participant_ref rq, pp_host_ref = h\<rparr> \<in> set (pr_participants r)"
  shows "admit_work L h r ap rq av now = Admit a \<longleftrightarrow>
    local_steps r (ar_participant_ref rq) \<noteq> []
    \<and> (\<forall>s \<in> set (local_steps r (ar_participant_ref rq)). case operation s of
         OpTransform \<Rightarrow> h |\<in>| av_transform_hosts av | OpExecute \<Rightarrow> h |\<in>| av_execute_hosts av | _ \<Rightarrow> True)
    \<and> now < ap_expires_at ap \<and> now < freshness_expires_at (ar_execution_freshness rq)
    \<and> a = the_admission L h r ap rq (ar_execution_freshness rq)"
proof -
  let ?steps = "local_steps r (ar_participant_ref rq)"
  have "list_ex (\<lambda>s. \<not> supports av r s) ?steps \<longleftrightarrow> \<not> (\<forall>s \<in> set ?steps. case operation s of
         OpTransform \<Rightarrow> h |\<in>| av_transform_hosts av | OpExecute \<Rightarrow> h |\<in>| av_execute_hosts av | _ \<Rightarrow> True)"
    unfolding list_ex_iff using supports_local [OF assms] by (simp add: local_steps_def)
  then show ?thesis
    by (auto simp: admit_work_def Let_def the_admission_def admitted_window_def)
qed

lemma deny_guard: "(if c then Inr (Deny code summary) else rest) = Inr (Admit a) \<longleftrightarrow> \<not> c \<and> rest = Inr (Admit a)"
  by simp

lemma evaluate_gates:
  "evaluate_v2_with_availability L h r ap rq cur av now = Inr (Admit a) \<longleftrightarrow>
     ar_host_ref rq = h \<and> freshness_local_host_ref (ar_execution_freshness rq) = h \<and> freshness_local_host_ref cur = h
     \<and> is_ok (freshness_validate_current (ar_execution_freshness rq) cur now)
     \<and> is_ok (verify_sealed_revision L r)
     \<and> (pr_plan_id r = ar_plan_id rq \<and> pr_revision_id r = ar_revision_id rq \<and> pr_revision_hash r = ar_revision_hash rq
        \<and> pr_bridge_id r = freshness_bridge_id (ar_execution_freshness rq))
     \<and> (ap_approval_id ap = ar_approval_id rq \<and> ap_plan_id ap = ar_plan_id rq \<and> ap_revision_id ap = ar_revision_id rq
        \<and> ap_revision_hash ap = ar_revision_hash rq \<and> ap_bridge_id ap = pr_bridge_id r \<and> ap_requester ap = pr_requester r)
     \<and> now < ap_expires_at ap
     \<and> map_option pp_host_ref (participant_for_ref r (ar_participant_ref rq)) = Some h
     \<and> (\<exists>rh. requester_host r = Inr rh \<and> requester_mismatch h r rq rh = None)
     \<and> trim (ar_attempt_id rq) \<noteq> [] \<and> trim (ar_protocol_correlation_id rq) \<noteq> []
     \<and> admit_work L h r ap rq av now = Admit a"
proof -
  have tail: "and_then (requester_host r) (\<lambda>rh. Inr (case requester_mismatch h r rq rh of Some summary \<Rightarrow> Deny SessionMismatch summary
        | None \<Rightarrow> if trim (ar_attempt_id rq) = [] \<or> trim (ar_protocol_correlation_id rq) = []
            then Deny ApprovalMismatch ''The v2 attempt or protocol correlation is unavailable.''
            else admit_work L h r ap rq av now)) = Inr (Admit a) \<longleftrightarrow>
      (\<exists>rh. requester_host r = Inr rh \<and> requester_mismatch h r rq rh = None)
      \<and> trim (ar_attempt_id rq) \<noteq> [] \<and> trim (ar_protocol_correlation_id rq) \<noteq> []
      \<and> admit_work L h r ap rq av now = Admit a"
    by (cases "requester_host r") (auto split: option.split)
  show ?thesis
    unfolding evaluate_v2_with_availability_def deny_guard tail de_Morgan_disj not_not not_le by blast
qed

lemma requester_match_iff:
  assumes "plan_legal L r" and "\<lparr>pp_participant_ref = ar_participant_ref rq, pp_host_ref = h\<rparr> \<in> set (pr_participants r)"
  shows "(\<exists>rh. requester_host r = Inr rh \<and> requester_mismatch h r rq rh = None) \<longleftrightarrow>
    (case ar_execution_freshness rq of
       LocalFreshness _ \<Rightarrow> ar_participant_ref rq = pr_requester r
     | RemoteFreshness b \<Rightarrow> ar_participant_ref rq \<noteq> pr_requester r
         \<and> \<lparr>pp_participant_ref = pr_requester r, pp_host_ref = sb_peer_host_ref b\<rparr> \<in> set (pr_participants r))"
proof (cases "ar_execution_freshness rq")
  case (LocalFreshness f)
  have "requester_host r = Inr h" if "ar_participant_ref rq = pr_requester r"
    using assms(2) unfolding that requester_host_iff [OF assms(1)] .
  with LocalFreshness show ?thesis by (auto simp: requester_mismatch_def)
next
  case (RemoteFreshness b)
  then show ?thesis
    unfolding requester_mismatch_def using requester_host_iff [OF assms(1)] by auto
qed

lemma evaluate_Admit:
  "evaluate_v2_with_availability L h r ap rq cur av now = Inr (Admit a) \<longleftrightarrow>
     admission_conditions L h r ap rq cur av now \<and> a = the_admission L h r ap rq cur"
proof (cases "verify_sealed_revision L r = Inr ()")
  case True
  then have legal: "plan_legal L r" by (simp add: verify_sealed_Inr)
  show ?thesis
  proof (cases "ar_execution_freshness rq = cur \<and> \<lparr>pp_participant_ref = ar_participant_ref rq, pp_host_ref = h\<rparr> \<in> set (pr_participants r)")
    case True
    note facts = admit_work_Admit [OF legal conjunct2 [OF True]] requester_match_iff [OF legal conjunct2 [OF True]]
      local_participant_iff [OF legal]
    show ?thesis
      unfolding evaluate_gates facts is_ok_unit execution_freshness.validate_iff admission_conditions_def
      using True by auto
  next
    case False
    then show ?thesis
      unfolding evaluate_gates local_participant_iff [OF legal] is_ok_unit execution_freshness.validate_iff
        admission_conditions_def by auto
  qed
next
  case False
  then show ?thesis unfolding evaluate_gates is_ok_unit admission_conditions_def by simp
qed

text \<open>C19. A Host decides on every request, never with an error, and admits exactly when all of this holds: the
  request is for this Host on freshness that is current; the sealed revision, the requester's approval and the
  request name the same Plan, revision, hash, Bridge and requester, none expired; the participant is this Host;
  the requester is this Host itself (local work) or the peer of the session (remote work); and the runtime can
  provide every step bound to this participant. The admission is then determined.\<close>

theorem admission_exact:
  "(\<exists>decision. evaluate_v2_with_availability L h r ap rq cur av now = Inr decision)
   \<and> (evaluate_v2_with_availability L h r ap rq cur av now = Inr (Admit a) \<longleftrightarrow>
       admission_conditions L h r ap rq cur av now \<and> a = the_admission L h r ap rq cur)"
  using evaluate_no_error evaluate_Admit by blast

lemma binds_local_host:
  assumes "plan_legal L r" and "\<lparr>pp_participant_ref = p, pp_host_ref = h\<rparr> \<in> set (pr_participants r)"
  shows "local_steps r p = filter (\<lambda>s. \<exists>q \<in> set (pr_participants r). pp_host_ref q = h \<and> binds_participant s (pp_participant_ref q)) (pr_steps r)"
proof -
  from assms(1) have dist: "distinct (map pp_host_ref (pr_participants r))"
    by (simp add: plan_legal_def participants_legal_def)
  have "q = \<lparr>pp_participant_ref = p, pp_host_ref = h\<rparr>" if "q \<in> set (pr_participants r)" "pp_host_ref q = h" for q
    using inj_onD [OF conjunct2 [OF dist [unfolded distinct_map]] _ that(1) assms(2)] that(2) by simp
  then have "binds_participant s p \<longleftrightarrow> (\<exists>q \<in> set (pr_participants r). pp_host_ref q = h \<and> binds_participant s (pp_participant_ref q))" for s
    using assms(2) by (metis PlanParticipant.select_convs)
  then show ?thesis unfolding local_steps_def by simp
qed

text \<open>What an admission covers. Its work is exactly the steps of the Plan that run at this Host or move an object
  to or from it, in the order of the Plan and each once, with the digest of the step; the allowed steps and
  operations are those of the work; the authority to modify is given exactly when a Transform is among them; and
  it expires, in the future, no later than the approval and the session.\<close>

theorem admission_covers_host_steps:
  assumes "evaluate_v2_with_availability L h r ap rq cur av now = Inr (Admit a)"
  shows "ad_work a = map (admitted_work_v2 L)
      (filter (\<lambda>s. \<exists>q \<in> set (pr_participants r). pp_host_ref q = h \<and> binds_participant s (pp_participant_ref q)) (pr_steps r))
    \<and> ac_allowed_step_ids (ad_constraints a) = map aw_step_id (ad_work a) \<and> distinct (ac_allowed_step_ids (ad_constraints a))
    \<and> ac_allowed_operations (ad_constraints a) = map aw_operation (ad_work a)
    \<and> (ac_modification_authority (ad_constraints a) \<longleftrightarrow> OpTransform \<in> set (ac_allowed_operations (ad_constraints a)))
    \<and> now < ac_expires_at (ad_constraints a)
    \<and> ac_expires_at (ad_constraints a) \<le> ap_expires_at ap \<and> ac_expires_at (ad_constraints a) \<le> freshness_expires_at cur
    \<and> ad_host_ref a = h \<and> ad_session_binding_ref a = freshness_authority_ref cur"
proof -
  from assms have conds: "admission_conditions L h r ap rq cur av now" and a: "a = the_admission L h r ap rq cur"
    by (simp_all add: evaluate_Admit)
  from conds have legal: "plan_legal L r" and cur: "ar_execution_freshness rq = cur"
    and part: "\<lparr>pp_participant_ref = ar_participant_ref rq, pp_host_ref = h\<rparr> \<in> set (pr_participants r)"
    and now: "now < ap_expires_at ap" "now < freshness_expires_at cur"
    by (simp_all add: admission_conditions_def verify_sealed_Inr)
  have "distinct (map step_id (pr_steps r))" using legal steps_legal_ids by (auto simp: plan_legal_def)
  then have "distinct (map step_id (local_steps r (ar_participant_ref rq)))"
    by (simp add: local_steps_def distinct_map_filter)
  then have dist: "distinct (map (aw_step_id \<circ> admitted_work_v2 L) (local_steps r (ar_participant_ref rq)))"
    by (simp add: comp_def admitted_work_v2_def)
  show ?thesis
    unfolding a binds_local_host [OF legal part, symmetric]
    using dist now cur
    by (auto simp: the_admission_def Let_def admission_for_def constraints_for_def admitted_window_def list_ex_iff image_iff eq_commute)
qed

section \<open>The admission reference\<close>

text \<open>An admission reference is bound to its attempt: under no hash collision, and as long as the fields hold no zero
  byte, equal references mean the same attempt, approval, Plan, revision, hash, Host, participant, correlation and
  session or runtime generation.\<close>

theorem admission_ref_binds:
  assumes "collision_free L {admission_message L rq work c, admission_message L rq' work' c'}"
    and "list_all no_nul (admission_identity rq)" and "list_all no_nul (admission_identity rq')"
    and "admission_ref_v2 L rq work c = admission_ref_v2 L rq' work' c'"
  shows "admission_identity rq = admission_identity rq'"
proof -
  from assms(4) have "blake3_hex L (admission_message L rq work c) = blake3_hex L (admission_message L rq' work' c')"
    by (simp add: admission_ref_v2_def)
  then have "admission_message L rq work c = admission_message L rq' work' c'"
    by (rule collision_freeD [OF assms(1) insertI1 insertI2 [OF singletonI]])
  then have "nul_terminated (admission_identity rq) @ json_vec L (jlist work_json work) @ json_vec L (constraints_json c)
      = nul_terminated (admission_identity rq') @ json_vec L (jlist work_json work') @ json_vec L (constraints_json c')"
    by (simp add: admission_message_def)
  then show ?thesis
    by (intro conjunct1 [OF nul_terminated_inj [OF _ assms(2,3)]]) (simp_all add: admission_identity_def)
qed

section \<open>Examples\<close>

text \<open>The second Host of the example Plan is asked, over a session with the first, to take on its part.\<close>

definition ex_binding :: HostSessionBinding where
  "ex_binding = \<lparr>sb_bridge_id = ''b'', sb_local_host_ref = ''B'', sb_peer_host_ref = ''A'', sb_local_session_ref = ''ls'',
     sb_peer_session_ref = ''ps'', sb_peer_route_ref = ''pr'', sb_expires_at = 100, sb_binding_ref = ''sb'', sb_session_pair_ref = ''sp''\<rparr>"

definition ex_approval :: PlanApprovalV2 where
  "ex_approval = \<lparr>ap_approval_id = ''a'', ap_plan_id = ''p'', ap_revision_id = ''r'', ap_revision_hash = pr_revision_hash ex_sealed,
     ap_bridge_id = ''b'', ap_requester = ex_ref ''A'', ap_expires_at = 50\<rparr>"

definition ex_request :: "string \<Rightarrow> HostAdmissionRequestV2" where
  "ex_request attempt = \<lparr>ar_attempt_id = attempt, ar_approval_id = ''a'', ar_plan_id = ''p'', ar_revision_id = ''r'',
     ar_revision_hash = pr_revision_hash ex_sealed, ar_host_ref = ''B'', ar_participant_ref = ex_ref ''B'',
     ar_protocol_correlation_id = ''c'', ar_execution_freshness = RemoteFreshness ex_binding\<rparr>"

lemma ex_sealed_fields [simp]:
  "pr_plan_id ex_sealed = ''p''" "pr_revision_id ex_sealed = ''r''" "pr_bridge_id ex_sealed = ''b''"
  "pr_requester ex_sealed = ex_ref ''A''" "pr_participants ex_sealed = pr_participants ex_plan"
  "pr_steps ex_sealed = [ex_search, ex_transform, ex_transfer, ex_execute, ex_other]" "pr_roots ex_sealed = []"
  by (simp_all add: ex_sealed_def ex_plan_def)

lemma ex_local_steps: "local_steps ex_sealed (ex_ref ''B'') = [ex_transfer, ex_execute, ex_other]"
  by (simp add: local_steps_def ex_steps)

lemma ex_admission_conditions:
  "admission_conditions plain_lib ''B'' ex_sealed ex_approval (ex_request ''t'') (RemoteFreshness ex_binding)
     (verified_attachment ''B'' False True) 0"
proof -
  have "trim ''t'' \<noteq> []" "trim ''c'' \<noteq> []" by (simp_all add: trim_def ws1_def)
  then show ?thesis
    unfolding admission_conditions_def
    by (simp add: ex_request_def ex_binding_def ex_approval_def ex_sealed_verifies ex_local_steps)
      (simp add: ex_plan_def ex_steps verified_attachment_def)
qed

theorem admission_covers_host_steps_witness:
  "\<exists>a. evaluate_v2_with_availability plain_lib ''B'' ex_sealed ex_approval (ex_request ''t'') (RemoteFreshness ex_binding)
       (verified_attachment ''B'' False True) 0 = Inr (Admit a)
    \<and> ac_allowed_step_ids (ad_constraints a) = [''s3'', ''s4'', ''s5'']
    \<and> \<not> ac_modification_authority (ad_constraints a) \<and> ac_expires_at (ad_constraints a) \<le> 50"
proof -
  let ?a = "the_admission plain_lib ''B'' ex_sealed ex_approval (ex_request ''t'') (RemoteFreshness ex_binding)"
  have eval: "evaluate_v2_with_availability plain_lib ''B'' ex_sealed ex_approval (ex_request ''t'') (RemoteFreshness ex_binding)
       (verified_attachment ''B'' False True) 0 = Inr (Admit ?a)"
    using ex_admission_conditions by (simp add: evaluate_Admit)
  note covers = admission_covers_host_steps [OF this]
  have "filter (\<lambda>s. \<exists>q \<in> set (pr_participants ex_sealed). pp_host_ref q = ''B'' \<and> binds_participant s (pp_participant_ref q)) (pr_steps ex_sealed)
      = [ex_transfer, ex_execute, ex_other]"
    by (simp add: ex_plan_def ex_steps)
  with covers have "map aw_step_id (ad_work ?a) = [''s3'', ''s4'', ''s5'']" "map aw_operation (ad_work ?a) = [OpTransfer, OpExecute, OpSearch]"
    by (simp_all add: admitted_work_v2_def ex_steps)
  with covers eval show ?thesis by (intro exI [of _ ?a]) (simp add: ex_approval_def)
qed

lemma ex_identity_no_nul: "no_nul x \<Longrightarrow> list_all no_nul (admission_identity ((ex_request x)\<lparr>ar_revision_hash := ''h'', ar_participant_ref := ''q''\<rparr>))"
  by (simp add: admission_identity_def ex_request_def ex_binding_def no_nul_def)

theorem admission_ref_binds_witness:
  "admission_ref_v2 plain_lib ((ex_request ''t'')\<lparr>ar_revision_hash := ''h'', ar_participant_ref := ''q''\<rparr>) [] (constraints_for [] 0) \<noteq>
   admission_ref_v2 plain_lib ((ex_request ''u'')\<lparr>ar_revision_hash := ''h'', ar_participant_ref := ''q''\<rparr>) [] (constraints_for [] 0)"
proof
  assume "admission_ref_v2 plain_lib ((ex_request ''t'')\<lparr>ar_revision_hash := ''h'', ar_participant_ref := ''q''\<rparr>) [] (constraints_for [] 0) =
   admission_ref_v2 plain_lib ((ex_request ''u'')\<lparr>ar_revision_hash := ''h'', ar_participant_ref := ''q''\<rparr>) [] (constraints_for [] 0)"
  from admission_ref_binds [OF collision_free_plain_lib ex_identity_no_nul ex_identity_no_nul this]
  show False by (simp add: no_nul_def admission_identity_def ex_request_def)
qed

end
