(* ===== verification/Plan_Store.thy ===== *)
theory Plan_Store
  imports Host_Admission
begin

text \<open>
  The Plan store and attempt protocol, \<^verbatim>\<open>src-tauri/src/bridge_plan_v2.rs\<close>: reviews, approvals, attempt starts,
  and the SQL tables that record them.

  A table is the list of its rows, in the order of insertion, each row a record with the columns of the table. A
  JSON column holds the value it encodes. An \<^verbatim>\<open>INSERT\<close> fails, leaving the table alone, when a primary key or
  unique constraint is taken or the parent row of a foreign key is missing; \<open>drop_orphans\<close> is \<^verbatim>\<open>ON DELETE CASCADE\<close>.
  Statements outside a transaction take effect one by one, so a handler returns its result beside the database
  it leaves behind. Whether the Bridge is active is a query on tables of another module and an argument.
\<close>

section \<open>Messages\<close>

record ReviewRequestV2 =
  rv_protocol_version :: string
  rv_message_id :: string
  rv_correlation_id :: string
  rv_request_nonce :: string
  rv_sender :: PlanParticipantRef
  rv_target :: PlanParticipantRef
  rv_approval :: PlanApprovalV2
  rv_revision :: PlanRevisionV2

record AttemptStartV2 =
  as_protocol_version :: string
  as_message_id :: string
  as_correlation_id :: string
  as_request_nonce :: string
  as_attempt_id :: string
  as_approval_id :: string
  as_plan_id :: string
  as_revision_id :: string
  as_revision_hash :: string
  as_bridge_id :: string
  as_sender :: PlanParticipantRef
  as_target :: PlanParticipantRef
  as_expires_at :: int

record AcceptedAttemptV2 =
  aa_attempt_id :: string
  aa_admission_ref :: string

datatype AttemptStartDecisionV2 = AttemptAccepted AcceptedAttemptV2 | AttemptDenied HostAdmissionDecision

definition validate_approval :: "PlanApprovalV2 \<Rightarrow> PlanRevisionV2 \<Rightarrow> int \<Rightarrow> plan_error + unit" where
  "validate_approval approval revision now =
     and_then (check_id (ap_approval_id approval) ''approval id'') (\<lambda>_.
     and_then (ensure (\<not> (ap_plan_id approval \<noteq> pr_plan_id revision \<or> ap_revision_id approval \<noteq> pr_revision_id revision
         \<or> ap_revision_hash approval \<noteq> pr_revision_hash revision \<or> ap_bridge_id approval \<noteq> pr_bridge_id revision
         \<or> ap_requester approval \<noteq> pr_requester revision))
       (PlanError ''Bridge Plan v2 approval does not match the exact revision.'')) (\<lambda>_.
     ensure (\<not> (ap_expires_at approval \<le> now \<or> ap_expires_at approval > now + MAX_LIFETIME))
       (PlanError ''Bridge Plan v2 approval expiry is invalid.'')))"

definition validate_review_common :: "lib \<Rightarrow> ReviewRequestV2 \<Rightarrow> int \<Rightarrow> plan_error + unit" where
  "validate_review_common L review now =
     and_then (ensure (rv_protocol_version review = PROTOCOL_VERSION)
       (PlanError ''Bridge Plan protocol v2 requires its exact protocol version.'')) (\<lambda>_.
     and_then (try_all (\<lambda>(value, label). check_id value label)
       [(rv_message_id review, ''message id''), (rv_correlation_id review, ''correlation id''),
        (rv_request_nonce review, ''request nonce'')]) (\<lambda>_.
     and_then (verify_sealed_revision L (rv_revision review)) (\<lambda>_.
     and_then (validate_approval (rv_approval review) (rv_revision review) now) (\<lambda>_.
     ensure (\<not> (rv_sender review \<noteq> pr_requester (rv_revision review)
         \<or> participant_for_ref (rv_revision review) (rv_target review) = None))
       (PlanError ''Bridge Plan protocol v2 review participants are invalid.'')))))"

definition validate_remote_review :: "lib \<Rightarrow> ReviewRequestV2 \<Rightarrow> int \<Rightarrow> plan_error + unit" where
  "validate_remote_review L review now =
     and_then (validate_review_common L review now) (\<lambda>_.
     ensure (rv_target review \<noteq> rv_sender review)
       (PlanError ''Bridge Plan protocol v2 remote review target is invalid.''))"

definition validate_local_authority_snapshot :: "lib \<Rightarrow> ReviewRequestV2 \<Rightarrow> int \<Rightarrow> plan_error + unit" where
  "validate_local_authority_snapshot L review now =
     and_then (validate_review_common L review now) (\<lambda>_.
     ensure (rv_target review = rv_sender review)
       (PlanError ''Bridge Plan v2 local authority target is invalid.''))"

definition validate_review_binding :: "ReviewRequestV2 \<Rightarrow> HostSessionBinding \<Rightarrow> int \<Rightarrow> plan_error + unit" where
  "validate_review_binding review binding now =
     and_then (ensure (\<not> (sb_expires_at binding \<le> now \<or> sb_bridge_id binding \<noteq> pr_bridge_id (rv_revision review)))
       (PlanError ''Bridge Plan v2 review session binding is unavailable.'')) (\<lambda>_.
     and_then (ok_or (participant_for_ref (rv_revision review) (rv_sender review))
       (PlanError ''Bridge Plan v2 sender is unavailable.'')) (\<lambda>sender.
     and_then (ok_or (participant_for_ref (rv_revision review) (rv_target review))
       (PlanError ''Bridge Plan v2 target is unavailable.'')) (\<lambda>target.
     ensure (\<not> (pp_host_ref sender \<noteq> sb_peer_host_ref binding \<or> pp_host_ref target \<noteq> sb_local_host_ref binding))
       (PlanError ''Bridge Plan v2 participants do not match the current Host session.''))))"

definition validate_local_review_freshness :: "ReviewRequestV2 \<Rightarrow> LocalExecutionFreshness \<Rightarrow> int \<Rightarrow> plan_error + unit" where
  "validate_local_review_freshness review freshness now =
     and_then (ensure (\<not> (lf_expires_at freshness \<le> now \<or> lf_bridge_id freshness \<noteq> pr_bridge_id (rv_revision review)))
       (PlanError ''Bridge Plan v2 local runtime freshness is unavailable.'')) (\<lambda>_.
     and_then (ok_or (participant_for_ref (rv_revision review) (rv_sender review))
       (PlanError ''Bridge Plan v2 sender is unavailable.'')) (\<lambda>sender.
     and_then (ok_or (participant_for_ref (rv_revision review) (rv_target review))
       (PlanError ''Bridge Plan v2 target is unavailable.'')) (\<lambda>target.
     ensure (\<not> (pp_host_ref sender \<noteq> lr_host_ref (lf_local_runtime_ref freshness)
         \<or> pp_host_ref target \<noteq> lr_host_ref (lf_local_runtime_ref freshness)))
       (PlanError ''Bridge Plan v2 local participant does not match this HostRuntime.''))))"

definition validate_attempt_start :: "AttemptStartV2 \<Rightarrow> int \<Rightarrow> plan_error + unit" where
  "validate_attempt_start start now =
     and_then (ensure (as_protocol_version start = PROTOCOL_VERSION)
       (PlanError ''Bridge Plan attempt uses the wrong protocol version.'')) (\<lambda>_.
     and_then (try_all (\<lambda>(value, label). check_id value label)
       [(as_message_id start, ''message id''), (as_correlation_id start, ''correlation id''),
        (as_request_nonce start, ''request nonce''), (as_attempt_id start, ''attempt id''),
        (as_approval_id start, ''approval id''), (as_plan_id start, ''plan id''),
        (as_revision_id start, ''revision id''), (as_bridge_id start, ''bridge id'')]) (\<lambda>_.
     ensure (\<not> (as_expires_at start \<le> now \<or> as_expires_at start > now + MAX_LIFETIME))
       (PlanError ''Bridge Plan v2 attempt expiry is invalid.'')))"

section \<open>Tables\<close>

datatype approval_state = ApprovalValid | ApprovalRevoked | ApprovalExpired | ApprovalBurned
datatype attempt_state = AttemptStateAccepted | AttemptStateInterrupted | AttemptStateBurned
datatype claim_state = ClaimClaimed | ClaimCompleted | ClaimFailed | ClaimInterrupted

record RevisionRow =
  vw_revision_id :: string
  vw_plan_id :: string
  vw_bridge_id :: string
  vw_revision_number :: u32
  vw_revision_hash :: string
  vw_requester :: PlanParticipantRef
  vw_created_at :: int
  vw_revision :: PlanRevisionV2

record ApprovalRow =
  pw_approval_id :: string
  pw_plan_id :: string
  pw_revision_id :: string
  pw_bridge_id :: string
  pw_revision_hash :: string
  pw_requester :: PlanParticipantRef
  pw_expires_at :: int
  pw_state :: approval_state
  pw_created_at :: int
  pw_approval :: PlanApprovalV2

record ReviewRow =
  qw_bridge_id :: string
  qw_message_id :: string
  qw_correlation_id :: string
  qw_request_nonce :: string
  qw_approval_id :: string
  qw_plan_id :: string
  qw_revision_id :: string
  qw_revision_hash :: string
  qw_sender :: PlanParticipantRef
  qw_target :: PlanParticipantRef
  qw_expires_at :: int
  qw_review :: ReviewRequestV2

record MessageRow =
  mw_bridge_id :: string
  mw_message_id :: string
  mw_request_nonce :: string
  mw_correlation_id :: string
  mw_received_at :: int

record AttemptRow =
  tw_attempt_id :: string
  tw_bridge_id :: string
  tw_approval_id :: string
  tw_plan_id :: string
  tw_revision_id :: string
  tw_revision_hash :: string
  tw_target :: PlanParticipantRef
  tw_correlation_id :: string
  tw_session_binding_ref :: string
  tw_admission_ref :: string
  tw_expires_at :: int
  tw_state :: attempt_state
  tw_created_at :: int

record ClaimRow =
  cw_attempt_id :: string
  cw_step_id :: string
  cw_operation :: StepOperation
  cw_context_ref :: string
  cw_envelope_ref :: string
  cw_run_control_ref :: string
  cw_evidence_head :: "string option"
  cw_state :: claim_state
  cw_claimed_at :: int
  cw_completed_at :: "int option"

text \<open>The result tables also keep the JSON text of the result, which nothing modelled reads.\<close>

record TransformResultRow =
  rw_attempt_id :: string
  rw_step_id :: string
  rw_logical_object_id :: string
  rw_input_revision :: u64
  rw_output_revision :: u64
  rw_host_ref :: HostRef
  rw_content_digest :: string
  rw_seal_ref :: string
  rw_evidence_head :: string
  rw_completed_at :: int

record ExecuteResultRow =
  xw_attempt_id :: string
  xw_step_id :: string
  xw_result_ref :: string
  xw_host_ref :: HostRef
  xw_input_logical_object_id :: string
  xw_input_revision :: u64
  xw_result_schema_ref :: string
  xw_result_digest :: string
  xw_evidence_head :: string
  xw_completed_at :: int

record plan_db =
  db_revisions :: "RevisionRow list"
  db_approvals :: "ApprovalRow list"
  db_reviews :: "ReviewRow list"
  db_messages :: "MessageRow list"
  db_attempts :: "AttemptRow list"
  db_claims :: "ClaimRow list"
  db_transform_results :: "TransformResultRow list"
  db_execute_results :: "ExecuteResultRow list"

definition empty_db :: plan_db where
  "empty_db = \<lparr>db_revisions = [], db_approvals = [], db_reviews = [], db_messages = [], db_attempts = [], db_claims = [],
     db_transform_results = [], db_execute_results = []\<rparr>"

definition insert_row :: "('r \<Rightarrow> 'r \<Rightarrow> bool) \<Rightarrow> bool \<Rightarrow> 'r \<Rightarrow> 'r list \<Rightarrow> plan_error + 'r list" where
  "insert_row conflict parent row rows =
     (if list_ex (conflict row) rows \<or> \<not> parent then Inl PlanStorageError else Inr (rows @ [row]))"

definition revision_conflict :: "RevisionRow \<Rightarrow> RevisionRow \<Rightarrow> bool" where
  "revision_conflict a b \<longleftrightarrow> vw_revision_id a = vw_revision_id b
     \<or> vw_plan_id a = vw_plan_id b \<and> (vw_revision_number a = vw_revision_number b \<or> vw_revision_hash a = vw_revision_hash b)"

definition approval_conflict :: "ApprovalRow \<Rightarrow> ApprovalRow \<Rightarrow> bool" where
  "approval_conflict a b \<longleftrightarrow> pw_approval_id a = pw_approval_id b"

definition review_conflict :: "ReviewRow \<Rightarrow> ReviewRow \<Rightarrow> bool" where
  "review_conflict a b \<longleftrightarrow> qw_bridge_id a = qw_bridge_id b
     \<and> (qw_message_id a = qw_message_id b \<or> qw_correlation_id a = qw_correlation_id b \<or> qw_request_nonce a = qw_request_nonce b)"

definition message_conflict :: "MessageRow \<Rightarrow> MessageRow \<Rightarrow> bool" where
  "message_conflict a b \<longleftrightarrow> mw_bridge_id a = mw_bridge_id b
     \<and> (mw_message_id a = mw_message_id b \<or> mw_request_nonce a = mw_request_nonce b)"

definition attempt_conflict :: "AttemptRow \<Rightarrow> AttemptRow \<Rightarrow> bool" where
  "attempt_conflict a b \<longleftrightarrow> tw_attempt_id a = tw_attempt_id b
     \<or> tw_bridge_id a = tw_bridge_id b \<and> tw_correlation_id a = tw_correlation_id b \<and> tw_target a = tw_target b"

definition claim_conflict :: "ClaimRow \<Rightarrow> ClaimRow \<Rightarrow> bool" where
  "claim_conflict a b \<longleftrightarrow> cw_attempt_id a = cw_attempt_id b \<and> cw_step_id a = cw_step_id b
     \<or> cw_context_ref a = cw_context_ref b \<or> cw_envelope_ref a = cw_envelope_ref b \<or> cw_run_control_ref a = cw_run_control_ref b"

definition transform_result_conflict :: "TransformResultRow \<Rightarrow> TransformResultRow \<Rightarrow> bool" where
  "transform_result_conflict a b \<longleftrightarrow> rw_attempt_id a = rw_attempt_id b \<and> rw_step_id a = rw_step_id b
     \<or> rw_logical_object_id a = rw_logical_object_id b \<and> rw_output_revision a = rw_output_revision b \<and> rw_host_ref a = rw_host_ref b"

definition execute_result_conflict :: "ExecuteResultRow \<Rightarrow> ExecuteResultRow \<Rightarrow> bool" where
  "execute_result_conflict a b \<longleftrightarrow> xw_attempt_id a = xw_attempt_id b \<and> xw_step_id a = xw_step_id b
     \<or> xw_result_ref a = xw_result_ref b"

definition drop_orphans :: "plan_db \<Rightarrow> plan_db" where
  "drop_orphans db =
     (let approvals = filter (\<lambda>a. pw_revision_id a \<in> vw_revision_id ` set (db_revisions db)) (db_approvals db);
          approval_ids = pw_approval_id ` set approvals;
          attempts = filter (\<lambda>t. tw_approval_id t \<in> approval_ids) (db_attempts db);
          claims = filter (\<lambda>c. cw_attempt_id c \<in> tw_attempt_id ` set attempts) (db_claims db);
          claim_keys = (\<lambda>c. (cw_attempt_id c, cw_step_id c)) ` set claims in
      db\<lparr>db_approvals := approvals,
         db_reviews := filter (\<lambda>q. qw_approval_id q \<in> approval_ids) (db_reviews db),
         db_attempts := attempts,
         db_claims := claims,
         db_transform_results := filter (\<lambda>w. (rw_attempt_id w, rw_step_id w) \<in> claim_keys) (db_transform_results db),
         db_execute_results := filter (\<lambda>w. (xw_attempt_id w, xw_step_id w) \<in> claim_keys) (db_execute_results db)\<rparr>)"

section \<open>Reviews\<close>

text \<open>\<^verbatim>\<open>persist_review\<close>: three inserts in one transaction.\<close>

definition revision_row :: "ReviewRequestV2 \<Rightarrow> int \<Rightarrow> RevisionRow" where
  "revision_row review now = (let r = rv_revision review in
     \<lparr>vw_revision_id = pr_revision_id r, vw_plan_id = pr_plan_id r, vw_bridge_id = pr_bridge_id r,
      vw_revision_number = pr_revision_number r, vw_revision_hash = pr_revision_hash r,
      vw_requester = pr_requester r, vw_created_at = now, vw_revision = r\<rparr>)"

definition approval_row :: "ReviewRequestV2 \<Rightarrow> int \<Rightarrow> ApprovalRow" where
  "approval_row review now = (let a = rv_approval review in
     \<lparr>pw_approval_id = ap_approval_id a, pw_plan_id = ap_plan_id a, pw_revision_id = ap_revision_id a,
      pw_bridge_id = ap_bridge_id a, pw_revision_hash = ap_revision_hash a, pw_requester = ap_requester a,
      pw_expires_at = ap_expires_at a, pw_state = ApprovalValid, pw_created_at = now, pw_approval = a\<rparr>)"

definition review_row :: "ReviewRequestV2 \<Rightarrow> ReviewRow" where
  "review_row review = (let r = rv_revision review in
     \<lparr>qw_bridge_id = pr_bridge_id r, qw_message_id = rv_message_id review,
      qw_correlation_id = rv_correlation_id review, qw_request_nonce = rv_request_nonce review,
      qw_approval_id = ap_approval_id (rv_approval review), qw_plan_id = pr_plan_id r, qw_revision_id = pr_revision_id r,
      qw_revision_hash = pr_revision_hash r, qw_sender = rv_sender review, qw_target = rv_target review,
      qw_expires_at = ap_expires_at (rv_approval review), qw_review = review\<rparr>)"

definition persist_review :: "ReviewRequestV2 \<Rightarrow> int \<Rightarrow> plan_db \<Rightarrow> (plan_error + unit) \<times> plan_db" where
  "persist_review review now db =
     (case
        and_then (insert_row revision_conflict True (revision_row review now) (db_revisions db)) (\<lambda>revisions.
        and_then (insert_row approval_conflict (ap_revision_id (rv_approval review) \<in> vw_revision_id ` set revisions)
          (approval_row review now) (db_approvals db)) (\<lambda>approvals.
        and_then (insert_row review_conflict (ap_approval_id (rv_approval review) \<in> pw_approval_id ` set approvals)
          (review_row review) (db_reviews db)) (\<lambda>reviews.
        Inr (db\<lparr>db_revisions := revisions, db_approvals := approvals, db_reviews := reviews\<rparr>))))
      of Inl e \<Rightarrow> (Inl e, db) | Inr db' \<Rightarrow> (Inr (), db'))"

definition ensure_active_bridge :: "(string \<Rightarrow> bool) \<Rightarrow> string \<Rightarrow> plan_error + unit" where
  "ensure_active_bridge active bridge_id =
     ensure (active bridge_id) (PlanError ''Bridge Plan v2 Bridge is unavailable or burned.'')"

definition record_review ::
  "lib \<Rightarrow> (string \<Rightarrow> bool) \<Rightarrow> ReviewRequestV2 \<Rightarrow> HostSessionBinding \<Rightarrow> int \<Rightarrow> plan_db \<Rightarrow> (plan_error + unit) \<times> plan_db" where
  "record_review L active review current_binding now db =
     (case
        and_then (validate_remote_review L review now) (\<lambda>_.
        and_then (ensure_active_bridge active (pr_bridge_id (rv_revision review))) (\<lambda>_.
        validate_review_binding review current_binding now))
      of Inl e \<Rightarrow> (Inl e, db) | Inr _ \<Rightarrow> persist_review review now db)"

definition record_local_authority_snapshot ::
  "lib \<Rightarrow> (string \<Rightarrow> bool) \<Rightarrow> ReviewRequestV2 \<Rightarrow> LocalExecutionFreshness \<Rightarrow> int \<Rightarrow> plan_db \<Rightarrow> (plan_error + unit) \<times> plan_db" where
  "record_local_authority_snapshot L active review current_freshness now db =
     (case
        and_then (validate_local_authority_snapshot L review now) (\<lambda>_.
        and_then (ensure_active_bridge active (pr_bridge_id (rv_revision review))) (\<lambda>_.
        validate_local_review_freshness review current_freshness now))
      of Inl e \<Rightarrow> (Inl e, db) | Inr _ \<Rightarrow> persist_review review now db)"

section \<open>Attempt starts\<close>

definition start_mismatch :: "AttemptStartV2 \<Rightarrow> ReviewRequestV2 \<Rightarrow> bool" where
  "start_mismatch start review \<longleftrightarrow>
     as_request_nonce start \<noteq> rv_request_nonce review
     \<or> as_approval_id start \<noteq> ap_approval_id (rv_approval review)
     \<or> as_plan_id start \<noteq> pr_plan_id (rv_revision review)
     \<or> as_revision_id start \<noteq> pr_revision_id (rv_revision review)
     \<or> as_revision_hash start \<noteq> pr_revision_hash (rv_revision review)
     \<or> as_bridge_id start \<noteq> pr_bridge_id (rv_revision review)
     \<or> as_sender start \<noteq> rv_sender review \<or> as_target start \<noteq> rv_target review
     \<or> as_expires_at start > ap_expires_at (rv_approval review)"

definition find_review :: "plan_db \<Rightarrow> string \<Rightarrow> string \<Rightarrow> ReviewRow option" where
  "find_review db bridge_id correlation_id =
     find (\<lambda>q. qw_bridge_id q = bridge_id \<and> qw_correlation_id q = correlation_id) (db_reviews db)"

definition reviewed_revision_for_start ::
  "lib \<Rightarrow> AttemptStartV2 \<Rightarrow> int \<Rightarrow> plan_db \<Rightarrow> plan_error + PlanRevisionV2" where
  "reviewed_revision_for_start L start now db =
     and_then (validate_attempt_start start now) (\<lambda>_.
     and_then (ok_or (find_review db (as_bridge_id start) (as_correlation_id start))
       (PlanError ''Bridge Plan v2 review correlation is unavailable.'')) (\<lambda>row.
     and_then (ensure (\<not> start_mismatch start (qw_review row))
       (PlanError ''Bridge Plan v2 attempt does not match the exact reviewed Plan.'')) (\<lambda>_.
     and_then (verify_sealed_revision L (rv_revision (qw_review row))) (\<lambda>_.
     Inr (rv_revision (qw_review row))))))"

text \<open>The join of a review with its approval and its revision.\<close>

definition stored_review :: "plan_db \<Rightarrow> string \<Rightarrow> string \<Rightarrow> (ReviewRow \<times> ApprovalRow \<times> RevisionRow) option" where
  "stored_review db bridge_id correlation_id =
     (case find_review db bridge_id correlation_id of None \<Rightarrow> None
      | Some q \<Rightarrow>
          (case find (\<lambda>a. pw_approval_id a = qw_approval_id q) (db_approvals db) of None \<Rightarrow> None
           | Some a \<Rightarrow>
               (case find (\<lambda>v. vw_revision_id v = qw_revision_id q) (db_revisions db) of None \<Rightarrow> None
                | Some v \<Rightarrow> Some (q, a, v))))"

definition is_remote :: "HostExecutionFreshness \<Rightarrow> bool" where
  "is_remote f = (case f of LocalFreshness _ \<Rightarrow> False | RemoteFreshness _ \<Rightarrow> True)"

text \<open>The checks before the first write.\<close>

definition check_start ::
  "(string \<Rightarrow> bool) \<Rightarrow> AttemptStartV2 \<Rightarrow> int \<Rightarrow> plan_db \<Rightarrow> plan_error + ReviewRequestV2" where
  "check_start active start now db =
     and_then (validate_attempt_start start now) (\<lambda>_.
     and_then (ensure_active_bridge active (as_bridge_id start)) (\<lambda>_.
     and_then (ok_or (stored_review db (as_bridge_id start) (as_correlation_id start))
       (PlanError ''Bridge Plan v2 review correlation is unavailable.'')) (\<lambda>(q, a, v).
     and_then (ensure (\<not> (pw_state a \<noteq> ApprovalValid \<or> pw_approval a \<noteq> rv_approval (qw_review q)
         \<or> vw_revision v \<noteq> rv_revision (qw_review q)))
       (PlanError ''Bridge Plan v2 stored approval or revision is unavailable.'')) (\<lambda>_.
     and_then (ensure (\<not> start_mismatch start (qw_review q))
       (PlanError ''Bridge Plan v2 attempt does not match the exact reviewed Plan.'')) (\<lambda>_.
     Inr (qw_review q))))))"

definition message_row :: "AttemptStartV2 \<Rightarrow> int \<Rightarrow> MessageRow" where
  "message_row start now = \<lparr>mw_bridge_id = as_bridge_id start, mw_message_id = as_message_id start,
     mw_request_nonce = as_request_nonce start, mw_correlation_id = as_correlation_id start, mw_received_at = now\<rparr>"

definition claim_message ::
  "HostExecutionFreshness \<Rightarrow> AttemptStartV2 \<Rightarrow> int \<Rightarrow> plan_db \<Rightarrow> plan_error + plan_db" where
  "claim_message captured start now db =
     (if is_remote captured
      then and_then (insert_row message_conflict True (message_row start now) (db_messages db)) (\<lambda>messages.
        Inr (db\<lparr>db_messages := messages\<rparr>))
      else Inr db)"

definition start_request :: "AttemptStartV2 \<Rightarrow> HostExecutionFreshness \<Rightarrow> HostAdmissionRequestV2" where
  "start_request start captured =
     \<lparr>ar_attempt_id = as_attempt_id start, ar_approval_id = as_approval_id start, ar_plan_id = as_plan_id start,
      ar_revision_id = as_revision_id start, ar_revision_hash = as_revision_hash start,
      ar_host_ref = freshness_local_host_ref captured, ar_participant_ref = as_target start,
      ar_protocol_correlation_id = as_correlation_id start, ar_execution_freshness = captured\<rparr>"

definition attempt_row :: "AttemptStartV2 \<Rightarrow> HostExecutionFreshness \<Rightarrow> HostAdmission \<Rightarrow> int \<Rightarrow> AttemptRow" where
  "attempt_row start captured admission now =
     \<lparr>tw_attempt_id = as_attempt_id start, tw_bridge_id = as_bridge_id start, tw_approval_id = as_approval_id start,
      tw_plan_id = as_plan_id start, tw_revision_id = as_revision_id start, tw_revision_hash = as_revision_hash start,
      tw_target = as_target start, tw_correlation_id = as_correlation_id start,
      tw_session_binding_ref = freshness_authority_ref captured, tw_admission_ref = ad_admission_ref admission,
      tw_expires_at = as_expires_at start, tw_state = AttemptStateAccepted, tw_created_at = now\<rparr>"

definition accept_attempt_start_with_freshness ::
  "lib \<Rightarrow> (string \<Rightarrow> bool) \<Rightarrow> HostRef \<Rightarrow> AttemptStartV2 \<Rightarrow> HostExecutionFreshness \<Rightarrow> HostExecutionFreshness
   \<Rightarrow> ManagedPrimitiveAvailabilityV1 \<Rightarrow> int \<Rightarrow> plan_db \<Rightarrow> (plan_error + AttemptStartDecisionV2) \<times> plan_db" where
  "accept_attempt_start_with_freshness L active local_host_ref start captured current availability now db =
     (case check_start active start now db of
        Inl e \<Rightarrow> (Inl e, db)
      | Inr review \<Rightarrow>
          (case claim_message captured start now db of
             Inl e \<Rightarrow> (Inl e, db)
           | Inr db \<Rightarrow>
               (case evaluate_v2_with_availability L local_host_ref (rv_revision review) (rv_approval review)
                  (start_request start captured) current availability now of
                  Inl e \<Rightarrow> (Inl e, db)
                | Inr decision \<Rightarrow>
                    (case admitted decision of
                       None \<Rightarrow> (Inr (AttemptDenied decision), db)
                     | Some admission \<Rightarrow>
                         (case insert_row attempt_conflict (as_approval_id start \<in> pw_approval_id ` set (db_approvals db))
                            (attempt_row start captured admission now) (db_attempts db) of
                            Inl e \<Rightarrow> (Inl e, db)
                          | Inr attempts \<Rightarrow>
                              (Inr (AttemptAccepted \<lparr>aa_attempt_id = as_attempt_id start,
                                 aa_admission_ref = ad_admission_ref admission\<rparr>),
                               db\<lparr>db_attempts := attempts\<rparr>))))))"

definition accept_attempt_start ::
  "lib \<Rightarrow> (string \<Rightarrow> bool) \<Rightarrow> HostRef \<Rightarrow> AttemptStartV2 \<Rightarrow> HostSessionBinding \<Rightarrow> HostSessionBinding \<Rightarrow> int \<Rightarrow> plan_db
   \<Rightarrow> (plan_error + AttemptStartDecisionV2) \<times> plan_db" where
  "accept_attempt_start L active local_host_ref start captured current now db =
     accept_attempt_start_with_freshness L active local_host_ref start (RemoteFreshness captured) (RemoteFreshness current)
       availability_unavailable now db"

definition accept_attempt_start_with_availability ::
  "lib \<Rightarrow> (string \<Rightarrow> bool) \<Rightarrow> HostRef \<Rightarrow> AttemptStartV2 \<Rightarrow> HostSessionBinding \<Rightarrow> HostSessionBinding
   \<Rightarrow> ManagedPrimitiveAvailabilityV1 \<Rightarrow> int \<Rightarrow> plan_db \<Rightarrow> (plan_error + AttemptStartDecisionV2) \<times> plan_db" where
  "accept_attempt_start_with_availability L active local_host_ref start captured current availability now db =
     accept_attempt_start_with_freshness L active local_host_ref start (RemoteFreshness captured) (RemoteFreshness current)
       availability now db"

section \<open>Start-up and deletion\<close>

definition interrupt_attempts :: "(AttemptRow \<Rightarrow> bool) \<Rightarrow> AttemptRow list \<Rightarrow> AttemptRow list" where
  "interrupt_attempts P rows =
     map (\<lambda>t. if tw_state t = AttemptStateAccepted \<and> P t then t\<lparr>tw_state := AttemptStateInterrupted\<rparr> else t) rows"

definition set_claims :: "(ClaimRow \<Rightarrow> bool) \<Rightarrow> claim_state \<Rightarrow> ClaimRow list \<Rightarrow> ClaimRow list" where
  "set_claims P s rows = map (\<lambda>c. if cw_state c = ClaimClaimed \<and> P c then c\<lparr>cw_state := s\<rparr> else c) rows"

definition reconcile_startup :: "plan_db \<Rightarrow> plan_db" where
  "reconcile_startup db =
     db\<lparr>db_attempts := interrupt_attempts (\<lambda>_. True) (db_attempts db),
        db_claims := set_claims (\<lambda>_. True) ClaimInterrupted (db_claims db)\<rparr>"

definition delete_bridge_records :: "string \<Rightarrow> plan_db \<Rightarrow> plan_db" where
  "delete_bridge_records bridge_id db =
     (let attempt_ids = tw_attempt_id ` set (filter (\<lambda>t. tw_bridge_id t = bridge_id) (db_attempts db)) in
      drop_orphans (db\<lparr>
        db_claims := filter (\<lambda>c. cw_attempt_id c \<notin> attempt_ids) (db_claims db),
        db_attempts := filter (\<lambda>t. tw_bridge_id t \<noteq> bridge_id) (db_attempts db),
        db_messages := filter (\<lambda>m. mw_bridge_id m \<noteq> bridge_id) (db_messages db),
        db_reviews := filter (\<lambda>q. qw_bridge_id q \<noteq> bridge_id) (db_reviews db),
        db_approvals := filter (\<lambda>a. pw_bridge_id a \<noteq> bridge_id) (db_approvals db),
        db_revisions := filter (\<lambda>v. vw_bridge_id v \<noteq> bridge_id) (db_revisions db)\<rparr>))"

end
