(* ===== verification/Managed_Claims.thy ===== *)
theory Managed_Claims
  imports Plan_Store
begin

text \<open>
  Claims of managed steps, the database side of \<^verbatim>\<open>src-tauri/src/managed_execution.rs\<close>: what must hold before a
  Transform or Execute of an accepted attempt may be claimed or completed, and the writes that do so.

  Whether another module coordinates the attempt, and which of its steps that module has committed
  (\<^verbatim>\<open>native_v2_orchestration::committed_step\<close>), are the arguments \<open>coordinated\<close> and \<open>committed\<close>.
\<close>

record ClaimSourceV1 =
  cs_revision :: PlanRevisionV2
  cs_approval :: PlanApprovalV2
  cs_step :: PlanStepV2
  cs_admission_ref :: string
  cs_participant_ref :: PlanParticipantRef
  cs_expires_at :: int

section \<open>Sources\<close>

text \<open>The join of an attempt with its approval and revision.\<close>

definition stored_attempt :: "plan_db \<Rightarrow> AttemptRow \<Rightarrow> (ApprovalRow \<times> RevisionRow) option" where
  "stored_attempt db t =
     (case find (\<lambda>a. pw_approval_id a = tw_approval_id t) (db_approvals db) of None \<Rightarrow> None
      | Some a \<Rightarrow>
          (case find (\<lambda>v. vw_revision_id v = tw_revision_id t) (db_revisions db) of None \<Rightarrow> None
           | Some v \<Rightarrow> Some (a, v)))"

definition find_attempt :: "plan_db \<Rightarrow> string \<Rightarrow> (AttemptRow \<times> ApprovalRow \<times> RevisionRow) option" where
  "find_attempt db attempt_id =
     (case find (\<lambda>t. tw_attempt_id t = attempt_id) (db_attempts db) of None \<Rightarrow> None
      | Some t \<Rightarrow> map_option (Pair t) (stored_attempt db t))"

definition attempt_mismatch ::
  "HostRef \<Rightarrow> HostExecutionFreshness \<Rightarrow> HostExecutionFreshness \<Rightarrow> int \<Rightarrow> AttemptRow \<Rightarrow> ApprovalRow \<Rightarrow> RevisionRow \<Rightarrow> bool" where
  "attempt_mismatch local_host captured current now t a v \<longleftrightarrow>
     tw_state t \<noteq> AttemptStateAccepted \<or> pw_state a \<noteq> ApprovalValid
     \<or> tw_session_binding_ref t \<noteq> freshness_authority_ref captured \<or> tw_bridge_id t \<noteq> freshness_bridge_id captured
     \<or> tw_expires_at t \<le> now \<or> freshness_local_host_ref current \<noteq> local_host
     \<or> pr_plan_id (vw_revision v) \<noteq> tw_plan_id t \<or> pr_revision_id (vw_revision v) \<noteq> tw_revision_id t
     \<or> pr_revision_hash (vw_revision v) \<noteq> tw_revision_hash t \<or> ap_approval_id (pw_approval a) \<noteq> tw_approval_id t"

definition claim_request ::
  "HostRef \<Rightarrow> string \<Rightarrow> HostExecutionFreshness \<Rightarrow> AttemptRow \<Rightarrow> PlanApprovalV2 \<Rightarrow> PlanRevisionV2 \<Rightarrow> HostAdmissionRequestV2" where
  "claim_request local_host attempt_id captured t approval revision =
     \<lparr>ar_attempt_id = attempt_id, ar_approval_id = ap_approval_id approval, ar_plan_id = pr_plan_id revision,
      ar_revision_id = pr_revision_id revision, ar_revision_hash = pr_revision_hash revision,
      ar_host_ref = local_host, ar_participant_ref = tw_target t,
      ar_protocol_correlation_id = tw_correlation_id t, ar_execution_freshness = captured\<rparr>"

definition is_managed :: "PlanStepV2 \<Rightarrow> bool" where
  "is_managed step = (case step of TransformStep _ _ _ _ _ _ \<Rightarrow> True | ExecuteStep _ _ _ _ _ \<Rightarrow> True | _ \<Rightarrow> False)"

definition claim_completed :: "plan_db \<Rightarrow> string \<Rightarrow> string \<Rightarrow> bool" where
  "claim_completed db attempt_id step \<longleftrightarrow>
     list_ex (\<lambda>c. cw_attempt_id c = attempt_id \<and> cw_step_id c = step \<and> cw_state c = ClaimCompleted) (db_claims db)"

definition dependency_complete ::
  "(string \<Rightarrow> bool) \<Rightarrow> (string \<Rightarrow> string \<Rightarrow> plan_error + bool) \<Rightarrow> plan_db \<Rightarrow> string \<Rightarrow> string \<Rightarrow> plan_error + unit" where
  "dependency_complete coordinated committed db attempt_id dependency =
     and_then (if coordinated attempt_id then committed attempt_id dependency
       else Inr (claim_completed db attempt_id dependency)) (\<lambda>complete.
     ensure complete (PlanError ''Managed v2 step dependencies are not authoritatively complete.''))"

definition load_claim_source ::
  "lib \<Rightarrow> (string \<Rightarrow> bool) \<Rightarrow> (string \<Rightarrow> string \<Rightarrow> plan_error + bool) \<Rightarrow> HostRef \<Rightarrow> string \<Rightarrow> string
   \<Rightarrow> HostExecutionFreshness \<Rightarrow> HostExecutionFreshness \<Rightarrow> int \<Rightarrow> plan_db \<Rightarrow> plan_error + ClaimSourceV1" where
  "load_claim_source L coordinated committed local_host attempt_id wanted_step captured current now db =
     and_then (case freshness_validate_current captured current now of Inl e \<Rightarrow> Inl (PlanIdentityError e) | Inr u \<Rightarrow> Inr u) (\<lambda>_.
     and_then (ok_or (find_attempt db attempt_id) (PlanError ''Managed v2 attempt is unavailable.'')) (\<lambda>(t, a, v).
     let approval = pw_approval a; revision = vw_revision v in
     and_then (ensure (\<not> attempt_mismatch local_host captured current now t a v)
       (PlanError ''Managed v2 attempt authority is stale or mismatched.'')) (\<lambda>_.
     and_then (ok_or (find (\<lambda>p. pp_participant_ref p = tw_target t) (pr_participants revision))
       (PlanError ''Managed v2 participant is unavailable.'')) (\<lambda>_.
     and_then (ensure (map_option pp_host_ref (participant_for_ref revision (tw_target t)) = Some local_host)
       (PlanError ''Managed v2 participant or Host was substituted.'')) (\<lambda>_.
     and_then (evaluate_v2_with_availability L local_host revision approval
       (claim_request local_host attempt_id captured t approval revision) current
       (verified_attachment local_host True True) now) (\<lambda>admission.
     and_then (ensure (map_option ad_admission_ref (admitted admission) = Some (tw_admission_ref t))
       (PlanError ''Managed v2 Host admission correlation is stale or mismatched.'')) (\<lambda>_.
     and_then (ok_or (find (\<lambda>s. step_id s = wanted_step) (pr_steps revision))
       (PlanError ''Managed v2 step is unavailable.'')) (\<lambda>step.
     and_then (ensure (\<not> (\<not> binds_participant step (tw_target t) \<or> \<not> is_managed step))
       (PlanError ''Managed v2 step is not exact Host-bound managed work.'')) (\<lambda>_.
     and_then (try_all (dependency_complete coordinated committed db attempt_id) (dependencies step)) (\<lambda>_.
     Inr \<lparr>cs_revision = revision, cs_approval = approval, cs_step = step, cs_admission_ref = tw_admission_ref t,
       cs_participant_ref = tw_target t, cs_expires_at = min (tw_expires_at t) (freshness_expires_at captured)\<rparr>))))))))))"

text \<open>The join of a claim, named by all its references, with its attempt.\<close>

definition find_claim ::
  "plan_db \<Rightarrow> string \<Rightarrow> string \<Rightarrow> string \<Rightarrow> string \<Rightarrow> string \<Rightarrow> (ClaimRow \<times> AttemptRow \<times> ApprovalRow \<times> RevisionRow) option" where
  "find_claim db attempt_id step context_ref envelope_ref run_ref =
     (case find (\<lambda>c. cw_attempt_id c = attempt_id \<and> cw_step_id c = step \<and> cw_context_ref c = context_ref
          \<and> cw_envelope_ref c = envelope_ref \<and> cw_run_control_ref c = run_ref) (db_claims db) of None \<Rightarrow> None
      | Some c \<Rightarrow> map_option (Pair c) (find_attempt db attempt_id))"

definition completion_mismatch ::
  "HostRef \<Rightarrow> HostExecutionFreshness \<Rightarrow> int \<Rightarrow> ClaimRow \<Rightarrow> AttemptRow \<Rightarrow> ApprovalRow \<Rightarrow> RevisionRow \<Rightarrow> bool" where
  "completion_mismatch local_host current now c t a v \<longleftrightarrow>
     tw_state t \<noteq> AttemptStateAccepted \<or> pw_state a \<noteq> ApprovalValid \<or> cw_state c \<noteq> ClaimClaimed
     \<or> tw_expires_at t \<le> now \<or> freshness_expires_at current \<le> now \<or> freshness_local_host_ref current \<noteq> local_host
     \<or> freshness_bridge_id current \<noteq> pr_bridge_id (vw_revision v)
     \<or> map_option pp_host_ref (participant_for_ref (vw_revision v) (tw_target t)) \<noteq> Some local_host"

definition load_completion_source ::
  "HostRef \<Rightarrow> string \<Rightarrow> string \<Rightarrow> string \<Rightarrow> string \<Rightarrow> string \<Rightarrow> HostExecutionFreshness \<Rightarrow> int \<Rightarrow> plan_db
   \<Rightarrow> plan_error + ClaimSourceV1" where
  "load_completion_source local_host attempt_id wanted_step context_ref envelope_ref run_ref current now db =
     and_then (ok_or (find_claim db attempt_id wanted_step context_ref envelope_ref run_ref)
       (PlanError ''Exact managed v2 step claim is unavailable.'')) (\<lambda>(c, t, a, v).
     let revision = vw_revision v in
     and_then (ok_or (find (\<lambda>p. pp_participant_ref p = tw_target t) (pr_participants revision))
       (PlanError ''Managed v2 participant is unavailable.'')) (\<lambda>_.
     and_then (ensure (\<not> completion_mismatch local_host current now c t a v)
       (PlanError ''Managed v2 completion authority is stale, expired, or substituted.'')) (\<lambda>_.
     and_then (ok_or (find (\<lambda>s. step_id s = wanted_step) (pr_steps revision))
       (PlanError ''Managed v2 completion step is unavailable.'')) (\<lambda>step.
     Inr \<lparr>cs_revision = revision, cs_approval = pw_approval a, cs_step = step, cs_admission_ref = tw_admission_ref t,
       cs_participant_ref = tw_target t, cs_expires_at = min (tw_expires_at t) (freshness_expires_at current)\<rparr>))))"

section \<open>Writes\<close>

definition insert_claim :: "ClaimRow \<Rightarrow> plan_db \<Rightarrow> (plan_error + unit) \<times> plan_db" where
  "insert_claim claim db =
     (case insert_row claim_conflict (cw_attempt_id claim \<in> tw_attempt_id ` set (db_attempts db)) claim (db_claims db) of
        Inl e \<Rightarrow> (Inl e, db)
      | Inr claims \<Rightarrow> (Inr (), db\<lparr>db_claims := claims\<rparr>))"

definition new_claim :: "string \<Rightarrow> string \<Rightarrow> StepOperation \<Rightarrow> string \<Rightarrow> string \<Rightarrow> string \<Rightarrow> int \<Rightarrow> ClaimRow" where
  "new_claim attempt_id step op context_ref envelope_ref run_ref now =
     \<lparr>cw_attempt_id = attempt_id, cw_step_id = step, cw_operation = op, cw_context_ref = context_ref,
      cw_envelope_ref = envelope_ref, cw_run_control_ref = run_ref, cw_evidence_head = None,
      cw_state = ClaimClaimed, cw_claimed_at = now, cw_completed_at = None\<rparr>"

text \<open>The one-use completion: it must change exactly one claim.\<close>

definition claim_open :: "string \<Rightarrow> string \<Rightarrow> ClaimRow \<Rightarrow> bool" where
  "claim_open attempt_id step c \<longleftrightarrow> cw_attempt_id c = attempt_id \<and> cw_step_id c = step \<and> cw_state c = ClaimClaimed"

definition complete_claims :: "string \<Rightarrow> string \<Rightarrow> string \<Rightarrow> int \<Rightarrow> ClaimRow list \<Rightarrow> ClaimRow list" where
  "complete_claims attempt_id step evidence_head now rows =
     map (\<lambda>c. if claim_open attempt_id step c
       then c\<lparr>cw_state := ClaimCompleted, cw_evidence_head := Some evidence_head, cw_completed_at := Some now\<rparr> else c) rows"

text \<open>A \<^verbatim>\<open>u64\<close> is bound to an SQL parameter only when it fits a signed 64-bit integer.\<close>

definition sql_u64 :: "u64 \<Rightarrow> bool" where
  "sql_u64 w \<longleftrightarrow> unat w < 2 ^ 63"

definition persist_transform_result :: "TransformResultRow \<Rightarrow> plan_db \<Rightarrow> (plan_error + unit) \<times> plan_db" where
  "persist_transform_result row db =
     (case
        and_then (ensure (sql_u64 (rw_input_revision row) \<and> sql_u64 (rw_output_revision row)) PlanStorageError) (\<lambda>_.
        and_then (insert_row transform_result_conflict
          ((rw_attempt_id row, rw_step_id row) \<in> (\<lambda>c. (cw_attempt_id c, cw_step_id c)) ` set (db_claims db))
          row (db_transform_results db)) (\<lambda>results.
        and_then (ensure (length (filter (claim_open (rw_attempt_id row) (rw_step_id row)) (db_claims db)) = 1)
          (PlanError ''Transform completion lost its exact one-use claim.'')) (\<lambda>_.
        Inr (db\<lparr>db_transform_results := results,
          db_claims := complete_claims (rw_attempt_id row) (rw_step_id row) (rw_evidence_head row) (rw_completed_at row)
            (db_claims db)\<rparr>))))
      of Inl e \<Rightarrow> (Inl e, db) | Inr db' \<Rightarrow> (Inr (), db'))"

definition persist_execute_result :: "ExecuteResultRow \<Rightarrow> plan_db \<Rightarrow> (plan_error + unit) \<times> plan_db" where
  "persist_execute_result row db =
     (case
        and_then (ensure (sql_u64 (xw_input_revision row)) PlanStorageError) (\<lambda>_.
        and_then (insert_row execute_result_conflict
          ((xw_attempt_id row, xw_step_id row) \<in> (\<lambda>c. (cw_attempt_id c, cw_step_id c)) ` set (db_claims db))
          row (db_execute_results db)) (\<lambda>results.
        and_then (ensure (length (filter (claim_open (xw_attempt_id row) (xw_step_id row)) (db_claims db)) = 1)
          (PlanError ''Execute completion lost its exact one-use claim.'')) (\<lambda>_.
        Inr (db\<lparr>db_execute_results := results,
          db_claims := complete_claims (xw_attempt_id row) (xw_step_id row) (xw_evidence_head row) (xw_completed_at row)
            (db_claims db)\<rparr>))))
      of Inl e \<Rightarrow> (Inl e, db) | Inr db' \<Rightarrow> (Inr (), db'))"

definition mark_claim_failed :: "string \<Rightarrow> string \<Rightarrow> plan_db \<Rightarrow> plan_db" where
  "mark_claim_failed attempt_id step db =
     db\<lparr>db_claims := set_claims (\<lambda>c. cw_attempt_id c = attempt_id \<and> cw_step_id c = step) ClaimFailed (db_claims db)\<rparr>"

definition interrupt_claim_for_run :: "string \<Rightarrow> plan_db \<Rightarrow> plan_db" where
  "interrupt_claim_for_run run_ref db =
     db\<lparr>db_claims := set_claims (\<lambda>c. cw_run_control_ref c = run_ref) ClaimInterrupted (db_claims db)\<rparr>"

definition interrupt_claims_for_session :: "string \<Rightarrow> plan_db \<Rightarrow> plan_db" where
  "interrupt_claims_for_session binding_ref db =
     db\<lparr>db_claims := set_claims (\<lambda>c. cw_attempt_id c
       \<in> tw_attempt_id ` set (filter (\<lambda>t. tw_session_binding_ref t = binding_ref) (db_attempts db))) ClaimInterrupted (db_claims db)\<rparr>"

text \<open>\<^verbatim>\<open>interrupt_matching_worker_attempts\<close> of \<^verbatim>\<open>managed_worker_coordinator.rs\<close>, on these tables: \<open>P\<close> is its
  predicate on attempts.\<close>

definition interrupt_matching_attempts :: "(AttemptRow \<Rightarrow> bool) \<Rightarrow> plan_db \<Rightarrow> plan_db" where
  "interrupt_matching_attempts P db =
     db\<lparr>db_claims := set_claims (\<lambda>c. cw_attempt_id c \<in> tw_attempt_id ` set (filter P (db_attempts db))) ClaimInterrupted (db_claims db),
        db_attempts := interrupt_attempts (\<lambda>t. tw_attempt_id t \<in> tw_attempt_id ` set (filter P (db_attempts db))) (db_attempts db)\<rparr>"

end
