(* ===== verification/Managed_Workspace.thy ===== *)
theory Managed_Workspace
  imports Effect_Properties Safe_Files
begin

text \<open>
  The workspace of one run, \<^verbatim>\<open>src-tauri/src/managed_workspace.rs\<close>: aliases for the resources of an active envelope, the
  view of them a worker sees, and the resolution of an alias to a resource handle. A workspace holds no authority of
  its own; deriving it and every resolution ask the effect authority (\<open>Effect_Authority\<close>).

  \<^verbatim>\<open>resources\<close>, a \<^verbatim>\<open>BTreeMap\<close> keyed by alias, is a map from aliases, read in the order of the aliases. A resource kind
  that no alias admits is \<^verbatim>\<open>unreachable!\<close> in the projection; here it is the error \<open>WorkspacePanic\<close>.
\<close>

section \<open>Data\<close>

definition MANAGED_WORKSPACE_VERSION :: string where
  "MANAGED_WORKSPACE_VERSION = ''pastey-managed-workspace-v1''"

datatype workspace_error =
  WorkspaceInvalid string | WorkspaceAuthority effect_error | WorkspaceFile file_error | WorkspacePanic

datatype WorkerWorkspaceAliasV1 = AliasInput | AliasWorkspace | AliasOutput | AliasScratch
datatype WorkerWorkspaceResourceKindV1 = WsManagedRevision | WsWorkspace | WsOutput | WsScratch
datatype WorkerWorkspaceOperationV1 = WsInspect | WsRead | WsCreate | WsReplace

definition alias_order :: "WorkerWorkspaceAliasV1 list" where
  "alias_order = [AliasInput, AliasWorkspace, AliasOutput, AliasScratch]"

primrec resource_verb :: "WorkerWorkspaceOperationV1 \<Rightarrow> ResourceVerbV1" where
  "resource_verb WsInspect = Inspect" | "resource_verb WsRead = Read" | "resource_verb WsCreate = Create"
| "resource_verb WsReplace = Replace"

record WorkerWorkspaceResourceProjectionV1 =
  wp_alias :: WorkerWorkspaceAliasV1
  wp_kind :: WorkerWorkspaceResourceKindV1
  wp_operations :: "WorkerWorkspaceOperationV1 fset"
  wp_relative_selectors :: bool

record WorkerWorkspaceProjectionV1 =
  pj_schema_version :: string
  pj_resources :: "WorkerWorkspaceResourceProjectionV1 list"
  pj_projection_ref :: string

definition resources_for :: "WorkerWorkspaceProjectionV1 \<Rightarrow> WorkerWorkspaceOperationV1 \<Rightarrow> WorkerWorkspaceAliasV1 list" where
  "resources_for projection operation =
     map wp_alias (filter (\<lambda>resource. operation |\<in>| wp_operations resource) (pj_resources projection))"

record ManagedWorkspaceResourceAttachmentV1 =
  wa_alias :: WorkerWorkspaceAliasV1
  wa_kind :: ResourceKindV1
  wa_handle_ref :: ResourceHandleRefV1

record ManagedWorkspaceProcessBindingV1 =
  wb_world_ref :: ExecutionWorldRefV1
  wb_executable_handle :: ResourceHandleRefV1

record ManagedWorkspaceResourceLeaseV1 =
  le_grant :: ResourceGrantV1
  le_effective_verbs :: "ResourceVerbV1 fset"
  le_projection :: WorkerWorkspaceResourceProjectionV1

record ManagedResourceAccessV1 =
  ma_envelope_ref :: EffectEnvelopeRefV1
  ma_run_control_ref :: ManagedRunRefV1
  ma_context :: AuthorityContextV1
  ma_current :: CurrentHostAuthorityV1

record ManagedRunWorkspaceV1 =
  ws_access :: ManagedResourceAccessV1
  ws_resources :: "WorkerWorkspaceAliasV1 \<Rightarrow> ManagedWorkspaceResourceLeaseV1 option"
  ws_process :: "ManagedWorkspaceProcessBindingV1 option"
  ws_projection :: WorkerWorkspaceProjectionV1

section \<open>Deriving a workspace\<close>

definition validate_alias_kind :: "WorkerWorkspaceAliasV1 \<Rightarrow> ResourceKindV1 \<Rightarrow> workspace_error + unit" where
  "validate_alias_kind alias kind =
     ensure ((alias, kind) \<in> {(AliasInput, ManagedRevision), (AliasWorkspace, Workspace), (AliasOutput, OutputSlot),
         (AliasScratch, Scratch)})
       (WorkspaceInvalid ''Managed workspace alias and resource kind are mismatched.'')"

definition workspace_kind :: "ResourceKindV1 \<Rightarrow> WorkerWorkspaceResourceKindV1 option" where
  "workspace_kind kind = (case kind of
     ManagedRevision \<Rightarrow> Some WsManagedRevision | Workspace \<Rightarrow> Some WsWorkspace | OutputSlot \<Rightarrow> Some WsOutput
   | Scratch \<Rightarrow> Some WsScratch | _ \<Rightarrow> None)"

definition project_resource ::
  "WorkerWorkspaceAliasV1 \<Rightarrow> ResourceGrantV1 \<Rightarrow> ResourceVerbV1 fset \<Rightarrow> workspace_error + WorkerWorkspaceResourceProjectionV1" where
  "project_resource alias grant effective_verbs =
     and_then (ok_or (workspace_kind (rg_kind grant)) WorkspacePanic) (\<lambda>kind.
     Inr \<lparr>wp_alias = alias, wp_kind = kind,
       wp_operations = fset_of_list (filter (\<lambda>operation. resource_verb operation |\<in>| effective_verbs)
         [WsInspect, WsRead, WsCreate, WsReplace]),
       wp_relative_selectors = True\<rparr>)"

definition alias_json :: "WorkerWorkspaceAliasV1 \<Rightarrow> json" where
  "alias_json alias = JStr (case alias of
     AliasInput \<Rightarrow> ''input'' | AliasWorkspace \<Rightarrow> ''workspace'' | AliasOutput \<Rightarrow> ''output'' | AliasScratch \<Rightarrow> ''scratch'')"

definition lease_json :: "WorkerWorkspaceAliasV1 \<Rightarrow> ManagedWorkspaceResourceLeaseV1 \<Rightarrow> json" where
  "lease_json alias lease = (let grant = le_grant lease in
     JArr [alias_json alias, resource_kind_json (rg_kind grant), JStr (rg_handle_ref grant), JStr (rg_selector_prefix grant),
       jset resource_verb_json (rg_allowed_verbs grant), jset resource_verb_json (le_effective_verbs lease),
       JInt (rg_expires_at grant)])"

definition in_order :: "(WorkerWorkspaceAliasV1 \<Rightarrow> 'a option) \<Rightarrow> (WorkerWorkspaceAliasV1 \<times> 'a) list" where
  "in_order m = List.map_filter (\<lambda>alias. map_option (Pair alias) (m alias)) alias_order"

definition projection_ref ::
  "lib \<Rightarrow> ManagedResourceAccessV1 \<Rightarrow> (WorkerWorkspaceAliasV1 \<Rightarrow> ManagedWorkspaceResourceLeaseV1 option) \<Rightarrow> workspace_error + string" where
  "projection_ref L access resources =
     and_then (map_err WorkspaceAuthority (AuthorityContextV1_context_ref L (ma_context access))) (\<lambda>context_ref.
     Inr (''pastey-managed-workspace-projection-v1:'' @ blake3_hex L (json_vec L
       (JArr [JStr MANAGED_WORKSPACE_VERSION, JStr (ma_envelope_ref access), JStr (ma_run_control_ref access),
         JStr context_ref, JArr (map (\<lambda>(alias, lease). lease_json alias lease) (in_order resources))]))))"

definition attach ::
  "lib \<Rightarrow> EffectAuthorityStateV1 \<Rightarrow> ManagedResourceAccessV1 \<Rightarrow> ResourceHandleRefV1 \<Rightarrow> ResourceKindV1
   \<Rightarrow> workspace_error + ResourceGrantV1 \<times> ResourceVerbV1 fset" where
  "attach L authority access handle_ref kind =
     map_err WorkspaceAuthority (validate_resource_projection_attachment L handle_ref kind (ma_envelope_ref access)
       (ma_run_control_ref access) (ma_context access) (ma_current access) authority)"

fun attach_all ::
  "lib \<Rightarrow> EffectAuthorityStateV1 \<Rightarrow> ManagedResourceAccessV1 \<Rightarrow> ManagedWorkspaceResourceAttachmentV1 list
   \<Rightarrow> (WorkerWorkspaceAliasV1 \<Rightarrow> ManagedWorkspaceResourceLeaseV1 option)
   \<Rightarrow> workspace_error + (WorkerWorkspaceAliasV1 \<Rightarrow> ManagedWorkspaceResourceLeaseV1 option)" where
  "attach_all L authority access [] resources = Inr resources"
| "attach_all L authority access (attachment # rest) resources =
     and_then (validate_alias_kind (wa_alias attachment) (wa_kind attachment)) (\<lambda>_.
     and_then (ensure (resources (wa_alias attachment) = None)
       (WorkspaceInvalid ''Managed workspace resource alias is duplicated.'')) (\<lambda>_.
     and_then (attach L authority access (wa_handle_ref attachment) (wa_kind attachment)) (\<lambda>(grant, effective_verbs).
     and_then (project_resource (wa_alias attachment) grant effective_verbs) (\<lambda>projection.
     attach_all L authority access rest (resources(wa_alias attachment \<mapsto>
       \<lparr>le_grant = grant, le_effective_verbs = effective_verbs, le_projection = projection\<rparr>))))))"

definition check_process ::
  "lib \<Rightarrow> EffectAuthorityStateV1 \<Rightarrow> ManagedResourceAccessV1 \<Rightarrow> ManagedWorkspaceProcessBindingV1 \<Rightarrow> string \<Rightarrow> workspace_error + unit" where
  "check_process L authority access process message =
     and_then (map_err WorkspaceAuthority (validate_execution_world_attachment L (wb_world_ref process) (ma_envelope_ref access)
       (ma_run_control_ref access) (ma_context access) (ma_current access) authority)) (\<lambda>(world, _).
     ensure (wb_executable_handle process |\<in>| wg_executable_resources world) (WorkspaceInvalid message))"

definition ManagedRunWorkspaceV1_derive ::
  "lib \<Rightarrow> EffectAuthorityStateV1 \<Rightarrow> ManagedResourceAccessV1 \<Rightarrow> ManagedWorkspaceResourceAttachmentV1 list
   \<Rightarrow> ManagedWorkspaceProcessBindingV1 option \<Rightarrow> workspace_error + ManagedRunWorkspaceV1" where
  "ManagedRunWorkspaceV1_derive L authority access attachments process =
     and_then (ensure (attachments \<noteq> [])
       (WorkspaceInvalid ''Managed workspace requires at least one exact resource attachment.'')) (\<lambda>_.
     and_then (attach_all L authority access attachments (\<lambda>_. None)) (\<lambda>resources.
     and_then (ensure (resources AliasInput \<noteq> None)
       (WorkspaceInvalid ''Managed workspace requires the exact input revision alias.'')) (\<lambda>_.
     and_then (case process of None \<Rightarrow> Inr ()
       | Some process \<Rightarrow> check_process L authority access process
           ''Managed workspace process binding is not in the execution world.'') (\<lambda>_.
     and_then (projection_ref L access resources) (\<lambda>ref.
     Inr \<lparr>ws_access = access, ws_resources = resources, ws_process = process,
       ws_projection = \<lparr>pj_schema_version = MANAGED_WORKSPACE_VERSION,
         pj_resources = map (\<lambda>(_, lease). le_projection lease) (in_order resources),
         pj_projection_ref = ref\<rparr>\<rparr>)))))"

section \<open>Resolving\<close>

definition resolve_process ::
  "lib \<Rightarrow> EffectAuthorityStateV1 \<Rightarrow> ManagedRunWorkspaceV1 \<Rightarrow> workspace_error + ManagedWorkspaceProcessBindingV1" where
  "resolve_process L authority ws =
     and_then (ok_or (ws_process ws) (WorkspaceInvalid ''Managed workspace process binding is unavailable.'')) (\<lambda>process.
     and_then (check_process L authority (ws_access ws) process
       ''Managed workspace process binding changed or was substituted.'') (\<lambda>_.
     Inr process))"

definition resolve_alias ::
  "lib \<Rightarrow> EffectAuthorityStateV1 \<Rightarrow> ManagedRunWorkspaceV1 \<Rightarrow> WorkerWorkspaceProjectionV1 \<Rightarrow> WorkerWorkspaceAliasV1
   \<Rightarrow> WorkerWorkspaceOperationV1 \<Rightarrow> string \<Rightarrow> workspace_error + ResourceHandleRefV1" where
  "resolve_alias L authority ws projection alias operation relative_selector =
     and_then (ensure (projection = ws_projection ws)
       (WorkspaceInvalid ''Managed workspace projection is stale or belongs to another run.'')) (\<lambda>_.
     and_then (map_err WorkspaceFile (validate_managed_selector relative_selector)) (\<lambda>_.
     and_then (ok_or (ws_resources ws alias) (WorkspaceInvalid ''Managed workspace resource alias is unavailable.'')) (\<lambda>resource.
     and_then (ensure (\<not> (operation |\<notin>| wp_operations (le_projection resource)
         \<or> \<not> wp_relative_selectors (le_projection resource) \<and> relative_selector \<noteq> ''.''))
       (WorkspaceInvalid ''Managed workspace projection does not expose that operation.'')) (\<lambda>_.
     and_then (attach L authority (ws_access ws) (rg_handle_ref (le_grant resource)) (rg_kind (le_grant resource))) (\<lambda>(current, effective_verbs).
     and_then (ensure (\<not> (current \<noteq> le_grant resource \<or> effective_verbs \<noteq> le_effective_verbs resource
         \<or> resource_verb operation |\<notin>| effective_verbs))
       (WorkspaceInvalid ''Managed workspace attachment changed or cannot perform that operation.'')) (\<lambda>_.
     Inr (rg_handle_ref current)))))))"

section \<open>Handles name their grants\<close>

definition keyed :: "EffectAuthorityStateV1 \<Rightarrow> bool" where
  "keyed st \<longleftrightarrow> (\<forall>h rec. hm_get (st_resources st) h = Some rec \<longrightarrow> rg_handle_ref (rr_grant rec) = h)"

lemma keyedD: "keyed st \<Longrightarrow> hm_get (st_resources st) h = Some rec \<Longrightarrow> rg_handle_ref (rr_grant rec) = h"
  by (simp add: keyed_def)

lemma keyed_same: "st_resources st' = st_resources st \<Longrightarrow> keyed st' \<longleftrightarrow> keyed st"
  by (simp add: keyed_def)

lemma keyed_quiet:
  assumes "quiet st st'" and "keyed st"
  shows "keyed st'"
  unfolding keyed_def
proof (intro allI impI)
  fix h rec' assume "hm_get (st_resources st') h = Some rec'"
  from quiet_resource [OF assms(1) this] obtain rec b where rec: "hm_get (st_resources st) h = Some rec" "rec' = rec\<lparr>rr_revoked := b\<rparr>"
    by blast
  from keyedD [OF assms(2) rec(1)] show "rg_handle_ref (rr_grant rec') = h" by (simp add: rec(2))
qed

lemma add_grants_keyed:
  "\<forall>h rec. hm_get m h = Some rec \<longrightarrow> rg_handle_ref (rr_grant rec) = h
   \<Longrightarrow> hm_get (add_grants k m gs) h = Some rec \<Longrightarrow> rg_handle_ref (rr_grant rec) = h"
proof (induction gs rule: rev_induct)
  case Nil
  then show ?case by (simp add: add_grants_def)
next
  case (snoc g gs)
  have "add_grants k m (gs @ [g]) = hm_insert (rg_handle_ref g)
      \<lparr>rr_grant = g, rr_envelope_ref = k, rr_revoked = False\<rparr> (add_grants k m gs)"
    by (simp add: add_grants_def)
  with snoc show ?case by (auto simp: hmap_simps split: if_splits)
qed

lemma append_evidence_resources:
  "append_evidence L envelope q decision summary facts debit st = (result, st') \<Longrightarrow> st_resources st' = st_resources st"
  by (erule append_evidence_cases) auto

lemma bookkeeping_resources [simp]:
  "st_resources (claim_intent L q now st) = st_resources st" "st_resources (reserve_budget r b st) = st_resources st"
  "st_resources (mark_indeterminate k st) = st_resources st"
  by (simp_all add: claim_intent_def reserve_budget_def mark_indeterminate_def)

lemma keyed_enforce:
  assumes "keyed st" and "enforce L (recording answer) q current log st = (result, log', st')"
  shows "keyed st'"
  using assms(2)
proof (cases rule: enforce_cases)
  case rejected
  with assms(1) quiet_run_changes(6) show ?thesis by (auto intro: keyed_quiet)
next
  case (denied envelope run reason)
  with assms(1) append_evidence_resources [OF denied(6)] show ?thesis by (simp add: keyed_def)
next
  case (completed envelope run nxt outcome)
  with assms(1) append_evidence_resources [OF completed(7)] show ?thesis by (simp add: keyed_def)
next
  case (lost envelope run nxt e)
  have "keyed (mark_indeterminate (rq_request_id q) (reserve_budget (rq_run_control_ref q) nxt (claim_intent L q (ch_now current) st)))"
    using assms(1) by (simp add: keyed_def)
  then show ?thesis unfolding lost(8) by (rule keyed_quiet [OF quiet_run_changes(7)])
qed

interpretation keyed_handles: guarded_machine authority_init "authority_step L" "\<lambda>m. keyed (fst m)" for L
proof
  fix m assume "authority_init m"
  then show "keyed (fst m)" by (auto simp: authority_init_def keyed_def with_evidence_key_def)
next
  fix m m' assume inv: "keyed (fst m)" and step: "authority_step L m m'"
  from step inv show "keyed (fst m')"
  proof (cases rule: authority_step.cases)
    case (step_install st log draft envelope)
    have "keyed (snd (install_envelope L draft envelope st))"
      using refl
    proof (cases rule: install_envelope_cases [of _ L draft envelope st])
      case refused
      with inv step_install show ?thesis by simp
    next
      case (installed run)
      have "keyed st" using inv step_install by simp
      note old = this [unfolded keyed_def]
      have res: "st_resources (snd (install_envelope L draft envelope st))
          = add_grants (ev_envelope_ref envelope) (st_resources st) (ev_resources envelope)"
        by (subst installed(5)) simp
      show ?thesis unfolding keyed_def res by (intro allI impI) (rule add_grants_keyed [OF old])
    qed
    with step_install show ?thesis by simp
  next
    case (step_enforce answer request current log st result log' st')
    with inv show ?thesis by (auto intro: keyed_enforce)
  qed (auto simp: revoke_bridge_def revoke_session_def revoke_all_def
    intro: keyed_quiet [OF quiet_begin] keyed_quiet [OF quiet_mint] keyed_quiet [OF quiet_revoke_many]
      quiet_run_changes [THEN keyed_quiet])
qed

section \<open>What an attachment says\<close>

lemma bounded_verbs_iff: "v |\<in>| bounded_resource_verbs e \<longleftrightarrow> (\<exists>b \<in> set (ev_effect_bounds e). eb_capability b = CapResource v)"
proof -
  have "v |\<in>| bounded_resource_verbs e \<longleftrightarrow> (\<exists>b \<in> set (ev_effect_bounds e).
      (case eb_capability b of CapResource v \<Rightarrow> Some v | _ \<Rightarrow> None) = Some v)"
    unfolding bounded_resource_verbs_def fset_of_list_elem map_filter_def by (force simp: image_iff)
  also have "\<dots> \<longleftrightarrow> (\<exists>b \<in> set (ev_effect_bounds e). eb_capability b = CapResource v)"
    by (intro bex_cong refl) (simp split: EffectCapabilityV1.split)
  finally show ?thesis .
qed

text \<open>The envelope grants a verb on a handle: a grant allows it and a bound covers it.\<close>

definition envelope_allows :: "EffectEnvelopeV1 \<Rightarrow> ResourceHandleRefV1 \<Rightarrow> ResourceVerbV1 \<Rightarrow> bool" where
  "envelope_allows e h v \<longleftrightarrow> grants_verb (ev_resources e) h v \<and> (\<exists>b \<in> set (ev_effect_bounds e). eb_capability b = CapResource v)"

lemma attach_Inr:
  "attach L st access h k = Inr (g, vs) \<longleftrightarrow> (\<exists>e run rec.
     hm_get (st_envelopes st) (ma_envelope_ref access) = Some e \<and> hm_get (st_runs st) (ma_run_control_ref access) = Some run
     \<and> hm_get (st_resources st) h = Some rec \<and> is_ok (AuthorityContextV1_validate L (ma_context access))
     \<and> ma_context access = ev_context e \<and> ev_run_control_ref e = ma_run_control_ref access
     \<and> mr_envelope_ref run = ma_envelope_ref access \<and> mr_context_ref run = ev_context_ref e \<and> mr_state run = Active
     \<and> \<not> rr_revoked rec \<and> rr_envelope_ref rec = ma_envelope_ref access \<and> rg_context_ref (rr_grant rec) = ev_context_ref e
     \<and> rg_run_control_ref (rr_grant rec) = ma_run_control_ref access \<and> rg_host_ref (rr_grant rec) = ctx_host_ref (ma_context access)
     \<and> rg_kind (rr_grant rec) = k \<and> ch_now (ma_current access) < rg_expires_at (rr_grant rec)
     \<and> ch_now (ma_current access) < mr_expires_at run \<and> \<not> lifecycle_mismatch (ma_context access) (ma_current access)
     \<and> g = rr_grant rec \<and> vs = rg_allowed_verbs g |\<inter>| bounded_resource_verbs e)"
  unfolding attach_def validate_resource_projection_attachment_def validate_resource_attachment_def map_err_Inr and_then_Inr ok_or_Inr
    ensure_Inr
  by (auto simp: not_le)

lemma attach_handle:
  assumes "keyed st" and "attach L st access h k = Inr (g, vs)"
  shows "rg_handle_ref g = h" and "rg_kind g = k"
  using assms by (auto simp: attach_Inr dest: keyedD)

section \<open>What a workspace says\<close>

definition lease_ok :: "lib \<Rightarrow> EffectAuthorityStateV1 \<Rightarrow> ManagedResourceAccessV1 \<Rightarrow> WorkerWorkspaceAliasV1 \<Rightarrow> ManagedWorkspaceResourceLeaseV1 \<Rightarrow> bool" where
  "lease_ok L st access alias lease \<longleftrightarrow>
     attach L st access (rg_handle_ref (le_grant lease)) (rg_kind (le_grant lease)) = Inr (le_grant lease, le_effective_verbs lease)
     \<and> project_resource alias (le_grant lease) (le_effective_verbs lease) = Inr (le_projection lease)"

lemma attach_all_leases:
  assumes "keyed st" and "attach_all L st access atts res = Inr res'" and "\<forall>alias lease. res alias = Some lease \<longrightarrow> lease_ok L st access alias lease"
  shows "(\<forall>alias lease. res' alias = Some lease \<longrightarrow> lease_ok L st access alias lease)
    \<and> (\<forall>alias h. (\<exists>lease. res' alias = Some lease \<and> rg_handle_ref (le_grant lease) = h)
         \<longleftrightarrow> (\<exists>lease. res alias = Some lease \<and> rg_handle_ref (le_grant lease) = h) \<or> (\<exists>a \<in> set atts. wa_alias a = alias \<and> wa_handle_ref a = h))"
  using assms(2,3)
proof (induction atts arbitrary: res)
  case Nil
  then show ?case by simp
next
  case (Cons a atts)
  from Cons.prems(1) obtain g vs pr where free: "res (wa_alias a) = None"
    and att: "attach L st access (wa_handle_ref a) (wa_kind a) = Inr (g, vs)" and pr: "project_resource (wa_alias a) g vs = Inr pr"
    and rest: "attach_all L st access atts (res(wa_alias a \<mapsto> \<lparr>le_grant = g, le_effective_verbs = vs, le_projection = pr\<rparr>)) = Inr res'"
    by (auto simp: and_then_Inr split: prod.splits)
  note h = attach_handle [OF assms(1) att]
  have "\<forall>alias lease. (res(wa_alias a \<mapsto> \<lparr>le_grant = g, le_effective_verbs = vs, le_projection = pr\<rparr>)) alias = Some lease
      \<longrightarrow> lease_ok L st access alias lease"
    using Cons.prems(2) att pr h by (simp add: lease_ok_def)
  from Cons.IH [OF rest this] show ?case using free h(1) by auto
qed

lemma derive_Inr:
  assumes "keyed st" and "ManagedRunWorkspaceV1_derive L st access atts process = Inr ws"
  shows "ws_access ws = access" and "ws_resources ws alias = Some lease \<Longrightarrow> lease_ok L st access alias lease"
    and "(\<exists>lease. ws_resources ws alias = Some lease \<and> rg_handle_ref (le_grant lease) = h) \<longleftrightarrow> (\<exists>a \<in> set atts. wa_alias a = alias \<and> wa_handle_ref a = h)"
    and "pj_resources (ws_projection ws) = map (\<lambda>(_, lease). le_projection lease) (in_order (ws_resources ws))"
proof -
  from assms(2) obtain res where res: "attach_all L st access atts (\<lambda>_. None) = Inr res"
    and ws: "ws_access ws = access" "ws_resources ws = res"
      "pj_resources (ws_projection ws) = map (\<lambda>(_, lease). le_projection lease) (in_order (ws_resources ws))"
    unfolding ManagedRunWorkspaceV1_derive_def and_then_Inr by auto
  note facts = attach_all_leases [OF assms(1) res]
  show "ws_access ws = access" by (rule ws(1))
  show "pj_resources (ws_projection ws) = map (\<lambda>(_, lease). le_projection lease) (in_order (ws_resources ws))" by (rule ws(3))
  show "ws_resources ws alias = Some lease \<Longrightarrow> lease_ok L st access alias lease" using facts ws(2) by simp
  show "(\<exists>lease. ws_resources ws alias = Some lease \<and> rg_handle_ref (le_grant lease) = h) \<longleftrightarrow> (\<exists>a \<in> set atts. wa_alias a = alias \<and> wa_handle_ref a = h)"
    using facts ws(2) by simp
qed

lemma in_order_set: "(a, x) \<in> set (in_order m) \<longleftrightarrow> m a = Some x"
  by (cases a) (auto simp: in_order_def alias_order_def split: option.splits)

lemma project_operations:
  assumes "project_resource alias g vs = Inr pr"
  shows "wp_alias pr = alias \<and> wp_relative_selectors pr \<and> (op |\<in>| wp_operations pr \<longleftrightarrow> resource_verb op |\<in>| vs)"
proof -
  have "op |\<in>| fset_of_list (filter (\<lambda>x. resource_verb x |\<in>| vs) [WsInspect, WsRead, WsCreate, WsReplace]) \<longleftrightarrow> resource_verb op |\<in>| vs"
    unfolding fset_of_list_elem by (cases op) simp_all
  with assms show ?thesis unfolding project_resource_def and_then_Inr by auto
qed

lemma resolve_alias_Inr:
  "resolve_alias L st ws projection alias op sel = Inr h \<longleftrightarrow> (\<exists>lease.
     projection = ws_projection ws \<and> validate_managed_selector sel = Inr () \<and> ws_resources ws alias = Some lease
     \<and> op |\<in>| wp_operations (le_projection lease) \<and> (wp_relative_selectors (le_projection lease) \<or> sel = ''.'')
     \<and> attach L st (ws_access ws) (rg_handle_ref (le_grant lease)) (rg_kind (le_grant lease)) = Inr (le_grant lease, le_effective_verbs lease)
     \<and> resource_verb op |\<in>| le_effective_verbs lease \<and> h = rg_handle_ref (le_grant lease))"
  unfolding resolve_alias_def map_err_Inr and_then_Inr ok_or_Inr ensure_Inr by (auto simp: and_then_Inr)

text \<open>C24. A workspace gives nothing the envelope does not. Whatever workspace and view are presented, even made up, when
  an alias resolves for an operation in a reachable state, the handle is one of the grants of the workspace's own
  envelope, unrevoked, the run of that envelope is active and the envelope allows the operation on the handle.\<close>

theorem workspace_resolution_confined:
  assumes "authority_init m" and "rtranclp (authority_step L) m (st, log)"
    and "resolve_alias L st ws projection alias op sel = Inr h"
  shows "\<exists>e run rec. hm_get (st_envelopes st) (ma_envelope_ref (ws_access ws)) = Some e \<and> ev_context e = ma_context (ws_access ws)
    \<and> hm_get (st_runs st) (ev_run_control_ref e) = Some run \<and> mr_envelope_ref run = ev_envelope_ref e \<and> mr_state run = Active
    \<and> hm_get (st_resources st) h = Some rec \<and> rr_grant rec \<in> set (ev_resources e) \<and> \<not> rr_revoked rec
    \<and> envelope_allows e h (resource_verb op)"
proof -
  have core: "core_inv st" using authority.inv_reachable [OF assms(1,2)] by (simp add: authority_inv_def)
  have keyed: "keyed st" using keyed_handles.inv_reachable [OF assms(1,2)] by simp
  from assms(3) obtain lease :: ManagedWorkspaceResourceLeaseV1 where lease: "attach L st (ws_access ws) (rg_handle_ref (le_grant lease)) (rg_kind (le_grant lease))
      = Inr (le_grant lease, le_effective_verbs lease)"
    and op: "resource_verb op |\<in>| le_effective_verbs lease" and h: "h = rg_handle_ref (le_grant lease)"
    unfolding resolve_alias_Inr by blast
  note att = lease [folded h]
  from att obtain e run rec where e: "hm_get (st_envelopes st) (ma_envelope_ref (ws_access ws)) = Some e"
    and run: "hm_get (st_runs st) (ma_run_control_ref (ws_access ws)) = Some run" and rec: "hm_get (st_resources st) h = Some rec"
    and facts: "ma_context (ws_access ws) = ev_context e" "ev_run_control_ref e = ma_run_control_ref (ws_access ws)"
      "mr_envelope_ref run = ma_envelope_ref (ws_access ws)" "mr_state run = Active" "\<not> rr_revoked rec"
      "rr_envelope_ref rec = ma_envelope_ref (ws_access ws)" "le_grant lease = rr_grant rec"
      "le_effective_verbs lease = rg_allowed_verbs (le_grant lease) |\<inter>| bounded_resource_verbs e"
    unfolding attach_Inr by blast
  have grant: "rr_grant rec \<in> set (ev_resources e)" using core_inv_resource [OF core rec] e facts(6) by auto
  have "envelope_allows e h (resource_verb op)"
    unfolding envelope_allows_def grants_verb_def using grant keyedD [OF keyed rec] op facts(7,8) by (auto simp: bounded_verbs_iff)
  moreover have "ev_envelope_ref e = ma_envelope_ref (ws_access ws)" using core_inv_envelope [OF core e] by simp
  ultimately show ?thesis using e run rec facts grant by (intro exI [of _ e] exI [of _ run] exI [of _ rec]) simp
qed

definition handle_allows :: "EffectAuthorityStateV1 \<Rightarrow> EffectEnvelopeV1 \<Rightarrow> ResourceHandleRefV1 \<Rightarrow> ResourceVerbV1 \<Rightarrow> bool" where
  "handle_allows st e h v \<longleftrightarrow> (\<exists>rec. hm_get (st_resources st) h = Some rec \<and> v |\<in>| rg_allowed_verbs (rr_grant rec))
     \<and> (\<exists>b \<in> set (ev_effect_bounds e). eb_capability b = CapResource v)"

lemma lease_verbs:
  assumes "lease_ok L st access alias lease" and "hm_get (st_envelopes st) (ma_envelope_ref access) = Some e"
  shows "v |\<in>| le_effective_verbs lease \<longleftrightarrow> handle_allows st e (rg_handle_ref (le_grant lease)) v"
proof -
  from assms obtain rec where "hm_get (st_resources st) (rg_handle_ref (le_grant lease)) = Some rec" "le_grant lease = rr_grant rec"
    "le_effective_verbs lease = rg_allowed_verbs (le_grant lease) |\<inter>| bounded_resource_verbs e"
    unfolding lease_ok_def attach_Inr by auto
  then show ?thesis by (simp add: handle_allows_def bounded_verbs_iff)
qed

lemma listed_iff:
  assumes derive: "ManagedRunWorkspaceV1_derive L st access atts process = Inr ws" and keyed: "keyed st"
  shows "alias \<in> set (resources_for (ws_projection ws) op) \<longleftrightarrow>
    (\<exists>lease. ws_resources ws alias = Some lease \<and> resource_verb op |\<in>| le_effective_verbs lease)"
proof -
  note d = derive_Inr [OF keyed derive]
  have proj: "wp_alias (le_projection lease) = a" "op |\<in>| wp_operations (le_projection lease) \<longleftrightarrow> resource_verb op |\<in>| le_effective_verbs lease"
    if "ws_resources ws a = Some lease" for a lease
    using project_operations d(2) [OF that] unfolding lease_ok_def by blast+
  have "alias \<in> set (resources_for (ws_projection ws) op) \<longleftrightarrow> (\<exists>a lease. (a, lease) \<in> set (in_order (ws_resources ws))
      \<and> op |\<in>| wp_operations (le_projection lease) \<and> wp_alias (le_projection lease) = alias)"
    unfolding resources_for_def d(4) by (auto simp: image_iff)
  also have "\<dots> \<longleftrightarrow> (\<exists>lease. ws_resources ws alias = Some lease \<and> resource_verb op |\<in>| le_effective_verbs lease)"
    unfolding in_order_set using proj by blast
  finally show ?thesis .
qed

text \<open>The view of a workspace is honest. In the state a workspace was derived in, the view lists an operation on an
  alias exactly when an attachment binds the alias to a handle on which the authority allows the operation, and
  exactly the listed operations resolve, for every well-formed selector, to the handle attached.\<close>

theorem workspace_projection_honest:
  assumes "authority_init m" and "rtranclp (authority_step L) m (st, log)"
    and "ManagedRunWorkspaceV1_derive L st access atts process = Inr ws"
    and "hm_get (st_envelopes st) (ma_envelope_ref access) = Some e"
  shows "(alias \<in> set (resources_for (ws_projection ws) op) \<longleftrightarrow>
      (\<exists>a \<in> set atts. wa_alias a = alias \<and> handle_allows st e (wa_handle_ref a) (resource_verb op)))
    \<and> (resolve_alias L st ws (ws_projection ws) alias op sel = Inr h \<longleftrightarrow>
      alias \<in> set (resources_for (ws_projection ws) op) \<and> validate_managed_selector sel = Inr ()
      \<and> (\<exists>a \<in> set atts. wa_alias a = alias \<and> wa_handle_ref a = h))"
proof
  have keyed: "keyed st" using keyed_handles.inv_reachable [OF assms(1,2)] by simp
  note d = derive_Inr [OF keyed assms(3)]
  note listed = listed_iff [OF assms(3) keyed]
  have verbs: "v |\<in>| le_effective_verbs lease \<longleftrightarrow> handle_allows st e (rg_handle_ref (le_grant lease)) v"
    if "ws_resources ws a = Some lease" for a lease v
    by (rule lease_verbs [OF d(2) [OF that] assms(4)])
  show "alias \<in> set (resources_for (ws_projection ws) op) \<longleftrightarrow>
      (\<exists>a \<in> set atts. wa_alias a = alias \<and> handle_allows st e (wa_handle_ref a) (resource_verb op))"
    unfolding listed using d(3) [of "alias"] verbs by metis
  have "resolve_alias L st ws (ws_projection ws) alias op sel = Inr h \<longleftrightarrow> (\<exists>lease. validate_managed_selector sel = Inr ()
      \<and> ws_resources ws alias = Some lease \<and> resource_verb op |\<in>| le_effective_verbs lease \<and> h = rg_handle_ref (le_grant lease))"
  proof
    assume "resolve_alias L st ws (ws_projection ws) alias op sel = Inr h"
    then show "\<exists>lease. validate_managed_selector sel = Inr () \<and> ws_resources ws alias = Some lease
        \<and> resource_verb op |\<in>| le_effective_verbs lease \<and> h = rg_handle_ref (le_grant lease)"
      unfolding resolve_alias_Inr by blast
  next
    assume "\<exists>lease. validate_managed_selector sel = Inr () \<and> ws_resources ws alias = Some lease
        \<and> resource_verb op |\<in>| le_effective_verbs lease \<and> h = rg_handle_ref (le_grant lease)"
    then obtain lease where l: "validate_managed_selector sel = Inr ()" "ws_resources ws alias = Some lease"
      "resource_verb op |\<in>| le_effective_verbs lease" "h = rg_handle_ref (le_grant lease)" by blast
    from d(2) [OF l(2)] have ok: "attach L st access (rg_handle_ref (le_grant lease)) (rg_kind (le_grant lease)) = Inr (le_grant lease, le_effective_verbs lease)"
      and pr: "project_resource alias (le_grant lease) (le_effective_verbs lease) = Inr (le_projection lease)"
      by (simp_all add: lease_ok_def)
    from project_operations [OF pr, of op] l(3) have "op |\<in>| wp_operations (le_projection lease)" "wp_relative_selectors (le_projection lease)"
      by simp_all
    with l ok show "resolve_alias L st ws (ws_projection ws) alias op sel = Inr h"
      unfolding resolve_alias_Inr d(1) by blast
  qed
  with d(3) [of "alias" h] listed show "resolve_alias L st ws (ws_projection ws) alias op sel = Inr h \<longleftrightarrow>
      alias \<in> set (resources_for (ws_projection ws) op) \<and> validate_managed_selector sel = Inr ()
      \<and> (\<exists>a \<in> set atts. wa_alias a = alias \<and> wa_handle_ref a = h)"
    by (metis option.inject)
qed

section \<open>Example\<close>

text \<open>The example envelope of \<open>Effect_Envelope\<close>, with its one grant a managed revision.\<close>

definition wx_grant :: ResourceGrantV1 where "wx_grant = (ex_grant {|Read|})\<lparr>rg_kind := ManagedRevision\<rparr>"

definition wx_envelope :: EffectEnvelopeV1 where
  "wx_envelope = ex_envelope\<lparr>ev_resources := [wx_grant],
     ev_envelope_ref := compute_envelope_ref plain_lib (ex_envelope\<lparr>ev_resources := [wx_grant]\<rparr>)\<rparr>"

definition wx_run :: "ManagedRunStateV1 \<Rightarrow> ManagedRunControlV1" where
  "wx_run s = (ex_run s)\<lparr>mr_envelope_ref := ev_envelope_ref wx_envelope\<rparr>"

definition wx_state :: "ManagedRunStateV1 \<Rightarrow> EffectAuthorityStateV1" where
  "wx_state s = ex_start\<lparr>st_resources := [(''handle'', \<lparr>rr_grant = wx_grant, rr_envelope_ref = ev_envelope_ref wx_envelope, rr_revoked = False\<rparr>)],
     st_runs := [(''run'', wx_run s)], st_envelopes := [(ev_envelope_ref wx_envelope, wx_envelope)]\<rparr>"

lemma wx_envelope_fields:
  "ev_contract_version wx_envelope = EFFECT_AUTHORITY_VERSION" "ev_context wx_envelope = ex_context"
  "ev_context_ref wx_envelope = ex_context_ref" "ev_run_control_ref wx_envelope = ''run''"
  "compute_envelope_ref plain_lib wx_envelope = ev_envelope_ref wx_envelope"
  "ev_resources wx_envelope = [wx_grant]" "ev_expires_at wx_envelope = 80"
  "ev_effect_bounds wx_envelope = [\<lparr>eb_capability = CapResource Read, eb_max_per_request = ex_budgets 1\<rparr>]"
  by (simp_all add: wx_envelope_def ex_envelope_fields compute_envelope_ref_def envelope_hash_material_def)

lemma wx_reaches: "authority_init (ex_start, []) \<and> rtranclp (authority_step plain_lib) (ex_start, []) (wx_state Active, [])"
proof -
  have install: "snd (install_envelope plain_lib ex_draft wx_envelope ex_start) = wx_state Created"
    by (simp add: install_envelope_def wx_envelope_fields ex_draft_def ex_start_def with_evidence_key_def
      hm_contains_def hm_insert_def wx_run_def ex_run_def wx_grant_def ex_grant_def wx_state_def)
  have activate: "snd (activate_run ''run'' 10 (wx_state Created)) = wx_state Active"
    by (simp add: wx_state_def activate_run_def run_mut_def hm_get_def set_run_state_def hm_modify_def wx_run_def ex_run_def)
  have "authority_step plain_lib (ex_start, []) (wx_state Created, [])" using step_install install by metis
  moreover have "authority_step plain_lib (wx_state Created, []) (wx_state Active, [])" using step_activate activate by metis
  ultimately show ?thesis by (auto simp: authority_init_def ex_start_def)
qed

definition wx_access :: ManagedResourceAccessV1 where
  "wx_access = \<lparr>ma_envelope_ref = ev_envelope_ref wx_envelope, ma_run_control_ref = ''run'', ma_context = ex_context, ma_current = ex_current\<rparr>"

definition wx_attachment :: ManagedWorkspaceResourceAttachmentV1 where
  "wx_attachment = \<lparr>wa_alias = AliasInput, wa_kind = ManagedRevision, wa_handle_ref = ''handle''\<rparr>"

lemma wx_attach: "attach plain_lib (wx_state Active) wx_access ''handle'' ManagedRevision = Inr (wx_grant, {|Read|})"
proof -
  have "is_ok (AuthorityContextV1_validate plain_lib ex_context)"
    using ex_claimable by (simp add: claimable_def validate_exact_request_context_Inr ex_request_def ex_request_body_def)
  then show ?thesis unfolding attach_Inr
    by (simp add: wx_state_def wx_access_def hm_get_def wx_envelope_fields wx_run_def ex_run_def wx_grant_def ex_grant_def ex_current_def
      lifecycle_mismatch_def bounded_resource_verbs_def map_filter_def) (simp add: ex_context_def)
qed

lemma wx_derives: "\<exists>ws. ManagedRunWorkspaceV1_derive plain_lib (wx_state Active) wx_access [wx_attachment] None = Inr ws"
proof -
  have kind: "rg_kind wx_grant = ManagedRevision" by (simp add: wx_grant_def)
  have "\<exists>r. AuthorityContextV1_context_ref plain_lib (ma_context wx_access) = Inr r"
    using ex_context_ref by (auto simp: wx_access_def)
  then show ?thesis
    by (auto simp: ManagedRunWorkspaceV1_derive_def wx_attachment_def validate_alias_kind_def wx_attach project_resource_def
      workspace_kind_def kind projection_ref_def map_err_def)
qed

theorem workspace_projection_honest_witness:
  "\<exists>ws. ManagedRunWorkspaceV1_derive plain_lib (wx_state Active) wx_access [wx_attachment] None = Inr ws
     \<and> resolve_alias plain_lib (wx_state Active) ws (ws_projection ws) AliasInput WsRead ''.'' = Inr ''handle''
     \<and> AliasInput \<notin> set (resources_for (ws_projection ws) WsReplace)"
proof -
  from wx_derives obtain ws where ws: "ManagedRunWorkspaceV1_derive plain_lib (wx_state Active) wx_access [wx_attachment] None = Inr ws" by blast
  have env: "hm_get (st_envelopes (wx_state Active)) (ma_envelope_ref wx_access) = Some wx_envelope"
    by (simp add: wx_state_def wx_access_def hm_get_def)
  note honest = workspace_projection_honest [OF wx_reaches [THEN conjunct1] wx_reaches [THEN conjunct2] ws env]
  have allows: "handle_allows (wx_state Active) wx_envelope ''handle'' v \<longleftrightarrow> v = Read" for v
    by (auto simp: handle_allows_def wx_state_def hm_get_def wx_grant_def ex_grant_def wx_envelope_fields)
  have "AliasInput \<in> set (resources_for (ws_projection ws) op) \<longleftrightarrow> resource_verb op = Read" for op
    using honest [THEN conjunct1, of AliasInput op] allows by (simp add: wx_attachment_def)
  moreover have "validate_managed_selector ''.'' = Inr ()"
    by (simp add: validate_managed_selector_def contains_char_def starts_with_def to_ascii_lowercase_def)
  ultimately show ?thesis using ws honest [THEN conjunct2, of AliasInput WsRead "''.''" "''handle''"]
    by (auto simp: wx_attachment_def)
qed

theorem workspace_resolution_confined_witness:
  "\<exists>ws e. resolve_alias plain_lib (wx_state Active) ws (ws_projection ws) AliasInput WsRead ''.'' = Inr ''handle''
     \<and> envelope_allows e ''handle'' Read"
proof -
  let ?lease = "\<lparr>le_grant = wx_grant, le_effective_verbs = {|Read|}, le_projection = \<lparr>wp_alias = AliasInput, wp_kind = WsManagedRevision,
    wp_operations = {|WsRead|}, wp_relative_selectors = True\<rparr>\<rparr>"
  let ?ws = "\<lparr>ws_access = wx_access, ws_resources = (\<lambda>_. Some ?lease), ws_process = None,
    ws_projection = \<lparr>pj_schema_version = [], pj_resources = [], pj_projection_ref = []\<rparr>\<rparr>"
  have "validate_managed_selector ''.'' = Inr ()"
    by (simp add: validate_managed_selector_def contains_char_def starts_with_def to_ascii_lowercase_def)
  moreover have "rg_handle_ref wx_grant = ''handle''" "rg_kind wx_grant = ManagedRevision" by (simp_all add: wx_grant_def ex_grant_def)
  ultimately have ok: "resolve_alias plain_lib (wx_state Active) ?ws (ws_projection ?ws) AliasInput WsRead ''.'' = Inr ''handle''"
    by (simp add: resolve_alias_def map_err_def wx_attach)
  from workspace_resolution_confined [OF wx_reaches [THEN conjunct1] wx_reaches [THEN conjunct2] ok]
  obtain e where "envelope_allows e ''handle'' Read" by auto
  with ok show ?thesis by (intro exI [of _ ?ws] exI [of _ e]) (rule conjI)
qed

end
