(* ===== verification/Managed_Resources.thy ===== *)
theory Managed_Resources
  imports Managed_Workspace Managed_Objects
begin

text \<open>
  The Host-side resources behind resource handles, \<^verbatim>\<open>src-tauri/src/managed_resources.rs\<close>: what a handle is bound to,
  the staging of written bytes, the backend that carries out authorized resource effects, the sealing of outputs and
  their registration as the next revision.

  What the file system answers is an argument \<open>D\<close> of each call that asks it: \<open>dk_fs\<close> is what lies on disk,
  \<open>dk_root\<close> makes a new private directory, \<open>dk_create\<close> says whether a missing directory can be made,
  \<open>dk_renamed\<close> is the outcome of writing the temporary file and renaming it over the target, and \<open>dk_captured\<close> the identity
  found at the target afterwards, or the error of looking for it. So a write can fail before or after the target is
  replaced; the state of the resolver is the table of what it tracks, not the disk. Removing directories leaves it alone. Sealing and registration are in \<open>Managed_Outputs\<close>, copies and leases in \<open>Managed_Leases\<close>.
\<close>

section \<open>Data\<close>

definition RESOURCE_RESOLUTION_VERSION :: string where
  "RESOURCE_RESOLUTION_VERSION = ''pastey-managed-resource-resolution-v1''"

datatype resource_error = ResInvalid string | ResAuthority effect_error | ResFile file_error | ResPanic

record WorkspaceBindingSpecV1 =
  wk_acquisition :: ManagedObjectAcquisition
  wk_initial_selector :: string
  wk_quota_bytes :: u64

record ExecutableBindingSpecV1 =
  xs_executable_path :: path
  xs_scope_root :: path

record SealedOutputEvidenceV1 =
  so_contract_version :: string
  so_seal_ref :: string
  so_evidence_id :: string
  so_envelope_ref :: EffectEnvelopeRefV1
  so_run_control_ref :: ManagedRunRefV1
  so_context_ref :: AuthorityContextRefV1
  so_handle_ref :: ResourceHandleRefV1
  so_relative_selector :: string
  so_generation :: u64
  so_content_digest :: string
  so_bytes :: u64
  so_representation :: ManagedArtifactRepresentationV1
  so_entry_count :: u64

record HostResourceReadV1 =
  hr_request_id :: EffectRequestIdV1
  hr_bytes :: "byte list"
  hr_generation :: u64
  hr_content_digest :: string

record ExactOwnerV1 =
  ow_envelope_ref :: EffectEnvelopeRefV1
  ow_run_control_ref :: ManagedRunRefV1
  ow_context_ref :: AuthorityContextRefV1
  ow_bridge_id :: string

record PrivateFileV1 =
  pf_path :: path
  pf_identity :: SourceIdentity
  pf_generation :: u64
  pf_sealed :: bool
  pf_lineage_registered :: bool
  pf_last_request_id :: "EffectRequestIdV1 option"

type_synonym private_files = "(string, PrivateFileV1) hmap"

text \<open>The fields of each variant in the order of the source.\<close>

datatype HostResourceBackingV1 =
  BackManagedRevision (backing_owner: ExactOwnerV1) ManagedObjectAcquisition u64
| BackWorkspace (backing_owner: ExactOwnerV1) ManagedObjectAcquisition path private_files u64
| BackOutputSlot (backing_owner: ExactOwnerV1) path private_files u64 bool
| BackScratch (backing_owner: ExactOwnerV1) path private_files u64
| BackExecutable (backing_owner: ExactOwnerV1) path path SourceIdentity

definition backing_kind :: "HostResourceBackingV1 \<Rightarrow> ResourceKindV1" where
  "backing_kind b = (case b of BackManagedRevision _ _ _ \<Rightarrow> ManagedRevision | BackWorkspace _ _ _ _ _ \<Rightarrow> Workspace
     | BackOutputSlot _ _ _ _ _ \<Rightarrow> OutputSlot | BackScratch _ _ _ _ \<Rightarrow> Scratch | BackExecutable _ _ _ _ \<Rightarrow> Executable)"

text \<open>Root, files and quota of a backing that holds private files, and the backing with other files.\<close>

definition private_part :: "HostResourceBackingV1 \<Rightarrow> (path \<times> private_files \<times> u64) option" where
  "private_part b = (case b of
     BackWorkspace _ _ root files quota_bytes \<Rightarrow> Some (root, files, quota_bytes)
   | BackOutputSlot _ root files quota_bytes _ \<Rightarrow> Some (root, files, quota_bytes)
   | BackScratch _ root files quota_bytes \<Rightarrow> Some (root, files, quota_bytes)
   | _ \<Rightarrow> None)"

definition with_files :: "private_files \<Rightarrow> HostResourceBackingV1 \<Rightarrow> HostResourceBackingV1" where
  "with_files files b = (case b of
     BackWorkspace owner acquisition root _ quota_bytes \<Rightarrow> BackWorkspace owner acquisition root files quota_bytes
   | BackOutputSlot owner root _ quota_bytes root_sealed \<Rightarrow> BackOutputSlot owner root files quota_bytes root_sealed
   | BackScratch owner root _ quota_bytes \<Rightarrow> BackScratch owner root files quota_bytes
   | _ \<Rightarrow> b)"

record StagedPayloadV1 =
  sp_owner :: ExactOwnerV1
  sp_handle_ref :: ResourceHandleRefV1
  sp_content_digest :: string
  sp_bytes :: "byte list"

record ManagedResourceResolverV1 =
  rv_process_root :: path
  rv_backings :: "(ResourceHandleRefV1, HostResourceBackingV1) hmap"
  rv_staged_payloads :: "(string, StagedPayloadV1) hmap"
  rv_reads :: "(EffectRequestIdV1, HostResourceReadV1) hmap"
  rv_world_leases :: "ResourceHandleRefV1 fset"
  rv_exclusive_world_leases :: "ResourceHandleRefV1 fset"

record disk =
  dk_fs :: host_fs
  dk_root :: "path \<Rightarrow> file_error + path"
  dk_create :: "path \<Rightarrow> bool"
  dk_renamed :: "file_error + unit"
  dk_captured :: "file_error + SourceIdentity"

definition ManagedResourceResolverV1_new :: "path \<Rightarrow> string \<Rightarrow> ManagedResourceResolverV1" where
  "ManagedResourceResolverV1_new base_root uuid =
     \<lparr>rv_process_root = base_root @ [Normal (''run-'' @ uuid)], rv_backings = [], rv_staged_payloads = [], rv_reads = [],
      rv_world_leases = {||}, rv_exclusive_world_leases = {||}\<rparr>"

section \<open>Owners, identities, files\<close>

definition resource_domain_hash :: "lib \<Rightarrow> string \<Rightarrow> json \<Rightarrow> string" where
  "resource_domain_hash L domain value = (let canonical = json_vec L value in
     domain @ '':'' @ blake3_hex L (as_bytes domain @ [0] @ to_be_bytes (of_nat (length canonical) :: u64) @ canonical))"

definition digest_bytes :: "lib \<Rightarrow> byte list \<Rightarrow> string" where
  "digest_bytes L bytes = blake3_hex L bytes"

definition access_context_ref :: "lib \<Rightarrow> ManagedResourceAccessV1 \<Rightarrow> resource_error + AuthorityContextRefV1" where
  "access_context_ref L access = map_err ResAuthority (AuthorityContextV1_context_ref L (ma_context access))"

definition validate_attachment ::
  "lib \<Rightarrow> EffectAuthorityStateV1 \<Rightarrow> ManagedResourceAccessV1 \<Rightarrow> ResourceHandleRefV1 \<Rightarrow> ResourceKindV1
   \<Rightarrow> resource_error + ResourceGrantV1" where
  "validate_attachment L authority access handle_ref kind =
     map_err ResAuthority (validate_resource_attachment L handle_ref kind (ma_envelope_ref access)
       (ma_run_control_ref access) (ma_context access) (ma_current access) authority)"

definition owner_of :: "lib \<Rightarrow> ManagedResourceAccessV1 \<Rightarrow> resource_error + ExactOwnerV1" where
  "owner_of L access =
     and_then (access_context_ref L access) (\<lambda>context_ref.
     Inr \<lparr>ow_envelope_ref = ma_envelope_ref access, ow_run_control_ref = ma_run_control_ref access,
       ow_context_ref = context_ref, ow_bridge_id = ctx_bridge_id (ma_context access)\<rparr>)"

text \<open>The source compares the first two references before it computes the third.\<close>

definition validate_owner :: "lib \<Rightarrow> ExactOwnerV1 \<Rightarrow> ManagedResourceAccessV1 \<Rightarrow> resource_error + unit" where
  "validate_owner L owner access =
     (if ow_envelope_ref owner \<noteq> ma_envelope_ref access \<or> ow_run_control_ref owner \<noteq> ma_run_control_ref access
      then Inl (ResInvalid ''Managed resource owner context was substituted.'')
      else and_then (access_context_ref L access) (\<lambda>context_ref.
        ensure (ow_context_ref owner = context_ref) (ResInvalid ''Managed resource owner context was substituted.'')))"

definition validate_request_owner :: "lib \<Rightarrow> ExactOwnerV1 \<Rightarrow> EffectRequestV1 \<Rightarrow> resource_error + unit" where
  "validate_request_owner L owner request =
     (if ow_envelope_ref owner \<noteq> rq_envelope_ref request \<or> ow_run_control_ref owner \<noteq> rq_run_control_ref request
      then Inl (ResInvalid ''Managed resource request owner context was substituted.'')
      else and_then (map_err ResAuthority (AuthorityContextV1_context_ref L (rq_context request))) (\<lambda>context_ref.
        ensure (ow_context_ref owner = context_ref)
          (ResInvalid ''Managed resource request owner context was substituted.'')))"

definition validate_exact_input :: "AuthorityContextV1 \<Rightarrow> ManagedObjectAcquisition \<Rightarrow> resource_error + unit" where
  "validate_exact_input context acquisition =
     (let object = ma_object acquisition; binding = ma_binding acquisition in
      ensure (\<not> (mo_host_ref object \<noteq> ctx_host_ref context \<or> sb_host_ref binding \<noteq> ctx_host_ref context
          \<or> sb_logical_object_id binding \<noteq> mo_logical_object_id object \<or> sb_revision binding \<noteq> mo_revision object
          \<or> \<not> list_ex (\<lambda>input. ir_logical_object_id input = mo_logical_object_id object
                \<and> ir_revision input = mo_revision object \<and> ir_host_ref input = mo_host_ref object)
              (ctx_input_revisions context)))
        (ResInvalid ''Managed resource does not match an exact Host-bound input revision.''))"

definition validate_quota :: "u64 \<Rightarrow> u64 \<Rightarrow> resource_error + unit" where
  "validate_quota quota limit =
     ensure (\<not> (quota = 0 \<or> quota > limit)) (ResInvalid ''Managed resource quota exceeds its resource grant.'')"

definition identity_ref :: "lib \<Rightarrow> string \<Rightarrow> ManagedObjectAcquisition \<Rightarrow> ResolvedManagedArtifact \<Rightarrow> string" where
  "identity_ref L domain acquisition artifact = resource_domain_hash L domain
     (JArr [JStr (mo_logical_object_id (ma_object acquisition)), ju64 (mo_revision (ma_object acquisition)),
       JStr (mo_host_ref (ma_object acquisition)), JStr (sb_binding_ref (ma_binding acquisition)),
       JStr (artifact_digest (ra_identity artifact)), ju64 (artifact_byte_count (ra_identity artifact))])"

definition managed_revision_identity_ref :: "lib \<Rightarrow> ManagedObjectAcquisition \<Rightarrow> ResolvedManagedArtifact \<Rightarrow> string" where
  "managed_revision_identity_ref L = identity_ref L ''pastey-managed-revision-safe-identity-v1''"

definition workspace_identity_ref :: "lib \<Rightarrow> ManagedObjectAcquisition \<Rightarrow> ResolvedManagedArtifact \<Rightarrow> string" where
  "workspace_identity_ref L = identity_ref L ''pastey-workspace-safe-identity-v1''"

text \<open>The safe-file calls, on the node of the canonical scope root.\<close>

definition scope_node :: "host_fs \<Rightarrow> path \<Rightarrow> file_error + fs_node" where
  "scope_node F scope_root =
     and_then (ok_or (hf_canonical F scope_root) (FileError ''Safe file source scope is unavailable.'')) (\<lambda>canonical_root.
     ok_or (hf_node F canonical_root) IoError)"

definition capture_at :: "lib \<Rightarrow> host_fs \<Rightarrow> path \<Rightarrow> path \<Rightarrow> u64 \<Rightarrow> resource_error + SourceIdentity" where
  "capture_at L F source_path scope_root maximum_bytes = map_err ResFile
     (and_then (scope_node F scope_root) (\<lambda>node. capture_source_identity L scope_root node source_path maximum_bytes))"

definition read_at :: "lib \<Rightarrow> host_fs \<Rightarrow> path \<Rightarrow> path \<Rightarrow> SourceIdentity \<Rightarrow> u64 \<Rightarrow> resource_error + byte list" where
  "read_at L F source_path scope_root expected maximum_bytes = map_err ResFile
     (and_then (scope_node F scope_root) (\<lambda>node.
      read_source_if_identity_matches L scope_root node source_path expected maximum_bytes))"

definition scan_regular_tree :: "lib \<Rightarrow> host_fs \<Rightarrow> path \<Rightarrow> u64 \<Rightarrow> resource_error + (string \<times> SourceIdentity) list" where
  "scan_regular_tree L F root quota_bytes = map_err ResFile
     (and_then (ok_or (hf_node F root) IoError) (\<lambda>node.
      map_ok fst (scan_regular_file_set L root node quota_bytes)))"

definition executable_identity_ref :: "lib \<Rightarrow> host_fs \<Rightarrow> ExecutableBindingSpecV1 \<Rightarrow> resource_error + string" where
  "executable_identity_ref L F spec =
     and_then (capture_at L F (xs_executable_path spec) (xs_scope_root spec) (- 1)) (\<lambda>identity.
     Inr (resource_domain_hash L ''pastey-executable-safe-identity-v1''
       (JArr [JStr (si_digest identity), ju64 (si_byte_count identity)])))"

text \<open>\<^verbatim>\<open>write_private_file\<close>: the directories above the target, the state of the target and the renaming over it are
  \<open>commit_private_file\<close>, which succeeds exactly when the target on disk was replaced; then the identity found there is compared with what
  was written. A directory that was just made is its own canonical path. (On Windows the old target is removed before the
  rename, so there a failed rename leaves no target.)\<close>

fun walk_parents :: "disk \<Rightarrow> path \<Rightarrow> path \<Rightarrow> path_component list \<Rightarrow> resource_error + unit" where
  "walk_parents D canonical_root parent [] = Inr ()"
| "walk_parents D canonical_root parent (component # rest) =
     (if \<not> is_normal component then Inl (ResInvalid ''Managed resource selector escaped its private root.'')
      else let parent = parent @ [component] in
        case hf_node (dk_fs D) parent of
          Some (DirNode _) \<Rightarrow>
            (case hf_canonical (dk_fs D) parent of
               None \<Rightarrow> Inl (ResFile IoError)
             | Some c \<Rightarrow> if prefix canonical_root c then walk_parents D canonical_root parent rest
                 else Inl (ResInvalid ''Managed resource selector escaped its private root.''))
        | Some _ \<Rightarrow> Inl (ResInvalid ''Managed resource selector crosses an unsafe directory.'')
        | None \<Rightarrow> if dk_create D parent then walk_parents D canonical_root parent rest else Inl (ResFile IoError))"

definition check_target :: "lib \<Rightarrow> host_fs \<Rightarrow> path \<Rightarrow> path \<Rightarrow> SourceIdentity option \<Rightarrow> resource_error + unit" where
  "check_target L F canonical_root destination expected_identity =
     (case (expected_identity, hf_node F destination) of
        (None, Some _) \<Rightarrow> Inl (ResInvalid ''Managed resource create target already exists.'')
      | (None, None) \<Rightarrow> Inr ()
      | (Some expected, Some (FileNode _)) \<Rightarrow>
          and_then (capture_at L F destination canonical_root (si_byte_count expected)) (\<lambda>observed.
          ensure (observed = expected) (ResInvalid ''Managed resource replace identity is stale or aliased.''))
      | (Some _, Some _) \<Rightarrow> Inl (ResInvalid ''Managed resource replace target is unsafe.'')
      | (Some _, None) \<Rightarrow> Inl (ResInvalid ''Managed resource replace target is unavailable.''))"

definition commit_private_file ::
  "lib \<Rightarrow> disk \<Rightarrow> path \<Rightarrow> string \<Rightarrow> SourceIdentity option \<Rightarrow> resource_error + path" where
  "commit_private_file L D root selector expected_identity =
     and_then (map_err ResFile (validate_managed_selector selector)) (\<lambda>_.
     and_then (ensure (selector \<noteq> ''.'') (ResInvalid ''A mutable private file requires a relative selector.'')) (\<lambda>_.
     and_then (ok_or (hf_canonical (dk_fs D) root) (ResInvalid ''Private managed resource root is unavailable.'')) (\<lambda>canonical_root.
     and_then (walk_parents D canonical_root canonical_root (butlast (path_components selector))) (\<lambda>_.
     let destination = canonical_root @ path_components selector in
     and_then (check_target L (dk_fs D) canonical_root destination expected_identity) (\<lambda>_.
     and_then (map_err ResFile (dk_renamed D)) (\<lambda>_.
     Inr destination))))))"

definition write_private_file ::
  "lib \<Rightarrow> disk \<Rightarrow> path \<Rightarrow> string \<Rightarrow> SourceIdentity option \<Rightarrow> byte list \<Rightarrow> u64 \<Rightarrow> resource_error + PrivateFileV1" where
  "write_private_file L D root selector expected_identity bytes generation =
     and_then (commit_private_file L D root selector expected_identity) (\<lambda>destination.
     and_then (map_err ResFile (dk_captured D)) (\<lambda>identity.
     and_then (ensure (\<not> (si_digest identity \<noteq> digest_bytes L bytes \<or> si_byte_count identity \<noteq> of_nat (length bytes)))
       (ResInvalid ''Managed resource write identity is indeterminate.'')) (\<lambda>_.
     Inr \<lparr>pf_path = destination, pf_identity = identity, pf_generation = generation, pf_sealed = False,
       pf_lineage_registered = False, pf_last_request_id = None\<rparr>)))"

section \<open>Binding handles\<close>

definition insert_backing ::
  "ResourceHandleRefV1 \<Rightarrow> HostResourceBackingV1 \<Rightarrow> ManagedResourceResolverV1 \<Rightarrow> (resource_error + unit) \<times> ManagedResourceResolverV1" where
  "insert_backing handle_ref backing rv =
     (if hm_contains (rv_backings rv) handle_ref
      then (Inl (ResInvalid ''Managed resource handle is already physically bound.''), rv)
      else (Inr (), rv\<lparr>rv_backings := hm_insert handle_ref backing (rv_backings rv)\<rparr>))"

text \<open>The checks of a binding yield the backing, or an error that leaves the resolver as it is.\<close>

definition bind_with ::
  "ResourceHandleRefV1 \<Rightarrow> resource_error + HostResourceBackingV1 \<Rightarrow> ManagedResourceResolverV1
   \<Rightarrow> (resource_error + unit) \<times> ManagedResourceResolverV1" where
  "bind_with handle_ref checked rv = (case checked of Inl e \<Rightarrow> (Inl e, rv) | Inr backing \<Rightarrow> insert_backing handle_ref backing rv)"

text \<open>\<open>executable\<close> is the answer to \<^verbatim>\<open>mode() & 0o111 != 0\<close>, an error when the metadata is unavailable.\<close>

definition bind_executable ::
  "lib \<Rightarrow> host_fs \<Rightarrow> file_error + bool \<Rightarrow> EffectAuthorityStateV1 \<Rightarrow> ManagedResourceAccessV1 \<Rightarrow> ResourceHandleRefV1
   \<Rightarrow> ExecutableBindingSpecV1 \<Rightarrow> ManagedResourceResolverV1 \<Rightarrow> (resource_error + unit) \<times> ManagedResourceResolverV1" where
  "bind_executable L F executable authority access handle_ref spec = bind_with handle_ref
     (and_then (validate_attachment L authority access handle_ref Executable) (\<lambda>grant.
      and_then (capture_at L F (xs_executable_path spec) (xs_scope_root spec) (- 1)) (\<lambda>identity.
      and_then (ensure (rg_safe_identity_ref grant = resource_domain_hash L ''pastey-executable-safe-identity-v1''
          (JArr [JStr (si_digest identity), ju64 (si_byte_count identity)]))
        (ResInvalid ''Executable safe identity does not match its resource grant.'')) (\<lambda>_.
      and_then (map_err ResFile executable) (\<lambda>mode.
      and_then (ensure mode (ResInvalid ''Executable resource is not executable on this Host.'')) (\<lambda>_.
      and_then (owner_of L access) (\<lambda>owner.
      Inr (BackExecutable owner (xs_executable_path spec) (xs_scope_root spec) identity))))))))"

definition revision_backing ::
  "lib \<Rightarrow> EffectAuthorityStateV1 \<Rightarrow> ManagedResourceAccessV1 \<Rightarrow> ResourceHandleRefV1 \<Rightarrow> ManagedObjectAcquisition
   \<Rightarrow> file_error + ResolvedManagedArtifact \<Rightarrow> resource_error + HostResourceBackingV1" where
  "revision_backing L authority access handle_ref acquisition resolved =
     and_then (validate_attachment L authority access handle_ref ManagedRevision) (\<lambda>grant.
     and_then (validate_exact_input (ma_context access) acquisition) (\<lambda>_.
     and_then (map_err ResFile resolved) (\<lambda>artifact.
     and_then (ensure (rg_safe_identity_ref grant = managed_revision_identity_ref L acquisition artifact)
       (ResInvalid ''Managed revision safe identity does not match its resource grant.'')) (\<lambda>_.
     and_then (owner_of L access) (\<lambda>owner.
     Inr (BackManagedRevision owner acquisition (bg_read_bytes (rg_budgets grant))))))))"

text \<open>The object service is asked, and prunes, only after the checks that precede it.\<close>

definition asks_objects ::
  "lib \<Rightarrow> EffectAuthorityStateV1 \<Rightarrow> ManagedResourceAccessV1 \<Rightarrow> ResourceHandleRefV1 \<Rightarrow> ResourceKindV1 \<Rightarrow> ManagedObjectAcquisition \<Rightarrow> bool" where
  "asks_objects L authority access handle_ref kind acquisition \<longleftrightarrow>
     is_ok (validate_attachment L authority access handle_ref kind) \<and> is_ok (validate_exact_input (ma_context access) acquisition)"

definition bind_managed_revision ::
  "lib \<Rightarrow> host_fs \<Rightarrow> EffectAuthorityStateV1 \<Rightarrow> ManagedResourceAccessV1 \<Rightarrow> ResourceHandleRefV1 \<Rightarrow> ManagedObjectAcquisition
   \<Rightarrow> ManagedObjectBindingService \<Rightarrow> ManagedResourceResolverV1
   \<Rightarrow> (resource_error + unit) \<times> ManagedObjectBindingService \<times> ManagedResourceResolverV1" where
  "bind_managed_revision L F authority access handle_ref acquisition objects rv =
     (let (resolved, objects') = resolve L F acquisition (ch_now (ma_current access)) objects;
          (result, rv') = bind_with handle_ref (revision_backing L authority access handle_ref acquisition resolved) rv
      in (result, if asks_objects L authority access handle_ref ManagedRevision acquisition then objects' else objects, rv'))"

definition allocate_root :: "lib \<Rightarrow> disk \<Rightarrow> ResourceHandleRefV1 \<Rightarrow> ManagedResourceResolverV1 \<Rightarrow> resource_error + path" where
  "allocate_root L D handle_ref rv =
     map_err ResFile (dk_root D (rv_process_root rv @ [Normal (blake3_hex L (as_bytes handle_ref))]))"

definition workspace_backing ::
  "lib \<Rightarrow> disk \<Rightarrow> EffectAuthorityStateV1 \<Rightarrow> ManagedResourceAccessV1 \<Rightarrow> ResourceHandleRefV1 \<Rightarrow> WorkspaceBindingSpecV1
   \<Rightarrow> file_error + ResolvedManagedArtifact \<Rightarrow> ManagedResourceResolverV1 \<Rightarrow> resource_error + HostResourceBackingV1" where
  "workspace_backing L D authority access handle_ref spec resolved rv =
     and_then (validate_attachment L authority access handle_ref Workspace) (\<lambda>grant.
     and_then (validate_exact_input (ma_context access) (wk_acquisition spec)) (\<lambda>_.
     and_then (map_err ResFile (validate_managed_selector (wk_initial_selector spec))) (\<lambda>_.
     and_then (map_err ResFile resolved) (\<lambda>artifact.
     and_then (ensure (rg_safe_identity_ref grant = workspace_identity_ref L (wk_acquisition spec) artifact)
       (ResInvalid ''Workspace safe identity does not match its resource grant.'')) (\<lambda>_.
     and_then (validate_quota (wk_quota_bytes spec)
       (max (bg_write_bytes (rg_budgets grant)) (bg_read_bytes (rg_budgets grant)))) (\<lambda>_.
     and_then (allocate_root L D handle_ref rv) (\<lambda>root.
     and_then (map_err ResFile (artifact_regular_file (ra_identity artifact))) (\<lambda>identity.
     and_then (read_at L (dk_fs D) (ra_path artifact) (ra_scope_root artifact) identity (wk_quota_bytes spec)) (\<lambda>bytes.
     and_then (write_private_file L D root (wk_initial_selector spec) None bytes 1) (\<lambda>private.
     and_then (owner_of L access) (\<lambda>owner.
     Inr (BackWorkspace owner (wk_acquisition spec) root (hm_insert (wk_initial_selector spec) private [])
       (wk_quota_bytes spec)))))))))))))"

definition bind_workspace ::
  "lib \<Rightarrow> disk \<Rightarrow> EffectAuthorityStateV1 \<Rightarrow> ManagedResourceAccessV1 \<Rightarrow> ResourceHandleRefV1 \<Rightarrow> WorkspaceBindingSpecV1
   \<Rightarrow> ManagedObjectBindingService \<Rightarrow> ManagedResourceResolverV1
   \<Rightarrow> (resource_error + unit) \<times> ManagedObjectBindingService \<times> ManagedResourceResolverV1" where
  "bind_workspace L D authority access handle_ref spec objects rv =
     (let (resolved, objects') = resolve L (dk_fs D) (wk_acquisition spec) (ch_now (ma_current access)) objects;
          (result, rv') = bind_with handle_ref (workspace_backing L D authority access handle_ref spec resolved rv) rv
      in (result,
        if asks_objects L authority access handle_ref Workspace (wk_acquisition spec)
          \<and> is_ok (validate_managed_selector (wk_initial_selector spec)) then objects' else objects, rv'))"

definition provision_empty ::
  "lib \<Rightarrow> disk \<Rightarrow> EffectAuthorityStateV1 \<Rightarrow> ManagedResourceAccessV1 \<Rightarrow> ResourceHandleRefV1 \<Rightarrow> ResourceKindV1 \<Rightarrow> u64
   \<Rightarrow> ManagedResourceResolverV1 \<Rightarrow> (resource_error + unit) \<times> ManagedResourceResolverV1" where
  "provision_empty L D authority access handle_ref kind quota_bytes rv = bind_with handle_ref
     (and_then (validate_attachment L authority access handle_ref kind) (\<lambda>grant.
      and_then (validate_quota quota_bytes (bg_write_bytes (rg_budgets grant))) (\<lambda>_.
      and_then (allocate_root L D handle_ref rv) (\<lambda>root.
      case kind of
        OutputSlot \<Rightarrow> and_then (owner_of L access) (\<lambda>owner. Inr (BackOutputSlot owner root [] quota_bytes False))
      | Scratch \<Rightarrow> and_then (owner_of L access) (\<lambda>owner. Inr (BackScratch owner root [] quota_bytes))
      | _ \<Rightarrow> Inl (ResInvalid ''Only OutputSlot or Scratch may be provisioned empty.''))))) rv"

definition provision_output_slot where
  "provision_output_slot L D authority access handle_ref = provision_empty L D authority access handle_ref OutputSlot"

definition provision_scratch where
  "provision_scratch L D authority access handle_ref = provision_empty L D authority access handle_ref Scratch"

section \<open>Staging and reads\<close>

definition staged_key :: "ManagedRunRefV1 \<Rightarrow> ResourceHandleRefV1 \<Rightarrow> string \<Rightarrow> string" where
  "staged_key run_ref handle_ref digest = run_ref @ [CHR 0x00] @ handle_ref @ [CHR 0x00] @ digest"

definition backing_quota :: "HostResourceBackingV1 \<Rightarrow> u64" where
  "backing_quota b = (case private_part b of Some (_, _, quota_bytes) \<Rightarrow> quota_bytes | None \<Rightarrow> 0)"

definition stage_checks ::
  "lib \<Rightarrow> EffectAuthorityStateV1 \<Rightarrow> ManagedResourceAccessV1 \<Rightarrow> ResourceHandleRefV1 \<Rightarrow> string \<Rightarrow> byte list
   \<Rightarrow> ManagedResourceResolverV1 \<Rightarrow> resource_error + string \<times> StagedPayloadV1" where
  "stage_checks L authority access handle_ref content_digest bytes rv =
     and_then (ok_or (hm_get (rv_backings rv) handle_ref) (ResInvalid ''Managed resource backing is unavailable.'')) (\<lambda>backing.
     and_then (validate_attachment L authority access handle_ref (backing_kind backing)) (\<lambda>grant.
     and_then (validate_owner L (backing_owner backing) access) (\<lambda>_.
     and_then (ensure (backing_kind backing \<noteq> ManagedRevision)
       (ResInvalid ''Authoritative managed revisions are immutable to Worker authority.'')) (\<lambda>_.
     and_then (ensure (\<not> (of_nat (length bytes) > bg_write_bytes (rg_budgets grant)
         \<or> of_nat (length bytes) > backing_quota backing \<or> digest_bytes L bytes \<noteq> content_digest))
       (ResInvalid ''Staged resource payload exceeds authority or has the wrong digest.'')) (\<lambda>_.
     and_then (ensure (\<not> list_ex (\<lambda>payload. sp_handle_ref payload = handle_ref
         \<and> ow_run_control_ref (sp_owner payload) = ma_run_control_ref access) (hm_values (rv_staged_payloads rv)))
       (ResInvalid ''A managed resource handle already has a pending staged payload.'')) (\<lambda>_.
     let key = staged_key (ma_run_control_ref access) handle_ref content_digest in
     and_then (ensure (\<not> hm_contains (rv_staged_payloads rv) key)
       (ResInvalid ''Staged resource payload is duplicated.'')) (\<lambda>_.
     and_then (owner_of L access) (\<lambda>owner.
     Inr (key, \<lparr>sp_owner = owner, sp_handle_ref = handle_ref, sp_content_digest = content_digest, sp_bytes = bytes\<rparr>)))))))))"

definition stage_write_payload ::
  "lib \<Rightarrow> EffectAuthorityStateV1 \<Rightarrow> ManagedResourceAccessV1 \<Rightarrow> ResourceHandleRefV1 \<Rightarrow> string \<Rightarrow> byte list
   \<Rightarrow> ManagedResourceResolverV1 \<Rightarrow> (resource_error + unit) \<times> ManagedResourceResolverV1" where
  "stage_write_payload L authority access handle_ref content_digest bytes rv =
     (case stage_checks L authority access handle_ref content_digest bytes rv of
        Inl e \<Rightarrow> (Inl e, rv)
      | Inr (key, payload) \<Rightarrow> (Inr (), rv\<lparr>rv_staged_payloads := hm_insert key payload (rv_staged_payloads rv)\<rparr>))"

definition take_read ::
  "EffectRequestIdV1 \<Rightarrow> ManagedResourceResolverV1 \<Rightarrow> HostResourceReadV1 option \<times> ManagedResourceResolverV1" where
  "take_read request_id rv = (hm_get (rv_reads rv) request_id, rv\<lparr>rv_reads := hm_remove request_id (rv_reads rv)\<rparr>)"

definition discard_staged_write_payload ::
  "lib \<Rightarrow> ManagedResourceAccessV1 \<Rightarrow> ResourceHandleRefV1 \<Rightarrow> string \<Rightarrow> ManagedResourceResolverV1
   \<Rightarrow> (resource_error + unit) \<times> ManagedResourceResolverV1" where
  "discard_staged_write_payload L access handle_ref content_digest rv =
     (let key = staged_key (ma_run_control_ref access) handle_ref content_digest in
      case hm_get (rv_staged_payloads rv) key of
        None \<Rightarrow> (Inr (), rv)
      | Some staged \<Rightarrow>
          if sp_handle_ref staged \<noteq> handle_ref
          then (Inl (ResInvalid ''Staged resource payload owner was substituted.''), rv)
          else case validate_owner L (sp_owner staged) access of
            Inl e \<Rightarrow> (Inl e, rv)
          | Inr _ \<Rightarrow> (Inr (), rv\<lparr>rv_staged_payloads := hm_remove key (rv_staged_payloads rv)\<rparr>))"

definition output_replace_precondition ::
  "lib \<Rightarrow> ManagedResourceAccessV1 \<Rightarrow> ResourceHandleRefV1 \<Rightarrow> string \<Rightarrow> ManagedResourceResolverV1
   \<Rightarrow> resource_error + EffectPreconditionV1" where
  "output_replace_precondition L access handle_ref selector rv =
     and_then (map_err ResFile (validate_managed_selector selector)) (\<lambda>_.
     and_then (ok_or (hm_get (rv_backings rv) handle_ref) (ResInvalid ''Output slot backing is unavailable.'')) (\<lambda>backing.
     and_then (validate_owner L (backing_owner backing) access) (\<lambda>_.
     case backing of
       BackOutputSlot _ _ files _ _ \<Rightarrow>
         and_then (ok_or (hm_get files selector) (ResInvalid ''Output slot replace target is unavailable.'')) (\<lambda>private.
         Inr (PreResourceGeneration handle_ref (pf_generation private) (si_digest (pf_identity private))))
     | _ \<Rightarrow> Inl (ResInvalid ''Replace preconditions require an OutputSlot.''))))"

section \<open>The backend\<close>

definition allowed_resource :: "ResourceHandleRefV1 \<Rightarrow> u64 \<Rightarrow> string \<Rightarrow> u64 \<Rightarrow> string \<Rightarrow> BackendEffectOutcomeV1" where
  "allowed_resource handle_ref generation content_digest bytes summary =
     \<lparr>bo_decision = Allowed, bo_actual_effect_summary = summary,
      bo_facts = FactResource handle_ref generation content_digest bytes\<rparr>"

definition unavailable :: "string \<Rightarrow> BackendEffectOutcomeV1" where
  "unavailable summary = \<lparr>bo_decision = Unavailable, bo_actual_effect_summary = summary, bo_facts = FactNone\<rparr>"

definition expected_generation ::
  "EffectRequestV1 \<Rightarrow> ResourceHandleRefV1 \<Rightarrow> resource_error + u64 \<times> string option" where
  "expected_generation request handle_ref =
     (case List.map_filter (\<lambda>condition. case condition of
          PreResourceGeneration observed generation digest \<Rightarrow>
            if observed = handle_ref then Some (generation, digest) else None
        | _ \<Rightarrow> None) (rq_preconditions request) of
        [] \<Rightarrow> Inr (0, None)
      | [(generation, digest)] \<Rightarrow> Inr (generation, Some digest)
      | _ \<Rightarrow> Inl (ResInvalid ''Managed resource generation precondition is ambiguous.''))"

definition read_private_file ::
  "lib \<Rightarrow> host_fs \<Rightarrow> path \<Rightarrow> private_files \<Rightarrow> string \<Rightarrow> EffectRequestV1 \<Rightarrow> resource_error + byte list \<times> u64 \<times> string" where
  "read_private_file L F root files selector request =
     and_then (ok_or (hm_get files selector) (ResInvalid ''Managed resource selector is unavailable.'')) (\<lambda>private.
     and_then (read_at L F (pf_path private) root (pf_identity private)
       (bg_read_bytes (rq_requested_budget_slice request))) (\<lambda>bytes.
     Inr (bytes, pf_generation private, si_digest (pf_identity private))))"

text \<open>The keys of a \<^verbatim>\<open>json!\<close> object come sorted.\<close>

definition manifest_json :: "(string \<times> SourceIdentity) list \<Rightarrow> bool \<Rightarrow> json" where
  "manifest_json entries truncated =
     JObj [(''entries'', JArr (map (\<lambda>(selector, identity). JObj [(''bytes'', ju64 (si_byte_count identity)),
         (''contentDigest'', JStr (si_digest identity)), (''selector'', JStr selector)]) entries)),
       (''representation'', JStr ''regular_file_set''), (''truncated'', JBool truncated)]"

fun first_fitting :: "lib \<Rightarrow> (string \<times> SourceIdentity) list \<Rightarrow> u64 \<Rightarrow> nat \<Rightarrow> resource_error + byte list" where
  "first_fitting L entries maximum_bytes included =
     (let bytes = json_vec L (manifest_json (take included entries) (included \<noteq> length entries)) in
      if (of_nat (length bytes) :: u64) \<le> maximum_bytes then Inr bytes
      else case included of 0 \<Rightarrow> Inl ResPanic | Suc n \<Rightarrow> first_fitting L entries maximum_bytes n)"

declare first_fitting.simps [simp del]

definition bounded_regular_file_set_manifest :: "lib \<Rightarrow> RegularFileSetIdentity \<Rightarrow> u64 \<Rightarrow> resource_error + byte list" where
  "bounded_regular_file_set_manifest L file_set maximum_bytes =
     and_then (ensure (\<not> (of_nat (length (json_vec L (manifest_json [] True))) :: u64) > maximum_bytes)
       (ResInvalid ''Managed resource read budget cannot encode a file-set manifest.'')) (\<lambda>_.
     first_fitting L (fi_files file_set) maximum_bytes (length (fi_files file_set)))"

text \<open>What a read of a managed revision yields, once its artifact is resolved.\<close>

definition read_revision ::
  "lib \<Rightarrow> host_fs \<Rightarrow> ResourceEffectV1 \<Rightarrow> EffectRequestV1 \<Rightarrow> u64 \<Rightarrow> ResolvedManagedArtifact
   \<Rightarrow> resource_error + byte list \<times> u64 \<times> string" where
  "read_revision L F effect request maximum_bytes artifact =
     (case ra_identity artifact of
        FileIdentity identity \<Rightarrow>
          and_then (ensure (re_relative_selector effect = ''.'')
            (ResInvalid ''Scalar ManagedRevisionHandle resolves only its exact revision root.'')) (\<lambda>_.
          and_then (read_at L F (ra_path artifact) (ra_scope_root artifact) identity maximum_bytes) (\<lambda>bytes.
          Inr (bytes, 1, si_digest identity)))
      | FileSetIdentity file_set \<Rightarrow>
          if re_relative_selector effect = ''.'' then
            and_then (ensure (re_verb effect = Inspect)
              (ResInvalid ''A regular-file-set root is inspectable but not readable as a file.'')) (\<lambda>_.
            and_then (bounded_regular_file_set_manifest L file_set
              (min maximum_bytes (bg_read_bytes (rq_requested_budget_slice request)))) (\<lambda>bytes.
            Inr (bytes, 1, fi_digest file_set)))
          else
            and_then (ok_or (map_of (fi_files file_set) (re_relative_selector effect))
              (ResInvalid ''Managed regular-file-set selector is unavailable.'')) (\<lambda>identity.
            and_then (read_at L F (ra_path artifact @ path_components (re_relative_selector effect)) (ra_path artifact)
              identity maximum_bytes) (\<lambda>bytes.
            Inr (bytes, 1, si_digest identity))))"

text \<open>The bytes, generation and digest a read yields, and the object service, which is asked for a managed revision and
  for a workspace.\<close>

definition read_backing ::
  "lib \<Rightarrow> host_fs \<Rightarrow> ResourceEffectV1 \<Rightarrow> EffectRequestV1 \<Rightarrow> int \<Rightarrow> HostResourceBackingV1 \<Rightarrow> ManagedObjectBindingService
   \<Rightarrow> (resource_error + byte list \<times> u64 \<times> string) \<times> ManagedObjectBindingService" where
  "read_backing L F effect request now backing objects =
     (case backing of
        BackManagedRevision _ acquisition maximum_bytes \<Rightarrow>
          (let (resolved, objects) = resolve L F acquisition now objects in
           (and_then (map_err ResFile resolved) (read_revision L F effect request maximum_bytes), objects))
      | BackWorkspace _ acquisition root files _ \<Rightarrow>
          (let (resolved, objects) = resolve L F acquisition now objects in
           (and_then (map_err ResFile resolved) (\<lambda>_.
              read_private_file L F root files (re_relative_selector effect) request), objects))
      | BackOutputSlot _ root files _ _ \<Rightarrow> (read_private_file L F root files (re_relative_selector effect) request, objects)
      | BackScratch _ root files _ \<Rightarrow> (read_private_file L F root files (re_relative_selector effect) request, objects)
      | BackExecutable _ _ _ _ \<Rightarrow>
          (Inl (ResInvalid ''Executable handles are usable only by a verified execution world.''), objects))"

definition apply_read ::
  "lib \<Rightarrow> host_fs \<Rightarrow> ResourceEffectV1 \<Rightarrow> EffectRequestV1 \<Rightarrow> int \<Rightarrow> HostResourceBackingV1
   \<Rightarrow> ManagedObjectBindingService \<times> ManagedResourceResolverV1
   \<Rightarrow> (resource_error + BackendEffectOutcomeV1) \<times> ManagedObjectBindingService \<times> ManagedResourceResolverV1" where
  "apply_read L F effect request now backing = (\<lambda>(objects, rv).
     let (result, objects) = read_backing L F effect request now backing objects in
     case result of
       Inl e \<Rightarrow> (Inl e, objects, rv)
     | Inr (bytes, generation, digest) \<Rightarrow>
         if of_nat (length bytes) > bg_read_bytes (rq_requested_budget_slice request)
         then (Inl (ResInvalid ''Managed resource read exceeded its reserved budget.''), objects, rv)
         else (Inr (allowed_resource (re_handle_ref effect) generation digest (of_nat (length bytes)) ''managed_resource_read''),
           objects, rv\<lparr>rv_reads := hm_insert (rq_request_id request)
             \<lparr>hr_request_id = rq_request_id request, hr_bytes = bytes, hr_generation = generation, hr_content_digest = digest\<rparr>
             (rv_reads rv)\<rparr>))"

text \<open>The checked sum of the sizes of all files but the one to be written.\<close>

fun checked_sum :: "u64 \<Rightarrow> u64 list \<Rightarrow> u64 option" where
  "checked_sum acc [] = Some acc"
| "checked_sum acc (x # xs) = (case checked_add acc x of None \<Rightarrow> None | Some acc \<Rightarrow> checked_sum acc xs)"

definition write_matches :: "ResourceVerbV1 \<Rightarrow> PrivateFileV1 option \<Rightarrow> u64 \<Rightarrow> string option \<Rightarrow> bool" where
  "write_matches verb existing generation digest = (case (verb, existing) of
     (Create, None) \<Rightarrow> generation = 0 \<and> digest = None
   | (Replace, Some private) \<Rightarrow> generation = pf_generation private \<and> digest = Some (si_digest (pf_identity private))
       \<and> \<not> pf_sealed private
   | _ \<Rightarrow> False)"

text \<open>The new file of a write to a backing.\<close>

definition write_backing ::
  "lib \<Rightarrow> disk \<Rightarrow> ResourceEffectV1 \<Rightarrow> EffectRequestV1 \<Rightarrow> byte list \<Rightarrow> HostResourceBackingV1 \<Rightarrow> resource_error + PrivateFileV1" where
  "write_backing L D effect request bytes backing =
     and_then (ensure (\<not> (case backing of BackOutputSlot _ _ _ _ root_sealed \<Rightarrow> root_sealed | _ \<Rightarrow> False))
       (ResInvalid ''A root-sealed OutputSlot cannot be mutated.'')) (\<lambda>_.
     and_then (case private_part backing of
         Some part \<Rightarrow> Inr part
       | None \<Rightarrow> (case backing of
           BackManagedRevision _ _ _ \<Rightarrow> Inl (ResInvalid ''Authoritative managed revisions cannot be mutated in place.'')
         | _ \<Rightarrow> Inl (ResInvalid ''Executable resources cannot be mutated by Worker authority.''))) (\<lambda>(root, files, quota_bytes).
     let existing = hm_get files (re_relative_selector effect) in
     and_then (expected_generation request (re_handle_ref effect)) (\<lambda>(generation, digest).
     and_then (ensure (write_matches (re_verb effect) existing generation digest)
       (ResInvalid ''Managed resource generation or write verb is stale.'')) (\<lambda>_.
     and_then (ok_or (checked_sum 0 (map (\<lambda>(_, private). si_byte_count (pf_identity private))
         (filter (\<lambda>(selector, _). selector \<noteq> re_relative_selector effect) files)))
       (ResInvalid ''Managed resource quota overflowed.'')) (\<lambda>current_bytes.
     and_then (ensure (\<not> (case checked_add current_bytes (of_nat (length bytes)) of None \<Rightarrow> True
         | Some used \<Rightarrow> used > quota_bytes)) (ResInvalid ''Managed resource private quota is exhausted.'')) (\<lambda>_.
     and_then (ok_or (checked_add generation 1) (ResInvalid ''Resource generation overflowed.'')) (\<lambda>generation.
     and_then (write_private_file L D root (re_relative_selector effect) (map_option pf_identity existing) bytes generation) (\<lambda>private.
     Inr (private\<lparr>pf_last_request_id := Some (rq_request_id request)\<rparr>)))))))))"

definition insert_file :: "string \<Rightarrow> PrivateFileV1 \<Rightarrow> HostResourceBackingV1 \<Rightarrow> HostResourceBackingV1" where
  "insert_file selector private backing = (case private_part backing of
     None \<Rightarrow> backing | Some (_, files, _) \<Rightarrow> with_files (hm_insert selector private files) backing)"

text \<open>A workspace asks the object service about its revision before it is written.\<close>

definition resolve_workspace ::
  "lib \<Rightarrow> host_fs \<Rightarrow> int \<Rightarrow> HostResourceBackingV1 \<Rightarrow> ManagedObjectBindingService
   \<Rightarrow> (resource_error + unit) \<times> ManagedObjectBindingService" where
  "resolve_workspace L F now backing objects = (case backing of
     BackWorkspace _ acquisition _ _ _ \<Rightarrow>
       (let (resolved, objects) = resolve L F acquisition now objects in (map_ok (\<lambda>_. ()) (map_err ResFile resolved), objects))
   | _ \<Rightarrow> (Inr (), objects))"

definition payload_mismatch :: "ResourceEffectV1 \<Rightarrow> EffectRequestV1 \<Rightarrow> string \<Rightarrow> StagedPayloadV1 \<Rightarrow> bool" where
  "payload_mismatch effect request content_digest payload \<longleftrightarrow>
     sp_handle_ref payload \<noteq> re_handle_ref effect \<or> sp_content_digest payload \<noteq> content_digest
     \<or> of_nat (length (sp_bytes payload)) > bg_write_bytes (rq_requested_budget_slice request)"

definition apply_write ::
  "lib \<Rightarrow> disk \<Rightarrow> ResourceEffectV1 \<Rightarrow> EffectRequestV1 \<Rightarrow> int \<Rightarrow> HostResourceBackingV1
   \<Rightarrow> ManagedObjectBindingService \<times> ManagedResourceResolverV1
   \<Rightarrow> (resource_error + BackendEffectOutcomeV1) \<times> ManagedObjectBindingService \<times> ManagedResourceResolverV1" where
  "apply_write L D effect request now backing = (\<lambda>(objects, rv).
     case re_value_digest effect of
       None \<Rightarrow> (Inl (ResInvalid ''Managed resource write requires exact staged content identity.''), objects, rv)
     | Some content_digest \<Rightarrow>
         (let key = staged_key (rq_run_control_ref request) (re_handle_ref effect) content_digest in
          case hm_get (rv_staged_payloads rv) key of
            None \<Rightarrow> (Inl (ResInvalid ''Exact staged resource payload is unavailable.''), objects, rv)
          | Some payload \<Rightarrow>
              let rv = rv\<lparr>rv_staged_payloads := hm_remove key (rv_staged_payloads rv)\<rparr> in
              (case and_then (validate_request_owner L (sp_owner payload) request) (\<lambda>_.
                  ensure (\<not> payload_mismatch effect request content_digest payload)
                    (ResInvalid ''Staged resource payload context or budget is mismatched.'')) of
                 Inl e \<Rightarrow> (Inl e, objects, rv)
               | Inr _ \<Rightarrow>
                   let (resolved, objects) = resolve_workspace L (dk_fs D) now backing objects in
                   (case and_then resolved (\<lambda>_. write_backing L D effect request (sp_bytes payload) backing) of
                      Inl e \<Rightarrow> (Inl e, objects, rv)
                    | Inr private \<Rightarrow>
                        (Inr (allowed_resource (re_handle_ref effect) (pf_generation private)
                            (si_digest (pf_identity private)) (si_byte_count (pf_identity private)) ''managed_resource_write''),
                         objects,
                         rv\<lparr>rv_backings := hm_insert (re_handle_ref effect)
                           (insert_file (re_relative_selector effect) private backing) (rv_backings rv)\<rparr>)))))"

definition apply_authorized ::
  "lib \<Rightarrow> disk \<Rightarrow> EffectRequestV1 \<Rightarrow> int \<Rightarrow> ManagedObjectBindingService \<times> ManagedResourceResolverV1
   \<Rightarrow> (resource_error + BackendEffectOutcomeV1) \<times> ManagedObjectBindingService \<times> ManagedResourceResolverV1" where
  "apply_authorized L D request now = (\<lambda>(objects, rv).
     case rq_effect request of
       EffResource effect \<Rightarrow>
         (case and_then (map_err ResFile (validate_managed_selector (re_relative_selector effect))) (\<lambda>_.
             and_then (ok_or (hm_get (rv_backings rv) (re_handle_ref effect))
               (ResInvalid ''Managed resource backing is unavailable.'')) (\<lambda>backing.
             and_then (ensure (re_handle_ref effect |\<notin>| rv_exclusive_world_leases rv)
               (ResInvalid ''Managed resource is exclusively leased to an execution world.'')) (\<lambda>_.
             and_then (validate_request_owner L (backing_owner backing) request) (\<lambda>_.
             Inr backing)))) of
            Inl e \<Rightarrow> (Inl e, objects, rv)
          | Inr backing \<Rightarrow>
              if re_verb effect \<in> {Inspect, Read} then apply_read L (dk_fs D) effect request now backing (objects, rv)
              else if re_verb effect \<in> {Create, Replace} then apply_write L D effect request now backing (objects, rv)
              else (Inr (unavailable ''managed_resource_operation_unavailable''), objects, rv))
     | _ \<Rightarrow> (Inr (unavailable ''managed_resource_backend_has_no_process_or_network''), objects, rv))"

definition HostManagedResourceBackendV1_apply ::
  "lib \<Rightarrow> disk \<Rightarrow> int \<Rightarrow> (ManagedObjectBindingService \<times> ManagedResourceResolverV1) HostEffectBackendV1" where
  "HostManagedResourceBackendV1_apply L D now request b =
     (case apply_authorized L D request now b of (result, b') \<Rightarrow>
       (Completed (case result of
           Inr outcome \<Rightarrow> outcome
         | Inl _ \<Rightarrow> \<lparr>bo_decision = Denied, bo_actual_effect_summary = ''managed_resource_resolution_denied'', bo_facts = FactNone\<rparr>), b'))"

end
