(* ===== verification/Managed_Outputs.thy ===== *)
theory Managed_Outputs
  imports Managed_Resources
begin

text \<open>
  The rest of \<^verbatim>\<open>src-tauri/src/managed_resources.rs\<close>: sealing an output slot, registering a sealed output as the next
  revision, the copy of an input into a scratch resource, the leases of execution worlds, and purging.
\<close>

section \<open>Sealing\<close>

definition file_facts_match :: "EffectFactsV1 \<Rightarrow> u64 \<Rightarrow> SourceIdentity \<Rightarrow> bool" where
  "file_facts_match facts generation identity = (case facts of
     FactResource _ observed digest bytes \<Rightarrow>
       observed = generation \<and> digest = si_digest identity \<and> bytes = si_byte_count identity
   | _ \<Rightarrow> False)"

definition terminal_evidence ::
  "lib \<Rightarrow> EffectAuthorityStateV1 \<Rightarrow> ManagedResourceAccessV1 \<Rightarrow> ResourceHandleRefV1 \<Rightarrow> EffectEvidenceV1 \<Rightarrow> resource_error + unit" where
  "terminal_evidence L authority access handle_ref evidence =
     and_then (access_context_ref L access) (\<lambda>context_ref.
     map_err ResAuthority (validate_terminal_resource_evidence L evidence handle_ref (ma_envelope_ref access)
       (ma_run_control_ref access) context_ref authority))"

text \<open>One entry of a root seal: the identifier of the evidence that accounts for it.\<close>

definition seal_entry ::
  "lib \<Rightarrow> EffectAuthorityStateV1 \<Rightarrow> ManagedResourceAccessV1 \<Rightarrow> ResourceHandleRefV1 \<Rightarrow> EffectEvidenceV1 list \<Rightarrow> private_files
   \<Rightarrow> string \<times> SourceIdentity \<Rightarrow> resource_error + string" where
  "seal_entry L authority access handle_ref evidence files = (\<lambda>(selector, identity).
     and_then (ok_or (hm_get files selector) (ResInvalid ''Output slot root contains an untracked file.'')) (\<lambda>private.
     and_then (ok_or (find (\<lambda>candidate. pf_last_request_id private = Some (ee_request_id candidate)) evidence)
       (ResInvalid ''Output slot root lacks terminal evidence for a file.'')) (\<lambda>matching.
     and_then (terminal_evidence L authority access handle_ref matching) (\<lambda>_.
     and_then (ensure (\<not> (pf_sealed private \<or> pf_identity private \<noteq> identity
         \<or> \<not> file_facts_match (ee_facts matching) (pf_generation private) identity))
       (ResInvalid ''Output slot root generation or evidence is stale or mismatched.'')) (\<lambda>_.
     Inr (ee_evidence_id matching))))))"

fun try_map :: "('a \<Rightarrow> 'e + 'b) \<Rightarrow> 'a list \<Rightarrow> 'e + 'b list" where
  "try_map f [] = Inr []"
| "try_map f (x # xs) = and_then (f x) (\<lambda>y. and_then (try_map f xs) (\<lambda>ys. Inr (y # ys)))"

fun join_comma :: "string list \<Rightarrow> string" where
  "join_comma [] = []"
| "join_comma [p] = p"
| "join_comma (p # q # ps) = p @ '','' @ join_comma (q # ps)"

text \<open>\<^verbatim>\<open>files.values().map(|file| file.identity.byte_count).sum()\<close>, which wraps.\<close>

definition tracked_bytes :: "private_files \<Rightarrow> u64" where
  "tracked_bytes files = sum_list (map (\<lambda>private. si_byte_count (pf_identity private)) (hm_values files))"

definition observed_bytes :: "(string \<times> SourceIdentity) list \<Rightarrow> u64 list" where
  "observed_bytes observed = map (\<lambda>(_, identity). si_byte_count identity) observed"

definition seal_root ::
  "lib \<Rightarrow> host_fs \<Rightarrow> EffectAuthorityStateV1 \<Rightarrow> ManagedResourceAccessV1 \<Rightarrow> ResourceHandleRefV1 \<Rightarrow> EffectEvidenceV1 list
   \<Rightarrow> path \<Rightarrow> private_files \<Rightarrow> bool \<Rightarrow> resource_error + SealedOutputEvidenceV1" where
  "seal_root L F authority access handle_ref evidence root files root_sealed =
     and_then (ensure (\<not> root_sealed) (ResInvalid ''Output slot root is already sealed.'')) (\<lambda>_.
     and_then (scan_regular_tree L F root (tracked_bytes files)) (\<lambda>observed.
     and_then (ensure (\<not> (observed = [] \<or> length observed \<noteq> length files))
       (ResInvalid ''Output slot root is empty, changed, or contains an untracked file.'')) (\<lambda>_.
     and_then (try_map (seal_entry L authority access handle_ref evidence files) observed) (\<lambda>evidence_ids.
     and_then (map_err ResFile (regular_file_set_digest L observed)) (\<lambda>digest.
     and_then (ok_or (checked_sum 0 (observed_bytes observed)) (ResInvalid ''Output slot root quota overflowed.'')) (\<lambda>bytes.
     and_then (access_context_ref L access) (\<lambda>context_ref.
     Inr \<lparr>so_contract_version = RESOURCE_RESOLUTION_VERSION,
       so_seal_ref = resource_domain_hash L ''pastey-output-slot-regular-file-set-seal-v1''
         (JArr [JStr handle_ref, jlist JStr evidence_ids, JStr digest, ju64 bytes, JInt (int (length observed))]),
       so_evidence_id = join_comma evidence_ids, so_envelope_ref = ma_envelope_ref access,
       so_run_control_ref = ma_run_control_ref access, so_context_ref = context_ref, so_handle_ref = handle_ref,
       so_relative_selector = ''.'', so_generation = 0, so_content_digest = digest, so_bytes = bytes,
       so_representation = RegularFileSet, so_entry_count = of_nat (length observed)\<rparr>)))))))"

definition seal_file ::
  "lib \<Rightarrow> host_fs \<Rightarrow> EffectAuthorityStateV1 \<Rightarrow> ManagedResourceAccessV1 \<Rightarrow> ResourceHandleRefV1 \<Rightarrow> EffectEvidenceV1 list
   \<Rightarrow> path \<Rightarrow> private_files \<Rightarrow> string \<Rightarrow> resource_error + SealedOutputEvidenceV1" where
  "seal_file L F authority access handle_ref evidence root files selector =
     and_then (ok_or (find (\<lambda>candidate. Option.bind (hm_get files selector) pf_last_request_id = Some (ee_request_id candidate)) evidence)
       (ResInvalid ''Output slot generation lacks terminal evidence.'')) (\<lambda>matching.
     and_then (terminal_evidence L authority access handle_ref matching) (\<lambda>_.
     and_then (ok_or (hm_get files selector) (ResInvalid ''Output slot generation is unavailable.'')) (\<lambda>private.
     and_then (capture_at L F (pf_path private) root (si_byte_count (pf_identity private))) (\<lambda>observed.
     and_then (ensure (\<not> (pf_sealed private \<or> pf_last_request_id private \<noteq> Some (ee_request_id matching)
         \<or> observed \<noteq> pf_identity private \<or> \<not> file_facts_match (ee_facts matching) (pf_generation private) observed))
       (ResInvalid ''Output slot generation or evidence is stale or mismatched.'')) (\<lambda>_.
     and_then (access_context_ref L access) (\<lambda>context_ref.
     Inr \<lparr>so_contract_version = RESOURCE_RESOLUTION_VERSION,
       so_seal_ref = resource_domain_hash L ''pastey-output-slot-seal-v1''
         (JArr [JStr (ee_evidence_id matching), JStr handle_ref, JStr selector, ju64 (pf_generation private),
           JStr (si_digest observed), ju64 (si_byte_count observed)]),
       so_evidence_id = ee_evidence_id matching, so_envelope_ref = ma_envelope_ref access,
       so_run_control_ref = ma_run_control_ref access, so_context_ref = context_ref, so_handle_ref = handle_ref,
       so_relative_selector = selector, so_generation = pf_generation private, so_content_digest = si_digest observed,
       so_bytes = si_byte_count observed, so_representation = RegularFile, so_entry_count = 1\<rparr>))))))"

definition sealed_file :: "PrivateFileV1 \<Rightarrow> PrivateFileV1" where
  "sealed_file private = private\<lparr>pf_sealed := True\<rparr>"

definition seal_output_slot ::
  "lib \<Rightarrow> host_fs \<Rightarrow> EffectAuthorityStateV1 \<Rightarrow> ManagedResourceAccessV1 \<Rightarrow> ResourceHandleRefV1 \<Rightarrow> string \<Rightarrow> EffectEvidenceV1 list
   \<Rightarrow> ManagedResourceResolverV1 \<Rightarrow> (resource_error + SealedOutputEvidenceV1) \<times> ManagedResourceResolverV1" where
  "seal_output_slot L F authority access handle_ref relative_selector evidence rv =
     (case and_then (validate_attachment L authority access handle_ref OutputSlot) (\<lambda>_.
         and_then (map_err ResFile (validate_managed_selector relative_selector)) (\<lambda>_.
         and_then (ok_or (hm_get (rv_backings rv) handle_ref) (ResInvalid ''Output slot backing is unavailable.'')) (\<lambda>backing.
         and_then (validate_owner L (backing_owner backing) access) (\<lambda>_.
         case backing of
           BackOutputSlot owner root files quota_bytes root_sealed \<Rightarrow>
             if relative_selector = ''.'' then
               and_then (seal_root L F authority access handle_ref evidence root files root_sealed) (\<lambda>seal.
               Inr (seal, BackOutputSlot owner root (hm_map_values sealed_file files) quota_bytes True))
             else
               and_then (seal_file L F authority access handle_ref evidence root files relative_selector) (\<lambda>seal.
               Inr (seal, BackOutputSlot owner root (hm_modify relative_selector sealed_file files) quota_bytes root_sealed))
         | _ \<Rightarrow> Inl (ResInvalid ''Only OutputSlot resources may be sealed.''))))) of
        Inl e \<Rightarrow> (Inl e, rv)
      | Inr (seal, backing) \<Rightarrow> (Inr seal, rv\<lparr>rv_backings := hm_insert handle_ref backing (rv_backings rv)\<rparr>))"

section \<open>Registration\<close>

definition sealed_acquisition :: "ManagedResourceAccessV1 \<Rightarrow> SealedOutputEvidenceV1 \<Rightarrow> path \<Rightarrow> path \<Rightarrow> string \<Rightarrow> string \<Rightarrow> int \<Rightarrow> HostArtifactAcquisition" where
  "sealed_acquisition access seal p scope_root display_name media_type expires_at =
     \<lparr>ha_kind = GeneratedArtifact, ha_source_ref = so_seal_ref seal, ha_bridge_id = Some (ctx_bridge_id (ma_context access)),
      ha_path = p, ha_scope_root = scope_root, ha_display_name = display_name, ha_media_type = media_type,
      ha_expires_at = expires_at, ha_app_owned_temporary = True\<rparr>"

text \<open>The checks of \<^verbatim>\<open>register_sealed_transform_output\<close>: the path to register and the backing once it is registered.\<close>

definition registered_file :: "PrivateFileV1 \<Rightarrow> PrivateFileV1" where
  "registered_file private = private\<lparr>pf_lineage_registered := True\<rparr>"

definition check_sealed_set ::
  "lib \<Rightarrow> host_fs \<Rightarrow> SealedOutputEvidenceV1 \<Rightarrow> path \<Rightarrow> private_files \<Rightarrow> resource_error + unit" where
  "check_sealed_set L F seal root files =
     and_then (ensure (so_relative_selector seal = ''.'')
       (ResInvalid ''Regular-file-set seal must name the OutputSlot root.'')) (\<lambda>_.
     and_then (scan_regular_tree L F root (tracked_bytes files)) (\<lambda>observed.
     and_then (map_err ResFile (regular_file_set_digest L observed)) (\<lambda>digest.
     ensure (\<not> (of_nat (length observed) \<noteq> so_entry_count seal \<or> digest \<noteq> so_content_digest seal
         \<or> sum_list (observed_bytes observed) \<noteq> so_bytes seal \<or> length observed \<noteq> length files
         \<or> list_ex (\<lambda>private. \<not> pf_sealed private \<or> pf_lineage_registered private) (hm_values files)))
       (ResInvalid ''Sealed regular-file-set identity is stale, reused, or mismatched.''))))"

definition check_sealed_file ::
  "lib \<Rightarrow> host_fs \<Rightarrow> SealedOutputEvidenceV1 \<Rightarrow> path \<Rightarrow> private_files \<Rightarrow> resource_error + path" where
  "check_sealed_file L F seal root files =
     and_then (ok_or (hm_get files (so_relative_selector seal)) (ResInvalid ''Sealed output generation is unavailable.'')) (\<lambda>private.
     and_then (capture_at L F (pf_path private) root (si_byte_count (pf_identity private))) (\<lambda>observed.
     and_then (ensure (\<not> (\<not> pf_sealed private \<or> pf_lineage_registered private \<or> observed \<noteq> pf_identity private
         \<or> si_digest observed \<noteq> so_content_digest seal \<or> si_byte_count observed \<noteq> so_bytes seal
         \<or> pf_generation private \<noteq> so_generation seal))
       (ResInvalid ''Sealed output identity is stale, reused, or mismatched.'')) (\<lambda>_.
     Inr (pf_path private))))"

definition sealed_output ::
  "lib \<Rightarrow> host_fs \<Rightarrow> ManagedResourceAccessV1 \<Rightarrow> SealedOutputEvidenceV1 \<Rightarrow> ManagedResourceResolverV1
   \<Rightarrow> resource_error + path \<times> path \<times> HostResourceBackingV1" where
  "sealed_output L F access seal rv =
     and_then (ensure (\<not> (so_envelope_ref seal \<noteq> ma_envelope_ref access \<or> so_run_control_ref seal \<noteq> ma_run_control_ref access))
       (ResInvalid ''Sealed output context was substituted.'')) (\<lambda>_.
     and_then (access_context_ref L access) (\<lambda>context_ref.
     and_then (ensure (so_context_ref seal = context_ref) (ResInvalid ''Sealed output context was substituted.'')) (\<lambda>_.
     and_then (ok_or (hm_get (rv_backings rv) (so_handle_ref seal)) (ResInvalid ''Sealed output backing is unavailable.'')) (\<lambda>backing.
     and_then (validate_owner L (backing_owner backing) access) (\<lambda>_.
     case backing of
       BackOutputSlot owner root files quota_bytes root_sealed \<Rightarrow>
         if so_representation seal = RegularFileSet then
           and_then (check_sealed_set L F seal root files) (\<lambda>_.
           Inr (root, root, BackOutputSlot owner root (hm_map_values registered_file files) quota_bytes root_sealed))
         else
           and_then (check_sealed_file L F seal root files) (\<lambda>p.
           Inr (p, root, BackOutputSlot owner root (hm_modify (so_relative_selector seal) registered_file files) quota_bytes root_sealed))
     | _ \<Rightarrow> Inl (ResInvalid ''Transform lineage requires an OutputSlot.''))))))"

definition register_sealed_transform_output ::
  "lib \<Rightarrow> host_fs \<Rightarrow> string \<Rightarrow> ManagedResourceAccessV1 \<Rightarrow> SealedOutputEvidenceV1 \<Rightarrow> string \<Rightarrow> u64 \<Rightarrow> string \<Rightarrow> string \<Rightarrow> int
   \<Rightarrow> ManagedObjectBindingService \<Rightarrow> ManagedResourceResolverV1
   \<Rightarrow> (resource_error + ManagedObjectAcquisition) \<times> ManagedObjectBindingService \<times> ManagedResourceResolverV1" where
  "register_sealed_transform_output L F uuid access seal logical_object_id output_revision display_name media_type expires_at objects rv =
     (case sealed_output L F access seal rv of
        Inl e \<Rightarrow> (Inl e, objects, rv)
      | Inr (p, root, backing) \<Rightarrow>
          (case register_core_transform_revision L F uuid
              (sealed_acquisition access seal p root display_name media_type expires_at) logical_object_id output_revision
              (so_content_digest seal) (ch_now (ma_current access)) objects of
             (Inl e, objects) \<Rightarrow> (Inl (ResFile e), objects, rv)
           | (Inr acquisition, objects) \<Rightarrow>
               (Inr acquisition, objects, rv\<lparr>rv_backings := hm_insert (so_handle_ref seal) backing (rv_backings rv)\<rparr>)))"

section \<open>Purging\<close>

definition purge_handles :: "(ResourceHandleRefV1 \<Rightarrow> bool) \<Rightarrow> ManagedResourceResolverV1 \<Rightarrow> ManagedResourceResolverV1" where
  "purge_handles purged rv =
     rv\<lparr>rv_backings := hm_retain (\<lambda>handle _. \<not> purged handle) (rv_backings rv),
        rv_staged_payloads := hm_retain (\<lambda>_ payload. \<not> purged (sp_handle_ref payload)) (rv_staged_payloads rv),
        rv_world_leases := ffilter (\<lambda>handle. \<not> purged handle) (rv_world_leases rv),
        rv_exclusive_world_leases := ffilter (\<lambda>handle. \<not> purged handle) (rv_exclusive_world_leases rv)\<rparr>"

definition owned_handles :: "(ExactOwnerV1 \<Rightarrow> bool) \<Rightarrow> ManagedResourceResolverV1 \<Rightarrow> ResourceHandleRefV1 list" where
  "owned_handles owned rv = map fst (filter (\<lambda>(_, backing). owned (backing_owner backing)) (rv_backings rv))"

definition purge_owned :: "(ExactOwnerV1 \<Rightarrow> bool) \<Rightarrow> ManagedResourceResolverV1 \<Rightarrow> nat \<times> ManagedResourceResolverV1" where
  "purge_owned owned rv = (length (owned_handles owned rv), purge_handles (\<lambda>h. h \<in> set (owned_handles owned rv)) rv)"

definition resolver_purge_bridge :: "string \<Rightarrow> ManagedResourceResolverV1 \<Rightarrow> nat \<times> ManagedResourceResolverV1" where
  "resolver_purge_bridge bridge_id = purge_owned (\<lambda>owner. ow_bridge_id owner = bridge_id)"

definition resolver_purge_run :: "ManagedRunRefV1 \<Rightarrow> ManagedResourceResolverV1 \<Rightarrow> nat \<times> ManagedResourceResolverV1" where
  "resolver_purge_run run_ref = purge_owned (\<lambda>owner. ow_run_control_ref owner = run_ref)"

definition resolver_purge_all :: "ManagedResourceResolverV1 \<Rightarrow> nat \<times> ManagedResourceResolverV1" where
  "resolver_purge_all rv = (length (rv_backings rv),
     rv\<lparr>rv_backings := [], rv_staged_payloads := [], rv_reads := [], rv_world_leases := {||}, rv_exclusive_world_leases := {||}\<rparr>)"

end
