(* ===== verification/Managed_Leases.thy ===== *)
theory Managed_Leases
  imports Managed_Outputs
begin

text \<open>
  Copies of resources, the last part of \<^verbatim>\<open>src-tauri/src/managed_resources.rs\<close>: the copy of the input revision into a scratch
  resource, the leases of an execution world on the resources it mounts, and what the world changed, taken back when
  it is released.

  A call that writes several files takes the answer of the disk per file, \<open>Ds\<close> by selector; \<open>F\<close> is what lies on disk
  before the writes, \<open>F'\<close> after them.
\<close>

section \<open>Scratch\<close>

record ManagedScratchLeaseV1 =
  sl_handle_ref :: ResourceHandleRefV1
  sl_root :: path
  sl_input_identity_ref :: string

definition capture_file_set :: "lib \<Rightarrow> host_fs \<Rightarrow> path \<Rightarrow> u64 \<Rightarrow> resource_error + RegularFileSetIdentity" where
  "capture_file_set L F root maximum_bytes = map_err ResFile
     (and_then (ok_or (hf_node F root) IoError) (\<lambda>node. capture_regular_file_set_identity L root node maximum_bytes))"

definition copy_private_tree ::
  "lib \<Rightarrow> host_fs \<Rightarrow> (string \<Rightarrow> disk) \<Rightarrow> path \<Rightarrow> path \<Rightarrow> u64 \<Rightarrow> resource_error + unit" where
  "copy_private_tree L F Ds source destination quota_bytes =
     and_then (scan_regular_tree L F source quota_bytes) (\<lambda>observed.
     try_all (\<lambda>(selector, identity).
       and_then (read_at L F (source @ path_components selector) source identity quota_bytes) (\<lambda>bytes.
       and_then (write_private_file L (Ds selector) destination selector None bytes 1) (\<lambda>_. Inr ()))) observed)"

text \<open>The files of the scratch once the input is copied. In the source the \<^verbatim>\<open>?\<close> operators stand outside any closure, so
  an error leaves the function before the code that would clear the files and the directory again.\<close>

definition cloned_files ::
  "lib \<Rightarrow> host_fs \<Rightarrow> (string \<Rightarrow> disk) \<Rightarrow> host_fs \<Rightarrow> ResolvedManagedArtifact \<Rightarrow> path \<Rightarrow> u64 \<Rightarrow> u64 \<Rightarrow> private_files
   \<Rightarrow> resource_error + private_files" where
  "cloned_files L F Ds F' artifact root quota_bytes maximum_bytes files =
     (case ra_identity artifact of
        FileIdentity identity \<Rightarrow>
          and_then (read_at L F (ra_path artifact) (ra_scope_root artifact) identity (min quota_bytes maximum_bytes)) (\<lambda>bytes.
          and_then (write_private_file L (Ds ''input'') root ''input'' None bytes 1) (\<lambda>private.
          Inr (hm_insert ''input'' private files)))
      | FileSetIdentity expected \<Rightarrow>
          and_then (capture_file_set L F (ra_path artifact) (min quota_bytes maximum_bytes)) (\<lambda>observed.
          and_then (ensure (observed = expected) (ResInvalid ''Codex scratch input tree changed before cloning.'')) (\<lambda>_.
          and_then (copy_private_tree L F Ds (ra_path artifact) root (min quota_bytes maximum_bytes)) (\<lambda>_.
          and_then (capture_file_set L F' root quota_bytes) (\<lambda>copied.
          and_then (ensure (\<not> (fi_digest copied \<noteq> fi_digest expected \<or> fi_byte_count copied \<noteq> fi_byte_count expected
              \<or> length (fi_files copied) \<noteq> length (fi_files expected)))
            (ResInvalid ''Codex scratch clone does not match the exact logical input tree.'')) (\<lambda>_.
          Inr (foldl (\<lambda>m (selector, identity). hm_insert selector
            \<lparr>pf_path = root @ path_components selector, pf_identity = identity, pf_generation = 1, pf_sealed = False,
             pf_lineage_registered = False, pf_last_request_id = None\<rparr> m) files (fi_files copied))))))))"

definition scratch_input ::
  "lib \<Rightarrow> EffectAuthorityStateV1 \<Rightarrow> ManagedResourceAccessV1 \<Rightarrow> ResourceHandleRefV1 \<Rightarrow> ResourceHandleRefV1 \<Rightarrow> ManagedResourceResolverV1
   \<Rightarrow> resource_error + ResourceGrantV1 \<times> ResourceGrantV1 \<times> ManagedObjectAcquisition \<times> u64" where
  "scratch_input L authority access input_handle scratch_handle rv =
     and_then (validate_attachment L authority access input_handle ManagedRevision) (\<lambda>input_grant.
     and_then (validate_attachment L authority access scratch_handle Scratch) (\<lambda>scratch_grant.
     case hm_get (rv_backings rv) input_handle of
       Some (BackManagedRevision owner acquisition maximum_bytes) \<Rightarrow>
         and_then (validate_owner L owner access) (\<lambda>_. Inr (input_grant, scratch_grant, acquisition, maximum_bytes))
     | _ \<Rightarrow> Inl (ResInvalid ''Codex scratch input backing is unavailable.'')))"

definition scratch_backing ::
  "lib \<Rightarrow> host_fs \<Rightarrow> ManagedResourceAccessV1 \<Rightarrow> ResourceGrantV1 \<Rightarrow> ResourceHandleRefV1 \<Rightarrow> ManagedResourceResolverV1
   \<Rightarrow> resource_error + ExactOwnerV1 \<times> path \<times> private_files \<times> u64" where
  "scratch_backing L F access scratch_grant scratch_handle rv =
     (case hm_get (rv_backings rv) scratch_handle of
        Some (BackScratch owner root files quota_bytes) \<Rightarrow>
          and_then (validate_owner L owner access) (\<lambda>_.
          and_then (ensure (\<not> (bg_write_bytes (rg_budgets scratch_grant) < quota_bytes \<or> files \<noteq> []))
            (ResInvalid ''Codex scratch is not an empty exact attempt-private resource.'')) (\<lambda>_.
          and_then (scan_regular_tree L F root quota_bytes) (\<lambda>observed_before.
          and_then (ensure (observed_before = [])
            (ResInvalid ''Codex scratch root was populated before input cloning.'')) (\<lambda>_.
          Inr (owner, root, files, quota_bytes)))))
      | _ \<Rightarrow> Inl (ResInvalid ''Codex scratch backing is unavailable.''))"

definition clone_exact_input_to_scratch ::
  "lib \<Rightarrow> host_fs \<Rightarrow> (string \<Rightarrow> disk) \<Rightarrow> host_fs \<Rightarrow> EffectAuthorityStateV1 \<Rightarrow> ManagedResourceAccessV1 \<Rightarrow> ResourceHandleRefV1
   \<Rightarrow> ResourceHandleRefV1 \<Rightarrow> ManagedObjectBindingService \<Rightarrow> ManagedResourceResolverV1
   \<Rightarrow> (resource_error + ManagedScratchLeaseV1) \<times> ManagedObjectBindingService \<times> ManagedResourceResolverV1" where
  "clone_exact_input_to_scratch L F Ds F' authority access input_handle scratch_handle objects rv =
     (case scratch_input L authority access input_handle scratch_handle rv of
        Inl e \<Rightarrow> (Inl e, objects, rv)
      | Inr (input_grant, scratch_grant, acquisition, maximum_bytes) \<Rightarrow>
          (case resolve L F acquisition (ch_now (ma_current access)) objects of (resolved, objects) \<Rightarrow>
            (case and_then (map_err ResFile resolved) (\<lambda>artifact.
                and_then (ensure (rg_safe_identity_ref input_grant = managed_revision_identity_ref L acquisition artifact)
                  (ResInvalid ''Codex scratch input identity changed before cloning.'')) (\<lambda>_.
                and_then (scratch_backing L F access scratch_grant scratch_handle rv) (\<lambda>(owner, root, files, quota_bytes).
                and_then (cloned_files L F Ds F' artifact root quota_bytes maximum_bytes files) (\<lambda>files.
                Inr (root, BackScratch owner root files quota_bytes))))) of
               Inl e \<Rightarrow> (Inl e, objects, rv)
             | Inr (root, backing) \<Rightarrow>
                 (Inr \<lparr>sl_handle_ref = scratch_handle, sl_root = root, sl_input_identity_ref = rg_safe_identity_ref input_grant\<rparr>,
                  objects, rv\<lparr>rv_backings := hm_insert scratch_handle backing (rv_backings rv)\<rparr>))))"

definition scan_specialist_scratch ::
  "lib \<Rightarrow> host_fs \<Rightarrow> EffectAuthorityStateV1 \<Rightarrow> ManagedResourceAccessV1 \<Rightarrow> ManagedScratchLeaseV1 \<Rightarrow> ManagedResourceResolverV1
   \<Rightarrow> resource_error + RegularFileSetIdentity" where
  "scan_specialist_scratch L F authority access lease rv =
     and_then (validate_attachment L authority access (sl_handle_ref lease) Scratch) (\<lambda>grant.
     case hm_get (rv_backings rv) (sl_handle_ref lease) of
       Some (BackScratch owner root _ quota_bytes) \<Rightarrow>
         and_then (validate_owner L owner access) (\<lambda>_.
         and_then (ensure (\<not> (root \<noteq> sl_root lease \<or> sl_input_identity_ref lease = [] \<or> quota_bytes > bg_write_bytes (rg_budgets grant)))
           (ResInvalid ''Codex scratch lease was substituted.'')) (\<lambda>_.
         and_then (capture_file_set L F root quota_bytes) (\<lambda>identity.
         and_then (ensure (\<not> length (fi_files identity) > 64)
           (ResInvalid ''Codex scratch output exceeds the 64-file B0 limit.'')) (\<lambda>_.
         Inr identity))))
     | _ \<Rightarrow> Inl (ResInvalid ''Codex scratch lease is unavailable.''))"

section \<open>Leases of execution worlds\<close>

record ExecutionWorldMountV1 =
  mt_handle_ref :: ResourceHandleRefV1
  mt_kind :: ResourceKindV1
  mt_source_path :: path
  mt_mount_name :: string
  mt_writable :: bool
  mt_quota_bytes :: u64
  mt_allowed_verbs :: "ResourceVerbV1 fset"
  mt_private_overlay :: bool
  mt_initial_bytes :: u64

text \<open>The disk during a lease: the overlay made for a handle, the copies into it, and what lies there afterwards.\<close>

record lease_disk =
  ld_fs :: host_fs
  ld_overlay :: "ResourceHandleRefV1 \<Rightarrow> file_error + path"
  ld_copy :: "ResourceHandleRefV1 \<Rightarrow> string \<Rightarrow> disk"
  ld_after :: host_fs

definition validate_private_tree :: "lib \<Rightarrow> host_fs \<Rightarrow> path \<Rightarrow> private_files \<Rightarrow> u64 \<Rightarrow> resource_error + unit" where
  "validate_private_tree L F root files quota_bytes =
     and_then (scan_regular_tree L F root quota_bytes) (\<lambda>observed.
     ensure (\<not> (length observed \<noteq> length files
         \<or> list_ex (\<lambda>(selector, private). map_of observed selector \<noteq> Some (pf_identity private)
             \<or> pf_path private \<noteq> root @ path_components selector) files))
       (ResInvalid ''Private managed resource identity is stale, changed, or aliased.''))"

text \<open>A revision is still the one bound, with the message of the caller for a tree that changed.\<close>

definition revision_unchanged ::
  "lib \<Rightarrow> host_fs \<Rightarrow> string \<Rightarrow> u64 \<Rightarrow> ResolvedManagedArtifact \<Rightarrow> resource_error + unit" where
  "revision_unchanged L F message maximum_bytes artifact =
     (case ra_identity artifact of
        FileIdentity identity \<Rightarrow>
          and_then (read_at L F (ra_path artifact) (ra_scope_root artifact) identity maximum_bytes) (\<lambda>_. Inr ())
      | FileSetIdentity identity \<Rightarrow>
          and_then (capture_file_set L F (ra_path artifact) maximum_bytes) (\<lambda>observed.
          ensure (observed = identity) (ResInvalid message)))"

text \<open>What a mount shows, and its quota, with the object service asked about revisions.\<close>

definition mount_source ::
  "lib \<Rightarrow> host_fs \<Rightarrow> int \<Rightarrow> HostResourceBackingV1 \<Rightarrow> ManagedObjectBindingService
   \<Rightarrow> (resource_error + path \<times> u64) \<times> ManagedObjectBindingService" where
  "mount_source L F now backing objects =
     (case backing of
        BackManagedRevision _ acquisition maximum_bytes \<Rightarrow>
          (case resolve L F acquisition now objects of (resolved, objects) \<Rightarrow>
            (and_then (map_err ResFile resolved) (\<lambda>artifact.
             and_then (revision_unchanged L F ''Managed regular-file-set changed before execution world lease.'' maximum_bytes artifact) (\<lambda>_.
             Inr (ra_path artifact, maximum_bytes))), objects))
      | BackWorkspace _ acquisition root files quota_bytes \<Rightarrow>
          (case resolve L F acquisition now objects of (resolved, objects) \<Rightarrow>
            (and_then (map_err ResFile resolved) (\<lambda>_.
             and_then (validate_private_tree L F root files quota_bytes) (\<lambda>_. Inr (root, quota_bytes))), objects))
      | BackOutputSlot _ root files quota_bytes _ \<Rightarrow>
          (and_then (validate_private_tree L F root files quota_bytes) (\<lambda>_. Inr (root, quota_bytes)), objects)
      | BackScratch _ root files quota_bytes \<Rightarrow>
          (and_then (validate_private_tree L F root files quota_bytes) (\<lambda>_. Inr (root, quota_bytes)), objects)
      | BackExecutable _ p scope_root identity \<Rightarrow>
          (and_then (read_at L F p scope_root identity (- 1)) (\<lambda>_. Inr (p, si_byte_count identity)), objects))"

definition mount_writable :: "ResourceGrantV1 \<Rightarrow> bool" where
  "mount_writable grant \<longleftrightarrow> rg_kind grant \<notin> {ManagedRevision, Executable}
     \<and> (Create |\<in>| rg_allowed_verbs grant \<or> Replace |\<in>| rg_allowed_verbs grant \<or> Delete |\<in>| rg_allowed_verbs grant
        \<or> SetMetadata |\<in>| rg_allowed_verbs grant)"

definition make_mount ::
  "lib \<Rightarrow> lease_disk \<Rightarrow> ResourceGrantV1 \<Rightarrow> path \<times> u64 \<Rightarrow> resource_error + ExecutionWorldMountV1" where
  "make_mount L D grant = (\<lambda>(source_path, quota_bytes). let handle = rg_handle_ref grant; writable = mount_writable grant in
     and_then (if writable then
         and_then (map_err ResFile (ld_overlay D handle)) (\<lambda>overlay.
         and_then (copy_private_tree L (ld_fs D) (ld_copy D handle) source_path overlay quota_bytes) (\<lambda>_.
         and_then (scan_regular_tree L (ld_after D) overlay quota_bytes) (\<lambda>observed.
         Inr (overlay, sum_list (observed_bytes observed)))))
       else Inr (source_path, 0)) (\<lambda>(source_path, initial_bytes).
     Inr \<lparr>mt_handle_ref = handle, mt_kind = rg_kind grant, mt_source_path = source_path,
       mt_mount_name = take 24 (blake3_hex L (as_bytes handle)), mt_writable = writable, mt_quota_bytes = quota_bytes,
       mt_allowed_verbs = rg_allowed_verbs grant, mt_private_overlay = writable, mt_initial_bytes = initial_bytes\<rparr>))"

fun lease_mounts ::
  "lib \<Rightarrow> lease_disk \<Rightarrow> EffectAuthorityStateV1 \<Rightarrow> ManagedResourceAccessV1 \<Rightarrow> ManagedResourceResolverV1 \<Rightarrow> ResourceGrantV1 list
   \<Rightarrow> ManagedObjectBindingService \<Rightarrow> (resource_error + ExecutionWorldMountV1 list) \<times> ManagedObjectBindingService" where
  "lease_mounts L D authority access rv [] objects = (Inr [], objects)"
| "lease_mounts L D authority access rv (grant # rest) objects =
     (case and_then (validate_attachment L authority access (rg_handle_ref grant) (rg_kind grant)) (\<lambda>_.
         and_then (ok_or (hm_get (rv_backings rv) (rg_handle_ref grant))
           (ResInvalid ''Execution world resource backing is unavailable.'')) (\<lambda>backing.
         and_then (validate_owner L (backing_owner backing) access) (\<lambda>_. Inr backing))) of
        Inl e \<Rightarrow> (Inl e, objects)
      | Inr backing \<Rightarrow>
          (case mount_source L (ld_fs D) (ch_now (ma_current access)) backing objects of (source, objects) \<Rightarrow>
            (case and_then source (make_mount L D grant) of
               Inl e \<Rightarrow> (Inl e, objects)
             | Inr mount \<Rightarrow>
                 (case lease_mounts L D authority access rv rest objects of (result, objects) \<Rightarrow>
                   (map_ok (\<lambda>mounts. mount # mounts) result, objects)))))"

definition lease_execution_world_mounts ::
  "lib \<Rightarrow> lease_disk \<Rightarrow> EffectAuthorityStateV1 \<Rightarrow> ManagedResourceAccessV1 \<Rightarrow> ResourceGrantV1 list
   \<Rightarrow> ManagedObjectBindingService \<Rightarrow> ManagedResourceResolverV1
   \<Rightarrow> (resource_error + ExecutionWorldMountV1 list) \<times> ManagedObjectBindingService \<times> ManagedResourceResolverV1" where
  "lease_execution_world_mounts L D authority access grants objects rv =
     (let requested = fset_of_list (map rg_handle_ref grants) in
      if fcard requested \<noteq> length grants \<or> \<not> (requested |\<inter>| rv_world_leases rv = {||})
      then (Inl (ResInvalid ''Execution world resource handle is duplicated or already leased.''), objects, rv)
      else case lease_mounts L D authority access rv grants objects of
        (Inl e, objects) \<Rightarrow> (Inl e, objects, rv)
      | (Inr mounts, objects) \<Rightarrow>
          (Inr mounts, objects,
           rv\<lparr>rv_world_leases := rv_world_leases rv |\<union>| requested,
              rv_exclusive_world_leases := rv_exclusive_world_leases rv
                |\<union>| fset_of_list (map mt_handle_ref (filter mt_writable mounts))\<rparr>))"

section \<open>Release\<close>

text \<open>\<open>rd_fs\<close> is the disk when the mounts are released; \<open>rd_removed\<close> and \<open>rd_written\<close> answer per handle and selector.\<close>

record release_disk =
  rd_fs :: host_fs
  rd_removed :: "ResourceHandleRefV1 \<Rightarrow> string \<Rightarrow> bool"
  rd_written :: "ResourceHandleRefV1 \<Rightarrow> string \<Rightarrow> disk"

type_synonym resource_facts = "(string \<times> u64 \<times> string \<times> u64) list"

definition content_changed :: "SourceIdentity \<Rightarrow> PrivateFileV1 \<Rightarrow> bool" where
  "content_changed identity previous \<longleftrightarrow> si_digest (pf_identity previous) \<noteq> si_digest identity
     \<or> si_byte_count (pf_identity previous) \<noteq> si_byte_count identity"

definition overlay_permitted ::
  "private_files \<Rightarrow> ResourceVerbV1 fset \<Rightarrow> (string \<times> SourceIdentity) list \<Rightarrow> resource_error + unit" where
  "overlay_permitted files allowed_verbs observed =
     and_then (ensure (\<not> (list_ex (\<lambda>selector. \<not> hm_contains observed selector) (hm_keys files) \<and> Delete |\<notin>| allowed_verbs))
       (ResInvalid ''Execution world attempted an unauthorized resource deletion.'')) (\<lambda>_.
     try_all (\<lambda>(selector, identity). case hm_get files selector of
         None \<Rightarrow> ensure (Create |\<in>| allowed_verbs) (ResInvalid ''Execution world attempted an unauthorized resource creation.'')
       | Some previous \<Rightarrow> ensure (\<not> (content_changed identity previous \<and> Replace |\<notin>| allowed_verbs))
           (ResInvalid ''Execution world attempted an unauthorized resource replacement.'')) observed)"

fun delete_files ::
  "lib \<Rightarrow> host_fs \<Rightarrow> (string \<Rightarrow> bool) \<Rightarrow> path \<Rightarrow> string list \<Rightarrow> private_files \<Rightarrow> (resource_error + unit) \<times> private_files" where
  "delete_files L F removed destination_root [] files = (Inr (), files)"
| "delete_files L F removed destination_root (selector # rest) files =
     (case hm_get files selector of
        None \<Rightarrow> (Inl ResPanic, files)
      | Some previous \<Rightarrow>
          let files = hm_remove selector files in
          (case capture_at L F (pf_path previous) destination_root (si_byte_count (pf_identity previous)) of
             Inl e \<Rightarrow> (Inl e, files)
           | Inr current \<Rightarrow>
               if current \<noteq> pf_identity previous
               then (Inl (ResInvalid ''Managed resource changed before overlay deletion could commit.''), files)
               else if \<not> removed selector then (Inl (ResFile IoError), files)
               else delete_files L F removed destination_root rest files))"

definition saturating_succ :: "u64 \<Rightarrow> u64" where
  "saturating_succ n = (if n = - 1 then n else n + 1)"

definition commit_file ::
  "lib \<Rightarrow> host_fs \<Rightarrow> disk \<Rightarrow> path \<Rightarrow> path \<Rightarrow> u64 \<Rightarrow> EffectRequestIdV1 \<Rightarrow> string \<Rightarrow> SourceIdentity \<Rightarrow> PrivateFileV1 option
   \<Rightarrow> resource_error + PrivateFileV1" where
  "commit_file L F D overlay destination_root quota_bytes request_id selector identity previous =
     (case previous of
        Some private \<Rightarrow> if content_changed identity private then
            and_then (read_at L F (overlay @ path_components selector) overlay identity quota_bytes) (\<lambda>bytes.
            and_then (write_private_file L D destination_root selector (Some (pf_identity private)) bytes
              (saturating_succ (pf_generation private))) (\<lambda>committed.
            Inr (committed\<lparr>pf_last_request_id := Some request_id\<rparr>)))
          else Inr private
      | None \<Rightarrow>
          and_then (read_at L F (overlay @ path_components selector) overlay identity quota_bytes) (\<lambda>bytes.
          and_then (write_private_file L D destination_root selector None bytes 1) (\<lambda>committed.
          Inr (committed\<lparr>pf_last_request_id := Some request_id\<rparr>))))"

fun commit_files ::
  "lib \<Rightarrow> host_fs \<Rightarrow> (string \<Rightarrow> disk) \<Rightarrow> path \<Rightarrow> path \<Rightarrow> u64 \<Rightarrow> EffectRequestIdV1 \<Rightarrow> (string \<times> SourceIdentity) list
   \<Rightarrow> resource_facts \<Rightarrow> private_files \<Rightarrow> (resource_error + resource_facts) \<times> private_files" where
  "commit_files L F Ds overlay destination_root quota_bytes request_id [] facts files = (Inr facts, files)"
| "commit_files L F Ds overlay destination_root quota_bytes request_id ((selector, identity) # rest) facts files =
     (case commit_file L F (Ds selector) overlay destination_root quota_bytes request_id selector identity (hm_get files selector) of
        Inl e \<Rightarrow> (Inl e, files)
      | Inr private \<Rightarrow>
          commit_files L F Ds overlay destination_root quota_bytes request_id rest
            (bt_insert selector (pf_generation private, si_digest (pf_identity private), si_byte_count (pf_identity private)) facts)
            (hm_insert selector private files))"

definition reconcile_private_overlay ::
  "lib \<Rightarrow> host_fs \<Rightarrow> (string \<Rightarrow> bool) \<Rightarrow> (string \<Rightarrow> disk) \<Rightarrow> path \<Rightarrow> path \<Rightarrow> u64 \<Rightarrow> EffectRequestIdV1 \<Rightarrow> ResourceVerbV1 fset
   \<Rightarrow> private_files \<Rightarrow> (resource_error + resource_facts) \<times> private_files" where
  "reconcile_private_overlay L F removed Ds overlay destination_root quota_bytes request_id allowed_verbs files =
     (case and_then (scan_regular_tree L F overlay quota_bytes) (\<lambda>observed.
         and_then (overlay_permitted files allowed_verbs observed) (\<lambda>_. Inr observed)) of
        Inl e \<Rightarrow> (Inl e, files)
      | Inr observed \<Rightarrow>
          (case delete_files L F removed destination_root
              (filter (\<lambda>selector. \<not> hm_contains observed selector) (hm_keys files)) files of
             (Inl e, files) \<Rightarrow> (Inl e, files)
           | (Inr _, files) \<Rightarrow> commit_files L F Ds overlay destination_root quota_bytes request_id observed [] files))"

definition reconcile_execution_mount ::
  "lib \<Rightarrow> release_disk \<Rightarrow> ManagedResourceAccessV1 \<Rightarrow> EffectRequestIdV1 \<Rightarrow> ExecutionWorldMountV1
   \<Rightarrow> ManagedObjectBindingService \<times> ManagedResourceResolverV1
   \<Rightarrow> (resource_error + resource_facts) \<times> ManagedObjectBindingService \<times> ManagedResourceResolverV1" where
  "reconcile_execution_mount L D access request_id mount = (\<lambda>(objects, rv).
     let F = rd_fs D; handle = mt_handle_ref mount; now = ch_now (ma_current access);
         reconcile = (\<lambda>root files quota_bytes. reconcile_private_overlay L F (rd_removed D handle) (rd_written D handle)
           (mt_source_path mount) root quota_bytes request_id (mt_allowed_verbs mount) files);
         store = (\<lambda>backing files. rv\<lparr>rv_backings := hm_insert handle (with_files files backing) (rv_backings rv)\<rparr>) in
     case and_then (ok_or (hm_get (rv_backings rv) handle) (ResInvalid ''Execution world resource backing was revoked.'')) (\<lambda>backing.
         and_then (validate_owner L (backing_owner backing) access) (\<lambda>_. Inr backing)) of
       Inl e \<Rightarrow> (Inl e, objects, rv)
     | Inr backing \<Rightarrow>
         (case backing of
            BackManagedRevision _ acquisition maximum_bytes \<Rightarrow>
              (case resolve L F acquisition now objects of (resolved, objects) \<Rightarrow>
                (and_then (map_err ResFile resolved) (\<lambda>artifact.
                 and_then (revision_unchanged L F ''Managed regular-file-set changed during execution world lease.'' maximum_bytes artifact) (\<lambda>_.
                 Inr [])), objects, rv))
          | BackExecutable _ p scope_root identity \<Rightarrow>
              (and_then (read_at L F p scope_root identity (- 1)) (\<lambda>_. Inr []), objects, rv)
          | BackWorkspace _ acquisition root files quota_bytes \<Rightarrow>
              (case resolve L F acquisition now objects of (resolved, objects) \<Rightarrow>
                (case resolved of
                   Inl e \<Rightarrow> (Inl (ResFile e), objects, rv)
                 | Inr _ \<Rightarrow> (case reconcile root files quota_bytes of (result, files) \<Rightarrow> (result, objects, store backing files))))
          | BackOutputSlot _ root files quota_bytes _ \<Rightarrow>
              (case reconcile root files quota_bytes of (result, files) \<Rightarrow> (result, objects, store backing files))
          | BackScratch _ root files quota_bytes \<Rightarrow>
              (case reconcile root files quota_bytes of (result, files) \<Rightarrow> (result, objects, store backing files))))"

text \<open>Every mount is reconciled, whatever happened to the others; the first error is the result. The observations of all
  mounts are one map, keyed by selector.\<close>

fun release_mounts ::
  "lib \<Rightarrow> release_disk \<Rightarrow> ManagedResourceAccessV1 \<Rightarrow> EffectRequestIdV1 \<Rightarrow> ExecutionWorldMountV1 list \<Rightarrow> resource_facts
   \<Rightarrow> resource_error option \<Rightarrow> ManagedObjectBindingService \<times> ManagedResourceResolverV1
   \<Rightarrow> (resource_error + resource_facts) \<times> ManagedObjectBindingService \<times> ManagedResourceResolverV1" where
  "release_mounts L D access request_id [] observations first_error s =
     (case first_error of None \<Rightarrow> Inr observations | Some e \<Rightarrow> Inl e, s)"
| "release_mounts L D access request_id (mount # rest) observations first_error s =
     (case reconcile_execution_mount L D access request_id mount s of (result, objects, rv) \<Rightarrow>
       release_mounts L D access request_id rest
         (case result of Inr values \<Rightarrow> foldl (\<lambda>m (selector, fact). bt_insert selector fact m) observations values
          | Inl _ \<Rightarrow> observations)
         (case result of Inl e \<Rightarrow> (case first_error of None \<Rightarrow> Some e | Some first \<Rightarrow> Some first) | Inr _ \<Rightarrow> first_error)
         (objects, rv\<lparr>rv_world_leases := rv_world_leases rv |-| {|mt_handle_ref mount|},
            rv_exclusive_world_leases := rv_exclusive_world_leases rv |-| {|mt_handle_ref mount|}\<rparr>))"

definition release_execution_world_mounts ::
  "lib \<Rightarrow> release_disk \<Rightarrow> ManagedResourceAccessV1 \<Rightarrow> EffectRequestIdV1 \<Rightarrow> ExecutionWorldMountV1 list
   \<Rightarrow> ManagedObjectBindingService \<times> ManagedResourceResolverV1
   \<Rightarrow> (resource_error + resource_facts) \<times> ManagedObjectBindingService \<times> ManagedResourceResolverV1" where
  "release_execution_world_mounts L D access request_id mounts = release_mounts L D access request_id mounts [] None"

end
