(* ===== verification/Resource_Invariants.thy ===== *)
theory Resource_Invariants
  imports Managed_Leases
begin

text \<open>
  The resolver of managed resources as a state machine, and what holds in every state it can reach. A state is the resolver; every operation is
  a step, with any authority, object service, disk and arguments.
\<close>

section \<open>Sizes\<close>

definition identity_size :: "SourceIdentity \<Rightarrow> nat" where
  "identity_size identity = unat (si_byte_count identity)"

definition total_size :: "private_files \<Rightarrow> nat" where
  "total_size files = sum_list (map (\<lambda>(_, pfile). identity_size (pf_identity pfile)) files)"

definition observed_size :: "(string \<times> SourceIdentity) list \<Rightarrow> nat" where
  "observed_size observed = sum_list (map (\<lambda>(_, identity). identity_size identity) observed)"

lemma total_size_insert:
  "hm_wf files \<Longrightarrow> total_size (hm_insert k v files) =
     total_size (filter (\<lambda>(s, _). s \<noteq> k) files) + identity_size (pf_identity v)"
proof (induction files)
  case (Cons x xs)
  show ?case
  proof (cases "fst x = k")
    case True
    with Cons.prems have "filter (\<lambda>(s, _). s \<noteq> k) xs = xs" by (cases x) (auto intro!: filter_True simp: image_iff)
    with True show ?thesis by (cases x) (simp add: total_size_def hm_insert_def)
  next
    case False
    with Cons show ?thesis by (cases x) (simp add: total_size_def hm_insert_def)
  qed
qed (simp add: total_size_def hm_insert_def)

lemma total_size_update:
  assumes "\<And>p. pf_identity (f p) = pf_identity p"
  shows "total_size (hm_map_values f files) = total_size files" "total_size (hm_modify k f files) = total_size files"
  by (induction files) (auto simp: total_size_def hm_map_values_def hm_modify_def assms)

lemma total_size_remove_le: "total_size (hm_remove k files) \<le> total_size files"
  by (induction files) (auto simp: total_size_def hm_remove_def AList.delete_eq)

lemma observed_size_insert:
  "map_of files k = None \<Longrightarrow> observed_size (bt_insert k v files) = observed_size files + identity_size v"
  by (induction files) (auto simp: observed_size_def split: if_splits)

section \<open>Scans stay within their limit\<close>

definition scan_bounded :: "u64 \<Rightarrow> (string \<times> SourceIdentity) list \<Rightarrow> u64 \<Rightarrow> bool" where
  "scan_bounded m files bytes \<longleftrightarrow> bt_wf files \<and> observed_size files = unat bytes \<and> bytes \<le> m"

lemma scan_file_bounded:
  assumes "scan_bounded m files bytes" and "scan_file L c r m p (ps, files, bytes) = Inr (ps', files', bytes')"
  shows "scan_bounded m files' bytes'"
proof -
  from assms(2) obtain identity k where
    sum: "checked_add bytes (si_byte_count identity) = Some bytes'" and le: "bytes' \<le> m"
    and new: "\<not> hm_contains files k" and files': "files' = bt_insert k identity files"
    by (auto simp: scan_file_def Let_def res_simps not_less split: if_splits)
  from new have "map_of files k = None" by (simp add: hm_contains_def)
  with assms(1) sum le show ?thesis
    by (simp add: scan_bounded_def files' bt_wf_insert observed_size_insert unat_checked_add [OF sum] identity_size_def)
qed

lemma scan_entries_bounded:
  "scan_entries L c r m d es s = Inr s' \<Longrightarrow> scan_bounded m (fst (snd s)) (snd (snd s)) \<Longrightarrow> scan_bounded m (fst (snd s')) (snd (snd s'))"
proof (induction L c r m d es s arbitrary: s' rule: scan_entries.induct)
  case (2 L c r m d name node rest s)
  show ?case
  proof (cases node)
    case (FileNode f)
    with 2(3) obtain s1 where s1: "scan_file L c r m (d @ [name]) s = Inr s1"
      and rest: "scan_entries L c r m d rest s1 = Inr s'" by (auto simp: res_simps)
    have "scan_bounded m (fst (snd s1)) (snd (snd s1))"
      using s1 2(4) scan_file_bounded by (cases s; cases s1) fastforce
    from 2(1) [OF FileNode rest this] show ?thesis .
  next
    case (DirNode es)
    with 2(3) have rest: "scan_entries L c r m d rest ((d @ [name], es) # fst s, snd s) = Inr s'" by simp
    from 2(2) [OF DirNode rest] 2(4) show ?thesis by simp
  qed (use 2(3) in auto)
qed simp

lemma scan_pending_bounded:
  "scan_pending L c r m s = Inr (files, bytes) \<Longrightarrow> scan_bounded m (fst (snd s)) (snd (snd s)) \<Longrightarrow> scan_bounded m files bytes"
proof (induction L c r m s arbitrary: files bytes rule: scan_pending.induct)
  case (2 L c r m d es p f t)
  then show ?case using scan_entries_bounded by (fastforce split: sum.splits)
qed simp

lemma scan_regular_tree_bounded:
  assumes "scan_regular_tree L F root m = Inr observed"
  shows "bt_wf observed" and "observed_size observed \<le> unat m"
proof -
  from assms obtain node bytes where "scan_regular_file_set L root node m = Inr (observed, bytes)"
    by (auto simp: scan_regular_tree_def res_simps map_ok_def)
  then obtain es where "scan_pending L root (DirNode es) m ([([], es)], [], 0) = Inr (observed, bytes)"
    by (cases node) (simp_all add: scan_regular_file_set_def del: scan_pending.simps)
  from scan_pending_bounded [OF this] have "scan_bounded m observed bytes"
    by (simp add: scan_bounded_def observed_size_def)
  then show "bt_wf observed" "observed_size observed \<le> unat m"
    by (auto simp: scan_bounded_def word_le_nat_alt)
qed

section \<open>The machine\<close>

text \<open>What a step is about: the handles of the mounts a release takes back, and whether it failed; the purges.\<close>

datatype resolver_label = LabQuiet | LabPurge | LabRelease "ResourceHandleRefV1 list" bool

inductive resolver_step ::
  "lib \<Rightarrow> resolver_label \<Rightarrow> ManagedResourceResolverV1 \<Rightarrow> ManagedResourceResolverV1 \<Rightarrow> bool" for L where
  step_bind_executable: "resolver_step L LabQuiet rv (snd (bind_executable L F x st access h spec rv))"
| step_bind_revision: "resolver_step L LabQuiet rv (snd (snd (bind_managed_revision L F st access h acq objects rv)))"
| step_bind_workspace: "resolver_step L LabQuiet rv (snd (snd (bind_workspace L D st access h wspec objects rv)))"
| step_output_slot: "resolver_step L LabQuiet rv (snd (provision_output_slot L D st access h quota rv))"
| step_scratch: "resolver_step L LabQuiet rv (snd (provision_scratch L D st access h quota rv))"
| step_clone: "resolver_step L LabQuiet rv (snd (snd (clone_exact_input_to_scratch L F Ds F' st access h h' objects rv)))"
| step_stage: "resolver_step L LabQuiet rv (snd (stage_write_payload L st access h digest bytes rv))"
| step_take_read: "resolver_step L LabQuiet rv (snd (take_read r rv))"
| step_discard: "resolver_step L LabQuiet rv (snd (discard_staged_write_payload L access h digest rv))"
| step_apply: "resolver_step L LabQuiet rv (snd (snd (HostManagedResourceBackendV1_apply L D now q (objects, rv))))"
| step_seal: "resolver_step L LabQuiet rv (snd (seal_output_slot L F st access h sel evidence rv))"
| step_register: "resolver_step L LabQuiet rv
    (snd (snd (register_sealed_transform_output L F uuid access seal lid n name media t objects rv)))"
| step_lease: "resolver_step L LabQuiet rv (snd (snd (lease_execution_world_mounts L LD st access grants objects rv)))"
| step_release: "release_execution_world_mounts L RD access r mounts (objects, rv) = (result, objects', rv') \<Longrightarrow>
    resolver_step L (LabRelease (map mt_handle_ref mounts) (\<not> is_ok result)) rv rv'"
| step_purge_run: "resolver_step L LabPurge rv (snd (resolver_purge_run run rv))"
| step_purge_bridge: "resolver_step L LabPurge rv (snd (resolver_purge_bridge bridge rv))"
| step_purge_all: "resolver_step L LabPurge rv (snd (resolver_purge_all rv))"

definition resolver_init :: "ManagedResourceResolverV1 \<Rightarrow> bool" where
  "resolver_init rv \<longleftrightarrow> (\<exists>root uuid. rv = ManagedResourceResolverV1_new root uuid)"

section \<open>Quotas\<close>

definition within_quota :: "HostResourceBackingV1 \<Rightarrow> bool" where
  "within_quota b = (case private_part b of None \<Rightarrow> True
     | Some (_, files, quota_bytes) \<Rightarrow> hm_wf files \<and> total_size files \<le> unat quota_bytes)"

definition quota_inv :: "ManagedResourceResolverV1 \<Rightarrow> bool" where
  "quota_inv rv \<longleftrightarrow> (\<forall>b \<in> set (hm_values (rv_backings rv)). within_quota b)"

lemma quota_invD: "quota_inv rv \<Longrightarrow> hm_get (rv_backings rv) h = Some b \<Longrightarrow> within_quota b"
  by (auto simp: quota_inv_def dest: hm_get_in_values)

lemma hm_values_insert: "set (hm_values (hm_insert k v m)) \<subseteq> insert v (set (hm_values m))"
  by (induction m) (auto simp: hm_values_def hm_insert_def)

lemma quota_inv_insert: "quota_inv rv \<Longrightarrow> within_quota b \<Longrightarrow> quota_inv (rv\<lparr>rv_backings := hm_insert h b (rv_backings rv)\<rparr>)"
  using hm_values_insert by (fastforce simp: quota_inv_def)

lemma quota_inv_cong [simp]:
  "quota_inv (rv\<lparr>rv_staged_payloads := s\<rparr>) \<longleftrightarrow> quota_inv rv" "quota_inv (rv\<lparr>rv_reads := rs\<rparr>) \<longleftrightarrow> quota_inv rv"
  "quota_inv (rv\<lparr>rv_world_leases := w\<rparr>) \<longleftrightarrow> quota_inv rv" "quota_inv (rv\<lparr>rv_exclusive_world_leases := w\<rparr>) \<longleftrightarrow> quota_inv rv"
  by (simp_all add: quota_inv_def)

lemma private_part_with_files [simp]:
  "private_part (with_files files b) = map_option (\<lambda>(root, _, quota). (root, files, quota)) (private_part b)"
  by (cases b) (simp_all add: with_files_def private_part_def)

lemma within_quota_with_files:
  "private_part b = Some (root, files, quota) \<Longrightarrow> within_quota (with_files files' b) \<longleftrightarrow> hm_wf files' \<and> total_size files' \<le> unat quota"
  by (simp add: within_quota_def)

lemma write_private_file_Inr:
  assumes "write_private_file L D root selector expected bytes generation = Inr pfile"
  shows "pf_generation pfile = generation" "si_digest (pf_identity pfile) = digest_bytes L bytes"
    "si_byte_count (pf_identity pfile) = of_nat (length bytes)" "\<not> pf_sealed pfile" "\<not> pf_lineage_registered pfile"
    "pf_last_request_id pfile = None" "selector \<noteq> ''.''" "dk_captured D = Inr (pf_identity pfile)"
    "commit_private_file L D root selector expected = Inr (pf_path pfile)"
  using assms by (auto simp: write_private_file_def commit_private_file_def res_simps Let_def)

lemma checked_sum_Some: "checked_sum acc xs = Some s \<Longrightarrow> unat s = unat acc + sum_list (map unat xs)"
  by (induction acc xs rule: checked_sum.induct) (auto split: option.splits dest!: unat_checked_add)

text \<open>What a successful write to a backing says.\<close>

lemma write_backing_cases:
  assumes "write_backing L D effect q bytes backing = Inr pfile"
  obtains root files quota generation digest where
    "private_part backing = Some (root, files, quota)"
    "\<forall>owner root files quota. backing \<noteq> BackOutputSlot owner root files quota True"
    "expected_generation q (re_handle_ref effect) = Inr (generation, digest)"
    "write_matches (re_verb effect) (hm_get files (re_relative_selector effect)) generation digest"
    "total_size (filter (\<lambda>(s, _). s \<noteq> re_relative_selector effect) files) + identity_size (pf_identity pfile) \<le> unat quota"
    "unat (pf_generation pfile) = unat generation + 1"
    "si_digest (pf_identity pfile) = digest_bytes L bytes" "si_byte_count (pf_identity pfile) = of_nat (length bytes)"
    "\<not> pf_sealed pfile" "pf_last_request_id pfile = Some (rq_request_id q)" "dk_captured D = Inr (pf_identity pfile)"
    "commit_private_file L D root (re_relative_selector effect) (map_option pf_identity (hm_get files (re_relative_selector effect)))
      = Inr (pf_path pfile)"
proof -
  from assms obtain root files quota generation digest current used g written where
    part: "private_part backing = Some (root, files, quota)"
    and root: "\<not> (case backing of BackOutputSlot _ _ _ _ root_sealed \<Rightarrow> root_sealed | _ \<Rightarrow> False)"
    and gen: "expected_generation q (re_handle_ref effect) = Inr (generation, digest)"
    and mat: "write_matches (re_verb effect) (hm_get files (re_relative_selector effect)) generation digest"
    and current: "checked_sum 0 (map (\<lambda>(_, pfile). si_byte_count (pf_identity pfile))
         (filter (\<lambda>(selector, _). selector \<noteq> re_relative_selector effect) files)) = Some current"
    and used: "checked_add current (of_nat (length bytes)) = Some used" "\<not> used > quota"
    and g: "checked_add generation 1 = Some g"
    and written: "write_private_file L D root (re_relative_selector effect)
      (map_option pf_identity (hm_get files (re_relative_selector effect))) bytes g = Inr written"
    and pfile: "pfile = written\<lparr>pf_last_request_id := Some (rq_request_id q)\<rparr>"
    unfolding write_backing_def Let_def
    by (auto simp: res_simps split: option.splits HostResourceBackingV1.splits)
  note w = write_private_file_Inr [OF written]
  have "unat current = total_size (filter (\<lambda>(s, _). s \<noteq> re_relative_selector effect) files)"
    using checked_sum_Some [OF current] by (simp add: total_size_def identity_size_def comp_def case_prod_unfold)
  moreover have "unat used = unat current + unat (of_nat (length bytes) :: u64)" by (rule unat_checked_add [OF used(1)])
  ultimately have "total_size (filter (\<lambda>(s, _). s \<noteq> re_relative_selector effect) files) + identity_size (pf_identity pfile) \<le> unat quota"
    using used(2) by (simp add: pfile identity_size_def w word_le_nat_alt not_less)
  moreover have "unat (pf_generation pfile) = unat generation + 1"
    using unat_checked_add [OF g] by (simp add: pfile w)
  moreover from root have "\<forall>owner root files quota. backing \<noteq> BackOutputSlot owner root files quota True"
    by (auto split: HostResourceBackingV1.splits)
  ultimately show thesis using that [OF part] gen mat w by (simp add: pfile)
qed

lemma write_backing_unsealed:
  assumes "write_backing L D effect q bytes backing = Inr pfile"
  shows "backing \<noteq> BackOutputSlot owner root files quota True"
  using assms by (rule write_backing_cases) simp

lemma within_quota_write:
  assumes "within_quota backing" and "write_backing L D effect q bytes backing = Inr pfile"
  shows "within_quota (insert_file (re_relative_selector effect) pfile backing)"
  using assms(2)
proof (rule write_backing_cases)
  fix root files quota generation digest
  assume part: "private_part backing = Some (root, files, quota)"
    and le: "total_size (filter (\<lambda>(s, _). s \<noteq> re_relative_selector effect) files) + identity_size (pf_identity pfile) \<le> unat quota"
  from assms(1) part have "hm_wf files" by (simp add: within_quota_def)
  with le show ?thesis
    by (simp add: insert_file_def part within_quota_with_files [OF part] hm_wf_insert total_size_insert)
qed

lemma apply_write_cases:
  assumes "apply_write L D effect q now backing (objects, rv) = (result, objects', rv')"
  obtains (refused) e s where "result = Inl e" "rv' = rv\<lparr>rv_staged_payloads := s\<rparr>"
  | (written) digest payload pfile where
      "re_value_digest effect = Some digest"
      "hm_get (rv_staged_payloads rv) (staged_key (rq_run_control_ref q) (re_handle_ref effect) digest) = Some payload"
      "\<not> payload_mismatch effect q digest payload" "validate_request_owner L (sp_owner payload) q = Inr ()"
      "write_backing L D effect q (sp_bytes payload) backing = Inr pfile"
      "result = Inr (allowed_resource (re_handle_ref effect) (pf_generation pfile) (si_digest (pf_identity pfile))
         (si_byte_count (pf_identity pfile)) ''managed_resource_write'')"
      "rv' = rv\<lparr>rv_staged_payloads := hm_remove (staged_key (rq_run_control_ref q) (re_handle_ref effect) digest) (rv_staged_payloads rv),
         rv_backings := hm_insert (re_handle_ref effect) (insert_file (re_relative_selector effect) pfile backing) (rv_backings rv)\<rparr>"
proof -
  have same: thesis if "\<exists>e. result = Inl e \<and> rv' = rv" using that refused [of _ "rv_staged_payloads rv"] by auto
  show thesis
  proof (cases "re_value_digest effect")
    case None
    with assms show thesis by (intro same) (auto simp: apply_write_def)
  next
    case (Some digest)
    let ?key = "staged_key (rq_run_control_ref q) (re_handle_ref effect) digest"
    show thesis
    proof (cases "hm_get (rv_staged_payloads rv) ?key")
      case None
      with assms Some show thesis by (intro same) (auto simp: apply_write_def Let_def)
    next
      case payload: (Some payload)
      obtain resolved objects1 where r: "resolve_workspace L (dk_fs D) now backing objects = (resolved, objects1)" by fastforce
      let ?checks = "and_then (validate_request_owner L (sp_owner payload) q) (\<lambda>_.
          ensure (\<not> payload_mismatch effect q digest payload) (ResInvalid ''Staged resource payload context or budget is mismatched.''))"
      let ?file = "and_then resolved (\<lambda>_. write_backing L D effect q (sp_bytes payload) backing)"
      show thesis
      proof (cases ?checks)
        case (Inl e)
        with assms Some payload refused show thesis by (auto simp: apply_write_def Let_def)
      next
        case ok: (Inr u)
        show thesis
        proof (cases ?file)
          case (Inl e)
          with assms Some payload ok r refused show thesis by (auto simp: apply_write_def Let_def)
        next
          case (Inr pfile)
          from ok have "\<not> payload_mismatch effect q digest payload" "validate_request_owner L (sp_owner payload) q = Inr ()"
            by (auto simp: res_simps)
          moreover from Inr have "write_backing L D effect q (sp_bytes payload) backing = Inr pfile" by (auto simp: res_simps)
          ultimately show thesis using assms Some payload ok r Inr by (intro written) (auto simp: apply_write_def Let_def)
        qed
      qed
    qed
  qed
qed

text \<open>An effect changes what handles are bound to only by a write.\<close>

definition wrote ::
  "lib \<Rightarrow> disk \<Rightarrow> EffectRequestV1 \<Rightarrow> ResourceEffectV1 \<Rightarrow> HostResourceBackingV1 \<Rightarrow> StagedPayloadV1 \<Rightarrow> PrivateFileV1
   \<Rightarrow> ManagedResourceResolverV1 \<Rightarrow> ManagedResourceResolverV1 \<Rightarrow> bool" where
  "wrote L D q effect backing payload pfile rv rv' \<longleftrightarrow>
     rq_effect q = EffResource effect \<and> re_verb effect \<in> {Create, Replace} \<and> re_handle_ref effect |\<notin>| rv_exclusive_world_leases rv
     \<and> hm_get (rv_backings rv) (re_handle_ref effect) = Some backing \<and> validate_request_owner L (backing_owner backing) q = Inr ()
     \<and> re_value_digest effect = Some (sp_content_digest payload)
     \<and> hm_get (rv_staged_payloads rv) (staged_key (rq_run_control_ref q) (re_handle_ref effect) (sp_content_digest payload)) = Some payload
     \<and> \<not> payload_mismatch effect q (sp_content_digest payload) payload \<and> validate_request_owner L (sp_owner payload) q = Inr ()
     \<and> write_backing L D effect q (sp_bytes payload) backing = Inr pfile
     \<and> rv' = rv\<lparr>rv_staged_payloads := hm_remove (staged_key (rq_run_control_ref q) (re_handle_ref effect) (sp_content_digest payload))
           (rv_staged_payloads rv),
         rv_backings := hm_insert (re_handle_ref effect) (insert_file (re_relative_selector effect) pfile backing) (rv_backings rv)\<rparr>"

lemma apply_read_backings:
  "apply_read L F effect q now backing (objects, rv) = (result, objects', rv') \<Longrightarrow>
     rv_backings rv' = rv_backings rv \<and> rv_staged_payloads rv' = rv_staged_payloads rv"
  by (auto simp: apply_read_def split: prod.splits sum.splits if_splits)

lemma apply_authorized_cases:
  assumes "apply_authorized L D q now (objects, rv) = (result, objects', rv')"
  obtains (kept) "rv_backings rv' = rv_backings rv"
      "\<forall>outcome. result = Inr outcome \<longrightarrow> \<not> (\<exists>e. rq_effect q = EffResource e \<and> re_verb e \<in> {Create, Replace} \<and> bo_decision outcome = Allowed)"
  | (written) effect backing payload pfile where "wrote L D q effect backing payload pfile rv rv'"
      "result = Inr (allowed_resource (re_handle_ref effect) (pf_generation pfile) (si_digest (pf_identity pfile))
         (si_byte_count (pf_identity pfile)) ''managed_resource_write'')"
proof (cases "rq_effect q")
  case (EffResource effect)
  let ?checks = "and_then (map_err ResFile (validate_managed_selector (re_relative_selector effect))) (\<lambda>_.
             and_then (ok_or (hm_get (rv_backings rv) (re_handle_ref effect))
               (ResInvalid ''Managed resource backing is unavailable.'')) (\<lambda>backing.
             and_then (ensure (re_handle_ref effect |\<notin>| rv_exclusive_world_leases rv)
               (ResInvalid ''Managed resource is exclusively leased to an execution world.'')) (\<lambda>_.
             and_then (validate_request_owner L (backing_owner backing) q) (\<lambda>_.
             Inr backing))))"
  show thesis
  proof (cases ?checks)
    case (Inl e)
    with assms EffResource show thesis by (intro kept) (auto simp: apply_authorized_def)
  next
    case (Inr backing)
    then have b: "hm_get (rv_backings rv) (re_handle_ref effect) = Some backing"
      "re_handle_ref effect |\<notin>| rv_exclusive_world_leases rv" "validate_request_owner L (backing_owner backing) q = Inr ()"
      by (auto simp: res_simps)
    show thesis
    proof (cases "re_verb effect \<in> {Create, Replace}")
      case True
      with assms EffResource Inr have "apply_write L D effect q now backing (objects, rv) = (result, objects', rv')"
        by (auto simp: apply_authorized_def)
      then show thesis
      proof (cases rule: apply_write_cases)
        case (refused e s)
        then show thesis by (intro kept) auto
      next
        case (written digest payload pfile)
        then have "wrote L D q effect backing payload pfile rv rv'"
          using EffResource True b by (auto simp: wrote_def payload_mismatch_def)
        from this written(6) show thesis by (rule that(2))
      qed
    next
      case False
      with assms EffResource Inr have "rv_backings rv' = rv_backings rv"
        by (auto simp: apply_authorized_def dest: apply_read_backings split: if_splits)
      with False EffResource show thesis by (intro kept) auto
    qed
  qed
qed (use assms in \<open>auto simp: apply_authorized_def intro!: kept\<close>)

lemma quota_inv_replaced:
  assumes "quota_inv rv" and "within_quota b" and "rv_backings rv' = hm_insert h b (rv_backings rv)"
  shows "quota_inv rv'"
  using assms hm_values_insert [of h b "rv_backings rv"] by (auto simp: quota_inv_def)

lemma wrote_quota:
  assumes "wrote L D q effect backing payload pfile rv rv'" and "quota_inv rv"
  shows "quota_inv rv'"
proof -
  from assms(1) have b: "hm_get (rv_backings rv) (re_handle_ref effect) = Some backing"
    and w: "write_backing L D effect q (sp_bytes payload) backing = Inr pfile"
    and rv': "rv_backings rv' = hm_insert (re_handle_ref effect) (insert_file (re_relative_selector effect) pfile backing) (rv_backings rv)"
    by (simp_all add: wrote_def)
  from within_quota_write [OF quota_invD [OF assms(2) b] w] rv' show ?thesis by (rule quota_inv_replaced [OF assms(2)])
qed

lemma quota_inv_apply: "quota_inv rv \<Longrightarrow> quota_inv (snd (snd (HostManagedResourceBackendV1_apply L D now q (objects, rv))))"
proof -
  obtain result objects' rv' where a: "apply_authorized L D q now (objects, rv) = (result, objects', rv')"
    by (cases "apply_authorized L D q now (objects, rv)") auto
  assume inv: "quota_inv rv"
  from a have "quota_inv rv'"
  proof (cases rule: apply_authorized_cases)
    case kept
    then show ?thesis using inv by (simp add: quota_inv_def)
  next
    case (written effect backing payload pfile)
    from wrote_quota [OF written(1) inv] show ?thesis .
  qed
  then show ?thesis unfolding HostManagedResourceBackendV1_apply_def a by simp
qed

section \<open>The other operations keep the quota\<close>

lemma bind_with_cases:
  obtains "snd (bind_with h checked rv) = rv"
  | b where "checked = Inr b" "hm_get (rv_backings rv) h = None" "snd (bind_with h checked rv) = rv\<lparr>rv_backings := hm_insert h b (rv_backings rv)\<rparr>"
  by (cases checked; cases "hm_get (rv_backings rv) h") (auto simp: bind_with_def insert_backing_def hm_contains_def hm_get_def)

lemma quota_inv_bind:
  assumes "quota_inv rv" and "\<And>b. checked = Inr b \<Longrightarrow> within_quota b"
  shows "quota_inv (snd (bind_with h checked rv))"
  by (rule bind_with_cases [of h checked rv]) (use assms in \<open>auto intro: quota_inv_insert\<close>)

lemma within_quota_empty [simp]:
  "within_quota (BackOutputSlot owner root [] quota s)" "within_quota (BackScratch owner root [] quota)"
  "within_quota (BackManagedRevision owner acq n)" "within_quota (BackExecutable owner p sc i)"
  by (simp_all add: within_quota_def private_part_def total_size_def)

lemma read_at_size:
  "read_at L F p scope expected m = Inr bytes \<Longrightarrow> length bytes \<le> unat m \<and> si_byte_count expected = of_nat (length bytes)
     \<and> si_digest expected = digest_bytes L bytes"
  by (auto simp: read_at_def read_source_if_identity_matches_def res_simps exchange_source_Inr digest_bytes_def)

lemma unat_of_nat_le: "n \<le> unat m \<Longrightarrow> unat (of_nat n :: u64) \<le> unat m" for m :: u64
  using unat_of_nat [of n] by (metis le_trans mod_less_eq_dividend)

lemma within_quota_workspace:
  assumes "workspace_backing L D st access h spec resolved rv = Inr b"
  shows "within_quota b"
proof -
  from assms obtain owner root pfile bytes identity and artifact :: ResolvedManagedArtifact where
    b: "b = BackWorkspace owner (wk_acquisition spec) root (hm_insert (wk_initial_selector spec) pfile []) (wk_quota_bytes spec)"
    and r: "read_at L (dk_fs D) (ra_path artifact) (ra_scope_root artifact) identity (wk_quota_bytes spec) = Inr bytes"
    and w: "write_private_file L D root (wk_initial_selector spec) None bytes 1 = Inr pfile"
    unfolding workspace_backing_def and_then_Inr sum.inject by (elim exE conjE) (rule that [OF sym], assumption+)
  from read_at_size [OF r] write_private_file_Inr(3) [OF w] show ?thesis
    by (simp add: b within_quota_def private_part_def hm_insert_def total_size_def identity_size_def unat_of_nat_le)
qed

lemma within_quota_provision:
  assumes "and_then (validate_attachment L st access h kind) (\<lambda>grant.
      and_then (validate_quota quota (bg_write_bytes (rg_budgets grant))) (\<lambda>_.
      and_then (allocate_root L D h rv) (\<lambda>root.
      case kind of
        OutputSlot \<Rightarrow> and_then (owner_of L access) (\<lambda>owner. Inr (BackOutputSlot owner root [] quota False))
      | Scratch \<Rightarrow> and_then (owner_of L access) (\<lambda>owner. Inr (BackScratch owner root [] quota))
      | _ \<Rightarrow> Inl (ResInvalid ''Only OutputSlot or Scratch may be provisioned empty.'')))) = Inr b"
  shows "within_quota b"
  using assms by (cases kind) (auto simp: res_simps)

lemma bind_revision_state:
  "snd (snd (bind_managed_revision L F st access h acq objects rv)) =
     snd (bind_with h (revision_backing L st access h acq (fst (resolve L F acq (ch_now (ma_current access)) objects))) rv)"
  by (simp add: bind_managed_revision_def split: prod.split)

lemma bind_workspace_state:
  "snd (snd (bind_workspace L D st access h wspec objects rv)) =
     snd (bind_with h (workspace_backing L D st access h wspec
       (fst (resolve L (dk_fs D) (wk_acquisition wspec) (ch_now (ma_current access)) objects)) rv) rv)"
  by (simp add: bind_workspace_def split: prod.split)

lemma quota_inv_binds:
  assumes "quota_inv rv"
  shows "quota_inv (snd (bind_executable L F x st access h spec rv))"
    and "quota_inv (snd (snd (bind_managed_revision L F st access h acq objects rv)))"
    and "quota_inv (snd (snd (bind_workspace L D st access h wspec objects rv)))"
    and "quota_inv (snd (provision_output_slot L D st access h quota rv))"
    and "quota_inv (snd (provision_scratch L D st access h quota rv))"
proof -
  show "quota_inv (snd (bind_executable L F x st access h spec rv))"
    unfolding bind_executable_def by (rule quota_inv_bind [OF assms]) (auto simp: res_simps)
  show "quota_inv (snd (snd (bind_managed_revision L F st access h acq objects rv)))"
    unfolding bind_revision_state by (rule quota_inv_bind [OF assms]) (auto simp: revision_backing_def res_simps)
  show "quota_inv (snd (snd (bind_workspace L D st access h wspec objects rv)))"
    unfolding bind_workspace_state by (rule quota_inv_bind [OF assms]) (erule within_quota_workspace)
  show "quota_inv (snd (provision_output_slot L D st access h quota rv))" "quota_inv (snd (provision_scratch L D st access h quota rv))"
    unfolding provision_output_slot_def provision_scratch_def provision_empty_def
    by (rule quota_inv_bind [OF assms], erule within_quota_provision)+
qed

lemma seal_cases:
  assumes "seal_output_slot L F st access h sel evidence rv = (result, rv')"
  obtains (refused) e where "result = Inl e" "rv' = rv"
  | (whole) seal owner root files quota where
      "hm_get (rv_backings rv) h = Some (BackOutputSlot owner root files quota False)" "sel = ''.''"
      "seal_root L F st access h evidence root files False = Inr seal" "result = Inr seal"
      "rv' = rv\<lparr>rv_backings := hm_insert h (BackOutputSlot owner root (hm_map_values sealed_file files) quota True) (rv_backings rv)\<rparr>"
  | (single) seal owner root files quota s where
      "hm_get (rv_backings rv) h = Some (BackOutputSlot owner root files quota s)" "sel \<noteq> ''.''"
      "seal_file L F st access h evidence root files sel = Inr seal" "result = Inr seal"
      "rv' = rv\<lparr>rv_backings := hm_insert h (BackOutputSlot owner root (hm_modify sel sealed_file files) quota s) (rv_backings rv)\<rparr>"
proof (cases result)
  case (Inl e)
  with assms show thesis by (intro refused) (auto simp: seal_output_slot_def split: sum.splits prod.splits)
next
  case (Inr seal)
  from assms Inr obtain backing backing' where
    b: "hm_get (rv_backings rv) h = Some backing"
    and c: "(case backing of
           BackOutputSlot owner root files quota_bytes root_sealed \<Rightarrow>
             if sel = ''.'' then
               and_then (seal_root L F st access h evidence root files root_sealed) (\<lambda>seal.
               Inr (seal, BackOutputSlot owner root (hm_map_values sealed_file files) quota_bytes True))
             else
               and_then (seal_file L F st access h evidence root files sel) (\<lambda>seal.
               Inr (seal, BackOutputSlot owner root (hm_modify sel sealed_file files) quota_bytes root_sealed))
         | _ \<Rightarrow> Inl (ResInvalid ''Only OutputSlot resources may be sealed.'')) = Inr (seal, backing')"
    and rv': "rv' = rv\<lparr>rv_backings := hm_insert h backing' (rv_backings rv)\<rparr>"
    unfolding seal_output_slot_def by (auto simp: res_simps split: sum.splits)
  from c show thesis
  proof (cases backing)
    case (BackOutputSlot owner root files quota s)
    show thesis
    proof (cases "sel = ''.''")
      case True
      with c BackOutputSlot have r: "seal_root L F st access h evidence root files s = Inr seal"
        and b': "backing' = BackOutputSlot owner root (hm_map_values sealed_file files) quota True" by (auto simp: res_simps)
      from r have "\<not> s" by (auto simp: seal_root_def res_simps)
      with b BackOutputSlot True r b' Inr rv' show thesis by (intro whole) auto
    next
      case False
      with c BackOutputSlot have r: "seal_file L F st access h evidence root files sel = Inr seal"
        and b': "backing' = BackOutputSlot owner root (hm_modify sel sealed_file files) quota s" by (auto simp: res_simps)
      with b BackOutputSlot False Inr rv' show thesis by (intro single) auto
    qed
  qed (auto simp: res_simps)
qed

lemma sealed_output_cases:
  assumes "sealed_output L F access seal rv = Inr out"
  obtains (whole) owner root files quota s where
      "hm_get (rv_backings rv) (so_handle_ref seal) = Some (BackOutputSlot owner root files quota s)"
      "so_representation seal = RegularFileSet" "check_sealed_set L F seal root files = Inr ()"
      "out = (root, root, BackOutputSlot owner root (hm_map_values registered_file files) quota s)"
  | (single) p owner root files quota s where
      "hm_get (rv_backings rv) (so_handle_ref seal) = Some (BackOutputSlot owner root files quota s)"
      "so_representation seal \<noteq> RegularFileSet" "check_sealed_file L F seal root files = Inr p"
      "out = (p, root, BackOutputSlot owner root (hm_modify (so_relative_selector seal) registered_file files) quota s)"
proof -
  from assms obtain backing where b: "hm_get (rv_backings rv) (so_handle_ref seal) = Some backing"
    and c: "(case backing of
       BackOutputSlot owner root files quota_bytes root_sealed \<Rightarrow>
         if so_representation seal = RegularFileSet then
           and_then (check_sealed_set L F seal root files) (\<lambda>_.
           Inr (root, root, BackOutputSlot owner root (hm_map_values registered_file files) quota_bytes root_sealed))
         else
           and_then (check_sealed_file L F seal root files) (\<lambda>p.
           Inr (p, root, BackOutputSlot owner root (hm_modify (so_relative_selector seal) registered_file files) quota_bytes root_sealed))
     | _ \<Rightarrow> Inl (ResInvalid ''Transform lineage requires an OutputSlot.'')) = Inr out"
    unfolding sealed_output_def by (auto simp: res_simps)
  from c show thesis
  proof (cases backing)
    case (BackOutputSlot owner root files quota s)
    with b c that show thesis by (cases "so_representation seal = RegularFileSet") (auto simp: res_simps)
  qed (auto simp: res_simps)
qed

lemma register_cases:
  assumes "register_sealed_transform_output L F uuid access seal lid n name media t objects rv = (result, objects', rv')"
  obtains (refused) e where "result = Inl e" "rv' = rv"
  | (registered) p root owner files files' quota s acquisition where
      "sealed_output L F access seal rv = Inr (p, root, BackOutputSlot owner root files' quota s)"
      "hm_get (rv_backings rv) (so_handle_ref seal) = Some (BackOutputSlot owner root files quota s)"
      "files' = hm_map_values registered_file files \<or> files' = hm_modify (so_relative_selector seal) registered_file files"
      "register_core_transform_revision L F uuid (sealed_acquisition access seal p root name media t) lid n
         (so_content_digest seal) (ch_now (ma_current access)) objects = (Inr acquisition, objects')"
      "result = Inr acquisition"
      "rv' = rv\<lparr>rv_backings := hm_insert (so_handle_ref seal) (BackOutputSlot owner root files' quota s) (rv_backings rv)\<rparr>"
proof (cases "sealed_output L F access seal rv")
  case (Inl e)
  with assms show thesis by (intro refused) (auto simp: register_sealed_transform_output_def)
next
  case (Inr out)
  then obtain p owner root files files' quota s where
    b: "hm_get (rv_backings rv) (so_handle_ref seal) = Some (BackOutputSlot owner root files quota s)"
    and out: "out = (p, root, BackOutputSlot owner root files' quota s)"
    and files': "files' = hm_map_values registered_file files \<or> files' = hm_modify (so_relative_selector seal) registered_file files"
    by (cases rule: sealed_output_cases) auto
  obtain r o1 where r: "register_core_transform_revision L F uuid (sealed_acquisition access seal p root name media t) lid n
         (so_content_digest seal) (ch_now (ma_current access)) objects = (r, o1)" by fastforce
  show thesis
  proof (cases r)
    case (Inl e)
    with assms Inr out r show thesis by (intro refused) (auto simp: register_sealed_transform_output_def)
  next
    case ok: (Inr acquisition)
    with assms Inr out r have "result = Inr acquisition" "objects' = o1"
      "rv' = rv\<lparr>rv_backings := hm_insert (so_handle_ref seal) (BackOutputSlot owner root files' quota s) (rv_backings rv)\<rparr>"
      by (auto simp: register_sealed_transform_output_def)
    with Inr out b files' r ok show thesis by (intro registered) auto
  qed
qed

lemma keeps_identity [simp]: "pf_identity (sealed_file p) = pf_identity p" "pf_identity (registered_file p) = pf_identity p"
  by (simp_all add: sealed_file_def registered_file_def)

lemma within_quota_output:
  "within_quota (BackOutputSlot owner root files quota s) \<longleftrightarrow> hm_wf files \<and> total_size files \<le> unat quota"
  by (simp add: within_quota_def private_part_def)

lemma within_quota_marked:
  assumes "within_quota (BackOutputSlot owner root files quota s)" and "\<And>p. pf_identity (f p) = pf_identity p"
  shows "within_quota (BackOutputSlot owner root (hm_map_values f files) quota s')"
    and "within_quota (BackOutputSlot owner root (hm_modify k f files) quota s')"
  using assms by (simp_all add: within_quota_output total_size_update hm_wf_map_values hm_wf_modify)

lemma quota_inv_seal: "quota_inv rv \<Longrightarrow> quota_inv (snd (seal_output_slot L F st access h sel evidence rv))"
proof -
  assume inv: "quota_inv rv"
  obtain result rv' where s: "seal_output_slot L F st access h sel evidence rv = (result, rv')" by fastforce
  then have "quota_inv rv'"
  proof (cases rule: seal_cases)
    case (whole seal owner root files quota)
    from quota_invD [OF inv whole(1)] show ?thesis unfolding whole(5) by (intro quota_inv_insert [OF inv] within_quota_marked) simp_all
  next
    case (single seal owner root files quota s)
    from quota_invD [OF inv single(1)] show ?thesis unfolding single(5) by (intro quota_inv_insert [OF inv] within_quota_marked) simp_all
  qed (simp add: inv)
  with s show ?thesis by simp
qed

lemma quota_inv_register:
  "quota_inv rv \<Longrightarrow> quota_inv (snd (snd (register_sealed_transform_output L F uuid access seal lid n name media t objects rv)))"
proof -
  assume inv: "quota_inv rv"
  obtain result objects' rv' where
    s: "register_sealed_transform_output L F uuid access seal lid n name media t objects rv = (result, objects', rv')"
    by (cases "register_sealed_transform_output L F uuid access seal lid n name media t objects rv") auto
  then have "quota_inv rv'"
  proof (cases rule: register_cases)
    case (registered p root owner files files' quota s acquisition)
    from registered(3) within_quota_marked [OF quota_invD [OF inv registered(2)], of registered_file]
    have "within_quota (BackOutputSlot owner root files' quota s)" by auto
    then show ?thesis unfolding registered(6) by (rule quota_inv_insert [OF inv])
  qed (simp add: inv)
  with s show ?thesis by simp
qed

section \<open>Copies and releases keep the quota\<close>

lemma collect_files:
  "hm_wf m \<Longrightarrow> distinct (map fst xs) \<Longrightarrow> set (map fst xs) \<inter> set (map fst m) = {} \<Longrightarrow> (\<And>k i. pf_identity (mk k i) = i) \<Longrightarrow>
     hm_wf (foldl (\<lambda>m (k, i). hm_insert k (mk k i) m) m xs)
     \<and> total_size (foldl (\<lambda>m (k, i). hm_insert k (mk k i) m) m xs) = total_size m + observed_size xs"
proof (induction xs arbitrary: m)
  case (Cons x xs)
  obtain k i where x: "x = (k, i)" by fastforce
  with Cons.prems(3) have new: "hm_get m k = None" by (auto simp: hm_get_def map_of_eq_None_iff)
  then have ins: "hm_insert k (mk k i) m = m @ [(k, mk k i)]" by (simp add: hm_insert_fresh)
  have "hm_wf (m @ [(k, mk k i)])" "set (map fst xs) \<inter> set (map fst (m @ [(k, mk k i)])) = {}"
    using Cons.prems by (auto simp: x)
  moreover have "distinct (map fst xs)" using Cons.prems(2) by simp
  ultimately show ?case using Cons.IH [of "m @ [(k, mk k i)]"] Cons.prems(4)
    by (simp add: x ins total_size_def observed_size_def)
qed (simp add: observed_size_def)

lemma capture_file_set_bounded:
  assumes "capture_file_set L F root m = Inr i"
  shows "bt_wf (fi_files i)" and "observed_size (fi_files i) \<le> unat m"
proof -
  from assms have "scan_regular_tree L F root m = Inr (fi_files i)"
    by (auto simp: capture_file_set_def capture_regular_file_set_identity_def scan_regular_tree_def map_ok_def res_simps)
  then show "bt_wf (fi_files i)" "observed_size (fi_files i) \<le> unat m" by (rule scan_regular_tree_bounded)+
qed

lemma cloned_files_bounded:
  assumes "cloned_files L F Ds F' artifact root quota m [] = Inr files"
  shows "hm_wf files \<and> total_size files \<le> unat quota"
proof (cases "ra_identity artifact")
  case (FileIdentity identity)
  with assms obtain bytes pfile where
    r: "read_at L F (ra_path artifact) (ra_scope_root artifact) identity (min quota m) = Inr bytes"
    and w: "write_private_file L (Ds ''input'') root ''input'' None bytes 1 = Inr pfile" and files: "files = hm_insert ''input'' pfile []"
    by (auto simp: cloned_files_def res_simps)
  from read_at_size [OF r] have "length bytes \<le> unat quota" by (auto simp: min_def word_le_nat_alt split: if_splits)
  then show ?thesis using write_private_file_Inr(3) [OF w]
    by (simp add: files hm_insert_def total_size_def identity_size_def unat_of_nat_le)
next
  case (FileSetIdentity expected)
  define mk where "mk = (\<lambda>selector identity. \<lparr>pf_path = root @ path_components selector, pf_identity = identity, pf_generation = 1,
     pf_sealed = False, pf_lineage_registered = False, pf_last_request_id = None\<rparr>)"
  from FileSetIdentity assms obtain copied where c: "capture_file_set L F' root quota = Inr copied"
    and files: "files = foldl (\<lambda>m (k, i). hm_insert k (mk k i) m) [] (fi_files copied)"
    by (auto simp: cloned_files_def mk_def res_simps)
  from collect_files [of "[]" "fi_files copied" mk] bt_distinct [OF capture_file_set_bounded(1) [OF c]] capture_file_set_bounded(2) [OF c]
  show ?thesis unfolding files by (simp add: mk_def total_size_def)
qed

lemma clone_cases:
  assumes "clone_exact_input_to_scratch L F Ds F' st access h h' objects rv = (result, objects', rv')"
  obtains (refused) e where "result = Inl e" "rv' = rv"
  | (cloned) owner root quota m files artifact where
      "hm_get (rv_backings rv) h' = Some (BackScratch owner root [] quota)"
      "cloned_files L F Ds F' artifact root quota m [] = Inr files"
      "rv' = rv\<lparr>rv_backings := hm_insert h' (BackScratch owner root files quota) (rv_backings rv)\<rparr>"
proof (cases "scratch_input L st access h h' rv")
  case (Inl e)
  with assms show thesis by (intro refused) (auto simp: clone_exact_input_to_scratch_def)
next
  case (Inr x)
  obtain ig sg acq m where x: "x = (ig, sg, acq, m)" by (cases x) auto
  obtain resolved o1 where r: "resolve L F acq (ch_now (ma_current access)) objects = (resolved, o1)" by fastforce
  let ?checks = "and_then (map_err ResFile resolved) (\<lambda>artifact.
                and_then (ensure (rg_safe_identity_ref ig = managed_revision_identity_ref L acq artifact)
                  (ResInvalid ''Codex scratch input identity changed before cloning.'')) (\<lambda>_.
                and_then (scratch_backing L F access sg h' rv) (\<lambda>(owner, root, files, quota_bytes).
                and_then (cloned_files L F Ds F' artifact root quota_bytes m files) (\<lambda>files.
                Inr (root, BackScratch owner root files quota_bytes)))))"
  show thesis
  proof (cases ?checks)
    case (Inl e)
    with assms Inr x r show thesis by (intro refused) (auto simp: clone_exact_input_to_scratch_def)
  next
    case ok: (Inr y)
    then obtain artifact owner root files quota files' where
      s: "scratch_backing L F access sg h' rv = Inr (owner, root, files, quota)"
      and c: "cloned_files L F Ds F' artifact root quota m files = Inr files'" and y: "y = (root, BackScratch owner root files' quota)"
      by (auto simp: res_simps)
    from s have b: "hm_get (rv_backings rv) h' = Some (BackScratch owner root files quota)" "files = []"
      by (auto simp: scratch_backing_def res_simps split: option.splits HostResourceBackingV1.splits)
    from assms Inr x r ok y have "rv' = rv\<lparr>rv_backings := hm_insert h' (BackScratch owner root files' quota) (rv_backings rv)\<rparr>"
      by (auto simp: clone_exact_input_to_scratch_def)
    with b c show thesis by (intro cloned) auto
  qed
qed

lemma quota_inv_clone:
  "quota_inv rv \<Longrightarrow> quota_inv (snd (snd (clone_exact_input_to_scratch L F Ds F' st access h h' objects rv)))"
proof -
  assume inv: "quota_inv rv"
  obtain result objects' rv' where s: "clone_exact_input_to_scratch L F Ds F' st access h h' objects rv = (result, objects', rv')"
    by (cases "clone_exact_input_to_scratch L F Ds F' st access h h' objects rv") auto
  then have "quota_inv rv'"
  proof (cases rule: clone_cases)
    case (cloned owner root quota m files artifact)
    from cloned_files_bounded [OF cloned(2)] show ?thesis
      unfolding cloned(3) by (intro quota_inv_insert [OF inv]) (simp add: within_quota_def private_part_def)
  qed (simp add: inv)
  with s show ?thesis by simp
qed

lemma filter_insert: "Q k \<Longrightarrow> filter (\<lambda>(s, _). Q s) (hm_insert k v files) = hm_insert k v (filter (\<lambda>(s, _). Q s) files)"
  by (induction files) (auto simp: hm_insert_def)

lemma delete_files_done:
  "delete_files L F removed root sels files = (Inr (), files') \<Longrightarrow> files' = filter (\<lambda>(s, _). s \<notin> set sels) files"
proof (induction L F removed root sels files rule: delete_files.induct)
  case (2 L F removed root sel rest files)
  then show ?case
    by (auto simp: Let_def hm_remove_def AList.delete_eq case_prod_unfold conj_commute eq_commute [of sel] split: option.splits sum.splits if_splits)
qed simp

lemma commit_file_size:
  assumes "commit_file L F D overlay root quota r sel identity previous = Inr pfile"
  shows "identity_size (pf_identity pfile) = identity_size identity"
proof -
  have written: "si_byte_count (pf_identity p) = si_byte_count identity"
    if "read_at L F q overlay identity quota = Inr bytes" and "write_private_file L D root sel e bytes g = Inr p" for q e g bytes p
    using read_at_size [OF that(1)] write_private_file_Inr(3) [OF that(2)] by simp
  show ?thesis using assms
    by (auto simp: commit_file_def identity_size_def content_changed_def res_simps split: option.splits if_splits dest: written)
qed

lemma commit_files_done:
  "commit_files L F Ds overlay root quota r observed facts files = (Inr facts', files') \<Longrightarrow> hm_wf files \<Longrightarrow> distinct (map fst observed) \<Longrightarrow>
     hm_wf files' \<and> total_size files' = total_size (filter (\<lambda>(s, _). s \<notin> fst ` set observed) files) + observed_size observed"
proof (induction L F Ds overlay root quota r observed facts files rule: commit_files.induct)
  case (2 L F Ds overlay root quota r sel identity rest facts files)
  from 2(2) obtain pfile where c: "commit_file L F (Ds sel) overlay root quota r sel identity (hm_get files sel) = Inr pfile"
    and rest: "commit_files L F Ds overlay root quota r rest
            (bt_insert sel (pf_generation pfile, si_digest (pf_identity pfile), si_byte_count (pf_identity pfile)) facts)
            (hm_insert sel pfile files) = (Inr facts', files')"
    by (auto split: sum.splits)
  have wf: "hm_wf (filter (\<lambda>(s, _). s \<notin> fst ` set rest) files)" 
    using hm_wf_retain [OF 2(3), of "\<lambda>s _. s \<notin> fst ` set rest"] by (simp add: hm_retain_def)
  have "total_size (filter (\<lambda>(s, _). s \<notin> fst ` set rest) (hm_insert sel pfile files)) =
      total_size (filter (\<lambda>(s, _). s \<notin> fst ` set ((sel, identity) # rest)) files) + identity_size identity"
    using 2(4) total_size_insert [OF wf] commit_file_size [OF c]
    by (subst filter_insert [where Q = "\<lambda>s. s \<notin> fst ` set rest"]) (auto simp: case_prod_unfold conj_commute)
  moreover from 2(1) [OF c rest] 2(3,4) hm_wf_insert
  have "hm_wf files' \<and> total_size files' = total_size (filter (\<lambda>(s, _). s \<notin> fst ` set rest) (hm_insert sel pfile files)) + observed_size rest"
    by simp
  ultimately show ?case by (simp add: observed_size_def)
qed (simp add: observed_size_def)

lemma reconcile_bounded:
  assumes "reconcile_private_overlay L F removed Ds overlay root quota r verbs files = (Inr facts, files')" and "hm_wf files"
  shows "hm_wf files' \<and> total_size files' \<le> unat quota"
proof -
  from assms(1) obtain observed files1 where o: "scan_regular_tree L F overlay quota = Inr observed"
    and d: "delete_files L F removed root (filter (\<lambda>selector. \<not> hm_contains observed selector) (hm_keys files)) files = (Inr (), files1)"
    and c: "commit_files L F Ds overlay root quota r observed [] files1 = (Inr facts, files')"
    by (auto simp: reconcile_private_overlay_def res_simps split: sum.splits prod.splits)
  note b = scan_regular_tree_bounded [OF o]
  from delete_files_done [OF d] have files1: "files1 = hm_retain (\<lambda>s _. hm_contains observed s) files"
    by (auto simp: hm_retain_def hm_keys_def case_prod_unfold intro!: filter_cong)
  have "filter (\<lambda>(s, _). s \<notin> fst ` set observed) files1 = []"
    by (auto simp: files1 hm_retain_def filter_empty_conv hm_contains_def map_of_eq_None_iff)
  with commit_files_done [OF c _ bt_distinct [OF b(1)]] b(2) assms(2) show ?thesis
    by (simp add: files1 total_size_def)
qed

lemma reconcile_mount_cases:
  assumes "reconcile_execution_mount L D access r mount (objects, rv) = (result, objects', rv')"
  obtains (unchanged) "rv' = rv"
  | (reconciled) backing root files quota files' where
      "hm_get (rv_backings rv) (mt_handle_ref mount) = Some backing" "private_part backing = Some (root, files, quota)"
      "reconcile_private_overlay L (rd_fs D) (rd_removed D (mt_handle_ref mount)) (rd_written D (mt_handle_ref mount))
         (mt_source_path mount) root quota r (mt_allowed_verbs mount) files = (result, files')"
      "rv' = rv\<lparr>rv_backings := hm_insert (mt_handle_ref mount) (with_files files' backing) (rv_backings rv)\<rparr>"
proof -
  let ?checks = "and_then (ok_or (hm_get (rv_backings rv) (mt_handle_ref mount)) (ResInvalid ''Execution world resource backing was revoked.'')) (\<lambda>backing.
         and_then (validate_owner L (backing_owner backing) access) (\<lambda>_. Inr backing))"
  show thesis
  proof (cases ?checks)
    case (Inl e)
    with assms show thesis by (intro unchanged) (auto simp: reconcile_execution_mount_def Let_def)
  next
    case (Inr backing)
    then have b: "hm_get (rv_backings rv) (mt_handle_ref mount) = Some backing" by (auto simp: res_simps)
    show thesis
    proof (cases "private_part backing")
      case None
      with assms Inr show thesis
        by (intro unchanged) (cases backing; auto simp: reconcile_execution_mount_def Let_def private_part_def split: prod.splits)
    next
      case (Some part)
      obtain root files quota where part: "part = (root, files, quota)" by (cases part) auto
      show thesis
      proof (cases "rv' = rv")
        case False
        obtain result1 files' where rec: "reconcile_private_overlay L (rd_fs D) (rd_removed D (mt_handle_ref mount)) (rd_written D (mt_handle_ref mount))
         (mt_source_path mount) root quota r (mt_allowed_verbs mount) files = (result1, files')" by fastforce
        from assms Inr Some part rec False
        have "result = result1 \<and> rv' = rv\<lparr>rv_backings := hm_insert (mt_handle_ref mount) (with_files files' backing) (rv_backings rv)\<rparr>"
          by (cases backing) (auto simp: reconcile_execution_mount_def Let_def private_part_def split: prod.splits sum.splits)
        with b Some part rec show thesis by (intro reconciled) auto
      qed (rule unchanged)
    qed
  qed
qed

lemma release_no_error: "release_mounts L D access r mounts obs err s = (Inr obs', s') \<Longrightarrow> err = None"
proof (induction L D access r mounts obs err s rule: release_mounts.induct)
  case (2 L D access r mount rest obs err s)
  obtain result o1 rv1 where m: "reconcile_execution_mount L D access r mount s = (result, o1, rv1)"
    by (cases "reconcile_execution_mount L D access r mount s") auto
  from 2(1) [OF m [symmetric] refl] 2(2) m show ?case by (auto split: sum.splits option.splits)
qed (auto split: option.splits)

lemma quota_inv_release:
  "release_mounts L D access r mounts obs err (objects, rv) = (Inr obs', objects', rv') \<Longrightarrow> quota_inv rv \<Longrightarrow> quota_inv rv'"
proof (induction mounts arbitrary: obs err objects rv)
  case Nil
  then show ?case by simp
next
  case (Cons mount mounts)
  obtain result o1 rv1 where m: "reconcile_execution_mount L D access r mount (objects, rv) = (result, o1, rv1)"
    by (cases "reconcile_execution_mount L D access r mount (objects, rv)") auto
  let ?rv2 = "rv1\<lparr>rv_world_leases := rv_world_leases rv1 |-| {|mt_handle_ref mount|},
            rv_exclusive_world_leases := rv_exclusive_world_leases rv1 |-| {|mt_handle_ref mount|}\<rparr>"
  let ?err = "case result of Inl e \<Rightarrow> (case err of None \<Rightarrow> Some e | Some first \<Rightarrow> Some first) | Inr _ \<Rightarrow> err"
  from Cons.prems(1) m obtain obs2 where rest: "release_mounts L D access r mounts obs2 ?err (o1, ?rv2) = (Inr obs', objects', rv')" by auto
  from release_no_error [OF rest] obtain facts where ok: "result = Inr facts" by (auto split: sum.splits option.splits)
  from m have "quota_inv rv1"
  proof (cases rule: reconcile_mount_cases)
    case unchanged
    then show ?thesis using Cons.prems(2) by simp
  next
    case (reconciled backing root files quota files')
    from quota_invD [OF Cons.prems(2) reconciled(1)] reconciled(2) have "hm_wf files" by (simp add: within_quota_def)
    from reconcile_bounded [OF reconciled(3) [unfolded ok] this] have "within_quota (with_files files' backing)"
      by (simp add: within_quota_with_files [OF reconciled(2)])
    then show ?thesis unfolding reconciled(4) by (rule quota_inv_insert [OF Cons.prems(2)])
  qed
  then show ?case by (intro Cons.IH [OF rest]) simp
qed

lemma quota_inv_purge:
  assumes "quota_inv rv"
  shows "quota_inv (snd (resolver_purge_run run rv))" "quota_inv (snd (resolver_purge_bridge bridge rv))" "quota_inv (snd (resolver_purge_all rv))"
  using assms by (auto simp: resolver_purge_run_def resolver_purge_bridge_def resolver_purge_all_def purge_owned_def purge_handles_def
    quota_inv_def hm_values_def hm_retain_def)

lemma quota_inv_records:
  assumes "quota_inv rv"
  shows "quota_inv (snd (stage_write_payload L st access h digest bytes rv))" "quota_inv (snd (take_read r rv))"
    "quota_inv (snd (discard_staged_write_payload L access h digest rv))"
    "quota_inv (snd (snd (lease_execution_world_mounts L D st access grants objects rv)))"
proof -
  show "quota_inv (snd (stage_write_payload L st access h digest bytes rv))"
    using assms by (simp add: stage_write_payload_def split: sum.split prod.split)
  show "quota_inv (snd (take_read r rv))" using assms by (simp add: take_read_def)
  show "quota_inv (snd (discard_staged_write_payload L access h digest rv))"
    using assms by (simp add: discard_staged_write_payload_def Let_def split: sum.split option.split)
  show "quota_inv (snd (snd (lease_execution_world_mounts L D st access grants objects rv)))"
    using assms by (auto simp: lease_execution_world_mounts_def Let_def split: sum.split prod.split)
qed

definition sound_step :: "lib \<Rightarrow> ManagedResourceResolverV1 \<Rightarrow> ManagedResourceResolverV1 \<Rightarrow> bool" where
  "sound_step L rv rv' \<longleftrightarrow> (\<exists>l. resolver_step L l rv rv' \<and> (\<forall>hs. l \<noteq> LabRelease hs True))"

lemma quota_inv_step: "sound_step L rv rv' \<Longrightarrow> quota_inv rv \<Longrightarrow> quota_inv rv'"
proof -
  assume "sound_step L rv rv'" and inv: "quota_inv rv"
  then obtain l where "resolver_step L l rv rv'" and ok: "\<forall>hs. l \<noteq> LabRelease hs True" by (auto simp: sound_step_def)
  then show "quota_inv rv'"
  proof cases
    case (step_release RD access r mounts objects result objects')
    with ok obtain facts where "result = Inr facts" by (auto simp: is_ok_iff)
    with step_release inv show ?thesis by (auto simp: release_execution_world_mounts_def intro: quota_inv_release)
  qed (simp_all add: inv quota_inv_binds quota_inv_clone quota_inv_records quota_inv_apply quota_inv_seal quota_inv_register quota_inv_purge)
qed

lemma quota_inv_init: "resolver_init rv \<Longrightarrow> quota_inv rv"
  by (auto simp: resolver_init_def ManagedResourceResolverV1_new_def quota_inv_def hm_values_def)

interpretation quotas: guarded_machine resolver_init "sound_step L" quota_inv
  by unfold_locales (auto intro: quota_inv_init quota_inv_step)

end
