(* ===== verification/Execution_Worlds.thy ===== *)
theory Execution_Worlds
  imports Resource_Invariants
begin

text \<open>
  Execution worlds, \<^verbatim>\<open>src-tauri/src/execution_world.rs\<close>: a world is provisioned for the run that owns it, invocations of
  processes are staged in it, and an authorized spawn runs exactly one staged invocation to its end.

  The platform (a trait object in the source) is an argument: what it says of its availability, how it prepares the
  mounts, whether a process starts, what each poll of the process shows and what it writes. Other threads may end
  worlds while a process runs; \<open>sr_during\<close> is what they do to the state meanwhile.
\<close>

section \<open>Data\<close>

definition MAX_ARGUMENTS :: nat where "MAX_ARGUMENTS = 256"
definition MAX_ARGUMENT_BYTES :: nat where "MAX_ARGUMENT_BYTES = 64 * 1024"
definition MAX_ENV_BINDINGS :: nat where "MAX_ENV_BINDINGS = 128"
definition MAX_ENV_BYTES :: nat where "MAX_ENV_BYTES = 64 * 1024"
definition MAX_STDIN_BYTES :: nat where "MAX_STDIN_BYTES = 1024 * 1024"
definition MAX_MODEL_PROCESS_EXCERPT_BYTES :: nat where "MAX_MODEL_PROCESS_EXCERPT_BYTES = 4 * 1024"

datatype PlatformWorldKindV1 = MacOsSandboxExec | LinuxBubblewrapCgroupV2 | WindowsCodexSandbox | Unsupported

record ExecutionWorldAvailabilityV1 =
  av_kind :: PlatformWorldKindV1
  av_available :: bool
  av_identity_digest :: string
  av_verified_properties :: "ConfinementPropertyV1 fset"

text \<open>The environment is a \<^verbatim>\<open>BTreeMap\<close>: its bindings in the order of the names.\<close>

record ManagedProcessInvocationV1 =
  pi_executable_handle :: ResourceHandleRefV1
  pi_argv :: "string list"
  pi_environment :: "(string \<times> string) list"
  pi_stdin :: "byte list option"
  pi_working_directory_handle :: "ResourceHandleRefV1 option"
  pi_working_directory_selector :: "string option"

record WorldOwnerV1 =
  wo_envelope_ref :: EffectEnvelopeRefV1
  wo_run_ref :: ManagedRunRefV1
  wo_context_ref :: AuthorityContextRefV1
  wo_bridge_id :: string
  wo_session_binding_ref :: string

record ProvisionedWorldV1 =
  wd_owner :: WorldOwnerV1
  wd_grant :: ExecutionWorldGrantV1
  wd_access :: ManagedResourceAccessV1
  wd_availability :: ExecutionWorldAvailabilityV1
  wd_mounts :: "ExecutionWorldMountV1 list"
  wd_resource_identity_refs :: "(ResourceHandleRefV1, string) hmap"
  wd_invocations :: "(string, ManagedProcessInvocationV1) hmap"
  wd_revoked :: bool

record StreamCaptureV1 =
  sc_bytes :: u64
  sc_exceeded :: bool
  sc_digest :: "string option"
  sc_excerpt :: "byte list"

record TerminalObservationV1 =
  to_state :: string
  to_exit_code :: "int option"
  to_termination_requested :: bool

record ManagedProcessV1 =
  mp_owner :: WorldOwnerV1
  mp_world_ref :: ExecutionWorldRefV1
  mp_world_identity_digest :: string
  mp_executable_identity_ref :: string
  mp_argv_digest :: string
  mp_environment_digest :: string
  mp_process_ref :: string
  mp_memory_bytes_limit :: u64
  mp_write_bytes_limit :: u64
  mp_mounts :: "ExecutionWorldMountV1 list"

record CompletedProcessObservationV1 =
  po_owner :: WorldOwnerV1
  po_state :: string
  po_exit_code :: "int option"
  po_stdout_excerpt :: "byte list"
  po_stdout_truncated :: bool
  po_stderr_excerpt :: "byte list"
  po_stderr_truncated :: bool
  po_duration_millis :: u64

record ExecutionWorldStateV1 =
  es_worlds :: "(ExecutionWorldRefV1, ProvisionedWorldV1) hmap"
  es_processes :: "(string, ManagedProcessV1) hmap"
  es_completed :: "(EffectRequestIdV1, CompletedProcessObservationV1) hmap"
  es_next_process_nonce :: u64

definition ExecutionWorldStateV1_default :: ExecutionWorldStateV1 where
  "ExecutionWorldStateV1_default = \<lparr>es_worlds = [], es_processes = [], es_completed = [], es_next_process_nonce = 0\<rparr>"

section \<open>Invocations\<close>

definition environment_json :: "(string \<times> string) list \<Rightarrow> json" where
  "environment_json env = JObj (map (\<lambda>(name, value). (name, JStr value)) env)"

definition argv_digest :: "lib \<Rightarrow> ManagedProcessInvocationV1 \<Rightarrow> string" where
  "argv_digest L invocation = resource_domain_hash L ''pastey-process-argv-v1'' (jlist JStr (pi_argv invocation))"

definition environment_digest :: "lib \<Rightarrow> ManagedProcessInvocationV1 \<Rightarrow> string" where
  "environment_digest L invocation =
     resource_domain_hash L ''pastey-process-environment-v1'' (environment_json (pi_environment invocation))"

definition stdin_digest :: "lib \<Rightarrow> ManagedProcessInvocationV1 \<Rightarrow> string option" where
  "stdin_digest L invocation = map_option (\<lambda>bytes. resource_domain_hash L ''pastey-process-stdin-v1''
     (jlist (\<lambda>b. JInt (int (unat b))) bytes)) (pi_stdin invocation)"

definition invocation_key ::
  "lib \<Rightarrow> ResourceHandleRefV1 \<Rightarrow> string \<Rightarrow> string \<Rightarrow> string option \<Rightarrow> ResourceHandleRefV1 option \<Rightarrow> string option \<Rightarrow> string" where
  "invocation_key L executable argv environment stdin cwd_handle cwd_selector =
     resource_domain_hash L ''pastey-process-invocation-key-v1''
       (JArr [JStr executable, JStr argv, JStr environment, jopt JStr stdin, jopt JStr cwd_handle, jopt JStr cwd_selector])"

text \<open>The key of an invocation under its own digests.\<close>

definition own_key :: "lib \<Rightarrow> ManagedProcessInvocationV1 \<Rightarrow> string" where
  "own_key L invocation = invocation_key L (pi_executable_handle invocation) (argv_digest L invocation)
     (environment_digest L invocation) (stdin_digest L invocation) (pi_working_directory_handle invocation)
     (pi_working_directory_selector invocation)"

definition ascii_upper :: "char \<Rightarrow> char" where
  "ascii_upper c = (let b = (of_char c :: nat) in if 97 \<le> b \<and> b \<le> 122 then char_of (b - 32) else c)"

definition to_ascii_uppercase :: "string \<Rightarrow> string" where
  "to_ascii_uppercase s = map ascii_upper s"

definition name_char :: "char \<Rightarrow> bool" where
  "name_char c = (let b = (of_char c :: nat) in
     b = 95 \<or> 48 \<le> b \<and> b \<le> 57 \<or> 65 \<le> b \<and> b \<le> 90 \<or> 97 \<le> b \<and> b \<le> 122)"

fun contains_str :: "string \<Rightarrow> string \<Rightarrow> bool" where
  "contains_str needle [] = (needle = [])"
| "contains_str needle (c # s) = (prefix needle (c # s) \<or> contains_str needle s)"

definition reserved_names :: "string list" where
  "reserved_names = [''HOME'', ''PATH'', ''PATHEXT'', ''TMP'', ''TEMP'', ''TMPDIR'', ''USERPROFILE'', ''HOMEDRIVE'', ''HOMEPATH'',
     ''APPDATA'', ''LOCALAPPDATA'', ''PROGRAMDATA'', ''COMSPEC'', ''SYSTEMROOT'', ''WINDIR'', ''SSH_AUTH_SOCK'', ''PSMODULEPATH'']"

definition unsafe_binding :: "string \<times> string \<Rightarrow> bool" where
  "unsafe_binding = (\<lambda>(name, value). let upper = to_ascii_uppercase name in
     name = [] \<or> contains_char (CHR ''='') name \<or> contains_char (CHR 0x00) name \<or> contains_char (CHR 0x00) value
     \<or> \<not> list_all name_char name \<or> upper \<in> set reserved_names
     \<or> contains_str ''TOKEN'' upper \<or> contains_str ''SECRET'' upper \<or> contains_str ''PASSWORD'' upper
     \<or> suffix ''_KEY'' upper \<or> starts_with ''LD_'' upper \<or> starts_with ''DYLD_'' upper)"

text \<open>\<^verbatim>\<open>insert\<close> returns false for a name that occurred before in another case.\<close>

fun environment_unsafe :: "string list \<Rightarrow> (string \<times> string) list \<Rightarrow> bool" where
  "environment_unsafe seen [] = False"
| "environment_unsafe seen (binding # rest) =
     (let upper = to_ascii_uppercase (fst binding) in
      unsafe_binding binding \<or> upper \<in> set seen \<or> environment_unsafe (upper # seen) rest)"

definition world_validate_selector :: "string \<Rightarrow> resource_error + unit" where
  "world_validate_selector selector =
     (if selector = ''.'' then Inr ()
      else ensure (\<not> (selector = [] \<or> contains_char (CHR 0x00) selector \<or> contains_char (CHR 0x5C) selector
          \<or> is_absolute selector \<or> list_ex (\<lambda>c. \<not> is_normal c) (path_components selector)))
        (ResInvalid ''Execution world selector must be normalized and handle-relative.''))"

definition invocation_too_large :: "ManagedProcessInvocationV1 \<Rightarrow> bool" where
  "invocation_too_large invocation \<longleftrightarrow>
     length (pi_argv invocation) > MAX_ARGUMENTS \<or> sum_list (map length (pi_argv invocation)) > MAX_ARGUMENT_BYTES
     \<or> length (pi_environment invocation) > MAX_ENV_BINDINGS
     \<or> sum_list (map (\<lambda>(name, value). length name + length value) (pi_environment invocation)) > MAX_ENV_BYTES
     \<or> (case pi_stdin invocation of None \<Rightarrow> False | Some bytes \<Rightarrow> length bytes > MAX_STDIN_BYTES)
     \<or> list_ex (\<lambda>value. contains_char (CHR 0x00) value \<or> has_control value) (pi_argv invocation)"

definition validate_invocation :: "ManagedProcessInvocationV1 \<Rightarrow> resource_error + unit" where
  "validate_invocation invocation =
     and_then (ensure (\<not> invocation_too_large invocation)
       (ResInvalid ''Managed process invocation exceeds structural bounds.'')) (\<lambda>_.
     and_then (ensure (\<not> environment_unsafe [] (pi_environment invocation))
       (ResInvalid ''Managed process environment binding is unsafe.'')) (\<lambda>_.
     and_then (ensure ((pi_working_directory_handle invocation \<noteq> None) = (pi_working_directory_selector invocation \<noteq> None))
       (ResInvalid ''Managed process working directory binding is incomplete.'')) (\<lambda>_.
     case pi_working_directory_selector invocation of None \<Rightarrow> Inr () | Some selector \<Rightarrow> world_validate_selector selector)))"

section \<open>Owners\<close>

definition validate_world_owner :: "lib \<Rightarrow> WorldOwnerV1 \<Rightarrow> ManagedResourceAccessV1 \<Rightarrow> resource_error + unit" where
  "validate_world_owner L owner access =
     (if wo_envelope_ref owner \<noteq> ma_envelope_ref access \<or> wo_run_ref owner \<noteq> ma_run_control_ref access
      then Inl (ResInvalid ''Execution world owner context was substituted.'')
      else and_then (access_context_ref L access) (\<lambda>context_ref.
        ensure (wo_context_ref owner = context_ref) (ResInvalid ''Execution world owner context was substituted.'')))"

definition process_request_owner :: "lib \<Rightarrow> WorldOwnerV1 \<Rightarrow> EffectRequestV1 \<Rightarrow> resource_error + unit" where
  "process_request_owner L owner request =
     (if wo_envelope_ref owner \<noteq> rq_envelope_ref request \<or> wo_run_ref owner \<noteq> rq_run_control_ref request
      then Inl (ResInvalid ''Managed process request context was substituted.'')
      else and_then (map_err ResAuthority (AuthorityContextV1_context_ref L (rq_context request))) (\<lambda>context_ref.
        ensure (wo_context_ref owner = context_ref) (ResInvalid ''Managed process request context was substituted.'')))"

definition required_properties :: "ConfinementPropertyV1 fset" where
  "required_properties = {|AuthorizedResourceProjection, AuthorityNeutralEnvironment, ExplicitProcessIo,
     PlatformSandboxedProcess, CancellableProcessSession, NoRawNetwork|}"

section \<open>Provisioning and staging\<close>

definition world_topology :: "ExecutionWorldGrantV1 \<Rightarrow> ResourceGrantV1 list \<Rightarrow> bool" where
  "world_topology grant grants \<longleftrightarrow>
     wg_mounted_resources grant |\<union>| wg_executable_resources grant = fset_of_list (map rg_handle_ref grants)
     \<and> \<not> list_ex (\<lambda>resource. (rg_handle_ref resource |\<in>| wg_executable_resources grant) \<noteq> (rg_kind resource = Executable)) grants"

definition provision_checks ::
  "lib \<Rightarrow> ExecutionWorldAvailabilityV1 \<Rightarrow> EffectAuthorityStateV1 \<Rightarrow> ManagedResourceAccessV1 \<Rightarrow> ExecutionWorldRefV1
   \<Rightarrow> resource_error + ExecutionWorldGrantV1 \<times> ResourceGrantV1 list" where
  "provision_checks L availability authority access world_ref =
     and_then (map_err ResAuthority (validate_execution_world_attachment L world_ref (ma_envelope_ref access)
       (ma_run_control_ref access) (ma_context access) (ma_current access) authority)) (\<lambda>(grant, grants).
     and_then (ensure (\<not> (\<not> av_available availability \<or> av_identity_digest availability \<noteq> wg_world_identity_digest grant
         \<or> \<not> required_properties |\<subseteq>| av_verified_properties availability
         \<or> \<not> required_properties |\<subseteq>| wg_required_properties grant))
       (ResInvalid ''Required platform execution-world confinement is unavailable.'')) (\<lambda>_.
     and_then (ensure (world_topology grant grants)
       (ResInvalid ''Execution world resource topology is mismatched.'')) (\<lambda>_.
     Inr (grant, grants))))"

definition world_owner :: "lib \<Rightarrow> ManagedResourceAccessV1 \<Rightarrow> resource_error + WorldOwnerV1" where
  "world_owner L access =
     and_then (access_context_ref L access) (\<lambda>context_ref.
     Inr \<lparr>wo_envelope_ref = ma_envelope_ref access, wo_run_ref = ma_run_control_ref access, wo_context_ref = context_ref,
       wo_bridge_id = ctx_bridge_id (ma_context access), wo_session_binding_ref = ctx_session_binding_ref (ma_context access)\<rparr>)"

text \<open>The platform: its availability, and the mounts it prepares from those leased.\<close>

record platform =
  plat_availability :: ExecutionWorldAvailabilityV1
  plat_prepare :: "ExecutionWorldRefV1 \<Rightarrow> ExecutionWorldMountV1 list \<Rightarrow> file_error + ExecutionWorldMountV1 list"

type_synonym world_parts = "ManagedObjectBindingService \<times> ManagedResourceResolverV1 \<times> ExecutionWorldStateV1"

text \<open>Mounts of a world that cannot be set up are released again, whatever that yields; \<open>fresh\<close> is the synthetic
  request identifier.\<close>

definition give_back ::
  "lib \<Rightarrow> release_disk \<Rightarrow> EffectRequestIdV1 \<Rightarrow> ManagedResourceAccessV1 \<Rightarrow> ExecutionWorldMountV1 list
   \<Rightarrow> ManagedObjectBindingService \<times> ManagedResourceResolverV1 \<Rightarrow> ManagedObjectBindingService \<times> ManagedResourceResolverV1" where
  "give_back L RD fresh access mounts s = snd (release_execution_world_mounts L RD access fresh mounts s)"

definition provision_world ::
  "lib \<Rightarrow> platform \<Rightarrow> lease_disk \<Rightarrow> release_disk \<Rightarrow> EffectRequestIdV1 \<Rightarrow> EffectAuthorityStateV1 \<Rightarrow> ManagedResourceAccessV1
   \<Rightarrow> ExecutionWorldRefV1 \<Rightarrow> world_parts \<Rightarrow> (resource_error + unit) \<times> world_parts" where
  "provision_world L P LD RD fresh authority access world_ref = (\<lambda>(objects, rv, es).
     case provision_checks L (plat_availability P) authority access world_ref of
       Inl e \<Rightarrow> (Inl e, objects, rv, es)
     | Inr (grant, grants) \<Rightarrow>
         (case lease_execution_world_mounts L LD authority access grants objects rv of
            (Inl e, objects, rv) \<Rightarrow> (Inl e, objects, rv, es)
          | (Inr leased, objects, rv) \<Rightarrow>
              (case plat_prepare P world_ref leased of
                 Inl e \<Rightarrow> (case give_back L RD fresh access leased (objects, rv) of (objects, rv) \<Rightarrow> (Inl (ResFile e), objects, rv, es))
               | Inr mounts \<Rightarrow>
                   (case world_owner L access of
                      Inl e \<Rightarrow> (Inl e, objects, rv, es)
                    | Inr owner \<Rightarrow>
                        if hm_contains (es_worlds es) world_ref
                        then (case give_back L RD fresh access mounts (objects, rv) of (objects, rv) \<Rightarrow>
                          (Inl (ResInvalid ''Execution world is already provisioned.''), objects, rv, es))
                        else (Inr (), objects, rv, es\<lparr>es_worlds := hm_insert world_ref
                          \<lparr>wd_owner = owner, wd_grant = grant, wd_access = access, wd_availability = plat_availability P,
                           wd_mounts = mounts,
                           wd_resource_identity_refs = foldl (\<lambda>m g. hm_insert (rg_handle_ref g) (rg_safe_identity_ref g) m) [] grants,
                           wd_invocations = [], wd_revoked = False\<rparr> (es_worlds es)\<rparr>)))))"

definition staging_mismatch :: "lib \<Rightarrow> ManagedProcessInvocationV1 \<Rightarrow> ProvisionedWorldV1 \<Rightarrow> bool" where
  "staging_mismatch L invocation world \<longleftrightarrow>
     wd_revoked world \<or> pi_executable_handle invocation |\<notin>| wg_executable_resources (wd_grant world)
     \<or> (case pi_working_directory_handle invocation of None \<Rightarrow> False
        | Some handle \<Rightarrow> handle |\<notin>| wg_mounted_resources (wd_grant world))
     \<or> hm_contains (wd_invocations world) (own_key L invocation)"

definition stage_invocation ::
  "lib \<Rightarrow> ManagedResourceAccessV1 \<Rightarrow> ExecutionWorldRefV1 \<Rightarrow> ManagedProcessInvocationV1 \<Rightarrow> ExecutionWorldStateV1
   \<Rightarrow> (resource_error + string \<times> string \<times> string option) \<times> ExecutionWorldStateV1" where
  "stage_invocation L access world_ref invocation es =
     (case and_then (validate_invocation invocation) (\<lambda>_.
         and_then (ok_or (hm_get (es_worlds es) world_ref) (ResInvalid ''Execution world is unavailable.'')) (\<lambda>world.
         and_then (validate_world_owner L (wd_owner world) access) (\<lambda>_.
         and_then (ensure (\<not> staging_mismatch L invocation world)
           (ResInvalid ''Process invocation widens or duplicates its execution world.'')) (\<lambda>_.
         Inr (world\<lparr>wd_invocations := hm_insert (own_key L invocation) invocation (wd_invocations world)\<rparr>))))) of
        Inl e \<Rightarrow> (Inl e, es)
      | Inr world \<Rightarrow> (Inr (argv_digest L invocation, environment_digest L invocation, stdin_digest L invocation),
          es\<lparr>es_worlds := hm_insert world_ref world (es_worlds es)\<rparr>))"

section \<open>Watching a process\<close>

text \<open>\<^verbatim>\<open>start_capture\<close> on the chunks the process wrote: at most \<open>cap\<close> bytes count and are hashed, the first of them are kept
  for display. A stream that did not end in time has no digest yet.\<close>

fun capture_loop :: "nat \<Rightarrow> byte list \<Rightarrow> byte list \<Rightarrow> bool \<Rightarrow> byte list list \<Rightarrow> byte list \<times> byte list \<times> bool" where
  "capture_loop cap hashed excerpt exceeded [] = (hashed, excerpt, exceeded)"
| "capture_loop cap hashed excerpt exceeded (chunk # rest) =
     (if chunk = [] then (hashed, excerpt, exceeded)
      else let accepted = min (length chunk) (cap - length hashed);
               kept = min accepted (MAX_MODEL_PROCESS_EXCERPT_BYTES - length excerpt) in
        capture_loop cap (hashed @ take accepted chunk) (excerpt @ take kept chunk)
          (exceeded \<or> accepted < length chunk) rest)"

definition start_capture :: "lib \<Rightarrow> u64 \<Rightarrow> byte list list \<Rightarrow> bool \<Rightarrow> StreamCaptureV1" where
  "start_capture L cap chunks finished =
     (case capture_loop (unat cap) [] [] False chunks of (hashed, excerpt, exceeded) \<Rightarrow>
       \<lparr>sc_bytes = of_nat (length hashed), sc_exceeded = exceeded,
        sc_digest = (if finished then Some (blake3_hex L hashed) else None), sc_excerpt = excerpt\<rparr>)"

definition saturating_add :: "u64 \<Rightarrow> u64 \<Rightarrow> u64" where
  "saturating_add a b = (case checked_add a b of None \<Rightarrow> - 1 | Some c \<Rightarrow> c)"

text \<open>The bytes below a node, or none when something other than directories and regular files lies there. The source
  walks with a stack, adding up with saturation, which no order changes.\<close>

fun node_bytes :: "fs_node \<Rightarrow> u64 option" where
  "node_bytes (FileNode f) = Some (fp_byte_count (of_before f))"
| "node_bytes (DirNode es) = foldr (\<lambda>x acc. case (x, acc) of (Some a, Some b) \<Rightarrow> Some (saturating_add a b) | _ \<Rightarrow> None)
     (map (\<lambda>(_, child). node_bytes child) es) (Some 0)"
| "node_bytes SymlinkNode = None"
| "node_bytes SpecialNode = None"

fun written_growth :: "host_fs \<Rightarrow> u64 \<Rightarrow> u64 \<Rightarrow> ExecutionWorldMountV1 list \<Rightarrow> u64" where
  "written_growth F limit growth [] = growth"
| "written_growth F limit growth (mount # rest) =
     (case Option.bind (hf_node F (mt_source_path mount)) node_bytes of
        None \<Rightarrow> - 1
      | Some total_bytes \<Rightarrow>
          let growth = saturating_add growth (saturating_sub total_bytes (mt_initial_bytes mount)) in
          if growth > limit then growth else written_growth F limit growth rest)"

definition mounted_write_bytes :: "host_fs \<Rightarrow> ManagedProcessV1 \<Rightarrow> u64" where
  "mounted_write_bytes F process = written_growth F (mp_write_bytes_limit process) 0
     (filter (\<lambda>mount. mt_writable mount \<and> mt_private_overlay mount) (mp_mounts process))"

text \<open>One poll of a process: whether its streams exceeded their share, whether the deadline passed, what \<^verbatim>\<open>try_wait\<close>
  answers, whether it was cancelled, its resident memory, and the disk.\<close>

datatype exit_status = ExitCode int | ExitSignal int

record poll =
  pl_exceeded :: bool
  pl_expired :: bool
  pl_status :: "file_error + exit_status option"
  pl_cancelled :: bool
  pl_resident :: "u64 option"
  pl_fs :: host_fs

definition SIGXCPU :: int where "SIGXCPU = 24"
definition SIGXFSZ :: int where "SIGXFSZ = 25"

definition exit_budget_state :: "exit_status \<Rightarrow> string option" where
  "exit_budget_state status = (case status of
     ExitSignal signal \<Rightarrow> if signal = SIGXFSZ then Some ''resource_budget_exceeded''
       else if signal = SIGXCPU then Some ''cpu_budget_exceeded'' else None
   | ExitCode _ \<Rightarrow> None)"

definition exit_state :: "poll \<Rightarrow> bool \<Rightarrow> bool \<Rightarrow> exit_status \<Rightarrow> string" where
  "exit_state p memory_exceeded resource_exceeded status =
     (if pl_exceeded p then ''output_budget_exceeded''
      else if memory_exceeded then ''memory_budget_exceeded''
      else if resource_exceeded then ''resource_budget_exceeded''
      else if pl_expired p then ''wall_time_expired''
      else if pl_cancelled p then ''cancelled''
      else case exit_budget_state status of
        Some budget_state \<Rightarrow> budget_state
      | None \<Rightarrow> if status = ExitCode 0 then ''exited'' else ''failed'')"

definition exit_code :: "exit_status \<Rightarrow> int option" where
  "exit_code status = (case status of ExitCode code \<Rightarrow> Some code | ExitSignal _ \<Rightarrow> None)"

definition over_memory :: "ManagedProcessV1 \<Rightarrow> poll \<Rightarrow> bool" where
  "over_memory process p = (case pl_resident p of None \<Rightarrow> False | Some bytes \<Rightarrow> bytes > mp_memory_bytes_limit process)"

definition over_writes :: "ManagedProcessV1 \<Rightarrow> poll \<Rightarrow> bool" where
  "over_writes process p \<longleftrightarrow> mounted_write_bytes (pl_fs p) process > mp_write_bytes_limit process"

text \<open>\<^verbatim>\<open>monitor_process\<close> over the polls that took place; no observation when none of them saw the end.\<close>

fun monitor_process :: "ManagedProcessV1 \<Rightarrow> bool \<Rightarrow> bool \<Rightarrow> bool \<Rightarrow> poll list \<Rightarrow> TerminalObservationV1 option" where
  "monitor_process process memory_exceeded resource_exceeded termination_requested [] = None"
| "monitor_process process memory_exceeded resource_exceeded termination_requested (p # ps) =
     (case pl_status p of
        Inl _ \<Rightarrow> Some \<lparr>to_state = ''indeterminate'', to_exit_code = None, to_termination_requested = True\<rparr>
      | Inr (Some status) \<Rightarrow> Some \<lparr>to_state = exit_state p memory_exceeded resource_exceeded status,
          to_exit_code = exit_code status, to_termination_requested = termination_requested\<rparr>
      | Inr None \<Rightarrow>
          let memory_exceeded = (memory_exceeded \<or> over_memory process p);
              resource_exceeded = (resource_exceeded \<or> over_writes process p);
              termination_requested = (termination_requested \<or> pl_exceeded p \<or> pl_expired p \<or> memory_exceeded
                \<or> resource_exceeded \<or> pl_cancelled p) in
          monitor_process process memory_exceeded resource_exceeded termination_requested ps)"

section \<open>Running a process\<close>

text \<open>Everything outside that a spawn or a signal depends on: the clock and the disk when it starts, whether the process
  starts and takes its input, the polls that are made while it is waited for, what it writes, what other threads do to the
  worlds while the lock is free (once the invocation is taken, once the process is recorded, while it is waited for), and the disk at the release.\<close>

record process_run =
  sr_now :: int
  sr_fs :: host_fs
  sr_spawned :: "file_error + unit"
  sr_stdin :: "file_error + unit"
  sr_polls :: "poll list"
  sr_stdout :: "byte list list \<times> bool"
  sr_stderr :: "byte list list \<times> bool"
  sr_duration :: u64
  sr_taken :: "ExecutionWorldStateV1 \<Rightarrow> ExecutionWorldStateV1"
  sr_start :: "ExecutionWorldStateV1 \<Rightarrow> ExecutionWorldStateV1"
  sr_during :: "ExecutionWorldStateV1 \<Rightarrow> ExecutionWorldStateV1"
  sr_release :: release_disk

definition resolve_working_directory ::
  "host_fs \<Rightarrow> ExecutionWorldMountV1 list \<Rightarrow> ManagedProcessInvocationV1 \<Rightarrow> resource_error + path option" where
  "resolve_working_directory F mounts invocation =
     (case pi_working_directory_handle invocation of
        None \<Rightarrow> Inr None
      | Some handle \<Rightarrow>
          and_then (ok_or (pi_working_directory_selector invocation) (ResInvalid ''Working directory selector is missing.'')) (\<lambda>selector.
          and_then (world_validate_selector selector) (\<lambda>_.
          and_then (ok_or (find (\<lambda>mount. mt_handle_ref mount = handle \<and> mt_kind mount \<noteq> Executable) mounts)
            (ResInvalid ''Working directory handle is not mounted.'')) (\<lambda>mount.
          and_then (ok_or (hf_canonical F (mt_source_path mount)) (ResFile IoError)) (\<lambda>root.
          and_then (if selector = ''.'' then Inr root
            else ok_or (hf_canonical F (root @ path_components selector)) (ResFile IoError)) (\<lambda>candidate.
          and_then (ensure (\<not> (\<not> prefix root candidate \<or> (case hf_node F candidate of Some (DirNode _) \<Rightarrow> False | _ \<Rightarrow> True)))
            (ResInvalid ''Working directory escaped its mounted resource.'')) (\<lambda>_.
          Inr (Some candidate))))))))"

text \<open>\<^verbatim>\<open>(expires_at.saturating_sub(now)).saturating_mul(1_000) as u64\<close> on \<^verbatim>\<open>i64\<close>: the cast of a negative number
  wraps.\<close>

definition clamp_i64 :: "int \<Rightarrow> int" where
  "clamp_i64 x = max (- (2 ^ 63)) (min (2 ^ 63 - 1) x)"

definition remaining_millis :: "int \<Rightarrow> int \<Rightarrow> u64" where
  "remaining_millis expires_at now = word_of_int (clamp_i64 (clamp_i64 (expires_at - now) * 1000))"

text \<open>What a spawn takes from its world under the lock: the invocation is used up, the nonce advances.\<close>

definition take_invocation ::
  "lib \<Rightarrow> EffectRequestV1 \<Rightarrow> ExecutionWorldRefV1 \<Rightarrow> ResourceHandleRefV1 \<Rightarrow> string \<Rightarrow> ExecutionWorldStateV1
   \<Rightarrow> (resource_error + ProvisionedWorldV1 \<times> ManagedProcessInvocationV1 \<times> string \<times> string) \<times> ExecutionWorldStateV1" where
  "take_invocation L request world_ref executable_handle key es =
     (case checked_add (es_next_process_nonce es) 1 of
        None \<Rightarrow> (Inl (ResInvalid ''Managed process identity overflowed.''), es)
      | Some nonce \<Rightarrow>
          let es = es\<lparr>es_next_process_nonce := nonce\<rparr> in
          (case and_then (ok_or (hm_get (es_worlds es) world_ref) (ResInvalid ''Execution world is unavailable.'')) (\<lambda>world.
              and_then (process_request_owner L (wd_owner world) request) (\<lambda>_.
              and_then (ensure (\<not> wd_revoked world) (ResInvalid ''Execution world is revoked.'')) (\<lambda>_.
              and_then (ok_or (hm_get (wd_invocations world) key)
                (ResInvalid ''Exact staged process invocation is unavailable.'')) (\<lambda>invocation.
              Inr (world, invocation))))) of
             Inl e \<Rightarrow> (Inl e, es)
           | Inr (world, invocation) \<Rightarrow>
               let es = es\<lparr>es_worlds := hm_insert world_ref (world\<lparr>wd_invocations := hm_remove key (wd_invocations world)\<rparr>) (es_worlds es)\<rparr> in
               (and_then (ok_or (hm_get (wd_resource_identity_refs world) executable_handle)
                  (ResInvalid ''Executable resource identity is unavailable.'')) (\<lambda>identity.
                Inr (world, invocation, identity,
                  resource_domain_hash L ''pastey-contained-process-v1'' (JArr [JStr world_ref, JStr (rq_run_control_ref request),
                    JStr (rq_request_id request), ju64 nonce]))), es)))"

definition backend_kind :: "PlatformWorldKindV1 \<Rightarrow> bool" where
  "backend_kind kind \<longleftrightarrow> kind \<in> {MacOsSandboxExec, LinuxBubblewrapCgroupV2, WindowsCodexSandbox}"

text \<open>The checks between taking the invocation and a running process.\<close>

definition launch_checks ::
  "process_run \<Rightarrow> EffectRequestV1 \<Rightarrow> ProvisionedWorldV1 \<Rightarrow> ManagedProcessInvocationV1 \<Rightarrow> resource_error + unit" where
  "launch_checks R request world invocation = (let slice = rq_requested_budget_slice request in
     and_then (ensure (\<not> (\<not> backend_kind (av_kind (wd_availability world)) \<or> bg_process_spawns slice \<noteq> 1 \<or> bg_wall_millis slice = 0))
       (ResInvalid ''Contained process backend or reserved spawn budget is unavailable.'')) (\<lambda>_.
     let remaining = remaining_millis (wg_expires_at (wd_grant world)) (sr_now R) in
     and_then (ensure (\<not> (remaining = 0 \<or> bg_wall_millis slice > remaining))
       (ResInvalid ''Contained process wall budget exceeds world expiry.'')) (\<lambda>_.
     and_then (ok_or (find (\<lambda>mount. mt_handle_ref mount = pi_executable_handle invocation) (wd_mounts world))
       (ResInvalid ''Executable mount is unavailable.'')) (\<lambda>_.
     and_then (resolve_working_directory (sr_fs R) (wd_mounts world) invocation) (\<lambda>_.
     and_then (map_err ResFile (sr_spawned R)) (\<lambda>_.
     case pi_stdin invocation of None \<Rightarrow> Inr () | Some _ \<Rightarrow> map_err ResFile (sr_stdin R)))))))"

definition new_process ::
  "EffectRequestV1 \<Rightarrow> ExecutionWorldRefV1 \<Rightarrow> string \<Rightarrow> string \<Rightarrow> ProvisionedWorldV1 \<Rightarrow> string \<Rightarrow> string \<Rightarrow> ManagedProcessV1" where
  "new_process request world_ref argv environment world identity process_ref =
     (let slice = rq_requested_budget_slice request in
      \<lparr>mp_owner = wd_owner world, mp_world_ref = world_ref,
       mp_world_identity_digest = av_identity_digest (wd_availability world),
       mp_executable_identity_ref = identity, mp_argv_digest = argv, mp_environment_digest = environment,
       mp_process_ref = process_ref,
       mp_memory_bytes_limit = bg_memory_byte_millis slice div max (bg_wall_millis slice) 1,
       mp_write_bytes_limit = bg_write_bytes slice, mp_mounts = wd_mounts world\<rparr>)"

definition process_outcome ::
  "lib \<Rightarrow> ManagedProcessV1 \<Rightarrow> StreamCaptureV1 \<Rightarrow> StreamCaptureV1 \<Rightarrow> TerminalObservationV1 \<Rightarrow> string \<Rightarrow> string
   \<Rightarrow> BackendEffectOutcomeV1" where
  "process_outcome L process stdout stderr observation resource_effect_digest summary =
     \<lparr>bo_decision = Allowed, bo_actual_effect_summary = summary,
      bo_facts = FactContainedProcess (mp_world_ref process) (mp_process_ref process) (mp_world_identity_digest process)
        (mp_executable_identity_ref process) (mp_argv_digest process) (mp_environment_digest process)
        (to_state observation) (to_exit_code observation)
        (case sc_digest stdout of None \<Rightarrow> blake3_hex L [] | Some d \<Rightarrow> d) (sc_bytes stdout)
        (case sc_digest stderr of None \<Rightarrow> blake3_hex L [] | Some d \<Rightarrow> d) (sc_bytes stderr)
        (to_termination_requested observation) True resource_effect_digest\<rparr>"

definition effects_json :: "resource_facts \<Rightarrow> json" where
  "effects_json facts = JObj (map (\<lambda>(selector, generation, digest, bytes).
     (selector, JArr [ju64 generation, JStr digest, ju64 bytes])) facts)"

text \<open>What follows the end of a process: the world must still be there, its mounts are released under its access.\<close>

definition settle ::
  "lib \<Rightarrow> process_run \<Rightarrow> EffectRequestV1 \<Rightarrow> ManagedProcessV1 \<Rightarrow> world_parts
   \<Rightarrow> (resource_error + string) \<times> world_parts" where
  "settle L R request process = (\<lambda>(objects, rv, es).
     case hm_get (es_worlds es) (mp_world_ref process) of
       None \<Rightarrow> (Inl (ResInvalid ''Execution world was revoked.''), objects, rv, es)
     | Some world \<Rightarrow>
         (case release_execution_world_mounts L (sr_release R) (wd_access world) (rq_request_id request) (mp_mounts process) (objects, rv) of
            (result, objects, rv) \<Rightarrow>
              (and_then result (\<lambda>facts. Inr (resource_domain_hash L ''pastey-process-resource-effects-v1'' (effects_json facts))),
               objects, rv, es)))"

definition no_terminal :: resource_error where
  "no_terminal = ResInvalid ''Managed process session did not reach a terminal state reliably.''"

definition apply_spawn ::
  "lib \<Rightarrow> process_run \<Rightarrow> EffectRequestV1 \<Rightarrow> ExecutionWorldRefV1 \<Rightarrow> ResourceHandleRefV1 \<Rightarrow> string
   \<Rightarrow> ResourceHandleRefV1 option \<Rightarrow> string option \<Rightarrow> string \<Rightarrow> string option \<Rightarrow> world_parts
   \<Rightarrow> (resource_error + BackendEffectOutcomeV1) \<times> world_parts" where
  "apply_spawn L R request world_ref executable_handle argv cwd_handle cwd_selector environment stdin = (\<lambda>(objects, rv, es).
     case take_invocation L request world_ref executable_handle
         (invocation_key L executable_handle argv environment stdin cwd_handle cwd_selector) es of
       (Inl e, es) \<Rightarrow> (Inl e, objects, rv, es)
     | (Inr (world, invocation, identity, process_ref), es) \<Rightarrow>
         (case launch_checks R request world invocation of
            Inl e \<Rightarrow> (Inl e, objects, rv, es)
          | Inr _ \<Rightarrow>
              let process = new_process request world_ref argv environment world identity process_ref;
                  read_bytes = bg_read_bytes (rq_requested_budget_slice request); stdout_cap = read_bytes div 2;
                  stdout = start_capture L stdout_cap (fst (sr_stdout R)) (snd (sr_stdout R));
                  stderr = start_capture L (saturating_sub read_bytes stdout_cap) (fst (sr_stderr R)) (snd (sr_stderr R));
                  es = sr_taken R es;
                  es = sr_start R (es\<lparr>es_processes := hm_insert process_ref process (es_processes es)\<rparr>) in
              if \<not> hm_contains (es_processes es) process_ref
              then (Inl (ResInvalid ''Contained process was unavailable.''), objects, rv, es)
              else let es = sr_during R es in
              (case monitor_process process False False False (sr_polls R) of
                 None \<Rightarrow> (Inl no_terminal, objects, rv, es)
               | Some observation \<Rightarrow>
                   (case settle L R request process (objects, rv, es) of
                      (Inl e, parts) \<Rightarrow> (Inl e, parts)
                    | (Inr digest, objects, rv, es) \<Rightarrow>
                        (Inr (process_outcome L process stdout stderr observation digest ''contained_process_exited''), objects, rv,
                         es\<lparr>es_processes := hm_remove process_ref (es_processes es),
                            es_completed := hm_insert (rq_request_id request)
                              \<lparr>po_owner = mp_owner process, po_state = to_state observation, po_exit_code = to_exit_code observation,
                               po_stdout_excerpt = sc_excerpt stdout, po_stdout_truncated = sc_exceeded stdout,
                               po_stderr_excerpt = sc_excerpt stderr, po_stderr_truncated = sc_exceeded stderr,
                               po_duration_millis = sr_duration R\<rparr> (es_completed es)\<rparr>)))))"

definition take_completed_observation ::
  "lib \<Rightarrow> ManagedResourceAccessV1 \<Rightarrow> EffectRequestIdV1 \<Rightarrow> ExecutionWorldStateV1
   \<Rightarrow> (resource_error + CompletedProcessObservationV1 option) \<times> ExecutionWorldStateV1" where
  "take_completed_observation L access request_id es =
     (case hm_get (es_completed es) request_id of
        None \<Rightarrow> (Inr None, es)
      | Some observation \<Rightarrow>
          (case validate_world_owner L (po_owner observation) access of
             Inl e \<Rightarrow> (Inl e, es)
           | Inr _ \<Rightarrow> (Inr (Some observation), es\<lparr>es_completed := hm_remove request_id (es_completed es)\<rparr>)))"

text \<open>A signal waits for the end of a process another thread started; \<open>sr_polls\<close> are then the polls of its monitor, \<open>sr_stdout\<close>
  and \<open>sr_stderr\<close> what it captured under the caps of the spawn.\<close>

definition apply_signal ::
  "lib \<Rightarrow> process_run \<Rightarrow> u64 \<times> u64 \<Rightarrow> EffectRequestV1 \<Rightarrow> ExecutionWorldRefV1 \<Rightarrow> string \<Rightarrow> string \<Rightarrow> world_parts
   \<Rightarrow> (resource_error + BackendEffectOutcomeV1) \<times> world_parts" where
  "apply_signal L R caps request world_ref process_ref signal_ref = (\<lambda>(objects, rv, es).
     case and_then (ensure (signal_ref = ''terminate'' \<or> signal_ref = ''kill'') (ResInvalid ''Managed process signal is unsupported.'')) (\<lambda>_.
         and_then (ok_or (hm_get (es_processes es) process_ref) (ResInvalid ''Managed process is unavailable.'')) (\<lambda>process.
         and_then (process_request_owner L (mp_owner process) request) (\<lambda>_.
         and_then (ensure (mp_world_ref process = world_ref \<and> mp_process_ref process = process_ref)
           (ResInvalid ''Managed process world or identity was substituted.'')) (\<lambda>_.
         Inr process)))) of
       Inl e \<Rightarrow> (Inl e, objects, rv, es)
     | Inr process \<Rightarrow>
         let stdout = start_capture L (fst caps) (fst (sr_stdout R)) (snd (sr_stdout R));
             stderr = start_capture L (snd caps) (fst (sr_stderr R)) (snd (sr_stderr R)); es = sr_during R es in
         (case monitor_process process False False False (sr_polls R) of
            None \<Rightarrow> (Inl no_terminal, objects, rv, es)
          | Some observation \<Rightarrow>
              (case settle L R request process (objects, rv, es) of
                 (Inl e, parts) \<Rightarrow> (Inl e, parts)
               | (Inr digest, objects, rv, es) \<Rightarrow>
                   (Inr (process_outcome L process stdout stderr observation digest ''contained_process_signalled''), objects, rv,
                    es\<lparr>es_processes := hm_remove process_ref (es_processes es)\<rparr>))))"

section \<open>Ending worlds\<close>

definition run_is_quiescent :: "ManagedRunRefV1 \<Rightarrow> ExecutionWorldStateV1 \<Rightarrow> bool" where
  "run_is_quiescent run_ref es \<longleftrightarrow> \<not> list_ex (\<lambda>process. wo_run_ref (mp_owner process) = run_ref) (hm_values (es_processes es))"

definition world_run_refs_for_session :: "string \<Rightarrow> ExecutionWorldStateV1 \<Rightarrow> ManagedRunRefV1 fset" where
  "world_run_refs_for_session session_binding_ref es = fset_of_list (map (\<lambda>world. wo_run_ref (wd_owner world))
     (filter (\<lambda>world. wo_session_binding_ref (wd_owner world) = session_binding_ref) (hm_values (es_worlds es))))"

text \<open>\<^verbatim>\<open>terminate_matching\<close> takes the lock twice. First it marks the worlds and notes what to end; then, after it has waited for
  the processes, it removes what it noted from the state it finds.\<close>

definition mark_revoked :: "(WorldOwnerV1 \<Rightarrow> bool) \<Rightarrow> ExecutionWorldStateV1 \<Rightarrow> ExecutionWorldStateV1" where
  "mark_revoked P es = es\<lparr>es_worlds := hm_map_values (\<lambda>world. if P (wd_owner world) then world\<lparr>wd_revoked := True\<rparr> else world) (es_worlds es)\<rparr>"

definition matching_processes :: "(WorldOwnerV1 \<Rightarrow> bool) \<Rightarrow> ExecutionWorldStateV1 \<Rightarrow> string list" where
  "matching_processes P es = map mp_process_ref (filter (\<lambda>process. P (mp_owner process)) (hm_values (es_processes es)))"

definition matching_worlds :: "(WorldOwnerV1 \<Rightarrow> bool) \<Rightarrow> ExecutionWorldStateV1 \<Rightarrow> ExecutionWorldRefV1 list" where
  "matching_worlds P es = map fst (filter (\<lambda>(_, world). P (wd_owner world)) (es_worlds es))"

definition remove_ended ::
  "(WorldOwnerV1 \<Rightarrow> bool) \<Rightarrow> string list \<Rightarrow> ExecutionWorldRefV1 list \<Rightarrow> ExecutionWorldStateV1 \<Rightarrow> ExecutionWorldStateV1" where
  "remove_ended P processes worlds es =
     es\<lparr>es_processes := hm_retain (\<lambda>process_ref _. process_ref \<notin> set processes) (es_processes es),
        es_completed := hm_retain (\<lambda>_ observation. \<not> P (po_owner observation)) (es_completed es),
        es_worlds := hm_retain (\<lambda>world_ref _. world_ref \<notin> set worlds) (es_worlds es)\<rparr>"

definition terminate_matching ::
  "(WorldOwnerV1 \<Rightarrow> bool) \<Rightarrow> (ExecutionWorldStateV1 \<Rightarrow> ExecutionWorldStateV1) \<Rightarrow> ExecutionWorldStateV1 \<Rightarrow> nat \<times> ExecutionWorldStateV1" where
  "terminate_matching P during es =
     (length (matching_processes P es),
      remove_ended P (matching_processes P es) (matching_worlds P es) (during (mark_revoked P es)))"

definition terminate_run where "terminate_run run_ref = terminate_matching (\<lambda>owner. wo_run_ref owner = run_ref)"
definition terminate_bridge where "terminate_bridge bridge_id = terminate_matching (\<lambda>owner. wo_bridge_id owner = bridge_id)"
definition terminate_session where
  "terminate_session session_binding_ref = terminate_matching (\<lambda>owner. wo_session_binding_ref owner = session_binding_ref)"
definition terminate_all where "terminate_all = terminate_matching (\<lambda>_. True)"

section \<open>The backend\<close>

definition HostManagedProcessBackendV1_apply :: "lib \<Rightarrow> process_run \<Rightarrow> u64 \<times> u64 \<Rightarrow> world_parts HostEffectBackendV1" where
  "HostManagedProcessBackendV1_apply L R caps request parts =
     (case (case rq_effect request of
         EffProcess (Spawn world_ref executable_handle argv cwd_handle cwd_selector environment stdin) \<Rightarrow>
           apply_spawn L R request world_ref executable_handle argv cwd_handle cwd_selector environment stdin parts
       | EffProcess (Signal world_ref process_ref signal_ref) \<Rightarrow> apply_signal L R caps request world_ref process_ref signal_ref parts
       | _ \<Rightarrow> (Inr \<lparr>bo_decision = Unavailable, bo_actual_effect_summary = ''process_backend_has_no_resource_or_network'',
           bo_facts = FactNone\<rparr>, parts)) of
        (result, parts') \<Rightarrow>
          (Completed (case result of
             Inr outcome \<Rightarrow> outcome
           | Inl _ \<Rightarrow> \<lparr>bo_decision = Denied, bo_actual_effect_summary = ''contained_process_effect_denied'', bo_facts = FactNone\<rparr>), parts'))"

end
