(* ===== verification/Resource_Properties.thy ===== *)
theory Resource_Properties
  imports Resource_Invariants
begin

text \<open>
  What the resolver of managed resources guarantees: private files stay within their quota, evidence of a write says what the
  resolver holds, a sealed output does not change and is what gets registered; and one way the facts of a process
  fall short.
\<close>

section \<open>Quotas\<close>

lemma unat_sum_list: "sum_list (map unat ws) < 2 ^ 64 \<Longrightarrow> unat (sum_list ws) = sum_list (map unat ws)" for ws :: "u64 list"
  by (induction ws) (auto simp: unat_word_ariths)

lemma tracked_bytes_exact: "total_size files \<le> unat q \<Longrightarrow> unat (tracked_bytes files) = total_size files" for q :: u64
proof -
  have eq: "total_size files = sum_list (map unat (map (\<lambda>p. si_byte_count (pf_identity p)) (hm_values files)))"
    by (simp add: total_size_def identity_size_def hm_values_def comp_def case_prod_unfold)
  assume "total_size files \<le> unat q"
  with unsigned_less [of q, where ?'a = nat] show ?thesis
    unfolding tracked_bytes_def eq by (intro unat_sum_list) simp
qed

text \<open>C26. As long as no release of mounts fails half-way, whatever operations ran, in whatever order and with whatever
  arguments and answers of the disk, the files tracked for a private resource have distinct selectors, together they
  stay within its quota, and the unchecked 64-bit sum over them that sealing uses does not wrap.\<close>

theorem private_files_within_quota:
  assumes "resolver_init rv0" and "rtranclp (sound_step L) rv0 rv"
    and "hm_get (rv_backings rv) h = Some b" and "private_part b = Some (root, files, quota)"
  shows "hm_wf files \<and> total_size files \<le> unat quota \<and> unat (tracked_bytes files) = total_size files"
proof -
  from quotas.inv_reachable [OF assms(1,2)] quota_invD [OF _ assms(3)] have "within_quota b" by blast
  with assms(4) have "hm_wf files" "total_size files \<le> unat quota" by (simp_all add: within_quota_def)
  with tracked_bytes_exact show ?thesis by blast
qed

section \<open>Evidence of a write\<close>

lemma backend_write_cases:
  assumes "HostManagedResourceBackendV1_apply L D now q (objects, rv) = (Completed outcome, objects', rv')"
    and "rq_effect q = EffResource e" and "re_verb e \<in> {Create, Replace}"
  obtains (refused) "bo_decision outcome \<noteq> Allowed" "rv_backings rv' = rv_backings rv"
  | (written) backing payload pfile where "wrote L D q e backing payload pfile rv rv'"
      "outcome = allowed_resource (re_handle_ref e) (pf_generation pfile) (si_digest (pf_identity pfile))
         (si_byte_count (pf_identity pfile)) ''managed_resource_write''"
proof -
  obtain result o1 rv1 where a: "apply_authorized L D q now (objects, rv) = (result, o1, rv1)"
    by (cases "apply_authorized L D q now (objects, rv)") auto
  with assms(1) have eq: "rv1 = rv'" and out: "outcome = (case result of Inr outcome \<Rightarrow> outcome
         | Inl _ \<Rightarrow> \<lparr>bo_decision = Denied, bo_actual_effect_summary = ''managed_resource_resolution_denied'', bo_facts = FactNone\<rparr>)"
    by (auto simp: HostManagedResourceBackendV1_apply_def)
  from a show thesis
  proof (cases rule: apply_authorized_cases)
    case kept
    have "bo_decision outcome \<noteq> Allowed" using kept(2) assms(2,3) by (cases result) (auto simp: out)
    with kept(1) eq show thesis by (intro refused) auto
  next
    case (written effect backing payload pfile)
    then have "effect = e" using assms(2) by (simp add: wrote_def)
    with written eq out show thesis by (intro that(2)) auto
  qed
qed

lemma expected_generation_precondition:
  assumes "expected_generation q h = Inr (g, Some d)"
  shows "PreResourceGeneration h g d \<in> set (rq_preconditions q)"
proof -
  let ?f = "\<lambda>condition. case condition of
          PreResourceGeneration observed generation digest \<Rightarrow> if observed = h then Some (generation, digest) else None | _ \<Rightarrow> None"
  from assms have "List.map_filter ?f (rq_preconditions q) = [(g, d)]"
    by (auto simp: expected_generation_def split: list.splits)
  then have "(g, d) \<in> set (List.map_filter ?f (rq_preconditions q))" by simp
  then obtain c where "c \<in> set (rq_preconditions q)" "?f c = Some (g, d)" by (auto simp: map_filter_mem)
  then show ?thesis by (cases c rule: EffectPreconditionV1.exhaust) (auto split: if_splits)
qed

lemma expected_file:
  assumes "expected_generation q h = Inr (g, digest)" and "write_matches verb existing g digest"
  shows "case existing of None \<Rightarrow> verb = Create \<and> g = 0
    | Some old \<Rightarrow> verb = Replace \<and> g = pf_generation old \<and> \<not> pf_sealed old
        \<and> PreResourceGeneration h g (si_digest (pf_identity old)) \<in> set (rq_preconditions q)"
proof (cases existing)
  case None
  with assms(2) show ?thesis by (cases verb) (simp_all add: write_matches_def)
next
  case (Some old)
  with assms(2) have "verb = Replace \<and> g = pf_generation old \<and> digest = Some (si_digest (pf_identity old)) \<and> \<not> pf_sealed old"
    by (cases verb) (simp_all add: write_matches_def)
  with expected_generation_precondition [of q h g] assms(1) Some show ?thesis by simp
qed

text \<open>What a backing holds under a selector.\<close>

definition held_file :: "ManagedResourceResolverV1 \<Rightarrow> ResourceHandleRefV1 \<Rightarrow> string \<Rightarrow> PrivateFileV1 option" where
  "held_file rv h selector = Option.bind (hm_get (rv_backings rv) h) (\<lambda>b.
     Option.bind (private_part b) (\<lambda>(_, files, _). hm_get files selector))"

lemma held_file_insert:
  assumes "private_part b = Some (root, files, quota)"
  shows "held_file (rv\<lparr>rv_staged_payloads := s, rv_backings := hm_insert h (insert_file sel p b) (rv_backings rv)\<rparr>) h sel = Some p"
  using assms by (simp add: held_file_def insert_file_def hmap_simps)

text \<open>C25. Evidence of a write says what the Host now holds. When enforcement with the resource backend returns evidence
  for a Create or Replace, then either it is not Allowed and the table of resources the resolver tracks is as it was, or the bytes
  written are those staged for this run and handle under the digest the request names; the target on disk was
  replaced, and what was found there afterwards is the file now tracked, with exactly the generation, digest and size the evidence
  states; its generation is one more than the one the request expected: zero for a file that must not
  have existed, or that of the unsealed file the request named by generation and digest. Evidence that is not
  Allowed says nothing about the disk (\<open>replaced_file_denied\<close> below).\<close>

theorem write_evidence_exact:
  assumes "enforce L (HostManagedResourceBackendV1_apply L D now) q current (objects, rv) st = (Inr evidence, (objects', rv'), st')"
    and "rq_effect q = EffResource e" and "re_verb e \<in> {Create, Replace}"
  shows "if ee_decision evidence = Allowed
    then \<exists>payload p g. hm_get (rv_staged_payloads rv) (staged_key (rq_run_control_ref q) (re_handle_ref e) (sp_content_digest payload)) = Some payload
        \<and> re_value_digest e = Some (sp_content_digest payload)
        \<and> held_file rv' (re_handle_ref e) (re_relative_selector e) = Some p
        \<and> pf_last_request_id p = Some (rq_request_id q) \<and> si_digest (pf_identity p) = digest_bytes L (sp_bytes payload)
        \<and> ee_facts evidence = FactResource (re_handle_ref e) (pf_generation p) (si_digest (pf_identity p)) (si_byte_count (pf_identity p))
        \<and> unat (pf_generation p) = unat g + 1
        \<and> dk_captured D = Inr (pf_identity p)
        \<and> (\<exists>root. commit_private_file L D root (re_relative_selector e) (map_option pf_identity (held_file rv (re_handle_ref e) (re_relative_selector e)))
             = Inr (pf_path p))
        \<and> (case held_file rv (re_handle_ref e) (re_relative_selector e) of
             None \<Rightarrow> re_verb e = Create \<and> g = 0
           | Some old \<Rightarrow> re_verb e = Replace \<and> g = pf_generation old \<and> \<not> pf_sealed old
               \<and> PreResourceGeneration (re_handle_ref e) g (si_digest (pf_identity old)) \<in> set (rq_preconditions q))
    else rv_backings rv' = rv_backings rv"
  using assms(1)
proof (cases rule: enforce_cases)
  case (denied envelope run reason)
  from denied(6) have "ee_decision evidence = Denied" by (cases rule: append_evidence_cases) auto
  with denied(3) show ?thesis by simp
next
  case (completed envelope run nxt outcome)
  from completed(7) have ev: "ee_decision evidence = bo_decision outcome" "ee_facts evidence = bo_facts outcome"
    by (cases rule: append_evidence_cases; auto)+
  from completed(3) assms(2,3) show ?thesis
  proof (cases rule: backend_write_cases)
    case refused
    then show ?thesis by (simp add: ev)
  next
    case (written backing payload pfile)
    note w = written(1) [unfolded wrote_def]
    from w have "write_backing L D e q (sp_bytes payload) backing = Inr pfile" by blast
    then show ?thesis
    proof (rule write_backing_cases)
      fix root files quota g digest
      assume part: "private_part backing = Some (root, files, quota)"
        and gen: "expected_generation q (re_handle_ref e) = Inr (g, digest)"
        and mat: "write_matches (re_verb e) (hm_get files (re_relative_selector e)) g digest"
        and new: "unat (pf_generation pfile) = unat g + 1" "si_digest (pf_identity pfile) = digest_bytes L (sp_bytes payload)"
          "pf_last_request_id pfile = Some (rq_request_id q)" "dk_captured D = Inr (pf_identity pfile)"
        and commit: "commit_private_file L D root (re_relative_selector e) (map_option pf_identity (hm_get files (re_relative_selector e)))
          = Inr (pf_path pfile)"
      have old: "held_file rv (re_handle_ref e) (re_relative_selector e) = hm_get files (re_relative_selector e)"
        using w part by (simp add: held_file_def)
      have held: "held_file rv' (re_handle_ref e) (re_relative_selector e) = Some pfile"
        using w held_file_insert [OF part] by simp
      note expected_file [OF gen mat, folded old]
      moreover have "\<exists>root. commit_private_file L D root (re_relative_selector e)
          (map_option pf_identity (held_file rv (re_handle_ref e) (re_relative_selector e))) = Inr (pf_path pfile)"
        using commit old by auto
      ultimately show ?thesis using w held new written(2) by (auto simp: ev allowed_resource_def)
    qed
  qed
qed auto

section \<open>A sealed output does not change\<close>

text \<open>What counts of the files of a slot: selectors, identities and generations.\<close>

definition contents :: "private_files \<Rightarrow> (string \<times> SourceIdentity \<times> u64) list" where
  "contents files = map (\<lambda>(selector, p). (selector, pf_identity p, pf_generation p)) files"

definition frozen_as :: "ResourceHandleRefV1 \<Rightarrow> path \<Rightarrow> private_files \<Rightarrow> ManagedResourceResolverV1 \<Rightarrow> bool" where
  "frozen_as h root files rv \<longleftrightarrow>
     (\<exists>owner files' quota. hm_get (rv_backings rv) h = Some (BackOutputSlot owner root files' quota True) \<and> contents files' = contents files)"

lemma contents_marked:
  assumes "\<And>p. pf_identity (f p) = pf_identity p \<and> pf_generation (f p) = pf_generation p"
  shows "contents (hm_map_values f files) = contents files" "contents (hm_modify k f files) = contents files"
  by (auto simp: contents_def hm_map_values_def hm_modify_def assms)

lemma contents_flags [simp]:
  "contents (hm_map_values sealed_file files) = contents files" "contents (hm_modify k sealed_file files) = contents files"
  "contents (hm_map_values registered_file files) = contents files" "contents (hm_modify k registered_file files) = contents files"
  by (auto intro!: contents_marked simp: sealed_file_def registered_file_def)

lemma frozen_backings: "rv_backings rv' = rv_backings rv \<Longrightarrow> frozen_as h root files rv \<Longrightarrow> frozen_as h root files rv'"
  by (simp add: frozen_as_def)

lemma frozen_other: "h' \<noteq> h \<Longrightarrow> frozen_as h root files rv \<Longrightarrow> rv_backings rv' = hm_insert h' b (rv_backings rv) \<Longrightarrow> frozen_as h root files rv'"
  by (simp add: frozen_as_def hmap_simps)

lemma frozen_bind: "frozen_as h root files rv \<Longrightarrow> frozen_as h root files (snd (bind_with h' checked rv))"
  by (rule bind_with_cases [of h' checked rv]) (auto simp: frozen_as_def hmap_simps)

lemma frozen_apply:
  assumes "frozen_as h root files rv"
  shows "frozen_as h root files (snd (snd (HostManagedResourceBackendV1_apply L D now q (objects, rv))))"
proof -
  obtain result objects' rv' where a: "apply_authorized L D q now (objects, rv) = (result, objects', rv')"
    by (cases "apply_authorized L D q now (objects, rv)") auto
  from a have "frozen_as h root files rv'"
  proof (cases rule: apply_authorized_cases)
    case kept
    with assms show ?thesis by (simp add: frozen_as_def)
  next
    case (written effect backing payload pfile)
    then have w: "write_backing L D effect q (sp_bytes payload) backing = Inr pfile"
      and b: "hm_get (rv_backings rv) (re_handle_ref effect) = Some backing"
      and rv': "rv_backings rv' = hm_insert (re_handle_ref effect) (insert_file (re_relative_selector effect) pfile backing) (rv_backings rv)"
      by (simp_all add: wrote_def)
    have "re_handle_ref effect \<noteq> h"
    proof
      assume "re_handle_ref effect = h"
      with b assms obtain owner files' quota where "backing = BackOutputSlot owner root files' quota True" by (auto simp: frozen_as_def)
      with write_backing_unsealed [OF w, of owner root files' quota] show False by simp
    qed
    from frozen_other [OF this assms rv'] show ?thesis .
  qed
  then show ?thesis unfolding HostManagedResourceBackendV1_apply_def a by simp
qed

lemma frozen_seal:
  assumes "frozen_as h root files rv"
  shows "frozen_as h root files (snd (seal_output_slot L F st access h' sel evidence rv))"
proof -
  obtain result rv' where s: "seal_output_slot L F st access h' sel evidence rv = (result, rv')" by fastforce
  then have "frozen_as h root files rv'"
  proof (cases rule: seal_cases)
    case (whole seal owner root' files' quota)
    then have "h' \<noteq> h" using assms by (auto simp: frozen_as_def)
    from frozen_other [OF this assms] whole(5) show ?thesis by simp
  next
    case (single seal owner root' files' quota s)
    with assms show ?thesis by (cases "h' = h") (auto simp: frozen_as_def hmap_simps)
  qed (simp add: assms)
  with s show ?thesis by simp
qed

lemma frozen_register:
  assumes "frozen_as h root files rv"
  shows "frozen_as h root files (snd (snd (register_sealed_transform_output L F uuid access seal lid n name media t objects rv)))"
proof -
  obtain result objects' rv' where
    s: "register_sealed_transform_output L F uuid access seal lid n name media t objects rv = (result, objects', rv')"
    by (cases "register_sealed_transform_output L F uuid access seal lid n name media t objects rv") auto
  then have "frozen_as h root files rv'"
  proof (cases rule: register_cases)
    case (registered p root' owner files1 files' quota s acquisition)
    with assms show ?thesis by (cases "so_handle_ref seal = h") (auto simp: frozen_as_def hmap_simps)
  qed (simp add: assms)
  with s show ?thesis by simp
qed

lemma frozen_clone:
  assumes "frozen_as h root files rv"
  shows "frozen_as h root files (snd (snd (clone_exact_input_to_scratch L F Ds F' st access h1 h2 objects rv)))"
proof -
  obtain result objects' rv' where s: "clone_exact_input_to_scratch L F Ds F' st access h1 h2 objects rv = (result, objects', rv')"
    by (cases "clone_exact_input_to_scratch L F Ds F' st access h1 h2 objects rv") auto
  then have "frozen_as h root files rv'"
  proof (cases rule: clone_cases)
    case (cloned owner root' quota m files1 artifact)
    then have "h2 \<noteq> h" using assms by (auto simp: frozen_as_def)
    from frozen_other [OF this assms] cloned(3) show ?thesis by simp
  qed (simp add: assms)
  with s show ?thesis by simp
qed

lemma frozen_release:
  "release_mounts L D access r mounts obs err (objects, rv) = (result, objects', rv') \<Longrightarrow> h \<notin> mt_handle_ref ` set mounts \<Longrightarrow>
     frozen_as h root files rv \<Longrightarrow> frozen_as h root files rv'"
proof (induction mounts arbitrary: obs err objects rv)
  case (Cons mount mounts)
  obtain res o1 rv1 where m: "reconcile_execution_mount L D access r mount (objects, rv) = (res, o1, rv1)"
    by (cases "reconcile_execution_mount L D access r mount (objects, rv)") auto
  from m have "frozen_as h root files rv1"
  proof (cases rule: reconcile_mount_cases)
    case (reconciled backing root' files1 quota files')
    then have "rv_backings rv1 = hm_insert (mt_handle_ref mount) (with_files files' backing) (rv_backings rv)" by simp
    from frozen_other [OF _ Cons.prems(3) this] Cons.prems(2) show ?thesis by auto
  qed (simp add: Cons.prems(3))
  then have "frozen_as h root files (rv1\<lparr>rv_world_leases := rv_world_leases rv1 |-| {|mt_handle_ref mount|},
            rv_exclusive_world_leases := rv_exclusive_world_leases rv1 |-| {|mt_handle_ref mount|}\<rparr>)"
    by (simp add: frozen_as_def)
  from Cons.IH [OF _ _ this] Cons.prems(1,2) m show ?case by fastforce
qed simp

text \<open>Every step but a purge and a release of mounts of \<open>h\<close>.\<close>

definition spares :: "lib \<Rightarrow> ResourceHandleRefV1 \<Rightarrow> ManagedResourceResolverV1 \<Rightarrow> ManagedResourceResolverV1 \<Rightarrow> bool" where
  "spares L h rv rv' \<longleftrightarrow> (\<exists>l. resolver_step L l rv rv' \<and> l \<noteq> LabPurge \<and> (\<forall>hs failed. l = LabRelease hs failed \<longrightarrow> h \<notin> set hs))"

lemma unchanged_backings:
  "rv_backings (snd (stage_write_payload L st access h digest bytes rv)) = rv_backings rv" "rv_backings (snd (take_read r rv)) = rv_backings rv"
  "rv_backings (snd (discard_staged_write_payload L access h digest rv)) = rv_backings rv"
  "rv_backings (snd (snd (lease_execution_world_mounts L D st access grants objects rv))) = rv_backings rv"
proof -
  show "rv_backings (snd (stage_write_payload L st access h digest bytes rv)) = rv_backings rv"
    by (simp add: stage_write_payload_def split: sum.split prod.split)
  show "rv_backings (snd (take_read r rv)) = rv_backings rv" by (simp add: take_read_def)
  show "rv_backings (snd (discard_staged_write_payload L access h digest rv)) = rv_backings rv"
    by (simp add: discard_staged_write_payload_def Let_def split: sum.split option.split)
  show "rv_backings (snd (snd (lease_execution_world_mounts L D st access grants objects rv))) = rv_backings rv"
    by (auto simp: lease_execution_world_mounts_def Let_def split: sum.split prod.split)
qed

lemma frozen_step:
  assumes "spares L h rv rv'" and frozen: "frozen_as h root files rv"
  shows "frozen_as h root files rv'"
proof -
  from assms(1) obtain l where "resolver_step L l rv rv'" and l: "l \<noteq> LabPurge" "\<forall>hs failed. l = LabRelease hs failed \<longrightarrow> h \<notin> set hs"
    by (auto simp: spares_def)
  then show ?thesis
  proof cases
    case step_release
    with l(2) frozen show ?thesis by (auto simp: release_execution_world_mounts_def intro: frozen_release)
  qed (use frozen l in \<open>simp_all add: bind_executable_def bind_revision_state bind_workspace_state provision_output_slot_def
      provision_scratch_def provision_empty_def frozen_bind frozen_clone frozen_apply frozen_seal frozen_register
      frozen_backings [OF unchanged_backings(1)] frozen_backings [OF unchanged_backings(2)]
      frozen_backings [OF unchanged_backings(3)] frozen_backings [OF unchanged_backings(4)]\<close>)
qed

text \<open>C27. A sealed output stays as it was sealed. Once the root of an output slot is sealed, no write, binding, further
  seal, registration or copy changes the selectors, identities or generations of its files, whatever is asked and in
  whatever order, until the slot is purged or an execution world that mounted it is released.\<close>

theorem sealed_output_frozen:
  assumes "seal_output_slot L F st access h ''.'' evidence rv = (Inr seal, rv1)" and "rtranclp (spares L h) rv1 rv2"
  shows "\<exists>owner root files quota owner' files' quota'. hm_get (rv_backings rv) h = Some (BackOutputSlot owner root files quota False)
    \<and> hm_get (rv_backings rv2) h = Some (BackOutputSlot owner' root files' quota' True) \<and> contents files' = contents files"
  using assms(1)
proof (cases rule: seal_cases)
  case (whole seal' owner root files quota)
  then have "frozen_as h root files rv1" by (simp add: frozen_as_def hmap_simps)
  from assms(2) this have "frozen_as h root files rv2"
    by (induction rule: rtranclp_induct) (auto intro: frozen_step)
  with whole(1) show ?thesis by (auto simp: frozen_as_def)
qed auto

section \<open>What is registered is what was sealed\<close>

lemma try_map_member: "try_map f xs = Inr ys \<Longrightarrow> x \<in> set xs \<Longrightarrow> \<exists>y. f x = Inr y"
  by (induction xs arbitrary: ys) (auto simp: res_simps)

text \<open>An item of the authority's own evidence for this run accounts for a file: a write to the handle that was allowed and left
  the file with this digest and size.\<close>

definition accounted :: "EffectAuthorityStateV1 \<Rightarrow> ManagedResourceAccessV1 \<Rightarrow> ResourceHandleRefV1 \<Rightarrow> EffectEvidenceV1 list \<Rightarrow> string \<Rightarrow> u64 \<Rightarrow> bool" where
  "accounted st access h evidence digest bytes \<longleftrightarrow>
     (\<exists>item \<in> set evidence. item \<in> set (run_evidence (ma_run_control_ref access) st) \<and> ee_decision item = Allowed
        \<and> ee_envelope_ref item = ma_envelope_ref access
        \<and> (\<exists>generation. ee_facts item = FactResource h generation digest bytes))"

lemma seal_entry_accounted:
  assumes "seal_entry L st access h evidence files (selector, identity) = Inr eid"
  shows "accounted st access h evidence (si_digest identity) (si_byte_count identity)"
proof -
  from assms obtain item and p :: PrivateFileV1 where find: "find (\<lambda>candidate. pf_last_request_id p = Some (ee_request_id candidate)) evidence = Some item"
    and t: "terminal_evidence L st access h item = Inr ()" and m: "file_facts_match (ee_facts item) (pf_generation p) identity"
    by (auto simp: seal_entry_def res_simps)
  from t obtain c where "validate_terminal_resource_evidence L item h (ma_envelope_ref access) (ma_run_control_ref access) c st = Inr ()"
    by (auto simp: terminal_evidence_def res_simps)
  then have "item \<in> set (run_evidence (ma_run_control_ref access) st)" "ee_decision item = Allowed" "ee_envelope_ref item = ma_envelope_ref access"
    and facts: "case ee_facts item of FactResource observed _ _ _ \<Rightarrow> observed = h | _ \<Rightarrow> False"
    by (auto simp: validate_terminal_resource_evidence_def res_simps run_evidence_def list_ex_iff Let_def)
  moreover from facts m have "\<exists>g. ee_facts item = FactResource h g (si_digest identity) (si_byte_count identity)"
    by (auto simp: file_facts_match_def split: EffectFactsV1.splits)
  moreover from find have "item \<in> set evidence" by (auto simp: find_Some_iff)
  ultimately show ?thesis unfolding accounted_def by blast
qed

lemma seal_root_capture:
  assumes "seal_root L F st access h evidence root files s = Inr seal" and "hf_node F root = Some node"
  shows "\<exists>i m. capture_regular_file_set_identity L root node m = Inr i \<and> fi_digest i = so_content_digest seal
    \<and> (\<forall>(selector, identity) \<in> set (fi_files i). accounted st access h evidence (si_digest identity) (si_byte_count identity))"
proof -
  from assms obtain observed n ids digest where
    scan: "scan_regular_file_set L root node (tracked_bytes files) = Inr (observed, n)" and ne: "observed \<noteq> []"
    and ids: "try_map (seal_entry L st access h evidence files) observed = Inr ids"
    and digest: "regular_file_set_digest L observed = Inr digest" and seal: "so_content_digest seal = digest"
    by (auto simp: seal_root_def scan_regular_tree_def map_ok_def res_simps)
  have "capture_regular_file_set_identity L root node (tracked_bytes files) =
      Inr \<lparr>fi_files = observed, fi_digest = digest, fi_byte_count = n\<rparr>"
    by (simp add: capture_regular_file_set_identity_def scan ne digest)
  moreover have "accounted st access h evidence (si_digest identity) (si_byte_count identity)" if "(selector, identity) \<in> set observed" for selector identity
    using try_map_member [OF ids that] seal_entry_accounted by blast
  ultimately show ?thesis using seal by fastforce
qed

lemma check_sealed_set_capture:
  assumes "check_sealed_set L F seal root files = Inr ()" and "hf_node F root = Some node"
  shows "\<exists>i m. capture_regular_file_set_identity L root node m = Inr i \<and> fi_digest i = so_content_digest seal"
proof -
  from assms obtain observed n where
    scan: "scan_regular_file_set L root node (tracked_bytes files) = Inr (observed, n)"
    and digest: "regular_file_set_digest L observed = Inr (so_content_digest seal)"
    by (auto simp: check_sealed_set_def scan_regular_tree_def map_ok_def res_simps)
  from digest have "observed \<noteq> []" by (auto simp: regular_file_set_digest_def regular_file_set_digest_from_entries_Inr)
  with scan digest have "capture_regular_file_set_identity L root node (tracked_bytes files) =
      Inr \<lparr>fi_files = observed, fi_digest = so_content_digest seal, fi_byte_count = n\<rparr>"
    by (simp add: capture_regular_file_set_identity_def)
  then show ?thesis by fastforce
qed

lemma registered_claim:
  assumes "register_core_transform_revision L F uuid input lid n digest now objects = (Inr acquisition, objects')"
  shows "\<exists>claim. hm_get (os_revisions objects') (lid, n) = Some claim \<and> rc_content_digest claim = digest"
  using assms
  by (auto simp: register_core_transform_revision_def acquire_def acquire_checks_def Let_def res_simps hmap_simps RevisionClaim_of_def
    split: if_splits sum.splits prod.splits)

text \<open>C28. What becomes the next revision is, byte for byte, what was sealed, and the evidence accounts for all of it. Suppose
  a seal of the root of an output slot is registered later, after anything has happened. Then the tree found at
  registration has exactly the paths and bytes of the tree that was sealed (as long as the hash tells their messages
  apart), every sealed file has an allowed item of evidence of its run that states its digest and size for this
  handle, and the new revision is claimed under the digest of the seal.\<close>

theorem registered_revision_is_sealed_output:
  assumes "hex_digests L"
    and "seal_output_slot L F st access h ''.'' evidence rv = (Inr seal, rv1)"
    and "register_sealed_transform_output L F' uuid access' seal lid n name media t objects rv2 = (Inr acquisition, objects', rv3)"
    and "hm_get (rv_backings rv) h = Some (BackOutputSlot owner root files quota s)" and "hf_node F root = Some node" and "fs_wf node"
    and "hm_get (rv_backings rv2) h = Some (BackOutputSlot owner' root' files' quota' s')" and "hf_node F' root' = Some node'" and "fs_wf node'"
    and "collision_free L (tree_messages L node \<union> tree_messages L node')"
  shows "logical_tree node' = logical_tree node
    \<and> (\<forall>(p, f) \<in> set (tree_files node). accounted st access h evidence (blake3_hex L (of_bytes f)) (of_nat (length (of_bytes f))))
    \<and> (\<exists>claim. hm_get (os_revisions objects') (lid, n) = Some claim \<and> rc_content_digest claim = so_content_digest seal)"
proof -
  from assms(2) have sr: "seal_root L F st access h evidence root files False = Inr seal"
    by (cases rule: seal_cases) (use assms(4) in auto)
  from seal_root_capture [OF sr assms(5)] obtain i m where
    i: "capture_regular_file_set_identity L root node m = Inr i" "fi_digest i = so_content_digest seal"
    and acc: "\<forall>(selector, identity) \<in> set (fi_files i). accounted st access h evidence (si_digest identity) (si_byte_count identity)" by blast
  from sr have seal: "so_handle_ref seal = h" "so_representation seal = RegularFileSet" by (auto simp: seal_root_def res_simps)
  from assms(3) obtain out where out: "sealed_output L F' access' seal rv2 = Inr out"
    and reg: "\<exists>input. register_core_transform_revision L F' uuid input lid n (so_content_digest seal) (ch_now (ma_current access')) objects
      = (Inr acquisition, objects')"
    by (cases rule: register_cases) auto
  from out have "check_sealed_set L F' seal root' files' = Inr ()"
    by (cases rule: sealed_output_cases) (use assms(7) seal in auto)
  from check_sealed_set_capture [OF this assms(8)] obtain i' m' where
    i': "capture_regular_file_set_identity L root' node' m' = Inr i'" "fi_digest i' = so_content_digest seal" by blast
  have "logical_tree node' = logical_tree node"
    using digest_binds_tree [OF assms(1,6,9) i(1) i'(1)] i(2) i'(2) assms(10) by simp
  moreover from i(1) obtain es where node: "node = DirNode es" and entries: "fi_files i = tree_entries L node"
    by (auto simp: capture_regular_file_set_identity_Inr [OF assms(6)])
  moreover have "\<forall>(p, f) \<in> set (tree_files node). accounted st access h evidence (blake3_hex L (of_bytes f)) (of_nat (length (of_bytes f)))"
  proof (clarify)
    fix p f assume "(p, f) \<in> set (tree_files node)"
    then have "entry_of L (p, f) \<in> set (fi_files i)"
      unfolding entries using set_tree_entries [of es L] assms(6) by (auto simp: node simp del: fs_wf.simps)
    with acc show "accounted st access h evidence (blake3_hex L (of_bytes f)) (of_nat (length (of_bytes f)))"
      by (auto simp: entry_of_def file_identity_def)
  qed
  moreover from reg registered_claim have "\<exists>claim. hm_get (os_revisions objects') (lid, n) = Some claim \<and> rc_content_digest claim = so_content_digest seal"
    by blast
  ultimately show ?thesis by blast
qed

section \<open>An example output\<close>

text \<open>A run that may create files in an output slot: it stages one byte, writes it as \<open>a\<close>, seals the slot and registers it.\<close>

definition ox_context :: AuthorityContextV1 where
  "ox_context = ex_context\<lparr>ctx_participant_ref := PARTICIPANT_REF_PREFIX @ blake3_hex ex_lib (participant_ref_message ''x'' ''host'')\<rparr>"

definition ox_context_ref :: AuthorityContextRefV1 where
  "ox_context_ref = domain_hash ex_lib ''pastey-authority-context-v1'' (context_json ox_context)"

definition ox_budgets :: EffectBudgetsV1 where
  "ox_budgets = budgets_default\<lparr>bg_requests := 1, bg_write_bytes := 8\<rparr>"

definition ox_grant :: ResourceGrantV1 where
  "ox_grant = (ex_grant {|Create|})\<lparr>rg_context_ref := ox_context_ref, rg_kind := OutputSlot, rg_budgets := ox_budgets\<rparr>"

definition ox_unnamed :: EffectEnvelopeV1 where
  "ox_unnamed = ex_envelope\<lparr>ev_context := ox_context, ev_context_ref := ox_context_ref, ev_resources := [ox_grant],
     ev_effect_bounds := [\<lparr>eb_capability = CapResource Create, eb_max_per_request = ox_budgets\<rparr>], ev_budgets := ox_budgets\<rparr>"

definition ox_envelope :: EffectEnvelopeV1 where
  "ox_envelope = ox_unnamed\<lparr>ev_envelope_ref := compute_envelope_ref ex_lib ox_unnamed\<rparr>"

definition ox_run :: ManagedRunControlV1 where
  "ox_run = (ex_run Active)\<lparr>mr_context_ref := ox_context_ref, mr_envelope_ref := ev_envelope_ref ox_envelope\<rparr>"

definition ox_state :: EffectAuthorityStateV1 where
  "ox_state = ex_start\<lparr>st_resources := [(''handle'', \<lparr>rr_grant = ox_grant, rr_envelope_ref = ev_envelope_ref ox_envelope, rr_revoked = False\<rparr>)],
     st_runs := [(''run'', ox_run)], st_envelopes := [(ev_envelope_ref ox_envelope, ox_envelope)]\<rparr>"

definition ox_access :: ManagedResourceAccessV1 where
  "ox_access = \<lparr>ma_envelope_ref = ev_envelope_ref ox_envelope, ma_run_control_ref = ''run'', ma_context = ox_context, ma_current = ex_current\<rparr>"

definition ox_digest :: string where "ox_digest = replicate 64 CHR ''0''"

definition ox_effect :: ResourceEffectV1 where
  "ox_effect = \<lparr>re_verb = Create, re_handle_ref = ''handle'', re_relative_selector = ''a'', re_value_digest = Some ox_digest\<rparr>"

definition ox_request_body :: EffectRequestV1 where
  "ox_request_body = (ex_request_body 0)\<lparr>rq_envelope_ref := ev_envelope_ref ox_envelope, rq_context := ox_context,
     rq_effect := EffResource ox_effect, rq_requested_budget_slice := ox_budgets\<rparr>"

definition ox_request :: EffectRequestV1 where
  "ox_request = ox_request_body\<lparr>rq_request_id := compute_request_id ex_lib ox_request_body\<rparr>"

lemma ox_context_valid [simp]: "AuthorityContextV1_validate ex_lib ox_context = Inr ()"
proof -
  have "trim ''x'' = ''x''" by code_simp
  then show ?thesis
    by (simp add: AuthorityContextV1_validate_def ox_context_def ex_context_def PlanParticipantRef_for_host_def map_err_def)
qed

lemma ox_context_ref [simp]: "AuthorityContextV1_context_ref ex_lib ox_context = Inr ox_context_ref"
  by (simp add: AuthorityContextV1_context_ref_def ox_context_ref_def)

lemma ox_envelope_fields:
  "ev_contract_version ox_envelope = EFFECT_AUTHORITY_VERSION" "ev_context ox_envelope = ox_context"
  "ev_context_ref ox_envelope = ox_context_ref" "ev_run_control_ref ox_envelope = ''run''"
  "compute_envelope_ref ex_lib ox_envelope = ev_envelope_ref ox_envelope"
  "ev_resources ox_envelope = [ox_grant]" "ev_expires_at ox_envelope = 80" "ev_budgets ox_envelope = ox_budgets"
  "ev_effect_bounds ox_envelope = [\<lparr>eb_capability = CapResource Create, eb_max_per_request = ox_budgets\<rparr>]"
  by (simp_all add: ox_envelope_def ox_unnamed_def ex_envelope_fields compute_envelope_ref_def envelope_hash_material_def)

lemma ox_claimable: "claimable ex_lib ox_request ex_current ox_state"
  unfolding claimable_def validate_exact_request_context_Inr
  by (simp add: ox_state_def ex_start_def with_evidence_key_def hm_get_def ox_request_def ox_request_body_def ex_request_body_def
    ox_envelope_fields ox_run_def ex_run_def ex_current_def lifecycle_mismatch_def compute_request_id_def
    request_hash_material_def)
    (simp add: ox_context_def ex_context_def)

lemma ox_affordable: "affordable ox_request 10 ox_state"
proof -
  have "validate_relative_selector ''a'' = Inr ()"
    by (simp add: validate_relative_selector_def starts_with_def contains_char_def)
  then have "authorize_effect ox_envelope ox_request 10 ox_state = Inr ()"
    by (simp add: authorize_effect_def ox_envelope_fields ox_request_def ox_request_body_def ex_request_body_def ox_effect_def
      effect_capability_def budgets.le_refl authorize_resource_def ox_state_def hm_get_def ox_grant_def ex_grant_def map_err_def
      selector_within_prefix_def)
      (simp add: ox_budgets_def ox_context_def ex_context_def)
  moreover have "next_debits ox_envelope ox_run ox_request = Some ox_budgets"
    by (simp add: next_debits_def ox_run_def ex_run_def ox_request_def ox_request_body_def ex_request_body_def ox_envelope_fields
      ox_budgets_def budgets_default_def budgets_checked_add_def checked_add_def budgets_is_subset_of_def)
  ultimately show ?thesis
    by (simp add: affordable_def ox_state_def ox_request_def ox_request_body_def ex_request_body_def hm_get_def)
qed

lemma ox_attachment: "validate_attachment ex_lib ox_state ox_access ''handle'' OutputSlot = Inr ox_grant"
  by (simp add: validate_attachment_def validate_resource_attachment_def ox_state_def ox_access_def hm_get_def ox_envelope_fields
    ox_run_def ex_run_def ox_grant_def ex_grant_def ex_current_def lifecycle_mismatch_def map_err_def)
    (simp add: ox_context_def ex_context_def)

text \<open>The disk: an empty root before the write, one file in it afterwards.\<close>

definition ox_root :: path where "ox_root = [RootDir, Normal ''r'']"

definition ox_tree :: fs_node where "ox_tree = DirNode [(''a'', FileNode (ex_file 7 [[1]]))]"

definition ox_fs :: "fs_node \<Rightarrow> host_fs" where
  "ox_fs node = \<lparr>hf_canonical = Some, hf_node = (\<lambda>p. if p = ox_root then Some node else None)\<rparr>"

definition ox_identity :: SourceIdentity where
  "ox_identity = \<lparr>si_digest = ox_digest, si_byte_count = 1, si_fingerprint = ex_fingerprint 1 7\<rparr>"

definition ox_disk :: disk where
  "ox_disk = \<lparr>dk_fs = ox_fs (DirNode []), dk_root = (\<lambda>_. Inr ox_root), dk_create = (\<lambda>_. False), dk_renamed = Inr (), dk_captured = Inr ox_identity\<rparr>"

definition ox_owner :: ExactOwnerV1 where
  "ox_owner = \<lparr>ow_envelope_ref = ev_envelope_ref ox_envelope, ow_run_control_ref = ''run'', ow_context_ref = ox_context_ref, ow_bridge_id = ''x''\<rparr>"

definition ox_file :: "bool \<Rightarrow> PrivateFileV1" where
  "ox_file s = \<lparr>pf_path = ox_root @ [Normal ''a''], pf_identity = ox_identity, pf_generation = 1, pf_sealed = s,
     pf_lineage_registered = False, pf_last_request_id = Some (rq_request_id ox_request)\<rparr>"

definition ox_new :: ManagedResourceResolverV1 where "ox_new = ManagedResourceResolverV1_new [RootDir] ''u''"

definition ox_slot :: "private_files \<Rightarrow> bool \<Rightarrow> ManagedResourceResolverV1" where
  "ox_slot files s = ox_new\<lparr>rv_backings := [(''handle'', BackOutputSlot ox_owner ox_root files 8 s)]\<rparr>"

definition ox_staged :: ManagedResourceResolverV1 where
  "ox_staged = (ox_slot [] False)\<lparr>rv_staged_payloads := [(staged_key ''run'' ''handle'' ox_digest,
     \<lparr>sp_owner = ox_owner, sp_handle_ref = ''handle'', sp_content_digest = ox_digest, sp_bytes = [1]\<rparr>)]\<rparr>"

lemma ox_digest_bytes [simp]: "digest_bytes ex_lib [1] = ox_digest"
  by (simp add: digest_bytes_def ox_digest_def ex_lib_def)

lemma ox_owner_of: "owner_of ex_lib ox_access = Inr ox_owner" "validate_owner ex_lib ox_owner ox_access = Inr ()"
  "validate_request_owner ex_lib ox_owner ox_request = Inr ()"
  by (simp_all add: owner_of_def validate_owner_def validate_request_owner_def access_context_ref_def ox_access_def ox_owner_def map_err_def
      ox_request_def ox_request_body_def ex_request_body_def)
    (simp add: ox_context_def ex_context_def)

lemma ox_provision: "provision_output_slot ex_lib ox_disk ox_state ox_access ''handle'' 8 ox_new = (Inr (), ox_slot [] False)"
  by (simp add: provision_output_slot_def provision_empty_def bind_with_def ox_attachment ox_owner_of validate_quota_def ox_grant_def
      ox_budgets_def allocate_root_def ox_disk_def map_err_def insert_backing_def ox_new_def ManagedResourceResolverV1_new_def
      hm_contains_def hm_get_def hm_insert_def ox_slot_def)

lemma ox_access_run: "ma_run_control_ref ox_access = ''run''" "ch_now (ma_current ox_access) = 10"
  by (simp_all add: ox_access_def ex_current_def)

lemma ox_stage: "stage_write_payload ex_lib ox_state ox_access ''handle'' ox_digest [1] (ox_slot [] False) = (Inr (), ox_staged)"
  by (simp add: stage_write_payload_def stage_checks_def ox_slot_def hm_get_def backing_kind_def ox_attachment ox_owner_of ox_grant_def
      ox_budgets_def backing_quota_def private_part_def ox_new_def ManagedResourceResolverV1_new_def hm_values_def hm_contains_def
      ox_staged_def hm_insert_def ox_access_run)

lemma ox_selector: "path_components ''a'' = [Normal ''a'']" "validate_managed_selector ''a'' = Inr ()" "validate_managed_selector ''.'' = Inr ()"
  by (code_simp+)

lemma ox_write: "write_backing ex_lib ox_disk ox_effect ox_request [1] (BackOutputSlot ox_owner ox_root [] 8 False) = Inr (ox_file False)"
  by (simp add: write_backing_def private_part_def hm_get_def expected_generation_def ox_request_def ox_request_body_def ex_request_body_def
      map_filter_def write_matches_def ox_effect_def checked_add_def write_private_file_def commit_private_file_def ox_selector ox_disk_def ox_fs_def check_target_def
      ox_root_def map_err_def ox_identity_def ox_file_def)

lemma ox_apply: "HostManagedResourceBackendV1_apply ex_lib ox_disk 10 ox_request (objects, ox_staged)
   = (Completed (allowed_resource ''handle'' 1 ox_digest 1 ''managed_resource_write''), objects, ox_slot [(''a'', ox_file False)] False)"
proof -
  have q: "rq_effect ox_request = EffResource ox_effect" "rq_run_control_ref ox_request = ''run''" "rq_requested_budget_slice ox_request = ox_budgets"
    by (simp_all add: ox_request_def ox_request_body_def ex_request_body_def)
  have e: "re_relative_selector ox_effect = ''a''" "re_handle_ref ox_effect = ''handle''" "re_verb ox_effect = Create" "re_value_digest ox_effect = Some ox_digest"
    by (simp_all add: ox_effect_def)
  have "apply_write ex_lib ox_disk ox_effect ox_request 10 (BackOutputSlot ox_owner ox_root [] 8 False) (objects, ox_staged) =
     (Inr (allowed_resource ''handle'' 1 ox_digest 1 ''managed_resource_write''), objects, ox_slot [(''a'', ox_file False)] False)"
    by (simp add: apply_write_def e q ox_staged_def hm_get_def ox_owner_of payload_mismatch_def ox_budgets_def resolve_workspace_def ox_write)
      (simp add: hm_remove_def hm_insert_def insert_file_def private_part_def with_files_def ox_slot_def ox_new_def ManagedResourceResolverV1_new_def
        ox_file_def ox_identity_def)
  moreover have "hm_get (rv_backings ox_staged) ''handle'' = Some (BackOutputSlot ox_owner ox_root [] 8 False)" "rv_exclusive_world_leases ox_staged = {||}"
    by (simp_all add: ox_staged_def ox_slot_def ox_new_def ManagedResourceResolverV1_new_def hm_get_def)
  ultimately show ?thesis
    by (simp add: HostManagedResourceBackendV1_apply_def apply_authorized_def q e ox_selector map_err_def ox_owner_of)
qed

text \<open>A write that is denied may have replaced the file all the same: when the target was renamed over and what lies there cannot
  be captured, the answer is Denied and the resolver tracks what it tracked before, here no file.\<close>

lemma replaced_file_denied:
  "commit_private_file ex_lib (ox_disk\<lparr>dk_captured := Inl IoError\<rparr>) ox_root ''a'' None = Inr (ox_root @ [Normal ''a''])
   \<and> HostManagedResourceBackendV1_apply ex_lib (ox_disk\<lparr>dk_captured := Inl IoError\<rparr>) 10 ox_request (objects, ox_staged)
       = (Completed \<lparr>bo_decision = Denied, bo_actual_effect_summary = ''managed_resource_resolution_denied'', bo_facts = FactNone\<rparr>,
          objects, ox_slot [] False)"
proof -
  let ?D = "ox_disk\<lparr>dk_captured := Inl IoError\<rparr>"
  have q: "rq_effect ox_request = EffResource ox_effect" "rq_run_control_ref ox_request = ''run''" "rq_requested_budget_slice ox_request = ox_budgets"
    by (simp_all add: ox_request_def ox_request_body_def ex_request_body_def)
  have e: "re_relative_selector ox_effect = ''a''" "re_handle_ref ox_effect = ''handle''" "re_verb ox_effect = Create" "re_value_digest ox_effect = Some ox_digest"
    by (simp_all add: ox_effect_def)
  have commit: "commit_private_file ex_lib ?D ox_root ''a'' None = Inr (ox_root @ [Normal ''a''])"
    by (simp add: commit_private_file_def ox_selector ox_disk_def ox_fs_def check_target_def map_err_def ox_root_def)
  then have failed: "write_backing ex_lib ?D ox_effect ox_request [1] (BackOutputSlot ox_owner ox_root [] 8 False) = Inl (ResFile IoError)"
    by (simp add: write_backing_def private_part_def hm_get_def expected_generation_def ox_request_def ox_request_body_def ex_request_body_def
        map_filter_def write_matches_def ox_effect_def checked_add_def write_private_file_def map_err_def)
  have "apply_write ex_lib ?D ox_effect ox_request 10 (BackOutputSlot ox_owner ox_root [] 8 False) (objects, ox_staged)
      = (Inl (ResFile IoError), objects, ox_slot [] False)"
    by (simp add: apply_write_def e q ox_staged_def hm_get_def ox_owner_of payload_mismatch_def ox_budgets_def resolve_workspace_def failed)
      (simp add: hm_remove_def ox_slot_def ox_new_def ManagedResourceResolverV1_new_def)
  moreover have "hm_get (rv_backings ox_staged) ''handle'' = Some (BackOutputSlot ox_owner ox_root [] 8 False)" "rv_exclusive_world_leases ox_staged = {||}"
    by (simp_all add: ox_staged_def ox_slot_def ox_new_def ManagedResourceResolverV1_new_def hm_get_def)
  ultimately show ?thesis
    using commit by (simp add: HostManagedResourceBackendV1_apply_def apply_authorized_def q e ox_selector map_err_def ox_owner_of)
qed

lemma ox_enforce:
  "\<exists>evidence st'. enforce ex_lib (HostManagedResourceBackendV1_apply ex_lib ox_disk 10) ox_request ex_current (objects, ox_staged) ox_state
      = (Inr evidence, (objects, ox_slot [(''a'', ox_file False)] False), st')
    \<and> ee_decision evidence = Allowed \<and> ee_facts evidence = FactResource ''handle'' 1 ox_digest 1 \<and> ee_request_id evidence = rq_request_id ox_request
    \<and> validate_attachment ex_lib st' ox_access ''handle'' OutputSlot = Inr ox_grant
    \<and> terminal_evidence ex_lib st' ox_access ''handle'' evidence = Inr ()"
proof -
  let ?apply = "HostManagedResourceBackendV1_apply ex_lib ox_disk 10"
  obtain result b st' where e: "enforce ex_lib ?apply ox_request ex_current (objects, ox_staged) ox_state = (result, b, st')"
    by (metis prod_cases3)
  have q: "rq_envelope_ref ox_request = ev_envelope_ref ox_envelope" "rq_run_control_ref ox_request = ''run''"
    by (simp_all add: ox_request_def ox_request_body_def ex_request_body_def)
  have aff: "affordable ox_request (ch_now ex_current) ox_state" using ox_affordable by (simp add: ex_current_def)
  from e show ?thesis
  proof (cases rule: enforce_cases)
    case (completed envelope run nxt outcome)
    then have out: "outcome = allowed_resource ''handle'' 1 ox_digest 1 ''managed_resource_write''" and b: "b = (objects, ox_slot [(''a'', ox_file False)] False)"
      using ox_apply [of objects] by simp_all
    have env: "envelope = ox_envelope" using completed(4) by (simp add: q ox_state_def hm_get_def)
    have id: "validate_id ''managed_resource_write'' ''effect evidence summary'' = Inr ()" by code_simp
    note a = completed(7) [unfolded out env allowed_resource_def, simplified]
    from a obtain evidence where r: "result = Inr evidence" by (auto simp: append_evidence_def id Let_def)
    note f = a [unfolded r append_evidence_def id, simplified]
    have "ee_decision evidence = Allowed \<and> ee_facts evidence = FactResource ''handle'' 1 ox_digest 1 \<and> ee_request_id evidence = rq_request_id ox_request"
      using f by (auto simp: Let_def)
    moreover have "validate_attachment ex_lib st' ox_access ''handle'' OutputSlot = Inr ox_grant"
    proof -
      have "st_envelopes st' = st_envelopes ox_state" "st_resources st' = st_resources ox_state"
        "hm_get (st_runs st') ''run'' = Some (ox_run\<lparr>mr_next_request_sequence := mr_next_request_sequence ox_run + 1, mr_cumulative_budget_debits := nxt\<rparr>)"
        using f by (auto simp: Let_def claim_intent_def reserve_budget_def q ox_state_def hm_modify_def hm_get_def)
      then show ?thesis
        by (simp add: validate_attachment_def validate_resource_attachment_def ox_state_def ox_access_def hm_get_def ox_envelope_fields
            ox_run_def ex_run_def ox_grant_def ex_grant_def ex_current_def lifecycle_mismatch_def map_err_def)
          (simp add: ox_context_def ex_context_def)
    qed
    moreover have "terminal_evidence ex_lib st' ox_access ''handle'' evidence = Inr ()"
    proof -
      have "hm_get (st_evidence st') ''run'' = Some [evidence]" "evidence_authentic ex_lib (st_evidence_key st') evidence"
        "ee_envelope_ref evidence = ev_envelope_ref ox_envelope" "ee_run_control_ref evidence = ''run''" "ee_context_ref evidence = ox_context_ref"
        using f by (auto simp: Let_def claim_intent_def reserve_budget_def q ox_state_def ex_start_def with_evidence_key_def hm_insert_def hm_get_def
          evidence_authentic_def ox_envelope_fields compute_evidence_id_def compute_evidence_digest_def host_authenticator_def evidence_hash_material_def)
      with calculation show ?thesis
        by (simp add: terminal_evidence_def access_context_ref_def validate_terminal_resource_evidence_def ox_access_def map_err_def)
    qed
    ultimately show ?thesis using e r b by blast
  qed (use ox_claimable aff ox_apply [of objects] in auto)
qed

lemma ox_wf: "fs_wf ox_tree" "plain_tree ox_tree" "acceptable (tree_files ox_tree)" "tree_files ox_tree = [([''a''], ex_file 7 [[1]])]"
proof -
  have p: "portable [''a'']" by (simp add: portable_def starts_with_def to_ascii_lowercase_def ascii_lower_def)
  show f: "tree_files ox_tree = [([''a''], ex_file 7 [[1]])]" by (simp add: ox_tree_def node_files.simps)
  show "fs_wf ox_tree" "plain_tree ox_tree" by (simp_all add: ox_tree_def valid_name_def)
  show "acceptable (tree_files ox_tree)" by (simp add: f p ex_stable ex_of_bytes acceptable_def)
qed

lemma ox_scan:
  assumes "q \<in> {1, 8}"
  shows "scan_regular_tree ex_lib (ox_fs ox_tree) ox_root q = Inr [(''a'', ox_identity)]"
proof -
  have "bt_collect (map (entry_of ex_lib) (tree_files ox_tree)) = [(''a'', ox_identity)]"
    by (simp add: ox_wf bt_collect_def entry_of_def file_identity_def ex_of_bytes)
      (simp add: ex_lib_def ox_identity_def ox_digest_def ex_file_def)
  moreover have "\<exists>es. ox_tree = DirNode es" by (simp add: ox_tree_def)
  ultimately have "scan_regular_file_set ex_lib ox_root ox_tree q = Inr ([(''a'', ox_identity)], 1)"
    using ox_wf assms by (auto simp: scan_regular_file_set_Inr acceptable_def ex_of_bytes total_length_def)
  then show ?thesis by (simp add: scan_regular_tree_def map_err_def map_ok_def ox_fs_def)
qed

lemma ox_measures:
  "tracked_bytes [(''a'', ox_file s)] = 1" "regular_file_set_digest ex_lib [(''a'', ox_identity)] = Inr (replicate 64 CHR ''2'')"
proof -
  show "tracked_bytes [(''a'', ox_file s)] = 1" by (simp add: tracked_bytes_def hm_values_def ox_file_def ox_identity_def)
  show "regular_file_set_digest ex_lib [(''a'', ox_identity)] = Inr (replicate 64 CHR ''2'')"
    by (simp add: regular_file_set_digest_def regular_file_set_digest_from_entries_Inr ox_selector) (simp add: ex_lib_def file_set_message_def)
qed

lemma ox_seal:
  assumes "validate_attachment ex_lib st ox_access ''handle'' OutputSlot = Inr ox_grant" and "terminal_evidence ex_lib st ox_access ''handle'' evidence = Inr ()"
    and "ee_facts evidence = FactResource ''handle'' 1 ox_digest 1" "ee_request_id evidence = rq_request_id ox_request"
  shows "\<exists>seal. seal_output_slot ex_lib (ox_fs ox_tree) st ox_access ''handle'' ''.'' [evidence] (ox_slot [(''a'', ox_file False)] False)
      = (Inr seal, ox_slot [(''a'', ox_file True)] True)
    \<and> so_content_digest seal = replicate 64 CHR ''2'' \<and> so_entry_count seal = 1 \<and> so_bytes seal = 1 \<and> so_representation seal = RegularFileSet
    \<and> so_handle_ref seal = ''handle'' \<and> so_relative_selector seal = ''.'' \<and> so_envelope_ref seal = ev_envelope_ref ox_envelope
    \<and> so_run_control_ref seal = ''run'' \<and> so_context_ref seal = ox_context_ref
    \<and> so_seal_ref seal = ''pastey-output-slot-regular-file-set-seal-v1:'' @ replicate 64 CHR ''2''"
proof -
  have entry: "seal_entry ex_lib st ox_access ''handle'' [evidence] [(''a'', ox_file False)] (''a'', ox_identity) = Inr (ee_evidence_id evidence)"
    by (simp add: seal_entry_def hm_get_def ox_file_def assms file_facts_match_def ox_identity_def)
  have hash: "resource_domain_hash ex_lib ''pastey-output-slot-regular-file-set-seal-v1'' v
      = ''pastey-output-slot-regular-file-set-seal-v1:'' @ replicate 64 CHR ''2''" for v
    by (simp add: resource_domain_hash_def Let_def ex_lib_def as_bytes_def)
  have "\<exists>seal. seal_root ex_lib (ox_fs ox_tree) st ox_access ''handle'' [evidence] ox_root [(''a'', ox_file False)] False = Inr seal
    \<and> so_content_digest seal = replicate 64 CHR ''2'' \<and> so_entry_count seal = 1 \<and> so_bytes seal = 1 \<and> so_representation seal = RegularFileSet
    \<and> so_handle_ref seal = ''handle'' \<and> so_relative_selector seal = ''.'' \<and> so_envelope_ref seal = ev_envelope_ref ox_envelope
    \<and> so_run_control_ref seal = ''run'' \<and> so_context_ref seal = ox_context_ref
    \<and> so_seal_ref seal = ''pastey-output-slot-regular-file-set-seal-v1:'' @ replicate 64 CHR ''2''"
    by (simp add: seal_root_def ox_measures ox_scan entry hash map_err_def observed_bytes_def checked_add_def access_context_ref_def)
      (simp add: ox_access_def ox_identity_def)
  moreover have "hm_map_values sealed_file [(''a'', ox_file False)] = [(''a'', ox_file True)]"
    by (simp add: hm_map_values_def sealed_file_def ox_file_def)
  ultimately show ?thesis
    by (auto simp: seal_output_slot_def assms(1) ox_selector map_err_def ox_slot_def hm_get_def ox_owner_of hm_insert_def)
qed

lemma ox_register:
  assumes "so_content_digest seal = replicate 64 CHR ''2''" "so_entry_count seal = 1" "so_bytes seal = 1" "so_representation seal = RegularFileSet"
    "so_handle_ref seal = ''handle''" "so_relative_selector seal = ''.''" "so_envelope_ref seal = ev_envelope_ref ox_envelope"
    "so_run_control_ref seal = ''run''" "so_context_ref seal = ox_context_ref"
    "so_seal_ref seal = ''pastey-output-slot-regular-file-set-seal-v1:'' @ replicate 64 CHR ''2''"
  shows "\<exists>acquisition objects' rv'. register_sealed_transform_output ex_lib (ox_fs ox_tree) (ex_uuid CHR ''c'') ox_access seal ex_object 2 ''a'' ''a/b'' 30 ex_bound
      (ox_slot [(''a'', ox_file True)] True) = (Inr acquisition, objects', rv')"
proof -
  have set: "check_sealed_set ex_lib (ox_fs ox_tree) seal ox_root [(''a'', ox_file True)] = Inr ()"
    by (simp add: check_sealed_set_def assms ox_measures ox_scan map_err_def observed_bytes_def hm_values_def) (simp add: ox_file_def ox_identity_def)
  have out: "\<exists>backing. sealed_output ex_lib (ox_fs ox_tree) ox_access seal (ox_slot [(''a'', ox_file True)] True) = Inr (ox_root, ox_root, backing)"
    by (simp add: sealed_output_def assms access_context_ref_def ox_slot_def hm_get_def set ox_owner_of) (simp add: ox_access_def map_err_def)
  let ?input = "sealed_acquisition ox_access seal ox_root ox_root ''a'' ''a/b'' 30"
  have "\<exists>i. capture_regular_file_set_identity ex_lib ox_root ox_tree MAX_FILE_SIZE_BYTES = Inr i \<and> fi_digest i = replicate 64 CHR ''2''"
  proof -
    have "blake3_hex ex_lib (file_set_message es) = replicate 64 CHR ''2''" for es
      by (simp add: ex_lib_def file_set_message_def)
    moreover have "\<exists>es. ox_tree = DirNode es" by (simp add: ox_tree_def)
    ultimately show ?thesis using ox_wf
      by (auto simp: capture_regular_file_set_identity_Inr acceptable_def ex_of_bytes total_length_def MAX_FILE_SIZE_BYTES_def)
  qed
  then obtain i where i: "capture_regular_file_set_identity ex_lib ox_root ox_tree MAX_FILE_SIZE_BYTES = Inr i" "fi_digest i = replicate 64 CHR ''2''" by blast
  have "capture_artifact_identity ex_lib (ox_fs ox_tree) ox_root ox_root = Inr (FileSetIdentity i)"
    using i(1) by (simp add: capture_artifact_identity_def ox_fs_def map_ok_def ox_tree_def)
  then have loc: "locate_artifact ex_lib (ox_fs ox_tree) ?input = Inr (ox_root, ox_root, FileSetIdentity i)"
    by (simp add: locate_artifact_def sealed_acquisition_def) (simp add: ox_fs_def)
  have tok: "validate_token (''pastey-output-slot-regular-file-set-seal-v1:'' @ replicate 64 CHR ''2'') ''Acquisition source'' = Inr ()"
    "validate_token ''x'' ''Bridge'' = Inr ()" by code_simp+
  have "validate_input ?input 10 = Inr ()"
    using tok by (simp add: validate_input_def sealed_acquisition_def assms ox_access_def ox_context_def ex_context_def MAX_TEXT_def contains_char_def
      MAX_BINDING_LIFETIME_SECONDS_def)
  moreover have obj: "validate_managed_object_id ex_lib ex_object = Inr ()"
    by (simp add: validate_managed_object_id_def ex_object_def strip_prefix_def ex_lib_def plain_lib_def ex_uuid_def)
  moreover have revs: "hm_contains (os_revisions ex_bound) (ex_object, 1)" "\<not> hm_contains (os_revisions ex_bound) (ex_object, 2)"
      "hm_get (os_revisions (prune_expired 10 ex_bound)) (ex_object, 2) = None"
    by (simp_all add: ex_bound_def hm_contains_def hm_get_def prune_expired_def retain_claimed_revisions_def hm_retain_def)
  ultimately have checks: "acquire_checks ex_lib (ox_fs ox_tree) ?input ex_object 2 (Some (replicate 64 CHR ''2'')) 10 (prune_expired 10 ex_bound)
      = Inr (ox_root, ox_root, FileSetIdentity i)"
    by (simp add: acquire_checks_def loc i(2))
  have "ha_kind ?input = GeneratedArtifact" by (simp add: sealed_acquisition_def)
  then have "\<exists>a objects'. register_core_transform_revision ex_lib (ox_fs ox_tree) (ex_uuid CHR ''c'') ?input ex_object 2 (replicate 64 CHR ''2'') 10 ex_bound = (Inr a, objects')"
    using revs by (simp add: register_core_transform_revision_def obj acquire_def Let_def checks)
  with out show ?thesis by (auto simp: register_sealed_transform_output_def assms ox_access_run)
qed

lemma ox_reaches: "resolver_init ox_new \<and> rtranclp (sound_step ex_lib) ox_new (ox_slot [(''a'', ox_file False)] False)"
proof -
  have s: "sound_step ex_lib ox_new (ox_slot [] False)" "sound_step ex_lib (ox_slot [] False) ox_staged"
    "sound_step ex_lib ox_staged (ox_slot [(''a'', ox_file False)] False)"
    using step_output_slot [of ex_lib ox_new ox_disk ox_state ox_access "''handle''" 8]
      step_stage [of ex_lib "ox_slot [] False" ox_state ox_access "''handle''" ox_digest "[1]"]
      step_apply [of ex_lib ox_staged ox_disk 10 ox_request ex_bound] resolver_label.distinct
    by (fastforce simp: sound_step_def ox_provision ox_stage ox_apply)+
  have "resolver_init ox_new" by (auto simp: resolver_init_def ox_new_def)
  with s show ?thesis by (meson converse_rtranclp_into_rtranclp rtranclp.rtrancl_refl)
qed

theorem private_files_within_quota_witness:
  "\<exists>files. hm_get (rv_backings (ox_slot [(''a'', ox_file False)] False)) ''handle'' = Some (BackOutputSlot ox_owner ox_root files 8 False)
    \<and> total_size files \<le> 8 \<and> unat (tracked_bytes files) = total_size files"
proof -
  have b: "hm_get (rv_backings (ox_slot [(''a'', ox_file False)] False)) ''handle'' = Some (BackOutputSlot ox_owner ox_root [(''a'', ox_file False)] 8 False)"
    by (simp add: ox_slot_def hm_get_def)
  from private_files_within_quota [OF ox_reaches [THEN conjunct1] ox_reaches [THEN conjunct2] b, of ox_root "[(''a'', ox_file False)]" 8] b
  show ?thesis by (auto simp: private_part_def)
qed

theorem write_evidence_exact_witness:
  "\<exists>evidence st'. enforce ex_lib (HostManagedResourceBackendV1_apply ex_lib ox_disk 10) ox_request ex_current (ex_bound, ox_staged) ox_state
      = (Inr evidence, (ex_bound, ox_slot [(''a'', ox_file False)] False), st')
    \<and> (\<exists>p. held_file (ox_slot [(''a'', ox_file False)] False) ''handle'' ''a'' = Some p
        \<and> ee_facts evidence = FactResource ''handle'' (pf_generation p) (si_digest (pf_identity p)) (si_byte_count (pf_identity p)))"
proof -
  have q: "rq_effect ox_request = EffResource ox_effect" "re_verb ox_effect \<in> {Create, Replace}" "re_handle_ref ox_effect = ''handle''" "re_relative_selector ox_effect = ''a''"
    by (simp_all add: ox_request_def ox_request_body_def ex_request_body_def ox_effect_def)
  from ox_enforce [of ex_bound] obtain evidence st' where
    e: "enforce ex_lib (HostManagedResourceBackendV1_apply ex_lib ox_disk 10) ox_request ex_current (ex_bound, ox_staged) ox_state
      = (Inr evidence, (ex_bound, ox_slot [(''a'', ox_file False)] False), st')" and "ee_decision evidence = Allowed" by blast
  with write_evidence_exact [OF e q(1,2)] show ?thesis unfolding q(3,4) by (metis (no_types, lifting))
qed

theorem sealed_output_frozen_witness:
  "\<exists>seal st evidence. seal_output_slot ex_lib (ox_fs ox_tree) st ox_access ''handle'' ''.'' [evidence] (ox_slot [(''a'', ox_file False)] False)
      = (Inr seal, ox_slot [(''a'', ox_file True)] True)
    \<and> (\<exists>owner' files' quota'. hm_get (rv_backings (snd (take_read ''r'' (ox_slot [(''a'', ox_file True)] True)))) ''handle''
          = Some (BackOutputSlot owner' ox_root files' quota' True) \<and> contents files' = [(''a'', ox_identity, 1)])"
proof -
  from ox_enforce [of ex_bound] obtain evidence st where
    "ee_facts evidence = FactResource ''handle'' 1 ox_digest 1" "ee_request_id evidence = rq_request_id ox_request"
    "validate_attachment ex_lib st ox_access ''handle'' OutputSlot = Inr ox_grant" "terminal_evidence ex_lib st ox_access ''handle'' evidence = Inr ()" by blast
  from ox_seal [OF this(3,4,1,2)] obtain seal where
    s: "seal_output_slot ex_lib (ox_fs ox_tree) st ox_access ''handle'' ''.'' [evidence] (ox_slot [(''a'', ox_file False)] False)
      = (Inr seal, ox_slot [(''a'', ox_file True)] True)" by blast
  have "spares ex_lib ''handle'' (ox_slot [(''a'', ox_file True)] True) (snd (take_read ''r'' (ox_slot [(''a'', ox_file True)] True)))"
    unfolding spares_def using step_take_read by blast
  then have "rtranclp (spares ex_lib ''handle'') (ox_slot [(''a'', ox_file True)] True) (snd (take_read ''r'' (ox_slot [(''a'', ox_file True)] True)))" ..
  from sealed_output_frozen [OF s this] s show ?thesis
    by (auto simp: ox_slot_def hm_get_def contents_def ox_file_def)
qed

theorem registered_revision_is_sealed_output_witness:
  "\<exists>evidence st seal objects' acquisition rv'. register_sealed_transform_output ex_lib (ox_fs ox_tree) (ex_uuid CHR ''c'') ox_access seal ex_object 2
        ''a'' ''a/b'' 30 ex_bound (ox_slot [(''a'', ox_file True)] True) = (Inr acquisition, objects', rv')
    \<and> accounted st ox_access ''handle'' [evidence] ox_digest 1
    \<and> (\<exists>claim. hm_get (os_revisions objects') (ex_object, 2) = Some claim \<and> rc_content_digest claim = replicate 64 CHR ''2'')"
proof -
  from ox_enforce [of ex_bound] obtain evidence st where
    "ee_facts evidence = FactResource ''handle'' 1 ox_digest 1" "ee_request_id evidence = rq_request_id ox_request"
    "validate_attachment ex_lib st ox_access ''handle'' OutputSlot = Inr ox_grant" "terminal_evidence ex_lib st ox_access ''handle'' evidence = Inr ()" by blast
  from ox_seal [OF this(3,4,1,2)] obtain seal where
    s: "seal_output_slot ex_lib (ox_fs ox_tree) st ox_access ''handle'' ''.'' [evidence] (ox_slot [(''a'', ox_file False)] False)
      = (Inr seal, ox_slot [(''a'', ox_file True)] True)" and
    f: "so_content_digest seal = replicate 64 CHR ''2''" "so_entry_count seal = 1" "so_bytes seal = 1" "so_representation seal = RegularFileSet"
    "so_handle_ref seal = ''handle''" "so_relative_selector seal = ''.''" "so_envelope_ref seal = ev_envelope_ref ox_envelope"
    "so_run_control_ref seal = ''run''" "so_context_ref seal = ox_context_ref"
    "so_seal_ref seal = ''pastey-output-slot-regular-file-set-seal-v1:'' @ replicate 64 CHR ''2''" by blast
  from ox_register [OF f] obtain acquisition objects' rv' where
    r: "register_sealed_transform_output ex_lib (ox_fs ox_tree) (ex_uuid CHR ''c'') ox_access seal ex_object 2 ''a'' ''a/b'' 30 ex_bound
      (ox_slot [(''a'', ox_file True)] True) = (Inr acquisition, objects', rv')" by blast
  have b: "hm_get (rv_backings (ox_slot files z)) ''handle'' = Some (BackOutputSlot ox_owner ox_root files 8 z)" for files z
    by (simp add: ox_slot_def hm_get_def)
  have n: "hf_node (ox_fs ox_tree) ox_root = Some ox_tree" by (simp add: ox_fs_def)
  have "collision_free ex_lib (tree_messages ex_lib ox_tree \<union> tree_messages ex_lib ox_tree)"
    unfolding tree_messages_def logical_tree_def ox_wf(4) collision_free_def
    by (auto simp: inj_on_def ex_of_bytes) (auto simp: ex_lib_def file_set_message_def)
  from registered_revision_is_sealed_output [OF hex_digests_ex_lib s r b n ox_wf(1) b n ox_wf(1) this] r f(1)
  have "accounted st ox_access ''handle'' [evidence] ox_digest 1"
    "\<exists>claim. hm_get (os_revisions objects') (ex_object, 2) = Some claim \<and> rc_content_digest claim = replicate 64 CHR ''2''"
    by (simp_all add: ox_wf(4) ex_of_bytes) (simp_all add: ex_lib_def ox_digest_def)
  with r show ?thesis by blast
qed

section \<open>What the facts of a process leave out\<close>

definition ox_two :: "u64 \<Rightarrow> ManagedResourceResolverV1" where
  "ox_two g = ox_new\<lparr>rv_backings := [(''handle'', BackOutputSlot ox_owner ox_root [(''a'', (ox_file False)\<lparr>pf_generation := g\<rparr>)] 8 False),
     (''scratch'', BackScratch ox_owner ox_root [(''a'', ox_file False)] 8)]\<rparr>"

definition ox_mount :: "ResourceHandleRefV1 \<Rightarrow> ResourceKindV1 \<Rightarrow> ExecutionWorldMountV1" where
  "ox_mount h kind = \<lparr>mt_handle_ref = h, mt_kind = kind, mt_source_path = ox_root, mt_mount_name = ''m'', mt_writable = True,
     mt_quota_bytes = 8, mt_allowed_verbs = {|Create, Replace|}, mt_private_overlay = True, mt_initial_bytes = 1\<rparr>"

definition ox_release :: release_disk where
  "ox_release = \<lparr>rd_fs = ox_fs ox_tree, rd_removed = (\<lambda>_ _. False), rd_written = (\<lambda>_ _. ox_disk)\<rparr>"

lemma ox_reconcile:
  assumes "pf_identity p = ox_identity"
  shows "reconcile_private_overlay ex_lib (ox_fs ox_tree) removed Ds ox_root ox_root 8 r verbs [(''a'', p)]
     = (Inr [(''a'', pf_generation p, ox_digest, 1)], [(''a'', p)])"
proof -
  have same: "\<not> content_changed ox_identity p" by (simp add: content_changed_def assms)
  have "si_digest (pf_identity p) = ox_digest" "si_byte_count (pf_identity p) = 1" by (simp_all add: assms ox_identity_def)
  then show ?thesis
    by (simp add: reconcile_private_overlay_def ox_scan overlay_permitted_def hm_keys_def hm_contains_def hm_get_def commit_file_def same
      hm_insert_def)
qed

text \<open>The facts of a process do not bind its outputs. When mounts are released, the observations of all of them go
  into one map keyed by the selector alone, so a scratch file hides the output file of the same name: two releases
  whose output slots hold different generations of \<open>a\<close> report equal facts, and the digest of the effects of the
  process, taken over these facts, is the same for both.\<close>

theorem released_facts_lose_output:
  "\<exists>facts. fst (release_execution_world_mounts ex_lib ox_release ox_access ''r'' [ox_mount ''handle'' OutputSlot, ox_mount ''scratch'' Scratch] (ex_bound, ox_two 5)) = Inr facts
    \<and> fst (release_execution_world_mounts ex_lib ox_release ox_access ''r'' [ox_mount ''handle'' OutputSlot, ox_mount ''scratch'' Scratch] (ex_bound, ox_two 9)) = Inr facts
    \<and> map_option pf_generation (held_file (ox_two 5) ''handle'' ''a'') = Some 5 \<and> map_option pf_generation (held_file (ox_two 9) ''handle'' ''a'') = Some 9"
proof -
  have id: "pf_identity (ox_file s) = ox_identity" "pf_generation (ox_file s) = 1" for s by (simp_all add: ox_file_def)
  have "fst (release_execution_world_mounts ex_lib ox_release ox_access ''r'' [ox_mount ''handle'' OutputSlot, ox_mount ''scratch'' Scratch] (ex_bound, ox_two g))
      = Inr [(''a'', 1, ox_digest, 1)]" for g
    by (simp add: release_execution_world_mounts_def reconcile_execution_mount_def Let_def ox_two_def hm_get_def ox_mount_def ox_release_def ox_owner_of
      ox_reconcile id hm_insert_def)
  moreover have "map_option pf_generation (held_file (ox_two g) ''handle'' ''a'') = Some g" for g
    by (simp add: held_file_def ox_two_def hm_get_def private_part_def)
  ultimately show ?thesis by simp
qed
end
