(* ===== verification/World_Properties.thy ===== *)
theory World_Properties
  imports Execution_Worlds Resource_Properties
begin

text \<open>
  What execution worlds guarantee: a process that ran is one that was staged, its output is counted within the reserved budget,
  a clean exit is only reported when every poll was within bounds, an invocation runs once per staging, an ended run starts nothing
  until a world is provisioned for it again; and three ways in which the code falls short of what it means to do. What lasts over
  further steps is proved once, in the locale \<open>world_frame\<close>, and interpreted for each property.
\<close>

section \<open>Worlds and their invocations\<close>

definition staged_ok :: "lib \<Rightarrow> ProvisionedWorldV1 \<Rightarrow> bool" where
  "staged_ok L world \<longleftrightarrow> (\<forall>(key, invocation) \<in> set (wd_invocations world). key = own_key L invocation
     \<and> validate_invocation invocation = Inr () \<and> pi_executable_handle invocation |\<in>| wg_executable_resources (wd_grant world))"

text \<open>The platform of a world was available as the one granted, verified for every required property.\<close>

definition confined :: "ProvisionedWorldV1 \<Rightarrow> bool" where
  "confined world \<longleftrightarrow> av_available (wd_availability world)
     \<and> av_identity_digest (wd_availability world) = wg_world_identity_digest (wd_grant world)
     \<and> required_properties |\<subseteq>| av_verified_properties (wd_availability world)
     \<and> required_properties |\<subseteq>| wg_required_properties (wd_grant world)"

definition world_ok :: "lib \<Rightarrow> ProvisionedWorldV1 \<Rightarrow> bool" where
  "world_ok L world \<longleftrightarrow> staged_ok L world \<and> confined world"

definition world_inv :: "lib \<Rightarrow> ExecutionWorldStateV1 \<Rightarrow> bool" where
  "world_inv L es \<longleftrightarrow> (\<forall>(_, world) \<in> set (es_worlds es). world_ok L world)
     \<and> (\<forall>(process_ref, process) \<in> set (es_processes es). mp_process_ref process = process_ref)"

lemma hm_insert_subset: "set (hm_insert k v m) \<subseteq> insert (k, v) (set m)"
  by (induction m) (auto simp: hm_insert_def)

lemma hm_remove_subset: "set (hm_remove k m) \<subseteq> set m"
  by (auto simp: hm_remove_def AList.delete_eq)

lemma hm_get_retain_key [hmap_simps]: "hm_get (hm_retain (\<lambda>k _. Q k) m) k = (if Q k then hm_get m k else None)"
  by (induction m) (auto simp: hm_get_def hm_retain_def)

lemma world_invD: "world_inv L es \<Longrightarrow> hm_get (es_worlds es) w = Some world \<Longrightarrow> world_ok L world"
  by (auto simp: world_inv_def dest: hm_get_pair)

lemma world_inv_insert: "world_inv L es \<Longrightarrow> world_ok L world \<Longrightarrow> world_inv L (es\<lparr>es_worlds := hm_insert w world (es_worlds es)\<rparr>)"
  using hm_insert_subset [of w world "es_worlds es"] by (auto simp: world_inv_def)

lemma world_inv_other [simp]:
  "world_inv L (es\<lparr>es_completed := cs\<rparr>) \<longleftrightarrow> world_inv L es"
  "world_inv L (es\<lparr>es_next_process_nonce := n\<rparr>) \<longleftrightarrow> world_inv L es"
  by (simp_all add: world_inv_def)

lemma world_inv_track: "world_inv L es \<Longrightarrow> world_inv L (es\<lparr>es_processes := hm_insert (mp_process_ref process) process (es_processes es)\<rparr>)"
  using hm_insert_subset [of "mp_process_ref process" process "es_processes es"] by (auto simp: world_inv_def)

lemma world_inv_untrack: "world_inv L es \<Longrightarrow> world_inv L (es\<lparr>es_processes := hm_remove pref (es_processes es)\<rparr>)"
  using hm_remove_subset [of pref "es_processes es"] by (auto simp: world_inv_def)

lemma world_ok_revoked [simp]: "world_ok L (world\<lparr>wd_revoked := b\<rparr>) \<longleftrightarrow> world_ok L world"
  by (simp add: world_ok_def staged_ok_def confined_def)

lemma world_ok_invocations:
  "world_ok L (world\<lparr>wd_invocations := m\<rparr>) \<longleftrightarrow> staged_ok L (world\<lparr>wd_invocations := m\<rparr>) \<and> confined world"
  by (simp add: world_ok_def confined_def)

text \<open>What other threads may do between two locks: stage an invocation, fetch an observation, or either half of ending
  worlds.\<close>

inductive lifecycle :: "lib \<Rightarrow> ExecutionWorldStateV1 \<Rightarrow> ExecutionWorldStateV1 \<Rightarrow> bool" for L where
  life_stage: "lifecycle L es (snd (stage_invocation L access w invocation es))"
| life_take: "lifecycle L es (snd (take_completed_observation L access r es))"
| life_mark: "lifecycle L es (mark_revoked P es)"
| life_remove: "lifecycle L es (remove_ended P ps ws es)"

definition calm :: "lib \<Rightarrow> (ExecutionWorldStateV1 \<Rightarrow> ExecutionWorldStateV1) \<Rightarrow> bool" where
  "calm L f \<longleftrightarrow> (\<forall>es. rtranclp (lifecycle L) es (f es))"

lemma stage_cases:
  assumes "stage_invocation L access w invocation es = (result, es')"
  obtains (refused) "es' = es" "\<not> is_ok result"
  | (staged) world where "hm_get (es_worlds es) w = Some world" "validate_invocation invocation = Inr ()"
      "validate_world_owner L (wd_owner world) access = Inr ()" "\<not> staging_mismatch L invocation world"
      "es' = es\<lparr>es_worlds := hm_insert w (world\<lparr>wd_invocations := hm_insert (own_key L invocation) invocation (wd_invocations world)\<rparr>) (es_worlds es)\<rparr>"
proof -
  let ?checks = "and_then (validate_invocation invocation) (\<lambda>_.
         and_then (ok_or (hm_get (es_worlds es) w) (ResInvalid ''Execution world is unavailable.'')) (\<lambda>world.
         and_then (validate_world_owner L (wd_owner world) access) (\<lambda>_.
         and_then (ensure (\<not> staging_mismatch L invocation world)
           (ResInvalid ''Process invocation widens or duplicates its execution world.'')) (\<lambda>_.
         Inr (world\<lparr>wd_invocations := hm_insert (own_key L invocation) invocation (wd_invocations world)\<rparr>)))))"
  show thesis
  proof (cases ?checks)
    case (Inl e)
    with assms show thesis by (intro refused) (auto simp: stage_invocation_def)
  next
    case (Inr world')
    then obtain world where "hm_get (es_worlds es) w = Some world" "validate_invocation invocation = Inr ()"
      "validate_world_owner L (wd_owner world) access = Inr ()" "\<not> staging_mismatch L invocation world"
      "world' = world\<lparr>wd_invocations := hm_insert (own_key L invocation) invocation (wd_invocations world)\<rparr>"
      by (auto simp: res_simps)
    with Inr assms show thesis by (intro staged) (auto simp: stage_invocation_def)
  qed
qed

lemma take_completed_worlds [simp]:
  "es_worlds (snd (take_completed_observation L access r es)) = es_worlds es"
  "es_processes (snd (take_completed_observation L access r es)) = es_processes es"
  by (simp_all add: take_completed_observation_def split: option.split sum.split)

lemma world_inv_lifecycle: "lifecycle L es es' \<Longrightarrow> world_inv L es \<Longrightarrow> world_inv L es'"
proof (induction rule: lifecycle.induct)
  case (life_stage es access w invocation)
  obtain result es' where s: "stage_invocation L access w invocation es = (result, es')" by fastforce
  then have "world_inv L es'"
  proof (cases rule: stage_cases)
    case (staged world)
    from world_invD [OF life_stage staged(1)] have ok: "staged_ok L world" "confined world" by (simp_all add: world_ok_def)
    have "pi_executable_handle invocation |\<in>| wg_executable_resources (wd_grant world)" using staged(4) by (simp add: staging_mismatch_def)
    with ok staged(2) hm_insert_subset [of "own_key L invocation" invocation "wd_invocations world"]
    have "world_ok L (world\<lparr>wd_invocations := hm_insert (own_key L invocation) invocation (wd_invocations world)\<rparr>)"
      by (auto simp: staged_ok_def world_ok_invocations)
    from world_inv_insert [OF life_stage this] show ?thesis by (simp add: staged(5))
  qed (simp add: life_stage)
  with s show ?case by simp
next
  case (life_take es access r)
  then show ?case by (simp add: world_inv_def)
next
  case (life_mark es P)
  then show ?case by (auto simp: world_inv_def mark_revoked_def hm_map_values_def)
next
  case (life_remove es P ps ws)
  then show ?case by (auto simp: world_inv_def remove_ended_def hm_retain_def)
qed

lemma world_inv_calm: "calm L f \<Longrightarrow> world_inv L es \<Longrightarrow> world_inv L (f es)"
proof -
  assume "calm L f" "world_inv L es"
  then have "rtranclp (lifecycle L) es (f es)" by (simp add: calm_def)
  then show ?thesis using \<open>world_inv L es\<close> by (induction rule: rtranclp_induct) (auto intro: world_inv_lifecycle)
qed

section \<open>A spawn step by step\<close>

lemma take_invocation_cases:
  assumes "take_invocation L q w x key es = (result, es')"
  obtains (refused) e where "result = Inl e" "es_worlds es' = es_worlds es" "es_processes es' = es_processes es"
  | (used) world invocation where "hm_get (es_worlds es) w = Some world" "process_request_owner L (wd_owner world) q = Inr ()"
      "\<not> wd_revoked world" "hm_get (wd_invocations world) key = Some invocation"
      "es_worlds es' = hm_insert w (world\<lparr>wd_invocations := hm_remove key (wd_invocations world)\<rparr>) (es_worlds es)"
      "\<forall>a. result = Inr a \<longrightarrow> (\<exists>identity pref. a = (world, invocation, identity, pref) \<and> hm_get (wd_resource_identity_refs world) x = Some identity)"
      "es_processes es' = es_processes es"
proof (cases "checked_add (es_next_process_nonce es) 1")
  case None
  with assms show thesis by (intro refused) (auto simp: take_invocation_def)
next
  case (Some nonce)
  let ?checks = "and_then (ok_or (hm_get (es_worlds es) w) (ResInvalid ''Execution world is unavailable.'')) (\<lambda>world.
              and_then (process_request_owner L (wd_owner world) q) (\<lambda>_.
              and_then (ensure (\<not> wd_revoked world) (ResInvalid ''Execution world is revoked.'')) (\<lambda>_.
              and_then (ok_or (hm_get (wd_invocations world) key)
                (ResInvalid ''Exact staged process invocation is unavailable.'')) (\<lambda>invocation.
              Inr (world, invocation)))))"
  show thesis
  proof (cases ?checks)
    case (Inl e)
    with assms Some show thesis by (intro refused) (auto simp: take_invocation_def Let_def)
  next
    case (Inr a)
    then obtain world invocation where a: "a = (world, invocation)" "hm_get (es_worlds es) w = Some world"
      "process_request_owner L (wd_owner world) q = Inr ()" "\<not> wd_revoked world" "hm_get (wd_invocations world) key = Some invocation"
      by (auto simp: res_simps)
    with assms Some Inr have "es_worlds es' = hm_insert w (world\<lparr>wd_invocations := hm_remove key (wd_invocations world)\<rparr>) (es_worlds es)"
      and "\<forall>b. result = Inr b \<longrightarrow> (\<exists>identity pref. b = (world, invocation, identity, pref) \<and> hm_get (wd_resource_identity_refs world) x = Some identity)"
      and "es_processes es' = es_processes es"
      by (auto simp: take_invocation_def Let_def res_simps)
    with a show thesis by (intro used) auto
  qed
qed

lemma settle_worlds: "settle L R q process (objects, rv, es) = (result, objects', rv', es') \<Longrightarrow> es' = es"
  by (auto simp: settle_def split: option.splits prod.splits)


text \<open>The state once the process is recorded.\<close>

definition tracked :: "process_run \<Rightarrow> ExecutionWorldStateV1 \<Rightarrow> ManagedProcessV1 \<Rightarrow> ExecutionWorldStateV1" where
  "tracked R es process = (sr_taken R es)\<lparr>es_processes := hm_insert (mp_process_ref process) process (es_processes (sr_taken R es))\<rparr>"

lemma new_process_ref [simp]:
  "mp_process_ref (new_process q w argv environment world identity pref) = pref"
  "mp_owner (new_process q w argv environment world identity pref) = wd_owner world"
  by (simp_all add: new_process_def Let_def)

lemma take_invocation_world:
  "take_invocation L q w x key es = (Inr (world, invocation, identity, pref), es') \<Longrightarrow> hm_get (es_worlds es) w = Some world"
  by (erule take_invocation_cases) auto

lemma backend_spawn_cases:
  assumes "HostManagedProcessBackendV1_apply L R caps q (objects, rv, es) = (Completed outcome, objects', rv', es')"
    and "rq_effect q = EffProcess (Spawn w x argv cwd_handle cwd_selector environment stdin)"
  obtains (refused) es1 where "bo_decision outcome = Denied" "bo_facts outcome = FactNone"
      "es' = es1 \<or> (\<exists>p world. hm_get (es_worlds es) w = Some world \<and> mp_owner p = wd_owner world
        \<and> (es' = sr_start R (tracked R es1 p) \<or> es' = sr_during R (sr_start R (tracked R es1 p))))"
      "\<exists>result. take_invocation L q w x (invocation_key L x argv environment stdin cwd_handle cwd_selector) es = (result, es1)"
  | (ran) world invocation identity pref es1 es2 observation digest where
      "take_invocation L q w x (invocation_key L x argv environment stdin cwd_handle cwd_selector) es = (Inr (world, invocation, identity, pref), es1)"
      "launch_checks R q world invocation = Inr ()"
      "es2 = sr_during R (sr_start R (tracked R es1 (new_process q w argv environment world identity pref)))"
      "monitor_process (new_process q w argv environment world identity pref) False False False (sr_polls R) = Some observation"
      "settle L R q (new_process q w argv environment world identity pref) (objects, rv, es2) = (Inr digest, objects', rv', es2)"
      "outcome = process_outcome L (new_process q w argv environment world identity pref)
         (start_capture L (bg_read_bytes (rq_requested_budget_slice q) div 2) (fst (sr_stdout R)) (snd (sr_stdout R)))
         (start_capture L (saturating_sub (bg_read_bytes (rq_requested_budget_slice q)) (bg_read_bytes (rq_requested_budget_slice q) div 2))
            (fst (sr_stderr R)) (snd (sr_stderr R))) observation digest ''contained_process_exited''"
      "\<exists>observed. po_owner observed = wd_owner world \<and> es' = es2\<lparr>es_processes := hm_remove pref (es_processes es2),
         es_completed := hm_insert (rq_request_id q) observed (es_completed es2)\<rparr>"
proof -
  let ?key = "invocation_key L x argv environment stdin cwd_handle cwd_selector"
  obtain result es1 where t: "take_invocation L q w x ?key es = (result, es1)" by fastforce
  show thesis
  proof (cases result)
    case (Inl e)
    with assms t show thesis by (intro refused) (auto simp: HostManagedProcessBackendV1_apply_def apply_spawn_def)
  next
    case (Inr a)
    obtain world invocation identity pref where a: "a = (world, invocation, identity, pref)" by (cases a) auto
    note t = t [unfolded Inr a]
    note here = take_invocation_world [OF t]
    show thesis
    proof (cases "launch_checks R q world invocation")
      case (Inl e)
      with assms t show thesis by (intro refused) (auto simp: HostManagedProcessBackendV1_apply_def apply_spawn_def)
    next
      case ok: (Inr u)
      let ?p = "new_process q w argv environment world identity pref"
      let ?es = "sr_start R (tracked R es1 ?p)"
      have t': "tracked R es1 ?p = (sr_taken R es1)\<lparr>es_processes := hm_insert pref ?p (es_processes (sr_taken R es1))\<rparr>"
        by (simp add: tracked_def)
      have third: "es'' = es1 \<or> (\<exists>p world. hm_get (es_worlds es) w = Some world \<and> mp_owner p = wd_owner world
          \<and> (es'' = sr_start R (tracked R es1 p) \<or> es'' = sr_during R (sr_start R (tracked R es1 p))))"
        if "es'' = ?es \<or> es'' = sr_during R ?es" for es''
        using here that by (intro disjI2 exI [of _ ?p] exI [of _ world]) simp
      show thesis
      proof (cases "hm_contains (es_processes ?es) pref")
        case False
        with assms t ok show thesis
          by (intro refused [of es1] third) (auto simp: HostManagedProcessBackendV1_apply_def apply_spawn_def Let_def t' [symmetric])
      next
        case present: True
        show thesis
        proof (cases "monitor_process ?p False False False (sr_polls R)")
          case None
          with assms t ok present show thesis
            by (intro refused [of es1] third) (auto simp: HostManagedProcessBackendV1_apply_def apply_spawn_def Let_def t' [symmetric])
        next
          case (Some observation)
          obtain settled o1 rv1 es3 where st: "settle L R q ?p (objects, rv, sr_during R ?es) = (settled, o1, rv1, es3)"
            by (cases "settle L R q ?p (objects, rv, sr_during R ?es)") auto
          from settle_worlds [OF st] have es3: "es3 = sr_during R ?es" .
          show thesis
          proof (cases settled)
            case (Inl e)
            with assms t ok present Some st es3 show thesis
              by (intro refused [of es1] third) (auto simp: HostManagedProcessBackendV1_apply_def apply_spawn_def Let_def t' [symmetric])
          next
            case (Inr digest)
            let ?n = "bg_read_bytes (rq_requested_budget_slice q)"
            let ?out = "start_capture L (?n div 2) (fst (sr_stdout R)) (snd (sr_stdout R))"
            let ?err = "start_capture L (saturating_sub ?n (?n div 2)) (fst (sr_stderr R)) (snd (sr_stderr R))"
            let ?seen = "\<lparr>po_owner = mp_owner ?p, po_state = to_state observation, po_exit_code = to_exit_code observation,
              po_stdout_excerpt = sc_excerpt ?out, po_stdout_truncated = sc_exceeded ?out, po_stderr_excerpt = sc_excerpt ?err,
              po_stderr_truncated = sc_exceeded ?err, po_duration_millis = sr_duration R\<rparr>"
            note run = assms t ok present Some st es3 Inr
            have "es' = (sr_during R ?es)\<lparr>es_processes := hm_remove pref (es_processes (sr_during R ?es)),
                es_completed := hm_insert (rq_request_id q) ?seen (es_completed (sr_during R ?es))\<rparr>"
              using run by (auto simp: HostManagedProcessBackendV1_apply_def apply_spawn_def Let_def t' [symmetric])
            then have seen: "\<exists>observed. po_owner observed = wd_owner world \<and> es' = (sr_during R ?es)\<lparr>es_processes := hm_remove pref (es_processes (sr_during R ?es)),
                es_completed := hm_insert (rq_request_id q) observed (es_completed (sr_during R ?es))\<rparr>"
              by (intro exI [of _ ?seen]) simp
            show thesis
              by (rule ran [OF t _ refl Some _ _ seen])
                (use run in \<open>auto simp: HostManagedProcessBackendV1_apply_def apply_spawn_def Let_def t' [symmetric]\<close>)
          qed
        qed
      qed
    qed
  qed
qed

lemma world_inv_take:
  assumes "take_invocation L q w x key es = (result, es')" and "world_inv L es"
  shows "world_inv L es'"
  using assms(1)
proof (cases rule: take_invocation_cases)
  case (refused e)
  with assms(2) show ?thesis by (simp add: world_inv_def)
next
  case (used world invocation)
  from world_invD [OF assms(2) used(1)] hm_remove_subset [of key "wd_invocations world"]
  have "world_ok L (world\<lparr>wd_invocations := hm_remove key (wd_invocations world)\<rparr>)" by (auto simp: world_ok_def confined_def staged_ok_def)
  from world_inv_insert [OF assms(2) this] used(5,7) show ?thesis by (simp add: world_inv_def)
qed

lemma provision_cases:
  assumes "provision_world L P LD RD fresh st access w (objects, rv, es) = (result, objects', rv', es')"
  obtains (refused) e where "result = Inl e" "es' = es"
  | (provisioned) grant grants mounts ow where
      "provision_checks L (plat_availability P) st access w = Inr (grant, grants)" "world_owner L access = Inr ow"
      "\<not> hm_contains (es_worlds es) w"
      "es' = es\<lparr>es_worlds := hm_insert w \<lparr>wd_owner = ow, wd_grant = grant, wd_access = access, wd_availability = plat_availability P,
         wd_mounts = mounts, wd_resource_identity_refs = foldl (\<lambda>m g. hm_insert (rg_handle_ref g) (rg_safe_identity_ref g) m) [] grants,
         wd_invocations = [], wd_revoked = False\<rparr> (es_worlds es)\<rparr>" "result = Inr ()"
proof (cases "provision_checks L (plat_availability P) st access w")
  case (Inl e)
  with assms show thesis by (intro refused) (auto simp: provision_world_def)
next
  case (Inr a)
  obtain grant grants where a: "a = (grant, grants)" by (cases a)
  show thesis
  proof (cases result)
    case (Inl e)
    from assms Inr a Inl have "es' = es" by (auto simp: provision_world_def split: sum.splits prod.splits if_splits)
    with Inl show thesis by (rule refused)
  next
    case ok: (Inr u)
    with assms Inr a obtain mounts ow where "world_owner L access = Inr ow" "\<not> hm_contains (es_worlds es) w"
      "es' = es\<lparr>es_worlds := hm_insert w \<lparr>wd_owner = ow, wd_grant = grant, wd_access = access, wd_availability = plat_availability P,
         wd_mounts = mounts, wd_resource_identity_refs = foldl (\<lambda>m g. hm_insert (rg_handle_ref g) (rg_safe_identity_ref g) m) [] grants,
         wd_invocations = [], wd_revoked = False\<rparr> (es_worlds es)\<rparr>"
      by (auto simp: provision_world_def split: sum.splits prod.splits if_splits)
    with Inr a ok show thesis by (intro provisioned) auto
  qed
qed

lemma backend_signal_cases:
  assumes "HostManagedProcessBackendV1_apply L R caps q (objects, rv, es) = (Completed outcome, objects', rv', es')"
    and "\<And>w x argv ch cs environment stdin. rq_effect q \<noteq> EffProcess (Spawn w x argv ch cs environment stdin)"
  obtains (same) "es' = es" | (waited) "es' = sr_during R es"
  | (ended) pref where "es' = (sr_during R es)\<lparr>es_processes := hm_remove pref (es_processes (sr_during R es))\<rparr>"
proof (cases "rq_effect q")
  case (EffProcess effect)
  show thesis
  proof (cases effect)
    case Spawn
    with EffProcess assms(2) show thesis by simp
  next
    case (Signal w pref signal)
    have "es' = es \<or> es' = sr_during R es \<or> es' = (sr_during R es)\<lparr>es_processes := hm_remove pref (es_processes (sr_during R es))\<rparr>"
      using assms(1) EffProcess Signal
      by (auto simp: HostManagedProcessBackendV1_apply_def apply_signal_def Let_def split: prod.splits sum.splits option.splits dest: settle_worlds)
    with that show thesis by blast
  qed
qed (use assms(1) same in \<open>auto simp: HostManagedProcessBackendV1_apply_def\<close>)

section \<open>Steps of the service\<close>

text \<open>The steps of the service when other threads move it by \<open>life\<close> only and worlds are provisioned under an access that \<open>may\<close> have one:
  a provisioning, a move of another thread, a process effect with such moves between its locks.\<close>

inductive world_step_on :: "lib \<Rightarrow> (ExecutionWorldStateV1 \<Rightarrow> ExecutionWorldStateV1 \<Rightarrow> bool) \<Rightarrow> (ManagedResourceAccessV1 \<Rightarrow> bool)
    \<Rightarrow> ExecutionWorldStateV1 \<Rightarrow> ExecutionWorldStateV1 \<Rightarrow> bool" for L life may where
  on_provision: "may access \<Longrightarrow> world_step_on L life may es (snd (snd (snd (provision_world L P LD RD fresh st access w (objects, rv, es)))))"
| on_life: "life es es' \<Longrightarrow> world_step_on L life may es es'"
| on_effect: "\<forall>es. rtranclp life es (sr_taken R es) \<Longrightarrow> \<forall>es. rtranclp life es (sr_start R es) \<Longrightarrow> \<forall>es. rtranclp life es (sr_during R es) \<Longrightarrow>
    world_step_on L life may es (snd (snd (snd (HostManagedProcessBackendV1_apply L R caps q (objects, rv, es)))))"

text \<open>What such steps keep: a property kept by the moves of other threads, by taking an invocation, by recording and removing a process and by
  recording an observation, both with the owner of a world, and by provisioning.\<close>

locale world_frame =
  fixes L :: lib and life :: "ExecutionWorldStateV1 \<Rightarrow> ExecutionWorldStateV1 \<Rightarrow> bool" and may :: "ManagedResourceAccessV1 \<Rightarrow> bool"
    and kept :: "ExecutionWorldStateV1 \<Rightarrow> bool"
  assumes keeps_life: "kept es \<Longrightarrow> life es es' \<Longrightarrow> kept es'"
    and keeps_take: "kept es \<Longrightarrow> take_invocation L q w x key es = (taken, es') \<Longrightarrow> kept es'"
    and keeps_track: "kept es \<Longrightarrow> hm_get (es_worlds es) w = Some world \<Longrightarrow> mp_owner p = wd_owner world \<Longrightarrow> kept es' \<Longrightarrow>
      kept (es'\<lparr>es_processes := hm_insert (mp_process_ref p) p (es_processes es')\<rparr>)"
    and keeps_untrack: "kept es \<Longrightarrow> kept (es\<lparr>es_processes := hm_remove pref (es_processes es)\<rparr>)"
    and keeps_observe: "kept es \<Longrightarrow> hm_get (es_worlds es) w = Some world \<Longrightarrow> po_owner observed = wd_owner world \<Longrightarrow> kept es' \<Longrightarrow>
      kept (es'\<lparr>es_completed := hm_insert request observed (es_completed es')\<rparr>)"
    and keeps_provision: "kept es \<Longrightarrow> may access \<Longrightarrow>
      provision_world L P LD RD fresh st access w (objects, rv, es) = (result, objects', rv', es') \<Longrightarrow> kept es'"
begin

lemma frame_calm: "\<forall>es. rtranclp life es (f es) \<Longrightarrow> kept es \<Longrightarrow> kept (f es)"
proof -
  assume "\<forall>es. rtranclp life es (f es)" "kept es"
  then have "rtranclp life es (f es)" by simp
  then show ?thesis using \<open>kept es\<close> by (induction rule: rtranclp_induct) (auto intro: keeps_life)
qed

lemma frame_ran:
  assumes "kept es" "hm_get (es_worlds es) w = Some world" "kept es2" "po_owner observed = wd_owner world"
  shows "kept (es2\<lparr>es_processes := hm_remove pref (es_processes es2), es_completed := hm_insert request observed (es_completed es2)\<rparr>)"
  using keeps_observe [OF assms(1,2,4) keeps_untrack [OF assms(3)], of request pref] by simp

lemma frame_backend:
  assumes calm: "\<forall>es. rtranclp life es (sr_taken R es)" "\<forall>es. rtranclp life es (sr_start R es)" "\<forall>es. rtranclp life es (sr_during R es)"
    and kept: "kept es"
  shows "kept (snd (snd (snd (HostManagedProcessBackendV1_apply L R caps q (objects, rv, es)))))"
proof -
  obtain outcome objects' rv' es' where a: "HostManagedProcessBackendV1_apply L R caps q (objects, rv, es) = (Completed outcome, objects', rv', es')"
    by (cases "HostManagedProcessBackendV1_apply L R caps q (objects, rv, es)")
      (auto simp: HostManagedProcessBackendV1_apply_def split: prod.splits)
  have "kept es'"
  proof (cases "\<exists>w x argv ch cs environment stdin. rq_effect q = EffProcess (Spawn w x argv ch cs environment stdin)")
    case True
    then obtain w x argv ch cs environment stdin where e: "rq_effect q = EffProcess (Spawn w x argv ch cs environment stdin)" by blast
    have start: "kept (sr_start R (tracked R es1 p))"
      if "kept es1" "hm_get (es_worlds es) w = Some world" "mp_owner p = wd_owner world" for es1 p world
      unfolding tracked_def by (intro frame_calm [OF calm(2)] keeps_track [OF kept that(2,3)] frame_calm [OF calm(1)] that(1))
    from a e show ?thesis
    proof (cases rule: backend_spawn_cases)
      case (refused es1)
      then have "kept es1" using keeps_take [OF kept] by blast
      with refused(3) start show ?thesis by (auto intro: frame_calm [OF calm(3)])
    next
      case (ran world invocation identity pref es1 es2 observation digest)
      note here = take_invocation_world [OF ran(1)]
      have "kept es2" unfolding ran(3)
        by (intro frame_calm [OF calm(3)] start [OF keeps_take [OF kept ran(1)] here]) simp
      with ran(7) frame_ran [OF kept here] show ?thesis by auto
    qed
  next
    case False
    then have "rq_effect q \<noteq> EffProcess (Spawn w x argv ch cs environment stdin)" for w x argv ch cs environment stdin by blast
    from a this show ?thesis
      by (cases rule: backend_signal_cases) (auto intro: kept frame_calm [OF calm(3) kept] keeps_untrack)
  qed
  with a show ?thesis by simp
qed

lemma frame_steps: "rtranclp (world_step_on L life may) es es' \<Longrightarrow> kept es \<Longrightarrow> kept es'"
proof (induction rule: rtranclp_induct)
  case (step y z)
  from step.hyps(2) step.IH [OF step.prems] show ?case
  proof (induction rule: world_step_on.induct)
    case (on_provision access es P LD RD fresh st w objects rv)
    then show ?case by (cases "provision_world L P LD RD fresh st access w (objects, rv, es)") (auto intro: keeps_provision)
  qed (auto intro: keeps_life frame_backend)
qed

end

lemma provision_checks_confined:
  assumes "provision_checks L av st access w = Inr (grant, grants)"
  shows "confined \<lparr>wd_owner = ow, wd_grant = grant, wd_access = access, wd_availability = av, wd_mounts = ms,
      wd_resource_identity_refs = ids, wd_invocations = [], wd_revoked = False\<rparr>"
  using assms by (auto simp: provision_checks_def res_simps confined_def)

lemma world_inv_provision:
  assumes "world_inv L es"
  shows "world_inv L (snd (snd (snd (provision_world L P LD RD fresh st access w (objects, rv, es)))))"
proof -
  obtain result objects' rv' es' where p: "provision_world L P LD RD fresh st access w (objects, rv, es) = (result, objects', rv', es')"
    by (metis prod_cases4)
  then have "world_inv L es'"
  proof (cases rule: provision_cases)
    case (refused e)
    with assms show ?thesis by simp
  next
    case (provisioned grant grants mounts ow)
    show ?thesis unfolding provisioned(4)
      by (rule world_inv_insert [OF assms]) (simp add: world_ok_def staged_ok_def provision_checks_confined [OF provisioned(1)])
  qed
  with p show ?thesis by simp
qed

interpretation invariant: world_frame L "lifecycle L" "\<lambda>_. True" "world_inv L"
proof unfold_locales
  show "world_inv L es'" if "world_inv L es" "provision_world L P LD RD fresh st access w (objects, rv, es) = (result, objects', rv', es')"
    for es P LD RD fresh st access w objects rv result objects' rv' es'
    using world_inv_provision [OF that(1), of P LD RD fresh st access w objects rv] that(2) by simp
qed (auto intro: world_inv_lifecycle world_inv_take world_inv_track world_inv_untrack)

inductive world_step :: "lib \<Rightarrow> ExecutionWorldStateV1 \<Rightarrow> ExecutionWorldStateV1 \<Rightarrow> bool" for L where
  world_provision: "world_step L es (snd (snd (snd (provision_world L P LD RD fresh st access w (objects, rv, es)))))"
| world_lifecycle: "lifecycle L es es' \<Longrightarrow> world_step L es es'"
| world_effect: "calm L (sr_taken R) \<Longrightarrow> calm L (sr_start R) \<Longrightarrow> calm L (sr_during R) \<Longrightarrow>
    world_step L es (snd (snd (snd (HostManagedProcessBackendV1_apply L R caps q (objects, rv, es)))))"

lemma world_inv_step: "world_inv L es \<Longrightarrow> world_step L es es' \<Longrightarrow> world_inv L es'"
  by (erule world_step.cases) (auto simp: world_inv_provision world_inv_lifecycle calm_def intro: invariant.frame_backend)

lemma world_inv_default: "world_inv L ExecutionWorldStateV1_default"
  by (simp add: world_inv_def ExecutionWorldStateV1_default_def)

interpretation worlds: guarded_machine "\<lambda>es. es = ExecutionWorldStateV1_default" "world_step L" "world_inv L"
  by unfold_locales (auto intro: world_inv_step world_inv_default)

section \<open>Only staged processes run\<close>

definition resource_hash_input :: "lib \<Rightarrow> string \<Rightarrow> json \<Rightarrow> byte list" where
  "resource_hash_input L domain value = (let canonical = json_vec L value in
     as_bytes domain @ [0] @ to_be_bytes (of_nat (length canonical) :: u64) @ canonical)"

lemma resource_domain_hash_inj:
  assumes "json_faithful L" and "collision_free L {resource_hash_input L domain v, resource_hash_input L domain v'}"
    and "resource_domain_hash L domain v = resource_domain_hash L domain v'"
  shows "v = v'"
proof -
  from assms(3) have "blake3_hex L (resource_hash_input L domain v) = blake3_hex L (resource_hash_input L domain v')"
    by (simp add: resource_domain_hash_def resource_hash_input_def Let_def)
  with assms(2) have "resource_hash_input L domain v = resource_hash_input L domain v'" by (auto dest: collision_freeD)
  then have "json_vec L v = json_vec L v'" by (simp add: resource_hash_input_def Let_def)
  with assms(1) show ?thesis by (rule json_faithfulD)
qed

definition key_json :: "ResourceHandleRefV1 \<Rightarrow> string \<Rightarrow> string \<Rightarrow> string option \<Rightarrow> ResourceHandleRefV1 option \<Rightarrow> string option \<Rightarrow> json" where
  "key_json x argv environment stdin ch cs = JArr [JStr x, JStr argv, JStr environment, jopt JStr stdin, jopt JStr ch, jopt JStr cs]"

definition own_key_json :: "lib \<Rightarrow> ManagedProcessInvocationV1 \<Rightarrow> json" where
  "own_key_json L i = key_json (pi_executable_handle i) (argv_digest L i) (environment_digest L i) (stdin_digest L i)
     (pi_working_directory_handle i) (pi_working_directory_selector i)"

definition key_message :: "lib \<Rightarrow> json \<Rightarrow> byte list" where
  "key_message L v = resource_hash_input L ''pastey-process-invocation-key-v1'' v"

lemma jopt_JStr_inj [simp]: "jopt JStr a = jopt JStr b \<longleftrightarrow> a = b"
  by (cases a; cases b) (simp_all add: jopt_def)

lemma key_json_inj: "key_json x a e i ch cs = key_json x' a' e' i' ch' cs' \<longleftrightarrow> x = x' \<and> a = a' \<and> e = e' \<and> i = i' \<and> ch = ch' \<and> cs = cs'"
  by (simp add: key_json_def)

lemma key_binds:
  assumes "json_faithful L" and "collision_free L {key_message L (key_json x argv environment stdin ch cs), key_message L (own_key_json L i)}"
    and "invocation_key L x argv environment stdin ch cs = own_key L i"
  shows "x = pi_executable_handle i \<and> argv = argv_digest L i \<and> environment = environment_digest L i \<and> stdin = stdin_digest L i
    \<and> ch = pi_working_directory_handle i \<and> cs = pi_working_directory_selector i"
proof -
  have "key_json x argv environment stdin ch cs = own_key_json L i"
    by (rule resource_domain_hash_inj [OF assms(1) assms(2) [unfolded key_message_def]])
      (use assms(3) in \<open>simp add: invocation_key_def own_key_def key_json_def own_key_json_def\<close>)
  then show ?thesis by (simp add: own_key_json_def key_json_inj)
qed

lemma process_request_owner_Inr:
  "process_request_owner L ow q = Inr () \<longleftrightarrow> wo_envelope_ref ow = rq_envelope_ref q \<and> wo_run_ref ow = rq_run_control_ref q
     \<and> AuthorityContextV1_context_ref L (rq_context q) = Inr (wo_context_ref ow)"
  by (auto simp: process_request_owner_def res_simps map_err_def split: sum.splits)

text \<open>The process facts as they name the world, the granted identity of the executable and the digests of the request.\<close>

definition facts_of_spawn :: "EffectFactsV1 \<Rightarrow> ExecutionWorldRefV1 \<Rightarrow> string \<Rightarrow> string \<Rightarrow> string \<Rightarrow> string \<Rightarrow> bool" where
  "facts_of_spawn facts w platform identity argv environment \<longleftrightarrow> (\<exists>pref state code out n err m t d.
     facts = FactContainedProcess w pref platform identity argv environment state code out n err m t True d)"

text \<open>C29. However the service was used before, and whatever other threads do meanwhile, a spawn request that is answered with
  an allowed outcome ran in a world that was provisioned and not revoked, on a platform that was verified for all required
  confinement properties and is the one granted. The world belongs to exactly the envelope, the run and the context of
  the request. What ran is an invocation staged there before, which passed validation and whose executable the grant lists,
  and by the digests of the request it is that invocation and no other, down to arguments, environment, input and working
  directory. The facts name this world and executable with no network.\<close>

theorem spawned_process_was_staged:
  assumes "json_faithful L" and "rtranclp (world_step L) ExecutionWorldStateV1_default es"
    and "HostManagedProcessBackendV1_apply L R caps q (objects, rv, es) = (Completed outcome, objects', rv', es')"
    and "rq_effect q = EffProcess (Spawn w x argv ch cs environment stdin)" and "bo_decision outcome = Allowed"
  shows "\<exists>world invocation identity. hm_get (es_worlds es) w = Some world \<and> \<not> wd_revoked world \<and> confined world
    \<and> wo_envelope_ref (wd_owner world) = rq_envelope_ref q \<and> wo_run_ref (wd_owner world) = rq_run_control_ref q
    \<and> AuthorityContextV1_context_ref L (rq_context q) = Inr (wo_context_ref (wd_owner world))
    \<and> invocation \<in> set (hm_values (wd_invocations world)) \<and> validate_invocation invocation = Inr ()
    \<and> pi_executable_handle invocation |\<in>| wg_executable_resources (wd_grant world)
    \<and> (collision_free L {key_message L (key_json x argv environment stdin ch cs), key_message L (own_key_json L invocation)} \<longrightarrow>
        x = pi_executable_handle invocation \<and> argv = argv_digest L invocation \<and> environment = environment_digest L invocation
        \<and> stdin = stdin_digest L invocation \<and> ch = pi_working_directory_handle invocation \<and> cs = pi_working_directory_selector invocation)
    \<and> hm_get (wd_resource_identity_refs world) x = Some identity
    \<and> facts_of_spawn (bo_facts outcome) w (wg_world_identity_digest (wd_grant world)) identity argv environment"
  using assms(3,4)
proof (cases rule: backend_spawn_cases)
  case (refused es1)
  with assms(5) show ?thesis by simp
next
  case (ran world invocation identity pref es1 es2 observation digest)
  from ran(1) show ?thesis
  proof (cases rule: take_invocation_cases)
    case (refused e)
    then show ?thesis by simp
  next
    case (used world' invocation')
    then have eq: "world' = world" "invocation' = invocation" "hm_get (wd_resource_identity_refs world) x = Some identity" by auto
    note u = used [unfolded eq(1,2)]
    have inv: "world_inv L es" by (rule worlds.inv_reachable [OF refl assms(2)])
    from world_invD [OF inv u(1)] have ok: "staged_ok L world" "confined world" by (simp_all add: world_ok_def)
    from hm_get_pair [OF u(4)] ok(1) have own: "invocation_key L x argv environment stdin ch cs = own_key L invocation"
      "validate_invocation invocation = Inr ()" "pi_executable_handle invocation |\<in>| wg_executable_resources (wd_grant world)"
      by (auto simp: staged_ok_def)
    have facts: "facts_of_spawn (bo_facts outcome) w (wg_world_identity_digest (wd_grant world)) identity argv environment"
      using ok(2) by (simp add: ran(6) process_outcome_def new_process_def Let_def facts_of_spawn_def confined_def)
    show ?thesis
      using u(1,2,3) ok(2) own key_binds [OF assms(1) _ own(1)] hm_get_in_values [OF u(4)] facts eq(3)
      unfolding process_request_owner_Inr by blast
  qed
qed

section \<open>A staged invocation runs once\<close>

lemma spawn_without_invocation:
  assumes "rq_effect q = EffProcess (Spawn w x argv ch cs environment stdin)"
    and "hm_get (es_worlds es) w = None \<or> (\<exists>world. hm_get (es_worlds es) w = Some world \<and> (process_request_owner L (wd_owner world) q \<noteq> Inr ()
      \<or> wd_revoked world \<or> hm_get (wd_invocations world) (invocation_key L x argv environment stdin ch cs) = None))"
  shows "\<exists>outcome parts. HostManagedProcessBackendV1_apply L R caps q (objects, rv, es) = (Completed outcome, parts) \<and> bo_decision outcome = Denied"
proof -
  obtain result es1 where t: "take_invocation L q w x (invocation_key L x argv environment stdin ch cs) es = (result, es1)" by fastforce
  then obtain e where "result = Inl e"
  proof (cases rule: take_invocation_cases)
    case (used world invocation)
    with assms(2) show thesis by auto
  qed
  with t assms(1) show ?thesis by (simp add: HostManagedProcessBackendV1_apply_def apply_spawn_def)
qed

lemma take_invocation_gone:
  assumes "take_invocation L q w x key es = (Inr a, es')"
  shows "\<exists>world. hm_get (es_worlds es') w = Some world \<and> hm_get (wd_invocations world) key = None"
  using assms by (cases rule: take_invocation_cases) (auto simp: hmap_simps)

text \<open>What other threads may do between two locks when none of them stages the invocation \<open>key\<close> of the world \<open>w\<close>.\<close>

inductive lifecycle_but :: "lib \<Rightarrow> ExecutionWorldRefV1 \<Rightarrow> string \<Rightarrow> ExecutionWorldStateV1 \<Rightarrow> ExecutionWorldStateV1 \<Rightarrow> bool" for L w key where
  but_stage: "v \<noteq> w \<or> own_key L invocation \<noteq> key \<Longrightarrow> lifecycle_but L w key es (snd (stage_invocation L access v invocation es))"
| but_take: "lifecycle_but L w key es (snd (take_completed_observation L access r es))"
| but_mark: "lifecycle_but L w key es (mark_revoked P es)"
| but_remove: "lifecycle_but L w key es (remove_ended P ps ws es)"

definition unstaged :: "ExecutionWorldRefV1 \<Rightarrow> string \<Rightarrow> ExecutionWorldStateV1 \<Rightarrow> bool" where
  "unstaged w key es \<longleftrightarrow> (\<forall>world. hm_get (es_worlds es) w = Some world \<longrightarrow> hm_get (wd_invocations world) key = None)"

lemma unstaged_other [simp]:
  "unstaged w key (es\<lparr>es_processes := ps\<rparr>) \<longleftrightarrow> unstaged w key es" "unstaged w key (es\<lparr>es_completed := cs\<rparr>) \<longleftrightarrow> unstaged w key es"
  by (simp_all add: unstaged_def)

lemma unstaged_life: "lifecycle_but L w key es es' \<Longrightarrow> unstaged w key es \<Longrightarrow> unstaged w key es'"
proof (induction rule: lifecycle_but.induct)
  case (but_stage v invocation es access)
  obtain result es' where s: "stage_invocation L access v invocation es = (result, es')" by fastforce
  then have "unstaged w key es'" using but_stage by (cases rule: stage_cases) (auto simp: unstaged_def hmap_simps split: if_splits)
  with s show ?case by simp
qed (auto simp: unstaged_def mark_revoked_def remove_ended_def hmap_simps split: if_splits)

lemma unstaged_take:
  "take_invocation L q v x k es = (taken, es') \<Longrightarrow> unstaged w key es \<Longrightarrow> unstaged w key es'"
  by (erule take_invocation_cases) (auto simp: unstaged_def hmap_simps split: if_splits)

interpretation used_up: world_frame L "lifecycle_but L w key" "\<lambda>_. True" "unstaged w key"
proof unfold_locales
  show "unstaged w key es'" if "unstaged w key es" "provision_world L P LD RD fresh st access v (objects, rv, es) = (result, objects', rv', es')"
    for es P LD RD fresh st access v objects rv result objects' rv' es'
    using that(2,1) by (cases rule: provision_cases) (auto simp: unstaged_def hmap_simps split: if_splits)
qed (auto intro: unstaged_life unstaged_take)

text \<open>C30. A staged invocation is good for one process. After a spawn that was allowed, and whatever the service does next, provisioning,
  processes, terminations and other staging in any threads included, every request for the same invocation is denied, whoever sends
  it, as long as nobody stages that invocation in that world again.\<close>

theorem staged_invocation_runs_once:
  assumes "HostManagedProcessBackendV1_apply L R caps q (objects, rv, es) = (Completed outcome, objects', rv', es')"
    and "rq_effect q = EffProcess (Spawn w x argv ch cs environment stdin)" and "bo_decision outcome = Allowed"
    and "key = invocation_key L x argv environment stdin ch cs"
    and "\<forall>es. rtranclp (lifecycle_but L w key) es (sr_taken R es)" "\<forall>es. rtranclp (lifecycle_but L w key) es (sr_start R es)"
      "\<forall>es. rtranclp (lifecycle_but L w key) es (sr_during R es)"
    and "rtranclp (world_step_on L (lifecycle_but L w key) (\<lambda>_. True)) es' es''" and "rq_effect q' = rq_effect q"
  shows "\<exists>outcome' parts'. HostManagedProcessBackendV1_apply L R' caps' q' (objects'', rv'', es'') = (Completed outcome', parts')
    \<and> bo_decision outcome' = Denied"
  using assms(1,2)
proof (cases rule: backend_spawn_cases)
  case (refused es1)
  with assms(3) show ?thesis by simp
next
  case (ran world invocation identity pref es1 es2 observation digest)
  have "unstaged w key es1" using take_invocation_gone [OF ran(1)] by (auto simp: unstaged_def assms(4))
  then have "unstaged w key es2" unfolding ran(3) tracked_def
    by (intro used_up.frame_calm [OF assms(7)] used_up.frame_calm [OF assms(6)]) (simp add: used_up.frame_calm [OF assms(5)])
  with ran(7) have "unstaged w key es'" by auto
  from used_up.frame_steps [OF assms(8) this] have "unstaged w key es''" .
  then show ?thesis using assms(2,9) by (intro spawn_without_invocation) (auto simp: unstaged_def assms(4) split: option.splits)
qed

section \<open>What is captured\<close>

lemma capture_loop_exact:
  assumes "hashed = take cap done" and "excerpt = take MAX_MODEL_PROCESS_EXCERPT_BYTES hashed" and "exceeded \<longleftrightarrow> length done > cap"
    and "all = done @ concat (takeWhile (\<lambda>chunk. chunk \<noteq> []) chunks)"
  shows "capture_loop cap hashed excerpt exceeded chunks
    = (take cap all, take MAX_MODEL_PROCESS_EXCERPT_BYTES (take cap all), length all > cap)"
  using assms
proof (induction chunks arbitrary: hashed excerpt exceeded "done")
  case (Cons chunk rest)
  show ?case
  proof (cases "chunk = []")
    case False
    let ?accepted = "min (length chunk) (cap - length hashed)"
    have h: "hashed @ take ?accepted chunk = take cap (done @ chunk)" by (simp add: Cons.prems(1) min_def)
    have e: "excerpt @ take (min ?accepted (MAX_MODEL_PROCESS_EXCERPT_BYTES - length excerpt)) chunk
        = take MAX_MODEL_PROCESS_EXCERPT_BYTES (hashed @ take ?accepted chunk)"
      by (simp add: Cons.prems(2) min_def)
    have x: "(exceeded \<or> ?accepted < length chunk) \<longleftrightarrow> length (done @ chunk) > cap" using False by (auto simp: Cons.prems(1,3))
    show ?thesis using False Cons.IH [OF h e x] Cons.prems(4) by (simp add: Let_def)
  qed (use Cons.prems in simp)
qed simp

text \<open>What is captured of a stream is its first bytes, however it arrives: of everything the process wrote before the end of
  the stream, the digest covers exactly the first \<open>cap\<close> bytes and their number is what is counted, the excerpt is the first
  4096 of those, and the stream counts as exceeded just when it is longer than \<open>cap\<close>.\<close>

theorem capture_is_prefix:
  "start_capture L cap chunks finished = (let all = concat (takeWhile (\<lambda>chunk. chunk \<noteq> []) chunks); kept = take (unat cap) all in
     \<lparr>sc_bytes = of_nat (length kept), sc_exceeded = (length all > unat cap),
      sc_digest = (if finished then Some (blake3_hex L kept) else None), sc_excerpt = take 4096 kept\<rparr>)"
  using capture_loop_exact [of "[]" "unat cap" "[]" "[]" False _ chunks]
  by (simp add: start_capture_def Let_def MAX_MODEL_PROCESS_EXCERPT_BYTES_def)

section \<open>Clean exits\<close>

lemma monitor_exited:
  assumes "monitor_process process me re tr polls = Some observation" and "to_state observation = ''exited''"
  shows "\<not> me \<and> \<not> re \<and> to_exit_code observation = Some 0 \<and> (\<exists>earlier p later. polls = earlier @ p # later \<and> pl_status p = Inr (Some (ExitCode 0))
    \<and> \<not> pl_exceeded p \<and> \<not> pl_expired p \<and> \<not> pl_cancelled p
    \<and> (\<forall>p' \<in> set earlier. pl_status p' = Inr None \<and> \<not> over_memory process p' \<and> \<not> over_writes process p'))"
  using assms
proof (induction process me re tr polls rule: monitor_process.induct)
  case (2 process me re tr p ps)
  show ?case
  proof (cases "pl_status p")
    case (Inl e)
    with "2.prems" show ?thesis by auto
  next
    case (Inr status)
    show ?thesis
    proof (cases status)
      case (Some s)
      with Inr "2.prems" have "exit_state p me re s = ''exited''" "to_exit_code observation = exit_code s" by auto
      then have "\<not> me \<and> \<not> re \<and> \<not> pl_exceeded p \<and> \<not> pl_expired p \<and> \<not> pl_cancelled p \<and> s = ExitCode 0"
        by (auto simp: exit_state_def exit_budget_state_def split: if_splits option.splits exit_status.splits)
      with Inr Some \<open>to_exit_code observation = exit_code s\<close> show ?thesis
        by (auto simp: exit_code_def intro!: exI [of _ "[]"])
    next
      case None
      from "2.IH" [OF Inr None refl refl refl] "2.prems" Inr None
      have ih: "\<not> (me \<or> over_memory process p) \<and> \<not> (re \<or> over_writes process p) \<and> to_exit_code observation = Some 0
        \<and> (\<exists>earlier p' later. ps = earlier @ p' # later \<and> pl_status p' = Inr (Some (ExitCode 0))
          \<and> \<not> pl_exceeded p' \<and> \<not> pl_expired p' \<and> \<not> pl_cancelled p'
          \<and> (\<forall>p' \<in> set earlier. pl_status p' = Inr None \<and> \<not> over_memory process p' \<and> \<not> over_writes process p'))"
        by (simp add: Let_def)
      then obtain earlier p' later where e: "ps = earlier @ p' # later" "pl_status p' = Inr (Some (ExitCode 0))"
        "\<not> pl_exceeded p'" "\<not> pl_expired p'" "\<not> pl_cancelled p'"
        "\<forall>p' \<in> set earlier. pl_status p' = Inr None \<and> \<not> over_memory process p' \<and> \<not> over_writes process p'" by blast
      have "p # ps = (p # earlier) @ p' # later" using e(1) by simp
      moreover have "\<forall>p' \<in> set (p # earlier). pl_status p' = Inr None \<and> \<not> over_memory process p' \<and> \<not> over_writes process p'"
        using e(6) ih Inr None by simp
      ultimately show ?thesis using e(2-5) ih by blast
    qed
  qed
qed simp

text \<open>A process is reported as exited only after a clean run: the poll that saw its end found exit code zero, the streams
  within their shares, the deadline not passed and no cancellation, and each poll before it found the process still running
  with memory and written bytes within their limits.\<close>

theorem exited_means_clean:
  assumes "monitor_process process False False False polls = Some observation" and "to_state observation = ''exited''"
  shows "to_exit_code observation = Some 0 \<and> (\<exists>earlier p later. polls = earlier @ p # later \<and> pl_status p = Inr (Some (ExitCode 0))
    \<and> \<not> pl_exceeded p \<and> \<not> pl_expired p \<and> \<not> pl_cancelled p
    \<and> (\<forall>p' \<in> set earlier. pl_status p' = Inr None \<and> \<not> over_memory process p' \<and> \<not> over_writes process p'))"
  using monitor_exited [OF assms] by simp

section \<open>Output within the budget\<close>

lemma capture_bytes: "unat (sc_bytes (start_capture L cap chunks finished)) \<le> unat cap"
proof -
  have "unat (of_nat (min n (unat cap)) :: u64) \<le> unat cap" for n :: nat
    using unsigned_less [of cap, where ?'a = nat] by (simp add: unat_of_nat)
  then show ?thesis
    using capture_loop_exact [of "[]" "unat cap" "[]" "[]" False _ chunks]
    by (simp add: start_capture_def Let_def)
qed

lemma halves: "unat (c div 2) + unat (saturating_sub c (c div 2)) = unat (c::u64)"
proof -
  have "c div 2 \<le> c" by (simp add: word_le_nat_alt unat_div)
  moreover have "unat (c div 2) \<le> unat c" by (simp add: unat_div)
  ultimately show ?thesis by (simp add: saturating_sub_def unat_sub)
qed

text \<open>The output a process is credited with stays within what its request reserved: in the facts of an allowed spawn the
  bytes of both streams together are at most the reserved read bytes, as natural numbers, so nothing wraps.\<close>

theorem process_output_within_reservation:
  assumes "HostManagedProcessBackendV1_apply L R caps q (objects, rv, es) = (Completed outcome, objects', rv', es')"
    and "rq_effect q = EffProcess (Spawn w x argv ch cs environment stdin)"
    and "bo_facts outcome = FactContainedProcess w' pref platform identity a e state code out n err m t u d"
  shows "unat n + unat m \<le> unat (bg_read_bytes (rq_requested_budget_slice q))"
proof -
  let ?c = "bg_read_bytes (rq_requested_budget_slice q)"
  have "unat n \<le> unat (?c div 2) \<and> unat m \<le> unat (saturating_sub ?c (?c div 2))"
    using assms(1,2)
  proof (cases rule: backend_spawn_cases)
    case (refused es1)
    with assms(3) show ?thesis by simp
  next
    case (ran world invocation identity' pref' es1 es2 observation digest)
    with assms(3) show ?thesis by (auto simp: process_outcome_def capture_bytes)
  qed
  with halves [of ?c] show ?thesis by linarith
qed

section \<open>Expiry\<close>

lemma remaining_after_expiry:
  assumes "expires_at < now"
  shows "2 ^ 63 \<le> unat (remaining_millis expires_at now)"
proof -
  let ?x = "clamp_i64 (clamp_i64 (expires_at - now) * 1000)"
  have b: "- (2 ^ 63) \<le> ?x" "?x < 0" using assms by (simp_all add: clamp_i64_def max_def min_def)
  have "?x mod 2 ^ 64 = (?x + 2 ^ 64) mod 2 ^ 64" by (rule mod_add_self2 [symmetric])
  also have "... = ?x + 2 ^ 64" by (rule mod_pos_pos_trivial) (use b in simp_all)
  finally have "?x mod 2 ^ 64 = ?x + 2 ^ 64" .
  then have "uint (remaining_millis expires_at now) = ?x + 2 ^ 64" by (simp add: remaining_millis_def uint_word_of_int)
  with b(1) have "int (2 ^ 63) \<le> int (unat (remaining_millis expires_at now))" by (simp flip: uint_nat)
  then show ?thesis by (simp only: of_nat_le_iff)
qed

lemma remaining_before_expiry:
  assumes "now \<le> expires_at"
  shows "unat (remaining_millis expires_at now) < 2 ^ 63"
proof -
  let ?x = "clamp_i64 (clamp_i64 (expires_at - now) * 1000)"
  have b: "0 \<le> ?x" "?x < 2 ^ 63" using assms by (auto simp: clamp_i64_def max_def min_def)
  then have "uint (remaining_millis expires_at now) = ?x" by (simp add: remaining_millis_def uint_word_of_int)
  with b(2) have "int (unat (remaining_millis expires_at now)) < int (2 ^ 63)" by (simp flip: uint_nat)
  then show ?thesis by (simp only: of_nat_less_iff)
qed

lemma remaining_at_expiry: "remaining_millis now now = 0"
  by (simp add: remaining_millis_def clamp_i64_def)

lemma launch_checks_now:
  assumes "launch_checks R q world invocation = Inr ()" and "remaining_millis (wg_expires_at (wd_grant world)) now \<noteq> 0"
    and "bg_wall_millis (rq_requested_budget_slice q) \<le> remaining_millis (wg_expires_at (wd_grant world)) now"
  shows "launch_checks (R\<lparr>sr_now := now\<rparr>) q world invocation = Inr ()"
  using assms by (auto simp: launch_checks_def Let_def res_simps not_less split: option.splits)

text \<open>C32. The expiry of a world does not stop a launch. What passes the checks at some time before the world expires passes
  them again at every time after it: the remaining seconds are then negative, and cast to an unsigned number they
  exceed every wall-time budget that fitted before. Only in the very second of the expiry is the launch refused.\<close>

theorem expired_world_launches:
  assumes "launch_checks R q world invocation = Inr ()" and "sr_now R \<le> wg_expires_at (wd_grant world)"
    and "wg_expires_at (wd_grant world) < now"
  shows "launch_checks (R\<lparr>sr_now := now\<rparr>) q world invocation = Inr ()
    \<and> launch_checks (R\<lparr>sr_now := wg_expires_at (wd_grant world)\<rparr>) q world invocation \<noteq> Inr ()"
proof
  let ?wall = "bg_wall_millis (rq_requested_budget_slice q)"
  from assms(1) have "?wall \<le> remaining_millis (wg_expires_at (wd_grant world)) (sr_now R)"
    by (auto simp: launch_checks_def Let_def res_simps not_less)
  with remaining_before_expiry [OF assms(2)] remaining_after_expiry [OF assms(3)]
  have le: "?wall \<le> remaining_millis (wg_expires_at (wd_grant world)) now" by (simp add: word_le_nat_alt)
  have "remaining_millis (wg_expires_at (wd_grant world)) now \<noteq> 0" using remaining_after_expiry [OF assms(3)] by auto
  with assms(1) le show "launch_checks (R\<lparr>sr_now := now\<rparr>) q world invocation = Inr ()" by (intro launch_checks_now)
  show "launch_checks (R\<lparr>sr_now := wg_expires_at (wd_grant world)\<rparr>) q world invocation \<noteq> Inr ()"
    by (simp add: launch_checks_def Let_def res_simps remaining_at_expiry)
qed

section \<open>The end of a run\<close>

lemma lifecycle_owner:
  "lifecycle L es es' \<Longrightarrow> (w, world') \<in> set (es_worlds es') \<Longrightarrow> \<exists>world. (w, world) \<in> set (es_worlds es) \<and> wd_owner world = wd_owner world'"
proof (induction rule: lifecycle.induct)
  case (life_stage es access w0 invocation)
  obtain result es' where s: "stage_invocation L access w0 invocation es = (result, es')" by fastforce
  then show ?case
  proof (cases rule: stage_cases)
    case refused
    with life_stage s show ?thesis by auto
  next
    case (staged world)
    let ?new = "world\<lparr>wd_invocations := hm_insert (own_key L invocation) invocation (wd_invocations world)\<rparr>"
    from life_stage s staged(5) have "(w, world') \<in> set (hm_insert w0 ?new (es_worlds es))" by simp
    with hm_insert_subset [of w0 ?new "es_worlds es"] have "(w, world') = (w0, ?new) \<or> (w, world') \<in> set (es_worlds es)" by blast
    with hm_get_pair [OF staged(1)] show ?thesis by auto
  qed
qed (auto simp: mark_revoked_def hm_map_values_def remove_ended_def hm_retain_def split: if_splits)

lemma calm_owner:
  assumes "calm L f" and "(w, world') \<in> set (es_worlds (f es))"
  shows "\<exists>world. (w, world) \<in> set (es_worlds es) \<and> wd_owner world = wd_owner world'"
proof -
  from assms(1) have "rtranclp (lifecycle L) es (f es)" by (simp add: calm_def)
  then show ?thesis using assms(2)
  proof (induction arbitrary: world' rule: rtranclp_induct)
    case (step y z)
    from lifecycle_owner [OF step.hyps(2) step.prems] step.IH show ?case by metis
  qed auto
qed

lemma terminated_worlds:
  assumes "calm L during" and "(w, world) \<in> set (es_worlds (snd (terminate_matching P during es)))"
  shows "\<not> P (wd_owner world)"
proof
  assume P: "P (wd_owner world)"
  from assms(2) have w: "(w, world) \<in> set (es_worlds (during (mark_revoked P es)))" "w \<notin> set (matching_worlds P es)"
    by (auto simp: terminate_matching_def remove_ended_def hm_retain_def)
  from calm_owner [OF assms(1) w(1)] obtain world0 where "(w, world0) \<in> set (es_worlds es)" "wd_owner world0 = wd_owner world"
    by (auto simp: mark_revoked_def hm_map_values_def split: if_splits)
  with P w(2) show False by (force simp: matching_worlds_def)
qed

lemma lifecycle_processes: "lifecycle L es es' \<Longrightarrow> set (es_processes es') \<subseteq> set (es_processes es)"
proof (induction rule: lifecycle.induct)
  case (life_stage es access w0 invocation)
  obtain result es' where s: "stage_invocation L access w0 invocation es = (result, es')" by fastforce
  then have "es_processes es' = es_processes es" by (cases rule: stage_cases) auto
  with s show ?case by simp
qed (auto simp: mark_revoked_def remove_ended_def hm_retain_def)

lemma calm_processes: "calm L f \<Longrightarrow> set (es_processes (f es)) \<subseteq> set (es_processes es)"
proof -
  assume "calm L f"
  then have "rtranclp (lifecycle L) es (f es)" by (simp add: calm_def)
  then show ?thesis by (induction rule: rtranclp_induct) (auto dest: lifecycle_processes)
qed

lemma terminated_processes:
  assumes "world_inv L es" and "calm L during" and "(pref, process) \<in> set (es_processes (snd (terminate_matching P during es)))"
  shows "\<not> P (mp_owner process)"
proof
  assume P: "P (mp_owner process)"
  from assms(3) have p: "(pref, process) \<in> set (es_processes (during (mark_revoked P es)))" "pref \<notin> set (matching_processes P es)"
    by (auto simp: terminate_matching_def remove_ended_def hm_retain_def)
  from calm_processes [OF assms(2), of "mark_revoked P es"] p(1) have "(pref, process) \<in> set (es_processes es)"
    by (auto simp: mark_revoked_def)
  moreover from this assms(1) have "mp_process_ref process = pref" by (auto simp: world_inv_def)
  ultimately show False using P p(2) by (force simp: matching_processes_def hm_values_def)
qed

text \<open>Nothing of a run is left: no world, no process, no observation.\<close>

definition run_gone :: "ManagedRunRefV1 \<Rightarrow> ExecutionWorldStateV1 \<Rightarrow> bool" where
  "run_gone r es \<longleftrightarrow> (\<forall>(w, world) \<in> set (es_worlds es). wo_run_ref (wd_owner world) \<noteq> r)
     \<and> (\<forall>(pref, process) \<in> set (es_processes es). wo_run_ref (mp_owner process) \<noteq> r)
     \<and> (\<forall>(k, observation) \<in> set (es_completed es). wo_run_ref (po_owner observation) \<noteq> r)"

lemma lifecycle_completed: "lifecycle L es es' \<Longrightarrow> set (es_completed es') \<subseteq> set (es_completed es)"
proof (induction rule: lifecycle.induct)
  case (life_stage es access w0 invocation)
  obtain result es' where s: "stage_invocation L access w0 invocation es = (result, es')" by fastforce
  then have "es_completed es' = es_completed es" by (cases rule: stage_cases) auto
  with s show ?case by simp
next
  case (life_take es access r)
  then show ?case using hm_remove_subset [of r "es_completed es"] by (auto simp: take_completed_observation_def split: option.split sum.split)
qed (auto simp: mark_revoked_def remove_ended_def hm_retain_def)

lemma run_gone_world: "run_gone r es \<Longrightarrow> hm_get (es_worlds es) w = Some world \<Longrightarrow> wo_run_ref (wd_owner world) \<noteq> r"
  by (auto simp: run_gone_def dest!: hm_get_pair)

lemma run_gone_life: "lifecycle L es es' \<Longrightarrow> run_gone r es \<Longrightarrow> run_gone r es'"
  unfolding run_gone_def using lifecycle_owner lifecycle_processes lifecycle_completed by fastforce

lemma run_gone_insert:
  "run_gone r es \<Longrightarrow> wo_run_ref (wd_owner world) \<noteq> r \<Longrightarrow> run_gone r (es\<lparr>es_worlds := hm_insert w world (es_worlds es)\<rparr>)"
  using hm_insert_subset [of w world "es_worlds es"] by (fastforce simp: run_gone_def)

lemma run_gone_take:
  assumes "take_invocation L q w x key es = (taken, es')" and "run_gone r es"
  shows "run_gone r es'"
proof -
  from assms(1) have "es_completed es' = es_completed es"
    by (auto simp: take_invocation_def Let_def split: option.splits sum.splits)
  with assms show ?thesis
  proof (cases rule: take_invocation_cases)
    case (used world invocation)
    have "run_gone r (es\<lparr>es_worlds := es_worlds es'\<rparr>)" unfolding used(5)
      using run_gone_insert [OF assms(2)] run_gone_world [OF assms(2) used(1)] by simp
    with used(7) \<open>es_completed es' = es_completed es\<close> show ?thesis by (simp add: run_gone_def)
  qed (simp add: run_gone_def)
qed

interpretation ended: world_frame L "lifecycle L" "\<lambda>access. ma_run_control_ref access \<noteq> r" "run_gone r"
proof unfold_locales
  show "run_gone r es'" if "run_gone r es" "ma_run_control_ref access \<noteq> r"
      "provision_world L P LD RD fresh st access w (objects, rv, es) = (result, objects', rv', es')"
    for es P LD RD fresh st access w objects rv result objects' rv' es'
    using that(3)
  proof (cases rule: provision_cases)
    case (provisioned grant grants mounts ow)
    then have "wo_run_ref ow \<noteq> r" using that(2) by (auto simp: world_owner_def res_simps)
    with that(1) show ?thesis unfolding provisioned(4) by (intro run_gone_insert) simp_all
  qed (simp add: that(1))
  show "run_gone r (es'\<lparr>es_processes := hm_insert (mp_process_ref p) p (es_processes es')\<rparr>)"
    if "run_gone r es" "hm_get (es_worlds es) w = Some world" "mp_owner p = wd_owner world" "run_gone r es'" for es w world p es'
    using that(3,4) run_gone_world [OF that(1,2)] hm_insert_subset [of "mp_process_ref p" p "es_processes es'"] by (fastforce simp: run_gone_def)
  show "run_gone r (es\<lparr>es_processes := hm_remove pref (es_processes es)\<rparr>)" if "run_gone r es" for es pref
    using that hm_remove_subset [of pref "es_processes es"] by (fastforce simp: run_gone_def)
  show "run_gone r (es'\<lparr>es_completed := hm_insert request observed (es_completed es')\<rparr>)"
    if "run_gone r es" "hm_get (es_worlds es) w = Some world" "po_owner observed = wd_owner world" "run_gone r es'" for es w world observed es' request
    using that(3,4) run_gone_world [OF that(1,2)] hm_insert_subset [of request observed "es_completed es'"] by (fastforce simp: run_gone_def)
qed (auto intro: run_gone_life run_gone_take)

lemma run_gone_terminated:
  assumes "world_inv L es" and "calm L during"
  shows "run_gone r (snd (terminate_run r during es))"
proof -
  have "wo_run_ref (wd_owner world) \<noteq> r" if "(w, world) \<in> set (es_worlds (snd (terminate_run r during es)))" for w world
    using terminated_worlds [OF assms(2), where P = "\<lambda>ow. wo_run_ref ow = r"] that by (auto simp: terminate_run_def)
  moreover have "wo_run_ref (mp_owner process) \<noteq> r" if "(pref, process) \<in> set (es_processes (snd (terminate_run r during es)))" for pref process
    using terminated_processes [OF assms, where P = "\<lambda>ow. wo_run_ref ow = r"] that by (simp add: terminate_run_def)
  ultimately show ?thesis
    by (auto simp: run_gone_def) (auto simp: terminate_run_def terminate_matching_def remove_ended_def hm_retain_def)
qed

text \<open>C31. Ending a run ends it. Once \<open>terminate_run\<close> is through, with staging, fetching and other terminations going on in other threads but
  no spawn, nothing of the run is left: it is quiescent, no session has a world of it, and there is no observation of it. It
  stays so, and every request of the run for a process is denied, whatever the service does next, as long as no world is provisioned
  for the run again.\<close>

theorem terminated_run_starts_nothing:
  assumes "rtranclp (world_step L) ExecutionWorldStateV1_default es" and "calm L during"
    and "rtranclp (world_step_on L (lifecycle L) (\<lambda>access. ma_run_control_ref access \<noteq> r)) (snd (terminate_run r during es)) es'"
    and "rq_run_control_ref q = r" and "rq_effect q = EffProcess (Spawn w x argv ch cs environment stdin)"
  shows "run_is_quiescent r es' \<and> r |\<notin>| world_run_refs_for_session session es'
    \<and> (\<forall>observation \<in> set (hm_values (es_completed es')). wo_run_ref (po_owner observation) \<noteq> r)
    \<and> (\<exists>outcome parts. HostManagedProcessBackendV1_apply L R caps q (objects, rv, es') = (Completed outcome, parts) \<and> bo_decision outcome = Denied)"
proof -
  have "world_inv L es" by (rule worlds.inv_reachable [OF refl assms(1)])
  from ended.frame_steps [OF assms(3) run_gone_terminated [OF this assms(2)]] have gone: "run_gone r es'" .
  then have "run_is_quiescent r es'" "r |\<notin>| world_run_refs_for_session session es'"
    "\<forall>observation \<in> set (hm_values (es_completed es')). wo_run_ref (po_owner observation) \<noteq> r"
    unfolding run_is_quiescent_def world_run_refs_for_session_def list_ex_iff hm_values_def fset_of_list_elem run_gone_def by fastforce+
  moreover have "hm_get (es_worlds es') w = None \<or> (\<exists>world. hm_get (es_worlds es') w = Some world \<and> process_request_owner L (wd_owner world) q \<noteq> Inr ())"
  proof (cases "hm_get (es_worlds es') w")
    case (Some world)
    from run_gone_world [OF gone Some] Some show ?thesis by (auto simp: process_request_owner_Inr assms(4))
  qed simp
  ultimately show ?thesis using spawn_without_invocation [OF assms(5), of es' L R caps objects rv] by blast
qed

text \<open>C33. A spawn that overlaps the end of its run escapes it. When \<open>terminate_run\<close> comes after the invocation was taken and before the
  process is recorded, it finds no process to end: the process is started and recorded all the same, runs in no world, the
  request is denied, and the run is not quiescent, since the record of the process stays behind.\<close>

theorem overlapping_termination_misses_process:
  assumes "rq_effect q = EffProcess (Spawn w x argv ch cs environment stdin)"
    and "take_invocation L q w x (invocation_key L x argv environment stdin ch cs) es = (Inr (world, invocation, identity, pref), es1)"
    and "launch_checks R q world invocation = Inr ()"
    and "sr_taken R = (\<lambda>es. snd (terminate_run (rq_run_control_ref q) (\<lambda>es. es) es))" "sr_start R = (\<lambda>es. es)" "sr_during R = (\<lambda>es. es)"
  shows "\<exists>outcome objects' rv' es'. HostManagedProcessBackendV1_apply L R caps q (objects, rv, es) = (Completed outcome, objects', rv', es')
    \<and> bo_decision outcome = Denied \<and> hm_get (es_worlds es') w = None
    \<and> hm_get (es_processes es') pref = Some (new_process q w argv environment world identity pref)
    \<and> \<not> run_is_quiescent (rq_run_control_ref q) es'"
proof -
  let ?p = "new_process q w argv environment world identity pref"
  let ?es = "(sr_taken R es1)\<lparr>es_processes := hm_insert pref ?p (es_processes (sr_taken R es1))\<rparr>"
  from assms(2) have owner: "wo_run_ref (wd_owner world) = rq_run_control_ref q"
    and here: "hm_get (es_worlds es1) w = Some (world\<lparr>wd_invocations := hm_remove (invocation_key L x argv environment stdin ch cs) (wd_invocations world)\<rparr>)"
    by (auto elim!: take_invocation_cases simp: process_request_owner_Inr hmap_simps)
  have calm: "calm L (\<lambda>es. es)" by (simp add: calm_def)
  have gone: "hm_get (es_worlds ?es) w = None"
  proof (cases "hm_get (es_worlds ?es) w")
    case (Some world')
    then have "(w, world') \<in> set (es_worlds (snd (terminate_run (rq_run_control_ref q) (\<lambda>es. es) es1)))" by (auto simp: assms(4) dest: hm_get_pair)
    then have "w \<notin> set (matching_worlds (\<lambda>ow. wo_run_ref ow = rq_run_control_ref q) es1)"
      by (auto simp: terminate_run_def terminate_matching_def remove_ended_def hm_retain_def)
    with hm_get_pair [OF here] owner show ?thesis by (force simp: matching_worlds_def)
  qed
  have there: "hm_get (es_processes ?es) pref = Some ?p" by (simp add: hmap_simps)
  have busy: "\<not> run_is_quiescent (rq_run_control_ref q) ?es"
  proof -
    have "wo_run_ref (mp_owner ?p) = rq_run_control_ref q" using owner by (simp add: new_process_def Let_def)
    with hm_get_in_values [OF there] show ?thesis unfolding run_is_quiescent_def list_ex_iff by blast
  qed
  have world_ref: "mp_world_ref ?p = w" by (simp add: new_process_def Let_def)
  have "settle L R q ?p (objects, rv, ?es) = (Inl (ResInvalid ''Execution world was revoked.''), objects, rv, ?es)"
    using gone by (simp add: settle_def world_ref)
  moreover have "hm_contains (es_processes ?es) pref" using there by (simp add: hm_contains_iff)
  ultimately have "\<exists>e. apply_spawn L R q w x argv ch cs environment stdin (objects, rv, es) = (Inl e, objects, rv, ?es)"
    using assms(2,3) by (cases "monitor_process ?p False False False (sr_polls R)") (simp_all add: apply_spawn_def Let_def assms(5,6))
  with gone there busy assms(1) show ?thesis by (auto simp: HostManagedProcessBackendV1_apply_def)
qed

section \<open>Overlays\<close>

lemma reconcile_private:
  assumes "reconcile_execution_mount L D access r mount (objects, rv) = (result, objects', rv')"
    and "hm_get (rv_backings rv) h = Some b" and "private_part b \<noteq> None"
  shows "\<exists>b'. hm_get (rv_backings rv') h = Some b' \<and> private_part b' \<noteq> None"
proof -
  have "rv_backings rv' = rv_backings rv \<or> (\<exists>b0 files. hm_get (rv_backings rv) (mt_handle_ref mount) = Some b0
     \<and> rv_backings rv' = hm_insert (mt_handle_ref mount) (with_files files b0) (rv_backings rv))"
    using assms(1) 
    by (auto simp: reconcile_execution_mount_def Let_def res_simps split: sum.splits prod.splits HostResourceBackingV1.splits option.splits)
  moreover have "private_part (with_files files b0) \<noteq> None \<longleftrightarrow> private_part b0 \<noteq> None" for files b0
    by (simp add: private_part_def with_files_def split: HostResourceBackingV1.split)
  ultimately show ?thesis using assms(2,3) by (auto simp: hmap_simps)
qed

lemma reconcile_missing:
  assumes "reconcile_execution_mount L D access r mount (objects, rv) = (result, objects', rv')"
    and "hm_get (rv_backings rv) (mt_handle_ref mount) = Some b" and "private_part b \<noteq> None"
    and "hf_node (rd_fs D) (mt_source_path mount) = None"
  shows "\<exists>e. result = Inl e"
proof -
  have "reconcile_private_overlay L (rd_fs D) removed Ds (mt_source_path mount) root q r verbs files = (Inl (ResFile IoError), files)"
    for removed Ds root q verbs files
    by (simp add: reconcile_private_overlay_def scan_regular_tree_def assms(4) map_err_def)
  with assms(1-3) show ?thesis
    by (cases b) (auto simp: reconcile_execution_mount_def Let_def res_simps private_part_def split: sum.splits prod.splits)
qed

lemma release_failed: "fst (release_mounts L D access r mounts facts (Some e) s) = Inl e"
  by (induction mounts arbitrary: facts s) (auto split: prod.split sum.split)

lemma release_missing:
  assumes "mount \<in> set mounts" and "hm_get (rv_backings rv) (mt_handle_ref mount) = Some b" and "private_part b \<noteq> None"
    and "hf_node (rd_fs D) (mt_source_path mount) = None"
  shows "\<exists>e. fst (release_mounts L D access r mounts facts first (objects, rv)) = Inl e"
  using assms(1-3)
proof (induction mounts arbitrary: facts first objects rv b)
  case (Cons m rest)
  obtain result objects' rv' where e: "reconcile_execution_mount L D access r m (objects, rv) = (result, objects', rv')"
    by (metis prod_cases3)
  show ?case
  proof (cases "m = mount")
    case True
    with reconcile_missing [OF e] Cons.prems assms(4) obtain err where "result = Inl err" by auto
    with e show ?thesis by (cases first) (auto simp: release_failed)
  next
    case False
    with Cons.prems have "mount \<in> set rest" by simp
    from reconcile_private [OF e Cons.prems(2,3)] obtain b' where "hm_get (rv_backings rv') (mt_handle_ref mount) = Some b'" "private_part b' \<noteq> None" by blast
    with Cons.IH [OF \<open>mount \<in> set rest\<close>, of _ b'] e show ?thesis by simp
  qed
qed simp

text \<open>A world with a writable mount serves one process only. The release after a process deletes the overlays of the world, while the
  world keeps its mounts and its budget admits more spawns; and with the overlay of a private resource gone, every later spawn
  in the world is denied, whatever the process did, because its mounts cannot be reconciled.\<close>

theorem no_process_without_overlay:
  assumes "rq_effect q = EffProcess (Spawn w x argv ch cs environment stdin)"
    and "hm_get (es_worlds es) w = Some world" and "mount \<in> set (wd_mounts world)"
    and "hm_get (rv_backings rv) (mt_handle_ref mount) = Some b" and "private_part b \<noteq> None"
    and "hf_node (rd_fs (sr_release R)) (mt_source_path mount) = None"
  shows "\<exists>outcome parts. HostManagedProcessBackendV1_apply L R caps q (objects, rv, es) = (Completed outcome, parts) \<and> bo_decision outcome = Denied"
proof -
  obtain outcome objects' rv' es' where a: "HostManagedProcessBackendV1_apply L R caps q (objects, rv, es) = (Completed outcome, objects', rv', es')"
    by (cases "HostManagedProcessBackendV1_apply L R caps q (objects, rv, es)")
      (auto simp: HostManagedProcessBackendV1_apply_def split: prod.splits)
  from a assms(1) have "bo_decision outcome = Denied"
  proof (cases rule: backend_spawn_cases)
    case (ran world' invocation identity pref es1 es2 observation digest)
    from ran(1) assms(2) have "world' = world" by (auto elim!: take_invocation_cases)
    then have "mount \<in> set (mp_mounts (new_process q w argv environment world' identity pref))" using assms(3) by (simp add: new_process_def Let_def)
    note release_missing [OF this assms(4-6), where facts = "[]" and first = None]
    then have "fst (settle L R q (new_process q w argv environment world' identity pref) (objects, rv, es2)) \<noteq> Inr digest"
      by (auto simp: settle_def release_execution_world_mounts_def res_simps split: option.splits prod.splits)
        (metis Inl_Inr_False fst_conv)
    with ran(5) show ?thesis by simp
  qed
  with a show ?thesis by blast
qed

section \<open>An example process\<close>

text \<open>A run with one executable: its world is provisioned, one invocation of it staged, and run.\<close>

definition px_world_grant :: ExecutionWorldGrantV1 where
  "px_world_grant = ex_world\<lparr>wg_executable_resources := {|''handle''|}, wg_required_properties := required_properties\<rparr>"

definition px_grant :: ResourceGrantV1 where
  "px_grant = (ex_grant {|Read|})\<lparr>rg_kind := Executable\<rparr>"

definition px_state :: EffectAuthorityStateV1 where
  "px_state = ex_start\<lparr>st_resources := [(''handle'', \<lparr>rr_grant = px_grant, rr_envelope_ref = ev_envelope_ref ex_envelope, rr_revoked = False\<rparr>)],
     st_runs := [(''run'', ex_run Active)], st_envelopes := [(ev_envelope_ref ex_envelope, ex_envelope\<lparr>ev_resources := [px_grant], ev_world := px_world_grant\<rparr>)]\<rparr>"

definition px_access :: ManagedResourceAccessV1 where
  "px_access = \<lparr>ma_envelope_ref = ev_envelope_ref ex_envelope, ma_run_control_ref = ''run'', ma_context = ex_context, ma_current = ex_current\<rparr>"

definition px_fs :: host_fs where
  "px_fs = \<lparr>hf_canonical = Some, hf_node = (\<lambda>p. if p = ox_root then Some ox_tree else None)\<rparr>"

definition px_backing :: HostResourceBackingV1 where
  "px_backing = BackExecutable \<lparr>ow_envelope_ref = ev_envelope_ref ex_envelope, ow_run_control_ref = ''run'', ow_context_ref = ex_context_ref, ow_bridge_id = ''x''\<rparr>
     (ox_root @ [Normal ''a'']) ox_root \<lparr>si_digest = blake3_hex plain_lib [1], si_byte_count = 1, si_fingerprint = ex_fingerprint (Suc 0) 7\<rparr>"

definition px_rv :: "ResourceHandleRefV1 fset \<Rightarrow> ManagedResourceResolverV1" where
  "px_rv leases = ox_new\<lparr>rv_backings := [(''handle'', px_backing)], rv_world_leases := leases\<rparr>"

definition px_lease :: lease_disk where
  "px_lease = \<lparr>ld_fs = px_fs, ld_overlay = (\<lambda>_. Inl IoError), ld_copy = (\<lambda>_ _. ox_disk), ld_after = px_fs\<rparr>"

definition px_release :: release_disk where
  "px_release = \<lparr>rd_fs = px_fs, rd_removed = (\<lambda>_ _. False), rd_written = (\<lambda>_ _. ox_disk)\<rparr>"

definition px_platform :: platform where
  "px_platform = \<lparr>plat_availability = \<lparr>av_kind = LinuxBubblewrapCgroupV2, av_available = True, av_identity_digest = ''x'',
       av_verified_properties = required_properties\<rparr>, plat_prepare = (\<lambda>_. Inr)\<rparr>"

definition px_mount :: ExecutionWorldMountV1 where
  "px_mount = \<lparr>mt_handle_ref = ''handle'', mt_kind = Executable, mt_source_path = ox_root @ [Normal ''a''],
     mt_mount_name = take 24 (blake3_hex plain_lib (as_bytes ''handle'')), mt_writable = False, mt_quota_bytes = 1,
     mt_allowed_verbs = {|Read|}, mt_private_overlay = False, mt_initial_bytes = 0\<rparr>"

definition px_world :: "(string, ManagedProcessInvocationV1) hmap \<Rightarrow> ProvisionedWorldV1" where
  "px_world invocations = \<lparr>wd_owner = \<lparr>wo_envelope_ref = ev_envelope_ref ex_envelope, wo_run_ref = ''run'', wo_context_ref = ex_context_ref,
       wo_bridge_id = ''x'', wo_session_binding_ref = ''x''\<rparr>,
     wd_grant = px_world_grant, wd_access = px_access, wd_availability = plat_availability px_platform, wd_mounts = [px_mount],
     wd_resource_identity_refs = [(''handle'', ''x'')], wd_invocations = invocations, wd_revoked = False\<rparr>"

definition px_es :: "(string, ManagedProcessInvocationV1) hmap \<Rightarrow> ExecutionWorldStateV1" where
  "px_es invocations = ExecutionWorldStateV1_default\<lparr>es_worlds := [(''world'', px_world invocations)]\<rparr>"

definition px_invocation :: ManagedProcessInvocationV1 where
  "px_invocation = \<lparr>pi_executable_handle = ''handle'', pi_argv = [''a''], pi_environment = [], pi_stdin = None,
     pi_working_directory_handle = None, pi_working_directory_selector = None\<rparr>"

definition px_staged :: ExecutionWorldStateV1 where
  "px_staged = px_es [(own_key plain_lib px_invocation, px_invocation)]"

definition px_request :: EffectRequestV1 where
  "px_request = (ex_request_body 0)\<lparr>rq_request_id := ''r'',
     rq_effect := EffProcess (Spawn ''world'' ''handle'' (argv_digest plain_lib px_invocation) None None (environment_digest plain_lib px_invocation) None),
     rq_requested_budget_slice := budgets_default\<lparr>bg_process_spawns := 1, bg_wall_millis := 1000, bg_read_bytes := 10\<rparr>\<rparr>"

definition px_poll :: poll where
  "px_poll = \<lparr>pl_exceeded = False, pl_expired = False, pl_status = Inr (Some (ExitCode 0)), pl_cancelled = False, pl_resident = None, pl_fs = px_fs\<rparr>"

definition px_run :: process_run where
  "px_run = \<lparr>sr_now = 10, sr_fs = px_fs, sr_spawned = Inr (), sr_stdin = Inr (), sr_polls = [px_poll], sr_stdout = ([[1, 2]], True),
     sr_stderr = ([], True), sr_duration = 1, sr_taken = (\<lambda>es. es), sr_start = (\<lambda>es. es), sr_during = (\<lambda>es. es), sr_release = px_release\<rparr>"

lemma sorted_singleton: "sorted_list_of_fset {|x|} = [x]"
  by (simp add: sorted_list_of_fset.rep_eq)

lemma px_checks: "provision_checks plain_lib (plat_availability px_platform) px_state px_access ''world'' = Inr (px_world_grant, [px_grant])"
proof -
  have "validate_execution_world_attachment plain_lib ''world'' (ev_envelope_ref ex_envelope) ''run'' ex_context ex_current px_state
      = Inr (px_world_grant, [px_grant])"
    by (simp add: validate_execution_world_attachment_def px_state_def hm_get_def ex_envelope_fields ex_run_def px_world_grant_def ex_world_def
        required_properties_def ex_current_def lifecycle_mismatch_def px_grant_def ex_grant_def sorted_singleton)
      (simp add: ex_context_def)
  then show ?thesis
    by (simp add: provision_checks_def px_access_def map_err_def px_platform_def px_world_grant_def ex_world_def world_topology_def px_grant_def ex_grant_def)
qed

lemma px_attachment: "validate_attachment plain_lib px_state px_access ''handle'' Executable = Inr px_grant"
  by (simp add: validate_attachment_def validate_resource_attachment_def px_state_def px_access_def hm_get_def ex_envelope_fields
      ex_run_def px_grant_def ex_grant_def ex_current_def lifecycle_mismatch_def map_err_def)
    (simp add: ex_context_def)

lemma px_owner: "validate_owner plain_lib (backing_owner px_backing) px_access = Inr ()"
  by (simp add: validate_owner_def access_context_ref_def px_access_def px_backing_def backing_owner_def map_err_def)

lemma px_read: "read_at plain_lib px_fs (ox_root @ [Normal ''a'']) ox_root
   \<lparr>si_digest = blake3_hex plain_lib [1], si_byte_count = 1, si_fingerprint = ex_fingerprint (Suc 0) 7\<rparr> (- 1) = Inr [1]"
proof -
  have "open_regular_source ox_root ox_tree (ox_root @ [Normal ''a'']) = Inr (ex_file 7 [[1]])"
    by (simp add: open_regular_source_def ox_root_def ox_tree_def source_fingerprint_def ex_file_def ex_fingerprint_def strip_path_def)
  moreover have "exchange_source m plain_lib (ex_file 7 [[1]]) \<lparr>si_digest = blake3_hex plain_lib [1], si_byte_count = 1, si_fingerprint = ex_fingerprint (Suc 0) 7\<rparr> (- 1) = Inr [1]" for m
    unfolding exchange_source_Inr using unat_gt_0 [of "- 1 :: u64"] by (simp add: ex_of_bytes Suc_le_eq) (simp add: ex_file_def)
  ultimately show ?thesis by (simp add: read_at_def scope_node_def px_fs_def read_source_if_identity_matches_def map_err_def)
qed

lemma px_provision: "provision_world plain_lib px_platform px_lease px_release ''f'' px_state px_access ''world'' (ex_bound, px_rv {||}, ExecutionWorldStateV1_default)
   = (Inr (), ex_bound, px_rv {|''handle''|}, px_es [])"
proof -
  have s: "mount_source plain_lib px_fs now px_backing objects = (Inr (ox_root @ [Normal ''a''], 1), objects)" for now objects
    by (simp add: mount_source_def px_backing_def px_read)
  have m: "make_mount plain_lib px_lease px_grant (ox_root @ [Normal ''a''], 1) = Inr px_mount"
    by (simp add: make_mount_def Let_def mount_writable_def px_grant_def ex_grant_def px_mount_def)
  have g: "rg_handle_ref px_grant = ''handle''" "rg_kind px_grant = Executable" "rg_safe_identity_ref px_grant = ''x''"
    by (simp_all add: px_grant_def ex_grant_def)
  have b: "hm_get (rv_backings (px_rv {||})) ''handle'' = Some px_backing" by (simp add: px_rv_def hm_get_def)
  have c: "fcard {|''handle''|} = 1" by (simp add: fcard.rep_eq)
  have l: "lease_mounts plain_lib px_lease px_state px_access (px_rv {||}) [px_grant] ex_bound = (Inr [px_mount], ex_bound)"
    using m s by (simp add: g px_attachment b px_owner map_ok_def) (simp add: px_lease_def map_ok_def)
  have r: "rv_world_leases (px_rv {||}) = {||}" "rv_exclusive_world_leases (px_rv {||}) = {||}" "mt_writable px_mount = False"
    by (simp_all add: px_rv_def ox_new_def ManagedResourceResolverV1_new_def px_mount_def)
  have "lease_execution_world_mounts plain_lib px_lease px_state px_access [px_grant] ex_bound (px_rv {||})
      = (Inr [px_mount], ex_bound, px_rv {|''handle''|})"
    by (simp add: lease_execution_world_mounts_def l g c r Let_def del: lease_mounts.simps)
      (simp add: px_rv_def ox_new_def ManagedResourceResolverV1_new_def)
  moreover have "world_owner plain_lib px_access = Inr (wd_owner (px_world []))"
    by (simp add: world_owner_def access_context_ref_def px_access_def px_world_def map_err_def) (simp add: ex_context_def)
  ultimately show ?thesis
    by (simp add: provision_world_def px_checks) (simp add: px_platform_def hm_contains_def hm_get_def hm_insert_def px_es_def ExecutionWorldStateV1_default_def px_world_def g)
qed

lemma px_stage: "stage_invocation plain_lib px_access ''world'' px_invocation (px_es [])
   = (Inr (argv_digest plain_lib px_invocation, environment_digest plain_lib px_invocation, None), px_staged)"
proof -
  have "validate_invocation px_invocation = Inr ()"
    by (simp add: validate_invocation_def invocation_too_large_def px_invocation_def MAX_ARGUMENTS_def MAX_ARGUMENT_BYTES_def MAX_ENV_BINDINGS_def
      MAX_ENV_BYTES_def contains_char_def)
  moreover have "validate_world_owner plain_lib (wd_owner (px_world [])) px_access = Inr ()"
    by (simp add: validate_world_owner_def access_context_ref_def px_access_def px_world_def map_err_def)
  moreover have "\<not> staging_mismatch plain_lib px_invocation (px_world [])"
    by (simp add: staging_mismatch_def px_world_def px_invocation_def px_world_grant_def hm_contains_def hm_get_def)
  moreover have "stdin_digest plain_lib px_invocation = None" by (simp add: stdin_digest_def px_invocation_def)
  ultimately show ?thesis
    by (simp add: stage_invocation_def px_es_def hm_get_def px_staged_def hm_insert_def) (simp add: px_world_def)
qed

lemma px_reaches: "rtranclp (world_step plain_lib) ExecutionWorldStateV1_default px_staged"
proof -
  have "world_step plain_lib ExecutionWorldStateV1_default (px_es [])"
    using world_provision [of plain_lib ExecutionWorldStateV1_default px_platform px_lease px_release "''f''" px_state px_access "''world''" ex_bound "px_rv {||}"]
    by (simp add: px_provision)
  moreover have "world_step plain_lib (px_es []) px_staged"
    using world_lifecycle [OF life_stage [of plain_lib "px_es []" px_access "''world''" px_invocation]] by (simp add: px_stage)
  ultimately show ?thesis by (meson converse_rtranclp_into_rtranclp rtranclp.rtrancl_refl)
qed

lemma px_request_fields:
  "rq_effect px_request = EffProcess (Spawn ''world'' ''handle'' (argv_digest plain_lib px_invocation) None None (environment_digest plain_lib px_invocation) None)"
  "rq_run_control_ref px_request = ''run''" "rq_requested_budget_slice px_request = budgets_default\<lparr>bg_process_spawns := 1, bg_wall_millis := 1000, bg_read_bytes := 10\<rparr>"
  "rq_request_id px_request = ''r''"
  by (simp_all add: px_request_def ex_request_body_def)

lemma px_take: "\<exists>pref es1. take_invocation plain_lib px_request ''world'' ''handle'' (invocation_key plain_lib ''handle'' (argv_digest plain_lib px_invocation)
     (environment_digest plain_lib px_invocation) None None None) px_staged
   = (Inr (px_world [(own_key plain_lib px_invocation, px_invocation)], px_invocation, ''x'', pref), es1) \<and> es_worlds es1 = [(''world'', px_world [])]"
proof -
  have k: "invocation_key plain_lib ''handle'' (argv_digest plain_lib px_invocation) (environment_digest plain_lib px_invocation) None None None
      = own_key plain_lib px_invocation"
    by (simp add: own_key_def stdin_digest_def) (simp add: px_invocation_def)
  have o: "process_request_owner plain_lib (wd_owner (px_world m)) px_request = Inr ()" for m
    by (simp add: process_request_owner_def px_world_def px_request_def ex_request_body_def map_err_def)
  have w: "wd_revoked (px_world m) = False" "wd_invocations (px_world m) = m" "wd_resource_identity_refs (px_world m) = [(''handle'', ''x'')]"
    "(px_world m)\<lparr>wd_invocations := m'\<rparr> = px_world m'" for m m' by (simp_all add: px_world_def)
  have "es_next_process_nonce px_staged = 0" "es_worlds px_staged = [(''world'', px_world [(own_key plain_lib px_invocation, px_invocation)])]"
    by (simp_all add: px_staged_def px_es_def ExecutionWorldStateV1_default_def)
  then show ?thesis unfolding k
    by (simp add: take_invocation_def checked_add_def Let_def hm_get_def o w hm_remove_def hm_insert_def)
qed

lemma px_launch: "launch_checks px_run px_request (px_world m) px_invocation = Inr ()"
proof -
  have "remaining_millis 90 10 = 80000" by (simp add: remaining_millis_def clamp_i64_def)
  then show ?thesis
    by (simp add: launch_checks_def px_request_fields px_world_def px_platform_def backend_kind_def Let_def budgets_default_def px_run_def px_world_grant_def
      ex_world_def px_mount_def px_invocation_def resolve_working_directory_def map_err_def)
qed

lemma px_spawn: "\<exists>outcome es'. HostManagedProcessBackendV1_apply plain_lib px_run caps px_request (ex_bound, px_rv {|''handle''|}, px_staged)
     = (Completed outcome, ex_bound, px_rv {||}, es') \<and> bo_decision outcome = Allowed
   \<and> (\<exists>pref d. bo_facts outcome = FactContainedProcess ''world'' pref ''x'' ''x'' (argv_digest plain_lib px_invocation) (environment_digest plain_lib px_invocation)
       ''exited'' (Some 0) (blake3_hex plain_lib [1, 2]) 2 (blake3_hex plain_lib []) 0 False True d)"
proof -
  let ?argv = "argv_digest plain_lib px_invocation" and ?env = "environment_digest plain_lib px_invocation"
  let ?world = "px_world [(own_key plain_lib px_invocation, px_invocation)]"
  obtain pref es1 where t: "take_invocation plain_lib px_request ''world'' ''handle'' (invocation_key plain_lib ''handle'' ?argv ?env None None None) px_staged
      = (Inr (?world, px_invocation, ''x'', pref), es1)" and w1: "es_worlds es1 = [(''world'', px_world [])]" using px_take by blast
  let ?p = "new_process px_request ''world'' ?argv ?env ?world ''x'' pref"
  have p: "mp_world_ref ?p = ''world''" "mp_mounts ?p = [px_mount]" "mp_world_identity_digest ?p = ''x''" "mp_executable_identity_ref ?p = ''x''"
    "mp_argv_digest ?p = ?argv" "mp_environment_digest ?p = ?env"
    by (simp_all add: new_process_def Let_def px_world_def px_platform_def)
  have "reconcile_execution_mount plain_lib px_release px_access ''r'' px_mount (ex_bound, px_rv {|''handle''|}) = (Inr [], ex_bound, px_rv {|''handle''|})"
    using px_owner px_read by (simp add: reconcile_execution_mount_def px_mount_def px_rv_def hm_get_def px_release_def Let_def)
      (simp add: px_backing_def backing_owner_def)
  moreover have "(px_rv {|''handle''|})\<lparr>rv_world_leases := {||}, rv_exclusive_world_leases := {||}\<rparr> = px_rv {||}"
    "rv_world_leases (px_rv l) = l" "rv_exclusive_world_leases (px_rv l) = {||}" "mt_handle_ref px_mount = ''handle''" for l
    by (simp_all add: px_rv_def ox_new_def ManagedResourceResolverV1_new_def px_mount_def)
  ultimately have "release_execution_world_mounts plain_lib px_release px_access ''r'' [px_mount] (ex_bound, px_rv {|''handle''|}) = (Inr [], ex_bound, px_rv {||})"
    by (simp add: release_execution_world_mounts_def)
  then have st: "settle plain_lib px_run px_request ?p (ex_bound, px_rv {|''handle''|}, es1\<lparr>es_processes := ps\<rparr>)
      = (Inr (resource_domain_hash plain_lib ''pastey-process-resource-effects-v1'' (effects_json [])), ex_bound, px_rv {||}, es1\<lparr>es_processes := ps\<rparr>)" for ps
    by (simp add: settle_def p w1 hm_get_def px_request_fields) (simp add: px_run_def px_world_def)
  have mon: "monitor_process ?p False False False [px_poll] = Some \<lparr>to_state = ''exited'', to_exit_code = Some 0, to_termination_requested = False\<rparr>"
    by (simp add: px_poll_def exit_state_def exit_budget_state_def exit_code_def)
  have r: "sr_taken px_run = (\<lambda>es. es)" "sr_start px_run = (\<lambda>es. es)" "sr_during px_run = (\<lambda>es. es)" "sr_polls px_run = [px_poll]"
    "sr_stdout px_run = ([[1, 2]], True)" "sr_stderr px_run = ([], True)" by (simp_all add: px_run_def)
  have cap: "start_capture plain_lib 5 [[1, 2]] True
      = \<lparr>sc_bytes = 2, sc_exceeded = False, sc_digest = Some (blake3_hex plain_lib [1, 2]), sc_excerpt = [1, 2]\<rparr>"
    "start_capture plain_lib c [] True = \<lparr>sc_bytes = 0, sc_exceeded = False, sc_digest = Some (blake3_hex plain_lib []), sc_excerpt = []\<rparr>" for c
    by (simp_all add: start_capture_def MAX_MODEL_PROCESS_EXCERPT_BYTES_def)
  have budget: "bg_read_bytes (rq_requested_budget_slice px_request) = 10" by (simp add: px_request_fields)
  have "\<exists>es'. apply_spawn plain_lib px_run px_request ''world'' ''handle'' ?argv None None ?env None (ex_bound, px_rv {|''handle''|}, px_staged)
      = (Inr (process_outcome plain_lib ?p \<lparr>sc_bytes = 2, sc_exceeded = False, sc_digest = Some (blake3_hex plain_lib [1, 2]), sc_excerpt = [1, 2]\<rparr>
          \<lparr>sc_bytes = 0, sc_exceeded = False, sc_digest = Some (blake3_hex plain_lib []), sc_excerpt = []\<rparr>
          \<lparr>to_state = ''exited'', to_exit_code = Some 0, to_termination_requested = False\<rparr>
          (resource_domain_hash plain_lib ''pastey-process-resource-effects-v1'' (effects_json [])) ''contained_process_exited''), ex_bound, px_rv {||}, es')"
    by (simp add: apply_spawn_def t px_launch Let_def r st mon hm_contains_iff hmap_simps budget cap del: monitor_process.simps)
  then show ?thesis
    by (auto simp: HostManagedProcessBackendV1_apply_def px_request_fields(1) process_outcome_def p)
qed

text \<open>The example process was staged: the request determines the arguments of what ran.\<close>

theorem spawned_process_was_staged_witness:
  "\<exists>world invocation. hm_get (es_worlds px_staged) ''world'' = Some world \<and> confined world \<and> wo_run_ref (wd_owner world) = ''run''
    \<and> invocation \<in> set (hm_values (wd_invocations world)) \<and> argv_digest plain_lib px_invocation = argv_digest plain_lib invocation"
proof -
  obtain outcome es' where s: "HostManagedProcessBackendV1_apply plain_lib px_run (0, 0) px_request (ex_bound, px_rv {|''handle''|}, px_staged)
     = (Completed outcome, ex_bound, px_rv {||}, es')" "bo_decision outcome = Allowed" using px_spawn by blast
  from spawned_process_was_staged [OF json_faithful_plain_lib px_reaches s(1) px_request_fields(1) s(2)] collision_free_plain_lib px_request_fields(2)
  show ?thesis by metis
qed

text \<open>The invocation of the example is spent, also once its observation was fetched.\<close>

theorem staged_invocation_runs_once_witness:
  "\<exists>outcome es' outcome' parts'. HostManagedProcessBackendV1_apply plain_lib px_run (0, 0) px_request (ex_bound, px_rv {|''handle''|}, px_staged)
     = (Completed outcome, ex_bound, px_rv {||}, es') \<and> bo_decision outcome = Allowed
    \<and> HostManagedProcessBackendV1_apply plain_lib px_run (0, 0) px_request (ex_bound, px_rv {||}, snd (take_completed_observation plain_lib px_access ''q'' es'))
      = (Completed outcome', parts') \<and> bo_decision outcome' = Denied"
proof -
  obtain outcome es' where s: "HostManagedProcessBackendV1_apply plain_lib px_run (0, 0) px_request (ex_bound, px_rv {|''handle''|}, px_staged)
     = (Completed outcome, ex_bound, px_rv {||}, es')" "bo_decision outcome = Allowed" using px_spawn by blast
  let ?key = "invocation_key plain_lib ''handle'' (argv_digest plain_lib px_invocation) (environment_digest plain_lib px_invocation) None None None"
  have r: "\<forall>es. rtranclp (lifecycle_but plain_lib ''world'' ?key) es (sr_taken px_run es)" "\<forall>es. rtranclp (lifecycle_but plain_lib ''world'' ?key) es (sr_start px_run es)"
    "\<forall>es. rtranclp (lifecycle_but plain_lib ''world'' ?key) es (sr_during px_run es)" by (simp_all add: px_run_def)
  have "world_step_on plain_lib (lifecycle_but plain_lib ''world'' ?key) (\<lambda>_. True) es' (snd (take_completed_observation plain_lib px_access ''q'' es'))"
    by (intro on_life but_take)
  then have "rtranclp (world_step_on plain_lib (lifecycle_but plain_lib ''world'' ?key) (\<lambda>_. True)) es' (snd (take_completed_observation plain_lib px_access ''q'' es'))"
    by simp
  from staged_invocation_runs_once [OF s(1) px_request_fields(1) s(2) refl r this refl] s show ?thesis by blast
qed

text \<open>A clean exit after one poll of a process that was still running.\<close>

definition px_process :: ManagedProcessV1 where
  "px_process = new_process px_request ''world'' [] [] (px_world []) ''x'' ''p''"

theorem exited_means_clean_witness:
  "\<exists>observation. monitor_process px_process False False False [px_poll\<lparr>pl_status := Inr None\<rparr>, px_poll] = Some observation
    \<and> to_state observation = ''exited'' \<and> to_exit_code observation = Some 0"
proof -
  have "\<not> over_writes px_process (px_poll\<lparr>pl_status := Inr None\<rparr>)"
    by (simp add: over_writes_def mounted_write_bytes_def px_process_def new_process_def Let_def px_world_def px_mount_def)
  then have m: "monitor_process px_process False False False [px_poll\<lparr>pl_status := Inr None\<rparr>, px_poll]
      = Some \<lparr>to_state = ''exited'', to_exit_code = Some 0, to_termination_requested = False\<rparr>"
    by (simp add: over_memory_def Let_def) (simp add: px_poll_def exit_state_def exit_budget_state_def exit_code_def)
  from exited_means_clean [OF m] show ?thesis by (simp add: m del: monitor_process.simps)
qed

theorem process_output_within_reservation_witness:
  "\<exists>outcome parts n m. HostManagedProcessBackendV1_apply plain_lib px_run (0, 0) px_request (ex_bound, px_rv {|''handle''|}, px_staged) = (Completed outcome, parts)
    \<and> (\<exists>w p pl i a e s c od ed t u d. bo_facts outcome = FactContainedProcess w p pl i a e s c od n ed m t u d)
    \<and> unat n = 2 \<and> unat n + unat m \<le> unat (bg_read_bytes (rq_requested_budget_slice px_request))"
proof -
  obtain outcome es' pref d where s: "HostManagedProcessBackendV1_apply plain_lib px_run (0, 0) px_request (ex_bound, px_rv {|''handle''|}, px_staged)
     = (Completed outcome, ex_bound, px_rv {||}, es')" "bo_facts outcome = FactContainedProcess ''world'' pref ''x'' ''x'' (argv_digest plain_lib px_invocation)
       (environment_digest plain_lib px_invocation) ''exited'' (Some 0) (blake3_hex plain_lib [1, 2]) 2 (blake3_hex plain_lib []) 0 False True d"
    using px_spawn by blast
  have "unat (2 :: u64) = 2" by simp
  with process_output_within_reservation [OF s(1) px_request_fields(1) s(2)] s show ?thesis by blast
qed

text \<open>The example world expires at 90; at 1000 its invocation is still launched.\<close>

theorem expired_world_launches_witness:
  "wg_expires_at (wd_grant (px_world [])) = 90 \<and> launch_checks (px_run\<lparr>sr_now := 1000\<rparr>) px_request (px_world []) px_invocation = Inr ()"
proof -
  have e: "wg_expires_at (wd_grant (px_world [])) = 90" by (simp add: px_world_def px_world_grant_def ex_world_def)
  moreover have "sr_now px_run = 10" by (simp add: px_run_def)
  ultimately show ?thesis using expired_world_launches [OF px_launch [of "[]"], of 1000] by simp
qed

text \<open>The example run is terminated, and then another process effect of it is asked for twice.\<close>

theorem terminated_run_starts_nothing_witness:
  "\<exists>es'. es' = snd (snd (snd (HostManagedProcessBackendV1_apply plain_lib px_run (0, 0) px_request
        (ex_bound, px_rv {|''handle''|}, snd (terminate_run ''run'' (\<lambda>es. es) px_staged)))))
    \<and> run_is_quiescent ''run'' es'
    \<and> (\<exists>outcome parts. HostManagedProcessBackendV1_apply plain_lib px_run (0, 0) px_request (ex_bound, px_rv {|''handle''|}, es')
        = (Completed outcome, parts) \<and> bo_decision outcome = Denied)"
proof -
  have calm: "calm plain_lib (\<lambda>es. es)" by (simp add: calm_def)
  let ?es = "snd (terminate_run ''run'' (\<lambda>es. es) px_staged)"
  let ?es' = "snd (snd (snd (HostManagedProcessBackendV1_apply plain_lib px_run (0, 0) px_request (ex_bound, px_rv {|''handle''|}, ?es))))"
  have "world_step_on plain_lib (lifecycle plain_lib) (\<lambda>access. ma_run_control_ref access \<noteq> ''run'') ?es ?es'"
    by (rule on_effect) (simp_all add: px_run_def)
  then have "rtranclp (world_step_on plain_lib (lifecycle plain_lib) (\<lambda>access. ma_run_control_ref access \<noteq> ''run'')) ?es ?es'" by (rule r_into_rtranclp)
  note ended = terminated_run_starts_nothing [OF px_reaches calm this px_request_fields(2,1),
      where R = px_run and caps = "(0, 0)" and objects = ex_bound and rv = "px_rv {|''handle''|}"]
  show ?thesis
    by (intro exI [of _ ?es'] conjI refl ended [THEN conjunct1] ended [THEN conjunct2, THEN conjunct2, THEN conjunct2])
qed

theorem overlapping_termination_misses_process_witness:
  "\<exists>outcome objects' rv' es'. HostManagedProcessBackendV1_apply plain_lib (px_run\<lparr>sr_taken := (\<lambda>es. snd (terminate_run ''run'' (\<lambda>es. es) es))\<rparr>) (0, 0) px_request
      (ex_bound, px_rv {|''handle''|}, px_staged) = (Completed outcome, objects', rv', es')
    \<and> bo_decision outcome = Denied \<and> hm_get (es_worlds es') ''world'' = None \<and> \<not> run_is_quiescent ''run'' es'"
proof -
  let ?R = "px_run\<lparr>sr_taken := (\<lambda>es. snd (terminate_run ''run'' (\<lambda>es. es) es))\<rparr>"
  obtain pref es1 where t: "take_invocation plain_lib px_request ''world'' ''handle'' (invocation_key plain_lib ''handle'' (argv_digest plain_lib px_invocation)
      (environment_digest plain_lib px_invocation) None None None) px_staged
      = (Inr (px_world [(own_key plain_lib px_invocation, px_invocation)], px_invocation, ''x'', pref), es1)" using px_take by blast
  have l: "launch_checks ?R px_request (px_world m) px_invocation = Inr ()" for m
    using px_launch [of m] by (simp add: launch_checks_def Let_def px_invocation_def)
  have r: "sr_taken ?R = (\<lambda>es. snd (terminate_run (rq_run_control_ref px_request) (\<lambda>es. es) es))" "sr_start ?R = (\<lambda>es. es)" "sr_during ?R = (\<lambda>es. es)"
    by (simp_all add: px_run_def px_request_fields)
  from overlapping_termination_misses_process [OF px_request_fields(1) t l r, of "(0, 0)" ex_bound "px_rv {|''handle''|}"] px_request_fields(2)
  show ?thesis by fastforce
qed

text \<open>The example world with an output slot mounted in it, whose overlay is no longer on disk.\<close>

definition px_gone :: ExecutionWorldMountV1 where
  "px_gone = (ox_mount ''slot'' OutputSlot)\<lparr>mt_source_path := [RootDir]\<rparr>"

theorem no_process_without_overlay_witness:
  "\<exists>outcome parts. HostManagedProcessBackendV1_apply plain_lib px_run (0, 0) px_request (ex_bound,
      (px_rv {||})\<lparr>rv_backings := [(''handle'', px_backing), (''slot'', BackOutputSlot ox_owner ox_root [] 8 False)]\<rparr>,
      px_staged\<lparr>es_worlds := [(''world'', (px_world [(own_key plain_lib px_invocation, px_invocation)])\<lparr>wd_mounts := [px_mount, px_gone]\<rparr>)]\<rparr>)
      = (Completed outcome, parts) \<and> bo_decision outcome = Denied"
proof -
  let ?world = "(px_world [(own_key plain_lib px_invocation, px_invocation)])\<lparr>wd_mounts := [px_mount, px_gone]\<rparr>"
  let ?es = "px_staged\<lparr>es_worlds := [(''world'', ?world)]\<rparr>"
  let ?rv = "(px_rv {||})\<lparr>rv_backings := [(''handle'', px_backing), (''slot'', BackOutputSlot ox_owner ox_root [] 8 False)]\<rparr>"
  have w: "hm_get (es_worlds ?es) ''world'' = Some ?world" by (simp add: hm_get_def)
  have m: "px_gone \<in> set (wd_mounts ?world)" by simp
  have b: "hm_get (rv_backings ?rv) (mt_handle_ref px_gone) = Some (BackOutputSlot ox_owner ox_root [] 8 False)"
    by (simp add: hm_get_def px_gone_def ox_mount_def)
  have p: "private_part (BackOutputSlot ox_owner ox_root [] 8 False) \<noteq> None" by (simp add: private_part_def)
  have f: "hf_node (rd_fs (sr_release px_run)) (mt_source_path px_gone) = None" by (simp add: px_run_def px_release_def px_fs_def px_gone_def ox_root_def)
  from no_process_without_overlay [OF px_request_fields(1) w m b p f] show ?thesis by blast
qed

end
