(* ===== verification/Managed_Execution.thy ===== *)
theory Managed_Execution
  imports Managed_Claims World_Properties
begin

text \<open>
  The attachment of a claimed step to a run, \<^verbatim>\<open>src-tauri/src/managed_execution.rs\<close>: \<open>claim_v2_managed_step\<close> turns a claimable
  step into an active run with its envelope, resources, workspace and world, and \<open>finalize_v2_transform\<close> and
  \<open>finalize_v2_execute\<close> turn the proposal of a worker into the recorded result. Both work on the state of the whole Host:
  the tables, the effect authority, the object service, the resource resolver and the execution worlds.

  Where the source returns early between two calls, what the calls before it changed stays; the clean-up of the source
  is part of each branch.
\<close>

section \<open>Data\<close>

datatype exec_error =
  ExecInvalid string | ExecPlan plan_error | ExecEffect effect_error | ExecResource resource_error
| ExecWorkspace workspace_error | ExecPanic

record HostRuntime =
  hr_local_host_ref :: HostRef
  hr_db :: plan_db
  hr_effect_authority :: EffectAuthorityStateV1
  hr_managed_objects :: ManagedObjectBindingService
  hr_managed_resources :: ManagedResourceResolverV1
  hr_execution_worlds :: ExecutionWorldStateV1

record ManagedProcessWorldSpecV1 =
  we_executable :: ExecutableBindingSpecV1
  we_executable_identity_ref :: string

record ManagedStepClaimRequestV1 =
  cr_attempt_id :: string
  cr_step_id :: string
  cr_input :: ManagedObjectAcquisition
  cr_captured_binding :: HostExecutionFreshness
  cr_current_binding :: HostExecutionFreshness
  cr_now :: int
  cr_process_world :: "ManagedProcessWorldSpecV1 option"
  cr_private_scratch :: bool

record ManagedProcessWorldGrantV1 =
  pg_world_ref :: ExecutionWorldRefV1
  pg_executable_handle :: ResourceHandleRefV1

record ManagedStepGrantV1 =
  sg_operation :: ManagedSemanticOperationV1
  sg_access :: ManagedResourceAccessV1
  sg_input_handle :: ResourceHandleRefV1
  sg_output_slot :: "ResourceHandleRefV1 option"
  sg_transform_intent :: "string option"
  sg_operation_intent :: string
  sg_output_revision :: "u64 option"
  sg_process_world :: "ManagedProcessWorldGrantV1 option"
  sg_workspace :: ManagedRunWorkspaceV1

record ManagedObjectRevisionResultV1 =
  vr_logical_object_id :: string
  vr_revision :: u64
  vr_host_ref :: HostRef
  vr_content_digest :: string

record TransformResultProposalV1 =
  tp_attempt_id :: string
  tp_step_id :: string
  tp_context_ref :: AuthorityContextRefV1
  tp_envelope_ref :: EffectEnvelopeRefV1
  tp_run_control_ref :: ManagedRunRefV1
  tp_input :: ManagedInputRevisionV1
  tp_output :: ManagedObjectRevisionResultV1
  tp_output_seal :: SealedOutputEvidenceV1
  tp_evidence_ids :: "string list"
  tp_evidence_head :: string
  tp_display_name :: string
  tp_media_type :: string

record ExecuteResultProposalV1 =
  xp_attempt_id :: string
  xp_step_id :: string
  xp_context_ref :: AuthorityContextRefV1
  xp_envelope_ref :: EffectEnvelopeRefV1
  xp_run_control_ref :: ManagedRunRefV1
  xp_input :: ManagedInputRevisionV1
  xp_evidence_ids :: "string list"
  xp_evidence_head :: string
  xp_result_schema_ref :: string
  xp_result_digest :: string
  xp_status :: string

record AuthoritativeExecuteResultV1 =
  xr_result_ref :: string
  xr_attempt_id :: string
  xr_step_id :: string
  xr_input :: ManagedInputRevisionV1
  xr_host_ref :: HostRef
  xr_result_schema_ref :: string
  xr_result_digest :: string
  xr_status :: string
  xr_evidence_head :: string

section \<open>Constants of the attachment\<close>

definition ATTACHMENT_VERSION :: string where "ATTACHMENT_VERSION = ''pastey-phase5-v2-attachment-v1''"
definition HOST_POLICY_SNAPSHOT :: string where "HOST_POLICY_SNAPSHOT = ''pastey-phase5-v2-host-policy-v1''"
definition NO_WORKER_WORLD_IDENTITY :: string where "NO_WORKER_WORLD_IDENTITY = ''pastey-phase5-v2-no-worker-world-v1''"

definition attachment_domain_hash :: "lib \<Rightarrow> string \<Rightarrow> json \<Rightarrow> string" where
  "attachment_domain_hash L domain value =
     domain @ '':'' @ blake3_hex L (as_bytes ATTACHMENT_VERSION @ [0] @ as_bytes domain @ [0] @ json_vec L value)"

definition step_budgets :: EffectBudgetsV1 where
  "step_budgets = \<lparr>bg_requests = 64, bg_read_bytes = 16 * 1024 * 1024, bg_write_bytes = 16 * 1024 * 1024,
     bg_process_spawns = 8, bg_process_signals = 8, bg_cpu_millis = 60000, bg_memory_byte_millis = 8 * 1024 * 1024 * 60000,
     bg_wall_millis = 60000, bg_network_resolutions = 0, bg_network_connections = 0, bg_network_binds = 0,
     bg_network_requests = 0, bg_network_bytes = 0, bg_network_time_millis = 0\<rparr>"

definition resource_bounds :: "EffectBoundV1 list" where
  "resource_bounds = map (\<lambda>verb. \<lparr>eb_capability = CapResource verb, eb_max_per_request = step_budgets\<lparr>bg_requests := 1\<rparr>\<rparr>)
     [Inspect, Read, Create, Replace, Delete]"

definition scratch_allowed_verbs :: "bool \<Rightarrow> ResourceVerbV1 fset" where
  "scratch_allowed_verbs private_scratch =
     {|Inspect, Read, Create, Replace|} |\<union>| (if private_scratch then {|Delete|} else {||})"

definition process_bounds :: "EffectBoundV1 list" where
  "process_bounds = map (\<lambda>verb. \<lparr>eb_capability = CapProcess verb, eb_max_per_request = budgets_default\<lparr>bg_requests := 1,
       bg_process_spawns := (if verb = VSpawn then 1 else 0), bg_process_signals := (if verb = VSignal then 1 else 0),
       bg_read_bytes := 32 * 1024, bg_write_bytes := 1024 * 1024, bg_cpu_millis := 30000,
       bg_memory_byte_millis := 8 * 1024 * 1024 * 30000, bg_wall_millis := 30000\<rparr>\<rparr>) [VSpawn, VSignal]"

definition all_confinement_properties :: "ConfinementPropertyV1 fset" where
  "all_confinement_properties = {|AuthorizedResourceProjection, AuthorityNeutralEnvironment, ExplicitProcessIo,
     PlatformSandboxedProcess, CancellableProcessSession, NoRawNetwork|}"

definition current_authority :: "HostExecutionFreshness \<Rightarrow> int \<Rightarrow> CurrentHostAuthorityV1" where
  "current_authority binding now = \<lparr>ch_execution_freshness = binding, ch_bridge_active = True, ch_burned = False,
     ch_disconnected = False, ch_restarted = False, ch_now = now\<rparr>"

section \<open>The step\<close>

definition managed_step_contract ::
  "PlanStepV2 \<Rightarrow> exec_error + ManagedSemanticOperationV1 \<times> ManagedObjectRevisionV2 \<times> u64 option" where
  "managed_step_contract step = (case step of
     TransformStep _ _ _ input result _ \<Rightarrow> Inr (SemTransform, input, Some (or_revision result))
   | ExecuteStep _ _ _ target _ \<Rightarrow> Inr (SemExecute, target, None)
   | _ \<Rightarrow> Inl (ExecInvalid ''Only Transform or Execute may create managed effect authority.''))"

definition execute_schema_ref :: "lib \<Rightarrow> PlanStepV2 \<Rightarrow> exec_error + string" where
  "execute_schema_ref L step = (case step of
     ExecuteStep _ _ _ _ execution_intent \<Rightarrow> Inr (attachment_domain_hash L ''pastey-execute-result-schema-v1'' (JStr execution_intent))
   | _ \<Rightarrow> Inl (ExecInvalid ''Execute result schema requested for another primitive.''))"

definition operation_intent :: "PlanStepV2 \<Rightarrow> exec_error + string" where
  "operation_intent step = (case step of
     TransformStep _ _ _ _ _ modification_intent \<Rightarrow> Inr modification_intent
   | ExecuteStep _ _ _ _ execution_intent \<Rightarrow> Inr execution_intent
   | _ \<Rightarrow> Inl ExecPanic)"

definition transform_intent :: "PlanStepV2 \<Rightarrow> string option" where
  "transform_intent step = (case step of TransformStep _ _ _ _ _ modification_intent \<Rightarrow> Some modification_intent | _ \<Rightarrow> None)"

definition ManagedProcessWorldSpecV1_new :: "lib \<Rightarrow> host_fs \<Rightarrow> ExecutableBindingSpecV1 \<Rightarrow> exec_error + ManagedProcessWorldSpecV1" where
  "ManagedProcessWorldSpecV1_new L F executable =
     and_then (map_err ExecResource (executable_identity_ref L F executable)) (\<lambda>identity.
     Inr \<lparr>we_executable = executable, we_executable_identity_ref = identity\<rparr>)"

definition validate_executable_identity :: "lib \<Rightarrow> host_fs \<Rightarrow> ManagedProcessWorldSpecV1 \<Rightarrow> exec_error + string" where
  "validate_executable_identity L F spec =
     and_then (map_err ExecResource (executable_identity_ref L F (we_executable spec))) (\<lambda>current_identity_ref.
     and_then (ensure (current_identity_ref = we_executable_identity_ref spec)
       (ExecInvalid ''Managed process executable identity changed.'')) (\<lambda>_.
     Inr (we_executable_identity_ref spec)))"

definition is_same_exact_binding :: "ManagedProcessWorldSpecV1 \<Rightarrow> ManagedProcessWorldSpecV1 \<Rightarrow> bool" where
  "is_same_exact_binding a b \<longleftrightarrow> xs_executable_path (we_executable a) = xs_executable_path (we_executable b)
     \<and> xs_scope_root (we_executable a) = xs_scope_root (we_executable b)
     \<and> we_executable_identity_ref a = we_executable_identity_ref b"

section \<open>Claiming a step\<close>

text \<open>What a claim depends on outside the state of the Host: the coordination tables of other modules, the disk at each call, the
  mode of the executable, the platform, a fresh identifier, and what other threads do to the worlds while a
  termination waits. Nothing else happens between the calls: the lock of the effect authority is held throughout.\<close>

record claim_world =
  cl_coordinated :: "string \<Rightarrow> bool"
  cl_committed :: "string \<Rightarrow> string \<Rightarrow> plan_error + bool"
  cl_fs :: host_fs
  cl_executable :: "file_error + bool"
  cl_output_disk :: disk
  cl_scratch_disk :: disk
  cl_platform :: platform
  cl_lease :: lease_disk
  cl_release :: release_disk
  cl_fresh :: EffectRequestIdV1
  cl_during :: "ExecutionWorldStateV1 \<Rightarrow> ExecutionWorldStateV1"

text \<open>The checks before anything changes.\<close>

definition claim_checks ::
  "lib \<Rightarrow> claim_world \<Rightarrow> ManagedStepClaimRequestV1 \<Rightarrow> HostRuntime
   \<Rightarrow> exec_error + ClaimSourceV1 \<times> ManagedSemanticOperationV1 \<times> ManagedObjectRevisionV2 \<times> u64 option \<times> string option" where
  "claim_checks L W request hr =
     and_then (map_err ExecPlan (load_claim_source L (cl_coordinated W) (cl_committed W) (hr_local_host_ref hr) (cr_attempt_id request)
       (cr_step_id request) (cr_captured_binding request) (cr_current_binding request) (cr_now request) (hr_db hr))) (\<lambda>source.
     and_then (managed_step_contract (cs_step source)) (\<lambda>(semantic, input, output_revision).
     and_then (case cr_process_world request of None \<Rightarrow> Inr None
       | Some spec \<Rightarrow> and_then (validate_executable_identity L (cl_fs W) spec) (\<lambda>identity. Inr (Some identity))) (\<lambda>process_identity_ref.
     and_then (ensure (\<not> (mo_logical_object_id (ma_object (cr_input request)) \<noteq> or_logical_object_id input
         \<or> mo_revision (ma_object (cr_input request)) \<noteq> or_revision input
         \<or> mo_host_ref (ma_object (cr_input request)) \<noteq> hr_local_host_ref hr))
       (ExecInvalid ''Managed step input binding does not match the immutable v2 step.'')) (\<lambda>_.
     Inr (source, semantic, input, output_revision, process_identity_ref)))))"

definition claim_context ::
  "HostRef \<Rightarrow> ManagedStepClaimRequestV1 \<Rightarrow> ClaimSourceV1 \<Rightarrow> ManagedSemanticOperationV1 \<Rightarrow> ManagedObjectRevisionV2 \<Rightarrow> AuthorityContextV1" where
  "claim_context local_host request source semantic input =
     \<lparr>ctx_contract_version = EFFECT_AUTHORITY_VERSION, ctx_bridge_id = pr_bridge_id (cs_revision source),
      ctx_plan_id = pr_plan_id (cs_revision source), ctx_revision_id = pr_revision_id (cs_revision source),
      ctx_revision_hash = pr_revision_hash (cs_revision source), ctx_approval_id = ap_approval_id (cs_approval source),
      ctx_attempt_id = cr_attempt_id request, ctx_step_id = cr_step_id request, ctx_semantic_operation = semantic,
      ctx_participant_ref = cs_participant_ref source, ctx_host_ref = local_host, ctx_admission_ref = cs_admission_ref source,
      ctx_session_binding_ref = freshness_authority_ref (cr_captured_binding request),
      ctx_input_revisions = [\<lparr>ir_logical_object_id = or_logical_object_id input, ir_revision = or_revision input, ir_host_ref = local_host\<rparr>],
      ctx_issued_at = cr_now request, ctx_expires_at = cs_expires_at source\<rparr>"

text \<open>The grants of a run: its input, an output slot for a Transform, scratch for a process or a private backend, the
  executable of a process.\<close>

record claim_grants =
  cg_input :: ResourceGrantV1
  cg_output :: "ResourceGrantV1 option"
  cg_scratch :: "ResourceGrantV1 option"
  cg_executable :: "ResourceGrantV1 option"

definition grant_spec :: "HostRef \<Rightarrow> int \<Rightarrow> ResourceKindV1 \<Rightarrow> string \<Rightarrow> ResourceVerbV1 fset \<Rightarrow> ResourceGrantSpecV1" where
  "grant_spec local_host expires_at kind identity verbs = \<lparr>gs_host_ref = local_host, gs_kind = kind, gs_safe_identity_ref = identity,
     gs_selector_prefix = ''.'', gs_allowed_verbs = verbs, gs_budgets = step_budgets, gs_expires_at = expires_at\<rparr>"

definition run_identity :: "lib \<Rightarrow> string \<Rightarrow> ManagedRunDraftV1 \<Rightarrow> string" where
  "run_identity L domain draft = attachment_domain_hash L domain (JArr [JStr (dr_context_ref draft), JStr (dr_run_control_ref draft)])"

definition mint_if ::
  "lib \<Rightarrow> ManagedRunDraftV1 \<Rightarrow> ResourceGrantSpecV1 option \<Rightarrow> EffectAuthorityStateV1
   \<Rightarrow> (effect_error + ResourceGrantV1 option) \<times> EffectAuthorityStateV1" where
  "mint_if L draft spec st = (case spec of
     None \<Rightarrow> (Inr None, st)
   | Some spec \<Rightarrow> (case mint_resource_grant L draft spec st of (result, st) \<Rightarrow> (map_ok Some result, st)))"

definition mint_grants ::
  "lib \<Rightarrow> ManagedRunDraftV1 \<Rightarrow> ResourceGrantSpecV1 \<Rightarrow> ResourceGrantSpecV1 option \<Rightarrow> ResourceGrantSpecV1 option
   \<Rightarrow> ResourceGrantSpecV1 option \<Rightarrow> EffectAuthorityStateV1 \<Rightarrow> (effect_error + claim_grants) \<times> EffectAuthorityStateV1" where
  "mint_grants L draft input_spec output_spec scratch_spec executable_spec st =
     (case mint_resource_grant L draft input_spec st of
        (Inl e, st) \<Rightarrow> (Inl e, st)
      | (Inr input_grant, st) \<Rightarrow>
          (case mint_if L draft output_spec st of
             (Inl e, st) \<Rightarrow> (Inl e, st)
           | (Inr output_grant, st) \<Rightarrow>
               (case mint_if L draft scratch_spec st of
                  (Inl e, st) \<Rightarrow> (Inl e, st)
                | (Inr scratch_grant, st) \<Rightarrow>
                    (case mint_if L draft executable_spec st of
                       (Inl e, st) \<Rightarrow> (Inl e, st)
                     | (Inr executable_grant, st) \<Rightarrow>
                         (Inr \<lparr>cg_input = input_grant, cg_output = output_grant, cg_scratch = scratch_grant,
                            cg_executable = executable_grant\<rparr>, st)))))"

definition claim_specs ::
  "lib \<Rightarrow> HostRef \<Rightarrow> ManagedStepClaimRequestV1 \<Rightarrow> int \<Rightarrow> ManagedSemanticOperationV1 \<Rightarrow> ResolvedManagedArtifact \<Rightarrow> string option
   \<Rightarrow> ManagedRunDraftV1 \<Rightarrow> ResourceGrantSpecV1 \<times> ResourceGrantSpecV1 option \<times> ResourceGrantSpecV1 option \<times> ResourceGrantSpecV1 option" where
  "claim_specs L local_host request expires_at semantic artifact process_identity_ref draft = (let spec = grant_spec local_host expires_at in
     (spec ManagedRevision (managed_revision_identity_ref L (cr_input request) artifact) {|Inspect, Read|},
      if semantic = SemTransform
      then Some (spec OutputSlot (run_identity L ''pastey-phase5-v2-output-slot-v1'' draft) {|Inspect, Read, Create, Replace|}) else None,
      if cr_process_world request \<noteq> None \<or> cr_private_scratch request
      then Some (spec Scratch (run_identity L ''pastey-phase5-v2-process-scratch-v1'' draft) (scratch_allowed_verbs (cr_private_scratch request))) else None,
      map_option (\<lambda>identity. spec Executable identity {|Inspect, Read|}) process_identity_ref))"

definition grant_list :: "claim_grants \<Rightarrow> ResourceGrantV1 list" where
  "grant_list grants = cg_input grants # List.map_filter (\<lambda>g. g) [cg_output grants, cg_scratch grants, cg_executable grants]"

definition world_identity :: "ManagedStepClaimRequestV1 \<Rightarrow> platform \<Rightarrow> string" where
  "world_identity request P = (if cr_process_world request = None then NO_WORKER_WORLD_IDENTITY else av_identity_digest (plat_availability P))"

definition claim_ceiling ::
  "ManagedRunDraftV1 \<Rightarrow> int \<Rightarrow> bool \<Rightarrow> claim_grants \<Rightarrow> ExecutionWorldRefV1 \<Rightarrow> string \<Rightarrow> string \<Rightarrow> AuthorityCeilingV1" where
  "claim_ceiling draft expires_at process grants world_ref identity snapshot =
     \<lparr>ac_context_ref = dr_context_ref draft, ac_source_snapshot_ref = snapshot, ac_resources = grant_list grants,
      ac_world = \<lparr>wg_world_ref = world_ref, wg_context_ref = dr_context_ref draft, wg_run_control_ref = dr_run_control_ref draft,
        wg_world_identity_digest = identity,
        wg_mounted_resources = fset_of_list (map rg_handle_ref (filter (\<lambda>grant. rg_kind grant \<noteq> Executable) (grant_list grants))),
        wg_executable_resources = fset_of_list (map rg_handle_ref (List.map_filter (\<lambda>g. g) [cg_executable grants])),
        wg_required_properties = all_confinement_properties, wg_budgets = step_budgets, wg_expires_at = expires_at\<rparr>,
      ac_effect_bounds = resource_bounds @ (if process then process_bounds else []),
      ac_budgets = step_budgets, ac_network = NetDenied, ac_expires_at = expires_at\<rparr>"

definition claim_contract ::
  "lib \<Rightarrow> PlanStepV2 \<Rightarrow> AuthorityContextV1 \<Rightarrow> u64 option \<Rightarrow> claim_grants \<Rightarrow> exec_error + ResultContractV1" where
  "claim_contract L step context output_revision grants =
     (case ctx_semantic_operation context of
        SemTransform \<Rightarrow>
          (case (output_revision, cg_output grants) of
             (Some revision, Some grant) \<Rightarrow> Inr (ResTransform (hd (ctx_input_revisions context)) revision (rg_handle_ref grant))
           | _ \<Rightarrow> Inl ExecPanic)
      | SemExecute \<Rightarrow> and_then (execute_schema_ref L step) (\<lambda>schema. Inr (ResExecute (ctx_input_revisions context) schema)))"

definition claim_envelope ::
  "lib \<Rightarrow> ManagedStepClaimRequestV1 \<Rightarrow> platform \<Rightarrow> ClaimSourceV1 \<Rightarrow> AuthorityContextV1 \<Rightarrow> u64 option \<Rightarrow> ManagedRunDraftV1
   \<Rightarrow> claim_grants \<Rightarrow> exec_error + EffectEnvelopeV1" where
  "claim_envelope L request P source context output_revision draft grants =
     (let identity = world_identity request P in
      and_then (map_err ExecEffect (execution_world_ref_for L draft identity)) (\<lambda>world_ref.
      let base = claim_ceiling draft (cs_expires_at source) (cr_process_world request \<noteq> None) grants world_ref identity in
      and_then (claim_contract L (cs_step source) context output_revision grants) (\<lambda>result_contract.
      map_err ExecEffect (compile_effect_envelope L \<lparr>cq_context = context, cq_run_control_ref = dr_run_control_ref draft,
        cq_semantic_ceiling = base ''phase5-v2-semantic-ceiling-v1'', cq_admission_ceiling = base (cs_admission_ref source),
        cq_host_policy_ceiling = base HOST_POLICY_SNAPSHOT, cq_confinement_ceiling = base identity,
        cq_host_policy_snapshot_ref = HOST_POLICY_SNAPSHOT, cq_result_contract = result_contract\<rparr>))))"

text \<open>From the resolved input to the active run.\<close>

definition claim_run ::
  "lib \<Rightarrow> claim_world \<Rightarrow> HostRef \<Rightarrow> ManagedStepClaimRequestV1 \<Rightarrow> ClaimSourceV1 \<Rightarrow> AuthorityContextV1 \<Rightarrow> u64 option \<Rightarrow> string option
   \<Rightarrow> ResolvedManagedArtifact \<Rightarrow> EffectAuthorityStateV1 \<Rightarrow> (exec_error + claim_grants \<times> EffectEnvelopeV1) \<times> EffectAuthorityStateV1" where
  "claim_run L W local_host request source context output_revision process_identity_ref artifact st =
     (case begin_run L context st of
        (Inl e, st) \<Rightarrow> (Inl (ExecEffect e), st)
      | (Inr draft, st) \<Rightarrow>
          if cr_process_world request \<noteq> None \<and> \<not> av_available (plat_availability (cl_platform W))
          then (Inl (ExecInvalid ''Required platform execution world is unavailable.''), snd (revoke_run (dr_run_control_ref draft) st))
          else
            (case claim_specs L local_host request (cs_expires_at source) (ctx_semantic_operation context) artifact process_identity_ref draft of
              (input_spec, output_spec, scratch_spec, executable_spec) \<Rightarrow>
            (case mint_grants L draft input_spec output_spec scratch_spec executable_spec st of
               (Inl e, st) \<Rightarrow> (Inl (ExecEffect e), st)
             | (Inr grants, st) \<Rightarrow>
                 (case claim_envelope L request (cl_platform W) source context output_revision draft grants of
                    Inl e \<Rightarrow> (Inl e, st)
                  | Inr envelope \<Rightarrow>
                      (case install_envelope L draft envelope st of
                         (Inl e, st) \<Rightarrow> (Inl (ExecEffect e), st)
                       | (Inr _, st) \<Rightarrow>
                           (case activate_run (ev_run_control_ref envelope) (cr_now request) st of
                              (Inl e, st) \<Rightarrow> (Inl (ExecEffect e), st)
                            | (Inr _, st) \<Rightarrow> (Inr (grants, envelope), st)))))))"

text \<open>Binding the resources of the run. A failure of the first call purges nothing, later ones purge the run.\<close>

definition bind_if ::
  "(ResourceGrantV1 \<Rightarrow> ManagedResourceResolverV1 \<Rightarrow> (resource_error + unit) \<times> ManagedResourceResolverV1) \<Rightarrow> ManagedRunRefV1
   \<Rightarrow> ResourceGrantV1 option \<Rightarrow> ManagedResourceResolverV1 \<Rightarrow> (exec_error + unit) \<times> ManagedResourceResolverV1" where
  "bind_if bind run_ref grant rv = (case grant of
     None \<Rightarrow> (Inr (), rv)
   | Some grant \<Rightarrow> (case bind grant rv of
       (Inl e, rv) \<Rightarrow> (Inl (ExecResource e), snd (resolver_purge_run run_ref rv))
     | (Inr _, rv) \<Rightarrow> (Inr (), rv)))"

definition bind_resources ::
  "lib \<Rightarrow> claim_world \<Rightarrow> ManagedStepClaimRequestV1 \<Rightarrow> EffectAuthorityStateV1 \<Rightarrow> ManagedResourceAccessV1 \<Rightarrow> claim_grants
   \<Rightarrow> ManagedObjectBindingService \<Rightarrow> ManagedResourceResolverV1
   \<Rightarrow> (exec_error + unit) \<times> ManagedObjectBindingService \<times> ManagedResourceResolverV1" where
  "bind_resources L W request st access grants objects rv = (let run_ref = ma_run_control_ref access in
     case bind_managed_revision L (cl_fs W) st access (rg_handle_ref (cg_input grants)) (cr_input request) objects rv of
       (Inl e, objects, rv) \<Rightarrow> (Inl (ExecResource e), objects, rv)
     | (Inr _, objects, rv) \<Rightarrow>
         (case bind_if (\<lambda>grant. provision_output_slot L (cl_output_disk W) st access (rg_handle_ref grant) (bg_write_bytes step_budgets))
             run_ref (cg_output grants) rv of
            (Inl e, rv) \<Rightarrow> (Inl e, objects, rv)
          | (Inr _, rv) \<Rightarrow>
              (case bind_if (\<lambda>grant. provision_scratch L (cl_scratch_disk W) st access (rg_handle_ref grant) (bg_write_bytes step_budgets))
                  run_ref (cg_scratch grants) rv of
                 (Inl e, rv) \<Rightarrow> (Inl e, objects, rv)
               | (Inr _, rv) \<Rightarrow>
                   (case cr_process_world request of
                      None \<Rightarrow> (Inr (), objects, rv)
                    | Some spec \<Rightarrow>
                        (case bind_if (\<lambda>grant. bind_executable L (cl_fs W) (cl_executable W) st access (rg_handle_ref grant) (we_executable spec))
                            run_ref (cg_executable grants) rv of
                           (result, rv) \<Rightarrow> (result, objects, rv))))))"

definition workspace_attachments :: "claim_grants \<Rightarrow> ManagedWorkspaceResourceAttachmentV1 list" where
  "workspace_attachments grants =
     \<lparr>wa_alias = AliasInput, wa_kind = ManagedRevision, wa_handle_ref = rg_handle_ref (cg_input grants)\<rparr>
     # List.map_filter (\<lambda>g. g)
       [map_option (\<lambda>g. \<lparr>wa_alias = AliasOutput, wa_kind = OutputSlot, wa_handle_ref = rg_handle_ref g\<rparr>) (cg_output grants),
        map_option (\<lambda>g. \<lparr>wa_alias = AliasScratch, wa_kind = Scratch, wa_handle_ref = rg_handle_ref g\<rparr>) (cg_scratch grants)]"

definition process_world_of :: "EffectEnvelopeV1 \<Rightarrow> claim_grants \<Rightarrow> ManagedProcessWorldGrantV1 option" where
  "process_world_of envelope grants = map_option (\<lambda>grant.
     \<lparr>pg_world_ref = wg_world_ref (ev_world envelope), pg_executable_handle = rg_handle_ref grant\<rparr>) (cg_executable grants)"

text \<open>Attaching the resources, the workspace and the world to the active run.\<close>

definition claim_attach ::
  "lib \<Rightarrow> claim_world \<Rightarrow> ManagedStepClaimRequestV1 \<Rightarrow> EffectAuthorityStateV1 \<Rightarrow> ManagedResourceAccessV1 \<Rightarrow> EffectEnvelopeV1 \<Rightarrow> claim_grants
   \<Rightarrow> world_parts \<Rightarrow> (exec_error + ManagedRunWorkspaceV1) \<times> world_parts" where
  "claim_attach L W request st access envelope grants = (\<lambda>(objects, rv, es). let run_ref = ma_run_control_ref access in
     case bind_resources L W request st access grants objects rv of
       (Inl e, objects, rv) \<Rightarrow> (Inl e, objects, rv, es)
     | (Inr _, objects, rv) \<Rightarrow>
         (case ManagedRunWorkspaceV1_derive L st access (workspace_attachments grants)
             (map_option (\<lambda>process. \<lparr>wb_world_ref = pg_world_ref process, wb_executable_handle = pg_executable_handle process\<rparr>)
               (process_world_of envelope grants)) of
            Inl e \<Rightarrow> (Inl (ExecWorkspace e), objects, snd (resolver_purge_run run_ref rv), es)
          | Inr workspace \<Rightarrow>
              if cr_process_world request = None then (Inr workspace, objects, rv, es)
              else (case provision_world L (cl_platform W) (cl_lease W) (cl_release W) (cl_fresh W) st access
                  (wg_world_ref (ev_world envelope)) (objects, rv, es) of
                 (Inl e, objects, rv, es) \<Rightarrow> (Inl (ExecResource e), objects, snd (resolver_purge_run run_ref rv), es)
               | (Inr _, objects, rv, es) \<Rightarrow> (Inr workspace, objects, rv, es))))"

definition claim_row :: "ManagedResourceAccessV1 \<Rightarrow> AuthorityContextRefV1 \<Rightarrow> int \<Rightarrow> ClaimRow" where
  "claim_row access context_ref now = new_claim (ctx_attempt_id (ma_context access)) (ctx_step_id (ma_context access))
     (case ctx_semantic_operation (ma_context access) of SemTransform \<Rightarrow> OpTransform | SemExecute \<Rightarrow> OpExecute)
     context_ref (ma_envelope_ref access) (ma_run_control_ref access) now"

definition record_claim :: "lib \<Rightarrow> ManagedResourceAccessV1 \<Rightarrow> int \<Rightarrow> plan_db \<Rightarrow> (exec_error + unit) \<times> plan_db" where
  "record_claim L access now db = (case AuthorityContextV1_context_ref L (ma_context access) of
     Inl e \<Rightarrow> (Inl (ExecEffect e), db)
   | Inr context_ref \<Rightarrow> (case insert_claim (claim_row access context_ref now) db of (result, db) \<Rightarrow> (map_err ExecPlan result, db)))"

definition step_grant ::
  "ClaimSourceV1 \<Rightarrow> ManagedResourceAccessV1 \<Rightarrow> u64 option \<Rightarrow> EffectEnvelopeV1 \<Rightarrow> claim_grants \<Rightarrow> ManagedRunWorkspaceV1
   \<Rightarrow> exec_error + ManagedStepGrantV1" where
  "step_grant source access output_revision envelope grants workspace =
     and_then (operation_intent (cs_step source)) (\<lambda>intent.
     Inr \<lparr>sg_operation = ctx_semantic_operation (ma_context access), sg_access = access,
       sg_input_handle = rg_handle_ref (cg_input grants), sg_output_slot = map_option rg_handle_ref (cg_output grants),
       sg_transform_intent = transform_intent (cs_step source), sg_operation_intent = intent, sg_output_revision = output_revision,
       sg_process_world = process_world_of envelope grants, sg_workspace = workspace\<rparr>)"

definition claim_v2_managed_step ::
  "lib \<Rightarrow> claim_world \<Rightarrow> ManagedStepClaimRequestV1 \<Rightarrow> HostRuntime \<Rightarrow> (exec_error + ManagedStepGrantV1) \<times> HostRuntime" where
  "claim_v2_managed_step L W request hr =
     (case claim_checks L W request hr of
        Inl e \<Rightarrow> (Inl e, hr)
      | Inr (source, semantic, input, output_revision, process_identity_ref) \<Rightarrow>
          (case resolve L (cl_fs W) (cr_input request) (cr_now request) (hr_managed_objects hr) of
             (Inl e, objects) \<Rightarrow> (Inl (ExecResource (ResFile e)), hr\<lparr>hr_managed_objects := objects\<rparr>)
           | (Inr artifact, objects) \<Rightarrow>
               let context = claim_context (hr_local_host_ref hr) request source semantic input in
               (case claim_run L W (hr_local_host_ref hr) request source context output_revision process_identity_ref artifact
                   (hr_effect_authority hr) of
                  (Inl e, st) \<Rightarrow> (Inl e, hr\<lparr>hr_managed_objects := objects, hr_effect_authority := st\<rparr>)
                | (Inr (grants, envelope), st) \<Rightarrow>
                    let run_ref = ev_run_control_ref envelope;
                        access = \<lparr>ma_envelope_ref = ev_envelope_ref envelope, ma_run_control_ref = run_ref, ma_context = context,
                          ma_current = current_authority (cr_current_binding request) (cr_now request)\<rparr> in
                    (case claim_attach L W request st access envelope grants (objects, hr_managed_resources hr, hr_execution_worlds hr) of
                       (Inl e, objects, rv, es) \<Rightarrow> (Inl e, hr\<lparr>hr_managed_objects := objects, hr_managed_resources := rv,
                          hr_execution_worlds := es, hr_effect_authority := snd (revoke_run run_ref st)\<rparr>)
                     | (Inr workspace, objects, rv, es) \<Rightarrow>
                         (case record_claim L access (cr_now request) (hr_db hr) of
                            (Inl e, db) \<Rightarrow> (Inl e, hr\<lparr>hr_db := db, hr_managed_objects := objects,
                               hr_managed_resources := snd (resolver_purge_run run_ref rv),
                               hr_execution_worlds := snd (terminate_run run_ref (cl_during W) es),
                               hr_effect_authority := snd (revoke_run run_ref st)\<rparr>)
                          | (Inr _, db) \<Rightarrow> (step_grant source access output_revision envelope grants workspace,
                              hr\<lparr>hr_db := db, hr_managed_objects := objects, hr_managed_resources := rv, hr_execution_worlds := es,
                                 hr_effect_authority := st\<rparr>))))))"

section \<open>Finalizing a step\<close>

definition validate_proposal_evidence :: "CompletionEvidenceV1 \<Rightarrow> string list \<Rightarrow> string \<Rightarrow> exec_error + unit" where
  "validate_proposal_evidence completion ids head =
     ensure (\<not> (ids \<noteq> map ee_evidence_id (ce_evidence completion) \<or> head \<noteq> ce_evidence_head completion))
       (ExecInvalid ''Worker result evidence is incomplete, reordered, foreign, or forged.'')"

definition fail_claim :: "string \<Rightarrow> string \<Rightarrow> string \<Rightarrow> HostRuntime \<Rightarrow> (exec_error + 'a) \<times> HostRuntime" where
  "fail_claim attempt_id step message hr = (Inl (ExecInvalid message), hr\<lparr>hr_db := mark_claim_failed attempt_id step (hr_db hr)\<rparr>)"

definition expected_input :: "HostRef \<Rightarrow> ManagedObjectRevisionV2 \<Rightarrow> ManagedInputRevisionV1" where
  "expected_input local_host input = \<lparr>ir_logical_object_id = or_logical_object_id input, ir_revision = or_revision input, ir_host_ref = local_host\<rparr>"

text \<open>What both finalizers ask of the run: its completion evidence, named in full by the proposal.\<close>

definition completion_of ::
  "lib \<Rightarrow> EffectEnvelopeRefV1 \<Rightarrow> ManagedRunRefV1 \<Rightarrow> string list \<Rightarrow> string \<Rightarrow> HostExecutionFreshness \<Rightarrow> int \<Rightarrow> HostRuntime
   \<Rightarrow> exec_error + CompletionEvidenceV1" where
  "completion_of L envelope_ref run_ref ids head current_binding now hr =
     and_then (map_err ExecEffect (completion_evidence L run_ref envelope_ref (current_authority current_binding now) (hr_effect_authority hr))) (\<lambda>completion.
     and_then (validate_proposal_evidence completion ids head) (\<lambda>_. Inr completion))"

definition transform_mismatch :: "HostRef \<Rightarrow> TransformResultProposalV1 \<Rightarrow> ManagedObjectRevisionV2 \<Rightarrow> u64 \<Rightarrow> bool" where
  "transform_mismatch local_host proposal input expected_output \<longleftrightarrow>
     tp_input proposal \<noteq> expected_input local_host input
     \<or> vr_logical_object_id (tp_output proposal) \<noteq> or_logical_object_id input
     \<or> vr_revision (tp_output proposal) \<noteq> expected_output
     \<or> vr_host_ref (tp_output proposal) \<noteq> local_host
     \<or> vr_content_digest (tp_output proposal) \<noteq> so_content_digest (tp_output_seal proposal)
     \<or> so_envelope_ref (tp_output_seal proposal) \<noteq> tp_envelope_ref proposal
     \<or> so_run_control_ref (tp_output_seal proposal) \<noteq> tp_run_control_ref proposal
     \<or> so_context_ref (tp_output_seal proposal) \<noteq> tp_context_ref proposal"

definition transform_row :: "TransformResultProposalV1 \<Rightarrow> ManagedLogicalObjectRevision \<Rightarrow> int \<Rightarrow> TransformResultRow" where
  "transform_row proposal object now =
     \<lparr>rw_attempt_id = tp_attempt_id proposal, rw_step_id = tp_step_id proposal, rw_logical_object_id = mo_logical_object_id object,
      rw_input_revision = ir_revision (tp_input proposal), rw_output_revision = mo_revision object, rw_host_ref = mo_host_ref object,
      rw_content_digest = vr_content_digest (tp_output proposal), rw_seal_ref = so_seal_ref (tp_output_seal proposal),
      rw_evidence_head = tp_evidence_head proposal, rw_completed_at = now\<rparr>"

text \<open>\<open>network_quiescent\<close> is the answer of the network broker for the run.\<close>

definition finalize_v2_transform ::
  "lib \<Rightarrow> host_fs \<Rightarrow> string \<Rightarrow> bool \<Rightarrow> TransformResultProposalV1 \<Rightarrow> HostExecutionFreshness \<Rightarrow> int \<Rightarrow> HostRuntime
   \<Rightarrow> (exec_error + ManagedObjectAcquisition) \<times> HostRuntime" where
  "finalize_v2_transform L F uuid network_quiescent proposal current_binding now hr =
     (let local_host = hr_local_host_ref hr; run_ref = tp_run_control_ref proposal;
          fail = fail_claim (tp_attempt_id proposal) (tp_step_id proposal) in
      case and_then (map_err ExecPlan (load_completion_source local_host (tp_attempt_id proposal) (tp_step_id proposal) (tp_context_ref proposal)
             (tp_envelope_ref proposal) run_ref current_binding now (hr_db hr))) (\<lambda>source.
           and_then (managed_step_contract (cs_step source)) (\<lambda>contract. Inr (source, contract))) of
        Inl e \<Rightarrow> (Inl e, hr)
      | Inr (source, semantic, input, output_revision) \<Rightarrow>
          if semantic \<noteq> SemTransform then fail ''Execute authority cannot finalize Transform lineage.'' hr
          else (case completion_of L (tp_envelope_ref proposal) run_ref
              (tp_evidence_ids proposal) (tp_evidence_head proposal) current_binding now hr of
             Inl e \<Rightarrow> (Inl e, hr)
           | Inr completion \<Rightarrow>
          (case output_revision of
             None \<Rightarrow> (Inl ExecPanic, hr)
           | Some expected_output \<Rightarrow>
          if transform_mismatch local_host proposal input expected_output
          then fail ''Transform proposal changed input, Host, output identity, or N+1 lineage.'' hr
          else if ev_result_contract (ce_envelope completion)
              \<noteq> ResTransform (expected_input local_host input) expected_output (so_handle_ref (tp_output_seal proposal))
          then fail ''Transform result contract was substituted.'' hr
          else if \<not> run_is_quiescent run_ref (hr_execution_worlds hr) \<or> \<not> network_quiescent
          then fail ''Managed process or network authority is not quiescent.'' hr
          else
            (case register_sealed_transform_output L F uuid
                \<lparr>ma_envelope_ref = tp_envelope_ref proposal, ma_run_control_ref = run_ref, ma_context = ev_context (ce_envelope completion),
                 ma_current = current_authority current_binding now\<rparr>
                (tp_output_seal proposal) (or_logical_object_id input) expected_output (tp_display_name proposal) (tp_media_type proposal)
                (cs_expires_at source) (hr_managed_objects hr) (hr_managed_resources hr) of
               (Inl _, objects, rv) \<Rightarrow> fail ''Transform OutputSlot safe identity was stale or substituted.''
                 (hr\<lparr>hr_managed_objects := objects, hr_managed_resources := rv\<rparr>)
             | (Inr acquisition, objects, rv) \<Rightarrow>
                 let hr = hr\<lparr>hr_managed_objects := objects, hr_managed_resources := rv\<rparr> in
                 (case complete_run_authoritatively run_ref (hr_effect_authority hr) of
                    (Inl e, st) \<Rightarrow> (Inl (ExecEffect e), hr\<lparr>hr_effect_authority := st\<rparr>)
                  | (Inr _, st) \<Rightarrow>
                      (case persist_transform_result (transform_row proposal (ma_object acquisition) now) (hr_db hr) of (result, db) \<Rightarrow>
                        (and_then (map_err ExecPlan result) (\<lambda>_. Inr acquisition), hr\<lparr>hr_effect_authority := st, hr_db := db\<rparr>)))))))"

definition execute_result :: "lib \<Rightarrow> HostRef \<Rightarrow> ExecuteResultProposalV1 \<Rightarrow> ManagedObjectRevisionV2 \<Rightarrow> AuthoritativeExecuteResultV1" where
  "execute_result L local_host proposal input =
     \<lparr>xr_result_ref = attachment_domain_hash L ''pastey-authoritative-execute-result-v1''
        (JArr [JStr (xp_context_ref proposal), JStr (xp_evidence_head proposal), JStr (xp_result_digest proposal)]),
      xr_attempt_id = xp_attempt_id proposal, xr_step_id = xp_step_id proposal, xr_input = expected_input local_host input,
      xr_host_ref = local_host, xr_result_schema_ref = xp_result_schema_ref proposal, xr_result_digest = xp_result_digest proposal,
      xr_status = xp_status proposal, xr_evidence_head = xp_evidence_head proposal\<rparr>"

definition execute_row :: "ExecuteResultProposalV1 \<Rightarrow> AuthoritativeExecuteResultV1 \<Rightarrow> int \<Rightarrow> ExecuteResultRow" where
  "execute_row proposal result now =
     \<lparr>xw_attempt_id = xp_attempt_id proposal, xw_step_id = xp_step_id proposal, xw_result_ref = xr_result_ref result,
      xw_host_ref = xr_host_ref result, xw_input_logical_object_id = ir_logical_object_id (xr_input result),
      xw_input_revision = ir_revision (xr_input result), xw_result_schema_ref = xr_result_schema_ref result,
      xw_result_digest = xr_result_digest result, xw_evidence_head = xr_evidence_head result, xw_completed_at = now\<rparr>"

definition finalize_v2_execute ::
  "lib \<Rightarrow> bool \<Rightarrow> ExecuteResultProposalV1 \<Rightarrow> HostExecutionFreshness \<Rightarrow> int \<Rightarrow> HostRuntime
   \<Rightarrow> (exec_error + AuthoritativeExecuteResultV1) \<times> HostRuntime" where
  "finalize_v2_execute L network_quiescent proposal current_binding now hr =
     (let local_host = hr_local_host_ref hr; run_ref = xp_run_control_ref proposal;
          fail = fail_claim (xp_attempt_id proposal) (xp_step_id proposal) in
      case and_then (map_err ExecPlan (load_completion_source local_host (xp_attempt_id proposal) (xp_step_id proposal) (xp_context_ref proposal)
             (xp_envelope_ref proposal) run_ref current_binding now (hr_db hr))) (\<lambda>source.
           and_then (managed_step_contract (cs_step source)) (\<lambda>contract. Inr (source, contract))) of
        Inl e \<Rightarrow> (Inl e, hr)
      | Inr (source, semantic, input, _) \<Rightarrow>
          if semantic \<noteq> SemExecute then fail ''Transform authority cannot finalize an Execute result.'' hr
          else (case and_then (completion_of L (xp_envelope_ref proposal) run_ref
                (xp_evidence_ids proposal) (xp_evidence_head proposal) current_binding now hr) (\<lambda>completion.
              and_then (execute_schema_ref L (cs_step source)) (\<lambda>expected_schema. Inr (completion, expected_schema))) of
             Inl e \<Rightarrow> (Inl e, hr)
           | Inr (completion, expected_schema) \<Rightarrow>
          if xp_input proposal \<noteq> expected_input local_host input \<or> xp_result_schema_ref proposal \<noteq> expected_schema
            \<or> trim (xp_result_digest proposal) = [] \<or> trim (xp_status proposal) = []
          then fail ''Execute proposal changed its exact input or result contract.'' hr
          else if ev_result_contract (ce_envelope completion) \<noteq> ResExecute [expected_input local_host input] expected_schema
          then fail ''Execute result contract was substituted.'' hr
          else if \<not> run_is_quiescent run_ref (hr_execution_worlds hr) \<or> \<not> network_quiescent
          then fail ''Managed process or network authority is not quiescent.'' hr
          else
            (case complete_run_authoritatively run_ref (hr_effect_authority hr) of
               (Inl e, st) \<Rightarrow> (Inl (ExecEffect e), hr\<lparr>hr_effect_authority := st\<rparr>)
             | (Inr _, st) \<Rightarrow>
                 let result = execute_result L local_host proposal input in
                 (case persist_execute_result (execute_row proposal result now) (hr_db hr) of (persisted, db) \<Rightarrow>
                   (and_then (map_err ExecPlan persisted) (\<lambda>_. Inr result), hr\<lparr>hr_effect_authority := st, hr_db := db\<rparr>)))))"

end
