(* ===== verification/Plan_Protocol.thy ===== *)
theory Plan_Protocol
  imports Managed_Claims
begin

text \<open>
  The attempt protocol as a state machine over the tables of \<open>Plan_Store\<close>: every write of the modelled modules
  is a step, with whatever arguments arrive. Claiming a step loads its source and inserts the claim in one step,
  and completing one loads the completion source and writes the result in one step. \<open>coordinated\<close> holds, for the
  whole run, of the attempts that another module coordinates at some time (a row of its table): for those the answer
  \<open>committed\<close> of that module may be anything, so a claim made before the row was there is a step as well.
\<close>

section \<open>Steps\<close>

text \<open>\<open>step_interrupt_base\<close> is the update of attempts that \<^verbatim>\<open>managed_worker_coordinator.rs\<close> makes where a worker attempt
  fails, for whichever attempts it selects.\<close>

text \<open>The label of a step is the Bridge it deletes, if it deletes one.\<close>

inductive proto_step ::
  "lib \<Rightarrow> HostRef \<Rightarrow> (string \<Rightarrow> bool) \<Rightarrow> string option \<Rightarrow> plan_db \<Rightarrow> plan_db \<Rightarrow> bool" for L h coordinated where
  step_review: "proto_step L h coordinated None db (snd (record_review L active review binding now db))"
| step_local_review: "proto_step L h coordinated None db (snd (record_local_authority_snapshot L active review freshness now db))"
| step_start: "proto_step L h coordinated None db
    (snd (accept_attempt_start_with_freshness L active h start captured current availability now db))"
| step_reconcile: "proto_step L h coordinated None db (reconcile_startup db)"
| step_delete: "proto_step L h coordinated (Some bridge) db (delete_bridge_records bridge db)"
| step_claim: "load_claim_source L coordinated committed h attempt wanted captured current now db = Inr source \<Longrightarrow>
    proto_step L h coordinated None db
      (snd (insert_claim (new_claim attempt wanted (operation (cs_step source)) context_ref envelope_ref run_ref now) db))"
| step_transform_result: "load_completion_source h (rw_attempt_id row) (rw_step_id row) context_ref envelope_ref run_ref current now db = Inr source \<Longrightarrow>
    proto_step L h coordinated None db (snd (persist_transform_result row db))"
| step_execute_result: "load_completion_source h (xw_attempt_id erow) (xw_step_id erow) context_ref envelope_ref run_ref current now db = Inr source \<Longrightarrow>
    proto_step L h coordinated None db (snd (persist_execute_result erow db))"
| step_fail: "proto_step L h coordinated None db (mark_claim_failed attempt wanted db)"
| step_interrupt_run: "proto_step L h coordinated None db (interrupt_claim_for_run run_ref db)"
| step_interrupt_session: "proto_step L h coordinated None db (interrupt_claims_for_session binding_ref db)"
| step_interrupt_attempts: "proto_step L h coordinated None db (interrupt_matching_attempts P db)"
| step_interrupt_base: "proto_step L h coordinated None db (db\<lparr>db_attempts := interrupt_attempts P (db_attempts db)\<rparr>)"

definition proto_init :: "plan_db \<Rightarrow> bool" where
  "proto_init db \<longleftrightarrow> db = empty_db"

definition proto_any :: "lib \<Rightarrow> HostRef \<Rightarrow> (string \<Rightarrow> bool) \<Rightarrow> plan_db \<Rightarrow> plan_db \<Rightarrow> bool" where
  "proto_any L h coordinated db db' \<longleftrightarrow> (\<exists>l. proto_step L h coordinated l db db')"

section \<open>The invariant\<close>

definition review_backed :: "lib \<Rightarrow> plan_db \<Rightarrow> ReviewRow \<Rightarrow> bool" where
  "review_backed L db q \<longleftrightarrow> q = review_row (qw_review q)
     \<and> verify_sealed_revision L (rv_revision (qw_review q)) = Inr ()
     \<and> ap_plan_id (rv_approval (qw_review q)) = pr_plan_id (rv_revision (qw_review q))
     \<and> ap_revision_id (rv_approval (qw_review q)) = pr_revision_id (rv_revision (qw_review q))
     \<and> ap_bridge_id (rv_approval (qw_review q)) = pr_bridge_id (rv_revision (qw_review q))
     \<and> (\<exists>a \<in> set (db_approvals db). pw_approval_id a = qw_approval_id q \<and> pw_revision_id a = qw_revision_id q
          \<and> pw_state a = ApprovalValid \<and> pw_approval a = rv_approval (qw_review q))
     \<and> (\<exists>v \<in> set (db_revisions db). vw_revision_id v = qw_revision_id q \<and> vw_revision v = rv_revision (qw_review q))"

text \<open>The request an attempt was admitted for, read off its row.\<close>

definition row_request :: "HostRef \<Rightarrow> AttemptRow \<Rightarrow> HostExecutionFreshness \<Rightarrow> HostAdmissionRequestV2" where
  "row_request h t cur =
     \<lparr>ar_attempt_id = tw_attempt_id t, ar_approval_id = tw_approval_id t, ar_plan_id = tw_plan_id t,
      ar_revision_id = tw_revision_id t, ar_revision_hash = tw_revision_hash t, ar_host_ref = h,
      ar_participant_ref = tw_target t, ar_protocol_correlation_id = tw_correlation_id t, ar_execution_freshness = cur\<rparr>"

definition admitted_on :: "lib \<Rightarrow> HostRef \<Rightarrow> ReviewRequestV2 \<Rightarrow> AttemptRow \<Rightarrow> HostExecutionFreshness \<Rightarrow> bool" where
  "admitted_on L h rv t cur \<longleftrightarrow> (\<exists>availability a.
     evaluate_v2_with_availability L h (rv_revision rv) (rv_approval rv) (row_request h t cur) cur availability (tw_created_at t)
       = Inr (Admit a) \<and> tw_admission_ref t = ad_admission_ref a \<and> tw_session_binding_ref t = freshness_authority_ref cur)"

definition attempt_backed :: "lib \<Rightarrow> HostRef \<Rightarrow> plan_db \<Rightarrow> AttemptRow \<Rightarrow> bool" where
  "attempt_backed L h db t \<longleftrightarrow> (\<exists>q \<in> set (db_reviews db).
     qw_bridge_id q = tw_bridge_id t \<and> qw_correlation_id q = tw_correlation_id t
     \<and> ap_approval_id (rv_approval (qw_review q)) = tw_approval_id t
     \<and> pr_plan_id (rv_revision (qw_review q)) = tw_plan_id t \<and> pr_revision_id (rv_revision (qw_review q)) = tw_revision_id t
     \<and> pr_revision_hash (rv_revision (qw_review q)) = tw_revision_hash t \<and> rv_target (qw_review q) = tw_target t
     \<and> tw_expires_at t \<le> ap_expires_at (rv_approval (qw_review q))
     \<and> (\<exists>cur. admitted_on L h (qw_review q) t cur))"

text \<open>A claim is for a managed step of the attempt's Plan bound to this Host; unless the attempt is coordinated
  elsewhere, the claims before it include a completed one for each dependency.\<close>

definition claim_backed :: "(string \<Rightarrow> bool) \<Rightarrow> plan_db \<Rightarrow> ClaimRow list \<Rightarrow> ClaimRow \<Rightarrow> bool" where
  "claim_backed coordinated db before c \<longleftrightarrow> (\<exists>t \<in> set (db_attempts db). \<exists>v \<in> set (db_revisions db). \<exists>s \<in> set (pr_steps (vw_revision v)).
     tw_attempt_id t = cw_attempt_id c \<and> vw_revision_id v = tw_revision_id t
     \<and> step_id s = cw_step_id c \<and> operation s = cw_operation c \<and> is_managed s \<and> binds_participant s (tw_target t)
     \<and> (\<not> coordinated (cw_attempt_id c) \<longrightarrow> (\<forall>d \<in> set (dependencies s).
          \<exists>c' \<in> set before. cw_attempt_id c' = cw_attempt_id c \<and> cw_step_id c' = d \<and> cw_state c' = ClaimCompleted)))"

definition keys_unique :: "plan_db \<Rightarrow> bool" where
  "keys_unique db \<longleftrightarrow>
     distinct (map vw_revision_id (db_revisions db)) \<and> distinct (map pw_approval_id (db_approvals db))
     \<and> distinct (map (\<lambda>q. (qw_bridge_id q, qw_correlation_id q)) (db_reviews db))
     \<and> distinct (map tw_attempt_id (db_attempts db))
     \<and> distinct (map (\<lambda>t. (tw_bridge_id t, tw_correlation_id t, tw_target t)) (db_attempts db))
     \<and> distinct (map (\<lambda>c. (cw_attempt_id c, cw_step_id c)) (db_claims db))"

definition parents_exist :: "plan_db \<Rightarrow> bool" where
  "parents_exist db \<longleftrightarrow> pw_revision_id ` set (db_approvals db) \<subseteq> vw_revision_id ` set (db_revisions db)"

definition proto_inv :: "lib \<Rightarrow> HostRef \<Rightarrow> (string \<Rightarrow> bool) \<Rightarrow> plan_db \<Rightarrow> bool" where
  "proto_inv L h coordinated db \<longleftrightarrow> keys_unique db \<and> parents_exist db
     \<and> (\<forall>q \<in> set (db_reviews db). review_backed L db q)
     \<and> (\<forall>t \<in> set (db_attempts db). attempt_backed L h db t)
     \<and> (\<forall>xs c ys. db_claims db = xs @ c # ys \<longrightarrow> claim_backed coordinated db xs c)"

lemma proto_invI:
  assumes "keys_unique db" and "parents_exist db" and "\<And>q. q \<in> set (db_reviews db) \<Longrightarrow> review_backed L db q"
    and "\<And>t. t \<in> set (db_attempts db) \<Longrightarrow> attempt_backed L h db t"
    and "\<And>xs c ys. db_claims db = xs @ c # ys \<Longrightarrow> claim_backed coordinated db xs c"
  shows "proto_inv L h coordinated db"
  using assms by (simp add: proto_inv_def)

lemma proto_invD:
  assumes "proto_inv L h coordinated db"
  shows "keys_unique db" and "parents_exist db" and "q \<in> set (db_reviews db) \<Longrightarrow> review_backed L db q"
    and "t \<in> set (db_attempts db) \<Longrightarrow> attempt_backed L h db t"
    and "db_claims db = xs @ c # ys \<Longrightarrow> claim_backed coordinated db xs c"
  using assms by (simp_all add: proto_inv_def)

lemma insert_row_Inr:
  "insert_row conflict parent row rows = Inr rows' \<longleftrightarrow> (\<forall>x \<in> set rows. \<not> conflict row x) \<and> parent \<and> rows' = rows @ [row]"
  by (auto simp: insert_row_def list_ex_iff)

lemma review_row_fields [simp]:
  "qw_bridge_id (review_row rv) = pr_bridge_id (rv_revision rv)" "qw_correlation_id (review_row rv) = rv_correlation_id rv"
  "qw_message_id (review_row rv) = rv_message_id rv" "qw_request_nonce (review_row rv) = rv_request_nonce rv"
  "qw_approval_id (review_row rv) = ap_approval_id (rv_approval rv)" "qw_revision_id (review_row rv) = pr_revision_id (rv_revision rv)"
  "qw_review (review_row rv) = rv"
  by (simp_all add: review_row_def Let_def)

text \<open>Adding rows to the parent tables keeps every row backed.\<close>

lemma review_backed_mono:
  "review_backed L db q \<Longrightarrow> set (db_approvals db) \<subseteq> set (db_approvals db') \<Longrightarrow> set (db_revisions db) \<subseteq> set (db_revisions db')
   \<Longrightarrow> review_backed L db' q"
  by (auto simp: review_backed_def)

lemma attempt_backed_mono:
  "attempt_backed L h db t \<Longrightarrow> set (db_reviews db) \<subseteq> set (db_reviews db') \<Longrightarrow> attempt_backed L h db' t"
  by (auto simp: attempt_backed_def)

lemma claim_backed_mono:
  "claim_backed coordinated db xs c \<Longrightarrow> set (db_attempts db) \<subseteq> set (db_attempts db') \<Longrightarrow> set (db_revisions db) \<subseteq> set (db_revisions db')
   \<Longrightarrow> claim_backed coordinated db' xs c"
  unfolding claim_backed_def by blast

section \<open>Reviews keep the invariant\<close>

definition with_review :: "ReviewRequestV2 \<Rightarrow> int \<Rightarrow> plan_db \<Rightarrow> plan_db" where
  "with_review rv now db = db\<lparr>db_revisions := db_revisions db @ [revision_row rv now],
     db_approvals := db_approvals db @ [approval_row rv now], db_reviews := db_reviews db @ [review_row rv]\<rparr>"

lemma persist_review_cases:
  obtains (rejected) e where "persist_review rv now db = (Inl e, db)"
  | (stored) "persist_review rv now db = (Inr (), with_review rv now db)"
    and "\<forall>x \<in> set (db_revisions db). \<not> revision_conflict (revision_row rv now) x"
    and "\<forall>x \<in> set (db_approvals db). \<not> approval_conflict (approval_row rv now) x"
    and "\<forall>x \<in> set (db_reviews db). \<not> review_conflict (review_row rv) x"
    and "ap_revision_id (rv_approval rv) \<in> vw_revision_id ` set (db_revisions db @ [revision_row rv now])"
proof -
  define tx where "tx =
      and_then (insert_row revision_conflict True (revision_row rv now) (db_revisions db)) (\<lambda>revisions.
      and_then (insert_row approval_conflict (ap_revision_id (rv_approval rv) \<in> vw_revision_id ` set revisions)
        (approval_row rv now) (db_approvals db)) (\<lambda>approvals.
      and_then (insert_row review_conflict (ap_approval_id (rv_approval rv) \<in> pw_approval_id ` set approvals)
        (review_row rv) (db_reviews db)) (\<lambda>reviews.
      Inr (db\<lparr>db_revisions := revisions, db_approvals := approvals, db_reviews := reviews\<rparr>))))"
  have eq: "persist_review rv now db = (case tx of Inl e \<Rightarrow> (Inl e, db) | Inr db' \<Rightarrow> (Inr (), db'))"
    by (simp only: persist_review_def tx_def)
  show ?thesis
  proof (cases tx)
    case (Inl e)
    with eq rejected show ?thesis by simp
  next
    case (Inr db')
    then have facts: "\<forall>x \<in> set (db_revisions db). \<not> revision_conflict (revision_row rv now) x"
        "\<forall>x \<in> set (db_approvals db). \<not> approval_conflict (approval_row rv now) x"
        "\<forall>x \<in> set (db_reviews db). \<not> review_conflict (review_row rv) x"
        "ap_revision_id (rv_approval rv) \<in> vw_revision_id ` set (db_revisions db @ [revision_row rv now])"
        "db' = with_review rv now db"
      unfolding tx_def and_then_Inr insert_row_Inr with_review_def by auto
    from eq Inr facts(5) have "persist_review rv now db = (Inr (), with_review rv now db)" by simp
    from stored [OF this facts(1-4)] show ?thesis .
  qed
qed

lemma proto_inv_persist_review:
  assumes inv: "proto_inv L h coordinated db" and sealed: "verify_sealed_revision L (rv_revision rv) = Inr ()"
    and approval: "validate_approval (rv_approval rv) (rv_revision rv) now = Inr ()"
  shows "proto_inv L h coordinated (snd (persist_review rv now db))"
proof (cases rule: persist_review_cases [of rv now db])
  case (rejected e)
  with inv show ?thesis by simp
next
  case stored
  let ?v = "revision_row rv now" and ?a = "approval_row rv now" and ?q = "review_row rv"
  let ?db = "db\<lparr>db_revisions := db_revisions db @ [?v], db_approvals := db_approvals db @ [?a], db_reviews := db_reviews db @ [?q]\<rparr>"
  note fresh = stored(2-4) and parent = stored(5)
  have db': "snd (persist_review rv now db) = ?db" by (simp add: stored(1) with_review_def)
  note D = proto_invD [OF inv]
  have fields: "ap_plan_id (rv_approval rv) = pr_plan_id (rv_revision rv)" "ap_revision_id (rv_approval rv) = pr_revision_id (rv_revision rv)"
      "ap_bridge_id (rv_approval rv) = pr_bridge_id (rv_revision rv)"
    using approval by (auto simp: validate_approval_def res_simps)
  show ?thesis unfolding db'
  proof (rule proto_invI)
    show "keys_unique ?db"
      using D(1) fresh by (auto simp: keys_unique_def revision_conflict_def approval_conflict_def review_conflict_def)
    show "parents_exist ?db"
      using D(2) parent by (auto simp: parents_exist_def approval_row_def Let_def)
    show "review_backed L ?db q" if "q \<in> set (db_reviews ?db)" for q
    proof (cases "q = ?q")
      case True
      then show ?thesis using sealed fields
        by (auto simp: review_backed_def approval_row_def revision_row_def Let_def)
    next
      case False
      with that have "q \<in> set (db_reviews db)" by simp
      from D(3) [OF this] show ?thesis by (rule review_backed_mono) auto
    qed
    show "attempt_backed L h ?db t" if "t \<in> set (db_attempts ?db)" for t
      using D(4) [of t] that by (auto intro: attempt_backed_mono)
    show "claim_backed coordinated ?db xs c" if "db_claims ?db = xs @ c # ys" for xs c ys
      using D(5) [of xs c ys] that by (auto intro: claim_backed_mono)
  qed
qed

lemma validate_review_common_Inr:
  assumes "validate_review_common L rv now = Inr ()"
  shows "verify_sealed_revision L (rv_revision rv) = Inr ()" and "validate_approval (rv_approval rv) (rv_revision rv) now = Inr ()"
  using assms by (auto simp: validate_review_common_def res_simps)

lemma proto_inv_record_review:
  "proto_inv L h coordinated db \<Longrightarrow> proto_inv L h coordinated (snd (record_review L active rv binding now db))"
  by (auto simp: record_review_def validate_remote_review_def res_simps split: sum.split
      intro!: proto_inv_persist_review dest: validate_review_common_Inr)

lemma proto_inv_record_local:
  "proto_inv L h coordinated db \<Longrightarrow> proto_inv L h coordinated (snd (record_local_authority_snapshot L active rv freshness now db))"
  by (auto simp: record_local_authority_snapshot_def validate_local_authority_snapshot_def res_simps split: sum.split
      intro!: proto_inv_persist_review dest: validate_review_common_Inr)

section \<open>Attempt starts keep the invariant\<close>

lemma proto_inv_messages [simp]: "proto_inv L h coordinated (db\<lparr>db_messages := ms\<rparr>) \<longleftrightarrow> proto_inv L h coordinated db"
  by (simp add: proto_inv_def keys_unique_def parents_exist_def review_backed_def attempt_backed_def claim_backed_def)

lemma claim_message_Inr:
  "claim_message captured start now db = Inr db' \<longleftrightarrow>
     (if is_remote captured
      then (\<forall>m \<in> set (db_messages db). \<not> message_conflict (message_row start now) m)
        \<and> db' = db\<lparr>db_messages := db_messages db @ [message_row start now]\<rparr>
      else db' = db)"
  by (auto simp: claim_message_def insert_row_Inr res_simps)

lemma find_SomeD: "find P xs = Some x \<Longrightarrow> x \<in> set xs \<and> P x"
  by (induction xs) (auto split: if_splits)

lemma check_start_Inr:
  assumes start: "check_start active start now db = Inr review"
  obtains q where "q \<in> set (db_reviews db)" and "qw_bridge_id q = as_bridge_id start"
    and "qw_correlation_id q = as_correlation_id start" and "review = qw_review q" and "\<not> start_mismatch start review"
proof -
  obtain x where stored: "stored_review db (as_bridge_id start) (as_correlation_id start) = Some x"
    using start unfolding check_start_def and_then_Inr ok_or_Inr by blast
  obtain q a v where x: "x = (q, a, v)" by (cases x)
  have rest: "review = qw_review q" "\<not> start_mismatch start (qw_review q)"
    using start unfolding check_start_def and_then_Inr ok_or_Inr stored x by (auto simp: and_then_Inr)
  from stored have "find_review db (as_bridge_id start) (as_correlation_id start) = Some q"
    by (simp add: x stored_review_def split: option.splits)
  then have "q \<in> set (db_reviews db) \<and> qw_bridge_id q = as_bridge_id start \<and> qw_correlation_id q = as_correlation_id start"
    unfolding find_review_def by (rule find_SomeD)
  with rest show ?thesis by (intro that [of q]) simp_all
qed

lemma accept_cases:
  obtains (rejected) e where "accept_attempt_start_with_freshness L active h start captured current availability now db = (Inl e, db)"
  | (undone) result db' where "accept_attempt_start_with_freshness L active h start captured current availability now db = (result, db')"
    and "claim_message captured start now db = Inr db'"
  | (accepted) review db' a where "accept_attempt_start_with_freshness L active h start captured current availability now db
        = (Inr (AttemptAccepted \<lparr>aa_attempt_id = as_attempt_id start, aa_admission_ref = ad_admission_ref a\<rparr>),
           db'\<lparr>db_attempts := db_attempts db' @ [attempt_row start captured a now]\<rparr>)"
    and "check_start active start now db = Inr review" and "claim_message captured start now db = Inr db'"
    and "evaluate_v2_with_availability L h (rv_revision review) (rv_approval review) (start_request start captured) current availability now
        = Inr (Admit a)"
    and "\<forall>t \<in> set (db_attempts db'). \<not> attempt_conflict (attempt_row start captured a now) t"
proof (cases "check_start active start now db")
  case (Inl e)
  then show ?thesis by (intro rejected [of e]) (simp add: accept_attempt_start_with_freshness_def)
next
  case (Inr review)
  note check = this
  show ?thesis
  proof (cases "claim_message captured start now db")
    case (Inl e)
    with check show ?thesis by (intro rejected [of e]) (simp add: accept_attempt_start_with_freshness_def)
  next
    case (Inr db')
    note claim = this
    obtain decision where eval: "evaluate_v2_with_availability L h (rv_revision review) (rv_approval review) (start_request start captured)
        current availability now = Inr decision" using evaluate_no_error by blast
    show ?thesis
    proof (cases decision)
      case (Deny code summary)
      with check claim eval show ?thesis
        by (intro undone [of "Inr (AttemptDenied decision)" db']) (simp_all add: accept_attempt_start_with_freshness_def)
    next
      case (Admit a)
      show ?thesis
      proof (cases "insert_row attempt_conflict (as_approval_id start \<in> pw_approval_id ` set (db_approvals db'))
          (attempt_row start captured a now) (db_attempts db')")
        case (Inl e)
        with check claim eval Admit show ?thesis
          by (intro undone [of "Inl e" db']) (simp_all add: accept_attempt_start_with_freshness_def)
      next
        case (Inr attempts)
        then have fresh: "\<forall>t \<in> set (db_attempts db'). \<not> attempt_conflict (attempt_row start captured a now) t"
          and "attempts = db_attempts db' @ [attempt_row start captured a now]"
          by (simp_all add: insert_row_Inr)
        with Inr check claim eval Admit
        have "accept_attempt_start_with_freshness L active h start captured current availability now db
          = (Inr (AttemptAccepted \<lparr>aa_attempt_id = as_attempt_id start, aa_admission_ref = ad_admission_ref a\<rparr>),
             db'\<lparr>db_attempts := db_attempts db' @ [attempt_row start captured a now]\<rparr>)"
          by (simp add: accept_attempt_start_with_freshness_def)
        from accepted [OF this check claim _ fresh] eval Admit show ?thesis by simp
      qed
    qed
  qed
qed

lemma row_request_attempt_row:
  assumes "freshness_local_host_ref captured = h"
  shows "row_request h (attempt_row start captured a now) captured = start_request start captured"
  using assms by (simp add: row_request_def attempt_row_def start_request_def)

lemma proto_inv_accept:
  assumes inv: "proto_inv L h coordinated db"
  shows "proto_inv L h coordinated (snd (accept_attempt_start_with_freshness L active h start captured current availability now db))"
proof (cases rule: accept_cases [of L active h start captured current availability now db])
  case (rejected e)
  with inv show ?thesis by simp
next
  case (undone result db')
  with inv show ?thesis by (auto simp: claim_message_Inr split: if_splits)
next
  case (accepted review db' a)
  have inv': "proto_inv L h coordinated db'" and reviews: "db_reviews db' = db_reviews db"
    using inv accepted(3) by (auto simp: claim_message_Inr split: if_splits)
  note D = proto_invD [OF inv']
  let ?t = "attempt_row start captured a now"
  let ?db = "db'\<lparr>db_attempts := db_attempts db' @ [?t]\<rparr>"
  obtain q where q: "q \<in> set (db_reviews db)" "qw_bridge_id q = as_bridge_id start" "qw_correlation_id q = as_correlation_id start"
    "review = qw_review q" "\<not> start_mismatch start review" by (rule check_start_Inr [OF accepted(2)])
  from accepted(4) have "admission_conditions L h (rv_revision review) (rv_approval review) (start_request start captured) current availability now"
    by (simp add: evaluate_Admit)
  then have cur: "captured = current" "freshness_local_host_ref captured = h"
    by (simp_all add: admission_conditions_def start_request_def)
  have eval: "evaluate_v2_with_availability L h (rv_revision review) (rv_approval review) (row_request h ?t captured) captured availability now
      = Inr (Admit a)"
    unfolding row_request_attempt_row [OF cur(2)] using accepted(4) cur(1) by simp
  have "admitted_on L h (qw_review q) ?t captured"
    unfolding admitted_on_def using eval q(4) by (auto simp: attempt_row_def)
  then have backed: "attempt_backed L h ?db ?t"
    using q reviews unfolding attempt_backed_def start_mismatch_def by (auto simp: attempt_row_def intro!: bexI [of _ q])
  have "proto_inv L h coordinated ?db"
  proof (rule proto_invI)
    show "keys_unique ?db" using D(1) accepted(5) by (auto simp: keys_unique_def attempt_conflict_def)
    show "parents_exist ?db" using D(2) by (simp add: parents_exist_def)
    show "review_backed L ?db r" if "r \<in> set (db_reviews ?db)" for r
      using D(3) [of r] that by (auto intro: review_backed_mono)
    show "attempt_backed L h ?db t" if "t \<in> set (db_attempts ?db)" for t
      using D(4) [of t] that backed by (auto intro: attempt_backed_mono)
    show "claim_backed coordinated ?db xs c" if "db_claims ?db = xs @ c # ys" for xs c ys
      using D(5) [of xs c ys] that by (auto intro: claim_backed_mono)
  qed
  with accepted(1) show ?thesis by simp
qed

section \<open>Claims keep the invariant\<close>

lemma find_attempt_Some:
  assumes "find_attempt db attempt = Some (t, a, v)"
  shows "t \<in> set (db_attempts db)" and "tw_attempt_id t = attempt" and "a \<in> set (db_approvals db)"
    and "pw_approval_id a = tw_approval_id t" and "v \<in> set (db_revisions db)" and "vw_revision_id v = tw_revision_id t"
proof -
  from assms obtain find: "find (\<lambda>t. tw_attempt_id t = attempt) (db_attempts db) = Some t"
    "find (\<lambda>a. pw_approval_id a = tw_approval_id t) (db_approvals db) = Some a"
    "find (\<lambda>v. vw_revision_id v = tw_revision_id t) (db_revisions db) = Some v"
    by (auto simp: find_attempt_def stored_attempt_def split: option.splits)
  note facts = find [THEN find_SomeD]
  from facts show "t \<in> set (db_attempts db)" and "tw_attempt_id t = attempt" and "a \<in> set (db_approvals db)"
    and "pw_approval_id a = tw_approval_id t" and "v \<in> set (db_revisions db)" and "vw_revision_id v = tw_revision_id t"
    by simp_all
qed

lemma load_claim_source_Inr:
  assumes "load_claim_source L coordinated committed h attempt wanted captured current now db = Inr source"
  obtains t a v where "find_attempt db attempt = Some (t, a, v)" and "cs_step source \<in> set (pr_steps (vw_revision v))"
    and "step_id (cs_step source) = wanted" and "is_managed (cs_step source)" and "binds_participant (cs_step source) (tw_target t)"
    and "\<not> coordinated attempt \<longrightarrow> (\<forall>d \<in> set (dependencies (cs_step source)). claim_completed db attempt d)"
proof -
  from assms obtain t a v s where attempt: "find_attempt db attempt = Some (t, a, v)"
    and find: "find (\<lambda>s. step_id s = wanted) (pr_steps (vw_revision v)) = Some s"
    and step: "binds_participant s (tw_target t)" "is_managed s" "cs_step source = s"
    and deps: "\<forall>d \<in> set (dependencies s). dependency_complete coordinated committed db attempt d = Inr ()"
    unfolding load_claim_source_def by (auto simp: res_simps Let_def)
  have "claim_completed db attempt d" if "\<not> coordinated attempt" "d \<in> set (dependencies s)" for d
    using deps that by (auto simp: dependency_complete_def res_simps)
  then show ?thesis using find_SomeD [OF find] step by (intro that [OF attempt]) simp_all
qed

lemma proto_inv_claim:
  assumes inv: "proto_inv L h coordinated db"
    and source: "load_claim_source L coordinated committed h attempt wanted captured current now db = Inr source"
  shows "proto_inv L h coordinated
    (snd (insert_claim (new_claim attempt wanted (operation (cs_step source)) context_ref envelope_ref run_ref now) db))"
proof -
  let ?c = "new_claim attempt wanted (operation (cs_step source)) context_ref envelope_ref run_ref now"
  let ?db = "db\<lparr>db_claims := db_claims db @ [?c]\<rparr>"
  note D = proto_invD [OF inv]
  obtain t a v where t: "find_attempt db attempt = Some (t, a, v)" and s: "cs_step source \<in> set (pr_steps (vw_revision v))"
      "step_id (cs_step source) = wanted" "is_managed (cs_step source)" "binds_participant (cs_step source) (tw_target t)"
    and deps: "\<not> coordinated attempt \<longrightarrow> (\<forall>d \<in> set (dependencies (cs_step source)). claim_completed db attempt d)"
    by (rule load_claim_source_Inr [OF source])
  have keys: "cw_attempt_id ?c = attempt" "cw_step_id ?c = wanted" "cw_operation ?c = operation (cs_step source)"
    by (simp_all add: new_claim_def)
  have backed: "claim_backed coordinated db (db_claims db) ?c"
    unfolding claim_backed_def keys
    using find_attempt_Some [OF t] s deps by (auto simp: claim_completed_def list_ex_iff intro!: bexI [of _ t] bexI [of _ v] bexI [of _ "cs_step source"])
  show ?thesis
  proof (cases "insert_row claim_conflict (cw_attempt_id ?c \<in> tw_attempt_id ` set (db_attempts db)) ?c (db_claims db)")
    case (Inl e)
    with inv show ?thesis by (simp add: insert_claim_def)
  next
    case (Inr claims)
    then have fresh: "\<forall>x \<in> set (db_claims db). \<not> claim_conflict ?c x" and claims: "claims = db_claims db @ [?c]"
      by (simp_all add: insert_row_Inr)
    have "proto_inv L h coordinated ?db"
    proof (rule proto_invI)
      show "keys_unique ?db" using D(1) fresh by (auto simp: keys_unique_def claim_conflict_def)
      show "parents_exist ?db" using D(2) by (simp add: parents_exist_def)
      show "review_backed L ?db r" if "r \<in> set (db_reviews ?db)" for r
        using D(3) [of r] that by (auto intro: review_backed_mono)
      show "attempt_backed L h ?db t" if "t \<in> set (db_attempts ?db)" for t
        using D(4) [of t] that by (auto intro: attempt_backed_mono)
      show "claim_backed coordinated ?db xs c" if eq: "db_claims ?db = xs @ c # ys" for xs c ys
      proof (cases ys rule: rev_cases)
        case Nil
        with eq have "xs = db_claims db" "c = ?c" by simp_all
        with backed show ?thesis by (auto intro: claim_backed_mono)
      next
        case (snoc zs z)
        with eq have "db_claims db = xs @ c # zs" by (simp flip: append_assoc append_Cons)
        from D(5) [OF this] show ?thesis by (auto intro: claim_backed_mono)
      qed
    qed
    with Inr claims show ?thesis by (simp add: insert_claim_def)
  qed
qed

section \<open>Updates of states keep the invariant\<close>

lemma keys_of_update:
  assumes "\<And>t. \<exists>s. f t = t\<lparr>tw_state := s\<rparr>"
  shows "tw_attempt_id (f t) = tw_attempt_id t" "tw_bridge_id (f t) = tw_bridge_id t"
    "tw_correlation_id (f t) = tw_correlation_id t" "tw_target (f t) = tw_target t" "tw_revision_id (f t) = tw_revision_id t"
  using assms [of t] by auto

lemma attempt_backed_state [simp]: "attempt_backed L h db (t\<lparr>tw_state := s\<rparr>) \<longleftrightarrow> attempt_backed L h db t"
  by (simp add: attempt_backed_def admitted_on_def row_request_def)

definition claim_update :: "(ClaimRow \<Rightarrow> ClaimRow) \<Rightarrow> bool" where
  "claim_update g \<longleftrightarrow> (\<forall>c. cw_attempt_id (g c) = cw_attempt_id c \<and> cw_step_id (g c) = cw_step_id c
     \<and> cw_operation (g c) = cw_operation c \<and> (cw_state c = ClaimCompleted \<longrightarrow> cw_state (g c) = ClaimCompleted))"

lemma claim_backed_update:
  assumes "claim_backed coordinated db xs c" and g: "claim_update g" and f: "\<And>t. \<exists>s. f t = t\<lparr>tw_state := s\<rparr>"
    and "db_attempts db' = map f (db_attempts db)" and "db_revisions db' = db_revisions db"
  shows "claim_backed coordinated db' (map g xs) (g c)"
proof -
  obtain t v s where t: "t \<in> set (db_attempts db)" "tw_attempt_id t = cw_attempt_id c"
    and v: "v \<in> set (db_revisions db)" "vw_revision_id v = tw_revision_id t"
    and s: "s \<in> set (pr_steps (vw_revision v))" "step_id s = cw_step_id c" "operation s = cw_operation c" "is_managed s"
      "binds_participant s (tw_target t)"
    and deps: "\<not> coordinated (cw_attempt_id c) \<longrightarrow> (\<forall>d \<in> set (dependencies s).
          \<exists>c' \<in> set xs. cw_attempt_id c' = cw_attempt_id c \<and> cw_step_id c' = d \<and> cw_state c' = ClaimCompleted)"
    using assms(1) [unfolded claim_backed_def] by (elim bexE conjE) (rule that)
  have deps': "\<not> coordinated (cw_attempt_id c) \<longrightarrow> (\<forall>d \<in> set (dependencies s).
          \<exists>c' \<in> set (map g xs). cw_attempt_id c' = cw_attempt_id c \<and> cw_step_id c' = d \<and> cw_state c' = ClaimCompleted)"
  proof (intro impI ballI)
    fix d assume "\<not> coordinated (cw_attempt_id c)" "d \<in> set (dependencies s)"
    with deps obtain c' where "c' \<in> set xs" "cw_attempt_id c' = cw_attempt_id c" "cw_step_id c' = d" "cw_state c' = ClaimCompleted"
      by auto
    with g show "\<exists>c' \<in> set (map g xs). cw_attempt_id c' = cw_attempt_id c \<and> cw_step_id c' = d \<and> cw_state c' = ClaimCompleted"
      by (intro bexI [of _ "g c'"]) (simp_all add: claim_update_def)
  qed
  have keys: "cw_attempt_id (g c) = cw_attempt_id c" "cw_step_id (g c) = cw_step_id c" "cw_operation (g c) = cw_operation c"
    using g by (simp_all add: claim_update_def)
  have "f t \<in> set (db_attempts db')" using t(1) assms(4) by simp
  moreover have "v \<in> set (db_revisions db')" using v(1) assms(5) by simp
  ultimately show ?thesis unfolding claim_backed_def keys
    using t(2) v(2) s deps' keys_of_update [OF f, of t] by (intro bexI [of _ "f t"] bexI [of _ v] bexI [of _ s]) auto
qed

lemma proto_inv_update:
  assumes inv: "proto_inv L h coordinated db" and g: "claim_update g" and f: "\<And>t. \<exists>s. f t = t\<lparr>tw_state := s\<rparr>"
    and attempts: "db_attempts db' = map f (db_attempts db)" and claims: "db_claims db' = map g (db_claims db)"
    and same: "db_revisions db' = db_revisions db" "db_approvals db' = db_approvals db" "db_reviews db' = db_reviews db"
  shows "proto_inv L h coordinated db'"
proof (rule proto_invI)
  note D = proto_invD [OF inv]
  have g_keys: "(\<lambda>c. (cw_attempt_id (g c), cw_step_id (g c))) = (\<lambda>c. (cw_attempt_id c, cw_step_id c))"
    using g by (simp add: claim_update_def)
  show "keys_unique db'"
    using D(1) unfolding keys_unique_def attempts claims same by (simp add: comp_def keys_of_update [OF f] g_keys)
  show "parents_exist db'" using D(2) by (simp add: parents_exist_def same)
  show "review_backed L db' q" if "q \<in> set (db_reviews db')" for q
    using D(3) [of q] that by (simp add: review_backed_def same)
  show "attempt_backed L h db' t" if t: "t \<in> set (db_attempts db')" for t
  proof -
    from t obtain u where u: "u \<in> set (db_attempts db)" "t = f u" by (auto simp: attempts)
    from f [of u] obtain s where "t = u\<lparr>tw_state := s\<rparr>" using u(2) by blast
    with D(4) [OF u(1)] show ?thesis by (simp add: attempt_backed_mono same)
  qed
  show "claim_backed coordinated db' xs c" if split: "db_claims db' = xs @ c # ys" for xs c ys
  proof -
    from split obtain us u vs where "db_claims db = us @ u # vs" "xs = map g us" "c = g u"
      unfolding claims by (auto simp: map_eq_append_conv map_eq_Cons_conv)
    then show ?thesis using claim_backed_update [OF D(5) g f attempts same(1)] by blast
  qed
qed

lemma claim_update_set: "claim_update (\<lambda>c. if cw_state c = ClaimClaimed \<and> P c then c\<lparr>cw_state := s\<rparr> else c)"
  by (simp add: claim_update_def)

lemma claim_update_complete:
  "claim_update (\<lambda>c. if P c then c\<lparr>cw_state := ClaimCompleted, cw_evidence_head := e, cw_completed_at := n\<rparr> else c)"
  by (simp add: claim_update_def)

lemma attempt_update_state: "\<exists>s. (if P then t\<lparr>tw_state := x\<rparr> else t) = t\<lparr>tw_state := s\<rparr>"
  by (cases P) (auto intro: exI [of _ "tw_state t"])

lemma attempt_update_none: "\<exists>s. (\<lambda>t. t) t = t\<lparr>tw_state := s\<rparr>"
  by (auto intro: exI [of _ "tw_state t"])

lemma proto_inv_claims_update:
  assumes "proto_inv L h coordinated db" and "claim_update g"
  shows "proto_inv L h coordinated (db\<lparr>db_claims := map g (db_claims db)\<rparr>)"
  by (rule proto_inv_update [OF assms attempt_update_none]) simp_all

lemma proto_inv_set_claims:
  "proto_inv L h coordinated db \<Longrightarrow> proto_inv L h coordinated (db\<lparr>db_claims := set_claims P s (db_claims db)\<rparr>)"
  unfolding set_claims_def by (rule proto_inv_claims_update [OF _ claim_update_set])

lemma proto_inv_interrupt:
  assumes "proto_inv L h coordinated db"
  shows "proto_inv L h coordinated
    (db\<lparr>db_claims := set_claims P s (db_claims db), db_attempts := interrupt_attempts Q (db_attempts db)\<rparr>)"
proof (rule proto_inv_update [OF assms claim_update_set attempt_update_state])
  show "db_attempts (db\<lparr>db_claims := set_claims P s (db_claims db), db_attempts := interrupt_attempts Q (db_attempts db)\<rparr>)
      = map (\<lambda>t. if tw_state t = AttemptStateAccepted \<and> Q t then t\<lparr>tw_state := AttemptStateInterrupted\<rparr> else t) (db_attempts db)"
    by (simp add: interrupt_attempts_def)
  show "db_claims (db\<lparr>db_claims := set_claims P s (db_claims db), db_attempts := interrupt_attempts Q (db_attempts db)\<rparr>)
      = map (\<lambda>c. if cw_state c = ClaimClaimed \<and> P c then c\<lparr>cw_state := s\<rparr> else c) (db_claims db)"
    by (simp add: set_claims_def)
qed simp_all

lemma proto_inv_interrupt_base:
  "proto_inv L h coordinated db \<Longrightarrow> proto_inv L h coordinated (db\<lparr>db_attempts := interrupt_attempts Q (db_attempts db)\<rparr>)"
  using proto_inv_interrupt [where P = "\<lambda>_. False" and Q = Q] by (simp add: set_claims_def)

lemma proto_inv_results [simp]:
  "proto_inv L h coordinated (db\<lparr>db_transform_results := ts\<rparr>) \<longleftrightarrow> proto_inv L h coordinated db"
  "proto_inv L h coordinated (db\<lparr>db_execute_results := es\<rparr>) \<longleftrightarrow> proto_inv L h coordinated db"
  by (simp_all add: proto_inv_def keys_unique_def parents_exist_def review_backed_def attempt_backed_def claim_backed_def)

lemma proto_inv_complete:
  "proto_inv L h coordinated db \<Longrightarrow> proto_inv L h coordinated (db\<lparr>db_claims := complete_claims a w e n (db_claims db)\<rparr>)"
  unfolding complete_claims_def by (rule proto_inv_claims_update [OF _ claim_update_complete])

lemma proto_inv_transform_result:
  assumes inv: "proto_inv L h coordinated db"
  shows "proto_inv L h coordinated (snd (persist_transform_result row db))"
proof -
  let ?done = "\<lambda>ts. db\<lparr>db_transform_results := ts, db_claims :=
    complete_claims (rw_attempt_id row) (rw_step_id row) (rw_evidence_head row) (rw_completed_at row) (db_claims db)\<rparr>"
  have "proto_inv L h coordinated (?done ts)" for ts
    using proto_inv_complete [of L h coordinated "db\<lparr>db_transform_results := ts\<rparr>"] inv by simp
  then show ?thesis using inv
    by (simp add: persist_transform_result_def and_then_def ensure_def split: sum.split)
qed

lemma proto_inv_execute_result:
  assumes inv: "proto_inv L h coordinated db"
  shows "proto_inv L h coordinated (snd (persist_execute_result row db))"
proof -
  let ?done = "\<lambda>es. db\<lparr>db_execute_results := es, db_claims :=
    complete_claims (xw_attempt_id row) (xw_step_id row) (xw_evidence_head row) (xw_completed_at row) (db_claims db)\<rparr>"
  have "proto_inv L h coordinated (?done es)" for es
    using proto_inv_complete [of L h coordinated "db\<lparr>db_execute_results := es\<rparr>"] inv by simp
  then show ?thesis using inv
    by (simp add: persist_execute_result_def and_then_def ensure_def split: sum.split)
qed

section \<open>Deletion keeps the invariant\<close>

text \<open>A selection of rows that keeps the parents of what it keeps, and of a claim's attempt all claims or none.\<close>

definition closed_selection :: "plan_db \<Rightarrow> plan_db \<Rightarrow> bool" where
  "closed_selection db db' \<longleftrightarrow> (\<exists>Pv Pa Pq Pt Pc.
     db_revisions db' = filter Pv (db_revisions db) \<and> db_approvals db' = filter Pa (db_approvals db)
     \<and> db_reviews db' = filter Pq (db_reviews db) \<and> db_attempts db' = filter Pt (db_attempts db)
     \<and> db_claims db' = filter (\<lambda>c. Pc (cw_attempt_id c)) (db_claims db)
     \<and> (\<forall>a \<in> set (db_approvals db'). pw_revision_id a \<in> vw_revision_id ` set (db_revisions db'))
     \<and> (\<forall>q \<in> set (db_reviews db'). qw_approval_id q \<in> pw_approval_id ` set (db_approvals db'))
     \<and> (\<forall>t \<in> set (db_attempts db'). \<forall>q \<in> set (db_reviews db). qw_bridge_id q = tw_bridge_id t \<and> qw_approval_id q = tw_approval_id t
          \<longrightarrow> q \<in> set (db_reviews db'))
     \<and> (\<forall>c \<in> set (db_claims db'). cw_attempt_id c \<in> tw_attempt_id ` set (db_attempts db')))"

lemma distinct_keyD: "distinct (map f xs) \<Longrightarrow> x \<in> set xs \<Longrightarrow> y \<in> set xs \<Longrightarrow> f x = f y \<Longrightarrow> x = y"
  by (auto simp: distinct_map dest: inj_onD)

lemma distinct_key_filter:
  "distinct (map f xs) \<Longrightarrow> x \<in> set xs \<Longrightarrow> f x \<in> f ` set (filter P xs) \<Longrightarrow> x \<in> set (filter P xs)"
  by (auto dest: distinct_keyD)

lemma filter_split:
  assumes "filter P zs = xs @ c # ys"
  obtains us vs where "zs = us @ c # vs" and "xs = filter P us"
proof -
  from assms have "\<exists>us vs. zs = us @ c # vs \<and> xs = filter P us"
  proof (induction zs arbitrary: xs)
    case Nil
    then show ?case by simp
  next
    case (Cons z zs)
    show ?case
    proof (cases "P z")
      case False
      with Cons.prems have "filter P zs = xs @ c # ys" by simp
      from Cons.IH [OF this] obtain us vs where "zs = us @ c # vs" "xs = filter P us" by blast
      with False show ?thesis by (intro exI [of _ "z # us"] exI [of _ vs]) simp
    next
      case P: True
      show ?thesis
      proof (cases xs)
        case Nil
        with P Cons.prems show ?thesis by (intro exI [of _ "[]"] exI [of _ zs]) simp
      next
        case (Cons x xs')
        with P Cons.prems have "z = x" "filter P zs = xs' @ c # ys" by simp_all
        from Cons.IH [OF this(2)] obtain us vs where "zs = us @ c # vs" "xs' = filter P us" by blast
        with P \<open>z = x\<close> Cons show ?thesis by (intro exI [of _ "z # us"] exI [of _ vs]) simp
      qed
    qed
  qed
  with that show ?thesis by blast
qed

lemma closed_selectionE:
  assumes "closed_selection db db'"
  obtains Pv Pa Pq Pt Pc where
      "db_revisions db' = filter Pv (db_revisions db)" and "db_approvals db' = filter Pa (db_approvals db)"
    and "db_reviews db' = filter Pq (db_reviews db)" and "db_attempts db' = filter Pt (db_attempts db)"
    and "db_claims db' = filter (\<lambda>c. Pc (cw_attempt_id c)) (db_claims db)"
    and "\<forall>a \<in> set (db_approvals db'). pw_revision_id a \<in> vw_revision_id ` set (db_revisions db')"
    and "\<forall>q \<in> set (db_reviews db'). qw_approval_id q \<in> pw_approval_id ` set (db_approvals db')"
    and "\<forall>t \<in> set (db_attempts db'). \<forall>q \<in> set (db_reviews db).
        qw_bridge_id q = tw_bridge_id t \<and> qw_approval_id q = tw_approval_id t \<longrightarrow> q \<in> set (db_reviews db')"
    and "\<forall>c \<in> set (db_claims db'). cw_attempt_id c \<in> tw_attempt_id ` set (db_attempts db')"
  using assms unfolding closed_selection_def by (elim exE conjE)

lemma keys_uniqueD:
  assumes "keys_unique db"
  shows "distinct (map vw_revision_id (db_revisions db))" and "distinct (map pw_approval_id (db_approvals db))"
    and "distinct (map tw_attempt_id (db_attempts db))"
  using assms by (simp_all add: keys_unique_def)

lemma selection_review:
  assumes inv: "proto_inv L h coordinated db" and closed: "closed_selection db db'" and r: "r \<in> set (db_reviews db')"
  shows "review_backed L db' r"
proof -
  note D = proto_invD [OF inv] and keys = keys_uniqueD [OF proto_invD(1) [OF inv]]
  from closed show ?thesis
  proof (rule closed_selectionE)
    fix Pv Pa Pq
    assume v: "db_revisions db' = filter Pv (db_revisions db)" and a: "db_approvals db' = filter Pa (db_approvals db)"
      and q: "db_reviews db' = filter Pq (db_reviews db)"
      and av: "\<forall>a \<in> set (db_approvals db'). pw_revision_id a \<in> vw_revision_id ` set (db_revisions db')"
      and qa: "\<forall>q \<in> set (db_reviews db'). qw_approval_id q \<in> pw_approval_id ` set (db_approvals db')"
    have backed: "review_backed L db r" using D(3) [of r] r by (simp add: q)
    then obtain ap rev where ap: "ap \<in> set (db_approvals db)" "pw_approval_id ap = qw_approval_id r" "pw_revision_id ap = qw_revision_id r"
        "pw_state ap = ApprovalValid" "pw_approval ap = rv_approval (qw_review r)"
      and rev: "rev \<in> set (db_revisions db)" "vw_revision_id rev = qw_revision_id r" "vw_revision rev = rv_revision (qw_review r)"
      unfolding review_backed_def by blast
    have ap': "ap \<in> set (db_approvals db')"
      using distinct_key_filter [OF keys(2) ap(1)] bspec [OF qa r] unfolding a ap(2) [symmetric] .
    have rev': "rev \<in> set (db_revisions db')"
      using distinct_key_filter [OF keys(1) rev(1)] bspec [OF av ap'] unfolding v rev(2) ap(3) .
    show ?thesis using backed ap ap' rev rev' unfolding review_backed_def by blast
  qed
qed

lemma selection_attempt:
  assumes inv: "proto_inv L h coordinated db" and closed: "closed_selection db db'" and u: "u \<in> set (db_attempts db')"
  shows "attempt_backed L h db' u" and "tw_revision_id u \<in> vw_revision_id ` set (db_revisions db')"
proof -
  note D = proto_invD [OF inv]
  have u0: "u \<in> set (db_attempts db)" using closed u by (auto elim: closed_selectionE)
  from D(4) [OF u0] obtain r where r: "r \<in> set (db_reviews db)" "qw_bridge_id r = tw_bridge_id u" "qw_correlation_id r = tw_correlation_id u"
      "ap_approval_id (rv_approval (qw_review r)) = tw_approval_id u" "pr_plan_id (rv_revision (qw_review r)) = tw_plan_id u"
      "pr_revision_id (rv_revision (qw_review r)) = tw_revision_id u" "pr_revision_hash (rv_revision (qw_review r)) = tw_revision_hash u"
      "rv_target (qw_review r) = tw_target u" "tw_expires_at u \<le> ap_expires_at (rv_approval (qw_review r))"
      "\<exists>cur. admitted_on L h (qw_review r) u cur"
    unfolding attempt_backed_def by (elim bexE conjE)
  have row: "r = review_row (qw_review r)" using D(3) [OF r(1)] by (simp add: review_backed_def)
  have ids: "qw_approval_id r = tw_approval_id u" "qw_revision_id r = tw_revision_id u"
    using r(4,6) by (subst row, simp)+
  from closed u r(1,2) ids(1) have r': "r \<in> set (db_reviews db')" by (elim closed_selectionE) blast
  then show "attempt_backed L h db' u" unfolding attempt_backed_def using r by blast
  from selection_review [OF inv closed r'] obtain rev where "rev \<in> set (db_revisions db')" "vw_revision_id rev = qw_revision_id r"
    unfolding review_backed_def by blast
  with ids(2) show "tw_revision_id u \<in> vw_revision_id ` set (db_revisions db')" by force
qed

lemma selection_claim:
  assumes inv: "proto_inv L h coordinated db" and closed: "closed_selection db db'" and split: "db_claims db' = xs @ k # ys"
  shows "claim_backed coordinated db' xs k"
proof -
  note D = proto_invD [OF inv] and keys = keys_uniqueD [OF proto_invD(1) [OF inv]]
  from closed show ?thesis
  proof (rule closed_selectionE)
    fix Pv Pt Pc
    assume v: "db_revisions db' = filter Pv (db_revisions db)" and t: "db_attempts db' = filter Pt (db_attempts db)"
      and c: "db_claims db' = filter (\<lambda>c. Pc (cw_attempt_id c)) (db_claims db)"
      and ct: "\<forall>c \<in> set (db_claims db'). cw_attempt_id c \<in> tw_attempt_id ` set (db_attempts db')"
    from split obtain us vs where us: "db_claims db = us @ k # vs" "xs = filter (\<lambda>c. Pc (cw_attempt_id c)) us"
      unfolding c by (rule filter_split)
    have k: "k \<in> set (db_claims db')" using split by simp
    then have Pc: "Pc (cw_attempt_id k)" by (simp add: c)
    from D(5) [OF us(1)] obtain u rev s where u: "u \<in> set (db_attempts db)" "rev \<in> set (db_revisions db)"
        "s \<in> set (pr_steps (vw_revision rev))" "tw_attempt_id u = cw_attempt_id k" "vw_revision_id rev = tw_revision_id u"
        "step_id s = cw_step_id k" "operation s = cw_operation k" "is_managed s" "binds_participant s (tw_target u)"
      and deps: "\<not> coordinated (cw_attempt_id k) \<longrightarrow> (\<forall>d \<in> set (dependencies s).
        \<exists>c' \<in> set us. cw_attempt_id c' = cw_attempt_id k \<and> cw_step_id c' = d \<and> cw_state c' = ClaimCompleted)"
      unfolding claim_backed_def by (elim bexE conjE)
    have u': "u \<in> set (db_attempts db')"
      using distinct_key_filter [OF keys(3) u(1)] bspec [OF ct k] unfolding t u(4) .
    have rev': "rev \<in> set (db_revisions db')"
      using distinct_key_filter [OF keys(1) u(2)] selection_attempt(2) [OF inv closed u'] unfolding v u(5) .
    have "\<not> coordinated (cw_attempt_id k) \<longrightarrow> (\<forall>d \<in> set (dependencies s).
        \<exists>c' \<in> set xs. cw_attempt_id c' = cw_attempt_id k \<and> cw_step_id c' = d \<and> cw_state c' = ClaimCompleted)"
      using deps Pc unfolding us(2) by fastforce
    then show ?thesis unfolding claim_backed_def using u u' rev' by blast
  qed
qed

lemma proto_inv_selection:
  assumes inv: "proto_inv L h coordinated db" and closed: "closed_selection db db'"
  shows "proto_inv L h coordinated db'"
proof (rule proto_invI)
  show "keys_unique db'" using closed proto_invD(1) [OF inv]
    by (elim closed_selectionE) (simp add: keys_unique_def distinct_map_filter)
  show "parents_exist db'" using closed by (elim closed_selectionE) (auto simp: parents_exist_def)
qed (rule selection_review [OF inv closed] selection_attempt(1) [OF inv closed] selection_claim [OF inv closed], assumption)+

lemma closed_selection_delete:
  "closed_selection db (delete_bridge_records bridge db)"
proof -
  let ?attempts = "tw_attempt_id ` set (filter (\<lambda>t. tw_bridge_id t = bridge) (db_attempts db))"
  let ?revisions = "filter (\<lambda>v. vw_bridge_id v \<noteq> bridge) (db_revisions db)"
  let ?Pa = "\<lambda>a. pw_bridge_id a \<noteq> bridge \<and> pw_revision_id a \<in> vw_revision_id ` set ?revisions"
  let ?approvals = "filter ?Pa (db_approvals db)"
  let ?Pq = "\<lambda>q. qw_bridge_id q \<noteq> bridge \<and> qw_approval_id q \<in> pw_approval_id ` set ?approvals"
  let ?Pt = "\<lambda>t. tw_bridge_id t \<noteq> bridge \<and> tw_approval_id t \<in> pw_approval_id ` set ?approvals"
  let ?Pc = "\<lambda>i. i \<notin> ?attempts \<and> i \<in> tw_attempt_id ` set (filter ?Pt (db_attempts db))"
  let ?db = "delete_bridge_records bridge db"
  have tables: "db_revisions ?db = ?revisions" "db_approvals ?db = ?approvals" "db_reviews ?db = filter ?Pq (db_reviews db)"
    "db_attempts ?db = filter ?Pt (db_attempts db)" "db_claims ?db = filter (\<lambda>c. ?Pc (cw_attempt_id c)) (db_claims db)"
    by (cases db; simp only: delete_bridge_records_def drop_orphans_def Let_def plan_db.select_convs plan_db.update_convs filter_filter)+
  show ?thesis
    unfolding closed_selection_def tables
    by (intro exI [of _ "\<lambda>v. vw_bridge_id v \<noteq> bridge"] exI [of _ ?Pa] exI [of _ ?Pq] exI [of _ ?Pt] exI [of _ ?Pc]) auto
qed

lemma proto_inv_delete: "proto_inv L h coordinated db \<Longrightarrow> proto_inv L h coordinated (delete_bridge_records bridge db)"
  by (rule proto_inv_selection [OF _ closed_selection_delete])

section \<open>The machine\<close>

lemma proto_inv_init: "proto_inv L h coordinated empty_db"
  by (simp add: proto_inv_def keys_unique_def parents_exist_def empty_db_def)

lemma proto_inv_step: "proto_step L h coordinated l db db' \<Longrightarrow> proto_inv L h coordinated db \<Longrightarrow> proto_inv L h coordinated db'"
proof (induction rule: proto_step.induct)
  case (step_reconcile db)
  have "reconcile_startup db = db\<lparr>db_claims := set_claims (\<lambda>_. True) ClaimInterrupted (db_claims db),
      db_attempts := interrupt_attempts (\<lambda>_. True) (db_attempts db)\<rparr>"
    by (simp add: reconcile_startup_def)
  with step_reconcile show ?case by (simp only: proto_inv_interrupt)
qed (simp_all add: proto_inv_record_review proto_inv_record_local proto_inv_accept proto_inv_claim proto_inv_delete
    proto_inv_transform_result proto_inv_execute_result mark_claim_failed_def interrupt_claim_for_run_def
    interrupt_claims_for_session_def interrupt_matching_attempts_def proto_inv_set_claims proto_inv_interrupt proto_inv_interrupt_base)

interpretation protocol: guarded_machine proto_init "proto_any L h coordinated" "proto_inv L h coordinated"
  by unfold_locales (auto simp: proto_init_def proto_any_def proto_inv_init intro: proto_inv_step)

end
