(* ===== verification/Protocol_Properties.thy ===== *)
theory Protocol_Properties
  imports Plan_Protocol
begin

text \<open>
  What the attempt protocol guarantees, over every database a run of \<open>Plan_Protocol\<close> can reach from the empty one:
  what an attempt and a claim rest on, that a start message from another Host is used once, and that an accepted
  attempt can go on.
\<close>

definition reachable_db :: "lib \<Rightarrow> HostRef \<Rightarrow> (string \<Rightarrow> bool) \<Rightarrow> plan_db \<Rightarrow> bool" where
  "reachable_db L h coordinated db \<longleftrightarrow> rtranclp (proto_any L h coordinated) empty_db db"

lemma reachable_proto_inv: "reachable_db L h coordinated db \<Longrightarrow> proto_inv L h coordinated db"
  unfolding reachable_db_def by (rule protocol.inv_reachable) (simp_all add: proto_init_def)

lemma reachable_init: "reachable_db L h coordinated empty_db"
  by (simp add: reachable_db_def)

lemma reachable_step: "reachable_db L h coordinated db \<Longrightarrow> proto_step L h coordinated l db db' \<Longrightarrow> reachable_db L h coordinated db'"
  unfolding reachable_db_def by (rule rtranclp.rtrancl_into_rtrancl) (auto simp: proto_any_def)

section \<open>What an attempt rests on\<close>

lemma attempt_backedE:
  assumes "proto_inv L h coordinated db" and "t \<in> set (db_attempts db)"
  obtains q cur availability a where "q \<in> set (db_reviews db)" and "review_backed L db q"
    and "qw_bridge_id q = tw_bridge_id t" and "qw_correlation_id q = tw_correlation_id t"
    and "ap_approval_id (rv_approval (qw_review q)) = tw_approval_id t"
    and "pr_plan_id (rv_revision (qw_review q)) = tw_plan_id t" and "pr_revision_id (rv_revision (qw_review q)) = tw_revision_id t"
    and "pr_revision_hash (rv_revision (qw_review q)) = tw_revision_hash t" and "rv_target (qw_review q) = tw_target t"
    and "tw_expires_at t \<le> ap_expires_at (rv_approval (qw_review q))"
    and "evaluate_v2_with_availability L h (rv_revision (qw_review q)) (rv_approval (qw_review q)) (row_request h t cur) cur
      availability (tw_created_at t) = Inr (Admit a)"
    and "tw_admission_ref t = ad_admission_ref a" and "tw_session_binding_ref t = freshness_authority_ref cur"
  using proto_invD(4) [OF assms] proto_invD(3) [OF assms(1)]
  unfolding attempt_backed_def admitted_on_def by (elim bexE conjE exE) (rule that; assumption?)

text \<open>C20. An attempt never exists without the authority it claims. In every database a run can reach, each attempt
  has a stored review of the same Bridge and correlation, whose Plan revision is sealed (the hash recorded in the
  attempt is the hash of its content) and whose approval names that very revision and does not expire before the
  attempt; and this Host admitted exactly the request the attempt records, at the time it records, with the
  admission reference it records.\<close>

theorem attempts_rest_on_sealed_review:
  assumes "reachable_db L h coordinated db" and "t \<in> set (db_attempts db)"
  shows "\<exists>q \<in> set (db_reviews db). \<exists>cur availability a.
    qw_bridge_id q = tw_bridge_id t \<and> qw_correlation_id q = tw_correlation_id t
    \<and> verify_sealed_revision L (rv_revision (qw_review q)) = Inr ()
    \<and> pr_revision_id (rv_revision (qw_review q)) = tw_revision_id t \<and> pr_revision_hash (rv_revision (qw_review q)) = tw_revision_hash t
    \<and> ap_approval_id (rv_approval (qw_review q)) = tw_approval_id t \<and> ap_revision_id (rv_approval (qw_review q)) = tw_revision_id t
    \<and> tw_expires_at t \<le> ap_expires_at (rv_approval (qw_review q))
    \<and> (\<exists>p \<in> set (db_approvals db). pw_approval p = rv_approval (qw_review q) \<and> pw_approval_id p = tw_approval_id t)
    \<and> evaluate_v2_with_availability L h (rv_revision (qw_review q)) (rv_approval (qw_review q)) (row_request h t cur) cur
        availability (tw_created_at t) = Inr (Admit a)
    \<and> tw_admission_ref t = ad_admission_ref a \<and> tw_session_binding_ref t = freshness_authority_ref cur"
proof -
  from attempt_backedE [OF reachable_proto_inv [OF assms(1)] assms(2)] show ?thesis
  proof cases
    case (1 q cur availability a)
    from 1(2) have q: "q = review_row (qw_review q)" "verify_sealed_revision L (rv_revision (qw_review q)) = Inr ()"
        "ap_revision_id (rv_approval (qw_review q)) = pr_revision_id (rv_revision (qw_review q))"
      and "\<exists>p \<in> set (db_approvals db). pw_approval_id p = qw_approval_id q \<and> pw_approval p = rv_approval (qw_review q)"
      unfolding review_backed_def by blast+
    moreover have "qw_approval_id q = tw_approval_id t" using 1(5) by (subst q(1)) simp
    ultimately show ?thesis using 1 by (intro bexI [of _ q] exI [of _ cur] exI [of _ availability] exI [of _ a]) auto
  qed
qed

section \<open>The order of claims\<close>

text \<open>C22. Work is claimed in the order of the Plan. In every reachable database, each claim is for a managed step of
  the Plan its attempt was admitted for, bound to the attempt's participant, and no other claim is for the same
  step of the attempt; and unless the attempt is coordinated elsewhere, for each dependency of the step there is
  a completed claim of the same attempt that was made before.\<close>

theorem claims_follow_dependencies:
  assumes "reachable_db L h coordinated db" and "db_claims db = before @ c # after"
  shows "(\<exists>t \<in> set (db_attempts db). \<exists>v \<in> set (db_revisions db). \<exists>s \<in> set (pr_steps (vw_revision v)).
      tw_attempt_id t = cw_attempt_id c \<and> vw_revision_id v = tw_revision_id t
      \<and> step_id s = cw_step_id c \<and> operation s = cw_operation c \<and> is_managed s \<and> binds_participant s (tw_target t)
      \<and> (\<not> coordinated (cw_attempt_id c) \<longrightarrow> (\<forall>d \<in> set (dependencies s). \<exists>c' \<in> set before.
           cw_attempt_id c' = cw_attempt_id c \<and> cw_step_id c' = d \<and> cw_state c' = ClaimCompleted)))
    \<and> (\<forall>c' \<in> set (before @ after). (cw_attempt_id c', cw_step_id c') \<noteq> (cw_attempt_id c, cw_step_id c))"
proof
  note D = proto_invD [OF reachable_proto_inv [OF assms(1)]]
  show "\<exists>t \<in> set (db_attempts db). \<exists>v \<in> set (db_revisions db). \<exists>s \<in> set (pr_steps (vw_revision v)).
      tw_attempt_id t = cw_attempt_id c \<and> vw_revision_id v = tw_revision_id t
      \<and> step_id s = cw_step_id c \<and> operation s = cw_operation c \<and> is_managed s \<and> binds_participant s (tw_target t)
      \<and> (\<not> coordinated (cw_attempt_id c) \<longrightarrow> (\<forall>d \<in> set (dependencies s). \<exists>c' \<in> set before.
           cw_attempt_id c' = cw_attempt_id c \<and> cw_step_id c' = d \<and> cw_state c' = ClaimCompleted))"
    using D(5) [OF assms(2)] unfolding claim_backed_def .
  have "distinct (map (\<lambda>c. (cw_attempt_id c, cw_step_id c)) (before @ c # after))"
    using D(1) unfolding keys_unique_def assms(2) by simp
  then show "\<forall>c' \<in> set (before @ after). (cw_attempt_id c', cw_step_id c') \<noteq> (cw_attempt_id c, cw_step_id c)"
    by (simp only: map_append list.map distinct_append distinct.simps set_append set_map list.set) (auto simp: image_iff)
qed

section \<open>A start message is used once\<close>

lemma accept_messages: "set (db_messages db) \<subseteq> set (db_messages
    (snd (accept_attempt_start_with_freshness L active h start captured current availability now db)))"
  by (cases rule: accept_cases [of L active h start captured current availability now db])
    (auto simp: claim_message_Inr split: if_splits)

lemma persist_review_messages [simp]: "db_messages (snd (persist_review rv now db)) = db_messages db"
  by (cases rule: persist_review_cases [of rv now db]) (simp_all add: with_review_def)

lemma step_messages:
  "proto_step L h coordinated l db db' \<Longrightarrow> m \<in> set (db_messages db) \<Longrightarrow> l \<noteq> Some (mw_bridge_id m) \<Longrightarrow> m \<in> set (db_messages db')"
proof (induction rule: proto_step.induct)
  case (step_start db active start captured current availability now)
  then show ?case using accept_messages by blast
qed (auto simp: record_review_def record_local_authority_snapshot_def reconcile_startup_def delete_bridge_records_def
    drop_orphans_def Let_def insert_claim_def mark_claim_failed_def interrupt_claim_for_run_def interrupt_claims_for_session_def
    interrupt_matching_attempts_def persist_transform_result_def persist_execute_result_def and_then_def split: sum.split)

definition keeps_bridge :: "lib \<Rightarrow> HostRef \<Rightarrow> (string \<Rightarrow> bool) \<Rightarrow> string \<Rightarrow> plan_db \<Rightarrow> plan_db \<Rightarrow> bool" where
  "keeps_bridge L h coordinated bridge db db' \<longleftrightarrow> (\<exists>l. l \<noteq> Some bridge \<and> proto_step L h coordinated l db db')"

lemma steps_messages:
  "rtranclp (keeps_bridge L h coordinated (mw_bridge_id m)) db db' \<Longrightarrow> m \<in> set (db_messages db) \<Longrightarrow> m \<in> set (db_messages db')"
  by (induction rule: rtranclp_induct) (auto simp: keeps_bridge_def intro: step_messages)

lemma claimed_message_blocks:
  assumes m: "m \<in> set (db_messages db)" and conflict: "message_conflict (message_row start now) m" and remote: "is_remote captured"
  shows "\<exists>e. accept_attempt_start_with_freshness L active h start captured current availability now db = (Inl e, db)"
proof (cases rule: accept_cases [of L active h start captured current availability now db])
  case (undone result db')
  with assms show ?thesis by (auto simp: claim_message_Inr)
next
  case (accepted review db' a)
  with assms show ?thesis by (auto simp: claim_message_Inr)
qed blast

lemma accepted_message_stored:
  assumes "accept_attempt_start_with_freshness L active h start captured current availability now db = (Inr d, db')"
    and "is_remote captured"
  shows "message_row start now \<in> set (db_messages db')"
  using assms by (cases rule: accept_cases [of L active h start captured current availability now db])
    (auto simp: claim_message_Inr)

text \<open>C21. A start message from another Host is used at most once. Once one has been answered, whether accepted or denied,
  and whatever reviews, starts, claims, results, interruptions, restarts and deletions of other Bridges follow, a
  later start on that Bridge with the same message id or the same nonce is refused with an error and changes
  nothing.\<close>

theorem start_message_used_once:
  assumes "accept_attempt_start_with_freshness L active h start captured current availability now db = (Inr d, db1)"
    and "is_remote captured"
    and "rtranclp (keeps_bridge L h coordinated (as_bridge_id start)) db1 db2"
    and "as_bridge_id start' = as_bridge_id start"
    and "as_message_id start' = as_message_id start \<or> as_request_nonce start' = as_request_nonce start"
    and "is_remote captured'"
  shows "\<exists>e. accept_attempt_start_with_freshness L active' h start' captured' current' availability' now' db2 = (Inl e, db2)"
proof (rule claimed_message_blocks [OF _ _ assms(6)])
  have "mw_bridge_id (message_row start now) = as_bridge_id start" by (simp add: message_row_def)
  with steps_messages [of L h coordinated "message_row start now"] assms(3) accepted_message_stored [OF assms(1,2)]
  show "message_row start now \<in> set (db_messages db2)" by simp
  show "message_conflict (message_row start' now') (message_row start now)"
    using assms(4,5) by (auto simp: message_conflict_def message_row_def)
qed

section \<open>An accepted attempt can go on\<close>

lemma find_key: "distinct (map f xs) \<Longrightarrow> x \<in> set xs \<Longrightarrow> f x = k \<Longrightarrow> find (\<lambda>y. f y = k) xs = Some x"
  by (induction xs) auto

lemma backed_attempt_found:
  assumes inv: "proto_inv L h coordinated db" and t: "t \<in> set (db_attempts db)" and q: "review_backed L db q"
    and ids: "ap_approval_id (rv_approval (qw_review q)) = tw_approval_id t" "pr_revision_id (rv_revision (qw_review q)) = tw_revision_id t"
  obtains a v where "find_attempt db (tw_attempt_id t) = Some (t, a, v)" and "pw_state a = ApprovalValid"
    and "pw_approval a = rv_approval (qw_review q)" and "vw_revision v = rv_revision (qw_review q)"
proof -
  note keys = keys_uniqueD [OF proto_invD(1) [OF inv]]
  from q have row: "q = review_row (qw_review q)" by (simp add: review_backed_def)
  have q_ids: "qw_approval_id q = tw_approval_id t" "qw_revision_id q = tw_revision_id t" using ids by (subst row, simp)+
  from q obtain a v where a: "a \<in> set (db_approvals db)" "pw_approval_id a = qw_approval_id q" "pw_state a = ApprovalValid"
      "pw_approval a = rv_approval (qw_review q)"
    and v: "v \<in> set (db_revisions db)" "vw_revision_id v = qw_revision_id q" "vw_revision v = rv_revision (qw_review q)"
    unfolding review_backed_def by blast
  have "find_attempt db (tw_attempt_id t) = Some (t, a, v)"
    using find_key [OF keys(3) t refl] find_key [OF keys(2) a(1,2)] find_key [OF keys(1) v(1,2)] q_ids
    by (simp add: find_attempt_def stored_attempt_def)
  with a v that show ?thesis by blast
qed

lemma conditions_later:
  assumes "admission_conditions L h r ap rq cur av now" and "now' < freshness_expires_at cur" and "now' < ap_expires_at ap"
  shows "admission_conditions L h r ap rq cur (verified_attachment h True True) now'"
  using assms by (simp add: admission_conditions_def verified_attachment_def split: StepOperation.split)

lemma admission_participant:
  assumes "admission_conditions L h r ap rq cur av now"
  shows "plan_legal L r" and "map_option pp_host_ref (participant_for_ref r (ar_participant_ref rq)) = Some h"
    and "\<exists>p. find (\<lambda>p. pp_participant_ref p = ar_participant_ref rq) (pr_participants r) = Some p"
proof -
  from assms have legal: "plan_legal L r"
    and mem: "\<lparr>pp_participant_ref = ar_participant_ref rq, pp_host_ref = h\<rparr> \<in> set (pr_participants r)"
    by (simp_all add: admission_conditions_def verify_sealed_Inr)
  show "plan_legal L r" by (rule legal)
  show "map_option pp_host_ref (participant_for_ref r (ar_participant_ref rq)) = Some h"
    using local_participant_iff [OF legal] mem by blast
  show "\<exists>p. find (\<lambda>p. pp_participant_ref p = ar_participant_ref rq) (pr_participants r) = Some p"
    using mem by (cases "find (\<lambda>p. pp_participant_ref p = ar_participant_ref rq) (pr_participants r)") (auto simp: find_None_iff)
qed

lemma ready_step_loads:
  assumes attempt: "find_attempt db (tw_attempt_id t) = Some (t, a, v)" and valid: "pw_state a = ApprovalValid" "tw_state t = AttemptStateAccepted"
    and ids: "ap_approval_id (pw_approval a) = tw_approval_id t" "pr_plan_id (vw_revision v) = tw_plan_id t"
      "pr_revision_id (vw_revision v) = tw_revision_id t" "pr_revision_hash (vw_revision v) = tw_revision_hash t"
      "tw_bridge_id t = pr_bridge_id (vw_revision v)"
    and adm: "admission_conditions L h (vw_revision v) (pw_approval a) (row_request h t cur) cur av made"
    and refs: "tw_admission_ref t = ad_admission_ref (the_admission L h (vw_revision v) (pw_approval a) (row_request h t cur) cur)"
      "tw_session_binding_ref t = freshness_authority_ref cur"
    and time: "now < tw_expires_at t" "now < freshness_expires_at cur" "tw_expires_at t \<le> ap_expires_at (pw_approval a)"
    and step: "s \<in> set (pr_steps (vw_revision v))" "is_managed s" "binds_participant s (tw_target t)"
    and deps: "\<forall>d \<in> set (dependencies s). dependency_complete coordinated committed db (tw_attempt_id t) d = Inr ()"
  shows "\<exists>source. load_claim_source L coordinated committed h (tw_attempt_id t) (step_id s) cur cur now db = Inr source
    \<and> cs_step source = s \<and> cs_revision source = vw_revision v \<and> cs_expires_at source = min (tw_expires_at t) (freshness_expires_at cur)"
proof -
  let ?r = "vw_revision v" and ?ap = "pw_approval a" and ?rq = "row_request h t cur"
  have cond: "admission_conditions L h ?r ?ap ?rq cur (verified_attachment h True True) now"
    by (rule conditions_later [OF adm]) (use time in auto)
  note part = admission_participant [OF adm]
  have req: "claim_request h (tw_attempt_id t) cur t ?ap ?r = ?rq" by (simp add: claim_request_def row_request_def ids)
  have eval: "evaluate_v2_with_availability L h ?r ?ap ?rq cur (verified_attachment h True True) now
      = Inr (Admit (the_admission L h ?r ?ap ?rq cur))"
    using cond by (simp add: evaluate_Admit)
  have fresh: "freshness_validate_current cur cur now = Inr ()" using time by (simp add: execution_freshness.validate_iff)
  have "distinct (map step_id (pr_steps ?r))" using part(1) steps_legal_ids by (auto simp: plan_legal_def)
  then have find: "find (\<lambda>x. step_id x = step_id s) (pr_steps ?r) = Some s" by (rule find_key [OF _ step(1) refl])
  have target: "ar_participant_ref ?rq = tw_target t" by (simp add: row_request_def)
  have ok: "\<not> attempt_mismatch h cur cur now t a v"
    using valid ids refs time adm by (auto simp: attempt_mismatch_def admission_conditions_def)
  have tried: "try_all (dependency_complete coordinated committed db (tw_attempt_id t)) (dependencies s) = Inr ()"
    using deps by (simp add: try_all_Inr)
  from part(3) obtain p where p: "find (\<lambda>p. pp_participant_ref p = tw_target t) (pr_participants ?r) = Some p"
    unfolding target by blast
  show ?thesis
    by (simp only: load_claim_source_def fresh attempt sum.case prod.case Let_def and_then_simps ok_or_simps ensure_True ok p
      part(2) [unfolded target] req eval admitted.simps option.map refs(1) [symmetric] find step(2,3) tried simp_thms
      sum.inject ex_simps ClaimSourceV1.select_convs)
qed

text \<open>C23. An accepted attempt is not stuck. In every reachable database, for each attempt that has not been interrupted there
  is the freshness it was admitted under (its authority reference is the one recorded, and it outlasts the admission) such that, until the attempt
  or that freshness expires, every managed step of its Plan bound to its participant whose dependencies are complete
  can be claimed: the claim finds its authority still valid, although admission is evaluated again, and the row is
  written unless the step was claimed before or a reference was used before.\<close>

theorem accepted_attempt_claimable:
  assumes "reachable_db L h coordinated db" and "t \<in> set (db_attempts db)" and "tw_state t = AttemptStateAccepted"
  shows "\<exists>q \<in> set (db_reviews db). \<exists>cur. qw_correlation_id q = tw_correlation_id t
    \<and> pr_revision_hash (rv_revision (qw_review q)) = tw_revision_hash t \<and> tw_session_binding_ref t = freshness_authority_ref cur
    \<and> tw_created_at t < freshness_expires_at cur
    \<and> (\<forall>now s committed context_ref envelope_ref run_ref.
        now < tw_expires_at t \<and> now < freshness_expires_at cur
        \<and> s \<in> set (pr_steps (rv_revision (qw_review q))) \<and> is_managed s \<and> binds_participant s (tw_target t)
        \<and> (\<forall>d \<in> set (dependencies s). dependency_complete coordinated committed db (tw_attempt_id t) d = Inr ())
        \<longrightarrow> (\<exists>source. load_claim_source L coordinated committed h (tw_attempt_id t) (step_id s) cur cur now db = Inr source
          \<and> cs_step source = s
          \<and> (fst (insert_claim (new_claim (tw_attempt_id t) (step_id s) (operation s) context_ref envelope_ref run_ref now) db) = Inr ()
             \<longleftrightarrow> (\<forall>c \<in> set (db_claims db). (cw_attempt_id c, cw_step_id c) \<noteq> (tw_attempt_id t, step_id s)
                   \<and> cw_context_ref c \<noteq> context_ref \<and> cw_envelope_ref c \<noteq> envelope_ref \<and> cw_run_control_ref c \<noteq> run_ref))))"
proof -
  note inv = reachable_proto_inv [OF assms(1)]
  have insert: "fst (insert_claim (new_claim (tw_attempt_id t) w op c e r now) db) = Inr () \<longleftrightarrow>
      (\<forall>x \<in> set (db_claims db). (cw_attempt_id x, cw_step_id x) \<noteq> (tw_attempt_id t, w)
         \<and> cw_context_ref x \<noteq> c \<and> cw_envelope_ref x \<noteq> e \<and> cw_run_control_ref x \<noteq> r)" for w op c e r now
    using assms(2) by (auto simp: insert_claim_def insert_row_def new_claim_def claim_conflict_def list_ex_iff)
  from attempt_backedE [OF inv assms(2)] show ?thesis
  proof cases
    case (1 q cur availability adm)
    from backed_attempt_found [OF inv assms(2) 1(2,5,7)] show ?thesis
    proof cases
      case found: (1 a v)
      have bridge: "tw_bridge_id t = pr_bridge_id (rv_revision (qw_review q))"
        using 1(2,3) unfolding review_backed_def by (metis review_row_fields(1))
      from 1(11) have conds: "admission_conditions L h (rv_revision (qw_review q)) (rv_approval (qw_review q)) (row_request h t cur) cur
          availability (tw_created_at t)" and adm: "adm = the_admission L h (rv_revision (qw_review q)) (rv_approval (qw_review q)) (row_request h t cur) cur"
        by (simp_all add: evaluate_Admit)
      note loads = ready_step_loads [OF found(1,2) assms(3), unfolded found(3,4), OF 1(5-8) bridge conds 1(12) [unfolded adm] 1(13) _ _ 1(10)]
      from conds have open_window: "tw_created_at t < freshness_expires_at cur" by (simp add: admission_conditions_def)
      show ?thesis unfolding insert
      proof (intro bexI [of _ q] exI [of _ cur] conjI allI impI)
        fix now s committed
        assume "now < tw_expires_at t \<and> now < freshness_expires_at cur
          \<and> s \<in> set (pr_steps (rv_revision (qw_review q))) \<and> is_managed s \<and> binds_participant s (tw_target t)
          \<and> (\<forall>d \<in> set (dependencies s). dependency_complete coordinated committed db (tw_attempt_id t) d = Inr ())"
        with loads [of now s coordinated committed]
        obtain source where "load_claim_source L coordinated committed h (tw_attempt_id t) (step_id s) cur cur now db = Inr source"
          "cs_step source = s" by auto
        then show "\<exists>source. load_claim_source L coordinated committed h (tw_attempt_id t) (step_id s) cur cur now db = Inr source
          \<and> cs_step source = s \<and> Q = Q" for Q by simp
      qed (simp_all only: 1 open_window)
    qed
  qed
qed

section \<open>A run\<close>

text \<open>Host A asks Host B to change an object that lies at B and to execute the result. B stores the review, accepts the
  start, claims the Transform, completes it, and claims the Execute.\<close>

definition run_t1 :: PlanStepV2 where "run_t1 = TransformStep ''s1'' [] (ex_ref ''B'') (ex_obj ''o'' 1) (ex_obj ''o'' 2) ''edit''"
definition run_t2 :: PlanStepV2 where "run_t2 = ExecuteStep ''s2'' [''s1''] (ex_ref ''B'') (ex_obj ''o'' 2) ''run''"

definition run_plan :: PlanRevisionV2 where
  "run_plan = ex_plan\<lparr>pr_roots := [\<lparr>rt_root_id = ''q'', rt_object = ex_obj ''o'' 1, rt_host = ex_ref ''B''\<rparr>], pr_steps := [run_t1, run_t2]\<rparr>"

definition run_sealed :: PlanRevisionV2 where
  "run_sealed = run_plan\<lparr>pr_revision_hash := HASH_VERSION @ '':'' @ blake3_hex plain_lib (revision_hash_message plain_lib run_plan)\<rparr>"

lemmas run_steps = run_t1_def run_t2_def ex_obj_def

lemma run_plan_legal: "plan_legal plain_lib run_plan"
proof -
  let ?refs = "{ex_ref ''A'', ex_ref ''B''}"
  have ids: "2 \<le> MAX_ID_LEN" by (simp add: MAX_ID_LEN_def)
  have parts: "participants_legal plain_lib (pr_plan_id run_plan) (pr_participants run_plan)"
    using ex_participants by (simp add: run_plan_def ex_plan_def)
  have refs: "pp_participant_ref ` set (pr_participants run_plan) = ?refs" by (simp add: run_plan_def ex_plan_def)
  have "steps_legal ?refs (pr_roots run_plan) ([] @ [run_t1] @ [run_t2])"
    unfolding append_assoc [symmetric] steps_legal_snoc
    by (simp add: steps_legal_def step_legal_def run_steps last_writer_def writes_def written_state_def root_state_def run_plan_def
      consumes_ok_def state_of_def object_ok_def MAX_DEPENDENCIES_def bounded_text_words bounded_text_examples [OF _ ids])
  then have steps: "steps_legal ?refs (pr_roots run_plan) (pr_steps run_plan)" by (simp add: run_plan_def)
  have roots: "roots_legal ?refs (pr_roots run_plan)"
    by (simp add: run_plan_def roots_legal_def object_ok_def ex_obj_def bounded_text_examples [OF _ ids])
  show ?thesis
    unfolding plan_legal_def refs using steps roots parts bounded_text_examples [OF _ ids] bounded_text_words
    by (simp add: run_plan_def ex_plan_def MAX_PARTICIPANTS_def MAX_ROOTS_def MAX_STEPS_def)
qed

lemma run_sealed_verifies: "verify_sealed_revision plain_lib run_sealed = Inr ()"
  using run_plan_legal
  by (simp add: verify_sealed_Inr run_sealed_def plan_legal_ignores_hash revision_hash_message_def semantic_revision_ignores_hash)

lemma run_sealed_fields [simp]:
  "pr_plan_id run_sealed = ''p''" "pr_revision_id run_sealed = ''r''" "pr_bridge_id run_sealed = ''b''" "pr_requester run_sealed = ex_ref ''A''"
  "pr_participants run_sealed = [\<lparr>pp_participant_ref = ex_ref ''A'', pp_host_ref = ''A''\<rparr>, \<lparr>pp_participant_ref = ex_ref ''B'', pp_host_ref = ''B''\<rparr>]"
  "pr_steps run_sealed = [run_t1, run_t2]"
  by (simp_all add: run_sealed_def run_plan_def ex_plan_def)

definition run_review :: ReviewRequestV2 where
  "run_review = \<lparr>rv_protocol_version = PROTOCOL_VERSION, rv_message_id = ''s1'', rv_correlation_id = ''s3'', rv_request_nonce = ''s4'',
     rv_sender = ex_ref ''A'', rv_target = ex_ref ''B'',
     rv_approval = ex_approval\<lparr>ap_approval_id := ''q'', ap_revision_hash := pr_revision_hash run_sealed\<rparr>, rv_revision = run_sealed\<rparr>"

definition run_start :: AttemptStartV2 where
  "run_start = \<lparr>as_protocol_version = PROTOCOL_VERSION, as_message_id = ''s2'', as_correlation_id = ''s3'', as_request_nonce = ''s4'',
     as_attempt_id = ''s5'', as_approval_id = ''q'', as_plan_id = ''p'', as_revision_id = ''r'', as_revision_hash = pr_revision_hash run_sealed,
     as_bridge_id = ''b'', as_sender = ex_ref ''A'', as_target = ex_ref ''B'', as_expires_at = 40\<rparr>"

abbreviation run_fresh :: HostExecutionFreshness where "run_fresh \<equiv> RemoteFreshness ex_binding"

definition run_admission :: HostAdmission where
  "run_admission = the_admission plain_lib ''B'' run_sealed (rv_approval run_review) (start_request run_start run_fresh) run_fresh"

definition run_db1 :: plan_db where "run_db1 = with_review run_review 10 empty_db"
definition run_db2 :: plan_db where
  "run_db2 = run_db1\<lparr>db_messages := [message_row run_start 20], db_attempts := [attempt_row run_start run_fresh run_admission 20]\<rparr>"

lemma run_reviewed: "record_review plain_lib (\<lambda>_. True) run_review ex_binding 10 empty_db = (Inr (), run_db1)"
proof -
  have ids: "2 \<le> MAX_ID_LEN" by (simp add: MAX_ID_LEN_def)
  have "validate_remote_review plain_lib run_review 10 = Inr ()"
    by (simp add: validate_remote_review_def validate_review_common_def validate_approval_def run_review_def ex_approval_def
      run_sealed_verifies check_id_def bounded_text_examples [OF _ ids] MAX_LIFETIME_def participant_for_ref_def)
  moreover have "validate_review_binding run_review ex_binding 10 = Inr ()"
    by (simp add: validate_review_binding_def run_review_def ex_binding_def participant_for_ref_def)
  moreover have "persist_review run_review 10 empty_db = (Inr (), run_db1)"
    by (simp add: persist_review_def insert_row_def empty_db_def run_db1_def with_review_def revision_row_def approval_row_def
      run_review_def ex_approval_def Let_def)
  ultimately show ?thesis by (simp add: record_review_def ensure_active_bridge_def)
qed

lemma run_conditions:
  "admission_conditions plain_lib ''B'' run_sealed (rv_approval run_review) (start_request run_start run_fresh) run_fresh
     (verified_attachment ''B'' True True) 20"
proof -
  have "trim ''s5'' \<noteq> []" "trim ''s3'' \<noteq> []" by (simp_all add: trim_def ws1_def ws2_def ws3_def)
  then show ?thesis unfolding admission_conditions_def
    by (simp add: start_request_def run_start_def ex_binding_def run_review_def ex_approval_def run_sealed_verifies local_steps_def)
      (simp add: run_steps verified_attachment_def)
qed

lemma run_accepted:
  "accept_attempt_start_with_freshness plain_lib (\<lambda>_. True) ''B'' run_start run_fresh run_fresh (verified_attachment ''B'' True True) 20 run_db1
   = (Inr (AttemptAccepted \<lparr>aa_attempt_id = ''s5'', aa_admission_ref = ad_admission_ref run_admission\<rparr>), run_db2)"
proof -
  have ids: "2 \<le> MAX_ID_LEN" by (simp add: MAX_ID_LEN_def)
  have "validate_attempt_start run_start 20 = Inr ()"
    by (simp add: validate_attempt_start_def run_start_def check_id_def bounded_text_examples [OF _ ids] MAX_LIFETIME_def)
  then have check: "check_start (\<lambda>_. True) run_start 20 run_db1 = Inr run_review"
    by (simp add: check_start_def ensure_active_bridge_def stored_review_def find_review_def run_db1_def with_review_def empty_db_def
      revision_row_def approval_row_def Let_def)
      (simp add: run_start_def run_review_def ex_approval_def start_mismatch_def)
  have claim: "claim_message run_fresh run_start 20 run_db1 = Inr (run_db1\<lparr>db_messages := [message_row run_start 20]\<rparr>)"
    by (simp add: claim_message_def is_remote_def insert_row_def run_db1_def with_review_def empty_db_def)
  have eval: "evaluate_v2_with_availability plain_lib ''B'' (rv_revision run_review) (rv_approval run_review) (start_request run_start run_fresh)
      run_fresh (verified_attachment ''B'' True True) 20 = Inr (Admit run_admission)"
    using run_conditions by (simp add: evaluate_Admit run_admission_def) (simp add: run_review_def)
  have "insert_row attempt_conflict (as_approval_id run_start \<in> pw_approval_id ` set (db_approvals run_db1))
      (attempt_row run_start run_fresh run_admission 20) (db_attempts run_db1) = Inr [attempt_row run_start run_fresh run_admission 20]"
    by (simp add: insert_row_def run_db1_def with_review_def empty_db_def approval_row_def Let_def)
      (simp add: run_start_def run_review_def ex_approval_def)
  with check claim eval show ?thesis
    by (simp add: accept_attempt_start_with_freshness_def run_db2_def) (simp add: run_start_def)
qed

lemma run_db2_reachable: "reachable_db plain_lib ''B'' (\<lambda>_. False) run_db2"
proof -
  have "reachable_db plain_lib ''B'' (\<lambda>_. False) run_db1"
    using reachable_step [OF reachable_init step_review] run_reviewed by (metis snd_conv)
  then show ?thesis using reachable_step [OF _ step_start] run_accepted by (metis snd_conv)
qed

abbreviation run_attempt :: AttemptRow where "run_attempt \<equiv> attempt_row run_start run_fresh run_admission 20"

lemma run_attempt_stored: "run_attempt \<in> set (db_attempts run_db2)"
  by (simp add: run_db2_def)

lemma run_attempt_fields [simp]:
  "tw_attempt_id run_attempt = ''s5''" "tw_target run_attempt = ex_ref ''B''" "tw_expires_at run_attempt = 40"
  "tw_state run_attempt = AttemptStateAccepted" "tw_correlation_id run_attempt = ''s3''" "tw_bridge_id run_attempt = ''b''"
  "tw_approval_id run_attempt = ''q''" "tw_revision_id run_attempt = ''r''" "tw_session_binding_ref run_attempt = ''sb''"
  by (simp_all add: attempt_row_def run_start_def ex_binding_def)

lemma run_db2_tables:
  "db_reviews run_db2 = [review_row run_review]" "db_approvals run_db2 = [approval_row run_review 10]"
  "db_revisions run_db2 = [revision_row run_review 10]" "db_attempts run_db2 = [run_attempt]" "db_claims run_db2 = []"
  "db_transform_results run_db2 = []" "db_messages run_db2 = [message_row run_start 20]"
  by (simp_all add: run_db2_def run_db1_def with_review_def empty_db_def)

theorem attempts_rest_on_sealed_review_witness:
  "reachable_db plain_lib ''B'' (\<lambda>_. False) run_db2 \<and> (\<exists>cur availability a.
     evaluate_v2_with_availability plain_lib ''B'' run_sealed (rv_approval run_review) (row_request ''B'' run_attempt cur) cur
       availability 20 = Inr (Admit a) \<and> tw_admission_ref run_attempt = ad_admission_ref a)"
proof -
  have "tw_created_at run_attempt = 20" "rv_revision run_review = run_sealed" by (simp_all add: attempt_row_def run_review_def)
  with attempts_rest_on_sealed_review [OF run_db2_reachable run_attempt_stored]
  have "\<exists>cur availability a.
     evaluate_v2_with_availability plain_lib ''B'' run_sealed (rv_approval run_review) (row_request ''B'' run_attempt cur) cur
       availability 20 = Inr (Admit a) \<and> tw_admission_ref run_attempt = ad_admission_ref a"
    unfolding run_db2_tables by auto
  with run_db2_reachable show ?thesis by blast
qed

theorem start_message_used_once_witness:
  "\<exists>e. accept_attempt_start_with_freshness plain_lib (\<lambda>_. True) ''B'' (run_start\<lparr>as_message_id := ''other'', as_attempt_id := ''again''\<rparr>)
     run_fresh run_fresh (verified_attachment ''B'' True True) 21 run_db2 = (Inl e, run_db2)"
  by (rule start_message_used_once [OF run_accepted, of "\<lambda>_. False"]) (simp_all add: is_remote_def run_start_def)

text \<open>The two steps of the run, and its completion.\<close>

definition run_claim1 :: ClaimRow where "run_claim1 = new_claim ''s5'' ''s1'' OpTransform ''c1'' ''e1'' ''r1'' 21"
definition run_claim2 :: ClaimRow where "run_claim2 = new_claim ''s5'' ''s2'' OpExecute ''c2'' ''e2'' ''r2'' 23"

definition run_result :: TransformResultRow where
  "run_result = \<lparr>rw_attempt_id = ''s5'', rw_step_id = ''s1'', rw_logical_object_id = ''o'', rw_input_revision = 1, rw_output_revision = 2,
     rw_host_ref = ''B'', rw_content_digest = ''d'', rw_seal_ref = ''seal'', rw_evidence_head = ''ev'', rw_completed_at = 22\<rparr>"

definition run_done1 :: ClaimRow where
  "run_done1 = run_claim1\<lparr>cw_state := ClaimCompleted, cw_evidence_head := Some ''ev'', cw_completed_at := Some 22\<rparr>"

definition run_db3 :: plan_db where "run_db3 = run_db2\<lparr>db_claims := [run_claim1]\<rparr>"
definition run_db4 :: plan_db where "run_db4 = run_db2\<lparr>db_claims := [run_done1], db_transform_results := [run_result]\<rparr>"
definition run_db5 :: plan_db where "run_db5 = run_db4\<lparr>db_claims := [run_done1, run_claim2]\<rparr>"

lemma run_attempt_found: "find_attempt db ''s5'' = Some (run_attempt, approval_row run_review 10, revision_row run_review 10)"
  if "db_attempts db = [run_attempt]" "db_approvals db = [approval_row run_review 10]" "db_revisions db = [revision_row run_review 10]"
  by (simp add: that find_attempt_def stored_attempt_def)
    (simp add: approval_row_def revision_row_def run_review_def ex_approval_def Let_def)

lemma run_loads:
  assumes "db_attempts db = [run_attempt]" "db_approvals db = [approval_row run_review 10]" "db_revisions db = [revision_row run_review 10]"
    and "s \<in> {run_t1, run_t2}" and "\<forall>d \<in> set (dependencies s). claim_completed db ''s5'' d" and "now < 40"
  shows "\<exists>source. load_claim_source plain_lib (\<lambda>_. False) committed ''B'' ''s5'' (step_id s) run_fresh run_fresh now db = Inr source \<and> cs_step source = s"
proof -
  have rows: "pw_state (approval_row run_review 10) = ApprovalValid" "pw_approval (approval_row run_review 10) = rv_approval run_review"
    "vw_revision (revision_row run_review 10) = run_sealed"
    by (simp_all add: approval_row_def revision_row_def run_review_def Let_def)
  have approval: "ap_approval_id (rv_approval run_review) = ''q''" "ap_expires_at (rv_approval run_review) = 50"
    by (simp_all add: run_review_def ex_approval_def)
  have req: "row_request ''B'' run_attempt run_fresh = start_request run_start run_fresh"
    by (rule row_request_attempt_row) (simp add: ex_binding_def)
  have "\<exists>source. load_claim_source plain_lib (\<lambda>_. False) committed ''B'' (tw_attempt_id run_attempt) (step_id s) run_fresh run_fresh now db = Inr source
    \<and> cs_step source = s \<and> cs_revision source = vw_revision (revision_row run_review 10)
    \<and> cs_expires_at source = min (tw_expires_at run_attempt) (freshness_expires_at run_fresh)"
  proof (rule ready_step_loads)
    show "find_attempt db (tw_attempt_id run_attempt) = Some (run_attempt, approval_row run_review 10, revision_row run_review 10)"
      using run_attempt_found [OF assms(1-3)] by simp
    show "admission_conditions plain_lib ''B'' (vw_revision (revision_row run_review 10)) (pw_approval (approval_row run_review 10))
        (row_request ''B'' run_attempt run_fresh) run_fresh (verified_attachment ''B'' True True) 20"
      unfolding rows req by (rule run_conditions)
    show "tw_admission_ref run_attempt = ad_admission_ref (the_admission plain_lib ''B'' (vw_revision (revision_row run_review 10))
        (pw_approval (approval_row run_review 10)) (row_request ''B'' run_attempt run_fresh) run_fresh)"
      unfolding rows req run_admission_def [symmetric] by (simp add: attempt_row_def)
    show "\<forall>d \<in> set (dependencies s). dependency_complete (\<lambda>_. False) committed db (tw_attempt_id run_attempt) d = Inr ()"
      using assms(5) by (simp add: dependency_complete_def)
    show "is_managed s" "binds_participant s (tw_target run_attempt)" "s \<in> set (pr_steps (vw_revision (revision_row run_review 10)))"
      using assms(4) by (auto simp: rows run_t1_def run_t2_def is_managed_def)
  qed (use assms(6) in \<open>simp_all add: rows approval attempt_row_def run_start_def ex_binding_def\<close>)
  then show ?thesis by auto
qed

lemmas run_rows = run_claim1_def run_claim2_def run_done1_def run_result_def new_claim_def

lemma run_db5_reachable: "reachable_db plain_lib ''B'' (\<lambda>_. False) run_db5"
proof -
  let ?R = "reachable_db plain_lib ''B'' (\<lambda>_. False)"
  obtain src1 where src1: "load_claim_source plain_lib (\<lambda>_. False) (\<lambda>_ _. Inr True) ''B'' ''s5'' ''s1'' run_fresh run_fresh 21 run_db2 = Inr src1"
      "cs_step src1 = run_t1"
    using run_loads [of run_db2 run_t1 21] by (auto simp: run_db2_tables run_t1_def)
  have "snd (insert_claim run_claim1 run_db2) = run_db3"
    by (simp add: insert_claim_def insert_row_def run_db3_def run_db2_tables) (simp add: run_rows)
  then have r3: "?R run_db3"
    using reachable_step [OF run_db2_reachable step_claim [OF src1(1), of "''c1''" "''e1''" "''r1''"]] src1(2)
    by (simp add: run_claim1_def run_t1_def)
  obtain comp where "load_completion_source ''B'' ''s5'' ''s1'' ''c1'' ''e1'' ''r1'' run_fresh 22 run_db3 = Inr comp"
  proof -
    have "find_claim run_db3 ''s5'' ''s1'' ''c1'' ''e1'' ''r1'' = Some (run_claim1, run_attempt, approval_row run_review 10, revision_row run_review 10)"
      using run_attempt_found [of run_db3] by (simp add: find_claim_def run_db3_def run_db2_tables) (simp add: run_rows)
    then have "\<exists>comp. load_completion_source ''B'' ''s5'' ''s1'' ''c1'' ''e1'' ''r1'' run_fresh 22 run_db3 = Inr comp"
      by (simp add: load_completion_source_def completion_mismatch_def participant_for_ref_def)
        (simp add: run_rows run_review_def approval_row_def revision_row_def Let_def ex_binding_def run_steps)
    with that show ?thesis by blast
  qed
  moreover have "snd (persist_transform_result run_result run_db3) = run_db4"
    by (simp add: persist_transform_result_def insert_row_def run_db3_def run_db4_def run_db2_tables complete_claims_def claim_open_def
      sql_u64_def run_rows)
  ultimately have r4: "?R run_db4"
    using reachable_step [OF r3 step_transform_result, of run_result] by (simp add: run_result_def)
  have "claim_completed run_db4 ''s5'' ''s1''" by (simp add: claim_completed_def run_db4_def run_rows)
  then obtain src2 where src2: "load_claim_source plain_lib (\<lambda>_. False) (\<lambda>_ _. Inr True) ''B'' ''s5'' ''s2'' run_fresh run_fresh 23 run_db4 = Inr src2"
      "cs_step src2 = run_t2"
    using run_loads [of run_db4 run_t2 23] by (auto simp: run_db4_def run_db2_tables run_t2_def)
  have "snd (insert_claim run_claim2 run_db4) = run_db5"
    by (simp add: insert_claim_def insert_row_def run_db4_def run_db5_def run_db2_tables) (simp add: run_rows claim_conflict_def)
  then show ?thesis
    using reachable_step [OF r4 step_claim [OF src2(1), of "''c2''" "''e2''" "''r2''"]] src2(2)
    by (simp add: run_claim2_def run_t2_def)
qed

theorem claims_follow_dependencies_witness:
  "db_claims run_db5 = [run_done1, run_claim2]
   \<and> (\<exists>v \<in> set (db_revisions run_db5). \<exists>s \<in> set (pr_steps (vw_revision v)). step_id s = ''s2''
        \<and> (\<forall>d \<in> set (dependencies s). \<exists>c' \<in> set [run_done1]. cw_step_id c' = d \<and> cw_state c' = ClaimCompleted))"
proof
  show claims: "db_claims run_db5 = [run_done1, run_claim2]" by (simp add: run_db5_def)
  then have "db_claims run_db5 = [run_done1] @ run_claim2 # []" by simp
  note order = claims_follow_dependencies [OF run_db5_reachable this, THEN conjunct1]
  have ids: "cw_step_id run_claim2 = ''s2''" "cw_attempt_id run_claim2 = ''s5''" by (simp_all add: run_rows)
  show "\<exists>v \<in> set (db_revisions run_db5). \<exists>s \<in> set (pr_steps (vw_revision v)). step_id s = ''s2''
        \<and> (\<forall>d \<in> set (dependencies s). \<exists>c' \<in> set [run_done1]. cw_step_id c' = d \<and> cw_state c' = ClaimCompleted)"
    using order [unfolded ids] by blast
qed

theorem accepted_attempt_claimable_witness:
  "\<exists>cur source. load_claim_source plain_lib (\<lambda>_. False) (\<lambda>_ _. Inr True) ''B'' ''s5'' ''s1'' cur cur 20 run_db2 = Inr source
     \<and> cs_step source = run_t1"
proof -
  have made: "tw_created_at run_attempt = 20" by (simp add: attempt_row_def)
  obtain q cur where q: "q \<in> set (db_reviews run_db2)" and window: "tw_created_at run_attempt < freshness_expires_at cur"
    and claim: "\<And>now s committed. now < tw_expires_at run_attempt \<and> now < freshness_expires_at cur
        \<and> s \<in> set (pr_steps (rv_revision (qw_review q))) \<and> is_managed s \<and> binds_participant s (tw_target run_attempt)
        \<and> (\<forall>d \<in> set (dependencies s). dependency_complete (\<lambda>_. False) committed run_db2 (tw_attempt_id run_attempt) d = Inr ())
        \<Longrightarrow> \<exists>source. load_claim_source plain_lib (\<lambda>_. False) committed ''B'' (tw_attempt_id run_attempt) (step_id s) cur cur now run_db2 = Inr source
          \<and> cs_step source = s"
    using accepted_attempt_claimable [OF run_db2_reachable run_attempt_stored run_attempt_fields(4)] by metis
  have s: "run_t1 \<in> set (pr_steps (rv_revision (qw_review q)))" "is_managed run_t1" "binds_participant run_t1 (ex_ref ''B'')"
      "dependencies run_t1 = []" "step_id run_t1 = ''s1''"
    using q by (simp_all add: run_db2_tables run_review_def run_t1_def is_managed_def)
  show ?thesis using claim [of 20 run_t1 "\<lambda>_ _. Inr True"] s window made by auto
qed

end
