(* ===== verification/Execution_Steps.thy ===== *)
theory Execution_Steps
  imports Managed_Execution Protocol_Properties
begin

text \<open>
  The ways a claim and a finalization of \<open>Managed_Execution\<close> can end, as case rules over the whole Host: what a refused claim
  leaves, what a successful one adds, and what a finalized step rests on. \<open>Execution_Properties\<close> states the properties.
\<close>

section \<open>The run of a claim\<close>

lemma begin_run_keeps:
  "begin_run L context st = (result, st') \<Longrightarrow> st_runs st' = st_runs st \<and> st_envelopes st' = st_envelopes st \<and> st_resources st' = st_resources st"
  by (auto simp: begin_run_def split: sum.splits option.splits)

lemma begin_run_Inr:
  "begin_run L context st = (Inr draft, st') \<Longrightarrow> dr_context draft = context
     \<and> AuthorityContextV1_context_ref L context = Inr (dr_context_ref draft) \<and> ctx_issued_at context < ctx_expires_at context"
  by (auto simp: begin_run_def AuthorityContextV1_context_ref_def AuthorityContextV1_validate_def res_simps split: sum.splits option.splits)

lemma mint_keeps:
  "mint_resource_grant L draft spec st = (result, st') \<Longrightarrow> st_runs st' = st_runs st \<and> st_envelopes st' = st_envelopes st \<and> st_resources st' = st_resources st"
  by (auto simp: mint_resource_grant_def split: sum.splits option.splits)

lemma mint_if_keeps:
  "mint_if L draft spec st = (result, st') \<Longrightarrow> st_runs st' = st_runs st \<and> st_envelopes st' = st_envelopes st \<and> st_resources st' = st_resources st"
  by (auto simp: mint_if_def split: option.splits prod.splits dest: mint_keeps)

lemma mint_grants_keeps:
  assumes "mint_grants L draft i out s x st = (result, st')"
  shows "st_runs st' = st_runs st \<and> st_envelopes st' = st_envelopes st \<and> st_resources st' = st_resources st"
proof -
  obtain r1 s1 where 1: "mint_resource_grant L draft i st = (r1, s1)" by fastforce
  obtain r2 s2 where 2: "mint_if L draft out s1 = (r2, s2)" by fastforce
  obtain r3 s3 where 3: "mint_if L draft s s2 = (r3, s3)" by fastforce
  obtain r4 s4 where 4: "mint_if L draft x s3 = (r4, s4)" by fastforce
  from assms 1 2 3 4 have "st' \<in> {s1, s2, s3, s4}" by (auto simp: mint_grants_def split: sum.splits)
  with mint_keeps [OF 1] mint_if_keeps [OF 2] mint_if_keeps [OF 3] mint_if_keeps [OF 4] show ?thesis by auto
qed

text \<open>The envelope of a claim: its four ceilings differ in their snapshots only.\<close>

lemma claim_envelope_fields:
  assumes "claim_envelope L request P source context output_revision draft grants = Inr envelope"
    and "ctx_expires_at context = cs_expires_at source"
  shows "ev_context envelope = context" "ev_run_control_ref envelope = dr_run_control_ref draft" "ev_network envelope = NetDenied"
    "ev_budgets envelope = step_budgets" "ev_expires_at envelope = cs_expires_at source"
    "AuthorityContextV1_context_ref L context = Inr (ev_context_ref envelope)"
    "claim_contract L (cs_step source) context output_revision grants = Inr (ev_result_contract envelope)"
proof -
  let ?identity = "world_identity request P"
  let ?base = "\<lambda>world_ref. claim_ceiling draft (cs_expires_at source) (cr_process_world request \<noteq> None) grants world_ref ?identity"
  let ?q = "\<lambda>world_ref contract. \<lparr>cq_context = context, cq_run_control_ref = dr_run_control_ref draft,
        cq_semantic_ceiling = ?base world_ref ''phase5-v2-semantic-ceiling-v1'', cq_admission_ceiling = ?base world_ref (cs_admission_ref source),
        cq_host_policy_ceiling = ?base world_ref HOST_POLICY_SNAPSHOT, cq_confinement_ceiling = ?base world_ref ?identity,
        cq_host_policy_snapshot_ref = HOST_POLICY_SNAPSHOT, cq_result_contract = contract\<rparr>"
  from assms(1) obtain world_ref contract where c: "claim_contract L (cs_step source) context output_revision grants = Inr contract"
    and e: "compile_effect_envelope L (?q world_ref contract) = Inr envelope"
    by (auto simp: claim_envelope_def Let_def res_simps)
  from e [unfolded compile_effect_envelope_iff] obtain r resources world network
    where r: "AuthorityContextV1_context_ref L context = Inr r" and n: "network = NetDenied"
    and env: "envelope = built_envelope L (?q world_ref contract) r resources world network"
    by (auto simp: intersect_network_def ceilings_of_def claim_ceiling_def network_grant_def)
  show "ev_context envelope = context" "ev_run_control_ref envelope = dr_run_control_ref draft" "ev_network envelope = NetDenied"
    "ev_budgets envelope = step_budgets" "ev_expires_at envelope = cs_expires_at source"
    "AuthorityContextV1_context_ref L context = Inr (ev_context_ref envelope)"
    "claim_contract L (cs_step source) context output_revision grants = Inr (ev_result_contract envelope)"
    by (simp_all add: env built_envelope_def Let_def ceilings_of_def claim_ceiling_def n r c assms(2))
qed

lemma install_cases:
  assumes "install_envelope L draft envelope st = (result, st')"
  obtains (refused) e where "result = Inl e" "st' = st"
  | (installed) "result = Inr ()" "hm_get (st_runs st) (ev_run_control_ref envelope) = None"
      "st_envelopes st' = hm_insert (ev_envelope_ref envelope) envelope (st_envelopes st)"
      "st_runs st' = hm_insert (ev_run_control_ref envelope) \<lparr>mr_contract_version = EFFECT_AUTHORITY_VERSION,
         mr_run_control_ref = ev_run_control_ref envelope, mr_context_ref = ev_context_ref envelope, mr_envelope_ref = ev_envelope_ref envelope,
         mr_state = Created, mr_next_request_sequence = 0, mr_cumulative_budget_debits = budgets_default,
         mr_expires_at = ev_expires_at envelope\<rparr> (st_runs st)"
proof (cases result)
  case (Inl e)
  with assms have "st' = st" by (simp add: install_envelope_def split: if_splits)
  with Inl show thesis by (rule refused)
next
  case (Inr u)
  with assms have "\<not> hm_contains (st_runs st) (ev_run_control_ref envelope)"
    and "st' = st\<lparr>st_resources := foldl (\<lambda>m grant. hm_insert (rg_handle_ref grant)
            \<lparr>rr_grant = grant, rr_envelope_ref = ev_envelope_ref envelope, rr_revoked = False\<rparr> m)
          (st_resources st) (ev_resources envelope),
        st_runs := hm_insert (ev_run_control_ref envelope) \<lparr>mr_contract_version = EFFECT_AUTHORITY_VERSION,
         mr_run_control_ref = ev_run_control_ref envelope, mr_context_ref = ev_context_ref envelope, mr_envelope_ref = ev_envelope_ref envelope,
         mr_state = Created, mr_next_request_sequence = 0, mr_cumulative_budget_debits = budgets_default,
         mr_expires_at = ev_expires_at envelope\<rparr> (st_runs st),
        st_envelopes := hm_insert (ev_envelope_ref envelope) envelope (st_envelopes st)\<rparr>"
    by (simp_all add: install_envelope_def split: if_splits)
  with Inr show thesis by (intro installed) (simp_all add: hm_contains_iff)
qed

text \<open>The control record of a run that a claim activates.\<close>

definition active_run :: "EffectEnvelopeV1 \<Rightarrow> ManagedRunControlV1" where
  "active_run envelope = \<lparr>mr_contract_version = EFFECT_AUTHORITY_VERSION, mr_run_control_ref = ev_run_control_ref envelope,
     mr_context_ref = ev_context_ref envelope, mr_envelope_ref = ev_envelope_ref envelope, mr_state = Active,
     mr_next_request_sequence = 0, mr_cumulative_budget_debits = budgets_default, mr_expires_at = ev_expires_at envelope\<rparr>"

lemma revoke_run_gone:
  assumes "hm_get (st_runs (snd (revoke_run r st))) r' = Some run" and "run_live (mr_state run)"
  shows "r' \<noteq> r \<and> hm_get (st_runs st) r' = Some run"
proof (cases "hm_get (st_runs st) r")
  case None
  with assms show ?thesis by (auto simp: revoke_run_def run_mut_def)
next
  case (Some old)
  with assms show ?thesis
    by (auto simp: revoke_run_def run_mut_def set_run_state_def revoke_run_resources_def hmap_simps run_terminal_def run_live_def split: if_splits)
qed

lemma claim_run_cases:
  assumes "claim_run L W host request source context output_revision identity artifact st = (result, st')"
    and "ctx_expires_at context = cs_expires_at source" and "ctx_issued_at context = cr_now request"
  obtains (refused) e where "result = Inl e"
      "\<And>r run. hm_get (st_runs st') r = Some run \<Longrightarrow> run_live (mr_state run) \<Longrightarrow> hm_get (st_runs st) r = Some run"
  | (active) grants envelope draft where "result = Inr (grants, envelope)"
      "claim_envelope L request (cl_platform W) source context output_revision draft grants = Inr envelope"
      "hm_get (st_runs st) (ev_run_control_ref envelope) = None"
      "hm_get (st_runs st') = (hm_get (st_runs st))(ev_run_control_ref envelope \<mapsto> active_run envelope)"
      "hm_get (st_envelopes st') (ev_envelope_ref envelope) = Some envelope"
proof -
  obtain begun s1 where b: "begin_run L context st = (begun, s1)" by fastforce
  note b' = begin_run_keeps [OF b]
  show thesis
  proof (cases begun)
    case (Inl e)
    with assms(1) b b' show thesis by (intro refused) (auto simp: claim_run_def)
  next
    case (Inr draft)
    from begin_run_Inr [OF b [unfolded Inr]] assms(2,3) have now: "cr_now request < cs_expires_at source" by simp
    show thesis
    proof (cases "cr_process_world request \<noteq> None \<and> \<not> av_available (plat_availability (cl_platform W))")
      case True
      have "hm_get (st_runs st) r = Some run" if "hm_get (st_runs (snd (revoke_run (dr_run_control_ref draft) s1))) r = Some run" "run_live (mr_state run)" for r run
        using revoke_run_gone [OF that] b' by simp
      with True assms(1) b Inr show thesis by (intro refused) (auto simp: claim_run_def)
    next
      case False
      obtain i out sc x where specs: "claim_specs L host request (cs_expires_at source) (ctx_semantic_operation context) artifact identity draft = (i, out, sc, x)"
        by (metis prod_cases4)
      obtain minted s2 where m: "mint_grants L draft i out sc x s1 = (minted, s2)" by fastforce
      note m' = mint_grants_keeps [OF m]
      have run: "claim_run L W host request source context output_revision identity artifact st =
          (case minted of Inl e \<Rightarrow> (Inl (ExecEffect e), s2)
           | Inr grants \<Rightarrow>
                 (case claim_envelope L request (cl_platform W) source context output_revision draft grants of
                    Inl e \<Rightarrow> (Inl e, s2)
                  | Inr envelope \<Rightarrow>
                      (case install_envelope L draft envelope s2 of
                         (Inl e, st) \<Rightarrow> (Inl (ExecEffect e), st)
                       | (Inr _, st) \<Rightarrow>
                           (case activate_run (ev_run_control_ref envelope) (cr_now request) st of
                              (Inl e, st) \<Rightarrow> (Inl (ExecEffect e), st)
                            | (Inr _, st) \<Rightarrow> (Inr (grants, envelope), st)))))"
        using b Inr False specs m by (auto simp: claim_run_def split: sum.splits)
      show thesis
      proof (cases "\<exists>grants envelope. minted = Inr grants \<and> claim_envelope L request (cl_platform W) source context output_revision draft grants = Inr envelope")
        case False
        with assms(1) run have "\<exists>e. result = Inl e \<and> st' = s2" by (auto split: sum.splits)
        with b' m' show thesis by (auto intro: refused)
      next
        case True
        then obtain grants envelope where g: "minted = Inr grants"
          and e: "claim_envelope L request (cl_platform W) source context output_revision draft grants = Inr envelope" by blast
        note f = claim_envelope_fields [OF e assms(2)]
        obtain installed s3 where ins: "install_envelope L draft envelope s2 = (installed, s3)" by fastforce
        then show thesis
        proof (cases rule: install_cases)
          case (refused err)
          with assms(1) run g e ins b' m' show thesis by (intro that(1)) auto
        next
          case installed
          have "activate_run (ev_run_control_ref envelope) (cr_now request) s3 = (Inr (), set_run_state (ev_run_control_ref envelope) Active s3)"
            using installed(4) now f(5) by (simp add: activate_run_def run_mut_def hmap_simps)
          with assms(1) run g e ins installed(1) have r: "result = Inr (grants, envelope)" "st' = set_run_state (ev_run_control_ref envelope) Active s3"
            by auto
          show thesis
            using r e installed b' m' by (intro active) (auto simp: set_run_state_def hmap_simps active_run_def fun_eq_iff)
        qed
      qed
    qed
  qed
qed

section \<open>What a claim attaches\<close>

text \<open>Every backing is one that was there before or belongs to the run.\<close>

definition adds_only :: "ManagedRunRefV1 \<Rightarrow> ManagedResourceResolverV1 \<Rightarrow> ManagedResourceResolverV1 \<Rightarrow> bool" where
  "adds_only run_ref rv rv' \<longleftrightarrow> (\<forall>h b. hm_get (rv_backings rv') h = Some b \<longrightarrow>
     hm_get (rv_backings rv) h = Some b \<or> ow_run_control_ref (backing_owner b) = run_ref)"

lemma adds_only_refl [simp]: "adds_only r rv rv"
  by (simp add: adds_only_def)

lemma adds_only_same: "adds_only r rv rv' \<Longrightarrow> rv_backings rv'' = rv_backings rv' \<Longrightarrow> adds_only r rv rv''"
  by (simp add: adds_only_def)

lemma adds_only_insert:
  "adds_only r rv rv' \<Longrightarrow> ow_run_control_ref (backing_owner b) = r \<Longrightarrow> rv_backings rv'' = hm_insert h b (rv_backings rv') \<Longrightarrow> adds_only r rv rv''"
  by (auto simp: adds_only_def hmap_simps)

lemma purged_subset:
  assumes "adds_only r rv rv'" and "hm_get (rv_backings (snd (resolver_purge_run r rv'))) h = Some b"
  shows "hm_get (rv_backings rv) h = Some b"
proof -
  let ?own = "owned_handles (\<lambda>owner. ow_run_control_ref owner = r) rv'"
  have "h \<notin> set ?own" and get: "hm_get (rv_backings rv') h = Some b"
    using assms(2) by (simp_all add: resolver_purge_run_def purge_owned_def purge_handles_def hm_get_retain_key split: if_splits)
  with hm_get_pair [OF get] have "ow_run_control_ref (backing_owner b) \<noteq> r" by (force simp: owned_handles_def)
  with assms(1) get show ?thesis by (auto simp: adds_only_def)
qed

lemma owner_of_run: "owner_of L access = Inr ow \<Longrightarrow> ow_run_control_ref ow = ma_run_control_ref access"
  by (auto simp: owner_of_def res_simps)

lemma bind_with_adds:
  assumes "bind_with h checked rv = (result, rv')" and "adds_only r rv0 rv"
    and "\<And>b. checked = Inr b \<Longrightarrow> ow_run_control_ref (backing_owner b) = r"
  shows "adds_only r rv0 rv'"
  using assms by (auto simp: bind_with_def insert_backing_def split: sum.splits if_splits intro: adds_only_insert)

lemma revision_adds:
  assumes "bind_managed_revision L F st access h acquisition objects rv = (result, objects', rv')" and "adds_only (ma_run_control_ref access) rv0 rv"
  shows "adds_only (ma_run_control_ref access) rv0 rv'"
proof -
  have "\<exists>resolved. bind_with h (revision_backing L st access h acquisition resolved) rv = (result, rv')"
    using assms(1) by (auto simp: bind_managed_revision_def Let_def split: prod.splits)
  then obtain resolved where b: "bind_with h (revision_backing L st access h acquisition resolved) rv = (result, rv')" by blast
  show ?thesis by (rule bind_with_adds [OF b assms(2)]) (auto simp: revision_backing_def res_simps owner_of_run)
qed

lemma provision_adds:
  assumes "provision_empty L D st access h kind quota rv = (result, rv')" and "adds_only (ma_run_control_ref access) rv0 rv"
  shows "adds_only (ma_run_control_ref access) rv0 rv'"
  by (rule bind_with_adds [OF assms(1) [unfolded provision_empty_def] assms(2)])
    (cases kind; auto simp: res_simps owner_of_run)

lemma executable_adds:
  assumes "bind_executable L F mode st access h spec rv = (result, rv')" and "adds_only (ma_run_control_ref access) rv0 rv"
  shows "adds_only (ma_run_control_ref access) rv0 rv'"
  by (rule bind_with_adds [OF assms(1) [unfolded bind_executable_def] assms(2)]) (auto simp: res_simps owner_of_run)

lemma reconcile_adds:
  assumes "reconcile_execution_mount L D access q mount (objects, rv) = (result, objects', rv')" and "adds_only (ma_run_control_ref access) rv0 rv"
  shows "adds_only (ma_run_control_ref access) rv0 rv'"
proof -
  have "rv_backings rv' = rv_backings rv \<or> (\<exists>b files. hm_get (rv_backings rv) (mt_handle_ref mount) = Some b
     \<and> rv_backings rv' = hm_insert (mt_handle_ref mount) (with_files files b) (rv_backings rv))"
    and "rv_backings rv' = rv_backings rv \<or> (\<forall>b. hm_get (rv_backings rv) (mt_handle_ref mount) = Some b \<longrightarrow> validate_owner L (backing_owner b) access = Inr ())"
    using assms(1)
    by (auto simp: reconcile_execution_mount_def Let_def res_simps split: sum.splits prod.splits HostResourceBackingV1.splits option.splits)
  then have "rv_backings rv' = rv_backings rv \<or> (\<exists>b files. validate_owner L (backing_owner b) access = Inr ()
     \<and> rv_backings rv' = hm_insert (mt_handle_ref mount) (with_files files b) (rv_backings rv))" by blast
  moreover have "backing_owner (with_files files b) = backing_owner b" for files b by (cases b) (simp_all add: with_files_def)
  moreover have "validate_owner L ow access = Inr () \<Longrightarrow> ow_run_control_ref ow = ma_run_control_ref access" for ow
    by (auto simp: validate_owner_def split: if_splits)
  ultimately show ?thesis using assms(2) adds_only_same adds_only_insert by metis
qed

lemma release_adds:
  "release_mounts L D access q mounts facts first (objects, rv) = (result, objects', rv') \<Longrightarrow> adds_only (ma_run_control_ref access) rv0 rv
    \<Longrightarrow> adds_only (ma_run_control_ref access) rv0 rv'"
proof (induction mounts arbitrary: facts first objects rv)
  case (Cons mount rest)
  obtain r1 o1 rv1 where e: "reconcile_execution_mount L D access q mount (objects, rv) = (r1, o1, rv1)" by (metis prod_cases3)
  from reconcile_adds [OF e Cons.prems(2)] Cons.prems(1) e show ?case by (auto intro!: Cons.IH elim: adds_only_same)
qed auto

lemma world_adds:
  assumes "provision_world L P LD RD fresh st access w (objects, rv, es) = (result, objects', rv', es')" and "adds_only (ma_run_control_ref access) rv0 rv"
  shows "adds_only (ma_run_control_ref access) rv0 rv'"
proof (cases "provision_checks L (plat_availability P) st access w")
  case (Inl e)
  with assms show ?thesis by (simp add: provision_world_def)
next
  case (Inr a)
  obtain grant grants where a: "a = (grant, grants)" by (cases a)
  obtain leased o1 rv1 where l: "lease_execution_world_mounts L LD st access grants objects rv = (leased, o1, rv1)" by (metis prod_cases3)
  then have "rv_backings rv1 = rv_backings rv"
    by (auto simp: lease_execution_world_mounts_def Let_def split: if_splits prod.splits sum.splits)
  with assms(2) have 1: "adds_only (ma_run_control_ref access) rv0 rv1" by (rule adds_only_same)
  have returned: "adds_only (ma_run_control_ref access) rv0 rv2" if g: "give_back L RD fresh access ms (o1, rv1) = (o2, rv2)" for ms o2 rv2
  proof -
    obtain facts where "release_mounts L RD access fresh ms [] None (o1, rv1) = (facts, o2, rv2)"
      using g by (cases "release_mounts L RD access fresh ms [] None (o1, rv1)") (auto simp: give_back_def release_execution_world_mounts_def)
    then show ?thesis using 1 by (rule release_adds)
  qed
  from assms(1) Inr a l 1 returned show ?thesis
    by (auto simp: provision_world_def split: sum.splits prod.splits if_splits)
qed

lemma bind_if_cases:
  assumes "bind_if bind r grant rv = (result, rv')" and "adds_only r rv0 rv"
    and "\<And>g res rv1. bind g rv = (res, rv1) \<Longrightarrow> adds_only r rv0 rv1"
  obtains (failed) e where "result = Inl e" "\<And>h b. hm_get (rv_backings rv') h = Some b \<Longrightarrow> hm_get (rv_backings rv0) h = Some b"
  | (bound) "result = Inr ()" "adds_only r rv0 rv'"
proof (cases grant)
  case None
  with assms show thesis by (intro bound) (simp_all add: bind_if_def)
next
  case (Some g)
  obtain res rv1 where b: "bind g rv = (res, rv1)" by fastforce
  show thesis
  proof (cases res)
    case (Inl e)
    with assms(1) Some b have "result = Inl (ExecResource e)" "rv' = snd (resolver_purge_run r rv1)" by (simp_all add: bind_if_def)
    with purged_subset [OF assms(3) [OF b]] show thesis by (intro failed) auto
  next
    case (Inr u)
    with assms Some b show thesis by (intro bound) (simp_all add: bind_if_def)
  qed
qed

lemma bind_resources_cases:
  assumes "bind_resources L W request st access grants objects rv = (result, objects', rv')"
  obtains (failed) e where "result = Inl e" "\<And>h b. hm_get (rv_backings rv') h = Some b \<Longrightarrow> hm_get (rv_backings rv) h = Some b"
  | (bound) "result = Inr ()" "adds_only (ma_run_control_ref access) rv rv'"
proof -
  let ?r = "ma_run_control_ref access"
  obtain r1 o1 rv1 where b1: "bind_managed_revision L (cl_fs W) st access (rg_handle_ref (cg_input grants)) (cr_input request) objects rv = (r1, o1, rv1)"
    by (metis prod_cases3)
  show thesis
  proof (cases r1)
    case (Inl e)
    with b1 have "rv_backings rv1 = rv_backings rv"
      by (auto simp: bind_managed_revision_def bind_with_def insert_backing_def Let_def split: prod.splits sum.splits if_splits)
    with Inl b1 assms show thesis by (intro failed) (auto simp: bind_resources_def Let_def)
  next
    case 1: (Inr u1)
    from revision_adds [OF b1 adds_only_refl] have a1: "adds_only ?r rv rv1" .
    let ?out = "\<lambda>grant. provision_output_slot L (cl_output_disk W) st access (rg_handle_ref grant) (bg_write_bytes step_budgets)"
    let ?scr = "\<lambda>grant. provision_scratch L (cl_scratch_disk W) st access (rg_handle_ref grant) (bg_write_bytes step_budgets)"
    obtain r2 rv2 where b2: "bind_if ?out ?r (cg_output grants) rv1 = (r2, rv2)" by fastforce
    have p2: "?out g rv1 = (res, rv') \<Longrightarrow> adds_only ?r rv rv'" for g res rv'
      using a1 by (auto simp: provision_output_slot_def intro: provision_adds)
    show thesis
    proof (rule bind_if_cases [OF b2 a1 p2])
      fix e assume "r2 = Inl e" and kept: "\<And>h b. hm_get (rv_backings rv2) h = Some b \<Longrightarrow> hm_get (rv_backings rv) h = Some b"
      with assms b1 1 b2 have "result = Inl e" "rv' = rv2" by (auto simp: bind_resources_def Let_def)
      with kept show thesis by (intro failed) auto
    next
      assume 2: "r2 = Inr ()" "adds_only ?r rv rv2"
      obtain r3 rv3 where b3: "bind_if ?scr ?r (cg_scratch grants) rv2 = (r3, rv3)" by fastforce
      have p3: "?scr g rv2 = (res, rv') \<Longrightarrow> adds_only ?r rv rv'" for g res rv'
        using 2(2) by (auto simp: provision_scratch_def intro: provision_adds)
      show thesis
      proof (rule bind_if_cases [OF b3 2(2) p3])
        fix e assume "r3 = Inl e" and kept: "\<And>h b. hm_get (rv_backings rv3) h = Some b \<Longrightarrow> hm_get (rv_backings rv) h = Some b"
        with assms b1 1 b2 2(1) b3 have "result = Inl e" "rv' = rv3" by (auto simp: bind_resources_def Let_def)
        with kept show thesis by (intro failed) auto
      next
        assume 3: "r3 = Inr ()" "adds_only ?r rv rv3"
        show thesis
        proof (cases "cr_process_world request")
          case None
          with assms b1 1 b2 2(1) b3 3 show thesis by (intro bound) (auto simp: bind_resources_def Let_def)
        next
          case (Some spec)
          let ?exe = "\<lambda>grant. bind_executable L (cl_fs W) (cl_executable W) st access (rg_handle_ref grant) (we_executable spec)"
          obtain r4 rv4 where b4: "bind_if ?exe ?r (cg_executable grants) rv3 = (r4, rv4)" by fastforce
          from assms b1 1 b2 2(1) b3 3(1) Some b4 have eq: "result = r4" "rv' = rv4" by (auto simp: bind_resources_def Let_def)
          have p4: "?exe g rv3 = (res, rv') \<Longrightarrow> adds_only ?r rv rv'" for g res rv' using 3(2) by (auto intro: executable_adds)
          show thesis
          proof (rule bind_if_cases [OF b4 3(2) p4])
            fix e assume "r4 = Inl e" and kept: "\<And>h b. hm_get (rv_backings rv4) h = Some b \<Longrightarrow> hm_get (rv_backings rv) h = Some b"
            with eq have "result = Inl e" "rv' = rv4" by simp_all
            with kept show thesis by (intro failed) auto
          next
            assume "r4 = Inr ()" "adds_only ?r rv rv4"
            with eq show thesis by (intro bound) auto
          qed
        qed
      qed
    qed
  qed
qed

lemma claim_attach_cases:
  assumes "claim_attach L W request st access envelope grants (objects, rv, es) = (result, objects', rv', es')"
  obtains (failed) e where "result = Inl e" "es' = es" "\<And>h b. hm_get (rv_backings rv') h = Some b \<Longrightarrow> hm_get (rv_backings rv) h = Some b"
  | (attached) workspace where "result = Inr workspace" "adds_only (ma_run_control_ref access) rv rv'"
      "ManagedRunWorkspaceV1_derive L st access (workspace_attachments grants)
         (map_option (\<lambda>process. \<lparr>wb_world_ref = pg_world_ref process, wb_executable_handle = pg_executable_handle process\<rparr>)
           (process_world_of envelope grants)) = Inr workspace"
      "if cr_process_world request = None then es' = es
       else \<exists>world. es' = es\<lparr>es_worlds := hm_insert (wg_world_ref (ev_world envelope)) world (es_worlds es)\<rparr>
         \<and> wo_run_ref (wd_owner world) = ma_run_control_ref access \<and> wo_envelope_ref (wd_owner world) = ma_envelope_ref access"
proof -
  let ?r = "ma_run_control_ref access"
  obtain r1 o1 rv1 where b: "bind_resources L W request st access grants objects rv = (r1, o1, rv1)" by (metis prod_cases3)
  then show thesis
  proof (cases rule: bind_resources_cases)
    case (failed e)
    with assms b show thesis by (intro that(1)) (auto simp: claim_attach_def Let_def)
  next
    case bound
    let ?ws = "ManagedRunWorkspaceV1_derive L st access (workspace_attachments grants)
         (map_option (\<lambda>process. \<lparr>wb_world_ref = pg_world_ref process, wb_executable_handle = pg_executable_handle process\<rparr>)
           (process_world_of envelope grants))"
    show thesis
    proof (cases ?ws)
      case (Inl e)
      with assms b bound(1) have "result = Inl (ExecWorkspace e)" "es' = es" "rv' = snd (resolver_purge_run ?r rv1)"
        by (auto simp: claim_attach_def Let_def)
      with purged_subset [OF bound(2)] show thesis by (intro that(1)) auto
    next
      case ws: (Inr workspace)
      show thesis
      proof (cases "cr_process_world request = None")
        case True
        with assms b bound ws show thesis by (intro that(2)) (auto simp: claim_attach_def Let_def)
      next
        case False
        let ?w = "wg_world_ref (ev_world envelope)"
        obtain r2 o2 rv2 es2 where p: "provision_world L (cl_platform W) (cl_lease W) (cl_release W) (cl_fresh W) st access ?w (o1, rv1, es) = (r2, o2, rv2, es2)"
          by (metis prod_cases4)
        from world_adds [OF p bound(2)] have a: "adds_only ?r rv rv2" .
        from p show thesis
        proof (cases rule: provision_cases)
          case (refused e)
          with assms b bound(1) ws False p have "result = Inl (ExecResource e)" "es' = es" "rv' = snd (resolver_purge_run ?r rv2)"
            by (auto simp: claim_attach_def Let_def)
          with purged_subset [OF a] show thesis by (intro that(1)) auto
        next
          case (provisioned grant grants' mounts ow)
          from provisioned(2) have "wo_run_ref ow = ?r" "wo_envelope_ref ow = ma_envelope_ref access" by (auto simp: world_owner_def res_simps)
          with assms b bound(1) ws False p provisioned(5) a provisioned(4) show thesis
            by (intro that(2)) (auto simp: claim_attach_def Let_def intro!: exI)
        qed
      qed
    qed
  qed
qed

section \<open>Claims\<close>

lemma claim_checks_Inr:
  assumes "claim_checks L W request hr = Inr (source, semantic, input, output_revision, identity)"
  shows "load_claim_source L (cl_coordinated W) (cl_committed W) (hr_local_host_ref hr) (cr_attempt_id request) (cr_step_id request)
      (cr_captured_binding request) (cr_current_binding request) (cr_now request) (hr_db hr) = Inr source"
    and "managed_step_contract (cs_step source) = Inr (semantic, input, output_revision)"
    and "identity = None \<longleftrightarrow> cr_process_world request = None"
  using assms by (auto simp: claim_checks_def res_simps split: option.splits)

lemma operation_intent_Inr: "managed_step_contract step = Inr contract \<Longrightarrow> \<exists>intent. operation_intent step = Inr intent"
  by (auto simp: managed_step_contract_def operation_intent_def split: PlanStepV2.splits)

lemma record_claim_cases:
  assumes "record_claim L access now db = (result, db')"
  obtains (refused) e where "result = Inl e" "db' = db"
  | (recorded) context_ref where "result = Inr ()" "AuthorityContextV1_context_ref L (ma_context access) = Inr context_ref"
      "db' = db\<lparr>db_claims := db_claims db @ [claim_row access context_ref now]\<rparr>"
      "insert_claim (claim_row access context_ref now) db = (Inr (), db')"
proof (cases "AuthorityContextV1_context_ref L (ma_context access)")
  case (Inl e)
  with assms show thesis by (intro refused) (auto simp: record_claim_def)
next
  case (Inr context_ref)
  show thesis
  proof (cases "insert_claim (claim_row access context_ref now) db")
    case (Pair inserted db1)
    show thesis
    proof (cases inserted)
      case (Inl e)
      with assms Inr Pair show thesis
        by (intro refused) (auto simp: record_claim_def map_err_def insert_claim_def split: sum.splits)
    next
      case ok: (Inr u)
      with assms Inr Pair show thesis
        by (intro recorded) (auto simp: record_claim_def map_err_def insert_claim_def insert_row_def split: sum.splits if_splits)
    qed
  qed
qed

text \<open>The steps of a claim, with the access it gives its run.\<close>

definition claim_access :: "ManagedStepClaimRequestV1 \<Rightarrow> AuthorityContextV1 \<Rightarrow> EffectEnvelopeV1 \<Rightarrow> ManagedResourceAccessV1" where
  "claim_access request context envelope = \<lparr>ma_envelope_ref = ev_envelope_ref envelope, ma_run_control_ref = ev_run_control_ref envelope,
     ma_context = context, ma_current = current_authority (cr_current_binding request) (cr_now request)\<rparr>"

lemma claim_access_fields [simp]:
  "ma_run_control_ref (claim_access request context envelope) = ev_run_control_ref envelope"
  "ma_envelope_ref (claim_access request context envelope) = ev_envelope_ref envelope"
  "ma_context (claim_access request context envelope) = context"
  by (simp_all add: claim_access_def)

lemma claim_context_fields [simp]:
  "ctx_expires_at (claim_context host request source semantic input) = cs_expires_at source"
  "ctx_issued_at (claim_context host request source semantic input) = cr_now request"
  "ctx_attempt_id (claim_context host request source semantic input) = cr_attempt_id request"
  "ctx_step_id (claim_context host request source semantic input) = cr_step_id request"
  "ctx_host_ref (claim_context host request source semantic input) = host"
  "ctx_admission_ref (claim_context host request source semantic input) = cs_admission_ref source"
  "ctx_semantic_operation (claim_context host request source semantic input) = semantic"
  by (simp_all add: claim_context_def)

lemma claim_cases:
  assumes "claim_v2_managed_step L W request hr = (result, hr')"
  obtains (early) e where "result = Inl e" "hr_db hr' = hr_db hr" "hr_managed_resources hr' = hr_managed_resources hr"
      "hr_execution_worlds hr' = hr_execution_worlds hr"
      "\<And>r run. hm_get (st_runs (hr_effect_authority hr')) r = Some run \<Longrightarrow> run_live (mr_state run) \<Longrightarrow> hm_get (st_runs (hr_effect_authority hr)) r = Some run"
  | (late) source semantic input output_revision identity artifact objects st grants envelope attached objects' rv es where
      "claim_checks L W request hr = Inr (source, semantic, input, output_revision, identity)"
      "claim_run L W (hr_local_host_ref hr) request source (claim_context (hr_local_host_ref hr) request source semantic input) output_revision
         identity artifact (hr_effect_authority hr) = (Inr (grants, envelope), st)"
      "claim_attach L W request st (claim_access request (claim_context (hr_local_host_ref hr) request source semantic input) envelope) envelope grants
         (objects, hr_managed_resources hr, hr_execution_worlds hr) = (attached, objects', rv, es)"
      "(result, hr') = (case attached of
           Inl e \<Rightarrow> (Inl e, hr\<lparr>hr_managed_objects := objects', hr_managed_resources := rv,
             hr_execution_worlds := es, hr_effect_authority := snd (revoke_run (ev_run_control_ref envelope) st)\<rparr>)
         | Inr workspace \<Rightarrow>
             (case record_claim L (claim_access request (claim_context (hr_local_host_ref hr) request source semantic input) envelope) (cr_now request) (hr_db hr) of
                (Inl e, db) \<Rightarrow> (Inl e, hr\<lparr>hr_db := db, hr_managed_objects := objects',
                   hr_managed_resources := snd (resolver_purge_run (ev_run_control_ref envelope) rv),
                   hr_execution_worlds := snd (terminate_run (ev_run_control_ref envelope) (cl_during W) es),
                   hr_effect_authority := snd (revoke_run (ev_run_control_ref envelope) st)\<rparr>)
              | (Inr _, db) \<Rightarrow> (step_grant source (claim_access request (claim_context (hr_local_host_ref hr) request source semantic input) envelope)
                    output_revision envelope grants workspace,
                  hr\<lparr>hr_db := db, hr_managed_objects := objects', hr_managed_resources := rv, hr_execution_worlds := es,
                     hr_effect_authority := st\<rparr>)))"
proof (cases "claim_checks L W request hr")
  case (Inl e)
  with assms show thesis by (intro early) (auto simp: claim_v2_managed_step_def)
next
  case (Inr a)
  obtain source semantic input output_revision identity where a: "a = (source, semantic, input, output_revision, identity)" by (metis prod_cases5)
  let ?ctx = "claim_context (hr_local_host_ref hr) request source semantic input"
  obtain resolved objects where r: "resolve L (cl_fs W) (cr_input request) (cr_now request) (hr_managed_objects hr) = (resolved, objects)" by fastforce
  show thesis
  proof (cases resolved)
    case (Inl e)
    with assms \<open>claim_checks L W request hr = Inr a\<close> a r show thesis by (intro early) (auto simp: claim_v2_managed_step_def)
  next
    case resolved: (Inr artifact)
    obtain started st where c: "claim_run L W (hr_local_host_ref hr) request source ?ctx output_revision identity artifact (hr_effect_authority hr) = (started, st)"
      by fastforce
    show thesis
    proof (cases started)
      case (Inl e)
      with assms \<open>claim_checks L W request hr = Inr a\<close> a r resolved c have "result = Inl e" "hr' = hr\<lparr>hr_managed_objects := objects, hr_effect_authority := st\<rparr>"
        by (auto simp: claim_v2_managed_step_def Let_def)
      moreover from c Inl have "hm_get (st_runs st) ref = Some run \<Longrightarrow> run_live (mr_state run) \<Longrightarrow> hm_get (st_runs (hr_effect_authority hr)) ref = Some run" for ref run
        by (auto elim!: claim_run_cases)
      ultimately show thesis by (intro early) auto
    next
      case started: (Inr b)
      obtain grants envelope where b: "b = (grants, envelope)" by (cases b)
      let ?access = "claim_access request ?ctx envelope"
      obtain attached objects' rv es where at: "claim_attach L W request st ?access envelope grants (objects, hr_managed_resources hr, hr_execution_worlds hr)
          = (attached, objects', rv, es)" by (metis prod_cases4)
      have "claim_v2_managed_step L W request hr = (case attached of
           Inl e \<Rightarrow> (Inl e, hr\<lparr>hr_managed_objects := objects', hr_managed_resources := rv,
             hr_execution_worlds := es, hr_effect_authority := snd (revoke_run (ev_run_control_ref envelope) st)\<rparr>)
         | Inr workspace \<Rightarrow>
             (case record_claim L ?access (cr_now request) (hr_db hr) of
                (Inl e, db) \<Rightarrow> (Inl e, hr\<lparr>hr_db := db, hr_managed_objects := objects',
                   hr_managed_resources := snd (resolver_purge_run (ev_run_control_ref envelope) rv),
                   hr_execution_worlds := snd (terminate_run (ev_run_control_ref envelope) (cl_during W) es),
                   hr_effect_authority := snd (revoke_run (ev_run_control_ref envelope) st)\<rparr>)
              | (Inr _, db) \<Rightarrow> (step_grant source ?access output_revision envelope grants workspace,
                  hr\<lparr>hr_db := db, hr_managed_objects := objects', hr_managed_resources := rv, hr_execution_worlds := es,
                     hr_effect_authority := st\<rparr>)))"
        using \<open>claim_checks L W request hr = Inr a\<close> a r resolved c started b at
        by (simp add: claim_v2_managed_step_def Let_def claim_access_def split: sum.split prod.split)
      with assms have eq: "(result, hr') = \<dots>" by simp
      show thesis
        by (rule late [OF _ _ at eq]) (use \<open>claim_checks L W request hr = Inr a\<close> a c started b in simp_all)
    qed
  qed
qed


lemma claim_success:
  assumes "claim_v2_managed_step L W request hr = (Inr grant, hr')"
  obtains source semantic input output_revision identity grants envelope draft context_ref where
    "claim_checks L W request hr = Inr (source, semantic, input, output_revision, identity)"
    "claim_envelope L request (cl_platform W) source (claim_context (hr_local_host_ref hr) request source semantic input)
       output_revision draft grants = Inr envelope"
    "hm_get (st_runs (hr_effect_authority hr)) (ev_run_control_ref envelope) = None"
    "hm_get (st_runs (hr_effect_authority hr')) = (hm_get (st_runs (hr_effect_authority hr)))(ev_run_control_ref envelope \<mapsto> active_run envelope)"
    "hm_get (st_envelopes (hr_effect_authority hr')) (ev_envelope_ref envelope) = Some envelope"
    "sg_access grant = claim_access request (claim_context (hr_local_host_ref hr) request source semantic input) envelope"
    "AuthorityContextV1_context_ref L (ma_context (sg_access grant)) = Inr context_ref"
    "hr_db hr' = (hr_db hr)\<lparr>db_claims := db_claims (hr_db hr) @ [claim_row (sg_access grant) context_ref (cr_now request)]\<rparr>"
    "insert_claim (claim_row (sg_access grant) context_ref (cr_now request)) (hr_db hr) = (Inr (), hr_db hr')"
    "hr_local_host_ref hr' = hr_local_host_ref hr"
    "adds_only (ev_run_control_ref envelope) (hr_managed_resources hr) (hr_managed_resources hr')"
    "if cr_process_world request = None then hr_execution_worlds hr' = hr_execution_worlds hr
     else \<exists>world. hr_execution_worlds hr' = (hr_execution_worlds hr)\<lparr>es_worlds := hm_insert (wg_world_ref (ev_world envelope)) world (es_worlds (hr_execution_worlds hr))\<rparr>
       \<and> wo_run_ref (wd_owner world) = ev_run_control_ref envelope \<and> wo_envelope_ref (wd_owner world) = ev_envelope_ref envelope"
  using assms
proof (cases rule: claim_cases)
  case (late source semantic input output_revision identity artifact objects st grants envelope attached objects' rv es)
  let ?ctx = "claim_context (hr_local_host_ref hr) request source semantic input"
  let ?access = "claim_access request ?ctx envelope"
  from late(4) obtain workspace where ws: "attached = Inr workspace" by (cases attached) auto
  obtain recorded db where rec: "record_claim L ?access (cr_now request) (hr_db hr) = (recorded, db)" by fastforce
  with late(4) ws obtain u where u: "recorded = Inr u" by (cases recorded) auto
  from late(4) ws rec u have grant: "Inr grant = step_grant source ?access output_revision envelope grants workspace"
    and hr': "hr' = hr\<lparr>hr_db := db, hr_managed_objects := objects', hr_managed_resources := rv, hr_execution_worlds := es, hr_effect_authority := st\<rparr>"
    by simp_all
  from grant have access: "sg_access grant = ?access" by (auto simp: step_grant_def res_simps dest!: sym [of "Inr _"])
  from rec u obtain context_ref where ref: "AuthorityContextV1_context_ref L ?ctx = Inr context_ref"
    and db: "db = (hr_db hr)\<lparr>db_claims := db_claims (hr_db hr) @ [claim_row ?access context_ref (cr_now request)]\<rparr>"
    and row: "insert_claim (claim_row ?access context_ref (cr_now request)) (hr_db hr) = (Inr (), db)"
    by (cases rule: record_claim_cases) auto
  have "ctx_expires_at ?ctx = cs_expires_at source" "ctx_issued_at ?ctx = cr_now request" by simp_all
  from late(2) this show thesis
  proof (cases rule: claim_run_cases)
    case (active grants' envelope' draft)
    then have same: "grants' = grants" "envelope' = envelope" by simp_all
    from late(3) [unfolded ws] show thesis
    proof (cases rule: claim_attach_cases)
      case attached
      from attached(4) have world: "if cr_process_world request = None then hr_execution_worlds hr' = hr_execution_worlds hr
        else \<exists>world. hr_execution_worlds hr' = (hr_execution_worlds hr)\<lparr>es_worlds := hm_insert (wg_world_ref (ev_world envelope)) world (es_worlds (hr_execution_worlds hr))\<rparr>
          \<and> wo_run_ref (wd_owner world) = ev_run_control_ref envelope \<and> wo_envelope_ref (wd_owner world) = ev_envelope_ref envelope"
        by (auto simp: hr' split: if_splits)
      from attached(2) have adds: "adds_only (ev_run_control_ref envelope) (hr_managed_resources hr) (hr_managed_resources hr')"
        by (simp add: hr')
      show thesis
        by (rule that [OF late(1) active(2,3) [unfolded same] _ _ access _ _ _ _ adds world]) (use active(4,5) same db ref row in \<open>simp_all add: hr' access\<close>)
    qed simp
  qed simp
qed simp

section \<open>A failed claim\<close>

lemma hm_insert_member: "(k, v) \<in> set (hm_insert k' v' m) \<Longrightarrow> (k, v) = (k', v') \<or> (k, v) \<in> set m"
  by (induction m) (auto simp: hm_insert_def split: if_splits)

lemma terminated_predecessor:
  assumes "calm L during" and "(w, world) \<in> set (es_worlds (snd (terminate_run r during es)))"
  shows "wo_run_ref (wd_owner world) \<noteq> r" and "\<exists>world0. (w, world0) \<in> set (es_worlds es) \<and> wd_owner world0 = wd_owner world"
proof -
  from assms show "wo_run_ref (wd_owner world) \<noteq> r" unfolding terminate_run_def by (rule terminated_worlds)
  from assms(2) have "(w, world) \<in> set (es_worlds (during (mark_revoked (\<lambda>owner. wo_run_ref owner = r) es)))"
    by (auto simp: terminate_run_def terminate_matching_def remove_ended_def hm_retain_def)
  from calm_owner [OF assms(1) this] show "\<exists>world0. (w, world0) \<in> set (es_worlds es) \<and> wd_owner world0 = wd_owner world"
    by (auto simp: mark_revoked_def hm_map_values_def split: if_splits)
qed

lemma claim_run_live:
  assumes "claim_run L W host request source context output_revision identity artifact st = (Inr (grants, envelope), st')"
    and "ctx_expires_at context = cs_expires_at source" and "ctx_issued_at context = cr_now request"
    and "hm_get (st_runs (snd (revoke_run (ev_run_control_ref envelope) st'))) r = Some run" and "run_live (mr_state run)"
  shows "hm_get (st_runs st) r = Some run"
  using assms(1-3)
proof (cases rule: claim_run_cases)
  case (active grants' envelope' draft)
  with revoke_run_gone [OF assms(4,5)] show ?thesis by auto
qed simp

lemma failed_claim_db:
  assumes "claim_v2_managed_step L W request hr = (Inl e, hr')"
  shows "hr_db hr' = hr_db hr"
  using assms
proof (cases rule: claim_cases)
  case (late source semantic input output_revision identity artifact objects st grants envelope attached objects' rv es)
  let ?access = "claim_access request (claim_context (hr_local_host_ref hr) request source semantic input) envelope"
  show ?thesis
  proof (cases attached)
    case (Inl e')
    with late(4) show ?thesis by simp
  next
    case (Inr workspace)
    obtain recorded db where rec: "record_claim L ?access (cr_now request) (hr_db hr) = (recorded, db)" by fastforce
    then show ?thesis
    proof (cases rule: record_claim_cases)
      case (refused e')
      with late(4) Inr rec show ?thesis by simp
    next
      case (recorded context_ref)
      from operation_intent_Inr [OF claim_checks_Inr(2) [OF late(1)]] obtain intent where "operation_intent (cs_step source) = Inr intent" by blast
      with late(4) Inr rec recorded(1) show ?thesis by (simp add: step_grant_def)
    qed
  qed
qed simp

lemma failed_claim:
  assumes "claim_v2_managed_step L W request hr = (Inl e, hr')" and "calm L (cl_during W)"
  shows "hr_db hr' = hr_db hr
    \<and> (\<forall>r run. hm_get (st_runs (hr_effect_authority hr')) r = Some run \<and> run_live (mr_state run)
         \<longrightarrow> hm_get (st_runs (hr_effect_authority hr)) r = Some run)
    \<and> (\<forall>h b. hm_get (rv_backings (hr_managed_resources hr')) h = Some b \<longrightarrow> hm_get (rv_backings (hr_managed_resources hr)) h = Some b)
    \<and> (\<forall>w world'. (w, world') \<in> set (es_worlds (hr_execution_worlds hr'))
         \<longrightarrow> (\<exists>world. (w, world) \<in> set (es_worlds (hr_execution_worlds hr)) \<and> wd_owner world = wd_owner world'))"
  using assms(1)
proof (cases rule: claim_cases)
  case (early e')
  then show ?thesis by auto
next
  case (late source semantic input output_revision identity artifact objects st grants envelope attached objects' rv es)
  let ?ctx = "claim_context (hr_local_host_ref hr) request source semantic input"
  let ?access = "claim_access request ?ctx envelope"
  have live: "hm_get (st_runs (hr_effect_authority hr)) r = Some run"
    if "hm_get (st_runs (snd (revoke_run (ev_run_control_ref envelope) st))) r = Some run" "run_live (mr_state run)" for r run
    using claim_run_live [OF late(2) _ _ that] by simp
  from late(3) show ?thesis
  proof (cases rule: claim_attach_cases)
    case (failed e')
    with late(4) have hr': "hr' = hr\<lparr>hr_managed_objects := objects', hr_managed_resources := rv, hr_execution_worlds := es,
        hr_effect_authority := snd (revoke_run (ev_run_control_ref envelope) st)\<rparr>" by simp
    with live failed(2,3) show ?thesis by auto
  next
    case (attached workspace)
    obtain recorded db where rec: "record_claim L ?access (cr_now request) (hr_db hr) = (recorded, db)" by fastforce
    then show ?thesis
    proof (cases rule: record_claim_cases)
      case (refused e')
      with late(4) attached(1) rec have hr': "hr' = hr\<lparr>hr_managed_objects := objects',
          hr_managed_resources := snd (resolver_purge_run (ev_run_control_ref envelope) rv),
          hr_execution_worlds := snd (terminate_run (ev_run_control_ref envelope) (cl_during W) es),
          hr_effect_authority := snd (revoke_run (ev_run_control_ref envelope) st)\<rparr>" by simp
      have "\<exists>world. (w, world) \<in> set (es_worlds (hr_execution_worlds hr)) \<and> wd_owner world = wd_owner world'"
        if "(w, world') \<in> set (es_worlds (snd (terminate_run (ev_run_control_ref envelope) (cl_during W) es)))" for w world'
      proof -
        from terminated_predecessor [OF assms(2) that] obtain world0 where "(w, world0) \<in> set (es_worlds es)"
          "wd_owner world0 = wd_owner world'" "wo_run_ref (wd_owner world0) \<noteq> ev_run_control_ref envelope" by auto
        with attached(4) show ?thesis by (auto split: if_splits dest!: hm_insert_member)
      qed
      with live purged_subset [OF attached(2)] show ?thesis by (simp add: hr')
    next
      case (recorded context_ref)
      from operation_intent_Inr [OF claim_checks_Inr(2) [OF late(1)]] obtain intent where "operation_intent (cs_step source) = Inr intent" by blast
      with late(4) attached(1) rec recorded(1) show ?thesis by (simp add: step_grant_def)
    qed
  qed
qed


section \<open>Finalized steps\<close>

lemma completion_of_Inr:
  "completion_of L envelope_ref run_ref ids head binding now hr = Inr completion \<longleftrightarrow>
     completion_evidence L run_ref envelope_ref (current_authority binding now) (hr_effect_authority hr) = Inr completion
     \<and> ids = map ee_evidence_id (ce_evidence completion) \<and> head = ce_evidence_head completion"
  by (auto simp: completion_of_def validate_proposal_evidence_def res_simps)

lemma finalize_execute_cases:
  assumes "finalize_v2_execute L idle proposal binding now hr = (result, hr')"
  obtains (refused) e where "result = Inl e"
      "hr' = hr \<or> hr' = hr\<lparr>hr_db := mark_claim_failed (xp_attempt_id proposal) (xp_step_id proposal) (hr_db hr)\<rparr>"
  | (finished) source input output_revision completion schema st db persisted where
      "load_completion_source (hr_local_host_ref hr) (xp_attempt_id proposal) (xp_step_id proposal) (xp_context_ref proposal)
         (xp_envelope_ref proposal) (xp_run_control_ref proposal) binding now (hr_db hr) = Inr source"
      "managed_step_contract (cs_step source) = Inr (SemExecute, input, output_revision)"
      "completion_of L (xp_envelope_ref proposal) (xp_run_control_ref proposal) (xp_evidence_ids proposal) (xp_evidence_head proposal)
         binding now hr = Inr completion"
      "execute_schema_ref L (cs_step source) = Inr schema" "xp_result_schema_ref proposal = schema"
      "xp_input proposal = expected_input (hr_local_host_ref hr) input" "trim (xp_result_digest proposal) \<noteq> []" "trim (xp_status proposal) \<noteq> []"
      "ev_result_contract (ce_envelope completion) = ResExecute [expected_input (hr_local_host_ref hr) input] schema"
      "run_is_quiescent (xp_run_control_ref proposal) (hr_execution_worlds hr)" "idle"
      "complete_run_authoritatively (xp_run_control_ref proposal) (hr_effect_authority hr) = (Inr (), st)"
      "persist_execute_result (execute_row proposal (execute_result L (hr_local_host_ref hr) proposal input) now) (hr_db hr) = (persisted, db)"
      "result = and_then (map_err ExecPlan persisted) (\<lambda>_. Inr (execute_result L (hr_local_host_ref hr) proposal input))"
      "hr' = hr\<lparr>hr_effect_authority := st, hr_db := db\<rparr>"
proof -
  let ?refused = "\<exists>e. result = Inl e \<and> (hr' = hr
      \<or> hr' = hr\<lparr>hr_db := mark_claim_failed (xp_attempt_id proposal) (xp_step_id proposal) (hr_db hr)\<rparr>)"
  let ?h = "hr_local_host_ref hr" and ?r = "xp_run_control_ref proposal"
  have unchanged: "snd (complete_run_authoritatively ?r (hr_effect_authority hr)) = hr_effect_authority hr"
    if "fst (complete_run_authoritatively ?r (hr_effect_authority hr)) = Inl e" for e
    using that by (auto simp: complete_run_authoritatively_def split: sum.splits if_splits)
  note fail = fail_claim_def
  show thesis
  proof (cases "load_completion_source ?h (xp_attempt_id proposal) (xp_step_id proposal) (xp_context_ref proposal)
      (xp_envelope_ref proposal) ?r binding now (hr_db hr)")
    case (Inl e)
    with assms show thesis by (intro refused) (auto simp: finalize_v2_execute_def Let_def map_err_def)
  next
    case source: (Inr source)
    show thesis
    proof (cases "managed_step_contract (cs_step source)")
      case (Inl e)
      with assms source show thesis by (intro refused) (auto simp: finalize_v2_execute_def Let_def map_err_def)
    next
      case contract: (Inr contract)
      obtain semantic input output_revision where c: "contract = (semantic, input, output_revision)" by (metis prod_cases3)
      let ?completed = "and_then (completion_of L (xp_envelope_ref proposal) ?r (xp_evidence_ids proposal) (xp_evidence_head proposal) binding now hr)
          (\<lambda>completion. and_then (execute_schema_ref L (cs_step source)) (\<lambda>schema. Inr (completion, schema)))"
      show thesis
      proof (cases "semantic = SemExecute \<and> is_ok ?completed")
        case False
        with assms source contract c have ?refused
          by (auto simp: finalize_v2_execute_def Let_def map_err_def fail is_ok_def split: sum.splits if_splits)
        then show thesis using refused by blast
      next
        case True
        then obtain completion schema where ok: "semantic = SemExecute"
          "completion_of L (xp_envelope_ref proposal) ?r (xp_evidence_ids proposal) (xp_evidence_head proposal) binding now hr = Inr completion"
          "execute_schema_ref L (cs_step source) = Inr schema"
          by (auto simp: is_ok_iff res_simps)
        let ?bad = "xp_input proposal \<noteq> expected_input ?h input \<or> xp_result_schema_ref proposal \<noteq> schema
            \<or> trim (xp_result_digest proposal) = [] \<or> trim (xp_status proposal) = []
            \<or> ev_result_contract (ce_envelope completion) \<noteq> ResExecute [expected_input ?h input] schema
            \<or> \<not> run_is_quiescent ?r (hr_execution_worlds hr) \<or> \<not> idle"
        obtain done' st where run: "complete_run_authoritatively ?r (hr_effect_authority hr) = (done', st)" by fastforce
        obtain persisted db where db: "persist_execute_result (execute_row proposal (execute_result L ?h proposal input) now) (hr_db hr) = (persisted, db)"
          by fastforce
        show thesis
        proof (cases "?bad \<or> (\<exists>e. done' = Inl e)")
          case True
          with assms source contract c ok run unchanged have ?refused
            by (auto simp: finalize_v2_execute_def Let_def map_err_def fail split: if_splits)
          then show thesis using refused by blast
        next
          case False
          then obtain u where "done' = Inr u" by (cases done') auto
          with False assms source contract c ok run db show thesis
            by (intro finished) (auto simp: finalize_v2_execute_def Let_def map_err_def split: if_splits)
        qed
      qed
    qed
  qed
qed


text \<open>The part of the Host a refused finalization leaves as it was; its claim may be marked failed.\<close>

definition refused_step :: "string \<Rightarrow> string \<Rightarrow> HostRuntime \<Rightarrow> HostRuntime \<Rightarrow> bool" where
  "refused_step attempt wanted hr hr' \<longleftrightarrow> hr_local_host_ref hr' = hr_local_host_ref hr \<and> hr_effect_authority hr' = hr_effect_authority hr
     \<and> hr_execution_worlds hr' = hr_execution_worlds hr
     \<and> (hr_db hr' = hr_db hr \<or> hr_db hr' = mark_claim_failed attempt wanted (hr_db hr))"

lemma complete_run_refused:
  "complete_run_authoritatively r st = (Inl e, st') \<Longrightarrow> st' = st"
  by (auto simp: complete_run_authoritatively_def split: sum.splits if_splits)

lemma finalize_transform_cases:
  assumes "finalize_v2_transform L F uuid idle proposal binding now hr = (result, hr')"
  obtains (refused) e where "result = Inl e" "refused_step (tp_attempt_id proposal) (tp_step_id proposal) hr hr'"
  | (finished) source input expected_output completion acquisition objects rv st db persisted where
      "load_completion_source (hr_local_host_ref hr) (tp_attempt_id proposal) (tp_step_id proposal) (tp_context_ref proposal)
         (tp_envelope_ref proposal) (tp_run_control_ref proposal) binding now (hr_db hr) = Inr source"
      "managed_step_contract (cs_step source) = Inr (SemTransform, input, Some expected_output)"
      "completion_of L (tp_envelope_ref proposal) (tp_run_control_ref proposal) (tp_evidence_ids proposal) (tp_evidence_head proposal)
         binding now hr = Inr completion"
      "\<not> transform_mismatch (hr_local_host_ref hr) proposal input expected_output"
      "ev_result_contract (ce_envelope completion)
         = ResTransform (expected_input (hr_local_host_ref hr) input) expected_output (so_handle_ref (tp_output_seal proposal))"
      "run_is_quiescent (tp_run_control_ref proposal) (hr_execution_worlds hr)" "idle"
      "register_sealed_transform_output L F uuid \<lparr>ma_envelope_ref = tp_envelope_ref proposal, ma_run_control_ref = tp_run_control_ref proposal,
          ma_context = ev_context (ce_envelope completion), ma_current = current_authority binding now\<rparr>
         (tp_output_seal proposal) (or_logical_object_id input) expected_output (tp_display_name proposal) (tp_media_type proposal)
         (cs_expires_at source) (hr_managed_objects hr) (hr_managed_resources hr) = (Inr acquisition, objects, rv)"
      "complete_run_authoritatively (tp_run_control_ref proposal) (hr_effect_authority hr) = (Inr (), st)"
      "persist_transform_result (transform_row proposal (ma_object acquisition) now) (hr_db hr) = (persisted, db)"
      "result = and_then (map_err ExecPlan persisted) (\<lambda>_. Inr acquisition)"
      "hr' = hr\<lparr>hr_managed_objects := objects, hr_managed_resources := rv, hr_effect_authority := st, hr_db := db\<rparr>"
proof -
  let ?refused = "\<exists>e. result = Inl e \<and> refused_step (tp_attempt_id proposal) (tp_step_id proposal) hr hr'"
  let ?h = "hr_local_host_ref hr" and ?r = "tp_run_control_ref proposal"
  note [simp] = fail_claim_def refused_step_def map_err_def Let_def
  show thesis
  proof (cases "load_completion_source ?h (tp_attempt_id proposal) (tp_step_id proposal) (tp_context_ref proposal)
      (tp_envelope_ref proposal) ?r binding now (hr_db hr)")
    case (Inl e)
    with assms show thesis by (intro refused) (auto simp: finalize_v2_transform_def)
  next
    case source: (Inr source)
    show thesis
    proof (cases "managed_step_contract (cs_step source)")
      case (Inl e)
      with assms source show thesis by (intro refused) (auto simp: finalize_v2_transform_def)
    next
      case contract: (Inr contract)
      obtain semantic input output_revision where c: "contract = (semantic, input, output_revision)" by (metis prod_cases3)
      let ?completed = "completion_of L (tp_envelope_ref proposal) ?r (tp_evidence_ids proposal) (tp_evidence_head proposal) binding now hr"
      show thesis
      proof (cases "semantic = SemTransform \<and> is_ok ?completed \<and> output_revision \<noteq> None")
        case False
        with assms source contract c have ?refused
          by (auto simp: finalize_v2_transform_def is_ok_def split: sum.splits option.splits if_splits)
        then show thesis using refused by blast
      next
        case True
        then obtain completion expected where ok: "semantic = SemTransform" "?completed = Inr completion" "output_revision = Some expected"
          by (auto simp: is_ok_iff)
        let ?register = "register_sealed_transform_output L F uuid \<lparr>ma_envelope_ref = tp_envelope_ref proposal, ma_run_control_ref = ?r,
            ma_context = ev_context (ce_envelope completion), ma_current = current_authority binding now\<rparr>
           (tp_output_seal proposal) (or_logical_object_id input) expected (tp_display_name proposal) (tp_media_type proposal)
           (cs_expires_at source) (hr_managed_objects hr) (hr_managed_resources hr)"
        let ?bad = "transform_mismatch ?h proposal input expected
            \<or> ev_result_contract (ce_envelope completion) \<noteq> ResTransform (expected_input ?h input) expected (so_handle_ref (tp_output_seal proposal))
            \<or> \<not> run_is_quiescent ?r (hr_execution_worlds hr) \<or> \<not> idle"
        obtain registered objects rv where reg: "?register = (registered, objects, rv)" by (metis prod_cases3)
        obtain ended st where run: "complete_run_authoritatively ?r (hr_effect_authority hr) = (ended, st)" by fastforce
        show thesis
        proof (cases "?bad \<or> (\<exists>e. registered = Inl e) \<or> (\<exists>e. ended = Inl e)")
          case True
          with assms source contract c ok run reg have ?refused
            by (auto simp: finalize_v2_transform_def dest: complete_run_refused split: sum.splits if_splits)
          then show thesis using refused by blast
        next
          case False
          then obtain acquisition u where r: "registered = Inr acquisition" "ended = Inr u" by (cases registered; cases ended) auto
          obtain persisted db where db: "persist_transform_result (transform_row proposal (ma_object acquisition) now) (hr_db hr) = (persisted, db)"
            by fastforce
          from False r assms source contract c ok run reg db show thesis
            by (intro finished) (auto simp: finalize_v2_transform_def split: if_splits)
        qed
      qed
    qed
  qed
qed


section \<open>What is stored of a finalized step\<close>

lemma persist_execute_Inr:
  assumes "persist_execute_result row db = (Inr (), db')"
  shows "db_execute_results db' = db_execute_results db @ [row]"
    and "db_claims db' = complete_claims (xw_attempt_id row) (xw_step_id row) (xw_evidence_head row) (xw_completed_at row) (db_claims db)"
    and "\<exists>c \<in> set (db_claims db). claim_open (xw_attempt_id row) (xw_step_id row) c"
proof -
  from assms show "db_execute_results db' = db_execute_results db @ [row]"
    and "db_claims db' = complete_claims (xw_attempt_id row) (xw_step_id row) (xw_evidence_head row) (xw_completed_at row) (db_claims db)"
    by (auto simp: persist_execute_result_def insert_row_def res_simps split: sum.splits if_splits)
  from assms have "length (filter (claim_open (xw_attempt_id row) (xw_step_id row)) (db_claims db)) = 1"
    by (auto simp: persist_execute_result_def res_simps split: sum.splits if_splits)
  then have "filter (claim_open (xw_attempt_id row) (xw_step_id row)) (db_claims db) \<noteq> []" by auto
  then show "\<exists>c \<in> set (db_claims db). claim_open (xw_attempt_id row) (xw_step_id row) c" by (auto simp: filter_empty_conv)
qed

lemma persist_transform_Inr:
  assumes "persist_transform_result row db = (Inr (), db')"
  shows "db_transform_results db' = db_transform_results db @ [row]"
    and "db_claims db' = complete_claims (rw_attempt_id row) (rw_step_id row) (rw_evidence_head row) (rw_completed_at row) (db_claims db)"
    and "\<exists>c \<in> set (db_claims db). claim_open (rw_attempt_id row) (rw_step_id row) c"
proof -
  from assms show "db_transform_results db' = db_transform_results db @ [row]"
    and "db_claims db' = complete_claims (rw_attempt_id row) (rw_step_id row) (rw_evidence_head row) (rw_completed_at row) (db_claims db)"
    by (auto simp: persist_transform_result_def insert_row_def res_simps split: sum.splits if_splits)
  from assms have "length (filter (claim_open (rw_attempt_id row) (rw_step_id row)) (db_claims db)) = 1"
    by (auto simp: persist_transform_result_def res_simps split: sum.splits if_splits)
  then have "filter (claim_open (rw_attempt_id row) (rw_step_id row)) (db_claims db) \<noteq> []" by auto
  then show "\<exists>c \<in> set (db_claims db). claim_open (rw_attempt_id row) (rw_step_id row) c" by (auto simp: filter_empty_conv)
qed

lemma completed_claims:
  assumes "\<exists>c \<in> set rows. claim_open attempt wanted c"
  shows "\<exists>c \<in> set (complete_claims attempt wanted head now rows). cw_attempt_id c = attempt \<and> cw_step_id c = wanted
      \<and> cw_state c = ClaimCompleted \<and> cw_evidence_head c = Some head"
    and "\<forall>c \<in> set (complete_claims attempt wanted head now rows). \<not> claim_open attempt wanted c"
proof -
  from assms obtain c where "c \<in> set rows" "claim_open attempt wanted c" by blast
  then show "\<exists>c \<in> set (complete_claims attempt wanted head now rows). cw_attempt_id c = attempt \<and> cw_step_id c = wanted
      \<and> cw_state c = ClaimCompleted \<and> cw_evidence_head c = Some head"
    unfolding complete_claims_def set_map by (intro bexI [OF _ imageI [where x = c]]) (auto simp: claim_open_def)
  show "\<forall>c \<in> set (complete_claims attempt wanted head now rows). \<not> claim_open attempt wanted c"
  proof
    fix c assume "c \<in> set (complete_claims attempt wanted head now rows)"
    then obtain c0 where "c = (if claim_open attempt wanted c0
        then c0\<lparr>cw_state := ClaimCompleted, cw_evidence_head := Some head, cw_completed_at := Some now\<rparr> else c0)"
      unfolding complete_claims_def set_map by (elim imageE)
    then show "\<not> claim_open attempt wanted c" by (cases "claim_open attempt wanted c0") (simp_all, simp add: claim_open_def)
  qed
qed

lemma closed_claim_not_loaded:
  assumes "\<forall>c \<in> set (db_claims db). \<not> claim_open attempt wanted c"
  shows "\<exists>e. load_completion_source h attempt wanted context_ref envelope_ref run_ref binding now db = Inl e"
proof (rule ccontr)
  assume "\<nexists>e. load_completion_source h attempt wanted context_ref envelope_ref run_ref binding now db = Inl e"
  then obtain source where "load_completion_source h attempt wanted context_ref envelope_ref run_ref binding now db = Inr source"
    by (cases "load_completion_source h attempt wanted context_ref envelope_ref run_ref binding now db") auto
  then obtain c t a v where claim: "find_claim db attempt wanted context_ref envelope_ref run_ref = Some (c, t, a, v)" and "cw_state c = ClaimClaimed"
    by (auto simp: load_completion_source_def completion_mismatch_def Let_def res_simps)
  moreover from claim have "c \<in> set (db_claims db)" "cw_attempt_id c = attempt" "cw_step_id c = wanted"
    by (auto simp: find_claim_def dest: find_SomeD split: option.splits)
  ultimately show False using assms by (auto simp: claim_open_def)
qed

lemma closed_claim_not_finalized:
  assumes "\<forall>c \<in> set (db_claims (hr_db hr)). \<not> claim_open attempt wanted c"
  shows "xp_attempt_id execute = attempt \<and> xp_step_id execute = wanted \<Longrightarrow> \<exists>e. finalize_v2_execute L idle execute binding now hr = (Inl e, hr)"
    and "tp_attempt_id transform = attempt \<and> tp_step_id transform = wanted \<Longrightarrow>
      \<exists>e. finalize_v2_transform L F uuid idle transform binding now hr = (Inl e, hr)"
proof -
  assume "xp_attempt_id execute = attempt \<and> xp_step_id execute = wanted"
  with closed_claim_not_loaded [OF assms, of "hr_local_host_ref hr" "xp_context_ref execute" "xp_envelope_ref execute"
      "xp_run_control_ref execute" binding now]
  show "\<exists>e. finalize_v2_execute L idle execute binding now hr = (Inl e, hr)"
    by (auto simp: finalize_v2_execute_def Let_def map_err_def)
next
  assume "tp_attempt_id transform = attempt \<and> tp_step_id transform = wanted"
  with closed_claim_not_loaded [OF assms, of "hr_local_host_ref hr" "tp_context_ref transform" "tp_envelope_ref transform"
      "tp_run_control_ref transform" binding now]
  show "\<exists>e. finalize_v2_transform L F uuid idle transform binding now hr = (Inl e, hr)"
    by (auto simp: finalize_v2_transform_def Let_def map_err_def)
qed

lemma registered_object:
  assumes "register_sealed_transform_output L F uuid access seal lid n name media t objects rv = (Inr acquisition, objects', rv')"
  shows "mo_logical_object_id (ma_object acquisition) = lid" "mo_revision (ma_object acquisition) = n"
    "mo_host_ref (ma_object acquisition) = os_local_host_ref objects"
proof -
  from assms obtain input digest now where "register_core_transform_revision L F uuid input lid n digest now objects = (Inr acquisition, objects')"
    by (cases rule: register_cases) auto
  then have "\<exists>host p root identity. acquisition = bd_acquisition (StoredBinding_of host input lid n uuid p root identity) \<and> host = os_local_host_ref objects"
    by (auto simp: register_core_transform_revision_def acquire_def Let_def prune_expired_def split: if_splits sum.splits prod.splits)
  then show "mo_logical_object_id (ma_object acquisition) = lid" "mo_revision (ma_object acquisition) = n"
    "mo_host_ref (ma_object acquisition) = os_local_host_ref objects"
    by (auto simp: StoredBinding_of_def)
qed

lemma complete_run_Inr:
  assumes "complete_run_authoritatively r st = (Inr (), st')"
  shows "\<exists>run. hm_get (st_runs st') r = Some run \<and> mr_state run = Finished" and "\<forall>r'. r' \<noteq> r \<longrightarrow> hm_get (st_runs st') r' = hm_get (st_runs st) r'"
  using assms by (auto simp: complete_run_authoritatively_def run_mut_def set_run_state_def revoke_run_resources_def hmap_simps res_simps
      split: sum.splits if_splits option.splits)

lemma completion_evidence_allowed:
  assumes "completion_evidence L r k current st = Inr completion"
  shows "ce_evidence completion \<noteq> []" "list_all (\<lambda>e. ee_decision e = Allowed) (ce_evidence completion)" "ce_evidence completion = run_evidence r st"
  using assms by (auto simp: completion_evidence_def Let_def res_simps list_all_iff list_ex_iff)

end
