(* ===== verification/Execution_Example.thy ===== *)
theory Execution_Example
  imports Execution_Steps
begin

text \<open>
  An example Host on which the operations of managed execution succeed: a sealed Plan with an Execute and a Transform step, the tables of
  its attempt, a claim of the Execute step from the loaded source to the recorded row, and a finalized result of each kind.
\<close>

section \<open>An example Host\<close>

text \<open>Texts of printable ASCII characters are identifiers as they are.\<close>

definition graphic :: "string \<Rightarrow> bool" where
  "graphic s \<longleftrightarrow> list_all (\<lambda>c. 33 \<le> (of_char c :: nat) \<and> (of_char c :: nat) < 127) s"

lemma graphic_simps [simp]:
  "graphic (s @ t) \<longleftrightarrow> graphic s \<and> graphic t" "graphic []"
  "graphic (c # s) \<longleftrightarrow> 33 \<le> (of_char c :: nat) \<and> (of_char c :: nat) < 127 \<and> graphic s"
  "graphic (replicate n c) \<longleftrightarrow> n = 0 \<or> 33 \<le> (of_char c :: nat) \<and> (of_char c :: nat) < 127"
  by (auto simp: graphic_def list_all_iff)

lemma trim_graphic:
  assumes "graphic s"
  shows "trim s = s" and "\<not> has_control s"
proof -
  have start: "trim_start z = z" if "graphic z" for z
    using that by (cases z) (auto simp: ws1_def ws2_def ws3_def Let_def split: list.splits)
  have rear: "trim_rev z = z" if "graphic z" for z
    using that by (cases z) (auto simp: ws1_def ws2_def ws3_def Let_def split: list.splits)
  have "graphic (rev s)" using assms by (simp add: graphic_def)
  with start [OF assms] rear show "trim s = s" by (simp add: trim_def)
  show "\<not> has_control s" using assms by (induction s rule: has_control.induct) auto
qed

lemma validate_id_graphic: "graphic s \<Longrightarrow> s \<noteq> [] \<Longrightarrow> length s \<le> 256 \<Longrightarrow> validate_id s label = Inr ()"
  by (simp add: validate_id_def trim_graphic EFFECT_MAX_ID_LEN_def)

lemma graphic_hash [simp]: "graphic (blake3_hex ex_lib m)" "length (blake3_hex ex_lib m) = 64" "blake3_hex ex_lib m \<noteq> []"
  by (simp_all add: ex_lib_def)

lemma domain_hash_id:
  "graphic d \<Longrightarrow> length d \<le> 128 \<Longrightarrow> validate_id (d @ '':'' @ blake3_hex ex_lib m) label = Inr ()"
  by (intro validate_id_graphic) simp_all


text \<open>One Host that asks itself to execute revision 1 of an object and to write revision 2.\<close>

definition fx_ref :: PlanParticipantRef where
  "fx_ref = PARTICIPANT_REF_PREFIX @ blake3_hex ex_lib (participant_ref_message ''p'' ''host'')"

definition fx_object :: "u64 \<Rightarrow> ManagedObjectRevisionV2" where
  "fx_object n = \<lparr>or_logical_object_id = ex_object, or_revision = n\<rparr>"

definition fx_execute :: PlanStepV2 where "fx_execute = ExecuteStep ''s1'' [] fx_ref (fx_object 1) ''run''"
definition fx_transform :: PlanStepV2 where "fx_transform = TransformStep ''s2'' [] fx_ref (fx_object 1) (fx_object 2) ''edit''"

definition fx_plan :: PlanRevisionV2 where
  "fx_plan = \<lparr>pr_schema_version = PLAN_SCHEMA_VERSION, pr_plan_id = ''p'', pr_revision_id = ''r'', pr_revision_number = 1,
     pr_revision_hash = [], pr_bridge_id = ''x'', pr_requester = fx_ref,
     pr_participants = [\<lparr>pp_participant_ref = fx_ref, pp_host_ref = ''host''\<rparr>],
     pr_roots = [\<lparr>rt_root_id = ''q'', rt_object = fx_object 1, rt_host = fx_ref\<rparr>], pr_original_user_goal = ''goal'',
     pr_expected_outcome = ''outcome'', pr_steps = [fx_execute, fx_transform]\<rparr>"

definition fx_sealed :: PlanRevisionV2 where
  "fx_sealed = fx_plan\<lparr>pr_revision_hash := HASH_VERSION @ '':'' @ blake3_hex ex_lib (revision_hash_message ex_lib fx_plan)\<rparr>"

definition fx_approval :: PlanApprovalV2 where
  "fx_approval = \<lparr>ap_approval_id = ''q'', ap_plan_id = ''p'', ap_revision_id = ''r'', ap_revision_hash = pr_revision_hash fx_sealed,
     ap_bridge_id = ''x'', ap_requester = fx_ref, ap_expires_at = 50\<rparr>"

abbreviation fx_fresh :: HostExecutionFreshness where "fx_fresh \<equiv> ch_execution_freshness ex_current"

definition fx_admission :: HostAdmission where
  "fx_admission = the_admission ex_lib ''host'' fx_sealed fx_approval
     \<lparr>ar_attempt_id = ''s5'', ar_approval_id = ''q'', ar_plan_id = ''p'', ar_revision_id = ''r'', ar_revision_hash = pr_revision_hash fx_sealed,
      ar_host_ref = ''host'', ar_participant_ref = fx_ref, ar_protocol_correlation_id = ''s3'', ar_execution_freshness = fx_fresh\<rparr> fx_fresh"

definition fx_attempt :: AttemptRow where
  "fx_attempt = \<lparr>tw_attempt_id = ''s5'', tw_bridge_id = ''x'', tw_approval_id = ''q'', tw_plan_id = ''p'', tw_revision_id = ''r'',
     tw_revision_hash = pr_revision_hash fx_sealed, tw_target = fx_ref, tw_correlation_id = ''s3'', tw_session_binding_ref = ''x'',
     tw_admission_ref = ad_admission_ref fx_admission, tw_expires_at = 30, tw_state = AttemptStateAccepted, tw_created_at = 1\<rparr>"

definition fx_approval_row :: ApprovalRow where
  "fx_approval_row = \<lparr>pw_approval_id = ''q'', pw_plan_id = ''p'', pw_revision_id = ''r'', pw_bridge_id = ''x'',
     pw_revision_hash = pr_revision_hash fx_sealed, pw_requester = fx_ref, pw_expires_at = 50, pw_state = ApprovalValid, pw_created_at = 1,
     pw_approval = fx_approval\<rparr>"

definition fx_revision_row :: RevisionRow where
  "fx_revision_row = \<lparr>vw_revision_id = ''r'', vw_plan_id = ''p'', vw_bridge_id = ''x'', vw_revision_number = 1,
     vw_revision_hash = pr_revision_hash fx_sealed, vw_requester = fx_ref, vw_created_at = 1, vw_revision = fx_sealed\<rparr>"

text \<open>The review the Host recorded for itself and the start it accepted, from which these rows come.\<close>

definition fx_review :: ReviewRequestV2 where
  "fx_review = \<lparr>rv_protocol_version = PROTOCOL_VERSION, rv_message_id = ''s1'', rv_correlation_id = ''s3'', rv_request_nonce = ''s4'',
     rv_sender = fx_ref, rv_target = fx_ref, rv_approval = fx_approval, rv_revision = fx_sealed\<rparr>"

definition fx_start :: AttemptStartV2 where
  "fx_start = \<lparr>as_protocol_version = PROTOCOL_VERSION, as_message_id = ''s2'', as_correlation_id = ''s3'', as_request_nonce = ''s4'',
     as_attempt_id = ''s5'', as_approval_id = ''q'', as_plan_id = ''p'', as_revision_id = ''r'', as_revision_hash = pr_revision_hash fx_sealed,
     as_bridge_id = ''x'', as_sender = fx_ref, as_target = fx_ref, as_expires_at = 30\<rparr>"

definition fx_db :: "ClaimRow list \<Rightarrow> plan_db" where
  "fx_db claims = empty_db\<lparr>db_revisions := [fx_revision_row], db_approvals := [fx_approval_row], db_reviews := [review_row fx_review],
     db_attempts := [fx_attempt], db_claims := claims\<rparr>"

lemma graphic_object: "graphic ex_object" "length ex_object \<le> 128" "ex_object \<noteq> []"
  by (simp_all add: ex_object_def ex_uuid_def MANAGED_OBJECT_PREFIX_def)

lemma bounded_graphic: "graphic s \<Longrightarrow> s \<noteq> [] \<Longrightarrow> length s \<le> n \<Longrightarrow> bounded_text n s"
  by (simp add: bounded_text_def trim_graphic)

lemma fx_plan_legal: "plan_legal ex_lib fx_plan"
proof -
  have ids: "128 \<le> MAX_ID_LEN" "128 \<le> MAX_TEXT_LEN" by (simp_all add: MAX_ID_LEN_def MAX_TEXT_LEN_def)
  have short: "graphic s \<Longrightarrow> s \<noteq> [] \<Longrightarrow> length s \<le> 128 \<Longrightarrow> bounded_text MAX_ID_LEN s"
    "graphic s \<Longrightarrow> s \<noteq> [] \<Longrightarrow> length s \<le> 128 \<Longrightarrow> bounded_text MAX_TEXT_LEN s" for s
    using bounded_graphic ids by (meson le_trans)+
  have parts: "participants_legal ex_lib ''p'' [\<lparr>pp_participant_ref = fx_ref, pp_host_ref = ''host''\<rparr>]"
    by (simp add: participants_legal_def PlanParticipantRef_for_host_def fx_ref_def trim_graphic)
  have "steps_legal {fx_ref} (pr_roots fx_plan) ([] @ [fx_execute] @ [fx_transform])"
    unfolding append_assoc [symmetric] steps_legal_snoc
    by (simp add: steps_legal_def step_legal_def fx_execute_def fx_transform_def fx_object_def last_writer_def writes_def written_state_def root_state_def
      fx_plan_def consumes_ok_def state_of_def object_ok_def short graphic_object)
  then have steps: "steps_legal {fx_ref} (pr_roots fx_plan) (pr_steps fx_plan)" by (simp add: fx_plan_def)
  have roots: "roots_legal {fx_ref} (pr_roots fx_plan)"
    by (simp add: fx_plan_def roots_legal_def object_ok_def fx_object_def short graphic_object)
  have refs: "pp_participant_ref ` set (pr_participants fx_plan) = {fx_ref}" by (simp add: fx_plan_def)
  show ?thesis
    unfolding plan_legal_def refs using steps roots parts
    by (simp add: fx_plan_def MAX_PARTICIPANTS_def MAX_ROOTS_def MAX_STEPS_def short)
qed


lemma fx_sealed_fields [simp]:
  "pr_plan_id fx_sealed = ''p''" "pr_revision_id fx_sealed = ''r''" "pr_bridge_id fx_sealed = ''x''" "pr_requester fx_sealed = fx_ref"
  "pr_participants fx_sealed = [\<lparr>pp_participant_ref = fx_ref, pp_host_ref = ''host''\<rparr>]" "pr_steps fx_sealed = [fx_execute, fx_transform]"
  by (simp_all add: fx_sealed_def fx_plan_def)

lemma fx_fresh_fields [simp]:
  "freshness_local_host_ref fx_fresh = ''host''" "freshness_bridge_id fx_fresh = ''x''" "freshness_expires_at fx_fresh = 70"
  "freshness_authority_ref fx_fresh = ''x''" "\<exists>f. fx_fresh = LocalFreshness f"
  by (simp_all add: ex_current_def)

lemma fx_rows [simp]:
  "tw_attempt_id fx_attempt = ''s5''" "tw_target fx_attempt = fx_ref" "tw_expires_at fx_attempt = 30" "tw_state fx_attempt = AttemptStateAccepted"
  "tw_approval_id fx_attempt = ''q''" "tw_revision_id fx_attempt = ''r''" "tw_admission_ref fx_attempt = ad_admission_ref fx_admission"
  "pw_state fx_approval_row = ApprovalValid" "pw_approval fx_approval_row = fx_approval" "pw_approval_id fx_approval_row = ''q''"
  "vw_revision fx_revision_row = fx_sealed" "vw_revision_id fx_revision_row = ''r''"
  "ap_approval_id fx_approval = ''q''" "ap_expires_at fx_approval = 50"
  by (simp_all add: fx_attempt_def fx_approval_row_def fx_revision_row_def fx_approval_def)

lemma fx_found: "find_attempt (fx_db claims) ''s5'' = Some (fx_attempt, fx_approval_row, fx_revision_row)"
  by (simp add: find_attempt_def stored_attempt_def fx_db_def)

lemma fx_sealed_verifies: "verify_sealed_revision ex_lib fx_sealed = Inr ()"
  using fx_plan_legal by (simp add: verify_sealed_Inr fx_sealed_def plan_legal_ignores_hash revision_hash_message_def semantic_revision_ignores_hash)

lemma fx_steps [simp]:
  "step_id fx_execute = ''s1''" "step_id fx_transform = ''s2''" "dependencies fx_execute = []" "dependencies fx_transform = []"
  "is_managed fx_execute" "is_managed fx_transform" "binds_participant fx_execute fx_ref" "binds_participant fx_transform fx_ref"
  "operation fx_execute = OpExecute" "operation fx_transform = OpTransform"
  by (simp_all add: fx_execute_def fx_transform_def is_managed_def)

lemma load_claim_source_fields:
  assumes "load_claim_source L coordinated committed h attempt wanted captured current now db = Inr source"
    and "find_attempt db attempt = Some (t, a, v)"
  shows "cs_approval source = pw_approval a \<and> cs_admission_ref source = tw_admission_ref t \<and> cs_participant_ref source = tw_target t"
  using assms unfolding load_claim_source_def by (auto simp: res_simps Let_def)

lemma fx_loads:
  assumes "now < 30" and "s \<in> {fx_execute, fx_transform}"
  shows "load_claim_source ex_lib (\<lambda>_. False) (\<lambda>_ _. Inr True) ''host'' ''s5'' (step_id s) fx_fresh fx_fresh now (fx_db claims)
    = Inr \<lparr>cs_revision = fx_sealed, cs_approval = fx_approval, cs_step = s, cs_admission_ref = ad_admission_ref fx_admission,
       cs_participant_ref = fx_ref, cs_expires_at = 30\<rparr>"
proof -
  let ?load = "load_claim_source ex_lib (\<lambda>_. False) (\<lambda>_ _. Inr True) ''host'' (tw_attempt_id fx_attempt) (step_id s) fx_fresh fx_fresh now (fx_db claims)"
  have req: "row_request ''host'' fx_attempt fx_fresh = \<lparr>ar_attempt_id = ''s5'', ar_approval_id = ''q'', ar_plan_id = ''p'', ar_revision_id = ''r'',
      ar_revision_hash = pr_revision_hash fx_sealed, ar_host_ref = ''host'', ar_participant_ref = fx_ref,
      ar_protocol_correlation_id = ''s3'', ar_execution_freshness = fx_fresh\<rparr>"
    by (simp add: row_request_def) (simp add: fx_attempt_def)
  have "\<exists>source. ?load = Inr source \<and> cs_step source = s \<and> cs_revision source = vw_revision fx_revision_row
      \<and> cs_expires_at source = min (tw_expires_at fx_attempt) (freshness_expires_at fx_fresh)"
  proof (rule ready_step_loads [where made = 2])
    show "find_attempt (fx_db claims) (tw_attempt_id fx_attempt) = Some (fx_attempt, fx_approval_row, fx_revision_row)"
      using fx_found by simp
    show "admission_conditions ex_lib ''host'' (vw_revision fx_revision_row) (pw_approval fx_approval_row) (row_request ''host'' fx_attempt fx_fresh) fx_fresh
        (verified_attachment ''host'' True True) 2"
      unfolding admission_conditions_def req
      by (simp add: fx_sealed_verifies local_steps_def trim_graphic verified_attachment_def ex_current_def) (simp add: fx_approval_def)
    show "tw_admission_ref fx_attempt = ad_admission_ref (the_admission ex_lib ''host'' (vw_revision fx_revision_row)
        (pw_approval fx_approval_row) (row_request ''host'' fx_attempt fx_fresh) fx_fresh)"
      unfolding req by (simp add: fx_admission_def)
  qed (use assms in \<open>auto simp: fx_attempt_def\<close>)
  then obtain source where load: "?load = Inr source" and f: "cs_step source = s" "cs_revision source = fx_sealed" "cs_expires_at source = 30" by auto
  from load have load': "load_claim_source ex_lib (\<lambda>_. False) (\<lambda>_ _. Inr True) ''host'' ''s5'' (step_id s) fx_fresh fx_fresh now (fx_db claims) = Inr source" by simp
  from load_claim_source_fields [OF load' fx_found] load' f show ?thesis by (cases source) simp
qed

text \<open>The tables without a claim are reached by recording the review and accepting the start.\<close>

definition fx_reviewed :: plan_db where
  "fx_reviewed = empty_db\<lparr>db_revisions := [fx_revision_row], db_approvals := [fx_approval_row], db_reviews := [review_row fx_review]\<rparr>"

lemma fx_ids: "graphic s \<Longrightarrow> s \<noteq> [] \<Longrightarrow> length s \<le> 2 \<Longrightarrow> check_id s label = Inr ()"
  using bounded_graphic [of s MAX_ID_LEN] by (simp add: check_id_def MAX_ID_LEN_def)

abbreviation fx_local :: LocalExecutionFreshness where
  "fx_local \<equiv> \<lparr>lf_bridge_id = ''x'', lf_local_runtime_ref = \<lparr>lr_host_ref = ''host'', lr_generation_ref = ''x''\<rparr>, lf_expires_at = 70\<rparr>"

lemma fx_records: "record_local_authority_snapshot ex_lib (\<lambda>_. True) fx_review fx_local 1 empty_db = (Inr (), fx_reviewed)"
proof -
  have "validate_local_authority_snapshot ex_lib fx_review 1 = Inr ()"
    by (simp add: validate_local_authority_snapshot_def validate_review_common_def validate_approval_def fx_review_def fx_sealed_verifies fx_ids
        participant_for_ref_def) (simp add: fx_approval_def MAX_LIFETIME_def)
  moreover have "validate_local_review_freshness fx_review fx_local 1 = Inr ()"
    by (simp add: validate_local_review_freshness_def fx_review_def participant_for_ref_def)
  moreover have "revision_row fx_review 1 = fx_revision_row" "approval_row fx_review 1 = fx_approval_row"
    by (simp_all add: revision_row_def approval_row_def Let_def fx_review_def fx_revision_row_def fx_approval_row_def)
      (simp_all add: fx_sealed_def fx_plan_def fx_approval_def)
  then have "persist_review fx_review 1 empty_db = (Inr (), fx_reviewed)"
    by (simp add: persist_review_def insert_row_def empty_db_def fx_reviewed_def) (simp add: fx_review_def fx_approval_def)
  ultimately show ?thesis by (simp add: record_local_authority_snapshot_def ensure_active_bridge_def)
qed

lemma fx_starts:
  "accept_attempt_start_with_freshness ex_lib (\<lambda>_. True) ''host'' fx_start fx_fresh fx_fresh (verified_attachment ''host'' True True) 1 fx_reviewed
   = (Inr (AttemptAccepted \<lparr>aa_attempt_id = ''s5'', aa_admission_ref = ad_admission_ref fx_admission\<rparr>), fx_db [])"
proof -
  have "validate_attempt_start fx_start 1 = Inr ()"
    by (simp add: validate_attempt_start_def fx_start_def fx_ids MAX_LIFETIME_def)
  moreover have "stored_review fx_reviewed ''x'' ''s3'' = Some (review_row fx_review, fx_approval_row, fx_revision_row)"
    by (simp add: stored_review_def find_review_def fx_reviewed_def review_row_def Let_def) (simp add: fx_review_def)
  moreover have "\<not> start_mismatch fx_start fx_review"
    by (simp add: start_mismatch_def fx_start_def fx_review_def)
  moreover have "rv_approval fx_review = fx_approval" "rv_revision fx_review = fx_sealed" "qw_review (review_row fx_review) = fx_review"
    by (simp_all add: fx_review_def review_row_def Let_def)
  ultimately have check: "check_start (\<lambda>_. True) fx_start 1 fx_reviewed = Inr fx_review"
    by (simp add: check_start_def ensure_active_bridge_def) (simp add: fx_start_def)
  have claim: "claim_message fx_fresh fx_start 1 fx_reviewed = Inr fx_reviewed" by (simp add: claim_message_def is_remote_def ex_current_def)
  have req: "start_request fx_start fx_fresh = \<lparr>ar_attempt_id = ''s5'', ar_approval_id = ''q'', ar_plan_id = ''p'', ar_revision_id = ''r'',
      ar_revision_hash = pr_revision_hash fx_sealed, ar_host_ref = ''host'', ar_participant_ref = fx_ref,
      ar_protocol_correlation_id = ''s3'', ar_execution_freshness = fx_fresh\<rparr>"
    by (simp add: start_request_def) (simp add: fx_start_def)
  have "admission_conditions ex_lib ''host'' fx_sealed fx_approval (start_request fx_start fx_fresh) fx_fresh (verified_attachment ''host'' True True) 1"
    unfolding admission_conditions_def req
    by (simp add: fx_sealed_verifies local_steps_def trim_graphic verified_attachment_def ex_current_def) (simp add: fx_approval_def)
  then have eval: "evaluate_v2_with_availability ex_lib ''host'' (rv_revision fx_review) (rv_approval fx_review) (start_request fx_start fx_fresh)
      fx_fresh (verified_attachment ''host'' True True) 1 = Inr (Admit fx_admission)"
    by (simp add: evaluate_Admit fx_admission_def req fx_review_def)
  have "attempt_row fx_start fx_fresh fx_admission 1 = fx_attempt" by (simp add: attempt_row_def fx_attempt_def) (simp add: fx_start_def)
  then have "insert_row attempt_conflict (as_approval_id fx_start \<in> pw_approval_id ` set (db_approvals fx_reviewed))
      (attempt_row fx_start fx_fresh fx_admission 1) (db_attempts fx_reviewed) = Inr [fx_attempt]"
    by (simp add: insert_row_def fx_reviewed_def empty_db_def) (simp add: fx_start_def)
  with check claim eval show ?thesis
    by (simp add: accept_attempt_start_with_freshness_def fx_db_def fx_reviewed_def empty_db_def) (simp add: fx_start_def)
qed

lemma fx_db_reachable: "reachable_db ex_lib ''host'' (\<lambda>_. False) (fx_db [])"
proof -
  have "reachable_db ex_lib ''host'' (\<lambda>_. False) fx_reviewed"
    using reachable_step [OF reachable_init step_local_review] fx_records by (metis snd_conv)
  then show ?thesis using reachable_step [OF _ step_start] fx_starts by (metis snd_conv)
qed

lemma fx_completes:
  assumes "now < 30" and "s \<in> {fx_execute, fx_transform}"
  shows "load_completion_source ''host'' ''s5'' (step_id s) c e r fx_fresh now (fx_db [new_claim ''s5'' (step_id s) (operation s) c e r 5])
    = Inr \<lparr>cs_revision = fx_sealed, cs_approval = fx_approval, cs_step = s, cs_admission_ref = ad_admission_ref fx_admission,
       cs_participant_ref = fx_ref, cs_expires_at = 30\<rparr>"
proof -
  let ?claim = "new_claim ''s5'' (step_id s) (operation s) c e r 5"
  have claim: "find_claim (fx_db [?claim]) ''s5'' (step_id s) c e r = Some (?claim, fx_attempt, fx_approval_row, fx_revision_row)"
    using fx_found [of "[?claim]"] by (simp add: find_claim_def) (simp add: fx_db_def new_claim_def)
  have ok: "\<not> completion_mismatch ''host'' fx_fresh now ?claim fx_attempt fx_approval_row fx_revision_row"
    using assms(1) by (simp add: completion_mismatch_def participant_for_ref_def) (simp add: new_claim_def)
  show ?thesis unfolding load_completion_source_def claim by (simp add: Let_def ok) (use assms(2) in auto)
qed


text \<open>A run of the example output with one allowed item of evidence, under a given result contract.\<close>

definition fx_item :: EffectEvidenceV1 where
  "fx_item = \<lparr>ee_contract_version = EFFECT_AUTHORITY_VERSION, ee_evidence_id = [], ee_evidence_digest = [], ee_prior_evidence_digest = None,
     ee_request_id = ''q'', ee_envelope_ref = ev_envelope_ref ox_envelope, ee_run_control_ref = ''run'', ee_context_ref = ox_context_ref,
     ee_sequence = 0, ee_decision = Allowed, ee_observed_preconditions = [], ee_actual_effect_summary = ''x'',
     ee_budget_debit = budgets_default, ee_facts = FactNone, ee_host_authenticator = []\<rparr>"

definition fx_evidence :: EffectEvidenceV1 where
  "fx_evidence = fx_item\<lparr>ee_evidence_id := compute_evidence_id ex_lib fx_item, ee_evidence_digest := compute_evidence_digest ex_lib fx_item,
     ee_host_authenticator := host_authenticator ex_lib [] fx_item\<rparr>"

definition fx_authority :: "ResultContractV1 \<Rightarrow> EffectAuthorityStateV1" where
  "fx_authority contract = ox_state\<lparr>st_runs := [(''run'', ox_run\<lparr>mr_next_request_sequence := 1\<rparr>)],
     st_envelopes := [(ev_envelope_ref ox_envelope, ox_envelope\<lparr>ev_result_contract := contract\<rparr>)],
     st_intents := [(''q'', \<lparr>in_request_id = ''q'', in_envelope_ref = ev_envelope_ref ox_envelope, in_run_control_ref = ''run'', in_sequence = 0,
       in_request_digest = ''d'', in_claimed_at = 6, in_terminal_evidence_id = Some (ee_evidence_id fx_evidence), in_indeterminate = False\<rparr>)],
     st_evidence := [(''run'', [fx_evidence])]\<rparr>"

lemma fx_current: "current_authority fx_fresh 10 = ex_current"
  by (simp add: current_authority_def ex_current_def)

lemma fx_completion:
  "completion_evidence ex_lib ''run'' (ev_envelope_ref ox_envelope) ex_current (fx_authority contract)
   = Inr \<lparr>ce_envelope = ox_envelope\<lparr>ev_result_contract := contract\<rparr>, ce_run = ox_run\<lparr>mr_next_request_sequence := 1\<rparr>, ce_evidence = [fx_evidence],
       ce_evidence_head = ee_evidence_digest fx_evidence\<rparr>"
proof -
  let ?st = "fx_authority contract"
  have ev: "run_evidence ''run'' ?st = [fx_evidence]" by (simp add: run_evidence_def fx_authority_def hm_get_def)
  have intents: "run_intents ''run'' ?st = [snd (hd (st_intents ?st))]" by (simp add: run_intents_def fx_authority_def hm_values_def)
  have "evidence_authentic ex_lib [] fx_evidence"
    by (simp add: evidence_authentic_def fx_evidence_def compute_evidence_id_def compute_evidence_digest_def host_authenticator_def evidence_hash_material_def)
  moreover have "st_evidence_key ?st = []" by (simp add: fx_authority_def ox_state_def ex_start_def with_evidence_key_def)
  ultimately have chain: "validate_evidence_chain ex_lib ''run'' ?st = Inr ()"
    unfolding validate_evidence_chain_def ev validate_chain_iff by (simp add: fx_evidence_def fx_item_def)
  show ?thesis
    by (simp add: completion_evidence_def Let_def ev intents chain)
      (simp add: fx_authority_def hm_get_def ox_run_def ex_run_def ox_envelope_fields ex_current_def fx_evidence_def fx_item_def
        ox_context_def ex_context_def)
qed

definition fx_host :: "plan_db \<Rightarrow> EffectAuthorityStateV1 \<Rightarrow> ManagedResourceResolverV1 \<Rightarrow> HostRuntime" where
  "fx_host db st rv = \<lparr>hr_local_host_ref = ''host'', hr_db = db, hr_effect_authority = st, hr_managed_objects = ex_bound,
     hr_managed_resources = rv, hr_execution_worlds = ExecutionWorldStateV1_default\<rparr>"

definition fx_input :: ManagedInputRevisionV1 where
  "fx_input = \<lparr>ir_logical_object_id = ex_object, ir_revision = 1, ir_host_ref = ''host''\<rparr>"

definition fx_schema :: string where "fx_schema = attachment_domain_hash ex_lib ''pastey-execute-result-schema-v1'' (JStr ''run'')"

definition fx_execute_proposal :: ExecuteResultProposalV1 where
  "fx_execute_proposal = \<lparr>xp_attempt_id = ''s5'', xp_step_id = ''s1'', xp_context_ref = ox_context_ref, xp_envelope_ref = ev_envelope_ref ox_envelope,
     xp_run_control_ref = ''run'', xp_input = fx_input, xp_evidence_ids = [ee_evidence_id fx_evidence],
     xp_evidence_head = ee_evidence_digest fx_evidence, xp_result_schema_ref = fx_schema, xp_result_digest = ''d'', xp_status = ''ok''\<rparr>"

definition fx_executing :: HostRuntime where
  "fx_executing = fx_host (fx_db [new_claim ''s5'' ''s1'' OpExecute ox_context_ref (ev_envelope_ref ox_envelope) ''run'' 5])
     (fx_authority (ResExecute [fx_input] fx_schema)) ox_new"

lemma fx_complete_run: "\<exists>st. complete_run_authoritatively ''run'' (fx_authority contract) = (Inr (), st)"
  by (simp add: complete_run_authoritatively_def run_mut_def fx_authority_def hm_get_def ox_run_def ex_run_def)

lemma fx_execute_finalizes: "\<exists>result hr'. finalize_v2_execute ex_lib True fx_execute_proposal fx_fresh 10 fx_executing = (Inr result, hr')"
proof -
  have source: "load_completion_source ''host'' ''s5'' ''s1'' ox_context_ref (ev_envelope_ref ox_envelope) ''run'' fx_fresh 10
      (fx_db [new_claim ''s5'' ''s1'' OpExecute ox_context_ref (ev_envelope_ref ox_envelope) ''run'' 5])
      = Inr \<lparr>cs_revision = fx_sealed, cs_approval = fx_approval, cs_step = fx_execute, cs_admission_ref = ad_admission_ref fx_admission,
       cs_participant_ref = fx_ref, cs_expires_at = 30\<rparr>"
    using fx_completes [of 10 fx_execute] by simp
  have contract: "managed_step_contract fx_execute = Inr (SemExecute, fx_object 1, None)" "execute_schema_ref ex_lib fx_execute = Inr fx_schema"
    by (simp_all add: managed_step_contract_def execute_schema_ref_def fx_execute_def fx_schema_def)
  have input: "expected_input ''host'' (fx_object 1) = fx_input" by (simp add: expected_input_def fx_object_def fx_input_def)
  have completion: "completion_of ex_lib (ev_envelope_ref ox_envelope) ''run'' [ee_evidence_id fx_evidence] (ee_evidence_digest fx_evidence) fx_fresh 10 fx_executing
      = Inr \<lparr>ce_envelope = ox_envelope\<lparr>ev_result_contract := ResExecute [fx_input] fx_schema\<rparr>, ce_run = ox_run\<lparr>mr_next_request_sequence := 1\<rparr>,
       ce_evidence = [fx_evidence], ce_evidence_head = ee_evidence_digest fx_evidence\<rparr>"
    unfolding completion_of_Inr by (simp add: fx_executing_def fx_host_def fx_current fx_completion)
  obtain st where run: "complete_run_authoritatively ''run'' (fx_authority (ResExecute [fx_input] fx_schema)) = (Inr (), st)" using fx_complete_run by blast
  have stored: "\<exists>db. persist_execute_result (execute_row fx_execute_proposal (execute_result ex_lib ''host'' fx_execute_proposal (fx_object 1)) 10)
      (fx_db [new_claim ''s5'' ''s1'' OpExecute ox_context_ref (ev_envelope_ref ox_envelope) ''run'' 5]) = (Inr (), db)"
    by (simp add: persist_execute_result_def execute_row_def execute_result_def fx_execute_proposal_def expected_input_def fx_object_def sql_u64_def
        fx_db_def empty_db_def insert_row_def new_claim_def claim_open_def)
  have texts: "trim ''d'' \<noteq> []" "trim ''ok'' \<noteq> []" by (simp_all add: trim_graphic)
  from stored obtain db where stored: "persist_execute_result (execute_row fx_execute_proposal (execute_result ex_lib ''host'' fx_execute_proposal (fx_object 1)) 10)
      (fx_db [new_claim ''s5'' ''s1'' OpExecute ox_context_ref (ev_envelope_ref ox_envelope) ''run'' 5]) = (Inr (), db)" by blast
  have p: "xp_attempt_id fx_execute_proposal = ''s5''" "xp_step_id fx_execute_proposal = ''s1''" "xp_context_ref fx_execute_proposal = ox_context_ref"
    "xp_envelope_ref fx_execute_proposal = ev_envelope_ref ox_envelope" "xp_run_control_ref fx_execute_proposal = ''run''"
    "xp_evidence_ids fx_execute_proposal = [ee_evidence_id fx_evidence]" "xp_evidence_head fx_execute_proposal = ee_evidence_digest fx_evidence"
    "xp_input fx_execute_proposal = fx_input" "xp_result_schema_ref fx_execute_proposal = fx_schema" "xp_result_digest fx_execute_proposal = ''d''"
    "xp_status fx_execute_proposal = ''ok''"
    by (simp_all add: fx_execute_proposal_def)
  have host: "hr_local_host_ref fx_executing = ''host''" "hr_effect_authority fx_executing = fx_authority (ResExecute [fx_input] fx_schema)"
    "hr_db fx_executing = fx_db [new_claim ''s5'' ''s1'' OpExecute ox_context_ref (ev_envelope_ref ox_envelope) ''run'' 5]"
    "run_is_quiescent ''run'' (hr_execution_worlds fx_executing)"
    by (simp_all add: fx_executing_def fx_host_def run_is_quiescent_def ExecutionWorldStateV1_default_def hm_values_def)
  show ?thesis
    by (simp add: finalize_v2_execute_def Let_def p host source contract completion input texts run stored map_err_def)
qed


lemma fx_seal:
  "\<exists>seal acquisition objects rv. register_sealed_transform_output ex_lib (ox_fs ox_tree) (ex_uuid CHR ''c'') ox_access seal ex_object 2 ''a'' ''a/b'' 30 ex_bound
      (ox_slot [(''a'', ox_file True)] True) = (Inr acquisition, objects, rv)
    \<and> so_content_digest seal = replicate 64 CHR ''2'' \<and> so_handle_ref seal = ''handle'' \<and> so_envelope_ref seal = ev_envelope_ref ox_envelope
    \<and> so_run_control_ref seal = ''run'' \<and> so_context_ref seal = ox_context_ref"
proof -
  from ox_enforce [of ex_bound] obtain evidence st where
    "ee_facts evidence = FactResource ''handle'' 1 ox_digest 1" "ee_request_id evidence = rq_request_id ox_request"
    "validate_attachment ex_lib st ox_access ''handle'' OutputSlot = Inr ox_grant" "terminal_evidence ex_lib st ox_access ''handle'' evidence = Inr ()" by blast
  from ox_seal [OF this(3,4,1,2)] obtain seal where
    "seal_output_slot ex_lib (ox_fs ox_tree) st ox_access ''handle'' ''.'' [evidence] (ox_slot [(''a'', ox_file False)] False)
      = (Inr seal, ox_slot [(''a'', ox_file True)] True)" and
    f: "so_content_digest seal = replicate 64 CHR ''2''" "so_entry_count seal = 1" "so_bytes seal = 1" "so_representation seal = RegularFileSet"
    "so_handle_ref seal = ''handle''" "so_relative_selector seal = ''.''" "so_envelope_ref seal = ev_envelope_ref ox_envelope"
    "so_run_control_ref seal = ''run''" "so_context_ref seal = ox_context_ref"
    "so_seal_ref seal = ''pastey-output-slot-regular-file-set-seal-v1:'' @ replicate 64 CHR ''2''" by blast
  from ox_register [OF f] f show ?thesis by blast
qed

definition fx_transform_proposal :: "SealedOutputEvidenceV1 \<Rightarrow> TransformResultProposalV1" where
  "fx_transform_proposal seal = \<lparr>tp_attempt_id = ''s5'', tp_step_id = ''s2'', tp_context_ref = ox_context_ref, tp_envelope_ref = ev_envelope_ref ox_envelope,
     tp_run_control_ref = ''run'', tp_input = fx_input,
     tp_output = \<lparr>vr_logical_object_id = ex_object, vr_revision = 2, vr_host_ref = ''host'', vr_content_digest = replicate 64 CHR ''2''\<rparr>,
     tp_output_seal = seal, tp_evidence_ids = [ee_evidence_id fx_evidence], tp_evidence_head = ee_evidence_digest fx_evidence,
     tp_display_name = ''a'', tp_media_type = ''a/b''\<rparr>"

abbreviation fx_transform_claim :: ClaimRow where
  "fx_transform_claim \<equiv> new_claim ''s5'' ''s2'' OpTransform ox_context_ref (ev_envelope_ref ox_envelope) ''run'' 5"

definition fx_transforming :: HostRuntime where
  "fx_transforming = fx_host (fx_db [fx_transform_claim]) (fx_authority (ResTransform fx_input 2 ''handle'')) (ox_slot [(''a'', ox_file True)] True)"

lemma fx_transform_finalizes:
  "\<exists>seal acquisition hr'. finalize_v2_transform ex_lib (ox_fs ox_tree) (ex_uuid CHR ''c'') True (fx_transform_proposal seal) fx_fresh 10 fx_transforming
     = (Inr acquisition, hr')"
proof -
  from fx_seal obtain seal acquisition objects rv where
    r: "register_sealed_transform_output ex_lib (ox_fs ox_tree) (ex_uuid CHR ''c'') ox_access seal ex_object 2 ''a'' ''a/b'' 30 ex_bound
      (ox_slot [(''a'', ox_file True)] True) = (Inr acquisition, objects, rv)"
    and f: "so_content_digest seal = replicate 64 CHR ''2''" "so_handle_ref seal = ''handle''" "so_envelope_ref seal = ev_envelope_ref ox_envelope"
      "so_run_control_ref seal = ''run''" "so_context_ref seal = ox_context_ref" by blast
  let ?p = "fx_transform_proposal seal"
  have source: "load_completion_source ''host'' ''s5'' ''s2'' ox_context_ref (ev_envelope_ref ox_envelope) ''run'' fx_fresh 10 (fx_db [fx_transform_claim])
      = Inr \<lparr>cs_revision = fx_sealed, cs_approval = fx_approval, cs_step = fx_transform, cs_admission_ref = ad_admission_ref fx_admission,
       cs_participant_ref = fx_ref, cs_expires_at = 30\<rparr>"
    using fx_completes [of 10 fx_transform] by simp
  have contract: "managed_step_contract fx_transform = Inr (SemTransform, fx_object 1, Some 2)"
    by (simp add: managed_step_contract_def fx_transform_def fx_object_def)
  have input: "expected_input ''host'' (fx_object 1) = fx_input" "or_logical_object_id (fx_object 1) = ex_object"
    by (simp_all add: expected_input_def fx_object_def fx_input_def)
  have completion: "completion_of ex_lib (ev_envelope_ref ox_envelope) ''run'' [ee_evidence_id fx_evidence] (ee_evidence_digest fx_evidence) fx_fresh 10 fx_transforming
      = Inr \<lparr>ce_envelope = ox_envelope\<lparr>ev_result_contract := ResTransform fx_input 2 ''handle''\<rparr>, ce_run = ox_run\<lparr>mr_next_request_sequence := 1\<rparr>,
       ce_evidence = [fx_evidence], ce_evidence_head = ee_evidence_digest fx_evidence\<rparr>"
    unfolding completion_of_Inr by (simp add: fx_transforming_def fx_host_def fx_current fx_completion)
  obtain st where run: "complete_run_authoritatively ''run'' (fx_authority (ResTransform fx_input 2 ''handle'')) = (Inr (), st)" using fx_complete_run by blast
  have object: "mo_revision (ma_object acquisition) = 2" using registered_object [OF r] by simp
  obtain db where stored: "persist_transform_result (transform_row ?p (ma_object acquisition) 10) (fx_db [fx_transform_claim]) = (Inr (), db)"
    by (simp add: persist_transform_result_def transform_row_def fx_transform_proposal_def fx_input_def sql_u64_def object
        fx_db_def empty_db_def insert_row_def new_claim_def claim_open_def)
  have p: "tp_attempt_id ?p = ''s5''" "tp_step_id ?p = ''s2''" "tp_context_ref ?p = ox_context_ref" "tp_envelope_ref ?p = ev_envelope_ref ox_envelope"
    "tp_run_control_ref ?p = ''run''" "tp_evidence_ids ?p = [ee_evidence_id fx_evidence]" "tp_evidence_head ?p = ee_evidence_digest fx_evidence"
    "tp_output_seal ?p = seal" "tp_display_name ?p = ''a''" "tp_media_type ?p = ''a/b''"
    by (simp_all add: fx_transform_proposal_def)
  have ok: "\<not> transform_mismatch ''host'' ?p (fx_object 1) 2"
    by (simp add: transform_mismatch_def input fx_transform_proposal_def f)
  have host: "hr_local_host_ref fx_transforming = ''host''" "hr_effect_authority fx_transforming = fx_authority (ResTransform fx_input 2 ''handle'')"
    "hr_db fx_transforming = fx_db [fx_transform_claim]" "hr_managed_objects fx_transforming = ex_bound"
    "hr_managed_resources fx_transforming = ox_slot [(''a'', ox_file True)] True" "run_is_quiescent ''run'' (hr_execution_worlds fx_transforming)"
    by (simp_all add: fx_transforming_def fx_host_def run_is_quiescent_def ExecutionWorldStateV1_default_def hm_values_def)
  have access: "\<lparr>ma_envelope_ref = ev_envelope_ref ox_envelope, ma_run_control_ref = ''run'', ma_context = ox_context, ma_current = ex_current\<rparr> = ox_access"
    by (simp add: ox_access_def)
  show ?thesis
    by (intro exI [of _ seal])
      (simp add: finalize_v2_transform_def Let_def p host source contract completion input f(2) ok ox_envelope_fields fx_current access r run stored map_err_def)
qed


section \<open>An example claim\<close>

abbreviation fx_acquired :: ManagedObjectAcquisition where "fx_acquired \<equiv> bd_acquisition (ex_stored LocalSelection 10 1 CHR ''b'')"

definition fx_request :: ManagedStepClaimRequestV1 where
  "fx_request = \<lparr>cr_attempt_id = ''s5'', cr_step_id = ''s1'', cr_input = fx_acquired, cr_captured_binding = fx_fresh, cr_current_binding = fx_fresh,
     cr_now = 5, cr_process_world = None, cr_private_scratch = False\<rparr>"

definition fx_world :: claim_world where
  "fx_world = \<lparr>cl_coordinated = (\<lambda>_. False), cl_committed = (\<lambda>_ _. Inr True), cl_fs = ex_fs, cl_executable = Inr True, cl_output_disk = ox_disk,
     cl_scratch_disk = ox_disk, cl_platform = px_platform, cl_lease = px_lease, cl_release = px_release, cl_fresh = ''fresh'', cl_during = (\<lambda>es. es)\<rparr>"

definition fx_source :: ClaimSourceV1 where
  "fx_source = \<lparr>cs_revision = fx_sealed, cs_approval = fx_approval, cs_step = fx_execute, cs_admission_ref = ad_admission_ref fx_admission,
     cs_participant_ref = fx_ref, cs_expires_at = 30\<rparr>"

definition fx_context :: AuthorityContextV1 where "fx_context = claim_context ''host'' fx_request fx_source SemExecute (fx_object 1)"
definition fx_context_ref :: AuthorityContextRefV1 where
  "fx_context_ref = domain_hash ex_lib ''pastey-authority-context-v1'' (context_json fx_context)"
definition fx_draft :: ManagedRunDraftV1 where
  "fx_draft = \<lparr>dr_context = fx_context, dr_context_ref = fx_context_ref,
     dr_run_control_ref = domain_hash ex_lib ''pastey-managed-run-v1'' (JArr [JStr fx_context_ref, ju64 1])\<rparr>"

abbreviation fx_artifact :: ResolvedManagedArtifact where "fx_artifact \<equiv> bd_artifact (ex_stored LocalSelection 10 1 CHR ''b'')"

definition fx_spec :: ResourceGrantSpecV1 where
  "fx_spec = grant_spec ''host'' 30 ManagedRevision (managed_revision_identity_ref ex_lib fx_acquired fx_artifact) {|Inspect, Read|}"

definition fx_begun :: EffectAuthorityStateV1 where "fx_begun = ex_start\<lparr>st_next_run_nonce := 1\<rparr>"

lemma fx_acquired_fields [simp]:
  "mo_logical_object_id (ma_object fx_acquired) = ex_object" "mo_revision (ma_object fx_acquired) = 1" "mo_host_ref (ma_object fx_acquired) = ''host''"
  "sb_host_ref (ma_binding fx_acquired) = ''host''" "sb_logical_object_id (ma_binding fx_acquired) = ex_object" "sb_revision (ma_binding fx_acquired) = 1"
  by (simp_all add: ex_stored_def StoredBinding_of_def)

lemma fx_request_fields [simp]:
  "cr_attempt_id fx_request = ''s5''" "cr_step_id fx_request = ''s1''" "cr_input fx_request = fx_acquired" "cr_captured_binding fx_request = fx_fresh"
  "cr_current_binding fx_request = fx_fresh" "cr_now fx_request = 5" "cr_process_world fx_request = None" "\<not> cr_private_scratch fx_request"
  by (simp_all add: fx_request_def)

lemma fx_source_fields [simp]:
  "cs_step fx_source = fx_execute" "cs_expires_at fx_source = 30" "cs_admission_ref fx_source = ad_admission_ref fx_admission"
  "cs_revision fx_source = fx_sealed" "cs_approval fx_source = fx_approval" "cs_participant_ref fx_source = fx_ref"
  by (simp_all add: fx_source_def)

lemma fx_context_fields [simp]:
  "ctx_semantic_operation fx_context = SemExecute" "ctx_host_ref fx_context = ''host''" "ctx_expires_at fx_context = 30" "ctx_issued_at fx_context = 5"
  "ctx_input_revisions fx_context = [fx_input]" "ctx_session_binding_ref fx_context = ''x''" "ctx_bridge_id fx_context = ''x''"
  by (simp_all add: fx_context_def claim_context_def fx_object_def fx_input_def)

lemma fx_checks: "claim_checks ex_lib fx_world fx_request (fx_host (fx_db claims) ex_start ox_new) = Inr (fx_source, SemExecute, fx_object 1, None, None)"
proof -
  have "load_claim_source ex_lib (\<lambda>_. False) (\<lambda>_ _. Inr True) ''host'' ''s5'' ''s1'' fx_fresh fx_fresh 5 (fx_db claims) = Inr fx_source"
    using fx_loads [of 5 fx_execute] by (simp add: fx_source_def)
  moreover have "managed_step_contract fx_execute = Inr (SemExecute, fx_object 1, None)"
    by (simp add: managed_step_contract_def fx_execute_def)
  ultimately show ?thesis
    by (simp add: claim_checks_def fx_world_def fx_host_def map_err_def) (simp add: fx_object_def)
qed

lemma fx_resolves: "resolve ex_lib ex_fs fx_acquired 5 ex_bound = (Inr fx_artifact, ex_bound)"
proof -
  have "validate_binding_ref ex_lib (MANAGED_BINDING_PREFIX @ ex_uuid CHR ''b'') = Inr ()"
    by (simp add: validate_binding_ref_def strip_prefix_def ex_lib_def plain_lib_def ex_uuid_def)
  moreover have "prune_expired 5 ex_bound = ex_bound"
    by (simp add: ex_bound_def prune_expired_def retain_claimed_revisions_def hm_retain_def hm_values_def)
  moreover have "ra_size_bytes fx_artifact = artifact_byte_count ex_content" by (simp add: ex_stored_def StoredBinding_of_def)
  ultimately show ?thesis
    by (simp add: resolve_def Let_def resolve_stored_def ex_capture_artifact)
qed

lemma fx_context_valid: "AuthorityContextV1_validate ex_lib fx_context = Inr ()"
proof -
  have ids: "validate_id s label = Inr ()" if "s \<in> {''x'', ''p'', ''r'', ''q'', ''s5'', ''s1'', ex_object}" for s label
    using that graphic_object by (intro validate_id_graphic) auto
  have "graphic HASH_VERSION" "length HASH_VERSION \<le> 128" by (simp_all add: HASH_VERSION_def)
  then have "validate_id (pr_revision_hash fx_sealed) label = Inr ()" for label
    unfolding fx_sealed_def using domain_hash_id by simp
  moreover have "validate_id (ad_admission_ref fx_admission) label = Inr ()" for label
    unfolding fx_admission_def the_admission_def admission_for_def admission_ref_v2_def Let_def by (intro validate_id_graphic) simp_all
  moreover have "PlanParticipantRef_for_host ex_lib ''p'' ''host'' = Inr fx_ref"
    by (simp add: PlanParticipantRef_for_host_def fx_ref_def trim_graphic)
  ultimately show ?thesis
    by (simp add: AuthorityContextV1_validate_def fx_context_def claim_context_def ids fx_object_def map_err_def)
qed

lemma fx_begins: "begin_run ex_lib fx_context ex_start = (Inr fx_draft, fx_begun)"
  by (simp add: begin_run_def AuthorityContextV1_context_ref_def fx_context_valid ex_start_def with_evidence_key_def checked_add_def
      fx_draft_def fx_context_ref_def fx_begun_def)


definition fx_grant :: ResourceGrantV1 where
  "fx_grant = \<lparr>rg_handle_ref = domain_hash ex_lib ''pastey-resource-handle-v1''
       (JArr [JStr fx_context_ref, JStr (dr_run_control_ref fx_draft), ju64 1, resource_kind_json ManagedRevision, JStr (gs_safe_identity_ref fx_spec)]),
     rg_context_ref = fx_context_ref, rg_run_control_ref = dr_run_control_ref fx_draft, rg_host_ref = ''host'', rg_kind = ManagedRevision,
     rg_safe_identity_ref = gs_safe_identity_ref fx_spec, rg_selector_prefix = ''.'', rg_allowed_verbs = {|Inspect, Read|},
     rg_budgets = step_budgets, rg_expires_at = 30\<rparr>"

definition fx_grants :: claim_grants where
  "fx_grants = \<lparr>cg_input = fx_grant, cg_output = None, cg_scratch = None, cg_executable = None\<rparr>"

definition fx_minted :: EffectAuthorityStateV1 where "fx_minted = fx_begun\<lparr>st_next_handle_nonce := 1\<rparr>"

lemma fx_specs: "claim_specs ex_lib ''host'' fx_request 30 SemExecute fx_artifact None fx_draft = (fx_spec, None, None, None)"
  by (simp add: claim_specs_def Let_def fx_spec_def)

lemma fx_identity: "validate_id (gs_safe_identity_ref fx_spec) label = Inr ()"
  unfolding fx_spec_def grant_spec_def managed_revision_identity_ref_def identity_ref_def resource_domain_hash_def Let_def
  using domain_hash_id [of "''pastey-managed-revision-safe-identity-v1''"] by simp

lemma fx_prefix: "validate_selector_prefix ''.'' = Inr ()"
  by (simp add: validate_selector_prefix_def validate_relative_selector_def)

lemma fx_mints: "mint_grants ex_lib fx_draft fx_spec None None None fx_begun = (Inr fx_grants, fx_minted)"
proof -
  have "validate_grant_spec fx_draft fx_spec = Inr ()"
    by (simp add: validate_grant_spec_def fx_identity) (simp add: fx_spec_def grant_spec_def fx_prefix fx_draft_def)
  then have "mint_resource_grant ex_lib fx_draft fx_spec fx_begun = (Inr fx_grant, fx_minted)"
    by (simp add: mint_resource_grant_def checked_add_def fx_begun_def ex_start_def with_evidence_key_def fx_minted_def)
      (simp add: fx_grant_def fx_spec_def grant_spec_def fx_draft_def)
  then show ?thesis by (simp add: mint_grants_def mint_if_def fx_grants_def)
qed

text \<open>Its four ceilings are the same but for their snapshots.\<close>

definition fx_ceiling :: "string \<Rightarrow> AuthorityCeilingV1" where
  "fx_ceiling = claim_ceiling fx_draft 30 False fx_grants
     (domain_hash ex_lib ''pastey-execution-world-v1'' (JArr [JStr fx_context_ref, JStr (dr_run_control_ref fx_draft), JStr NO_WORKER_WORLD_IDENTITY]))
     NO_WORKER_WORLD_IDENTITY"

lemma fx_ceiling_valid:
  assumes "graphic s" and "s \<noteq> []" and "length s \<le> 256"
  shows "validate_ceiling (fx_ceiling s) fx_context_ref (dr_run_control_ref fx_draft) ''host'' = Inr ()"
proof -
  have world: "validate_id NO_WORKER_WORLD_IDENTITY label = Inr ()" for label
    by (rule validate_id_graphic) (simp_all add: NO_WORKER_WORLD_IDENTITY_def)
  have "fx_context_ref = dr_context_ref fx_draft" by (simp add: fx_draft_def)
  with assms show ?thesis
    by (simp add: validate_ceiling_def fx_ceiling_def claim_ceiling_def grant_list_def fx_grants_def List.map_filter_def fx_grant_def fx_identity fx_prefix world
        resource_bounds_def validate_id_graphic validate_ceiling_network_def)
qed

lemma fx_resources: "intersect_resources (fx_ceiling s) [fx_ceiling t, fx_ceiling u, fx_ceiling v] = Inr [fx_grant]"
proof -
  have map: "resource_map (fx_ceiling s) = [(rg_handle_ref fx_grant, fx_grant)]" for s
    by (simp add: resource_map_def fx_ceiling_def claim_ceiling_def grant_list_def fx_grants_def List.map_filter_def bt_collect_def)
  have "meet_resource (rg_handle_ref fx_grant) fx_grant [fx_grant, fx_grant, fx_grant] = fx_grant"
    by (simp add: meet_resource_def fx_grant_def)
  moreover have "rg_allowed_verbs fx_grant \<noteq> {||}" by (simp add: fx_grant_def)
  moreover have "\<not> resource_identity_differs fx_grant fx_grant" by (simp add: resource_identity_differs_def)
  ultimately show ?thesis by (simp add: intersect_resources_def map hm_get_def)
qed

lemma fx_compiles:
  "\<exists>envelope. claim_envelope ex_lib fx_request px_platform fx_source fx_context None fx_draft fx_grants = Inr envelope \<and> ev_resources envelope = [fx_grant]
     \<and> ev_contract_version envelope = EFFECT_AUTHORITY_VERSION \<and> compute_envelope_ref ex_lib envelope = ev_envelope_ref envelope"
proof -
  have world: "execution_world_ref_for ex_lib fx_draft NO_WORKER_WORLD_IDENTITY = Inr (domain_hash ex_lib ''pastey-execution-world-v1''
      (JArr [JStr fx_context_ref, JStr (dr_run_control_ref fx_draft), JStr NO_WORKER_WORLD_IDENTITY]))"
  proof -
    have "validate_id NO_WORKER_WORLD_IDENTITY label = Inr ()" for label
      by (rule validate_id_graphic) (simp_all add: NO_WORKER_WORLD_IDENTITY_def)
    then show ?thesis by (simp add: execution_world_ref_for_def) (simp add: fx_draft_def)
  qed
  have contract: "claim_contract ex_lib fx_execute fx_context None fx_grants = Inr (ResExecute [fx_input] fx_schema)"
    by (simp add: claim_contract_def execute_schema_ref_def fx_execute_def fx_schema_def)
  have schema: "validate_id fx_schema label = Inr ()" for label
    unfolding fx_schema_def attachment_domain_hash_def using domain_hash_id [of "''pastey-execute-result-schema-v1''"] by simp
  let ?q = "\<lparr>cq_context = fx_context, cq_run_control_ref = dr_run_control_ref fx_draft, cq_semantic_ceiling = fx_ceiling ''phase5-v2-semantic-ceiling-v1'',
      cq_admission_ceiling = fx_ceiling (ad_admission_ref fx_admission), cq_host_policy_ceiling = fx_ceiling HOST_POLICY_SNAPSHOT,
      cq_confinement_ceiling = fx_ceiling NO_WORKER_WORLD_IDENTITY, cq_host_policy_snapshot_ref = HOST_POLICY_SNAPSHOT,
      cq_result_contract = ResExecute [fx_input] fx_schema\<rparr>"
  obtain w0 where same: "\<And>s. ac_world (fx_ceiling s) = w0" by (simp add: fx_ceiling_def claim_ceiling_def)
  obtain w where w: "intersect_worlds (fx_ceiling ''phase5-v2-semantic-ceiling-v1'')
      [fx_ceiling (ad_admission_ref fx_admission), fx_ceiling HOST_POLICY_SNAPSHOT, fx_ceiling NO_WORKER_WORLD_IDENTITY] = Inr w"
    by (simp add: intersect_worlds_def Let_def same)
  have net: "intersect_network (fx_ceiling s) [fx_ceiling t, fx_ceiling u, fx_ceiling v] = Inr NetDenied" for s t u v
    by (simp add: intersect_network_def fx_ceiling_def claim_ceiling_def network_grant_def)
  have snapshot: "validate_id HOST_POLICY_SNAPSHOT label = Inr ()" for label
    by (rule validate_id_graphic) (simp_all add: HOST_POLICY_SNAPSHOT_def)
  have snapshots: "graphic HOST_POLICY_SNAPSHOT" "HOST_POLICY_SNAPSHOT \<noteq> []" "length HOST_POLICY_SNAPSHOT \<le> 256"
    "graphic NO_WORKER_WORLD_IDENTITY" "NO_WORKER_WORLD_IDENTITY \<noteq> []" "length NO_WORKER_WORLD_IDENTITY \<le> 256"
    by (simp_all add: HOST_POLICY_SNAPSHOT_def NO_WORKER_WORLD_IDENTITY_def)
  have admission: "graphic (ad_admission_ref fx_admission)" "ad_admission_ref fx_admission \<noteq> []" "length (ad_admission_ref fx_admission) \<le> 256"
    by (simp_all add: fx_admission_def the_admission_def admission_for_def admission_ref_v2_def Let_def)
  have ref: "AuthorityContextV1_context_ref ex_lib fx_context = Inr fx_context_ref"
    by (simp add: AuthorityContextV1_context_ref_def fx_context_valid fx_context_ref_def)
  let ?e = "built_envelope ex_lib ?q fx_context_ref [fx_grant] w NetDenied"
  have "compile_effect_envelope ex_lib ?q = Inr ?e"
    unfolding compile_effect_envelope_iff
    by (intro exI [of _ fx_context_ref] exI [of _ "[fx_grant]"] exI [of _ w] exI [of _ NetDenied])
      (simp add: ref snapshot ceilings_of_def fx_resources w net validate_result_contract_def schema fx_ceiling_valid admission snapshots)
  then have "claim_envelope ex_lib fx_request px_platform fx_source fx_context None fx_draft fx_grants = Inr ?e"
    by (simp add: claim_envelope_def Let_def world_identity_def world contract map_err_def fx_ceiling_def)
  then show ?thesis
    by (intro exI [of _ ?e]) (simp add: built_envelope_def Let_def compute_envelope_ref_def envelope_hash_material_def)
qed


lemma fx_runs:
  "\<exists>envelope st. claim_run ex_lib fx_world ''host'' fx_request fx_source fx_context None None fx_artifact ex_start = (Inr (fx_grants, envelope), st)
     \<and> st_envelopes st = [(ev_envelope_ref envelope, envelope)] \<and> st_runs st = [(ev_run_control_ref envelope, active_run envelope)]
     \<and> st_resources st = [(rg_handle_ref fx_grant, \<lparr>rr_grant = fx_grant, rr_envelope_ref = ev_envelope_ref envelope, rr_revoked = False\<rparr>)]
     \<and> ev_context envelope = fx_context \<and> ev_context_ref envelope = fx_context_ref \<and> ev_run_control_ref envelope = rg_run_control_ref fx_grant
     \<and> ev_expires_at envelope = 30"
proof -
  from fx_compiles obtain envelope where e: "claim_envelope ex_lib fx_request px_platform fx_source fx_context None fx_draft fx_grants = Inr envelope"
    and r: "ev_resources envelope = [fx_grant]" "ev_contract_version envelope = EFFECT_AUTHORITY_VERSION" "compute_envelope_ref ex_lib envelope = ev_envelope_ref envelope" by blast
  have "ctx_expires_at fx_context = cs_expires_at fx_source" by simp
  note f = claim_envelope_fields [OF e this]
  have ref: "ev_context_ref envelope = fx_context_ref"
    using f(6) by (simp add: AuthorityContextV1_context_ref_def fx_context_valid fx_context_ref_def)
  have draft: "dr_context fx_draft = fx_context" "dr_context_ref fx_draft = fx_context_ref" by (simp_all add: fx_draft_def)
  have empty: "st_envelopes fx_minted = []" "st_runs fx_minted = []" "st_resources fx_minted = []"
    by (simp_all add: fx_minted_def fx_begun_def ex_start_def with_evidence_key_def)
  obtain st where i: "install_envelope ex_lib fx_draft envelope fx_minted = (Inr (), st)"
    and st: "st_envelopes st = [(ev_envelope_ref envelope, envelope)]"
      "st_runs st = [(ev_run_control_ref envelope, (active_run envelope)\<lparr>mr_state := Created\<rparr>)]"
      "st_resources st = [(rg_handle_ref fx_grant, \<lparr>rr_grant = fx_grant, rr_envelope_ref = ev_envelope_ref envelope, rr_revoked = False\<rparr>)]"
    by (simp add: install_envelope_def r f ref draft empty hm_contains_def hm_insert_def active_run_def)
  have a: "activate_run (ev_run_control_ref envelope) 5 st = (Inr (), set_run_state (ev_run_control_ref envelope) Active st)"
    using f(5) by (simp add: activate_run_def run_mut_def st hm_get_def active_run_def)
  have "claim_run ex_lib fx_world ''host'' fx_request fx_source fx_context None None fx_artifact ex_start
      = (Inr (fx_grants, envelope), set_run_state (ev_run_control_ref envelope) Active st)"
    by (simp add: claim_run_def fx_begins fx_specs fx_mints fx_world_def e i a)
  then show ?thesis
    using st f ref by (intro exI [of _ envelope] exI [of _ "set_run_state (ev_run_control_ref envelope) Active st"])
      (simp add: set_run_state_def hm_modify_def active_run_def fx_grant_def)
qed

text \<open>The claim up to the point where it is recorded, for any claims of the tables.\<close>

definition fx_outcome ::
  "EffectEnvelopeV1 \<Rightarrow> EffectAuthorityStateV1 \<Rightarrow> ManagedObjectBindingService \<Rightarrow> ManagedResourceResolverV1 \<Rightarrow> ManagedRunWorkspaceV1
   \<Rightarrow> ClaimRow list \<Rightarrow> (exec_error + ManagedStepGrantV1) \<times> HostRuntime" where
  "fx_outcome envelope st objects rv workspace claims =
     (let hr = fx_host (fx_db claims) ex_start ox_new in
      case record_claim ex_lib (claim_access fx_request fx_context envelope) 5 (fx_db claims) of
        (Inl e, db) \<Rightarrow> (Inl e, hr\<lparr>hr_db := db, hr_managed_objects := objects,
           hr_managed_resources := snd (resolver_purge_run (ev_run_control_ref envelope) rv),
           hr_execution_worlds := snd (terminate_run (ev_run_control_ref envelope) (cl_during fx_world) ExecutionWorldStateV1_default),
           hr_effect_authority := snd (revoke_run (ev_run_control_ref envelope) st)\<rparr>)
      | (Inr _, db) \<Rightarrow> (step_grant fx_source (claim_access fx_request fx_context envelope) None envelope fx_grants workspace,
          hr\<lparr>hr_db := db, hr_managed_objects := objects, hr_managed_resources := rv,
             hr_execution_worlds := ExecutionWorldStateV1_default, hr_effect_authority := st\<rparr>))"

lemma fx_claim:
  "\<exists>envelope st objects rv workspace. \<forall>claims. claim_v2_managed_step ex_lib fx_world fx_request (fx_host (fx_db claims) ex_start ox_new) = fx_outcome envelope st objects rv workspace claims"
proof -
  from fx_runs obtain envelope st where c: "claim_run ex_lib fx_world ''host'' fx_request fx_source fx_context None None fx_artifact ex_start = (Inr (fx_grants, envelope), st)"
    and st: "st_envelopes st = [(ev_envelope_ref envelope, envelope)]" "st_runs st = [(ev_run_control_ref envelope, active_run envelope)]"
      "st_resources st = [(rg_handle_ref fx_grant, \<lparr>rr_grant = fx_grant, rr_envelope_ref = ev_envelope_ref envelope, rr_revoked = False\<rparr>)]"
    and f: "ev_context envelope = fx_context" "ev_context_ref envelope = fx_context_ref" "ev_run_control_ref envelope = rg_run_control_ref fx_grant"
      "ev_expires_at envelope = 30" by blast
  let ?access = "claim_access fx_request fx_context envelope"
  have ref: "AuthorityContextV1_context_ref ex_lib fx_context = Inr fx_context_ref"
    by (simp add: AuthorityContextV1_context_ref_def fx_context_valid fx_context_ref_def)
  have current: "ma_current ?access = current_authority fx_fresh 5" by (simp add: claim_access_def)
  have attached: "validate_resource_attachment ex_lib (rg_handle_ref fx_grant) ManagedRevision (ev_envelope_ref envelope) (ev_run_control_ref envelope)
      fx_context (current_authority fx_fresh 5) st = Inr fx_grant"
    by (simp add: validate_resource_attachment_def st hm_get_def fx_context_valid f active_run_def lifecycle_mismatch_def current_authority_def)
      (simp add: fx_grant_def)
  have input: "validate_exact_input fx_context fx_acquired = Inr ()"
    by (simp add: validate_exact_input_def Let_def) (simp add: fx_input_def)
  obtain ow where ow: "owner_of ex_lib ?access = Inr ow" by (simp add: owner_of_def access_context_ref_def ref map_err_def)
  have "rg_safe_identity_ref fx_grant = managed_revision_identity_ref ex_lib fx_acquired fx_artifact" by (simp add: fx_grant_def fx_spec_def grant_spec_def)
  then obtain backing where "revision_backing ex_lib st ?access (rg_handle_ref fx_grant) fx_acquired (Inr fx_artifact) = Inr backing"
    by (simp add: revision_backing_def validate_attachment_def attached current map_err_def input ow)
  then have "\<exists>objects rv. bind_managed_revision ex_lib ex_fs st ?access (rg_handle_ref fx_grant) fx_acquired ex_bound ox_new = (Inr (), objects, rv)"
    by (simp add: bind_managed_revision_def current current_authority_def fx_resolves bind_with_def insert_backing_def ox_new_def
        ManagedResourceResolverV1_new_def hm_contains_def)
  then obtain objects rv where b: "bind_managed_revision ex_lib ex_fs st ?access (rg_handle_ref fx_grant) fx_acquired ex_bound ox_new = (Inr (), objects, rv)" by blast
  have grants: "cg_input fx_grants = fx_grant" "cg_output fx_grants = None" "cg_scratch fx_grants = None" "cg_executable fx_grants = None"
    by (simp_all add: fx_grants_def)
  have "attach ex_lib st ?access (rg_handle_ref fx_grant) ManagedRevision = Inr (fx_grant, rg_allowed_verbs fx_grant |\<inter>| bounded_resource_verbs envelope)"
    by (simp add: attach_def validate_resource_projection_attachment_def current attached st hm_get_def map_err_def)
  moreover have "rg_kind fx_grant = ManagedRevision" by (simp add: fx_grant_def)
  ultimately obtain workspace where ws: "ManagedRunWorkspaceV1_derive ex_lib st ?access (workspace_attachments fx_grants) None = Inr workspace"
    by (simp add: ManagedRunWorkspaceV1_derive_def workspace_attachments_def grants List.map_filter_def validate_alias_kind_def project_resource_def
        workspace_kind_def projection_ref_def ref map_err_def)
  have "process_world_of envelope fx_grants = None" by (simp add: process_world_of_def grants)
  with b ws have at: "claim_attach ex_lib fx_world fx_request st ?access envelope fx_grants (ex_bound, ox_new, ExecutionWorldStateV1_default)
      = (Inr workspace, objects, rv, ExecutionWorldStateV1_default)"
    by (simp add: claim_attach_def Let_def bind_resources_def bind_if_def grants fx_world_def)
  have host: "hr_local_host_ref (fx_host a b' c') = ''host''" "hr_managed_objects (fx_host a b' c') = ex_bound" "hr_effect_authority (fx_host a b' c') = b'"
    "hr_managed_resources (fx_host a b' c') = c'" "hr_db (fx_host a b' c') = a" "hr_execution_worlds (fx_host a b' c') = ExecutionWorldStateV1_default" for a b' c'
    by (simp_all add: fx_host_def)
  have W: "cl_fs fx_world = ex_fs" by (simp add: fx_world_def)
  have acc: "\<lparr>ma_envelope_ref = ev_envelope_ref envelope, ma_run_control_ref = ev_run_control_ref envelope, ma_context = fx_context,
      ma_current = current_authority fx_fresh 5\<rparr> = ?access" by (simp add: claim_access_def)
  show ?thesis
    by (intro exI [of _ envelope] exI [of _ st] exI [of _ objects] exI [of _ rv] exI [of _ workspace] allI)
      (simp add: claim_v2_managed_step_def fx_checks host W fx_resolves Let_def fx_context_def [symmetric] c acc at fx_outcome_def split: prod.split sum.split)
qed

lemma fx_record:
  "\<exists>result db. record_claim ex_lib (claim_access fx_request fx_context envelope) 5 (fx_db claims) = (result, db)
     \<and> (claims = [] \<longrightarrow> result = Inr ()) \<and> (\<forall>c \<in> set claims. cw_attempt_id c = ''s5'' \<and> cw_step_id c = ''s1'' \<longrightarrow> (\<exists>e. result = Inl e))"
proof -
  have ref: "AuthorityContextV1_context_ref ex_lib fx_context = Inr fx_context_ref"
    by (simp add: AuthorityContextV1_context_ref_def fx_context_valid fx_context_ref_def)
  have ids: "ctx_attempt_id fx_context = ''s5''" "ctx_step_id fx_context = ''s1''" by (simp_all add: fx_context_def)
  show ?thesis
    by (auto simp: record_claim_def ref insert_claim_def claim_row_def new_claim_def insert_row_def fx_db_def map_err_def ids claim_conflict_def list_ex_iff)
qed

lemma fx_claim_succeeds: "\<exists>grant hr'. claim_v2_managed_step ex_lib fx_world fx_request (fx_host (fx_db []) ex_start ox_new) = (Inr grant, hr')"
proof -
  from fx_claim obtain envelope st objects rv workspace where claim: "\<And>claims. claim_v2_managed_step ex_lib fx_world fx_request (fx_host (fx_db claims) ex_start ox_new) = fx_outcome envelope st objects rv workspace claims" by blast
  from fx_record [of envelope "[]"] obtain db where rec: "record_claim ex_lib (claim_access fx_request fx_context envelope) 5 (fx_db []) = (Inr (), db)" by auto
  have "\<exists>grant. step_grant fx_source (claim_access fx_request fx_context envelope) None envelope fx_grants workspace = Inr grant"
    by (simp add: step_grant_def operation_intent_def fx_execute_def)
  then show ?thesis by (auto simp: claim [of "[]"] fx_outcome_def rec Let_def)
qed


text \<open>The same claim when the step was claimed before: everything is set up, and taken down again.\<close>

definition fx_claimed :: HostRuntime where
  "fx_claimed = fx_host (fx_db [new_claim ''s5'' ''s1'' OpExecute ''c'' ''e'' ''r'' 4]) ex_start ox_new"

lemma fx_claim_fails: "\<exists>e hr'. claim_v2_managed_step ex_lib fx_world fx_request fx_claimed = (Inl e, hr')"
proof -
  let ?claims = "[new_claim ''s5'' ''s1'' OpExecute ''c'' ''e'' ''r'' 4]"
  from fx_claim obtain envelope st objects rv workspace where claim: "\<And>claims. claim_v2_managed_step ex_lib fx_world fx_request (fx_host (fx_db claims) ex_start ox_new)
      = fx_outcome envelope st objects rv workspace claims" by blast
  have "cw_attempt_id (hd ?claims) = ''s5''" "cw_step_id (hd ?claims) = ''s1''" by (simp_all add: new_claim_def)
  with fx_record [of envelope ?claims] obtain e db where "record_claim ex_lib (claim_access fx_request fx_context envelope) 5 (fx_db ?claims) = (Inl e, db)" by auto
  then show ?thesis by (auto simp: fx_claimed_def claim fx_outcome_def Let_def)
qed

end
