(* ===== verification/Execution_Properties.thy ===== *)
theory Execution_Properties
  imports Execution_Example
begin

text \<open>
  What holds of managed execution over the whole Host, each with its example on \<open>Execution_Example\<close>: its tables follow the attempt protocol, a claim that fails leaves
  nothing behind, a claim that succeeds owns exactly one new run, and a step is finalized once, on the complete evidence of its run.
\<close>

section \<open>The tables follow the protocol\<close>

text \<open>The steps of a Host: its three managed operations, whatever the protocol of the tables allows, and anything that leaves the
  tables alone. \<open>coordinated\<close> holds of the attempts that are coordinated at some time.\<close>

inductive exec_step :: "lib \<Rightarrow> HostRef \<Rightarrow> (string \<Rightarrow> bool) \<Rightarrow> HostRuntime \<Rightarrow> HostRuntime \<Rightarrow> bool" for L h coordinated where
  exec_claim: "hr_local_host_ref hr = h \<Longrightarrow> \<forall>attempt. cl_coordinated W attempt \<longrightarrow> coordinated attempt \<Longrightarrow>
    exec_step L h coordinated hr (snd (claim_v2_managed_step L W request hr))"
| exec_transform: "hr_local_host_ref hr = h \<Longrightarrow>
    exec_step L h coordinated hr (snd (finalize_v2_transform L F uuid idle transform binding now hr))"
| exec_execute: "hr_local_host_ref hr = h \<Longrightarrow> exec_step L h coordinated hr (snd (finalize_v2_execute L idle execute binding now hr))"
| exec_protocol: "proto_step L h coordinated l (hr_db hr) db \<Longrightarrow> exec_step L h coordinated hr (hr\<lparr>hr_db := db\<rparr>)"
| exec_effects: "exec_step L h coordinated hr (hr\<lparr>hr_effect_authority := st, hr_managed_objects := objects, hr_managed_resources := rv,
    hr_execution_worlds := es\<rparr>)"

lemma proto_run: "proto_step L h coordinated l db db' \<Longrightarrow> rtranclp (proto_any L h coordinated) db db'"
  by (intro r_into_rtranclp) (auto simp: proto_any_def)

lemma load_claim_source_coordinated:
  assumes "load_claim_source L now_coordinated committed h attempt wanted captured current now db = Inr source"
    and "\<forall>attempt. now_coordinated attempt \<longrightarrow> coordinated attempt"
  shows "\<exists>committed'. load_claim_source L coordinated committed' h attempt wanted captured current now db = Inr source"
proof -
  let ?committed = "\<lambda>attempt d. if now_coordinated attempt then committed attempt d else Inr (claim_completed db attempt d)"
  have "dependency_complete coordinated ?committed db attempt = dependency_complete now_coordinated committed db attempt"
    using assms(2) by (auto simp: dependency_complete_def fun_eq_iff)
  with assms(1) have "load_claim_source L coordinated ?committed h attempt wanted captured current now db = Inr source"
    by (simp add: load_claim_source_def)
  then show ?thesis by blast
qed

lemma claim_tables:
  assumes "hr_local_host_ref hr = h" and "\<forall>attempt. cl_coordinated W attempt \<longrightarrow> coordinated attempt"
  shows "rtranclp (proto_any L h coordinated) (hr_db hr) (hr_db (snd (claim_v2_managed_step L W request hr)))"
proof -
  obtain result hr' where claim: "claim_v2_managed_step L W request hr = (result, hr')" by fastforce
  show ?thesis
  proof (cases result)
    case (Inl e)
    with claim have "hr_db hr' = hr_db hr" by (intro failed_claim_db) simp
    with claim show ?thesis by simp
  next
    case (Inr grant)
    from claim [unfolded Inr] show ?thesis
    proof (cases rule: claim_success)
      case (1 source semantic input output_revision identity grants envelope draft context_ref)
      note checks = claim_checks_Inr [OF 1(1)]
      obtain committed where src: "load_claim_source L coordinated committed h (cr_attempt_id request) (cr_step_id request)
          (cr_captured_binding request) (cr_current_binding request) (cr_now request) (hr_db hr) = Inr source"
        using load_claim_source_coordinated [OF checks(1) assms(2)] assms(1) by blast
      have "operation (cs_step source) = (case semantic of SemTransform \<Rightarrow> OpTransform | SemExecute \<Rightarrow> OpExecute)"
        using checks(2) by (auto simp: managed_step_contract_def split: PlanStepV2.splits)
      with 1(6,9) have "hr_db hr' = snd (insert_claim (new_claim (cr_attempt_id request) (cr_step_id request) (operation (cs_step source))
          context_ref (ma_envelope_ref (sg_access grant)) (ma_run_control_ref (sg_access grant)) (cr_now request)) (hr_db hr))"
        by (simp add: claim_row_def)
      with proto_run [OF step_claim [OF src]] claim show ?thesis by simp
    qed
  qed
qed

lemma finalize_tables:
  assumes "hr_local_host_ref hr = h"
  shows "rtranclp (proto_any L h coordinated) (hr_db hr) (hr_db (snd (finalize_v2_execute L idle execute binding now hr)))"
    and "rtranclp (proto_any L h coordinated) (hr_db hr) (hr_db (snd (finalize_v2_transform L F uuid idle transform binding now hr)))"
proof -
  obtain result hr' where f: "finalize_v2_execute L idle execute binding now hr = (result, hr')" by fastforce
  then show "rtranclp (proto_any L h coordinated) (hr_db hr) (hr_db (snd (finalize_v2_execute L idle execute binding now hr)))"
  proof (cases rule: finalize_execute_cases)
    case (refused e)
    with f show ?thesis using proto_run [OF step_fail] by auto
  next
    case (finished source input output_revision completion schema st db persisted)
    let ?row = "execute_row execute (execute_result L (hr_local_host_ref hr) execute input) now"
    have "proto_step L h coordinated None (hr_db hr) (snd (persist_execute_result ?row (hr_db hr)))"
      using finished(1) assms by (intro step_execute_result) (simp add: execute_row_def)
    from proto_run [OF this] f finished(13,15) show ?thesis by simp
  qed
next
  obtain result hr' where f: "finalize_v2_transform L F uuid idle transform binding now hr = (result, hr')" by fastforce
  then show "rtranclp (proto_any L h coordinated) (hr_db hr) (hr_db (snd (finalize_v2_transform L F uuid idle transform binding now hr)))"
  proof (cases rule: finalize_transform_cases)
    case (refused e)
    with f show ?thesis using proto_run [OF step_fail] by (auto simp: refused_step_def)
  next
    case (finished source input expected_output completion acquisition objects rv st db persisted)
    let ?row = "transform_row transform (ma_object acquisition) now"
    have "proto_step L h coordinated None (hr_db hr) (snd (persist_transform_result ?row (hr_db hr)))"
      using finished(1) assms by (intro step_transform_result) (simp add: transform_row_def)
    from proto_run [OF this] f finished(10,12) show ?thesis by simp
  qed
qed

interpretation execution: machine_refinement proto_init "proto_any L h coordinated" "proto_inv L h coordinated" hr_db "exec_step L h coordinated"
  for L h coordinated
proof unfold_locales
  fix hr hr' assume "exec_step L h coordinated hr hr'"
  then show "rtranclp (proto_any L h coordinated) (hr_db hr) (hr_db hr')"
  proof cases
    case exec_claim
    then show ?thesis using claim_tables by blast
  next
    case exec_transform
    then show ?thesis using finalize_tables(2) by blast
  next
    case exec_execute
    then show ?thesis using finalize_tables(1) by blast
  next
    case exec_protocol
    then show ?thesis by (simp add: proto_run)
  qed simp
qed


text \<open>C13. Managed execution never steps outside the attempt protocol. Whatever a Host does from a state whose tables the
  protocol can reach (claims, finalized and refused Transform and Execute proposals, steps of the protocol itself, effects on
  anything else), its tables stay ones the protocol can reach, by a run of the protocol from the tables it had. So no claim
  and no result is ever stored that the protocol does not allow.\<close>

theorem execution_follows_protocol:
  assumes "rtranclp (exec_step L h coordinated) hr hr'" and "reachable_db L h coordinated (hr_db hr)"
  shows "rtranclp (proto_any L h coordinated) (hr_db hr) (hr_db hr') \<and> reachable_db L h coordinated (hr_db hr') \<and> proto_inv L h coordinated (hr_db hr')"
proof -
  from execution.simulates_steps [OF assms(1)] have run: "rtranclp (proto_any L h coordinated) (hr_db hr) (hr_db hr')" .
  with assms(2) have "reachable_db L h coordinated (hr_db hr')" by (simp add: reachable_db_def)
  with run show ?thesis using reachable_proto_inv by blast
qed

section \<open>A failed claim leaves nothing\<close>

text \<open>C9. A claim that fails, at whatever point, leaves no authority behind. The tables are as they were; every run that is
  still live in the effect authority was there before, unchanged, so neither the run of the claim nor another one was
  started; every backing of the resource resolver was there before; and every execution world was there before with the same
  owner (as long as other threads only work on worlds while the termination of the claim's world waits).\<close>

theorem failed_claim_leaves_nothing:
  assumes "claim_v2_managed_step L W request hr = (Inl e, hr')" and "calm L (cl_during W)"
  shows "hr_db hr' = hr_db hr
    \<and> (\<forall>r run. hm_get (st_runs (hr_effect_authority hr')) r = Some run \<and> run_live (mr_state run)
         \<longrightarrow> hm_get (st_runs (hr_effect_authority hr)) r = Some run)
    \<and> (\<forall>h b. hm_get (rv_backings (hr_managed_resources hr')) h = Some b \<longrightarrow> hm_get (rv_backings (hr_managed_resources hr)) h = Some b)
    \<and> (\<forall>w world'. (w, world') \<in> set (es_worlds (hr_execution_worlds hr'))
         \<longrightarrow> (\<exists>world. (w, world) \<in> set (es_worlds (hr_execution_worlds hr)) \<and> wd_owner world = wd_owner world'))"
  using assms by (rule failed_claim)

section \<open>A successful claim\<close>

text \<open>Where a loaded claim source comes from.\<close>

lemma claim_source_rows:
  assumes "load_claim_source L coordinated committed h attempt wanted captured current now db = Inr source"
  obtains t a v where "find_attempt db attempt = Some (t, a, v)" "cs_revision source = vw_revision v" "cs_approval source = pw_approval a"
    "cs_participant_ref source = tw_target t" "cs_admission_ref source = tw_admission_ref t"
    "find (\<lambda>s. step_id s = wanted) (pr_steps (vw_revision v)) = Some (cs_step source)"
    "cs_expires_at source = min (tw_expires_at t) (freshness_expires_at captured)"
  using assms by (auto simp: load_claim_source_def res_simps Let_def)

text \<open>C10. A claim that succeeds gives its step exactly one new run, with exactly the authority of the step. The claim source
  was loaded, so the step is one of the approved Plan, bound to this Host and with its dependencies complete; a run that did not exist
  is active with the installed envelope and nothing spent, and every other run is as it was. The context of the envelope is, field by
  field, that of the stored rows: the Bridge, Plan, revision and hash of the stored revision, the stored approval, the participant and
  admission of the attempt, this attempt, step and Host, the session of the request, and as only input the object and revision that the
  contract of the Plan's step names; it was issued now. The envelope denies the network, has the fixed budgets of a step and
  expires, like its context, at the earlier of the expiry of the attempt and of the session. The tables gain the one claim that names
  this run, and no other request for the step can succeed afterwards.\<close>

theorem claimed_step_owns_one_run:
  assumes "claim_v2_managed_step L W request hr = (Inr grant, hr')"
  shows "\<exists>source envelope context_ref t a v step semantic input output_revision expires_at.
    load_claim_source L (cl_coordinated W) (cl_committed W) (hr_local_host_ref hr) (cr_attempt_id request) (cr_step_id request)
      (cr_captured_binding request) (cr_current_binding request) (cr_now request) (hr_db hr) = Inr source
    \<and> hm_get (st_runs (hr_effect_authority hr)) (ev_run_control_ref envelope) = None
    \<and> hm_get (st_runs (hr_effect_authority hr')) = (hm_get (st_runs (hr_effect_authority hr)))(ev_run_control_ref envelope \<mapsto> active_run envelope)
    \<and> hm_get (st_envelopes (hr_effect_authority hr')) (ev_envelope_ref envelope) = Some envelope
    \<and> find_attempt (hr_db hr) (cr_attempt_id request) = Some (t, a, v)
    \<and> find (\<lambda>s. step_id s = cr_step_id request) (pr_steps (vw_revision v)) = Some step
    \<and> managed_step_contract step = Inr (semantic, input, output_revision)
    \<and> expires_at = min (tw_expires_at t) (freshness_expires_at (cr_captured_binding request))
    \<and> ev_context envelope =
        \<lparr>ctx_contract_version = EFFECT_AUTHORITY_VERSION, ctx_bridge_id = pr_bridge_id (vw_revision v),
         ctx_plan_id = pr_plan_id (vw_revision v), ctx_revision_id = pr_revision_id (vw_revision v),
         ctx_revision_hash = pr_revision_hash (vw_revision v), ctx_approval_id = ap_approval_id (pw_approval a),
         ctx_attempt_id = cr_attempt_id request, ctx_step_id = cr_step_id request, ctx_semantic_operation = semantic,
         ctx_participant_ref = tw_target t, ctx_host_ref = hr_local_host_ref hr, ctx_admission_ref = tw_admission_ref t,
         ctx_session_binding_ref = freshness_authority_ref (cr_captured_binding request),
         ctx_input_revisions = [\<lparr>ir_logical_object_id = or_logical_object_id input, ir_revision = or_revision input, ir_host_ref = hr_local_host_ref hr\<rparr>],
         ctx_issued_at = cr_now request, ctx_expires_at = expires_at\<rparr>
    \<and> ev_network envelope = NetDenied \<and> ev_budgets envelope = step_budgets \<and> ev_expires_at envelope = expires_at
    \<and> expires_at \<le> freshness_expires_at (cr_current_binding request)
    \<and> ma_context (sg_access grant) = ev_context envelope \<and> ma_envelope_ref (sg_access grant) = ev_envelope_ref envelope
    \<and> ma_run_control_ref (sg_access grant) = ev_run_control_ref envelope
    \<and> db_claims (hr_db hr') = db_claims (hr_db hr) @ [claim_row (sg_access grant) context_ref (cr_now request)]
    \<and> (\<forall>W' request'. cr_attempt_id request' = cr_attempt_id request \<and> cr_step_id request' = cr_step_id request
         \<longrightarrow> (\<exists>e. fst (claim_v2_managed_step L W' request' hr') = Inl e))"
  using assms
proof (cases rule: claim_success)
  case (1 source semantic input output_revision identity grants envelope draft context_ref)
  note checks = claim_checks_Inr [OF 1(1)]
  note fields = claim_envelope_fields [OF 1(2)]
  from claim_source_rows [OF checks(1)] obtain t a v where rows: "find_attempt (hr_db hr) (cr_attempt_id request) = Some (t, a, v)"
    "cs_revision source = vw_revision v" "cs_approval source = pw_approval a" "cs_participant_ref source = tw_target t"
    "cs_admission_ref source = tw_admission_ref t"
    "find (\<lambda>s. step_id s = cr_step_id request) (pr_steps (vw_revision v)) = Some (cs_step source)"
    "cs_expires_at source = min (tw_expires_at t) (freshness_expires_at (cr_captured_binding request))" by blast
  have "cs_expires_at source \<le> freshness_expires_at (cr_current_binding request)"
    using checks(1) by (auto simp: load_claim_source_def res_simps Let_def execution_freshness.validate_iff split: sum.splits)
  moreover have "\<exists>e. fst (claim_v2_managed_step L W' request' hr') = Inl e"
    if "cr_attempt_id request' = cr_attempt_id request" "cr_step_id request' = cr_step_id request" for W' request'
  proof (rule ccontr)
    assume "\<nexists>e. fst (claim_v2_managed_step L W' request' hr') = Inl e"
    then obtain grant' hr'' where again: "claim_v2_managed_step L W' request' hr' = (Inr grant', hr'')"
      by (metis prod.collapse sum.exhaust)
    from again show False
    proof (cases rule: claim_success)
      case 2: (1 source2 semantic2 input2 output_revision2 identity2 grants2 envelope2 draft2 context_ref2)
      from 2(9) have "\<not> claim_conflict (claim_row (sg_access grant') context_ref2 (cr_now request')) (claim_row (sg_access grant) context_ref (cr_now request))"
        using 1(8) by (auto simp: insert_claim_def insert_row_def split: if_splits sum.splits)
      with 1(6) 2(6) that show False by (simp add: claim_conflict_def claim_row_def new_claim_def)
    qed
  qed
  moreover have "ev_context envelope = claim_context (hr_local_host_ref hr) request source semantic input" using fields(1) by simp
  ultimately show ?thesis
    using 1 checks(1,2) fields rows
    by (intro exI [of _ source] exI [of _ envelope] exI [of _ context_ref] exI [of _ t] exI [of _ a] exI [of _ v] exI [of _ "cs_step source"]
        exI [of _ semantic] exI [of _ input] exI [of _ output_revision] exI [of _ "cs_expires_at source"])
      (simp add: claim_context_def)
qed

section \<open>Finalized steps\<close>

text \<open>C12. An Execute result is accepted only on the complete evidence of its run, and once. If a proposal is finalized, it named
  exactly the evidence of its run, in order, with the head of the chain, there is at least one item and all of them
  are allowed; the envelope of the run was compiled for exactly this input and result schema; no process of the run was
  left and the network was quiescent. The run is then finished and no other run changed, the result is stored, the claim is
  completed with the evidence head, and no proposal for the step is finalized again.\<close>

theorem execute_finalized_on_evidence:
  assumes "finalize_v2_execute L idle proposal binding now hr = (Inr result, hr')"
  shows "\<exists>completion.
    completion_evidence L (xp_run_control_ref proposal) (xp_envelope_ref proposal) (current_authority binding now) (hr_effect_authority hr) = Inr completion
    \<and> xp_evidence_ids proposal = map ee_evidence_id (run_evidence (xp_run_control_ref proposal) (hr_effect_authority hr))
    \<and> xp_evidence_ids proposal \<noteq> [] \<and> xp_evidence_head proposal = ce_evidence_head completion
    \<and> list_all (\<lambda>e. ee_decision e = Allowed) (run_evidence (xp_run_control_ref proposal) (hr_effect_authority hr))
    \<and> ev_result_contract (ce_envelope completion) = ResExecute [xr_input result] (xr_result_schema_ref result)
    \<and> run_is_quiescent (xp_run_control_ref proposal) (hr_execution_worlds hr) \<and> idle
    \<and> (\<exists>run. hm_get (st_runs (hr_effect_authority hr')) (xp_run_control_ref proposal) = Some run \<and> mr_state run = Finished)
    \<and> (\<forall>r. r \<noteq> xp_run_control_ref proposal \<longrightarrow> hm_get (st_runs (hr_effect_authority hr')) r = hm_get (st_runs (hr_effect_authority hr)) r)
    \<and> db_execute_results (hr_db hr') = db_execute_results (hr_db hr) @ [execute_row proposal result now]
    \<and> (\<exists>c \<in> set (db_claims (hr_db hr')). cw_attempt_id c = xp_attempt_id proposal \<and> cw_step_id c = xp_step_id proposal
         \<and> cw_state c = ClaimCompleted \<and> cw_evidence_head c = Some (xp_evidence_head proposal))
    \<and> (\<forall>idle' again binding' now'. xp_attempt_id again = xp_attempt_id proposal \<and> xp_step_id again = xp_step_id proposal
         \<longrightarrow> (\<exists>e. finalize_v2_execute L idle' again binding' now' hr' = (Inl e, hr')))"
  using assms
proof (cases rule: finalize_execute_cases)
  case (finished source input output_revision completion schema st db persisted)
  let ?result = "execute_result L (hr_local_host_ref hr) proposal input"
  have r: "persisted = Inr ()" "result = ?result" using finished(14) by (cases persisted; simp add: map_err_def)+
  note completion = finished(3) [unfolded completion_of_Inr]
  note allowed = completion_evidence_allowed [OF completion [THEN conjunct1]]
  note stored = persist_execute_Inr [OF finished(13) [unfolded r(1)]]
  have row: "xw_attempt_id (execute_row proposal ?result now) = xp_attempt_id proposal" "xw_step_id (execute_row proposal ?result now) = xp_step_id proposal"
    "xw_evidence_head (execute_row proposal ?result now) = xp_evidence_head proposal"
    by (simp_all add: execute_row_def execute_result_def)
  note closed = completed_claims [OF stored(3) [unfolded row], of "xp_evidence_head proposal" "xw_completed_at (execute_row proposal ?result now)"]
  have db: "hr_db hr' = db" by (simp add: finished(15))
  have "\<exists>e. finalize_v2_execute L idle' again binding' now' hr' = (Inl e, hr')"
    if "xp_attempt_id again = xp_attempt_id proposal \<and> xp_step_id again = xp_step_id proposal" for idle' again binding' now'
    using closed(2) that by (intro closed_claim_not_finalized(1) [of _ "xp_attempt_id proposal" "xp_step_id proposal"]) (simp_all add: db stored(2) row)
  with completion allowed finished closed(1) complete_run_Inr [OF finished(12)] stored row show ?thesis
    by (intro exI [of _ completion]) (simp add: r execute_result_def)
qed simp

text \<open>C11. A Transform result is accepted only on the complete evidence of its run, on the slot its run was given, and once. If a
  proposal is finalized, it named exactly the evidence of its run; the envelope was compiled for exactly this input, the next
  revision and the output slot the proposal's seal names; the sealed content of that slot was registered as the next revision of the
  input object on this Host. The run is then finished, the result is stored, the claim is completed with
  the evidence head, and no proposal for the step is finalized again.\<close>

theorem transform_finalized_on_evidence:
  assumes "finalize_v2_transform L F uuid idle proposal binding now hr = (Inr acquisition, hr')"
  shows "\<exists>completion.
    completion_evidence L (tp_run_control_ref proposal) (tp_envelope_ref proposal) (current_authority binding now) (hr_effect_authority hr) = Inr completion
    \<and> tp_evidence_ids proposal = map ee_evidence_id (run_evidence (tp_run_control_ref proposal) (hr_effect_authority hr))
    \<and> tp_evidence_ids proposal \<noteq> [] \<and> tp_evidence_head proposal = ce_evidence_head completion
    \<and> list_all (\<lambda>e. ee_decision e = Allowed) (run_evidence (tp_run_control_ref proposal) (hr_effect_authority hr))
    \<and> ev_result_contract (ce_envelope completion)
        = ResTransform (tp_input proposal) (vr_revision (tp_output proposal)) (so_handle_ref (tp_output_seal proposal))
    \<and> run_is_quiescent (tp_run_control_ref proposal) (hr_execution_worlds hr) \<and> idle
    \<and> mo_logical_object_id (ma_object acquisition) = ir_logical_object_id (tp_input proposal)
    \<and> mo_revision (ma_object acquisition) = vr_revision (tp_output proposal)
    \<and> (\<exists>claim. hm_get (os_revisions (hr_managed_objects hr')) (ir_logical_object_id (tp_input proposal), vr_revision (tp_output proposal)) = Some claim
         \<and> rc_content_digest claim = so_content_digest (tp_output_seal proposal))
    \<and> (\<exists>run. hm_get (st_runs (hr_effect_authority hr')) (tp_run_control_ref proposal) = Some run \<and> mr_state run = Finished)
    \<and> (\<forall>r. r \<noteq> tp_run_control_ref proposal \<longrightarrow> hm_get (st_runs (hr_effect_authority hr')) r = hm_get (st_runs (hr_effect_authority hr)) r)
    \<and> db_transform_results (hr_db hr') = db_transform_results (hr_db hr) @ [transform_row proposal (ma_object acquisition) now]
    \<and> (\<exists>c \<in> set (db_claims (hr_db hr')). cw_attempt_id c = tp_attempt_id proposal \<and> cw_step_id c = tp_step_id proposal
         \<and> cw_state c = ClaimCompleted \<and> cw_evidence_head c = Some (tp_evidence_head proposal))
    \<and> (\<forall>F' uuid' idle' again binding' now'. tp_attempt_id again = tp_attempt_id proposal \<and> tp_step_id again = tp_step_id proposal
         \<longrightarrow> (\<exists>e. finalize_v2_transform L F' uuid' idle' again binding' now' hr' = (Inl e, hr')))"
  using assms
proof (cases rule: finalize_transform_cases)
  case (finished source input expected_output completion acquired objects rv st db persisted)
  have r: "persisted = Inr ()" "acquired = acquisition" using finished(11) by (cases persisted; simp add: map_err_def)+
  let ?row = "transform_row proposal (ma_object acquisition) now"
  note completion = finished(3) [unfolded completion_of_Inr]
  note allowed = completion_evidence_allowed [OF completion [THEN conjunct1]]
  note stored = persist_transform_Inr [OF finished(10) [unfolded r]]
  have row: "rw_attempt_id ?row = tp_attempt_id proposal" "rw_step_id ?row = tp_step_id proposal" "rw_evidence_head ?row = tp_evidence_head proposal"
    by (simp_all add: transform_row_def)
  note closed = completed_claims [OF stored(3) [unfolded row], of "tp_evidence_head proposal" "rw_completed_at ?row"]
  have hr': "hr_db hr' = db" "hr_managed_objects hr' = objects" "hr_effect_authority hr' = st" by (simp_all add: finished(12))
  from finished(8) have claimed: "\<exists>claim. hm_get (os_revisions objects) (or_logical_object_id input, expected_output) = Some claim
      \<and> rc_content_digest claim = so_content_digest (tp_output_seal proposal)"
    by (cases rule: register_cases) (auto dest: registered_claim)
  have same: "tp_input proposal = expected_input (hr_local_host_ref hr) input" "vr_revision (tp_output proposal) = expected_output"
    using finished(4) by (simp_all add: transform_mismatch_def)
  have "\<exists>e. finalize_v2_transform L F' uuid' idle' again binding' now' hr' = (Inl e, hr')"
    if "tp_attempt_id again = tp_attempt_id proposal \<and> tp_step_id again = tp_step_id proposal" for F' uuid' idle' again binding' now'
    using closed(2) that by (intro closed_claim_not_finalized(2) [of _ "tp_attempt_id proposal" "tp_step_id proposal"]) (simp_all add: hr' stored(2) row)
  with completion allowed finished closed(1) complete_run_Inr [OF finished(9)] stored row claimed registered_object(1,2) [OF finished(8)] show ?thesis
    by (intro exI [of _ completion]) (simp add: hr' same r, simp add: expected_input_def)
qed simp


section \<open>The example\<close>

text \<open>The example claim is a step of the Host: its tables were reached by a review and a start, and gain the claim.\<close>

theorem execution_follows_protocol_witness:
  "\<exists>grant hr' claim. claim_v2_managed_step ex_lib fx_world fx_request (fx_host (fx_db []) ex_start ox_new) = (Inr grant, hr')
     \<and> db_claims (hr_db hr') = [claim] \<and> rtranclp (proto_any ex_lib ''host'' (\<lambda>_. False)) (fx_db []) (hr_db hr')
     \<and> reachable_db ex_lib ''host'' (\<lambda>_. False) (hr_db hr') \<and> proto_inv ex_lib ''host'' (\<lambda>_. False) (hr_db hr')"
proof -
  let ?hr = "fx_host (fx_db []) ex_start ox_new"
  from fx_claim_succeeds obtain grant hr' where claim: "claim_v2_managed_step ex_lib fx_world fx_request ?hr = (Inr grant, hr')" by blast
  have db: "hr_db ?hr = fx_db []" "db_claims (fx_db []) = []" by (simp_all add: fx_host_def fx_db_def)
  from claim obtain c where stored: "db_claims (hr_db hr') = [c]"
    by (rule claim_success) (simp add: db)
  have "exec_step ex_lib ''host'' (\<lambda>_. False) ?hr (snd (claim_v2_managed_step ex_lib fx_world fx_request ?hr))"
    by (rule exec_claim) (simp_all add: fx_world_def fx_host_def)
  then have "rtranclp (exec_step ex_lib ''host'' (\<lambda>_. False)) ?hr hr'" unfolding claim by simp
  note run = execution_follows_protocol [OF this, unfolded db, OF fx_db_reachable]
  from claim stored run show ?thesis by blast
qed

theorem failed_claim_leaves_nothing_witness:
  "\<exists>e hr'. claim_v2_managed_step ex_lib fx_world fx_request fx_claimed = (Inl e, hr') \<and> hr_db hr' = hr_db fx_claimed
     \<and> rv_backings (hr_managed_resources hr') = [] \<and> (\<forall>r run. hm_get (st_runs (hr_effect_authority hr')) r = Some run \<longrightarrow> \<not> run_live (mr_state run))"
proof -
  from fx_claim_fails obtain e hr' where failed: "claim_v2_managed_step ex_lib fx_world fx_request fx_claimed = (Inl e, hr')" by blast
  have "calm ex_lib (cl_during fx_world)" by (simp add: calm_def fx_world_def)
  note left = failed_claim_leaves_nothing [OF failed this]
  have none: "hm_get (st_runs (hr_effect_authority fx_claimed)) r = None" "hm_get (rv_backings (hr_managed_resources fx_claimed)) k = None" for r k
    by (simp_all add: fx_claimed_def fx_host_def ex_start_def with_evidence_key_def ox_new_def ManagedResourceResolverV1_new_def hm_get_def)
  from left none have "hm_get (rv_backings (hr_managed_resources hr')) k = None" for k
    by (cases "hm_get (rv_backings (hr_managed_resources hr')) k") auto
  then have "rv_backings (hr_managed_resources hr') = []"
    by (cases "rv_backings (hr_managed_resources hr')") (auto simp: hm_get_def, metis option.distinct(1))
  with failed left none show ?thesis by auto
qed

theorem claimed_step_owns_one_run_witness:
  "\<exists>grant hr' envelope. claim_v2_managed_step ex_lib fx_world fx_request (fx_host (fx_db []) ex_start ox_new) = (Inr grant, hr')
     \<and> hm_get (st_runs (hr_effect_authority hr')) (ev_run_control_ref envelope) = Some (active_run envelope)
     \<and> ctx_step_id (ev_context envelope) = ''s1'' \<and> ctx_revision_id (ev_context envelope) = ''r''
     \<and> ctx_input_revisions (ev_context envelope) = [fx_input] \<and> ev_network envelope = NetDenied \<and> ev_expires_at envelope = 30
     \<and> (\<exists>e. fst (claim_v2_managed_step ex_lib fx_world fx_request hr') = Inl e)"
proof -
  let ?hr = "fx_host (fx_db []) ex_start ox_new"
  from fx_claim_succeeds obtain grant hr' where claim: "claim_v2_managed_step ex_lib fx_world fx_request ?hr = (Inr grant, hr')"
    by blast
  from claimed_step_owns_one_run [OF claim] obtain envelope t a v step semantic input output_revision where
    runs: "hm_get (st_runs (hr_effect_authority hr')) = (hm_get (st_runs (hr_effect_authority ?hr)))(ev_run_control_ref envelope \<mapsto> active_run envelope)"
    and found: "find_attempt (hr_db ?hr) (cr_attempt_id fx_request) = Some (t, a, v)"
      "find (\<lambda>s. step_id s = cr_step_id fx_request) (pr_steps (vw_revision v)) = Some step"
      "managed_step_contract step = Inr (semantic, input, output_revision)"
    and envelope: "ctx_step_id (ev_context envelope) = cr_step_id fx_request" "ctx_revision_id (ev_context envelope) = pr_revision_id (vw_revision v)"
      "ctx_input_revisions (ev_context envelope) = [\<lparr>ir_logical_object_id = or_logical_object_id input, ir_revision = or_revision input,
         ir_host_ref = hr_local_host_ref ?hr\<rparr>]"
      "ev_network envelope = NetDenied" "ev_expires_at envelope = min (tw_expires_at t) (freshness_expires_at (cr_captured_binding fx_request))"
    and again: "\<exists>e. fst (claim_v2_managed_step ex_lib fx_world fx_request hr') = Inl e" by force
  have rows: "t = fx_attempt" "v = fx_revision_row" using found(1) fx_found by (simp_all add: fx_host_def)
  then have "step = fx_execute" using found(2) by simp
  with found(3) have "input = fx_object 1" by (simp add: managed_step_contract_def fx_execute_def)
  then have "ctx_input_revisions (ev_context envelope) = [fx_input]" using envelope(3) by (simp add: fx_host_def fx_object_def fx_input_def)
  moreover have "ev_expires_at envelope = 30" using envelope(5) rows by simp
  moreover have "hm_get (st_runs (hr_effect_authority hr')) (ev_run_control_ref envelope) = Some (active_run envelope)" using runs by simp
  ultimately show ?thesis using claim envelope(1,2,4) rows again by auto
qed

theorem execute_finalized_on_evidence_witness:
  "\<exists>result hr'. finalize_v2_execute ex_lib True fx_execute_proposal fx_fresh 10 fx_executing = (Inr result, hr')
     \<and> (\<exists>run. hm_get (st_runs (hr_effect_authority hr')) ''run'' = Some run \<and> mr_state run = Finished)
     \<and> db_execute_results (hr_db hr') = [execute_row fx_execute_proposal result 10]
     \<and> (\<exists>e. finalize_v2_execute ex_lib True fx_execute_proposal fx_fresh 10 hr' = (Inl e, hr'))"
proof -
  from fx_execute_finalizes obtain result hr' where f: "finalize_v2_execute ex_lib True fx_execute_proposal fx_fresh 10 fx_executing = (Inr result, hr')" by blast
  have "xp_run_control_ref fx_execute_proposal = ''run''" "db_execute_results (hr_db fx_executing) = []"
    by (simp_all add: fx_execute_proposal_def fx_executing_def fx_host_def fx_db_def empty_db_def)
  with execute_finalized_on_evidence [OF f] f show ?thesis by auto
qed

theorem transform_finalized_on_evidence_witness:
  "\<exists>seal acquisition hr'. finalize_v2_transform ex_lib (ox_fs ox_tree) (ex_uuid CHR ''c'') True (fx_transform_proposal seal) fx_fresh 10 fx_transforming
       = (Inr acquisition, hr')
     \<and> mo_logical_object_id (ma_object acquisition) = ex_object \<and> mo_revision (ma_object acquisition) = 2
     \<and> (\<exists>run. hm_get (st_runs (hr_effect_authority hr')) ''run'' = Some run \<and> mr_state run = Finished)"
proof -
  from fx_transform_finalizes obtain seal acquisition hr' where
    f: "finalize_v2_transform ex_lib (ox_fs ox_tree) (ex_uuid CHR ''c'') True (fx_transform_proposal seal) fx_fresh 10 fx_transforming = (Inr acquisition, hr')" by blast
  have p: "tp_run_control_ref (fx_transform_proposal seal) = ''run''" "tp_input (fx_transform_proposal seal) = fx_input"
    "vr_revision (tp_output (fx_transform_proposal seal)) = 2" "ir_logical_object_id fx_input = ex_object"
    by (simp_all add: fx_transform_proposal_def fx_input_def)
  from transform_finalized_on_evidence [OF f, unfolded p] f show ?thesis by blast
qed

end
