(* ===== verification/Spec2Isabelle.thy ===== *)
theory Spec2Isabelle
  imports Chunk_Frame Transfer_Capacity Host_Identity Effect_Properties File_Set_Round_Trip Managed_Objects Execution_Properties
begin

text \<open>
  A verification library for Pastey, a peer-to-peer workspace whose Hosts run parts of a shared Plan for each other.
  All paths below are under \<^verbatim>\<open>src-tauri/src/\<close>.

  \<^bold>\<open>The program.\<close> Two Hosts share a Bridge. A requester writes a Plan (steps that search, transform, execute and move
  object revisions), seals it with a content hash and asks the other Host to take on its part. That Host stores the
  review, decides on admission, accepts the start of an attempt, and claims the steps bound to it one by one. A claim
  becomes a run with an effect envelope: everything the run may do is the intersection of four ceilings, each effect
  is checked and recorded before a backend acts, and only a run with a complete evidence record can complete. The backends
  are those of this Host: managed resources (private files under a quota, sealed outputs) and execution worlds (contained
  processes that see mounted copies of these resources); a worker names resources through the aliases of a workspace.
  Object revisions are bound to artifacts on disk by identity; sets of regular files are packaged, framed in encrypted
  chunks and sent under a capacity limit.

  \<^bold>\<open>Theories and sources.\<close>

  \<^item> \<open>Rust_Prelude\<close>: results (\<open>and_then\<close>, \<open>ensure\<close>, \<open>ok_or\<close> are \<^verbatim>\<open>?\<close>, an early return, \<^verbatim>\<open>ok_or\<close>), checked
    arithmetic on words, byte strings, \<^verbatim>\<open>str::trim\<close>, ordered and hash maps. \<open>Interfaces\<close>: the contracts several
    components share, as locales. \<open>Third_Party\<close>: the functions of external crates (hash, JSON string quoting), one
    record \<open>lib\<close>, with their laws as named predicates and one concrete instance \<open>plain_lib\<close> that satisfies them.
  \<^item> \<open>Chunk_Frame\<close>: \<^verbatim>\<open>chunk_frame.rs\<close>. \<open>Transfer_Capacity\<close>: \<^verbatim>\<open>transfer_tuning.rs\<close>, \<^verbatim>\<open>transfer_orchestration.rs\<close>.
  \<^item> \<open>Host_Identity\<close>: \<^verbatim>\<open>host_identity.rs\<close>, Host references, Plan participants, local and remote freshness.
  \<^item> \<open>Canonical_Json\<close>, \<open>Plan_V2\<close>, \<open>Plan_Order\<close>, \<open>Plan_Seal\<close>: \<^verbatim>\<open>bridge_plan_v2.rs\<close>, the Plan revision, its validator,
    canonical JSON and seal. \<open>Host_Admission\<close>: \<^verbatim>\<open>host_admission.rs\<close>.
  \<^item> \<open>Plan_Store\<close>: the tables and operations of \<^verbatim>\<open>bridge_plan_v2.rs\<close>. \<open>Managed_Claims\<close>: claims and results of
    \<^verbatim>\<open>managed_execution.rs\<close> on these tables. \<open>Plan_Protocol\<close>, \<open>Protocol_Properties\<close>: both as one state machine.
  \<^item> \<open>Effect_Types\<close>, \<open>Effect_Json\<close>, \<open>Effect_Envelope\<close>, \<open>Effect_Authority\<close>: \<^verbatim>\<open>effect_authority.rs\<close>, its data and
    serializers, the envelope compiler, and every operation on runs. \<open>Effect_Safety\<close>, \<open>Effect_Invariants\<close>,
    \<open>Effect_Properties\<close>: the machine of these operations and what holds of it.
  \<^item> \<open>Safe_Files\<close>, \<open>File_Set_Identity\<close>: \<^verbatim>\<open>safe_file_identity.rs\<close>. \<open>File_Set_Package\<close>, \<open>File_Set_Round_Trip\<close>:
    \<^verbatim>\<open>regular_file_set_transfer.rs\<close>. \<open>Managed_Objects\<close>: \<^verbatim>\<open>managed_objects.rs\<close>.
  \<^item> \<open>Managed_Workspace\<close>: \<^verbatim>\<open>managed_workspace.rs\<close>. \<open>Managed_Resources\<close> (handles, writes, reads), \<open>Managed_Outputs\<close>
    (sealing and registration), \<open>Managed_Leases\<close> (scratch, leases and release of mounts): \<^verbatim>\<open>managed_resources.rs\<close>.
    \<open>Resource_Invariants\<close>, \<open>Resource_Properties\<close>: the machine of these operations and what holds of it.
  \<^item> \<open>Execution_Worlds\<close>: \<^verbatim>\<open>execution_world.rs\<close>. \<open>World_Properties\<close>: the machine of its operations, with what other threads
    may do between two locks, and what holds of it.
  \<^item> \<open>Managed_Execution\<close>: \<open>claim_v2_managed_step\<close> and the two finalizers of \<^verbatim>\<open>managed_execution.rs\<close>, over the state of the whole
    Host. \<open>Execution_Steps\<close>: the ways they can end. \<open>Execution_Example\<close>: a Host on which they succeed. \<open>Execution_Properties\<close>: the
    properties that join tables, authority, objects, resources and worlds.

  Definitions carry the names of the source, in its order; a method \<^verbatim>\<open>T::f\<close> of a type that shares the name is \<open>T_f\<close>,
  and the fields of a record carry a short prefix of its type.

  \<^bold>\<open>Conventions.\<close> A fallible function returns \<open>error + value\<close>; one that also changes state returns the pair of result
  and new state, so that what an error leaves behind is visible. \<^verbatim>\<open>u64\<close> and \<^verbatim>\<open>u32\<close> are words, with wrap-around and
  checked operations as in the source; \<^verbatim>\<open>usize\<close> lengths are natural numbers, \<^verbatim>\<open>i64\<close> times are integers.
  \<^verbatim>\<open>BTreeSet\<close> and \<^verbatim>\<open>BTreeMap\<close> are finite sets and maps, a \<^verbatim>\<open>HashMap\<close> is a map that is never iterated in an order that
  matters. Panics of the source (slices, \<^verbatim>\<open>expect\<close>) are values of the model. Every loop of the source runs over a list,
  so no definition needs fuel and all are total.

  \<^bold>\<open>What comes from outside.\<close> Hash functions and JSON quoting are fields of \<open>lib\<close>; results that need more of them state
  it (\<open>collision_free\<close> on the messages involved, \<open>json_str_delimited\<close>). Fresh UUIDs, the clock, the state of the file
  system, whether a Bridge is active, and the answers of effect backends are arguments. An SQL table is the list of its
  rows with the keys, foreign keys and cascades of the schema; a transaction is one step.

  \<^bold>\<open>What is shown.\<close>

  \<^item> Effect authority: the compiled envelope is exactly the intersection of the ceilings, and compiling succeeds exactly
    on consistent inputs; in every reachable state the debits of a run stay within its envelope and no request reaches
    a backend twice, outside its grant, or after the run was retired, as by a revocation of its Bridge; completion happens exactly on
    a complete record, never after a lost outcome.
  \<^item> Plans: the validator equals a declarative reference; in a valid Plan every order that respects the dependencies
    gives each step the revision it names, and ready steps never run out; the seal determines the revision.
  \<^item> Admission and attempts: admission happens exactly under the stated agreement and covers exactly the steps of the
    Host; in every reachable database an attempt rests on a sealed, approved review and the recorded admission, claims
    follow the dependencies unless a coordinator answers for them, a start message is used once per Bridge, and an accepted attempt can always be claimed.
  \<^item> Files: scanning accepts exactly the legal trees, the digest determines the set, selectors stay below their root,
    packages with directory names the receiver accepts round-trip and what is materialized is what was captured. Objects: one artifact per revision.
  \<^item> Frames and capacity: decoding inverts encoding and never reads out of bounds; the window budget is never exceeded
    without the diagnostic override, and by a bounded amount with it.

  \<^item> Workspaces: an alias resolves only to an unrevoked grant of its run, and the projection a worker sees lists exactly what
    the authority allows. Resources: evidence of a write is exact, private files stay within their quota, a sealed
    output does not change and is what gets registered.
  \<^item> Worlds: a process that ran was staged, validated and named by the digests of its request, in a verified world of its
    own run; an invocation runs once per staging; an ended run starts nothing until a world is provisioned for it again; captures are prefixes within the reserved budget; only
    a clean run is reported as exited.
  \<^item> The whole Host: a claim that fails anywhere leaves nothing behind, one that succeeds owns exactly one new run with the authority of its
    step, and no second one succeeds; a step is finalized only on the complete evidence of its run, and once; and
    through claims and finalizations the tables only take steps of the attempt protocol (a refinement).

  Places where the code does not do what it means to are proved as such: selectors that are not normalized although the
  message says so (\<open>Safe_Files\<close>), sets of files that can be packaged but never unpacked (\<open>File_Set_Round_Trip\<close>), a lineage
  check that sees an expired revision (\<open>Managed_Objects\<close>), facts of a process that lose its outputs and a write that is denied after it
  replaced the file (\<open>Resource_Properties\<close>), a
  world that launches after its expiry, a termination that misses a process just started, and a world that is of no
  use after its first process (\<open>World_Properties\<close>).

  \<^bold>\<open>Not modelled.\<close> Deserialization of messages (a JSON column holds the value it encodes). The requester-side
  orchestration and the worker coordinator, which project over many tables and drive external programs; their answers
  about coordinated attempts are arguments. The platform sandboxes below execution worlds, sockets, encryption, discovery,
  the user interface and start-up: effects on the operating system or the network, guarded by the authority modelled here.
  The Windows branches of file identity. Locks: each operation runs under one and is one step, except in execution worlds,
  where a spawn and a termination give the lock up in between and the model says where; a claim holds the lock of the effect
  authority from its first change to its last, and what other threads do to objects and resources after it gave
  up their locks, just before it records the claim, is not part of its step.
\<close>

end
